(* ===== verification/Prelude.thy ===== *)
theory Prelude
  imports Complex_Main "HOL-Library.Char_ord" "HOL-Library.List_Lexorder" "HOL-Library.Product_Lexorder"
begin

text \<open>
  What the components share: the exceptions of the program as values of one datatype, strings
  with the operations of Python's \<open>str\<close> that the source uses, environment mappings, JSON
  documents, relational tables as lists of records with the queries of the source, and the
  interfaces (locales) that several components provide.

  Conventions. A string is a list of ASCII code points. An instant is an \<open>int\<close>, the
  microseconds since the epoch in UTC. A table is the list of its rows. A function that may raise
  returns \<open>exn + 'a\<close>. One database transaction is one HOL function from the state before to the
  state after; rows locked by another transaction, which \<open>FOR UPDATE SKIP LOCKED\<close> leaves out,
  are an argument of the function.
\<close>

section \<open>Collections of facts\<close>

named_theorems row_simps \<open>unfolding of the table operations on a given row\<close>
named_theorems policy_defs \<open>definitions of the pure policy functions\<close>

section \<open>Exceptions as values\<close>

datatype exn =
    HTTPException nat string
  | ValueError string
  | TypeError string
  | RuntimeError string
  | KeyError string
  | IndexError string
  | AttributeError string
  | OSError string
  | OverflowError string
  | SmtpPolicyError string
  | SecurityPayloadError string
  | PlatformOwnerError nat string
  | IntegrityError string

type_synonym 'a res = "exn + 'a"

text \<open>\<open>type(exc).__name__\<close>; an \<open>OSError\<close> value carries the name of its class.\<close>

fun exn_name :: "exn \<Rightarrow> string" where
  "exn_name (HTTPException _ _) = ''HTTPException''"
| "exn_name (ValueError _) = ''ValueError''"
| "exn_name (TypeError _) = ''TypeError''"
| "exn_name (RuntimeError _) = ''RuntimeError''"
| "exn_name (KeyError _) = ''KeyError''"
| "exn_name (IndexError _) = ''IndexError''"
| "exn_name (AttributeError _) = ''AttributeError''"
| "exn_name (OSError class_name) = class_name"
| "exn_name (OverflowError _) = ''OverflowError''"
| "exn_name (SmtpPolicyError _) = ''SmtpPolicyError''"
| "exn_name (SecurityPayloadError _) = ''SecurityPayloadError''"
| "exn_name (PlatformOwnerError _ _) = ''PlatformOwnerError''"
| "exn_name (IntegrityError _) = ''IntegrityError''"

definition res_bind :: "'a res \<Rightarrow> ('a \<Rightarrow> 'b res) \<Rightarrow> 'b res" where
  "res_bind r f = (case r of Inl e \<Rightarrow> Inl e | Inr x \<Rightarrow> f x)"

lemma res_bind_simps [simp]:
  "res_bind (Inl e) f = Inl e"
  "res_bind (Inr x) f = f x"
  by (simp_all add: res_bind_def)

lemma res_bind_Inr [row_simps]:
  "res_bind r f = Inr y \<longleftrightarrow> (\<exists>x. r = Inr x \<and> f x = Inr y)"
  by (cases r) simp_all

lemma res_bind_Inl:
  "res_bind r f = Inl e \<longleftrightarrow> r = Inl e \<or> (\<exists>x. r = Inr x \<and> f x = Inl e)"
  by (cases r) simp_all

section \<open>Strings\<close>

definition is_space :: "char \<Rightarrow> bool" where
  "is_space c = (let n = of_char c :: nat in 9 \<le> n \<and> n \<le> 13 \<or> 28 \<le> n \<and> n \<le> 32)"

definition lower_char :: "char \<Rightarrow> char" where
  "lower_char c =
     (let n = of_char c :: nat in if 65 \<le> n \<and> n \<le> 90 then char_of (n + 32) else c)"

definition upper_char :: "char \<Rightarrow> char" where
  "upper_char c =
     (let n = of_char c :: nat in if 97 \<le> n \<and> n \<le> 122 then char_of (n - 32) else c)"

definition lower :: "string \<Rightarrow> string" where
  "lower s = map lower_char s"

definition upper :: "string \<Rightarrow> string" where
  "upper s = map upper_char s"

definition lstrip :: "string \<Rightarrow> string" where
  "lstrip s = dropWhile is_space s"

definition strip :: "string \<Rightarrow> string" where
  "strip s = rev (lstrip (rev (lstrip s)))"

definition rstrip_char :: "char \<Rightarrow> string \<Rightarrow> string" where
  "rstrip_char c s = rev (dropWhile (\<lambda>d. d = c) (rev s))"

definition is_digit :: "char \<Rightarrow> bool" where
  "is_digit c = (let n = of_char c :: nat in 48 \<le> n \<and> n \<le> 57)"

definition digit_value :: "char \<Rightarrow> nat" where
  "digit_value c = of_char c - 48"

text \<open>\<open>s.split(c)\<close> for a one-character separator: always at least one piece.\<close>

fun split_on :: "char \<Rightarrow> string \<Rightarrow> string list" where
  "split_on c [] = [[]]"
| "split_on c (x # xs) =
     (if x = c then [] # split_on c xs
      else (case split_on c xs of [] \<Rightarrow> [[x]] | p # ps \<Rightarrow> (x # p) # ps))"

text \<open>\<open>c.join(pieces)\<close> for a one-character separator.\<close>

fun join_with :: "char \<Rightarrow> string list \<Rightarrow> string" where
  "join_with c [] = []"
| "join_with c [p] = p"
| "join_with c (p # q # ps) = p @ c # join_with c (q # ps)"

text \<open>\<open>s.rsplit(c, 1)[-1]\<close>: the part after the last \<open>c\<close>, the whole string without one.\<close>

definition after_last :: "char \<Rightarrow> string \<Rightarrow> string" where
  "after_last c s = rev (takeWhile (\<lambda>d. d \<noteq> c) (rev s))"

definition starts_with :: "string \<Rightarrow> string \<Rightarrow> bool" where
  "starts_with p s = (take (length p) s = p)"

definition ends_with :: "string \<Rightarrow> string \<Rightarrow> bool" where
  "ends_with p s = (length p \<le> length s \<and> drop (length s - length p) s = p)"

text \<open>\<open>sub in s\<close> on strings.\<close>

fun contains :: "string \<Rightarrow> string \<Rightarrow> bool" where
  "contains p [] = (p = [])"
| "contains p (x # xs) = (starts_with p (x # xs) \<or> contains p xs)"

lemma of_char_lt_256: "(of_char c :: nat) < 256"
  by (metis of_char_of of_char_mod_256 mod_less_divisor zero_less_numeral)

lemma of_char_lower_char:
  "(of_char (lower_char c) :: nat) =
     (if 65 \<le> (of_char c :: nat) \<and> (of_char c :: nat) \<le> 90 then of_char c + 32 else of_char c)"
  by (simp add: lower_char_def Let_def)

lemma lower_char_idem [simp]: "lower_char (lower_char c) = lower_char c"
proof -
  have "(of_char (lower_char (lower_char c)) :: nat) = of_char (lower_char c)"
    by (auto simp: of_char_lower_char)
  then show ?thesis by simp
qed

lemma lower_idem [simp]: "lower (lower s) = lower s"
  by (simp add: lower_def comp_def)

lemma length_lower [simp]: "length (lower s) = length s"
  by (simp add: lower_def)

lemma lower_Nil_iff [simp]: "lower s = [] \<longleftrightarrow> s = []"
  by (simp add: lower_def)

lemma is_space_lower_char [simp]: "is_space (lower_char c) = is_space c"
  by (auto simp: is_space_def of_char_lower_char Let_def)

lemma hd_dropWhile_not: "dropWhile P xs \<noteq> [] \<Longrightarrow> \<not> P (hd (dropWhile P xs))"
  by (rule hd_dropWhile)

lemma dropWhile_idem' [simp]: "dropWhile P (dropWhile P xs) = dropWhile P xs"
  by (induction xs) auto

lemma dropWhile_eq_self: "xs = [] \<or> \<not> P (hd xs) \<Longrightarrow> dropWhile P xs = xs"
  by (cases xs) auto

lemma strip_ends:
  assumes "strip s \<noteq> []"
  shows "\<not> is_space (hd (strip s))" and "\<not> is_space (last (strip s))"
proof -
  let ?l = "lstrip s"
  have ne: "dropWhile is_space (rev ?l) \<noteq> []" using assms by (simp add: strip_def lstrip_def)
  then show "\<not> is_space (last (strip s))"
    by (simp add: strip_def lstrip_def last_rev hd_dropWhile_not)
  have l: "?l \<noteq> []" using ne by auto
  have h: "\<not> is_space (hd ?l)" using l unfolding lstrip_def by (rule hd_dropWhile_not)
  have "rev ?l = takeWhile is_space (rev ?l) @ dropWhile is_space (rev ?l)" by simp
  then have "?l = rev (dropWhile is_space (rev ?l)) @ rev (takeWhile is_space (rev ?l))"
    by (metis rev_append rev_rev_ident)
  then have "hd ?l = hd (strip s)" using ne
    by (metis hd_append2 lstrip_def rev_is_Nil_conv strip_def)
  with h show "\<not> is_space (hd (strip s))" by simp
qed

lemma lstrip_id: "s = [] \<or> \<not> is_space (hd s) \<Longrightarrow> lstrip s = s"
  unfolding lstrip_def by (rule dropWhile_eq_self)

lemma strip_id: "s = [] \<or> \<not> is_space (hd s) \<and> \<not> is_space (last s) \<Longrightarrow> strip s = s"
  by (auto simp: strip_def lstrip_id hd_rev)

lemma strip_idem [simp]: "strip (strip s) = strip s"
  using strip_ends [of s] by (intro strip_id) auto

lemma split_on_nonempty [simp]: "split_on c s \<noteq> []"
  by (induction s) (auto split: list.splits)

lemma split_on_no_sep: "c \<notin> set s \<Longrightarrow> split_on c s = [s]"
  by (induction s) auto

lemma split_on_append_sep:
  "c \<notin> set p \<Longrightarrow> split_on c (p @ c # s) = p # split_on c s"
  by (induction p) auto

lemma split_on_join_with:
  "ps \<noteq> [] \<Longrightarrow> \<forall>p \<in> set ps. c \<notin> set p \<Longrightarrow> split_on c (join_with c ps) = ps"
  by (induction c ps rule: join_with.induct) (auto simp: split_on_no_sep split_on_append_sep)

lemma split_on_pieces: "p \<in> set (split_on c s) \<Longrightarrow> c \<notin> set p"
proof (induction s arbitrary: p)
  case (Cons x xs)
  then show ?case
    by (cases "split_on c xs") (auto split: if_splits)
qed simp

lemma split_on_pieces_subset: "p \<in> set (split_on c s) \<Longrightarrow> set p \<subseteq> set s"
proof (induction s arbitrary: p)
  case (Cons x xs)
  then show ?case
    by (cases "split_on c xs") (fastforce split: if_splits)+
qed simp

section \<open>Integers in strings\<close>

text \<open>
  \<open>int(s)\<close>: surrounding white space, an optional sign, decimal digits with single underscores
  between them, at most 4300 digits; anything else is a \<open>ValueError\<close> (\<open>None\<close>).
\<close>

fun digits_value :: "nat \<Rightarrow> bool \<Rightarrow> string \<Rightarrow> nat option" where
  "digits_value acc after_digit [] = (if after_digit then Some acc else None)"
| "digits_value acc after_digit (c # cs) =
     (if is_digit c then digits_value (10 * acc + digit_value c) True cs
      else if c = CHR ''_'' \<and> after_digit then digits_value acc False cs
      else None)"

definition int_of_string :: "string \<Rightarrow> int option" where
  "int_of_string s =
     (let t = strip s;
          neg = (starts_with ''-'' t);
          u = (if neg \<or> starts_with ''+'' t then tl t else t)
      in if 4300 < length (filter is_digit u) then None
         else map_option (\<lambda>n. if neg then - int n else int n) (digits_value 0 False u))"

fun nat_to_string :: "nat \<Rightarrow> string" where
  "nat_to_string n =
     (if n < 10 then [char_of (48 + n)]
      else nat_to_string (n div 10) @ [char_of (48 + n mod 10)])"

declare nat_to_string.simps [simp del]

definition int_to_string :: "int \<Rightarrow> string" where
  "int_to_string i = (if i < 0 then CHR ''-'' # nat_to_string (nat (- i)) else nat_to_string (nat i))"

section \<open>Environment mappings\<close>

type_synonym env = "string \<rightharpoonup> string"

definition env_get :: "env \<Rightarrow> string \<Rightarrow> string \<Rightarrow> string" where
  "env_get e name dflt = (case e name of None \<Rightarrow> dflt | Some v \<Rightarrow> v)"

lemma env_get_simps [simp]:
  "e name = Some v \<Longrightarrow> env_get e name d = v"
  "e name = None \<Longrightarrow> env_get e name d = d"
  by (simp_all add: env_get_def)

text \<open>An environment given by an association list, for concrete instances.\<close>

definition env_of :: "(string \<times> string) list \<Rightarrow> env" where
  "env_of kvs = map_of kvs"

section \<open>JSON documents\<close>

text \<open>
  Values as \<open>json.loads\<close> returns them. A float is an exact rational or one of the three special
  values, which Python's decoder accepts; an object keeps the insertion order of its keys.
\<close>

datatype pyfloat = Finite rat | PosInf | NegInf | NaN

datatype json =
    JNull
  | JBool bool
  | JInt int
  | JFloat pyfloat
  | JStr string
  | JList "json list"
  | JObj "(string \<times> json) list"

text \<open>\<open>value.get(key)\<close> on an object: \<open>JNull\<close> when the key is missing.\<close>

definition obj_get :: "(string \<times> json) list \<Rightarrow> string \<Rightarrow> json" where
  "obj_get kvs k = (case map_of kvs k of None \<Rightarrow> JNull | Some v \<Rightarrow> v)"

text \<open>\<open>obj[key] = v\<close>: the value of an existing key is replaced in place, a new key is appended.\<close>

fun obj_set :: "string \<Rightarrow> json \<Rightarrow> (string \<times> json) list \<Rightarrow> (string \<times> json) list" where
  "obj_set k v [] = [(k, v)]"
| "obj_set k v ((k', v') # kvs) = (if k = k' then (k, v) # kvs else (k', v') # obj_set k v kvs)"

definition obj_update :: "(string \<times> json) list \<Rightarrow> (string \<times> json) list \<Rightarrow> (string \<times> json) list" where
  "obj_update kvs new = fold (\<lambda>(k, v) acc. obj_set k v acc) new kvs"

lemma map_of_obj_set [simp]: "map_of (obj_set k v kvs) = (map_of kvs)(k \<mapsto> v)"
  by (induction kvs) auto

lemma obj_get_obj_set [simp]:
  "obj_get (obj_set k v kvs) k' = (if k' = k then v else obj_get kvs k')"
  by (simp add: obj_get_def)

lemma map_of_obj_update: "map_of (obj_update kvs new) = map_of kvs ++ map_of (rev new)"
  unfolding obj_update_def
  by (induction new arbitrary: kvs) (auto simp: map_add_def fun_eq_iff split: option.splits)

text \<open>\<open>sort_keys=True\<close>: the keys of every object in order.\<close>

fun sort_doc :: "json \<Rightarrow> json" where
  "sort_doc (JObj kvs) = JObj (sort_key fst (map (\<lambda>(k, v). (k, sort_doc v)) kvs))"
| "sort_doc (JList vs) = JList (map sort_doc vs)"
| "sort_doc j = j"

lemma map_of_sort_key:
  assumes "distinct (map fst kvs)"
  shows "map_of (sort_key fst kvs) = map_of kvs"
proof -
  have "distinct (map fst (sort_key fst kvs))"
    using assms by (simp add: distinct_map)
  then show ?thesis using assms by (simp add: map_of_inject_set)
qed

text \<open>Python truth of a document: \<open>bool(value)\<close>.\<close>

fun truthy :: "json \<Rightarrow> bool" where
  "truthy JNull = False"
| "truthy (JBool b) = b"
| "truthy (JInt i) = (i \<noteq> 0)"
| "truthy (JFloat f) = (f \<noteq> Finite 0)"
| "truthy (JStr s) = (s \<noteq> [])"
| "truthy (JList xs) = (xs \<noteq> [])"
| "truthy (JObj kvs) = (kvs \<noteq> [])"

text \<open>\<open>a or b\<close> on documents.\<close>

definition json_or :: "json \<Rightarrow> json \<Rightarrow> json" where
  "json_or a b = (if truthy a then a else b)"

text \<open>
  A text column that the program reads with \<open>json.loads\<close> and writes with \<open>json.dumps\<close>: the
  document it decodes to, or text that does not decode.
\<close>

datatype jtext = JText json | BadText string

text \<open>
  Python's \<open>str(value)\<close> on a decoded document (\<open>repr_of\<close> on floats, lists and objects),
  iteration over one, and \<open>int(value)\<close>, which truncates a float.
\<close>

fun json_str :: "(json \<Rightarrow> string) \<Rightarrow> json \<Rightarrow> string" where
  "json_str repr_of JNull = ''None''"
| "json_str repr_of (JBool b) = (if b then ''True'' else ''False'')"
| "json_str repr_of (JInt i) = int_to_string i"
| "json_str repr_of (JStr s) = s"
| "json_str repr_of v = repr_of v"

fun json_iter :: "json \<Rightarrow> json list option" where
  "json_iter (JList xs) = Some xs"
| "json_iter (JObj kvs) = Some (map (\<lambda>(k, v). JStr k) kvs)"
| "json_iter (JStr s) = Some (map (\<lambda>c. JStr [c]) s)"
| "json_iter _ = None"

fun json_int :: "json \<Rightarrow> int res" where
  "json_int (JInt i) = Inr i"
| "json_int (JBool b) = Inr (if b then 1 else 0)"
| "json_int (JFloat f) =
     (case f of
        Finite r \<Rightarrow> Inr (if 0 \<le> r then floor r else ceiling r)
      | NaN \<Rightarrow> Inl (ValueError ''cannot convert float NaN to integer'')
      | _ \<Rightarrow> Inl (OverflowError ''cannot convert float infinity to integer''))"
| "json_int (JStr s) =
     (case int_of_string s of
        None \<Rightarrow> Inl (ValueError ''invalid literal for int()'') | Some i \<Rightarrow> Inr i)"
| "json_int _ = Inl (TypeError ''int() argument must be a string or a number'')"

text \<open>The object in a document, if it is one: \<open>isinstance(value, dict)\<close>.\<close>

fun json_obj :: "json \<Rightarrow> (string \<times> json) list option" where
  "json_obj (JObj kvs) = Some kvs"
| "json_obj _ = None"

fun json_string :: "json \<Rightarrow> string option" where
  "json_string (JStr s) = Some s"
| "json_string _ = None"

section \<open>Tables\<close>

definition find_row :: "('r \<Rightarrow> bool) \<Rightarrow> 'r list \<Rightarrow> 'r option" where
  "find_row P t = List.find P t"

definition update_rows :: "('r \<Rightarrow> bool) \<Rightarrow> ('r \<Rightarrow> 'r) \<Rightarrow> 'r list \<Rightarrow> 'r list" where
  "update_rows P f t = map (\<lambda>r. if P r then f r else r) t"

definition count_rows :: "('r \<Rightarrow> bool) \<Rightarrow> 'r list \<Rightarrow> nat" where
  "count_rows P t = length (filter P t)"

text \<open>
  \<open>SELECT ... WHERE P ORDER BY k LIMIT n\<close>; the sort is stable, so rows that the key does not
  separate come in table order.
\<close>

definition select_rows :: "('r \<Rightarrow> 'k::linorder) \<Rightarrow> ('r \<Rightarrow> bool) \<Rightarrow> nat \<Rightarrow> 'r list \<Rightarrow> 'r list" where
  "select_rows k P n t = take n (sort_key k (filter P t))"

lemma find_row_simps [simp]:
  "find_row P [] = None"
  "find_row P (r # t) = (if P r then Some r else find_row P t)"
  by (simp_all add: find_row_def)

lemma find_row_Some:
  "find_row P t = Some r \<Longrightarrow> r \<in> set t \<and> P r"
  by (induction t) (auto split: if_splits)

lemma find_row_None: "find_row P t = None \<longleftrightarrow> (\<forall>r \<in> set t. \<not> P r)"
  by (induction t) auto

lemma find_row_exI: "r \<in> set t \<Longrightarrow> P r \<Longrightarrow> \<exists>r'. find_row P t = Some r'"
  using find_row_None [of P t] by auto

lemma find_row_append:
  "find_row P (t @ u) = (case find_row P t of None \<Rightarrow> find_row P u | Some r \<Rightarrow> Some r)"
  by (induction t) auto

lemma update_rows_simps [simp]:
  "update_rows P f [] = []"
  "update_rows P f (r # t) = (if P r then f r else r) # update_rows P f t"
  by (simp_all add: update_rows_def)

lemma length_update_rows [simp]: "length (update_rows P f t) = length t"
  by (simp add: update_rows_def)

lemma set_update_rows: "set (update_rows P f t) = (\<lambda>r. if P r then f r else r) ` set t"
  by (simp add: update_rows_def)

lemma map_update_rows:
  "(\<And>r. P r \<Longrightarrow> g (f r) = g r) \<Longrightarrow> map g (update_rows P f t) = map g t"
  by (simp add: update_rows_def)

lemma find_update_rows:
  assumes "\<And>r. P r \<Longrightarrow> key (f r) = key r"
  shows "find_row (\<lambda>r. key r = k) (update_rows P f t) =
           map_option (\<lambda>r. if P r then f r else r) (find_row (\<lambda>r. key r = k) t)"
  using assms by (induction t) auto

lemma find_update_first:
  assumes "find_row P t = Some r" and "P (f r)"
  shows "find_row P (update_rows P f t) = Some (f r)"
  using assms by (induction t) (auto split: if_splits)

lemma find_row_map:
  assumes "\<And>m. m \<in> set t \<Longrightarrow> key (f m) = key m"
  shows "find_row (\<lambda>m. key m = k) (map f t) = map_option f (find_row (\<lambda>m. key m = k) t)"
  using assms by (induction t) auto

lemma find_row_unique:
  assumes "distinct (map key t)" and "r \<in> set t"
  shows "find_row (\<lambda>x. key x = key r) t = Some r"
  using assms by (induction t) (auto simp: rev_image_eqI)

lemma count_rows_le: "count_rows P t \<le> length t"
  by (simp add: count_rows_def)

lemma count_rows_zero: "count_rows P t = 0 \<longleftrightarrow> (\<forall>r \<in> set t. \<not> P r)"
  by (auto simp: count_rows_def filter_empty_conv)

lemma set_select_rows: "set (select_rows k P n t) \<subseteq> {r \<in> set t. P r}"
  unfolding select_rows_def by (auto dest: in_set_takeD)

lemma select_rows_in: "r \<in> set (select_rows k P n t) \<Longrightarrow> r \<in> set t \<and> P r"
  using set_select_rows by fastforce

lemma length_select_rows: "length (select_rows k P n t) \<le> n"
  by (simp add: select_rows_def)

lemma sort_key_Nil_iff [simp]: "sort_key k xs = [] \<longleftrightarrow> xs = []"
  by (metis length_0_conv length_sort)

lemma select_rows_empty: "0 < n \<Longrightarrow> select_rows k P n t = [] \<longleftrightarrow> (\<forall>r \<in> set t. \<not> P r)"
  by (cases n) (auto simp: select_rows_def take_Suc filter_empty_conv)

lemma select_rows_first_min:
  assumes "select_rows k P n t = x # xs" and "y \<in> set t" and "P y"
  shows "k x \<le> k y"
proof -
  have "y \<in> set (sort_key k (filter P t))" using assms(2,3) by simp
  moreover obtain zs where z: "sort_key k (filter P t) = x # zs"
    using assms(1) unfolding select_rows_def
    by (cases "sort_key k (filter P t)"; cases n) auto
  moreover have "sorted (map k (sort_key k (filter P t)))" by simp
  ultimately show ?thesis by auto
qed

lemma select_rows_key_distinct:
  assumes "distinct (map key t)"
  shows "distinct (map key (select_rows k P n t))"
proof -
  have "distinct t" and "inj_on key (set t)" using assms by (simp_all add: distinct_map)
  then have "distinct (sort_key k (filter P t))" and "inj_on key (set (sort_key k (filter P t)))"
    by (auto simp: inj_on_def)
  then have "distinct (map key (sort_key k (filter P t)))" by (simp add: distinct_map)
  then show ?thesis by (simp add: select_rows_def take_map distinct_take flip: take_map)
qed

end
