(* ===== verification/Models.thy ===== *)
theory Models
  imports Prelude
begin

text \<open>
  The relational rows that several components read and write, with the columns the modelled code
  uses. A row type is the SQLAlchemy model of the same name; each field keeps its column's name
  behind a short prefix. Foreign keys are identifiers, nullable columns are options, timestamps
  are instants.
\<close>

section \<open>main.py\<close>

record tenant_row =
  tn_id :: string
  tn_name :: string
  tn_enabled :: bool
  tn_quota :: int

record user_row =
  us_id :: string
  us_tenant_id :: string
  us_email :: string
  us_password_hash :: string
  us_role :: string
  us_enabled :: bool

record core_message_row =
  cm_id :: string
  cm_tenant_id :: string
  cm_recipient :: string
  cm_sender :: string
  cm_subject :: string
  cm_status :: string
  cm_created_at :: int

record suppression_row =
  sp_id :: string
  sp_tenant_id :: string
  sp_email :: string
  sp_reason :: string

record postal_event_row =
  pe_id :: string
  pe_event_type :: string
  pe_correlation_id :: string
  pe_message_id :: string
  pe_tenant_id :: string
  pe_payload :: jtext
  pe_state :: string
  pe_attempts :: int
  pe_last_error :: "string option"
  pe_created_at :: int
  pe_updated_at :: int

record email_outbox_row =
  eo_id :: string
  eo_tenant_id :: string
  eo_message_id :: string
  eo_operation_id :: "string option"
  eo_correlation_id :: "string option"
  eo_payload :: jtext
  eo_priority :: int
  eo_state :: string
  eo_attempts :: int
  eo_provider_message_id :: "string option"
  eo_last_error :: "string option"
  eo_next_attempt_at :: "int option"
  eo_created_at :: int
  eo_updated_at :: int

section \<open>provider.py\<close>

record mail_policy_row =
  mp_tenant_id :: string
  mp_sending_disabled :: bool
  mp_sandbox_mode :: bool
  mp_daily_limit :: int
  mp_hourly_limit :: int
  mp_allowed_test_recipients_json :: jtext
  mp_reputation_state :: string
  mp_warmup_daily_limit :: int
  mp_warmup_hourly_limit :: int

record provider_message_row =
  pm_id :: string
  pm_tenant_id :: string
  pm_correlation_id :: string
  pm_idempotency_key :: string
  pm_request_hash :: string
  pm_sender :: string
  pm_recipient :: string
  pm_subject :: string
  pm_payload_json :: jtext
  pm_stream :: string
  pm_status :: string
  pm_sandbox :: bool
  pm_provider_message_id :: "string option"
  pm_attempts :: int
  pm_available_at :: int
  pm_lease_expires_at :: "int option"
  pm_last_error :: "string option"
  pm_created_at :: int
  pm_updated_at :: int

record provider_event_row =
  pv_id :: string
  pv_tenant_id :: string
  pv_message_id :: string
  pv_kind :: string
  pv_payload_json :: jtext
  pv_state :: string
  pv_attempts :: int
  pv_available_at :: int
  pv_last_error :: "string option"
  pv_updated_at :: int
  pv_created_at :: int

record sandbox_capture_row =
  sc_message_id :: string
  sc_content_json :: jtext

record provider_audit_row =
  pa_tenant_id :: string
  pa_actor :: string
  pa_action :: string
  pa_resource_id :: "string option"
  pa_outcome :: string
  pa_correlation_id :: "string option"

section \<open>saas.py, preferences.py, billing.py\<close>

record profile_row =
  pf_id :: string
  pf_tenant_id :: string
  pf_email :: "string option"

record consent_row =
  cs_tenant_id :: string
  cs_profile_id :: string
  cs_topic :: string
  cs_status :: string
  cs_occurred_at :: int

record preference_row =
  pr_tenant_id :: string
  pr_profile_id :: string
  pr_topic :: string
  pr_subscribed :: bool

record scoped_suppression_row =
  ss_tenant_id :: string
  ss_email :: string
  ss_scope :: string
  ss_scope_id :: string

record subscription_row =
  sb_id :: string
  sb_tenant_id :: string
  sb_price_id :: string
  sb_status :: string

end
