(* ===== verification/SmtpPolicy.thy ===== *)
theory SmtpPolicy
  imports Prelude
begin

text \<open>
  The fail-closed configuration policies of outbound mail, all pure functions of an environment
  mapping: \<open>smtp_policy.py\<close> (streams of an SMTP credential and the two activation gates of the
  SECURITY stream), \<open>delivery_safety.py\<close> (the five controls of general live delivery) and
  \<open>provider_outcome.py\<close> (what a failed submission may mean and when it may be retried).
  A \<open>frozenset\<close> of strings is the list of its elements without duplicates. The message of the
  exception for unknown streams leaves out the interpolated list.
\<close>

section \<open>smtp_policy.py\<close>

definition APPROVED_STREAMS :: "string list" where
  "APPROVED_STREAMS = [''TRANSACTIONAL'', ''SECURITY'', ''SYSTEM'', ''MARKETING'', ''BULK'']"

definition TRUE_VALUES :: "string list" where
  "TRUE_VALUES = [''1'', ''true'', ''yes'', ''on'']"

definition FALSE_VALUES :: "string list" where
  "FALSE_VALUES = [''0'', ''false'', ''no'', ''off'', '''']"

text \<open>\<open>_EMAIL.fullmatch\<close>: one \<open>@\<close>, no white space, and an inner dot after the \<open>@\<close>.\<close>

definition email_fullmatch :: "string \<Rightarrow> bool" where
  "email_fullmatch s =
     (case split_on CHR ''@'' s of
        [l, d] \<Rightarrow> l \<noteq> [] \<and> \<not> list_ex is_space s \<and> CHR ''.'' \<in> set (butlast (tl d))
      | _ \<Rightarrow> False)"

definition boolean_setting :: "string \<Rightarrow> env \<Rightarrow> bool res" where
  "boolean_setting name e =
     (let value = lower (strip (env_get e name ''false''))
      in if value \<in> set TRUE_VALUES then Inr True
         else if value \<in> set FALSE_VALUES then Inr False
         else Inl (SmtpPolicyError (name @ '' must be a boolean value'')))"

fun json_stream_name :: "json \<Rightarrow> string option" where
  "json_stream_name (JStr s) = (if strip s = [] then None else Some s)"
| "json_stream_name _ = None"

definition parse_allowed_streams :: "jtext \<Rightarrow> string list res" where
  "parse_allowed_streams raw =
     (case raw of
        BadText _ \<Rightarrow> Inl (SmtpPolicyError ''allowed streams must be valid JSON'')
      | JText decoded \<Rightarrow>
          (case decoded of
             JList (d # ds) \<Rightarrow>
               (if list_ex (\<lambda>item. json_stream_name item = None) (d # ds)
                then Inl (SmtpPolicyError ''allowed streams must contain non-empty strings'')
                else
                  (let normalized = map (\<lambda>item. upper (strip (the (json_stream_name item)))) (d # ds)
                   in if \<not> distinct normalized
                      then Inl (SmtpPolicyError ''allowed streams must not contain duplicates'')
                      else if \<not> list_all (\<lambda>s. s \<in> set APPROVED_STREAMS) normalized
                      then Inl (SmtpPolicyError ''unsupported SMTP streams'')
                      else Inr normalized))
           | _ \<Rightarrow> Inl (SmtpPolicyError ''allowed streams must be a non-empty JSON array'')))"

definition select_credential_stream :: "jtext \<Rightarrow> string res" where
  "select_credential_stream raw =
     res_bind (parse_allowed_streams raw) (\<lambda>streams.
       case streams of
         [s] \<Rightarrow> Inr s
       | _ \<Rightarrow> Inl (SmtpPolicyError
                 ''SMTP credentials must be dedicated to exactly one message stream''))"

definition security_stream_enabled :: "env \<Rightarrow> bool res" where
  "security_stream_enabled e = boolean_setting ''KLYROW_SECURITY_SMTP_ENABLED'' e"

definition security_live_delivery_enabled :: "env \<Rightarrow> bool res" where
  "security_live_delivery_enabled e =
     res_bind (security_stream_enabled e) (\<lambda>on.
       if on then boolean_setting ''KLYROW_SECURITY_SMTP_LIVE_ENABLED'' e else Inr False)"

definition security_production_approved :: "env \<Rightarrow> bool res" where
  "security_production_approved e =
     boolean_setting ''KLYROW_SECURITY_SMTP_PRODUCTION_APPROVED'' e"

definition security_canary_recipients :: "env \<Rightarrow> string list res" where
  "security_canary_recipients e =
     (let raw = strip (env_get e ''KLYROW_SECURITY_SMTP_CANARY_RECIPIENTS'' [])
      in if raw = [] then Inr []
         else
           (let items = map (\<lambda>item. lower (strip item))
                             (filter (\<lambda>item. strip item \<noteq> []) (split_on CHR '','' raw))
            in if \<not> distinct items
               then Inl (SmtpPolicyError ''SECURITY canary recipients must not contain duplicates'')
               else if 10 < length items
               then Inl (SmtpPolicyError ''SECURITY canary recipients are limited to ten addresses'')
               else if \<not> list_all email_fullmatch items
               then Inl (SmtpPolicyError ''SECURITY canary recipient is not a valid email address'')
               else Inr items))"

definition security_canary_max_deliveries :: "env \<Rightarrow> int res" where
  "security_canary_max_deliveries e =
     res_bind (security_production_approved e) (\<lambda>approved.
       if approved then Inr 0
       else
         (case int_of_string (strip (env_get e ''KLYROW_SECURITY_SMTP_CANARY_MAX_DELIVERIES'' ''1'')) of
            None \<Rightarrow> Inl (SmtpPolicyError
                      ''KLYROW_SECURITY_SMTP_CANARY_MAX_DELIVERIES must be an integer'')
          | Some value \<Rightarrow>
              (if \<not> (1 \<le> value \<and> value \<le> 10)
               then Inl (SmtpPolicyError
                      ''KLYROW_SECURITY_SMTP_CANARY_MAX_DELIVERIES must be between 1 and 10'')
               else Inr value)))"

definition security_recipient_allowed :: "string \<Rightarrow> env \<Rightarrow> bool res" where
  "security_recipient_allowed recipient e =
     res_bind (security_live_delivery_enabled e) (\<lambda>live.
       if \<not> live then Inr False
       else res_bind (security_production_approved e) (\<lambda>approved.
         if approved then Inr True
         else res_bind (security_canary_recipients e) (\<lambda>recipients.
           Inr (lower (strip recipient) \<in> set recipients))))"

definition effective_sandbox :: "string \<Rightarrow> bool \<Rightarrow> bool \<Rightarrow> env \<Rightarrow> bool res" where
  "effective_sandbox stream tenant_sandbox_mode tenant_sending_disabled e =
     (let normalized = upper (strip stream)
      in if normalized \<notin> set APPROVED_STREAMS
         then Inl (SmtpPolicyError ''unsupported SMTP stream'')
         else if normalized \<noteq> ''SECURITY'' then Inr True
         else res_bind (security_stream_enabled e) (\<lambda>on.
           if \<not> on then Inl (SmtpPolicyError ''SECURITY SMTP stream is disabled'')
           else res_bind (security_live_delivery_enabled e) (\<lambda>live.
             if \<not> live then Inr True
             else if tenant_sandbox_mode \<or> tenant_sending_disabled
             then Inl (SmtpPolicyError
                    ''SECURITY live delivery requires an enabled non-sandbox tenant policy'')
             else Inr False)))"

lemmas smtp_policy_defs [policy_defs] =
  security_stream_enabled_def security_live_delivery_enabled_def security_production_approved_def
  security_recipient_allowed_def effective_sandbox_def Let_def

section \<open>delivery_safety.py\<close>

definition DISABLED_EMAIL_CONTROLS :: "(string \<times> bool) list" where
  "DISABLED_EMAIL_CONTROLS =
     [(''KLYROW_SAFE_MODE'', True),
      (''KLYROW_PRODUCTION_GATE_APPROVED'', False),
      (''LIVE_EMAIL_DELIVERY'', False),
      (''EXTERNAL_EMAIL_DELIVERY'', False),
      (''PRODUCTION_PROVIDER_ROUTING'', False)]"

definition LIVE_EMAIL_CONTROLS :: "(string \<times> bool) list" where
  "LIVE_EMAIL_CONTROLS = map (\<lambda>(name, value). (name, \<not> value)) DISABLED_EMAIL_CONTROLS"

record activation =
  act_scope :: string
  act_mode :: string
  act_live_delivery_enabled :: bool
  act_safe_mode :: bool
  act_controls :: "(string \<times> bool option) list"
  act_missing :: "string list"
  act_invalid :: "string list"
  act_blocking :: "string list"
  act_stack_consistency :: string
  act_end_to_end_delivery :: string

text \<open>One pass of the loop over the controls: (controls, missing, invalid) so far.\<close>

definition control_step ::
  "env \<Rightarrow> string \<times> bool \<Rightarrow> (string \<times> bool option) list \<times> string list \<times> string list
     \<Rightarrow> (string \<times> bool option) list \<times> string list \<times> string list" where
  "control_step e control acc =
     (case (control, acc) of
        ((name, dflt), (controls, missing, invalid)) \<Rightarrow>
          (case e name of
             None \<Rightarrow> (controls @ [(name, Some dflt)], missing @ [name], invalid)
           | Some raw \<Rightarrow>
               (let value = lower (strip raw)
                in if value \<noteq> ''true'' \<and> value \<noteq> ''false''
                   then (controls @ [(name, None)], missing, invalid @ [name])
                   else (controls @ [(name, Some (value = ''true''))], missing, invalid))))"

definition email_activation_status :: "env \<Rightarrow> activation" where
  "email_activation_status e =
     (case fold (control_step e) DISABLED_EMAIL_CONTROLS ([], [], []) of
        (controls, missing, invalid) \<Rightarrow>
          (let blockers = map fst (filter (\<lambda>(name, expected).
                            map_of controls name \<noteq> Some (Some expected)) LIVE_EMAIL_CONTROLS);
               enabled = (missing = [] \<and> invalid = [] \<and> blockers = [])
           in \<lparr>act_scope = ''process_general_email'',
               act_mode = (if enabled then ''live_eligible'' else ''disabled''),
               act_live_delivery_enabled = enabled,
               act_safe_mode = (\<not> enabled),
               act_controls = controls,
               act_missing = missing,
               act_invalid = invalid,
               act_blocking = blockers,
               act_stack_consistency = ''unverified'',
               act_end_to_end_delivery = ''unverified''\<rparr>))"

definition live_email_delivery_enabled :: "env \<Rightarrow> bool" where
  "live_email_delivery_enabled e = act_live_delivery_enabled (email_activation_status e)"

definition safe_mode_enabled :: "env \<Rightarrow> bool" where
  "safe_mode_enabled e = (\<not> live_email_delivery_enabled e)"

section \<open>provider_outcome.py\<close>

definition INDETERMINATE :: string where
  "INDETERMINATE = ''INDETERMINATE''"

text \<open>The exceptions a submission over \<open>httpx\<close> can end with, as the function tells them apart.\<close>

datatype provider_exn =
    HTTPStatusError nat
  | TimeoutException
  | NetworkError
  | RemoteProtocolError
  | OtherError string

fun provider_outcome_is_ambiguous :: "provider_exn \<Rightarrow> bool" where
  "provider_outcome_is_ambiguous (HTTPStatusError status) = (500 \<le> status)"
| "provider_outcome_is_ambiguous TimeoutException = True"
| "provider_outcome_is_ambiguous NetworkError = True"
| "provider_outcome_is_ambiguous RemoteProtocolError = True"
| "provider_outcome_is_ambiguous (OtherError _) = False"

definition reconcile_before_retry :: "string \<Rightarrow> string option \<Rightarrow> bool \<Rightarrow> bool" where
  "reconcile_before_retry state provider_message_id provider_absence_confirmed =
     (if state \<noteq> INDETERMINATE then True
      else if provider_message_id \<noteq> None \<and> provider_message_id \<noteq> Some [] then False
      else provider_absence_confirmed)"

section \<open>Lemmas\<close>

lemma boolean_setting_True_iff [policy_defs]:
  "boolean_setting name e = Inr True \<longleftrightarrow>
     (\<exists>v. e name = Some v \<and> lower (strip v) \<in> set TRUE_VALUES)"
proof (cases "e name")
  case None
  have "lower (strip ''false'') \<notin> set TRUE_VALUES" by code_simp
  with None show ?thesis by (simp add: boolean_setting_def Let_def)
next
  case (Some v)
  then show ?thesis by (simp add: boolean_setting_def Let_def)
qed

lemma security_live_iff:
  "security_live_delivery_enabled e = Inr True \<longleftrightarrow>
     boolean_setting ''KLYROW_SECURITY_SMTP_ENABLED'' e = Inr True \<and>
     boolean_setting ''KLYROW_SECURITY_SMTP_LIVE_ENABLED'' e = Inr True"
  by (auto simp: security_live_delivery_enabled_def security_stream_enabled_def res_bind_Inr
      split: if_splits)

lemma security_enabled_of_live:
  "security_live_delivery_enabled e = Inr True \<Longrightarrow> security_stream_enabled e = Inr True"
  by (simp add: security_live_iff security_stream_enabled_def)

lemma parse_allowed_streams_sound:
  assumes "parse_allowed_streams raw = Inr streams"
  shows "streams \<noteq> []" and "distinct streams" and "set streams \<subseteq> set APPROVED_STREAMS"
  using assms
  by (auto simp: parse_allowed_streams_def Let_def list_all_iff
      split: jtext.splits json.splits list.splits if_splits)

lemma canary_recipients_sound:
  assumes "security_canary_recipients e = Inr rs"
  shows "length rs \<le> 10 \<and> distinct rs \<and> list_all email_fullmatch rs"
proof (cases "strip (env_get e ''KLYROW_SECURITY_SMTP_CANARY_RECIPIENTS'' []) = []")
  case False
  then show ?thesis
    using assms by (auto simp: security_canary_recipients_def Let_def split: if_splits)
qed (use assms in \<open>simp add: security_canary_recipients_def\<close>)

definition control_value :: "env \<Rightarrow> string \<Rightarrow> bool \<Rightarrow> bool option" where
  "control_value e name dflt =
     (case e name of
        None \<Rightarrow> Some dflt
      | Some raw \<Rightarrow> (if lower (strip raw) = ''true'' then Some True
                   else if lower (strip raw) = ''false'' then Some False else None))"

lemma control_step_eq:
  "control_step e (n, d) (c, m, i) =
     (c @ [(n, control_value e n d)], m @ (if e n = None then [n] else []),
      i @ (if control_value e n d = None then [n] else []))"
  by (auto simp: control_step_def control_value_def Let_def split: option.splits)

lemma control_fold:
  "fold (control_step e) cs (c, m, i) =
     (c @ map (\<lambda>(n, d). (n, control_value e n d)) cs,
      m @ map fst (filter (\<lambda>(n, d). e n = None) cs),
      i @ map fst (filter (\<lambda>(n, d). control_value e n d = None) cs))"
proof (induction cs arbitrary: c m i)
  case (Cons x cs)
  then show ?case by (cases x) (simp add: control_step_eq)
qed simp

lemma map_of_values:
  "(n, d) \<in> set cs \<Longrightarrow> distinct (map fst cs) \<Longrightarrow>
     map_of (map (\<lambda>(n, d). (n, f n d)) cs) n = Some (f n d)"
  by (induction cs) (auto simp: rev_image_eqI)

lemma control_value_live:
  "control_value e n d = Some (\<not> d) \<longleftrightarrow>
     (\<exists>raw. e n = Some raw \<and> lower (strip raw) = (if d then ''false'' else ''true''))"
  by (cases "e n") (auto simp: control_value_def)

lemma distinct_controls: "distinct (map fst DISABLED_EMAIL_CONTROLS)"
  by (simp add: DISABLED_EMAIL_CONTROLS_def)

lemma blocking_empty_iff:
  "act_blocking (email_activation_status e) = [] \<longleftrightarrow>
     (\<forall>(n, d) \<in> set DISABLED_EMAIL_CONTROLS. control_value e n d = Some (\<not> d))"
proof -
  have "act_blocking (email_activation_status e) = [] \<longleftrightarrow>
      (\<forall>(n, d) \<in> set DISABLED_EMAIL_CONTROLS.
         map_of (map (\<lambda>(n, d). (n, control_value e n d)) DISABLED_EMAIL_CONTROLS) n
           = Some (Some (\<not> d)))"
    by (auto simp: email_activation_status_def control_fold Let_def LIVE_EMAIL_CONTROLS_def
        filter_empty_conv)
  then show ?thesis by (auto simp: map_of_values [OF _ distinct_controls])
qed

lemma enabled_iff_no_blocking:
  "live_email_delivery_enabled e \<longleftrightarrow> act_blocking (email_activation_status e) = []"
proof
  show "act_blocking (email_activation_status e) = []" if "live_email_delivery_enabled e"
    using that
    by (auto simp: live_email_delivery_enabled_def email_activation_status_def control_fold Let_def)
next
  assume b: "act_blocking (email_activation_status e) = []"
  have "e n \<noteq> None \<and> control_value e n d \<noteq> None" if "(n, d) \<in> set DISABLED_EMAIL_CONTROLS" for n d
    using b that unfolding blocking_empty_iff by (fastforce simp: control_value_live)
  then have "filter (\<lambda>(n, d). e n = None) DISABLED_EMAIL_CONTROLS = []"
      "filter (\<lambda>(n, d). control_value e n d = None) DISABLED_EMAIL_CONTROLS = []"
    by (auto simp: filter_empty_conv)
  with b show "live_email_delivery_enabled e"
    by (simp add: live_email_delivery_enabled_def email_activation_status_def control_fold Let_def)
qed

section \<open>Properties\<close>

text \<open>
  SECURITY mail leaves the internal sandbox (\<open>effective_sandbox\<close> returns \<open>False\<close>) exactly when
  the stream is SECURITY, both activation gates are spelled out as true, and the tenant's policy
  has independently enabled sending outside the sandbox. In every other case the submission stays
  in the sandbox or is refused.
\<close>

theorem effective_sandbox_exit_iff:
  "effective_sandbox stream tenant_sandbox tenant_disabled e = Inr False \<longleftrightarrow>
     upper (strip stream) = ''SECURITY'' \<and>
     (\<exists>v. e ''KLYROW_SECURITY_SMTP_ENABLED'' = Some v \<and> lower (strip v) \<in> set TRUE_VALUES) \<and>
     (\<exists>v. e ''KLYROW_SECURITY_SMTP_LIVE_ENABLED'' = Some v \<and> lower (strip v) \<in> set TRUE_VALUES) \<and>
     \<not> tenant_sandbox \<and> \<not> tenant_disabled"
proof -
  have sec: "''SECURITY'' \<in> set APPROVED_STREAMS" by (simp add: APPROVED_STREAMS_def)
  have "effective_sandbox stream tenant_sandbox tenant_disabled e = Inr False \<longleftrightarrow>
      upper (strip stream) = ''SECURITY'' \<and> security_stream_enabled e = Inr True \<and>
      security_live_delivery_enabled e = Inr True \<and> \<not> tenant_sandbox \<and> \<not> tenant_disabled"
    using sec by (auto simp: effective_sandbox_def Let_def res_bind_Inr split: if_splits)
  then show ?thesis
    by (auto simp: security_live_iff security_stream_enabled_def boolean_setting_True_iff)
qed

text \<open>
  An external SECURITY recipient is authorised exactly when live delivery is on and either
  production is approved or the trimmed, lower-cased address is one of the configured canary
  recipients; and the canary list that the check accepts never has more than ten addresses, has no
  duplicates and only holds addresses of the required shape.
\<close>

theorem security_recipient_allowed_iff:
  "(security_recipient_allowed r e = Inr True \<longleftrightarrow>
     security_live_delivery_enabled e = Inr True \<and>
     (security_production_approved e = Inr True \<or>
      security_production_approved e = Inr False \<and>
        (\<exists>rs. security_canary_recipients e = Inr rs \<and> lower (strip r) \<in> set rs))) \<and>
   (case security_canary_recipients e of
      Inl _ \<Rightarrow> True
    | Inr rs \<Rightarrow> length rs \<le> 10 \<and> distinct rs \<and> list_all email_fullmatch rs)"
proof -
  have "security_recipient_allowed r e = Inr True \<longleftrightarrow>
     security_live_delivery_enabled e = Inr True \<and>
     (security_production_approved e = Inr True \<or>
      security_production_approved e = Inr False \<and>
        (\<exists>rs. security_canary_recipients e = Inr rs \<and> lower (strip r) \<in> set rs))"
    by (auto simp: security_recipient_allowed_def res_bind_Inr split: if_splits)
  then show ?thesis by (auto dest: canary_recipients_sound split: sum.split)
qed

text \<open>
  General live delivery is on exactly when every one of the five controls is present in the
  environment and, trimmed and lower-cased, spells the live value (\<open>false\<close> for safe mode,
  \<open>true\<close> for the other four); a missing or misspelled control always closes the gate.
\<close>

theorem live_email_delivery_iff:
  "live_email_delivery_enabled e \<longleftrightarrow>
     (\<forall>(name, disabled) \<in> set DISABLED_EMAIL_CONTROLS.
        \<exists>raw. e name = Some raw \<and> lower (strip raw) = (if disabled then ''false'' else ''true''))"
  by (simp add: enabled_iff_no_blocking blocking_empty_iff control_value_live)

definition live_environment :: env where
  "live_environment =
     env_of [(''KLYROW_SAFE_MODE'', ''false''), (''KLYROW_PRODUCTION_GATE_APPROVED'', '' TRUE ''),
             (''LIVE_EMAIL_DELIVERY'', ''true''), (''EXTERNAL_EMAIL_DELIVERY'', ''true''),
             (''PRODUCTION_PROVIDER_ROUTING'', ''true'')]"

theorem live_email_delivery_iff_witness:
  "live_email_delivery_enabled live_environment \<and>
   \<not> live_email_delivery_enabled (live_environment(''LIVE_EMAIL_DELIVERY'' := Some ''1'')) \<and>
   \<not> live_email_delivery_enabled (live_environment(''KLYROW_SAFE_MODE'' := None))"
proof -
  have "lower (strip ''false'') = ''false''" "lower (strip '' TRUE '') = ''true''"
      "lower (strip ''true'') = ''true''" "lower (strip ''1'') = ''1''"
    by code_simp+
  then show ?thesis
    by (simp add: live_email_delivery_iff DISABLED_EMAIL_CONTROLS_def live_environment_def env_of_def)
qed

end
