(* ===== verification/Guards.thy ===== *)
theory Guards
  imports Models SmtpPolicy
begin

text \<open>
  \<open>guards.py\<close>: the guard chain that every route runs before it accepts a message. The database
  is a record of the tables the guards read; the guards write nothing, so each is a function from
  the tables to \<open>unit res\<close>. \<open>scalar(select(...))\<close> is the first matching row. Times are instants
  in microseconds. Python's \<open>str\<close> of a decoded JSON float, list or object is the argument
  \<open>repr_of\<close>.
\<close>

section \<open>State\<close>

record guard_db =
  gd_tenants :: "tenant_row list"
  gd_suppressions :: "suppression_row list"
  gd_scoped_suppressions :: "scoped_suppression_row list"
  gd_profiles :: "profile_row list"
  gd_preferences :: "preference_row list"
  gd_consents :: "consent_row list"
  gd_policies :: "mail_policy_row list"
  gd_messages :: "core_message_row list"
  gd_provider_messages :: "provider_message_row list"
  gd_subscriptions :: "subscription_row list"

record authorization =
  au_tenant :: tenant_row
  au_sender :: string
  au_recipient :: string
  au_stream :: string
  au_sandbox :: bool

section \<open>The guards\<close>

definition HARD_SUPPRESSION_REASONS :: "string list" where
  "HARD_SUPPRESSION_REASONS =
     [''hard_bounce'', ''complaint'', ''bounced'', ''complained'', ''invalid'', ''abuse'', ''policy'']"

definition stream_priority :: "string \<Rightarrow> int" where
  "stream_priority stream =
     (case map_of [(''SECURITY'', 0), (''SYSTEM'', 10), (''TRANSACTIONAL'', 20),
                   (''MARKETING'', 80), (''BULK'', 100)] (upper stream) of
        None \<Rightarrow> 1000 | Some p \<Rightarrow> p)"

definition suppression_record :: "guard_db \<Rightarrow> string \<Rightarrow> string \<Rightarrow> suppression_row option" where
  "suppression_record db tenant_id email =
     find_row (\<lambda>r. sp_tenant_id r = tenant_id \<and> sp_email r = lower email) (gd_suppressions db)"

definition enforce_suppression ::
  "guard_db \<Rightarrow> string \<Rightarrow> string \<Rightarrow> string \<Rightarrow> string option \<Rightarrow> unit res" where
  "enforce_suppression db tenant_id email stream campaign_id =
     (let normalized_stream = lower stream;
          normalized_email = lower email;
          item = suppression_record db tenant_id normalized_email;
          hard = (case item of None \<Rightarrow> False
                  | Some r \<Rightarrow> sp_reason r \<in> set HARD_SUPPRESSION_REASONS
                             \<or> normalized_stream = ''marketing'')
      in if hard then Inl (HTTPException 422 ''recipient_suppressed'')
         else if normalized_stream = ''marketing'' \<and> campaign_id \<noteq> None \<and> campaign_id \<noteq> Some []
         then (case find_row (\<lambda>r. ss_tenant_id r = tenant_id \<and> ss_email r = normalized_email
                              \<and> ss_scope r = ''LIST'' \<and> Some (ss_scope_id r) = campaign_id)
                     (gd_scoped_suppressions db) of
                 Some _ \<Rightarrow> Inl (HTTPException 422 ''recipient_suppressed'')
               | None \<Rightarrow> Inr ())
         else Inr ())"

text \<open>\<open>order_by(Consent.occurred_at.desc())\<close>, first row.\<close>

definition latest_consent :: "guard_db \<Rightarrow> string \<Rightarrow> string \<Rightarrow> string \<Rightarrow> consent_row option" where
  "latest_consent db tenant_id profile_id topic =
     (case select_rows (\<lambda>c. - cs_occurred_at c)
             (\<lambda>c. cs_tenant_id c = tenant_id \<and> cs_profile_id c = profile_id \<and> cs_topic c = topic)
             1 (gd_consents db) of
        [] \<Rightarrow> None | c # _ \<Rightarrow> Some c)"

definition enforce_consent :: "guard_db \<Rightarrow> string \<Rightarrow> string \<Rightarrow> string \<Rightarrow> string \<Rightarrow> unit res" where
  "enforce_consent db tenant_id email stream topic =
     (if lower stream \<noteq> ''marketing'' then Inr ()
      else
        (case find_row (\<lambda>p. pf_tenant_id p = tenant_id \<and> pf_email p = Some (lower email))
                (gd_profiles db) of
           None \<Rightarrow> Inl (HTTPException 422 ''marketing_consent_required'')
         | Some profile \<Rightarrow>
             (let preference = find_row (\<lambda>p. pr_tenant_id p = tenant_id
                                  \<and> pr_profile_id p = pf_id profile \<and> pr_topic p = topic)
                                (gd_preferences db);
                  latest = latest_consent db tenant_id (pf_id profile) topic
              in if preference = None \<or> \<not> pr_subscribed (the preference) \<or> latest = None
                    \<or> cs_status (the latest) \<noteq> ''granted''
                 then Inl (HTTPException 422 ''marketing_consent_required'')
                 else Inr ())))"

definition allowed_test_recipients ::
  "(json \<Rightarrow> string) \<Rightarrow> mail_policy_row \<Rightarrow> string list option" where
  "allowed_test_recipients repr_of policy =
     (case mp_allowed_test_recipients_json policy of
        BadText t \<Rightarrow> (if t = [] then Some [] else None)
      | JText d \<Rightarrow> map_option (map (\<lambda>v. lower (json_str repr_of v))) (json_iter d))"

definition enforce_sandbox_recipient ::
  "guard_db \<Rightarrow> (json \<Rightarrow> string) \<Rightarrow> env \<Rightarrow> string \<Rightarrow> string \<Rightarrow> bool \<Rightarrow> unit res" where
  "enforce_sandbox_recipient db repr_of e tenant_id recipient sandbox =
     (if \<not> sandbox then Inr ()
      else
        (case find_row (\<lambda>p. mp_tenant_id p = tenant_id) (gd_policies db) of
           None \<Rightarrow> Inr ()
         | Some policy \<Rightarrow>
             (case allowed_test_recipients repr_of policy of
                None \<Rightarrow> Inl (HTTPException 503 ''sandbox_recipient_policy_invalid'')
              | Some allowed \<Rightarrow>
                  (let sink_domain = lower (env_get e ''KLYROW_SANDBOX_DOMAIN'' ''klyrow-sink.test'');
                       normalized = lower recipient
                   in if normalized \<notin> set allowed \<and> \<not> ends_with (CHR ''@'' # sink_domain) normalized
                      then Inl (HTTPException 403 ''sandbox_recipient_not_allowed'')
                      else Inr ()))))"

definition HOUR :: int where "HOUR = 3600 * 1000000"
definition DAY :: int where "DAY = 24 * HOUR"

definition sent_since :: "guard_db \<Rightarrow> string \<Rightarrow> int \<Rightarrow> int" where
  "sent_since db tenant_id t =
     int (count_rows (\<lambda>m. cm_tenant_id m = tenant_id \<and> t \<le> cm_created_at m) (gd_messages db))
     + int (count_rows (\<lambda>m. pm_tenant_id m = tenant_id \<and> t \<le> pm_created_at m)
              (gd_provider_messages db))"

definition enforce_warmup_quota ::
  "guard_db \<Rightarrow> int \<Rightarrow> tenant_row \<Rightarrow> mail_policy_row option \<Rightarrow> unit res" where
  "enforce_warmup_quota db current tenant policy_row =
     (case policy_row of
        None \<Rightarrow> Inr ()
      | Some policy \<Rightarrow>
          (let hourly = sent_since db (tn_id tenant) (current - HOUR);
               daily = sent_since db (tn_id tenant) (current - DAY);
               hourly_limit0 = min (mp_hourly_limit policy) (mp_warmup_hourly_limit policy);
               daily_limit0 = min (min (mp_daily_limit policy) (mp_warmup_daily_limit policy))
                                  (tn_quota tenant);
               limited = (mp_reputation_state policy = ''LIMITED'');
               hourly_limit = (if limited then max 1 (hourly_limit0 div 2) else hourly_limit0);
               daily_limit = (if limited then max 1 (daily_limit0 div 2) else daily_limit0)
           in if hourly_limit \<le> hourly \<or> daily_limit \<le> daily
              then Inl (HTTPException 429 ''provider_quota_exceeded'')
              else Inr ()))"

definition authorize_send ::
  "guard_db \<Rightarrow> (json \<Rightarrow> string) \<Rightarrow> env \<Rightarrow> int \<Rightarrow> string \<Rightarrow> string \<Rightarrow> string \<Rightarrow> string \<Rightarrow> bool
     \<Rightarrow> string option \<Rightarrow> string \<Rightarrow> authorization res" where
  "authorize_send db repr_of e current tenant_id sender recipient stream sandbox campaign_id topic =
     (if lower (env_get e ''KLYROW_PLATFORM_EMERGENCY_STOP'' ''false'') = ''true''
      then Inl (HTTPException 503 ''platform_emergency_stop'')
      else
        (case find_row (\<lambda>t. tn_id t = tenant_id) (gd_tenants db) of
           None \<Rightarrow> Inl (HTTPException 403 ''tenant_suspended'')
         | Some tenant \<Rightarrow>
             (if \<not> tn_enabled tenant then Inl (HTTPException 403 ''tenant_suspended'')
              else
                (let normalized_stream = lower stream;
                     normalized_sender = lower sender;
                     normalized_recipient = lower recipient
                 in if normalized_stream \<notin>
                         set [''transactional'', ''security'', ''system'', ''marketing'', ''bulk'']
                    then Inl (HTTPException 422 ''invalid_message_stream'')
                    else
                      res_bind (enforce_suppression db tenant_id normalized_recipient
                                  normalized_stream campaign_id) (\<lambda>_.
                      res_bind (enforce_consent db tenant_id normalized_recipient
                                  normalized_stream topic) (\<lambda>_.
                      res_bind (enforce_sandbox_recipient db repr_of e tenant_id
                                  normalized_recipient sandbox) (\<lambda>_.
                      res_bind (enforce_warmup_quota db current tenant
                                  (find_row (\<lambda>p. mp_tenant_id p = tenant_id) (gd_policies db))) (\<lambda>_.
                      Inr \<lparr>au_tenant = tenant, au_sender = normalized_sender,
                           au_recipient = normalized_recipient, au_stream = normalized_stream,
                           au_sandbox = sandbox\<rparr>))))))))"

definition billing_identity :: "guard_db \<Rightarrow> string \<Rightarrow> bool \<Rightarrow> (string \<times> string) res" where
  "billing_identity db tenant_id sandbox =
     (case find_row (\<lambda>b. sb_tenant_id b = tenant_id) (gd_subscriptions db) of
        Some b \<Rightarrow>
          (if sb_status b \<in> set [''TRIALING'', ''ACTIVE'', ''PAST_DUE'', ''GRACE_PERIOD'']
           then Inr (sb_id b, sb_price_id b)
           else if sandbox then Inr (''sandbox'', ''sandbox'')
           else Inl (HTTPException 402 ''subscription_not_billable''))
      | None \<Rightarrow>
          (if sandbox then Inr (''sandbox'', ''sandbox'')
           else Inl (HTTPException 402 ''subscription_not_billable'')))"

section \<open>Lemmas\<close>

lemma enforce_suppression_ok:
  "enforce_suppression db t r s c = Inr () \<longleftrightarrow>
     (\<forall>x. suppression_record db t (lower r) = Some x \<longrightarrow>
        sp_reason x \<notin> set HARD_SUPPRESSION_REASONS \<and> lower s \<noteq> ''marketing'') \<and>
     (lower s = ''marketing'' \<longrightarrow> c \<noteq> None \<longrightarrow> c \<noteq> Some [] \<longrightarrow>
        (\<forall>x \<in> set (gd_scoped_suppressions db).
           \<not> (ss_tenant_id x = t \<and> ss_email x = lower r \<and> ss_scope x = ''LIST''
              \<and> Some (ss_scope_id x) = c)))"
  by (cases "suppression_record db t (lower r)")
     (auto simp: enforce_suppression_def Let_def find_row_None split: option.splits
       dest!: find_row_Some)

lemma latest_consent_max:
  assumes "latest_consent db t p topic = Some c" and "c' \<in> set (gd_consents db)"
    and "cs_tenant_id c' = t" "cs_profile_id c' = p" "cs_topic c' = topic"
  shows "cs_occurred_at c' \<le> cs_occurred_at c"
proof -
  let ?P = "\<lambda>c. cs_tenant_id c = t \<and> cs_profile_id c = p \<and> cs_topic c = topic"
  let ?s = "sort_key (\<lambda>c. - cs_occurred_at c) (filter ?P (gd_consents db))"
  have "c' \<in> set ?s" using assms by simp
  moreover obtain rest where s: "?s = c # rest"
    using assms(1) by (cases ?s) (auto simp: latest_consent_def select_rows_def)
  moreover have "sorted (map (\<lambda>c. - cs_occurred_at c) ?s)" by simp
  ultimately show ?thesis by auto
qed

lemma enforce_consent_marketing:
  assumes "enforce_consent db t r s topic = Inr ()" and "lower s = ''marketing''"
  shows "\<exists>profile latest. find_row (\<lambda>p. pf_tenant_id p = t \<and> pf_email p = Some (lower r))
             (gd_profiles db) = Some profile \<and>
           latest_consent db t (pf_id profile) topic = Some latest \<and> cs_status latest = ''granted''"
  using assms by (auto simp: enforce_consent_def Let_def split: option.splits if_splits)

text \<open>
  A count below each of several limits; for a tenant of limited reputation below half of each, except
  that the first message of the period always fits.
\<close>

definition fits :: "bool \<Rightarrow> int \<Rightarrow> int list \<Rightarrow> bool" where
  "fits limited n limits \<longleftrightarrow> (if limited then n < 1 \<or> (\<forall>l \<in> set limits. n < l div 2) else \<forall>l \<in> set limits. n < l)"

lemma fits_one: "(if limited then max 1 (a div 2) else a) \<le> n \<longleftrightarrow> \<not> fits limited n [a]"
  by (auto simp: fits_def max_def)

lemma fits_min: "fits limited n (min a b # limits) \<longleftrightarrow> fits limited n (a # b # limits)"
  unfolding fits_def min_def by simp linarith

lemma enforce_warmup_quota_iff:
  "enforce_warmup_quota db current tenant (Some policy) = Inr () \<longleftrightarrow>
     fits (mp_reputation_state policy = ''LIMITED'') (sent_since db (tn_id tenant) (current - HOUR))
       [mp_hourly_limit policy, mp_warmup_hourly_limit policy] \<and>
     fits (mp_reputation_state policy = ''LIMITED'') (sent_since db (tn_id tenant) (current - DAY))
       [mp_daily_limit policy, mp_warmup_daily_limit policy, tn_quota tenant]"
  by (simp add: enforce_warmup_quota_def Let_def fits_one fits_min)

lemma authorize_send_Inr:
  "authorize_send db repr_of e current t sender r s sb c topic = Inr a \<longleftrightarrow>
     lower (env_get e ''KLYROW_PLATFORM_EMERGENCY_STOP'' ''false'') \<noteq> ''true'' \<and>
     (\<exists>tenant. find_row (\<lambda>x. tn_id x = t) (gd_tenants db) = Some tenant \<and> tn_enabled tenant \<and>
        lower s \<in> set [''transactional'', ''security'', ''system'', ''marketing'', ''bulk''] \<and>
        enforce_suppression db t (lower r) (lower s) c = Inr () \<and>
        enforce_consent db t (lower r) (lower s) topic = Inr () \<and>
        enforce_sandbox_recipient db repr_of e t (lower r) sb = Inr () \<and>
        enforce_warmup_quota db current tenant
          (find_row (\<lambda>p. mp_tenant_id p = t) (gd_policies db)) = Inr () \<and>
        a = \<lparr>au_tenant = tenant, au_sender = lower sender, au_recipient = lower r,
             au_stream = lower s, au_sandbox = sb\<rparr>)"
  unfolding authorize_send_def Let_def
  by (cases "find_row (\<lambda>x. tn_id x = t) (gd_tenants db)") (auto simp: res_bind_Inr)

section \<open>Properties\<close>

text \<open>
  C18. A message the guard chain admits belongs to an existing enabled tenant, on one of the five
  streams, with the platform's emergency stop off; its recipient's suppression record, if any, is
  not a hard one; a marketing message has no suppression record at all, none for the list of its
  campaign either, and its recipient's most recent consent for the topic is a grant; and where the tenant
  has a mail policy, before this message is counted, those of the last hour are below the hourly and the
  warm-up hourly limit and those of the last day below the daily limit, the warm-up daily limit and the
  tenant's quota (below half of each when its reputation is limited, where the first message of the period
  still passes), and a sandbox message goes to an allowed test recipient or the sink domain.
\<close>

theorem authorize_send_sound:
  assumes "authorize_send db repr_of e current t sender r s sb c topic = Inr a"
  shows "lower (env_get e ''KLYROW_PLATFORM_EMERGENCY_STOP'' ''false'') \<noteq> ''true'' \<and>
    au_tenant a \<in> set (gd_tenants db) \<and> tn_id (au_tenant a) = t \<and> tn_enabled (au_tenant a) \<and>
    au_stream a \<in> set [''transactional'', ''security'', ''system'', ''marketing'', ''bulk''] \<and>
    (case suppression_record db t r of None \<Rightarrow> True
     | Some x \<Rightarrow> sp_reason x \<notin> set HARD_SUPPRESSION_REASONS \<and> au_stream a \<noteq> ''marketing'') \<and>
    (au_stream a = ''marketing'' \<longrightarrow>
       (\<exists>profile latest. profile \<in> set (gd_profiles db) \<and> pf_tenant_id profile = t \<and>
          pf_email profile = Some (lower r) \<and>
          latest_consent db t (pf_id profile) topic = Some latest \<and> cs_status latest = ''granted'') \<and>
       (c \<noteq> None \<longrightarrow> c \<noteq> Some [] \<longrightarrow>
          (\<forall>x \<in> set (gd_scoped_suppressions db).
             \<not> (ss_tenant_id x = t \<and> ss_email x = lower r \<and> ss_scope x = ''LIST'' \<and> Some (ss_scope_id x) = c)))) \<and>
    (\<forall>policy. find_row (\<lambda>p. mp_tenant_id p = t) (gd_policies db) = Some policy \<longrightarrow>
       fits (mp_reputation_state policy = ''LIMITED'') (sent_since db t (current - HOUR))
         [mp_hourly_limit policy, mp_warmup_hourly_limit policy] \<and>
       fits (mp_reputation_state policy = ''LIMITED'') (sent_since db t (current - DAY))
         [mp_daily_limit policy, mp_warmup_daily_limit policy, tn_quota (au_tenant a)] \<and>
       (sb \<longrightarrow> (\<exists>allowed. allowed_test_recipients repr_of policy = Some allowed \<and>
          (lower r \<in> set allowed \<or> ends_with (CHR ''@'' # lower (env_get e
             ''KLYROW_SANDBOX_DOMAIN'' ''klyrow-sink.test'')) (lower r)))))"
proof -
  obtain tenant where tenant: "find_row (\<lambda>x. tn_id x = t) (gd_tenants db) = Some tenant"
      "tn_enabled tenant"
    and sup: "enforce_suppression db t (lower r) (lower s) c = Inr ()"
    and con: "enforce_consent db t (lower r) (lower s) topic = Inr ()"
    and sbx: "enforce_sandbox_recipient db repr_of e t (lower r) sb = Inr ()"
    and quota: "enforce_warmup_quota db current tenant
          (find_row (\<lambda>p. mp_tenant_id p = t) (gd_policies db)) = Inr ()"
    and a: "a = \<lparr>au_tenant = tenant, au_sender = lower sender, au_recipient = lower r,
             au_stream = lower s, au_sandbox = sb\<rparr>"
    and rest: "lower (env_get e ''KLYROW_PLATFORM_EMERGENCY_STOP'' ''false'') \<noteq> ''true''"
      "lower s \<in> set [''transactional'', ''security'', ''system'', ''marketing'', ''bulk'']"
    using assms unfolding authorize_send_Inr by blast
  have id: "tenant \<in> set (gd_tenants db)" "tn_id tenant = t"
    using find_row_Some [OF tenant(1)] by auto
  have s: "suppression_record db t (lower r) = suppression_record db t r"
    by (simp add: suppression_record_def)
  have m: "\<exists>profile latest. profile \<in> set (gd_profiles db) \<and> pf_tenant_id profile = t \<and>
      pf_email profile = Some (lower r) \<and>
      latest_consent db t (pf_id profile) topic = Some latest \<and> cs_status latest = ''granted''"
    if "lower s = ''marketing''"
  proof -
    have "lower (lower s) = ''marketing''" using lower_idem [of s] that by metis
    from enforce_consent_marketing [OF con this] show ?thesis by (auto dest: find_row_Some)
  qed
  have q: "fits (mp_reputation_state policy = ''LIMITED'') (sent_since db t (current - HOUR))
         [mp_hourly_limit policy, mp_warmup_hourly_limit policy] \<and>
       fits (mp_reputation_state policy = ''LIMITED'') (sent_since db t (current - DAY))
         [mp_daily_limit policy, mp_warmup_daily_limit policy, tn_quota tenant]"
    if "find_row (\<lambda>p. mp_tenant_id p = t) (gd_policies db) = Some policy" for policy
    using enforce_warmup_quota_iff [of db current tenant policy] quota id(2) that by simp
  have low: "lower (lower y) = lower y" for y by (rule lower_idem)
  have x: "\<exists>allowed. allowed_test_recipients repr_of policy = Some allowed \<and>
        (lower r \<in> set allowed \<or> ends_with (CHR ''@'' # lower (env_get e
           ''KLYROW_SANDBOX_DOMAIN'' ''klyrow-sink.test'')) (lower r))"
    if "find_row (\<lambda>p. mp_tenant_id p = t) (gd_policies db) = Some policy" sb for policy
    using sbx that by (auto simp: enforce_sandbox_recipient_def Let_def split: option.splits if_splits)
  show ?thesis
    using tenant(2) id rest m q x sup unfolding a enforce_suppression_ok
    by (auto simp: s low split: option.split)
qed

definition sample_db :: guard_db where
  "sample_db =
     \<lparr>gd_tenants = [\<lparr>tn_id = ''t1'', tn_name = ''Acme'', tn_enabled = True, tn_quota = 10\<rparr>],
      gd_suppressions = [], gd_scoped_suppressions = [],
      gd_profiles = [\<lparr>pf_id = ''p1'', pf_tenant_id = ''t1'', pf_email = Some ''a@b.co''\<rparr>],
      gd_preferences = [\<lparr>pr_tenant_id = ''t1'', pr_profile_id = ''p1'', pr_topic = ''marketing'',
                         pr_subscribed = True\<rparr>],
      gd_consents = [\<lparr>cs_tenant_id = ''t1'', cs_profile_id = ''p1'', cs_topic = ''marketing'',
                      cs_status = ''revoked'', cs_occurred_at = 5\<rparr>,
                     \<lparr>cs_tenant_id = ''t1'', cs_profile_id = ''p1'', cs_topic = ''marketing'',
                      cs_status = ''granted'', cs_occurred_at = 7\<rparr>],
      gd_policies = [\<lparr>mp_tenant_id = ''t1'', mp_sending_disabled = False, mp_sandbox_mode = True,
                      mp_daily_limit = 10, mp_hourly_limit = 5,
                      mp_allowed_test_recipients_json = JText (JList [JStr ''A@b.co'']),
                      mp_reputation_state = ''LIMITED'', mp_warmup_daily_limit = 10,
                      mp_warmup_hourly_limit = 4\<rparr>],
      gd_messages = [], gd_provider_messages = [], gd_subscriptions = []\<rparr>"

lemma sample_authorized:
  "\<exists>a. authorize_send sample_db (\<lambda>_. []) (env_of []) 0 ''t1'' ''X@y.co'' ''A@B.co'' ''MARKETING''
         True None ''marketing'' = Inr a \<and> au_stream a = ''marketing''"
proof -
  have l: "lower ''A@B.co'' = ''a@b.co''" "lower ''A@b.co'' = ''a@b.co''" "lower ''a@b.co'' = ''a@b.co''"
      "lower ''MARKETING'' = ''marketing''" "lower ''marketing'' = ''marketing''"
      "lower ''false'' = ''false''"
    by code_simp+
  have c: "latest_consent sample_db ''t1'' ''p1'' ''marketing'' =
      Some \<lparr>cs_tenant_id = ''t1'', cs_profile_id = ''p1'', cs_topic = ''marketing'',
            cs_status = ''granted'', cs_occurred_at = 7\<rparr>"
    by (simp add: latest_consent_def select_rows_def sample_db_def)
  show ?thesis
    unfolding authorize_send_Inr
    using c by (simp add: sample_db_def l enforce_suppression_def suppression_record_def Let_def
        enforce_consent_def enforce_sandbox_recipient_def allowed_test_recipients_def
        enforce_warmup_quota_def sent_since_def count_rows_def env_of_def)
qed

theorem authorize_send_sound_witness:
  "\<exists>a :: authorization. au_stream a = ''marketing'' \<and> au_tenant a \<in> set (gd_tenants sample_db) \<and>
     sent_since sample_db ''t1'' (0 - HOUR) < 5"
proof -
  obtain a where a: "authorize_send sample_db (\<lambda>_. []) (env_of []) 0 ''t1'' ''X@y.co'' ''A@B.co''
      ''MARKETING'' True None ''marketing'' = Inr a" "au_stream a = ''marketing''"
    using sample_authorized by blast
  have p: "find_row (\<lambda>p. mp_tenant_id p = ''t1'') (gd_policies sample_db) =
      Some (hd (gd_policies sample_db))" "mp_hourly_limit (hd (gd_policies sample_db)) = 5"
    by (simp_all add: sample_db_def)
  from authorize_send_sound [OF a(1)] a(2)
  have "au_tenant a \<in> set (gd_tenants sample_db)"
    and "\<forall>policy. find_row (\<lambda>p. mp_tenant_id p = ''t1'') (gd_policies sample_db) = Some policy \<longrightarrow>
       fits (mp_reputation_state policy = ''LIMITED'') (sent_since sample_db ''t1'' (0 - HOUR))
         [mp_hourly_limit policy, mp_warmup_hourly_limit policy]"
    by blast+
  moreover from this(2) p have "sent_since sample_db ''t1'' (0 - HOUR) < 5" by (auto simp: fits_def split: if_splits)
  ultimately show ?thesis using a(2) by blast
qed

end
