(* ===== verification/SecurityPayload.thy ===== *)
theory SecurityPayload
  imports Prelude
begin

text \<open>
  \<open>security_payload.py\<close>: the encrypted envelope of SECURITY mail in the queue. The key file is
  the bytes that \<open>read_bytes\<close> returns (\<open>None\<close> when it raises \<open>OSError\<close>). The Fernet cipher of the
  \<open>cryptography\<close> package and SHA-256 are arguments, gathered in a record: whether bytes are a
  key, encryption (the token for a key and a plain text), decryption (\<open>None\<close> is
  \<open>InvalidToken\<close>) and the hexadecimal digest.
\<close>

section \<open>The cipher and the keyring\<close>

record fernet =
  fn_valid_key :: "string \<Rightarrow> bool"
  fn_encrypt :: "string \<Rightarrow> string \<Rightarrow> string"
  fn_decrypt :: "string \<Rightarrow> string \<Rightarrow> string option"
  fn_sha256_hex :: "string \<Rightarrow> string"

definition LEGACY_PAYLOAD_VERSION :: string where "LEGACY_PAYLOAD_VERSION = ''fernet-v1''"
definition PAYLOAD_VERSION :: string where "PAYLOAD_VERSION = ''fernet-keyring-v2''"
definition DEFAULT_MAX_AGE_SECONDS :: int where "DEFAULT_MAX_AGE_SECONDS = 3600"

definition key_path :: "env \<Rightarrow> string res" where
  "key_path e =
     (let raw = strip (env_get e ''KLYROW_SECURITY_PAYLOAD_KEY_FILE'' [])
      in if raw = [] then Inl (SecurityPayloadError ''KLYROW_SECURITY_PAYLOAD_KEY_FILE is required'')
         else Inr raw)"

definition key_id :: "fernet \<Rightarrow> string \<Rightarrow> string" where
  "key_id fn key = take 16 (fn_sha256_hex fn key)"

text \<open>\<open>bytes.splitlines()\<close>: lines end at LF, CR or CR LF; no empty last line.\<close>

fun splitlines_from :: "bool \<Rightarrow> string \<Rightarrow> string \<Rightarrow> string list" where
  "splitlines_from after_cr acc [] = (if acc = [] then [] else [rev acc])"
| "splitlines_from after_cr acc (c # cs) =
     (if after_cr \<and> c = CHR 0x0A then splitlines_from False [] cs
      else if c = CHR 0x0A then rev acc # splitlines_from False [] cs
      else if c = CHR 0x0D then rev acc # splitlines_from True [] cs
      else splitlines_from False (c # acc) cs)"

definition splitlines :: "string \<Rightarrow> string list" where
  "splitlines s = splitlines_from False [] s"

text \<open>The loop over the lines, with the identifiers already seen.\<close>

fun keyring_loop :: "fernet \<Rightarrow> string list \<Rightarrow> string list \<Rightarrow> (string \<times> string) list res" where
  "keyring_loop fn seen [] = Inr []"
| "keyring_loop fn seen (key # keys) =
     (if \<not> fn_valid_key fn key
      then Inl (SecurityPayloadError ''SECURITY payload encryption key is invalid'')
      else if key_id fn key \<in> set seen
      then Inl (SecurityPayloadError ''SECURITY payload keyring contains a duplicate key'')
      else res_bind (keyring_loop fn (key_id fn key # seen) keys) (\<lambda>rest.
        Inr ((key_id fn key, key) # rest)))"

definition keyring :: "fernet \<Rightarrow> env \<Rightarrow> (string \<Rightarrow> string option) \<Rightarrow> (string \<times> string) list res" where
  "keyring fn e read_bytes =
     res_bind (key_path e) (\<lambda>path.
       case read_bytes path of
         None \<Rightarrow> Inl (SecurityPayloadError ''SECURITY payload encryption key is unavailable'')
       | Some content \<Rightarrow>
           (let lines = map strip (filter (\<lambda>line. strip line \<noteq> []) (splitlines content))
            in if lines = [] then Inl (SecurityPayloadError ''SECURITY payload encryption keyring is empty'')
               else keyring_loop fn [] lines))"

definition max_payload_age_seconds :: "env \<Rightarrow> int res" where
  "max_payload_age_seconds e =
     (case int_of_string (strip (env_get e ''KLYROW_SECURITY_PAYLOAD_MAX_AGE_SECONDS''
             (int_to_string DEFAULT_MAX_AGE_SECONDS))) of
        None \<Rightarrow> Inl (SecurityPayloadError
                  ''KLYROW_SECURITY_PAYLOAD_MAX_AGE_SECONDS must be an integer'')
      | Some value \<Rightarrow>
          (if value < 300 \<or> 86400 < value
           then Inl (SecurityPayloadError
                  ''KLYROW_SECURITY_PAYLOAD_MAX_AGE_SECONDS must be between 300 and 86400'')
           else Inr value))"

section \<open>Encryption and decryption\<close>

text \<open>
  The two operations take the keyring that \<open>_keyring()\<close> returned; \<open>encrypted_security_payload\<close>
  and \<open>decrypt_security_payload\<close> below load it where the code does.
\<close>

definition encrypted_security_payload ::
  "fernet \<Rightarrow> (string \<times> string) list res \<Rightarrow> string \<Rightarrow> string \<Rightarrow> string \<Rightarrow> string
     \<Rightarrow> (string \<times> json) list res" where
  "encrypted_security_payload fn ring raw raw_sha256 message_id stream =
     (if upper stream \<noteq> ''SECURITY''
      then Inl (SecurityPayloadError ''encrypted SECURITY payload requires SECURITY stream'')
      else res_bind ring (\<lambda>keys.
        case keys of
          [] \<Rightarrow> Inl (IndexError ''list index out of range'')
        | (kid, active) # _ \<Rightarrow>
            Inr [(''raw_sha256'', JStr raw_sha256),
                 (''encrypted_raw'', JStr (fn_encrypt fn active raw)),
                 (''encryption'', JStr PAYLOAD_VERSION),
                 (''key_id'', JStr kid),
                 (''message_id'', JStr message_id),
                 (''size'', JInt (int (length raw))),
                 (''stream'', JStr ''SECURITY'')]))"

definition is_ascii :: "string \<Rightarrow> bool" where
  "is_ascii s = list_all (\<lambda>c. (of_char c :: nat) < 128) s"

fun decrypt_with_key_id :: "fernet \<Rightarrow> (string \<times> string) list \<Rightarrow> string \<Rightarrow> string \<Rightarrow> string res" where
  "decrypt_with_key_id fn [] requested ciphertext =
     Inl (SecurityPayloadError ''SECURITY payload decryption key is unavailable'')"
| "decrypt_with_key_id fn ((kid, key) # keys) requested ciphertext =
     (if kid = requested
      then (case fn_decrypt fn key ciphertext of
              Some raw \<Rightarrow> Inr raw
            | None \<Rightarrow> Inl (SecurityPayloadError ''SECURITY payload ciphertext is invalid''))
      else decrypt_with_key_id fn keys requested ciphertext)"

fun decrypt_with_any_key :: "fernet \<Rightarrow> (string \<times> string) list \<Rightarrow> string \<Rightarrow> string res" where
  "decrypt_with_any_key fn [] ciphertext =
     Inl (SecurityPayloadError ''SECURITY payload ciphertext is invalid'')"
| "decrypt_with_any_key fn ((kid, key) # keys) ciphertext =
     (case fn_decrypt fn key ciphertext of
        Some raw \<Rightarrow> Inr raw
      | None \<Rightarrow> decrypt_with_any_key fn keys ciphertext)"

definition decrypt_security_payload ::
  "fernet \<Rightarrow> (string \<times> string) list res \<Rightarrow> (string \<times> json) list \<Rightarrow> string res" where
  "decrypt_security_payload fn ring payload =
     (if obj_get payload ''stream'' \<noteq> JStr ''SECURITY''
      then Inl (SecurityPayloadError ''unexpected security payload stream'')
      else
        (let version = obj_get payload ''encryption''
         in if version \<noteq> JStr PAYLOAD_VERSION \<and> version \<noteq> JStr LEGACY_PAYLOAD_VERSION
            then Inl (SecurityPayloadError ''unsupported SECURITY payload encryption version'')
            else
              (case json_string (obj_get payload ''encrypted_raw'') of
                 None \<Rightarrow> Inl (SecurityPayloadError ''SECURITY payload ciphertext is missing'')
               | Some encoded \<Rightarrow>
                   (if encoded = []
                    then Inl (SecurityPayloadError ''SECURITY payload ciphertext is missing'')
                    else if \<not> is_ascii encoded
                    then Inl (SecurityPayloadError ''SECURITY payload ciphertext is invalid'')
                    else res_bind ring (\<lambda>keys.
                      if version = JStr PAYLOAD_VERSION
                      then (case json_string (obj_get payload ''key_id'') of
                              None \<Rightarrow> Inl (SecurityPayloadError
                                        ''SECURITY payload key identifier is missing'')
                            | Some requested \<Rightarrow>
                                (if requested = []
                                 then Inl (SecurityPayloadError
                                        ''SECURITY payload key identifier is missing'')
                                 else decrypt_with_key_id fn keys requested encoded))
                      else decrypt_with_any_key fn keys encoded)))))"

text \<open>The privacy-safe document that replaces the body, its keys in the order \<open>json.dumps\<close> sorts.\<close>

definition scrubbed_security_payload ::
  "(json \<Rightarrow> string) \<Rightarrow> (string \<times> json) list \<Rightarrow> string \<Rightarrow> jtext res" where
  "scrubbed_security_payload repr_of payload reason =
     res_bind (json_int (json_or (obj_get payload ''size'') (JInt 0))) (\<lambda>size.
       Inr (JText (JObj
         [(''body_state'', JStr ''PURGED''),
          (''message_id'', JStr (json_str repr_of (json_or (obj_get payload ''message_id'') (JStr [])))),
          (''purge_reason'', JStr (take 64 reason)),
          (''raw_sha256'', JStr (json_str repr_of (json_or (obj_get payload ''raw_sha256'') (JStr [])))),
          (''size'', JInt size),
          (''stream'', JStr ''SECURITY'')])))"

section \<open>Lemmas\<close>

lemma keyring_loop_sound:
  "keyring_loop fn seen keys = Inr ring \<Longrightarrow>
     map snd ring = keys \<and> distinct (map fst ring) \<and> set (map fst ring) \<inter> set seen = {}"
proof (induction keys arbitrary: seen ring)
  case (Cons key keys)
  from Cons.prems obtain rest where r: "keyring_loop fn (key_id fn key # seen) keys = Inr rest"
      "ring = (key_id fn key, key) # rest" "key_id fn key \<notin> set seen"
    by (auto simp: res_bind_Inr split: if_splits)
  from Cons.IH [OF r(1)] r(2,3) show ?case by auto
qed simp

lemma keyring_distinct:
  assumes "keyring fn e rb = Inr ring"
  shows "ring \<noteq> []" and "distinct (map fst ring)"
proof -
  obtain keys where k: "keys \<noteq> []" "keyring_loop fn [] keys = Inr ring"
    using assms by (auto simp: keyring_def res_bind_Inr Let_def split: option.splits if_splits)
  from keyring_loop_sound [OF this(2)] k(1) show "ring \<noteq> []" "distinct (map fst ring)" by auto
qed

lemma decrypt_with_key_id_found:
  "(kid, key) \<in> set ring \<Longrightarrow> distinct (map fst ring) \<Longrightarrow> fn_decrypt fn key c = Some raw \<Longrightarrow>
     decrypt_with_key_id fn ring kid c = Inr raw"
  by (induction fn ring kid c rule: decrypt_with_key_id.induct) (auto simp: rev_image_eqI)

lemma scrubbed_no_ciphertext:
  "scrubbed_security_payload repr_of payload reason = Inr t \<Longrightarrow>
     \<exists>kvs. t = JText (JObj kvs) \<and> obj_get kvs ''encrypted_raw'' = JNull"
  by (auto simp: scrubbed_security_payload_def res_bind_Inr obj_get_def)

section \<open>Properties\<close>

text \<open>
  C27. Key rotation loses no mail: a payload encrypted under the active key of one keyring decrypts
  to the original bytes under every later keyring file that still lists that key, whatever its
  position and however many keys were added before or after it.
\<close>

theorem encrypt_decrypt_rotation:
  assumes "keyring fn e rb = Inr old_ring" and "keyring fn e' rb' = Inr new_ring"
    and kept: "hd old_ring \<in> set new_ring"
    and enc: "encrypted_security_payload fn (keyring fn e rb) raw digest mid stream = Inr payload"
    and fernet: "fn_decrypt fn (snd (hd old_ring)) (fn_encrypt fn (snd (hd old_ring)) raw) = Some raw"
      "fn_encrypt fn (snd (hd old_ring)) raw \<noteq> []"
      "is_ascii (fn_encrypt fn (snd (hd old_ring)) raw)"
      "fst (hd old_ring) \<noteq> []"
  shows "decrypt_security_payload fn (keyring fn e' rb') payload = Inr raw"
proof -
  obtain kid key rest where o: "old_ring = (kid, key) # rest"
    using keyring_distinct(1) [OF assms(1)] by (cases old_ring) auto
  have p: "payload = [(''raw_sha256'', JStr digest), (''encrypted_raw'', JStr (fn_encrypt fn key raw)),
      (''encryption'', JStr PAYLOAD_VERSION), (''key_id'', JStr kid), (''message_id'', JStr mid),
      (''size'', JInt (int (length raw))), (''stream'', JStr ''SECURITY'')]"
    using enc assms(1) o by (auto simp: encrypted_security_payload_def split: if_splits)
  have "decrypt_with_key_id fn new_ring kid (fn_encrypt fn key raw) = Inr raw"
    using decrypt_with_key_id_found [OF _ keyring_distinct(2) [OF assms(2)]] kept fernet(1) o by simp
  then show ?thesis
    using fernet o assms(2) by (simp add: decrypt_security_payload_def p obj_get_def)
qed

definition sample_fernet :: fernet where
  "sample_fernet =
     \<lparr>fn_valid_key = (\<lambda>k. length k = 2),
      fn_encrypt = (\<lambda>k raw. k @ raw),
      fn_decrypt = (\<lambda>k c. if starts_with k c then Some (drop (length k) c) else None),
      fn_sha256_hex = (\<lambda>k. k)\<rparr>"

definition sample_key_env :: env where
  "sample_key_env = env_of [(''KLYROW_SECURITY_PAYLOAD_KEY_FILE'', ''/k'')]"

lemma sample_rings:
  "keyring sample_fernet sample_key_env (\<lambda>_. Some ''aa'') = Inr [(''aa'', ''aa'')]"
  "keyring sample_fernet sample_key_env (\<lambda>_. Some (''bb'' @ [CHR 0x0A] @ ''aa'')) =
     Inr [(''bb'', ''bb''), (''aa'', ''aa'')]"
proof -
  have "strip ''/k'' = ''/k''" by code_simp
  then have p: "key_path sample_key_env = Inr ''/k''"
    by (simp add: key_path_def sample_key_env_def env_of_def)
  have l: "map strip (filter (\<lambda>line. strip line \<noteq> []) (splitlines ''aa'')) = [''aa'']"
      "map strip (filter (\<lambda>line. strip line \<noteq> []) (splitlines (''bb'' @ [CHR 0x0A] @ ''aa''))) =
         [''bb'', ''aa'']"
    by code_simp+
  show "keyring sample_fernet sample_key_env (\<lambda>_. Some ''aa'') = Inr [(''aa'', ''aa'')]"
    "keyring sample_fernet sample_key_env (\<lambda>_. Some (''bb'' @ [CHR 0x0A] @ ''aa'')) =
     Inr [(''bb'', ''bb''), (''aa'', ''aa'')]"
    unfolding keyring_def p res_bind_simps option.case l Let_def
    by (simp_all add: sample_fernet_def key_id_def)
qed

theorem encrypt_decrypt_rotation_witness:
  "\<exists>payload. encrypted_security_payload sample_fernet
       (keyring sample_fernet sample_key_env (\<lambda>_. Some ''aa'')) ''hi'' ''d'' ''m'' ''SECURITY'' = Inr payload
     \<and> decrypt_security_payload sample_fernet
       (keyring sample_fernet sample_key_env (\<lambda>_. Some (''bb'' @ [CHR 0x0A] @ ''aa''))) payload = Inr ''hi''"
proof -
  have "upper ''SECURITY'' = ''SECURITY''" by code_simp
  then obtain payload where p: "encrypted_security_payload sample_fernet
       (keyring sample_fernet sample_key_env (\<lambda>_. Some ''aa'')) ''hi'' ''d'' ''m'' ''SECURITY'' = Inr payload"
    by (simp add: encrypted_security_payload_def sample_rings)
  have "is_ascii ''aahi''" by code_simp
  then show ?thesis
    using encrypt_decrypt_rotation [OF sample_rings(1,2) _ p] p
    by (auto simp: sample_fernet_def starts_with_def)
qed

end
