(* ===== verification/Contracts.thy ===== *)
theory Contracts
  imports Prelude
begin

text \<open>
  The contracts that the durable queues of the program share, as locales. A queue is a state that
  operations change one transaction at a time; any interleaving of workers, requests and
  maintenance jobs is a list of operations. \<open>step_system\<close> is the contract "every operation keeps
  the invariant"; \<open>settled_rows\<close> adds "a row in a final state keeps what it decided", which is
  what makes a recorded outcome final. The queue components interpret them on their own
  operations.
\<close>

definition run_ops :: "('op \<Rightarrow> 's \<Rightarrow> 's) \<Rightarrow> 'op list \<Rightarrow> 's \<Rightarrow> 's" where
  "run_ops step ops s = fold step ops s"

lemma run_ops_simps [simp]:
  "run_ops step [] s = s"
  "run_ops step (op # ops) s = run_ops step ops (step op s)"
  by (simp_all add: run_ops_def)

text \<open>The operations that run while a transaction waits for an external call, one after the other.\<close>

definition in_turn :: "('s \<Rightarrow> 's) list \<Rightarrow> 's \<Rightarrow> 's" where
  "in_turn fs s = fold (\<lambda>f x. f x) fs s"

lemma in_turn_closed:
  assumes "\<And>s. R s s" and "\<And>a b c. R a b \<Longrightarrow> R b c \<Longrightarrow> R a c" and "\<And>f s. f \<in> set fs \<Longrightarrow> R s (f s)"
  shows "R s (in_turn fs s)"
  using assms(3) unfolding in_turn_def
proof (induction fs arbitrary: s)
  case (Cons f fs)
  have "R s (f s)" and "R (f s) (fold (\<lambda>f x. f x) fs (f s))" using Cons by auto
  then show ?case using assms(2) by simp
qed (simp add: assms(1))

locale step_system =
  fixes step :: "'op \<Rightarrow> 's \<Rightarrow> 's"
    and inv :: "'s \<Rightarrow> bool"
  assumes inv_step: "inv s \<Longrightarrow> inv (step op s)"
begin

lemma inv_run: "inv s \<Longrightarrow> inv (run_ops step ops s)"
  by (induction ops arbitrary: s) (auto intro: inv_step)

end

locale settled_rows = step_system step inv
  for step :: "'op \<Rightarrow> 's \<Rightarrow> 's" and inv :: "'s \<Rightarrow> bool" +
  fixes row :: "'s \<Rightarrow> 'k \<Rightarrow> 'r option"
    and settled :: "'r \<Rightarrow> bool"
    and view :: "'r \<Rightarrow> 'v"
  assumes settled_step:
    "inv s \<Longrightarrow> row s k = Some r \<Longrightarrow> settled r \<Longrightarrow>
       \<exists>r'. row (step op s) k = Some r' \<and> settled r' \<and> view r' = view r"
begin

lemma settled_run:
  "inv s \<Longrightarrow> row s k = Some r \<Longrightarrow> settled r \<Longrightarrow>
     \<exists>r'. row (run_ops step ops s) k = Some r' \<and> settled r' \<and> view r' = view r"
proof (induction ops arbitrary: s r)
  case (Cons op ops)
  obtain r1 where r1: "row (step op s) k = Some r1" "settled r1" "view r1 = view r"
    using settled_step [OF Cons.prems] by blast
  from Cons.IH [OF inv_step [OF Cons.prems(1)] r1(1,2)] r1(3) show ?case by auto
qed auto

end

section \<open>Tables that only grow\<close>

text \<open>
  Most transactions rewrite the rows of a table one by one and append new ones. \<open>grows ok\<close> says so,
  with \<open>ok\<close> relating a row to its rewriting; a component interprets \<open>row_order\<close> on the relation that
  its transactions respect and gets the table-level facts.
\<close>

definition grows :: "('r \<Rightarrow> 'r \<Rightarrow> bool) \<Rightarrow> 'r list \<Rightarrow> 'r list \<Rightarrow> bool" where
  "grows ok rows rows' \<longleftrightarrow> (\<exists>f new. rows' = map f rows @ new \<and> (\<forall>r \<in> set rows. ok r (f r)))"

locale row_order =
  fixes ok :: "'r \<Rightarrow> 'r \<Rightarrow> bool"
    and key :: "'r \<Rightarrow> 'k"
  assumes ok_refl: "ok r r"
    and ok_trans: "ok r s \<Longrightarrow> ok s t \<Longrightarrow> ok r t"
    and ok_key: "ok r s \<Longrightarrow> key s = key r"
begin

lemma grows_append: "grows ok rows (rows @ new)"
  unfolding grows_def by (intro exI [of _ "\<lambda>r. r"] exI [of _ new]) (simp add: ok_refl)

lemma grows_refl: "grows ok rows rows"
  using grows_append [of rows "[]"] by simp

lemma grows_update:
  assumes "\<And>r. r \<in> set rows \<Longrightarrow> P r \<Longrightarrow> ok r (f r)"
  shows "grows ok rows (update_rows P f rows)"
  unfolding grows_def using assms
  by (intro exI [of _ "\<lambda>r. if P r then f r else r"] exI [of _ "[]"]) (auto simp: update_rows_def ok_refl)

lemma grows_trans:
  assumes "grows ok a b" and "grows ok b c"
  shows "grows ok a c"
proof -
  obtain f m where f: "b = map f a @ m" "\<forall>r \<in> set a. ok r (f r)"
    using assms(1) by (auto simp: grows_def)
  obtain g n where g: "c = map g b @ n" "\<forall>r \<in> set b. ok r (g r)"
    using assms(2) by (auto simp: grows_def)
  have "ok r ((g \<circ> f) r)" if "r \<in> set a" for r using that f g ok_trans by auto
  then show ?thesis unfolding grows_def f(1) g(1)
    by (intro exI [of _ "g \<circ> f"] exI [of _ "map g m @ n"]) simp
qed

lemma grows_find:
  assumes "grows ok rows rows'" and "find_row (\<lambda>r. key r = k) rows = Some r"
  shows "\<exists>s. find_row (\<lambda>r. key r = k) rows' = Some s \<and> ok r s"
proof -
  obtain f new where f: "rows' = map f rows @ new" "\<forall>r \<in> set rows. ok r (f r)"
    using assms(1) by (auto simp: grows_def)
  have "r \<in> set rows" using find_row_Some [OF assms(2)] by simp
  moreover have "find_row (\<lambda>r. key r = k) (map f rows) = Some (f r)"
    using find_row_map [of rows key f k] f(2) ok_key assms(2) by simp
  ultimately show ?thesis using f by (auto simp: find_row_append)
qed

lemma grows_keys:
  assumes "grows ok rows rows'" and "length rows' = length rows"
  shows "map key rows' = map key rows"
  using assms ok_key by (auto simp: grows_def)

end

end
