(* ===== verification/SecurityWorker.thy ===== *)
theory SecurityWorker
  imports Models SmtpPolicy SecurityPayload Contracts
begin

text \<open>
  \<open>security_smtp_worker.py\<close>: delivery of SECURITY mail to Postal, with \<open>recover_expired_leases\<close> of
  \<open>provider.py\<close>, which works on the same rows. Each \<open>with DB()\<close> block is one transaction: a
  function from the tables to the tables, or an exception, which rolls back. \<open>now()\<close> is read once
  per transaction (\<open>current\<close>); \<open>locked\<close> are the rows another transaction holds. The HTTP exchange
  with Postal is an argument of \<open>submit\<close>: the decoded response body, or the exception that
  \<open>post\<close>, \<open>raise_for_status\<close> or \<open>json\<close> raised. \<open>fresh\<close> is the next \<open>uuid4\<close>.
\<close>

section \<open>State\<close>

record security_db =
  sd_messages :: "provider_message_row list"
  sd_captures :: "sandbox_capture_row list"
  sd_events :: "provider_event_row list"
  sd_audits :: "provider_audit_row list"

record snapshot =
  sn_id :: string
  sn_tenant_id :: string
  sn_sender :: string
  sn_recipient :: string
  sn_subject :: string
  sn_correlation_id :: string
  sn_idempotency_key :: string
  sn_attempts :: int
  sn_payload :: json

definition MAX_ATTEMPTS :: int where "MAX_ATTEMPTS = 5"
definition LEASE_SECONDS :: int where "LEASE_SECONDS = 120"
definition SECOND :: int where "SECOND = 1000000"

definition get_message :: "security_db \<Rightarrow> string \<Rightarrow> provider_message_row option" where
  "get_message db mid = find_row (\<lambda>m. pm_id m = mid) (sd_messages db)"

definition put_message ::
  "string \<Rightarrow> (provider_message_row \<Rightarrow> provider_message_row) \<Rightarrow> security_db \<Rightarrow> security_db" where
  "put_message mid f db =
     db\<lparr>sd_messages := update_rows (\<lambda>m. pm_id m = mid) f (sd_messages db)\<rparr>"

definition worker_audit :: "provider_message_row \<Rightarrow> string \<Rightarrow> string \<Rightarrow> provider_audit_row" where
  "worker_audit item action outcome =
     \<lparr>pa_tenant_id = pm_tenant_id item, pa_actor = ''worker:klyrow-security-smtp'',
      pa_action = action, pa_resource_id = Some (pm_id item), pa_outcome = outcome,
      pa_correlation_id = Some (pm_correlation_id item)\<rparr>"

section \<open>MIME bodies\<close>

text \<open>
  The tree that \<open>BytesParser\<close> builds: a multipart node with its parts, or a leaf with its content
  type, its disposition and the text that \<open>_decode_part\<close> returns for it.
\<close>

datatype mime =
    Multipart "string option" "mime list"
  | Leaf string "string option" string

fun walk :: "mime \<Rightarrow> mime list" where
  "walk (Multipart d ps) = Multipart d ps # concat (map walk ps)"
| "walk (Leaf ct d t) = [Leaf ct d t]"

fun body_part :: "string \<Rightarrow> mime \<Rightarrow> string option" where
  "body_part wanted (Multipart d ps) = None"
| "body_part wanted (Leaf ct d t) =
     (if d = Some ''attachment'' then None
      else if lower ct = wanted then Some t else None)"

definition parse_postal_body :: "mime \<Rightarrow> string \<times> string" where
  "parse_postal_body message =
     (join_with (CHR 0x0A) (List.map_filter (body_part ''text/plain'') (walk message)),
      join_with (CHR 0x0A) (List.map_filter (body_part ''text/html'') (walk message)))"

definition postal_payload ::
  "fernet \<Rightarrow> (string \<times> string) list res \<Rightarrow> (string \<Rightarrow> mime) \<Rightarrow> snapshot
     \<Rightarrow> (string \<times> json) list res" where
  "postal_payload fn ring parse_mime sn =
     (case json_obj (sn_payload sn) of
        None \<Rightarrow> Inl (AttributeError ''get'')
      | Some payload \<Rightarrow>
          res_bind (decrypt_security_payload fn ring payload) (\<lambda>raw.
            case parse_postal_body (parse_mime raw) of
              (plain_body, html_body) \<Rightarrow>
                (if plain_body = [] \<and> html_body = []
                 then Inl (ValueError ''security SMTP message has no deliverable text body'')
                 else Inr ([(''to'', JList [JStr (sn_recipient sn)]),
                            (''from'', JStr (sn_sender sn)),
                            (''subject'', JStr (sn_subject sn)),
                            (''tag'', JStr (sn_correlation_id sn)),
                            (''stream'', JStr ''security'')]
                           @ (if plain_body \<noteq> [] then [(''plain_body'', JStr plain_body)] else [])
                           @ (if html_body \<noteq> [] then [(''html_body'', JStr html_body)] else [])))))"

section \<open>Retention\<close>

fun decoded_payload :: "jtext \<Rightarrow> (string \<times> json) list" where
  "decoded_payload (BadText _) = []"
| "decoded_payload (JText d) = (case json_obj d of None \<Rightarrow> [] | Some kvs \<Rightarrow> kvs)"

definition contains_security_ciphertext :: "(string \<times> json) list \<Rightarrow> bool" where
  "contains_security_ciphertext payload \<longleftrightarrow>
     obj_get payload ''stream'' = JStr ''SECURITY'' \<and> truthy (obj_get payload ''encrypted_raw'')"

definition active_states :: "string list" where
  "active_states = [''QUEUED'', ''DEFERRED'', ''PROCESSING'']"

definition terminal_states :: "string list" where
  "terminal_states = [''SUBMITTED'', ''SENT'', ''DELIVERED'', ''FAILED'', ''DEAD_LETTER'']"

definition purge_due :: "int \<Rightarrow> provider_message_row \<Rightarrow> bool" where
  "purge_due cutoff m \<longleftrightarrow> pm_stream m = ''SECURITY'' \<and>
     pm_status m \<in> set (active_states @ terminal_states) \<and> pm_created_at m < cutoff"

text \<open>What the loop does to the message row itself.\<close>

definition scrub_row :: "bool \<Rightarrow> int \<Rightarrow> jtext \<Rightarrow> provider_message_row \<Rightarrow> provider_message_row" where
  "scrub_row had_sensitive_body current safe_json m =
     (let active = pm_status m \<in> set active_states
      in m\<lparr>pm_payload_json := (if had_sensitive_body then safe_json else pm_payload_json m),
           pm_status := (if active then ''DEAD_LETTER'' else pm_status m),
           pm_lease_expires_at := (if active then None else pm_lease_expires_at m),
           pm_last_error := (if active then Some ''security_payload_retention_expired''
                             else pm_last_error m),
           pm_updated_at := current\<rparr>)"

text \<open>The body of the loop for one row; the count says whether it was purged.\<close>

definition purge_one ::
  "(json \<Rightarrow> string) \<Rightarrow> int \<Rightarrow> provider_message_row \<Rightarrow> security_db \<times> nat \<Rightarrow> (security_db \<times> nat) res" where
  "purge_one repr_of current item acc =
     (case acc of (db, purged) \<Rightarrow>
        (let payload = decoded_payload (pm_payload_json item);
             capture = find_row (\<lambda>c. sc_message_id c = pm_id item) (sd_captures db);
             capture_payload = (case capture of None \<Rightarrow> [] | Some c \<Rightarrow> decoded_payload (sc_content_json c));
             had_sensitive_body = contains_security_ciphertext payload;
             had_sensitive_capture = contains_security_ciphertext capture_payload
         in if \<not> had_sensitive_body \<and> \<not> had_sensitive_capture then Inr (db, purged)
            else
              res_bind (scrubbed_security_payload repr_of
                          (if payload \<noteq> [] then payload else capture_payload)
                          ''payload_retention_expired'') (\<lambda>safe_json.
                let scrub = scrub_row had_sensitive_body current safe_json;
                    captures = (if had_sensitive_capture
                      then update_rows (\<lambda>c. sc_message_id c = pm_id item)
                             (\<lambda>c. c\<lparr>sc_content_json := safe_json\<rparr>) (sd_captures db)
                      else sd_captures db);
                    audit = worker_audit item ''smtp.security.payload.purged''
                      (if pm_status (scrub item) = ''DEAD_LETTER'' then ''dead_letter'' else ''retained_status'')
                in Inr ((put_message (pm_id item) scrub db)
                          \<lparr>sd_captures := captures, sd_audits := sd_audits db @ [audit]\<rparr>,
                        purged + 1))))"

fun purge_loop ::
  "(json \<Rightarrow> string) \<Rightarrow> int \<Rightarrow> provider_message_row list \<Rightarrow> security_db \<times> nat \<Rightarrow> (security_db \<times> nat) res" where
  "purge_loop repr_of current [] acc = Inr acc"
| "purge_loop repr_of current (item # items) acc =
     res_bind (purge_one repr_of current item acc) (\<lambda>acc'. purge_loop repr_of current items acc')"

definition purge_expired_security_payloads ::
  "(json \<Rightarrow> string) \<Rightarrow> env \<Rightarrow> int \<Rightarrow> security_db \<Rightarrow> (security_db \<times> nat) res" where
  "purge_expired_security_payloads repr_of e current db =
     res_bind (max_payload_age_seconds e) (\<lambda>age.
       purge_loop repr_of current
         (filter (purge_due (current - age * SECOND)) (sd_messages db)) (db, 0))"

section \<open>Claim and outcome\<close>

definition claimable :: "int \<Rightarrow> (string \<Rightarrow> bool) \<Rightarrow> provider_message_row \<Rightarrow> bool" where
  "claimable current locked m \<longleftrightarrow>
     pm_stream m = ''SECURITY'' \<and> \<not> pm_sandbox m \<and>
     pm_status m \<in> set [''QUEUED'', ''DEFERRED''] \<and> pm_available_at m \<le> current \<and>
     pm_attempts m < MAX_ATTEMPTS \<and> \<not> locked (pm_id m)"

definition claim_one ::
  "int \<Rightarrow> (string \<Rightarrow> bool) \<Rightarrow> security_db \<Rightarrow> (security_db \<times> snapshot option) res" where
  "claim_one current locked db =
     (case select_rows pm_created_at (claimable current locked) 1 (sd_messages db) of
        [] \<Rightarrow> Inr (db, None)
      | item # _ \<Rightarrow>
          (let take_lease = (\<lambda>m. m\<lparr>pm_status := ''PROCESSING'', pm_attempts := pm_attempts m + 1,
                            pm_lease_expires_at := Some (current + LEASE_SECONDS * SECOND),
                            pm_updated_at := current\<rparr>)
           in case pm_payload_json item of
                BadText _ \<Rightarrow> Inl (ValueError ''JSONDecodeError'')
              | JText payload \<Rightarrow>
                  Inr (put_message (pm_id item) take_lease db,
                       Some \<lparr>sn_id = pm_id item, sn_tenant_id = pm_tenant_id item,
                             sn_sender = pm_sender item, sn_recipient = pm_recipient item,
                             sn_subject = pm_subject item, sn_correlation_id = pm_correlation_id item,
                             sn_idempotency_key = pm_idempotency_key item,
                             sn_attempts = pm_attempts (take_lease item), sn_payload = payload\<rparr>)))"

definition scrub_snapshot :: "(json \<Rightarrow> string) \<Rightarrow> snapshot \<Rightarrow> string \<Rightarrow> jtext res" where
  "scrub_snapshot repr_of sn reason =
     (case json_obj (sn_payload sn) of
        None \<Rightarrow> Inl (AttributeError ''get'')
      | Some payload \<Rightarrow> scrubbed_security_payload repr_of payload reason)"

text \<open>The row that the three outcome transactions may change: present and still \<open>PROCESSING\<close>.\<close>

definition in_flight :: "security_db \<Rightarrow> string \<Rightarrow> provider_message_row option" where
  "in_flight db mid =
     (case get_message db mid of
        None \<Rightarrow> None | Some item \<Rightarrow> if pm_status item = ''PROCESSING'' then Some item else None)"

definition mark_submitted ::
  "(json \<Rightarrow> string) \<Rightarrow> int \<Rightarrow> string \<Rightarrow> snapshot \<Rightarrow> string \<Rightarrow> security_db \<Rightarrow> security_db res" where
  "mark_submitted repr_of current fresh sn provider_message_id db =
     (case in_flight db (sn_id sn) of
        None \<Rightarrow> Inr db
      | Some item \<Rightarrow>
          res_bind (scrub_snapshot repr_of sn ''provider_submitted'') (\<lambda>safe_json.
            let event = \<lparr>pv_id = fresh, pv_tenant_id = pm_tenant_id item, pv_message_id = pm_id item,
                         pv_kind = ''message.submitted'',
                         pv_payload_json = JText (JObj
                           [(''correlation_id'', JStr (pm_correlation_id item)),
                            (''event'', JStr ''message.submitted''),
                            (''event_id'', JStr fresh),
                            (''message_id'', JStr (pm_id item)),
                            (''provider'', JStr ''postal''),
                            (''provider_message_id'', JStr provider_message_id),
                            (''stream'', JStr ''SECURITY''),
                            (''tenant_id'', JStr (pm_tenant_id item))]),
                         pv_state = ''PENDING'', pv_attempts = 0, pv_available_at = current,
                         pv_last_error = None, pv_updated_at = current, pv_created_at = current\<rparr>
            in Inr ((put_message (sn_id sn) (\<lambda>m. m\<lparr>
                       pm_status := ''SUBMITTED'',
                       pm_provider_message_id := Some provider_message_id,
                       pm_payload_json := safe_json,
                       pm_lease_expires_at := None,
                       pm_last_error := None,
                       pm_updated_at := current\<rparr>) db)
                    \<lparr>sd_events := sd_events db @ [event],
                     sd_audits := sd_audits db @
                       [worker_audit item ''smtp.security.message.submitted'' ''accepted'']\<rparr>)))"

definition retry_delay :: "int \<Rightarrow> int \<Rightarrow> int" where
  "retry_delay cap attempts = min cap (2 ^ nat (max attempts 1))"

definition mark_failed ::
  "(json \<Rightarrow> string) \<Rightarrow> int \<Rightarrow> snapshot \<Rightarrow> string \<Rightarrow> security_db \<Rightarrow> security_db res" where
  "mark_failed repr_of current sn error_name db =
     (case in_flight db (sn_id sn) of
        None \<Rightarrow> Inr db
      | Some item \<Rightarrow>
          (let exhausted = (MAX_ATTEMPTS \<le> pm_attempts item)
           in res_bind (if exhausted then scrub_snapshot repr_of sn ''delivery_attempts_exhausted''
                        else Inr (pm_payload_json item)) (\<lambda>payload.
             Inr ((put_message (sn_id sn) (\<lambda>m. m\<lparr>
                     pm_status := (if exhausted then ''DEAD_LETTER'' else ''DEFERRED''),
                     pm_available_at := current + retry_delay 300 (pm_attempts item) * SECOND,
                     pm_lease_expires_at := None,
                     pm_last_error := Some (take 120 error_name),
                     pm_payload_json := payload,
                     pm_updated_at := current\<rparr>) db)
                  \<lparr>sd_audits := sd_audits db @
                     [worker_audit item ''smtp.security.message.delivery_failed''
                        (if exhausted then ''dead_letter'' else ''retry'')]\<rparr>))))"

definition mark_indeterminate :: "int \<Rightarrow> snapshot \<Rightarrow> string \<Rightarrow> security_db \<Rightarrow> security_db" where
  "mark_indeterminate current sn error_name db =
     (case in_flight db (sn_id sn) of
        None \<Rightarrow> db
      | Some item \<Rightarrow>
          (if \<not> reconcile_before_retry INDETERMINATE (pm_provider_message_id item) False
           then (put_message (sn_id sn) (\<lambda>m. m\<lparr>
                   pm_status := INDETERMINATE,
                   pm_lease_expires_at := None,
                   pm_last_error := Some (take 120 error_name),
                   pm_updated_at := current\<rparr>) db)
                 \<lparr>sd_audits := sd_audits db @
                    [worker_audit item ''smtp.security.message.indeterminate''
                       ''reconciliation_required'']\<rparr>
           else db))"

definition recover_expired_leases ::
  "int \<Rightarrow> (string \<Rightarrow> bool) \<Rightarrow> int \<Rightarrow> security_db \<Rightarrow> security_db \<times> nat" where
  "recover_expired_leases current locked max_attempts db =
     (let expired = (\<lambda>m. pm_status m = ''PROCESSING'' \<and>
            (case pm_lease_expires_at m of None \<Rightarrow> False | Some t \<Rightarrow> t < current) \<and> \<not> locked (pm_id m))
      in (db\<lparr>sd_messages := update_rows expired (\<lambda>m. m\<lparr>
              pm_status := (if max_attempts \<le> pm_attempts m then ''DEAD_LETTER'' else INDETERMINATE),
              pm_available_at := current + retry_delay 300 (pm_attempts m) * SECOND,
              pm_lease_expires_at := None,
              pm_last_error := Some ''worker_lease_expired'',
              pm_updated_at := current\<rparr>) (sd_messages db)\<rparr>,
          count_rows expired (sd_messages db)))"

section \<open>The worker's tick\<close>

fun provider_exn_name :: "provider_exn \<Rightarrow> string" where
  "provider_exn_name (HTTPStatusError _) = ''HTTPStatusError''"
| "provider_exn_name TimeoutException = ''TimeoutException''"
| "provider_exn_name NetworkError = ''NetworkError''"
| "provider_exn_name RemoteProtocolError = ''RemoteProtocolError''"
| "provider_exn_name (OtherError n) = n"

definition postal_key :: "env \<Rightarrow> (string \<Rightarrow> string option) \<Rightarrow> string res" where
  "postal_key e read_text =
     (let key_file = strip (env_get e ''KLYROW_POSTAL_API_KEY_FILE'' [])
      in if key_file = [] then Inl (RuntimeError ''Postal credential path is not configured'')
         else (case read_text key_file of
                 None \<Rightarrow> Inl (OSError ''FileNotFoundError'')
               | Some t \<Rightarrow>
                   (if strip t = [] then Inl (RuntimeError ''Postal credential is unavailable'')
                    else Inr (strip t))))"

text \<open>\<open>str(body.get("data", {}).get("message_id") or snapshot["id"])\<close>.\<close>

definition provider_id_of :: "(json \<Rightarrow> string) \<Rightarrow> json \<Rightarrow> string \<Rightarrow> provider_exn + string" where
  "provider_id_of repr_of body fallback =
     (case json_obj body of
        None \<Rightarrow> Inl (OtherError ''AttributeError'')
      | Some kvs \<Rightarrow>
          (case json_obj (case map_of kvs ''data'' of None \<Rightarrow> JObj [] | Some d \<Rightarrow> d) of
             None \<Rightarrow> Inl (OtherError ''AttributeError'')
           | Some data \<Rightarrow>
               Inr (json_str repr_of (json_or (obj_get data ''message_id'') (JStr fallback)))))"

definition submit ::
  "fernet \<Rightarrow> (string \<times> string) list res \<Rightarrow> (string \<Rightarrow> mime) \<Rightarrow> (json \<Rightarrow> string) \<Rightarrow> env
     \<Rightarrow> (string \<Rightarrow> string option) \<Rightarrow> ((string \<times> json) list \<Rightarrow> provider_exn + json) \<Rightarrow> snapshot
     \<Rightarrow> provider_exn + string" where
  "submit fn ring parse_mime repr_of e read_text post sn =
     (if e ''KLYROW_POSTAL_API_URL'' = None then Inl (OtherError ''KeyError'')
      else case postal_key e read_text of
        Inl x \<Rightarrow> Inl (OtherError (exn_name x))
      | Inr _ \<Rightarrow>
          (case postal_payload fn ring parse_mime sn of
             Inl x \<Rightarrow> Inl (OtherError (exn_name x))
           | Inr document \<Rightarrow>
               (case post document of
                  Inl x \<Rightarrow> Inl x
                | Inr body \<Rightarrow> provider_id_of repr_of body (sn_id sn))))"

text \<open>
  \<open>process_one_security_message\<close>: the tables after the tick and what it returned or raised. The
  transactions that committed before an exception stay committed.
\<close>

definition handle_failure ::
  "(json \<Rightarrow> string) \<Rightarrow> int \<Rightarrow> snapshot \<Rightarrow> provider_exn \<Rightarrow> security_db \<Rightarrow> security_db \<times> bool res" where
  "handle_failure repr_of current sn x db =
     (if provider_outcome_is_ambiguous x
      then (mark_indeterminate current sn (provider_exn_name x) db, Inr False)
      else (case mark_failed repr_of current sn (provider_exn_name x) db of
              Inl e \<Rightarrow> (db, Inl e) | Inr db' \<Rightarrow> (db', Inr False)))"

definition process_one_security_message ::
  "(json \<Rightarrow> string) \<Rightarrow> env \<Rightarrow> int \<Rightarrow> (string \<Rightarrow> bool) \<Rightarrow> string \<Rightarrow> (snapshot \<Rightarrow> provider_exn + string)
     \<Rightarrow> security_db \<Rightarrow> security_db \<times> bool res" where
  "process_one_security_message repr_of e current locked fresh submission db =
     (case purge_expired_security_payloads repr_of e current db of
        Inl x \<Rightarrow> (db, Inl x)
      | Inr (db1, _) \<Rightarrow>
          (case security_live_delivery_enabled e of
             Inl x \<Rightarrow> (db1, Inl x)
           | Inr live \<Rightarrow>
               (if \<not> live then (db1, Inr False)
                else case claim_one current locked db1 of
                  Inl x \<Rightarrow> (db1, Inl x)
                | Inr (db2, None) \<Rightarrow> (db2, Inr False)
                | Inr (db2, Some sn) \<Rightarrow>
                    (case submission sn of
                       Inl x \<Rightarrow> handle_failure repr_of current sn x db2
                     | Inr provider_message_id \<Rightarrow>
                         (case mark_submitted repr_of current fresh sn provider_message_id db2 of
                            Inr db3 \<Rightarrow> (db3, Inr True)
                          | Inl x \<Rightarrow> handle_failure repr_of current sn (OtherError (exn_name x)) db2)))))"

section \<open>The queue as a system of operations\<close>

datatype sec_op =
    OpPurge env int
  | OpClaim int "string \<Rightarrow> bool"
  | OpSubmitted int string snapshot string
  | OpFailed int snapshot string
  | OpIndeterminate int snapshot string
  | OpRecover int "string \<Rightarrow> bool" int

definition committed :: "'s \<Rightarrow> 's res \<Rightarrow> 's" where
  "committed s r = (case r of Inl _ \<Rightarrow> s | Inr s' \<Rightarrow> s')"

fun sec_step :: "(json \<Rightarrow> string) \<Rightarrow> sec_op \<Rightarrow> security_db \<Rightarrow> security_db" where
  "sec_step repr_of (OpPurge e t) db =
     committed db (res_bind (purge_expired_security_payloads repr_of e t db) (\<lambda>r. Inr (fst r)))"
| "sec_step repr_of (OpClaim t locked) db =
     committed db (res_bind (claim_one t locked db) (\<lambda>r. Inr (fst r)))"
| "sec_step repr_of (OpSubmitted t fresh sn pid) db =
     committed db (mark_submitted repr_of t fresh sn pid db)"
| "sec_step repr_of (OpFailed t sn n) db = committed db (mark_failed repr_of t sn n db)"
| "sec_step repr_of (OpIndeterminate t sn n) db = mark_indeterminate t sn n db"
| "sec_step repr_of (OpRecover t locked n) db = fst (recover_expired_leases t locked n db)"

definition sec_inv :: "security_db \<Rightarrow> bool" where
  "sec_inv db \<longleftrightarrow> distinct (map pm_id (sd_messages db)) \<and>
     (\<forall>m \<in> set (sd_messages db). pm_stream m = ''SECURITY'' \<longrightarrow> pm_attempts m \<le> MAX_ATTEMPTS)"

definition settled_states :: "string list" where
  "settled_states = INDETERMINATE # terminal_states"

definition sec_settled :: "provider_message_row \<Rightarrow> bool" where
  "sec_settled m \<longleftrightarrow> pm_stream m = ''SECURITY'' \<and> pm_status m \<in> set settled_states"

definition sec_view :: "provider_message_row \<Rightarrow> string \<times> int \<times> string option" where
  "sec_view m = (pm_status m, pm_attempts m, pm_provider_message_id m)"

section \<open>Lemmas\<close>

text \<open>
  Every operation rewrites rows one by one; a rewrite is sound when it keeps the identity and the
  stream of the row, does not raise the attempts beyond the cap, and leaves a settled row's outcome
  alone.
\<close>

definition sound_rewrite :: "(provider_message_row \<Rightarrow> provider_message_row) \<Rightarrow> provider_message_row \<Rightarrow> bool" where
  "sound_rewrite f m \<longleftrightarrow> pm_id (f m) = pm_id m \<and> pm_stream (f m) = pm_stream m \<and>
     (pm_stream m = ''SECURITY'' \<longrightarrow> pm_attempts m \<le> MAX_ATTEMPTS \<longrightarrow> pm_attempts (f m) \<le> MAX_ATTEMPTS) \<and>
     (sec_settled m \<longrightarrow> sec_settled (f m) \<and> sec_view (f m) = sec_view m)"

lemma settled_not_active:
  "sec_settled m \<Longrightarrow> pm_status m \<notin> set [''QUEUED'', ''DEFERRED'', ''PROCESSING'']"
  by (auto simp: sec_settled_def settled_states_def terminal_states_def INDETERMINATE_def)

definition evolves :: "security_db \<Rightarrow> security_db \<Rightarrow> bool" where
  "evolves db db' \<longleftrightarrow> (\<exists>f. sd_messages db' = map f (sd_messages db) \<and>
     (\<forall>m \<in> set (sd_messages db). sound_rewrite f m))"

lemma evolves_refl: "evolves db db"
  unfolding evolves_def by (intro exI [of _ id]) (simp add: sound_rewrite_def)

lemma evolves_update:
  assumes "sd_messages db' = update_rows P f (sd_messages db)"
    and "\<And>m. m \<in> set (sd_messages db) \<Longrightarrow> P m \<Longrightarrow> sound_rewrite f m"
  shows "evolves db db'"
  unfolding evolves_def using assms
  by (intro exI [of _ "\<lambda>m. if P m then f m else m"]) (auto simp: update_rows_def sound_rewrite_def)

lemma evolves_put:
  assumes "sd_messages db' = sd_messages (put_message mid f db)"
    and "\<And>m. m \<in> set (sd_messages db) \<Longrightarrow> pm_id m = mid \<Longrightarrow> sound_rewrite f m"
  shows "evolves db db'"
  using assms
  by (intro evolves_update [where P = "\<lambda>m. pm_id m = mid" and f = f]) (auto simp: put_message_def)

lemma evolves_trans:
  assumes "evolves a b" and "evolves b c"
  shows "evolves a c"
proof -
  obtain f g where f: "sd_messages b = map f (sd_messages a)" "\<forall>m \<in> set (sd_messages a). sound_rewrite f m"
    and g: "sd_messages c = map g (sd_messages b)" "\<forall>m \<in> set (sd_messages b). sound_rewrite g m"
    using assms unfolding evolves_def by blast
  have "sound_rewrite (g \<circ> f) m" if "m \<in> set (sd_messages a)" for m
    using that f g by (auto simp: sound_rewrite_def)
  then show ?thesis using f g by (auto simp: evolves_def intro: exI [of _ "g \<circ> f"])
qed

lemma evolves_inv:
  assumes "evolves db db'" and "sec_inv db"
  shows "sec_inv db'"
proof -
  obtain f where f: "sd_messages db' = map f (sd_messages db)"
      "\<forall>m \<in> set (sd_messages db). sound_rewrite f m"
    using assms(1) by (auto simp: evolves_def)
  have "map pm_id (sd_messages db') = map pm_id (sd_messages db)"
    using f by (simp add: sound_rewrite_def)
  then show ?thesis using assms(2) f by (auto simp: sec_inv_def sound_rewrite_def simp del: map_map)
qed

lemma evolves_settled:
  assumes "evolves db db'" and row: "get_message db k = Some r" "sec_settled r"
  shows "\<exists>r'. get_message db' k = Some r' \<and> sec_settled r' \<and> sec_view r' = sec_view r"
proof -
  obtain f where f: "sd_messages db' = map f (sd_messages db)"
      "\<forall>m \<in> set (sd_messages db). sound_rewrite f m"
    using assms(1) by (auto simp: evolves_def)
  have "r \<in> set (sd_messages db)" using row(1) find_row_Some by (fastforce simp: get_message_def)
  moreover have "get_message db' k = map_option f (get_message db k)"
    using f by (simp add: get_message_def find_row_map sound_rewrite_def)
  ultimately show ?thesis using f(2) row by (auto simp: sound_rewrite_def)
qed

lemma row_by_id:
  assumes "sec_inv db" "m \<in> set (sd_messages db)" "m' \<in> set (sd_messages db)" "pm_id m = pm_id m'"
  shows "m = m'"
  using assms by (auto simp: sec_inv_def distinct_map inj_on_def)

lemma in_flight_row:
  assumes "in_flight db mid = Some item"
  shows "item \<in> set (sd_messages db)" "pm_id item = mid" "pm_status item = ''PROCESSING''"
  using assms find_row_Some
  by (fastforce simp: in_flight_def get_message_def split: option.splits if_splits)+

text \<open>A rewrite of a row that is not settled only has to respect identity and the attempt cap.\<close>

lemma sound_rewrite_unsettled:
  "\<not> sec_settled m \<Longrightarrow> pm_id (f m) = pm_id m \<Longrightarrow> pm_stream (f m) = pm_stream m \<Longrightarrow>
     pm_attempts (f m) \<le> max (pm_attempts m) MAX_ATTEMPTS \<Longrightarrow> sound_rewrite f m"
  by (auto simp: sound_rewrite_def)

lemma in_flight_unsettled:
  assumes "sec_inv db" "in_flight db mid = Some item" "m \<in> set (sd_messages db)" "pm_id m = mid"
  shows "\<not> sec_settled m"
  using row_by_id [OF assms(1,3) in_flight_row(1) [OF assms(2)]] in_flight_row [OF assms(2)] assms(4)
  by (auto dest: settled_not_active)

lemma scrub_row_sound: "sound_rewrite (scrub_row had t safe) m"
proof -
  have "pm_status m \<notin> set active_states" if "sec_settled m"
    using settled_not_active [OF that] by (simp add: active_states_def)
  then show ?thesis
    by (auto simp: sound_rewrite_def scrub_row_def Let_def sec_view_def sec_settled_def)
qed

text \<open>Both outcomes of the loop body: the row has no ciphertext anywhere, or it is scrubbed.\<close>

lemma purge_one_cases:
  assumes "purge_one repr_of t item (db, n) = Inr (db', n')"
  obtains (clean) "db' = db" "n' = n"
      "\<not> contains_security_ciphertext (decoded_payload (pm_payload_json item))"
      "\<forall>c. find_row (\<lambda>c. sc_message_id c = pm_id item) (sd_captures db) = Some c \<longrightarrow>
         \<not> contains_security_ciphertext (decoded_payload (sc_content_json c))"
  | (scrubbed) had had_c safe kvs where
      "sd_messages db' = sd_messages (put_message (pm_id item) (scrub_row had t safe) db)"
      "sd_captures db' = (if had_c then update_rows (\<lambda>c. sc_message_id c = pm_id item)
                             (\<lambda>c. c\<lparr>sc_content_json := safe\<rparr>) (sd_captures db) else sd_captures db)"
      "had \<longleftrightarrow> contains_security_ciphertext (decoded_payload (pm_payload_json item))"
      "\<not> had_c \<longrightarrow> (\<forall>c. find_row (\<lambda>c. sc_message_id c = pm_id item) (sd_captures db) = Some c \<longrightarrow>
         \<not> contains_security_ciphertext (decoded_payload (sc_content_json c)))"
      "safe = JText (JObj kvs)" "obj_get kvs ''encrypted_raw'' = JNull" "n' = n + 1"
proof -
  let ?body = "decoded_payload (pm_payload_json item)"
  let ?cap = "case find_row (\<lambda>c. sc_message_id c = pm_id item) (sd_captures db) of
      None \<Rightarrow> [] | Some c \<Rightarrow> decoded_payload (sc_content_json c)"
  have none: "\<not> contains_security_ciphertext []"
    by (simp add: contains_security_ciphertext_def obj_get_def)
  show thesis
  proof (cases "contains_security_ciphertext ?body \<or> contains_security_ciphertext ?cap")
    case False
    then show ?thesis using assms clean
      by (auto simp: purge_one_def Let_def split: option.splits)
  next
    case True
    then obtain safe where safe: "scrubbed_security_payload repr_of
          (if ?body \<noteq> [] then ?body else ?cap) ''payload_retention_expired'' = Inr safe"
      "sd_messages db' = sd_messages (put_message (pm_id item)
         (scrub_row (contains_security_ciphertext ?body) t safe) db)"
      "sd_captures db' = (if contains_security_ciphertext ?cap
         then update_rows (\<lambda>c. sc_message_id c = pm_id item)
                (\<lambda>c. c\<lparr>sc_content_json := safe\<rparr>) (sd_captures db) else sd_captures db)" "n' = n + 1"
      using assms by (auto simp: purge_one_def Let_def res_bind_Inr)
    obtain kvs where kvs: "safe = JText (JObj kvs)" "obj_get kvs ''encrypted_raw'' = JNull"
      using scrubbed_no_ciphertext [OF safe(1)] by blast
    have "\<not> contains_security_ciphertext ?cap \<longrightarrow>
        (\<forall>c. find_row (\<lambda>c. sc_message_id c = pm_id item) (sd_captures db) = Some c \<longrightarrow>
           \<not> contains_security_ciphertext (decoded_payload (sc_content_json c)))"
      by auto
    with scrubbed [OF safe(2,3) refl _ kvs safe(4)] show ?thesis by blast
  qed
qed

lemma purge_one_evolves:
  assumes "purge_one repr_of t item (db, n) = Inr (db', n')"
  shows "evolves db db'"
  using assms by (cases rule: purge_one_cases)
    (auto intro: evolves_refl evolves_put scrub_row_sound)

lemma purge_loop_evolves:
  "purge_loop repr_of t items (db, n) = Inr (db', n') \<Longrightarrow> evolves db db'"
proof (induction items arbitrary: db n)
  case (Cons item items)
  then obtain db1 n1 where "purge_one repr_of t item (db, n) = Inr (db1, n1)"
      "purge_loop repr_of t items (db1, n1) = Inr (db', n')"
    by (auto simp: res_bind_Inr)
  then show ?case using Cons.IH purge_one_evolves evolves_trans by blast
qed (simp add: evolves_refl)

lemma purge_evolves:
  "purge_expired_security_payloads repr_of e t db = Inr (db', n) \<Longrightarrow> evolves db db'"
  by (auto simp: purge_expired_security_payloads_def res_bind_Inr dest: purge_loop_evolves)

lemma claim_one_Some:
  assumes "claim_one t locked db = Inr (db', Some sn)"
  obtains item where "select_rows pm_created_at (claimable t locked) 1 (sd_messages db) = [item]"
    and "pm_payload_json item = JText (sn_payload sn)" and "sn_id sn = pm_id item"
    and "db' = put_message (pm_id item) (\<lambda>m. m\<lparr>pm_status := ''PROCESSING'',
           pm_attempts := pm_attempts m + 1,
           pm_lease_expires_at := Some (t + LEASE_SECONDS * SECOND), pm_updated_at := t\<rparr>) db"
    and "sn_attempts sn = pm_attempts item + 1"
proof -
  have "length (select_rows pm_created_at (claimable t locked) 1 (sd_messages db)) \<le> 1"
    by (rule length_select_rows)
  then show ?thesis using assms that
    by (auto simp: claim_one_def Let_def split: list.splits jtext.splits)
qed

lemma claim_one_evolves:
  assumes "sec_inv db" and "claim_one t locked db = Inr (db', so)"
  shows "evolves db db'"
proof (cases so)
  case None
  then show ?thesis using assms(2)
    by (auto simp: claim_one_def Let_def evolves_refl split: list.splits jtext.splits)
next
  case (Some sn)
  with assms(2) obtain item where i: "select_rows pm_created_at (claimable t locked) 1 (sd_messages db) = [item]"
    "db' = put_message (pm_id item) (\<lambda>m. m\<lparr>pm_status := ''PROCESSING'',
           pm_attempts := pm_attempts m + 1,
           pm_lease_expires_at := Some (t + LEASE_SECONDS * SECOND), pm_updated_at := t\<rparr>) db"
    using claim_one_Some by blast
  have c: "item \<in> set (sd_messages db)" "claimable t locked item"
    using select_rows_in [of item pm_created_at "claimable t locked" 1 "sd_messages db"] i(1) by auto
  show ?thesis
  proof (rule evolves_put)
    fix m assume "m \<in> set (sd_messages db)" "pm_id m = pm_id item"
    then have "m = item" using row_by_id assms(1) c(1) by blast
    with c(2) show "sound_rewrite (\<lambda>m. m\<lparr>pm_status := ''PROCESSING'',
           pm_attempts := pm_attempts m + 1,
           pm_lease_expires_at := Some (t + LEASE_SECONDS * SECOND), pm_updated_at := t\<rparr>) m"
      by (intro sound_rewrite_unsettled) (auto simp: claimable_def dest: settled_not_active)
  qed (simp add: i(2))
qed

lemma mark_submitted_evolves:
  assumes "sec_inv db" and "mark_submitted repr_of t fresh sn pid db = Inr db'"
  shows "evolves db db'"
  using assms(2)
  by (auto simp: mark_submitted_def res_bind_Inr Let_def evolves_refl split: option.splits
      intro!: evolves_put sound_rewrite_unsettled dest: in_flight_unsettled [OF assms(1)])

lemma mark_failed_evolves:
  assumes "sec_inv db" and "mark_failed repr_of t sn n db = Inr db'"
  shows "evolves db db'"
  using assms(2)
  by (auto simp: mark_failed_def res_bind_Inr Let_def evolves_refl split: option.splits
      intro!: evolves_put sound_rewrite_unsettled dest: in_flight_unsettled [OF assms(1)])

lemma mark_indeterminate_evolves:
  assumes "sec_inv db"
  shows "evolves db (mark_indeterminate t sn n db)"
  by (auto simp: mark_indeterminate_def evolves_refl split: option.splits
      intro!: evolves_put sound_rewrite_unsettled dest: in_flight_unsettled [OF assms])

lemma recover_evolves: "evolves db (fst (recover_expired_leases t locked n db))"
  by (auto simp: recover_expired_leases_def Let_def dest!: settled_not_active
      intro!: evolves_update sound_rewrite_unsettled)

lemma sec_step_evolves:
  assumes "sec_inv db"
  shows "evolves db (sec_step repr_of op db)"
  by (cases op)
     (auto simp: committed_def res_bind_def evolves_refl recover_evolves
        mark_indeterminate_evolves [OF assms] split: sum.splits
        dest: purge_evolves claim_one_evolves [OF assms] mark_submitted_evolves [OF assms]
          mark_failed_evolves [OF assms])

interpretation sec: settled_rows "sec_step repr_of" sec_inv get_message sec_settled sec_view
  for repr_of
  by unfold_locales (auto intro: evolves_inv evolves_settled sec_step_evolves)

subsection \<open>Retention\<close>

definition clean_id :: "security_db \<Rightarrow> string \<Rightarrow> bool" where
  "clean_id db k \<longleftrightarrow>
     (\<forall>m \<in> set (sd_messages db). pm_id m = k \<longrightarrow>
        \<not> contains_security_ciphertext (decoded_payload (pm_payload_json m))) \<and>
     (\<forall>c. find_row (\<lambda>c. sc_message_id c = k) (sd_captures db) = Some c \<longrightarrow>
        \<not> contains_security_ciphertext (decoded_payload (sc_content_json c)))"

lemma scrubbed_document_clean:
  "obj_get kvs ''encrypted_raw'' = JNull \<Longrightarrow>
     \<not> contains_security_ciphertext (decoded_payload (JText (JObj kvs)))"
  by (simp add: contains_security_ciphertext_def)

lemma put_message_rows:
  "m' \<in> set (sd_messages (put_message k f db)) \<Longrightarrow>
     \<exists>m \<in> set (sd_messages db). m' = (if pm_id m = k then f m else m)"
  by (auto simp: put_message_def set_update_rows)

lemma put_message_other:
  "m \<in> set (sd_messages db) \<Longrightarrow> pm_id m \<noteq> k \<Longrightarrow> m \<in> set (sd_messages (put_message k f db))"
  by (auto simp: put_message_def set_update_rows)

lemma scrub_row_fields [simp]:
  "pm_id (scrub_row h t safe m) = pm_id m"
  "pm_created_at (scrub_row h t safe m) = pm_created_at m"
  "pm_payload_json (scrub_row h t safe m) = (if h then safe else pm_payload_json m)"
  by (simp_all add: scrub_row_def Let_def)

lemma capture_update_clean:
  assumes "find_row (\<lambda>c. sc_message_id c = k) (update_rows (\<lambda>c. sc_message_id c = i)
      (\<lambda>c. c\<lparr>sc_content_json := safe\<rparr>) cs) = Some c"
  shows "k = i \<and> sc_content_json c = safe \<or>
    k \<noteq> i \<and> find_row (\<lambda>c. sc_message_id c = k) cs = Some c"
  using assms
  by (cases "k = i")
     (auto 0 3 simp: find_update_rows [where key = sc_message_id] dest: find_row_Some split: if_splits
        dest!: arg_cong [where f = sc_content_json])

lemma purge_one_keeps_row:
  assumes "purge_one repr_of t item (db, n) = Inr (db', n')"
    and "m \<in> set (sd_messages db)" and "pm_id m \<noteq> pm_id item"
  shows "m \<in> set (sd_messages db')"
  using assms(1) by (cases rule: purge_one_cases) (use assms in \<open>auto intro: put_message_other\<close>)

text \<open>After one pass of the loop, what is clean stays clean, and the item's row gets clean.\<close>

lemma purge_one_cleans:
  assumes one: "purge_one repr_of t item (db, n) = Inr (db', n')"
    and k: "clean_id db k \<or>
      k = pm_id item \<and> distinct (map pm_id (sd_messages db)) \<and> item \<in> set (sd_messages db)"
  shows "clean_id db' k"
proof -
  have only: "m = item" if "m \<in> set (sd_messages db)" "pm_id m = pm_id item"
      "distinct (map pm_id (sd_messages db))" "item \<in> set (sd_messages db)" for m
    using that by (auto simp: distinct_map inj_on_def)
  show ?thesis using one
  proof (cases rule: purge_one_cases)
    case clean
    then show ?thesis using only k by (auto simp: clean_id_def)
  next
    case (scrubbed had had_c safe kvs)
    have safe: "\<not> contains_security_ciphertext (decoded_payload safe)"
      using scrubbed_document_clean scrubbed(5,6) by simp
    have body: "\<not> contains_security_ciphertext (decoded_payload (pm_payload_json m'))"
      if m': "m' \<in> set (sd_messages db')" "pm_id m' = k" for m'
    proof -
      obtain m where m: "m \<in> set (sd_messages db)"
          "m' = (if pm_id m = pm_id item then scrub_row had t safe m else m)"
        using put_message_rows m'(1) unfolding scrubbed(1) by blast
      then have "pm_id m = k" using m'(2) by (auto split: if_splits)
      then have "clean_id db k \<or> m = item" using k only m(1) by blast
      then show ?thesis using m safe scrubbed(3) \<open>pm_id m = k\<close>
        by (auto simp: clean_id_def split: if_splits)
    qed
    have capture: "\<not> contains_security_ciphertext (decoded_payload (sc_content_json d))"
      if d: "find_row (\<lambda>c. sc_message_id c = k) (sd_captures db') = Some d" for d
    proof (cases had_c)
      case True
      then show ?thesis using capture_update_clean [of k "pm_id item" safe "sd_captures db" d] d k safe
        unfolding scrubbed(2) by (auto simp: clean_id_def)
    next
      case False
      then show ?thesis using scrubbed(4) d k unfolding scrubbed(2) by (auto simp: clean_id_def)
    qed
    from body capture show ?thesis by (simp add: clean_id_def)
  qed
qed

lemma purge_loop_keeps:
  "purge_loop repr_of t items (db, n) = Inr (db', n') \<Longrightarrow> m \<in> set (sd_messages db) \<Longrightarrow>
     pm_id m \<notin> pm_id ` set items \<Longrightarrow> m \<in> set (sd_messages db')"
proof (induction items arbitrary: db n)
  case (Cons item items)
  then obtain db1 n1 where "purge_one repr_of t item (db, n) = Inr (db1, n1)"
      "purge_loop repr_of t items (db1, n1) = Inr (db', n')"
    by (auto simp: res_bind_Inr)
  then show ?case using Cons purge_one_keeps_row by auto
qed simp

lemma purge_loop_cleans:
  "purge_loop repr_of t items (db, n) = Inr (db', n') \<Longrightarrow> sec_inv db \<Longrightarrow>
     set items \<subseteq> set (sd_messages db) \<Longrightarrow> distinct (map pm_id items) \<Longrightarrow>
     k \<in> pm_id ` set items \<or> clean_id db k \<Longrightarrow> clean_id db' k"
proof (induction items arbitrary: db n)
  case (Cons item items)
  then obtain db1 n1 where one: "purge_one repr_of t item (db, n) = Inr (db1, n1)"
      and rest: "purge_loop repr_of t items (db1, n1) = Inr (db', n')"
    by (auto simp: res_bind_Inr)
  have "x \<in> set (sd_messages db1)" if x: "x \<in> set items" for x
  proof -
    have "pm_id x \<in> pm_id ` set items" using x by simp
    then have "pm_id x \<noteq> pm_id item" using Cons.prems(4) by auto
    then show ?thesis using purge_one_keeps_row [OF one] Cons.prems(3) x by auto
  qed
  then have "set items \<subseteq> set (sd_messages db1)" by blast
  moreover have "k \<in> pm_id ` set items \<or> clean_id db1 k"
    using Cons.prems(2,3,5) purge_one_cleans [OF one, of k] by (auto simp: sec_inv_def)
  ultimately show ?case
    using Cons.IH [OF rest] Cons.prems(2,4) evolves_inv purge_one_evolves [OF one] by simp
qed simp

text \<open>The row that a claim leases, and what the claim leaves alone.\<close>

definition lease_row :: "int \<Rightarrow> provider_message_row \<Rightarrow> provider_message_row" where
  "lease_row t m = m\<lparr>pm_status := ''PROCESSING'', pm_attempts := pm_attempts m + 1,
     pm_lease_expires_at := Some (t + LEASE_SECONDS * SECOND), pm_updated_at := t\<rparr>"

lemma get_put_message:
  assumes "\<And>m. pm_id (f m) = pm_id m"
  shows "get_message (put_message i f db) k =
    (if k = i then map_option f (get_message db k) else get_message db k)"
proof (cases "get_message db k")
  case (Some m)
  then have "pm_id m = k" using find_row_Some by (fastforce simp: get_message_def)
  then show ?thesis using Some assms
    by (auto simp: get_message_def put_message_def find_update_rows [where key = pm_id])
qed (auto simp: get_message_def put_message_def find_update_rows [where key = pm_id] assms)

lemma claim_one_row:
  assumes "sec_inv db" and "claim_one t locked db = Inr (db', Some sn)"
  obtains item where "item \<in> set (sd_messages db)" and "sn_id sn = pm_id item"
    and "claimable t locked item" and "pm_payload_json item = JText (sn_payload sn)"
    and "sn_attempts sn = pm_attempts item + 1"
    and "\<forall>m \<in> set (sd_messages db). claimable t locked m \<longrightarrow> pm_created_at item \<le> pm_created_at m"
    and "get_message db' (pm_id item) = Some (lease_row t item)"
    and "\<forall>k. k \<noteq> sn_id sn \<longrightarrow> get_message db' k = get_message db k"
proof -
  obtain item where i: "select_rows pm_created_at (claimable t locked) 1 (sd_messages db) = [item]"
    "pm_payload_json item = JText (sn_payload sn)" "sn_id sn = pm_id item"
    "db' = put_message (pm_id item) (lease_row t) db" "sn_attempts sn = pm_attempts item + 1"
    using claim_one_Some [OF assms(2)] unfolding lease_row_def by blast
  have c: "item \<in> set (sd_messages db)" "claimable t locked item"
    using select_rows_in [of item pm_created_at "claimable t locked" 1 "sd_messages db"] i(1) by auto
  have "get_message db (pm_id item) = Some item"
    using find_row_unique [where key = pm_id, OF _ c(1)] assms(1)
    by (simp add: get_message_def sec_inv_def)
  then show thesis using that [OF c(1) i(3) c(2) i(2) i(5)] select_rows_first_min [OF i(1)]
    by (simp add: i(3,4) get_put_message lease_row_def)
qed

text \<open>The three outcome transactions on a row in flight.\<close>

lemma get_message_frame [simp]:
  "get_message (db\<lparr>sd_events := es\<rparr>) k = get_message db k"
  "get_message (db\<lparr>sd_audits := as\<rparr>) k = get_message db k"
  "get_message (db\<lparr>sd_events := es, sd_audits := as\<rparr>) k = get_message db k"
  by (simp_all add: get_message_def)

lemma put_message_events [simp]: "sd_events (put_message i f db) = sd_events db"
  by (simp add: put_message_def)

lemma in_flight_lease:
  "get_message db mid = Some (lease_row t item) \<Longrightarrow> in_flight db mid = Some (lease_row t item)"
  by (simp add: in_flight_def lease_row_def)

lemma in_flight_get: "in_flight db mid = Some item \<Longrightarrow> get_message db mid = Some item"
  by (auto simp: in_flight_def split: option.splits if_splits)

lemma mark_submitted_row:
  assumes "in_flight db (sn_id sn) = Some item"
    and "scrub_snapshot repr_of sn ''provider_submitted'' = Inr safe"
  shows "\<exists>db'. mark_submitted repr_of t fresh sn pid db = Inr db' \<and>
    get_message db' (sn_id sn) = Some (item\<lparr>pm_status := ''SUBMITTED'',
       pm_provider_message_id := Some pid, pm_payload_json := safe, pm_lease_expires_at := None,
       pm_last_error := None, pm_updated_at := t\<rparr>) \<and>
    map pv_kind (sd_events db') = map pv_kind (sd_events db) @ [''message.submitted'']"
  using assms in_flight_get [OF assms(1)]
  by (simp add: mark_submitted_def Let_def get_put_message)

lemma mark_failed_row:
  assumes "in_flight db (sn_id sn) = Some item"
    and "MAX_ATTEMPTS \<le> pm_attempts item \<Longrightarrow>
      scrub_snapshot repr_of sn ''delivery_attempts_exhausted'' = Inr safe"
  shows "\<exists>db'. mark_failed repr_of t sn n db = Inr db' \<and> get_message db' (sn_id sn) =
    Some (item\<lparr>pm_status := (if MAX_ATTEMPTS \<le> pm_attempts item then ''DEAD_LETTER'' else ''DEFERRED''),
       pm_available_at := t + retry_delay 300 (pm_attempts item) * SECOND,
       pm_lease_expires_at := None, pm_last_error := Some (take 120 n),
       pm_payload_json := (if MAX_ATTEMPTS \<le> pm_attempts item then safe else pm_payload_json item),
       pm_updated_at := t\<rparr>)"
  using assms in_flight_get [OF assms(1)]
  by (auto simp: mark_failed_def Let_def get_put_message)

lemma mark_indeterminate_row:
  assumes "in_flight db (sn_id sn) = Some item"
  shows "get_message (mark_indeterminate t sn n db) (sn_id sn) =
    Some (item\<lparr>pm_status := INDETERMINATE, pm_lease_expires_at := None,
       pm_last_error := Some (take 120 n), pm_updated_at := t\<rparr>)"
  using assms in_flight_get [OF assms(1)]
  by (simp add: mark_indeterminate_def reconcile_before_retry_def get_put_message)

section \<open>Properties\<close>

text \<open>
  The claim leases the oldest eligible row and nothing else: a SECURITY message outside the
  sandbox, queued or deferred, due, not held by another transaction and with attempts left; it
  becomes \<open>PROCESSING\<close> with one more attempt, never more than five, and a lease of two minutes,
  and every other row is untouched.
\<close>

theorem claim_one_correct:
  assumes "sec_inv db" and "claim_one t locked db = Inr (db', Some sn)"
  shows "\<exists>item \<in> set (sd_messages db). sn_id sn = pm_id item \<and> claimable t locked item \<and>
    (\<forall>m \<in> set (sd_messages db). claimable t locked m \<longrightarrow> pm_created_at item \<le> pm_created_at m) \<and>
    get_message db' (pm_id item) = Some (item\<lparr>pm_status := ''PROCESSING'',
       pm_attempts := pm_attempts item + 1,
       pm_lease_expires_at := Some (t + 120 * SECOND), pm_updated_at := t\<rparr>) \<and>
    pm_attempts item + 1 \<le> 5 \<and> (\<forall>k. k \<noteq> sn_id sn \<longrightarrow> get_message db' k = get_message db k)"
  using claim_one_row [OF assms]
  by (metis LEASE_SECONDS_def MAX_ATTEMPTS_def claimable_def lease_row_def zless_imp_add1_zle)

text \<open>
  C1. Whatever the interleaving of claims, outcome reports, lease recovery and retention runs of any
  number of workers, no SECURITY message is ever attempted more than five times, and once a message
  is submitted, delivered, failed, dead-lettered or quarantined as indeterminate its status, its
  number of attempts and its provider identifier never change again.
\<close>

theorem security_outcome_final:
  assumes "sec_inv db" and "get_message db k = Some m" and "sec_settled m"
  shows "(\<exists>m'. get_message (run_ops (sec_step repr_of) ops db) k = Some m' \<and>
       pm_status m' = pm_status m \<and> pm_attempts m' = pm_attempts m \<and>
       pm_provider_message_id m' = pm_provider_message_id m) \<and>
     (\<forall>x \<in> set (sd_messages (run_ops (sec_step repr_of) ops db)).
        pm_stream x = ''SECURITY'' \<longrightarrow> pm_attempts x \<le> 5)"
proof -
  have "sec_inv (run_ops (sec_step repr_of) ops db)" using assms(1) by (rule sec.inv_run)
  moreover have "\<exists>m'. get_message (run_ops (sec_step repr_of) ops db) k = Some m' \<and>
      sec_settled m' \<and> sec_view m' = sec_view m"
    using assms by (rule sec.settled_run)
  ultimately show ?thesis by (auto simp: sec_inv_def sec_view_def MAX_ATTEMPTS_def)
qed

text \<open>
  Retention: after a retention run that succeeds, no SECURITY message in one of the eight
  covered states that is older than the configured age has ciphertext left in its own row or in its
  sandbox capture.
\<close>

theorem purge_removes_ciphertext:
  assumes "sec_inv db" and "max_payload_age_seconds e = Inr age"
    and "purge_expired_security_payloads repr_of e t db = Inr (db', n)"
    and "m \<in> set (sd_messages db')" and "purge_due (t - age * SECOND) m"
  shows "\<not> contains_security_ciphertext (decoded_payload (pm_payload_json m)) \<and>
    (\<forall>c. find_row (\<lambda>c. sc_message_id c = pm_id m) (sd_captures db') = Some c \<longrightarrow>
       \<not> contains_security_ciphertext (decoded_payload (sc_content_json c)))"
proof -
  let ?items = "filter (purge_due (t - age * SECOND)) (sd_messages db)"
  have loop: "purge_loop repr_of t ?items (db, 0) = Inr (db', n)"
    using assms(2,3) by (simp add: purge_expired_security_payloads_def)
  have ids: "distinct (map pm_id ?items)"
    using assms(1) by (simp add: sec_inv_def distinct_map_filter)
  have "pm_id m \<in> pm_id ` set ?items"
  proof (rule ccontr)
    assume out: "pm_id m \<notin> pm_id ` set ?items"
    obtain f where f: "sd_messages db' = map f (sd_messages db)"
        "\<forall>m \<in> set (sd_messages db). sound_rewrite f m"
      using purge_loop_evolves [OF loop] by (auto simp: evolves_def)
    then obtain m0 where m0: "m0 \<in> set (sd_messages db)" "pm_id m0 = pm_id m"
      using assms(4) by (auto simp: sound_rewrite_def)
    then have "m0 \<in> set (sd_messages db')" using purge_loop_keeps [OF loop] out by simp
    then have "m0 = m" using row_by_id [of db'] evolves_inv [OF purge_loop_evolves [OF loop] assms(1)]
        assms(4) m0(2) by blast
    with m0(1) assms(5) out show False by auto
  qed
  then have "clean_id db' (pm_id m)" using purge_loop_cleans [OF loop assms(1) _ ids] by auto
  with assms(4) show ?thesis by (auto simp: clean_id_def)
qed

text \<open>
  The retention run does not cover the quarantine: a message whose outcome is indeterminate,
  which is where an ambiguous submission and an expired lease leave it, keeps its row, ciphertext
  included, through every retention run, however old it is.
\<close>

theorem purge_skips_indeterminate:
  assumes "sec_inv db" and "purge_expired_security_payloads repr_of e t db = Inr (db', n)"
    and "m \<in> set (sd_messages db)" and "pm_status m = ''INDETERMINATE''"
  shows "m \<in> set (sd_messages db')"
proof -
  obtain age where loop: "purge_loop repr_of t (filter (purge_due (t - age * SECOND)) (sd_messages db))
      (db, 0) = Inr (db', n)"
    using assms(2) by (auto simp: purge_expired_security_payloads_def res_bind_Inr)
  have "\<not> purge_due c m" for c
    using assms(4) by (simp add: purge_due_def active_states_def terminal_states_def)
  then show ?thesis using purge_loop_keeps [OF loop assms(3)] row_by_id [OF assms(1,3)] by auto
qed

text \<open>
  One tick of the worker, end to end: when Postal returned an identifier the row is submitted
  under it and holds no ciphertext; when the exchange failed in a way that Postal may have accepted,
  the row is quarantined as indeterminate and not retried; any other failure puts it off by an
  exponential delay of at most five minutes, and after the fifth attempt dead-letters it without its
  ciphertext.
\<close>

theorem security_tick_outcome:
  assumes "sec_inv db" and "purge_expired_security_payloads repr_of e t db = Inr (db1, n)"
    and "security_live_delivery_enabled e = Inr True"
    and "claim_one t locked db1 = Inr (db2, Some sn)"
    and "json_obj (sn_payload sn) = Some kvs"
    and "json_int (json_or (obj_get kvs ''size'') (JInt 0)) = Inr payload_size"
    and "process_one_security_message repr_of e t locked fresh submission db = (db', r)"
  shows "\<exists>m. get_message db' (sn_id sn) = Some m \<and>
    (case submission sn of
       Inr pid \<Rightarrow> r = Inr True \<and> pm_status m = ''SUBMITTED'' \<and>
         pm_provider_message_id m = Some pid \<and>
         \<not> contains_security_ciphertext (decoded_payload (pm_payload_json m))
     | Inl x \<Rightarrow> r = Inr False \<and>
         (if provider_outcome_is_ambiguous x then pm_status m = ''INDETERMINATE''
          else if sn_attempts sn < 5
          then pm_status m = ''DEFERRED'' \<and> pm_payload_json m = JText (sn_payload sn) \<and>
            pm_available_at m = t + min 300 (2 ^ nat (max (sn_attempts sn) 1)) * SECOND
          else pm_status m = ''DEAD_LETTER'' \<and>
            \<not> contains_security_ciphertext (decoded_payload (pm_payload_json m))))"
proof -
  have inv: "sec_inv db1" using evolves_inv [OF purge_evolves [OF assms(2)] assms(1)] .
  obtain item where item: "sn_id sn = pm_id item" "pm_payload_json item = JText (sn_payload sn)"
      "sn_attempts sn = pm_attempts item + 1" "get_message db2 (pm_id item) = Some (lease_row t item)"
    using claim_one_row [OF inv assms(4)] by metis
  have flight: "in_flight db2 (sn_id sn) = Some (lease_row t item)"
    using item(1,4) in_flight_lease by simp
  have scrub: "\<exists>safe. scrub_snapshot repr_of sn reason = Inr safe \<and>
      \<not> contains_security_ciphertext (decoded_payload safe)" for reason
    using assms(5,6)
    by (simp add: scrub_snapshot_def scrubbed_security_payload_def contains_security_ciphertext_def
        obj_get_def)
  have tick: "process_one_security_message repr_of e t locked fresh submission db =
      (case submission sn of
         Inl x \<Rightarrow> handle_failure repr_of t sn x db2
       | Inr pid \<Rightarrow> (case mark_submitted repr_of t fresh sn pid db2 of
             Inr db3 \<Rightarrow> (db3, Inr True)
           | Inl x \<Rightarrow> handle_failure repr_of t sn (OtherError (exn_name x)) db2))"
    using assms(2,3,4) by (simp add: process_one_security_message_def)
  show ?thesis
  proof (cases "submission sn")
    case (Inr pid)
    obtain safe where "scrub_snapshot repr_of sn ''provider_submitted'' = Inr safe"
        "\<not> contains_security_ciphertext (decoded_payload safe)" using scrub by blast
    with mark_submitted_row [OF flight, of repr_of safe t fresh pid] tick assms(7) Inr
    show ?thesis by auto
  next
    case (Inl x)
    obtain safe where safe: "scrub_snapshot repr_of sn ''delivery_attempts_exhausted'' = Inr safe"
        "\<not> contains_security_ciphertext (decoded_payload safe)" using scrub by blast
    have handled: "(db', r) = handle_failure repr_of t sn x db2" using tick assms(7) Inl by simp
    show ?thesis
    proof (cases "provider_outcome_is_ambiguous x")
      case True
      with handled mark_indeterminate_row [OF flight, of t "provider_exn_name x"] Inl
      show ?thesis by (simp add: handle_failure_def INDETERMINATE_def)
    next
      case False
      have "pm_attempts (lease_row t item) = sn_attempts sn"
        "pm_payload_json (lease_row t item) = JText (sn_payload sn)"
        using item(2,3) by (simp_all add: lease_row_def)
      with False handled mark_failed_row [OF flight safe(1), of t "provider_exn_name x"] Inl safe(2)
      show ?thesis
        by (cases "sn_attempts sn < 5") (auto simp: handle_failure_def MAX_ATTEMPTS_def retry_delay_def)
    qed
  qed
qed

section \<open>A concrete queue\<close>

definition sec_document :: json where
  "sec_document = JObj [(''encrypted_raw'', JStr ''c''), (''size'', JInt 2), (''stream'', JStr ''SECURITY'')]"

definition sec_row :: provider_message_row where
  "sec_row = \<lparr>pm_id = ''m1'', pm_tenant_id = ''t1'', pm_correlation_id = ''c1'',
     pm_idempotency_key = ''i1'', pm_request_hash = ''h1'', pm_sender = ''a@b'',
     pm_recipient = ''c@d'', pm_subject = ''s'', pm_payload_json = JText sec_document,
     pm_stream = ''SECURITY'', pm_status = ''QUEUED'', pm_sandbox = False,
     pm_provider_message_id = None, pm_attempts = 0, pm_available_at = 0,
     pm_lease_expires_at = None, pm_last_error = None, pm_created_at = 0, pm_updated_at = 0\<rparr>"

definition sec_db :: security_db where
  "sec_db = \<lparr>sd_messages = [sec_row, sec_row\<lparr>pm_id := ''m2'', pm_status := ''INDETERMINATE''\<rparr>],
     sd_captures = [], sd_events = [], sd_audits = []\<rparr>"

definition sec_snapshot :: snapshot where
  "sec_snapshot = \<lparr>sn_id = ''m1'', sn_tenant_id = ''t1'', sn_sender = ''a@b'', sn_recipient = ''c@d'',
     sn_subject = ''s'', sn_correlation_id = ''c1'', sn_idempotency_key = ''i1'', sn_attempts = 1,
     sn_payload = sec_document\<rparr>"

definition sec_env :: env where
  "sec_env = env_of [(''KLYROW_SECURITY_SMTP_ENABLED'', ''true''),
     (''KLYROW_SECURITY_SMTP_LIVE_ENABLED'', ''true''),
     (''KLYROW_SECURITY_PAYLOAD_MAX_AGE_SECONDS'', ''300'')]"

definition unlocked :: "string \<Rightarrow> bool" where "unlocked k = False"

lemma sec_db_inv: "sec_inv sec_db"
  by (simp add: sec_inv_def sec_db_def sec_row_def MAX_ATTEMPTS_def)

lemma sec_db_claim:
  "claim_one 5 unlocked sec_db = Inr (put_message ''m1'' (lease_row 5) sec_db, Some sec_snapshot)"
  by (simp add: claim_one_def select_rows_def claimable_def sec_db_def sec_row_def MAX_ATTEMPTS_def
      unlocked_def lease_row_def [abs_def] sec_snapshot_def Let_def)

theorem claim_one_correct_witness:
  "claimable 5 unlocked sec_row \<and> get_message (put_message ''m1'' (lease_row 5) sec_db) ''m2'' =
     Some (sec_row\<lparr>pm_id := ''m2'', pm_status := ''INDETERMINATE''\<rparr>)"
proof -
  note c = claim_one_correct [OF sec_db_inv sec_db_claim]
  have "\<forall>k. k \<noteq> ''m1'' \<longrightarrow>
      get_message (put_message ''m1'' (lease_row 5) sec_db) k = get_message sec_db k"
    using c by (auto simp: sec_snapshot_def)
  then show ?thesis using c
    by (auto simp: sec_db_def sec_row_def sec_snapshot_def get_message_def claimable_def)
qed

theorem security_outcome_final_witness:
  "\<exists>m' :: provider_message_row.
     get_message (run_ops (sec_step (\<lambda>_. [])) [OpClaim 5 unlocked, OpRecover 900000000 unlocked 5] sec_db) ''m2'' = Some m' \<and>
     pm_status m' = ''INDETERMINATE''"
proof -
  have row: "get_message sec_db ''m2'' = Some (sec_row\<lparr>pm_id := ''m2'', pm_status := ''INDETERMINATE''\<rparr>)"
    by (simp add: get_message_def sec_db_def sec_row_def)
  have "sec_settled (sec_row\<lparr>pm_id := ''m2'', pm_status := ''INDETERMINATE''\<rparr>)"
    by (simp add: sec_settled_def settled_states_def INDETERMINATE_def sec_row_def)
  from security_outcome_final [OF sec_db_inv row this, of "\<lambda>_. []"
      "[OpClaim 5 unlocked, OpRecover 900000000 unlocked 5]"]
  show ?thesis by (simp add: sec_row_def del: run_ops_simps) blast
qed

lemma sec_env_values:
  "max_payload_age_seconds sec_env = Inr 300"
  "security_live_delivery_enabled sec_env = Inr True"
  by code_simp+

definition purged_document :: json where
  "purged_document = JObj [(''body_state'', JStr ''PURGED''), (''message_id'', JStr []),
     (''purge_reason'', JStr ''payload_retention_expired''), (''raw_sha256'', JStr []),
     (''size'', JInt 2), (''stream'', JStr ''SECURITY'')]"

definition purged_row :: provider_message_row where
  "purged_row = sec_row\<lparr>pm_payload_json := JText purged_document, pm_status := ''DEAD_LETTER'',
     pm_last_error := Some ''security_payload_retention_expired'', pm_updated_at := 900000000\<rparr>"

lemma sec_db_purged:
  "\<exists>db'. purge_expired_security_payloads (\<lambda>_. []) sec_env 900000000 sec_db = Inr (db', 1) \<and>
     sd_messages db' = [purged_row, sec_row\<lparr>pm_id := ''m2'', pm_status := ''INDETERMINATE''\<rparr>]"
  by (simp add: purge_expired_security_payloads_def sec_env_values purge_due_def sec_db_def sec_row_def
      active_states_def terminal_states_def SECOND_def purge_one_def sec_document_def
      contains_security_ciphertext_def obj_get_def Let_def scrubbed_security_payload_def json_or_def
      put_message_def scrub_row_def purged_row_def purged_document_def)

theorem purge_removes_ciphertext_witness:
  "\<not> contains_security_ciphertext (decoded_payload (pm_payload_json purged_row))"
proof -
  obtain db' where db': "purge_expired_security_payloads (\<lambda>_. []) sec_env 900000000 sec_db = Inr (db', 1)"
      "purged_row \<in> set (sd_messages db')"
    using sec_db_purged by auto
  have "purge_due (900000000 - 300 * SECOND) purged_row"
    by (simp add: purge_due_def purged_row_def sec_row_def active_states_def terminal_states_def SECOND_def)
  with purge_removes_ciphertext [OF sec_db_inv sec_env_values(1) db'] show ?thesis by blast
qed

theorem purge_skips_indeterminate_witness:
  "\<exists>db' :: security_db.
     purge_expired_security_payloads (\<lambda>_. []) sec_env 900000000 sec_db = Inr (db', 1) \<and>
     sec_row\<lparr>pm_id := ''m2'', pm_status := ''INDETERMINATE''\<rparr> \<in> set (sd_messages db') \<and>
     contains_security_ciphertext (decoded_payload (pm_payload_json sec_row))"
proof -
  obtain db' where db': "purge_expired_security_payloads (\<lambda>_. []) sec_env 900000000 sec_db = Inr (db', 1)"
    using sec_db_purged by auto
  have "sec_row\<lparr>pm_id := ''m2'', pm_status := ''INDETERMINATE''\<rparr> \<in> set (sd_messages sec_db)"
    by (simp add: sec_db_def)
  from purge_skips_indeterminate [OF sec_db_inv db' this] db' show ?thesis
    by (auto simp: sec_row_def sec_document_def contains_security_ciphertext_def obj_get_def)
qed

theorem security_tick_outcome_witness:
  "\<exists>m :: provider_message_row. get_message (fst (process_one_security_message (\<lambda>_. []) sec_env 5 unlocked ''e''
       (\<lambda>_. Inr ''p1'') sec_db)) ''m1'' = Some m \<and> pm_status m = ''SUBMITTED'' \<and>
     pm_provider_message_id m = Some ''p1''"
proof -
  have purge: "purge_expired_security_payloads (\<lambda>_. []) sec_env 5 sec_db = Inr (sec_db, 0)"
    by (simp add: purge_expired_security_payloads_def sec_env_values purge_due_def sec_db_def sec_row_def
        SECOND_def)
  have "json_obj (sn_payload sec_snapshot) =
      Some [(''encrypted_raw'', JStr ''c''), (''size'', JInt 2), (''stream'', JStr ''SECURITY'')]"
    by (simp add: sec_snapshot_def sec_document_def)
  moreover have "json_int (json_or (obj_get [(''encrypted_raw'', JStr ''c''), (''size'', JInt 2),
      (''stream'', JStr ''SECURITY'')] ''size'') (JInt 0)) = Inr 2"
    by (simp add: obj_get_def json_or_def)
  ultimately show ?thesis
    using security_tick_outcome [OF sec_db_inv purge sec_env_values(2) sec_db_claim _ _
        prod.collapse [symmetric], of _ 2 "''e''" "\<lambda>_. Inr ''p1''"]
    by (simp add: sec_snapshot_def) blast
qed

end
