(* ===== verification/BusinessEvents.thy ===== *)
theory BusinessEvents
  imports Prelude
begin

text \<open>
  \<open>business_events.py\<close>: the Klyrow business events and their outbox. The pydantic models are
  schemas, lists of field descriptions with the constraints of the source; the package's own coercion
  of basic types, the JSON codec and SHA-256 are the components of a record \<open>codec\<close>, an argument
  of the functions. A date is a day number, a date and time an instant. Constructor arguments
  that Python passes as objects are values of \<open>arg\<close>.
\<close>

section \<open>Schemas\<close>

datatype arg =
    AJson json
  | AAware int
  | ANaive int
  | ADate int
  | ADict "(string \<times> arg) list"

record codec =
  cd_int :: "arg \<Rightarrow> int option"
  cd_bool :: "arg \<Rightarrow> bool option"
  cd_date :: "arg \<Rightarrow> string option"
  cd_aware :: "arg \<Rightarrow> (int \<times> string) option"
  cd_iso :: "int \<Rightarrow> string"
  cd_fromiso :: "string \<Rightarrow> int option"
  cd_date_iso :: "int \<Rightarrow> string"
  cd_dumps :: "json \<Rightarrow> string"
  cd_loads :: "string \<Rightarrow> json option"
  cd_sha256_hex :: "string \<Rightarrow> string"

datatype ftype =
    FStr nat "nat option"
  | FInt int
  | FBool
  | FDate
  | FAware
  | FLiteral "string list"

record field =
  fd_name :: string
  fd_type :: ftype
  fd_optional :: bool

definition req :: "string \<Rightarrow> ftype \<Rightarrow> field" where
  "req n t = \<lparr>fd_name = n, fd_type = t, fd_optional = False\<rparr>"

definition opt :: "string \<Rightarrow> ftype \<Rightarrow> field" where
  "opt n t = \<lparr>fd_name = n, fd_type = t, fd_optional = True\<rparr>"

definition TenantEventData :: "field list" where
  "TenantEventData =
     [req ''tenant_id'' (FStr 1 (Some 200)), opt ''name'' (FStr 0 (Some 200)),
      opt ''organization_id'' (FStr 0 (Some 200)), req ''enabled'' FBool]"

definition SubscriptionChangedData :: "field list" where
  "SubscriptionChangedData =
     [req ''subscription_id'' (FStr 1 (Some 200)), req ''status'' (FStr 1 (Some 50)),
      opt ''plan_id'' (FStr 0 (Some 200)), opt ''price_id'' (FStr 0 (Some 200)),
      req ''version'' (FInt 1), req ''effective_at'' FAware]"

definition DailyUsageData :: "field list" where
  "DailyUsageData =
     [req ''date'' FDate, req ''unit'' (FLiteral [''accepted_message'']), req ''quantity'' (FInt 0),
      req ''snapshot_at'' FAware]"

definition DailyKpiData :: "field list" where
  "DailyKpiData =
     [req ''date'' FDate, req ''accepted'' (FInt 0), req ''delivered'' (FInt 0),
      req ''bounced'' (FInt 0), req ''complained'' (FInt 0), req ''snapshot_at'' FAware]"

definition CampaignSummaryData :: "field list" where
  "CampaignSummaryData =
     [req ''campaign_id'' (FStr 1 (Some 200)), req ''campaign_version'' (FInt 1),
      req ''status'' (FLiteral [''COMPLETED'', ''CANCELLED'', ''FAILED'']),
      req ''audience_count'' (FInt 0), req ''delivered_count'' (FInt 0),
      req ''suppressed_count'' (FInt 0), req ''failed_count'' (FInt 0)]"

definition DomainStatusData :: "field list" where
  "DomainStatusData =
     [req ''domain_id'' (FStr 1 (Some 200)), req ''domain'' (FStr 1 (Some 253)),
      req ''status'' (FStr 1 (Some 50)), opt ''verified_at'' FAware]"

definition ProviderHealthData :: "field list" where
  "ProviderHealthData =
     [req ''provider'' (FStr 1 (Some 100)),
      req ''status'' (FLiteral [''HEALTHY'', ''DEGRADED'', ''UNAVAILABLE'']),
      req ''checked_at'' FAware, opt ''reason_code'' (FStr 0 (Some 100))]"

definition AccountStateData :: "field list" where
  "AccountStateData =
     [req ''status'' (FLiteral [''HELD'', ''RELEASED'']), req ''reason'' (FStr 1 (Some 300)),
      req ''changed_at'' FAware]"

definition KLYROW_EVENT_DATA_MODELS :: "(string \<times> field list) list" where
  "KLYROW_EVENT_DATA_MODELS =
     [(''klyrow.tenant.created'', TenantEventData),
      (''klyrow.tenant.updated'', TenantEventData),
      (''klyrow.subscription.changed'', SubscriptionChangedData),
      (''klyrow.usage.daily'', DailyUsageData),
      (''klyrow.kpi.daily'', DailyKpiData),
      (''klyrow.campaign.summary'', CampaignSummaryData),
      (''klyrow.domain.status'', DomainStatusData),
      (''klyrow.provider.health'', ProviderHealthData),
      (''klyrow.account.held'', AccountStateData),
      (''klyrow.account.released'', AccountStateData)]"

definition KLYROW_EVENTS :: "string list" where
  "KLYROW_EVENTS =
     [''klyrow.tenant.created'', ''klyrow.tenant.updated'', ''klyrow.subscription.changed'',
      ''klyrow.usage.daily'', ''klyrow.kpi.daily'', ''klyrow.campaign.summary'',
      ''klyrow.domain.status'', ''klyrow.provider.health'', ''klyrow.account.held'',
      ''klyrow.account.released'']"

section \<open>Validation\<close>

definition string_within :: "nat \<Rightarrow> nat option \<Rightarrow> string \<Rightarrow> bool" where
  "string_within lo hi s \<longleftrightarrow>
     lo \<le> length s \<and> (case hi of None \<Rightarrow> True | Some h \<Rightarrow> length s \<le> h)"

definition arg_string :: "arg \<Rightarrow> string option" where
  "arg_string a = (case a of AJson (JStr s) \<Rightarrow> Some s | _ \<Rightarrow> None)"

definition arg_string_where :: "(string \<Rightarrow> bool) \<Rightarrow> arg \<Rightarrow> string option" where
  "arg_string_where ok a =
     (case arg_string a of None \<Rightarrow> None | Some s \<Rightarrow> if ok s then Some s else None)"

fun field_value :: "codec \<Rightarrow> ftype \<Rightarrow> arg \<Rightarrow> json option" where
  "field_value c (FStr lo hi) a = map_option JStr (arg_string_where (string_within lo hi) a)"
| "field_value c (FLiteral vs) a = map_option JStr (arg_string_where (\<lambda>s. s \<in> set vs) a)"
| "field_value c (FInt lo) a =
     (case cd_int c a of None \<Rightarrow> None | Some i \<Rightarrow> if lo \<le> i then Some (JInt i) else None)"
| "field_value c FBool a = map_option JBool (cd_bool c a)"
| "field_value c FDate a = map_option JStr (cd_date c a)"
| "field_value c FAware a = map_option (\<lambda>(t, text). JStr text) (cd_aware c a)"

definition validated_field :: "codec \<Rightarrow> (string \<times> arg) list \<Rightarrow> field \<Rightarrow> json option" where
  "validated_field c kvs f =
     (case map_of kvs (fd_name f) of
        None \<Rightarrow> if fd_optional f then Some JNull else None
      | Some a \<Rightarrow> if fd_optional f \<and> a = AJson JNull then Some JNull
                  else field_value c (fd_type f) a)"

fun validated_fields ::
  "codec \<Rightarrow> (string \<times> arg) list \<Rightarrow> field list \<Rightarrow> (string \<times> json) list option" where
  "validated_fields c kvs [] = Some []"
| "validated_fields c kvs (f # fs) =
     (case validated_field c kvs f of
        None \<Rightarrow> None
      | Some v \<Rightarrow> map_option (\<lambda>vs. (fd_name f, v) # vs) (validated_fields c kvs fs))"

text \<open>\<open>model_validate\<close> with \<open>extra="forbid"\<close>, then \<open>model_dump(mode="json")\<close>.\<close>

definition validate_model ::
  "codec \<Rightarrow> field list \<Rightarrow> (string \<times> arg) list \<Rightarrow> (string \<times> json) list option" where
  "validate_model c model kvs =
     (if list_all (\<lambda>(k, a). k \<in> set (map fd_name model)) kvs then validated_fields c kvs model
      else None)"

fun as_dict :: "arg \<Rightarrow> (string \<times> arg) list option" where
  "as_dict (ADict kvs) = Some kvs"
| "as_dict (AJson (JObj kvs)) = Some (map (\<lambda>(k, v). (k, AJson v)) kvs)"
| "as_dict _ = None"

record event_envelope =
  ev_id :: string
  ev_type :: string
  ev_version :: int
  ev_source :: string
  ev_tenant_id :: string
  ev_correlation_id :: string
  ev_causation_id :: "string option"
  ev_occurred_at :: int
  ev_data :: "(string \<times> json) list"

definition id_char :: "char \<Rightarrow> bool" where
  "id_char ch \<longleftrightarrow> is_digit ch \<or> ch \<in> {CHR ''_'', CHR ''-''} \<or>
     (let n = of_char ch :: nat in 65 \<le> n \<and> n \<le> 90 \<or> 97 \<le> n \<and> n \<le> 122)"

text \<open>The pattern \<open>^evt_[A-Za-z0-9_-]+$\<close>, with the length limits of the field.\<close>

definition event_id_ok :: "string \<Rightarrow> bool" where
  "event_id_ok s \<longleftrightarrow> starts_with ''evt_'' s \<and> drop 4 s \<noteq> [] \<and> list_all id_char (drop 4 s) \<and>
     string_within 5 (Some 200) s"

definition envelope_fields :: "string list" where
  "envelope_fields =
     [''id'', ''type'', ''version'', ''source'', ''tenant_id'', ''correlation_id'', ''causation_id'',
      ''occurred_at'', ''data'']"

definition optional_text :: "arg option \<Rightarrow> string option option" where
  "optional_text a =
     (case a of
        None \<Rightarrow> Some None
      | Some (AJson JNull) \<Rightarrow> Some None
      | Some a \<Rightarrow> map_option Some (arg_string_where (string_within 1 (Some 200)) a))"

text \<open>The field validators of the envelope: each field, or nothing when one of them fails.\<close>

definition envelope_base ::
  "codec \<Rightarrow> (string \<times> arg) list \<Rightarrow> (event_envelope \<times> (string \<times> arg) list) option" where
  "envelope_base c kvs =
     (if \<not> list_all (\<lambda>(k, a). k \<in> set envelope_fields) kvs then None
      else Option.bind (map_of kvs ''id'') (\<lambda>a. Option.bind (arg_string_where event_id_ok a) (\<lambda>i.
        Option.bind (map_of kvs ''type'') (\<lambda>a.
        Option.bind (arg_string_where (\<lambda>s. s \<in> set KLYROW_EVENTS) a) (\<lambda>ty.
        if map_of kvs ''version'' \<noteq> Some (AJson (JInt 1)) then None
        else if map_of kvs ''source'' \<noteq> Some (AJson (JStr ''klyrow'')) then None
        else Option.bind (map_of kvs ''tenant_id'') (\<lambda>a.
        Option.bind (arg_string_where (string_within 1 (Some 200)) a) (\<lambda>tenant.
        Option.bind (map_of kvs ''correlation_id'') (\<lambda>a.
        Option.bind (arg_string_where (string_within 1 (Some 200)) a) (\<lambda>correlation.
        Option.bind (optional_text (map_of kvs ''causation_id'')) (\<lambda>causation.
        Option.bind (map_of kvs ''occurred_at'') (\<lambda>a.
        Option.bind (cd_aware c a) (\<lambda>(occurred, text).
        Option.bind (map_of kvs ''data'') (\<lambda>a.
        Option.bind (as_dict a) (\<lambda>data.
          Some (\<lparr>ev_id = i, ev_type = ty, ev_version = 1, ev_source = ''klyrow'',
                 ev_tenant_id = tenant, ev_correlation_id = correlation,
                 ev_causation_id = causation, ev_occurred_at = occurred, ev_data = []\<rparr>, data)))))))))))))))"

text \<open>\<open>validate_event_data\<close>: the model of the type, then the three consistency checks.\<close>

definition validate_event_data ::
  "codec \<Rightarrow> event_envelope \<Rightarrow> (string \<times> arg) list \<Rightarrow> event_envelope res" where
  "validate_event_data c ev raw =
     (case map_of KLYROW_EVENT_DATA_MODELS (ev_type ev) of
        None \<Rightarrow> Inl (ValueError ''unsupported_klyrow_business_event'')
      | Some model \<Rightarrow>
          (case validate_model c model raw of
             None \<Rightarrow> Inl (ValueError ''ValidationError'')
           | Some data \<Rightarrow>
               (if starts_with ''klyrow.tenant.'' (ev_type ev) \<and>
                   obj_get data ''tenant_id'' \<noteq> JStr (ev_tenant_id ev)
                then Inl (ValueError ''event_tenant_mismatch'')
                else if ev_type ev = ''klyrow.account.held'' \<and> obj_get data ''status'' \<noteq> JStr ''HELD''
                then Inl (ValueError ''account_event_status_mismatch'')
                else if ev_type ev = ''klyrow.account.released'' \<and>
                        obj_get data ''status'' \<noteq> JStr ''RELEASED''
                then Inl (ValueError ''account_event_status_mismatch'')
                else Inr (ev\<lparr>ev_data := data\<rparr>))))"

definition EventEnvelope :: "codec \<Rightarrow> (string \<times> arg) list \<Rightarrow> event_envelope res" where
  "EventEnvelope c kvs =
     (case envelope_base c kvs of
        None \<Rightarrow> Inl (ValueError ''ValidationError'')
      | Some (ev, raw) \<Rightarrow> validate_event_data c ev raw)"

definition model_validate_json :: "codec \<Rightarrow> string \<Rightarrow> event_envelope res" where
  "model_validate_json c payload =
     (case cd_loads c payload of
        None \<Rightarrow> Inl (ValueError ''ValidationError'')
      | Some doc \<Rightarrow>
          (case as_dict (AJson doc) of
             None \<Rightarrow> Inl (ValueError ''ValidationError'')
           | Some kvs \<Rightarrow> EventEnvelope c kvs))"

section \<open>The outbox\<close>

record event_row =
  bo_id :: string
  bo_event_id :: string
  bo_event_type :: string
  bo_tenant_id :: string
  bo_aggregate_id :: "string option"
  bo_payload :: string
  bo_payload_hash :: string
  bo_correlation_id :: string
  bo_trace_context :: string
  bo_state :: string
  bo_attempt_count :: int
  bo_next_attempt_at :: int
  bo_lease_owner :: "string option"
  bo_lease_expires_at :: "int option"
  bo_created_at :: int
  bo_delivered_at :: "int option"
  bo_last_error :: "string option"

definition event_json :: "codec \<Rightarrow> event_envelope \<Rightarrow> json" where
  "event_json c ev = JObj
     [(''id'', JStr (ev_id ev)), (''type'', JStr (ev_type ev)), (''version'', JInt (ev_version ev)),
      (''source'', JStr (ev_source ev)), (''tenant_id'', JStr (ev_tenant_id ev)),
      (''correlation_id'', JStr (ev_correlation_id ev)),
      (''causation_id'', (case ev_causation_id ev of None \<Rightarrow> JNull | Some s \<Rightarrow> JStr s)),
      (''occurred_at'', JStr (cd_iso c (ev_occurred_at ev))),
      (''data'', JObj (ev_data ev))]"

definition canonical_event :: "codec \<Rightarrow> event_envelope \<Rightarrow> string" where
  "canonical_event c ev = cd_dumps c (event_json c ev)"

text \<open>The clock reading and the \<open>uuid4\<close> values that one call draws.\<close>

record draws =
  dw_now :: int
  dw_row_id :: string
  dw_event_id :: string
  dw_correlation :: string
  dw_carrier :: "(string \<times> string) list"

definition enqueue_event ::
  "codec \<Rightarrow> draws \<Rightarrow> event_envelope \<Rightarrow> string option \<Rightarrow> event_row list \<Rightarrow> (event_row \<times> event_row list) res" where
  "enqueue_event c dw ev aggregate_id rows =
     (let payload = canonical_event c ev;
          payload_hash = cd_sha256_hex c payload
      in case find_row (\<lambda>r. bo_event_id r = ev_id ev) rows of
           Some existing \<Rightarrow>
             (if bo_payload_hash existing \<noteq> payload_hash \<or> bo_payload existing \<noteq> payload
              then Inl (ValueError ''business_event_idempotency_conflict'')
              else Inr (existing, rows))
         | None \<Rightarrow>
             (let carrier = filter (\<lambda>(k, v). lower k \<in> {''traceparent'', ''tracestate'', ''baggage''})
                              (dw_carrier dw);
                  item = \<lparr>bo_id = dw_row_id dw, bo_event_id = ev_id ev, bo_event_type = ev_type ev,
                     bo_tenant_id = ev_tenant_id ev, bo_aggregate_id = aggregate_id,
                     bo_payload = payload, bo_payload_hash = payload_hash,
                     bo_correlation_id = ev_correlation_id ev,
                     bo_trace_context = cd_dumps c (JObj (map (\<lambda>(k, v). (k, JStr v)) carrier)),
                     bo_state = ''PENDING'', bo_attempt_count = 0, bo_next_attempt_at = dw_now dw,
                     bo_lease_owner = None, bo_lease_expires_at = None, bo_created_at = dw_now dw,
                     bo_delivered_at = None, bo_last_error = None\<rparr>
              in Inr (item, rows @ [item])))"

definition or_text :: "string option \<Rightarrow> string \<Rightarrow> string" where
  "or_text o_text d = (case o_text of None \<Rightarrow> d | Some s \<Rightarrow> if s = [] then d else s)"

text \<open>Naive datetimes under a key that ends in \<open>_at\<close> are read as UTC.\<close>

definition normalized_data :: "(string \<times> arg) list \<Rightarrow> (string \<times> arg) list" where
  "normalized_data data =
     map (\<lambda>(k, a). (k, case a of ANaive t \<Rightarrow> if ends_with ''_at'' k then AAware t else a | _ \<Rightarrow> a)) data"

definition enqueue_named_event ::
  "codec \<Rightarrow> draws \<Rightarrow> string \<Rightarrow> string \<Rightarrow> (string \<times> arg) list \<Rightarrow> string option \<Rightarrow> string option
     \<Rightarrow> string option \<Rightarrow> string option \<Rightarrow> int option \<Rightarrow> event_row list
     \<Rightarrow> (event_row \<times> event_row list) res" where
  "enqueue_named_event c dw event_type tenant_id data correlation_id causation_id aggregate_id
       event_id occurred_at rows =
     (let identifier = or_text event_id (dw_event_id dw)
      in res_bind (EventEnvelope c
           [(''id'', AJson (JStr identifier)), (''type'', AJson (JStr event_type)),
            (''version'', AJson (JInt 1)), (''source'', AJson (JStr ''klyrow'')),
            (''tenant_id'', AJson (JStr tenant_id)),
            (''correlation_id'', AJson (JStr (or_text correlation_id identifier))),
            (''causation_id'', AJson (case causation_id of None \<Rightarrow> JNull | Some s \<Rightarrow> JStr s)),
            (''occurred_at'', AAware (case occurred_at of None \<Rightarrow> dw_now dw | Some t \<Rightarrow> t)),
            (''data'', ADict (normalized_data data))]) (\<lambda>ev.
         enqueue_event c dw ev aggregate_id rows))"

definition requeue_row :: "int \<Rightarrow> event_row \<Rightarrow> event_row" where
  "requeue_row current r = r\<lparr>bo_state := ''RETRYING'', bo_attempt_count := 0,
     bo_next_attempt_at := current, bo_lease_owner := None, bo_lease_expires_at := None,
     bo_delivered_at := None, bo_last_error := None\<rparr>"

definition replay_dead_letter ::
  "codec \<Rightarrow> int \<Rightarrow> string \<Rightarrow> string option \<Rightarrow> event_row list \<Rightarrow> (event_row \<times> event_row list) res" where
  "replay_dead_letter c current event_id tenant_id rows =
     (case find_row (\<lambda>r. bo_event_id r = event_id \<and>
             (case tenant_id of None \<Rightarrow> True | Some t \<Rightarrow> bo_tenant_id r = t)) rows of
        None \<Rightarrow> Inl (ValueError ''business_event_not_found'')
      | Some item \<Rightarrow>
          (if bo_state item \<noteq> ''DEAD_LETTER''
           then Inl (ValueError ''business_event_not_dead_letter'')
           else if cd_sha256_hex c (bo_payload item) \<noteq> bo_payload_hash item
           then Inl (ValueError ''business_event_payload_integrity_failure'')
           else res_bind (model_validate_json c (bo_payload item)) (\<lambda>_.
             Inr (requeue_row current item,
                  update_rows (\<lambda>r. bo_id r = bo_id item) (requeue_row current) rows))))"

section \<open>Daily snapshots\<close>

record usage_row =
  ug_tenant_id :: string
  ug_unit :: string
  ug_quantity :: int
  ug_occurred_at :: int

record ledger =
  lg_tenants :: "string list"
  lg_usage :: "usage_row list"

definition DAY_US :: int where "DAY_US = 86400000000"

definition day_quantity :: "ledger \<Rightarrow> string \<Rightarrow> int \<Rightarrow> int" where
  "day_quantity lg tenant_id day =
     (\<Sum>u \<leftarrow> filter (\<lambda>u. ug_tenant_id u = tenant_id \<and> ug_unit u = ''accepted_message'' \<and>
                day * DAY_US \<le> ug_occurred_at u \<and> ug_occurred_at u < day * DAY_US + DAY_US) (lg_usage lg).
        ug_quantity u)"

definition usage_aggregate :: "codec \<Rightarrow> string \<Rightarrow> int \<Rightarrow> string" where
  "usage_aggregate c tenant_id day = ''usage:'' @ tenant_id @ '':'' @ cd_date_iso c day"

text \<open>The latest snapshot row of the tenant's day: by creation, then identifier, both descending.\<close>

definition prior_snapshot :: "string \<Rightarrow> string \<Rightarrow> event_row list \<Rightarrow> event_row option" where
  "prior_snapshot tenant_id aggregate rows =
     (case rev (sort_key (\<lambda>r. (bo_created_at r, bo_id r))
             (filter (\<lambda>r. bo_tenant_id r = tenant_id \<and> bo_event_type r = ''klyrow.usage.daily'' \<and>
                bo_aggregate_id r = Some aggregate) rows)) of
        [] \<Rightarrow> None | r # _ \<Rightarrow> Some r)"

text \<open>The instant of the new snapshot: after the one before it.\<close>

definition replace_Z :: "string \<Rightarrow> string" where
  "replace_Z s = concat (map (\<lambda>ch. if ch = CHR ''Z'' then ''+00:00'' else [ch]) s)"

definition snapshot_instant :: "codec \<Rightarrow> int \<Rightarrow> json \<Rightarrow> int res" where
  "snapshot_instant c current snapshot_at =
     (case snapshot_at of
        JStr s \<Rightarrow>
          (case cd_fromiso c (replace_Z s) of
             None \<Rightarrow> Inl (ValueError ''Invalid isoformat string'')
           | Some previous \<Rightarrow> Inr (max current (previous + 1)))
      | _ \<Rightarrow> Inl (AttributeError ''replace''))"

definition write_snapshot ::
  "codec \<Rightarrow> draws \<Rightarrow> string \<Rightarrow> int \<Rightarrow> int \<Rightarrow> int \<Rightarrow> event_row list \<Rightarrow> (event_row \<times> event_row list) res" where
  "write_snapshot c dw tenant_id day quantity instant rows =
     (let aggregate = usage_aggregate c tenant_id day
      in case validate_model c DailyUsageData
                [(''date'', ADate day), (''unit'', AJson (JStr ''accepted_message'')),
                 (''quantity'', AJson (JInt quantity)), (''snapshot_at'', AAware instant)] of
           None \<Rightarrow> Inl (ValueError ''ValidationError'')
         | Some data \<Rightarrow>
             enqueue_named_event c dw ''klyrow.usage.daily'' tenant_id
               (map (\<lambda>(k, v). (k, AJson v)) data) (Some (dw_correlation dw)) (Some aggregate)
               (Some aggregate) None (Some instant) rows)"

definition daily_snapshot ::
  "codec \<Rightarrow> draws \<Rightarrow> ledger \<Rightarrow> string \<Rightarrow> int \<Rightarrow> event_row list \<Rightarrow> (event_row \<times> event_row list) res" where
  "daily_snapshot c dw lg tenant_id day rows =
     (if dw_now dw div DAY_US \<le> day then Inl (ValueError ''usage_day_must_be_closed'')
      else if tenant_id \<notin> set (lg_tenants lg) then Inl (ValueError ''tenant_not_found'')
      else
        (let quantity = day_quantity lg tenant_id day
         in case prior_snapshot tenant_id (usage_aggregate c tenant_id day) rows of
              None \<Rightarrow> write_snapshot c dw tenant_id day quantity (dw_now dw) rows
            | Some prior \<Rightarrow>
                res_bind (model_validate_json c (bo_payload prior)) (\<lambda>prior_event.
                  if obj_get (ev_data prior_event) ''quantity'' = JInt quantity then Inr (prior, rows)
                  else res_bind (snapshot_instant c (dw_now dw) (obj_get (ev_data prior_event) ''snapshot_at''))
                    (\<lambda>instant. write_snapshot c dw tenant_id day quantity instant rows))))"

fun snapshot_each ::
  "codec \<Rightarrow> (string \<Rightarrow> draws) \<Rightarrow> ledger \<Rightarrow> int \<Rightarrow> string list \<Rightarrow> event_row list \<Rightarrow> event_row list res" where
  "snapshot_each c dws lg day [] rows = Inr rows"
| "snapshot_each c dws lg day (t # ts) rows =
     res_bind (daily_snapshot c (dws t) lg t day rows) (\<lambda>r. snapshot_each c dws lg day ts (snd r))"

definition snapshot_page ::
  "codec \<Rightarrow> (string \<Rightarrow> draws) \<Rightarrow> ledger \<Rightarrow> int \<Rightarrow> string \<Rightarrow> int \<Rightarrow> event_row list
     \<Rightarrow> (string option \<times> event_row list) res" where
  "snapshot_page c dws lg day after limit rows =
     (if \<not> (1 \<le> limit \<and> limit \<le> 100) then Inl (ValueError ''invalid_snapshot_page_limit'')
      else
        (let tenants = select_rows (\<lambda>t. t) (\<lambda>t. after < t) (nat limit) (lg_tenants lg)
         in res_bind (snapshot_each c dws lg day tenants rows) (\<lambda>rows'.
              Inr (if length tenants = nat limit then Some (last tenants) else None, rows'))))"

section \<open>Lemmas\<close>

text \<open>
  What the round trip relies on from the JSON codec and pydantic: the decoder inverts the encoder up
  to the order of keys (\<open>sort_keys=True\<close>), and a value in the form a model dumps is read back as
  itself.
\<close>

definition reads_own_values :: "codec \<Rightarrow> bool" where
  "reads_own_values c \<longleftrightarrow>
     (\<forall>i. cd_int c (AJson (JInt i)) = Some i) \<and> (\<forall>b. cd_bool c (AJson (JBool b)) = Some b) \<and>
     (\<forall>a s. cd_date c a = Some s \<longrightarrow> cd_date c (AJson (JStr s)) = Some s) \<and>
     (\<forall>a t s. cd_aware c a = Some (t, s) \<longrightarrow> cd_aware c (AJson (JStr s)) = Some (t, s)) \<and>
     (\<forall>t. cd_aware c (AJson (JStr (cd_iso c t))) = Some (t, cd_iso c t))"

lemma arg_string_where_Some:
  "arg_string_where ok a = Some s \<longleftrightarrow> a = AJson (JStr s) \<and> ok s"
  by (auto simp: arg_string_where_def arg_string_def split: option.splits arg.splits json.splits)

lemma field_value_own:
  "reads_own_values c \<Longrightarrow> field_value c ty a = Some v \<Longrightarrow> field_value c ty (AJson v) = Some v"
  by (cases ty) (auto simp: reads_own_values_def arg_string_where_Some split: option.splits if_splits)

lemma validated_field_own:
  assumes "reads_own_values c" and "validated_field c kvs f = Some v"
    and "map_of kvs' (fd_name f) = Some (AJson v)"
  shows "validated_field c kvs' f = Some v"
  using assms field_value_own [OF assms(1)]
  by (auto simp: validated_field_def split: option.splits if_splits)

lemma validated_fields_own:
  "reads_own_values c \<Longrightarrow> validated_fields c kvs fs = Some vs \<Longrightarrow> distinct (map fd_name fs) \<Longrightarrow>
     (\<And>k v. (k, v) \<in> set vs \<Longrightarrow> map_of kvs' k = Some (AJson v)) \<Longrightarrow> validated_fields c kvs' fs = Some vs"
proof (induction fs arbitrary: vs)
  case (Cons f fs)
  then obtain v vs' where v: "validated_field c kvs f = Some v" "validated_fields c kvs fs = Some vs'"
      "vs = (fd_name f, v) # vs'"
    by (auto split: option.splits)
  moreover have "validated_field c kvs' f = Some v"
    using validated_field_own [OF Cons.prems(1) v(1)] Cons.prems(4) v(3) by simp
  moreover have "validated_fields c kvs' fs = Some vs'"
    using Cons.IH [OF Cons.prems(1) v(2)] Cons.prems(3,4) v(3) by simp
  ultimately show ?case by simp
qed simp

lemma validated_fields_names: "validated_fields c kvs fs = Some vs \<Longrightarrow> map fst vs = map fd_name fs"
  by (induction fs arbitrary: vs) (auto split: option.splits)

lemma event_models_distinct:
  "map_of KLYROW_EVENT_DATA_MODELS ty = Some model \<Longrightarrow> distinct (map fd_name model)"
  by (auto simp: KLYROW_EVENT_DATA_MODELS_def TenantEventData_def SubscriptionChangedData_def
      DailyUsageData_def DailyKpiData_def CampaignSummaryData_def DomainStatusData_def
      ProviderHealthData_def AccountStateData_def req_def opt_def split: if_splits)

lemma optional_text_Some:
  "optional_text a = Some r \<Longrightarrow> (case r of None \<Rightarrow> True | Some s \<Rightarrow> string_within 1 (Some 200) s)"
  by (auto simp: optional_text_def arg_string_where_Some split: option.splits arg.splits json.splits)

text \<open>What the field validators of the envelope leave, and when they accept.\<close>

definition envelope_ok :: "event_envelope \<Rightarrow> bool" where
  "envelope_ok ev \<longleftrightarrow> event_id_ok (ev_id ev) \<and> ev_type ev \<in> set KLYROW_EVENTS \<and> ev_version ev = 1 \<and>
     ev_source ev = ''klyrow'' \<and> string_within 1 (Some 200) (ev_tenant_id ev) \<and>
     string_within 1 (Some 200) (ev_correlation_id ev) \<and>
     (case ev_causation_id ev of None \<Rightarrow> True | Some s \<Rightarrow> string_within 1 (Some 200) s)"

lemma envelope_base_ok:
  "envelope_base c kvs = Some (ev, raw) \<Longrightarrow> envelope_ok ev \<and> ev_data ev = []"
  by (auto simp: envelope_base_def bind_eq_Some_conv arg_string_where_Some envelope_ok_def
      dest: optional_text_Some split: if_splits)

lemma envelope_base_accepts:
  assumes "envelope_ok ev" and "list_all (\<lambda>(k, a). k \<in> set envelope_fields) kvs"
    and "map_of kvs ''id'' = Some (AJson (JStr (ev_id ev)))"
    and "map_of kvs ''type'' = Some (AJson (JStr (ev_type ev)))"
    and "map_of kvs ''version'' = Some (AJson (JInt 1))"
    and "map_of kvs ''source'' = Some (AJson (JStr ''klyrow''))"
    and "map_of kvs ''tenant_id'' = Some (AJson (JStr (ev_tenant_id ev)))"
    and "map_of kvs ''correlation_id'' = Some (AJson (JStr (ev_correlation_id ev)))"
    and "map_of kvs ''causation_id'' =
      Some (AJson (case ev_causation_id ev of None \<Rightarrow> JNull | Some s \<Rightarrow> JStr s))"
    and "map_of kvs ''occurred_at'' = Some a" and "cd_aware c a = Some (ev_occurred_at ev, shown)"
    and "map_of kvs ''data'' = Some d" and "as_dict d = Some raw"
  shows "envelope_base c kvs = Some (ev\<lparr>ev_data := []\<rparr>, raw)"
proof -
  have "optional_text (map_of kvs ''causation_id'') = Some (ev_causation_id ev)"
    using assms(1) by (auto simp: assms(9) optional_text_def envelope_ok_def arg_string_where_def
        arg_string_def split: option.splits)
  then show ?thesis using assms
    by (simp add: envelope_base_def envelope_ok_def arg_string_where_def arg_string_def)
qed

lemma validated_scalars:
  "field_value c ty a = Some v \<Longrightarrow> sort_doc v = v"
  by (cases ty) (auto split: option.splits if_splits)

lemma validated_fields_scalars:
  "validated_fields c kvs fs = Some vs \<Longrightarrow> (k, v) \<in> set vs \<Longrightarrow> sort_doc v = v"
proof (induction fs arbitrary: vs)
  case (Cons f fs)
  then obtain w vs' where "validated_field c kvs f = Some w" "validated_fields c kvs fs = Some vs'"
      "vs = (fd_name f, w) # vs'"
    by (auto split: option.splits)
  then show ?case using Cons
    by (auto simp: validated_field_def validated_scalars split: option.splits if_splits)
qed simp

lemma validate_event_data_cases:
  assumes "validate_event_data c ev raw = Inr ev'"
  obtains model data where "map_of KLYROW_EVENT_DATA_MODELS (ev_type ev) = Some model"
    and "validate_model c model raw = Some data" and "ev' = ev\<lparr>ev_data := data\<rparr>"
    and "starts_with ''klyrow.tenant.'' (ev_type ev) \<longrightarrow> obj_get data ''tenant_id'' = JStr (ev_tenant_id ev)"
    and "ev_type ev = ''klyrow.account.held'' \<longrightarrow> obj_get data ''status'' = JStr ''HELD''"
    and "ev_type ev = ''klyrow.account.released'' \<longrightarrow> obj_get data ''status'' = JStr ''RELEASED''"
  using assms by (auto simp: validate_event_data_def split: option.splits if_splits)

text \<open>A model's own dump, with its keys sorted, validates to itself.\<close>

lemma validate_model_own:
  assumes "reads_own_values c" and "validate_model c model kvs = Some data"
    and "distinct (map fd_name model)"
  shows "validate_model c model (map (\<lambda>(k, v). (k, AJson v))
     (sort_key fst (map (\<lambda>(k, v). (k, sort_doc v)) data))) = Some data"
proof -
  have v: "validated_fields c kvs model = Some data"
    using assms(2) by (auto simp: validate_model_def split: if_splits)
  have names: "map fst data = map fd_name model" using v by (rule validated_fields_names)
  have same: "map (\<lambda>(k, v). (k, sort_doc v)) data = data"
    by (rule map_idI) (auto dest: validated_fields_scalars [OF v])
  let ?kvs = "map (\<lambda>(k, v). (k, AJson v)) (sort_key fst data)"
  have "map_of ?kvs k = Some (AJson w)" if "(k, w) \<in> set data" for k w
    using that assms(3) names by (simp add: map_of_map map_of_sort_key)
  then have "validated_fields c ?kvs model = Some data"
    using validated_fields_own [OF assms(1) v assms(3)] by blast
  moreover have "list_all (\<lambda>(k, a). k \<in> set (map fd_name model)) ?kvs"
    by (force simp: list_all_iff simp flip: names)
  ultimately show ?thesis unfolding same by (simp add: validate_model_def)
qed

definition document_decodes :: "codec \<Rightarrow> event_envelope \<Rightarrow> bool" where
  "document_decodes c ev \<longleftrightarrow> cd_loads c (canonical_event c ev) = Some (sort_doc (event_json c ev))"

lemma canonical_event_round_trip:
  assumes "reads_own_values c" and "document_decodes c ev" and "EventEnvelope c kvs = Inr ev"
  shows "model_validate_json c (canonical_event c ev) = Inr ev"
proof -
  obtain base raw where b: "envelope_base c kvs = Some (base, raw)" "validate_event_data c base raw = Inr ev"
    using assms(3) by (auto simp: EventEnvelope_def split: option.splits)
  have base: "envelope_ok base" "ev_data base = []" using envelope_base_ok [OF b(1)] by auto
  obtain model data where m: "map_of KLYROW_EVENT_DATA_MODELS (ev_type base) = Some model"
      "validate_model c model raw = Some data" "ev = base\<lparr>ev_data := data\<rparr>"
    and checks: "starts_with ''klyrow.tenant.'' (ev_type base) \<longrightarrow>
        obj_get data ''tenant_id'' = JStr (ev_tenant_id base)"
      "ev_type base = ''klyrow.account.held'' \<longrightarrow> obj_get data ''status'' = JStr ''HELD''"
      "ev_type base = ''klyrow.account.released'' \<longrightarrow> obj_get data ''status'' = JStr ''RELEASED''"
    using validate_event_data_cases [OF b(2)] .
  have ok: "envelope_ok ev" using base m(3) by (simp add: envelope_ok_def)
  obtain fields where fields: "event_json c ev = JObj fields" "distinct (map fst fields)"
      "set (map fst fields) = set envelope_fields"
      "map_of fields = map_of [(''id'', JStr (ev_id ev)), (''type'', JStr (ev_type ev)),
        (''version'', JInt (ev_version ev)), (''source'', JStr (ev_source ev)),
        (''tenant_id'', JStr (ev_tenant_id ev)), (''correlation_id'', JStr (ev_correlation_id ev)),
        (''causation_id'', (case ev_causation_id ev of None \<Rightarrow> JNull | Some s \<Rightarrow> JStr s)),
        (''occurred_at'', JStr (cd_iso c (ev_occurred_at ev))), (''data'', JObj (ev_data ev))]"
    by (simp add: event_json_def envelope_fields_def)
  define doc where "doc = sort_key fst (map (\<lambda>(k, v). (k, sort_doc v)) fields)"
  define raw' where "raw' = map (\<lambda>(k, v). (k, AJson v)) doc"
  have dist: "distinct (map fst (map (\<lambda>(k, v). (k, sort_doc v)) fields))"
    using fields(2) by (simp add: comp_def split_def)
  have get: "map_of raw' k = map_option (\<lambda>v. AJson (sort_doc v)) (map_of fields k)" for k
    by (simp add: raw'_def doc_def map_of_map map_of_sort_key [OF dist] option.map_comp comp_def)
  have keys: "list_all (\<lambda>(k, a). k \<in> set envelope_fields) raw'"
    using fields(3) by (force simp: raw'_def doc_def list_all_iff)
  define data' where "data' = map (\<lambda>(k, v). (k, AJson v))
     (sort_key fst (map (\<lambda>(k, v). (k, sort_doc v)) data))"
  have "envelope_base c raw' = Some (ev\<lparr>ev_data := []\<rparr>, data')"
    by (rule envelope_base_accepts [OF ok keys, where a = "AJson (JStr (cd_iso c (ev_occurred_at ev)))"
          and shown = "cd_iso c (ev_occurred_at ev)" and d = "AJson (sort_doc (JObj data))"])
       (use ok assms(1) m(3) in \<open>simp_all add: get fields(4) envelope_ok_def reads_own_values_def
          data'_def split: option.splits\<close>)
  moreover have "ev\<lparr>ev_data := []\<rparr> = base" using m(3) base(2) by simp
  moreover have "validate_event_data c base data' = Inr ev"
    using validate_model_own [OF assms(1) m(2) event_models_distinct [OF m(1)]] m checks
    by (simp add: validate_event_data_def data'_def)
  ultimately have "EventEnvelope c raw' = Inr ev" by (simp add: EventEnvelope_def)
  then show ?thesis
    using assms(2) fields(1)
    by (simp add: model_validate_json_def document_decodes_def raw'_def doc_def)
qed

lemma enqueue_event_cases:
  assumes "enqueue_event c dw ev agg rows = Inr (item, rows')"
  shows "bo_event_id item = ev_id ev \<and> bo_payload item = canonical_event c ev \<and>
    bo_payload_hash item = cd_sha256_hex c (canonical_event c ev) \<and>
    find_row (\<lambda>r. bo_event_id r = ev_id ev) rows' = Some item \<and> (rows' = rows \<or> rows' = rows @ [item])"
  using assms find_row_Some
  by (fastforce simp: enqueue_event_def Let_def find_row_append split: option.splits if_splits)

lemma enqueue_event_again:
  assumes "enqueue_event c dw ev agg rows = Inr (item, rows')"
  shows "enqueue_event c dw2 ev agg2 rows' = Inr (item, rows')"
  using enqueue_event_cases [OF assms] by (simp add: enqueue_event_def Let_def)

section \<open>Properties\<close>

text \<open>
  A stored event reads back as itself: an envelope that validated, written in canonical form,
  parses to the same event, which is what delivery, replay and the daily snapshots rely on; and a
  validated envelope has an identifier of the required form, a known type, and data that agree with
  it: a tenant event is about its own tenant, a held account event says HELD, a released one RELEASED.
\<close>

theorem stored_event_round_trip:
  assumes "reads_own_values c" and "document_decodes c ev" and "EventEnvelope c kvs = Inr ev"
  shows "model_validate_json c (canonical_event c ev) = Inr ev \<and> event_id_ok (ev_id ev) \<and>
    ev_type ev \<in> set KLYROW_EVENTS \<and> ev_version ev = 1 \<and>
    (starts_with ''klyrow.tenant.'' (ev_type ev) \<longrightarrow>
       obj_get (ev_data ev) ''tenant_id'' = JStr (ev_tenant_id ev)) \<and>
    (ev_type ev = ''klyrow.account.held'' \<longrightarrow> obj_get (ev_data ev) ''status'' = JStr ''HELD'') \<and>
    (ev_type ev = ''klyrow.account.released'' \<longrightarrow> obj_get (ev_data ev) ''status'' = JStr ''RELEASED'')"
proof -
  obtain base raw where b: "envelope_base c kvs = Some (base, raw)" "validate_event_data c base raw = Inr ev"
    using assms(3) by (auto simp: EventEnvelope_def split: option.splits)
  have base: "envelope_ok base" using envelope_base_ok [OF b(1)] by simp
  obtain data where d: "ev = base\<lparr>ev_data := data\<rparr>"
    "starts_with ''klyrow.tenant.'' (ev_type base) \<longrightarrow> obj_get data ''tenant_id'' = JStr (ev_tenant_id base)"
    "ev_type base = ''klyrow.account.held'' \<longrightarrow> obj_get data ''status'' = JStr ''HELD''"
    "ev_type base = ''klyrow.account.released'' \<longrightarrow> obj_get data ''status'' = JStr ''RELEASED''"
    using validate_event_data_cases [OF b(2)] .
  show ?thesis using d(2-4) base canonical_event_round_trip [OF assms]
    by (simp add: d(1) envelope_ok_def del: set_simps)
qed

text \<open>
  Enqueueing is idempotent by event identifier: repeating the call, at any later time and with
  any new row identifier, returns the row of the first call and adds nothing, and a different event
  under the same identifier is refused. The row that a first call adds is a pending one.
\<close>

theorem enqueue_event_idempotent:
  assumes "enqueue_event c dw ev agg rows = Inr (item, rows')"
  shows "(\<forall>dw2 agg2. enqueue_event c dw2 ev agg2 rows' = Inr (item, rows')) \<and>
    (\<forall>dw2 agg2 ev2. ev_id ev2 = ev_id ev \<and> canonical_event c ev2 \<noteq> canonical_event c ev \<longrightarrow>
       enqueue_event c dw2 ev2 agg2 rows' = Inl (ValueError ''business_event_idempotency_conflict'')) \<and>
    (rows' = rows \<or> rows' = rows @ [item] \<and> bo_state item = ''PENDING'' \<and> bo_attempt_count item = 0)"
proof (intro conjI allI impI)
  fix dw2 agg2 ev2 assume "ev_id ev2 = ev_id ev \<and> canonical_event c ev2 \<noteq> canonical_event c ev"
  then show "enqueue_event c dw2 ev2 agg2 rows' = Inl (ValueError ''business_event_idempotency_conflict'')"
    using enqueue_event_cases [OF assms] by (auto simp: enqueue_event_def Let_def)
next
  show "rows' = rows \<or> rows' = rows @ [item] \<and> bo_state item = ''PENDING'' \<and> bo_attempt_count item = 0"
    using assms by (auto simp: enqueue_event_def Let_def split: option.splits if_splits)
qed (rule enqueue_event_again [OF assms])

section \<open>A concrete codec\<close>

definition plain_iso :: "int \<Rightarrow> string" where
  "plain_iso t = (if 0 \<le> t then replicate (nat t) (CHR ''a'') else replicate (nat (- t)) (CHR ''b''))"

definition plain_fromiso :: "string \<Rightarrow> int option" where
  "plain_fromiso s = (case s of [] \<Rightarrow> Some 0
     | ch # _ \<Rightarrow> if ch = CHR ''a'' then Some (int (length s)) else Some (- int (length s)))"

definition plain_event :: event_envelope where
  "plain_event = \<lparr>ev_id = ''evt_1'', ev_type = ''klyrow.tenant.created'', ev_version = 1,
     ev_source = ''klyrow'', ev_tenant_id = ''t1'', ev_correlation_id = ''c1'',
     ev_causation_id = None, ev_occurred_at = 3,
     ev_data = [(''tenant_id'', JStr ''t1''), (''name'', JStr ''n''), (''organization_id'', JNull),
                (''enabled'', JBool True)]\<rparr>"

definition plain_codec :: "json \<Rightarrow> codec" where
  "plain_codec stored = \<lparr>cd_int = (\<lambda>a. case a of AJson (JInt i) \<Rightarrow> Some i | _ \<Rightarrow> None),
     cd_bool = (\<lambda>a. case a of AJson (JBool b) \<Rightarrow> Some b | _ \<Rightarrow> None),
     cd_date = (\<lambda>a. case a of AJson (JStr s) \<Rightarrow> Some s | ADate d \<Rightarrow> Some (plain_iso d) | _ \<Rightarrow> None),
     cd_aware = (\<lambda>a. case a of AJson (JStr s) \<Rightarrow> map_option (\<lambda>t. (t, s)) (plain_fromiso s)
                     | AAware t \<Rightarrow> Some (t, plain_iso t) | _ \<Rightarrow> None),
     cd_iso = plain_iso, cd_fromiso = plain_fromiso, cd_date_iso = plain_iso,
     cd_dumps = (\<lambda>_. ''doc''), cd_loads = (\<lambda>_. Some stored), cd_sha256_hex = (\<lambda>s. s)\<rparr>"

lemma plain_fromiso_iso: "plain_fromiso (plain_iso t) = Some t"
  by (cases t rule: int_cases3) (auto simp: plain_iso_def plain_fromiso_def gr0_conv_Suc)

lemma plain_codec_reads: "reads_own_values (plain_codec stored)"
  by (auto simp: reads_own_values_def plain_codec_def plain_fromiso_iso split: arg.splits json.splits)

definition plain_stored :: json where
  "plain_stored = sort_doc (event_json (plain_codec JNull) plain_event)"

definition plain_args :: "(string \<times> arg) list" where
  "plain_args =
     [(''id'', AJson (JStr ''evt_1'')), (''type'', AJson (JStr ''klyrow.tenant.created'')),
      (''version'', AJson (JInt 1)), (''source'', AJson (JStr ''klyrow'')),
      (''tenant_id'', AJson (JStr ''t1'')), (''correlation_id'', AJson (JStr ''c1'')),
      (''occurred_at'', AAware 3),
      (''data'', ADict [(''enabled'', AJson (JBool True)), (''name'', AJson (JStr ''n'')),
         (''tenant_id'', AJson (JStr ''t1''))])]"

lemma plain_event_valid: "EventEnvelope (plain_codec stored) plain_args = Inr plain_event"
  by code_simp

theorem stored_event_round_trip_witness:
  "model_validate_json (plain_codec plain_stored) (canonical_event (plain_codec plain_stored) plain_event)
     = Inr plain_event"
proof -
  have "event_json (plain_codec plain_stored) = event_json (plain_codec JNull)"
    by (simp add: fun_eq_iff event_json_def plain_codec_def)
  then have "document_decodes (plain_codec plain_stored) plain_event"
    by (simp add: document_decodes_def plain_codec_def plain_stored_def)
  from stored_event_round_trip [OF plain_codec_reads this plain_event_valid] show ?thesis by simp
qed

theorem enqueue_event_idempotent_witness:
  "\<exists>item :: event_row. \<forall>dw2. enqueue_event (plain_codec JNull) dw2 plain_event None [item] = Inr (item, [item])"
proof -
  let ?dw = "\<lparr>dw_now = 0, dw_row_id = ''r'', dw_event_id = ''e'', dw_correlation = ''c'', dw_carrier = []\<rparr>"
  obtain item where "enqueue_event (plain_codec JNull) ?dw plain_event None [] = Inr (item, [item])"
    by (simp add: enqueue_event_def Let_def)
  from enqueue_event_idempotent [OF this] show ?thesis by blast
qed

end
