(* ===== verification/Platform.thy ===== *)
theory Platform
  imports Prelude
begin

text \<open>
  What the components take from the platform: \<open>urllib.parse.urlsplit\<close> of the standard library on
  ASCII text with the properties of its result that the source reads, and \<open>runtime_secret\<close> of
  \<open>main.py\<close>. Files are a function from paths to their text; \<open>ip_literal\<close> says which bracketed
  hosts are IP literals.
\<close>

section \<open>URLs\<close>

record url =
  ur_scheme :: string
  ur_netloc :: string
  ur_path :: string
  ur_query :: string
  ur_fragment :: string

definition before :: "(char \<Rightarrow> bool) \<Rightarrow> string \<Rightarrow> string" where
  "before stop s = takeWhile (\<lambda>ch. \<not> stop ch) s"

definition after_first :: "char \<Rightarrow> string \<Rightarrow> string" where
  "after_first c s = drop 1 (dropWhile (\<lambda>d. d \<noteq> c) s)"

definition is_letter :: "char \<Rightarrow> bool" where
  "is_letter c \<longleftrightarrow> (let n = of_char c :: nat in 65 \<le> n \<and> n \<le> 90 \<or> 97 \<le> n \<and> n \<le> 122)"

definition scheme_char :: "char \<Rightarrow> bool" where
  "scheme_char c \<longleftrightarrow> is_letter c \<or> is_digit c \<or> c \<in> {CHR ''+'', CHR ''-'', CHR ''.''}"

text \<open>Leading control characters and spaces go, and every tab, line feed and carriage return.\<close>

definition sanitized_url :: "string \<Rightarrow> string" where
  "sanitized_url s =
     filter (\<lambda>c. c \<notin> {CHR 0x09, CHR 0x0A, CHR 0x0D}) (dropWhile (\<lambda>c. (of_char c :: nat) \<le> 32) s)"

definition split_scheme :: "string \<Rightarrow> string \<times> string" where
  "split_scheme s =
     (let head = before (\<lambda>c. c = CHR '':'') s
      in if CHR '':'' \<in> set s \<and> head \<noteq> [] \<and> is_letter (hd head) \<and> list_all scheme_char head
         then (lower head, after_first (CHR '':'') s) else ([], s))"

definition split_netloc :: "string \<Rightarrow> string \<times> string" where
  "split_netloc s =
     (if starts_with ''//'' s
      then (let netloc = before (\<lambda>c. c \<in> set ''/?#'') (drop 2 s)
            in (netloc, drop (2 + length netloc) s))
      else ([], s))"

definition brackets_ok :: "(string \<Rightarrow> bool) \<Rightarrow> string \<Rightarrow> bool" where
  "brackets_ok ip_literal netloc \<longleftrightarrow>
     (CHR ''['' \<in> set netloc \<longleftrightarrow> CHR '']'' \<in> set netloc) \<and>
     (CHR ''['' \<in> set netloc \<longrightarrow>
        ip_literal (before (\<lambda>c. c = CHR '']'') (after_first (CHR ''['') netloc)))"

definition urlsplit :: "(string \<Rightarrow> bool) \<Rightarrow> string \<Rightarrow> url res" where
  "urlsplit ip_literal text =
     (case split_scheme (sanitized_url text) of
        (scheme, rest) \<Rightarrow>
          (case split_netloc rest of
             (netloc, tail) \<Rightarrow>
               (if \<not> brackets_ok ip_literal netloc then Inl (ValueError ''Invalid IPv6 URL'')
                else
                  (let no_fragment = before (\<lambda>c. c = CHR ''#'') tail
                   in Inr \<lparr>ur_scheme = scheme, ur_netloc = netloc,
                           ur_path = before (\<lambda>c. c = CHR ''?'') no_fragment,
                           ur_query = after_first (CHR ''?'') no_fragment,
                           ur_fragment = after_first (CHR ''#'') tail\<rparr>))))"

definition url_hostinfo :: "url \<Rightarrow> string" where
  "url_hostinfo u = after_last (CHR ''@'') (ur_netloc u)"

definition url_userinfo :: "url \<Rightarrow> string option" where
  "url_userinfo u =
     (let n = length (ur_netloc u) - length (url_hostinfo u)
      in if CHR ''@'' \<in> set (ur_netloc u) then Some (take (n - 1) (ur_netloc u)) else None)"

definition url_username :: "url \<Rightarrow> string option" where
  "url_username u = map_option (before (\<lambda>c. c = CHR '':'')) (url_userinfo u)"

definition url_password :: "url \<Rightarrow> string option" where
  "url_password u =
     (case url_userinfo u of
        None \<Rightarrow> None
      | Some info \<Rightarrow> if CHR '':'' \<in> set info then Some (after_first (CHR '':'') info) else None)"

definition url_hostname :: "url \<Rightarrow> string option" where
  "url_hostname u =
     (let info = url_hostinfo u;
          host = (if CHR ''['' \<in> set info
                  then before (\<lambda>c. c = CHR '']'') (after_first (CHR ''['') info)
                  else before (\<lambda>c. c = CHR '':'') info)
      in if host = [] then None else Some (lower host))"

definition url_port :: "url \<Rightarrow> int option res" where
  "url_port u =
     (let info = url_hostinfo u;
          port = after_first (CHR '':'')
            (if CHR ''['' \<in> set info then after_first (CHR '']'') (after_first (CHR ''['') info) else info)
      in if port = [] then Inr None
         else if \<not> list_all is_digit port then Inl (ValueError ''Port could not be cast to integer'')
         else (case digits_value 0 False port of
                 None \<Rightarrow> Inl (ValueError ''Port could not be cast to integer'')
               | Some n \<Rightarrow> if 65535 < n then Inl (ValueError ''Port out of range 0-65535'')
                            else Inr (Some (int n))))"

text \<open>\<open>not value\<close> on an optional string.\<close>

definition absent :: "string option \<Rightarrow> bool" where
  "absent o_text \<longleftrightarrow> o_text = None \<or> o_text = Some []"

section \<open>runtime_secret\<close>

record files =
  fl_text :: "string \<Rightarrow> string option"
  fl_symlink :: "string \<Rightarrow> bool"

definition runtime_secret :: "files \<Rightarrow> env \<Rightarrow> string \<Rightarrow> string res" where
  "runtime_secret fl e name =
     (let path_value = strip (env_get e (name @ ''_FILE'') []);
          production = (lower (env_get e ''KLYROW_ENV'' ''development'') = ''production'')
      in if path_value \<noteq> []
         then (if production \<and> (\<not> starts_with ''/'' path_value \<or> fl_symlink fl path_value)
               then Inl (RuntimeError (name @ '' secret file must be absolute and not a symlink''))
               else (case fl_text fl path_value of
                       None \<Rightarrow> Inl (RuntimeError (name @ '' secret file unavailable''))
                     | Some text \<Rightarrow>
                         (let value = strip text
                          in if value = [] \<or> 65536 < length value
                             then Inl (RuntimeError (name @ '' secret file is empty or oversized''))
                             else Inr value)))
         else
           (let value = env_get e name []
            in if production \<and> value \<noteq> []
               then Inl (RuntimeError (''production requires '' @ name @ ''_FILE''))
               else Inr value))"

text \<open>In production a secret comes from an absolute file or is absent, never from the environment.\<close>

lemma runtime_secret_production:
  assumes "runtime_secret fl e name = Inr value"
    and "lower (env_get e ''KLYROW_ENV'' ''development'') = ''production''" and "value \<noteq> []"
  shows "\<exists>path text. starts_with ''/'' path \<and> \<not> fl_symlink fl path \<and> fl_text fl path = Some text \<and>
    value = strip text \<and> path = strip (env_get e (name @ ''_FILE'') [])"
  using assms by (auto simp: runtime_secret_def Let_def split: if_splits option.splits)

end
