(* ===== verification/BusinessEventWorker.thy ===== *)
theory BusinessEventWorker
  imports BusinessEvents Platform Contracts
begin

text \<open>
  \<open>business_event_worker.py\<close>: leased and fenced delivery of the event outbox to the middleware.
  The state is the outbox, a list of rows. Seconds are rationals (the code's floats, without their
  rounding), \<open>jitter\<close> is what \<open>random.uniform(0.8, 1.2)\<close> returned, \<open>owners\<close> the fresh lease
  owners by row, \<open>parsedate\<close> the date parser of \<open>email.utils\<close> and \<open>post\<close> the HTTP exchange, whose
  failure is a transport error.
\<close>

section \<open>Settings\<close>

definition RETRYABLE_STATUSES :: "int list" where
  "RETRYABLE_STATUSES = [408, 429, 500, 502, 503, 504]"

record delivery_result =
  dr_accepted :: bool
  dr_retryable :: bool
  dr_error :: "string option"
  dr_retry_after_seconds :: "rat option"

record lease =
  le_row_id :: string
  le_event_id :: string
  le_tenant_id :: string
  le_payload :: string
  le_payload_hash :: string
  le_correlation_id :: string
  le_trace_context :: string
  le_attempt_count :: int
  le_lease_owner :: string
  le_lease_expires_at :: int

definition integer_setting :: "env \<Rightarrow> string \<Rightarrow> int \<Rightarrow> int \<Rightarrow> int \<Rightarrow> int res" where
  "integer_setting e name dflt minimum maximum =
     (case (case e name of None \<Rightarrow> Some dflt | Some v \<Rightarrow> int_of_string v) of
        None \<Rightarrow> Inl (ValueError (''invalid_'' @ lower name))
      | Some value \<Rightarrow>
          if minimum \<le> value \<and> value \<le> maximum then Inr value
          else Inl (ValueError (''invalid_'' @ lower name)))"

definition endpoint :: "(string \<Rightarrow> bool) \<Rightarrow> env \<Rightarrow> string res" where
  "endpoint ip_literal e =
     (let text = env_get e ''KLYROW_BUSINESS_EVENTS_URL'' []
      in if text = [] then Inr []
         else res_bind (urlsplit ip_literal text) (\<lambda>parsed.
           if ur_scheme parsed \<noteq> ''https'' \<or> absent (url_hostname parsed) \<or>
              \<not> absent (url_username parsed) \<or> \<not> absent (url_password parsed)
           then Inl (ValueError ''invalid_business_events_endpoint'')
           else res_bind (url_port parsed) (\<lambda>port.
             if port \<notin> {None, Some 443} \<or> ur_query parsed \<noteq> [] \<or> ur_fragment parsed \<noteq> [] \<or>
                ur_path parsed \<noteq> ''/api/v1/events/klyrow''
             then Inl (ValueError ''invalid_business_events_endpoint'')
             else Inr text)))"

text \<open>\<open>_tls_context\<close>: the CA file and the client pair it loads, or the refusal.\<close>

definition tls_context :: "env \<Rightarrow> (string option \<times> (string \<times> string) option) res" where
  "tls_context e =
     (let ca = (case e ''KLYROW_BUSINESS_EVENTS_CA_FILE'' of Some (ch # cs) \<Rightarrow> Some (ch # cs) | _ \<Rightarrow> None);
          certificate = e ''KLYROW_BUSINESS_EVENTS_CLIENT_CERT_FILE'';
          private_key = e ''KLYROW_BUSINESS_EVENTS_CLIENT_KEY_FILE''
      in if absent certificate \<noteq> absent private_key
         then Inl (ValueError ''business_events_mtls_pair_required'')
         else if lower (strip (env_get e ''KLYROW_ENV'' ''development'')) = ''production'' \<and> absent certificate
         then Inl (ValueError ''business_events_production_mtls_required'')
         else Inr (ca, if absent certificate then None else Some (the certificate, the private_key)))"

section \<open>Retry times\<close>

definition retry_after_seconds ::
  "(string \<Rightarrow> int option) \<Rightarrow> string option \<Rightarrow> int \<Rightarrow> rat option" where
  "retry_after_seconds parsedate value current =
     (if absent value then None
      else
        (let v = strip (the value)
         in if v \<noteq> [] \<and> list_all is_digit v
            then Some (min (of_nat (the (digits_value 0 False v))) 86400)
            else (case parsedate v of
                    None \<Rightarrow> None
                  | Some parsed \<Rightarrow>
                      Some (min (max 0 (of_int (parsed - current) / 1000000)) 86400))))"

text \<open>\<open>float(n)\<close> of an integer that is too large for a double raises \<open>OverflowError\<close>.\<close>

definition DOUBLE_LIMIT :: int where "DOUBLE_LIMIT = 2 ^ 1024 - 2 ^ 970"

definition float_of_int :: "int \<Rightarrow> rat res" where
  "float_of_int n =
     (if DOUBLE_LIMIT \<le> n then Inl (OverflowError ''int too large to convert to float'')
      else Inr (of_int n))"

definition backoff_seconds :: "env \<Rightarrow> rat \<Rightarrow> int \<Rightarrow> rat option \<Rightarrow> rat res" where
  "backoff_seconds e jitter attempt_count retry_after =
     res_bind (integer_setting e ''KLYROW_BUSINESS_EVENTS_BACKOFF_BASE_SECONDS'' 2 1 300) (\<lambda>base.
     res_bind (integer_setting e ''KLYROW_BUSINESS_EVENTS_BACKOFF_CAP_SECONDS'' 900 base 86400) (\<lambda>cap.
     res_bind (float_of_int (base * 2 ^ nat (max 0 (attempt_count - 1)))) (\<lambda>grown.
       (let exponential = min (of_int cap) grown;
            jittered = exponential * jitter
        in Inr (max (min (of_int cap) jittered) (case retry_after of None \<Rightarrow> 0 | Some s \<Rightarrow> s))))))"

text \<open>\<open>timedelta(seconds=x)\<close>: microseconds, a half rounded to even.\<close>

definition round_half_even :: "rat \<Rightarrow> int" where
  "round_half_even x =
     (let n = floor x; d = x - of_int n
      in if d < 1 / 2 \<or> d = 1 / 2 \<and> even n then n else n + 1)"

definition timedelta_seconds :: "rat \<Rightarrow> int" where
  "timedelta_seconds x = round_half_even (x * 1000000)"

section \<open>The middleware's answer\<close>

definition operation_id_for_event :: "(string \<Rightarrow> string) \<Rightarrow> string \<Rightarrow> string" where
  "operation_id_for_event sha256_hex event_id =
     ''op_'' @ take 32 (sha256_hex (''klyrow'' @ [CHR 0x00] @ event_id))"

record http_response =
  rs_status :: int
  rs_retry_after :: "string option"
  rs_content_type :: "string option"
  rs_body :: "json option"

definition operation_id_ok :: "string \<Rightarrow> bool" where
  "operation_id_ok s \<longleftrightarrow> starts_with ''op_'' s \<and> length s = 35 \<and>
     list_all (\<lambda>c. is_digit c \<or> c \<in> set ''abcdef'') (drop 3 s)"

text \<open>\<open>MiddlewareAccepted.model_validate(response.json())\<close>: the operation identifier.\<close>

definition MiddlewareAccepted :: "json option \<Rightarrow> string option" where
  "MiddlewareAccepted body =
     Option.bind body (\<lambda>doc. Option.bind (json_obj doc) (\<lambda>kvs.
       if \<not> list_all (\<lambda>(k, v). k \<in> {''operation_id'', ''status''}) kvs then None
       else if map_of kvs ''status'' \<noteq> Some (JStr ''ACCEPTED'') then None
       else (case map_of kvs ''operation_id'' of
               Some (JStr s) \<Rightarrow> if operation_id_ok s then Some s else None
             | _ \<Rightarrow> None)))"

definition refused :: "string \<Rightarrow> delivery_result" where
  "refused error = \<lparr>dr_accepted = False, dr_retryable = False, dr_error = Some error,
     dr_retry_after_seconds = None\<rparr>"

definition http_error :: "int \<Rightarrow> string" where
  "http_error status = ''middleware_http_'' @ int_to_string status"

definition classify_response ::
  "(string \<Rightarrow> int option) \<Rightarrow> int \<Rightarrow> http_response \<Rightarrow> string \<Rightarrow> delivery_result" where
  "classify_response parsedate current response expected_operation_id =
     (let retry_after = retry_after_seconds parsedate (rs_retry_after response) current
      in if rs_status response \<in> set RETRYABLE_STATUSES
         then \<lparr>dr_accepted = False, dr_retryable = True,
               dr_error = Some (http_error (rs_status response)), dr_retry_after_seconds = retry_after\<rparr>
         else
           (let content_type = lower (strip (before (\<lambda>c. c = CHR '';'')
                  (case rs_content_type response of None \<Rightarrow> [] | Some v \<Rightarrow> v)))
            in if rs_status response \<noteq> 202 then refused (http_error (rs_status response))
               else if content_type \<noteq> ''application/json''
               then refused ''middleware_202_content_type_invalid''
               else (case MiddlewareAccepted (rs_body response) of
                       None \<Rightarrow> refused ''middleware_202_body_invalid''
                     | Some operation_id \<Rightarrow>
                         if operation_id \<noteq> expected_operation_id
                         then refused ''middleware_202_operation_id_mismatch''
                         else \<lparr>dr_accepted = True, dr_retryable = False, dr_error = None,
                               dr_retry_after_seconds = None\<rparr>)))"

section \<open>Claim and completion\<close>

definition lease_expired :: "int \<Rightarrow> (string \<Rightarrow> bool) \<Rightarrow> event_row \<Rightarrow> bool" where
  "lease_expired current locked r \<longleftrightarrow> bo_state r = ''LEASED'' \<and>
     (case bo_lease_expires_at r of None \<Rightarrow> False | Some t \<Rightarrow> t < current) \<and> \<not> locked (bo_id r)"

definition release_row :: "int \<Rightarrow> int \<Rightarrow> event_row \<Rightarrow> event_row" where
  "release_row current max_attempts r =
     r\<lparr>bo_state := (if max_attempts \<le> bo_attempt_count r then ''DEAD_LETTER'' else ''RETRYING''),
       bo_next_attempt_at := current, bo_lease_owner := None, bo_lease_expires_at := None,
       bo_last_error := Some ''business_event_lease_expired''\<rparr>"

definition event_due :: "int \<Rightarrow> (string \<Rightarrow> bool) \<Rightarrow> event_row \<Rightarrow> bool" where
  "event_due current locked r \<longleftrightarrow> bo_state r \<in> {''PENDING'', ''RETRYING''} \<and>
     bo_next_attempt_at r \<le> current \<and> \<not> locked (bo_id r)"

definition lease_event :: "int \<Rightarrow> int \<Rightarrow> (string \<Rightarrow> string) \<Rightarrow> event_row \<Rightarrow> event_row" where
  "lease_event current lease_seconds owners r =
     r\<lparr>bo_state := ''LEASED'', bo_attempt_count := bo_attempt_count r + 1,
       bo_lease_owner := Some (owners (bo_id r)),
       bo_lease_expires_at := Some (current + lease_seconds * 1000000)\<rparr>"

definition lease_of :: "event_row \<Rightarrow> lease" where
  "lease_of r = \<lparr>le_row_id = bo_id r, le_event_id = bo_event_id r, le_tenant_id = bo_tenant_id r,
     le_payload = bo_payload r, le_payload_hash = bo_payload_hash r,
     le_correlation_id = bo_correlation_id r, le_trace_context = bo_trace_context r,
     le_attempt_count = bo_attempt_count r, le_lease_owner = the (bo_lease_owner r),
     le_lease_expires_at = the (bo_lease_expires_at r)\<rparr>"

definition claim_events ::
  "nat \<Rightarrow> int \<Rightarrow> int \<Rightarrow> int \<Rightarrow> (string \<Rightarrow> bool) \<Rightarrow> (string \<Rightarrow> string) \<Rightarrow> event_row list
     \<Rightarrow> event_row list \<times> lease list" where
  "claim_events limit current lease_seconds max_attempts locked owners rows =
     (let expired = select_rows bo_created_at (lease_expired current locked) limit rows;
          flushed = update_rows (\<lambda>r. bo_id r \<in> set (map bo_id expired))
                      (release_row current max_attempts) rows;
          candidates = select_rows (\<lambda>r. (bo_created_at r, bo_id r)) (event_due current locked) limit flushed
      in (update_rows (\<lambda>r. bo_id r \<in> set (map bo_id candidates))
            (lease_event current lease_seconds owners) flushed,
          map (\<lambda>r. lease_of (lease_event current lease_seconds owners r)) candidates))"

text \<open>The row that a lease still covers at an instant.\<close>

definition fenced :: "lease \<Rightarrow> int \<Rightarrow> event_row \<Rightarrow> bool" where
  "fenced lease completed_at r \<longleftrightarrow> bo_id r = le_row_id lease \<and> bo_state r = ''LEASED'' \<and>
     bo_lease_owner r = Some (le_lease_owner lease) \<and> bo_attempt_count r = le_attempt_count lease \<and>
     bo_lease_expires_at r = Some (le_lease_expires_at lease) \<and>
     completed_at < le_lease_expires_at lease"

definition finish_event :: "env \<Rightarrow> rat \<Rightarrow> int \<Rightarrow> delivery_result \<Rightarrow> int \<Rightarrow> event_row \<Rightarrow> event_row res" where
  "finish_event e jitter completed_at result max_attempts item =
     (let r = item\<lparr>bo_lease_owner := None, bo_lease_expires_at := None\<rparr>
      in if dr_accepted result
         then Inr (r\<lparr>bo_state := ''DELIVERED'', bo_delivered_at := Some completed_at,
                     bo_last_error := None\<rparr>)
         else if dr_retryable result \<and> bo_attempt_count item < max_attempts
         then res_bind (backoff_seconds e jitter (bo_attempt_count item) (dr_retry_after_seconds result))
           (\<lambda>seconds. Inr (r\<lparr>bo_state := ''RETRYING'',
              bo_next_attempt_at := completed_at + timedelta_seconds seconds,
              bo_last_error := dr_error result\<rparr>))
         else Inr (r\<lparr>bo_state := ''DEAD_LETTER'', bo_next_attempt_at := completed_at,
                bo_last_error := (if absent (dr_error result) then Some ''middleware_delivery_failed''
                                  else dr_error result)\<rparr>))"

definition complete_event ::
  "env \<Rightarrow> rat \<Rightarrow> int \<Rightarrow> lease \<Rightarrow> delivery_result \<Rightarrow> int \<Rightarrow> event_row list \<Rightarrow> (event_row list \<times> bool) res" where
  "complete_event e jitter completed_at lease result max_attempts rows =
     (case find_row (fenced lease completed_at) rows of
        None \<Rightarrow> Inr (rows, False)
      | Some item \<Rightarrow>
          res_bind (finish_event e jitter completed_at result max_attempts item) (\<lambda>item'.
            Inr (update_rows (\<lambda>r. bo_id r = bo_id item) (\<lambda>_. item') rows, dr_accepted result)))"

section \<open>Delivery\<close>

definition deliver_headers ::
  "(string \<Rightarrow> string \<Rightarrow> string) \<Rightarrow> int \<Rightarrow> string \<Rightarrow> string \<Rightarrow> event_envelope \<Rightarrow> (string \<times> json) list
     \<Rightarrow> string \<Rightarrow> (string \<times> string) list" where
  "deliver_headers hmac_hex current credential hmac_secret ev stored_trace body =
     (let timestamp = int_to_string (current div 1000000);
          canonical = timestamp @ [CHR 0x0A] @ ev_id ev @ [CHR 0x0A] @ ''klyrow'' @ [CHR 0x0A] @ body;
          traced = List.map_filter (\<lambda>(k, v). case v of
                     JStr s \<Rightarrow> if lower k \<in> {''traceparent'', ''tracestate''} then Some (k, s) else None
                   | _ \<Rightarrow> None) stored_trace
      in [(''Authorization'', ''Bearer '' @ credential), (''X-Event-Id'', ev_id ev),
          (''X-Timestamp'', timestamp), (''X-Signature'', ''sha256='' @ hmac_hex hmac_secret canonical),
          (''X-Correlation-Id'', ev_correlation_id ev), (''Idempotency-Key'', ev_id ev)]
         @ traced @ [(''Content-Type'', ''application/json'')])"

definition deliver ::
  "codec \<Rightarrow> (string \<Rightarrow> string \<Rightarrow> string) \<Rightarrow> (string \<Rightarrow> int option) \<Rightarrow> int \<Rightarrow> string \<Rightarrow> string
     \<Rightarrow> ((string \<times> string) list \<Rightarrow> string \<Rightarrow> http_response option) \<Rightarrow> lease \<Rightarrow> delivery_result" where
  "deliver c hmac_hex parsedate current credential hmac_secret post lease =
     (if cd_sha256_hex c (le_payload lease) \<noteq> le_payload_hash lease
      then refused ''business_event_payload_integrity_failure''
      else case model_validate_json c (le_payload lease) of
        Inl _ \<Rightarrow> refused ''business_event_payload_invalid''
      | Inr ev \<Rightarrow>
          (if ev_id ev \<noteq> le_event_id lease \<or> ev_tenant_id ev \<noteq> le_tenant_id lease
           then refused ''business_event_identity_mismatch''
           else case Option.bind (cd_loads c (le_trace_context lease)) json_obj of
             None \<Rightarrow> refused ''business_event_payload_invalid''
           | Some stored_trace \<Rightarrow>
               (case post (deliver_headers hmac_hex current credential hmac_secret ev stored_trace
                             (le_payload lease)) (le_payload lease) of
                  None \<Rightarrow> \<lparr>dr_accepted = False, dr_retryable = True,
                            dr_error = Some ''middleware_network_error'', dr_retry_after_seconds = None\<rparr>
                | Some response \<Rightarrow>
                    classify_response parsedate current response
                      (operation_id_for_event (cd_sha256_hex c) (ev_id ev)))))"

definition refresh_metrics :: "event_row list \<Rightarrow> nat \<times> nat" where
  "refresh_metrics rows =
     (count_rows (\<lambda>r. bo_state r \<in> {''PENDING'', ''RETRYING''}) rows,
      count_rows (\<lambda>r. bo_state r = ''DEAD_LETTER'') rows)"

text \<open>The loop over the leases; an exception leaves the completions before it committed.\<close>

fun complete_each ::
  "env \<Rightarrow> (lease \<Rightarrow> delivery_result) \<Rightarrow> (lease \<Rightarrow> int \<times> rat) \<Rightarrow> int \<Rightarrow> lease list \<Rightarrow> int
     \<Rightarrow> event_row list \<Rightarrow> event_row list \<times> int res" where
  "complete_each e delivery clock max_attempts [] delivered rows = (rows, Inr delivered)"
| "complete_each e delivery clock max_attempts (l # ls) delivered rows =
     (case complete_event e (snd (clock l)) (fst (clock l)) l (delivery l) max_attempts rows of
        Inl x \<Rightarrow> (rows, Inl x)
      | Inr (rows', ok) \<Rightarrow>
          complete_each e delivery clock max_attempts ls (delivered + (if ok then 1 else 0)) rows')"

definition dispatch ::
  "env \<Rightarrow> files \<Rightarrow> (string \<Rightarrow> bool) \<Rightarrow> int \<Rightarrow> (string \<Rightarrow> bool) \<Rightarrow> (string \<Rightarrow> string)
     \<Rightarrow> (string \<Rightarrow> string \<Rightarrow> lease \<Rightarrow> delivery_result) \<Rightarrow> (lease \<Rightarrow> int \<times> rat) \<Rightarrow> int
     \<Rightarrow> event_row list \<Rightarrow> event_row list \<times> int res" where
  "dispatch e fl ip_literal current locked owners delivery clock limit rows =
     (if \<not> (1 \<le> limit \<and> limit \<le> 50) then (rows, Inl (ValueError ''invalid_dispatch_limit''))
      else if lower (strip (env_get e ''KLYROW_BUSINESS_EVENTS_ENABLED'' ''false'')) \<noteq> ''true''
      then (rows, Inr 0)
      else case
        res_bind (endpoint ip_literal e) (\<lambda>url.
        if url = [] then Inl (ValueError ''business_events_endpoint_required'')
        else res_bind (runtime_secret fl e ''KLYROW_BUSINESS_EVENTS_TOKEN'') (\<lambda>credential.
        res_bind (runtime_secret fl e ''KLYROW_BUSINESS_EVENTS_HMAC_SECRET'') (\<lambda>hmac_secret.
        if credential = [] \<or> length hmac_secret < 32
        then Inl (ValueError ''business_events_credentials_invalid'')
        else res_bind (integer_setting e ''KLYROW_BUSINESS_EVENTS_MAX_ATTEMPTS'' 8 1 100) (\<lambda>max_attempts.
        res_bind (integer_setting e ''KLYROW_BUSINESS_EVENTS_LEASE_SECONDS'' 60 5 3600) (\<lambda>lease_seconds.
        res_bind (integer_setting e ''KLYROW_BUSINESS_EVENTS_TIMEOUT_SECONDS'' 5 1 120) (\<lambda>timeout_seconds.
        res_bind (tls_context e) (\<lambda>tls.
          Inr (credential, hmac_secret, max_attempts, lease_seconds)))))))) of
        Inl x \<Rightarrow> (rows, Inl x)
      | Inr (credential, hmac_secret, max_attempts, lease_seconds) \<Rightarrow>
          (case claim_events (nat limit) current lease_seconds max_attempts locked owners rows of
             (rows', leases) \<Rightarrow>
               complete_each e (delivery credential hmac_secret) clock max_attempts leases 0 rows'))"

section \<open>The outbox as a system of operations\<close>

text \<open>
  Any interleaving of enqueueing transactions, replays, claims and completions of any number of
  workers. A commit that would violate a uniqueness constraint of the table is refused.
\<close>

datatype event_op =
    OpEnqueue draws event_envelope "string option"
  | OpSnapshot draws ledger string int
  | OpReplay int string "string option"
  | OpClaimEvents nat int int "string \<Rightarrow> bool" "string \<Rightarrow> string"
  | OpComplete env rat int lease delivery_result

definition commit_rows :: "event_row list \<Rightarrow> event_row list res \<Rightarrow> event_row list" where
  "commit_rows rows r =
     (case r of
        Inl _ \<Rightarrow> rows
      | Inr rows' \<Rightarrow>
          if distinct (map bo_id rows') \<and> distinct (map bo_event_id rows') then rows' else rows)"

fun event_step :: "codec \<Rightarrow> int \<Rightarrow> event_op \<Rightarrow> event_row list \<Rightarrow> event_row list" where
  "event_step c M (OpEnqueue dw ev agg) rows =
     commit_rows rows (res_bind (enqueue_event c dw ev agg rows) (\<lambda>r. Inr (snd r)))"
| "event_step c M (OpSnapshot dw lg tid day) rows =
     commit_rows rows (res_bind (daily_snapshot c dw lg tid day rows) (\<lambda>r. Inr (snd r)))"
| "event_step c M (OpReplay current event_id tid) rows =
     commit_rows rows (res_bind (replay_dead_letter c current event_id tid rows) (\<lambda>r. Inr (snd r)))"
| "event_step c M (OpClaimEvents limit current lease_seconds locked owners) rows =
     fst (claim_events limit current lease_seconds M locked owners rows)"
| "event_step c M (OpComplete e jitter completed_at l result) rows =
     commit_rows rows (res_bind (complete_event e jitter completed_at l result M rows) (\<lambda>r. Inr (fst r)))"

section \<open>Lemmas\<close>

definition attempts_ok :: "int \<Rightarrow> event_row \<Rightarrow> bool" where
  "attempts_ok M r \<longleftrightarrow> bo_attempt_count r \<le> M \<and>
     (bo_state r \<in> {''PENDING'', ''RETRYING''} \<longrightarrow> bo_attempt_count r < M)"

definition event_inv :: "int \<Rightarrow> event_row list \<Rightarrow> bool" where
  "event_inv M rows \<longleftrightarrow> 0 < M \<and> distinct (map bo_id rows) \<and> distinct (map bo_event_id rows) \<and>
     (\<forall>r \<in> set rows. attempts_ok M r)"

definition get_event :: "event_row list \<Rightarrow> string \<Rightarrow> event_row option" where
  "get_event rows k = find_row (\<lambda>r. bo_id r = k) rows"

definition delivered :: "event_row \<Rightarrow> bool" where
  "delivered r \<longleftrightarrow> bo_state r = ''DELIVERED''"

definition event_content :: "event_row \<Rightarrow> string \<times> string \<times> string \<times> string" where
  "event_content r = (bo_event_id r, bo_tenant_id r, bo_payload r, bo_payload_hash r)"

definition delivery_record :: "event_row \<Rightarrow> (string \<times> int option) \<times> string \<times> string \<times> string \<times> string" where
  "delivery_record r = ((bo_state r, bo_delivered_at r), event_content r)"

text \<open>
  A rewrite of a row is sound when it keeps identity and content, respects the attempt bound and
  leaves a delivered row's record alone; a table evolves when its rows are rewritten soundly and
  pending ones are appended.
\<close>

definition event_rewrite :: "int \<Rightarrow> (event_row \<Rightarrow> event_row) \<Rightarrow> event_row \<Rightarrow> bool" where
  "event_rewrite M f r \<longleftrightarrow> bo_id (f r) = bo_id r \<and> event_content (f r) = event_content r \<and>
     (attempts_ok M r \<longrightarrow> attempts_ok M (f r)) \<and>
     (delivered r \<longrightarrow> delivery_record (f r) = delivery_record r)"

definition rows_evolve :: "int \<Rightarrow> event_row list \<Rightarrow> event_row list \<Rightarrow> bool" where
  "rows_evolve M rows rows' \<longleftrightarrow> (\<exists>f new. rows' = map f rows @ new \<and>
     (\<forall>r \<in> set rows. event_rewrite M f r) \<and> (\<forall>r \<in> set new. attempts_ok M r))"

lemma event_rewrite_id: "event_rewrite M (\<lambda>r. r) r"
  by (simp add: event_rewrite_def)

lemma rows_evolve_append: "\<forall>r \<in> set new. attempts_ok M r \<Longrightarrow> rows_evolve M rows (rows @ new)"
  unfolding rows_evolve_def
  by (intro exI [of _ "\<lambda>r. r"] exI [of _ new]) (simp add: event_rewrite_id)

lemma rows_evolve_refl: "rows_evolve M rows rows"
  using rows_evolve_append [of "[]"] by simp

lemma rows_evolve_update:
  assumes "\<And>r. r \<in> set rows \<Longrightarrow> P r \<Longrightarrow> event_rewrite M f r"
  shows "rows_evolve M rows (update_rows P f rows)"
  unfolding rows_evolve_def using assms
  by (intro exI [of _ "\<lambda>r. if P r then f r else r"] exI [of _ "[]"])
     (auto simp: update_rows_def event_rewrite_def)

lemma rows_evolve_content:
  assumes "rows_evolve M rows rows'" and "get_event rows k = Some r"
  shows "\<exists>r'. get_event rows' k = Some r' \<and> event_content r' = event_content r \<and>
    (delivered r \<longrightarrow> delivery_record r' = delivery_record r)"
proof -
  obtain f new where f: "rows' = map f rows @ new" "\<forall>r \<in> set rows. event_rewrite M f r"
    using assms(1) by (auto simp: rows_evolve_def)
  have r: "r \<in> set rows" using find_row_Some assms(2) by (fastforce simp: get_event_def)
  have "find_row (\<lambda>r. bo_id r = k) (map f rows) = map_option f (find_row (\<lambda>r. bo_id r = k) rows)"
    using f(2) by (intro find_row_map) (simp add: event_rewrite_def)
  then have "get_event rows' k = Some (f r)"
    using assms(2) by (simp add: get_event_def f(1) find_row_append)
  then show ?thesis using f(2) r by (auto simp: event_rewrite_def)
qed

lemma rows_evolve_attempts:
  assumes "rows_evolve M rows rows'" and "\<forall>r \<in> set rows. attempts_ok M r"
  shows "\<forall>r \<in> set rows'. attempts_ok M r"
  using assms by (auto simp: rows_evolve_def event_rewrite_def)

lemma rows_evolve_ids:
  assumes "rows_evolve M rows rows'" and "length rows' = length rows"
  shows "map bo_id rows' = map bo_id rows" and "map bo_event_id rows' = map bo_event_id rows"
  using assms by (auto simp: rows_evolve_def event_rewrite_def event_content_def)

lemma rows_evolve_trans:
  assumes "rows_evolve M a b" and "rows_evolve M b c"
  shows "rows_evolve M a c"
proof -
  obtain f m where f: "b = map f a @ m" "\<forall>r \<in> set a. event_rewrite M f r" "\<forall>r \<in> set m. attempts_ok M r"
    using assms(1) by (auto simp: rows_evolve_def)
  obtain g n where g: "c = map g b @ n" "\<forall>r \<in> set b. event_rewrite M g r" "\<forall>r \<in> set n. attempts_ok M r"
    using assms(2) by (auto simp: rows_evolve_def)
  have "event_rewrite M (g \<circ> f) r" if "r \<in> set a" for r
    using that f g(2) by (auto simp: event_rewrite_def delivery_record_def delivered_def)
  moreover have "\<forall>r \<in> set (map g m @ n). attempts_ok M r"
    using f g by (auto simp: event_rewrite_def)
  ultimately show ?thesis
    unfolding rows_evolve_def f(1) g(1)
    by (intro exI [of _ "g \<circ> f"] exI [of _ "map g m @ n"]) auto
qed

lemma commit_rows_evolve:
  assumes "\<And>rows'. r = Inr rows' \<Longrightarrow> rows_evolve M rows rows'"
  shows "rows_evolve M rows (commit_rows rows r)"
  using assms by (cases r) (auto simp: commit_rows_def rows_evolve_refl)

lemma commit_rows_unique:
  assumes "distinct (map bo_id rows)" and "distinct (map bo_event_id rows)"
  shows "distinct (map bo_id (commit_rows rows r))" and "distinct (map bo_event_id (commit_rows rows r))"
  using assms by (auto simp: commit_rows_def split: sum.splits)

lemma event_by_id:
  assumes "distinct (map bo_id rows)" and "r \<in> set rows" and "x \<in> set rows" and "bo_id r = bo_id x"
  shows "r = x"
  using assms by (auto simp: distinct_map inj_on_def)

lemma selected_by_id:
  assumes "distinct (map bo_id rows)" and "r \<in> set rows"
    and "bo_id r \<in> set (map bo_id (select_rows k P n rows))"
  shows "P r \<and> r \<in> set (select_rows k P n rows)"
proof -
  obtain x where x: "x \<in> set (select_rows k P n rows)" "bo_id r = bo_id x" using assms(3) by auto
  have "x \<in> set rows \<and> P x" using x(1) by (rule select_rows_in)
  moreover from this have "r = x" using event_by_id [OF assms(1,2)] x(2) by simp
  ultimately show ?thesis using x(1) by simp
qed

lemma enqueue_event_evolves:
  assumes "0 < M" and "enqueue_event c dw ev agg rows = Inr (item, rows')"
  shows "rows_evolve M rows rows'"
  using assms enqueue_event_cases [OF assms(2)]
  by (auto simp: enqueue_event_def Let_def attempts_ok_def rows_evolve_refl
      intro!: rows_evolve_append split: option.splits if_splits)

lemma write_snapshot_evolves:
  "0 < M \<Longrightarrow> write_snapshot c dw tid day q t rows = Inr (item, rows') \<Longrightarrow> rows_evolve M rows rows'"
  by (auto simp: write_snapshot_def enqueue_named_event_def Let_def res_bind_Inr
      intro: enqueue_event_evolves split: option.splits)

lemma daily_snapshot_evolves:
  assumes "0 < M" and "daily_snapshot c dw lg tid day rows = Inr (item, rows')"
  shows "rows_evolve M rows rows'"
  using assms(2) write_snapshot_evolves [OF assms(1)]
  by (auto simp: daily_snapshot_def Let_def res_bind_Inr rows_evolve_refl split: option.splits if_splits)

lemma replay_evolves:
  assumes "event_inv M rows" and "replay_dead_letter c t event_id tid rows = Inr (item, rows')"
  shows "rows_evolve M rows rows'"
proof -
  obtain x where x: "x \<in> set rows" "bo_state x = ''DEAD_LETTER''"
      "rows' = update_rows (\<lambda>r. bo_id r = bo_id x) (requeue_row t) rows"
    using assms(2)
    by (auto simp: replay_dead_letter_def res_bind_Inr split: option.splits if_splits
        dest!: find_row_Some)
  have "event_rewrite M (requeue_row t) r" if "r \<in> set rows" "bo_id r = bo_id x" for r
    using event_by_id [OF _ that(1) x(1) that(2)] assms(1) x(2)
    by (auto simp: event_inv_def event_rewrite_def requeue_row_def event_content_def attempts_ok_def
        delivered_def)
  then show ?thesis unfolding x(3) by (rule rows_evolve_update)
qed

lemma claim_events_evolves:
  assumes "event_inv M rows"
  shows "rows_evolve M rows (fst (claim_events n t s M locked owners rows))"
proof -
  let ?P = "\<lambda>r. bo_id r \<in> set (map bo_id (select_rows bo_created_at (lease_expired t locked) n rows))"
  let ?flushed = "update_rows ?P (release_row t M) rows"
  let ?Q = "\<lambda>r. bo_id r \<in> set (map bo_id (select_rows (\<lambda>r. (bo_created_at r, bo_id r))
      (event_due t locked) n ?flushed))"
  have ids: "distinct (map bo_id rows)" using assms by (simp add: event_inv_def)
  have one: "rows_evolve M rows ?flushed"
  proof (rule rows_evolve_update)
    fix r assume "r \<in> set rows" "?P r"
    then have "lease_expired t locked r" using selected_by_id [OF ids] by blast
    then show "event_rewrite M (release_row t M) r"
      by (auto simp: event_rewrite_def release_row_def lease_expired_def event_content_def
          attempts_ok_def delivered_def)
  qed
  have "distinct (map bo_id ?flushed)" using rows_evolve_ids [OF one] ids by simp
  then have "rows_evolve M ?flushed (update_rows ?Q (lease_event t s owners) ?flushed)"
  proof (intro rows_evolve_update)
    fix r assume r: "r \<in> set ?flushed" "?Q r" "distinct (map bo_id ?flushed)"
    have "event_due t locked r" using selected_by_id [OF r(3,1,2)] by blast
    then show "event_rewrite M (lease_event t s owners) r"
      by (auto simp: event_rewrite_def lease_event_def event_due_def event_content_def
          attempts_ok_def delivered_def)
  qed
  with one have "rows_evolve M rows (update_rows ?Q (lease_event t s owners) ?flushed)"
    by (rule rows_evolve_trans)
  then show ?thesis by (simp add: claim_events_def Let_def)
qed

lemma finish_event_rewrite:
  assumes "finish_event e j t result M item = Inr item'" and "bo_state item = ''LEASED''"
  shows "event_rewrite M (\<lambda>_. item') item"
  using assms
  by (auto simp: finish_event_def Let_def event_rewrite_def event_content_def attempts_ok_def
      delivered_def res_bind_Inr split: if_splits)

lemma complete_event_cases:
  assumes "complete_event e j t l result M rows = Inr (rows', ok)"
  obtains (fenced) "rows' = rows" "\<not> ok" "\<forall>r \<in> set rows. \<not> fenced l t r"
  | (finished) item item' where "item \<in> set rows" "fenced l t item"
      "finish_event e j t result M item = Inr item'"
      "rows' = update_rows (\<lambda>r. bo_id r = bo_id item) (\<lambda>_. item') rows" "ok \<longleftrightarrow> dr_accepted result"
proof (cases "find_row (fenced l t) rows")
  case None
  then have "\<forall>r \<in> set rows. \<not> fenced l t r" by (simp add: find_row_None)
  then show thesis using assms None fenced by (simp add: complete_event_def)
next
  case (Some item)
  have "item \<in> set rows" "fenced l t item" using find_row_Some [OF Some] by simp_all
  moreover obtain item' where "finish_event e j t result M item = Inr item'"
      "rows' = update_rows (\<lambda>r. bo_id r = bo_id item) (\<lambda>_. item') rows" "ok \<longleftrightarrow> dr_accepted result"
    using assms Some by (auto simp: complete_event_def res_bind_Inr)
  ultimately show thesis by (rule finished)
qed

lemma complete_event_evolves:
  assumes "event_inv M rows" and "complete_event e j t l result M rows = Inr (rows', ok)"
  shows "rows_evolve M rows rows'"
  using assms(2)
proof (cases rule: complete_event_cases)
  case fenced
  then show ?thesis by (simp add: rows_evolve_refl)
next
  case (finished item item')
  have "event_rewrite M (\<lambda>_. item') r" if "r \<in> set rows" "bo_id r = bo_id item" for r
    using event_by_id [OF _ that(1) finished(1) that(2)] assms(1) finished(2)
      finish_event_rewrite [OF finished(3)] by (auto simp: event_inv_def fenced_def)
  then show ?thesis unfolding finished(4) by (rule rows_evolve_update)
qed

lemma event_step_evolves:
  assumes "event_inv M rows"
  shows "rows_evolve M rows (event_step c M op rows)"
proof -
  have M: "0 < M" using assms by (simp add: event_inv_def)
  show ?thesis
    by (cases op)
       (auto simp: res_bind_Inr intro!: commit_rows_evolve
         claim_events_evolves [OF assms]
         dest: enqueue_event_evolves [OF M] daily_snapshot_evolves [OF M] replay_evolves [OF assms]
           complete_event_evolves [OF assms])
qed

lemma event_step_inv:
  assumes "event_inv M rows"
  shows "event_inv M (event_step c M op rows)"
proof -
  have "\<forall>r \<in> set (event_step c M op rows). attempts_ok M r"
    using rows_evolve_attempts [OF event_step_evolves [OF assms]] assms by (simp add: event_inv_def)
  moreover have "distinct (map bo_id (event_step c M op rows)) \<and>
      distinct (map bo_event_id (event_step c M op rows))"
  proof (cases op)
    case (OpClaimEvents limit current lease_seconds locked owners)
    have "length (event_step c M op rows) = length rows"
      by (simp add: OpClaimEvents claim_events_def Let_def)
    then show ?thesis using rows_evolve_ids [OF event_step_evolves [OF assms]] assms
      by (simp add: event_inv_def)
  qed (use assms in \<open>simp_all add: commit_rows_unique event_inv_def\<close>)
  ultimately show ?thesis using assms by (simp add: event_inv_def)
qed

interpretation outbox: settled_rows "event_step c M" "event_inv M" get_event "\<lambda>_. True" event_content
  for c M
  by unfold_locales
     (use event_step_inv rows_evolve_content [OF event_step_evolves] in blast)+

interpretation deliveries: settled_rows "event_step c M" "event_inv M" get_event delivered delivery_record
  for c M
proof unfold_locales
  fix s k r op assume "event_inv M s" "get_event s k = Some r" "delivered r"
  then show "\<exists>r'. get_event (event_step c M op s) k = Some r' \<and> delivered r' \<and>
      delivery_record r' = delivery_record r"
    using rows_evolve_content [OF event_step_evolves] by (fastforce simp: delivery_record_def delivered_def)
qed

lemma claim_events_leases:
  assumes "event_inv M rows" and "claim_events n t s M locked owners rows = (rows', leases)"
    and "l \<in> set leases"
  shows "\<exists>r \<in> set rows'. l = lease_of r \<and> bo_state r = ''LEASED'' \<and>
    bo_lease_owner r = Some (owners (bo_id r)) \<and> bo_lease_expires_at r = Some (t + s * 1000000)"
proof -
  let ?P = "\<lambda>r. bo_id r \<in> set (map bo_id (select_rows bo_created_at (lease_expired t locked) n rows))"
  let ?flushed = "update_rows ?P (release_row t M) rows"
  let ?sel = "select_rows (\<lambda>r. (bo_created_at r, bo_id r)) (event_due t locked) n ?flushed"
  obtain x where x: "x \<in> set ?sel" "l = lease_of (lease_event t s owners x)"
    using assms(2,3) by (auto simp: claim_events_def Let_def)
  have "x \<in> set ?flushed" using select_rows_in [OF x(1)] by simp
  then have "lease_event t s owners x \<in> set rows'"
    using x(1) assms(2) by (force simp: claim_events_def Let_def set_update_rows)
  then show ?thesis using x(2) by (intro bexI) (auto simp: lease_event_def)
qed

lemma claim_events_count:
  assumes "event_inv M rows" and "claim_events n t s M locked owners rows = (rows', leases)"
  shows "length leases \<le> n" and "distinct (map le_row_id leases)"
proof -
  let ?P = "\<lambda>r. bo_id r \<in> set (map bo_id (select_rows bo_created_at (lease_expired t locked) n rows))"
  let ?flushed = "update_rows ?P (release_row t M) rows"
  let ?sel = "select_rows (\<lambda>r. (bo_created_at r, bo_id r)) (event_due t locked) n ?flushed"
  have l: "leases = map (\<lambda>r. lease_of (lease_event t s owners r)) ?sel"
    using assms(2) by (auto simp: claim_events_def Let_def)
  then show "length leases \<le> n" using length_select_rows by simp
  have "distinct (map bo_id ?flushed)"
    using assms(1) by (simp add: event_inv_def map_update_rows release_row_def)
  then have "distinct (map bo_id ?sel)" by (rule select_rows_key_distinct)
  then show "distinct (map le_row_id leases)"
    by (simp add: l lease_of_def lease_event_def comp_def)
qed

lemma float_of_int_Inr: "float_of_int n = Inr x \<Longrightarrow> x = of_int n"
  by (auto simp: float_of_int_def split: if_splits)

lemma backoff_seconds_cases:
  assumes "backoff_seconds e jitter attempt ra = Inr s"
  obtains base cap where "integer_setting e ''KLYROW_BUSINESS_EVENTS_BACKOFF_BASE_SECONDS'' 2 1 300 = Inr base"
    and "integer_setting e ''KLYROW_BUSINESS_EVENTS_BACKOFF_CAP_SECONDS'' 900 base 86400 = Inr cap"
    and "s = max (min (of_int cap) (min (of_int cap)
        (of_int (base * 2 ^ nat (max 0 (attempt - 1)))) * jitter)) (case ra of None \<Rightarrow> 0 | Some s \<Rightarrow> s)"
  using assms unfolding backoff_seconds_def res_bind_Inr Let_def
  by (metis Inr_inject float_of_int_Inr)

lemma integer_setting_bounds:
  "integer_setting e name d lo hi = Inr v \<Longrightarrow> lo \<le> v \<and> v \<le> hi"
  by (auto simp: integer_setting_def split: option.splits if_splits)

section \<open>Properties\<close>

text \<open>
  C3. Whatever the interleaving of enqueueing, snapshots, replays, claims and completions by any
  number of workers, no event row is lost or altered in its identifier, tenant, payload or hash, a
  delivered event stays delivered with its delivery time, and no event is attempted more often than
  the configured maximum between two replays.
\<close>

theorem outbox_delivery_final:
  assumes "event_inv M rows" and "get_event rows k = Some r"
  shows "(\<exists>r'. get_event (run_ops (event_step c M) ops rows) k = Some r' \<and>
       event_content r' = event_content r \<and>
       (bo_state r = ''DELIVERED'' \<longrightarrow> bo_state r' = ''DELIVERED'' \<and> bo_delivered_at r' = bo_delivered_at r)) \<and>
     (\<forall>x \<in> set (run_ops (event_step c M) ops rows). bo_attempt_count x \<le> M)"
proof -
  have "event_inv M (run_ops (event_step c M) ops rows)" using assms(1) by (rule outbox.inv_run)
  moreover obtain r' where r': "get_event (run_ops (event_step c M) ops rows) k = Some r'"
      "event_content r' = event_content r"
    using outbox.settled_run [OF assms] by blast
  moreover have "delivered r \<Longrightarrow> delivery_record r' = delivery_record r"
    using deliveries.settled_run [OF assms, of c ops] r'(1) by auto
  ultimately show ?thesis
    by (auto simp: event_inv_def attempts_ok_def delivered_def delivery_record_def)
qed

text \<open>
  Completion is fenced: it changes the outbox, or reports a delivery, only for a row that is
  still leased to this very lease (owner, attempt and expiry) and whose lease has not run out; and
  a lease completes at most once: every later completion of the same lease changes nothing and
  reports no delivery.
\<close>

theorem completion_fenced:
  assumes "event_inv M rows" and "complete_event e j t l result M rows = Inr (rows', ok)"
  shows "(rows' \<noteq> rows \<or> ok \<longrightarrow> (\<exists>item \<in> set rows. bo_id item = le_row_id l \<and> bo_state item = ''LEASED'' \<and>
       bo_lease_owner item = Some (le_lease_owner l) \<and> bo_attempt_count item = le_attempt_count l \<and>
       t < le_lease_expires_at l)) \<and>
     (\<forall>e2 j2 t2 result2. t \<le> t2 \<longrightarrow> complete_event e2 j2 t2 l result2 M rows' = Inr (rows', False))"
  using assms(2)
proof (cases rule: complete_event_cases)
  case fenced
  have "find_row (fenced l t2) rows = None" if "t \<le> t2" for t2
    using fenced(3) that by (auto simp: find_row_None fenced_def)
  then show ?thesis using fenced by (simp add: complete_event_def)
next
  case (finished item item')
  have ids: "distinct (map bo_id rows)" using assms(1) by (simp add: event_inv_def)
  have "bo_state item' \<noteq> ''LEASED''"
    using finished(3) by (auto simp: finish_event_def Let_def res_bind_Inr split: if_splits)
  moreover have "bo_id item' = bo_id item"
    using finish_event_rewrite [OF finished(3)] finished(2) by (simp add: fenced_def event_rewrite_def)
  ultimately have "\<not> fenced l t2 r" if "r \<in> set rows'" for r t2
    using that finished(2) unfolding finished(4) set_update_rows by (auto simp: fenced_def)
  then have "find_row (fenced l t2) rows' = None" for t2 by (simp add: find_row_None)
  then show ?thesis using finished(1,2) by (auto simp: complete_event_def fenced_def)
qed

text \<open>
  A claim hands out at most the requested number of leases, no row twice, and each lease is
  exactly what the outbox now records for its row, so its own completion passes the fence until the
  lease runs out.
\<close>

theorem claim_events_fence_open:
  assumes "event_inv M rows" and "claim_events n t s M locked owners rows = (rows', leases)"
  shows "length leases \<le> n \<and> distinct (map le_row_id leases) \<and>
    (\<forall>l \<in> set leases. le_attempt_count l \<le> M \<and> le_lease_owner l = owners (le_row_id l) \<and>
       (\<forall>t2 < t + s * 1000000. \<exists>item \<in> set rows'. fenced l t2 item \<and> le_payload l = bo_payload item))"
proof (intro conjI ballI allI impI)
  show "length leases \<le> n" and "distinct (map le_row_id leases)"
    using claim_events_count [OF assms] by simp_all
  fix l assume l: "l \<in> set leases"
  obtain r where r: "r \<in> set rows'" "l = lease_of r" "bo_state r = ''LEASED''"
      "bo_lease_owner r = Some (owners (bo_id r))" "bo_lease_expires_at r = Some (t + s * 1000000)"
    using claim_events_leases [OF assms l] by blast
  have "rows_evolve M rows rows'" using claim_events_evolves [OF assms(1)] assms(2) by (metis fst_conv)
  then have "attempts_ok M r"
    using rows_evolve_attempts assms(1) r(1) by (auto simp: event_inv_def)
  then show "le_attempt_count l \<le> M" using r(2) by (simp add: attempts_ok_def lease_of_def)
  show "le_lease_owner l = owners (le_row_id l)" using r(2,4) by (simp add: lease_of_def)
  fix t2 assume "t2 < t + s * 1000000"
  then show "\<exists>item \<in> set rows'. fenced l t2 item \<and> le_payload l = bo_payload item"
    using r by (intro bexI [of _ r]) (simp_all add: fenced_def lease_of_def)
qed

text \<open>
  The retry delay is bounded: with a jitter between 0.8 and 1.2 it is at least 0.8 seconds and at
  least what a valid \<open>Retry-After\<close> asks for, and at most one day.
\<close>

theorem backoff_bounds:
  assumes "backoff_seconds e jitter attempt (retry_after_seconds parsedate header now) = Inr s"
    and "4 / 5 \<le> jitter" and "jitter \<le> 6 / 5"
  shows "4 / 5 \<le> s \<and> s \<le> 86400 \<and>
    (\<forall>asked. retry_after_seconds parsedate header now = Some asked \<longrightarrow> asked \<le> s)"
proof -
  obtain base cap where b: "1 \<le> base" "base \<le> cap" "cap \<le> 86400"
    and s: "s = max (min (of_int cap) (min (of_int cap)
        (of_int (base * 2 ^ nat (max 0 (attempt - 1)))) * jitter))
        (case retry_after_seconds parsedate header now of None \<Rightarrow> 0 | Some s \<Rightarrow> s)"
    using backoff_seconds_cases [OF assms(1)] integer_setting_bounds by metis
  have asked: "a \<le> 86400" if "retry_after_seconds parsedate header now = Some a" for a
    using that by (auto simp: retry_after_seconds_def Let_def split: if_splits option.splits)
  have "1 \<le> base * 2 ^ nat (max 0 (attempt - 1))"
    using b(1) mult_mono [of 1 base 1 "2 ^ nat (max 0 (attempt - 1))"] by simp
  then have one: "1 \<le> min (of_int cap) (of_int (base * 2 ^ nat (max 0 (attempt - 1))) :: rat)"
    using b by (simp flip: of_int_mult)
  define g where "g = min (of_int cap) (of_int (base * 2 ^ nat (max 0 (attempt - 1)))) * jitter"
  have "4 / 5 \<le> g"
    using mult_mono [OF one assms(2) order_trans [OF zero_le_one one]] by (simp add: g_def)
  moreover have "(1 :: rat) \<le> of_int cap" "(of_int cap :: rat) \<le> 86400" using b by simp_all
  ultimately have "4 / 5 \<le> min (of_int cap) g" "min (of_int cap) g \<le> 86400" by auto
  then show ?thesis using asked unfolding s g_def [symmetric]
    by (cases "retry_after_seconds parsedate header now") auto
qed

text \<open>
  An event counts as accepted only when the stored payload still has its hash, is a valid event
  of the lease's identity, and the middleware answered 202 with a JSON body that names the operation
  derived from this event; a retry is asked for only on a transport failure or one of the six
  retryable statuses.
\<close>

theorem deliver_accepted:
  assumes "deliver c hmac_hex parsedate now credential hmac_secret post l = result"
  shows "(dr_accepted result \<longrightarrow> cd_sha256_hex c (le_payload l) = le_payload_hash l \<and>
      (\<exists>ev headers response. model_validate_json c (le_payload l) = Inr ev \<and> ev_id ev = le_event_id l \<and>
         ev_tenant_id ev = le_tenant_id l \<and> (''Idempotency-Key'', ev_id ev) \<in> set headers \<and>
         post headers (le_payload l) = Some response \<and> rs_status response = 202 \<and>
         MiddlewareAccepted (rs_body response) =
           Some (operation_id_for_event (cd_sha256_hex c) (ev_id ev)))) \<and>
    (dr_retryable result \<longrightarrow> \<not> dr_accepted result \<and>
      (\<exists>headers. post headers (le_payload l) = None \<or>
         (\<exists>response. post headers (le_payload l) = Some response \<and>
            rs_status response \<in> {408, 429, 500, 502, 503, 504})))"
proof (cases "dr_accepted result \<or> dr_retryable result")
  case True
  then obtain ev trace where e: "cd_sha256_hex c (le_payload l) = le_payload_hash l"
      "model_validate_json c (le_payload l) = Inr ev" "ev_id ev = le_event_id l"
      "ev_tenant_id ev = le_tenant_id l"
      "Option.bind (cd_loads c (le_trace_context l)) json_obj = Some trace"
    using assms by (auto simp: deliver_def refused_def split: if_splits sum.splits option.splits)
  let ?headers = "deliver_headers hmac_hex now credential hmac_secret ev trace (le_payload l)"
  have key: "(''Idempotency-Key'', ev_id ev) \<in> set ?headers"
    by (simp add: deliver_headers_def Let_def)
  have "result = (case post ?headers (le_payload l) of
      None \<Rightarrow> \<lparr>dr_accepted = False, dr_retryable = True,
                dr_error = Some ''middleware_network_error'', dr_retry_after_seconds = None\<rparr>
    | Some response \<Rightarrow> classify_response parsedate now response
         (operation_id_for_event (cd_sha256_hex c) (ev_id ev)))"
    using assms e by (simp add: deliver_def)
  then show ?thesis using e key
    by (cases "post ?headers (le_payload l)")
       (auto simp: classify_response_def refused_def Let_def RETRYABLE_STATUSES_def
         split: if_splits option.splits)
qed auto

section \<open>A concrete outbox\<close>

definition event_sample :: event_row where
  "event_sample = \<lparr>bo_id = ''r1'', bo_event_id = ''evt_1'', bo_event_type = ''klyrow.tenant.created'',
     bo_tenant_id = ''t1'', bo_aggregate_id = None, bo_payload = ''doc'', bo_payload_hash = ''doc'',
     bo_correlation_id = ''c1'', bo_trace_context = ''{}'', bo_state = ''PENDING'',
     bo_attempt_count = 0, bo_next_attempt_at = 0, bo_lease_owner = None, bo_lease_expires_at = None,
     bo_created_at = 0, bo_delivered_at = None, bo_last_error = None\<rparr>"

definition event_leased :: event_row where
  "event_leased = lease_event 5 60 (\<lambda>k. ''bev_'' @ k) event_sample"

definition accepted_result :: delivery_result where
  "accepted_result = \<lparr>dr_accepted = True, dr_retryable = False, dr_error = None,
     dr_retry_after_seconds = None\<rparr>"

lemma event_sample_inv: "event_inv 3 [event_sample]" "event_inv 3 [event_leased]"
  by (simp_all add: event_inv_def attempts_ok_def event_sample_def event_leased_def lease_event_def)

lemma event_sample_claim:
  "claim_events 10 5 60 3 (\<lambda>_. False) (\<lambda>k. ''bev_'' @ k) [event_sample] = ([event_leased], [lease_of event_leased])"
  by (simp add: claim_events_def select_rows_def lease_expired_def event_due_def event_leased_def
      event_sample_def Let_def)

lemma event_sample_complete:
  "\<exists>r. complete_event Map.empty 1 50 (lease_of event_leased) accepted_result 3 [event_leased] = Inr ([r], True)
     \<and> bo_state r = ''DELIVERED''"
  by (simp add: complete_event_def fenced_def finish_event_def accepted_result_def event_leased_def
      lease_event_def lease_of_def event_sample_def)

theorem outbox_delivery_final_witness:
  "\<exists>r' :: event_row. get_event (run_ops (event_step (plain_codec JNull) 3)
       [OpClaimEvents 10 5 60 (\<lambda>_. False) (\<lambda>k. k), OpReplay 9 ''evt_1'' None]
       [event_sample\<lparr>bo_state := ''DELIVERED''\<rparr>]) ''r1'' = Some r' \<and> bo_state r' = ''DELIVERED''"
proof -
  have "event_inv 3 [event_sample\<lparr>bo_state := ''DELIVERED''\<rparr>]"
    by (simp add: event_inv_def attempts_ok_def event_sample_def)
  moreover have "get_event [event_sample\<lparr>bo_state := ''DELIVERED''\<rparr>] ''r1'' =
      Some (event_sample\<lparr>bo_state := ''DELIVERED''\<rparr>)"
    by (simp add: get_event_def event_sample_def)
  ultimately show ?thesis
    using outbox_delivery_final [of 3 _ "''r1''" _ "plain_codec JNull"
        "[OpClaimEvents 10 5 60 (\<lambda>_. False) (\<lambda>k. k), OpReplay 9 ''evt_1'' None]"]
    by (fastforce simp del: run_ops_simps)
qed

theorem completion_fenced_witness:
  "\<exists>r :: event_row.
     complete_event Map.empty 1 50 (lease_of event_leased) accepted_result 3 [event_leased] = Inr ([r], True) \<and>
     complete_event Map.empty 1 51 (lease_of event_leased) accepted_result 3 [r] = Inr ([r], False)"
proof -
  obtain r where r: "complete_event Map.empty 1 50 (lease_of event_leased) accepted_result 3 [event_leased]
      = Inr ([r], True)"
    using event_sample_complete by blast
  from completion_fenced [OF event_sample_inv(2) r] r show ?thesis by auto
qed

theorem claim_events_fence_open_witness:
  "fenced (lease_of event_leased) 100 event_leased"
proof -
  have "(100 :: int) < 5 + 60 * 1000000" by simp
  then show ?thesis
    using claim_events_fence_open [OF event_sample_inv(1) event_sample_claim] by auto
qed

theorem backoff_bounds_witness:
  "backoff_seconds Map.empty 1 3 (retry_after_seconds (\<lambda>_. None) (Some ''60'') 0) = Inr 60 \<and>
   (4 / 5 :: rat) \<le> 60 \<and> (60 :: rat) \<le> 86400"
proof -
  have header: "retry_after_seconds (\<lambda>_. None) (Some ''60'') 0 = Some 60"
    by code_simp
  have "(8 :: int) < DOUBLE_LIMIT" by code_simp
  then have "backoff_seconds Map.empty 1 3 (retry_after_seconds (\<lambda>_. None) (Some ''60'') 0) = Inr 60"
    unfolding header by (simp add: backoff_seconds_def integer_setting_def float_of_int_def Let_def)
  with backoff_bounds [OF this] show ?thesis by simp
qed

theorem deliver_accepted_witness:
  "dr_retryable (deliver (plain_codec plain_stored) (\<lambda>_ _. []) (\<lambda>_. None) 5 ''c'' ''s'' (\<lambda>_ _. None)
     (lease_of event_leased)) \<longleftrightarrow> \<not> dr_accepted (deliver (plain_codec plain_stored) (\<lambda>_ _. []) (\<lambda>_. None) 5
     ''c'' ''s'' (\<lambda>_ _. None) (lease_of event_leased))"
proof -
  have "model_validate_json (plain_codec plain_stored) ''doc'' = Inr plain_event" by code_simp
  then have "dr_retryable (deliver (plain_codec plain_stored) (\<lambda>_ _. []) (\<lambda>_. None) 5 ''c'' ''s'' (\<lambda>_ _. None)
     (lease_of event_leased))"
    by (simp add: deliver_def lease_of_def event_leased_def lease_event_def event_sample_def
        plain_codec_def plain_stored_def event_json_def plain_event_def)
  then show ?thesis using deliver_accepted [OF refl] by blast
qed

end
