(* ===== verification/CampaignDispatch.thy ===== *)
theory CampaignDispatch
  imports Guards BusinessEvents Contracts
begin

text \<open>
  \<open>campaign_dispatcher.py\<close>: fenced fan-out of a campaign to its audience. A transaction is a
  function on the tables; \<open>current\<close> is the clock, \<open>locked\<close> the rows that \<open>SKIP LOCKED\<close> leaves
  out. Segment rules are evaluated by \<open>matches\<close>, addresses by \<open>valid_email\<close> (the normal form, if the
  address is valid), and \<open>send\<close> is the admission of one message, \<open>email_send\<close> of \<open>provider.py\<close>: the
  identifier of the message it accepted or the exception it raised.
\<close>

section \<open>State\<close>

record campaign_row =
  ca_id :: string
  ca_tenant_id :: string
  ca_status :: string
  ca_subject :: "string option"
  ca_sender_id :: "string option"
  ca_template_id :: "string option"
  ca_segment_id :: "string option"
  ca_current_version :: int
  ca_scheduled_at :: "int option"

record contact_row =
  co_tenant_id :: string
  co_email :: string
  co_subscribed :: bool

record sender_row =
  se_id :: string
  se_tenant_id :: string
  se_email :: string
  se_stream :: string
  se_status :: string

record template_row =
  te_id :: string
  te_tenant_id :: string
  te_status :: string
  te_current_version :: int

record template_version_row =
  tv_template_id :: string
  tv_tenant_id :: string
  tv_version :: int
  tv_subject :: string
  tv_html_body :: string
  tv_text_body :: string

record segment_row =
  sg_id :: string
  sg_tenant_id :: string
  sg_rules_json :: jtext

record version_snapshot =
  vs_tenant_id :: string
  vs_campaign_id :: string
  vs_campaign_version :: int
  vs_sender_id :: string
  vs_sender :: string
  vs_template_id :: string
  vs_template_version :: int
  vs_subject :: string
  vs_html_body :: string
  vs_text_body :: string

record audience_row =
  ad_id :: string
  ad_tenant_id :: string
  ad_campaign_id :: string
  ad_campaign_version :: int
  ad_recipient :: string
  ad_recipient_hash :: string

record run_row =
  ru_id :: string
  ru_tenant_id :: string
  ru_campaign_id :: string
  ru_campaign_version :: int
  ru_state :: string
  ru_scheduled_at :: int
  ru_next_attempt_at :: int
  ru_lease_owner :: "string option"
  ru_lease_expires_at :: "int option"
  ru_fence_token :: int
  ru_completed_at :: "int option"

record item_row =
  it_id :: string
  it_tenant_id :: string
  it_campaign_id :: string
  it_campaign_version :: int
  it_audience_id :: string
  it_recipient_hash :: string
  it_state :: string
  it_attempt_count :: int
  it_next_attempt_at :: int
  it_lease_owner :: "string option"
  it_fence_token :: "int option"
  it_message_id :: "string option"
  it_last_error :: "string option"
  it_created_at :: int

record campaign_db =
  cg_campaigns :: "campaign_row list"
  cg_contacts :: "contact_row list"
  cg_profiles :: "profile_row list"
  cg_segments :: "segment_row list"
  cg_senders :: "sender_row list"
  cg_templates :: "template_row list"
  cg_template_versions :: "template_version_row list"
  cg_snapshots :: "version_snapshot list"
  cg_audiences :: "audience_row list"
  cg_runs :: "run_row list"
  cg_items :: "item_row list"
  cg_events :: "event_row list"

definition dispatcher_enabled :: "env \<Rightarrow> bool" where
  "dispatcher_enabled e \<longleftrightarrow>
     lower (strip (env_get e ''KLYROW_CAMPAIGN_DISPATCHER_ENABLED'' ''false'')) = ''true''"

definition set_campaign :: "string \<Rightarrow> (campaign_row \<Rightarrow> campaign_row) \<Rightarrow> campaign_db \<Rightarrow> campaign_db" where
  "set_campaign cid f db =
     db\<lparr>cg_campaigns := update_rows (\<lambda>c. ca_id c = cid) f (cg_campaigns db)\<rparr>"

definition set_run :: "string \<Rightarrow> (run_row \<Rightarrow> run_row) \<Rightarrow> campaign_db \<Rightarrow> campaign_db" where
  "set_run rid f db = db\<lparr>cg_runs := update_rows (\<lambda>r. ru_id r = rid) f (cg_runs db)\<rparr>"

definition set_items :: "(item_row \<Rightarrow> bool) \<Rightarrow> (item_row \<Rightarrow> item_row) \<Rightarrow> campaign_db \<Rightarrow> campaign_db" where
  "set_items P f db = db\<lparr>cg_items := update_rows P f (cg_items db)\<rparr>"

section \<open>Scheduling\<close>

fun res_filter :: "('a \<Rightarrow> bool res) \<Rightarrow> 'a list \<Rightarrow> 'a list res" where
  "res_filter P [] = Inr []"
| "res_filter P (x # xs) =
     res_bind (P x) (\<lambda>b. res_bind (res_filter P xs) (\<lambda>ys. Inr (if b then x # ys else ys)))"

definition audience ::
  "(profile_row \<Rightarrow> json \<Rightarrow> bool res) \<Rightarrow> campaign_row \<Rightarrow> campaign_db \<Rightarrow> string list res" where
  "audience matches campaign db =
     res_bind
       (if ca_segment_id campaign \<noteq> None \<and> ca_segment_id campaign \<noteq> Some []
        then (case find_row (\<lambda>s. Some (sg_id s) = ca_segment_id campaign \<and>
                     sg_tenant_id s = ca_tenant_id campaign) (cg_segments db) of
                None \<Rightarrow> Inl (HTTPException 422 ''campaign_segment_not_found'')
              | Some segment \<Rightarrow>
                  (case sg_rules_json segment of
                     BadText _ \<Rightarrow> Inl (ValueError ''JSONDecodeError'')
                   | JText rules \<Rightarrow>
                       res_bind (res_filter (\<lambda>p. matches p rules)
                           (filter (\<lambda>p. pf_tenant_id p = ca_tenant_id campaign \<and> pf_email p \<noteq> None)
                              (cg_profiles db)))
                         (\<lambda>ps. Inr (map (\<lambda>p. the (pf_email p)) ps))))
        else Inr (map co_email (filter (\<lambda>c. co_tenant_id c = ca_tenant_id campaign \<and> co_subscribed c)
                    (cg_contacts db))))
       (\<lambda>candidates. Inr (sort (remdups (map (\<lambda>v. lower (strip v))
                            (filter (\<lambda>v. v \<noteq> []) candidates)))))"

definition audience_of :: "campaign_row \<Rightarrow> (string \<Rightarrow> string) \<Rightarrow> (string \<Rightarrow> string) \<Rightarrow> string \<Rightarrow> audience_row" where
  "audience_of campaign sha fresh recipient =
     \<lparr>ad_id = fresh (''audience:'' @ recipient), ad_tenant_id = ca_tenant_id campaign,
      ad_campaign_id = ca_id campaign, ad_campaign_version = ca_current_version campaign,
      ad_recipient = recipient, ad_recipient_hash = sha recipient\<rparr>"

definition item_of ::
  "campaign_row \<Rightarrow> (string \<Rightarrow> string) \<Rightarrow> (string \<Rightarrow> string) \<Rightarrow> int \<Rightarrow> int \<Rightarrow> string \<Rightarrow> item_row" where
  "item_of campaign sha fresh scheduled_at current recipient =
     \<lparr>it_id = fresh (''item:'' @ recipient), it_tenant_id = ca_tenant_id campaign,
      it_campaign_id = ca_id campaign, it_campaign_version = ca_current_version campaign,
      it_audience_id = fresh (''audience:'' @ recipient), it_recipient_hash = sha recipient,
      it_state = ''PENDING'', it_attempt_count = 0, it_next_attempt_at = scheduled_at,
      it_lease_owner = None, it_fence_token = None, it_message_id = None, it_last_error = None,
      it_created_at = current\<rparr>"

text \<open>The rows that scheduling writes: the frozen version, the audience, its items and the run.\<close>

definition start_run ::
  "(string \<Rightarrow> string) \<Rightarrow> (string \<Rightarrow> string) \<Rightarrow> int \<Rightarrow> campaign_row \<Rightarrow> int \<Rightarrow> sender_row \<Rightarrow> template_row
     \<Rightarrow> template_version_row \<Rightarrow> string list \<Rightarrow> campaign_db \<Rightarrow> run_row \<times> campaign_db" where
  "start_run sha fresh current campaign scheduled_at sender template template_version recipients db =
     (let run = \<lparr>ru_id = fresh ''run'', ru_tenant_id = ca_tenant_id campaign,
            ru_campaign_id = ca_id campaign, ru_campaign_version = ca_current_version campaign,
            ru_state = ''SCHEDULED'', ru_scheduled_at = scheduled_at,
            ru_next_attempt_at = scheduled_at, ru_lease_owner = None,
            ru_lease_expires_at = None, ru_fence_token = 0, ru_completed_at = None\<rparr>;
          snapshot = \<lparr>vs_tenant_id = ca_tenant_id campaign, vs_campaign_id = ca_id campaign,
            vs_campaign_version = ca_current_version campaign, vs_sender_id = se_id sender,
            vs_sender = se_email sender, vs_template_id = te_id template,
            vs_template_version = te_current_version template,
            vs_subject = or_text (ca_subject campaign) (tv_subject template_version),
            vs_html_body = tv_html_body template_version,
            vs_text_body = tv_text_body template_version\<rparr>
      in (run, (set_campaign (ca_id campaign)
             (\<lambda>c. c\<lparr>ca_status := ''scheduled'', ca_scheduled_at := Some scheduled_at\<rparr>) db)
           \<lparr>cg_snapshots := cg_snapshots db @ [snapshot],
            cg_audiences := cg_audiences db @ map (audience_of campaign sha fresh) recipients,
            cg_items := cg_items db @ map (item_of campaign sha fresh scheduled_at current) recipients,
            cg_runs := cg_runs db @ [run]\<rparr>))"

definition schedule_campaign ::
  "(profile_row \<Rightarrow> json \<Rightarrow> bool res) \<Rightarrow> (string \<Rightarrow> string) \<Rightarrow> env \<Rightarrow> (string \<Rightarrow> string) \<Rightarrow> int
     \<Rightarrow> campaign_row \<Rightarrow> int \<Rightarrow> campaign_db \<Rightarrow> (run_row \<times> campaign_db) res" where
  "schedule_campaign matches sha e fresh current campaign scheduled_at db =
     (if \<not> dispatcher_enabled e then Inl (HTTPException 409 ''campaign_dispatcher_unavailable'')
      else if ca_status campaign \<notin> {''draft'', ''paused''}
      then Inl (HTTPException 409 ''campaign_not_schedulable'')
      else if ca_sender_id campaign \<in> {None, Some []} \<or> ca_template_id campaign \<in> {None, Some []}
      then Inl (HTTPException 422 ''campaign_sender_and_template_required'')
      else case find_row (\<lambda>s. Some (se_id s) = ca_sender_id campaign \<and>
                   se_tenant_id s = ca_tenant_id campaign \<and> se_status s = ''ACTIVE'' \<and>
                   se_stream s = ''MARKETING'') (cg_senders db) of
        None \<Rightarrow> Inl (HTTPException 422 ''campaign_marketing_sender_required'')
      | Some sender \<Rightarrow>
      (case find_row (\<lambda>t. Some (te_id t) = ca_template_id campaign \<and>
              te_tenant_id t = ca_tenant_id campaign \<and> te_status t = ''PUBLISHED'') (cg_templates db) of
        None \<Rightarrow> Inl (HTTPException 422 ''campaign_published_template_required'')
      | Some template \<Rightarrow>
      (case find_row (\<lambda>v. tv_template_id v = te_id template \<and>
              tv_tenant_id v = ca_tenant_id campaign \<and> tv_version v = te_current_version template)
              (cg_template_versions db) of
        None \<Rightarrow> Inl (HTTPException 409 ''campaign_template_version_missing'')
      | Some template_version \<Rightarrow>
      (case find_row (\<lambda>r. ru_campaign_id r = ca_id campaign) (cg_runs db) of
        Some existing \<Rightarrow> Inr (existing, db)
      | None \<Rightarrow>
          res_bind (audience matches campaign db) (\<lambda>recipients.
            Inr (start_run sha fresh current campaign scheduled_at sender template template_version
                   recipients db))))))"

section \<open>Pausing, resuming, cancelling\<close>

definition campaign_run :: "campaign_row \<Rightarrow> campaign_db \<Rightarrow> run_row option" where
  "campaign_run campaign db =
     find_row (\<lambda>r. ru_campaign_id r = ca_id campaign \<and> ru_tenant_id r = ca_tenant_id campaign) (cg_runs db)"

definition release_item :: "int \<Rightarrow> item_row \<Rightarrow> item_row" where
  "release_item current i = i\<lparr>it_state := ''RETRYING'', it_lease_owner := None,
     it_fence_token := None, it_next_attempt_at := current\<rparr>"

definition leased_item :: "string \<Rightarrow> item_row \<Rightarrow> bool" where
  "leased_item cid i \<longleftrightarrow> it_campaign_id i = cid \<and> it_state i = ''LEASED''"

definition pause_campaign :: "int \<Rightarrow> campaign_row \<Rightarrow> campaign_db \<Rightarrow> campaign_db res" where
  "pause_campaign current campaign db =
     (case campaign_run campaign db of
        None \<Rightarrow> Inl (HTTPException 409 ''campaign_not_pauseable'')
      | Some run \<Rightarrow>
          (if ru_state run \<in> {''COMPLETED'', ''CANCELLED'', ''FAILED''}
           then Inl (HTTPException 409 ''campaign_not_pauseable'')
           else Inr (set_campaign (ca_id campaign) (\<lambda>c. c\<lparr>ca_status := ''paused''\<rparr>)
                  (set_items (leased_item (ca_id campaign)) (release_item current)
                    (set_run (ru_id run) (\<lambda>r. r\<lparr>ru_state := ''PAUSED'', ru_lease_owner := None,
                                               ru_lease_expires_at := None\<rparr>) db)))))"

definition resume_campaign :: "int \<Rightarrow> campaign_row \<Rightarrow> campaign_db \<Rightarrow> campaign_db res" where
  "resume_campaign current campaign db =
     (case campaign_run campaign db of
        None \<Rightarrow> Inl (HTTPException 409 ''campaign_not_resumable'')
      | Some run \<Rightarrow>
          (if ru_state run \<noteq> ''PAUSED'' then Inl (HTTPException 409 ''campaign_not_resumable'')
           else Inr (set_campaign (ca_id campaign) (\<lambda>c. c\<lparr>ca_status := ''scheduled''\<rparr>)
                  (set_run (ru_id run) (\<lambda>r. r\<lparr>ru_state := ''RETRYING'',
                     ru_next_attempt_at := current\<rparr>) db))))"

definition of_run :: "run_row \<Rightarrow> item_row \<Rightarrow> bool" where
  "of_run run i \<longleftrightarrow> it_campaign_id i = ru_campaign_id run \<and> it_campaign_version i = ru_campaign_version run"

definition state_count :: "campaign_db \<Rightarrow> run_row \<Rightarrow> string \<Rightarrow> nat" where
  "state_count db run state = count_rows (\<lambda>i. of_run run i \<and> it_state i = state) (cg_items db)"

definition total_count :: "campaign_db \<Rightarrow> run_row \<Rightarrow> nat" where
  "total_count db run = count_rows (of_run run) (cg_items db)"

text \<open>\<open>_counts\<close>, as the data of the summary event.\<close>

definition summary_data :: "campaign_db \<Rightarrow> run_row \<Rightarrow> string \<Rightarrow> (string \<times> arg) list" where
  "summary_data db run status =
     [(''campaign_id'', AJson (JStr (ru_campaign_id run))),
      (''campaign_version'', AJson (JInt (ru_campaign_version run))),
      (''status'', AJson (JStr status)),
      (''audience_count'', AJson (JInt (int (total_count db run)))),
      (''delivered_count'', AJson (JInt (int (state_count db run ''DELIVERED'')))),
      (''suppressed_count'', AJson (JInt (int (state_count db run ''SUPPRESSED'')))),
      (''failed_count'', AJson (JInt (int (state_count db run ''FAILED''))))]"

definition summary_event ::
  "codec \<Rightarrow> draws \<Rightarrow> (string \<Rightarrow> string) \<Rightarrow> run_row \<Rightarrow> string \<Rightarrow> campaign_db \<Rightarrow> campaign_db res" where
  "summary_event c dw uuid5_hex run status db =
     res_bind (enqueue_named_event c dw ''klyrow.campaign.summary'' (ru_tenant_id run)
         (summary_data db run status) (Some (''cmp_'' @ ru_campaign_id run)) (Some (ru_id run))
         (Some (ru_campaign_id run))
         (Some (''evt_'' @ uuid5_hex (''klyrow:campaign:'' @ ru_campaign_id run @ '':'' @
            int_to_string (ru_campaign_version run) @ '':'' @ status)))
         None (cg_events db))
       (\<lambda>r. Inr (db\<lparr>cg_events := snd r\<rparr>))"

definition open_item :: "string \<Rightarrow> item_row \<Rightarrow> bool" where
  "open_item cid i \<longleftrightarrow> it_campaign_id i = cid \<and> it_state i \<in> {''PENDING'', ''LEASED'', ''RETRYING''}"

definition cancel_campaign ::
  "codec \<Rightarrow> draws \<Rightarrow> (string \<Rightarrow> string) \<Rightarrow> campaign_row \<Rightarrow> campaign_db \<Rightarrow> campaign_db res" where
  "cancel_campaign c dw uuid5_hex campaign db =
     (let db1 = set_campaign (ca_id campaign)
                  (\<lambda>c. c\<lparr>ca_status := ''cancelled'', ca_scheduled_at := None\<rparr>) db
      in case campaign_run campaign db of
           None \<Rightarrow> Inr db1
         | Some run \<Rightarrow>
             (if ru_state run \<in> {''COMPLETED'', ''CANCELLED''} then Inr db1
              else summary_event c dw uuid5_hex run ''CANCELLED''
                (set_items (open_item (ca_id campaign))
                   (\<lambda>i. i\<lparr>it_state := ''CANCELLED'', it_lease_owner := None, it_fence_token := None\<rparr>)
                  (set_run (ru_id run) (\<lambda>r. r\<lparr>ru_state := ''CANCELLED'',
                     ru_completed_at := Some (dw_now dw), ru_lease_owner := None,
                     ru_lease_expires_at := None\<rparr>) db1))))"

section \<open>Dispatch\<close>

definition run_expired :: "int \<Rightarrow> (string \<Rightarrow> bool) \<Rightarrow> run_row \<Rightarrow> bool" where
  "run_expired current locked r \<longleftrightarrow> ru_state r = ''RUNNING'' \<and>
     (case ru_lease_expires_at r of None \<Rightarrow> False | Some t \<Rightarrow> t < current) \<and> \<not> locked (ru_id r)"

definition release_expired :: "int \<Rightarrow> (string \<Rightarrow> bool) \<Rightarrow> campaign_db \<Rightarrow> campaign_db" where
  "release_expired current locked db =
     (case select_rows ru_scheduled_at (run_expired current locked) 1 (cg_runs db) of
        [] \<Rightarrow> db
      | run # _ \<Rightarrow>
          set_items (leased_item (ru_campaign_id run)) (release_item current)
            (set_run (ru_id run) (\<lambda>r. r\<lparr>ru_state := ''RETRYING'', ru_next_attempt_at := current,
               ru_lease_owner := None, ru_lease_expires_at := None\<rparr>) db))"

definition run_due :: "int \<Rightarrow> (string \<Rightarrow> bool) \<Rightarrow> run_row \<Rightarrow> bool" where
  "run_due current locked r \<longleftrightarrow> ru_state r \<in> {''SCHEDULED'', ''RETRYING''} \<and>
     ru_scheduled_at r \<le> current \<and> ru_next_attempt_at r \<le> current \<and> \<not> locked (ru_id r)"

definition take_run :: "int \<Rightarrow> int \<Rightarrow> string \<Rightarrow> run_row \<Rightarrow> run_row" where
  "take_run current lease_seconds owner r = r\<lparr>ru_state := ''RUNNING'',
     ru_fence_token := ru_fence_token r + 1, ru_lease_owner := Some owner,
     ru_lease_expires_at := Some (current + lease_seconds * 1000000)\<rparr>"

text \<open>\<open>_claim_run\<close>; when no run is due the session closes without a commit.\<close>

definition claim_run ::
  "int \<Rightarrow> (string \<Rightarrow> bool) \<Rightarrow> int \<Rightarrow> string \<Rightarrow> campaign_db \<Rightarrow> campaign_db \<times> run_row option" where
  "claim_run current locked lease_seconds owner db =
     (let db1 = release_expired current locked db
      in case select_rows (\<lambda>r. (ru_scheduled_at r, ru_id r)) (run_due current locked) 1 (cg_runs db1) of
           [] \<Rightarrow> (db, None)
         | run # _ \<Rightarrow>
             (set_run (ru_id run) (take_run current lease_seconds owner) db1,
              Some (take_run current lease_seconds owner run)))"

definition item_due :: "run_row \<Rightarrow> int \<Rightarrow> (string \<Rightarrow> bool) \<Rightarrow> item_row \<Rightarrow> bool" where
  "item_due run current locked i \<longleftrightarrow> of_run run i \<and> it_state i \<in> {''PENDING'', ''RETRYING''} \<and>
     it_next_attempt_at i \<le> current \<and> \<not> locked (it_id i)"

text \<open>The recipient of an item, when its audience row is there and of the tenant.\<close>

definition item_audience :: "campaign_db \<Rightarrow> run_row \<Rightarrow> item_row \<Rightarrow> audience_row option" where
  "item_audience db run i =
     (case find_row (\<lambda>a. ad_id a = it_audience_id i) (cg_audiences db) of
        None \<Rightarrow> None
      | Some a \<Rightarrow> if ad_tenant_id a = ru_tenant_id run then Some a else None)"

definition lease_item :: "campaign_db \<Rightarrow> run_row \<Rightarrow> item_row \<Rightarrow> item_row" where
  "lease_item db run i =
     (if item_audience db run i = None
      then i\<lparr>it_state := ''FAILED'', it_last_error := Some ''campaign_audience_snapshot_missing''\<rparr>
      else i\<lparr>it_state := ''LEASED'', it_attempt_count := it_attempt_count i + 1,
             it_lease_owner := ru_lease_owner run, it_fence_token := Some (ru_fence_token run)\<rparr>)"

text \<open>The second transaction: the run's snapshot and a chunk of its due items, or a failed run.\<close>

definition lease_items ::
  "int \<Rightarrow> (string \<Rightarrow> bool) \<Rightarrow> nat \<Rightarrow> run_row \<Rightarrow> campaign_db
     \<Rightarrow> campaign_db \<times> (version_snapshot \<times> (string \<times> string \<times> string) list) option" where
  "lease_items current locked limit run db =
     (let items = select_rows (\<lambda>i. (it_created_at i, it_id i)) (item_due run current locked) limit (cg_items db)
      in case find_row (\<lambda>v. vs_campaign_id v = ru_campaign_id run \<and>
                vs_campaign_version v = ru_campaign_version run \<and> vs_tenant_id v = ru_tenant_id run)
              (cg_snapshots db) of
           None \<Rightarrow> (set_run (ru_id run) (\<lambda>r. r\<lparr>ru_state := ''FAILED'', ru_completed_at := Some current\<rparr>) db,
                    None)
         | Some snapshot \<Rightarrow>
             (set_items (\<lambda>i. it_id i \<in> set (map it_id items)) (lease_item db run) db,
              Some (snapshot, List.map_filter (\<lambda>i. map_option
                 (\<lambda>a. (it_id i, ad_recipient a, it_recipient_hash i)) (item_audience db run i)) items)))"

definition STREAMS :: "string list" where
  "STREAMS = [''SECURITY'', ''TRANSACTIONAL'', ''SYSTEM'', ''MARKETING'', ''BULK'']"

record mail_in =
  mi_sender :: string
  mi_recipient :: string
  mi_subject :: string
  mi_html :: "string option"
  mi_text :: "string option"
  mi_stream :: string
  mi_sandbox :: bool

definition mail_recipient :: "(string \<Rightarrow> string option) \<Rightarrow> env \<Rightarrow> string \<Rightarrow> string option" where
  "mail_recipient valid_email e value =
     (if \<not> (3 \<le> length value \<and> length value \<le> 320) then None
      else
        (let candidate = lower (strip value);
             sink_domain = lower (env_get e ''KLYROW_SANDBOX_DOMAIN'' ''klyrow-sink.test'')
         in if ends_with (CHR ''@'' # sink_domain) candidate \<and>
               length (filter (\<lambda>ch. ch = CHR ''@'') candidate) = 1
            then Some candidate else valid_email candidate))"

definition content_ok :: "string option \<Rightarrow> bool" where
  "content_ok t \<longleftrightarrow> (case t of None \<Rightarrow> True | Some s \<Rightarrow> length s \<le> 1000000)"

text \<open>\<open>ProviderMailIn(...)\<close> for the fields the dispatcher passes; a validation error is a \<open>ValueError\<close>.\<close>

definition ProviderMailIn ::
  "(string \<Rightarrow> string option) \<Rightarrow> env \<Rightarrow> string \<Rightarrow> string \<Rightarrow> string \<Rightarrow> string option \<Rightarrow> string option
     \<Rightarrow> string \<Rightarrow> bool \<Rightarrow> mail_in res" where
  "ProviderMailIn valid_email e sender recipient subject html text_body stream sandbox =
     (case (valid_email sender, mail_recipient valid_email e recipient) of
        (Some from, Some rcpt) \<Rightarrow>
          (if \<not> (1 \<le> length subject \<and> length subject \<le> 998) \<or> \<not> content_ok html \<or> \<not> content_ok text_body
           then Inl (ValueError ''ValidationError'')
           else if upper stream \<notin> set STREAMS then Inl (ValueError ''ValidationError'')
           else if html \<in> {None, Some []} \<and> text_body \<in> {None, Some []}
           then Inl (ValueError ''ValidationError'')
           else Inr \<lparr>mi_sender = from, mi_recipient = rcpt, mi_subject = subject, mi_html = html,
                     mi_text = text_body, mi_stream = upper stream, mi_sandbox = sandbox\<rparr>)
      | _ \<Rightarrow> Inl (ValueError ''ValidationError''))"

definition nonempty :: "string \<Rightarrow> string option" where
  "nonempty s = (if s = [] then None else Some s)"

text \<open>The body of the \<open>try\<close>: the message identifier, or what was raised.\<close>

definition admit ::
  "(string \<Rightarrow> string option) \<Rightarrow> (string \<Rightarrow> string) \<Rightarrow> env \<Rightarrow> guard_db
     \<Rightarrow> (mail_in \<Rightarrow> string \<Rightarrow> string \<Rightarrow> string res) \<Rightarrow> run_row \<Rightarrow> version_snapshot \<Rightarrow> string \<Rightarrow> string
     \<Rightarrow> string res" where
  "admit valid_email sha e gdb send run snapshot recipient recipient_hash =
     res_bind (enforce_suppression gdb (ru_tenant_id run) recipient ''MARKETING'' (Some (ru_campaign_id run))) (\<lambda>_.
     (let sandbox = (lower (env_get e ''KLYROW_CAMPAIGN_DISPATCHER_SANDBOX'' ''true'') = ''true'')
      in if \<not> sandbox \<and> lower (env_get e ''KLYROW_CAMPAIGN_DISPATCHER_ALLOW_LIVE'' ''false'') \<noteq> ''true''
         then Inl (HTTPException 503 ''campaign_live_delivery_not_authorized'')
         else res_bind (ProviderMailIn valid_email e (vs_sender snapshot) recipient (vs_subject snapshot)
                  (nonempty (vs_html_body snapshot)) (nonempty (vs_text_body snapshot))
                  ''MARKETING'' sandbox) (\<lambda>payload.
           let key = ru_campaign_id run @ '':'' @ int_to_string (ru_campaign_version run) @ '':'' @ recipient_hash
           in send payload (''campaign:'' @ key) (''cmpmsg_'' @ take 32 (sha key)))))"

text \<open>The state, message and error that the outcome gives the item; other exceptions propagate.\<close>

definition classify_admission :: "string res \<Rightarrow> (string \<times> string option \<times> string option) res" where
  "classify_admission r =
     (case r of
        Inr message_id \<Rightarrow> Inr (''DELIVERED'', Some message_id, None)
      | Inl (HTTPException status detail) \<Rightarrow>
          (let label = ''message_admission_'' @ int_to_string (int status)
           in if status = 422 \<and> detail \<in> {''recipient_suppressed'', ''marketing_consent_required''}
              then Inr (''SUPPRESSED'', None, Some detail)
              else if status \<in> {408, 429, 500, 502, 503, 504}
              then Inr (''RETRYING'', None, Some label)
              else Inr (''FAILED'', None, Some label))
      | Inl x \<Rightarrow> Inl x)"

definition holds_item :: "string \<Rightarrow> string \<Rightarrow> int \<Rightarrow> item_row \<Rightarrow> bool" where
  "holds_item item_id owner fence i \<longleftrightarrow> it_id i = item_id \<and> it_state i = ''LEASED'' \<and>
     it_lease_owner i = Some owner \<and> it_fence_token i = Some fence"

definition close_item ::
  "int \<Rightarrow> string \<Rightarrow> string option \<Rightarrow> string option \<Rightarrow> item_row \<Rightarrow> item_row" where
  "close_item current state message_id error i =
     i\<lparr>it_state := state, it_message_id := message_id, it_last_error := error,
       it_lease_owner := None, it_fence_token := None,
       it_next_attempt_at := (if state = ''RETRYING''
         then current + min 900 (2 ^ nat (it_attempt_count i)) * 1000000 else it_next_attempt_at i)\<rparr>"

definition mark_result ::
  "int \<Rightarrow> string \<Rightarrow> string \<Rightarrow> int \<Rightarrow> string \<times> string option \<times> string option \<Rightarrow> campaign_db
     \<Rightarrow> campaign_db \<times> bool" where
  "mark_result current item_id owner fence outcome db =
     (case outcome of (state, message_id, error) \<Rightarrow>
        (case find_row (holds_item item_id owner fence) (cg_items db) of
           None \<Rightarrow> (db, False)
         | Some i \<Rightarrow> (set_items (\<lambda>j. it_id j = it_id i) (close_item current state message_id error) db, True)))"

definition holds_run :: "run_row \<Rightarrow> run_row \<Rightarrow> bool" where
  "holds_run held r \<longleftrightarrow> ru_id r = ru_id held \<and> ru_state r = ''RUNNING'' \<and>
     ru_lease_owner r = ru_lease_owner held \<and> ru_fence_token r = ru_fence_token held"

definition deliver_item ::
  "int \<Rightarrow> (string \<Rightarrow> string \<Rightarrow> string res) \<Rightarrow> run_row \<Rightarrow> string \<times> string \<times> string \<Rightarrow> campaign_db
     \<Rightarrow> (campaign_db \<times> bool) res" where
  "deliver_item current admission run leased db =
     (case leased of (item_id, recipient, recipient_hash) \<Rightarrow>
        (case find_row (holds_run run) (cg_runs db) of
           None \<Rightarrow> Inr (db, False)
         | Some _ \<Rightarrow>
             res_bind (classify_admission (admission recipient recipient_hash)) (\<lambda>outcome.
               Inr (mark_result current item_id (the (ru_lease_owner run)) (ru_fence_token run) outcome db))))"

fun deliver_each ::
  "int \<Rightarrow> (string \<Rightarrow> string \<Rightarrow> string res) \<Rightarrow> run_row \<Rightarrow> (string \<times> string \<times> string) list \<Rightarrow> nat \<Rightarrow> campaign_db
     \<Rightarrow> campaign_db \<times> nat res" where
  "deliver_each current admission run [] processed db = (db, Inr processed)"
| "deliver_each current admission run (x # xs) processed db =
     (case deliver_item current admission run x db of
        Inl ex \<Rightarrow> (db, Inl ex)
      | Inr (db', ok) \<Rightarrow> deliver_each current admission run xs (if ok then processed + 1 else processed) db')"

definition remaining_items :: "campaign_db \<Rightarrow> run_row \<Rightarrow> nat" where
  "remaining_items db run =
     count_rows (\<lambda>i. of_run run i \<and> it_state i \<in> {''PENDING'', ''LEASED'', ''RETRYING''}) (cg_items db)"

definition finish_run ::
  "codec \<Rightarrow> draws \<Rightarrow> (string \<Rightarrow> string) \<Rightarrow> run_row \<Rightarrow> campaign_db \<Rightarrow> campaign_db res" where
  "finish_run c dw uuid5_hex held db =
     (case find_row (holds_run held) (cg_runs db) of
        None \<Rightarrow> Inr db
      | Some run \<Rightarrow>
          (if 0 < remaining_items db held
           then Inr (set_run (ru_id run) (\<lambda>r. r\<lparr>ru_lease_owner := None, ru_lease_expires_at := None,
                  ru_state := ''RETRYING'', ru_next_attempt_at := dw_now dw + 2 * 1000000\<rparr>) db)
           else summary_event c dw uuid5_hex run ''COMPLETED''
             (db\<lparr>cg_runs := update_rows (\<lambda>r. ru_id r = ru_id run) (\<lambda>r. r\<lparr>ru_lease_owner := None,
                    ru_lease_expires_at := None, ru_state := ''COMPLETED'',
                    ru_completed_at := Some (dw_now dw)\<rparr>) (cg_runs db),
                 cg_campaigns := update_rows (\<lambda>c. ca_id c = ru_campaign_id held \<and>
                      ca_tenant_id c = ru_tenant_id held)
                    (\<lambda>c. c\<lparr>ca_status := ''completed'', ca_scheduled_at := None\<rparr>) (cg_campaigns db)\<rparr>)))"

definition lease_setting :: "env \<Rightarrow> int res" where
  "lease_setting e =
     (case int_of_string (env_get e ''KLYROW_CAMPAIGN_DISPATCH_LEASE_SECONDS'' ''120'') of
        None \<Rightarrow> Inl (ValueError ''invalid literal for int()'')
      | Some s \<Rightarrow> if 10 \<le> s \<and> s \<le> 3600 then Inr s
                   else Inl (ValueError ''invalid_campaign_dispatch_lease''))"

definition dispatch_campaigns ::
  "codec \<Rightarrow> draws \<Rightarrow> (string \<Rightarrow> string) \<Rightarrow> env \<Rightarrow> (string \<Rightarrow> bool) \<Rightarrow> string
     \<Rightarrow> (run_row \<Rightarrow> version_snapshot \<Rightarrow> string \<Rightarrow> string \<Rightarrow> string res) \<Rightarrow> int \<Rightarrow> campaign_db
     \<Rightarrow> campaign_db \<times> nat res" where
  "dispatch_campaigns c dw uuid5_hex e locked owner admission limit db =
     (if \<not> dispatcher_enabled e then (db, Inr 0)
      else if \<not> (1 \<le> limit \<and> limit \<le> 500) then (db, Inl (ValueError ''invalid_campaign_dispatch_limit''))
      else case lease_setting e of
        Inl x \<Rightarrow> (db, Inl x)
      | Inr lease_seconds \<Rightarrow>
      (case claim_run (dw_now dw) locked lease_seconds owner db of
        (_, None) \<Rightarrow> (db, Inr 0)
      | (db1, Some run) \<Rightarrow>
      (case lease_items (dw_now dw) locked (nat limit) run db1 of
        (db2, None) \<Rightarrow> (db2, Inr 0)
      | (db2, Some (snapshot, leased)) \<Rightarrow>
      (case deliver_each (dw_now dw) (admission run snapshot) run leased 0 db2 of
        (db3, Inl x) \<Rightarrow> (db3, Inl x)
      | (db3, Inr processed) \<Rightarrow>
      (case finish_run c dw uuid5_hex run db3 of
        Inl x \<Rightarrow> (db3, Inl x)
      | Inr db4 \<Rightarrow> (db4, Inr processed))))))"

section \<open>The dispatcher as a system of operations\<close>

text \<open>
  Requests and dispatchers interleave transaction by transaction. A commit that would duplicate an
  item, a run or a campaign's run violates a constraint of the schema and is refused. The row that a
  request or a dispatcher works on is the one it read before, so it is an argument.
\<close>

datatype camp_op =
    OpSchedule "profile_row \<Rightarrow> json \<Rightarrow> bool res" "string \<Rightarrow> string" env "string \<Rightarrow> string" int campaign_row int
  | OpPause int campaign_row
  | OpResume int campaign_row
  | OpCancel codec draws "string \<Rightarrow> string" campaign_row
  | OpClaimRun int "string \<Rightarrow> bool" int string
  | OpLeaseItems int "string \<Rightarrow> bool" nat run_row
  | OpDeliver int "string \<Rightarrow> string \<Rightarrow> string res" run_row "string \<times> string \<times> string"
  | OpFinish codec draws "string \<Rightarrow> string" run_row

definition camp_inv :: "campaign_db \<Rightarrow> bool" where
  "camp_inv db \<longleftrightarrow> distinct (map it_id (cg_items db)) \<and> distinct (map ru_id (cg_runs db)) \<and>
     distinct (map ru_campaign_id (cg_runs db))"

definition commit_campaign :: "campaign_db \<Rightarrow> campaign_db res \<Rightarrow> campaign_db" where
  "commit_campaign db r =
     (case r of Inl _ \<Rightarrow> db | Inr db' \<Rightarrow> if camp_inv db' then db' else db)"

fun camp_step :: "camp_op \<Rightarrow> campaign_db \<Rightarrow> campaign_db" where
  "camp_step (OpSchedule matches sha e fresh current campaign due_at) db =
     commit_campaign db (res_bind (schedule_campaign matches sha e fresh current campaign due_at db)
       (\<lambda>r. Inr (snd r)))"
| "camp_step (OpPause current campaign) db = commit_campaign db (pause_campaign current campaign db)"
| "camp_step (OpResume current campaign) db = commit_campaign db (resume_campaign current campaign db)"
| "camp_step (OpCancel c dw h campaign) db = commit_campaign db (cancel_campaign c dw h campaign db)"
| "camp_step (OpClaimRun current locked s owner) db =
     commit_campaign db (Inr (fst (claim_run current locked s owner db)))"
| "camp_step (OpLeaseItems current locked limit run) db =
     commit_campaign db (Inr (fst (lease_items current locked limit run db)))"
| "camp_step (OpDeliver current admission run x) db =
     commit_campaign db (res_bind (deliver_item current admission run x db) (\<lambda>r. Inr (fst r)))"
| "camp_step (OpFinish c dw h run) db = commit_campaign db (finish_run c dw h run db)"

section \<open>Lemmas\<close>

definition item_settled :: "item_row \<Rightarrow> bool" where
  "item_settled i \<longleftrightarrow> it_state i \<in> {''DELIVERED'', ''SUPPRESSED'', ''FAILED'', ''CANCELLED''}"

definition item_outcome :: "item_row \<Rightarrow> (string \<times> string option) \<times> string \<times> int \<times> string" where
  "item_outcome i = ((it_state i, it_message_id i), it_campaign_id i, it_campaign_version i, it_recipient_hash i)"

definition item_le :: "item_row \<Rightarrow> item_row \<Rightarrow> bool" where
  "item_le i j \<longleftrightarrow> it_id j = it_id i \<and> snd (item_outcome j) = snd (item_outcome i) \<and>
     (item_settled i \<longrightarrow> item_outcome j = item_outcome i)"

definition run_le :: "run_row \<Rightarrow> run_row \<Rightarrow> bool" where
  "run_le r s \<longleftrightarrow> ru_id s = ru_id r \<and> ru_campaign_id s = ru_campaign_id r \<and>
     ru_campaign_version s = ru_campaign_version r \<and> ru_tenant_id s = ru_tenant_id r \<and>
     ru_fence_token r \<le> ru_fence_token s"

interpretation items: row_order item_le it_id
  by unfold_locales (auto simp: item_le_def item_settled_def item_outcome_def)

interpretation runs: row_order run_le ru_id
  by unfold_locales (auto simp: run_le_def)

definition camp_grows :: "campaign_db \<Rightarrow> campaign_db \<Rightarrow> bool" where
  "camp_grows db db' \<longleftrightarrow> grows item_le (cg_items db) (cg_items db') \<and> grows run_le (cg_runs db) (cg_runs db')"

lemma camp_grows_refl: "camp_grows db db"
  by (simp add: camp_grows_def items.grows_refl runs.grows_refl)

lemma camp_grows_trans: "camp_grows a b \<Longrightarrow> camp_grows b c \<Longrightarrow> camp_grows a c"
  by (auto simp: camp_grows_def intro: items.grows_trans runs.grows_trans)

lemma set_fields [simp]:
  "cg_items (set_campaign cid f db) = cg_items db" "cg_runs (set_campaign cid f db) = cg_runs db"
  "cg_items (set_run rid g db) = cg_items db" "cg_runs (set_items P h db) = cg_runs db"
  "cg_events (set_items P h db) = cg_events db" "cg_events (set_run rid g db) = cg_events db"
  by (simp_all add: set_campaign_def set_run_def set_items_def)

lemma set_run_rows: "cg_runs (set_run rid f db) = update_rows (\<lambda>r. ru_id r = rid) f (cg_runs db)"
  by (simp add: set_run_def)

lemma set_items_rows: "cg_items (set_items P f db) = update_rows P f (cg_items db)"
  by (simp add: set_items_def)

lemma camp_grows_campaign: "camp_grows db (set_campaign cid f db')  \<longleftrightarrow> camp_grows db db'"
  by (simp add: camp_grows_def)

lemma camp_grows_run: "(\<And>r. run_le r (f r)) \<Longrightarrow> camp_grows db (set_run rid f db)"
  by (simp add: camp_grows_def items.grows_refl set_run_rows runs.grows_update)

lemma camp_grows_items:
  "(\<And>i. i \<in> set (cg_items db) \<Longrightarrow> P i \<Longrightarrow> item_le i (f i)) \<Longrightarrow> camp_grows db (set_items P f db)"
  by (simp add: camp_grows_def runs.grows_refl set_items_rows items.grows_update)

lemma item_le_open:
  "\<not> item_settled i \<Longrightarrow> it_id j = it_id i \<Longrightarrow> snd (item_outcome j) = snd (item_outcome i) \<Longrightarrow> item_le i j"
  by (simp add: item_le_def)

lemma summary_event_tables:
  "summary_event c dw h run status db = Inr db' \<Longrightarrow>
     cg_items db' = cg_items db \<and> cg_runs db' = cg_runs db \<and> cg_snapshots db' = cg_snapshots db"
  by (auto simp: summary_event_def res_bind_Inr)

lemma camp_grows_tables:
  "cg_items db' = cg_items db'' \<Longrightarrow> cg_runs db' = cg_runs db'' \<Longrightarrow> camp_grows db db' = camp_grows db db''"
  by (simp add: camp_grows_def)

lemma schedule_cases:
  assumes "schedule_campaign matches sha e fresh t campaign due_at db = Inr res"
  shows "(\<exists>x. find_row (\<lambda>r. ru_campaign_id r = ca_id campaign) (cg_runs db) = Some x \<and> res = (x, db)) \<or>
    find_row (\<lambda>r. ru_campaign_id r = ca_id campaign) (cg_runs db) = None \<and>
    (\<exists>recipients sender template version. audience matches campaign db = Inr recipients \<and>
       res = start_run sha fresh t campaign due_at sender template version recipients db)"
  using assms unfolding schedule_campaign_def res_bind_Inr
  by (auto simp: res_bind_Inr simp del: insert_iff split: if_splits option.splits)

lemma start_run_rows:
  assumes "start_run sha fresh t campaign due_at sender template version recipients db = (run, db')"
  shows "cg_items db' = cg_items db @ map (item_of campaign sha fresh due_at t) recipients"
    and "cg_audiences db' = cg_audiences db @ map (audience_of campaign sha fresh) recipients"
    and "cg_runs db' = cg_runs db @ [run]" and "ru_state run = ''SCHEDULED''"
  using assms by (auto simp: start_run_def Let_def)

lemma schedule_grows:
  assumes "schedule_campaign matches sha e fresh t campaign due_at db = Inr (run, db')"
  shows "camp_grows db db'"
  using schedule_cases [OF assms]
proof
  assume "find_row (\<lambda>r. ru_campaign_id r = ca_id campaign) (cg_runs db) = None \<and>
    (\<exists>recipients sender template version. audience matches campaign db = Inr recipients \<and>
       (run, db') = start_run sha fresh t campaign due_at sender template version recipients db)"
  then obtain recipients sender template version where
    "start_run sha fresh t campaign due_at sender template version recipients db = (run, db')" by metis
  from start_run_rows [OF this] show ?thesis
    by (simp add: camp_grows_def items.grows_append runs.grows_append)
qed (auto simp: camp_grows_refl)

lemma release_item_le: "it_state i = ''LEASED'' \<Longrightarrow> item_le i (release_item t i)"
  by (rule item_le_open) (auto simp: item_settled_def release_item_def item_outcome_def)

lemma release_leased_grows:
  "camp_grows a db \<Longrightarrow> camp_grows a (set_items (leased_item cid) (release_item t) db)"
  by (rule camp_grows_trans, assumption, rule camp_grows_items)
     (auto simp: leased_item_def intro: release_item_le)

lemma pause_grows: "pause_campaign t campaign db = Inr db' \<Longrightarrow> camp_grows db db'"
  by (auto simp: pause_campaign_def camp_grows_campaign split: option.splits if_splits
      intro!: release_leased_grows camp_grows_run simp: run_le_def)

lemma resume_grows: "resume_campaign t campaign db = Inr db' \<Longrightarrow> camp_grows db db'"
  by (auto simp: resume_campaign_def camp_grows_campaign split: option.splits if_splits
      intro!: camp_grows_run simp: run_le_def)

lemma cancel_grows:
  assumes "cancel_campaign c dw h campaign db = Inr db'"
  shows "camp_grows db db'"
proof -
  let ?db1 = "set_campaign (ca_id campaign) (\<lambda>c. c\<lparr>ca_status := ''cancelled'', ca_scheduled_at := None\<rparr>) db"
  have base: "camp_grows db ?db1" by (simp add: camp_grows_campaign camp_grows_refl)
  show ?thesis
  proof (cases "campaign_run campaign db")
    case None
    then show ?thesis using assms base by (simp add: cancel_campaign_def Let_def)
  next
    case (Some run)
    let ?mid = "set_run (ru_id run) (\<lambda>r. r\<lparr>ru_state := ''CANCELLED'', ru_completed_at := Some (dw_now dw),
           ru_lease_owner := None, ru_lease_expires_at := None\<rparr>) ?db1"
    let ?db2 = "set_items (open_item (ca_id campaign))
        (\<lambda>i. i\<lparr>it_state := ''CANCELLED'', it_lease_owner := None, it_fence_token := None\<rparr>)
        ?mid"
    have "camp_grows ?db1 ?mid" by (rule camp_grows_run) (simp add: run_le_def)
    moreover have "camp_grows ?mid ?db2"
      by (rule camp_grows_items) (auto simp: open_item_def item_settled_def item_outcome_def intro!: item_le_open)
    ultimately have "camp_grows ?db1 ?db2" by (rule camp_grows_trans)
    with base have two: "camp_grows db ?db2" by (rule camp_grows_trans)
    show ?thesis
    proof (cases "ru_state run \<in> {''COMPLETED'', ''CANCELLED''}")
      case False
      then have "summary_event c dw h run ''CANCELLED'' ?db2 = Inr db'"
        using assms Some by (simp add: cancel_campaign_def Let_def)
      from summary_event_tables [OF this] two show ?thesis
        using camp_grows_tables by blast
    qed (use assms base Some in \<open>auto simp: cancel_campaign_def Let_def\<close>)
  qed
qed

lemma release_expired_grows: "camp_grows db (release_expired t locked db)"
  by (auto simp: release_expired_def camp_grows_refl split: list.splits
      intro!: release_leased_grows camp_grows_run simp: run_le_def)

lemma claim_run_grows: "camp_grows db (fst (claim_run t locked s owner db))"
proof -
  have "camp_grows db (set_run rid (take_run t s owner) (release_expired t locked db))" for rid
    by (rule camp_grows_trans [OF release_expired_grows camp_grows_run]) (simp add: take_run_def run_le_def)
  then show ?thesis by (simp add: claim_run_def Let_def camp_grows_refl split: list.split)
qed

lemma item_by_id:
  "distinct (map it_id xs) \<Longrightarrow> i \<in> set xs \<Longrightarrow> j \<in> set xs \<Longrightarrow> it_id i = it_id j \<Longrightarrow> i = j"
  by (auto simp: distinct_map inj_on_def)

lemma lease_items_grows:
  assumes "camp_inv db"
  shows "camp_grows db (fst (lease_items t locked limit run db))"
proof -
  let ?sel = "select_rows (\<lambda>i. (it_created_at i, it_id i)) (item_due run t locked) limit (cg_items db)"
  have "item_le i (lease_item db run i)"
    if i: "i \<in> set (cg_items db)" "it_id i \<in> set (map it_id ?sel)" for i
  proof -
    obtain j where j: "j \<in> set ?sel" "it_id i = it_id j" using i(2) by auto
    have "j \<in> set (cg_items db) \<and> item_due run t locked j" using j(1) by (rule select_rows_in)
    then have "item_due run t locked i"
      using item_by_id [OF _ i(1) _ j(2)] assms by (auto simp: camp_inv_def)
    then show ?thesis
      by (intro item_le_open) (auto simp: item_due_def item_settled_def lease_item_def item_outcome_def)
  qed
  then show ?thesis
    by (auto simp: lease_items_def Let_def run_le_def split: option.splits
        intro!: camp_grows_run camp_grows_items simp del: set_map)
qed

lemma holds_item_update:
  assumes "camp_inv db" and "find_row (holds_item k owner fence) (cg_items db) = Some i"
  shows "camp_grows db (set_items (\<lambda>j. it_id j = it_id i) (close_item t st m er) db)"
proof (rule camp_grows_items)
  fix j assume j: "j \<in> set (cg_items db)" "it_id j = it_id i"
  have i: "i \<in> set (cg_items db)" "holds_item k owner fence i" using find_row_Some [OF assms(2)] by simp_all
  have "j = i" using item_by_id [OF _ j(1) i(1) j(2)] assms(1) by (simp add: camp_inv_def)
  then show "item_le j (close_item t st m er j)"
    using i(2) by (intro item_le_open) (auto simp: holds_item_def item_settled_def close_item_def item_outcome_def)
qed

lemma deliver_item_grows:
  assumes "camp_inv db" and "deliver_item t admission run x db = Inr (db', ok)"
  shows "camp_grows db db'"
  using assms(2) holds_item_update [OF assms(1)]
  by (auto simp: deliver_item_def mark_result_def res_bind_Inr camp_grows_refl
      split: prod.splits option.splits)

lemma finish_run_grows:
  assumes "finish_run c dw h held db = Inr db'"
  shows "camp_grows db db'"
proof (cases "find_row (holds_run held) (cg_runs db)")
  case None
  then show ?thesis using assms by (simp add: finish_run_def camp_grows_refl)
next
  case (Some run)
  show ?thesis
  proof (cases "0 < remaining_items db held")
    case True
    then show ?thesis using assms Some
      by (auto simp: finish_run_def run_le_def intro!: camp_grows_run)
  next
    case False
    then have "cg_items db' = cg_items db \<and> cg_runs db' = update_rows (\<lambda>r. ru_id r = ru_id run)
        (\<lambda>r. r\<lparr>ru_lease_owner := None, ru_lease_expires_at := None, ru_state := ''COMPLETED'',
             ru_completed_at := Some (dw_now dw)\<rparr>) (cg_runs db)"
      using assms Some by (auto simp: finish_run_def dest!: summary_event_tables)
    then show ?thesis by (auto simp: camp_grows_def items.grows_refl run_le_def intro!: runs.grows_update)
  qed
qed

lemma commit_campaign_grows:
  "(\<And>db'. r = Inr db' \<Longrightarrow> camp_grows db db') \<Longrightarrow> camp_grows db (commit_campaign db r)"
  by (cases r) (auto simp: commit_campaign_def camp_grows_refl)

lemma camp_step_grows:
  assumes "camp_inv db"
  shows "camp_grows db (camp_step op db)"
  by (cases op)
     (auto simp: res_bind_Inr intro!: commit_campaign_grows claim_run_grows lease_items_grows [OF assms]
       dest: schedule_grows pause_grows resume_grows cancel_grows deliver_item_grows [OF assms]
         finish_run_grows)

lemma camp_step_inv: "camp_inv db \<Longrightarrow> camp_inv (camp_step op db)"
  by (cases op) (auto simp: commit_campaign_def split: sum.splits)

definition get_item :: "campaign_db \<Rightarrow> string \<Rightarrow> item_row option" where
  "get_item db k = find_row (\<lambda>i. it_id i = k) (cg_items db)"

definition get_run :: "campaign_db \<Rightarrow> string \<Rightarrow> run_row option" where
  "get_run db k = find_row (\<lambda>r. ru_id r = k) (cg_runs db)"

interpretation campaign: settled_rows camp_step camp_inv get_item item_settled item_outcome
proof unfold_locales
  fix s op assume "camp_inv s" then show "camp_inv (camp_step op s)" by (rule camp_step_inv)
next
  fix s k r op assume a: "camp_inv s" "get_item s k = Some r" "item_settled r"
  have "grows item_le (cg_items s) (cg_items (camp_step op s))"
    using camp_step_grows [OF a(1)] by (simp add: camp_grows_def)
  from items.grows_find [OF this] a(2,3)
  show "\<exists>r'. get_item (camp_step op s) k = Some r' \<and> item_settled r' \<and> item_outcome r' = item_outcome r"
    by (fastforce simp: get_item_def item_le_def item_settled_def item_outcome_def)
qed

lemma run_tokens_grow:
  "camp_inv db \<Longrightarrow> get_run db k = Some r \<Longrightarrow>
     \<exists>r'. get_run (run_ops camp_step ops db) k = Some r' \<and> run_le r r'"
proof (induction ops arbitrary: db r)
  case (Cons op ops)
  have "grows run_le (cg_runs db) (cg_runs (camp_step op db))"
    using camp_step_grows [OF Cons.prems(1)] by (simp add: camp_grows_def)
  from runs.grows_find [OF this] Cons.prems(2) obtain s where
    s: "get_run (camp_step op db) k = Some s" "run_le r s" by (auto simp: get_run_def)
  from Cons.IH [OF camp_step_inv [OF Cons.prems(1)] s(1)] s(2) show ?case
    by (auto intro: runs.ok_trans)
qed (auto simp: runs.ok_refl)

lemma holds_run_stale:
  assumes "distinct (map ru_id (cg_runs db))" and "get_run db (ru_id held) = Some r"
    and "ru_state r \<noteq> ''RUNNING'' \<or> ru_fence_token r \<noteq> ru_fence_token held"
  shows "find_row (holds_run held) (cg_runs db) = None"
proof -
  have r: "r \<in> set (cg_runs db)" "ru_id r = ru_id held"
    using find_row_Some [OF assms(2) [unfolded get_run_def]] by simp_all
  have "\<not> holds_run held s" if "s \<in> set (cg_runs db)" for s
  proof
    assume h: "holds_run held s"
    then have "s = r" using that r assms(1) by (auto simp: holds_run_def distinct_map inj_on_def)
    with h assms(3) show False by (simp add: holds_run_def)
  qed
  then show ?thesis by (simp add: find_row_None)
qed

lemma count_split:
  "count_rows P xs = count_rows (\<lambda>x. P x \<and> Q x) xs + count_rows (\<lambda>x. P x \<and> \<not> Q x) xs"
  by (induction xs) (auto simp: count_rows_def)

lemma count_cong: "(\<And>x. x \<in> set xs \<Longrightarrow> P x = Q x) \<Longrightarrow> count_rows P xs = count_rows Q xs"
  by (simp add: count_rows_def cong: filter_cong)

subsection \<open>A lease without a holder\<close>

lemma get_item_set_items:
  assumes "\<And>j. it_id (f j) = it_id j"
  shows "get_item (set_items P f db) k = map_option (\<lambda>j. if P j then f j else j) (get_item db k)"
  using assms by (simp add: get_item_def set_items_rows find_update_rows [where key = it_id])

lemma get_run_set_run:
  assumes "\<And>r. ru_id (f r) = ru_id r"
  shows "get_run (set_run rid f db) k = map_option (\<lambda>r. if ru_id r = rid then f r else r) (get_run db k)"
  using assms by (simp add: get_run_def set_run_rows find_update_rows [where key = ru_id])

lemma get_frames [simp]:
  "get_item (set_run rid f db) k = get_item db k" "get_run (set_items P h db) k = get_run db k"
  "get_item (set_campaign cid g db) k = get_item db k" "get_run (set_campaign cid g db) k = get_run db k"
  "cg_snapshots (set_run rid f db) = cg_snapshots db" "cg_snapshots (set_items P h db) = cg_snapshots db"
  by (simp_all add: get_item_def get_run_def set_run_def set_items_def set_campaign_def)

lemma camp_inv_set_items:
  "(\<And>j. it_id (f j) = it_id j) \<Longrightarrow> camp_inv (set_items P f db) = camp_inv db"
  by (simp add: camp_inv_def set_items_rows map_update_rows)

lemma camp_inv_set_run:
  "(\<And>r. ru_id (f r) = ru_id r) \<Longrightarrow> (\<And>r. ru_campaign_id (f r) = ru_campaign_id r) \<Longrightarrow>
     camp_inv (set_run rid f db) = camp_inv db"
  by (simp add: camp_inv_def set_run_rows map_update_rows)

definition run_snapshot :: "campaign_db \<Rightarrow> run_row \<Rightarrow> version_snapshot option" where
  "run_snapshot db run = find_row (\<lambda>v. vs_campaign_id v = ru_campaign_id run \<and>
     vs_campaign_version v = ru_campaign_version run \<and> vs_tenant_id v = ru_tenant_id run) (cg_snapshots db)"

text \<open>
  An item that is leased while its run is waiting to be claimed: nobody holds the lease.
\<close>

definition orphan :: "campaign_db \<Rightarrow> item_row \<Rightarrow> run_row \<Rightarrow> bool" where
  "orphan db i r \<longleftrightarrow> camp_inv db \<and> get_item db (it_id i) = Some i \<and> it_state i = ''LEASED'' \<and>
     get_run db (ru_id r) = Some r \<and> of_run r i \<and> run_snapshot db r \<noteq> None"

lemma orphan_release_expired:
  assumes "orphan db i r" and "ru_state r \<noteq> ''RUNNING''"
  shows "orphan (release_expired t locked db) i r"
proof (cases "select_rows ru_scheduled_at (run_expired t locked) 1 (cg_runs db)")
  case Nil
  then show ?thesis using assms by (simp add: release_expired_def)
next
  case (Cons x xs)
  have x: "x \<in> set (cg_runs db)" "ru_state x = ''RUNNING''"
    using select_rows_in [of x ru_scheduled_at "run_expired t locked" 1 "cg_runs db"] Cons
    by (auto simp: run_expired_def)
  have r: "r \<in> set (cg_runs db)"
    using assms(1) find_row_Some [of _ "cg_runs db" r] by (auto simp: orphan_def get_run_def)
  have "x \<noteq> r" using x(2) assms(2) by auto
  then have "ru_campaign_id x \<noteq> ru_campaign_id r" "ru_id x \<noteq> ru_id r"
    using assms(1) x(1) r by (auto simp: orphan_def camp_inv_def distinct_map inj_on_def)
  then have "\<not> leased_item (ru_campaign_id x) i" "ru_id r \<noteq> ru_id x"
    using assms(1) by (auto simp: orphan_def of_run_def leased_item_def)
  then show ?thesis using assms(1) Cons
    by (simp add: release_expired_def orphan_def camp_inv_set_items camp_inv_set_run get_item_set_items
        get_run_set_run release_item_def run_snapshot_def)
qed

lemma orphan_set_run:
  assumes "orphan db i r" and "\<And>x. run_le x (f x)"
  shows "orphan (set_run rid f db) i (if ru_id r = rid then f r else r)"
proof -
  have "ru_id (f x) = ru_id x \<and> ru_campaign_id (f x) = ru_campaign_id x \<and>
      ru_campaign_version (f x) = ru_campaign_version x \<and> ru_tenant_id (f x) = ru_tenant_id x" for x
    using assms(2) by (simp add: run_le_def)
  then show ?thesis using assms(1)
    by (cases "ru_id r = rid")
       (auto simp: orphan_def camp_inv_set_run get_run_set_run run_snapshot_def of_run_def)
qed

lemma orphan_set_items:
  assumes "orphan db i r" and "\<not> P i" and "\<And>j. it_id (f j) = it_id j"
  shows "orphan (set_items P f db) i r"
  using assms by (simp add: orphan_def camp_inv_set_items get_item_set_items run_snapshot_def)

lemma orphan_lease_items:
  assumes "orphan db i r" and "ru_state r \<noteq> ''RUNNING'' \<longrightarrow> ru_id run \<noteq> ru_id r"
    and "run_le r run \<or> ru_id run \<noteq> ru_id r"
    and "lease_items t locked limit run db = (db', Some (snapshot, leased))"
  shows "orphan db' i r" and "it_id i \<notin> fst ` set leased"
proof -
  let ?sel = "select_rows (\<lambda>i. (it_created_at i, it_id i)) (item_due run t locked) limit (cg_items db)"
  have i: "i \<in> set (cg_items db)"
    using assms(1) find_row_Some [of _ "cg_items db" i] by (auto simp: orphan_def get_item_def)
  have out: "it_id i \<notin> it_id ` set ?sel"
  proof
    assume "it_id i \<in> it_id ` set ?sel"
    then obtain j where j: "j \<in> set ?sel" "it_id i = it_id j" by auto
    have "j \<in> set (cg_items db) \<and> item_due run t locked j" using j(1) by (rule select_rows_in)
    then have "item_due run t locked i" using item_by_id [OF _ i _ j(2)] assms(1)
      by (auto simp: orphan_def camp_inv_def)
    with assms(1) show False by (simp add: item_due_def orphan_def)
  qed
  have d: "db' = set_items (\<lambda>i. it_id i \<in> set (map it_id ?sel)) (lease_item db run) db"
    "leased = List.map_filter (\<lambda>i. map_option (\<lambda>a. (it_id i, ad_recipient a, it_recipient_hash i))
       (item_audience db run i)) ?sel"
    using assms(4) by (auto simp: lease_items_def Let_def split: option.splits)
  show "orphan db' i r" unfolding d(1)
    by (rule orphan_set_items [OF assms(1)]) (use out in \<open>simp_all add: lease_item_def\<close>)
  show "it_id i \<notin> fst ` set leased" using out
    by (auto simp: d(2) List.map_filter_def)
qed

lemma mark_result_cases:
  assumes "mark_result t k owner fence outcome db = (db', ok)"
  shows "db' = db \<or> (\<exists>st m er. db' = set_items (\<lambda>l. it_id l = k) (close_item t st m er) db)"
proof (cases "find_row (holds_item k owner fence) (cg_items db)")
  case None
  then show ?thesis using assms by (cases outcome) (simp add: mark_result_def)
next
  case (Some j)
  then have "it_id j = k" using find_row_Some [OF Some] by (simp add: holds_item_def)
  then show ?thesis using assms Some by (cases outcome) (auto simp: mark_result_def)
qed

lemma deliver_item_result:
  assumes "deliver_item t admission run x db = Inr (db', ok)"
  shows "db' = db \<or> (\<exists>st m er. db' = set_items (\<lambda>l. it_id l = fst x) (close_item t st m er) db)"
proof (cases "find_row (holds_run run) (cg_runs db)")
  case None
  then show ?thesis using assms by (cases x) (simp add: deliver_item_def)
next
  case (Some y)
  obtain k a h where x: "x = (k, a, h)" by (cases x)
  obtain outcome where "mark_result t k (the (ru_lease_owner run)) (ru_fence_token run) outcome db = (db', ok)"
    using assms Some x by (auto simp: deliver_item_def res_bind_Inr)
  from mark_result_cases [OF this] x show ?thesis by simp
qed

lemma orphan_deliver_each:
  "orphan db i r \<Longrightarrow> it_id i \<notin> fst ` set xs \<Longrightarrow> deliver_each t admission run xs n db = (db', res) \<Longrightarrow>
     orphan db' i r"
proof (induction xs arbitrary: n db)
  case (Cons x xs)
  show ?case
  proof (cases "deliver_item t admission run x db")
    case (Inl e)
    then show ?thesis using Cons.prems by simp
  next
    case (Inr y)
    obtain db1 ok where y: "y = (db1, ok)" by (cases y)
    have "\<not> it_id i = fst x" using Cons.prems(2) by simp
    then have "orphan db1 i r"
      using deliver_item_result [OF Inr [unfolded y]] Cons.prems(1)
        orphan_set_items [OF Cons.prems(1), of "\<lambda>l. it_id l = fst x"]
      by (auto simp: close_item_def)
    then show ?thesis using Cons.IH Cons.prems(2,3) Inr y by auto
  qed
qed simp

lemma orphan_tables:
  "orphan db i r \<Longrightarrow> cg_items db' = cg_items db \<Longrightarrow> cg_runs db' = cg_runs db \<Longrightarrow>
     cg_snapshots db' = cg_snapshots db \<Longrightarrow> orphan db' i r"
  by (simp add: orphan_def camp_inv_def get_item_def get_run_def run_snapshot_def)

lemma orphan_finish_other:
  assumes "orphan db i r" and "finish_run c dw h held db = Inr db'" and "ru_id held \<noteq> ru_id r"
  shows "orphan db' i r"
proof (cases "find_row (holds_run held) (cg_runs db)")
  case None
  then show ?thesis using assms(1,2) by (simp add: finish_run_def)
next
  case (Some run)
  then have other: "ru_id r \<noteq> ru_id run" using find_row_Some [OF Some] assms(3) by (simp add: holds_run_def)
  have set: "orphan (set_run (ru_id run) f db) i r" if "\<And>x. run_le x (f x)" for f
    using orphan_set_run [OF assms(1), of f "ru_id run"] that other by simp
  show ?thesis
  proof (cases "0 < remaining_items db held")
    case True
    then show ?thesis using assms(2) Some by (auto simp: finish_run_def run_le_def intro!: set)
  next
    case False
    let ?f = "\<lambda>r. r\<lparr>ru_lease_owner := None, ru_lease_expires_at := None, ru_state := ''COMPLETED'',
        ru_completed_at := Some (dw_now dw)\<rparr>"
    have "orphan (set_run (ru_id run) ?f db) i r" by (rule set) (simp add: run_le_def)
    then show ?thesis
      by (rule orphan_tables) (use assms(2) Some False in
        \<open>auto simp: finish_run_def set_run_def dest!: summary_event_tables\<close>)
  qed
qed

lemma orphan_finish_own:
  assumes "orphan db i held" and "ru_state held = ''RUNNING''" and "finish_run c dw h held db = Inr db'"
  shows "\<exists>r'. orphan db' i r' \<and> ru_id r' = ru_id held \<and> ru_state r' = ''RETRYING''"
proof -
  have held: "held \<in> set (cg_runs db)" "holds_run held held"
    using assms(1,2) find_row_Some [of _ "cg_runs db" held] by (auto simp: orphan_def get_run_def holds_run_def)
  then obtain run where run: "find_row (holds_run held) (cg_runs db) = Some run"
    using find_row_exI by metis
  have id: "ru_id run = ru_id held" using find_row_Some [OF run] by (simp add: holds_run_def)
  have i: "i \<in> set (cg_items db)" "of_run held i" "it_state i = ''LEASED''"
    using assms(1) find_row_Some [of _ "cg_items db" i] by (auto simp: orphan_def get_item_def)
  then have "remaining_items db held \<noteq> 0" unfolding remaining_items_def count_rows_zero by auto
  then have "db' = set_run (ru_id held) (\<lambda>r. r\<lparr>ru_lease_owner := None, ru_lease_expires_at := None,
      ru_state := ''RETRYING'', ru_next_attempt_at := dw_now dw + 2 * 1000000\<rparr>) db"
    using assms(3) run id by (simp add: finish_run_def)
  with orphan_set_run [OF assms(1), of "\<lambda>r. r\<lparr>ru_lease_owner := None, ru_lease_expires_at := None,
      ru_state := ''RETRYING'', ru_next_attempt_at := dw_now dw + 2 * 1000000\<rparr>" "ru_id held"]
  show ?thesis
    by (intro exI [of _ "held\<lparr>ru_lease_owner := None, ru_lease_expires_at := None,
      ru_state := ''RETRYING'', ru_next_attempt_at := dw_now dw + 2 * 1000000\<rparr>"]) (simp add: run_le_def)
qed

text \<open>What a claim does to a waiting run: it takes it, or takes another one.\<close>

lemma orphan_claim_run:
  assumes "orphan db i r" and "ru_state r \<noteq> ''RUNNING''"
    and "claim_run t locked s owner db = (db1, Some held)"
  shows "ru_state held = ''RUNNING'' \<and> (held = take_run t s owner r \<and> orphan db1 i held \<or>
    ru_id held \<noteq> ru_id r \<and> orphan db1 i r)"
proof -
  let ?db = "release_expired t locked db"
  have o: "orphan ?db i r" using orphan_release_expired [OF assms(1,2)] .
  obtain run rest where run: "select_rows (\<lambda>r. (ru_scheduled_at r, ru_id r)) (run_due t locked) 1 (cg_runs ?db)
      = run # rest" "db1 = set_run (ru_id run) (take_run t s owner) ?db" "held = take_run t s owner run"
    using assms(3) by (auto simp: claim_run_def Let_def split: list.splits)
  have "run \<in> set (cg_runs ?db)"
    using select_rows_in [of run "\<lambda>r. (ru_scheduled_at r, ru_id r)" "run_due t locked" 1 "cg_runs ?db"] run(1) by simp
  moreover have "r \<in> set (cg_runs ?db)"
    using o find_row_Some [of _ "cg_runs ?db" r] by (auto simp: orphan_def get_run_def)
  ultimately have same: "ru_id run = ru_id r \<Longrightarrow> run = r"
    using o by (auto simp: orphan_def camp_inv_def distinct_map inj_on_def)
  have "orphan db1 i (if ru_id r = ru_id run then take_run t s owner r else r)"
    unfolding run(2) by (rule orphan_set_run [OF o]) (simp add: run_le_def take_run_def)
  then have o1: "orphan db1 i (if ru_id r = ru_id run then take_run t s owner r else r)" .
  show ?thesis
  proof (cases "ru_id r = ru_id run")
    case True
    then have "held = take_run t s owner r" using same run(3) by simp
    then show ?thesis using o1 True by (simp add: take_run_def)
  next
    case False
    then show ?thesis using o1 run(3) by (simp add: take_run_def)
  qed
qed

section \<open>Properties\<close>

text \<open>
  C2. Whatever the interleaving of requests and dispatchers, an item that was delivered, suppressed,
  failed or cancelled keeps that outcome and its message identifier, and the fence token of a run
  never decreases.
\<close>

theorem campaign_outcome_final:
  assumes "camp_inv db" and "get_item db k = Some i" and "item_settled i" and "get_run db rid = Some r"
  shows "(\<exists>i'. get_item (run_ops camp_step ops db) k = Some i' \<and> it_state i' = it_state i \<and>
       it_message_id i' = it_message_id i \<and> it_recipient_hash i' = it_recipient_hash i) \<and>
     (\<exists>r'. get_run (run_ops camp_step ops db) rid = Some r' \<and> ru_fence_token r \<le> ru_fence_token r')"
  using campaign.settled_run [OF assms(1-3), of ops] run_tokens_grow [OF assms(1,4), of ops]
  by (auto simp: item_outcome_def run_le_def)

text \<open>
  A dispatcher whose run has since been claimed again is fenced off for good: from then on, after
  any further operations, its deliveries admit no message and change no row, and it cannot close
  the run.
\<close>

theorem stale_dispatcher_refused:
  assumes "camp_inv db" and "get_run db (ru_id held) = Some r"
    and "ru_fence_token held < ru_fence_token r" and "db' = run_ops camp_step ops db"
  shows "deliver_item t admission held x db' = Inr (db', False) \<and> finish_run c dw h held db' = Inr db'"
proof -
  obtain r' where r': "get_run db' (ru_id held) = Some r'" "run_le r r'"
    using run_tokens_grow [OF assms(1,2), of ops] assms(4) by auto
  have "camp_inv db'" using campaign.inv_run [OF assms(1)] assms(4) by simp
  then have "find_row (holds_run held) (cg_runs db') = None"
    using r' assms(3) by (intro holds_run_stale [of _ _ r']) (auto simp: camp_inv_def run_le_def)
  then show ?thesis by (simp add: deliver_item_def finish_run_def split: prod.split)
qed

text \<open>
  Once a pause has committed, no message of the campaign is admitted any more: no item is left
  leased, and whatever a dispatcher still holds of the run, its deliveries are refused without
  calling the admission.
\<close>

theorem pause_stops_admission:
  assumes "camp_inv db" and "pause_campaign t campaign db = Inr db'"
    and "campaign_run campaign db = Some run" and "ru_id held = ru_id run"
  shows "(\<forall>i \<in> set (cg_items db'). it_campaign_id i = ca_id campaign \<longrightarrow> it_state i \<noteq> ''LEASED'') \<and>
    deliver_item t2 admission held x db' = Inr (db', False)"
proof -
  have db': "cg_items db' = update_rows (leased_item (ca_id campaign)) (release_item t) (cg_items db)"
    "cg_runs db' = update_rows (\<lambda>r. ru_id r = ru_id run) (\<lambda>r. r\<lparr>ru_state := ''PAUSED'',
       ru_lease_owner := None, ru_lease_expires_at := None\<rparr>) (cg_runs db)"
    using assms(2,3) by (auto simp: pause_campaign_def set_items_rows set_run_rows split: if_splits)
  have "\<not> holds_run held s" if "s \<in> set (cg_runs db')" for s
    using that assms(4) by (auto simp: db'(2) set_update_rows holds_run_def split: if_splits)
  then have "find_row (holds_run held) (cg_runs db') = None" by (simp add: find_row_None)
  then show ?thesis
    by (auto simp: db'(1) set_update_rows leased_item_def release_item_def deliver_item_def
        split: prod.split if_splits)
qed

text \<open>
  A run is reported complete only when every item of its version is settled, and then the four
  outcome counts add up to the audience: no recipient is lost. Otherwise it stays open, to be
  retried.
\<close>

theorem run_completes_when_settled:
  assumes "finish_run c dw h held db = Inr db'" and "find_row (holds_run held) (cg_runs db) = Some run"
    and "\<forall>i \<in> set (cg_items db). of_run held i \<longrightarrow> item_settled i \<or>
      it_state i \<in> {''PENDING'', ''LEASED'', ''RETRYING''}"
  shows "if \<exists>i \<in> set (cg_items db). of_run held i \<and> \<not> item_settled i
     then cg_runs db' = update_rows (\<lambda>r. ru_id r = ru_id run) (\<lambda>r. r\<lparr>ru_lease_owner := None,
            ru_lease_expires_at := None, ru_state := ''RETRYING'',
            ru_next_attempt_at := dw_now dw + 2 * 1000000\<rparr>) (cg_runs db)
     else cg_runs db' = update_rows (\<lambda>r. ru_id r = ru_id run) (\<lambda>r. r\<lparr>ru_lease_owner := None,
            ru_lease_expires_at := None, ru_state := ''COMPLETED'',
            ru_completed_at := Some (dw_now dw)\<rparr>) (cg_runs db) \<and>
          total_count db' held = state_count db' held ''DELIVERED'' + state_count db' held ''SUPPRESSED'' +
            state_count db' held ''FAILED'' + state_count db' held ''CANCELLED''"
proof -
  have open_iff: "0 < remaining_items db held \<longleftrightarrow> (\<exists>i \<in> set (cg_items db). of_run held i \<and> \<not> item_settled i)"
  proof -
    have "0 < remaining_items db held \<longleftrightarrow> (\<exists>i \<in> set (cg_items db). of_run held i \<and>
        it_state i \<in> {''PENDING'', ''LEASED'', ''RETRYING''})"
      by (simp only: remaining_items_def neq0_conv [symmetric] count_rows_zero) blast
    also have "\<dots> \<longleftrightarrow> (\<exists>i \<in> set (cg_items db). of_run held i \<and> \<not> item_settled i)"
      using assms(3) by (fastforce simp: item_settled_def)
    finally show ?thesis .
  qed
  show ?thesis
  proof (cases "0 < remaining_items db held")
    case True
    then show ?thesis using assms(1,2) open_iff by (auto simp: finish_run_def set_run_rows)
  next
    case False
    then have fields: "cg_items db' = cg_items db" "cg_runs db' = update_rows (\<lambda>r. ru_id r = ru_id run)
        (\<lambda>r. r\<lparr>ru_lease_owner := None, ru_lease_expires_at := None, ru_state := ''COMPLETED'',
             ru_completed_at := Some (dw_now dw)\<rparr>) (cg_runs db)"
      using assms(1,2) by (auto simp: finish_run_def dest!: summary_event_tables)
    have settled: "item_settled i" if "i \<in> set (cg_items db)" "of_run held i" for i
      using False that unfolding open_iff by blast
    let ?n = "\<lambda>P. count_rows (\<lambda>i. of_run held i \<and> P i) (cg_items db)"
    have "?n (\<lambda>i. it_state i \<noteq> ''DELIVERED'' \<and> it_state i \<noteq> ''SUPPRESSED'' \<and> it_state i \<noteq> ''FAILED'') =
        ?n (\<lambda>i. it_state i = ''CANCELLED'')"
      using settled by (intro count_cong) (auto simp: item_settled_def)
    moreover have "?n (\<lambda>i. it_state i \<noteq> ''DELIVERED'' \<and> it_state i \<noteq> ''SUPPRESSED'') =
        ?n (\<lambda>i. it_state i = ''FAILED'') + ?n (\<lambda>i. it_state i \<noteq> ''DELIVERED'' \<and>
          it_state i \<noteq> ''SUPPRESSED'' \<and> it_state i \<noteq> ''FAILED'')"
      by (subst count_split [where Q = "\<lambda>i. it_state i = ''FAILED''"]) (auto intro!: arg_cong2 [where f = plus] count_cong)
    moreover have "?n (\<lambda>i. it_state i \<noteq> ''DELIVERED'') = ?n (\<lambda>i. it_state i = ''SUPPRESSED'') +
        ?n (\<lambda>i. it_state i \<noteq> ''DELIVERED'' \<and> it_state i \<noteq> ''SUPPRESSED'')"
      by (subst count_split [where Q = "\<lambda>i. it_state i = ''SUPPRESSED''"]) (auto intro!: arg_cong2 [where f = plus] count_cong)
    moreover have "count_rows (of_run held) (cg_items db) = ?n (\<lambda>i. it_state i = ''DELIVERED'') +
        ?n (\<lambda>i. it_state i \<noteq> ''DELIVERED'')"
      by (rule count_split)
    ultimately have "total_count db' held = state_count db' held ''DELIVERED'' +
        state_count db' held ''SUPPRESSED'' + state_count db' held ''FAILED'' + state_count db' held ''CANCELLED''"
      by (simp add: total_count_def state_count_def fields(1))
    with settled fields(2) show ?thesis by auto
  qed
qed

text \<open>
  Scheduling freezes the audience: for a campaign without a run it adds one run and, for each
  address of the audience, exactly one pending item and one audience row that carry the address's
  hash; addresses are in lower case, without duplicates, in order. A campaign that has a run is left
  as it is, and the existing run is returned.
\<close>

theorem schedule_freezes_audience:
  assumes "schedule_campaign matches sha e fresh t campaign due_at db = Inr (run, db')"
  shows "(\<exists>r \<in> set (cg_runs db). ru_campaign_id r = ca_id campaign) \<and> db' = db \<and> run \<in> set (cg_runs db) \<or>
    (\<exists>recipients. sorted recipients \<and> distinct recipients \<and> (\<forall>a \<in> set recipients. lower a = a) \<and>
       cg_runs db' = cg_runs db @ [run] \<and> ru_state run = ''SCHEDULED'' \<and>
       (\<exists>new. cg_items db' = cg_items db @ new \<and> map it_recipient_hash new = map sha recipients \<and>
          (\<forall>i \<in> set new. it_state i = ''PENDING'' \<and> it_campaign_id i = ca_id campaign \<and>
             it_attempt_count i = 0 \<and> it_next_attempt_at i = due_at)) \<and>
       (\<exists>new. cg_audiences db' = cg_audiences db @ new \<and> map ad_recipient new = recipients))"
proof (cases "find_row (\<lambda>r. ru_campaign_id r = ca_id campaign) (cg_runs db)")
  case (Some x)
  then have "run = x \<and> db' = db" using schedule_cases [OF assms] by auto
  then show ?thesis using find_row_Some [OF Some] by blast
next
  case None
  then obtain recipients sender template version where r: "audience matches campaign db = Inr recipients"
    "start_run sha fresh t campaign due_at sender template version recipients db = (run, db')"
    using schedule_cases [OF assms] by auto
  have "sorted recipients \<and> distinct recipients \<and> (\<forall>a \<in> set recipients. lower a = a)"
    using r(1) by (auto simp: audience_def res_bind_Inr)
  moreover have "map it_recipient_hash (map (item_of campaign sha fresh due_at t) recipients) = map sha recipients"
    "map ad_recipient (map (audience_of campaign sha fresh) recipients) = recipients"
    by (simp_all add: item_of_def audience_of_def comp_def)
  moreover have "\<forall>i \<in> set (map (item_of campaign sha fresh due_at t) recipients).
      it_state i = ''PENDING'' \<and> it_campaign_id i = ca_id campaign \<and> it_attempt_count i = 0 \<and>
      it_next_attempt_at i = due_at"
    by (simp add: item_of_def)
  ultimately show ?thesis using start_run_rows [OF r(2)] by blast
qed

text \<open>
  A frozen version with an empty subject can never be admitted: for every recipient that is not
  suppressed, whatever the provider would do, the message model raises a validation error, which is
  no \<open>HTTPException\<close>, so that the delivery step raises instead of settling the item.
\<close>

theorem empty_subject_raises:
  assumes "vs_subject snapshot = []"
    and "enforce_suppression gdb (ru_tenant_id run) recipient ''MARKETING'' (Some (ru_campaign_id run)) = Inr ()"
    and "env_get e ''KLYROW_CAMPAIGN_DISPATCHER_SANDBOX'' ''true'' = ''true''"
    and "find_row (holds_run run) (cg_runs db) = Some r"
  shows "deliver_item t (admit valid_email sha e gdb send run snapshot) run (k, recipient, h) db =
    Inl (ValueError ''ValidationError'')"
proof -
  have "lower ''true'' = ''true''" by code_simp
  then have "admit valid_email sha e gdb send run snapshot recipient h = Inl (ValueError ''ValidationError'')"
    using assms(1-3) by (simp add: admit_def ProviderMailIn_def split: option.split)
  then show ?thesis using assms(4) by (simp add: deliver_item_def classify_admission_def)
qed

text \<open>
  A lease that nobody holds is never recovered by dispatching: when an item is leased while its
  run waits to be claimed, which a pause between the two transactions of a dispatcher and a later
  resume bring about, every dispatch that returns leaves the item leased and the run waiting, so the
  recipient gets no message and the run never completes.
\<close>

theorem orphan_survives_dispatch:
  assumes "orphan db i r" and "ru_state r \<notin> {''RUNNING'', ''COMPLETED''}"
    and "dispatch_campaigns c dw h e locked owner admission limit db = (db', Inr n)"
  shows "\<exists>r'. orphan db' i r' \<and> ru_id r' = ru_id r \<and> ru_state r' \<notin> {''RUNNING'', ''COMPLETED''}"
proof (cases "db' = db")
  case True
  then show ?thesis using assms(1,2) by blast
next
  case False
  obtain s db1 held where claim: "claim_run (dw_now dw) locked s owner db = (db1, Some held)"
    and rest: "(case lease_items (dw_now dw) locked (nat limit) held db1 of
        (db2, None) \<Rightarrow> (db2, Inr 0)
      | (db2, Some (snapshot, leased)) \<Rightarrow>
          (case deliver_each (dw_now dw) (admission held snapshot) held leased 0 db2 of
             (db3, Inl x) \<Rightarrow> (db3, Inl x)
           | (db3, Inr processed) \<Rightarrow>
               (case finish_run c dw h held db3 of Inl x \<Rightarrow> (db3, Inl x)
                | Inr db4 \<Rightarrow> (db4, Inr processed)))) = (db', Inr n)"
    using assms(3) False
    by (auto simp: dispatch_campaigns_def split: if_splits sum.splits prod.splits option.splits)
  have taken: "ru_state held = ''RUNNING''" "held = take_run (dw_now dw) s owner r \<and> orphan db1 i held \<or>
      ru_id held \<noteq> ru_id r \<and> orphan db1 i r"
    using orphan_claim_run [OF assms(1) _ claim] assms(2) by auto
  define r1 where "r1 = (if ru_id held = ru_id r then held else r)"
  have r1: "orphan db1 i r1" "ru_id r1 = ru_id r"
    using taken(2) by (auto simp: r1_def take_run_def)
  show ?thesis
  proof (cases "lease_items (dw_now dw) locked (nat limit) held db1")
    case (Pair db2 opt)
    show ?thesis
    proof (cases opt)
      case None
      then have "ru_id held \<noteq> ru_id r" and "db2 = set_run (ru_id held)
          (\<lambda>r. r\<lparr>ru_state := ''FAILED'', ru_completed_at := Some (dw_now dw)\<rparr>) db1"
        using Pair r1 by (auto simp: lease_items_def Let_def orphan_def run_snapshot_def r1_def
            split: option.splits if_splits)
      with orphan_set_run [OF r1(1), of "\<lambda>r. r\<lparr>ru_state := ''FAILED'', ru_completed_at := Some (dw_now dw)\<rparr>"
          "ru_id held"] None Pair rest assms(2)
      show ?thesis by (auto simp: r1_def run_le_def)
    next
      case (Some y)
      obtain snapshot leased where y: "y = (snapshot, leased)" by (cases y)
      have two: "orphan db2 i r1" "it_id i \<notin> fst ` set leased"
        using orphan_lease_items [OF r1(1), of held] Pair Some y taken(1)
        by (auto simp: r1_def runs.ok_refl)
      obtain db3 where db3: "deliver_each (dw_now dw) (admission held snapshot) held leased 0 db2 = (db3, Inr n)"
          "finish_run c dw h held db3 = Inr db'"
        using rest Pair Some y by (auto split: prod.splits sum.splits)
      have three: "orphan db3 i r1" using orphan_deliver_each [OF two db3(1)] .
      show ?thesis
      proof (cases "ru_id held = ru_id r")
        case True
        then have "orphan db3 i held" using three by (simp add: r1_def)
        from orphan_finish_own [OF this taken(1) db3(2)] True show ?thesis by auto
      next
        case False
        then show ?thesis using orphan_finish_other [OF _ db3(2)] three assms(2) by (auto simp: r1_def)
      qed
    qed
  qed
qed

section \<open>A concrete campaign\<close>

definition camp_row :: campaign_row where
  "camp_row = \<lparr>ca_id = ''k1'', ca_tenant_id = ''t1'', ca_status = ''draft'', ca_subject = None,
     ca_sender_id = Some ''s1'', ca_template_id = Some ''p1'', ca_segment_id = None,
     ca_current_version = 1, ca_scheduled_at = None\<rparr>"

definition camp_sender :: sender_row where
  "camp_sender = \<lparr>se_id = ''s1'', se_tenant_id = ''t1'', se_email = ''a@b'', se_stream = ''MARKETING'',
     se_status = ''ACTIVE''\<rparr>"

definition camp_template :: template_row where
  "camp_template = \<lparr>te_id = ''p1'', te_tenant_id = ''t1'', te_status = ''PUBLISHED'', te_current_version = 1\<rparr>"

definition camp_text :: template_version_row where
  "camp_text = \<lparr>tv_template_id = ''p1'', tv_tenant_id = ''t1'', tv_version = 1, tv_subject = [],
     tv_html_body = ''h'', tv_text_body = ''t''\<rparr>"

definition camp_base :: campaign_db where
  "camp_base = \<lparr>cg_campaigns = [camp_row], cg_contacts = [\<lparr>co_tenant_id = ''t1'', co_email = ''C@d'',
       co_subscribed = True\<rparr>], cg_profiles = [], cg_segments = [], cg_senders = [camp_sender],
     cg_templates = [camp_template], cg_template_versions = [camp_text], cg_snapshots = [],
     cg_audiences = [], cg_runs = [], cg_items = [], cg_events = []\<rparr>"

definition camp_env :: env where
  "camp_env = env_of [(''KLYROW_CAMPAIGN_DISPATCHER_ENABLED'', ''true'')]"

definition camp_started :: "run_row \<times> campaign_db" where
  "camp_started = start_run (\<lambda>s. s) (\<lambda>s. s) 0 camp_row 5 camp_sender camp_template camp_text [''c@d''] camp_base"

abbreviation camp_run :: run_row where "camp_run \<equiv> fst camp_started"
abbreviation camp_db :: campaign_db where "camp_db \<equiv> snd camp_started"

lemma camp_schedule:
  "schedule_campaign (\<lambda>_ _. Inr True) (\<lambda>s. s) camp_env (\<lambda>s. s) 0 camp_row 5 camp_base = Inr camp_started"
proof -
  have "dispatcher_enabled camp_env" by code_simp
  moreover have "lower (strip ''C@d'') = ''c@d''" by code_simp
  ultimately show ?thesis
    by (simp add: schedule_campaign_def camp_row_def camp_base_def camp_sender_def camp_template_def
        camp_text_def audience_def camp_started_def)
qed

definition camp_item :: item_row where
  "camp_item = item_of camp_row (\<lambda>s. s) (\<lambda>s. s) 5 0 ''c@d''"

lemma camp_rows:
  "cg_items camp_db = [camp_item]" "cg_runs camp_db = [camp_run]" "ru_id camp_run = ''run''"
  "ru_state camp_run = ''SCHEDULED''" "ru_fence_token camp_run = 0" "ru_campaign_id camp_run = ''k1''"
  "ru_tenant_id camp_run = ''t1''" "ru_campaign_version camp_run = 1" "ru_scheduled_at camp_run = 5"
  "ru_next_attempt_at camp_run = 5" "run_snapshot camp_db camp_run \<noteq> None"
  by (simp_all add: camp_started_def start_run_def camp_item_def camp_base_def camp_row_def
      run_snapshot_def set_campaign_def Let_def)

lemma camp_inv_sample: "camp_inv camp_db"
  by (simp add: camp_inv_def camp_rows)

theorem campaign_outcome_final_witness:
  "\<exists>i' :: item_row. get_item (run_ops camp_step [OpPause 7 camp_row, OpResume 8 camp_row, OpClaimRun 9 (\<lambda>_. False) 60 ''w'']
      (camp_db\<lparr>cg_items := [camp_item\<lparr>it_state := ''DELIVERED'', it_message_id := Some ''m''\<rparr>]\<rparr>))
      (it_id camp_item) = Some i' \<and> it_message_id i' = Some ''m''"
proof -
  let ?i = "camp_item\<lparr>it_state := ''DELIVERED'', it_message_id := Some ''m''\<rparr>"
  let ?db = "camp_db\<lparr>cg_items := [?i]\<rparr>"
  have "camp_inv ?db" by (simp add: camp_inv_def camp_rows)
  moreover have "get_item ?db (it_id camp_item) = Some ?i" by (simp add: get_item_def)
  moreover have "item_settled ?i" by (simp add: item_settled_def)
  moreover have "get_run ?db ''run'' = Some camp_run" by (simp add: get_run_def camp_rows)
  ultimately have "(\<exists>i'. get_item (run_ops camp_step [OpPause 7 camp_row, OpResume 8 camp_row,
      OpClaimRun 9 (\<lambda>_. False) 60 ''w''] ?db) (it_id camp_item) = Some i' \<and> it_state i' = it_state ?i \<and>
      it_message_id i' = it_message_id ?i \<and> it_recipient_hash i' = it_recipient_hash ?i)"
    using campaign_outcome_final by blast
  then show ?thesis by auto
qed

theorem stale_dispatcher_refused_witness:
  "deliver_item 9 (\<lambda>_ _. Inr ''m'') camp_run (''i'', ''c@d'', ''h'')
     (camp_db\<lparr>cg_runs := [camp_run\<lparr>ru_fence_token := 1\<rparr>]\<rparr>) =
   Inr (camp_db\<lparr>cg_runs := [camp_run\<lparr>ru_fence_token := 1\<rparr>]\<rparr>, False)"
proof -
  let ?db = "camp_db\<lparr>cg_runs := [camp_run\<lparr>ru_fence_token := 1\<rparr>]\<rparr>"
  have "camp_inv ?db" by (simp add: camp_inv_def camp_rows)
  moreover have "get_run ?db (ru_id camp_run) = Some (camp_run\<lparr>ru_fence_token := 1\<rparr>)"
    by (simp add: get_run_def camp_rows)
  moreover have "ru_fence_token camp_run < ru_fence_token (camp_run\<lparr>ru_fence_token := 1\<rparr>)"
    by (simp add: camp_rows)
  ultimately show ?thesis using stale_dispatcher_refused [where ops = "[]"] by simp
qed

theorem pause_stops_admission_witness:
  "\<exists>db' :: campaign_db. pause_campaign 7 camp_row camp_db = Inr db' \<and>
     deliver_item 9 (\<lambda>_ _. Inr ''m'') camp_run (''i'', ''c@d'', ''h'') db' = Inr (db', False)"
proof -
  have run: "campaign_run camp_row camp_db = Some camp_run"
    by (simp add: campaign_run_def camp_rows camp_row_def)
  then obtain db' where db': "pause_campaign 7 camp_row camp_db = Inr db'"
    by (simp add: pause_campaign_def camp_rows)
  from pause_stops_admission [OF camp_inv_sample db' run refl] db' show ?thesis by blast
qed

theorem run_completes_when_settled_witness:
  "\<exists>db' :: campaign_db. finish_run (plain_codec JNull) \<lparr>dw_now = 9, dw_row_id = ''r'', dw_event_id = ''e'',
       dw_correlation = ''c'', dw_carrier = []\<rparr> (\<lambda>_. ''x'') (take_run 6 60 ''w'' camp_run)
       (camp_db\<lparr>cg_runs := [take_run 6 60 ''w'' camp_run]\<rparr>) = Inr db' \<and>
     map ru_state (cg_runs db') = [''RETRYING'']"
proof -
  let ?dw = "\<lparr>dw_now = 9, dw_row_id = ''r'', dw_event_id = ''e'', dw_correlation = ''c'', dw_carrier = []\<rparr>"
  let ?held = "take_run 6 60 ''w'' camp_run"
  let ?db = "camp_db\<lparr>cg_runs := [?held]\<rparr>"
  have run: "find_row (holds_run ?held) (cg_runs ?db) = Some ?held"
    by (simp add: holds_run_def take_run_def)
  have pending: "it_state camp_item = ''PENDING''" "of_run ?held camp_item"
    by (simp_all add: camp_item_def item_of_def of_run_def take_run_def camp_rows camp_row_def)
  then have "0 < remaining_items ?db ?held"
    by (simp add: remaining_items_def count_rows_def camp_rows)
  then obtain db' where db': "finish_run (plain_codec JNull) ?dw (\<lambda>_. ''x'') ?held ?db = Inr db'"
    using run by (simp add: finish_run_def)
  have "\<forall>i \<in> set (cg_items ?db). of_run ?held i \<longrightarrow> item_settled i \<or>
      it_state i \<in> {''PENDING'', ''LEASED'', ''RETRYING''}"
    by (simp add: camp_rows pending)
  note spec = run_completes_when_settled [OF db' run this]
  have "\<exists>i \<in> set (cg_items ?db). of_run ?held i \<and> \<not> item_settled i"
    using pending by (simp add: camp_rows item_settled_def)
  with spec db' show ?thesis by auto
qed

theorem schedule_freezes_audience_witness:
  "map it_recipient_hash (cg_items camp_db) = [''c@d''] \<and> ru_state camp_run = ''SCHEDULED''"
proof -
  have "schedule_campaign (\<lambda>_ _. Inr True) (\<lambda>s. s) camp_env (\<lambda>s. s) 0 camp_row 5 camp_base = Inr (camp_run, camp_db)"
    using camp_schedule by simp
  from schedule_freezes_audience [OF this] have "ru_state camp_run = ''SCHEDULED''"
    by (auto simp: camp_base_def)
  then show ?thesis by (simp add: camp_rows camp_item_def item_of_def)
qed

theorem empty_subject_raises_witness:
  "\<exists>snapshot :: version_snapshot. run_snapshot camp_db camp_run = Some snapshot \<and>
     deliver_item 9 (admit (\<lambda>a. Some a) (\<lambda>s. s) camp_env
       \<lparr>gd_tenants = [], gd_suppressions = [], gd_scoped_suppressions = [], gd_profiles = [],
        gd_preferences = [], gd_consents = [], gd_policies = [], gd_messages = [],
        gd_provider_messages = [], gd_subscriptions = []\<rparr> (\<lambda>_ _ _. Inr ''m'')
       (take_run 6 60 ''w'' camp_run) snapshot) (take_run 6 60 ''w'' camp_run) (''i'', ''c@d'', ''c@d'')
       (camp_db\<lparr>cg_runs := [take_run 6 60 ''w'' camp_run]\<rparr>) = Inl (ValueError ''ValidationError'')"
proof -
  let ?gdb = "\<lparr>gd_tenants = [], gd_suppressions = [], gd_scoped_suppressions = [], gd_profiles = [],
        gd_preferences = [], gd_consents = [], gd_policies = [], gd_messages = [],
        gd_provider_messages = [], gd_subscriptions = []\<rparr>"
  let ?held = "take_run 6 60 ''w'' camp_run"
  let ?db = "camp_db\<lparr>cg_runs := [?held]\<rparr>"
  obtain v where v: "run_snapshot camp_db camp_run = Some v" using camp_rows(11) by auto
  have subject: "vs_subject v = []"
    using v by (auto simp: run_snapshot_def camp_started_def start_run_def set_campaign_def camp_base_def
        camp_row_def camp_text_def or_text_def Let_def)
  have guard: "enforce_suppression ?gdb (ru_tenant_id ?held) ''c@d'' ''MARKETING'' (Some (ru_campaign_id ?held)) = Inr ()"
    by (simp add: enforce_suppression_def suppression_record_def Let_def)
  have env: "env_get camp_env ''KLYROW_CAMPAIGN_DISPATCHER_SANDBOX'' ''true'' = ''true''"
    by (simp add: env_get_def camp_env_def env_of_def)
  have "find_row (holds_run ?held) (cg_runs ?db) = Some ?held"
    by (simp add: holds_run_def take_run_def)
  from empty_subject_raises [OF subject guard env this] v show ?thesis by auto
qed

text \<open>The interleaving: claim, pause, lease, resume.\<close>

definition camp_race :: campaign_db where
  "camp_race = run_ops camp_step
     [OpClaimRun 6 (\<lambda>_. False) 60 ''w'', OpPause 7 camp_row,
      OpLeaseItems 8 (\<lambda>_. False) 100 (take_run 6 60 ''w'' camp_run), OpResume 9 camp_row] camp_db"

definition race_leaves_orphan :: bool where
  "race_leaves_orphan =
     (case (cg_items camp_race, cg_runs camp_race) of
        ([i], [r]) \<Rightarrow> orphan camp_race i r \<and> ru_state r = ''RETRYING'' | _ \<Rightarrow> False)"

lemma camp_race_orphan: "\<exists>i r. orphan camp_race i r \<and> ru_state r = ''RETRYING''"
proof -
  have "race_leaves_orphan" by code_simp
  then show ?thesis by (auto simp: race_leaves_orphan_def split: list.splits)
qed

text \<open>No dispatch of any dispatcher, however late, repairs what the race has left.\<close>

theorem orphan_survives_dispatch_witness:
  "\<exists>i r. orphan camp_race i r \<and>
     (\<exists>db' n r'. dispatch_campaigns (plain_codec JNull) \<lparr>dw_now = 100000000000, dw_row_id = ''r'', dw_event_id = ''e'',
          dw_correlation = ''c'', dw_carrier = []\<rparr> (\<lambda>_. ''x'') camp_env (\<lambda>_. False) ''w2'' (\<lambda>_ _ _ _. Inr ''m'')
          100 camp_race = (db', Inr n) \<and> orphan db' i r' \<and> ru_state r' \<noteq> ''COMPLETED'')"
proof -
  let ?run = "dispatch_campaigns (plain_codec JNull) \<lparr>dw_now = 100000000000, dw_row_id = ''r'', dw_event_id = ''e'',
          dw_correlation = ''c'', dw_carrier = []\<rparr> (\<lambda>_. ''x'') camp_env (\<lambda>_. False) ''w2'' (\<lambda>_ _ _ _. Inr ''m'')
          100 camp_race"
  obtain i r where o: "orphan camp_race i r" "ru_state r = ''RETRYING''" using camp_race_orphan by blast
  have "snd ?run = Inr 0" by code_simp
  then obtain db' where run: "?run = (db', Inr 0)" by (cases ?run) auto
  have "ru_state r \<notin> {''RUNNING'', ''COMPLETED''}" using o(2) by simp
  from orphan_survives_dispatch [OF o(1) this run] o(1) run show ?thesis by blast
qed

end
