(* ===== verification/DurableResults.thy ===== *)
theory DurableResults
  imports Prelude
begin

text \<open>
  \<open>durable_keys.py\<close> and \<open>durable_results.py\<close>: the keyring of the durable results, and control replays
  and integration results that are sealed with it. The standard library's codecs and the AES-GCM
  cipher are the components of a record \<open>suite\<close>, an argument of the functions; byte strings are
  strings. A nonce is an argument of \<open>seal\<close>. Every failure of the two sealing functions is the same
  \<open>HTTPException\<close>.
\<close>

section \<open>Keys\<close>

record suite =
  su_dumps :: "json \<Rightarrow> string"
  su_loads :: "string \<Rightarrow> json option"
  su_sha256_hex :: "string \<Rightarrow> string"
  su_b64encode :: "string \<Rightarrow> string"
  su_b64decode :: "string \<Rightarrow> string option"
  su_encrypt :: "string \<Rightarrow> string \<Rightarrow> string \<Rightarrow> string \<Rightarrow> string"
  su_decrypt :: "string \<Rightarrow> string \<Rightarrow> string \<Rightarrow> string \<Rightarrow> string option"
  su_utc_of_iso :: "string \<Rightarrow> int option"
  su_iso :: "int \<Rightarrow> string"

record key_ring =
  kr_active_key_id :: string
  kr_keys :: "(string \<times> string) list"

definition MAX_KEYRING_BYTES :: int where "MAX_KEYRING_BYTES = 8192"

definition alphanumeric :: "char \<Rightarrow> bool" where
  "alphanumeric c \<longleftrightarrow> is_digit c \<or>
     (let n = of_char c :: nat in 65 \<le> n \<and> n \<le> 90 \<or> 97 \<le> n \<and> n \<le> 122)"

text \<open>The pattern \<open>[A-Za-z0-9][A-Za-z0-9_.-]{0,63}\<close>.\<close>

definition KEY_ID :: "string \<Rightarrow> bool" where
  "KEY_ID s \<longleftrightarrow> s \<noteq> [] \<and> length s \<le> 64 \<and> alphanumeric (hd s) \<and>
     list_all (\<lambda>c. alphanumeric c \<or> c \<in> {CHR ''_'', CHR ''.'', CHR ''-''}) s"

fun parse_keys :: "suite \<Rightarrow> (string \<times> json) list \<Rightarrow> (string \<times> string) list option" where
  "parse_keys su [] = Some []"
| "parse_keys su ((key_id, material) # rest) =
     (case material of
        JStr text \<Rightarrow>
          (if \<not> KEY_ID key_id then None
           else case su_b64decode su text of
             None \<Rightarrow> None
           | Some key \<Rightarrow>
               (if length key \<noteq> 32 then None
                else map_option (\<lambda>ks. (key_id, key) # ks) (parse_keys su rest)))
      | _ \<Rightarrow> None)"

definition parse_keyring :: "suite \<Rightarrow> string \<Rightarrow> key_ring res" where
  "parse_keyring su raw =
     (let invalid = Inl (ValueError ''durable_result_keyring_invalid'')
      in if raw = [] \<or> MAX_KEYRING_BYTES < int (length raw) then invalid
         else case Option.bind (su_loads su raw) json_obj of
           None \<Rightarrow> invalid
         | Some kvs \<Rightarrow>
             (if set (map fst kvs) \<noteq> {''schema_version'', ''active_key_id'', ''keys''} \<or>
                 obj_get kvs ''schema_version'' \<noteq> JInt 1
              then invalid
              else case json_obj (obj_get kvs ''keys'') of
                None \<Rightarrow> invalid
              | Some encoded \<Rightarrow>
                  (if \<not> (1 \<le> length encoded \<and> length encoded \<le> 8) then invalid
                   else case parse_keys su encoded of
                     None \<Rightarrow> invalid
                   | Some keys \<Rightarrow>
                       (case obj_get kvs ''active_key_id'' of
                          JStr active \<Rightarrow>
                            (if active \<in> set (map fst keys)
                             then Inr \<lparr>kr_active_key_id = active, kr_keys = keys\<rparr> else invalid)
                        | _ \<Rightarrow> invalid))))"

text \<open>What \<open>os.open\<close> without following links and \<open>fstat\<close> say of a path.\<close>

record opened =
  op_regular :: bool
  op_size :: nat
  op_mode :: nat
  op_content :: string

definition writable_by_others :: "nat \<Rightarrow> bool" where
  "writable_by_others mode \<longleftrightarrow> (mode div 2) mod 2 = 1 \<or> (mode div 16) mod 2 = 1"

definition load_keyring :: "suite \<Rightarrow> (string \<Rightarrow> opened option) \<Rightarrow> env \<Rightarrow> key_ring res" where
  "load_keyring su open_file e =
     (let selected = env_get e ''KLYROW_DURABLE_RESULT_KEYRING_FILE'' [];
          unavailable = Inl (ValueError ''durable_result_keyring_unavailable'')
      in if selected = [] \<or> \<not> starts_with ''/'' selected
         then Inl (ValueError ''durable_result_keyring_required'')
         else case open_file selected of
           None \<Rightarrow> unavailable
         | Some f \<Rightarrow>
             (if \<not> op_regular f \<or> MAX_KEYRING_BYTES < int (op_size f) \<or> writable_by_others (op_mode f)
              then unavailable
              else case parse_keyring su (take (nat (MAX_KEYRING_BYTES + 1)) (op_content f)) of
                Inl _ \<Rightarrow> unavailable | Inr ring \<Rightarrow> Inr ring))"

definition keyring_ready :: "suite \<Rightarrow> (string \<Rightarrow> opened option) \<Rightarrow> env \<Rightarrow> bool" where
  "keyring_ready su open_file e = (case load_keyring su open_file e of Inl _ \<Rightarrow> False | Inr _ \<Rightarrow> True)"

section \<open>Canonical form and redaction\<close>

definition RESULT_FORMAT :: string where "RESULT_FORMAT = ''klyrow-durable-result.v1''"
definition MAX_RESULT_BYTES :: int where "MAX_RESULT_BYTES = 65536"
definition MAX_ENVELOPE_BYTES :: int where "MAX_ENVELOPE_BYTES = 131072"
definition MAX_DOCUMENT_BYTES :: int where "MAX_DOCUMENT_BYTES = MAX_RESULT_BYTES + 1024"

definition SENSITIVE :: "string list" where
  "SENSITIVE = [''password'', ''secret'', ''token'', ''authorization'', ''cookie'', ''credential'',
     ''privatekey'', ''apikey'', ''accesskey'', ''signature'', ''session'', ''reseturl'',
     ''verificationurl'']"

definition CONTENT :: "string list" where
  "CONTENT = [''body'', ''raw'', ''mime'', ''html'', ''htmlbody'', ''textbody'', ''headers'', ''url'',
     ''uri'', ''email'', ''recipient'', ''recipients'', ''phone'', ''cardnumber'', ''cvv'']"

definition unavailable :: exn where
  "unavailable = HTTPException 503 ''durable_result_unavailable''"

text \<open>\<open>allow_nan=False\<close> refuses the special floats.\<close>

fun json_finite :: "json \<Rightarrow> bool" where
  "json_finite (JFloat f) = (case f of Finite _ \<Rightarrow> True | _ \<Rightarrow> False)"
| "json_finite (JList xs) = list_all json_finite xs"
| "json_finite (JObj kvs) = list_all (\<lambda>(k, v). json_finite v) kvs"
| "json_finite _ = True"

definition canonical :: "suite \<Rightarrow> int \<Rightarrow> json \<Rightarrow> string res" where
  "canonical su limit value =
     (if json_obj value = None then Inl (ValueError ''result_must_be_object'')
      else if \<not> json_finite value
      then Inl (ValueError ''Out of range float values are not JSON compliant'')
      else
        (let raw = su_dumps su (sort_doc value)
         in if limit < int (length raw) then Inl (ValueError ''result_too_large'') else Inr raw))"

definition normalized_name :: "string \<Rightarrow> string" where
  "normalized_name name =
     filter (\<lambda>c. is_digit c \<or> (let n = of_char c :: nat in 97 \<le> n \<and> n \<le> 122)) (lower name)"

definition sensitive_name :: "string \<Rightarrow> bool" where
  "sensitive_name name \<longleftrightarrow> list_ex (\<lambda>word. contains word (normalized_name name)) (CONTENT @ SENSITIVE)"

text \<open>\<open>visit\<close>, with the depth it has reached; objects and lists go one deeper.\<close>

fun visit :: "nat \<Rightarrow> json \<Rightarrow> json res"
  and visit_fields :: "nat \<Rightarrow> (string \<times> json) list \<Rightarrow> (string \<times> json) list res"
  and visit_items :: "nat \<Rightarrow> json list \<Rightarrow> json list res" where
  "visit depth (JObj kvs) =
     (if 12 < depth then Inl (ValueError ''result_too_deep'')
      else res_bind (visit_fields (Suc depth) kvs) (\<lambda>out. Inr (JObj out)))"
| "visit depth (JList xs) =
     (if 12 < depth then Inl (ValueError ''result_too_deep'')
      else if 1000 < length xs then Inl (ValueError ''result_list_too_large'')
      else res_bind (visit_items (Suc depth) xs) (\<lambda>out. Inr (JList out)))"
| "visit depth JNull = (if 12 < depth then Inl (ValueError ''result_too_deep'') else Inr JNull)"
| "visit depth (JBool b) = (if 12 < depth then Inl (ValueError ''result_too_deep'') else Inr (JBool b))"
| "visit depth (JInt i) = (if 12 < depth then Inl (ValueError ''result_too_deep'') else Inr (JInt i))"
| "visit depth (JFloat f) = (if 12 < depth then Inl (ValueError ''result_too_deep'') else Inr (JFloat f))"
| "visit depth (JStr s) = (if 12 < depth then Inl (ValueError ''result_too_deep'') else Inr (JStr s))"
| "visit_fields depth [] = Inr []"
| "visit_fields depth ((name, child) # rest) =
     res_bind (if sensitive_name name then Inr (JStr ''[REDACTED]'') else visit depth child) (\<lambda>v.
     res_bind (visit_fields depth rest) (\<lambda>vs. Inr ((name, v) # vs)))"
| "visit_items depth [] = Inr []"
| "visit_items depth (x # xs) =
     res_bind (visit depth x) (\<lambda>v. res_bind (visit_items depth xs) (\<lambda>vs. Inr (v # vs)))"

definition redact_result :: "suite \<Rightarrow> json \<Rightarrow> json res" where
  "redact_result su value = res_bind (canonical su MAX_RESULT_BYTES value) (\<lambda>_. visit 0 value)"

section \<open>Sealing\<close>

definition binding :: "string \<Rightarrow> string list \<Rightarrow> string list res" where
  "binding kind parts = (if [] \<in> set parts then Inl unavailable else Inr (kind # parts))"

definition aad_of :: "suite \<Rightarrow> string \<Rightarrow> string list \<Rightarrow> string" where
  "aad_of su kid bind = su_dumps su (JList (map JStr (RESULT_FORMAT # kid # bind)))"

definition seal :: "suite \<Rightarrow> key_ring res \<Rightarrow> string \<Rightarrow> json \<Rightarrow> string list \<Rightarrow> string res" where
  "seal su ring nonce value bind =
     (case ring of
        Inl _ \<Rightarrow> Inl unavailable
      | Inr keys \<Rightarrow>
          (let kid = kr_active_key_id keys
           in case map_of (kr_keys keys) kid of
                None \<Rightarrow> Inl (KeyError kid)
              | Some key \<Rightarrow>
                  (case canonical su MAX_DOCUMENT_BYTES value of
                     Inl _ \<Rightarrow> Inl unavailable
                   | Inr plain \<Rightarrow>
                       Inr (su_dumps su (JObj
                         [(''ciphertext'',
                             JStr (su_b64encode su (su_encrypt su key nonce plain (aad_of su kid bind)))),
                          (''format'', JStr RESULT_FORMAT), (''kid'', JStr kid),
                          (''nonce'', JStr (su_b64encode su nonce))])))))"

definition open_envelope ::
  "suite \<Rightarrow> key_ring res \<Rightarrow> string list \<Rightarrow> (string \<times> json) list \<Rightarrow> json option" where
  "open_envelope su ring bind kvs =
     (case (ring, obj_get kvs ''kid'', obj_get kvs ''nonce'', obj_get kvs ''ciphertext'') of
        (Inr keys, JStr kid, JStr nonce_text, JStr cipher_text) \<Rightarrow>
          (case (su_b64decode su nonce_text, su_b64decode su cipher_text, map_of (kr_keys keys) kid) of
             (Some nonce, Some cipher, Some key) \<Rightarrow>
               (if length nonce \<noteq> 12 then None
                else case Option.bind (su_decrypt su key nonce cipher (aad_of su kid bind)) (su_loads su) of
                  None \<Rightarrow> None
                | Some doc \<Rightarrow>
                    (case canonical su MAX_DOCUMENT_BYTES doc of Inl _ \<Rightarrow> None | Inr _ \<Rightarrow> Some doc))
           | _ \<Rightarrow> None)
      | _ \<Rightarrow> None)"

definition unseal :: "suite \<Rightarrow> env \<Rightarrow> key_ring res \<Rightarrow> string \<Rightarrow> string list \<Rightarrow> json res" where
  "unseal su e ring raw bind =
     (if MAX_ENVELOPE_BYTES < int (length raw) then Inl unavailable
      else case Option.bind (su_loads su raw) json_obj of
        None \<Rightarrow> Inl unavailable
      | Some kvs \<Rightarrow>
          (if map_of kvs ''format'' = None
           then (if lower (env_get e ''KLYROW_DURABLE_RESULT_LEGACY_READ_ENABLED'' ''true'') \<noteq> ''true''
                 then Inl unavailable
                 else case canonical su MAX_RESULT_BYTES (JObj kvs) of
                   Inl _ \<Rightarrow> Inl unavailable | Inr _ \<Rightarrow> Inr (JObj kvs))
           else if obj_get kvs ''format'' \<noteq> JStr RESULT_FORMAT \<or>
                   set (map fst kvs) \<noteq> {''format'', ''kid'', ''nonce'', ''ciphertext''}
           then Inl unavailable
           else (case open_envelope su ring bind kvs of
                   None \<Rightarrow> Inl unavailable | Some doc \<Rightarrow> Inr doc)))"

definition seal_control_response ::
  "suite \<Rightarrow> key_ring res \<Rightarrow> string \<Rightarrow> json \<Rightarrow> string \<Rightarrow> string \<Rightarrow> string \<Rightarrow> string \<Rightarrow> string res" where
  "seal_control_response su ring nonce value tenant_id storage_key request_hash resource_id =
     res_bind (binding ''control-replay'' [tenant_id, storage_key, request_hash, resource_id])
       (\<lambda>b. seal su ring nonce value b)"

record replay_row =
  rp_response_json :: string
  rp_tenant_id :: string
  rp_key :: string
  rp_request_hash :: string
  rp_resource_id :: string

definition read_control_response :: "suite \<Rightarrow> env \<Rightarrow> key_ring res \<Rightarrow> replay_row \<Rightarrow> json res" where
  "read_control_response su e ring row =
     res_bind (binding ''control-replay'' [rp_tenant_id row, rp_key row, rp_request_hash row, rp_resource_id row])
       (\<lambda>b. unseal su e ring (rp_response_json row) b)"

section \<open>Integration results\<close>

record result_row =
  ir_id :: string
  ir_tenant_id :: string
  ir_outbox_id :: string
  ir_source :: string
  ir_result_key :: string
  ir_payload_json :: string
  ir_created_at :: int

definition row_binding :: "result_row \<Rightarrow> string list res" where
  "row_binding row =
     binding ''integration-result'' [ir_tenant_id row, ir_outbox_id row, ir_source row, ir_result_key row]"

definition seal_integration_result ::
  "suite \<Rightarrow> key_ring res \<Rightarrow> string \<Rightarrow> json \<Rightarrow> string \<Rightarrow> string \<Rightarrow> string \<Rightarrow> string \<Rightarrow> string res" where
  "seal_integration_result su ring nonce value tenant_id outbox_id source result_key =
     res_bind (canonical su MAX_RESULT_BYTES value) (\<lambda>raw.
     res_bind (redact_result su value) (\<lambda>redacted.
     res_bind (binding ''integration-result'' [tenant_id, outbox_id, source, result_key]) (\<lambda>b.
       seal su ring nonce
         (JObj [(''schema_version'', JInt 1), (''request_hash'', JStr (su_sha256_hex su raw)),
                (''result'', redacted)]) b)))"

definition hex64 :: "string \<Rightarrow> bool" where
  "hex64 s \<longleftrightarrow> length s = 64 \<and> list_all (\<lambda>c. is_digit c \<or> c \<in> set ''abcdef'') s"

definition json_hex64 :: "json \<Rightarrow> bool" where
  "json_hex64 v = (case v of JStr s \<Rightarrow> hex64 s | _ \<Rightarrow> False)"

definition stamp_ok :: "suite \<Rightarrow> json \<Rightarrow> bool" where
  "stamp_ok su v = (case v of JStr s \<Rightarrow> length s \<le> 40 \<and> su_utc_of_iso su s \<noteq> None | _ \<Rightarrow> False)"

text \<open>
  \<open>integration_record\<close>: the authenticated document. The second reading of the row's text decides
  whether it is in the sealed format; a text that decodes to no object there cannot be reached.
\<close>

definition sealed_format :: "suite \<Rightarrow> string \<Rightarrow> bool" where
  "sealed_format su raw =
     (case Option.bind (su_loads su raw) json_obj of
        None \<Rightarrow> False | Some kvs \<Rightarrow> obj_get kvs ''format'' = JStr RESULT_FORMAT)"

definition record_shape :: "(string \<times> json) list \<Rightarrow> bool" where
  "record_shape value \<longleftrightarrow>
     set (map fst value) =
       (if obj_get value ''schema_version'' = JInt 1
        then {''schema_version'', ''request_hash'', ''result''}
        else {''schema_version'', ''request_hash'', ''purged_at'', ''policy_sha256''}) \<and>
     json_hex64 (obj_get value ''request_hash'')"

definition checked_record ::
  "suite \<Rightarrow> string \<Rightarrow> (string \<times> json) list \<Rightarrow> (string \<times> json) list res" where
  "checked_record su text_column value =
     (if \<not> sealed_format su text_column
      then res_bind (canonical su MAX_RESULT_BYTES (JObj value)) (\<lambda>raw.
           res_bind (redact_result su (JObj value)) (\<lambda>redacted.
             Inr [(''schema_version'', JInt 1), (''request_hash'', JStr (su_sha256_hex su raw)),
                  (''result'', redacted)]))
      else if obj_get value ''schema_version'' \<notin> {JInt 1, JInt 2} then Inl unavailable
      else if \<not> record_shape value then Inl unavailable
      else if obj_get value ''schema_version'' = JInt 1
      then res_bind (redact_result su (obj_get value ''result''))
             (\<lambda>redacted. Inr (obj_set ''result'' redacted value))
      else if stamp_ok su (obj_get value ''purged_at'') \<and> json_hex64 (obj_get value ''policy_sha256'')
      then Inr value
      else Inl unavailable)"

definition integration_record ::
  "suite \<Rightarrow> env \<Rightarrow> key_ring res \<Rightarrow> result_row \<Rightarrow> (string \<times> json) list res" where
  "integration_record su e ring row =
     res_bind (row_binding row) (\<lambda>b.
     res_bind (unseal su e ring (ir_payload_json row) b) (\<lambda>doc.
       case json_obj doc of
         None \<Rightarrow> Inl unavailable
       | Some value \<Rightarrow> checked_record su (ir_payload_json row) value))"

definition integration_document ::
  "suite \<Rightarrow> env \<Rightarrow> key_ring res \<Rightarrow> result_row \<Rightarrow> (json \<times> json) res" where
  "integration_document su e ring row =
     res_bind (integration_record su e ring row) (\<lambda>value.
       Inr (case map_of value ''result'' of None \<Rightarrow> JObj [] | Some r \<Rightarrow> r, obj_get value ''request_hash''))"

definition seal_result_tombstone ::
  "suite \<Rightarrow> env \<Rightarrow> key_ring res \<Rightarrow> string \<Rightarrow> result_row \<Rightarrow> int \<Rightarrow> string \<Rightarrow> string res" where
  "seal_result_tombstone su e ring nonce row current policy_sha256 =
     res_bind (integration_record su e ring row) (\<lambda>value.
       if obj_get value ''schema_version'' = JInt 2 then Inr (ir_payload_json row)
       else if \<not> hex64 policy_sha256 then Inl (ValueError ''invalid_retention_authority'')
       else res_bind (row_binding row) (\<lambda>b.
         seal su ring nonce
           (JObj [(''schema_version'', JInt 2), (''request_hash'', obj_get value ''request_hash''),
                  (''purged_at'', JStr (su_iso su current)), (''policy_sha256'', JStr policy_sha256)]) b))"

definition result_retention_seconds :: "env \<Rightarrow> int res" where
  "result_retention_seconds e =
     (case int_of_string (env_get e ''KLYROW_RESULT_RETENTION_SECONDS'' ''2592000'') of
        None \<Rightarrow> Inl (ValueError ''invalid literal for int()'')
      | Some r \<Rightarrow> if 3600 \<le> r \<and> r \<le> 7776000 then Inr r else Inl (ValueError ''invalid_result_retention''))"

definition result_matches ::
  "suite \<Rightarrow> env \<Rightarrow> key_ring res \<Rightarrow> result_row \<Rightarrow> json \<Rightarrow> bool res" where
  "result_matches su e ring row value =
     res_bind (integration_document su e ring row) (\<lambda>doc.
     res_bind (canonical su MAX_RESULT_BYTES value) (\<lambda>raw.
       Inr (snd doc = JStr (su_sha256_hex su raw))))"

record readback =
  rb_result :: json
  rb_availability :: string
  rb_expires_at :: "int option"
  rb_purged_at :: "json option"

definition result_readback ::
  "suite \<Rightarrow> env \<Rightarrow> key_ring res \<Rightarrow> result_row option \<Rightarrow> int \<Rightarrow> readback" where
  "result_readback su e ring orow current =
     (let nothing = (\<lambda>availability expires. \<lparr>rb_result = JObj [], rb_availability = availability,
                       rb_expires_at = expires, rb_purged_at = None\<rparr>)
      in case orow of
           None \<Rightarrow> nothing ''UNAVAILABLE'' None
         | Some row \<Rightarrow>
             (case result_retention_seconds e of
                Inl _ \<Rightarrow> nothing ''INVALID'' None
              | Inr retention \<Rightarrow>
                  (let expires = ir_created_at row + retention * 1000000
                   in case integration_record su e ring row of
                        Inl _ \<Rightarrow> nothing ''INVALID'' (Some expires)
                      | Inr value \<Rightarrow>
                          (if obj_get value ''schema_version'' = JInt 2
                           then (nothing ''PURGED'' (Some expires))
                                  \<lparr>rb_purged_at := Some (obj_get value ''purged_at'')\<rparr>
                           else if expires \<le> current then nothing ''EXPIRED'' (Some expires)
                           else (nothing ''AVAILABLE'' (Some expires))
                                  \<lparr>rb_result := obj_get value ''result''\<rparr>))))"

definition rewrap_integration_result ::
  "suite \<Rightarrow> env \<Rightarrow> key_ring res \<Rightarrow> string \<Rightarrow> result_row \<Rightarrow> string res" where
  "rewrap_integration_result su e ring nonce row =
     res_bind (integration_record su e ring row) (\<lambda>value.
     res_bind (row_binding row) (\<lambda>b. seal su ring nonce (JObj value) b))"

section \<open>Lemmas\<close>

lemma sort_doc_idem [simp]: "sort_doc (sort_doc v) = sort_doc v"
proof (induction v rule: sort_doc.induct)
  case (1 kvs)
  have "map (\<lambda>(k, v). (k, sort_doc v)) (sort_key fst (map (\<lambda>(k, v). (k, sort_doc v)) kvs)) =
      sort_key fst (map (\<lambda>(k, v). (k, sort_doc v)) kvs)"
    using 1 by (intro map_idI) auto
  then show ?case by (simp add: sort_key_id_if_sorted)
qed simp_all

lemma json_finite_sort_doc [simp]: "json_finite (sort_doc v) = json_finite v"
proof (induction v rule: sort_doc.induct)
  case (1 kvs)
  then show ?case by (force simp: list_all_iff)
qed (auto simp: list_all_iff)

lemma json_obj_sort_doc: "json_obj (sort_doc v) = None \<longleftrightarrow> json_obj v = None"
  by (cases v) simp_all

lemma canonical_sort_doc [simp]: "canonical su n (sort_doc v) = canonical su n v"
  by (simp add: canonical_def json_obj_sort_doc)

lemma canonical_Inr: "canonical su n v = Inr raw \<Longrightarrow> raw = su_dumps su (sort_doc v)"
  by (auto simp: canonical_def Let_def split: if_splits)

text \<open>
  The documented behaviour of the codecs and the cipher that the sealing relies on: Base64 is
  invertible; the cipher gives the plain text back under the same associated data and nothing under
  any other.
\<close>

definition cipher_laws :: "suite \<Rightarrow> bool" where
  "cipher_laws su \<longleftrightarrow> (\<forall>s. su_b64decode su (su_b64encode su s) = Some s) \<and>
     (\<forall>k n p a a'. su_decrypt su k n (su_encrypt su k n p a) a' = (if a' = a then Some p else None))"

definition decodes :: "suite \<Rightarrow> json \<Rightarrow> bool" where
  "decodes su v \<longleftrightarrow> su_loads su (su_dumps su v) = Some v"

definition envelope_doc :: "string \<Rightarrow> string \<Rightarrow> string \<Rightarrow> json" where
  "envelope_doc cipher kid nonce = JObj [(''ciphertext'', JStr cipher), (''format'', JStr RESULT_FORMAT),
     (''kid'', JStr kid), (''nonce'', JStr nonce)]"

lemma seal_cases:
  assumes "seal su (Inr keys) nonce value bind = Inr raw"
  obtains key where "map_of (kr_keys keys) (kr_active_key_id keys) = Some key"
    and "canonical su MAX_DOCUMENT_BYTES value = Inr (su_dumps su (sort_doc value))"
    and "raw = su_dumps su (envelope_doc (su_b64encode su (su_encrypt su key nonce (su_dumps su (sort_doc value))
           (aad_of su (kr_active_key_id keys) bind))) (kr_active_key_id keys) (su_b64encode su nonce))"
proof -
  obtain key plain where "map_of (kr_keys keys) (kr_active_key_id keys) = Some key"
    "canonical su MAX_DOCUMENT_BYTES value = Inr plain"
    "raw = su_dumps su (envelope_doc (su_b64encode su (su_encrypt su key nonce plain
           (aad_of su (kr_active_key_id keys) bind))) (kr_active_key_id keys) (su_b64encode su nonce))"
    using assms by (auto simp: seal_def Let_def envelope_doc_def split: option.splits sum.splits)
  moreover from this(2) have "plain = su_dumps su (sort_doc value)" by (rule canonical_Inr)
  ultimately show thesis using that by simp
qed

lemma unseal_sealed:
  assumes "seal su (Inr keys) nonce value bind = Inr raw"
    and "map_of (kr_keys keys') (kr_active_key_id keys) = map_of (kr_keys keys) (kr_active_key_id keys)"
    and "cipher_laws su" and "length nonce = 12" and "int (length raw) \<le> MAX_ENVELOPE_BYTES"
    and "decodes su (sort_doc value)" and "\<forall>c k n. raw = su_dumps su (envelope_doc c k n) \<longrightarrow>
      decodes su (envelope_doc c k n)"
  shows "unseal su e (Inr keys') raw bind' =
    (if aad_of su (kr_active_key_id keys) bind' = aad_of su (kr_active_key_id keys) bind
     then Inr (sort_doc value) else Inl unavailable)"
proof -
  let ?kid = "kr_active_key_id keys"
  obtain key where k: "map_of (kr_keys keys) ?kid = Some key"
    "canonical su MAX_DOCUMENT_BYTES value = Inr (su_dumps su (sort_doc value))"
    "raw = su_dumps su (envelope_doc (su_b64encode su (su_encrypt su key nonce (su_dumps su (sort_doc value))
           (aad_of su ?kid bind))) ?kid (su_b64encode su nonce))"
    using seal_cases [OF assms(1)] .
  have key: "map_of (kr_keys keys') ?kid = Some key" using k(1) assms(2) by simp
  have loads: "su_loads su raw = Some (envelope_doc (su_b64encode su (su_encrypt su key nonce
      (su_dumps su (sort_doc value)) (aad_of su ?kid bind))) ?kid (su_b64encode su nonce))"
    using assms(7) k(3) by (simp add: decodes_def)
  have keys: "set [''ciphertext'', ''format'', ''kid'', ''nonce''] = {''format'', ''kid'', ''nonce'', ''ciphertext''}"
    by auto
  have b64: "su_b64decode su (su_b64encode su s) = Some s" for s using assms(3) by (simp add: cipher_laws_def)
  have dec: "su_decrypt su key nonce (su_encrypt su key nonce p a) a' = (if a' = a then Some p else None)" for p a a'
    using assms(3) by (simp add: cipher_laws_def)
  show ?thesis
    using assms(4,5,6) k(2) key
    by (simp add: unseal_def loads envelope_doc_def keys open_envelope_def obj_get_def b64 dec decodes_def
        del: set_map set_simps)
qed

subsection \<open>Redaction\<close>

text \<open>
  The specification of redaction, independent of the code's word lists and of its traversal: the words
  that no name may contain, where a name counts by its letters and digits in lower case; the document
  that redaction has to yield; and the documents within the bounds on depth and list length, which do not
  count what is redacted.
\<close>

definition FORBIDDEN_WORDS :: "string set" where
  "FORBIDDEN_WORDS = {''accesskey'', ''apikey'', ''authorization'', ''body'', ''cardnumber'', ''cookie'', ''credential'', ''cvv'',
     ''email'', ''headers'', ''html'', ''mime'', ''password'', ''phone'', ''privatekey'', ''raw'', ''recipient'', ''secret'',
     ''session'', ''signature'', ''token'', ''uri'', ''url''}"

definition forbidden_name :: "string \<Rightarrow> bool" where
  "forbidden_name name \<longleftrightarrow> (\<exists>word \<in> FORBIDDEN_WORDS. \<exists>a b.
     filter (\<lambda>c. CHR ''a'' \<le> c \<and> c \<le> CHR ''z'' \<or> CHR ''0'' \<le> c \<and> c \<le> CHR ''9'') (lower name) = a @ word @ b)"

fun redaction_of :: "json \<Rightarrow> json" where
  "redaction_of (JObj kvs) =
     JObj (map (\<lambda>(k, v). (k, if forbidden_name k then JStr ''[REDACTED]'' else redaction_of v)) kvs)"
| "redaction_of (JList xs) = JList (map redaction_of xs)"
| "redaction_of v = v"

fun bounded :: "nat \<Rightarrow> json \<Rightarrow> bool" where
  "bounded d (JObj kvs) = (d \<le> 12 \<and> list_all (\<lambda>(k, v). forbidden_name k \<or> bounded (Suc d) v) kvs)"
| "bounded d (JList xs) = (d \<le> 12 \<and> length xs \<le> 1000 \<and> list_all (bounded (Suc d)) xs)"
| "bounded d v = (d \<le> 12)"

fun redacted :: "json \<Rightarrow> bool" where
  "redacted (JObj kvs) =
     list_all (\<lambda>(k, v). if forbidden_name k then v = JStr ''[REDACTED]'' else redacted v) kvs"
| "redacted (JList xs) = list_all redacted xs"
| "redacted _ = True"

lemma contains_infix: "contains p xs \<longleftrightarrow> (\<exists>a b. xs = a @ p @ b)"
proof (induction xs)
  case (Cons x xs)
  have "starts_with p (x # xs) \<longleftrightarrow> (\<exists>b. x # xs = p @ b)"
    unfolding starts_with_def by (metis append_eq_conv_conj append_take_drop_id)
  moreover have "(\<exists>a b. x # xs = a @ p @ b) \<longleftrightarrow> (\<exists>b. x # xs = p @ b) \<or> (\<exists>a b. xs = a @ p @ b)"
    by (metis append_Cons append_Nil list.exhaust list.inject)
  ultimately show ?case using Cons by simp
qed auto

lemma normalized_letters:
  "normalized_name name =
     filter (\<lambda>c. CHR ''a'' \<le> c \<and> c \<le> CHR ''z'' \<or> CHR ''0'' \<le> c \<and> c \<le> CHR ''9'') (lower name)"
  unfolding normalized_name_def by (rule filter_cong) (auto simp: is_digit_def Let_def less_eq_char_def)

text \<open>The code lists some words that contain others; they forbid nothing more.\<close>

lemma contains_part: "contains (a @ w @ b) xs \<Longrightarrow> contains w xs"
  unfolding contains_infix by (metis append.assoc)

lemma listed_parts:
  assumes "contains x n"
    and "x \<in> set [''htmlbody'', ''textbody'', ''recipients'', ''reseturl'', ''verificationurl'']"
  shows "contains ''body'' n \<or> contains ''recipient'' n \<or> contains ''url'' n"
  using assms contains_part [of "''html''" "''body''" "[]" n] contains_part [of "''text''" "''body''" "[]" n]
    contains_part [of "[]" "''recipient''" "''s''" n] contains_part [of "''reset''" "''url''" "[]" n]
    contains_part [of "''verification''" "''url''" "[]" n]
  by auto

lemma sensitive_forbidden: "sensitive_name name = forbidden_name name"
proof -
  have words: "set (CONTENT @ SENSITIVE) =
      FORBIDDEN_WORDS \<union> set [''htmlbody'', ''textbody'', ''recipients'', ''reseturl'', ''verificationurl'']"
    by (auto simp: CONTENT_def SENSITIVE_def FORBIDDEN_WORDS_def)
  have parts: "{''body'', ''recipient'', ''url''} \<subseteq> FORBIDDEN_WORDS" by (simp add: FORBIDDEN_WORDS_def)
  have "sensitive_name name \<longleftrightarrow> (\<exists>w \<in> set (CONTENT @ SENSITIVE). contains w (normalized_name name))"
    by (simp add: sensitive_name_def list_ex_iff del: set_append)
  also have "\<dots> \<longleftrightarrow> (\<exists>w \<in> FORBIDDEN_WORDS. contains w (normalized_name name))"
    unfolding words using listed_parts parts by blast
  finally show ?thesis by (simp add: forbidden_name_def contains_infix normalized_letters)
qed

lemma visit_is_redaction:
  "visit d v = Inr out \<longleftrightarrow> bounded d v \<and> out = redaction_of v"
  "visit_fields d kvs = Inr outs \<longleftrightarrow> list_all (\<lambda>(k, v). forbidden_name k \<or> bounded d v) kvs \<and>
     outs = map (\<lambda>(k, v). (k, if forbidden_name k then JStr ''[REDACTED]'' else redaction_of v)) kvs"
  "visit_items d vs = Inr vouts \<longleftrightarrow> list_all (bounded d) vs \<and> vouts = map redaction_of vs"
proof (induction d v and d kvs and d vs arbitrary: out and outs and vouts
    rule: visit_visit_fields_visit_items.induct)
  case (9 depth name child rest)
  then show ?case
    by (cases "forbidden_name name") (auto simp: res_bind_Inr sensitive_forbidden)
qed (auto simp: res_bind_Inr)

lemma redaction_redacted: "redacted (redaction_of v)"
  by (induction v rule: redaction_of.induct) (auto simp: list_all_iff)

lemma redaction_idem: "redaction_of (redaction_of v) = redaction_of v"
  by (induction v rule: redaction_of.induct) auto

subsection \<open>Records and tombstones\<close>

lemma sorted_object:
  assumes "distinct (map fst kvs)"
  obtains kvs' where "sort_doc (JObj kvs) = JObj kvs'"
    and "\<And>k. map_of kvs' k = map_option sort_doc (map_of kvs k)"
    and "set (map fst kvs') = set (map fst kvs)"
proof
  let ?m = "map (\<lambda>(k, v). (k, sort_doc v)) kvs"
  have "distinct (map fst ?m)" using assms by (simp add: comp_def split_def)
  then show "map_of (sort_key fst ?m) k = map_option sort_doc (map_of kvs k)" for k
    by (simp add: map_of_sort_key map_of_map)
  show "set (map fst (sort_key fst ?m)) = set (map fst kvs)" by force
qed simp

lemma redact_result_Inr:
  "redact_result su x = Inr out \<longleftrightarrow>
     (\<exists>raw. canonical su MAX_RESULT_BYTES x = Inr raw) \<and> bounded 0 x \<and> out = redaction_of x"
  by (auto simp: redact_result_def res_bind_Inr visit_is_redaction)

lemma redact_result_redacted: "redact_result su x = Inr out \<Longrightarrow> redacted out"
  by (simp add: redact_result_Inr redaction_redacted)

lemma checked_record_fields:
  assumes "checked_record su raw old = Inr value"
  shows "obj_get value ''schema_version'' = JInt 1 \<and> (\<exists>r. map_of value ''result'' = Some r \<and> redacted r) \<or>
    obj_get value ''schema_version'' = JInt 2 \<and> map_of value ''result'' = None"
proof -
  consider (legacy) "\<not> sealed_format su raw"
    | (one) "sealed_format su raw" "obj_get old ''schema_version'' = JInt 1"
    | (two) "sealed_format su raw" "obj_get old ''schema_version'' \<noteq> JInt 1" by blast
  then show ?thesis
  proof cases
    case legacy
    then show ?thesis using assms redact_result_redacted
      by (auto simp: checked_record_def res_bind_Inr obj_get_def)
  next
    case one
    then show ?thesis using assms redact_result_redacted
      by (auto simp: checked_record_def res_bind_Inr split: if_splits)
  next
    case two
    then have v: "obj_get old ''schema_version'' = JInt 2" "value = old"
      "record_shape old"
      using assms by (auto simp: checked_record_def split: if_splits)
    then have v3: "set (map fst old) = {''schema_version'', ''request_hash'', ''purged_at'', ''policy_sha256''}"
      by (simp add: record_shape_def)
    have "''result'' \<notin> fst ` set old" using v3 by simp
    then have "map_of old ''result'' = None" by (simp add: map_of_eq_None_iff)
    then show ?thesis using v by simp
  qed
qed

lemma integration_record_cases:
  assumes "integration_record su e ring row = Inr value"
  obtains b old where "row_binding row = Inr b" and "unseal su e ring (ir_payload_json row) b = Inr (JObj old)"
    and "checked_record su (ir_payload_json row) old = Inr value"
proof -
  obtain b doc where d: "row_binding row = Inr b" "unseal su e ring (ir_payload_json row) b = Inr doc"
      "(case json_obj doc of None \<Rightarrow> Inl unavailable
        | Some value \<Rightarrow> checked_record su (ir_payload_json row) value) = Inr value"
    using assms unfolding integration_record_def res_bind_Inr by blast
  then show thesis using that by (cases doc) auto
qed

lemma checked_record_hash:
  assumes "checked_record su raw old = Inr value" and "\<forall>s. hex64 (su_sha256_hex su s)"
  shows "json_hex64 (obj_get value ''request_hash'')"
proof (cases "sealed_format su raw")
  case True
  then have "record_shape old \<and> (value = old \<or> (\<exists>r. value = obj_set ''result'' r old))"
    using assms(1) by (auto simp: checked_record_def res_bind_Inr split: if_splits)
  then show ?thesis by (auto simp: record_shape_def)
next
  case False
  then show ?thesis using assms
    by (auto simp: checked_record_def res_bind_Inr obj_get_def json_hex64_def)
qed

lemma checked_tombstone:
  assumes "sealed_format su raw" and "json_hex64 h" and "stamp_ok su stamp" and "json_hex64 policy"
    and "sort_doc (JObj [(''schema_version'', JInt 2), (''request_hash'', h), (''purged_at'', stamp),
      (''policy_sha256'', policy)]) = JObj kvs"
  shows "checked_record su raw kvs = Inr kvs \<and> obj_get kvs ''schema_version'' = JInt 2 \<and>
    obj_get kvs ''request_hash'' = h \<and> obj_get kvs ''purged_at'' = stamp"
proof -
  have str: "sort_doc v = v" if "json_hex64 v \<or> stamp_ok su v" for v
    using that by (cases v) (auto simp: json_hex64_def stamp_ok_def)
  have d: "distinct (map fst [(''schema_version'', JInt 2), (''request_hash'', h), (''purged_at'', stamp),
      (''policy_sha256'', policy)])" by simp
  obtain kvs' where k: "kvs = kvs'"
    "\<And>k. map_of kvs' k = map_option sort_doc (map_of [(''schema_version'', JInt 2), (''request_hash'', h),
       (''purged_at'', stamp), (''policy_sha256'', policy)] k)"
    "set (map fst kvs') = set (map fst [(''schema_version'', JInt 2), (''request_hash'', h), (''purged_at'', stamp),
      (''policy_sha256'', policy)])"
    using sorted_object [OF d] assms(5) by (metis json.inject(6))
  have get: "obj_get kvs ''schema_version'' = JInt 2" "obj_get kvs ''request_hash'' = h"
    "obj_get kvs ''purged_at'' = stamp" "obj_get kvs ''policy_sha256'' = policy"
    using str assms(2-4) by (simp_all add: obj_get_def k(1,2))
  then show ?thesis using assms(1-4) k(3)
    by (simp add: checked_record_def record_shape_def k(1) del: set_map)
qed

section \<open>Properties\<close>

text \<open>The JSON text of a list of strings determines the list.\<close>

definition array_text_injective :: "suite \<Rightarrow> bool" where
  "array_text_injective su \<longleftrightarrow>
     (\<forall>xs ys. su_dumps su (JList (map JStr xs)) = su_dumps su (JList (map JStr ys)) \<longrightarrow> xs = ys)"

text \<open>
  C26. What \<open>seal\<close> wrote, \<open>unseal\<close> opens in the same context and in no other: with any keyring that
  still holds the key, rotated or not, the same binding gives the document back, up to the order of
  its keys, and every other binding (another kind, tenant, operation, request hash or result key in any
  of its places) gives the one refusal.
\<close>

theorem sealed_opens_only_in_context:
  assumes "seal su (Inr keys) nonce value bind = Inr raw"
    and "map_of (kr_keys keys') (kr_active_key_id keys) = map_of (kr_keys keys) (kr_active_key_id keys)"
    and "cipher_laws su" and "length nonce = 12" and "int (length raw) \<le> MAX_ENVELOPE_BYTES"
    and "decodes su (sort_doc value)"
    and "\<forall>c k n. raw = su_dumps su (envelope_doc c k n) \<longrightarrow> decodes su (envelope_doc c k n)"
    and "array_text_injective su"
  shows "unseal su e (Inr keys') raw bind' =
    (if bind' = bind then Inr (sort_doc value) else Inl (HTTPException 503 ''durable_result_unavailable''))"
proof -
  have "aad_of su kid bind' = aad_of su kid bind \<longleftrightarrow> bind' = bind" for kid
    using assms(8) unfolding aad_of_def array_text_injective_def by blast
  then show ?thesis unfolding unseal_sealed [OF assms(1-7)] unavailable_def by simp
qed

text \<open>
  C28. Redaction does exactly what it is for. It succeeds on the objects of at most 64 KiB of finite
  JSON that are at most twelve levels deep and whose lists have at most a thousand entries, not counting
  what is redacted; the answer is the document with the mark in place of the value of every field, at
  every depth, whose name contains a forbidden word, and with every other field, entry and value as it
  was; and to redact the answer would change nothing.
\<close>

theorem redaction_complete:
  "(redact_result su value = Inr out \<longleftrightarrow>
      (\<exists>raw. canonical su MAX_RESULT_BYTES value = Inr raw) \<and> bounded 0 value \<and> out = redaction_of value) \<and>
   redaction_of (redaction_of value) = redaction_of value"
  by (simp add: redact_result_Inr redaction_idem)

text \<open>What a result row shows: the redacted result of its sealed document, or all of a legacy one, redacted.\<close>

definition opens_for_row :: "suite \<Rightarrow> (string \<times> string) list \<Rightarrow> result_row \<Rightarrow> json \<Rightarrow> bool" where
  "opens_for_row su keys row doc \<longleftrightarrow>
     (\<exists>kid key nonce cipher plain. map_of keys kid = Some key \<and>
        su_decrypt su key nonce cipher
          (su_dumps su (JList (map JStr [RESULT_FORMAT, kid, ''integration-result'', ir_tenant_id row, ir_outbox_id row,
             ir_source row, ir_result_key row]))) = Some plain \<and>
        su_loads su plain = Some doc)"

lemma unseal_opens:
  assumes "unseal su e ring raw bind = Inr doc"
  shows "(\<exists>keys kid key nonce cipher plain. ring = Inr keys \<and> map_of (kr_keys keys) kid = Some key \<and>
        su_decrypt su key nonce cipher (aad_of su kid bind) = Some plain \<and> su_loads su plain = Some doc \<and> sealed_format su raw) \<or>
    (\<exists>kvs. su_loads su raw = Some (JObj kvs) \<and> map_of kvs ''format'' = None \<and> doc = JObj kvs \<and>
       lower (env_get e ''KLYROW_DURABLE_RESULT_LEGACY_READ_ENABLED'' ''true'') = ''true'')"
proof -
  obtain kvs where kvs: "su_loads su raw = Some (JObj kvs)"
  proof (cases "su_loads su raw")
    case None
    then show thesis using assms by (simp add: unseal_def split: if_splits)
  next
    case (Some v)
    then show thesis using assms that by (cases v) (auto simp: unseal_def split: if_splits)
  qed
  show ?thesis
  proof (cases "map_of kvs ''format'' = None")
    case True
    then show ?thesis using assms kvs by (auto simp: unseal_def split: if_splits sum.splits)
  next
    case False
    then have o: "open_envelope su ring bind kvs = Some doc" and f: "obj_get kvs ''format'' = JStr RESULT_FORMAT"
      using assms kvs by (auto simp: unseal_def split: if_splits option.splits)
    then show ?thesis
      using kvs
      by (auto simp: open_envelope_def sealed_format_def bind_eq_Some_conv split: sum.splits json.splits option.splits if_splits)
  qed
qed

lemma checked_record_shows:
  assumes "checked_record su raw kvs = Inr value" and "obj_get value ''schema_version'' \<noteq> JInt 2"
  shows "obj_get value ''result'' =
    (if sealed_format su raw then redaction_of (obj_get kvs ''result'') else redaction_of (JObj kvs))"
  using assms
  by (auto simp: checked_record_def res_bind_Inr obj_get_def redact_result_Inr split: if_splits)

text \<open>
  C29. A readback shows a result exactly when it is available: the row's record can be read, is no
  tombstone, and is younger than the retention. What it then shows is redacted, and authentic: it is the
  redacted result of a document that decrypts, under a key of the keyring, with the row's own tenant,
  operation, source and result key as associated data; or, while legacy reads are switched on, the
  redaction of a row stored unsealed. In every other case (no row, unreadable, purged, expired) it shows
  the empty result.
\<close>

theorem readback_only_when_available:
  assumes "result_readback su e ring orow current = rb"
  shows "(rb_availability rb = ''AVAILABLE'' \<longleftrightarrow> (\<exists>row value retention. orow = Some row \<and>
      integration_record su e ring row = Inr value \<and> obj_get value ''schema_version'' \<noteq> JInt 2 \<and>
      result_retention_seconds e = Inr retention \<and> current < ir_created_at row + retention * 1000000)) \<and>
    (if rb_availability rb = ''AVAILABLE''
     then redacted (rb_result rb) \<and> (\<exists>row. orow = Some row \<and>
       ((\<exists>keys kvs. ring = Inr keys \<and> opens_for_row su (kr_keys keys) row (JObj kvs) \<and>
           rb_result rb = redaction_of (obj_get kvs ''result'')) \<or>
        (\<exists>kvs. lower (env_get e ''KLYROW_DURABLE_RESULT_LEGACY_READ_ENABLED'' ''true'') = ''true'' \<and>
           su_loads su (ir_payload_json row) = Some (JObj kvs) \<and> map_of kvs ''format'' = None \<and>
           rb_result rb = redaction_of (JObj kvs))))
     else rb_result rb = JObj [])"
proof (cases "\<exists>row value retention. orow = Some row \<and> integration_record su e ring row = Inr value \<and>
    obj_get value ''schema_version'' \<noteq> JInt 2 \<and> result_retention_seconds e = Inr retention \<and>
    current < ir_created_at row + retention * 1000000")
  case True
  then obtain row v retention where r: "orow = Some row" "integration_record su e ring row = Inr v"
      "obj_get v ''schema_version'' \<noteq> JInt 2" "result_retention_seconds e = Inr retention"
      "current < ir_created_at row + retention * 1000000"
    by blast
  have rb: "rb_availability rb = ''AVAILABLE''" "rb_result rb = obj_get v ''result''"
    using assms r by (auto simp: result_readback_def Let_def)
  obtain b old where old: "row_binding row = Inr b" "unseal su e ring (ir_payload_json row) b = Inr (JObj old)"
      "checked_record su (ir_payload_json row) old = Inr v"
    using integration_record_cases [OF r(2)] by blast
  have b: "b = [''integration-result'', ir_tenant_id row, ir_outbox_id row, ir_source row, ir_result_key row]"
    using old(1) by (auto simp: row_binding_def binding_def split: if_splits)
  note shown = checked_record_shows [OF old(3) r(3)]
  have "redacted (rb_result rb)" unfolding rb(2) shown by (metis redaction_redacted)
  moreover have "(\<exists>keys kvs. ring = Inr keys \<and> opens_for_row su (kr_keys keys) row (JObj kvs) \<and>
        rb_result rb = redaction_of (obj_get kvs ''result'')) \<or>
      (\<exists>kvs. lower (env_get e ''KLYROW_DURABLE_RESULT_LEGACY_READ_ENABLED'' ''true'') = ''true'' \<and>
        su_loads su (ir_payload_json row) = Some (JObj kvs) \<and> map_of kvs ''format'' = None \<and>
        rb_result rb = redaction_of (JObj kvs))"
    using unseal_opens [OF old(2)]
  proof
    assume "\<exists>keys kid key nonce cipher plain. ring = Inr keys \<and> map_of (kr_keys keys) kid = Some key \<and>
        su_decrypt su key nonce cipher (aad_of su kid b) = Some plain \<and> su_loads su plain = Some (JObj old) \<and>
        sealed_format su (ir_payload_json row)"
    then show ?thesis
      using shown rb(2) unfolding aad_of_def b opens_for_row_def by fastforce
  next
    assume "\<exists>kvs. su_loads su (ir_payload_json row) = Some (JObj kvs) \<and> map_of kvs ''format'' = None \<and> JObj old = JObj kvs \<and>
       lower (env_get e ''KLYROW_DURABLE_RESULT_LEGACY_READ_ENABLED'' ''true'') = ''true''"
    moreover from this have "\<not> sealed_format su (ir_payload_json row)" by (auto simp: sealed_format_def obj_get_def)
    ultimately show ?thesis using shown rb(2) by auto
  qed
  ultimately show ?thesis using True rb(1) r(1) by simp
next
  case False
  then have "rb_availability rb \<noteq> ''AVAILABLE'' \<and> rb_result rb = JObj []"
    using assms by (auto simp: result_readback_def Let_def split: option.splits sum.splits if_splits)
  with False show ?thesis by auto
qed

text \<open>
  Purging a result leaves a tombstone: the row then reads back as purged and shows nothing, its
  record keeps the digest of the request and the purge time, and purging again leaves the row as it
  is.
\<close>

theorem tombstone_hides_result:
  assumes "integration_record su e (Inr keys) row = Inr value" and "obj_get value ''schema_version'' = JInt 1"
    and "seal_result_tombstone su e (Inr keys) nonce row t policy = Inr raw"
    and "cipher_laws su" and "length nonce = 12" and "int (length raw) \<le> MAX_ENVELOPE_BYTES"
    and "\<forall>s. hex64 (su_sha256_hex su s)" and "stamp_ok su (JStr (su_iso su t))"
    and "decodes su (sort_doc (JObj [(''schema_version'', JInt 2),
      (''request_hash'', obj_get value ''request_hash''), (''purged_at'', JStr (su_iso su t)),
      (''policy_sha256'', JStr policy)]))"
    and "\<forall>c k n. raw = su_dumps su (envelope_doc c k n) \<longrightarrow> decodes su (envelope_doc c k n)"
    and "result_retention_seconds e = Inr retention"
  shows "rb_availability (result_readback su e (Inr keys) (Some (row\<lparr>ir_payload_json := raw\<rparr>)) now) = ''PURGED'' \<and>
    rb_result (result_readback su e (Inr keys) (Some (row\<lparr>ir_payload_json := raw\<rparr>)) now) = JObj [] \<and>
    (\<exists>tomb. integration_record su e (Inr keys) (row\<lparr>ir_payload_json := raw\<rparr>) = Inr tomb \<and>
       obj_get tomb ''request_hash'' = obj_get value ''request_hash'' \<and>
       obj_get tomb ''purged_at'' = JStr (su_iso su t)) \<and>
    seal_result_tombstone su e (Inr keys) nonce2 (row\<lparr>ir_payload_json := raw\<rparr>) t2 policy2 = Inr raw"
proof -
  let ?doc = "JObj [(''schema_version'', JInt 2), (''request_hash'', obj_get value ''request_hash''),
    (''purged_at'', JStr (su_iso su t)), (''policy_sha256'', JStr policy)]"
  let ?row = "row\<lparr>ir_payload_json := raw\<rparr>"
  obtain b old where b: "row_binding row = Inr b" "checked_record su (ir_payload_json row) old = Inr value"
    using integration_record_cases [OF assms(1)] by blast
  have sealed: "seal su (Inr keys) nonce ?doc b = Inr raw" and policy: "hex64 policy"
    using assms(1-3) b(1) by (auto simp: seal_result_tombstone_def split: if_splits)
  have hash: "json_hex64 (obj_get value ''request_hash'')" using checked_record_hash [OF b(2) assms(7)] .
  obtain kvs where kvs: "sort_doc ?doc = JObj kvs" by simp
  have "unseal su e (Inr keys) raw b = Inr (JObj kvs)"
    using unseal_sealed [OF sealed refl assms(4-6,9,10), of e b] kvs by simp
  moreover have "sealed_format su raw"
  proof (rule seal_cases [OF sealed])
    fix key assume "raw = su_dumps su (envelope_doc (su_b64encode su (su_encrypt su key nonce
        (su_dumps su (sort_doc ?doc)) (aad_of su (kr_active_key_id keys) b))) (kr_active_key_id keys)
        (su_b64encode su nonce))"
    with assms(10) have "\<exists>c k n. su_loads su raw = Some (envelope_doc c k n)" by (auto simp: decodes_def)
    then show ?thesis by (auto simp: sealed_format_def envelope_doc_def obj_get_def)
  qed
  then have "checked_record su raw kvs = Inr kvs \<and> obj_get kvs ''schema_version'' = JInt 2 \<and>
      obj_get kvs ''request_hash'' = obj_get value ''request_hash'' \<and>
      obj_get kvs ''purged_at'' = JStr (su_iso su t)"
    using checked_tombstone [OF _ hash assms(8) _ kvs] policy by (simp add: json_hex64_def)
  moreover have "row_binding ?row = Inr b" using b(1) by (simp add: row_binding_def)
  ultimately have "integration_record su e (Inr keys) ?row = Inr kvs"
    "obj_get kvs ''schema_version'' = JInt 2"
    "obj_get kvs ''request_hash'' = obj_get value ''request_hash''"
    "obj_get kvs ''purged_at'' = JStr (su_iso su t)"
    by (simp_all add: integration_record_def)
  then show ?thesis using assms(11)
    by (simp add: result_readback_def seal_result_tombstone_def Let_def)
qed

section \<open>A concrete suite\<close>

text \<open>Blocks with their length in unary in front stand for the codecs and the cipher.\<close>

definition block :: "string \<Rightarrow> string" where
  "block s = replicate (length s) (CHR 0x01) @ CHR 0x02 # s"

definition take_block :: "string \<Rightarrow> string \<times> string" where
  "take_block s = (let n = length (takeWhile (\<lambda>c. c = CHR 0x01) s)
     in (take n (drop (n + 1) s), drop (2 * n + 1) s))"

lemma takeWhile_block: "takeWhile (\<lambda>c. c = CHR 0x01) (replicate n (CHR 0x01) @ CHR 0x02 # t) = replicate n (CHR 0x01)"
  by (induction n) simp_all

lemma take_block_block [simp]: "take_block (block s @ r) = (s, r)"
proof -
  have "takeWhile (\<lambda>c. c = CHR 0x01) (block s @ r) = replicate (length s) (CHR 0x01)"
    by (simp add: block_def takeWhile_block)
  then show ?thesis by (simp add: take_block_def Let_def block_def mult_2)
qed

definition plain_dumps :: "json \<Rightarrow> string" where
  "plain_dumps v =
     (case v of
        JObj [(a, JStr c), (b, JStr f), (d, JStr k), (e, JStr n)] \<Rightarrow>
          (if f = RESULT_FORMAT then ''E'' @ block k @ block n @ c else ''D'')
      | JList vs \<Rightarrow> concat (map (\<lambda>v. block (case v of JStr s \<Rightarrow> s | _ \<Rightarrow> [])) vs)
      | _ \<Rightarrow> ''D'')"

definition legacy_doc :: json where "legacy_doc = JObj [(''a'', JInt 1)]"

definition plain_suite :: "json \<Rightarrow> suite" where
  "plain_suite doc = \<lparr>su_dumps = plain_dumps,
     su_loads = (\<lambda>s. case s of [] \<Rightarrow> None
        | ch # r \<Rightarrow> if ch = CHR ''E''
            then Some (case take_block r of (k, r1) \<Rightarrow> case take_block r1 of (n, c) \<Rightarrow> envelope_doc c k n)
            else if ch = CHR ''D'' then Some doc else Some legacy_doc),
     su_sha256_hex = (\<lambda>_. replicate 64 (CHR ''a'')),
     su_b64encode = (\<lambda>s. s), su_b64decode = Some,
     su_encrypt = (\<lambda>k n p a. block a @ p),
     su_decrypt = (\<lambda>k n c a. case take_block c of (a', p) \<Rightarrow> if a = a' then Some p else None),
     su_utc_of_iso = (\<lambda>_. Some 0), su_iso = (\<lambda>_. ''t'')\<rparr>"

definition plain_ring :: key_ring where
  "plain_ring = \<lparr>kr_active_key_id = ''k'', kr_keys = [(''k'', replicate 32 (CHR ''x''))]\<rparr>"

definition plain_nonce :: string where "plain_nonce = replicate 12 (CHR ''n'')"

lemma plain_laws: "cipher_laws (plain_suite doc)"
  by (auto simp: cipher_laws_def plain_suite_def split: prod.splits)

lemma block_inject:
  assumes "block x @ r = block y @ s"
  shows "x = y \<and> r = s"
proof -
  have "take_block (block x @ r) = (y, s)" unfolding assms by (rule take_block_block)
  then show ?thesis by simp
qed

lemma plain_arrays: "array_text_injective (plain_suite doc)"
proof -
  have texts: "plain_dumps (JList (map JStr xs)) = concat (map block xs)" for xs
    by (simp add: plain_dumps_def comp_def)
  have "concat (map block xs) = concat (map block ys) \<Longrightarrow> xs = ys" for xs ys
  proof (induction xs arbitrary: ys)
    case Nil
    then show ?case by (cases ys) (auto simp: block_def)
  next
    case (Cons x xs)
    then obtain y zs where ys: "ys = y # zs" by (cases ys) (auto simp: block_def)
    then have "block x @ concat (map block xs) = block y @ concat (map block zs)" using Cons.prems by simp
    from block_inject [OF this] show ?case using Cons.IH ys by blast
  qed
  then show ?thesis by (simp add: array_text_injective_def plain_suite_def texts)
qed

lemma plain_decodes_envelope: "decodes (plain_suite doc) (envelope_doc c k n)"
proof -
  have "plain_dumps (envelope_doc c k n) = CHR ''E'' # block k @ block n @ c"
    by (simp add: plain_dumps_def envelope_doc_def)
  then show ?thesis by (simp add: decodes_def plain_suite_def)
qed

theorem sealed_opens_only_in_context_witness:
  "\<exists>raw :: string. seal (plain_suite legacy_doc) (Inr plain_ring) plain_nonce legacy_doc [''r'', ''t1''] = Inr raw \<and>
     unseal (plain_suite legacy_doc) Map.empty (Inr plain_ring) raw [''r'', ''t1''] = Inr legacy_doc \<and>
     unseal (plain_suite legacy_doc) Map.empty (Inr plain_ring) raw [''r'', ''t2''] =
       Inl (HTTPException 503 ''durable_result_unavailable'')"
proof -
  let ?su = "plain_suite legacy_doc"
  have "\<exists>raw. seal ?su (Inr plain_ring) plain_nonce legacy_doc [''r'', ''t1''] = Inr raw \<and> length raw \<le> 200"
  proof -
    have "(case seal ?su (Inr plain_ring) plain_nonce legacy_doc [''r'', ''t1''] of Inl _ \<Rightarrow> False
        | Inr raw \<Rightarrow> length raw \<le> 200)" by code_simp
    then show ?thesis by (auto split: sum.splits)
  qed
  then obtain raw where raw: "seal ?su (Inr plain_ring) plain_nonce legacy_doc [''r'', ''t1''] = Inr raw"
    "length raw \<le> 200" by blast
  have doc: "sort_doc legacy_doc = legacy_doc" "decodes ?su (sort_doc legacy_doc)"
    by (simp_all add: legacy_doc_def decodes_def plain_suite_def plain_dumps_def)
  have small: "int (length raw) \<le> MAX_ENVELOPE_BYTES" "length plain_nonce = 12"
    using raw(2) by (simp_all add: MAX_ENVELOPE_BYTES_def plain_nonce_def)
  have "\<forall>c k n. raw = su_dumps ?su (envelope_doc c k n) \<longrightarrow> decodes ?su (envelope_doc c k n)"
    using plain_decodes_envelope by blast
  note opened = sealed_opens_only_in_context [OF raw(1) refl plain_laws small(2,1) doc(2) this plain_arrays, unfolded doc(1),
    where e = Map.empty]
  show ?thesis
    by (intro exI [of _ raw] conjI raw(1)) (use opened [of "[''r'', ''t1'']"] opened [of "[''r'', ''t2'']"] in simp_all)
qed

definition plain_row :: result_row where
  "plain_row = \<lparr>ir_id = ''i'', ir_tenant_id = ''t1'', ir_outbox_id = ''o'', ir_source = ''MAUTIC'',
     ir_result_key = ''k'', ir_payload_json = ''L'', ir_created_at = 0\<rparr>"

lemma default_retention: "result_retention_seconds Map.empty = Inr 2592000"
  by (simp add: result_retention_seconds_def int_of_string_def strip_def lstrip_def is_space_def
      is_digit_def digit_value_def starts_with_def Let_def)

definition plain_record :: json where
  "plain_record = sort_doc (JObj [(''schema_version'', JInt 1), (''request_hash'', JStr (replicate 64 (CHR ''a''))),
     (''result'', JObj [(''email'', JStr ''[REDACTED]''), (''id'', JInt 7)])])"

theorem readback_only_when_available_witness:
  "\<exists>raw :: string. seal_integration_result (plain_suite plain_record) (Inr plain_ring) plain_nonce
       (JObj [(''email'', JStr ''a@b.org''), (''id'', JInt 7)]) ''t1'' ''o'' ''MAUTIC'' ''k'' = Inr raw \<and>
     rb_availability (result_readback (plain_suite plain_record) (env_of [(''KLYROW_DURABLE_RESULT_LEGACY_READ_ENABLED'', ''false'')])
       (Inr plain_ring) (Some (plain_row\<lparr>ir_payload_json := raw\<rparr>)) 5) = ''AVAILABLE'' \<and>
     (\<exists>kvs. opens_for_row (plain_suite plain_record) (kr_keys plain_ring) (plain_row\<lparr>ir_payload_json := raw\<rparr>) (JObj kvs))"
proof -
  let ?su = "plain_suite plain_record" and ?e = "env_of [(''KLYROW_DURABLE_RESULT_LEGACY_READ_ENABLED'', ''false'')]"
  have "(case seal_integration_result ?su (Inr plain_ring) plain_nonce (JObj [(''email'', JStr ''a@b.org''), (''id'', JInt 7)])
       ''t1'' ''o'' ''MAUTIC'' ''k'' of Inl _ \<Rightarrow> False
     | Inr raw \<Rightarrow> (case integration_record ?su ?e (Inr plain_ring) (plain_row\<lparr>ir_payload_json := raw\<rparr>) of Inl _ \<Rightarrow> False
         | Inr v \<Rightarrow> obj_get v ''schema_version'' = JInt 1))" by code_simp
  then obtain raw v where raw: "seal_integration_result ?su (Inr plain_ring) plain_nonce
       (JObj [(''email'', JStr ''a@b.org''), (''id'', JInt 7)]) ''t1'' ''o'' ''MAUTIC'' ''k'' = Inr raw"
    and v: "integration_record ?su ?e (Inr plain_ring) (plain_row\<lparr>ir_payload_json := raw\<rparr>) = Inr v"
      "obj_get v ''schema_version'' = JInt 1"
    by (auto split: sum.splits)
  let ?row = "plain_row\<lparr>ir_payload_json := raw\<rparr>" and ?rb = "result_readback ?su ?e (Inr plain_ring) (Some (plain_row\<lparr>ir_payload_json := raw\<rparr>)) 5"
  have keep: "result_retention_seconds ?e = Inr 2592000"
    using default_retention by (simp add: result_retention_seconds_def env_get_def env_of_def)
  have late: "5 < ir_created_at ?row + 2592000 * 1000000" by (simp add: plain_row_def)
  note shown = readback_only_when_available [OF refl, of ?su ?e "Inr plain_ring" "Some ?row" 5]
  have available: "rb_availability ?rb = ''AVAILABLE''" using shown v keep late by fastforce
  have "lower (env_get ?e ''KLYROW_DURABLE_RESULT_LEGACY_READ_ENABLED'' ''true'') \<noteq> ''true''" by code_simp
  then have "\<exists>kvs. opens_for_row ?su (kr_keys plain_ring) ?row (JObj kvs)" using shown available by auto
  then show ?thesis using raw available by blast
qed

definition plain_tomb :: json where
  "plain_tomb = sort_doc (JObj [(''schema_version'', JInt 2), (''request_hash'', JStr (replicate 64 (CHR ''a''))),
     (''purged_at'', JStr ''t''), (''policy_sha256'', JStr (replicate 64 (CHR ''b'')))])"

theorem tombstone_hides_result_witness:
  "\<exists>raw :: string. seal_result_tombstone (plain_suite plain_tomb) Map.empty (Inr plain_ring) plain_nonce plain_row 7
       (replicate 64 (CHR ''b'')) = Inr raw \<and>
     rb_availability (result_readback (plain_suite plain_tomb) Map.empty (Inr plain_ring)
       (Some (plain_row\<lparr>ir_payload_json := raw\<rparr>)) 9) = ''PURGED''"
proof -
  let ?su = "plain_suite plain_tomb"
  let ?policy = "replicate 64 (CHR ''b'')"
  have "(case seal_result_tombstone ?su Map.empty (Inr plain_ring) plain_nonce plain_row 7 ?policy of
      Inl _ \<Rightarrow> False | Inr raw \<Rightarrow> length raw \<le> 500)" by code_simp
  then obtain raw where raw: "seal_result_tombstone ?su Map.empty (Inr plain_ring) plain_nonce plain_row 7 ?policy = Inr raw"
    "length raw \<le> 500" by (auto split: sum.splits)
  have "(case integration_record ?su Map.empty (Inr plain_ring) plain_row of Inl _ \<Rightarrow> False
      | Inr v \<Rightarrow> obj_get v ''schema_version'' = JInt 1 \<and>
          obj_get v ''request_hash'' = JStr (replicate 64 (CHR ''a'')))" by code_simp
  then obtain v where v: "integration_record ?su Map.empty (Inr plain_ring) plain_row = Inr v"
    "obj_get v ''schema_version'' = JInt 1" "obj_get v ''request_hash'' = JStr (replicate 64 (CHR ''a''))"
    by (auto split: sum.splits)
  have hex: "\<forall>s. hex64 (su_sha256_hex ?su s)"
    by (simp add: hex64_def plain_suite_def list_all_iff)
  have iso: "su_iso (plain_suite d) t = ''t''" for d t by (simp add: plain_suite_def)
  have stamp: "stamp_ok ?su (JStr (su_iso ?su 7))" by (simp add: stamp_ok_def plain_suite_def)
  have "su_dumps ?su plain_tomb = ''D''" by code_simp
  then have "decodes ?su plain_tomb" by (simp add: decodes_def plain_suite_def)
  then have doc: "decodes ?su (sort_doc (JObj [(''schema_version'', JInt 2), (''request_hash'', obj_get v ''request_hash''),
      (''purged_at'', JStr (su_iso ?su 7)), (''policy_sha256'', JStr ?policy)]))"
    unfolding v(3) iso plain_tomb_def [symmetric] .
  have small: "length plain_nonce = 12" "int (length raw) \<le> MAX_ENVELOPE_BYTES"
    using raw(2) by (simp_all add: MAX_ENVELOPE_BYTES_def plain_nonce_def)
  have env: "\<forall>c k n. raw = su_dumps ?su (envelope_doc c k n) \<longrightarrow> decodes ?su (envelope_doc c k n)"
    using plain_decodes_envelope by blast
  from tombstone_hides_result [OF v(1,2) raw(1) plain_laws small hex stamp doc env default_retention] raw(1)
  show ?thesis by blast
qed

end
