(* ===== verification/MauticRequests.thy ===== *)
theory MauticRequests
  imports Platform
begin

text \<open>
  \<open>mautic_contract.py\<close> and the request side of \<open>mautic_adapter.py\<close>: the command vocabulary, its
  translation to Mautic's HTTP API, the adapter's configuration and the OAuth token. A provider
  identifier is the only text of a command that enters a request path.
\<close>

section \<open>Identifiers\<close>

definition ID_CHARS :: string where
  "ID_CHARS = ''abcdefghijklmnopqrstuvwxyzABCDEFGHIJKLMNOPQRSTUVWXYZ0123456789_-''"

text \<open>\<open>urllib.parse.quote(text, safe="")\<close>: letters, digits and \<open>_.-~\<close> stay, other bytes are escaped.\<close>

definition hex_digit :: "nat \<Rightarrow> char" where
  "hex_digit n = ''0123456789ABCDEF'' ! n"

definition quote :: "string \<Rightarrow> string" where
  "quote s = concat (map (\<lambda>c. if c \<in> set ID_CHARS \<or> c \<in> set ''.~'' then [c]
     else (let n = of_char c :: nat in [CHR ''%'', hex_digit (n div 16), hex_digit (n mod 16)])) s)"

definition bounded_id :: "json \<Rightarrow> string \<Rightarrow> string res" where
  "bounded_id value field =
     (let check = (\<lambda>str. let result = strip str in
        if result = [] \<or> 160 < length result \<or> (\<exists>ch \<in> set result. ch \<notin> set ID_CHARS)
        then Inl (ValueError (field @ ''_invalid'')) else Inr (quote result))
      in case value of
           JStr s \<Rightarrow> check s
         | JInt i \<Rightarrow> check (int_to_string i)
         | JBool b \<Rightarrow> check (if b then ''True'' else ''False'')
         | _ \<Rightarrow> Inl (TypeError (field @ ''_required'')))"

section \<open>Commands\<close>

definition SUPPORTED_MAUTIC_COMMANDS :: "string list" where
  "SUPPORTED_MAUTIC_COMMANDS =
     [''contact.upsert.v1'', ''contact.delete.v1'', ''segment.upsert.v1'', ''segment.delete.v1'',
      ''campaign.upsert.v1'', ''campaign.delete.v1'', ''campaign.publish.v1'', ''campaign.pause.v1'',
      ''campaign_membership.add.v1'', ''campaign_membership.remove.v1'',
      ''segment_membership.add.v1'', ''segment_membership.remove.v1'',
      ''email_campaign.state.v1'', ''webhook.register.v1'', ''sync.request.v1'',
      ''form_submissions.read.v1'']"

definition MAUTIC_SYNC_ROUTES :: "(string \<times> (string \<times> string option)) list" where
  "MAUTIC_SYNC_ROUTES =
     [(''contacts'', (''/api/contacts'', Some ''/api/contacts/{id}'')),
      (''companies'', (''/api/companies'', Some ''/api/companies/{id}'')),
      (''segments'', (''/api/segments'', Some ''/api/segments/{id}'')),
      (''campaigns'', (''/api/campaigns'', Some ''/api/campaigns/{id}'')),
      (''campaign_events'', (''/api/campaigns/events'', Some ''/api/campaigns/events/{id}'')),
      (''emails'', (''/api/emails'', Some ''/api/emails/{id}'')),
      (''forms'', (''/api/forms'', Some ''/api/forms/{id}'')),
      (''hooks'', (''/api/hooks'', Some ''/api/hooks/{id}'')),
      (''hook_triggers'', (''/api/hooks/triggers'', None)),
      (''tags'', (''/api/tags'', Some ''/api/tags/{id}'')),
      (''reports'', (''/api/reports'', Some ''/api/reports/{id}'')),
      (''users_self'', (''/api/users/self'', None))]"

text \<open>\<open>route.format(id=v)\<close> on a route whose only braces are \<open>{id}\<close>.\<close>

fun format_id :: "string \<Rightarrow> string \<Rightarrow> string" where
  "format_id v [] = []"
| "format_id v (c # cs) = (if starts_with ''{id}'' (c # cs) then v @ drop 3 cs else c # format_id v cs)"

type_synonym request = "string \<times> string \<times> json option"

definition resource_of :: "string \<Rightarrow> string" where
  "resource_of command =
     (if starts_with ''contact.'' command then ''contacts''
      else if starts_with ''segment.'' command then ''segments''
      else if starts_with ''campaign.'' command then ''campaigns''
      else [])"

definition upsert_request :: "string \<Rightarrow> (string \<times> json) list \<Rightarrow> request res" where
  "upsert_request resource payload =
     (let provider_id = obj_get payload ''provider_id'';
          body = JObj (filter (\<lambda>(k, v). k \<noteq> ''provider_id'') payload)
      in if provider_id = JNull then Inr (''POST'', ''/api/'' @ resource @ ''/new'', Some body)
         else res_bind (bounded_id provider_id ''provider_id'') (\<lambda>i.
           Inr (''PATCH'', ''/api/'' @ resource @ ''/'' @ i @ ''/edit'', Some body)))"

definition delete_request :: "string \<Rightarrow> (string \<times> json) list \<Rightarrow> request res" where
  "delete_request resource payload =
     res_bind (bounded_id (obj_get payload ''provider_id'') ''provider_id'') (\<lambda>i.
       Inr (''DELETE'', ''/api/'' @ resource @ ''/'' @ i @ ''/delete'', None))"

definition publish_request :: "bool \<Rightarrow> (string \<times> json) list \<Rightarrow> request res" where
  "publish_request on payload =
     res_bind (bounded_id (obj_get payload ''provider_id'') ''provider_id'') (\<lambda>i.
       Inr (''PATCH'', ''/api/campaigns/'' @ i @ ''/edit'', Some (JObj [(''isPublished'', JBool on)])))"

definition membership_request :: "string \<Rightarrow> string \<Rightarrow> string \<Rightarrow> (string \<times> json) list \<Rightarrow> request res" where
  "membership_request collection field command payload =
     res_bind (bounded_id (obj_get payload field) field) (\<lambda>i.
     res_bind (bounded_id (obj_get payload ''contact_id'') ''contact_id'') (\<lambda>contact_id.
       Inr (''POST'', ''/api/'' @ collection @ ''/'' @ i @ ''/contact/'' @ contact_id @ ''/'' @
              (if ends_with ''add.v1'' command then ''add'' else ''remove''), Some (JObj []))))"

definition sync_request :: "(string \<times> json) list \<Rightarrow> request res" where
  "sync_request payload =
     (case Option.bind (json_string (obj_get payload ''resource'')) (map_of MAUTIC_SYNC_ROUTES) of
        None \<Rightarrow> Inl (ValueError ''sync_resource_invalid'')
      | Some (path, item_route) \<Rightarrow>
          (let provider_id = obj_get payload ''provider_id''
           in if provider_id = JNull then Inr (''GET'', path, None)
              else (case item_route of
                      None \<Rightarrow> Inl (ValueError ''sync_resource_item_unsupported'')
                    | Some route \<Rightarrow>
                        res_bind (bounded_id provider_id ''provider_id'') (\<lambda>i.
                          Inr (''GET'', format_id i route, None)))))"

definition submissions_request :: "(string \<times> json) list \<Rightarrow> request res" where
  "submissions_request payload =
     res_bind (bounded_id (obj_get payload ''form_id'') ''form_id'') (\<lambda>form_id.
       let submission_id = obj_get payload ''submission_id'';
           path = ''/api/forms/'' @ form_id @ ''/submissions''
       in if submission_id = JNull then Inr (''GET'', path, None)
          else res_bind (bounded_id submission_id ''submission_id'') (\<lambda>i.
            Inr (''GET'', path @ ''/'' @ i, None)))"

definition mautic_request :: "string \<Rightarrow> (string \<times> json) list \<Rightarrow> request res" where
  "mautic_request command payload =
     (let resource = resource_of command
      in if command \<notin> set SUPPORTED_MAUTIC_COMMANDS
         then Inl (ValueError ''mautic_command_unsupported'')
         else if ends_with ''.upsert.v1'' command \<and> resource \<noteq> [] then upsert_request resource payload
         else if ends_with ''.delete.v1'' command \<and> resource \<noteq> [] then delete_request resource payload
         else if command \<in> {''campaign.publish.v1'', ''campaign.pause.v1''}
         then publish_request (command = ''campaign.publish.v1'') payload
         else if command \<in> {''campaign_membership.add.v1'', ''campaign_membership.remove.v1''}
         then membership_request ''campaigns'' ''campaign_id'' command payload
         else if command \<in> {''segment_membership.add.v1'', ''segment_membership.remove.v1''}
         then membership_request ''segments'' ''segment_id'' command payload
         else if command = ''email_campaign.state.v1''
         then res_bind (bounded_id (obj_get payload ''email_id'') ''email_id'') (\<lambda>i.
           Inr (''PATCH'', ''/api/emails/'' @ i @ ''/edit'',
                Some (JObj [(''isPublished'', JBool (truthy (obj_get payload ''published'')))])))
         else if command = ''webhook.register.v1'' then Inr (''POST'', ''/api/hooks/new'', Some (JObj payload))
         else if command = ''sync.request.v1'' then sync_request payload
         else if command = ''form_submissions.read.v1'' then submissions_request payload
         else Inl (ValueError ''mautic_command_unsupported''))"

section \<open>Configuration and token\<close>

definition mautic_configuration ::
  "(string \<Rightarrow> bool) \<Rightarrow> files \<Rightarrow> env \<Rightarrow> (string \<times> string \<times> string) res" where
  "mautic_configuration ip_literal fl e =
     (let base_url = rstrip_char (CHR ''/'') (env_get e ''KLYROW_MAUTIC_API_URL'' ''http://mautic'')
      in res_bind (urlsplit ip_literal base_url) (\<lambda>parsed.
         if ur_scheme parsed \<noteq> ''http'' \<or> url_hostname parsed \<noteq> Some ''mautic'' \<or>
            \<not> absent (url_username parsed) \<or> \<not> absent (url_password parsed) \<or>
            ur_query parsed \<noteq> [] \<or> ur_fragment parsed \<noteq> []
         then Inl (RuntimeError ''KLYROW_MAUTIC_API_URL must be the private http://mautic endpoint'')
         else
           res_bind (runtime_secret fl e ''KLYROW_MAUTIC_API_CLIENT_ID'') (\<lambda>client_id.
           res_bind (runtime_secret fl e ''KLYROW_MAUTIC_API_CLIENT_SECRET'') (\<lambda>client_secret.
             if length client_id < 16
             then Inl (RuntimeError ''KLYROW_MAUTIC_API_CLIENT_ID must contain at least 16 bytes'')
             else if length client_secret < 32
             then Inl (RuntimeError ''KLYROW_MAUTIC_API_CLIENT_SECRET must contain at least 32 bytes'')
             else Inr (base_url, client_id, client_secret)))))"

text \<open>
  A reply of Mautic: its status, the length of its content and what \<open>response.json()\<close> gives, a
  document or the class of the exception; or the failure of the client.
\<close>

datatype reply =
    Reply int nat "string + json"
  | ConnectFailed
  | TransportFailed

definition is_success :: "int \<Rightarrow> bool" where
  "is_success status \<longleftrightarrow> 200 \<le> status \<and> status \<le> 299"

definition token_of :: "json \<Rightarrow> string res" where
  "token_of doc =
     (case json_obj doc of
        None \<Rightarrow> Inl (AttributeError ''get'')
      | Some payload \<Rightarrow>
          (case obj_get payload ''access_token'' of
             JStr token \<Rightarrow>
               (if length token < 32 then Inl (RuntimeError ''mautic_oauth_access_token_invalid'')
                else (case obj_get payload ''token_type'' of
                        JStr token_type \<Rightarrow>
                          (if lower token_type \<noteq> ''bearer''
                           then Inl (RuntimeError ''mautic_oauth_token_type_invalid'')
                           else (case obj_get payload ''expires_in'' of
                                   JInt n \<Rightarrow> if n \<le> 0 then Inl (RuntimeError ''mautic_oauth_expiry_invalid'')
                                             else Inr token
                                 | JBool True \<Rightarrow> Inr token
                                 | _ \<Rightarrow> Inl (RuntimeError ''mautic_oauth_expiry_invalid'')))
                      | _ \<Rightarrow> Inl (RuntimeError ''mautic_oauth_token_type_invalid'')))
           | _ \<Rightarrow> Inl (RuntimeError ''mautic_oauth_access_token_invalid'')))"

text \<open>The exceptions of the HTTP client are \<open>OSError\<close> values that carry the name of their class.\<close>

definition oauth_access_token :: "reply \<Rightarrow> string res" where
  "oauth_access_token r =
     (case r of
        ConnectFailed \<Rightarrow> Inl (OSError ''ConnectError'')
      | TransportFailed \<Rightarrow> Inl (OSError ''TransportError'')
      | Reply status content body \<Rightarrow>
          (if 65536 < content then Inl (RuntimeError ''mautic_oauth_response_too_large'')
           else if \<not> is_success status then Inl (OSError ''HTTPStatusError'')
           else (case body of Inl name \<Rightarrow> Inl (ValueError name) | Inr doc \<Rightarrow> token_of doc)))"

section \<open>Lemmas\<close>

lemma quote_ID: "set s \<subseteq> set ID_CHARS \<Longrightarrow> quote s = s"
  by (induction s) (auto simp: quote_def)

definition id_text :: "string \<Rightarrow> bool" where
  "id_text s \<longleftrightarrow> s \<noteq> [] \<and> length s \<le> 160 \<and> set s \<subseteq> set ID_CHARS"

lemma bounded_id_Inr: "bounded_id v field = Inr i \<Longrightarrow> id_text i"
  by (auto simp: bounded_id_def id_text_def Let_def quote_ID subset_iff split: json.splits if_splits)

text \<open>A path that consists of non-empty segments of identifier characters, below \<open>/api\<close>.\<close>

definition api_path :: "string \<Rightarrow> bool" where
  "api_path path \<longleftrightarrow> (\<exists>segments. segments \<noteq> [] \<and> list_all id_text segments \<and>
     path = concat (map (\<lambda>s. CHR ''/'' # s) (''api'' # segments)))"


lemma api_path_segments:
  "segments \<noteq> [] \<Longrightarrow> list_all id_text segments \<Longrightarrow>
     api_path (concat (map (\<lambda>s. CHR ''/'' # s) (''api'' # segments)))"
  unfolding api_path_def by blast

lemma resource_ids:
  "id_text ''contacts''" "id_text ''companies''" "id_text ''segments''" "id_text ''campaigns''"
  "id_text ''events''" "id_text ''emails''" "id_text ''forms''" "id_text ''hooks''" "id_text ''triggers''"
  "id_text ''tags''" "id_text ''reports''" "id_text ''users''" "id_text ''self''" "id_text ''new''"
  "id_text ''edit''" "id_text ''delete''" "id_text ''contact''" "id_text ''add''" "id_text ''remove''"
  "id_text ''submissions''"
  by (simp_all add: id_text_def ID_CHARS_def)

text \<open>The path shapes of the adapter.\<close>

lemma api_path_shapes:
  assumes "id_text i" and "id_text r" and "id_text a" and "id_text c" and "id_text d"
  shows "api_path (''/api/'' @ r)" and "api_path (''/api/'' @ r @ ''/'' @ i)"
    and "api_path (''/api/'' @ r @ ''/'' @ i @ ''/'' @ a)"
    and "api_path (''/api/'' @ r @ ''/'' @ i @ ''/'' @ a @ ''/'' @ c)"
    and "api_path (''/api/'' @ r @ ''/'' @ i @ ''/'' @ a @ ''/'' @ c @ ''/'' @ d)"
  using api_path_segments [of "[r]"] api_path_segments [of "[r, i]"] api_path_segments [of "[r, i, a]"]
    api_path_segments [of "[r, i, a, c]"] api_path_segments [of "[r, i, a, c, d]"] assms
  by simp_all

lemma mautic_request_commands:
  "mautic_request ''contact.upsert.v1'' p = upsert_request ''contacts'' p"
  "mautic_request ''segment.upsert.v1'' p = upsert_request ''segments'' p"
  "mautic_request ''campaign.upsert.v1'' p = upsert_request ''campaigns'' p"
  "mautic_request ''contact.delete.v1'' p = delete_request ''contacts'' p"
  "mautic_request ''segment.delete.v1'' p = delete_request ''segments'' p"
  "mautic_request ''campaign.delete.v1'' p = delete_request ''campaigns'' p"
  "mautic_request ''campaign.publish.v1'' p = publish_request True p"
  "mautic_request ''campaign.pause.v1'' p = publish_request False p"
  "mautic_request ''campaign_membership.add.v1'' p =
     membership_request ''campaigns'' ''campaign_id'' ''campaign_membership.add.v1'' p"
  "mautic_request ''campaign_membership.remove.v1'' p =
     membership_request ''campaigns'' ''campaign_id'' ''campaign_membership.remove.v1'' p"
  "mautic_request ''segment_membership.add.v1'' p =
     membership_request ''segments'' ''segment_id'' ''segment_membership.add.v1'' p"
  "mautic_request ''segment_membership.remove.v1'' p =
     membership_request ''segments'' ''segment_id'' ''segment_membership.remove.v1'' p"
  "mautic_request ''email_campaign.state.v1'' p =
     res_bind (bounded_id (obj_get p ''email_id'') ''email_id'') (\<lambda>i.
       Inr (''PATCH'', ''/api/emails/'' @ i @ ''/edit'',
         Some (JObj [(''isPublished'', JBool (truthy (obj_get p ''published'')))])))"
  "mautic_request ''webhook.register.v1'' p = Inr (''POST'', ''/api/hooks/new'', Some (JObj p))"
  "mautic_request ''sync.request.v1'' p = sync_request p"
  "mautic_request ''form_submissions.read.v1'' p = submissions_request p"
  by (simp_all add: mautic_request_def resource_of_def starts_with_def ends_with_def
      SUPPORTED_MAUTIC_COMMANDS_def Let_def)

lemma mautic_command_cases:
  assumes "mautic_request command p = Inr r"
  shows "command \<in> set SUPPORTED_MAUTIC_COMMANDS"
  using assms by (auto simp: mautic_request_def Let_def split: if_splits)

lemma collection_paths:
  "api_path ''/api/contacts''" "api_path ''/api/companies''" "api_path ''/api/segments''"
  "api_path ''/api/campaigns''" "api_path ''/api/emails''" "api_path ''/api/forms''"
  "api_path ''/api/hooks''" "api_path ''/api/tags''" "api_path ''/api/reports''"
  "api_path ''/api/campaigns/events''" "api_path ''/api/hooks/triggers''"
  "api_path ''/api/users/self''"
  using api_path_segments [of "[''contacts'']"] api_path_segments [of "[''companies'']"]
    api_path_segments [of "[''segments'']"] api_path_segments [of "[''campaigns'']"]
    api_path_segments [of "[''emails'']"] api_path_segments [of "[''forms'']"]
    api_path_segments [of "[''hooks'']"] api_path_segments [of "[''tags'']"]
    api_path_segments [of "[''reports'']"] api_path_segments [of "[''campaigns'', ''events'']"]
    api_path_segments [of "[''hooks'', ''triggers'']"]
    api_path_segments [of "[''users'', ''self'']"]
  by (simp_all add: resource_ids)

lemma item_paths:
  assumes "id_text i"
  shows "api_path (''/api/contacts/'' @ i)" "api_path (''/api/companies/'' @ i)"
    "api_path (''/api/segments/'' @ i)" "api_path (''/api/campaigns/'' @ i)"
    "api_path (''/api/campaigns/events/'' @ i)" "api_path (''/api/emails/'' @ i)"
    "api_path (''/api/forms/'' @ i)" "api_path (''/api/hooks/'' @ i)"
    "api_path (''/api/tags/'' @ i)" "api_path (''/api/reports/'' @ i)"
  using api_path_segments [of "[''contacts'', i]"] api_path_segments [of "[''companies'', i]"]
    api_path_segments [of "[''segments'', i]"] api_path_segments [of "[''campaigns'', i]"]
    api_path_segments [of "[''campaigns'', ''events'', i]"] api_path_segments [of "[''emails'', i]"]
    api_path_segments [of "[''forms'', i]"] api_path_segments [of "[''hooks'', i]"]
    api_path_segments [of "[''tags'', i]"] api_path_segments [of "[''reports'', i]"] assms
  by (simp_all add: resource_ids)

lemma sync_route_path:
  assumes "map_of MAUTIC_SYNC_ROUTES name = Some (path, item_route)"
  shows "api_path path" and "item_route = Some route \<Longrightarrow> id_text i \<Longrightarrow> api_path (format_id i route)"
proof -
  have "(path, item_route) \<in> set (map snd MAUTIC_SYNC_ROUTES)"
    using map_of_SomeD [OF assms] by force
  then have r: "(path, item_route) \<in> set (map snd MAUTIC_SYNC_ROUTES)" .
  then show "api_path path" by (auto simp: MAUTIC_SYNC_ROUTES_def collection_paths)
  assume "item_route = Some route" "id_text i"
  then show "api_path (format_id i route)"
    using r item_paths [of i] by (auto simp: MAUTIC_SYNC_ROUTES_def starts_with_def)
qed

lemma sync_request_ok:
  assumes "sync_request p = Inr (m, path, body)"
  shows "m = ''GET'' \<and> body = None \<and> api_path path"
proof -
  have "\<exists>name path0 item_route. map_of MAUTIC_SYNC_ROUTES name = Some (path0, item_route) \<and>
      m = ''GET'' \<and> body = None \<and>
      (path = path0 \<or> (\<exists>route i. item_route = Some route \<and> id_text i \<and> path = format_id i route))"
    using assms
    by (auto simp: sync_request_def Let_def res_bind_Inr Option.bind_eq_Some_conv
        split: option.splits if_splits dest!: bounded_id_Inr) blast+
  then show ?thesis using sync_route_path by blast
qed

lemma upsert_request_ok:
  "upsert_request r p = Inr (m, path, body) \<Longrightarrow> id_text r \<Longrightarrow>
     m \<in> {''POST'', ''PATCH''} \<and> body \<noteq> None \<and> api_path path"
  using api_path_shapes(2) [of "''new''" r] api_path_shapes(3) [of _ r "''edit''"]
  by (auto simp: upsert_request_def Let_def res_bind_Inr resource_ids
      split: if_splits dest!: bounded_id_Inr)

lemma delete_request_ok:
  "delete_request r p = Inr (m, path, body) \<Longrightarrow> id_text r \<Longrightarrow>
     m = ''DELETE'' \<and> body = None \<and> api_path path"
  using api_path_shapes(3) [of _ r "''delete''"]
  by (auto simp: delete_request_def res_bind_Inr resource_ids dest!: bounded_id_Inr)

lemma publish_request_ok:
  "publish_request on p = Inr (m, path, body) \<Longrightarrow> m = ''PATCH'' \<and> body \<noteq> None \<and> api_path path"
  using api_path_shapes(3) [of _ "''campaigns''" "''edit''"]
  by (auto simp: publish_request_def res_bind_Inr resource_ids dest!: bounded_id_Inr)

lemma membership_request_ok:
  "membership_request r f c p = Inr (m, path, body) \<Longrightarrow> id_text r \<Longrightarrow>
     m = ''POST'' \<and> body \<noteq> None \<and> api_path path"
  using api_path_shapes(5) [of _ r "''contact''" _ "if ends_with ''add.v1'' c then ''add'' else ''remove''"]
  by (auto simp: membership_request_def res_bind_Inr resource_ids dest!: bounded_id_Inr)

lemma submissions_request_ok:
  "submissions_request p = Inr (m, path, body) \<Longrightarrow> m = ''GET'' \<and> body = None \<and> api_path path"
  using api_path_shapes(3) [of _ "''forms''" "''submissions''"]
    api_path_shapes(4) [of _ "''forms''" "''submissions''"]
  by (auto simp: submissions_request_def Let_def res_bind_Inr resource_ids
      split: if_splits dest!: bounded_id_Inr)

lemma email_request_ok:
  "mautic_request ''email_campaign.state.v1'' p = Inr (m, path, body) \<Longrightarrow>
     m = ''PATCH'' \<and> body \<noteq> None \<and> api_path path"
  using api_path_shapes(3) [of _ "''emails''" "''edit''"]
  by (auto simp: mautic_request_commands res_bind_Inr resource_ids dest!: bounded_id_Inr)

lemma webhook_request_ok:
  "mautic_request ''webhook.register.v1'' p = Inr (m, path, body) \<Longrightarrow>
     m = ''POST'' \<and> body \<noteq> None \<and> api_path path"
  using api_path_segments [of "[''hooks'', ''new'']"]
  by (auto simp: mautic_request_commands resource_ids)

text \<open>The commands by what they do.\<close>

lemma read_commands:
  assumes "mautic_request command p = Inr (m, path, body)"
    and "command = ''sync.request.v1'' \<or> command = ''form_submissions.read.v1''"
  shows "m = ''GET'' \<and> api_path path"
  using assms(2,1) sync_request_ok [of p m path body] submissions_request_ok [of p m path body]
  by (elim disjE) (simp_all add: mautic_request_commands)

lemma delete_commands:
  assumes "mautic_request command p = Inr (m, path, body)"
    and "command = ''contact.delete.v1'' \<or> command = ''segment.delete.v1'' \<or> command = ''campaign.delete.v1''"
  shows "m = ''DELETE'' \<and> api_path path"
  using assms(2,1) delete_request_ok [of _ p m path body] resource_ids(1,3,4)
  by (elim disjE) (simp_all add: mautic_request_commands)

definition write_commands :: "string list" where
  "write_commands =
     [''contact.upsert.v1'', ''segment.upsert.v1'', ''campaign.upsert.v1'',
      ''campaign.publish.v1'', ''campaign.pause.v1'',
      ''campaign_membership.add.v1'', ''campaign_membership.remove.v1'',
      ''segment_membership.add.v1'', ''segment_membership.remove.v1'',
      ''email_campaign.state.v1'', ''webhook.register.v1'']"

lemma write_commands_ok:
  assumes "mautic_request command p = Inr (m, path, body)" and "command \<in> set write_commands"
  shows "(m = ''POST'' \<or> m = ''PATCH'') \<and> api_path path"
proof -
  have u: "upsert_request r p = Inr (m, path, body) \<Longrightarrow> id_text r \<Longrightarrow> ?thesis" for r
    using upsert_request_ok by auto
  have b: "publish_request on p = Inr (m, path, body) \<Longrightarrow> ?thesis" for on
    using publish_request_ok by auto
  have g: "membership_request r f c p = Inr (m, path, body) \<Longrightarrow> id_text r \<Longrightarrow> ?thesis" for r f c
    using membership_request_ok by auto
  have e: "mautic_request ''email_campaign.state.v1'' p = Inr (m, path, body) \<Longrightarrow> ?thesis"
    using email_request_ok by auto
  have w: "mautic_request ''webhook.register.v1'' p = Inr (m, path, body) \<Longrightarrow> ?thesis"
    using webhook_request_ok by auto
  have "command = ''contact.upsert.v1'' \<or> command = ''segment.upsert.v1'' \<or>
      command = ''campaign.upsert.v1'' \<or> command = ''campaign.publish.v1'' \<or>
      command = ''campaign.pause.v1'' \<or> command = ''campaign_membership.add.v1'' \<or>
      command = ''campaign_membership.remove.v1'' \<or> command = ''segment_membership.add.v1'' \<or>
      command = ''segment_membership.remove.v1'' \<or> command = ''email_campaign.state.v1'' \<or>
      command = ''webhook.register.v1''"
    using assms(2) by (simp add: write_commands_def)
  then show ?thesis
    using assms(1)
    by (elim disjE; hypsubst; (simp only: mautic_request_commands(1-12))?)
       (erule u [OF _ resource_ids(1)] u [OF _ resource_ids(3)] u [OF _ resource_ids(4)] b
         g [OF _ resource_ids(3)] g [OF _ resource_ids(4)] e w)+
qed

text \<open>
  C32. Whatever a tenant puts into a command, the request sent to Mautic is confined to the API: its
  path consists of fixed words and identifiers of letters, digits, \<open>_\<close> and \<open>-\<close>, so no
  identifier can add a segment, a query or a dot-segment; only the two read commands are sent as
  \<open>GET\<close>, and only the delete commands as \<open>DELETE\<close>.
\<close>

theorem mautic_request_confined:
  assumes "mautic_request command payload = Inr (m, path, body)"
  shows "api_path path \<and> m \<in> {''GET'', ''POST'', ''PATCH'', ''DELETE''} \<and>
    (m = ''GET'' \<longleftrightarrow> command \<in> {''sync.request.v1'', ''form_submissions.read.v1''}) \<and>
    (m = ''DELETE'' \<longleftrightarrow> command \<in> {''contact.delete.v1'', ''segment.delete.v1'', ''campaign.delete.v1''})"
proof -
  have "command \<in> set SUPPORTED_MAUTIC_COMMANDS" using assms by (rule mautic_command_cases)
  then have "(command = ''sync.request.v1'' \<or> command = ''form_submissions.read.v1'') \<or>
      (command = ''contact.delete.v1'' \<or> command = ''segment.delete.v1'' \<or> command = ''campaign.delete.v1'') \<or>
      command \<in> set write_commands"
    unfolding SUPPORTED_MAUTIC_COMMANDS_def write_commands_def by (simp, elim disjE) simp_all
  then consider (reads) "command = ''sync.request.v1'' \<or> command = ''form_submissions.read.v1''"
    | (deletes) "command = ''contact.delete.v1'' \<or> command = ''segment.delete.v1'' \<or> command = ''campaign.delete.v1''"
    | (writes) "command \<in> set write_commands"
    by argo
  then show ?thesis
  proof cases
    case reads
    then show ?thesis using read_commands [OF assms reads] by auto
  next
    case deletes
    then show ?thesis using delete_commands [OF assms deletes] by auto
  next
    case writes
    then show ?thesis using write_commands_ok [OF assms writes] by (auto simp: write_commands_def)
  qed
qed

lemma sample_ids:
  "strip '' 42 '' = ''42''" "strip ''42/../1'' = ''42/../1''"
  by code_simp+

lemma bounded_id_text: "strip s = t \<Longrightarrow> id_text t \<Longrightarrow> bounded_id (JStr s) field = Inr t"
  by (auto simp: bounded_id_def id_text_def quote_ID)

lemma bounded_id_refused: "ch \<in> set (strip s) \<Longrightarrow> ch \<notin> set ID_CHARS \<Longrightarrow>
    bounded_id (JStr s) field = Inl (ValueError (field @ ''_invalid''))"
  by (auto simp: bounded_id_def Let_def)

lemma sample_request:
  "mautic_request ''contact.delete.v1'' [(''provider_id'', JStr '' 42 '')] =
     Inr (''DELETE'', ''/api/contacts/42/delete'', None)"
proof -
  have "id_text ''42''" by (simp add: id_text_def ID_CHARS_def)
  then show ?thesis
    using bounded_id_text [OF sample_ids(1)]
    by (simp add: mautic_request_commands delete_request_def obj_get_def)
qed

theorem mautic_request_confined_witness:
  "api_path ''/api/contacts/42/delete'' \<and>
   mautic_request ''contact.delete.v1'' [(''provider_id'', JStr ''42/../1'')] =
     Inl (ValueError ''provider_id_invalid'')"
proof -
  have "bounded_id (JStr ''42/../1'') ''provider_id'' = Inl (ValueError (''provider_id'' @ ''_invalid''))"
    by (rule bounded_id_refused [where ch = "CHR ''/''"]) (simp_all add: sample_ids ID_CHARS_def)
  then have "mautic_request ''contact.delete.v1'' [(''provider_id'', JStr ''42/../1'')] =
     Inl (ValueError ''provider_id_invalid'')"
    by (simp add: mautic_request_commands delete_request_def obj_get_def)
  then show ?thesis using mautic_request_confined [OF sample_request] by simp
qed

end
