(* ===== verification/MauticWorker.thy ===== *)
theory MauticWorker
  imports MauticRequests DurableResults Contracts
begin

text \<open>
  The worker side of \<open>mautic_adapter.py\<close> and the operator routes of \<open>operations.py\<close> that change
  the same outbox. Transactions are functions on the tables, \<open>current\<close> is the clock, \<open>locked\<close> the
  rows that \<open>SKIP LOCKED\<close> leaves out, \<open>su\<close>, \<open>ring\<close> and \<open>nonce\<close> the cryptography of the durable
  results and \<open>fresh\<close> a new identifier. The provider is a function from requests to replies.
\<close>

section \<open>State\<close>

record outbox_row =
  io_id :: string
  io_tenant_id :: string
  io_target :: string
  io_event_type :: string
  io_payload :: jtext
  io_idempotency_key :: string
  io_state :: string
  io_attempts :: int
  io_next_attempt_at :: int
  io_lease_expires_at :: "int option"
  io_last_error :: "string option"
  io_created_at :: int
  io_updated_at :: int

record circuit =
  ci_failure_streak :: int
  ci_open_until :: "int option"
  ci_last_success_at :: "int option"
  ci_last_failure_at :: "int option"
  ci_updated_at :: int

record mautic_db =
  mx_outbox :: "outbox_row list"
  mx_results :: "result_row list"
  mx_circuit :: "circuit option"

definition MAUTIC_MAX_ATTEMPTS :: int where "MAUTIC_MAX_ATTEMPTS = 5"
definition MAUTIC_LEASE_SECONDS :: int where "MAUTIC_LEASE_SECONDS = 30"

definition get_outbox :: "mautic_db \<Rightarrow> string \<Rightarrow> outbox_row option" where
  "get_outbox db k = find_row (\<lambda>i. io_id i = k) (mx_outbox db)"

definition put_outbox :: "string \<Rightarrow> (outbox_row \<Rightarrow> outbox_row) \<Rightarrow> mautic_db \<Rightarrow> mautic_db" where
  "put_outbox k f db = db\<lparr>mx_outbox := update_rows (\<lambda>i. io_id i = k) f (mx_outbox db)\<rparr>"

text \<open>A flush that violates the primary key or the uniqueness of a result's key is refused.\<close>

definition add_result :: "result_row \<Rightarrow> mautic_db \<Rightarrow> mautic_db res" where
  "add_result row db =
     (if \<exists>r \<in> set (mx_results db). ir_id r = ir_id row \<or>
           (ir_tenant_id r = ir_tenant_id row \<and> ir_source r = ir_source row \<and>
            ir_result_key r = ir_result_key row)
      then Inl (IntegrityError ''integration_results'')
      else Inr (db\<lparr>mx_results := mx_results db @ [row]\<rparr>))"

section \<open>Claim\<close>

definition mautic_expired :: "int \<Rightarrow> (string \<Rightarrow> bool) \<Rightarrow> outbox_row \<Rightarrow> bool" where
  "mautic_expired current locked i \<longleftrightarrow> io_target i = ''MAUTIC'' \<and> io_state i = ''PROCESSING'' \<and>
     (case io_lease_expires_at i of None \<Rightarrow> False | Some t \<Rightarrow> t < current) \<and> \<not> locked (io_id i)"

definition dead_letter_expired :: "int \<Rightarrow> outbox_row \<Rightarrow> outbox_row" where
  "dead_letter_expired current i =
     i\<lparr>io_state := ''DEAD_LETTER'', io_last_error := Some ''worker_lease_expired_ambiguous'',
       io_lease_expires_at := None, io_updated_at := current\<rparr>"

definition recover_expired :: "int \<Rightarrow> (string \<Rightarrow> bool) \<Rightarrow> mautic_db \<Rightarrow> mautic_db" where
  "recover_expired current locked db =
     db\<lparr>mx_outbox := update_rows (mautic_expired current locked) (dead_letter_expired current) (mx_outbox db)\<rparr>"

definition has_late_observation :: "mautic_db \<Rightarrow> outbox_row \<Rightarrow> bool" where
  "has_late_observation db i \<longleftrightarrow> (\<exists>r \<in> set (mx_results db). ir_outbox_id r = io_id i \<and>
     ir_tenant_id r = io_tenant_id i \<and> ir_source r = ''MAUTIC_LATE'')"

definition circuit_open :: "int \<Rightarrow> mautic_db \<Rightarrow> bool" where
  "circuit_open current db \<longleftrightarrow>
     (case Option.bind (mx_circuit db) ci_open_until of None \<Rightarrow> False | Some t \<Rightarrow> current < t)"

definition mautic_due :: "int \<Rightarrow> (string \<Rightarrow> bool) \<Rightarrow> mautic_db \<Rightarrow> outbox_row \<Rightarrow> bool" where
  "mautic_due current locked db i \<longleftrightarrow> io_target i = ''MAUTIC'' \<and>
     io_state i \<in> {''PENDING'', ''RETRY''} \<and> io_next_attempt_at i \<le> current \<and>
     \<not> has_late_observation db i \<and> \<not> locked (io_id i)"

definition take_claim :: "int \<Rightarrow> outbox_row \<Rightarrow> outbox_row" where
  "take_claim current i =
     i\<lparr>io_state := ''PROCESSING'', io_attempts := io_attempts i + 1,
       io_lease_expires_at := Some (current + MAUTIC_LEASE_SECONDS * 1000000),
       io_updated_at := current\<rparr>"

definition claim_mautic :: "int \<Rightarrow> (string \<Rightarrow> bool) \<Rightarrow> mautic_db \<Rightarrow> outbox_row option \<times> mautic_db" where
  "claim_mautic current locked db =
     (let db1 = recover_expired current locked db
      in if circuit_open current db1 then (None, db1)
         else (case select_rows io_created_at (mautic_due current locked db1) 1 (mx_outbox db1) of
                 [] \<Rightarrow> (None, db1)
               | item # _ \<Rightarrow> (Some (take_claim current item), put_outbox (io_id item) (take_claim current) db1)))"

section \<open>Outcomes\<close>

definition current_claim :: "outbox_row option \<Rightarrow> int \<Rightarrow> int \<Rightarrow> bool" where
  "current_claim item expected_attempt current \<longleftrightarrow>
     (case item of
        None \<Rightarrow> False
      | Some i \<Rightarrow> io_state i = ''PROCESSING'' \<and> io_attempts i = expected_attempt \<and>
          (case io_lease_expires_at i of None \<Rightarrow> False | Some deadline \<Rightarrow> current < deadline))"

definition fresh_circuit :: "int \<Rightarrow> circuit" where
  "fresh_circuit current =
     \<lparr>ci_failure_streak = 0, ci_open_until = None, ci_last_success_at = None,
      ci_last_failure_at = None, ci_updated_at = current\<rparr>"

definition the_circuit :: "int \<Rightarrow> mautic_db \<Rightarrow> circuit" where
  "the_circuit current db = (case mx_circuit db of None \<Rightarrow> fresh_circuit current | Some c \<Rightarrow> c)"

definition count_failure :: "int \<Rightarrow> circuit \<Rightarrow> circuit" where
  "count_failure current c =
     (let streak = ci_failure_streak c + 1
      in c\<lparr>ci_failure_streak := streak, ci_last_failure_at := Some current, ci_updated_at := current,
           ci_open_until := (if 5 \<le> streak then Some (current + 60 * 1000000) else ci_open_until c)\<rparr>)"

definition mautic_failure ::
  "int \<Rightarrow> string \<Rightarrow> string \<Rightarrow> bool \<Rightarrow> int \<Rightarrow> bool \<Rightarrow> mautic_db \<Rightarrow> bool \<times> mautic_db" where
  "mautic_failure current item_id error retryable expected_attempt affects_circuit db =
     (case get_outbox db item_id of
        None \<Rightarrow> (False, db)
      | Some item \<Rightarrow>
          if \<not> current_claim (Some item) expected_attempt current then (False, db)
          else
            (let db1 = (if affects_circuit
                        then db\<lparr>mx_circuit := Some (count_failure current (the_circuit current db))\<rparr> else db);
                 can_retry = (retryable \<and> io_attempts item < MAUTIC_MAX_ATTEMPTS \<and>
                              \<not> has_late_observation db item)
             in (True, put_outbox item_id (\<lambda>i. i\<lparr>
                   io_state := (if can_retry then ''RETRY'' else ''DEAD_LETTER''),
                   io_next_attempt_at := current + min 300 (2 ^ nat (io_attempts i)) * 1000000,
                   io_lease_expires_at := None,
                   io_last_error := Some (take 500 error),
                   io_updated_at := current\<rparr>) db1)))"

definition late_key :: "outbox_row \<Rightarrow> int \<Rightarrow> string" where
  "late_key item expected_attempt =
     ''mautic:late:'' @ io_id item @ '':'' @ int_to_string expected_attempt"

definition record_late_completion ::
  "suite \<Rightarrow> key_ring res \<Rightarrow> string \<Rightarrow> string \<Rightarrow> int \<Rightarrow> outbox_row \<Rightarrow> int \<Rightarrow> mautic_db \<Rightarrow> mautic_db res" where
  "record_late_completion su ring nonce fresh current item expected_attempt db =
     (let key = late_key item expected_attempt
      in if \<exists>r \<in> set (mx_results db). ir_tenant_id r = io_tenant_id item \<and>
              ir_source r = ''MAUTIC_LATE'' \<and> ir_result_key r = key
         then Inr db
         else res_bind (seal_integration_result su ring nonce
                (JObj [(''status'', JStr ''RECONCILIATION_REQUIRED''), (''attempt'', JInt expected_attempt),
                       (''reason'', JStr ''provider_completed_after_operation_state_changed'')])
                (io_tenant_id item) (io_id item) ''MAUTIC_LATE'' key) (\<lambda>payload_json.
              add_result \<lparr>ir_id = fresh, ir_tenant_id = io_tenant_id item, ir_outbox_id = io_id item,
                          ir_source = ''MAUTIC_LATE'', ir_result_key = key, ir_payload_json = payload_json,
                          ir_created_at = current\<rparr> db))"

definition close_circuit :: "int \<Rightarrow> circuit \<Rightarrow> circuit" where
  "close_circuit current c =
     c\<lparr>ci_failure_streak := 0, ci_open_until := None, ci_last_success_at := Some current,
       ci_updated_at := current\<rparr>"

definition store_result ::
  "suite \<Rightarrow> key_ring res \<Rightarrow> string \<Rightarrow> int \<Rightarrow> outbox_row \<Rightarrow> json \<Rightarrow> mautic_db \<Rightarrow> mautic_db res" where
  "store_result su ring nonce current item response db =
     (let result_key = ''mautic:'' @ io_id item
      in if \<exists>r \<in> set (mx_results db). ir_tenant_id r = io_tenant_id item \<and>
              ir_source r = ''MAUTIC'' \<and> ir_result_key r = result_key
         then Inr db
         else res_bind (seal_integration_result su ring nonce response (io_tenant_id item) (io_id item)
                ''MAUTIC'' result_key) (\<lambda>payload_json.
              add_result \<lparr>ir_id = io_id item, ir_tenant_id = io_tenant_id item, ir_outbox_id = io_id item,
                          ir_source = ''MAUTIC'', ir_result_key = result_key,
                          ir_payload_json = payload_json, ir_created_at = current\<rparr> db))"

definition mautic_success ::
  "suite \<Rightarrow> key_ring res \<Rightarrow> string \<Rightarrow> string \<Rightarrow> int \<Rightarrow> string \<Rightarrow> json \<Rightarrow> int \<Rightarrow> mautic_db
     \<Rightarrow> (bool \<times> mautic_db) res" where
  "mautic_success su ring nonce fresh current item_id response expected_attempt db =
     (case get_outbox db item_id of
        None \<Rightarrow> Inr (False, db)
      | Some item \<Rightarrow>
          if io_state item = ''COMPLETED'' \<and> io_attempts item = expected_attempt then Inr (False, db)
          else if \<not> current_claim (Some item) expected_attempt current
          then res_bind (record_late_completion su ring nonce fresh current item expected_attempt db)
                 (\<lambda>db1. Inr (False, db1))
          else res_bind (store_result su ring nonce current item response db) (\<lambda>db1.
                 Inr (True, (put_outbox item_id (\<lambda>i. i\<lparr>io_state := ''COMPLETED'',
                        io_lease_expires_at := None, io_last_error := None, io_updated_at := current\<rparr>) db1)
                      \<lparr>mx_circuit := Some (close_circuit current (the_circuit current db1))\<rparr>)))"

section \<open>Dispatch\<close>

text \<open>
  One iteration reads the clock three times, and other transactions may run between its own:
  \<open>tk_before_check\<close> and \<open>tk_before_outcome\<close> are what they do to the tables.
\<close>

record tick =
  tk_claimed_at :: int
  tk_locked :: "string \<Rightarrow> bool"
  tk_before_check :: "mautic_db \<Rightarrow> mautic_db"
  tk_checked_at :: int
  tk_before_outcome :: "mautic_db \<Rightarrow> mautic_db"
  tk_ended_at :: int
  tk_fresh :: string
  tk_nonce :: string

text \<open>What the code does after the call: a success, or \<open>_failure\<close> with its arguments, or an
  exception that no handler takes.\<close>

datatype verdict =
    Succeeded json
  | Failed string bool bool
  | Escapes exn

definition payload_of :: "string \<Rightarrow> json \<Rightarrow> (string \<times> json) list res" where
  "payload_of command stored =
     (case json_obj stored of
        None \<Rightarrow> Inl (AttributeError ''get'')
      | Some kvs \<Rightarrow>
          if command \<notin> set SUPPORTED_MAUTIC_COMMANDS then Inl (ValueError ''mautic_command_unsupported'')
          else (case json_or (obj_get kvs ''payload'') (JObj []) of
                  JObj payload \<Rightarrow> Inr payload
                | _ \<Rightarrow> Inl (AttributeError ''get'')))"

definition correlation_of :: "json \<Rightarrow> string res" where
  "correlation_of stored =
     (case Option.bind (json_obj stored) (\<lambda>kvs. map_of kvs ''envelope'') of
        None \<Rightarrow> Inl (KeyError ''envelope'')
      | Some (JObj envelope) \<Rightarrow>
          (case map_of envelope ''correlation_id'' of
             None \<Rightarrow> Inl (KeyError ''correlation_id'')
           | Some (JStr c) \<Rightarrow> Inr c
           | Some _ \<Rightarrow> Inl (TypeError ''header value''))
      | Some _ \<Rightarrow> Inl (TypeError ''indices''))"

definition judge_reply :: "reply \<Rightarrow> verdict" where
  "judge_reply r =
     (case r of
        ConnectFailed \<Rightarrow> Failed ''mautic_connect_error'' True True
      | TransportFailed \<Rightarrow> Failed ''mautic_transport_ambiguous'' False True
      | Reply status content body \<Rightarrow>
          (if status = 429 then Failed (''mautic_http_'' @ int_to_string status) True True
           else if 500 \<le> status then Failed (''mautic_ambiguous_http_'' @ int_to_string status) False True
           else if \<not> is_success status
           then Failed (''mautic_http_'' @ int_to_string status) False (status \<in> {401, 403, 408})
           else if MAX_RESULT_BYTES < int content then Failed ''RuntimeError'' False True
           else if content = 0 then Succeeded (JObj [(''status_code'', JInt status)])
           else (case body of Inl name \<Rightarrow> Failed name False True | Inr doc \<Rightarrow> Succeeded doc)))"

text \<open>The class names of the exceptions that the last handler takes.\<close>

fun handled_name :: "exn \<Rightarrow> string option" where
  "handled_name (KeyError _) = Some ''KeyError''"
| "handled_name (TypeError _) = Some ''TypeError''"
| "handled_name (ValueError _) = Some ''ValueError''"
| "handled_name (RuntimeError _) = Some ''RuntimeError''"
| "handled_name (HTTPException _ _) = Some ''HTTPException''"
| "handled_name _ = None"

definition judge_exception :: "bool \<Rightarrow> exn \<Rightarrow> verdict" where
  "judge_exception provider_called e =
     (case handled_name e of None \<Rightarrow> Escapes e | Some name \<Rightarrow> Failed name False provider_called)"

definition call_provider ::
  "(request \<Rightarrow> string \<Rightarrow> string \<Rightarrow> reply) \<Rightarrow> string \<Rightarrow> string \<Rightarrow> json \<Rightarrow> verdict" where
  "call_provider provider idempotency_key command stored =
     (case res_bind (payload_of command stored) (mautic_request command) of
        Inl e \<Rightarrow> judge_exception False e
      | Inr request \<Rightarrow>
          (case correlation_of stored of
             Inl e \<Rightarrow> judge_exception True e
           | Inr correlation_id \<Rightarrow> judge_reply (provider request idempotency_key correlation_id)))"

datatype iteration =
    NoWork
  | Skipped
  | Counted nat nat
  | Raised exn

definition settle ::
  "suite \<Rightarrow> key_ring res \<Rightarrow> tick \<Rightarrow> outbox_row \<Rightarrow> verdict \<Rightarrow> mautic_db \<Rightarrow> iteration \<times> mautic_db" where
  "settle su ring tk item verdict db =
     (let fail = (\<lambda>error retryable affects_circuit.
            (Counted 0 1, snd (mautic_failure (tk_ended_at tk) (io_id item) error retryable
               (io_attempts item) affects_circuit db)))
      in case verdict of
           Escapes e \<Rightarrow> (Raised e, db)
         | Failed error retryable affects_circuit \<Rightarrow> fail error retryable affects_circuit
         | Succeeded response \<Rightarrow>
             (case mautic_success su ring (tk_nonce tk) (tk_fresh tk) (tk_ended_at tk) (io_id item)
                     response (io_attempts item) db of
                Inr (accepted, db1) \<Rightarrow> (Counted (if accepted then 1 else 0) 0, db1)
              | Inl e \<Rightarrow>
                  (case handled_name e of
                     None \<Rightarrow> (Raised e, db)
                   | Some name \<Rightarrow> fail name False True)))"

definition process_one ::
  "suite \<Rightarrow> key_ring res \<Rightarrow> (request \<Rightarrow> string \<Rightarrow> string \<Rightarrow> reply) \<Rightarrow> tick \<Rightarrow> mautic_db
     \<Rightarrow> iteration \<times> mautic_db" where
  "process_one su ring provider tk db =
     (case claim_mautic (tk_claimed_at tk) (tk_locked tk) db of
        (None, db1) \<Rightarrow> (NoWork, db1)
      | (Some item, db1) \<Rightarrow>
          (case io_payload item of
             BadText _ \<Rightarrow> (Raised (ValueError ''JSONDecodeError''), db1)
           | JText stored \<Rightarrow>
               (let db2 = tk_before_check tk db1
                in case get_outbox db2 (io_id item) of
                     None \<Rightarrow> (Skipped, db2)
                   | Some seen \<Rightarrow>
                       if \<not> current_claim (Some seen) (io_attempts item) (tk_checked_at tk) \<or>
                          has_late_observation db2 seen
                       then (Skipped, db2)
                       else settle su ring tk item
                              (call_provider provider (io_idempotency_key item) (io_event_type item) stored)
                              (tk_before_outcome tk db2))))"

text \<open>\<open>for _ in range(limit)\<close>: one tick for each iteration; the counters are added up.\<close>

fun process_ticks ::
  "suite \<Rightarrow> key_ring res \<Rightarrow> (request \<Rightarrow> string \<Rightarrow> string \<Rightarrow> reply) \<Rightarrow> tick list \<Rightarrow> nat \<Rightarrow> nat \<Rightarrow> mautic_db
     \<Rightarrow> (nat \<times> nat) res \<times> mautic_db" where
  "process_ticks su ring provider [] completed failed db = (Inr (completed, failed), db)"
| "process_ticks su ring provider (tk # tks) completed failed db =
     (case process_one su ring provider tk db of
        (NoWork, db1) \<Rightarrow> (Inr (completed, failed), db1)
      | (Skipped, db1) \<Rightarrow> process_ticks su ring provider tks completed failed db1
      | (Counted c f, db1) \<Rightarrow> process_ticks su ring provider tks (completed + c) (failed + f) db1
      | (Raised e, db1) \<Rightarrow> (Inl e, db1))"

record summary =
  sm_completed :: nat
  sm_failed :: nat
  sm_disabled :: bool
  sm_auth_failed :: bool

definition dispatch_mautic_outbox ::
  "suite \<Rightarrow> (string \<times> string \<times> string) res \<Rightarrow> key_ring res \<Rightarrow> (string \<Rightarrow> string \<Rightarrow> reply)
     \<Rightarrow> (string \<Rightarrow> request \<Rightarrow> string \<Rightarrow> string \<Rightarrow> reply) \<Rightarrow> tick list \<Rightarrow> mautic_db
     \<Rightarrow> summary res \<times> mautic_db" where
  "dispatch_mautic_outbox su configuration ring oauth provider ticks db =
     (let stop = (\<lambda>disabled auth_failed. (Inr \<lparr>sm_completed = 0, sm_failed = 0,
                    sm_disabled = disabled, sm_auth_failed = auth_failed\<rparr>, db))
      in case configuration of
           Inl (RuntimeError _) \<Rightarrow> stop True False
         | Inl e \<Rightarrow> (Inl e, db)
         | Inr (base_url, client_id, client_secret) \<Rightarrow>
             (case ring of
                Inl _ \<Rightarrow> stop True False
              | Inr _ \<Rightarrow>
                  (case oauth_access_token (oauth client_id client_secret) of
                     Inl (AttributeError name) \<Rightarrow> (Inl (AttributeError name), db)
                   | Inl _ \<Rightarrow> stop False True
                   | Inr token \<Rightarrow>
                       (case process_ticks su ring (provider token) ticks 0 0 db of
                          (Inl e, db1) \<Rightarrow> (Inl e, db1)
                        | (Inr (completed, failed), db1) \<Rightarrow>
                            (Inr \<lparr>sm_completed = completed, sm_failed = failed, sm_disabled = False,
                                  sm_auth_failed = False\<rparr>, db1)))))"

section \<open>Operator routes\<close>

definition require_safe_integration_recovery :: "mautic_db \<Rightarrow> outbox_row \<Rightarrow> unit res" where
  "require_safe_integration_recovery db item =
     (if io_target item \<noteq> ''MAUTIC'' then Inr ()
      else if io_state item = ''DEAD_LETTER'' \<or> has_late_observation db item
      then Inl (HTTPException 409 ''operation_requires_provider_readback'')
      else Inr ())"

definition recover_integration :: "int \<Rightarrow> string \<Rightarrow> mautic_db \<Rightarrow> mautic_db res" where
  "recover_integration current item_id db =
     (case get_outbox db item_id of
        None \<Rightarrow> Inl (HTTPException 404 ''recoverable_integration_not_found'')
      | Some item \<Rightarrow>
          if io_state item \<notin> {''RETRY'', ''DEAD_LETTER''}
          then Inl (HTTPException 404 ''recoverable_integration_not_found'')
          else res_bind (require_safe_integration_recovery db item) (\<lambda>_.
            Inr (put_outbox item_id (\<lambda>i. i\<lparr>io_state := ''PENDING'', io_next_attempt_at := current,
                   io_last_error := None, io_updated_at := current\<rparr>) db)))"

definition fail_integration :: "int \<Rightarrow> string \<Rightarrow> string \<Rightarrow> mautic_db \<Rightarrow> mautic_db res" where
  "fail_integration current item_id reason db =
     (case get_outbox db item_id of
        None \<Rightarrow> Inl (HTTPException 404 ''pending_integration_not_found'')
      | Some item \<Rightarrow>
          if io_state item \<notin> {''PENDING'', ''RETRY''}
          then Inl (HTTPException 404 ''pending_integration_not_found'')
          else Inr (put_outbox item_id (\<lambda>i. i\<lparr>io_attempts := io_attempts i + 1,
                      io_last_error := Some reason,
                      io_state := (if 8 \<le> io_attempts i + 1 then ''DEAD_LETTER'' else ''RETRY''),
                      io_next_attempt_at := current + min 900 (2 ^ nat (io_attempts i + 1)) * 1000000,
                      io_updated_at := current\<rparr>) db))"

definition cancel_operation :: "int \<Rightarrow> string \<Rightarrow> mautic_db \<Rightarrow> mautic_db res" where
  "cancel_operation current item_id db =
     (case get_outbox db item_id of
        None \<Rightarrow> Inl (HTTPException 404 ''not_found'')
      | Some item \<Rightarrow>
          if io_state item \<in> {''COMPLETED'', ''DEAD_LETTER'', ''CANCELLED''}
          then Inl (HTTPException 409 ''operation_terminal'')
          else if io_state item = ''PROCESSING''
          then Inl (HTTPException 409 ''operation_processing_not_cancellable'')
          else Inr (put_outbox item_id (\<lambda>i. i\<lparr>io_state := ''CANCELLED'', io_updated_at := current\<rparr>) db))"

definition queue_operation :: "outbox_row \<Rightarrow> mautic_db \<Rightarrow> mautic_db res" where
  "queue_operation row db =
     (if \<exists>i \<in> set (mx_outbox db). io_id i = io_id row \<or>
           (io_tenant_id i = io_tenant_id row \<and> io_target i = io_target row \<and>
            io_idempotency_key i = io_idempotency_key row)
      then Inl (IntegrityError ''integration_outbox'')
      else Inr (db\<lparr>mx_outbox := mx_outbox db @
             [row\<lparr>io_state := ''PENDING'', io_attempts := 0, io_lease_expires_at := None,
                  io_last_error := None\<rparr>]\<rparr>))"

datatype mautic_op =
    OpQueue outbox_row
  | OpClaimMautic int "string \<Rightarrow> bool"
  | OpFailure int string string bool int bool
  | OpSuccess string string int string json int
  | OpOperatorFail int string string
  | OpOperatorRecover int string
  | OpCancelOperation int string

definition commit_mautic :: "mautic_db \<Rightarrow> mautic_db res \<Rightarrow> mautic_db" where
  "commit_mautic db r = (case r of Inl _ \<Rightarrow> db | Inr db' \<Rightarrow> db')"

fun mautic_step :: "suite \<Rightarrow> key_ring res \<Rightarrow> mautic_op \<Rightarrow> mautic_db \<Rightarrow> mautic_db" where
  "mautic_step su ring (OpQueue row) db = commit_mautic db (queue_operation row db)"
| "mautic_step su ring (OpClaimMautic current locked) db = snd (claim_mautic current locked db)"
| "mautic_step su ring (OpFailure current item_id error retryable attempt affects) db =
     snd (mautic_failure current item_id error retryable attempt affects db)"
| "mautic_step su ring (OpSuccess nonce fresh current item_id response attempt) db =
     commit_mautic db (res_bind (mautic_success su ring nonce fresh current item_id response attempt db)
       (\<lambda>r. Inr (snd r)))"
| "mautic_step su ring (OpOperatorFail current item_id reason) db =
     commit_mautic db (fail_integration current item_id reason db)"
| "mautic_step su ring (OpOperatorRecover current item_id) db =
     commit_mautic db (recover_integration current item_id db)"
| "mautic_step su ring (OpCancelOperation current item_id) db =
     commit_mautic db (cancel_operation current item_id db)"

section \<open>Lemmas\<close>

text \<open>The key of a late observation names the operation it is about.\<close>

definition late_keys_ok :: "result_row list \<Rightarrow> bool" where
  "late_keys_ok rows \<longleftrightarrow> (\<forall>r \<in> set rows. ir_source r = ''MAUTIC_LATE'' \<longrightarrow>
     (\<exists>n. ir_result_key r = ''mautic:late:'' @ ir_outbox_id r @ '':'' @ int_to_string n))"

definition mautic_inv :: "mautic_db \<Rightarrow> bool" where
  "mautic_inv db \<longleftrightarrow> distinct (map io_id (mx_outbox db)) \<and> late_keys_ok (mx_results db)"

definition mautic_settled :: "outbox_row \<Rightarrow> bool" where
  "mautic_settled i \<longleftrightarrow> io_target i = ''MAUTIC'' \<and> io_state i \<in> {''COMPLETED'', ''DEAD_LETTER'', ''CANCELLED''}"

definition mautic_outcome :: "outbox_row \<Rightarrow> string \<times> int \<times> string \<times> jtext" where
  "mautic_outcome i = (io_state i, io_attempts i, io_event_type i, io_payload i)"

definition outbox_le :: "outbox_row \<Rightarrow> outbox_row \<Rightarrow> bool" where
  "outbox_le i j \<longleftrightarrow> io_id j = io_id i \<and> io_target j = io_target i \<and> io_tenant_id j = io_tenant_id i \<and>
     (mautic_settled i \<longrightarrow> mautic_outcome j = mautic_outcome i)"

interpretation outbox_order: row_order outbox_le io_id
  by unfold_locales (auto simp: outbox_le_def mautic_settled_def mautic_outcome_def)

lemma mautic_row_unique:
  assumes "mautic_inv db" and "get_outbox db k = Some i" and "j \<in> set (mx_outbox db)" and "io_id j = k"
  shows "j = i"
  using find_row_unique [of io_id "mx_outbox db" j] assms
  by (auto simp: mautic_inv_def get_outbox_def)

lemma get_outbox_Some: "get_outbox db k = Some i \<Longrightarrow> i \<in> set (mx_outbox db) \<and> io_id i = k"
  unfolding get_outbox_def by (drule find_row_Some) simp

lemma put_outbox_grows:
  assumes "mautic_inv db" and "get_outbox db k = Some i" and "outbox_le i (f i)"
  shows "grows outbox_le (mx_outbox db) (mx_outbox (put_outbox k f db))"
  unfolding put_outbox_def
  by (simp, rule outbox_order.grows_update) (use mautic_row_unique [OF assms(1,2)] assms(3) in blast)

lemma put_outbox_frame [simp]:
  "mx_outbox (put_outbox k f (db\<lparr>mx_circuit := c\<rparr>)) = mx_outbox (put_outbox k f db)"
  "mx_outbox (put_outbox k f (db\<lparr>mx_results := r\<rparr>)) = mx_outbox (put_outbox k f db)"
  "mx_results (put_outbox k f db) = mx_results db" "mx_circuit (put_outbox k f db) = mx_circuit db"
  "length (mx_outbox (put_outbox k f db)) = length (mx_outbox db)"
  by (simp_all add: put_outbox_def)

lemma recover_expired_grows: "grows outbox_le (mx_outbox db) (mx_outbox (recover_expired t locked db))"
  unfolding recover_expired_def
  by (simp, rule outbox_order.grows_update)
     (auto simp: outbox_le_def mautic_settled_def mautic_expired_def dead_letter_expired_def)

lemma claim_mautic_cases:
  assumes "claim_mautic t locked db = (oi, db')"
  obtains (idle) "oi = None" "db' = recover_expired t locked db"
  | (taken) item where "oi = Some (take_claim t item)" "item \<in> set (mx_outbox (recover_expired t locked db))"
      "mautic_due t locked (recover_expired t locked db) item"
      "\<not> circuit_open t (recover_expired t locked db)"
      "db' = put_outbox (io_id item) (take_claim t) (recover_expired t locked db)"
proof -
  let ?db = "recover_expired t locked db"
  show thesis
  proof (cases "circuit_open t ?db \<or> select_rows io_created_at (mautic_due t locked ?db) 1 (mx_outbox ?db) = []")
    case True
    then show thesis using assms idle by (auto simp: claim_mautic_def Let_def split: if_splits)
  next
    case False
    then obtain item rest where s: "select_rows io_created_at (mautic_due t locked ?db) 1 (mx_outbox ?db) = item # rest"
      by (cases "select_rows io_created_at (mautic_due t locked ?db) 1 (mx_outbox ?db)") auto
    have "item \<in> set (select_rows io_created_at (mautic_due t locked ?db) 1 (mx_outbox ?db))"
      unfolding s by simp
    then have "item \<in> set (mx_outbox ?db) \<and> mautic_due t locked ?db item" by (rule select_rows_in)
    then show thesis using assms False s taken by (auto simp: claim_mautic_def Let_def)
  qed
qed

lemma mautic_inv_grows:
  "mautic_inv db \<Longrightarrow> grows outbox_le (mx_outbox db) (mx_outbox db') \<Longrightarrow>
     length (mx_outbox db') = length (mx_outbox db) \<Longrightarrow> late_keys_ok (mx_results db') \<Longrightarrow> mautic_inv db'"
  unfolding mautic_inv_def by (metis outbox_order.grows_keys)

lemma recover_expired_inv: "mautic_inv db \<Longrightarrow> mautic_inv (recover_expired t locked db)"
  by (rule mautic_inv_grows [OF _ recover_expired_grows]) (simp_all add: recover_expired_def mautic_inv_def)

text \<open>A step keeps the invariant, lets rows only grow and removes no result.\<close>

definition mautic_grows :: "mautic_db \<Rightarrow> mautic_db \<Rightarrow> bool" where
  "mautic_grows db db' \<longleftrightarrow> mautic_inv db' \<and> grows outbox_le (mx_outbox db) (mx_outbox db') \<and>
     set (mx_results db) \<subseteq> set (mx_results db')"

lemma mautic_grows_same:
  "mautic_inv db \<Longrightarrow> mx_outbox db' = mx_outbox db \<Longrightarrow> late_keys_ok (mx_results db') \<Longrightarrow>
     set (mx_results db) \<subseteq> set (mx_results db') \<Longrightarrow> mautic_grows db db'"
  by (simp add: mautic_grows_def mautic_inv_def outbox_order.grows_refl)

lemma mautic_grows_refl: "mautic_inv db \<Longrightarrow> mautic_grows db db"
  by (rule mautic_grows_same) (simp_all add: mautic_inv_def)

lemma mautic_grows_put:
  assumes "mautic_inv db" and "get_outbox db k = Some i" and "outbox_le i (f i)"
    and "mx_outbox db' = mx_outbox (put_outbox k f db)"
    and "late_keys_ok (mx_results db')" and "set (mx_results db) \<subseteq> set (mx_results db')"
  shows "mautic_grows db db'"
  using put_outbox_grows [OF assms(1,2), of f, OF assms(3)] mautic_inv_grows [OF assms(1), of db'] assms(4-6)
  by (simp add: mautic_grows_def)

lemma mautic_grows_put_outbox:
  "mautic_inv db \<Longrightarrow> get_outbox db k = Some i \<Longrightarrow> outbox_le i (f i) \<Longrightarrow>
     mautic_grows db (put_outbox k f db)"
  by (rule mautic_grows_put) (simp_all add: mautic_inv_def)

lemma mautic_grows_trans: "mautic_grows a b \<Longrightarrow> mautic_grows b c \<Longrightarrow> mautic_grows a c"
  unfolding mautic_grows_def using outbox_order.grows_trans by blast

lemma claim_mautic_grows:
  assumes "mautic_inv db"
  shows "mautic_grows db (snd (claim_mautic t locked db))"
proof -
  obtain oi db' where c: "claim_mautic t locked db = (oi, db')" by fastforce
  have r: "mautic_grows db (recover_expired t locked db)"
    using recover_expired_inv [OF assms] recover_expired_grows
    by (simp add: mautic_grows_def recover_expired_def)
  from c show ?thesis
  proof (cases rule: claim_mautic_cases)
    case idle
    then show ?thesis using r c by simp
  next
    case (taken item)
    let ?db = "recover_expired t locked db"
    have "get_outbox ?db (io_id item) = Some item"
      using find_row_unique [of io_id "mx_outbox ?db" item] taken(2) recover_expired_inv [OF assms]
      by (simp add: get_outbox_def mautic_inv_def)
    moreover have "outbox_le item (take_claim t item)"
      using taken(3) by (auto simp: outbox_le_def take_claim_def mautic_due_def mautic_settled_def)
    ultimately have "mautic_grows ?db db'"
      using mautic_grows_put_outbox [OF recover_expired_inv [OF assms]] taken(5) by simp
    then show ?thesis using r c mautic_grows_trans by simp
  qed
qed

lemma current_claim_processing:
  "current_claim (Some i) n t \<Longrightarrow> io_state i = ''PROCESSING'' \<and> io_attempts i = n"
  by (simp add: current_claim_def)

lemma mautic_failure_cases:
  assumes "mautic_failure t k error retryable n affects db = (done', db')"
  obtains (ignored) "\<not> done'" "db' = db" "\<not> current_claim (get_outbox db k) n t"
  | (recorded) item f where "done'" "get_outbox db k = Some item" "current_claim (Some item) n t"
      "mx_outbox db' = mx_outbox (put_outbox k f db)" "mx_results db' = mx_results db"
      "io_id (f item) = io_id item" "io_target (f item) = io_target item"
      "io_tenant_id (f item) = io_tenant_id item"
      "io_state (f item) = (if retryable \<and> n < MAUTIC_MAX_ATTEMPTS \<and> \<not> has_late_observation db item
         then ''RETRY'' else ''DEAD_LETTER'')" "io_attempts (f item) = n"
      "mx_circuit db' = (if affects then Some (count_failure t (the_circuit t db)) else mx_circuit db)"
proof (cases "current_claim (get_outbox db k) n t")
  case False
  then show thesis using assms ignored
    by (auto simp: mautic_failure_def current_claim_def split: option.splits)
next
  case True
  then obtain item where item: "get_outbox db k = Some item" "current_claim (Some item) n t"
    by (cases "get_outbox db k") (auto simp: current_claim_def)
  let ?f = "\<lambda>i. i\<lparr>io_state := (if retryable \<and> io_attempts item < MAUTIC_MAX_ATTEMPTS \<and>
        \<not> has_late_observation db item then ''RETRY'' else ''DEAD_LETTER''),
      io_next_attempt_at := t + min 300 (2 ^ nat (io_attempts i)) * 1000000,
      io_lease_expires_at := None, io_last_error := Some (take 500 error), io_updated_at := t\<rparr>"
  from assms item current_claim_processing [OF item(2)] show thesis
    by (intro recorded [of item ?f]) (auto simp: mautic_failure_def Let_def)
qed

lemma mautic_failure_grows:
  assumes "mautic_inv db"
  shows "mautic_grows db (snd (mautic_failure t k error retryable n affects db))"
proof -
  obtain d db' where c: "mautic_failure t k error retryable n affects db = (d, db')" by fastforce
  then show ?thesis
  proof (cases rule: mautic_failure_cases)
    case ignored
    then show ?thesis using c mautic_grows_refl [OF assms] by simp
  next
    case (recorded item f)
    have "outbox_le item (f item)" using recorded(3,6-8)
      by (auto simp: outbox_le_def mautic_settled_def current_claim_def)
    then show ?thesis using mautic_grows_put [OF assms recorded(2)] recorded(4,5) c assms
      by (simp add: mautic_inv_def)
  qed
qed

lemma add_result_Inr: "add_result row db = Inr db' \<Longrightarrow> db' = db\<lparr>mx_results := mx_results db @ [row]\<rparr>"
  by (auto simp: add_result_def split: if_splits)

lemma late_outbox:
  assumes "record_late_completion su ring nonce fresh t item n db = Inr db'"
    and "late_keys_ok (mx_results db)"
  shows "mx_outbox db' = mx_outbox db" "mx_circuit db' = mx_circuit db" "late_keys_ok (mx_results db')"
    "set (mx_results db) \<subseteq> set (mx_results db')"
  using assms
  by (auto simp: record_late_completion_def Let_def res_bind_Inr late_keys_ok_def late_key_def
      split: if_splits dest!: add_result_Inr) blast+

lemma store_outbox:
  assumes "store_result su ring nonce t item response db = Inr db'"
  shows "mx_outbox db' = mx_outbox db" "mx_circuit db' = mx_circuit db"
    "late_keys_ok (mx_results db) \<Longrightarrow> late_keys_ok (mx_results db')"
    "set (mx_results db) \<subseteq> set (mx_results db')"
  using assms
  by (auto simp: store_result_def Let_def res_bind_Inr late_keys_ok_def
      split: if_splits dest!: add_result_Inr)

lemma nat_to_string_digits: "c \<in> set (nat_to_string n) \<Longrightarrow> c \<noteq> CHR '':''"
proof (induction n arbitrary: c rule: nat_to_string.induct)
  case (1 n)
  have d: "char_of (48 + k) \<noteq> CHR '':''" if "k < 10" for k :: nat
  proof
    assume "char_of (48 + k) = CHR '':''"
    then have "of_char (char_of (48 + k) :: char) = (of_char CHR '':'' :: nat)" by simp
    then show False using \<open>k < 10\<close> by simp
  qed
  show ?case using 1 d [of n] d [of "n mod 10"]
    by (subst (asm) nat_to_string.simps) (auto split: if_splits)
qed

lemma int_to_string_colon: "CHR '':'' \<notin> set (int_to_string i)"
  using nat_to_string_digits by (auto simp: int_to_string_def)

lemma separator_unique:
  "xs @ c # ys = us @ c # vs \<Longrightarrow> c \<notin> set xs \<Longrightarrow> c \<notin> set us \<Longrightarrow> ys = vs"
proof (induction xs arbitrary: us)
  case Nil
  then show ?case by (cases us) auto
next
  case (Cons x xs)
  then show ?case by (cases us) auto
qed

lemma late_key_inj:
  assumes "''mautic:late:'' @ a @ '':'' @ int_to_string m = ''mautic:late:'' @ b @ '':'' @ int_to_string n"
  shows "a = b"
proof -
  have "rev (int_to_string m) @ CHR '':'' # rev a = rev (int_to_string n) @ CHR '':'' # rev b"
    using arg_cong [OF assms, of rev] by simp
  then have "rev a = rev b" by (rule separator_unique) (use int_to_string_colon in simp_all)
  then show ?thesis by simp
qed

text \<open>A late completion leaves its mark, whoever recorded it.\<close>

lemma late_recorded:
  assumes "record_late_completion su ring nonce fresh t item n db = Inr db'"
    and "late_keys_ok (mx_results db)"
  shows "has_late_observation db' item"
proof (cases "\<exists>r \<in> set (mx_results db). ir_tenant_id r = io_tenant_id item \<and>
    ir_source r = ''MAUTIC_LATE'' \<and> ir_result_key r = late_key item n")
  case True
  then obtain r where r: "r \<in> set (mx_results db)" "ir_tenant_id r = io_tenant_id item"
      "ir_source r = ''MAUTIC_LATE''" "ir_result_key r = late_key item n" by blast
  then have "ir_outbox_id r = io_id item"
    using assms(2) late_key_inj unfolding late_keys_ok_def late_key_def by metis
  then show ?thesis using assms(1) r True
    by (auto simp: record_late_completion_def has_late_observation_def)
next
  case False
  show ?thesis using assms(1)
    unfolding record_late_completion_def Let_def if_not_P [OF False]
    by (auto simp: res_bind_Inr has_late_observation_def dest!: add_result_Inr)
qed

lemma mautic_success_cases:
  assumes "mautic_success su ring nonce fresh t k response n db = Inr (ok, db')"
  obtains (gone) "\<not> ok" "db' = db" "get_outbox db k = None"
  | (repeated) item where "\<not> ok" "db' = db" "get_outbox db k = Some item"
      "io_state item = ''COMPLETED''" "io_attempts item = n"
  | (late) item where "\<not> ok" "get_outbox db k = Some item" "\<not> current_claim (Some item) n t"
      "record_late_completion su ring nonce fresh t item n db = Inr db'"
  | (accepted) item f db1 where "ok" "get_outbox db k = Some item" "current_claim (Some item) n t"
      "store_result su ring nonce t item response db = Inr db1"
      "mx_outbox db' = mx_outbox (put_outbox k f db)" "mx_results db' = mx_results db1"
      "f item = item\<lparr>io_state := ''COMPLETED'', io_lease_expires_at := None, io_last_error := None,
         io_updated_at := t\<rparr>"
      "mx_circuit db' = Some (close_circuit t (the_circuit t db))"
proof (cases "get_outbox db k")
  case None
  then show thesis using assms gone by (simp add: mautic_success_def)
next
  case (Some item)
  let ?f = "\<lambda>i. i\<lparr>io_state := ''COMPLETED'', io_lease_expires_at := None, io_last_error := None,
      io_updated_at := t\<rparr>"
  consider "io_state item = ''COMPLETED'' \<and> io_attempts item = n"
    | "\<not> (io_state item = ''COMPLETED'' \<and> io_attempts item = n)" "\<not> current_claim (Some item) n t"
    | "\<not> (io_state item = ''COMPLETED'' \<and> io_attempts item = n)" "current_claim (Some item) n t"
    by blast
  then show thesis
  proof cases
    case 1
    then show thesis using assms Some repeated by (simp add: mautic_success_def)
  next
    case 2
    then show thesis using assms Some late by (auto simp: mautic_success_def res_bind_Inr)
  next
    case 3
    then obtain db1 where db1: "store_result su ring nonce t item response db = Inr db1"
        "db' = (put_outbox k ?f db1)\<lparr>mx_circuit := Some (close_circuit t (the_circuit t db1))\<rparr>" "ok"
      using assms Some by (auto simp: mautic_success_def res_bind_Inr)
    have "mx_outbox db' = mx_outbox (put_outbox k ?f db)" "mx_results db' = mx_results db1"
        "mx_circuit db' = Some (close_circuit t (the_circuit t db))"
      using store_outbox [OF db1(1)] db1(2) by (simp_all add: put_outbox_def the_circuit_def)
    then show thesis using accepted [OF db1(3) Some 3(2) db1(1), of ?f] by simp
  qed
qed

lemma mautic_success_grows:
  assumes "mautic_inv db" and "mautic_success su ring nonce fresh t k response n db = Inr (ok, db')"
  shows "mautic_grows db db'"
  using assms(2)
proof (cases rule: mautic_success_cases)
  case (late item)
  then show ?thesis using late_outbox [OF late(4)] mautic_grows_same [OF assms(1)] assms(1)
    by (simp add: mautic_inv_def)
next
  case (accepted item f db1)
  have "outbox_le item (f item)" using accepted(3,7)
    by (auto simp: outbox_le_def mautic_settled_def current_claim_def)
  then show ?thesis
    using mautic_grows_put [OF assms(1) accepted(2)] accepted(5,6) store_outbox(3,4) [OF accepted(4)] assms(1)
    by (simp add: mautic_inv_def)
qed (simp_all add: mautic_grows_refl [OF assms(1)])

lemma operator_grows:
  assumes "mautic_inv db"
  shows "fail_integration t k reason db = Inr db' \<Longrightarrow> mautic_grows db db'"
    and "recover_integration t k db = Inr db' \<Longrightarrow> mautic_grows db db'"
    and "cancel_operation t k db = Inr db' \<Longrightarrow> mautic_grows db db'"
    and "queue_operation row db = Inr db' \<Longrightarrow> mautic_grows db db'"
proof -
  show "mautic_grows db db'" if "fail_integration t k reason db = Inr db'"
    using that by (auto simp: fail_integration_def outbox_le_def mautic_settled_def
        intro!: mautic_grows_put_outbox [OF assms] split: option.splits if_splits)
  show "mautic_grows db db'" if "recover_integration t k db = Inr db'"
    using that by (auto simp: recover_integration_def require_safe_integration_recovery_def outbox_le_def
        mautic_settled_def intro!: mautic_grows_put_outbox [OF assms] split: option.splits if_splits)
  show "mautic_grows db db'" if "cancel_operation t k db = Inr db'"
    using that by (auto simp: cancel_operation_def outbox_le_def mautic_settled_def
        intro!: mautic_grows_put_outbox [OF assms] split: option.splits if_splits)
  show "mautic_grows db db'" if "queue_operation row db = Inr db'"
    using that assms
    by (auto simp: queue_operation_def mautic_grows_def mautic_inv_def
        intro: outbox_order.grows_append split: if_splits) force
qed

lemma mautic_step_grows: "mautic_inv db \<Longrightarrow> mautic_grows db (mautic_step su ring op db)"
  by (cases op)
     (auto simp: commit_mautic_def res_bind_Inr claim_mautic_grows mautic_failure_grows mautic_grows_refl
       split: sum.splits dest: operator_grows mautic_success_grows)

interpretation mautic: settled_rows "mautic_step su ring" mautic_inv get_outbox mautic_settled mautic_outcome
  for su ring
proof unfold_locales
  fix db op assume i: "mautic_inv db"
  then show "mautic_inv (mautic_step su ring op db)"
    using mautic_step_grows [OF i, of su ring op] by (simp add: mautic_grows_def)
  fix k r assume "get_outbox db k = Some r" "mautic_settled r"
  moreover have "grows outbox_le (mx_outbox db) (mx_outbox (mautic_step su ring op db))"
    using mautic_step_grows [OF i, of su ring op] by (simp add: mautic_grows_def)
  ultimately show "\<exists>r'. get_outbox (mautic_step su ring op db) k = Some r' \<and> mautic_settled r' \<and>
      mautic_outcome r' = mautic_outcome r"
    using outbox_order.grows_find [of "mx_outbox db" _ k r]
    by (fastforce simp: get_outbox_def outbox_le_def mautic_settled_def mautic_outcome_def)
qed

lemma mautic_run_grows: "mautic_inv db \<Longrightarrow> mautic_grows db (run_ops (mautic_step su ring) ops db)"
proof (induction ops arbitrary: db)
  case (Cons op ops)
  have s: "mautic_grows db (mautic_step su ring op db)" using Cons.prems by (rule mautic_step_grows)
  then have "mautic_inv (mautic_step su ring op db)" by (simp add: mautic_grows_def)
  from mautic_grows_trans [OF s Cons.IH [OF this]] show ?case by simp
qed (simp add: mautic_grows_refl)

text \<open>An observation stays with its operation.\<close>

lemma late_observation_stays:
  assumes "mautic_grows db db'" and "get_outbox db k = Some i" and "has_late_observation db i"
  shows "\<exists>j. get_outbox db' k = Some j \<and> has_late_observation db' j"
proof -
  obtain j where "find_row (\<lambda>i. io_id i = k) (mx_outbox db') = Some j" "outbox_le i j"
    using outbox_order.grows_find [of "mx_outbox db" "mx_outbox db'" k i] assms(1,2)
    by (auto simp: mautic_grows_def get_outbox_def)
  then show ?thesis using assms(1,3)
    by (auto simp: get_outbox_def outbox_le_def has_late_observation_def mautic_grows_def)
qed

lemma claim_skips_late:
  assumes "mautic_inv db" and "get_outbox db k = Some i" and "has_late_observation db i"
    and "claim_mautic t locked db = (Some item, db')"
  shows "io_id item \<noteq> k"
  using assms(4)
proof (cases rule: claim_mautic_cases)
  case (taken row)
  let ?db = "recover_expired t locked db"
  have "mautic_grows db ?db"
    using recover_expired_inv [OF assms(1)] recover_expired_grows
    by (simp add: mautic_grows_def recover_expired_def)
  then obtain j where j: "get_outbox ?db k = Some j" "has_late_observation ?db j"
    using late_observation_stays assms(2,3) by blast
  have "row = j" if "io_id row = k"
    using mautic_row_unique [OF recover_expired_inv [OF assms(1)] j(1) taken(2) that] .
  then show ?thesis using taken(1,3) j(2) by (auto simp: mautic_due_def take_claim_def)
qed simp

section \<open>Properties\<close>

text \<open>
  The replies after which the request was certainly not carried out: no connection could be made,
  or the provider turned the request away for its rate.
\<close>

definition not_carried_out :: "reply \<Rightarrow> bool" where
  "not_carried_out r \<longleftrightarrow> r = ConnectFailed \<or> (\<exists>content body. r = Reply 429 content body)"

text \<open>
  The row of one operation while attempt \<open>n\<close> is its last: still with the worker, or final.
\<close>

definition last_attempt :: "int \<Rightarrow> outbox_row \<Rightarrow> bool" where
  "last_attempt n i \<longleftrightarrow> io_target i = ''MAUTIC'' \<and>
     (io_state i = ''PROCESSING'' \<and> io_attempts i = n \<or> mautic_settled i)"

definition attempt_le :: "string \<Rightarrow> int \<Rightarrow> outbox_row \<Rightarrow> outbox_row \<Rightarrow> bool" where
  "attempt_le k n i j \<longleftrightarrow> io_id j = io_id i \<and> (io_id i = k \<and> last_attempt n i \<longrightarrow> last_attempt n j)"

interpretation attempt_order: row_order "attempt_le k n" io_id for k n
  by unfold_locales (auto simp: attempt_le_def)

lemma attempt_put:
  assumes "mautic_inv db" and "get_outbox db k' = Some i" and "attempt_le k n i (f i)"
  shows "grows (attempt_le k n) (mx_outbox db) (mx_outbox (put_outbox k' f db))"
  unfolding put_outbox_def
  by (simp, rule attempt_order.grows_update) (use mautic_row_unique [OF assms(1,2)] assms(3) in blast)

lemma attempt_same: "mx_outbox db' = mx_outbox db \<Longrightarrow> grows (attempt_le k n) (mx_outbox db) (mx_outbox db')"
  by (simp add: attempt_order.grows_refl)

lemma attempt_recover: "grows (attempt_le k n) (mx_outbox db) (mx_outbox (recover_expired t locked db))"
  unfolding recover_expired_def
  by (simp, rule attempt_order.grows_update)
     (auto simp: attempt_le_def last_attempt_def mautic_settled_def mautic_expired_def dead_letter_expired_def)

lemma attempt_claim:
  assumes "mautic_inv db"
  shows "grows (attempt_le k n) (mx_outbox db) (mx_outbox (snd (claim_mautic t locked db)))"
proof -
  obtain oi db' where c: "claim_mautic t locked db = (oi, db')" by fastforce
  then show ?thesis
  proof (cases rule: claim_mautic_cases)
    case idle
    then show ?thesis using attempt_recover c by simp
  next
    case (taken item)
    let ?db = "recover_expired t locked db"
    have "get_outbox ?db (io_id item) = Some item"
      using find_row_unique [of io_id "mx_outbox ?db" item] taken(2) recover_expired_inv [OF assms]
      by (simp add: get_outbox_def mautic_inv_def)
    moreover have "attempt_le k n item (take_claim t item)"
      using taken(3)
      by (auto simp: attempt_le_def last_attempt_def take_claim_def mautic_due_def mautic_settled_def)
    ultimately have "grows (attempt_le k n) (mx_outbox ?db) (mx_outbox db')"
      using attempt_put [OF recover_expired_inv [OF assms]] taken(5) by simp
    then show ?thesis using c attempt_order.grows_trans [OF attempt_recover] by simp
  qed
qed

lemma attempt_operator:
  assumes "mautic_inv db"
  shows "grows (attempt_le k n) (mx_outbox db) (mx_outbox (commit_mautic db (fail_integration t k' reason db)))"
    and "grows (attempt_le k n) (mx_outbox db) (mx_outbox (commit_mautic db (recover_integration t k' db)))"
    and "grows (attempt_le k n) (mx_outbox db) (mx_outbox (commit_mautic db (cancel_operation t k' db)))"
    and "grows (attempt_le k n) (mx_outbox db) (mx_outbox (commit_mautic db (queue_operation row db)))"
proof -
  note d = commit_mautic_def attempt_le_def last_attempt_def mautic_settled_def attempt_order.grows_refl
  show "grows (attempt_le k n) (mx_outbox db) (mx_outbox (commit_mautic db (fail_integration t k' reason db)))"
    by (auto simp: fail_integration_def d intro!: attempt_put [OF assms] split: option.splits)
  show "grows (attempt_le k n) (mx_outbox db) (mx_outbox (commit_mautic db (recover_integration t k' db)))"
    by (auto simp: recover_integration_def require_safe_integration_recovery_def d
        intro!: attempt_put [OF assms] split: option.splits)
  show "grows (attempt_le k n) (mx_outbox db) (mx_outbox (commit_mautic db (cancel_operation t k' db)))"
    by (auto simp: cancel_operation_def d intro!: attempt_put [OF assms] split: option.splits)
  show "grows (attempt_le k n) (mx_outbox db) (mx_outbox (commit_mautic db (queue_operation row db)))"
    by (auto simp: queue_operation_def d intro: attempt_order.grows_append)
qed

text \<open>Only the report of a retryable failure takes an operation back from its worker.\<close>

definition gives_back :: "string \<Rightarrow> int \<Rightarrow> mautic_op \<Rightarrow> mautic_db \<Rightarrow> bool" where
  "gives_back k n op db \<longleftrightarrow> n < MAUTIC_MAX_ATTEMPTS \<and> (\<exists>t error affects. op = OpFailure t k error True n affects \<and>
     fst (mautic_failure t k error True n affects db))"

lemma attempt_failure:
  assumes "mautic_inv db" and "\<not> gives_back k n (OpFailure t k' error retryable m affects) db"
  shows "grows (attempt_le k n) (mx_outbox db) (mx_outbox (snd (mautic_failure t k' error retryable m affects db)))"
proof -
  obtain d db' where c: "mautic_failure t k' error retryable m affects db = (d, db')" by fastforce
  then show ?thesis
  proof (cases rule: mautic_failure_cases)
    case ignored
    then show ?thesis using c attempt_order.grows_refl by simp
  next
    case (recorded item f)
    have m: "io_id item = k'" using get_outbox_Some [OF recorded(2)] by simp
    have "attempt_le k n item (f item)"
      using assms(2) recorded(1,3,6,7,9,10) c m current_claim_processing [OF recorded(3)]
      by (auto simp: attempt_le_def last_attempt_def mautic_settled_def gives_back_def)
    then show ?thesis using attempt_put [OF assms(1) recorded(2)] recorded(4) c by simp
  qed
qed

lemma attempt_success:
  assumes "mautic_inv db"
  shows "grows (attempt_le k n) (mx_outbox db) (mx_outbox (commit_mautic db
    (res_bind (mautic_success su ring nonce fresh t k' response m db) (\<lambda>r. Inr (snd r)))))"
proof (cases "mautic_success su ring nonce fresh t k' response m db")
  case (Inr r)
  obtain ok db' where r: "r = (ok, db')" by fastforce
  have "grows (attempt_le k n) (mx_outbox db) (mx_outbox db')"
    using Inr unfolding r
  proof (cases rule: mautic_success_cases)
    case (late item)
    then show ?thesis using late_outbox(1) assms attempt_order.grows_refl by (simp add: mautic_inv_def)
  next
    case (accepted item f db1)
    have "attempt_le k n item (f item)" using accepted(7)
      by (auto simp: attempt_le_def last_attempt_def mautic_settled_def)
    then show ?thesis using attempt_put [OF assms accepted(2)] accepted(5) by simp
  qed (simp_all add: attempt_order.grows_refl)
  then show ?thesis using Inr r by (simp add: commit_mautic_def)
qed (simp add: commit_mautic_def attempt_order.grows_refl)

lemma attempt_step:
  assumes "mautic_inv db" and "\<not> gives_back k n op db"
  shows "grows (attempt_le k n) (mx_outbox db) (mx_outbox (mautic_step su ring op db))"
  using assms attempt_operator attempt_claim attempt_failure attempt_success
  by (cases op) auto

lemma attempt_run:
  "mautic_inv db \<Longrightarrow> get_outbox db k = Some i \<Longrightarrow> last_attempt n i \<Longrightarrow>
     (\<exists>pre op post. ops = pre @ op # post \<and> gives_back k n op (run_ops (mautic_step su ring) pre db)) \<or>
     (\<exists>j. get_outbox (run_ops (mautic_step su ring) ops db) k = Some j \<and> last_attempt n j)"
proof (induction ops arbitrary: db i)
  case (Cons op ops)
  show ?case
  proof (cases "gives_back k n op db")
    case True
    then show ?thesis by (intro disjI1 exI [of _ "[]"]) auto
  next
    case False
    let ?db = "mautic_step su ring op db"
    have "io_id i = k" using get_outbox_Some [OF Cons.prems(2)] by simp
    then obtain j where "get_outbox ?db k = Some j" "last_attempt n j"
      using attempt_order.grows_find [OF attempt_step [OF Cons.prems(1) False]] Cons.prems(2,3)
      unfolding get_outbox_def attempt_le_def by blast
    from Cons.IH [OF mautic.inv_step [OF Cons.prems(1)] this] show ?thesis
      by (metis append_Cons run_ops_simps(2))
  qed
qed auto

lemma claim_spares_last:
  assumes "mautic_inv db" and "get_outbox db k = Some i" and "last_attempt n i"
    and "claim_mautic t locked db = (Some item, db')"
  shows "io_id item \<noteq> k"
  using assms(4)
proof (cases rule: claim_mautic_cases)
  case (taken row)
  have "io_id i = k" using get_outbox_Some [OF assms(2)] by simp
  then obtain j where j: "get_outbox (recover_expired t locked db) k = Some j" "last_attempt n j"
    using attempt_order.grows_find [OF attempt_recover] assms(2,3)
    unfolding get_outbox_def attempt_le_def by blast
  have "row = j" if "io_id row = k"
    using mautic_row_unique [OF recover_expired_inv [OF assms(1)] j(1) taken(2) that] .
  then show ?thesis using taken(1,3) j(2)
    by (auto simp: mautic_due_def take_claim_def last_attempt_def mautic_settled_def)
qed simp

lemma claim_starts_attempt:
  assumes "mautic_inv db" and "claim_mautic t locked db = (Some item, db')"
  shows "\<exists>i. get_outbox db' (io_id item) = Some i \<and> last_attempt (io_attempts item) i"
  using assms(2)
proof (cases rule: claim_mautic_cases)
  case (taken row)
  have "get_outbox (recover_expired t locked db) (io_id row) = Some row"
    using find_row_unique [of io_id "mx_outbox (recover_expired t locked db)" row] taken(2)
      recover_expired_inv [OF assms(1)] by (simp add: get_outbox_def mautic_inv_def)
  then have "get_outbox db' (io_id row) = Some (take_claim t row)"
    using find_update_first [of "\<lambda>i. io_id i = io_id row" _ row "take_claim t"] taken(5)
    by (simp add: get_outbox_def put_outbox_def take_claim_def)
  then show ?thesis using taken(1,3) by (auto simp: last_attempt_def take_claim_def mautic_due_def)
qed simp

lemma retryable_verdict:
  "call_provider provider key command stored = Failed error True affects \<Longrightarrow>
     \<exists>request correlation. not_carried_out (provider request key correlation)"
  by (auto simp: call_provider_def judge_exception_def judge_reply_def not_carried_out_def
      split: sum.splits option.splits reply.splits if_splits) blast+

lemma put_first:
  "get_outbox db k = Some i \<Longrightarrow> io_id (f i) = k \<Longrightarrow> mx_outbox db' = mx_outbox (put_outbox k f db) \<Longrightarrow>
     get_outbox db' k = Some (f i)"
  using find_update_first [of "\<lambda>i. io_id i = k"] by (simp add: get_outbox_def put_outbox_def)

text \<open>A worker hands an operation back only on a retryable verdict.\<close>

lemma failure_retries:
  assumes "mautic_failure t k error retryable n affects db = (d, db')"
    and "get_outbox db k = Some i" and "get_outbox db' k = Some j"
    and "io_state j = ''RETRY''" and "io_state i \<noteq> ''RETRY''"
  shows "retryable"
  using assms(1)
proof (cases rule: mautic_failure_cases)
  case (recorded item f)
  have "get_outbox db' k = Some (f item)"
    using put_first [OF recorded(2) _ recorded(4)] recorded(6) get_outbox_Some [OF recorded(2)] by simp
  then show ?thesis using recorded(9) assms(3,4) by (simp split: if_splits)
qed (use assms in auto)

lemma settle_retries:
  assumes "mautic_inv db" and "settle su ring tk item v db = (outcome, db')"
    and "get_outbox db (io_id item) = Some i" and "get_outbox db' (io_id item) = Some j"
    and "io_state j = ''RETRY''" and "io_state i \<noteq> ''RETRY''"
  shows "\<exists>error affects. v = Failed error True affects"
proof (cases v)
  case (Succeeded response)
  show ?thesis
  proof (cases "mautic_success su ring (tk_nonce tk) (tk_fresh tk) (tk_ended_at tk) (io_id item) response
      (io_attempts item) db")
    case (Inl e)
    then show ?thesis using assms(2-6) Succeeded
      failure_retries [of "tk_ended_at tk" "io_id item" _ False "io_attempts item" True db _ db' i j]
      by (cases "handled_name e") (auto simp: settle_def prod_eq_iff)
  next
    case (Inr r)
    obtain ok db1 where r: "r = (ok, db1)" by fastforce
    have db1: "db' = db1" using assms(2) Succeeded Inr r by (simp add: settle_def)
    have False using Inr unfolding r
    proof (cases rule: mautic_success_cases)
      case (late item)
      then show False using late_outbox(1) assms(1,3-6) db1 by (auto simp: mautic_inv_def get_outbox_def)
    next
      case (accepted row f db2)
      then have "get_outbox db' (io_id item) = Some (f row)"
        using put_first [OF accepted(2) _ accepted(5)] get_outbox_Some [OF accepted(2)] db1 by simp
      then show False using accepted(7) assms(4,5) by simp
    qed (use assms(3-6) db1 in auto)
    then show ?thesis ..
  qed
next
  case (Failed error retryable affects)
  then show ?thesis using assms(2-6)
      failure_retries [of "tk_ended_at tk" "io_id item" error retryable "io_attempts item" affects db _ db' i j]
    by (auto simp: settle_def prod_eq_iff)
next
  case (Escapes e)
  then show ?thesis using assms(2-6) by (simp add: settle_def)
qed

text \<open>
  C31. Whatever the interleaving of enqueueing, claims, lease recovery, outcome reports of any number
  of workers, cancellations and operator repairs: (1) a Mautic operation that is completed,
  dead-lettered or cancelled keeps that state, its number of attempts and its command for good;
  (2) an operation that was claimed for an attempt is claimed again later only when that attempt was
  below the fifth and in between was reported, while it still held its claim, as a retryable failure
  - an attempt whose lease ran out, or that was reported as anything else, is the operation's last;
  and (3) the worker's outcome puts an operation back to RETRY only when the provider certainly did
  not carry the request out: no connection could be made, or it answered 429. So an attempt whose
  effect is not known (a lost connection, a 5xx answer, an answer that cannot be read or stored, a
  worker that died) is never followed by a second call.
\<close>

theorem mautic_outcome_final:
  assumes "mautic_inv db"
  shows "(\<forall>k i ops. get_outbox db k = Some i \<and> io_target i = ''MAUTIC'' \<and>
        io_state i \<in> {''COMPLETED'', ''DEAD_LETTER'', ''CANCELLED''} \<longrightarrow>
      (\<exists>j. get_outbox (run_ops (mautic_step su ring) ops db) k = Some j \<and> io_state j = io_state i \<and>
        io_attempts j = io_attempts i \<and> io_event_type j = io_event_type i \<and> io_payload j = io_payload i)) \<and>
    (\<forall>t locked item db1 ops t2 locked2 again db2.
      claim_mautic t locked db = (Some item, db1) \<and>
      claim_mautic t2 locked2 (run_ops (mautic_step su ring) ops db1) = (Some again, db2) \<and>
      io_id again = io_id item \<longrightarrow>
      io_attempts item < 5 \<and>
      (\<exists>pre t3 error affects post.
         ops = pre @ OpFailure t3 (io_id item) error True (io_attempts item) affects # post \<and>
         fst (mautic_failure t3 (io_id item) error True (io_attempts item) affects
           (run_ops (mautic_step su ring) pre db1)))) \<and>
    (\<forall>provider tk item stored i j.
      get_outbox db (io_id item) = Some i \<and> io_state i \<noteq> ''RETRY'' \<and>
      get_outbox (snd (settle su ring tk item
        (call_provider provider (io_idempotency_key item) (io_event_type item) stored) db)) (io_id item) = Some j \<and>
      io_state j = ''RETRY'' \<longrightarrow>
      (\<exists>request correlation. not_carried_out (provider request (io_idempotency_key item) correlation)))"
proof (intro conjI)
  show "\<forall>k i ops. get_outbox db k = Some i \<and> io_target i = ''MAUTIC'' \<and>
        io_state i \<in> {''COMPLETED'', ''DEAD_LETTER'', ''CANCELLED''} \<longrightarrow>
      (\<exists>j. get_outbox (run_ops (mautic_step su ring) ops db) k = Some j \<and> io_state j = io_state i \<and>
        io_attempts j = io_attempts i \<and> io_event_type j = io_event_type i \<and> io_payload j = io_payload i)"
    using mautic.settled_run [OF assms] by (fastforce simp: mautic_settled_def mautic_outcome_def)
  show "\<forall>t locked item db1 ops t2 locked2 again db2.
      claim_mautic t locked db = (Some item, db1) \<and>
      claim_mautic t2 locked2 (run_ops (mautic_step su ring) ops db1) = (Some again, db2) \<and>
      io_id again = io_id item \<longrightarrow>
      io_attempts item < 5 \<and>
      (\<exists>pre t3 error affects post.
         ops = pre @ OpFailure t3 (io_id item) error True (io_attempts item) affects # post \<and>
         fst (mautic_failure t3 (io_id item) error True (io_attempts item) affects
           (run_ops (mautic_step su ring) pre db1)))"
  proof (intro allI impI, elim conjE)
    fix t locked item db1 ops t2 locked2 again db2
    assume c: "claim_mautic t locked db = (Some item, db1)"
      and again: "claim_mautic t2 locked2 (run_ops (mautic_step su ring) ops db1) = (Some again, db2)"
      and k: "io_id again = io_id item"
    have inv1: "mautic_inv db1" using claim_mautic_grows [OF assms, of t locked] c by (simp add: mautic_grows_def)
    obtain i where "get_outbox db1 (io_id item) = Some i" "last_attempt (io_attempts item) i"
      using claim_starts_attempt [OF assms c] by blast
    from attempt_run [OF inv1 this, of ops su ring]
    obtain pre op post where "ops = pre @ op # post"
        "gives_back (io_id item) (io_attempts item) op (run_ops (mautic_step su ring) pre db1)"
      using claim_spares_last [OF mautic.inv_run [OF inv1] _ _ again] k by metis
    then show "io_attempts item < 5 \<and> (\<exists>pre t3 error affects post.
         ops = pre @ OpFailure t3 (io_id item) error True (io_attempts item) affects # post \<and>
         fst (mautic_failure t3 (io_id item) error True (io_attempts item) affects
           (run_ops (mautic_step su ring) pre db1)))"
      unfolding gives_back_def MAUTIC_MAX_ATTEMPTS_def by metis
  qed
  show "\<forall>provider tk item stored i j.
      get_outbox db (io_id item) = Some i \<and> io_state i \<noteq> ''RETRY'' \<and>
      get_outbox (snd (settle su ring tk item
        (call_provider provider (io_idempotency_key item) (io_event_type item) stored) db)) (io_id item) = Some j \<and>
      io_state j = ''RETRY'' \<longrightarrow>
      (\<exists>request correlation. not_carried_out (provider request (io_idempotency_key item) correlation))"
    using settle_retries [OF assms] retryable_verdict by (metis prod.collapse)
qed

text \<open>
  C30. A completion that arrives after its claim has been lost (expired, cancelled or claimed again)
  is not accepted and leaves the operation as it is, and from then on, whatever else happens, no
  worker claims that operation again: a provider call that went through is never repeated.
\<close>

theorem late_completion_never_resent:
  assumes "mautic_inv db" and "get_outbox db k = Some i" and "\<not> current_claim (Some i) n t"
    and "\<not> (io_state i = ''COMPLETED'' \<and> io_attempts i = n)"
    and "mautic_success su ring nonce fresh t k response n db = Inr (ok, db1)"
    and "claim_mautic t2 locked (run_ops (mautic_step su ring2) ops db1) = (Some item, db2)"
  shows "\<not> ok \<and> mx_outbox db1 = mx_outbox db \<and> io_id item \<noteq> k"
  using assms(5)
proof (cases rule: mautic_success_cases)
  case (late j)
  then have j: "j = i" using assms(2) by simp
  have keys: "late_keys_ok (mx_results db)" using assms(1) by (simp add: mautic_inv_def)
  note l = late_outbox [OF late(4) keys] and seen = late_recorded [OF late(4) keys]
  have "mautic_grows db db1" using mautic_grows_same [OF assms(1) l(1,3,4)] .
  then have inv1: "mautic_inv db1" by (simp add: mautic_grows_def)
  have "get_outbox db1 k = Some i" using assms(2) l(1) by (simp add: get_outbox_def)
  then obtain j' where "get_outbox (run_ops (mautic_step su ring2) ops db1) k = Some j'"
      "has_late_observation (run_ops (mautic_step su ring2) ops db1) j'"
    using late_observation_stays [OF mautic_run_grows [OF inv1]] seen j by blast
  then have "io_id item \<noteq> k"
    using claim_skips_late [OF _ _ _ assms(6)] mautic.inv_run [OF inv1] by blast
  then show ?thesis using late l(1) by simp
qed (use assms(2-4) in auto)

text \<open>
  The circuit breaker: after a counted failure that makes five or more in a row, no operation is
  claimed for the next sixty seconds, and a failure is counted only for the attempt that still
  holds the claim; a failed attempt is retried only when it is retryable, was not the fifth and has
  no late observation.
\<close>

theorem failure_opens_circuit:
  assumes "mautic_failure t k error retryable n affects db = (True, db1)" and "affects"
    and "4 \<le> ci_failure_streak (the_circuit t db)"
  shows "(\<forall>t2 locked. t2 < t + 60 * 1000000 \<longrightarrow> fst (claim_mautic t2 locked db1) = None) \<and>
    (\<exists>i j. get_outbox db k = Some i \<and> current_claim (Some i) n t \<and> get_outbox db1 k = Some j \<and>
       (io_state j = ''RETRY'' \<longleftrightarrow> retryable \<and> n < 5 \<and> \<not> has_late_observation db i))"
  using assms(1)
proof (cases rule: mautic_failure_cases)
  case (recorded i f)
  have "fst (claim_mautic t2 locked db1) = None" if "t2 < t + 60 * 1000000" for t2 locked
    using that recorded(11) assms(2,3)
    by (simp add: claim_mautic_def circuit_open_def recover_expired_def count_failure_def Let_def)
  moreover have "get_outbox db1 k = Some (f i)"
    using recorded(2,4,6) get_outbox_Some [OF recorded(2)] find_update_first [of "\<lambda>i. io_id i = k"]
    by (simp add: get_outbox_def put_outbox_def)
  ultimately show ?thesis using recorded(2,3,9) by (auto simp: MAUTIC_MAX_ATTEMPTS_def)
qed simp

section \<open>Instances\<close>

definition mautic_row :: outbox_row where
  "mautic_row = \<lparr>io_id = ''op1'', io_tenant_id = ''t1'', io_target = ''MAUTIC'',
     io_event_type = ''contact.delete.v1'',
     io_payload = JText (JObj [(''payload'', JObj [(''provider_id'', JInt 7)])]),
     io_idempotency_key = ''k1'', io_state = ''PENDING'', io_attempts = 0, io_next_attempt_at = 0,
     io_lease_expires_at = None, io_last_error = None, io_created_at = 0, io_updated_at = 0\<rparr>"

definition mautic_sample :: mautic_db where
  "mautic_sample = \<lparr>mx_outbox = [take_claim 10 mautic_row], mx_results = [],
     mx_circuit = Some ((fresh_circuit 0)\<lparr>ci_failure_streak := 4\<rparr>)\<rparr>"

lemma mautic_sample_inv: "mautic_inv mautic_sample"
  by (simp add: mautic_inv_def mautic_sample_def late_keys_ok_def)

lemma mautic_sample_row: "get_outbox mautic_sample ''op1'' = Some (take_claim 10 mautic_row)"
  by (simp add: get_outbox_def mautic_sample_def take_claim_def mautic_row_def)

theorem failure_opens_circuit_witness:
  "fst (claim_mautic 2000000 (\<lambda>_. False)
     (snd (mautic_failure 1000000 ''op1'' ''mautic_http_429'' True 1 True mautic_sample))) = None"
proof -
  have c: "current_claim (Some (take_claim 10 mautic_row)) 1 1000000"
    by (simp add: current_claim_def take_claim_def mautic_row_def MAUTIC_LEASE_SECONDS_def)
  have "fst (mautic_failure 1000000 ''op1'' ''mautic_http_429'' True 1 True mautic_sample)"
    using c by (simp add: mautic_failure_def mautic_sample_row Let_def)
  then have f: "mautic_failure 1000000 ''op1'' ''mautic_http_429'' True 1 True mautic_sample =
      (True, snd (mautic_failure 1000000 ''op1'' ''mautic_http_429'' True 1 True mautic_sample))"
    by (simp add: prod_eq_iff)
  have "4 \<le> ci_failure_streak (the_circuit 1000000 mautic_sample)"
    by (simp add: the_circuit_def mautic_sample_def)
  from failure_opens_circuit [OF f TrueI this] show ?thesis by simp
qed

theorem mautic_outcome_final_witness:
  "\<exists>(item :: outbox_row) db1 again db2.
     claim_mautic 10 (\<lambda>_. False) (mautic_sample\<lparr>mx_outbox := [mautic_row]\<rparr>) = (Some item, db1) \<and>
     claim_mautic 90000000 (\<lambda>_. False) (run_ops (mautic_step (plain_suite JNull) (Inr plain_ring))
       [OpFailure 20 ''op1'' ''mautic_http_429'' True 1 True] db1) = (Some again, db2) \<and>
     io_id again = io_id item \<and> io_attempts again = 2 \<and> io_attempts item < 5"
proof -
  let ?db = "mautic_sample\<lparr>mx_outbox := [mautic_row]\<rparr>"
  let ?run = "run_ops (mautic_step (plain_suite JNull) (Inr plain_ring))
    [OpFailure 20 ''op1'' ''mautic_http_429'' True 1 True]"
  have inv: "mautic_inv ?db" by (simp add: mautic_inv_def mautic_sample_def late_keys_ok_def)
  have "(case claim_mautic 10 (\<lambda>_. False) ?db of (None, _) \<Rightarrow> False | (Some item, db1) \<Rightarrow>
      (case claim_mautic 90000000 (\<lambda>_. False) (?run db1) of (None, _) \<Rightarrow> False
       | (Some again, _) \<Rightarrow> io_id again = io_id item \<and> io_attempts again = 2))"
    by code_simp
  moreover obtain oi db1 where c1: "claim_mautic 10 (\<lambda>_. False) ?db = (oi, db1)" by fastforce
  moreover obtain oa db2 where c2: "claim_mautic 90000000 (\<lambda>_. False) (?run db1) = (oa, db2)" by fastforce
  ultimately obtain item again where c: "claim_mautic 10 (\<lambda>_. False) ?db = (Some item, db1)"
      "claim_mautic 90000000 (\<lambda>_. False) (?run db1) = (Some again, db2)"
      "io_id again = io_id item" "io_attempts again = 2"
    by (cases oi; cases oa) (simp_all del: run_ops_simps)
  have "io_attempts item < 5"
    using mautic_outcome_final [OF inv, THEN conjunct2, THEN conjunct1, rule_format, OF conjI [OF c(1) conjI [OF c(2,3)]]]
    by (rule conjunct1)
  then show ?thesis using c by blast
qed

definition late_sample :: mautic_db where
  "late_sample = mautic_sample\<lparr>mx_outbox := [take_claim 10 mautic_row, mautic_row\<lparr>io_id := ''op2''\<rparr>]\<rparr>"

text \<open>The provider answers after the lease has run out; the next claim takes the other operation.\<close>

theorem late_completion_never_resent_witness:
  "\<exists>(db1 :: mautic_db) item db2. mautic_success (plain_suite JNull) (Inr plain_ring) plain_nonce ''f1''
      40000000 ''op1'' JNull 1 late_sample = Inr (False, db1) \<and>
    claim_mautic 50000000 (\<lambda>_. False) db1 = (Some item, db2) \<and> io_id item \<noteq> ''op1''"
proof -
  have "(case mautic_success (plain_suite JNull) (Inr plain_ring) plain_nonce ''f1''
      40000000 ''op1'' JNull 1 late_sample of Inl _ \<Rightarrow> False
    | Inr (ok, db1) \<Rightarrow> fst (claim_mautic 50000000 (\<lambda>_. False) db1) \<noteq> None)"
    by code_simp
  then obtain ok db1 where s: "mautic_success (plain_suite JNull) (Inr plain_ring) plain_nonce ''f1''
      40000000 ''op1'' JNull 1 late_sample = Inr (ok, db1)"
      and "fst (claim_mautic 50000000 (\<lambda>_. False) db1) \<noteq> None"
    by (auto split: sum.splits)
  then obtain item db2 where c: "claim_mautic 50000000 (\<lambda>_. False) db1 = (Some item, db2)"
    by (metis eq_fst_iff not_Some_eq)
  have c': "claim_mautic 50000000 (\<lambda>_. False)
      (run_ops (mautic_step (plain_suite JNull) (Inr plain_ring)) [] db1) = (Some item, db2)"
    using c by simp
  have i: "mautic_inv late_sample"
    by (simp add: mautic_inv_def late_sample_def mautic_sample_def late_keys_ok_def take_claim_def mautic_row_def)
  have g: "get_outbox late_sample ''op1'' = Some (take_claim 10 mautic_row)"
    by (simp add: get_outbox_def late_sample_def take_claim_def mautic_row_def)
  have "\<not> current_claim (Some (take_claim 10 mautic_row)) 1 40000000"
      "\<not> (io_state (take_claim 10 mautic_row) = ''COMPLETED'' \<and> io_attempts (take_claim 10 mautic_row) = 1)"
    by (simp_all add: current_claim_def take_claim_def mautic_row_def MAUTIC_LEASE_SECONDS_def)
  from late_completion_never_resent [OF i g this s c'] show ?thesis using s c by auto
qed

end
