(* ===== verification/ReplayPayloads.thy ===== *)
theory ReplayPayloads
  imports Models
begin

text \<open>
  The payload side of \<open>provider_reconciliation_fixes.py\<close>: which destination an inbound route stands
  for, the match of replayed attachment bytes against the relational manifest, and the two ways
  a dead-lettered event is rebuilt from the tenant's own rows. The parameters are collected in
  \<open>tools\<close>: base64 and SHA-256, the JSON encoder, Python's \<open>repr\<close>, the ISO form of an instant and
  the digest of a stored text.
\<close>

record tools =
  tl_b64decode :: "string \<Rightarrow> string option"
  tl_sha256_hex :: "string \<Rightarrow> string"
  tl_dumps :: "json \<Rightarrow> string"
  tl_repr :: "json \<Rightarrow> string"
  tl_iso :: "int \<Rightarrow> string"
  tl_text_hash :: "jtext \<Rightarrow> string"

section \<open>Rows\<close>

record route_row =
  rt_id :: string
  rt_tenant_id :: string
  rt_destination_kind :: string
  rt_destination_ref :: "string option"

record inbound_row =
  ib_id :: string
  ib_tenant_id :: string
  ib_provider_event_id :: string
  ib_route_id :: string
  ib_message_id_header :: "string option"
  ib_sender :: string
  ib_recipient :: string
  ib_subject :: string
  ib_text_body :: "string option"
  ib_html_body :: "string option"
  ib_attachments_json :: jtext
  ib_auth_verdict :: string
  ib_spf_result :: string
  ib_dkim_result :: string
  ib_dmarc_result :: string
  ib_arc_result :: string
  ib_dmarc_fail_action :: string
  ib_disposition :: string

record usage_event_row =
  ue_id :: string
  ue_tenant_id :: string
  ue_message_id :: string
  ue_state :: string
  ue_attempts :: int
  ue_available_at :: int
  ue_last_error :: "string option"
  ue_created_at :: int

record reconcile_db =
  rc_events :: "provider_event_row list"
  rc_usages :: "usage_event_row list"
  rc_inbound :: "inbound_row list"
  rc_route_configs :: "route_row list"
  rc_routes :: "route_row list"
  rc_messages :: "provider_message_row list"
  rc_core_messages :: "core_message_row list"
  rc_outbox :: "email_outbox_row list"

text \<open>\<open>x or default\<close> on a nullable text, and a nullable text as a document.\<close>

definition or_empty :: "string option \<Rightarrow> string" where
  "or_empty o_text = (case o_text of None \<Rightarrow> [] | Some s \<Rightarrow> s)"

definition json_of_text :: "string option \<Rightarrow> json" where
  "json_of_text o_text = (case o_text of None \<Rightarrow> JNull | Some s \<Rightarrow> JStr s)"

section \<open>Destinations\<close>

definition EXPLICIT_ODOO_DESTINATIONS :: "string list" where
  "EXPLICIT_ODOO_DESTINATIONS = [''odoo_helpdesk'', ''odoo_accounting'']"

definition LEGACY_ODOO_WEBHOOK_DESTINATIONS :: "(string \<times> string) list" where
  "LEGACY_ODOO_WEBHOOK_DESTINATIONS =
     [(''server-a:odoo-support'', ''odoo_helpdesk''), (''server-a:odoo-helpdesk'', ''odoo_helpdesk''),
      (''server-a:odoo-accounting'', ''odoo_accounting'')]"

definition middleware_destination_kind :: "route_row \<Rightarrow> string" where
  "middleware_destination_kind route =
     (let raw_kind = strip (rt_destination_kind route);
          kind = lower raw_kind;
          reference = lower (strip (or_empty (rt_destination_ref route)))
      in if kind = ''support'' then ''odoo_helpdesk''
         else if kind = ''odoo''
         then (if contains ''account'' reference then ''odoo_accounting'' else ''odoo_helpdesk'')
         else if kind \<in> set EXPLICIT_ODOO_DESTINATIONS then kind
         else if kind = ''webhook''
         then (case map_of LEGACY_ODOO_WEBHOOK_DESTINATIONS reference of None \<Rightarrow> raw_kind | Some d \<Rightarrow> d)
         else raw_kind)"

definition middleware_inbound_eligible :: "route_row \<Rightarrow> string \<Rightarrow> bool" where
  "middleware_inbound_eligible route disposition \<longleftrightarrow>
     disposition = ''ACCEPT'' \<and> middleware_destination_kind route \<in> set EXPLICIT_ODOO_DESTINATIONS"

definition scoped_route :: "string \<Rightarrow> string \<Rightarrow> route_row list \<Rightarrow> route_row option" where
  "scoped_route rid tenant rows = find_row (\<lambda>r. rt_id r = rid \<and> rt_tenant_id r = tenant) rows"

definition scoped_inbound_route ::
  "reconcile_db \<Rightarrow> inbound_row \<Rightarrow> provider_event_row \<Rightarrow> route_row option" where
  "scoped_inbound_route db item event =
     (if ib_tenant_id item \<noteq> pv_tenant_id event then None
      else (case scoped_route (ib_route_id item) (pv_tenant_id event) (rc_route_configs db) of
              Some route \<Rightarrow> Some route
            | None \<Rightarrow> scoped_route (ib_route_id item) (pv_tenant_id event) (rc_routes db)))"

section \<open>Attachments\<close>

definition decode_attachment :: "tools \<Rightarrow> (string \<times> json) list \<Rightarrow> string option" where
  "decode_attachment ts attachment =
     Option.bind (json_string (obj_get attachment ''data_b64'')) (tl_b64decode ts)"

type_synonym attachment_key = "string \<times> string \<times> int \<times> string"

definition hex_char :: "char \<Rightarrow> bool" where
  "hex_char c \<longleftrightarrow> c \<in> set ''0123456789abcdefABCDEF''"

text \<open>\<open>int(value)\<close> under a handler for \<open>TypeError\<close> and \<open>ValueError\<close>: \<open>None\<close> is the handled case.\<close>

definition handled_int :: "json \<Rightarrow> int option res" where
  "handled_int v =
     (case json_int v of
        Inr i \<Rightarrow> Inr (Some i)
      | Inl (TypeError _) \<Rightarrow> Inr None
      | Inl (ValueError _) \<Rightarrow> Inr None
      | Inl e \<Rightarrow> Inl e)"

definition manifest_entry :: "json \<Rightarrow> attachment_key option res" where
  "manifest_entry attachment =
     (case json_obj attachment of
        None \<Rightarrow> Inr None
      | Some kvs \<Rightarrow>
          res_bind (handled_int (obj_get kvs ''size'')) (\<lambda>osize.
            Inr (case (osize, obj_get kvs ''filename'', obj_get kvs ''content_type'', obj_get kvs ''sha256'') of
                   (Some len, JStr filename, JStr content_type, JStr digest) \<Rightarrow>
                     if filename = [] \<or> content_type = [] \<or> len < 0 \<or> length digest \<noteq> 64 \<or>
                        \<not> list_all hex_char digest
                     then None else Some (filename, content_type, len, lower digest)
                 | _ \<Rightarrow> None)))"

fun manifest_entries :: "json list \<Rightarrow> attachment_key list option res" where
  "manifest_entries [] = Inr (Some [])"
| "manifest_entries (a # as) =
     res_bind (manifest_entry a) (\<lambda>o_entry.
       case o_entry of
         None \<Rightarrow> Inr None
       | Some entry \<Rightarrow> res_bind (manifest_entries as) (\<lambda>o_rest. Inr (map_option ((#) entry) o_rest)))"

definition normalized_manifest :: "inbound_row \<Rightarrow> attachment_key list option res" where
  "normalized_manifest item =
     (case ib_attachments_json item of
        BadText [] \<Rightarrow> Inr (Some [])
      | BadText _ \<Rightarrow> Inr None
      | JText (JList attachments) \<Rightarrow> manifest_entries attachments
      | JText _ \<Rightarrow> Inr None)"

text \<open>The metadata of a replayed attachment; a missing field is a handled \<open>KeyError\<close>.\<close>

definition candidate_key :: "tools \<Rightarrow> (string \<times> json) list \<Rightarrow> attachment_key option res" where
  "candidate_key ts kvs =
     (case (map_of kvs ''filename'', map_of kvs ''content_type'', map_of kvs ''size'') of
        (Some filename, Some content_type, Some len) \<Rightarrow>
          res_bind (handled_int len) (\<lambda>osize.
            Inr (case (osize, map_of kvs ''sha256'') of
                   (Some n, Some digest) \<Rightarrow>
                     Some (json_str (tl_repr ts) filename, json_str (tl_repr ts) content_type, n,
                           lower (json_str (tl_repr ts) digest))
                 | _ \<Rightarrow> None))
      | _ \<Rightarrow> Inr None)"

type_synonym supplied = "(attachment_key \<times> (string \<times> json) list) list"

text \<open>The candidates by key, the last one first: \<open>candidates.pop()\<close> takes the first of its key.\<close>

fun collect :: "tools \<Rightarrow> json list \<Rightarrow> supplied \<Rightarrow> supplied option res" where
  "collect ts [] acc = Inr (Some acc)"
| "collect ts (c # cs) acc =
     (case json_obj c of
        None \<Rightarrow> Inr None
      | Some kvs \<Rightarrow>
          res_bind (candidate_key ts kvs) (\<lambda>o_key.
            case o_key of None \<Rightarrow> Inr None | Some key \<Rightarrow> collect ts cs ((key, kvs) # acc)))"

fun pop_candidate :: "attachment_key \<Rightarrow> supplied \<Rightarrow> ((string \<times> json) list \<times> supplied) option" where
  "pop_candidate key [] = None"
| "pop_candidate key ((k, c) # rest) =
     (if k = key then Some (c, rest)
      else map_option (\<lambda>(x, r). (x, (k, c) # r)) (pop_candidate key rest))"

definition same_counts :: "'a list \<Rightarrow> 'a list \<Rightarrow> bool" where
  "same_counts xs ys \<longleftrightarrow> (\<forall>k \<in> set (xs @ ys). count_list xs k = count_list ys k)"

definition replay_attachment :: "attachment_key \<Rightarrow> json \<Rightarrow> json" where
  "replay_attachment expected data_b64 =
     (case expected of (filename, content_type, len, sha256) \<Rightarrow>
        JObj [(''filename'', JStr filename), (''content_type'', JStr content_type), (''size'', JInt len),
              (''sha256'', JStr sha256), (''data_b64'', data_b64)])"

definition bytes_match :: "tools \<Rightarrow> attachment_key \<Rightarrow> string \<Rightarrow> bool" where
  "bytes_match ts expected decoded \<longleftrightarrow>
     (case expected of (filename, content_type, len, sha256) \<Rightarrow>
        int (length decoded) = len \<and> tl_sha256_hex ts decoded = sha256)"

fun match_manifest :: "tools \<Rightarrow> attachment_key list \<Rightarrow> supplied \<Rightarrow> json list option" where
  "match_manifest ts [] supplied = Some []"
| "match_manifest ts (expected # rest) supplied =
     (case pop_candidate expected supplied of
        None \<Rightarrow> None
      | Some (candidate, supplied') \<Rightarrow>
          (case decode_attachment ts candidate of
             None \<Rightarrow> None
           | Some decoded \<Rightarrow>
               if \<not> bytes_match ts expected decoded then None
               else map_option ((#) (replay_attachment expected (obj_get candidate ''data_b64'')))
                      (match_manifest ts rest supplied')))"

definition authoritative_replay_attachments ::
  "tools \<Rightarrow> inbound_row \<Rightarrow> json \<Rightarrow> json list option res" where
  "authoritative_replay_attachments ts item payload_attachments =
     res_bind (normalized_manifest item) (\<lambda>o_manifest.
       case (o_manifest, payload_attachments) of
         (Some manifest, JList candidates) \<Rightarrow>
           (if length manifest \<noteq> length candidates then Inr None
            else res_bind (collect ts candidates []) (\<lambda>o_supplied.
              Inr (case o_supplied of
                     None \<Rightarrow> None
                   | Some supplied \<Rightarrow>
                       if \<not> same_counts manifest (map fst supplied) then None
                       else match_manifest ts manifest supplied)))
       | _ \<Rightarrow> Inr None)"

section \<open>Rebuilding an event\<close>

datatype decision =
    Requeue json
  | SkipEvent
  | Blocked

definition required_fields :: "string list" where
  "required_fields = [''recipient'', ''sender'', ''subject'', ''destination_kind'']"

definition middleware_inbound_payload ::
  "string \<Rightarrow> inbound_row \<Rightarrow> route_row \<Rightarrow> (string \<times> json) list \<Rightarrow> string \<Rightarrow> string \<Rightarrow> (string \<times> json) list" where
  "middleware_inbound_payload event_id item route parsed occurred_at payload_hash =
     [(''event_id'', JStr event_id), (''schema_version'', JStr ''1.0''),
      (''event'', JStr ''inbound.received''), (''timestamp'', JStr occurred_at),
      (''occurred_at'', JStr occurred_at), (''payload_hash'', JStr payload_hash),
      (''tenant_id'', JStr (ib_tenant_id item)), (''inbound_id'', JStr (ib_id item)),
      (''provider_event_id'', JStr (ib_provider_event_id item)), (''route_id'', JStr (ib_route_id item)),
      (''destination_kind'', JStr (middleware_destination_kind route)),
      (''destination_ref'', json_of_text (rt_destination_ref route)),
      (''disposition'', JStr (ib_disposition item)), (''recipient'', JStr (ib_recipient item)),
      (''sender'', JStr (ib_sender item)), (''subject'', JStr (ib_subject item)),
      (''message_id'', obj_get parsed ''message_id''), (''in_reply_to'', obj_get parsed ''in_reply_to''),
      (''references'', obj_get parsed ''references''), (''date'', obj_get parsed ''date''),
      (''cc'', obj_get parsed ''cc''), (''text'', obj_get parsed ''text''), (''html'', obj_get parsed ''html''),
      (''attachments'', JList []), (''auth_verdict'', JStr (ib_auth_verdict item)),
      (''spf_result'', JStr (ib_spf_result item)), (''dkim_result'', JStr (ib_dkim_result item)),
      (''dmarc_result'', JStr (ib_dmarc_result item)), (''arc_result'', JStr (ib_arc_result item)),
      (''dmarc_fail_action'', JStr (ib_dmarc_fail_action item))]"

definition replay_update ::
  "provider_event_row \<Rightarrow> inbound_row \<Rightarrow> route_row \<Rightarrow> json list \<Rightarrow> (string \<times> json) list" where
  "replay_update event item route replay_attachments =
     [(''event_id'', JStr (pv_id event)), (''event'', JStr ''inbound.received''),
      (''tenant_id'', JStr (ib_tenant_id item)), (''inbound_id'', JStr (ib_id item)),
      (''provider_event_id'', JStr (ib_provider_event_id item)), (''route_id'', JStr (ib_route_id item)),
      (''destination_kind'', JStr (middleware_destination_kind route)),
      (''destination_ref'', json_of_text (rt_destination_ref route)),
      (''disposition'', JStr (ib_disposition item)), (''recipient'', JStr (ib_recipient item)),
      (''sender'', JStr (ib_sender item)), (''subject'', JStr (ib_subject item)),
      (''message_id'', json_of_text (ib_message_id_header item)),
      (''text'', json_of_text (ib_text_body item)), (''html'', json_of_text (ib_html_body item)),
      (''attachments'', JList replay_attachments)]"

definition fresh_inbound_payload ::
  "tools \<Rightarrow> provider_event_row \<Rightarrow> inbound_row \<Rightarrow> route_row \<Rightarrow> (string \<times> json) list \<Rightarrow> (string \<times> json) list" where
  "fresh_inbound_payload ts event item route existing =
     (let parsed = [(''message_id'', json_of_text (ib_message_id_header item)),
                    (''in_reply_to'', obj_get existing ''in_reply_to''),
                    (''references'', obj_get existing ''references''),
                    (''date'', obj_get existing ''date''), (''cc'', obj_get existing ''cc''),
                    (''text'', json_of_text (ib_text_body item)), (''html'', json_of_text (ib_html_body item))];
          occurred_at = json_str (tl_repr ts)
            (json_or (obj_get existing ''occurred_at'') (JStr (tl_iso ts (pv_created_at event))));
          payload_hash = json_str (tl_repr ts)
            (json_or (obj_get existing ''payload_hash'') (JStr (tl_text_hash ts (pv_payload_json event))))
      in middleware_inbound_payload (pv_id event) item route parsed occurred_at payload_hash)"

definition find_inbound :: "reconcile_db \<Rightarrow> provider_event_row \<Rightarrow> inbound_row option" where
  "find_inbound db event =
     find_row (\<lambda>i. ib_id i = pv_message_id event \<and> ib_tenant_id i = pv_tenant_id event) (rc_inbound db)"

definition event_document :: "provider_event_row \<Rightarrow> (string \<times> json) list option" where
  "event_document event = (case pv_payload_json event of BadText _ \<Rightarrow> None | JText doc \<Rightarrow> json_obj doc)"

definition rebuild_inbound ::
  "tools \<Rightarrow> provider_event_row \<Rightarrow> inbound_row \<Rightarrow> route_row \<Rightarrow> (string \<times> json) list \<Rightarrow> decision res" where
  "rebuild_inbound ts event item route existing =
     res_bind (normalized_manifest item) (\<lambda>o_manifest.
       case o_manifest of
         None \<Rightarrow> Inr Blocked
       | Some manifest \<Rightarrow>
           if list_all (\<lambda>field. obj_get existing field \<noteq> JNull) required_fields
           then res_bind (authoritative_replay_attachments ts item
                  (case map_of existing ''attachments'' of None \<Rightarrow> JList [] | Some v \<Rightarrow> v)) (\<lambda>o_replay.
                  case o_replay of
                    None \<Rightarrow> Inr Blocked
                  | Some replay_attachments \<Rightarrow>
                      Inr (Requeue (JObj (obj_update existing
                             (replay_update event item route replay_attachments)))))
           else if manifest \<noteq> [] then Inr Blocked
           else Inr (Requeue (JObj (fresh_inbound_payload ts event item route existing))))"

definition upgrade_legacy_inbound_event ::
  "tools \<Rightarrow> reconcile_db \<Rightarrow> provider_event_row \<Rightarrow> decision res" where
  "upgrade_legacy_inbound_event ts db event =
     (case find_inbound db event of
        None \<Rightarrow> Inr Blocked
      | Some item \<Rightarrow>
          (case scoped_inbound_route db item event of
             None \<Rightarrow> Inr Blocked
           | Some route \<Rightarrow>
               if \<not> middleware_inbound_eligible route (ib_disposition item) then Inr SkipEvent
               else (case event_document event of
                       None \<Rightarrow> Inr Blocked
                     | Some existing \<Rightarrow> rebuild_inbound ts event item route existing)))"

section \<open>Lifecycle events\<close>

definition bounded_text :: "json \<Rightarrow> string \<Rightarrow> nat \<Rightarrow> string" where
  "bounded_text v dflt limit =
     (case json_string v of
        None \<Rightarrow> dflt
      | Some s \<Rightarrow> (let normalized = strip s in if normalized = [] then dflt else take limit normalized))"

definition METADATA_KEYS :: "string list" where
  "METADATA_KEYS =
     [''event_source'', ''provider_event'', ''provider_message_token'', ''reason'', ''smtp_status'']"

fun is_scalar :: "json \<Rightarrow> bool" where
  "is_scalar (JList _) = False"
| "is_scalar (JObj _) = False"
| "is_scalar _ = True"

definition bounded_metadata :: "json \<Rightarrow> (string \<times> json) list" where
  "bounded_metadata v =
     (case json_obj v of
        None \<Rightarrow> []
      | Some kvs \<Rightarrow>
          concat (map (\<lambda>key. case map_of kvs key of
                               None \<Rightarrow> []
                             | Some (JStr s) \<Rightarrow> [(key, JStr (take 500 s))]
                             | Some item \<Rightarrow> if is_scalar item then [(key, item)] else []) METADATA_KEYS))"

definition bounded_attempt :: "json \<Rightarrow> int res" where
  "bounded_attempt v =
     res_bind (handled_int v) (\<lambda>o_int. Inr (case o_int of None \<Rightarrow> 1 | Some i \<Rightarrow> max 1 (min i 1000)))"

text \<open>What the code takes from the message row that the event's tenant owns.\<close>

record authority =
  ay_sender :: string
  ay_recipient :: string
  ay_correlation_id :: json
  ay_provider_message_id :: json
  ay_stream :: string
  ay_status :: string
  ay_operation_id :: json

definition kind_suffix :: "provider_event_row \<Rightarrow> string" where
  "kind_suffix event = after_last (CHR ''.'') (pv_kind event)"

definition text_or :: "string option \<Rightarrow> json \<Rightarrow> json" where
  "text_or o_text other = json_or (json_of_text o_text) other"

definition provider_authority ::
  "provider_event_row \<Rightarrow> (string \<times> json) list \<Rightarrow> provider_message_row \<Rightarrow> authority" where
  "provider_authority event existing m =
     \<lparr>ay_sender = pm_sender m, ay_recipient = pm_recipient m,
      ay_correlation_id = json_or (JStr (pm_correlation_id m)) (JStr (pv_id event)),
      ay_provider_message_id = text_or (pm_provider_message_id m) (JStr (pm_id m)),
      ay_stream = lower (if pm_stream m = [] then ''TRANSACTIONAL'' else pm_stream m),
      ay_status = lower (if pm_status m = [] then kind_suffix event else pm_status m),
      ay_operation_id = obj_get existing ''operation_id''\<rparr>"

definition core_authority ::
  "provider_event_row \<Rightarrow> (string \<times> json) list \<Rightarrow> core_message_row \<Rightarrow> email_outbox_row option \<Rightarrow> authority" where
  "core_authority event existing m outbox =
     \<lparr>ay_sender = cm_sender m, ay_recipient = cm_recipient m,
      ay_correlation_id = text_or (Option.bind outbox eo_correlation_id)
        (json_or (obj_get existing ''correlation_id'') (JStr (pv_id event))),
      ay_provider_message_id = text_or (Option.bind outbox eo_provider_message_id)
        (json_or (obj_get existing ''provider_message_id'') (JStr (cm_id m))),
      ay_stream = lower (bounded_text (obj_get existing ''stream'') ''transactional'' 500),
      ay_status = lower (bounded_text
        (json_or (obj_get existing ''canonical_status'') (obj_get existing ''status''))
        (if cm_status m = [] then kind_suffix event else cm_status m) 500),
      ay_operation_id = text_or (Option.bind outbox eo_operation_id) (obj_get existing ''operation_id'')\<rparr>"

definition event_authority ::
  "reconcile_db \<Rightarrow> provider_event_row \<Rightarrow> (string \<times> json) list \<Rightarrow> authority option" where
  "event_authority db event existing =
     (case find_row (\<lambda>m. pm_id m = pv_message_id event \<and> pm_tenant_id m = pv_tenant_id event) (rc_messages db) of
        Some m \<Rightarrow> Some (provider_authority event existing m)
      | None \<Rightarrow>
          map_option (\<lambda>m. core_authority event existing m
              (find_row (\<lambda>o'. eo_message_id o' = pv_message_id event \<and> eo_tenant_id o' = pv_tenant_id event)
                 (rc_outbox db)))
            (find_row (\<lambda>m. cm_id m = pv_message_id event \<and> cm_tenant_id m = pv_tenant_id event)
               (rc_core_messages db)))"

definition rebuilt_fields ::
  "tools \<Rightarrow> provider_event_row \<Rightarrow> (string \<times> json) list \<Rightarrow> authority \<Rightarrow> int \<Rightarrow> (string \<times> json) list" where
  "rebuilt_fields ts event existing ay attempt =
     (let occurred_at = bounded_text (json_or (obj_get existing ''occurred_at'') (obj_get existing ''timestamp''))
            (tl_iso ts (pv_created_at event)) 100;
          operation_id = bounded_text (ay_operation_id ay) (pv_message_id event) 200;
          correlation_id = bounded_text (ay_correlation_id ay) (pv_id event) 200;
          causation_id = bounded_text (obj_get existing ''causation_id'') correlation_id 200
      in [(''event_id'', JStr (pv_id event)),
          (''schema_version'', JStr (bounded_text
             (json_or (obj_get existing ''schema_version'') (obj_get existing ''event_version'')) ''1.0'' 20)),
          (''event'', JStr (pv_kind event)),
          (''event_version'', JStr (bounded_text (obj_get existing ''event_version'') ''1.0'' 20)),
          (''occurred_at'', JStr occurred_at), (''timestamp'', JStr occurred_at),
          (''tenant_id'', JStr (pv_tenant_id event)), (''customer_id'', JStr (pv_tenant_id event)),
          (''operation_id'', JStr operation_id), (''message_id'', JStr (pv_message_id event)),
          (''provider_message_id'', JStr (bounded_text (ay_provider_message_id ay) (pv_message_id event) 200)),
          (''stream'', JStr (ay_stream ay)), (''recipient'', JStr (ay_recipient ay)),
          (''sender'', JStr (ay_sender ay)),
          (''recipient_reference'', JStr (''sha256:'' @ tl_sha256_hex ts (lower (ay_recipient ay)))),
          (''status'', JStr (ay_status ay)), (''canonical_status'', JStr (ay_status ay)),
          (''provider'', JStr (bounded_text (obj_get existing ''provider'') ''klyrow'' 100)),
          (''correlation_id'', JStr correlation_id), (''causation_id'', JStr causation_id),
          (''attempt'', JInt attempt),
          (''metadata'', JObj (bounded_metadata (obj_get existing ''metadata'')))])"

definition upgrade_lifecycle_event :: "tools \<Rightarrow> reconcile_db \<Rightarrow> provider_event_row \<Rightarrow> decision res" where
  "upgrade_lifecycle_event ts db event =
     (case event_document event of
        None \<Rightarrow> Inr Blocked
      | Some existing \<Rightarrow>
          (case event_authority db event existing of
             None \<Rightarrow> Inr Blocked
           | Some ay \<Rightarrow>
               res_bind (bounded_attempt (obj_get existing ''attempt'')) (\<lambda>attempt.
                 let rebuilt = rebuilt_fields ts event existing ay attempt;
                     payload_hash = tl_sha256_hex ts (tl_dumps ts (sort_doc (JObj rebuilt)))
                 in Inr (Requeue (JObj (rebuilt @ [(''payload_hash'', JStr payload_hash)]))))))"

section \<open>Lemmas\<close>

lemma pop_candidate_Some:
  "pop_candidate key xs = Some (c, rest) \<Longrightarrow> (key, c) \<in> set xs \<and> set rest \<subseteq> set xs"
proof (induction xs arbitrary: rest)
  case (Cons x xs)
  show ?case
  proof (cases "fst x = key")
    case True
    then show ?thesis using Cons.prems by (cases x) auto
  next
    case False
    then obtain r where "pop_candidate key xs = Some (c, r)" "rest = x # r"
      using Cons.prems by (cases x) auto
    with Cons.IH [of r] show ?thesis by auto
  qed
qed simp

lemma collect_Some:
  "collect ts cs acc = Inr (Some xs) \<Longrightarrow>
     length xs = length cs + length acc \<and>
     (\<forall>(k, c) \<in> set xs. (k, c) \<in> set acc \<or> JObj c \<in> set cs)"
proof (induction ts cs acc rule: collect.induct)
  case (2 ts c cs acc)
  then show ?case
    by (cases c) (auto simp: res_bind_Inr split: option.splits, fastforce)
qed auto

text \<open>An attachment of the rebuilt payload: the bytes come from a candidate and match the manifest.\<close>

definition authentic :: "tools \<Rightarrow> supplied \<Rightarrow> attachment_key \<Rightarrow> json \<Rightarrow> bool" where
  "authentic ts xs expected a \<longleftrightarrow> (\<exists>c data bytes. c \<in> snd ` set xs \<and> obj_get c ''data_b64'' = JStr data \<and>
      tl_b64decode ts data = Some bytes \<and> bytes_match ts expected bytes \<and>
      a = replay_attachment expected (JStr data))"

lemma authentic_mono: "authentic ts xs expected a \<Longrightarrow> set xs \<subseteq> set ys \<Longrightarrow> authentic ts ys expected a"
  using image_mono [of "set xs" "set ys" snd] unfolding authentic_def by blast

lemma match_manifest_Some:
  "match_manifest ts manifest xs = Some out \<Longrightarrow> list_all2 (authentic ts xs) manifest out"
proof (induction manifest arbitrary: xs out)
  case (Cons expected rest)
  then obtain candidate xs' decoded rest_out where c: "pop_candidate expected xs = Some (candidate, xs')"
      "decode_attachment ts candidate = Some decoded" "bytes_match ts expected decoded"
      "match_manifest ts rest xs' = Some rest_out"
      "out = replay_attachment expected (obj_get candidate ''data_b64'') # rest_out"
    by (auto split: option.splits prod.splits if_splits)
  have p: "(expected, candidate) \<in> set xs" "set xs' \<subseteq> set xs" using pop_candidate_Some [OF c(1)] by auto
  obtain data where d: "obj_get candidate ''data_b64'' = JStr data" "tl_b64decode ts data = Some decoded"
    using c(2) by (cases "obj_get candidate ''data_b64''") (auto simp: decode_attachment_def)
  have "authentic ts xs expected (replay_attachment expected (obj_get candidate ''data_b64''))"
    unfolding authentic_def d(1)
    by (intro exI conjI, rule image_eqI [OF _ p(1)]) (use d c(3) in auto)
  moreover have "list_all2 (authentic ts xs) rest rest_out"
    using list_all2_mono [OF Cons.IH [OF c(4)]] authentic_mono p(2) by blast
  ultimately show ?case by (simp add: c(5))
qed simp

lemma replay_cases:
  assumes "authoritative_replay_attachments ts item attachments = Inr (Some out)"
  obtains manifest candidates xs where "attachments = JList candidates"
    "normalized_manifest item = Inr (Some manifest)" "length manifest = length candidates"
    "collect ts candidates [] = Inr (Some xs)" "same_counts manifest (map fst xs)"
    "match_manifest ts manifest xs = Some out"
proof (cases "normalized_manifest item")
  case (Inr o_manifest)
  then obtain manifest candidates where m: "o_manifest = Some manifest" "attachments = JList candidates"
    using assms by (cases o_manifest; cases attachments) (auto simp: authoritative_replay_attachments_def)
  with Inr assms have "length manifest = length candidates"
    by (auto simp: authoritative_replay_attachments_def split: if_splits)
  moreover from this Inr assms m obtain o_supplied where
      c: "collect ts candidates [] = Inr o_supplied"
      "(case o_supplied of None \<Rightarrow> None | Some supplied \<Rightarrow>
         if \<not> same_counts manifest (map fst supplied) then None else match_manifest ts manifest supplied) = Some out"
    by (auto simp: authoritative_replay_attachments_def res_bind_Inr)
  ultimately show thesis using that Inr m by (cases o_supplied) (auto split: if_splits)
qed (use assms in \<open>simp add: authoritative_replay_attachments_def\<close>)

section \<open>Properties\<close>

text \<open>
  Replayed attachments are authentic: when a dead-lettered inbound event is accepted for replay,
  the attachments of the new payload are exactly those of the stored manifest, in its order, and
  each carries the bytes of one of the supplied attachments, which decode to content of the
  recorded size and SHA-256 digest; no attachment is dropped, added or substituted.
\<close>

theorem replay_attachments_authentic:
  assumes "authoritative_replay_attachments ts item attachments = Inr (Some out)"
  shows "\<exists>manifest candidates. normalized_manifest item = Inr (Some manifest) \<and>
    attachments = JList candidates \<and> length candidates = length manifest \<and>
    list_all2 (\<lambda>(filename, content_type, len, sha256) a. \<exists>c data bytes. JObj c \<in> set candidates \<and>
      obj_get c ''data_b64'' = JStr data \<and> tl_b64decode ts data = Some bytes \<and>
      int (length bytes) = len \<and> tl_sha256_hex ts bytes = sha256 \<and>
      a = JObj [(''filename'', JStr filename), (''content_type'', JStr content_type), (''size'', JInt len),
                (''sha256'', JStr sha256), (''data_b64'', JStr data)]) manifest out"
proof -
  obtain manifest candidates xs where m: "attachments = JList candidates"
      "normalized_manifest item = Inr (Some manifest)" "length manifest = length candidates"
      "collect ts candidates [] = Inr (Some xs)" "match_manifest ts manifest xs = Some out"
    using assms by (rule replay_cases)
  have from_candidates: "JObj c \<in> set candidates" if "c \<in> snd ` set xs" for c
    using collect_Some [OF m(4)] that by fastforce
  have "list_all2 (\<lambda>(filename, content_type, len, sha256) a. \<exists>c data bytes. JObj c \<in> set candidates \<and>
      obj_get c ''data_b64'' = JStr data \<and> tl_b64decode ts data = Some bytes \<and>
      int (length bytes) = len \<and> tl_sha256_hex ts bytes = sha256 \<and>
      a = JObj [(''filename'', JStr filename), (''content_type'', JStr content_type), (''size'', JInt len),
                (''sha256'', JStr sha256), (''data_b64'', JStr data)]) manifest out"
    using match_manifest_Some [OF m(5)]
  proof (rule list_all2_mono, clarify)
    fix f ct n h a assume "authentic ts xs (f, ct, n, h) a"
    then show "\<exists>c data bytes. JObj c \<in> set candidates \<and>
        obj_get c ''data_b64'' = JStr data \<and> tl_b64decode ts data = Some bytes \<and>
        int (length bytes) = n \<and> tl_sha256_hex ts bytes = h \<and>
        a = JObj [(''filename'', JStr f), (''content_type'', JStr ct), (''size'', JInt n),
                  (''sha256'', JStr h), (''data_b64'', JStr data)]"
      unfolding authentic_def bytes_match_def replay_attachment_def prod.case using from_candidates by blast
  qed
  then show ?thesis using m(1-3) by auto
qed

section \<open>Instances\<close>

definition plain_digest :: string where "plain_digest = replicate 64 (CHR ''a'')"

definition plain_tools :: tools where
  "plain_tools = \<lparr>tl_b64decode = Some, tl_sha256_hex = (\<lambda>_. plain_digest), tl_dumps = (\<lambda>_. ''{}''),
     tl_repr = (\<lambda>_. []), tl_iso = (\<lambda>_. ''2026-01-01''), tl_text_hash = (\<lambda>_. plain_digest)\<rparr>"

definition plain_attachment :: "(string \<times> json) list" where
  "plain_attachment = [(''filename'', JStr ''a.txt''), (''content_type'', JStr ''text/plain''),
     (''size'', JInt 2), (''sha256'', JStr (upper plain_digest))]"

definition plain_inbound :: inbound_row where
  "plain_inbound = \<lparr>ib_id = ''i1'', ib_tenant_id = ''t1'', ib_provider_event_id = ''p1'', ib_route_id = ''r1'',
     ib_message_id_header = None, ib_sender = ''a@b.c'', ib_recipient = ''d@e.f'', ib_subject = ''s'',
     ib_text_body = None, ib_html_body = None,
     ib_attachments_json = JText (JList [JObj plain_attachment]), ib_auth_verdict = ''pass'',
     ib_spf_result = ''pass'', ib_dkim_result = ''pass'', ib_dmarc_result = ''pass'',
     ib_arc_result = ''none'', ib_dmarc_fail_action = ''none'', ib_disposition = ''ACCEPT''\<rparr>"

theorem replay_attachments_authentic_witness:
  "\<exists>(manifest :: attachment_key list) out. normalized_manifest plain_inbound = Inr (Some manifest) \<and>
     authoritative_replay_attachments plain_tools plain_inbound
       (JList [JObj (plain_attachment @ [(''data_b64'', JStr ''hi'')])]) = Inr (Some out) \<and>
     length out = 1 \<and> length manifest = 1"
proof -
  let ?c = "JList [JObj (plain_attachment @ [(''data_b64'', JStr ''hi'')])]"
  have "(case authoritative_replay_attachments plain_tools plain_inbound ?c of
      Inr (Some out) \<Rightarrow> length out = 1 | _ \<Rightarrow> False)"
    by code_simp
  then obtain out where out: "authoritative_replay_attachments plain_tools plain_inbound ?c = Inr (Some out)"
      "length out = 1"
    by (auto split: sum.splits option.splits)
  then show ?thesis using replay_attachments_authentic [OF out(1)] by auto
qed

end
