(* ===== verification/Reconciliation.thy ===== *)
theory Reconciliation
  imports ReplayPayloads
begin

text \<open>
  The reconciliation page of \<open>provider_reconciliation_fixes.py\<close>: which dead-lettered events and
  usage records of a tenant one call examines, and what it does with them. The page runs in the
  caller's transaction; an exception leaves the tables as they were. \<open>current\<close> is the clock,
  \<open>locked\<close> and \<open>locked_usage\<close> the rows that \<open>SKIP LOCKED\<close> leaves out.
\<close>

definition BLOCKED_RECONCILIATION_MARKER :: string where
  "BLOCKED_RECONCILIATION_MARKER = ''operator_reconciliation_required''"

definition SMTP_EVENTS :: "string list" where
  "SMTP_EVENTS =
     [''email.accepted'', ''email.queued'', ''email.submitted'', ''email.sent'', ''email.delivered'',
      ''email.deferred'', ''email.bounced'', ''email.complained'', ''email.rejected'', ''email.failed'',
      ''email.cancelled'', ''email.unknown_outcome'', ''email.opened'', ''email.clicked'',
      ''email.unsubscribed'', ''email.inbound_received'', ''message.submitted'', ''message.delivered'',
      ''message.opened'', ''message.clicked'', ''inbound.received'']"

section \<open>Selecting a page\<close>

definition due_event :: "string \<Rightarrow> int \<Rightarrow> provider_event_row \<Rightarrow> bool" where
  "due_event tenant current e \<longleftrightarrow> pv_state e = ''DEAD_LETTER'' \<and> pv_tenant_id e = tenant \<and>
     pv_available_at e \<le> current"

definition due_usage :: "string \<Rightarrow> int \<Rightarrow> usage_event_row \<Rightarrow> bool" where
  "due_usage tenant current u \<longleftrightarrow> ue_state u = ''DEAD_LETTER'' \<and> ue_tenant_id u = tenant \<and>
     ue_available_at u \<le> current"

definition reviewed :: "provider_event_row \<Rightarrow> bool" where
  "reviewed e \<longleftrightarrow> pv_last_error e = Some BLOCKED_RECONCILIATION_MARKER"

definition unreviewed_event :: "string \<Rightarrow> int \<Rightarrow> provider_event_row \<Rightarrow> bool" where
  "unreviewed_event tenant current e \<longleftrightarrow> due_event tenant current e \<and> \<not> reviewed e"

definition event_ordering :: "provider_event_row \<Rightarrow> nat \<times> int \<times> string" where
  "event_ordering e = (if reviewed e then 1 else 0, pv_created_at e, pv_id e)"

definition load_events ::
  "string \<Rightarrow> int \<Rightarrow> (string \<Rightarrow> bool) \<Rightarrow> nat \<Rightarrow> string list \<Rightarrow> reconcile_db \<Rightarrow> provider_event_row list" where
  "load_events tenant current locked limit excluded_ids db =
     select_rows event_ordering
       (\<lambda>e. due_event tenant current e \<and> pv_id e \<notin> set excluded_ids \<and> \<not> locked (pv_id e))
       limit (rc_events db)"

definition load_usages ::
  "string \<Rightarrow> int \<Rightarrow> (string \<Rightarrow> bool) \<Rightarrow> nat \<Rightarrow> reconcile_db \<Rightarrow> usage_event_row list" where
  "load_usages tenant current locked_usage limit db =
     select_rows (\<lambda>u. (ue_created_at u, ue_id u))
       (\<lambda>u. due_usage tenant current u \<and> \<not> locked_usage (ue_id u)) limit (rc_usages db)"

text \<open>The fair split of the page between the two queues.\<close>

definition budgets :: "nat \<Rightarrow> nat \<Rightarrow> nat \<Rightarrow> nat \<Rightarrow> nat \<times> nat" where
  "budgets limit due_events due_usages unreviewed =
     (if due_events \<noteq> 0 \<and> due_usages \<noteq> 0
      then (if limit = 1
            then (let event_budget = (if unreviewed \<noteq> 0 then 1 else 0) in (event_budget, 1 - event_budget))
            else (let event_budget = max 1 (limit div 2) in (event_budget, limit - event_budget)))
      else if due_events \<noteq> 0 then (limit, 0) else (0, limit))"

definition page ::
  "string \<Rightarrow> int \<Rightarrow> (string \<Rightarrow> bool) \<Rightarrow> (string \<Rightarrow> bool) \<Rightarrow> nat \<Rightarrow> reconcile_db
     \<Rightarrow> provider_event_row list \<times> usage_event_row list" where
  "page tenant current locked locked_usage limit db =
     (let due_events = count_rows (due_event tenant current) (rc_events db);
          due_usages = count_rows (due_usage tenant current) (rc_usages db);
          unreviewed = count_rows (unreviewed_event tenant current) (rc_events db);
          (event_budget, usage_budget) = budgets limit due_events due_usages unreviewed;
          events0 = load_events tenant current locked event_budget [] db;
          usages0 = load_usages tenant current locked_usage usage_budget db;
          unused0 = limit - length events0 - length usages0;
          extra_events = (if unused0 \<noteq> 0 \<and> length events0 < due_events
                          then load_events tenant current locked unused0 (map pv_id events0) db else []);
          events = events0 @ extra_events;
          unused = unused0 - length extra_events;
          extra_usages = (if unused \<noteq> 0 \<and> length usages0 < due_usages
                          then filter (\<lambda>u. ue_id u \<notin> set (map ue_id usages0))
                                 (load_usages tenant current locked_usage (length usages0 + unused) db)
                          else [])
      in (events, usages0 @ extra_usages))"

section \<open>Deciding and applying\<close>

definition decide_event :: "tools \<Rightarrow> reconcile_db \<Rightarrow> provider_event_row \<Rightarrow> decision res" where
  "decide_event ts db e =
     (if pv_kind e = ''inbound.received'' then upgrade_legacy_inbound_event ts db e
      else if pv_kind e \<in> set SMTP_EVENTS then upgrade_lifecycle_event ts db e
      else Inr Blocked)"

fun apply_decision :: "int \<Rightarrow> decision \<Rightarrow> provider_event_row \<Rightarrow> provider_event_row" where
  "apply_decision current SkipEvent e =
     e\<lparr>pv_state := ''SKIPPED'', pv_last_error := Some ''middleware_delivery_not_applicable'',
       pv_updated_at := current\<rparr>"
| "apply_decision current (Requeue payload) e =
     e\<lparr>pv_payload_json := JText (sort_doc payload), pv_state := ''RETRY'', pv_attempts := 0,
       pv_available_at := current, pv_last_error := None, pv_updated_at := current\<rparr>"
| "apply_decision current Blocked e =
     e\<lparr>pv_state := ''DEAD_LETTER'', pv_last_error := Some BLOCKED_RECONCILIATION_MARKER,
       pv_updated_at := current\<rparr>"

fun decide_events :: "tools \<Rightarrow> reconcile_db \<Rightarrow> provider_event_row list \<Rightarrow> (string \<times> decision) list res" where
  "decide_events ts db [] = Inr []"
| "decide_events ts db (e # es) =
     res_bind (decide_event ts db e) (\<lambda>d.
     res_bind (decide_events ts db es) (\<lambda>ds. Inr ((pv_id e, d) # ds)))"

definition apply_events :: "int \<Rightarrow> (string \<times> decision) list \<Rightarrow> provider_event_row list \<Rightarrow> provider_event_row list" where
  "apply_events current ds rows =
     map (\<lambda>e. case map_of ds (pv_id e) of None \<Rightarrow> e | Some d \<Rightarrow> apply_decision current d e) rows"

definition requeue_usage :: "int \<Rightarrow> usage_event_row \<Rightarrow> usage_event_row" where
  "requeue_usage current u =
     u\<lparr>ue_state := ''RETRY'', ue_attempts := 0, ue_available_at := current, ue_last_error := None\<rparr>"

record page_result =
  pr_apply :: bool
  pr_examined :: nat
  pr_events_requeued :: nat
  pr_events_skipped :: nat
  pr_events_blocked :: nat
  pr_usage_requeued :: nat
  pr_due_events_remaining :: nat
  pr_due_usage_remaining :: nat
  pr_unreviewed_events_remaining :: nat
  pr_blocked_events_visible :: nat
  pr_remaining :: nat
  pr_has_more :: bool

fun is_requeue :: "decision \<Rightarrow> bool" where
  "is_requeue (Requeue _) = True"
| "is_requeue _ = False"

definition reconcile_provider_outbox_dead_letters ::
  "tools \<Rightarrow> int \<Rightarrow> (string \<Rightarrow> bool) \<Rightarrow> (string \<Rightarrow> bool) \<Rightarrow> string \<Rightarrow> nat \<Rightarrow> bool \<Rightarrow> reconcile_db
     \<Rightarrow> (page_result \<times> reconcile_db) res" where
  "reconcile_provider_outbox_dead_letters ts current locked locked_usage tenant limit do_apply db =
     (if \<not> (1 \<le> limit \<and> limit \<le> 50) then Inl (ValueError ''provider_outbox_reconcile_limit_out_of_range'')
      else
        (let (events, usages) = page tenant current locked locked_usage limit db
         in res_bind (decide_events ts db events) (\<lambda>ds.
            let db1 = (if do_apply
                       then db\<lparr>rc_events := apply_events current ds (rc_events db),
                               rc_usages := update_rows (\<lambda>u. ue_id u \<in> set (map ue_id usages))
                                 (requeue_usage current) (rc_usages db)\<rparr>
                       else db);
                due_events_remaining = count_rows (due_event tenant current) (rc_events db1);
                due_usages_remaining = count_rows (due_usage tenant current) (rc_usages db1)
            in Inr (\<lparr>pr_apply = do_apply,
                     pr_examined = length events + length usages,
                     pr_events_requeued = length (filter (is_requeue \<circ> snd) ds),
                     pr_events_skipped = length (filter (\<lambda>d. snd d = SkipEvent) ds),
                     pr_events_blocked = length (filter (\<lambda>d. snd d = Blocked) ds),
                     pr_usage_requeued = length usages,
                     pr_due_events_remaining = due_events_remaining,
                     pr_due_usage_remaining = due_usages_remaining,
                     pr_unreviewed_events_remaining =
                       count_rows (unreviewed_event tenant current) (rc_events db1),
                     pr_blocked_events_visible =
                       count_rows (\<lambda>e. pv_state e = ''DEAD_LETTER'' \<and> pv_tenant_id e = tenant \<and> reviewed e)
                         (rc_events db1),
                     pr_remaining = due_events_remaining + due_usages_remaining,
                     pr_has_more = (due_events_remaining \<noteq> 0 \<or> due_usages_remaining \<noteq> 0)\<rparr>, db1))))"

section \<open>Lemmas\<close>

lemma budgets_sum:
  "1 \<le> limit \<Longrightarrow> budgets limit a b c = (eb, ub) \<Longrightarrow> eb + ub = limit"
  by (auto simp: budgets_def Let_def split: if_splits)

lemma budgets_event:
  "1 \<le> limit \<Longrightarrow> a \<noteq> 0 \<Longrightarrow> c \<noteq> 0 \<Longrightarrow> budgets limit a b c = (eb, ub) \<Longrightarrow> 1 \<le> eb"
  by (auto simp: budgets_def Let_def split: if_splits)

lemma load_lengths:
  "length (load_events tenant t locked n ids db) \<le> n" "length (load_usages tenant t lu n db) \<le> n"
  by (simp_all add: load_events_def load_usages_def length_select_rows)

text \<open>A longer selection of usages extends a shorter one, so it has few rows the other lacks.\<close>

lemma load_usages_extra:
  assumes "us = load_usages tenant t lu n db"
  shows "length (filter (\<lambda>u. ue_id u \<notin> set (map ue_id us)) (load_usages tenant t lu (length us + m) db)) \<le> m"
proof -
  let ?s = "sort_key (\<lambda>u. (ue_created_at u, ue_id u)) (filter (\<lambda>u. due_usage tenant t u \<and> \<not> lu (ue_id u)) (rc_usages db))"
  have u: "us = take (length us) ?s" using assms by (simp add: load_usages_def select_rows_def min_def)
  have "load_usages tenant t lu (length us + m) db = take (length us) ?s @ take m (drop (length us) ?s)"
    by (simp add: load_usages_def select_rows_def take_add)
  then have l: "load_usages tenant t lu (length us + m) db = us @ take m (drop (length us) ?s)"
    using u by simp
  have f: "filter (\<lambda>u. ue_id u \<notin> set (map ue_id us)) us = []" by (simp add: filter_empty_conv)
  have "length (filter (\<lambda>u. ue_id u \<notin> set (map ue_id us)) (take m (drop (length us) ?s))) \<le> m"
    by (rule order_trans [OF length_filter_le]) simp
  then show ?thesis unfolding l filter_append f by simp
qed

lemma page_shape:
  assumes "page tenant t locked lu limit db = (events, usages)" and "1 \<le> limit"
  obtains events0 extra where
    "events = events0 @ extra"
    "events0 = load_events tenant t locked (fst (budgets limit (count_rows (due_event tenant t) (rc_events db))
       (count_rows (due_usage tenant t) (rc_usages db)) (count_rows (unreviewed_event tenant t) (rc_events db)))) [] db"
    "set extra \<subseteq> {e \<in> set (rc_events db). due_event tenant t e \<and> \<not> locked (pv_id e)}"
    "set usages \<subseteq> {u \<in> set (rc_usages db). due_usage tenant t u \<and> \<not> lu (ue_id u)}"
    "length events + length usages \<le> limit"
proof -
  define de where "de = count_rows (due_event tenant t) (rc_events db)"
  define du where "du = count_rows (due_usage tenant t) (rc_usages db)"
  define un where "un = count_rows (unreviewed_event tenant t) (rc_events db)"
  obtain eb ub where b: "budgets limit de du un = (eb, ub)" by fastforce
  define e0 where "e0 = load_events tenant t locked eb [] db"
  define u0 where "u0 = load_usages tenant t lu ub db"
  define n0 where "n0 = limit - length e0 - length u0"
  define x where "x = (if n0 \<noteq> 0 \<and> length e0 < de then load_events tenant t locked n0 (map pv_id e0) db else [])"
  define n where "n = n0 - length x"
  define y where "y = (if n \<noteq> 0 \<and> length u0 < du then filter (\<lambda>u. ue_id u \<notin> set (map ue_id u0))
      (load_usages tenant t lu (length u0 + n) db) else [])"
  have "page tenant t locked lu limit db = (e0 @ x, u0 @ y)"
    unfolding page_def Let_def b [unfolded de_def du_def un_def] prod.case
      e0_def u0_def n0_def x_def n_def y_def de_def du_def by (rule refl)
  then have p: "events = e0 @ x" "usages = u0 @ y" using assms(1) by simp_all
  have e0: "length e0 \<le> eb" and u0: "length u0 \<le> ub" by (simp_all add: e0_def u0_def load_lengths)
  have x: "length x \<le> n0" by (simp add: x_def load_lengths)
  have y: "length y \<le> n" using load_usages_extra [OF u0_def, of n] by (simp add: y_def)
  have "length events + length usages \<le> limit"
    using p e0 u0 x y budgets_sum [OF assms(2) b] by (simp add: n_def n0_def)
  moreover have "set x \<subseteq> {e \<in> set (rc_events db). due_event tenant t e \<and> \<not> locked (pv_id e)}"
    by (auto simp: x_def load_events_def dest!: select_rows_in)
  moreover have "set usages \<subseteq> {u \<in> set (rc_usages db). due_usage tenant t u \<and> \<not> lu (ue_id u)}"
    unfolding p(2) by (auto simp: u0_def y_def load_usages_def dest!: select_rows_in split: if_splits)
  ultimately show thesis using that [of e0 x] p(1) b by (simp add: e0_def de_def du_def un_def)
qed

lemma page_events:
  assumes "page tenant t locked lu limit db = (events, usages)" and "1 \<le> limit" and "e \<in> set events"
  shows "e \<in> set (rc_events db) \<and> due_event tenant t e \<and> \<not> locked (pv_id e)"
proof (cases rule: page_shape [OF assms(1,2)])
  case (1 events0 extra)
  then show ?thesis using assms(3) by (auto simp: load_events_def dest!: select_rows_in)
qed

text \<open>An unreviewed event that no other transaction holds puts an unreviewed one first.\<close>

lemma page_first_unreviewed:
  assumes "page tenant t locked lu limit db = (events, usages)" and "1 \<le> limit"
    and "e \<in> set (rc_events db)" and "unreviewed_event tenant t e" and "\<not> locked (pv_id e)"
  obtains x rest where "events = x # rest" "unreviewed_event tenant t x" "event_ordering x \<le> event_ordering e"
proof (cases rule: page_shape [OF assms(1,2)])
  case (1 events0 extra)
  let ?P = "\<lambda>e. due_event tenant t e \<and> pv_id e \<notin> set [] \<and> \<not> locked (pv_id e)"
  let ?de = "count_rows (due_event tenant t) (rc_events db)"
  let ?du = "count_rows (due_usage tenant t) (rc_usages db)"
  let ?un = "count_rows (unreviewed_event tenant t) (rc_events db)"
  obtain eb ub where b: "budgets limit ?de ?du ?un = (eb, ub)" by fastforce
  have "?un \<noteq> 0" "?de \<noteq> 0"
    using assms(3,4) by (auto simp: count_rows_zero unreviewed_event_def)
  then have eb: "1 \<le> eb" using budgets_event [OF assms(2) _ _ b] by simp
  have e0: "events0 = select_rows event_ordering ?P eb (rc_events db)"
    using 1(2) b by (simp add: load_events_def)
  have P: "?P e" using assms(4,5) by (simp add: unreviewed_event_def)
  then have "events0 \<noteq> []" unfolding e0 using select_rows_empty [of eb event_ordering ?P "rc_events db"] eb assms(3)
    by auto
  then obtain x rest where x: "events0 = x # rest" by (cases events0) auto
  then have le: "event_ordering x \<le> event_ordering e"
    using select_rows_first_min [of event_ordering ?P eb "rc_events db" x rest] e0 assms(3) P by metis
  have "due_event tenant t x" using x e0 select_rows_in [of x event_ordering ?P eb "rc_events db"] by auto
  moreover have "\<not> reviewed x" using le assms(4)
    by (auto simp: event_ordering_def unreviewed_event_def less_eq_prod_def split: if_splits)
  ultimately show thesis using that [of x "rest @ extra"] x 1(1) le by (simp add: unreviewed_event_def)
qed

lemma decide_events_ids: "decide_events ts db es = Inr ds \<Longrightarrow> map fst ds = map pv_id es"
  by (induction es arbitrary: ds) (auto simp: res_bind_Inr)

lemma decide_events_fails:
  "e \<in> set es \<Longrightarrow> decide_event ts db e = Inl x \<Longrightarrow> \<exists>y. decide_events ts db es = Inl y"
  by (induction es) (auto simp: res_bind_Inl split: sum.splits, metis obj_sumE)

lemma apply_decision_settles:
  "\<not> unreviewed_event tenant t (apply_decision t d e)"
  "pv_id (apply_decision t d e) = pv_id e" "pv_tenant_id (apply_decision t d e) = pv_tenant_id e"
  by (cases d; simp add: unreviewed_event_def due_event_def reviewed_def)+

lemma reconcile_cases:
  assumes "reconcile_provider_outbox_dead_letters ts t locked lu tenant limit do_apply db = Inr (r, db')"
  obtains events usages ds where "1 \<le> limit" "limit \<le> 50"
    "page tenant t locked lu limit db = (events, usages)" "decide_events ts db events = Inr ds"
    "db' = (if do_apply
       then db\<lparr>rc_events := apply_events t ds (rc_events db),
               rc_usages := update_rows (\<lambda>u. ue_id u \<in> set (map ue_id usages)) (requeue_usage t) (rc_usages db)\<rparr>
       else db)"
    "pr_examined r = length events + length usages"
    "pr_unreviewed_events_remaining r = count_rows (unreviewed_event tenant t) (rc_events db')"
proof -
  obtain events usages where p: "page tenant t locked lu limit db = (events, usages)" by fastforce
  have l: "1 \<le> limit" "limit \<le> 50"
    using assms by (simp_all add: reconcile_provider_outbox_dead_letters_def split: if_splits)
  then obtain ds where "decide_events ts db events = Inr ds"
    using assms p by (auto simp: reconcile_provider_outbox_dead_letters_def res_bind_Inr)
  then show thesis using assms p l
    by (intro that [of events usages ds]) (auto simp: reconcile_provider_outbox_dead_letters_def Let_def)
qed

lemma count_rows_map_less:
  assumes "\<And>r. r \<in> set rows \<Longrightarrow> P (f r) \<Longrightarrow> P r" and "x \<in> set rows" and "P x" and "\<not> P (f x)"
  shows "count_rows P (map f rows) < count_rows P rows"
  using assms
proof (induction rows)
  case (Cons r rows)
  have le: "count_rows P (map f rows) \<le> count_rows P rows" if "\<And>r. r \<in> set rows \<Longrightarrow> P (f r) \<Longrightarrow> P r"
    using that by (induction rows) (auto simp: count_rows_def)
  show ?case
  proof (cases "x = r")
    case True
    then show ?thesis using Cons.prems le by (auto simp: count_rows_def)
  next
    case False
    then have "count_rows P (map f rows) < count_rows P rows" using Cons by auto
    then show ?thesis using Cons.prems(1) [of r] by (auto simp: count_rows_def)
  qed
qed simp

lemma decided_id: "decide_events ts db es = Inr ds \<Longrightarrow> map_of ds k \<noteq> None \<longleftrightarrow> k \<in> pv_id ` set es"
  using decide_events_ids [of ts db es ds] by (metis list.set_map map_of_eq_None_iff)

lemma apply_events_rows:
  "apply_events t ds rows = map (\<lambda>e. case map_of ds (pv_id e) of None \<Rightarrow> e | Some d \<Rightarrow> apply_decision t d e) rows"
  by (simp add: apply_events_def)

section \<open>Properties\<close>

text \<open>
  C33. Reconciliation makes progress: as long as a dead-lettered event of the tenant whose scheduled
  time has come has not been reviewed and is not locked by another transaction, every applied page,
  however small and however many usage records compete for it, strictly reduces the number of
  unreviewed due events, and it examines at most \<open>limit\<close> records. The time matters: the delivery that
  dead-letters an event also schedules it minutes ahead, and until then no page selects it.
\<close>

theorem reconcile_progress:
  assumes "reconcile_provider_outbox_dead_letters ts t locked lu tenant limit True db = Inr (r, db')"
    and "e \<in> set (rc_events db)" and "pv_state e = ''DEAD_LETTER''" and "pv_tenant_id e = tenant"
    and "pv_available_at e \<le> t" and "pv_last_error e \<noteq> Some BLOCKED_RECONCILIATION_MARKER"
    and "\<not> locked (pv_id e)"
  shows "pr_unreviewed_events_remaining r < count_rows (unreviewed_event tenant t) (rc_events db) \<and>
    pr_examined r \<le> limit"
  using assms(1)
proof (cases rule: reconcile_cases)
  case (1 events usages ds)
  have u: "unreviewed_event tenant t e"
    using assms(3-6) by (simp add: unreviewed_event_def due_event_def reviewed_def)
  obtain x rest where x: "events = x # rest" "unreviewed_event tenant t x"
    using page_first_unreviewed [OF 1(3,1) assms(2) u assms(7)] by blast
  have "x \<in> set (rc_events db)" using page_events [OF 1(3,1), of x] x(1) by simp
  moreover obtain d where "map_of ds (pv_id x) = Some d" using decided_id [OF 1(4), of "pv_id x"] x(1) by auto
  ultimately have "count_rows (unreviewed_event tenant t) (apply_events t ds (rc_events db)) <
      count_rows (unreviewed_event tenant t) (rc_events db)"
    unfolding apply_events_rows using x(2)
    by (intro count_rows_map_less [of _ _ _ x]) (auto simp: apply_decision_settles split: option.splits)
  moreover have "length events + length usages \<le> limit" using 1(3,1) by (rule page_shape)
  ultimately show ?thesis using 1(5-7) by simp
qed

text \<open>
  A page stays inside its tenant: it adds and removes no row, changes only dead-lettered, due and
  unlocked events and usage records of the given tenant, never an event's identity, tenant, kind or
  message, and a plan (\<open>apply\<close> off) changes nothing at all.
\<close>

theorem reconcile_isolated:
  assumes "reconcile_provider_outbox_dead_letters ts t locked lu tenant limit do_apply db = Inr (r, db')"
    and "distinct (map pv_id (rc_events db))" and "distinct (map ue_id (rc_usages db))"
  shows "list_all2 (\<lambda>e e'. pv_id e' = pv_id e \<and> pv_tenant_id e' = pv_tenant_id e \<and> pv_kind e' = pv_kind e \<and>
      pv_message_id e' = pv_message_id e \<and>
      (e' \<noteq> e \<longrightarrow> do_apply \<and> pv_tenant_id e = tenant \<and> pv_state e = ''DEAD_LETTER'' \<and>
         pv_available_at e \<le> t \<and> \<not> locked (pv_id e))) (rc_events db) (rc_events db') \<and>
    list_all2 (\<lambda>u u'. ue_id u' = ue_id u \<and> ue_tenant_id u' = ue_tenant_id u \<and>
      (u' \<noteq> u \<longrightarrow> do_apply \<and> ue_tenant_id u = tenant \<and> ue_state u = ''DEAD_LETTER'' \<and> \<not> lu (ue_id u)))
      (rc_usages db) (rc_usages db') \<and>
    rc_inbound db' = rc_inbound db \<and> rc_messages db' = rc_messages db \<and> rc_outbox db' = rc_outbox db"
  using assms(1)
proof (cases rule: reconcile_cases)
  case (1 events usages ds)
  have ev: "due_event tenant t e \<and> \<not> locked (pv_id e)"
    if e: "e \<in> set (rc_events db)" and m: "map_of ds (pv_id e) = Some d" for e d
  proof -
    obtain x where "x \<in> set events" "pv_id x = pv_id e" using decided_id [OF 1(4), of "pv_id e"] m by auto
    moreover from this have "x \<in> set (rc_events db)" using page_events [OF 1(3,1)] by blast
    ultimately have "x = e" using assms(2) e by (auto simp: distinct_map inj_on_def)
    then show ?thesis using page_events [OF 1(3,1) \<open>x \<in> set events\<close>] by simp
  qed
  have us: "due_usage tenant t u \<and> \<not> lu (ue_id u)" if m: "u \<in> set (rc_usages db)" and i: "ue_id u \<in> ue_id ` set usages" for u
  proof -
    obtain x where x: "x \<in> set usages" "ue_id x = ue_id u" using i by auto
    have "x \<in> set (rc_usages db) \<and> due_usage tenant t x \<and> \<not> lu (ue_id x)"
      using page_shape [OF 1(3,1)] x(1) by blast
    moreover from this have "x = u" using assms(3) m x(2) by (auto simp: distinct_map inj_on_def)
    ultimately show ?thesis by simp
  qed
  have kept: "pv_id (apply_decision t d e) = pv_id e" "pv_tenant_id (apply_decision t d e) = pv_tenant_id e"
    "pv_kind (apply_decision t d e) = pv_kind e" "pv_message_id (apply_decision t d e) = pv_message_id e" for d e
    by (cases d; simp)+
  show ?thesis
  proof (cases do_apply)
    case True
    then show ?thesis using 1(5) ev us
      by (auto simp: list_all2_conv_all_nth apply_events_rows update_rows_def kept due_event_def due_usage_def
          requeue_usage_def split: option.splits)
  qed (use 1(5) in \<open>simp add: list_all2_same\<close>)
qed

text \<open>
  One malformed payload stops a tenant's reconciliation: when the first unreviewed event is a
  lifecycle event of a known message whose stored \<open>attempt\<close> is an infinite number (JSON \<open>1e999\<close>),
  every page of that tenant, planned or applied and of any size, raises \<open>OverflowError\<close> and changes
  nothing; \<open>_bounded_attempt\<close> handles only \<open>TypeError\<close> and \<open>ValueError\<close>.
\<close>

theorem infinite_attempt_stops_reconciliation:
  assumes "1 \<le> limit" and "limit \<le> 50" and "e \<in> set (rc_events db)" and "unreviewed_event tenant t e"
    and "\<not> locked (pv_id e)" and "\<forall>x \<in> set (rc_events db). event_ordering x \<le> event_ordering e \<longrightarrow> x = e"
    and "pv_kind e = ''email.delivered''" and "event_document e = Some existing"
    and "obj_get existing ''attempt'' = JFloat PosInf" and "event_authority db e existing = Some ay"
  shows "\<exists>msg. reconcile_provider_outbox_dead_letters ts t locked lu tenant limit do_apply db = Inl (OverflowError msg)"
proof -
  obtain events usages where p: "page tenant t locked lu limit db = (events, usages)" by fastforce
  obtain x rest where x: "events = x # rest" "event_ordering x \<le> event_ordering e"
    using page_first_unreviewed [OF p assms(1,3,4,5)] by blast
  have "x \<in> set (rc_events db)" using page_events [OF p assms(1), of x] x(1) by simp
  then have "x = e" using assms(6) x(2) by blast
  moreover have "\<exists>msg. decide_event ts db e = Inl (OverflowError msg)"
    using assms(7-10)
    by (simp add: decide_event_def SMTP_EVENTS_def upgrade_lifecycle_event_def bounded_attempt_def handled_int_def)
  ultimately show ?thesis using assms(1,2) p x(1)
    by (auto simp: reconcile_provider_outbox_dead_letters_def)
qed

section \<open>Instances\<close>

definition dead_event :: provider_event_row where
  "dead_event = \<lparr>pv_id = ''e1'', pv_tenant_id = ''t1'', pv_message_id = ''m1'', pv_kind = ''email.delivered'',
     pv_payload_json = JText (JObj [(''attempt'', JInt 1)]), pv_state = ''DEAD_LETTER'', pv_attempts = 8,
     pv_available_at = 0, pv_last_error = None, pv_updated_at = 0, pv_created_at = 0\<rparr>"

definition dead_db :: reconcile_db where
  "dead_db = \<lparr>rc_events = [dead_event, dead_event\<lparr>pv_id := ''e2'', pv_tenant_id := ''t2''\<rparr>], rc_usages = [],
     rc_inbound = [], rc_route_configs = [], rc_routes = [], rc_messages = [],
     rc_core_messages = [\<lparr>cm_id = ''m1'', cm_tenant_id = ''t1'', cm_recipient = ''a@b.c'', cm_sender = ''d@e.f'',
       cm_subject = ''s'', cm_status = ''delivered'', cm_created_at = 0\<rparr>], rc_outbox = []\<rparr>"

abbreviation free :: "string \<Rightarrow> bool" where "free \<equiv> \<lambda>_. False"

lemma dead_page:
  "\<exists>r db'. reconcile_provider_outbox_dead_letters plain_tools 9 free free ''t1'' 1 True dead_db = Inr (r, db')"
proof -
  have "(case reconcile_provider_outbox_dead_letters plain_tools 9 free free ''t1'' 1 True dead_db of
      Inl _ \<Rightarrow> False | Inr _ \<Rightarrow> True)"
    by code_simp
  then show ?thesis by (auto split: sum.splits)
qed

lemma dead_counts: "count_rows (unreviewed_event ''t1'' 9) (rc_events dead_db) = 1"
  by (simp add: count_rows_def dead_db_def dead_event_def unreviewed_event_def due_event_def reviewed_def)

theorem reconcile_progress_witness:
  "\<exists>(r :: page_result) db'. reconcile_provider_outbox_dead_letters plain_tools 9 free free ''t1'' 1 True dead_db
     = Inr (r, db') \<and> pr_unreviewed_events_remaining r = 0 \<and> pr_examined r \<le> 1"
proof -
  obtain r db' where r: "reconcile_provider_outbox_dead_letters plain_tools 9 free free ''t1'' 1 True dead_db = Inr (r, db')"
    using dead_page by blast
  have "dead_event \<in> set (rc_events dead_db)" "pv_state dead_event = ''DEAD_LETTER''" "pv_tenant_id dead_event = ''t1''"
      "pv_available_at dead_event \<le> 9" "pv_last_error dead_event \<noteq> Some BLOCKED_RECONCILIATION_MARKER"
      "\<not> free (pv_id dead_event)"
    by (simp_all add: dead_db_def dead_event_def)
  from reconcile_progress [OF r this] r show ?thesis by (simp add: dead_counts)
qed

theorem reconcile_isolated_witness:
  "\<exists>(r :: page_result) db'. reconcile_provider_outbox_dead_letters plain_tools 9 free free ''t1'' 1 True dead_db
     = Inr (r, db') \<and> rc_events db' ! 1 = dead_event\<lparr>pv_id := ''e2'', pv_tenant_id := ''t2''\<rparr>"
proof -
  obtain r db' where r: "reconcile_provider_outbox_dead_letters plain_tools 9 free free ''t1'' 1 True dead_db = Inr (r, db')"
    using dead_page by blast
  have "distinct (map pv_id (rc_events dead_db))" "distinct (map ue_id (rc_usages dead_db))"
    by (simp_all add: dead_db_def dead_event_def)
  from reconcile_isolated [OF r this] r show ?thesis
    by (auto simp: dead_db_def dead_event_def list_all2_conv_all_nth)
qed

definition infinite_db :: reconcile_db where
  "infinite_db = dead_db\<lparr>rc_events := [dead_event\<lparr>pv_payload_json := JText (JObj [(''attempt'', JFloat PosInf)])\<rparr>]\<rparr>"

theorem infinite_attempt_stops_reconciliation_witness:
  "\<exists>msg :: string. reconcile_provider_outbox_dead_letters plain_tools 9 free free ''t1'' 50 True infinite_db
     = Inl (OverflowError msg)"
proof -
  let ?e = "dead_event\<lparr>pv_payload_json := JText (JObj [(''attempt'', JFloat PosInf)])\<rparr>"
  have e: "?e \<in> set (rc_events infinite_db)" "unreviewed_event ''t1'' 9 ?e" "\<not> free (pv_id ?e)"
      "\<forall>x \<in> set (rc_events infinite_db). event_ordering x \<le> event_ordering ?e \<longrightarrow> x = ?e"
      "pv_kind ?e = ''email.delivered''" "event_document ?e = Some [(''attempt'', JFloat PosInf)]"
      "obj_get [(''attempt'', JFloat PosInf)] ''attempt'' = JFloat PosInf"
    by (simp_all add: infinite_db_def dead_event_def unreviewed_event_def due_event_def reviewed_def
        event_document_def obj_get_def)
  have "event_authority infinite_db ?e [(''attempt'', JFloat PosInf)] \<noteq> None"
    by (simp add: event_authority_def infinite_db_def dead_db_def dead_event_def)
  then obtain ay where "event_authority infinite_db ?e [(''attempt'', JFloat PosInf)] = Some ay" by auto
  from infinite_attempt_stops_reconciliation [OF _ _ e this, of 50 plain_tools free True] show ?thesis by simp
qed

end
