(* ===== verification/PostalProvisioning.thy ===== *)
theory PostalProvisioning
  imports Models Platform Contracts
begin

text \<open>
  \<open>postal_provisioning.py\<close>: the durable job that gives a tenant its own Postal server, and the
  choice of the Postal credential for a send. \<open>vault\<close> is AES-GCM with the fixed associated data,
  base64 and SHA-256; the provisioning bridge is the reply it gives to a request. Transactions are
  functions on the tables, \<open>current\<close> is the clock.
\<close>

section \<open>State\<close>

record mapping_row =
  pt_tenant_id :: string
  pt_state :: string
  pt_provider_organization_id :: "string option"
  pt_provider_organization_permalink :: "string option"
  pt_provider_server_id :: "string option"
  pt_provider_server_permalink :: "string option"
  pt_provider_mode :: string
  pt_api_key_ciphertext :: "string option"
  pt_api_key_fingerprint :: "string option"
  pt_last_error :: "string option"
  pt_updated_at :: int

record credential_row =
  pd_id :: string
  pd_tenant_id :: string
  pd_domain :: string
  pd_state :: string
  pd_provider_server_id :: string
  pd_provider_server_permalink :: string
  pd_provider_mode :: string
  pd_api_key_ciphertext :: string
  pd_api_key_fingerprint :: string
  pd_last_error :: "string option"
  pd_updated_at :: int

record job_row =
  pj_id :: string
  pj_tenant_id :: string
  pj_idempotency_key :: string
  pj_state :: string
  pj_attempts :: int
  pj_available_at :: int
  pj_lease_owner :: "string option"
  pj_lease_expires_at :: "int option"
  pj_last_error :: "string option"
  pj_created_at :: int
  pj_updated_at :: int
  pj_completed_at :: "int option"

record postal_db =
  pp_tenants :: "tenant_row list"
  pp_mappings :: "mapping_row list"
  pp_credentials :: "credential_row list"
  pp_jobs :: "job_row list"

definition READY :: string where "READY = ''READY''"
definition CLAIMABLE :: "string list" where "CLAIMABLE = [''PENDING'', ''RETRYABLE_FAILURE'']"
definition PROVISION_MAX_ATTEMPTS :: int where "PROVISION_MAX_ATTEMPTS = 8"

definition get_mapping :: "postal_db \<Rightarrow> string \<Rightarrow> mapping_row option" where
  "get_mapping db tid = find_row (\<lambda>m. pt_tenant_id m = tid) (pp_mappings db)"

definition get_job :: "postal_db \<Rightarrow> string \<Rightarrow> job_row option" where
  "get_job db k = find_row (\<lambda>j. pj_id j = k) (pp_jobs db)"

definition set_mapping :: "string \<Rightarrow> (mapping_row \<Rightarrow> mapping_row) \<Rightarrow> postal_db \<Rightarrow> postal_db" where
  "set_mapping tid f db = db\<lparr>pp_mappings := update_rows (\<lambda>m. pt_tenant_id m = tid) f (pp_mappings db)\<rparr>"

definition set_job :: "string \<Rightarrow> (job_row \<Rightarrow> job_row) \<Rightarrow> postal_db \<Rightarrow> postal_db" where
  "set_job k f db = db\<lparr>pp_jobs := update_rows (\<lambda>j. pj_id j = k) f (pp_jobs db)\<rparr>"

text \<open>The job of a tenant that was created last.\<close>

definition latest_job :: "postal_db \<Rightarrow> string \<Rightarrow> job_row option" where
  "latest_job db tid =
     (case select_rows (\<lambda>j. - pj_created_at j) (\<lambda>j. pj_tenant_id j = tid) 1 (pp_jobs db) of
        [] \<Rightarrow> None | j # _ \<Rightarrow> Some j)"

section \<open>Secrets\<close>

record vault =
  vt_encrypt :: "string \<Rightarrow> string \<Rightarrow> string \<Rightarrow> string"
  vt_decrypt :: "string \<Rightarrow> string \<Rightarrow> string \<Rightarrow> string option"
  vt_b64encode :: "string \<Rightarrow> string"
  vt_b64decode :: "string \<Rightarrow> string option"
  vt_sha256 :: "string \<Rightarrow> string"
  vt_sha256_hex :: "string \<Rightarrow> string"

definition production :: "env \<Rightarrow> bool" where
  "production e \<longleftrightarrow> lower (env_get e ''KLYROW_ENV'' ''development'') = ''production''"

definition provider_key :: "vault \<Rightarrow> files \<Rightarrow> env \<Rightarrow> string \<Rightarrow> string res" where
  "provider_key vt fl e secret =
     (let path = strip (env_get e ''KLYROW_PROVIDER_CREDENTIAL_KEY_FILE'' [])
      in if path \<noteq> []
         then (case fl_text fl path of
                 None \<Rightarrow> Inl (RuntimeError ''provider credential key unavailable'')
               | Some content \<Rightarrow>
                   (let material = strip content
                    in if length material < 32 then Inl (RuntimeError ''provider credential key too short'')
                       else Inr (vt_sha256 vt material)))
         else if production e
         then Inl (RuntimeError ''provider credential key file required in production'')
         else Inr (vt_sha256 vt (''klyrow-provider:'' @ secret)))"

definition encrypt_provider_secret :: "vault \<Rightarrow> string res \<Rightarrow> string \<Rightarrow> string \<Rightarrow> string res" where
  "encrypt_provider_secret vt pkey nonce v =
     res_bind pkey (\<lambda>k. Inr (vt_b64encode vt (nonce @ vt_encrypt vt k nonce v)))"

definition decrypt_provider_secret :: "vault \<Rightarrow> string res \<Rightarrow> string \<Rightarrow> string res" where
  "decrypt_provider_secret vt pkey v =
     (case vt_b64decode vt v of
        None \<Rightarrow> Inl (ValueError ''Invalid base64'')
      | Some body \<Rightarrow>
          res_bind pkey (\<lambda>k.
            case vt_decrypt vt k (take 12 body) (drop 12 body) of
              None \<Rightarrow> Inl (OSError ''InvalidTag'') | Some v' \<Rightarrow> Inr v'))"

definition credential_fingerprint :: "vault \<Rightarrow> string \<Rightarrow> string" where
  "credential_fingerprint vt v = ''sha256:'' @ take 20 (vt_sha256_hex vt v)"

section \<open>Requests\<close>

definition management_required :: "string option \<Rightarrow> unit res" where
  "management_required role =
     (if role \<notin> {Some ''OWNER'', Some ''ADMIN''} then Inl (HTTPException 403 ''tenant_management_denied'')
      else Inr ())"

definition fresh_mapping :: "int \<Rightarrow> string \<Rightarrow> mapping_row" where
  "fresh_mapping current tid =
     \<lparr>pt_tenant_id = tid, pt_state = ''PENDING'', pt_provider_organization_id = None,
      pt_provider_organization_permalink = None, pt_provider_server_id = None,
      pt_provider_server_permalink = None, pt_provider_mode = ''Development'',
      pt_api_key_ciphertext = None, pt_api_key_fingerprint = None, pt_last_error = None,
      pt_updated_at = current\<rparr>"

definition fresh_job :: "int \<Rightarrow> string \<Rightarrow> string \<Rightarrow> string \<Rightarrow> job_row" where
  "fresh_job current fresh tid key =
     \<lparr>pj_id = fresh, pj_tenant_id = tid, pj_idempotency_key = key, pj_state = ''PENDING'',
      pj_attempts = 0, pj_available_at = current, pj_lease_owner = None, pj_lease_expires_at = None,
      pj_last_error = None, pj_created_at = current, pj_updated_at = current, pj_completed_at = None\<rparr>"

text \<open>The new job's identifier is drawn; the primary key refuses one that is taken.\<close>

definition ensure_job ::
  "int \<Rightarrow> string \<Rightarrow> string \<Rightarrow> postal_db \<Rightarrow> (job_row \<times> postal_db) res" where
  "ensure_job current fresh tid db =
     (let db1 = (case get_mapping db tid of
                   None \<Rightarrow> db\<lparr>pp_mappings := pp_mappings db @ [fresh_mapping current tid]\<rparr>
                 | Some _ \<Rightarrow> db);
          key = ''postal-tenant:'' @ tid @ '':v1''
      in case find_row (\<lambda>j. pj_idempotency_key j = key) (pp_jobs db1) of
           Some job \<Rightarrow> Inr (job, db1)
         | None \<Rightarrow>
             (let job = fresh_job current fresh tid key
              in if get_job db1 fresh \<noteq> None then Inl (IntegrityError ''postal_provisioning_outbox'')
                 else Inr (job, db1\<lparr>pp_jobs := pp_jobs db1 @ [job]\<rparr>)))"

definition enqueue_postal_provisioning ::
  "int \<Rightarrow> string \<Rightarrow> string \<Rightarrow> postal_db \<Rightarrow> (job_row \<times> postal_db) res" where
  "enqueue_postal_provisioning current fresh tid db =
     (if find_row (\<lambda>t. tn_id t = tid) (pp_tenants db) = None
      then Inl (HTTPException 404 ''tenant_not_found'')
      else (case (map_option pt_state (get_mapping db tid) = Some READY, latest_job db tid) of
              (True, Some job) \<Rightarrow> Inr (job, db)
            | _ \<Rightarrow> ensure_job current fresh tid db))"

definition reset_job :: "int \<Rightarrow> job_row \<Rightarrow> job_row" where
  "reset_job current j =
     j\<lparr>pj_state := ''PENDING'', pj_attempts := 0, pj_available_at := current, pj_last_error := None,
       pj_lease_owner := None, pj_lease_expires_at := None, pj_updated_at := current\<rparr>"

text \<open>The shared body of the tenant's and the administrator's retry routes.\<close>

definition retry_provisioning :: "int \<Rightarrow> string \<Rightarrow> string \<Rightarrow> postal_db \<Rightarrow> postal_db res" where
  "retry_provisioning current fresh tid db =
     (case latest_job db tid of
        None \<Rightarrow> res_bind (enqueue_postal_provisioning current fresh tid db) (\<lambda>r. Inr (snd r))
      | Some job \<Rightarrow>
          Inr (set_mapping tid (\<lambda>m. m\<lparr>pt_state := ''PENDING'', pt_last_error := None, pt_updated_at := current\<rparr>)
                 (set_job (pj_id job) (reset_job current) db)))"

definition request_retry :: "string option \<Rightarrow> int \<Rightarrow> string \<Rightarrow> string \<Rightarrow> postal_db \<Rightarrow> postal_db res" where
  "request_retry role current fresh tid db =
     res_bind (management_required role) (\<lambda>_. retry_provisioning current fresh tid db)"

definition admin_retry_provisioning ::
  "string option \<Rightarrow> int \<Rightarrow> string \<Rightarrow> string \<Rightarrow> postal_db \<Rightarrow> postal_db res" where
  "admin_retry_provisioning user_role current fresh tid db =
     (if user_role \<noteq> Some ''platform_admin'' then Inl (HTTPException 403 ''platform_admin_required'')
      else retry_provisioning current fresh tid db)"

record mapping_status =
  ms_state :: string
  ms_provider_mode :: "string option"
  ms_organization :: "string option"
  ms_server :: "string option"
  ms_credential_fingerprint :: "string option"
  ms_last_error :: "string option"
  ms_attempts :: int

definition mapping_status_of :: "postal_db \<Rightarrow> string \<Rightarrow> mapping_status" where
  "mapping_status_of db tid =
     (let m = get_mapping db tid
      in \<lparr>ms_state = (case m of None \<Rightarrow> ''NOT_REQUESTED'' | Some r \<Rightarrow> pt_state r),
          ms_provider_mode = map_option pt_provider_mode m,
          ms_organization = Option.bind m pt_provider_organization_permalink,
          ms_server = Option.bind m pt_provider_server_permalink,
          ms_credential_fingerprint = Option.bind m pt_api_key_fingerprint,
          ms_last_error = Option.bind m pt_last_error,
          ms_attempts = (case latest_job db tid of None \<Rightarrow> 0 | Some j \<Rightarrow> pj_attempts j)\<rparr>)"

section \<open>The worker\<close>

definition backoff :: "int \<Rightarrow> int \<Rightarrow> int" where
  "backoff current attempts = current + min 900 (2 ^ nat (max attempts 1)) * 1000000"

definition job_expired :: "int \<Rightarrow> job_row \<Rightarrow> bool" where
  "job_expired current j \<longleftrightarrow> pj_state j = ''RUNNING'' \<and>
     (case pj_lease_expires_at j of None \<Rightarrow> False | Some t \<Rightarrow> t < current)"

definition expired_state :: "job_row \<Rightarrow> string" where
  "expired_state j = (if PROVISION_MAX_ATTEMPTS \<le> pj_attempts j then ''BLOCKED'' else ''RETRYABLE_FAILURE'')"

definition recover_job :: "int \<Rightarrow> job_row \<Rightarrow> postal_db \<Rightarrow> postal_db" where
  "recover_job current row db =
     set_mapping (pj_tenant_id row) (\<lambda>m. m\<lparr>pt_state := expired_state row,
         pt_last_error := Some ''lease_expired'', pt_updated_at := current\<rparr>)
       (set_job (pj_id row) (\<lambda>j. j\<lparr>pj_state := expired_state row,
         pj_available_at := backoff current (pj_attempts row), pj_lease_owner := None,
         pj_lease_expires_at := None, pj_last_error := Some ''lease_expired''\<rparr>) db)"

definition recover_expired_jobs :: "int \<Rightarrow> postal_db \<Rightarrow> postal_db" where
  "recover_expired_jobs current db =
     fold (recover_job current) (filter (job_expired current) (pp_jobs db)) db"

definition claimable_job :: "int \<Rightarrow> (string \<Rightarrow> bool) \<Rightarrow> job_row \<Rightarrow> bool" where
  "claimable_job current locked j \<longleftrightarrow>
     pj_state j \<in> set CLAIMABLE \<and> pj_available_at j \<le> current \<and> \<not> locked (pj_id j)"

definition start_job :: "int \<Rightarrow> string \<Rightarrow> job_row \<Rightarrow> job_row" where
  "start_job current worker_id j =
     j\<lparr>pj_state := ''RUNNING'', pj_attempts := pj_attempts j + 1, pj_lease_owner := Some worker_id,
       pj_lease_expires_at := Some (current + 60 * 1000000), pj_updated_at := current\<rparr>"

definition claim_job ::
  "int \<Rightarrow> (string \<Rightarrow> bool) \<Rightarrow> string \<Rightarrow> postal_db \<Rightarrow> (string \<times> string) option \<times> postal_db" where
  "claim_job current locked worker_id db =
     (let db1 = recover_expired_jobs current db
      in case select_rows pj_created_at (claimable_job current locked) 1 (pp_jobs db1) of
           [] \<Rightarrow> (None, db1)
         | item # _ \<Rightarrow>
             (let tid = pj_tenant_id item;
                  db2 = set_job (pj_id item) (start_job current worker_id) db1;
                  db3 = (case get_mapping db2 tid of
                           None \<Rightarrow> db2\<lparr>pp_mappings := pp_mappings db2 @ [fresh_mapping current tid]\<rparr>
                         | Some _ \<Rightarrow> db2)
              in (Some (pj_id item, tid),
                  set_mapping tid (\<lambda>m. m\<lparr>pt_state := ''RUNNING'', pt_last_error := None,
                    pt_updated_at := current\<rparr>) db3)))"

text \<open>A failure of the attempt: an HTTP status error with its status, or another exception.\<close>

datatype attempt_failure =
    StatusError int
  | OtherError exn

definition failure_name :: "attempt_failure \<Rightarrow> string" where
  "failure_name f = (case f of StatusError _ \<Rightarrow> ''HTTPStatusError'' | OtherError e \<Rightarrow> exn_name e)"

definition bridge_token :: "files \<Rightarrow> env \<Rightarrow> string res" where
  "bridge_token fl e =
     (let path = strip (env_get e ''KLYROW_POSTAL_PROVISIONER_TOKEN_FILE'' [])
      in if path = [] then Inl (RuntimeError ''postal provisioner token file required'')
         else (case fl_text fl path of
                 None \<Rightarrow> Inl (RuntimeError ''postal provisioner token unavailable'')
               | Some content \<Rightarrow>
                   (let token = strip content
                    in if length token < 32 then Inl (RuntimeError ''postal provisioner token too short'')
                       else Inr token)))"

definition send_limit :: "tenant_row \<Rightarrow> int" where
  "send_limit t = max 100 (min (if tn_quota t = 0 then 1000 else tn_quota t) 10000)"

text \<open>The bridge maps the token, the tenant and the send limit to its reply.\<close>

type_synonym bridge = "string \<Rightarrow> tenant_row \<Rightarrow> int \<Rightarrow> attempt_failure + json"

definition call_bridge ::
  "(json \<Rightarrow> string) \<Rightarrow> files \<Rightarrow> env \<Rightarrow> bridge \<Rightarrow> tenant_row \<Rightarrow> attempt_failure + (string \<times> json) list" where
  "call_bridge repr_of fl e bridge tenant =
     (case bridge_token fl e of
        Inl x \<Rightarrow> Inl (OtherError x)
      | Inr token \<Rightarrow>
          (case bridge token tenant (send_limit tenant) of
             Inl f \<Rightarrow> Inl f
           | Inr (JObj result) \<Rightarrow>
               (if \<exists>key \<in> set [''organization_id'', ''server_id'', ''api_key''].
                     strip (json_str repr_of (json_or (obj_get result key) (JStr []))) = []
                then Inl (OtherError (RuntimeError ''postal provisioner returned incomplete mapping''))
                else if json_str repr_of (json_or (obj_get result ''mode'') (JStr [])) \<noteq> ''Development''
                then Inl (OtherError (RuntimeError ''postal provisioner must create development-mode servers''))
                else Inr result)
           | Inr _ \<Rightarrow> Inl (OtherError (AttributeError ''get''))))"

definition provisioned_mapping ::
  "(json \<Rightarrow> string) \<Rightarrow> int \<Rightarrow> (string \<times> json) list \<Rightarrow> string \<Rightarrow> string \<Rightarrow> mapping_row \<Rightarrow> mapping_row" where
  "provisioned_mapping repr_of current result ciphertext fingerprint m =
     (let text_of = (\<lambda>v. Some (json_str repr_of v))
      in m\<lparr>pt_state := READY,
           pt_provider_organization_id := text_of (obj_get result ''organization_id''),
           pt_provider_organization_permalink := text_of
             (json_or (obj_get result ''organization_permalink'') (obj_get result ''organization_id'')),
           pt_provider_server_id := text_of (obj_get result ''server_id''),
           pt_provider_server_permalink := text_of
             (json_or (obj_get result ''server_permalink'') (obj_get result ''server_id'')),
           pt_provider_mode := ''Development'',
           pt_api_key_ciphertext := Some ciphertext,
           pt_api_key_fingerprint := Some fingerprint,
           pt_last_error := None,
           pt_updated_at := current\<rparr>)"

definition finish_success ::
  "(json \<Rightarrow> string) \<Rightarrow> vault \<Rightarrow> string res \<Rightarrow> string \<Rightarrow> int \<Rightarrow> string \<times> string \<Rightarrow> (string \<times> json) list
     \<Rightarrow> postal_db \<Rightarrow> (nat \<times> postal_db) res" where
  "finish_success repr_of vt pkey nonce current snapshot result db =
     (case (get_job db (fst snapshot), get_mapping db (snd snapshot)) of
        (Some item, Some mapping) \<Rightarrow>
          (if pj_state item \<noteq> ''RUNNING'' then Inr (0, db)
           else
             (let raw_key = json_str repr_of (obj_get result ''api_key'')
              in res_bind (encrypt_provider_secret vt pkey nonce raw_key) (\<lambda>ciphertext.
                 Inr (1, set_job (fst snapshot) (\<lambda>j. j\<lparr>pj_state := READY, pj_last_error := None,
                        pj_lease_owner := None, pj_lease_expires_at := None,
                        pj_completed_at := Some current, pj_updated_at := current\<rparr>)
                      (set_mapping (snd snapshot) (provisioned_mapping repr_of current result ciphertext
                         (credential_fingerprint vt raw_key)) db)))))
      | _ \<Rightarrow> Inr (0, db))"

definition failure_state :: "attempt_failure \<Rightarrow> job_row \<Rightarrow> string" where
  "failure_state f j =
     (if PROVISION_MAX_ATTEMPTS \<le> pj_attempts j \<or>
         (case f of StatusError status \<Rightarrow> status \<in> {400, 401, 403, 409, 422} | OtherError _ \<Rightarrow> False)
      then ''BLOCKED'' else ''RETRYABLE_FAILURE'')"

definition finish_failure :: "int \<Rightarrow> string \<times> string \<Rightarrow> attempt_failure \<Rightarrow> postal_db \<Rightarrow> postal_db" where
  "finish_failure current snapshot f db =
     (case get_job db (fst snapshot) of
        None \<Rightarrow> db
      | Some item \<Rightarrow>
          set_mapping (pj_tenant_id item) (\<lambda>m. m\<lparr>pt_state := failure_state f item,
              pt_last_error := Some (failure_name f), pt_updated_at := current\<rparr>)
            (set_job (fst snapshot) (\<lambda>j. j\<lparr>pj_state := failure_state f item,
              pj_last_error := Some (failure_name f),
              pj_available_at := backoff current (pj_attempts item), pj_lease_owner := None,
              pj_lease_expires_at := None, pj_updated_at := current\<rparr>) db))"

definition attempt ::
  "(json \<Rightarrow> string) \<Rightarrow> files \<Rightarrow> env \<Rightarrow> bridge \<Rightarrow> string \<Rightarrow> postal_db \<Rightarrow> attempt_failure + (string \<times> json) list" where
  "attempt repr_of fl e bridge tid db =
     (case find_row (\<lambda>t. tn_id t = tid) (pp_tenants db) of
        None \<Rightarrow> Inl (OtherError (RuntimeError ''tenant unavailable for provisioning''))
      | Some tenant \<Rightarrow>
          if \<not> tn_enabled tenant
          then Inl (OtherError (RuntimeError ''tenant unavailable for provisioning''))
          else call_bridge repr_of fl e bridge tenant)"

text \<open>\<open>meanwhile\<close> is what other transactions do while the bridge is called.\<close>

definition provisioning_tick ::
  "(json \<Rightarrow> string) \<Rightarrow> vault \<Rightarrow> string res \<Rightarrow> string \<Rightarrow> files \<Rightarrow> env \<Rightarrow> bridge \<Rightarrow> string \<Rightarrow> (string \<Rightarrow> bool)
     \<Rightarrow> int \<Rightarrow> (postal_db \<Rightarrow> postal_db) \<Rightarrow> int \<Rightarrow> postal_db \<Rightarrow> nat \<times> postal_db" where
  "provisioning_tick repr_of vt pkey nonce fl e bridge worker_id locked claimed_at meanwhile ended_at db =
     (case claim_job claimed_at locked worker_id db of
        (None, db1) \<Rightarrow> (0, db1)
      | (Some snapshot, db1) \<Rightarrow>
          (let db2 = meanwhile db1
           in case attempt repr_of fl e bridge (snd snapshot) db1 of
                Inl f \<Rightarrow> (0, finish_failure ended_at snapshot f db2)
              | Inr result \<Rightarrow>
                  (case finish_success repr_of vt pkey nonce ended_at snapshot result db2 of
                     Inr r \<Rightarrow> r
                   | Inl x \<Rightarrow> (0, finish_failure ended_at snapshot (OtherError x) db2))))"

section \<open>Live domains\<close>

text \<open>The outbound bridge maps the token, the tenant and the domains to its reply.\<close>

type_synonym live_bridge = "string \<Rightarrow> string \<Rightarrow> string list \<Rightarrow> attempt_failure + json"

definition call_live_domain_bridge ::
  "files \<Rightarrow> env \<Rightarrow> live_bridge \<Rightarrow> string \<Rightarrow> string list \<Rightarrow> attempt_failure + json" where
  "call_live_domain_bridge fl e bridge tid domains =
     (case bridge_token fl e of
        Inl x \<Rightarrow> Inl (OtherError x)
      | Inr token \<Rightarrow> bridge token tid (sort (remdups domains)))"

record live_credential =
  lv_domain :: string
  lv_server_id :: string
  lv_server_permalink :: string
  lv_mode :: string
  lv_key :: string

definition text_of :: "(json \<Rightarrow> string) \<Rightarrow> (string \<times> json) list \<Rightarrow> string \<Rightarrow> string" where
  "text_of repr_of item name = json_str repr_of (json_or (obj_get item name) (JStr []))"

definition returned_domains :: "(json \<Rightarrow> string) \<Rightarrow> json list \<Rightarrow> string list" where
  "returned_domains repr_of items =
     sort (map (\<lambda>item. lower (text_of repr_of item ''domain'')) (List.map_filter json_obj items))"

definition validated_item :: "(json \<Rightarrow> string) \<Rightarrow> json \<Rightarrow> live_credential res" where
  "validated_item repr_of item =
     (case json_obj item of
        None \<Rightarrow> Inl (AttributeError ''get'')
      | Some kvs \<Rightarrow>
          (let domain = lower (text_of repr_of kvs ''domain'');
               server_id = text_of repr_of kvs ''server_id'';
               permalink = json_str repr_of (json_or (obj_get kvs ''server_permalink'') (JStr server_id));
               mode = text_of repr_of kvs ''mode'';
               key = text_of repr_of kvs ''api_key''
           in if domain = [] \<or> server_id = [] \<or> permalink = [] \<or> mode \<noteq> ''Live'' \<or> length key < 20
              then Inl (RuntimeError ''postal outbound reconciliation returned invalid credential'')
              else Inr \<lparr>lv_domain = domain, lv_server_id = server_id, lv_server_permalink = permalink,
                        lv_mode = mode, lv_key = key\<rparr>))"

fun validated_items :: "(json \<Rightarrow> string) \<Rightarrow> json list \<Rightarrow> live_credential list res" where
  "validated_items repr_of [] = Inr []"
| "validated_items repr_of (item # items) =
     res_bind (validated_item repr_of item) (\<lambda>c.
       res_bind (validated_items repr_of items) (\<lambda>cs. Inr (c # cs)))"

definition owns_domain :: "string \<Rightarrow> string \<Rightarrow> credential_row \<Rightarrow> bool" where
  "owns_domain tid domain c \<longleftrightarrow> pd_tenant_id c = tid \<and> pd_domain c = domain"

definition live_row :: "int \<Rightarrow> live_credential \<Rightarrow> string \<Rightarrow> string \<Rightarrow> credential_row \<Rightarrow> credential_row" where
  "live_row current v ciphertext fingerprint c =
     c\<lparr>pd_state := READY, pd_provider_server_id := lv_server_id v,
       pd_provider_server_permalink := lv_server_permalink v, pd_provider_mode := lv_mode v,
       pd_api_key_ciphertext := ciphertext, pd_api_key_fingerprint := fingerprint,
       pd_last_error := None, pd_updated_at := current\<rparr>"

definition fresh_credential :: "int \<Rightarrow> string \<Rightarrow> string \<Rightarrow> live_credential \<Rightarrow> credential_row" where
  "fresh_credential current fresh tid v =
     \<lparr>pd_id = fresh, pd_tenant_id = tid, pd_domain = lv_domain v, pd_state = ''PENDING'',
      pd_provider_server_id = lv_server_id v, pd_provider_server_permalink = lv_server_permalink v,
      pd_provider_mode = lv_mode v, pd_api_key_ciphertext = [], pd_api_key_fingerprint = [],
      pd_last_error = None, pd_updated_at = current\<rparr>"

definition upsert_credential ::
  "vault \<Rightarrow> string res \<Rightarrow> int \<Rightarrow> string \<times> string \<Rightarrow> string \<Rightarrow> live_credential \<Rightarrow> postal_db
     \<Rightarrow> (string \<times> postal_db) res" where
  "upsert_credential vt pkey current draw tid v db =
     (let rows = (case find_row (owns_domain tid (lv_domain v)) (pp_credentials db) of
                    None \<Rightarrow> pp_credentials db @ [fresh_credential current (fst draw) tid v]
                  | Some _ \<Rightarrow> pp_credentials db);
          fingerprint = credential_fingerprint vt (lv_key v)
      in res_bind (encrypt_provider_secret vt pkey (snd draw) (lv_key v)) (\<lambda>ciphertext.
           Inr (fingerprint, db\<lparr>pp_credentials := update_rows (owns_domain tid (lv_domain v))
                                  (live_row current v ciphertext fingerprint) rows\<rparr>)))"

text \<open>Each item draws an identifier and a nonce.\<close>

fun upsert_credentials ::
  "vault \<Rightarrow> string res \<Rightarrow> int \<Rightarrow> (nat \<Rightarrow> string \<times> string) \<Rightarrow> string \<Rightarrow> live_credential list \<Rightarrow> postal_db
     \<Rightarrow> ((string \<times> string) list \<times> postal_db) res" where
  "upsert_credentials vt pkey current draws tid [] db = Inr ([], db)"
| "upsert_credentials vt pkey current draws tid (v # vs) db =
     res_bind (upsert_credential vt pkey current (draws (length vs)) tid v db) (\<lambda>(fingerprint, db1).
       res_bind (upsert_credentials vt pkey current draws tid vs db1) (\<lambda>(fingerprints, db2).
         Inr ((lv_domain v, fingerprint) # fingerprints, db2)))"

definition reconcile_reply ::
  "(json \<Rightarrow> string) \<Rightarrow> vault \<Rightarrow> string res \<Rightarrow> int \<Rightarrow> (nat \<Rightarrow> string \<times> string) \<Rightarrow> string \<Rightarrow> string list
     \<Rightarrow> json \<Rightarrow> postal_db \<Rightarrow> ((string list \<times> (string \<times> string) list) \<times> postal_db) res" where
  "reconcile_reply repr_of vt pkey current draws tid expected reply db =
     (case json_obj reply of
        None \<Rightarrow> Inl (AttributeError ''get'')
      | Some result \<Rightarrow>
          (case obj_get result ''domains'' of
             JList items \<Rightarrow>
               (if returned_domains repr_of items \<noteq> expected
                then Inl (RuntimeError ''postal outbound reconciliation incomplete'')
                else res_bind (validated_items repr_of items) (\<lambda>vs.
                  res_bind (upsert_credentials vt pkey current draws tid vs db) (\<lambda>(fingerprints, db').
                    Inr ((expected, fingerprints), db'))))
           | _ \<Rightarrow> Inl (RuntimeError ''postal outbound reconciliation returned invalid domains'')))"

definition reconcile_live_domain_credentials ::
  "(json \<Rightarrow> string) \<Rightarrow> vault \<Rightarrow> string res \<Rightarrow> int \<Rightarrow> (nat \<Rightarrow> string \<times> string) \<Rightarrow> files \<Rightarrow> env
     \<Rightarrow> live_bridge \<Rightarrow> string \<Rightarrow> string list \<Rightarrow> postal_db
     \<Rightarrow> attempt_failure + (string list \<times> (string \<times> string) list) \<times> postal_db" where
  "reconcile_live_domain_credentials repr_of vt pkey current draws fl e bridge tid domains db =
     (let expected = sort (remdups (map lower domains))
      in case call_live_domain_bridge fl e bridge tid expected of
           Inl f \<Rightarrow> Inl f
         | Inr reply \<Rightarrow>
             (case reconcile_reply repr_of vt pkey current draws tid expected reply db of
                Inl x \<Rightarrow> Inl (OtherError x) | Inr r \<Rightarrow> Inr r))"

section \<open>The credential of a send\<close>

definition live_credential_of :: "postal_db \<Rightarrow> string \<Rightarrow> string \<Rightarrow> credential_row option" where
  "live_credential_of db tid sender_domain =
     find_row (\<lambda>c. owns_domain tid (lower sender_domain) c \<and> pd_state c = READY \<and>
       pd_provider_mode c = ''Live'') (pp_credentials db)"

definition legacy_key :: "files \<Rightarrow> env \<Rightarrow> string option res" where
  "legacy_key fl e =
     (let path = strip (env_get e ''KLYROW_POSTAL_API_KEY_FILE'' [])
      in if lower (env_get e ''KLYROW_ALLOW_LEGACY_GLOBAL_POSTAL_KEY'' ''false'') \<noteq> ''true'' \<or> path = []
         then Inr None
         else (case fl_text fl path of
                 None \<Rightarrow> Inl (OSError ''FileNotFoundError'')
               | Some content \<Rightarrow> Inr (if strip content = [] then None else Some (strip content))))"

text \<open>An empty sender domain is no sender domain.\<close>

definition tenant_postal_api_key ::
  "vault \<Rightarrow> string res \<Rightarrow> files \<Rightarrow> env \<Rightarrow> postal_db \<Rightarrow> string \<Rightarrow> string \<Rightarrow> string res" where
  "tenant_postal_api_key vt pkey fl e db tid sender_domain =
     (let live = (if sender_domain = [] then None
                  else case live_credential_of db tid sender_domain of
                         None \<Rightarrow> None
                       | Some c \<Rightarrow> if pd_api_key_ciphertext c = [] then None else Some (pd_api_key_ciphertext c));
          shared = (case get_mapping db tid of
                      None \<Rightarrow> None
                    | Some m \<Rightarrow> if pt_state m = READY \<and> \<not> absent (pt_api_key_ciphertext m)
                                then pt_api_key_ciphertext m else None)
      in case live of
           Some ciphertext \<Rightarrow> decrypt_provider_secret vt pkey ciphertext
         | None \<Rightarrow>
             if sender_domain \<noteq> [] \<and> production e
             then Inl (RuntimeError ''postal sender domain is not provisioned'')
             else (case shared of
                     Some ciphertext \<Rightarrow> decrypt_provider_secret vt pkey ciphertext
                   | None \<Rightarrow>
                       res_bind (legacy_key fl e) (\<lambda>legacy.
                         case legacy of
                           Some key \<Rightarrow> Inr key
                         | None \<Rightarrow>
                             Inl (RuntimeError (if sender_domain \<noteq> [] then ''postal sender domain is not provisioned''
                                                else ''postal tenant is not provisioned'')))))"

section \<open>What the vault promises\<close>

text \<open>
  AES-GCM opens what it sealed under the same key and nonce, base64 decodes what it encoded and
  encodes only the empty string as the empty string.
\<close>

definition vault_laws :: "vault \<Rightarrow> bool" where
  "vault_laws vt \<longleftrightarrow>
     (\<forall>k n v. vt_decrypt vt k n (vt_encrypt vt k n v) = Some v) \<and>
     (\<forall>body. vt_b64decode vt (vt_b64encode vt body) = Some body) \<and>
     (\<forall>body. vt_b64encode vt body = [] \<longleftrightarrow> body = [])"

lemma encrypt_provider_secret_Inr:
  "encrypt_provider_secret vt pkey nonce v = Inr ct \<longleftrightarrow>
     (\<exists>k. pkey = Inr k \<and> ct = vt_b64encode vt (nonce @ vt_encrypt vt k nonce v))"
  by (auto simp: encrypt_provider_secret_def res_bind_Inr)

lemma decrypt_encrypted:
  assumes "vault_laws vt" and "length nonce = 12" and "encrypt_provider_secret vt pkey nonce v = Inr ct"
  shows "decrypt_provider_secret vt pkey ct = Inr v" and "ct \<noteq> []"
  using assms
  by (auto simp: vault_laws_def encrypt_provider_secret_Inr decrypt_provider_secret_def)

section \<open>Credentials of live domains\<close>

text \<open>All rows of a tenant's domain hold the live key \<open>v\<close> in the ciphertext \<open>ct\<close>.\<close>

definition holds_live :: "postal_db \<Rightarrow> string \<Rightarrow> string \<Rightarrow> string \<Rightarrow> bool" where
  "holds_live db tid domain ct \<longleftrightarrow>
     (\<exists>c \<in> set (pp_credentials db). owns_domain tid domain c) \<and>
     (\<forall>c \<in> set (pp_credentials db). owns_domain tid domain c \<longrightarrow>
        pd_state c = READY \<and> pd_provider_mode c = ''Live'' \<and> pd_api_key_ciphertext c = ct)"

definition foreign_credentials :: "string \<Rightarrow> string list \<Rightarrow> postal_db \<Rightarrow> credential_row list" where
  "foreign_credentials tid domains db =
     filter (\<lambda>c. \<not> (pd_tenant_id c = tid \<and> pd_domain c \<in> set domains)) (pp_credentials db)"

lemma owns_live_row [simp]: "owns_domain tid d (live_row t v ct fp c) = owns_domain tid d c"
  by (simp add: owns_domain_def live_row_def)

lemma live_row_simps [simp]:
  "pd_state (live_row t v ct fp c) = READY"
  "pd_provider_mode (live_row t v ct fp c) = lv_mode v"
  "pd_api_key_ciphertext (live_row t v ct fp c) = ct"
  by (simp_all add: live_row_def)

lemma live_credential_of_holds:
  assumes "holds_live db tid (lower d) ct"
  shows "\<exists>c. live_credential_of db tid d = Some c \<and> pd_api_key_ciphertext c = ct"
proof -
  let ?P = "\<lambda>c. owns_domain tid (lower d) c \<and> pd_state c = READY \<and> pd_provider_mode c = ''Live''"
  obtain c where "c \<in> set (pp_credentials db)" "?P c"
    using assms unfolding holds_live_def by blast
  then have "\<exists>c'. find_row ?P (pp_credentials db) = Some c'" by (rule find_row_exI)
  then obtain c' where c': "find_row ?P (pp_credentials db) = Some c'" ..
  then have "c' \<in> set (pp_credentials db)" "owns_domain tid (lower d) c'"
    using find_row_Some [OF c'] by simp_all
  then have "pd_api_key_ciphertext c' = ct" using assms unfolding holds_live_def by blast
  then show ?thesis using c' unfolding live_credential_of_def by blast
qed

lemma upsert_credential_effect:
  assumes "upsert_credential vt pkey t draw tid v db = Inr (fp, db')" and "lv_mode v = ''Live''"
  shows "\<exists>ct. encrypt_provider_secret vt pkey (snd draw) (lv_key v) = Inr ct \<and>
      holds_live db' tid (lv_domain v) ct"
    and "lv_domain v \<in> set ds \<Longrightarrow> foreign_credentials tid ds db' = foreign_credentials tid ds db"
    and "d \<noteq> lv_domain v \<Longrightarrow> holds_live db' tid d ct' = holds_live db tid d ct'"
    and "pp_mappings db' = pp_mappings db" "pp_jobs db' = pp_jobs db" "pp_tenants db' = pp_tenants db"
proof -
  let ?own = "owns_domain tid (lv_domain v)"
  obtain ct rows where ct: "encrypt_provider_secret vt pkey (snd draw) (lv_key v) = Inr ct"
      and db': "db' = db\<lparr>pp_credentials := update_rows ?own (live_row t v ct fp) rows\<rparr>"
      and rows: "rows = (case find_row ?own (pp_credentials db) of
        None \<Rightarrow> pp_credentials db @ [fresh_credential t (fst draw) tid v] | Some _ \<Rightarrow> pp_credentials db)"
    using assms(1) by (auto simp: upsert_credential_def Let_def res_bind_Inr)
  have fresh: "?own (fresh_credential t (fst draw) tid v)"
    by (simp add: owns_domain_def fresh_credential_def)
  have "\<exists>c. c \<in> set rows \<and> ?own c"
    using fresh find_row_Some [of ?own "pp_credentials db"] by (auto simp: rows split: option.splits)
  then obtain c where c: "c \<in> set rows" "?own c" by blast
  have "(\<lambda>r. if ?own r then live_row t v ct fp r else r) c \<in> set (update_rows ?own (live_row t v ct fp) rows)"
    unfolding set_update_rows using c(1) by (rule imageI)
  then have "\<exists>c \<in> set (update_rows ?own (live_row t v ct fp) rows). ?own c"
    using c(2) by (intro bexI [of _ "live_row t v ct fp c"]) simp_all
  then show "\<exists>ct. encrypt_provider_secret vt pkey (snd draw) (lv_key v) = Inr ct \<and>
      holds_live db' tid (lv_domain v) ct"
    using assms(2) by (auto simp: ct db' holds_live_def set_update_rows)
  show "pp_mappings db' = pp_mappings db" "pp_jobs db' = pp_jobs db" "pp_tenants db' = pp_tenants db"
    by (simp_all add: db')
  have filt: "filter P (update_rows ?own (live_row t v ct fp) rs) = filter P rs"
    if "\<And>c. ?own c \<Longrightarrow> \<not> P c" for P rs
    using that by (induction rs) auto
  show "foreign_credentials tid ds db' = foreign_credentials tid ds db" if "lv_domain v \<in> set ds"
  proof -
    have own: "\<not> \<not> (pd_tenant_id c = tid \<and> pd_domain c \<in> set ds)" if "?own c" for c
      using that \<open>lv_domain v \<in> set ds\<close> by (simp add: owns_domain_def)
    have "filter (\<lambda>c. \<not> (pd_tenant_id c = tid \<and> pd_domain c \<in> set ds)) rows =
        filter (\<lambda>c. \<not> (pd_tenant_id c = tid \<and> pd_domain c \<in> set ds)) (pp_credentials db)"
      unfolding rows using own [OF fresh] by (simp split: option.split)
    then show ?thesis
      unfolding foreign_credentials_def db' using own by (simp add: filt)
  qed
  show "holds_live db' tid d ct' = holds_live db tid d ct'" if "d \<noteq> lv_domain v"
  proof -
    have neq: "\<not> owns_domain tid d c" if "?own c" for c
      using that \<open>d \<noteq> lv_domain v\<close> by (simp add: owns_domain_def)
    have same: "filter (owns_domain tid d) (pp_credentials db') = filter (owns_domain tid d) (pp_credentials db)"
      unfolding db' rows using neq [OF fresh] by (simp add: filt [OF neq] split: option.split)
    have holds: "holds_live x tid d ct' \<longleftrightarrow> filter (owns_domain tid d) (pp_credentials x) \<noteq> [] \<and>
        (\<forall>c \<in> set (filter (owns_domain tid d) (pp_credentials x)). pd_state c = READY \<and>
           pd_provider_mode c = ''Live'' \<and> pd_api_key_ciphertext c = ct')" for x
      by (auto simp: holds_live_def filter_empty_conv)
    show ?thesis unfolding holds same ..
  qed
qed

lemma upsert_credentials_effect:
  assumes "upsert_credentials vt pkey t draws tid vs db = Inr (fps, db')"
    and "\<forall>v \<in> set vs. lv_mode v = ''Live''" and "distinct (map lv_domain vs)"
  shows "(\<forall>v \<in> set vs. \<exists>i ct. encrypt_provider_secret vt pkey (snd (draws i)) (lv_key v) = Inr ct \<and>
        holds_live db' tid (lv_domain v) ct) \<and>
    (\<forall>d ct. d \<notin> lv_domain ` set vs \<longrightarrow> holds_live db' tid d ct = holds_live db tid d ct) \<and>
    (\<forall>ds. lv_domain ` set vs \<subseteq> set ds \<longrightarrow> foreign_credentials tid ds db' = foreign_credentials tid ds db) \<and>
    pp_mappings db' = pp_mappings db \<and> pp_jobs db' = pp_jobs db \<and> pp_tenants db' = pp_tenants db"
  using assms
proof (induction vs arbitrary: db fps)
  case (Cons v vs)
  obtain fp db1 fps' where one: "upsert_credential vt pkey t (draws (length vs)) tid v db = Inr (fp, db1)"
      and rest: "upsert_credentials vt pkey t draws tid vs db1 = Inr (fps', db')"
    using Cons.prems(1) by (auto simp: res_bind_Inr)
  have live: "lv_mode v = ''Live''" using Cons.prems(2) by simp
  note e = upsert_credential_effect [OF one live]
  note r = Cons.IH [OF rest]
  have r: "(\<forall>v \<in> set vs. \<exists>i ct. encrypt_provider_secret vt pkey (snd (draws i)) (lv_key v) = Inr ct \<and>
        holds_live db' tid (lv_domain v) ct) \<and>
    (\<forall>d ct. d \<notin> lv_domain ` set vs \<longrightarrow> holds_live db' tid d ct = holds_live db1 tid d ct) \<and>
    (\<forall>ds. lv_domain ` set vs \<subseteq> set ds \<longrightarrow> foreign_credentials tid ds db' = foreign_credentials tid ds db1) \<and>
    pp_mappings db' = pp_mappings db1 \<and> pp_jobs db' = pp_jobs db1 \<and> pp_tenants db' = pp_tenants db1"
    using r Cons.prems(2,3) by simp
  have "lv_domain v \<notin> lv_domain ` set vs" using Cons.prems(3) by auto
  then have "\<exists>i ct. encrypt_provider_secret vt pkey (snd (draws i)) (lv_key v) = Inr ct \<and>
        holds_live db' tid (lv_domain v) ct"
    using e(1) r by blast
  then show ?case using r e by auto
qed simp

lemma validated_item_Inr:
  assumes "validated_item repr_of item = Inr v"
  shows "\<exists>kvs. item = JObj kvs \<and> lv_domain v = lower (text_of repr_of kvs ''domain'') \<and>
    lv_key v = text_of repr_of kvs ''api_key'' \<and> text_of repr_of kvs ''mode'' = ''Live'' \<and>
    lv_mode v = ''Live'' \<and> 20 \<le> length (lv_key v)"
  using assms
  by (cases item) (auto simp: validated_item_def Let_def split: if_splits)

lemma validated_items_Inr:
  "validated_items repr_of items = Inr vs \<Longrightarrow>
     (\<forall>v \<in> set vs. \<exists>item \<in> set items. validated_item repr_of item = Inr v) \<and>
     map lv_domain vs = map (\<lambda>item. lower (text_of repr_of item ''domain'')) (List.map_filter json_obj items)"
proof (induction items arbitrary: vs)
  case (Cons item items)
  obtain c cs where c: "validated_item repr_of item = Inr c" "validated_items repr_of items = Inr cs" "vs = c # cs"
    using Cons.prems by (auto simp: res_bind_Inr)
  then show ?case using Cons.IH [of cs] validated_item_Inr [OF c(1)]
    by (auto simp: map_filter_simps)
qed (simp add: map_filter_simps)

lemma sorted_list_sets:
  assumes "sort xs = sort (remdups ys)"
  shows "set xs = set ys" and "distinct xs"
  using arg_cong [OF assms, of set] arg_cong [OF assms, of distinct] by simp_all

lemma reconcile_reply_Inr:
  assumes "reconcile_reply repr_of vt pkey t draws tid (sort (remdups ds)) reply db = Inr ((expected, fps), db')"
  obtains items vs where "json_obj reply \<noteq> None" "obj_get (the (json_obj reply)) ''domains'' = JList items"
    "validated_items repr_of items = Inr vs" "lv_domain ` set vs = set ds" "distinct (map lv_domain vs)"
    "upsert_credentials vt pkey t draws tid vs db = Inr (fps, db')" "expected = sort (remdups ds)"
proof -
  obtain result items vs where r: "json_obj reply = Some result" "obj_get result ''domains'' = JList items"
      "returned_domains repr_of items = sort (remdups ds)" "validated_items repr_of items = Inr vs"
      "upsert_credentials vt pkey t draws tid vs db = Inr (fps, db')" "expected = sort (remdups ds)"
    using assms
    by (auto simp: reconcile_reply_def res_bind_Inr split: option.splits json.splits if_splits)
  have "map lv_domain vs = map (\<lambda>item. lower (text_of repr_of item ''domain'')) (List.map_filter json_obj items)"
    using validated_items_Inr [OF r(4)] by blast
  then have "sort (map lv_domain vs) = sort (remdups ds)" using r(3) by (simp add: returned_domains_def)
  from sorted_list_sets [OF this] show thesis using that [of items vs] r by simp
qed

lemma key_of_held_domain:
  assumes "vault_laws vt" and "\<forall>i. length (snd (draws i)) = 12" and "d \<noteq> []"
    and "encrypt_provider_secret vt pkey (snd (draws i)) key = Inr ct" and "holds_live db tid (lower d) ct"
  shows "tenant_postal_api_key vt pkey fl e db tid d = Inr key"
proof -
  obtain c where "live_credential_of db tid d = Some c" "pd_api_key_ciphertext c = ct"
    using live_credential_of_holds [OF assms(5)] by blast
  then show ?thesis
    using decrypt_encrypted [OF assms(1) _ assms(4)] assms(2,3) by (simp add: tenant_postal_api_key_def Let_def)
qed

section \<open>Interleavings of workers, requests and repairs\<close>

datatype prov_op =
    OpEnqueue int string string
  | OpRetry int string string
  | OpClaimJob int "string \<Rightarrow> bool" string
  | OpFinishSuccess "json \<Rightarrow> string" vault "string res" string int "string \<times> string" "(string \<times> json) list"
  | OpFinishFailure int "string \<times> string" attempt_failure

definition committed_or :: "postal_db \<Rightarrow> postal_db res \<Rightarrow> postal_db" where
  "committed_or db r = (case r of Inl _ \<Rightarrow> db | Inr db' \<Rightarrow> db')"

fun prov_step :: "prov_op \<Rightarrow> postal_db \<Rightarrow> postal_db" where
  "prov_step (OpEnqueue t fresh tid) db =
     committed_or db (map_sum id snd (enqueue_postal_provisioning t fresh tid db))"
| "prov_step (OpRetry t fresh tid) db = committed_or db (retry_provisioning t fresh tid db)"
| "prov_step (OpClaimJob t locked worker_id) db = snd (claim_job t locked worker_id db)"
| "prov_step (OpFinishSuccess repr_of vt pkey nonce t snapshot result) db =
     committed_or db (map_sum id snd (finish_success repr_of vt pkey nonce t snapshot result db))"
| "prov_step (OpFinishFailure t snapshot f) db = finish_failure t snapshot f db"

text \<open>A tick of the worker is a claim and the report of its outcome, with other steps in between.\<close>

lemma provisioning_tick_steps:
  "\<exists>last. snd (provisioning_tick repr_of vt pkey nonce fl e bridge w locked t (run_ops prov_step ops) t' db) =
     run_ops prov_step (if fst (claim_job t locked w db) = None then [OpClaimJob t locked w]
                        else OpClaimJob t locked w # ops @ [last]) db"
proof (cases "claim_job t locked w db")
  case (Pair c db1)
  have append: "run_ops prov_step (xs @ [x]) s = prov_step x (run_ops prov_step xs s)" for xs x s
    by (simp add: run_ops_def)
  show ?thesis
  proof (cases c)
    case None
    then show ?thesis using Pair by (simp add: provisioning_tick_def)
  next
    case (Some snapshot)
    let ?db2 = "run_ops prov_step ops db1"
    show ?thesis
    proof (cases "attempt repr_of fl e bridge (snd snapshot) db1")
      case (Inl f)
      show ?thesis using Pair Some Inl
        by (intro exI [of _ "OpFinishFailure t' snapshot f"]) (simp add: provisioning_tick_def append)
    next
      case (Inr result)
      show ?thesis
      proof (cases "finish_success repr_of vt pkey nonce t' snapshot result ?db2")
        case (Inl x)
        show ?thesis using Pair Some Inr Inl
          by (intro exI [of _ "OpFinishFailure t' snapshot (OtherError x)"])
            (simp add: provisioning_tick_def append)
      next
        case (Inr r)
        show ?thesis using Pair Some \<open>attempt _ _ _ _ _ _ = Inr result\<close> Inr
          by (intro exI [of _ "OpFinishSuccess repr_of vt pkey nonce t' snapshot result"])
            (simp add: provisioning_tick_def append committed_or_def)
      qed
    qed
  qed
qed

section \<open>The attempts of a job\<close>

definition job_ok :: "job_row \<Rightarrow> bool" where
  "job_ok j \<longleftrightarrow> 0 \<le> pj_attempts j \<and> pj_attempts j \<le> PROVISION_MAX_ATTEMPTS \<and>
     (pj_state j \<in> set CLAIMABLE \<longrightarrow> pj_attempts j < PROVISION_MAX_ATTEMPTS)"

definition prov_inv :: "postal_db \<Rightarrow> bool" where
  "prov_inv db \<longleftrightarrow> distinct (map pj_id (pp_jobs db)) \<and> (\<forall>j \<in> set (pp_jobs db). job_ok j)"

definition job_le :: "job_row \<Rightarrow> job_row \<Rightarrow> bool" where
  "job_le j j' \<longleftrightarrow> pj_id j' = pj_id j \<and> pj_attempts j \<le> pj_attempts j'"

definition prov_grows :: "postal_db \<Rightarrow> postal_db \<Rightarrow> bool" where
  "prov_grows db db' \<longleftrightarrow> prov_inv db' \<and> grows job_le (pp_jobs db) (pp_jobs db')"

interpretation job_order: row_order job_le pj_id
  by unfold_locales (auto simp: job_le_def)

lemma prov_grows_refl: "prov_inv db \<Longrightarrow> prov_grows db db"
  by (simp add: prov_grows_def job_order.grows_refl)

lemma prov_grows_trans: "prov_grows a b \<Longrightarrow> prov_grows b c \<Longrightarrow> prov_grows a c"
  unfolding prov_grows_def using job_order.grows_trans by blast

lemma prov_grows_same: "prov_grows a b \<Longrightarrow> pp_jobs c = pp_jobs b \<Longrightarrow> prov_grows a c"
  by (simp add: prov_grows_def prov_inv_def)

lemma job_unique: "prov_inv db \<Longrightarrow> get_job db k = Some i \<Longrightarrow> j \<in> set (pp_jobs db) \<Longrightarrow> pj_id j = k \<Longrightarrow> j = i"
  using find_row_unique [of pj_id "pp_jobs db" j] by (simp add: prov_inv_def get_job_def)

lemma get_job_Some: "get_job db k = Some j \<Longrightarrow> j \<in> set (pp_jobs db) \<and> pj_id j = k"
  unfolding get_job_def by (rule find_row_Some)

lemma get_job_in: "prov_inv db \<Longrightarrow> j \<in> set (pp_jobs db) \<Longrightarrow> get_job db (pj_id j) = Some j"
  using find_row_unique [of pj_id "pp_jobs db" j] by (simp add: prov_inv_def get_job_def)

lemma set_mapping_jobs [simp]:
  "pp_jobs (set_mapping tid f db) = pp_jobs db" "pp_tenants (set_mapping tid f db) = pp_tenants db"
  "pp_credentials (set_mapping tid f db) = pp_credentials db"
  by (simp_all add: set_mapping_def)

lemma set_job_jobs [simp]:
  "pp_jobs (set_job k f db) = update_rows (\<lambda>j. pj_id j = k) f (pp_jobs db)"
  "pp_mappings (set_job k f db) = pp_mappings db"
  by (simp_all add: set_job_def)

text \<open>Rewriting the row of one job keeps the invariant when the new row does.\<close>

lemma set_job_inv:
  assumes "prov_inv db" and "get_job db k = Some i" and "pj_id (f i) = k" and "job_ok (f i)"
    and "pp_jobs db' = pp_jobs (set_job k f db)"
  shows "prov_inv db'"
proof -
  have f: "f j = f i" if "j \<in> set (pp_jobs db)" "pj_id j = k" for j
    using job_unique [OF assms(1,2) that] by simp
  have "map pj_id (pp_jobs db') = map pj_id (pp_jobs db)"
    using f assms(3,5) by (auto simp: update_rows_def)
  moreover have "\<forall>j \<in> set (pp_jobs db'). job_ok j"
    using f assms(1,4,5) by (auto simp: set_update_rows prov_inv_def)
  ultimately show ?thesis using assms(1) by (simp add: prov_inv_def)
qed

lemma set_job_grows:
  assumes "prov_inv db" and "get_job db k = Some i" and "job_le i (f i)" and "job_ok (f i)"
    and "pp_jobs db' = pp_jobs (set_job k f db)"
  shows "prov_grows db db'"
proof -
  have "pj_id (f i) = k" using assms(3) get_job_Some [OF assms(2)] by (simp add: job_le_def)
  moreover have "grows job_le (pp_jobs db) (pp_jobs db')"
    unfolding assms(5) set_job_jobs
    by (rule job_order.grows_update) (use job_unique [OF assms(1,2)] assms(3) in blast)
  ultimately show ?thesis using set_job_inv [OF assms(1,2) _ assms(4,5)] by (simp add: prov_grows_def)
qed

lemma get_set_job:
  assumes "\<And>j. pj_id (f j) = pj_id j"
  shows "get_job (set_job k f db) k' = map_option (\<lambda>j. if pj_id j = k then f j else j) (get_job db k')"
  unfolding get_job_def set_job_jobs by (rule find_update_rows) (rule assms)

lemma get_job_set_mapping [simp]: "get_job (set_mapping tid f db) k = get_job db k"
  by (simp add: get_job_def)

lemma recover_fold_grows:
  assumes "prov_inv db" and "\<forall>r \<in> set rows. \<exists>j. get_job db (pj_id r) = Some j \<and> pj_attempts j = pj_attempts r"
  shows "prov_grows db (fold (recover_job t) rows db)"
  using assms
proof (induction rows arbitrary: db)
  case (Cons r rows)
  obtain j where j: "get_job db (pj_id r) = Some j" "pj_attempts j = pj_attempts r"
    using Cons.prems(2) by auto
  let ?f = "\<lambda>j. j\<lparr>pj_state := expired_state r, pj_available_at := backoff t (pj_attempts r),
      pj_lease_owner := None, pj_lease_expires_at := None, pj_last_error := Some ''lease_expired''\<rparr>"
  have ok: "job_ok j" using get_job_Some [OF j(1)] Cons.prems(1) by (simp add: prov_inv_def)
  have one: "prov_grows db (recover_job t r db)"
    by (rule set_job_grows [OF Cons.prems(1) j(1), of ?f])
       (use ok j(2) in \<open>auto simp: recover_job_def job_le_def job_ok_def expired_state_def CLAIMABLE_def\<close>)
  have get: "get_job (recover_job t r db) k = map_option (\<lambda>j. if pj_id j = pj_id r then ?f j else j) (get_job db k)" for k
    unfolding recover_job_def get_job_set_mapping by (rule get_set_job) simp
  have "\<exists>j'. get_job (recover_job t r db) (pj_id r') = Some j' \<and> pj_attempts j' = pj_attempts r'"
    if r': "r' \<in> set rows" for r'
  proof -
    obtain i where "get_job db (pj_id r') = Some i" "pj_attempts i = pj_attempts r'"
      using r' Cons.prems(2) by auto
    then show ?thesis unfolding get by simp
  qed
  then have "prov_grows (recover_job t r db) (fold (recover_job t) rows (recover_job t r db))"
    using Cons.IH one by (simp add: prov_grows_def)
  then show ?case using prov_grows_trans [OF one] by simp
qed (simp add: prov_grows_refl)

lemma recover_expired_jobs_grows:
  "prov_inv db \<Longrightarrow> prov_grows db (recover_expired_jobs t db)"
  unfolding recover_expired_jobs_def by (rule recover_fold_grows) (auto simp: get_job_in)

text \<open>A claim recovers the expired jobs, then starts one that is due and has attempts left.\<close>

lemma claim_job_cases:
  assumes "claim_job t locked w db = (c, db')"
  obtains (idle) "c = None" "db' = recover_expired_jobs t db"
  | (taken) item where "item \<in> set (pp_jobs (recover_expired_jobs t db))" "claimable_job t locked item"
      "c = Some (pj_id item, pj_tenant_id item)"
      "pp_jobs db' = pp_jobs (set_job (pj_id item) (start_job t w) (recover_expired_jobs t db))"
proof (cases "select_rows pj_created_at (claimable_job t locked) 1 (pp_jobs (recover_expired_jobs t db))")
  case Nil
  then show thesis using assms idle by (simp add: claim_job_def)
next
  case (Cons item rest)
  then have "item \<in> set (pp_jobs (recover_expired_jobs t db)) \<and> claimable_job t locked item"
    by (intro select_rows_in [of _ pj_created_at _ 1]) simp
  then show thesis using assms Cons
    by (intro taken [of item]) (auto simp: claim_job_def Let_def split: option.splits)
qed

lemma started_job:
  assumes "prov_inv db" and "claim_job t locked w db = (c, db')"
  shows "prov_grows db db'"
    and "c = Some (k, tid) \<Longrightarrow> \<exists>j. get_job db' k = Some j \<and>
           (\<forall>i. get_job db k = Some i \<longrightarrow> pj_attempts i < pj_attempts j) \<and> 0 < pj_attempts j"
proof -
  note rec = recover_expired_jobs_grows [OF assms(1), of t]
  have inv1: "prov_inv (recover_expired_jobs t db)" using rec by (simp add: prov_grows_def)
  have "prov_grows db db' \<and> (c = Some (k, tid) \<longrightarrow> (\<exists>j. get_job db' k = Some j \<and>
           (\<forall>i. get_job db k = Some i \<longrightarrow> pj_attempts i < pj_attempts j) \<and> 0 < pj_attempts j))"
    using assms(2)
  proof (cases rule: claim_job_cases)
    case idle
    then show ?thesis using rec by simp
  next
    case (taken item)
    note item = get_job_in [OF inv1 taken(1)]
    have ok: "job_ok item" using taken(1) inv1 by (simp add: prov_inv_def)
    have g: "prov_grows (recover_expired_jobs t db) db'"
      by (rule set_job_grows [OF inv1 item _ _ taken(4)])
        (use ok taken(2) in \<open>auto simp: job_le_def job_ok_def start_job_def claimable_job_def CLAIMABLE_def\<close>)
    have "get_job db' (pj_id item) = Some (start_job t w item)"
      using get_set_job [of "start_job t w" "pj_id item" "recover_expired_jobs t db" "pj_id item"] item taken(4)
      by (simp add: get_job_def start_job_def)
    moreover have "pj_attempts i \<le> pj_attempts item" if "get_job db (pj_id item) = Some i" for i
      using job_order.grows_find [of "pp_jobs db" "pp_jobs (recover_expired_jobs t db)" "pj_id item" i]
        rec that item by (auto simp: prov_grows_def get_job_def job_le_def)
    ultimately show ?thesis using prov_grows_trans [OF rec g] taken(3) ok
      by (fastforce simp: start_job_def job_ok_def)
  qed
  then show "prov_grows db db'" and "c = Some (k, tid) \<Longrightarrow> \<exists>j. get_job db' k = Some j \<and>
           (\<forall>i. get_job db k = Some i \<longrightarrow> pj_attempts i < pj_attempts j) \<and> 0 < pj_attempts j"
    by blast+
qed

lemma request_job_grows:
  assumes "prov_inv db"
  shows "enqueue_postal_provisioning t fresh tid db = Inr (j, db') \<Longrightarrow> prov_grows db db'"
proof -
  have ensure: "prov_grows db db'" if "ensure_job t fresh tid db = Inr (j, db')" for j db'
  proof -
    have "pp_jobs db' = pp_jobs db \<or>
        pp_jobs db' = pp_jobs db @ [fresh_job t fresh tid (''postal-tenant:'' @ tid @ '':v1'')] \<and>
        get_job db fresh = None"
      using that
      by (auto simp: ensure_job_def Let_def get_job_def split: option.splits if_splits)
    then show ?thesis
    proof
      assume "pp_jobs db' = pp_jobs db"
      then show ?thesis using prov_grows_same [OF prov_grows_refl [OF assms]] by simp
    next
      assume new: "pp_jobs db' = pp_jobs db @ [fresh_job t fresh tid (''postal-tenant:'' @ tid @ '':v1'')] \<and>
        get_job db fresh = None"
      then have "fresh \<notin> pj_id ` set (pp_jobs db)"
        unfolding get_job_def find_row_None by auto
      then have "prov_inv db'" using new assms
        by (auto simp: prov_inv_def fresh_job_def job_ok_def PROVISION_MAX_ATTEMPTS_def)
      then show ?thesis using new job_order.grows_append by (simp add: prov_grows_def)
    qed
  qed
  show "enqueue_postal_provisioning t fresh tid db = Inr (j, db') \<Longrightarrow> prov_grows db db'"
    using ensure prov_grows_refl [OF assms]
    by (auto simp: enqueue_postal_provisioning_def split: if_splits option.splits bool.splits)
qed

lemma retry_inv:
  assumes "prov_inv db" and "retry_provisioning t fresh tid db = Inr db'"
  shows "prov_inv db'"
proof (cases "latest_job db tid")
  case None
  then show ?thesis using assms request_job_grows [OF assms(1), of t fresh tid]
    by (auto simp: retry_provisioning_def res_bind_Inr prov_grows_def)
next
  case (Some job)
  then have "job \<in> set (pp_jobs db)"
    using select_rows_in [of job "\<lambda>j. - pj_created_at j" "\<lambda>j. pj_tenant_id j = tid" 1 "pp_jobs db"]
    by (auto simp: latest_job_def split: list.splits)
  then have "get_job db (pj_id job) = Some job" using assms(1) by (intro get_job_in)
  then show ?thesis
    by (rule set_job_inv [OF assms(1), of _ _ "reset_job t"])
       (use assms(2) Some in \<open>auto simp: retry_provisioning_def reset_job_def job_ok_def PROVISION_MAX_ATTEMPTS_def\<close>)
qed

lemma finish_grows:
  assumes "prov_inv db"
  shows "finish_success repr_of vt pkey nonce t snapshot result db = Inr (n, db') \<Longrightarrow> prov_grows db db'"
    and "prov_grows db (finish_failure t snapshot f db)"
proof -
  show "prov_grows db db'" if s: "finish_success repr_of vt pkey nonce t snapshot result db = Inr (n, db')"
  proof (cases "db' = db")
    case True
    then show ?thesis using prov_grows_refl [OF assms] by simp
  next
    case False
    then obtain item where item: "get_job db (fst snapshot) = Some item"
      and jobs: "pp_jobs db' = pp_jobs (set_job (fst snapshot) (\<lambda>j. j\<lparr>pj_state := READY,
        pj_last_error := None, pj_lease_owner := None, pj_lease_expires_at := None,
        pj_completed_at := Some t, pj_updated_at := t\<rparr>) db)"
      using s by (auto simp: finish_success_def Let_def res_bind_Inr split: option.splits if_splits)
    have "job_ok item" using get_job_Some [OF item] assms by (simp add: prov_inv_def)
    then show ?thesis
      by (intro set_job_grows [OF assms item _ _ jobs]) (auto simp: job_le_def job_ok_def READY_def CLAIMABLE_def)
  qed
  show "prov_grows db (finish_failure t snapshot f db)"
  proof (cases "get_job db (fst snapshot)")
    case None
    then show ?thesis using prov_grows_refl [OF assms] by (simp add: finish_failure_def)
  next
    case (Some item)
    let ?f = "\<lambda>j. j\<lparr>pj_state := failure_state f item, pj_last_error := Some (failure_name f),
        pj_available_at := backoff t (pj_attempts item), pj_lease_owner := None,
        pj_lease_expires_at := None, pj_updated_at := t\<rparr>"
    have "job_ok item" using get_job_Some [OF Some] assms by (simp add: prov_inv_def)
    then show ?thesis
      by (intro set_job_grows [OF assms Some, of ?f])
         (auto simp: finish_failure_def Some job_le_def job_ok_def failure_state_def CLAIMABLE_def)
  qed
qed

fun is_retry :: "prov_op \<Rightarrow> bool" where
  "is_retry (OpRetry _ _ _) = True"
| "is_retry _ = False"

lemma prov_step_grows:
  assumes "prov_inv db" and "\<not> is_retry op"
  shows "prov_grows db (prov_step op db)"
proof (cases op)
  case (OpEnqueue t fresh tid)
  then show ?thesis using request_job_grows [OF assms(1)] prov_grows_refl [OF assms(1)]
    by (cases "enqueue_postal_provisioning t fresh tid db") (auto simp: committed_or_def)
next
  case (OpRetry t fresh tid)
  then show ?thesis using assms(2) by simp
next
  case (OpClaimJob t locked w)
  then show ?thesis using started_job(1) [OF assms(1)] by (cases "claim_job t locked w db") auto
next
  case (OpFinishSuccess repr_of vt pkey nonce t snapshot result)
  then show ?thesis
    using finish_grows(1) [OF assms(1), of repr_of vt pkey nonce t snapshot result] prov_grows_refl [OF assms(1)]
    by (cases "finish_success repr_of vt pkey nonce t snapshot result db") (auto simp: committed_or_def)
next
  case (OpFinishFailure t snapshot f)
  then show ?thesis using finish_grows(2) [OF assms(1)] by simp
qed

interpretation prov: step_system prov_step prov_inv
proof
  fix db op assume "prov_inv db"
  then show "prov_inv (prov_step op db)"
    using prov_step_grows [of db op] retry_inv [of db]
    by (cases op) (auto simp: prov_grows_def committed_or_def split: sum.split)
qed

text \<open>How many times a run starts the job \<open>k\<close>.\<close>

fun starts :: "string \<Rightarrow> prov_op \<Rightarrow> postal_db \<Rightarrow> nat" where
  "starts k (OpClaimJob t locked w) db =
     (case fst (claim_job t locked w db) of Some (i, _) \<Rightarrow> if i = k then 1 else 0 | None \<Rightarrow> 0)"
| "starts k _ db = 0"

fun total_starts :: "string \<Rightarrow> prov_op list \<Rightarrow> postal_db \<Rightarrow> nat" where
  "total_starts k [] db = 0"
| "total_starts k (op # ops) db = starts k op db + total_starts k ops (prov_step op db)"

definition spent :: "postal_db \<Rightarrow> string \<Rightarrow> int" where
  "spent db k = (case get_job db k of None \<Rightarrow> 0 | Some j \<Rightarrow> pj_attempts j)"

lemma spent_bounds: "prov_inv db \<Longrightarrow> 0 \<le> spent db k \<and> spent db k \<le> 8"
  using get_job_Some [of db k]
  by (auto simp: spent_def prov_inv_def job_ok_def PROVISION_MAX_ATTEMPTS_def split: option.splits)

lemma spent_mono: "prov_inv db \<Longrightarrow> prov_grows db db' \<Longrightarrow> spent db k \<le> spent db' k"
  using job_order.grows_find [of "pp_jobs db" "pp_jobs db'" k] spent_bounds [of db' k]
  by (fastforce simp: spent_def get_job_def prov_grows_def job_le_def split: option.splits)

lemma spent_step:
  assumes "prov_inv db" and "\<not> is_retry op"
  shows "spent db k + int (starts k op db) \<le> spent (prov_step op db) k"
proof (cases "starts k op db = 0")
  case True
  then show ?thesis using spent_mono [OF assms(1) prov_step_grows [OF assms]] by simp
next
  case False
  then obtain t locked w tid where op: "op = OpClaimJob t locked w"
      "fst (claim_job t locked w db) = Some (k, tid)"
    by (cases "(k, op, db)" rule: starts.cases) (auto split: option.splits if_splits)
  then obtain db' where c: "claim_job t locked w db = (Some (k, tid), db')" by (metis eq_fst_iff)
  show ?thesis using started_job(2) [OF assms(1) c refl] op c
    by (auto simp: spent_def split: option.splits)
qed

lemma total_starts_bound:
  assumes "prov_inv db" and "list_all (\<lambda>op. \<not> is_retry op) ops"
  shows "spent db k + int (total_starts k ops db) \<le> 8"
  using assms
proof (induction ops arbitrary: db)
  case (Cons op ops)
  then have "spent (prov_step op db) k + int (total_starts k ops (prov_step op db)) \<le> 8"
    using prov.inv_step by simp
  then show ?case using spent_step [of db op k] Cons.prems by simp
qed (use spent_bounds in simp)

section \<open>Properties\<close>

text \<open>
  After a reconciliation of live domains that returns, every requested domain sends with the key
  that the bridge returned for exactly that domain with mode Live, decrypted from what was stored,
  and with no other; the credentials of other tenants and other domains, the mappings and the jobs
  are as before.
\<close>

theorem reconciled_domain_key:
  assumes "vault_laws vt" and "\<forall>i. length (snd (draws i)) = 12"
    and "reconcile_live_domain_credentials repr_of vt pkey t draws fl e bridge tid domains db =
      Inr ((expected, fingerprints), db')"
    and "d \<in> set domains" and "d \<noteq> []"
  shows "(\<exists>kvs key. call_live_domain_bridge fl e bridge tid (sort (remdups (map lower domains))) = Inr (JObj kvs) \<and>
      (\<exists>items item. obj_get kvs ''domains'' = JList items \<and> JObj item \<in> set items \<and>
         lower (text_of repr_of item ''domain'') = lower d \<and> text_of repr_of item ''mode'' = ''Live'' \<and>
         text_of repr_of item ''api_key'' = key) \<and>
      20 \<le> length key \<and> tenant_postal_api_key vt pkey fl2 e2 db' tid d = Inr key) \<and>
    foreign_credentials tid (map lower domains) db' = foreign_credentials tid (map lower domains) db \<and>
    pp_mappings db' = pp_mappings db \<and> pp_jobs db' = pp_jobs db"
proof -
  let ?ds = "map lower domains"
  obtain reply where bridge: "call_live_domain_bridge fl e bridge tid (sort (remdups ?ds)) = Inr reply"
      and "reconcile_reply repr_of vt pkey t draws tid (sort (remdups ?ds)) reply db = Inr ((expected, fingerprints), db')"
    using assms(3) by (auto simp: reconcile_live_domain_credentials_def Let_def split: sum.splits)
  from this(2) obtain items vs where v: "json_obj reply \<noteq> None"
      "obj_get (the (json_obj reply)) ''domains'' = JList items" "validated_items repr_of items = Inr vs"
      "lv_domain ` set vs = set ?ds" "distinct (map lv_domain vs)"
      "upsert_credentials vt pkey t draws tid vs db = Inr (fingerprints, db')"
    by (rule reconcile_reply_Inr)
  obtain kvs where kvs: "reply = JObj kvs" using v(1) by (cases reply) auto
  have "lower d \<in> lv_domain ` set vs" using v(4) assms(4) by simp
  then obtain c where c: "c \<in> set vs" "lv_domain c = lower d" by auto
  have items: "\<forall>v \<in> set vs. \<exists>item \<in> set items. validated_item repr_of item = Inr v"
    using validated_items_Inr [OF v(3)] by blast
  then have "\<forall>v \<in> set vs. lv_mode v = ''Live''" using validated_item_Inr by blast
  note eff = upsert_credentials_effect [OF v(6) this v(5)]
  obtain item where item: "JObj item \<in> set items" "lower (text_of repr_of item ''domain'') = lower d"
      "text_of repr_of item ''mode'' = ''Live''" "text_of repr_of item ''api_key'' = lv_key c" "20 \<le> length (lv_key c)"
    using items c validated_item_Inr by metis
  obtain i ct where "encrypt_provider_secret vt pkey (snd (draws i)) (lv_key c) = Inr ct"
      "holds_live db' tid (lower d) ct"
    using eff c by metis
  then have "tenant_postal_api_key vt pkey fl2 e2 db' tid d = Inr (lv_key c)"
    by (rule key_of_held_domain [OF assms(1,2,5)])
  then show ?thesis using bridge kvs v(2,4) item eff by auto
qed

text \<open>
  C34. In production a send with a sender domain gets a key only from the READY credential, in mode
  Live, of the same tenant and the same domain; there is no fallback to the tenant's development
  server, to another tenant or to the global key.
\<close>

theorem live_key_is_own:
  assumes "production e" and "sender_domain \<noteq> []"
    and "tenant_postal_api_key vt pkey fl e db tid sender_domain = Inr key"
  shows "\<exists>c \<in> set (pp_credentials db). pd_tenant_id c = tid \<and> pd_domain c = lower sender_domain \<and>
    pd_state c = READY \<and> pd_provider_mode c = ''Live'' \<and>
    decrypt_provider_secret vt pkey (pd_api_key_ciphertext c) = Inr key"
proof -
  obtain c where c: "live_credential_of db tid sender_domain = Some c"
      "decrypt_provider_secret vt pkey (pd_api_key_ciphertext c) = Inr key"
    using assms by (auto simp: tenant_postal_api_key_def Let_def split: option.splits if_splits)
  show ?thesis using find_row_Some [OF c(1) [unfolded live_credential_of_def]] c(2)
    by (auto simp: owns_domain_def)
qed

text \<open>
  Whatever the interleaving of workers, lease recoveries, outcome reports and requests, a
  provisioning job is started at most eight times unless an operator retries it, less the attempts
  it has already used.
\<close>

theorem provisioning_attempts_bounded:
  assumes "prov_inv db" and "list_all (\<lambda>op. \<not> is_retry op) ops"
  shows "int (total_starts k ops db) \<le> PROVISION_MAX_ATTEMPTS - spent db k"
  using total_starts_bound [OF assms, of k] by (simp add: PROVISION_MAX_ATTEMPTS_def)

text \<open>
  The failure report is not fenced. When the lease of an attempt has run out and another worker
  has completed the job, the late failure of the first attempt takes the tenant's mapping out of
  READY all the same, and a send without a sender domain, which uses the tenant's shared server, is
  refused although its credential is still stored; the success report in the same situation changes
  nothing.
\<close>

theorem stale_failure_clobbers_ready:
  assumes "get_job db k = Some j" and "pj_state j = READY"
    and "get_mapping db (pj_tenant_id j) = Some m" and "pt_state m = READY"
    and "legacy_key fl e = Inr None"
  shows "(\<exists>m'. get_mapping (finish_failure t (k, tid) f db) (pj_tenant_id j) = Some m' \<and>
      pt_state m' \<in> {''BLOCKED'', ''RETRYABLE_FAILURE''} \<and>
      pt_api_key_ciphertext m' = pt_api_key_ciphertext m) \<and>
    tenant_postal_api_key vt pkey fl e (finish_failure t (k, tid) f db) (pj_tenant_id j) [] =
      Inl (RuntimeError ''postal tenant is not provisioned'') \<and>
    (\<forall>repr_of nonce result. finish_success repr_of vt pkey nonce t (k, tid) result db = Inr (0, db))"
proof -
  let ?f = "\<lambda>m. m\<lparr>pt_state := failure_state f j, pt_last_error := Some (failure_name f), pt_updated_at := t\<rparr>"
  have state: "failure_state f j \<in> {''BLOCKED'', ''RETRYABLE_FAILURE''}" by (simp add: failure_state_def)
  have m': "get_mapping (finish_failure t (k, tid) f db) (pj_tenant_id j) = Some (?f m)"
    using find_update_first [OF assms(3) [unfolded get_mapping_def], of ?f]
      find_row_Some [OF assms(3) [unfolded get_mapping_def]] assms(1)
    by (simp add: finish_failure_def get_mapping_def set_mapping_def)
  moreover have "pt_state (?f m) \<noteq> READY" using state by (auto simp: READY_def)
  ultimately have "tenant_postal_api_key vt pkey fl e (finish_failure t (k, tid) f db) (pj_tenant_id j) [] =
      Inl (RuntimeError ''postal tenant is not provisioned'')"
    using assms(5) by (simp add: tenant_postal_api_key_def Let_def)
  then show ?thesis using m' state assms(1,2)
    by (auto simp: finish_success_def READY_def split: option.splits)
qed

section \<open>Instances\<close>

text \<open>Ciphers that do nothing, one tenant, and a bridge that answers for one domain.\<close>

definition plain_vault :: vault where
  "plain_vault = \<lparr>vt_encrypt = (\<lambda>k n v. v), vt_decrypt = (\<lambda>k n v. Some v), vt_b64encode = (\<lambda>x. x),
     vt_b64decode = Some, vt_sha256 = (\<lambda>x. x), vt_sha256_hex = (\<lambda>x. x)\<rparr>"

definition plain_draws :: "nat \<Rightarrow> string \<times> string" where
  "plain_draws i = (''c1'', ''twelve-bytes'')"

definition token_files :: files where
  "token_files = \<lparr>fl_text = (\<lambda>_. Some ''0123456789abcdef0123456789abcdef''), fl_symlink = (\<lambda>_. False)\<rparr>"

definition token_env :: env where
  "token_env = env_of [(''KLYROW_POSTAL_PROVISIONER_TOKEN_FILE'', ''/run/token''), (''KLYROW_ENV'', ''production'')]"

definition one_domain :: live_bridge where
  "one_domain token tid domains = Inr (JObj [(''domains'', JList [JObj [(''domain'', JStr ''a.org''),
     (''server_id'', JStr ''s1''), (''mode'', JStr ''Live''), (''api_key'', JStr ''key-of-twenty-letters'')]])])"

definition provision_tenant :: tenant_row where
  "provision_tenant = \<lparr>tn_id = ''t1'', tn_name = ''T'', tn_enabled = True, tn_quota = 0\<rparr>"

definition provision_sample :: postal_db where
  "provision_sample = \<lparr>pp_tenants = [provision_tenant], pp_mappings = [fresh_mapping 0 ''t1''],
     pp_credentials = [], pp_jobs = [fresh_job 0 ''j1'' ''t1'' ''postal-tenant:t1:v1'']\<rparr>"

text \<open>A first worker loses its lease; the second completes the job; then the first one fails.\<close>

definition completed_twice :: postal_db where
  "completed_twice = run_ops prov_step
     [OpClaimJob 0 (\<lambda>_. False) ''w1'', OpClaimJob 61000000 (\<lambda>_. False) ''w2'',
      OpClaimJob 64000000 (\<lambda>_. False) ''w2'',
      OpFinishSuccess (\<lambda>_. []) plain_vault (Inr ''k'') ''twelve-bytes'' 65000000 (''j1'', ''t1'')
        [(''organization_id'', JStr ''o1''), (''server_id'', JStr ''s1''), (''api_key'', JStr ''key'')]]
     provision_sample"

lemma completed_twice_rows:
  "(case get_job completed_twice ''j1'' of Some j \<Rightarrow> pj_state j = READY \<and> pj_tenant_id j = ''t1'' | None \<Rightarrow> False)"
  "(case get_mapping completed_twice ''t1'' of Some m \<Rightarrow> pt_state m = READY | None \<Rightarrow> False)"
  by code_simp+

theorem reconciled_domain_key_witness:
  "\<exists>db' :: postal_db. reconcile_live_domain_credentials (\<lambda>_. []) plain_vault (Inr ''k'') 5 plain_draws
      token_files token_env one_domain ''t1'' [''A.org''] provision_sample =
      Inr (([''a.org''], [(''a.org'', ''sha256:key-of-twenty-letter'')]), db') \<and>
    tenant_postal_api_key plain_vault (Inr ''k'') token_files token_env db' ''t1'' ''A.org'' = Inr ''key-of-twenty-letters''"
proof -
  let ?r = "reconcile_live_domain_credentials (\<lambda>_. []) plain_vault (Inr ''k'') 5 plain_draws
      token_files token_env one_domain ''t1'' [''A.org''] provision_sample"
  have "(case ?r of Inl _ \<Rightarrow> False | Inr ((expected, fingerprints), db') \<Rightarrow>
      expected = [''a.org''] \<and> fingerprints = [(''a.org'', ''sha256:key-of-twenty-letter'')])"
    by code_simp
  then obtain db' where r: "?r = Inr (([''a.org''], [(''a.org'', ''sha256:key-of-twenty-letter'')]), db')"
    by (auto split: sum.splits)
  have "vault_laws plain_vault" "\<forall>i. length (snd (plain_draws i)) = 12"
    by (simp_all add: vault_laws_def plain_vault_def plain_draws_def)
  from reconciled_domain_key [OF this r, of "''A.org''" token_files token_env]
  obtain kvs key items item where
      "call_live_domain_bridge token_files token_env one_domain ''t1'' (sort (remdups (map lower [''A.org'']))) = Inr (JObj kvs)"
      "obj_get kvs ''domains'' = JList items" "JObj item \<in> set items"
      "text_of (\<lambda>_. []) item ''api_key'' = key"
      "tenant_postal_api_key plain_vault (Inr ''k'') token_files token_env db' ''t1'' ''A.org'' = Inr key"
    by auto
  moreover have "bridge_token token_files token_env = Inr ''0123456789abcdef0123456789abcdef''" by code_simp
  ultimately have "key = ''key-of-twenty-letters''"
    by (auto simp: call_live_domain_bridge_def one_domain_def obj_get_def text_of_def json_or_def)
  then show ?thesis using r \<open>tenant_postal_api_key _ _ _ _ _ _ _ = Inr key\<close> by blast
qed

definition live_sample :: postal_db where
  "live_sample =
     (let v = \<lparr>lv_domain = ''a.org'', lv_server_id = ''s1'', lv_server_permalink = ''s1'', lv_mode = ''Live'',
               lv_key = ''key''\<rparr>
      in provision_sample\<lparr>pp_credentials :=
           [live_row 5 v ''twelve-byteskey'' ''f'' (fresh_credential 5 ''c1'' ''t1'' v)]\<rparr>)"

theorem live_key_is_own_witness:
  "\<exists>c \<in> set (pp_credentials live_sample). pd_tenant_id c = ''t1'' \<and> pd_domain c = lower ''A.org'' \<and>
    pd_state c = READY \<and> pd_provider_mode c = ''Live'' \<and>
    decrypt_provider_secret plain_vault (Inr ''k'') (pd_api_key_ciphertext c) = Inr ''key''"
proof -
  have "production token_env" by code_simp
  moreover have "tenant_postal_api_key plain_vault (Inr ''k'') token_files token_env live_sample ''t1'' ''A.org'' =
      Inr ''key''"
    by code_simp
  ultimately show ?thesis by (intro live_key_is_own) simp_all
qed

theorem provisioning_attempts_bounded_witness:
  "int (total_starts ''j1'' [OpClaimJob 0 (\<lambda>_. False) ''w1'', OpClaimJob 61000000 (\<lambda>_. False) ''w2'']
     provision_sample) \<le> 8"
proof -
  have i: "prov_inv provision_sample"
    by (simp add: prov_inv_def provision_sample_def job_ok_def fresh_job_def PROVISION_MAX_ATTEMPTS_def)
  have "spent provision_sample ''j1'' = 0" by code_simp
  then show ?thesis
    using provisioning_attempts_bounded [OF i, of "[OpClaimJob 0 (\<lambda>_. False) ''w1'', OpClaimJob 61000000 (\<lambda>_. False) ''w2'']" "''j1''"]
    by (simp add: PROVISION_MAX_ATTEMPTS_def del: total_starts.simps)
qed

theorem stale_failure_clobbers_ready_witness:
  "tenant_postal_api_key plain_vault (Inr ''k'') token_files (env_of []) completed_twice ''t1'' [] = Inr ''key'' \<and>
   tenant_postal_api_key plain_vault (Inr ''k'') token_files (env_of [])
     (finish_failure 66000000 (''j1'', ''t1'') (StatusError 502) completed_twice) ''t1'' [] =
     Inl (RuntimeError ''postal tenant is not provisioned'')"
proof -
  obtain j where j: "get_job completed_twice ''j1'' = Some j" "pj_state j = READY" "pj_tenant_id j = ''t1''"
    using completed_twice_rows(1) by (auto split: option.splits)
  obtain m where m: "get_mapping completed_twice (pj_tenant_id j) = Some m" "pt_state m = READY"
    using completed_twice_rows(2) j(3) by (auto split: option.splits)
  have legacy: "legacy_key token_files (env_of []) = Inr None" by code_simp
  have before: "tenant_postal_api_key plain_vault (Inr ''k'') token_files (env_of []) completed_twice ''t1'' [] = Inr ''key''"
    by code_simp
  from stale_failure_clobbers_ready [OF j(1,2) m legacy, of 66000000 "''t1''" "StatusError 502" plain_vault "Inr ''k''"]
  show ?thesis using before j(3) by simp
qed

end
