(* ===== verification/CoreMail.thy ===== *)
theory CoreMail
  imports Guards BusinessEvents
begin

text \<open>
  The mail side of \<open>main.py\<close> that intake, delivery and commands share: the rows of the core message
  queue, the canonical message status, the canary policies with their delivery gates, and the
  lifecycle event of a message. A function that may raise after it has changed the session returns
  its result and the changed state: whether the change is rolled back or committed is the caller's
  decision. The \<open>codec\<close> of the business events gives SHA-256, ISO instants and the compact sorted
  JSON text; \<open>uuid5\<close> is the name-based identifier in the URL namespace.
\<close>

section \<open>State\<close>

record gate_row =
  ga_gate_key :: string
  ga_reserved_deliveries :: int
  ga_claimed_deliveries :: int
  ga_updated_at :: int

record mail_event_row =
  me_id :: string
  me_tenant_id :: string
  me_message_id :: string
  me_kind :: string
  me_payload :: jtext

record webmail_row =
  wm_id :: string
  wm_tenant_id :: string
  wm_outbound_message_id :: "string option"
  wm_delivery_status :: "string option"
  wm_updated_at :: int

text \<open>The tables the guards read, with those that intake and delivery change.\<close>

record mail_db = guard_db +
  ml_outbox :: "email_outbox_row list"
  ml_gates :: "gate_row list"
  ml_events :: "mail_event_row list"
  ml_lifecycle :: "provider_event_row list"
  ml_business :: "event_row list"
  ml_webmail :: "webmail_row list"

section \<open>Message status\<close>

definition CANONICAL_SMTP_STATUSES :: "string list" where
  "CANONICAL_SMTP_STATUSES =
     [''accepted'', ''queued'', ''processing'', ''submitted'', ''provider_accepted'', ''delivered'',
      ''deferred'', ''bounced'', ''complained'', ''rejected'', ''suppressed'', ''failed'', ''cancelled'',
      ''unknown_outcome'', ''indeterminate'']"

definition set_core_message_status :: "core_message_row \<Rightarrow> string \<Rightarrow> core_message_row res" where
  "set_core_message_status message v =
     (if v \<notin> set CANONICAL_SMTP_STATUSES then Inl (RuntimeError ''noncanonical_message_status'')
      else Inr (message\<lparr>cm_status := v\<rparr>))"

definition get_message :: "mail_db \<Rightarrow> string \<Rightarrow> core_message_row option" where
  "get_message db mid = find_row (\<lambda>m. cm_id m = mid) (gd_messages db)"

text \<open>\<open>message = session.get(Message, mid)\<close>, then the status when there is one.\<close>

definition mark_message :: "string \<Rightarrow> string \<Rightarrow> mail_db \<Rightarrow> mail_db res" where
  "mark_message mid v db =
     (case get_message db mid of
        None \<Rightarrow> Inr db
      | Some m \<Rightarrow> res_bind (set_core_message_status m v) (\<lambda>m'.
          Inr (db\<lparr>gd_messages := update_rows (\<lambda>r. cm_id r = mid) (\<lambda>_. m') (gd_messages db)\<rparr>)))"

section \<open>Canary policies\<close>

definition canary_configuration :: "env \<Rightarrow> string \<times> string \<times> string \<times> int" where
  "canary_configuration e =
     (lower (env_get e ''KLYROW_CANARY_ALLOWED_DOMAIN'' []),
      lower (env_get e ''KLYROW_CANARY_ALLOWED_SENDER'' []),
      lower (env_get e ''KLYROW_CANARY_ALLOWED_RECIPIENT'' []),
      (case int_of_string (env_get e ''KLYROW_CANARY_MAX_DELIVERIES'' ''0'') of
         None \<Rightarrow> -1 | Some n \<Rightarrow> n))"

definition canary_gate_key :: "env \<Rightarrow> string" where
  "canary_gate_key e = env_get e ''KLYROW_CANARY_GATE_KEY'' ''klyrow-single-domain''"

definition canary_configuration_valid :: "env \<Rightarrow> bool" where
  "canary_configuration_valid e \<longleftrightarrow>
     (case canary_configuration e of (domain, sender, recipient, maximum) \<Rightarrow>
        domain \<noteq> [] \<and> sender \<noteq> [] \<and> recipient \<noteq> [] \<and> maximum = 1 \<and> ends_with (CHR ''@'' # domain) sender)"

definition campaign_execution_mode :: "env \<Rightarrow> string" where
  "campaign_execution_mode e =
     (let mode = upper (env_get e ''KLYROW_CAMPAIGN_EXECUTION_MODE'' ''CAMPAIGN_EXECUTION_DISABLED'')
      in if mode \<notin> {''CAMPAIGN_EXECUTION_DISABLED'', ''CAMPAIGN_CANARY_ONLY'', ''CAMPAIGN_PRODUCTION_ENABLED''}
         then ''CAMPAIGN_EXECUTION_DISABLED'' else mode)"

definition campaign_maximum :: "env \<Rightarrow> int option" where
  "campaign_maximum e = int_of_string (env_get e ''KLYROW_CAMPAIGN_CANARY_MAX_RECIPIENTS'' ''1'')"

definition campaign_recipients :: "env \<Rightarrow> string list" where
  "campaign_recipients e =
     remdups (map (\<lambda>v. lower (strip v))
       (filter (\<lambda>v. strip v \<noteq> []) (split_on (CHR '','') (env_get e ''KLYROW_CAMPAIGN_CANARY_RECIPIENTS'' []))))"

section \<open>What a client asks for\<close>

text \<open>\<open>MailIn\<close> after validation.\<close>

record core_mail =
  xm_customer_id :: "string option"
  xm_to :: string
  xm_sender :: string
  xm_reply_to :: "string option"
  xm_subject :: string
  xm_html :: string
  xm_text :: "string option"
  xm_template_id :: "string option"
  xm_campaign_id :: "string option"
  xm_tags :: "string list"
  xm_tracking :: "(string \<times> json) list"
  xm_callback_metadata :: "(string \<times> json) list"
  xm_headers :: "(string \<times> string) list"
  xm_stream :: string
  xm_topic :: string

definition find_gate :: "string \<Rightarrow> gate_row list \<Rightarrow> gate_row option" where
  "find_gate k gates = find_row (\<lambda>g. ga_gate_key g = k) gates"

definition update_gate :: "string \<Rightarrow> (gate_row \<Rightarrow> gate_row) \<Rightarrow> gate_row list \<Rightarrow> gate_row list" where
  "update_gate k f gates = update_rows (\<lambda>g. ga_gate_key g = k) f gates"

definition reserve :: "int \<Rightarrow> gate_row \<Rightarrow> gate_row" where
  "reserve t g = g\<lparr>ga_reserved_deliveries := ga_reserved_deliveries g + 1, ga_updated_at := t\<rparr>"

definition enforce_campaign_canary ::
  "env \<Rightarrow> int \<Rightarrow> string \<Rightarrow> core_mail \<Rightarrow> gate_row list \<Rightarrow> unit res \<times> gate_row list" where
  "enforce_campaign_canary e t tid x gates =
     (let mode = campaign_execution_mode e;
          maximum = (case campaign_maximum e of None \<Rightarrow> 0 | Some n \<Rightarrow> n);
          deny = (\<lambda>status detail. (Inl (HTTPException status detail), gates));
          campaign = (case xm_campaign_id x of None \<Rightarrow> [] | Some c \<Rightarrow> c);
          allowed = campaign_recipients e;
          sender = lower (env_get e ''KLYROW_CAMPAIGN_CANARY_SENDER'' [])
      in if mode = ''CAMPAIGN_EXECUTION_DISABLED'' then deny 403 ''campaign_execution_disabled''
         else if mode = ''CAMPAIGN_PRODUCTION_ENABLED'' then (Inr (), gates)
         else if lower (env_get e ''KLYROW_ENV'' []) \<noteq> ''production'' \<or>
                 lower (env_get e ''KLYROW_CAMPAIGN_CANARY_ENABLED'' ''false'') \<noteq> ''true''
         then deny 403 ''campaign_canary_disabled''
         else if maximum \<noteq> 1 then deny 503 ''campaign_canary_hard_limit_invalid''
         else if tid \<noteq> env_get e ''KLYROW_CAMPAIGN_CANARY_TENANT_ID'' [] then deny 403 ''campaign_canary_tenant_denied''
         else if campaign = [] \<or> campaign \<noteq> env_get e ''KLYROW_CAMPAIGN_CANARY_CAMPAIGN_ID'' []
         then deny 403 ''campaign_canary_campaign_denied''
         else if length allowed \<noteq> 1 \<or> lower (xm_to x) \<notin> set allowed then deny 403 ''campaign_canary_recipient_denied''
         else if sender = [] \<or> lower (xm_sender x) \<noteq> sender then deny 403 ''campaign_canary_sender_denied''
         else
           (let key = ''campaign:'' @ campaign;
                gates1 = (case find_gate key gates of
                            None \<Rightarrow> gates @ [\<lparr>ga_gate_key = key, ga_reserved_deliveries = 0,
                                             ga_claimed_deliveries = 0, ga_updated_at = t\<rparr>]
                          | Some _ \<Rightarrow> gates);
                reserved = (case find_gate key gates of None \<Rightarrow> 0 | Some g \<Rightarrow> ga_reserved_deliveries g)
            in if maximum \<le> reserved then (Inl (HTTPException 409 ''campaign_canary_limit_reached''), gates1)
               else (Inr (), update_gate key (reserve t) gates1)))"

definition enforce_production_canary ::
  "env \<Rightarrow> bool \<Rightarrow> int \<Rightarrow> core_mail \<Rightarrow> gate_row list \<Rightarrow> unit res \<times> gate_row list" where
  "enforce_production_canary e safe t x gates =
     (case canary_configuration e of (domain, sender, recipient, maximum) \<Rightarrow>
       (let deny = (\<lambda>status detail. (Inl (HTTPException status detail), gates));
            campaign = env_get e ''KLYROW_CANARY_ALLOWED_CAMPAIGN'' [];
            key = canary_gate_key e
        in if safe \<or> xm_stream x = ''marketing'' then (Inr (), gates)
           else if \<not> canary_configuration_valid e then deny 503 ''production_canary_configuration_invalid''
           else if xm_stream x \<noteq> ''transactional'' \<or> campaign = [] \<or> xm_campaign_id x \<noteq> Some campaign
           then deny 403 ''canary_campaign_denied''
           else if lower (xm_sender x) \<noteq> sender \<or> after_last (CHR ''@'') (lower (xm_sender x)) \<noteq> domain
           then deny 403 ''canary_sender_denied''
           else if lower (xm_to x) \<noteq> recipient then deny 403 ''canary_recipient_denied''
           else (case find_gate key gates of
                   None \<Rightarrow> deny 503 ''production_canary_ledger_missing''
                 | Some g \<Rightarrow>
                     if maximum \<le> ga_reserved_deliveries g then deny 409 ''production_canary_limit_reached''
                     else (Inr (), update_gate key (reserve t) gates))))"

text \<open>
  The same policies on a stored delivery payload. \<open>payload.get("from", "").lower()\<close> raises when the
  value is no string.
\<close>

definition payload_recipients :: "(string \<times> json) list \<Rightarrow> string list" where
  "payload_recipients payload =
     (case obj_get payload ''to'' of
        JList vs \<Rightarrow> if list_all (\<lambda>v. json_string v \<noteq> None) vs then map lower (List.map_filter json_string vs) else []
      | _ \<Rightarrow> [])"

definition payload_sender :: "(string \<times> json) list \<Rightarrow> string res" where
  "payload_sender payload =
     (case map_of payload ''from'' of
        None \<Rightarrow> Inr []
      | Some (JStr s) \<Rightarrow> Inr (lower s)
      | Some _ \<Rightarrow> Inl (AttributeError ''lower''))"

definition campaign_canary_payload_allowed :: "env \<Rightarrow> (string \<times> json) list \<Rightarrow> string \<Rightarrow> bool res" where
  "campaign_canary_payload_allowed e payload tid =
     (if campaign_maximum e = None then Inr False
      else if campaign_execution_mode e = ''CAMPAIGN_CANARY_ONLY'' \<and>
         lower (env_get e ''KLYROW_ENV'' []) = ''production'' \<and>
         lower (env_get e ''KLYROW_CAMPAIGN_CANARY_ENABLED'' ''false'') = ''true'' \<and>
         campaign_maximum e = Some 1 \<and>
         tid = env_get e ''KLYROW_CAMPAIGN_CANARY_TENANT_ID'' [] \<and>
         obj_get payload ''campaign_id'' = JStr (env_get e ''KLYROW_CAMPAIGN_CANARY_CAMPAIGN_ID'' [])
      then res_bind (payload_sender payload) (\<lambda>sender.
        Inr (sender = lower (env_get e ''KLYROW_CAMPAIGN_CANARY_SENDER'' []) \<and>
             length (campaign_recipients e) = 1 \<and> payload_recipients payload = campaign_recipients e \<and>
             obj_get payload ''stream'' = JStr ''marketing''))
      else Inr False)"

definition campaign_worker_payload_allowed :: "env \<Rightarrow> (string \<times> json) list \<Rightarrow> string \<Rightarrow> bool res" where
  "campaign_worker_payload_allowed e payload tid =
     (if campaign_execution_mode e = ''CAMPAIGN_PRODUCTION_ENABLED''
      then Inr (obj_get payload ''stream'' = JStr ''marketing'')
      else campaign_canary_payload_allowed e payload tid)"

definition canary_payload_allowed :: "env \<Rightarrow> (string \<times> json) list \<Rightarrow> bool res" where
  "canary_payload_allowed e payload =
     (case canary_configuration e of (domain, sender, recipient, maximum) \<Rightarrow>
       (let campaign = env_get e ''KLYROW_CANARY_ALLOWED_CAMPAIGN'' []
        in if canary_configuration_valid e \<and> campaign \<noteq> [] \<and> obj_get payload ''campaign_id'' = JStr campaign
           then res_bind (payload_sender payload) (\<lambda>from_address.
             Inr (from_address = sender \<and> payload_recipients payload = [recipient]))
           else Inr False))"

definition production_gate_open :: "env \<Rightarrow> bool \<Rightarrow> gate_row list \<Rightarrow> bool" where
  "production_gate_open e safe gates \<longleftrightarrow>
     \<not> safe \<and> lower (env_get e ''KLYROW_PRODUCTION_GATE_APPROVED'' ''false'') = ''true'' \<and>
     canary_configuration_valid e \<and>
     (case find_gate (canary_gate_key e) gates of
        None \<Rightarrow> False
      | Some g \<Rightarrow> (case canary_configuration e of (_, _, _, maximum) \<Rightarrow>
          ga_reserved_deliveries g < maximum \<and> ga_claimed_deliveries g \<le> ga_reserved_deliveries g))"

section \<open>Lifecycle events\<close>

record lifecycle =
  lc_kind :: string
  lc_tenant_id :: string
  lc_message_id :: string
  lc_operation_id :: string
  lc_correlation_id :: string
  lc_provider_message_id :: "string option"
  lc_recipient :: "string option"
  lc_attempt :: int

definition lifecycle_id :: "(string \<Rightarrow> string) \<Rightarrow> lifecycle \<Rightarrow> string" where
  "lifecycle_id uuid5 l =
     uuid5 (''klyrow:'' @ lc_kind l @ '':'' @ lc_message_id l @ '':'' @ int_to_string (lc_attempt l))"

definition lifecycle_payload :: "codec \<Rightarrow> string \<Rightarrow> int \<Rightarrow> lifecycle \<Rightarrow> (string \<times> json) list" where
  "lifecycle_payload c event_id t l =
     [(''event_id'', JStr event_id), (''schema_version'', JStr ''1.0''), (''tenant_id'', JStr (lc_tenant_id l)),
      (''operation_id'', JStr (lc_operation_id l)), (''correlation_id'', JStr (lc_correlation_id l)),
      (''provider_message_id'', JStr (or_text (lc_provider_message_id l) (lc_message_id l))),
      (''message_id'', JStr (lc_message_id l)), (''event_type'', JStr (lc_kind l)),
      (''occurred_at'', JStr (cd_iso c t)), (''status'', JStr (after_last (CHR ''.'') (lc_kind l))),
      (''provider'', JStr ''postal''), (''attempt'', JInt (lc_attempt l)),
      (''recipient_reference'', JStr (''sha256:'' @ cd_sha256_hex c (lower (or_text (lc_recipient l) []))))]"

text \<open>
  The row under its name-based identifier, once; and a business event when the kind is one of
  theirs, under the same identifier. \<open>dw\<close> is what the business outbox draws.
\<close>

definition queue_email_lifecycle_event ::
  "codec \<Rightarrow> (string \<Rightarrow> string) \<Rightarrow> env \<Rightarrow> draws \<Rightarrow> int \<Rightarrow> lifecycle \<Rightarrow> mail_db \<Rightarrow> (string \<times> mail_db) res" where
  "queue_email_lifecycle_event c uuid5 e dw t l db =
     (let event_id = lifecycle_id uuid5 l;
          payload = lifecycle_payload c event_id t l;
          sealed = payload @ [(''payload_hash'', JStr (cd_sha256_hex c (cd_dumps c (JObj payload))))];
          row = \<lparr>pv_id = event_id, pv_tenant_id = lc_tenant_id l, pv_message_id = lc_message_id l,
                 pv_kind = lc_kind l, pv_payload_json = JText (sort_doc (JObj sealed)), pv_state = ''PENDING'',
                 pv_attempts = 0, pv_available_at = t, pv_last_error = None, pv_updated_at = t, pv_created_at = t\<rparr>;
          db1 = db\<lparr>ml_lifecycle := ml_lifecycle db @ [row]\<rparr>
      in if find_row (\<lambda>r. pv_id r = event_id) (ml_lifecycle db) \<noteq> None then Inr (event_id, db)
         else if lower (env_get e ''KLYROW_BUSINESS_EVENTS_ENABLED'' ''false'') = ''true'' \<and>
                 ''klyrow.'' @ lc_kind l \<in> set KLYROW_EVENTS
         then res_bind (EventEnvelope c
                [(''id'', AJson (JStr event_id)), (''type'', AJson (JStr (''klyrow.'' @ lc_kind l))),
                 (''version'', AJson (JInt 1)), (''source'', AJson (JStr ''klyrow'')),
                 (''tenant_id'', AJson (JStr (lc_tenant_id l))),
                 (''correlation_id'', AJson (JStr (lc_correlation_id l))),
                 (''causation_id'', AJson (JStr (lc_operation_id l))),
                 (''occurred_at'', AJson (JStr (cd_iso c t))),
                 (''data'', ADict [(''message_id'', AJson (JStr (lc_message_id l)))])]) (\<lambda>ev.
              res_bind (enqueue_event c dw ev None (ml_business db1)) (\<lambda>(_, rows).
                Inr (event_id, db1\<lparr>ml_business := rows\<rparr>)))
         else Inr (event_id, db1))"

section \<open>Webmail copies\<close>

definition webmail_of :: "mail_db \<Rightarrow> string \<Rightarrow> string \<Rightarrow> webmail_row option" where
  "webmail_of db tid mid =
     (let copy = (\<lambda>k. find_row (\<lambda>w. wm_tenant_id w = tid \<and> wm_outbound_message_id w = Some k) (ml_webmail db))
      in case copy mid of
           Some w \<Rightarrow> Some w
         | None \<Rightarrow>
             (case find_row (\<lambda>i. eo_tenant_id i = tid \<and> eo_provider_message_id i = Some mid) (ml_outbox db) of
                None \<Rightarrow> None | Some i \<Rightarrow> copy (eo_message_id i)))"

definition update_outbound_status :: "int \<Rightarrow> string \<Rightarrow> string \<Rightarrow> string \<Rightarrow> mail_db \<Rightarrow> mail_db" where
  "update_outbound_status t tid mid status db =
     (case webmail_of db tid mid of
        None \<Rightarrow> db
      | Some w \<Rightarrow>
          db\<lparr>ml_webmail := update_rows (\<lambda>r. wm_id r = wm_id w)
               (\<lambda>r. r\<lparr>wm_delivery_status := Some (upper status), wm_updated_at := t\<rparr>) (ml_webmail db)\<rparr>)"

end
