(* ===== verification/EmailDelivery.thy ===== *)
theory EmailDelivery
  imports CoreMail PostalProvisioning Platform
begin

text \<open>
  The delivery of the core message outbox to Postal: the loop of \<open>tenant_postal_delivery.py\<close> with
  tenant credentials, the loop \<open>email_outbox_loop\<close> of \<open>main.py\<close> with the global one, and the choice
  between them in \<open>service_worker.py\<close>. One pass claims a row in a transaction, submits it outside of
  any transaction and reports the reply in another. The Postal server is the reply it gives; \<open>key_for\<close>
  is the choice of the credential, \<open>tenant_postal_api_key\<close> on the provisioning tables.
\<close>

section \<open>Rows\<close>

definition get_item :: "mail_db \<Rightarrow> string \<Rightarrow> email_outbox_row option" where
  "get_item db k = find_row (\<lambda>i. eo_id i = k) (ml_outbox db)"

definition put_item :: "string \<Rightarrow> (email_outbox_row \<Rightarrow> email_outbox_row) \<Rightarrow> mail_db \<Rightarrow> mail_db" where
  "put_item k f db = db\<lparr>ml_outbox := update_rows (\<lambda>i. eo_id i = k) f (ml_outbox db)\<rparr>"

section \<open>The claim\<close>

definition abandoned_item :: "int \<Rightarrow> (string \<Rightarrow> bool) \<Rightarrow> mail_db \<Rightarrow> email_outbox_row option" where
  "abandoned_item t locked db =
     (case select_rows eo_updated_at
             (\<lambda>i. eo_state i = ''sending'' \<and> eo_updated_at i < t - 300 * 1000000 \<and> \<not> locked (eo_id i))
             1 (ml_outbox db) of
        [] \<Rightarrow> None
      | i # _ \<Rightarrow> if reconcile_before_retry INDETERMINATE (eo_provider_message_id i) False then None else Some i)"

definition quarantine_abandoned :: "int \<Rightarrow> email_outbox_row \<Rightarrow> mail_db \<Rightarrow> mail_db res" where
  "quarantine_abandoned t item db =
     mark_message (eo_message_id item) ''indeterminate''
       (put_item (eo_id item) (\<lambda>i. i\<lparr>eo_state := INDETERMINATE,
          eo_last_error := Some ''abandoned_submission_requires_reconciliation'',
          eo_next_attempt_at := None, eo_updated_at := t\<rparr>) db)"

definition deliverable :: "int \<Rightarrow> (string \<Rightarrow> bool) \<Rightarrow> email_outbox_row \<Rightarrow> bool" where
  "deliverable t locked i \<longleftrightarrow>
     (eo_state i = ''pending'' \<or>
      eo_state i = ''retry'' \<and> (case eo_next_attempt_at i of None \<Rightarrow> True | Some at_time \<Rightarrow> at_time \<le> t)) \<and>
     eo_attempts i < 5 \<and> \<not> locked (eo_id i)"

definition next_item :: "int \<Rightarrow> (string \<Rightarrow> bool) \<Rightarrow> mail_db \<Rightarrow> email_outbox_row option" where
  "next_item t locked db =
     (case select_rows (\<lambda>i. (eo_priority i, eo_created_at i)) (deliverable t locked) 1 (ml_outbox db) of
        [] \<Rightarrow> None | i # _ \<Rightarrow> Some i)"

definition quarantine_item :: "int \<Rightarrow> string \<Rightarrow> email_outbox_row \<Rightarrow> mail_db \<Rightarrow> mail_db" where
  "quarantine_item t reason item db =
     put_item (eo_id item) (\<lambda>i. i\<lparr>eo_state := ''quarantined'', eo_last_error := Some reason,
       eo_updated_at := t\<rparr>) db"

definition decoded_payload :: "email_outbox_row \<Rightarrow> (string \<times> json) list option" where
  "decoded_payload item = (case eo_payload item of JText doc \<Rightarrow> json_obj doc | BadText _ \<Rightarrow> None)"

definition is_campaign :: "(string \<times> json) list \<Rightarrow> bool" where
  "is_campaign payload \<longleftrightarrow> obj_get payload ''stream'' = JStr ''marketing''"

definition campaign_production :: "env \<Rightarrow> (string \<times> json) list \<Rightarrow> bool" where
  "campaign_production e payload \<longleftrightarrow>
     is_campaign payload \<and> campaign_execution_mode e = ''CAMPAIGN_PRODUCTION_ENABLED''"

definition delivery_gate :: "(json \<Rightarrow> string) \<Rightarrow> env \<Rightarrow> mail_db \<Rightarrow> (string \<times> json) list \<Rightarrow> gate_row option" where
  "delivery_gate repr_of e db payload =
     (if campaign_production e payload then None
      else find_gate (if is_campaign payload
                      then ''campaign:'' @ json_str repr_of (obj_get payload ''campaign_id'')
                      else canary_gate_key e) (ml_gates db))"

definition reservation_denied ::
  "(json \<Rightarrow> string) \<Rightarrow> env \<Rightarrow> mail_db \<Rightarrow> email_outbox_row \<Rightarrow> (string \<times> json) list \<Rightarrow> bool" where
  "reservation_denied repr_of e db item payload \<longleftrightarrow>
     (let maximum = (if is_campaign payload then 1 else snd (snd (snd (canary_configuration e))))
      in if campaign_production e payload then False
         else (case delivery_gate repr_of e db payload of
                 None \<Rightarrow> True
               | Some g \<Rightarrow> eo_attempts item = 0 \<and>
                   (ga_reserved_deliveries g \<le> ga_claimed_deliveries g \<or> maximum \<le> ga_claimed_deliveries g)))"

definition payload_allowed :: "env \<Rightarrow> string \<Rightarrow> (string \<times> json) list \<Rightarrow> bool res" where
  "payload_allowed e tid payload =
     (if is_campaign payload then campaign_worker_payload_allowed e payload tid
      else canary_payload_allowed e payload)"

definition claim_gate :: "int \<Rightarrow> email_outbox_row \<Rightarrow> gate_row option \<Rightarrow> mail_db \<Rightarrow> mail_db" where
  "claim_gate t item gate db =
     (case gate of
        Some g \<Rightarrow>
          (if eo_attempts item = 0
           then db\<lparr>ml_gates := update_gate (ga_gate_key g)
                  (\<lambda>g. g\<lparr>ga_claimed_deliveries := ga_claimed_deliveries g + 1, ga_updated_at := t\<rparr>) (ml_gates db)\<rparr>
           else db)
      | None \<Rightarrow> db)"

definition start_item :: "int \<Rightarrow> email_outbox_row \<Rightarrow> email_outbox_row" where
  "start_item t i = i\<lparr>eo_state := ''sending'', eo_attempts := eo_attempts i + 1, eo_next_attempt_at := None,
     eo_updated_at := t\<rparr>"

record delivery_claim =
  dc_id :: string
  dc_message_id :: string
  dc_tenant_id :: string
  dc_payload :: "(string \<times> json) list"
  dc_key :: string

datatype claim_step = NoWork | Settled | Claimed delivery_claim

definition sender_domain_of :: "(json \<Rightarrow> string) \<Rightarrow> (string \<times> json) list \<Rightarrow> string" where
  "sender_domain_of repr_of payload =
     (let sender = lower (strip (json_str repr_of (json_or (obj_get payload ''from'') (JStr []))))
      in if CHR ''@'' \<in> set sender then after_last (CHR ''@'') sender else [])"

definition claim_of :: "email_outbox_row \<Rightarrow> (string \<times> json) list \<Rightarrow> string \<Rightarrow> delivery_claim" where
  "claim_of item payload key =
     \<lparr>dc_id = eo_id item, dc_message_id = eo_message_id item, dc_tenant_id = eo_tenant_id item,
      dc_payload = payload, dc_key = key\<rparr>"

text \<open>
  The first transaction of a pass. The two loops differ in what they do when the policy denies the
  payload (\<open>on_denied\<close>) and in when they read the credential: \<open>key_for\<close> in the transaction.
\<close>

definition claim_pass ::
  "(json \<Rightarrow> string) \<Rightarrow> (email_outbox_row \<Rightarrow> mail_db \<Rightarrow> mail_db res) \<Rightarrow> (string \<Rightarrow> string \<Rightarrow> string res)
     \<Rightarrow> env \<Rightarrow> int \<Rightarrow> (string \<Rightarrow> bool) \<Rightarrow> mail_db \<Rightarrow> (claim_step \<times> mail_db) res" where
  "claim_pass repr_of on_denied key_for e t locked db =
     (case abandoned_item t locked db of
        Some item \<Rightarrow> res_bind (quarantine_abandoned t item db) (\<lambda>db'. Inr (Settled, db'))
      | None \<Rightarrow>
     (case next_item t locked db of
        None \<Rightarrow> Inr (NoWork, db)
      | Some item \<Rightarrow>
     (case decoded_payload item of
        None \<Rightarrow> Inr (Settled, quarantine_item t ''invalid_outbox_payload'' item db)
      | Some payload \<Rightarrow>
          res_bind (payload_allowed e (eo_tenant_id item) payload) (\<lambda>allowed.
            if \<not> allowed \<or> reservation_denied repr_of e db item payload
            then res_bind (mark_message (eo_message_id item) ''suppressed''
                             (quarantine_item t ''production_canary_policy_denied'' item db)) (\<lambda>db1.
                 res_bind (on_denied item db1) (\<lambda>db2. Inr (Settled, db2)))
            else res_bind (key_for (eo_tenant_id item) (sender_domain_of repr_of payload)) (\<lambda>key.
                 res_bind (mark_message (eo_message_id item) ''submitted''
                   (put_item (eo_id item) (start_item t)
                     (claim_gate t item (delivery_gate repr_of e db payload) db))) (\<lambda>db1.
                 Inr (Claimed (claim_of item payload key), db1)))))))"

section \<open>The submission\<close>

text \<open>
  What Postal answers: a status with the decoded body (\<open>None\<close> when it is no JSON), or an exception
  of the client. The claim's payload goes out with the message as its tag.
\<close>

datatype provider_reply = Reply nat "json option" | Lost provider_exn

definition attributed_postal_payload :: "jtext \<Rightarrow> string \<Rightarrow> (string \<times> json) list res" where
  "attributed_postal_payload serialized_payload message_id =
     (case serialized_payload of
        JText (JObj payload) \<Rightarrow> Inr (obj_set ''tag'' (JStr message_id) payload)
      | _ \<Rightarrow> Inl (ValueError ''invalid_outbox_payload''))"

definition accepted_id :: "(json \<Rightarrow> string) \<Rightarrow> string \<Rightarrow> provider_reply \<Rightarrow> provider_exn + string" where
  "accepted_id repr_of mid reply =
     (case reply of
        Lost x \<Rightarrow> Inl x
      | Reply status body \<Rightarrow>
          (if status < 200 \<or> 300 \<le> status then Inl (HTTPStatusError status)
           else (case body of
                   None \<Rightarrow> Inl (provider_exn.OtherError ''JSONDecodeError'')
                 | Some doc \<Rightarrow>
                     (case json_obj doc of
                        None \<Rightarrow> Inl (provider_exn.OtherError ''AttributeError'')
                      | Some kvs \<Rightarrow>
                          (case json_obj (case map_of kvs ''data'' of None \<Rightarrow> JObj [] | Some d \<Rightarrow> d) of
                             None \<Rightarrow> Inl (provider_exn.OtherError ''AttributeError'')
                           | Some data \<Rightarrow>
                               Inr (json_str repr_of (json_or (obj_get data ''message_id'') (JStr mid))))))))"

definition provider_failure_name :: "provider_exn \<Rightarrow> string" where
  "provider_failure_name x =
     (case x of HTTPStatusError _ \<Rightarrow> ''HTTPStatusError'' | TimeoutException \<Rightarrow> ''TimeoutException''
      | NetworkError \<Rightarrow> ''NetworkError'' | RemoteProtocolError \<Rightarrow> ''RemoteProtocolError''
      | provider_exn.OtherError n \<Rightarrow> n)"

section \<open>The report\<close>

definition mark_delivered :: "int \<Rightarrow> string \<Rightarrow> email_outbox_row \<Rightarrow> email_outbox_row" where
  "mark_delivered t pid i =
     i\<lparr>eo_state := ''delivered'', eo_provider_message_id := Some pid, eo_last_error := None, eo_updated_at := t\<rparr>"

definition mark_indeterminate_item :: "int \<Rightarrow> string \<Rightarrow> email_outbox_row \<Rightarrow> email_outbox_row" where
  "mark_indeterminate_item t error i =
     i\<lparr>eo_state := INDETERMINATE, eo_last_error := Some error, eo_updated_at := t, eo_next_attempt_at := None\<rparr>"

definition exhausted :: "email_outbox_row \<Rightarrow> bool" where
  "exhausted i \<longleftrightarrow> 5 \<le> eo_attempts i"

definition mark_retry :: "int \<Rightarrow> string \<Rightarrow> email_outbox_row \<Rightarrow> email_outbox_row" where
  "mark_retry t error i =
     i\<lparr>eo_state := (if exhausted i then ''failed'' else ''retry''), eo_last_error := Some error, eo_updated_at := t,
       eo_next_attempt_at := (if exhausted i then None
         else Some (t + min 300 (2 ^ nat (max (eo_attempts i) 1)) * 1000000))\<rparr>"

definition failed_event :: "string \<Rightarrow> email_outbox_row \<Rightarrow> mail_event_row" where
  "failed_event fresh i =
     \<lparr>me_id = fresh, me_tenant_id = eo_tenant_id i, me_message_id = eo_message_id i,
      me_kind = ''klyrow.email.failed'',
      me_payload = JText (JObj [(''reason'', JStr ''provider_retry_exhausted'')])\<rparr>"

definition quarantined_outcome :: "provider_exn \<Rightarrow> email_outbox_row \<Rightarrow> bool" where
  "quarantined_outcome x i \<longleftrightarrow>
     provider_outcome_is_ambiguous x \<and> \<not> reconcile_before_retry INDETERMINATE (eo_provider_message_id i) False"

definition tenant_success :: "int \<Rightarrow> delivery_claim \<Rightarrow> string \<Rightarrow> mail_db \<Rightarrow> mail_db res" where
  "tenant_success t cl pid db =
     res_bind (mark_message (dc_message_id cl) ''provider_accepted'' (put_item (dc_id cl) (mark_delivered t pid) db))
       (\<lambda>db1. Inr (update_outbound_status t (dc_tenant_id cl) (dc_message_id cl) ''provider_accepted'' db1))"

definition tenant_failure :: "int \<Rightarrow> string \<Rightarrow> delivery_claim \<Rightarrow> provider_exn \<Rightarrow> mail_db \<Rightarrow> mail_db res" where
  "tenant_failure t fresh cl x db =
     (case get_item db (dc_id cl) of
        None \<Rightarrow> Inr db
      | Some item \<Rightarrow>
          (let error = provider_failure_name x;
               status = (if quarantined_outcome x item then ''indeterminate''
                         else if exhausted item then ''failed'' else ''deferred'');
               f = (if quarantined_outcome x item then mark_indeterminate_item t error else mark_retry t error)
           in res_bind (mark_message (eo_message_id item) status (put_item (dc_id cl) f db)) (\<lambda>db1.
                let db2 = update_outbound_status t (eo_tenant_id item) (eo_message_id item) status db1
                in Inr (if status = ''failed'' then db2\<lparr>ml_events := ml_events db2 @ [failed_event fresh item]\<rparr>
                        else db2))))"

definition tenant_report ::
  "(json \<Rightarrow> string) \<Rightarrow> int \<Rightarrow> string \<Rightarrow> delivery_claim \<Rightarrow> provider_reply \<Rightarrow> mail_db \<Rightarrow> mail_db res" where
  "tenant_report repr_of t fresh cl reply db =
     (case accepted_id repr_of (dc_message_id cl) reply of
        Inl x \<Rightarrow> tenant_failure t fresh cl x db
      | Inr pid \<Rightarrow> tenant_success t cl pid db)"

text \<open>The global loop: the same rows, and a lifecycle event with each outcome.\<close>

record stamps =
  st_codec :: codec
  st_uuid5 :: "string \<Rightarrow> string"
  st_draws :: draws

definition lifecycle_of ::
  "string \<Rightarrow> string option \<Rightarrow> email_outbox_row \<Rightarrow> core_message_row option \<Rightarrow> lifecycle" where
  "lifecycle_of kind pid i message =
     \<lparr>lc_kind = kind, lc_tenant_id = eo_tenant_id i, lc_message_id = eo_message_id i,
      lc_operation_id = or_text (eo_operation_id i) (eo_message_id i),
      lc_correlation_id = or_text (eo_correlation_id i) (eo_message_id i),
      lc_provider_message_id = pid, lc_recipient = map_option cm_recipient message,
      lc_attempt = max 1 (eo_attempts i)\<rparr>"

definition announce ::
  "stamps \<Rightarrow> env \<Rightarrow> int \<Rightarrow> string \<Rightarrow> string option \<Rightarrow> email_outbox_row \<Rightarrow> mail_db \<Rightarrow> mail_db res" where
  "announce st e t kind pid i db =
     res_bind (queue_email_lifecycle_event (st_codec st) (st_uuid5 st) e (st_draws st) t
       (lifecycle_of kind pid i (get_message db (eo_message_id i))) db) (\<lambda>r. Inr (snd r))"

definition core_success :: "stamps \<Rightarrow> env \<Rightarrow> int \<Rightarrow> delivery_claim \<Rightarrow> string \<Rightarrow> mail_db \<Rightarrow> mail_db res" where
  "core_success st e t cl pid db =
     res_bind (mark_message (dc_message_id cl) ''provider_accepted'' (put_item (dc_id cl) (mark_delivered t pid) db))
       (\<lambda>db1. case get_item db (dc_id cl) of
          None \<Rightarrow> Inr db1 | Some item \<Rightarrow> announce st e t ''email.submitted'' (Some pid) item db1)"

definition core_failure ::
  "stamps \<Rightarrow> env \<Rightarrow> int \<Rightarrow> string \<Rightarrow> delivery_claim \<Rightarrow> provider_exn \<Rightarrow> mail_db \<Rightarrow> mail_db res" where
  "core_failure st e t fresh cl x db =
     (case get_item db (dc_id cl) of
        None \<Rightarrow> Inr db
      | Some item \<Rightarrow>
          (let error = provider_failure_name x; pid = eo_provider_message_id item
           in if quarantined_outcome x item
              then res_bind (mark_message (eo_message_id item) ''indeterminate''
                     (put_item (dc_id cl) (mark_indeterminate_item t error) db)) (\<lambda>db1.
                   announce st e t ''email.unknown_outcome'' pid item db1)
              else if exhausted item
              then res_bind (mark_message (eo_message_id item) ''failed''
                     (put_item (dc_id cl) (mark_retry t error) db)) (\<lambda>db1.
                   announce st e t ''email.failed'' pid item
                     (db1\<lparr>ml_events := ml_events db1 @ [failed_event fresh item]\<rparr>))
              else mark_message (eo_message_id item) ''deferred''
                     (put_item (dc_id cl) (mark_retry t error) db)))"

definition core_report ::
  "stamps \<Rightarrow> (json \<Rightarrow> string) \<Rightarrow> env \<Rightarrow> int \<Rightarrow> string \<Rightarrow> delivery_claim \<Rightarrow> provider_reply \<Rightarrow> mail_db \<Rightarrow> mail_db res" where
  "core_report st repr_of e t fresh cl reply db =
     (case accepted_id repr_of (dc_message_id cl) reply of
        Inl x \<Rightarrow> core_failure st e t fresh cl x db
      | Inr pid \<Rightarrow> core_success st e t cl pid db)"

section \<open>The loops\<close>

text \<open>The global credential is read after the claim; a missing one is a failed attempt.\<close>

definition global_key :: "files \<Rightarrow> env \<Rightarrow> provider_exn + string" where
  "global_key fl e =
     (let path = env_get e ''KLYROW_POSTAL_API_KEY_FILE'' []
      in if path = [] then Inl (provider_exn.OtherError ''RuntimeError'')
         else (case fl_text fl path of
                 None \<Rightarrow> Inl (provider_exn.OtherError ''FileNotFoundError'')
               | Some content \<Rightarrow>
                   (let key = strip content
                    in if key = [] then Inl (provider_exn.OtherError ''RuntimeError'') else Inr key)))"

definition submit_to :: "env \<Rightarrow> (string \<Rightarrow> string \<Rightarrow> (string \<times> json) list \<Rightarrow> provider_reply) \<Rightarrow> string
     \<Rightarrow> (string \<times> json) list \<Rightarrow> string \<Rightarrow> provider_reply" where
  "submit_to e postal key body mid =
     (case e ''KLYROW_POSTAL_API_URL'' of
        None \<Rightarrow> Lost (provider_exn.OtherError ''KeyError'')
      | Some _ \<Rightarrow> postal key (''klyrow:'' @ mid) body)"

datatype worker_kind = TenantLoop | CoreLoop

definition claim_delivery ::
  "worker_kind \<Rightarrow> stamps \<Rightarrow> (json \<Rightarrow> string) \<Rightarrow> (string \<Rightarrow> string \<Rightarrow> string res) \<Rightarrow> env \<Rightarrow> int
     \<Rightarrow> (string \<Rightarrow> bool) \<Rightarrow> mail_db \<Rightarrow> (claim_step \<times> mail_db) res" where
  "claim_delivery w st repr_of key_for e t locked db =
     (case w of
        TenantLoop \<Rightarrow> claim_pass repr_of (\<lambda>_ d. Inr d) key_for e t locked db
      | CoreLoop \<Rightarrow> claim_pass repr_of
          (\<lambda>item d. announce st e t ''email.rejected'' (eo_provider_message_id item) item d)
          (\<lambda>_ _. Inr []) e t locked db)"

definition report_delivery ::
  "worker_kind \<Rightarrow> stamps \<Rightarrow> (json \<Rightarrow> string) \<Rightarrow> env \<Rightarrow> int \<Rightarrow> string \<Rightarrow> delivery_claim \<Rightarrow> provider_reply
     \<Rightarrow> mail_db \<Rightarrow> mail_db res" where
  "report_delivery w st repr_of e t fresh cl reply db =
     (case w of
        TenantLoop \<Rightarrow> tenant_report repr_of t fresh cl reply db
      | CoreLoop \<Rightarrow> core_report st repr_of e t fresh cl reply db)"

text \<open>
  One pass. An exception in the first transaction rolls it back and is printed, one in the last
  leaves the row as it is. \<open>meanwhile\<close> is what other transactions do during the submission.
\<close>

definition delivery_pass ::
  "worker_kind \<Rightarrow> bool \<Rightarrow> stamps \<Rightarrow> (json \<Rightarrow> string) \<Rightarrow> (string \<Rightarrow> string \<Rightarrow> string res) \<Rightarrow> files \<Rightarrow> env
     \<Rightarrow> (string \<Rightarrow> string \<Rightarrow> (string \<times> json) list \<Rightarrow> provider_reply) \<Rightarrow> int \<Rightarrow> (string \<Rightarrow> bool)
     \<Rightarrow> (mail_db \<Rightarrow> mail_db) \<Rightarrow> int \<Rightarrow> string \<Rightarrow> mail_db \<Rightarrow> mail_db" where
  "delivery_pass w safe st repr_of key_for fl e postal t locked meanwhile t' fresh db =
     (if safe then db
      else (case claim_delivery w st repr_of key_for e t locked db of
              Inl _ \<Rightarrow> db
            | Inr (Claimed cl, db1) \<Rightarrow>
                (let mid = dc_message_id cl;
                     reply = (case w of
                       TenantLoop \<Rightarrow> submit_to e postal (dc_key cl) (obj_set ''tag'' (JStr mid) (dc_payload cl)) mid
                     | CoreLoop \<Rightarrow> (case global_key fl e of
                         Inl x \<Rightarrow> Lost x | Inr key \<Rightarrow> submit_to e postal key (dc_payload cl) mid));
                     db2 = meanwhile db1
                 in (case report_delivery w st repr_of e t' fresh cl reply db2 of Inl _ \<Rightarrow> db2 | Inr db3 \<Rightarrow> db3))
            | Inr (_, db1) \<Rightarrow> db1))"

definition tenant_postal_provisioning_enabled :: "env \<Rightarrow> bool" where
  "tenant_postal_provisioning_enabled e \<longleftrightarrow>
     lower (strip (env_get e ''KLYROW_TENANT_POSTAL_PROVISIONING_ENABLED'' ''false''))
       \<in> {''1'', ''true'', ''yes'', ''on''}"

definition selected_email_outbox_loop :: "env \<Rightarrow> worker_kind" where
  "selected_email_outbox_loop e = (if tenant_postal_provisioning_enabled e then TenantLoop else CoreLoop)"

section \<open>What the transactions leave alone\<close>

lemma mark_message_frame:
  assumes "mark_message mid v db = Inr db'"
  shows "ml_outbox db' = ml_outbox db" "ml_gates db' = ml_gates db" "ml_events db' = ml_events db"
    "ml_lifecycle db' = ml_lifecycle db" "ml_webmail db' = ml_webmail db" "ml_business db' = ml_business db"
  using assms by (auto simp: mark_message_def res_bind_Inr split: option.splits)

lemma mark_message_total: "v \<in> set CANONICAL_SMTP_STATUSES \<Longrightarrow> \<exists>db'. mark_message mid v db = Inr db'"
  by (auto simp: mark_message_def set_core_message_status_def split: option.splits)

lemma canonical_statuses:
  "''indeterminate'' \<in> set CANONICAL_SMTP_STATUSES" "''suppressed'' \<in> set CANONICAL_SMTP_STATUSES"
  "''submitted'' \<in> set CANONICAL_SMTP_STATUSES" "''provider_accepted'' \<in> set CANONICAL_SMTP_STATUSES"
  "''failed'' \<in> set CANONICAL_SMTP_STATUSES" "''deferred'' \<in> set CANONICAL_SMTP_STATUSES"
  "''cancelled'' \<in> set CANONICAL_SMTP_STATUSES"
  by (simp_all add: CANONICAL_SMTP_STATUSES_def)

lemma announce_frame:
  assumes "announce st e t kind pid i db = Inr db'"
  shows "ml_outbox db' = ml_outbox db" "ml_gates db' = ml_gates db" "gd_messages db' = gd_messages db"
  using assms
  by (auto simp: announce_def queue_email_lifecycle_event_def Let_def res_bind_Inr split: if_splits)

lemma update_outbound_status_frame [simp]:
  "ml_outbox (update_outbound_status t tid mid s db) = ml_outbox db"
  "ml_gates (update_outbound_status t tid mid s db) = ml_gates db"
  "gd_messages (update_outbound_status t tid mid s db) = gd_messages db"
  by (simp_all add: update_outbound_status_def split: option.split)

lemma claim_gate_frame [simp]:
  "ml_outbox (claim_gate t item gate db) = ml_outbox db"
  by (simp add: claim_gate_def split: option.split)

lemma put_item_frame [simp]:
  "ml_outbox (put_item k f db) = update_rows (\<lambda>i. eo_id i = k) f (ml_outbox db)"
  "ml_gates (put_item k f db) = ml_gates db"
  by (simp_all add: put_item_def)

lemma item_rewrites_id [simp]:
  "eo_id (start_item t i) = eo_id i" "eo_id (mark_delivered t pid i) = eo_id i"
  "eo_id (mark_indeterminate_item t x i) = eo_id i" "eo_id (mark_retry t x i) = eo_id i"
  by (simp_all add: start_item_def mark_delivered_def mark_indeterminate_item_def mark_retry_def)

section \<open>Case rules\<close>

text \<open>The outbox after a claim: nothing, one row settled, or one row started.\<close>

lemma claim_pass_cases:
  assumes "claim_pass repr_of on_denied key_for e t locked db = Inr (step, db')"
    and "\<And>item d d'. on_denied item d = Inr d' \<Longrightarrow> ml_outbox d' = ml_outbox d"
  obtains (idle) "step = NoWork" "db' = db"
  | (abandoned) item where "step = Settled" "item \<in> set (ml_outbox db)" "eo_state item = ''sending''"
      "ml_outbox db' = update_rows (\<lambda>i. eo_id i = eo_id item) (\<lambda>i. i\<lparr>eo_state := INDETERMINATE,
        eo_last_error := Some ''abandoned_submission_requires_reconciliation'',
        eo_next_attempt_at := None, eo_updated_at := t\<rparr>) (ml_outbox db)"
  | (denied) item reason where "step = Settled" "item \<in> set (ml_outbox db)" "deliverable t locked item"
      "ml_outbox db' = update_rows (\<lambda>i. eo_id i = eo_id item) (\<lambda>i. i\<lparr>eo_state := ''quarantined'',
        eo_last_error := Some reason, eo_updated_at := t\<rparr>) (ml_outbox db)"
  | (claimed) item payload key where "step = Claimed (claim_of item payload key)"
      "item \<in> set (ml_outbox db)" "deliverable t locked item" "decoded_payload item = Some payload"
      "key_for (eo_tenant_id item) (sender_domain_of repr_of payload) = Inr key"
      "payload_allowed e (eo_tenant_id item) payload = Inr True"
      "\<not> reservation_denied repr_of e db item payload"
      "ml_outbox db' = update_rows (\<lambda>i. eo_id i = eo_id item) (start_item t) (ml_outbox db)"
      "ml_gates db' = ml_gates (claim_gate t item (delivery_gate repr_of e db payload) db)"
proof (cases "abandoned_item t locked db")
  case (Some item)
  let ?due = "\<lambda>i. eo_state i = ''sending'' \<and> eo_updated_at i < t - 300 * 1000000 \<and> \<not> locked (eo_id i)"
  have "item \<in> set (select_rows eo_updated_at ?due 1 (ml_outbox db))"
    using Some by (auto simp: abandoned_item_def split: list.splits if_splits)
  then have "item \<in> set (ml_outbox db) \<and> ?due item" by (rule select_rows_in)
  then show thesis
    using assms(1) Some mark_message_frame(1)
    by (intro abandoned [of item]) (auto simp: claim_pass_def quarantine_abandoned_def res_bind_Inr)
next
  case None
  show thesis
  proof (cases "next_item t locked db")
    case None
    then show thesis using assms(1) \<open>abandoned_item t locked db = None\<close> idle by (simp add: claim_pass_def)
  next
    case (Some item)
    then have "item \<in> set (select_rows (\<lambda>i. (eo_priority i, eo_created_at i)) (deliverable t locked) 1 (ml_outbox db))"
      by (auto simp: next_item_def split: list.splits)
    then have item: "item \<in> set (ml_outbox db)" "deliverable t locked item" using select_rows_in by fast+
    show thesis
    proof (cases "decoded_payload item")
      case None
      then show thesis
        using assms(1) \<open>abandoned_item t locked db = None\<close> Some item
        by (intro denied [of item "''invalid_outbox_payload''"]) (auto simp: claim_pass_def quarantine_item_def)
    next
      case (Some payload)
      obtain allowed where allowed: "payload_allowed e (eo_tenant_id item) payload = Inr allowed"
        using assms(1) None \<open>next_item t locked db = Some item\<close> Some by (auto simp: claim_pass_def res_bind_Inr)
      show thesis
      proof (cases "\<not> allowed \<or> reservation_denied repr_of e db item payload")
        case True
        then obtain db1 where "mark_message (eo_message_id item) ''suppressed''
            (quarantine_item t ''production_canary_policy_denied'' item db) = Inr db1"
          "on_denied item db1 = Inr db'" "step = Settled"
          using assms(1) None \<open>next_item t locked db = Some item\<close> Some allowed
          by (auto simp: claim_pass_def res_bind_Inr)
        then show thesis using item mark_message_frame(1) assms(2)
          by (intro denied [of item "''production_canary_policy_denied''"]) (auto simp: quarantine_item_def)
      next
        case False
        then obtain key where "key_for (eo_tenant_id item) (sender_domain_of repr_of payload) = Inr key"
          "mark_message (eo_message_id item) ''submitted'' (put_item (eo_id item) (start_item t)
             (claim_gate t item (delivery_gate repr_of e db payload) db)) = Inr db'"
          "step = Claimed (claim_of item payload key)"
          using assms(1) None \<open>next_item t locked db = Some item\<close> Some allowed
          by (auto simp: claim_pass_def res_bind_Inr)
        then show thesis using item Some allowed False mark_message_frame(1,2)
          by (intro claimed [of item payload key]) auto
      qed
    qed
  qed
qed

text \<open>The row after a report, whichever loop reports.\<close>

definition reported :: "(json \<Rightarrow> string) \<Rightarrow> int \<Rightarrow> delivery_claim \<Rightarrow> provider_reply \<Rightarrow> email_outbox_row \<Rightarrow> email_outbox_row" where
  "reported repr_of t cl reply i =
     (case accepted_id repr_of (dc_message_id cl) reply of
        Inr pid \<Rightarrow> mark_delivered t pid i
      | Inl x \<Rightarrow> if provider_outcome_is_ambiguous x then mark_indeterminate_item t (provider_failure_name x) i
                 else mark_retry t (provider_failure_name x) i)"

lemma reported_id [simp]: "eo_id (reported repr_of t cl reply i) = eo_id i"
  by (simp add: reported_def split: sum.split)

lemma quarantined_outcome_iff [simp]: "quarantined_outcome x i = provider_outcome_is_ambiguous x"
  by (simp add: quarantined_outcome_def reconcile_before_retry_def)

lemma update_rows_none: "find_row P t = None \<Longrightarrow> update_rows P f t = t"
  by (induction t) (auto split: if_splits)

lemma mark_put:
  assumes "mark_message mid v (put_item k f db) = Inr db1"
  shows "ml_outbox db1 = update_rows (\<lambda>i. eo_id i = k) f (ml_outbox db) \<and> ml_gates db1 = ml_gates db"
  using mark_message_frame(1,2) [OF assms] by simp

lemma announce_same:
  "announce st e t kind pid i db = Inr db' \<Longrightarrow> ml_outbox db' = ml_outbox db \<and> ml_gates db' = ml_gates db"
  using announce_frame(1,2) by blast

lemma tenant_report_outbox:
  assumes "tenant_report repr_of t fresh cl reply db = Inr db'"
  shows "ml_outbox db' = update_rows (\<lambda>i. eo_id i = dc_id cl) (reported repr_of t cl reply) (ml_outbox db) \<and>
    ml_gates db' = ml_gates db"
proof (cases "accepted_id repr_of (dc_message_id cl) reply")
  case (Inr pid)
  then have "reported repr_of t cl reply = mark_delivered t pid" by (auto simp: reported_def)
  then show ?thesis using assms Inr
    by (auto simp: tenant_report_def tenant_success_def res_bind_Inr dest!: mark_put)
next
  case (Inl x)
  then have r: "reported repr_of t cl reply = (if provider_outcome_is_ambiguous x
      then mark_indeterminate_item t (provider_failure_name x) else mark_retry t (provider_failure_name x))"
    by (auto simp: reported_def)
  show ?thesis
  proof (cases "get_item db (dc_id cl)")
    case None
    then show ?thesis using assms Inl update_rows_none [of "\<lambda>i. eo_id i = dc_id cl" "ml_outbox db"]
      by (simp add: tenant_report_def tenant_failure_def get_item_def)
  next
    case (Some item)
    then show ?thesis using assms Inl unfolding r
      by (auto simp: tenant_report_def tenant_failure_def Let_def res_bind_Inr split: if_splits dest!: mark_put)
  qed
qed

lemma core_report_outbox:
  assumes "core_report st repr_of e t fresh cl reply db = Inr db'"
  shows "ml_outbox db' = update_rows (\<lambda>i. eo_id i = dc_id cl) (reported repr_of t cl reply) (ml_outbox db) \<and>
    ml_gates db' = ml_gates db"
proof (cases "accepted_id repr_of (dc_message_id cl) reply")
  case (Inr pid)
  then have "reported repr_of t cl reply = mark_delivered t pid" by (auto simp: reported_def)
  then show ?thesis using assms Inr
    by (auto simp: core_report_def core_success_def res_bind_Inr split: option.splits dest!: mark_put announce_same)
next
  case (Inl x)
  then have r: "reported repr_of t cl reply = (if provider_outcome_is_ambiguous x
      then mark_indeterminate_item t (provider_failure_name x) else mark_retry t (provider_failure_name x))"
    by (auto simp: reported_def)
  show ?thesis
  proof (cases "get_item db (dc_id cl)")
    case None
    then show ?thesis using assms Inl update_rows_none [of "\<lambda>i. eo_id i = dc_id cl" "ml_outbox db"]
      by (simp add: core_report_def core_failure_def get_item_def)
  next
    case (Some item)
    then show ?thesis using assms Inl unfolding r
      by (auto simp: core_report_def core_failure_def Let_def res_bind_Inr split: if_splits
          dest!: mark_put announce_same)
  qed
qed

lemma report_delivery_outbox:
  assumes "report_delivery w st repr_of e t fresh cl reply db = Inr db'"
  shows "ml_outbox db' = update_rows (\<lambda>i. eo_id i = dc_id cl) (reported repr_of t cl reply) (ml_outbox db)"
    and "ml_gates db' = ml_gates db"
  using assms tenant_report_outbox core_report_outbox
  by (cases w; fastforce simp: report_delivery_def)+

section \<open>Workers, crashes and cancellations\<close>

text \<open>
  The state of a deployment: the tables, the claims whose submission is under way, and the log of the
  submissions that ended, with their reply or, after a crash, without one. Any number of workers of
  both kinds take part, each with its own clock, environment and credentials.
\<close>

record deployment =
  dp_db :: mail_db
  dp_inflight :: "delivery_claim list"
  dp_log :: "(string \<times> provider_reply option) list"

definition cancel_item :: "int \<Rightarrow> email_outbox_row \<Rightarrow> email_outbox_row" where
  "cancel_item t i = i\<lparr>eo_state := ''cancelled'', eo_last_error := Some ''cancelled_by_middleware_command'',
     eo_updated_at := t\<rparr>"

inductive delivery_step :: "(json \<Rightarrow> string) \<Rightarrow> deployment \<Rightarrow> deployment \<Rightarrow> bool" for repr_of where
  claim: "claim_delivery w st repr_of key_for e t locked (dp_db r) = Inr (Claimed cl, db') \<Longrightarrow>
    delivery_step repr_of r (r\<lparr>dp_db := db', dp_inflight := cl # dp_inflight r\<rparr>)"
| settle: "claim_delivery w st repr_of key_for e t locked (dp_db r) = Inr (Settled, db') \<Longrightarrow>
    delivery_step repr_of r (r\<lparr>dp_db := db'\<rparr>)"
| report: "cl \<in> set (dp_inflight r) \<Longrightarrow>
    report_delivery w st repr_of e t fresh cl reply (dp_db r) = Inr db' \<Longrightarrow>
    delivery_step repr_of r (r\<lparr>dp_db := db', dp_inflight := remove1 cl (dp_inflight r),
      dp_log := (dc_id cl, Some reply) # dp_log r\<rparr>)"
| crash: "cl \<in> set (dp_inflight r) \<Longrightarrow>
    delivery_step repr_of r (r\<lparr>dp_inflight := remove1 cl (dp_inflight r), dp_log := (dc_id cl, None) # dp_log r\<rparr>)"
| enqueue: "get_item (dp_db r) (eo_id i) = None \<Longrightarrow> eo_state i = ''pending'' \<Longrightarrow> eo_attempts i = 0 \<Longrightarrow>
    delivery_step repr_of r (r\<lparr>dp_db := (dp_db r)\<lparr>ml_outbox := ml_outbox (dp_db r) @ [i]\<rparr>\<rparr>)"
| cancel: "get_item (dp_db r) k = Some i \<Longrightarrow> eo_state i \<in> {''pending'', ''retry''} \<Longrightarrow>
    delivery_step repr_of r (r\<lparr>dp_db := put_item k (cancel_item t) (dp_db r)\<rparr>)"

inductive_cases delivery_stepE: "delivery_step repr_of r r'"

definition deployed :: "mail_db \<Rightarrow> deployment" where
  "deployed db = \<lparr>dp_db = db, dp_inflight = [], dp_log = []\<rparr>"

text \<open>Whether Postal may hold the message after a submission, and whether its answer was readable.\<close>

definition may_be_accepted :: "provider_reply option \<Rightarrow> bool" where
  "may_be_accepted o_reply \<longleftrightarrow>
     (case o_reply of
        None \<Rightarrow> True
      | Some (Reply status _) \<Rightarrow> 200 \<le> status \<and> status < 300 \<or> 500 \<le> status
      | Some (Lost x) \<Rightarrow> provider_outcome_is_ambiguous x)"

definition readable :: "(json \<Rightarrow> string) \<Rightarrow> provider_reply option \<Rightarrow> bool" where
  "readable repr_of o_reply \<longleftrightarrow>
     (case o_reply of
        Some (Reply status body) \<Rightarrow> 200 \<le> status \<and> status < 300 \<longrightarrow>
          (\<exists>pid. accepted_id repr_of [] (Reply status body) = Inr pid)
      | _ \<Rightarrow> True)"

definition open_states :: "string list" where
  "open_states = [''sending'', INDETERMINATE]"

definition final_states :: "string list" where
  "final_states = [''sending'', INDETERMINATE, ''delivered'']"

definition row_state_in :: "mail_db \<Rightarrow> string \<Rightarrow> string list \<Rightarrow> bool" where
  "row_state_in db k states \<longleftrightarrow> (\<exists>i. get_item db k = Some i \<and> eo_state i \<in> set states)"

definition delivery_inv :: "(json \<Rightarrow> string) \<Rightarrow> deployment \<Rightarrow> bool" where
  "delivery_inv repr_of r \<longleftrightarrow>
     distinct (map eo_id (ml_outbox (dp_db r))) \<and>
     distinct (map dc_id (dp_inflight r)) \<and>
     (\<forall>cl \<in> set (dp_inflight r). row_state_in (dp_db r) (dc_id cl) open_states) \<and>
     (\<forall>(k, o_reply) \<in> set (dp_log r). may_be_accepted o_reply \<longrightarrow> readable repr_of o_reply \<longrightarrow>
        k \<notin> dc_id ` set (dp_inflight r) \<and> row_state_in (dp_db r) k final_states)"

lemma get_item_update:
  assumes "ml_outbox db' = update_rows (\<lambda>i. eo_id i = k) f (ml_outbox db)" and "\<And>i. eo_id (f i) = eo_id i"
  shows "get_item db' k' = map_option (\<lambda>i. if eo_id i = k then f i else i) (get_item db k')"
  unfolding get_item_def assms(1) by (rule find_update_rows) (rule assms(2))

lemma get_item_Some: "get_item db k = Some i \<Longrightarrow> i \<in> set (ml_outbox db) \<and> eo_id i = k"
  unfolding get_item_def by (rule find_row_Some)

lemma get_item_in:
  "distinct (map eo_id (ml_outbox db)) \<Longrightarrow> i \<in> set (ml_outbox db) \<Longrightarrow> get_item db (eo_id i) = Some i"
  unfolding get_item_def by (rule find_row_unique)

lemma row_state_update:
  assumes "ml_outbox db' = update_rows (\<lambda>i. eo_id i = k) f (ml_outbox db)" and "\<And>i. eo_id (f i) = eo_id i"
  shows "row_state_in db' k' states \<longleftrightarrow>
    (if k' = k then \<exists>i. get_item db k = Some i \<and> eo_state (f i) \<in> set states else row_state_in db k' states)"
  using get_item_Some [of db k'] unfolding row_state_in_def get_item_update [OF assms] by auto

lemma distinct_update:
  assumes "ml_outbox db' = update_rows (\<lambda>i. eo_id i = k) f (ml_outbox db)" and "\<And>i. eo_id (f i) = eo_id i"
  shows "map eo_id (ml_outbox db') = map eo_id (ml_outbox db)"
  unfolding assms(1) by (rule map_update_rows) (rule assms(2))

lemma accepted_id_Inr_iff:
  "(\<exists>pid. accepted_id repr_of mid reply = Inr pid) \<longleftrightarrow> (\<exists>pid. accepted_id repr_of [] reply = Inr pid)"
  by (simp add: accepted_id_def split: provider_reply.split option.split)

text \<open>A readable reply of a submission that Postal may have accepted closes the row.\<close>

lemma reported_final:
  assumes "may_be_accepted (Some reply)" and "readable repr_of (Some reply)"
  shows "eo_state (reported repr_of t cl reply i) \<in> set final_states"
proof (cases reply)
  case (Lost x)
  then show ?thesis using assms(1)
    by (simp add: reported_def accepted_id_def may_be_accepted_def mark_indeterminate_item_def final_states_def)
next
  case (Reply status body)
  show ?thesis
  proof (cases "200 \<le> status \<and> status < 300")
    case True
    then have "\<exists>pid. accepted_id repr_of [] (Reply status body) = Inr pid"
      using assms(2) Reply by (simp add: readable_def)
    then obtain pid where "accepted_id repr_of (dc_message_id cl) reply = Inr pid"
      using accepted_id_Inr_iff [of repr_of "dc_message_id cl"] Reply by blast
    then show ?thesis by (simp add: reported_def mark_delivered_def final_states_def)
  next
    case False
    then have "500 \<le> status" using assms(1) Reply by (auto simp: may_be_accepted_def)
    then show ?thesis
      by (simp add: Reply reported_def accepted_id_def mark_indeterminate_item_def final_states_def)
  qed
qed

lemma deliverable_state: "deliverable t locked i \<Longrightarrow> eo_state i \<in> {''pending'', ''retry''}"
  by (auto simp: deliverable_def)

lemma open_final: "set open_states \<subseteq> set final_states"
  by (simp add: open_states_def final_states_def)

lemma waiting_not_final:
  "s \<in> {''pending'', ''retry''} \<Longrightarrow> s \<notin> set final_states"
  by (auto simp: final_states_def INDETERMINATE_def)

lemma inv_rewrite:
  assumes inv: "delivery_inv repr_of r"
    and upd: "ml_outbox (dp_db r') = update_rows (\<lambda>i. eo_id i = k) f (ml_outbox (dp_db r))"
    and idf: "\<And>i. eo_id (f i) = eo_id i"
    and row: "get_item (dp_db r) k = Some i"
    and flight: "distinct (map dc_id (dp_inflight r'))"
      "\<And>cl. cl \<in> set (dp_inflight r') \<Longrightarrow>
         if dc_id cl = k then eo_state (f i) \<in> set open_states else cl \<in> set (dp_inflight r)"
    and log: "\<And>k' o_reply. (k', o_reply) \<in> set (dp_log r') \<Longrightarrow> may_be_accepted o_reply \<Longrightarrow>
        readable repr_of o_reply \<Longrightarrow>
        if k' = k then eo_state (f i) \<in> set final_states \<and> k \<notin> dc_id ` set (dp_inflight r')
        else (k', o_reply) \<in> set (dp_log r)"
  shows "delivery_inv repr_of r'"
  unfolding delivery_inv_def
proof (intro conjI ballI)
  note state = row_state_update [OF upd idf]
  show "distinct (map eo_id (ml_outbox (dp_db r')))"
    using inv distinct_update [OF upd idf] by (simp add: delivery_inv_def)
  show "distinct (map dc_id (dp_inflight r'))" by (rule flight(1))
  show "row_state_in (dp_db r') (dc_id cl) open_states" if "cl \<in> set (dp_inflight r')" for cl
    using flight(2) [OF that] inv row by (auto simp: state delivery_inv_def split: if_splits)
  show "case entry of (k', o_reply) \<Rightarrow> may_be_accepted o_reply \<longrightarrow> readable repr_of o_reply \<longrightarrow>
      k' \<notin> dc_id ` set (dp_inflight r') \<and> row_state_in (dp_db r') k' final_states"
    if entry: "entry \<in> set (dp_log r')" for entry
  proof (cases entry)
    case (Pair k' o_reply)
    show ?thesis unfolding Pair prod.case
    proof (intro impI)
      assume final: "may_be_accepted o_reply" "readable repr_of o_reply"
      have l: "if k' = k then eo_state (f i) \<in> set final_states \<and> k \<notin> dc_id ` set (dp_inflight r')
          else (k', o_reply) \<in> set (dp_log r)"
        using log [OF _ final] entry Pair by simp
      show "k' \<notin> dc_id ` set (dp_inflight r') \<and> row_state_in (dp_db r') k' final_states"
      proof (cases "k' = k")
        case True
        then show ?thesis using l row by (auto simp: state)
      next
        case False
        then have old: "k' \<notin> dc_id ` set (dp_inflight r)" "row_state_in (dp_db r) k' final_states"
          using l inv final by (auto simp: delivery_inv_def)
        have "k' \<notin> dc_id ` set (dp_inflight r')"
        proof
          assume "k' \<in> dc_id ` set (dp_inflight r')"
          then obtain cl where "cl \<in> set (dp_inflight r')" "k' = dc_id cl" by blast
          then show False using flight(2) [of cl] False old(1) by auto
        qed
        then show ?thesis using old(2) False by (simp add: state)
      qed
    qed
  qed
qed

lemma waiting_not_inflight:
  assumes "delivery_inv repr_of r" and "get_item (dp_db r) k = Some i" and "eo_state i \<in> {''pending'', ''retry''}"
  shows "k \<notin> dc_id ` set (dp_inflight r)"
    and "(k, o_reply) \<in> set (dp_log r) \<Longrightarrow> may_be_accepted o_reply \<Longrightarrow> \<not> readable repr_of o_reply"
proof -
  have "eo_state i \<notin> set final_states" using waiting_not_final [OF assms(3)] .
  then have no: "\<not> row_state_in (dp_db r) k final_states" "\<not> row_state_in (dp_db r) k open_states"
    using assms(2) open_final by (auto simp: row_state_in_def)
  show "k \<notin> dc_id ` set (dp_inflight r)"
  proof
    assume "k \<in> dc_id ` set (dp_inflight r)"
    then show False using assms(1) no(2) by (auto simp: delivery_inv_def)
  qed
  show "\<not> readable repr_of o_reply" if "(k, o_reply) \<in> set (dp_log r)" "may_be_accepted o_reply"
    using assms(1) no(1) that by (auto simp: delivery_inv_def)
qed

lemma claim_delivery_cases:
  assumes "claim_delivery w st repr_of key_for e t locked db = Inr (step, db')"
  obtains (idle) "step = NoWork" "db' = db"
  | (rewritten) item f where "step = Settled" "item \<in> set (ml_outbox db)"
      "eo_state item \<in> {''sending'', ''pending'', ''retry''}" "\<And>i. eo_id (f i) = eo_id i"
      "ml_outbox db' = update_rows (\<lambda>i. eo_id i = eo_id item) f (ml_outbox db)"
      "eo_state item = ''sending'' \<longrightarrow> eo_state (f item) = INDETERMINATE"
  | (claimed) item payload key where "step = Claimed (claim_of item payload key)"
      "item \<in> set (ml_outbox db)" "deliverable t locked item" "decoded_payload item = Some payload"
      "ml_outbox db' = update_rows (\<lambda>i. eo_id i = eo_id item) (start_item t) (ml_outbox db)"
proof -
  let ?on = "case w of TenantLoop \<Rightarrow> (\<lambda>_ d. Inr d)
    | CoreLoop \<Rightarrow> (\<lambda>item d. announce st e t ''email.rejected'' (eo_provider_message_id item) item d)"
  let ?key = "case w of TenantLoop \<Rightarrow> key_for | CoreLoop \<Rightarrow> (\<lambda>_ _. Inr [])"
  have c: "claim_pass repr_of ?on ?key e t locked db = Inr (step, db')"
    using assms by (cases w) (simp_all add: claim_delivery_def)
  have on: "ml_outbox d' = ml_outbox d" if "?on item d = Inr d'" for item d d'
    using that announce_frame(1) by (cases w) auto
  show thesis
  proof (cases rule: claim_pass_cases [OF c on, case_names on_denied idle abandoned denied claimed])
    case (abandoned item)
    then show thesis by (intro rewritten [of item]) auto
  next
    case (denied item reason)
    then show thesis using deliverable_state [OF denied(3)]
      by (intro rewritten [of item "\<lambda>i. i\<lparr>eo_state := ''quarantined'', eo_last_error := Some reason, eo_updated_at := t\<rparr>"]) auto
  qed (use idle claimed in auto)
qed

lemma remove_inflight:
  assumes "delivery_inv repr_of r" and "cl \<in> set (dp_inflight r)"
  shows "distinct (map dc_id (remove1 cl (dp_inflight r)))"
    and "c \<in> set (remove1 cl (dp_inflight r)) \<Longrightarrow> dc_id c \<noteq> dc_id cl \<and> c \<in> set (dp_inflight r)"
proof -
  have d: "distinct (dp_inflight r)" and i: "inj_on dc_id (set (dp_inflight r))"
    using assms(1) by (simp_all add: delivery_inv_def distinct_map)
  have s: "set (remove1 cl (dp_inflight r)) = set (dp_inflight r) - {cl}" using d by (rule set_remove1_eq)
  show "distinct (map dc_id (remove1 cl (dp_inflight r)))"
    using d i s by (simp add: distinct_map inj_on_diff)
  show "dc_id c \<noteq> dc_id cl \<and> c \<in> set (dp_inflight r)" if "c \<in> set (remove1 cl (dp_inflight r))"
    using that i assms(2) unfolding s by (auto simp: inj_on_def)
qed

lemma delivery_inv_step:
  assumes "delivery_step repr_of r r'" and inv: "delivery_inv repr_of r"
  shows "delivery_inv repr_of r'"
  using assms(1)
proof (cases rule: delivery_step.cases)
  case (claim w st key_for e t locked cl db')
  from claim(2) show ?thesis
  proof (cases rule: claim_delivery_cases)
    case (claimed item payload key)
    have row: "get_item (dp_db r) (eo_id item) = Some item"
      using get_item_in claimed(2) inv by (simp add: delivery_inv_def)
    note waiting = waiting_not_inflight [OF inv row deliverable_state [OF claimed(3)]]
    have cl: "dc_id cl = eo_id item" using claimed(1) by (simp add: claim_of_def)
    show ?thesis
    proof (rule inv_rewrite [OF inv _ _ row])
      show "ml_outbox (dp_db r') = update_rows (\<lambda>i. eo_id i = eo_id item) (start_item t) (ml_outbox (dp_db r))"
        using claim(1) claimed(5) by simp
    qed (use claim(1) cl waiting inv in
      \<open>auto simp: start_item_def open_states_def delivery_inv_def image_iff split: if_splits\<close>)
  qed simp_all
next
  case (settle w st key_for e t locked db')
  from settle(2) show ?thesis
  proof (cases rule: claim_delivery_cases)
    case (rewritten item f)
    have row: "get_item (dp_db r) (eo_id item) = Some item"
      using get_item_in rewritten(2) inv by (simp add: delivery_inv_def)
    have waiting: "eo_state item \<in> {''pending'', ''retry''} \<Longrightarrow> eo_id item \<notin> dc_id ` set (dp_inflight r)"
      "eo_state item \<in> {''pending'', ''retry''} \<Longrightarrow> (eo_id item, o_reply) \<in> set (dp_log r) \<Longrightarrow>
        may_be_accepted o_reply \<Longrightarrow> \<not> readable repr_of o_reply" for o_reply
      using waiting_not_inflight [OF inv row] by blast+
    have sending: "eo_state item \<in> {''pending'', ''retry''} \<or>
        eo_state item = ''sending'' \<and> eo_state (f item) = INDETERMINATE"
      using rewritten(3,6) by auto
    have old: "(eo_id item, o_reply) \<in> set (dp_log r) \<Longrightarrow> may_be_accepted o_reply \<Longrightarrow>
        readable repr_of o_reply \<Longrightarrow> eo_id item \<notin> dc_id ` set (dp_inflight r)" for o_reply
      using inv by (auto simp: delivery_inv_def)
    show ?thesis
    proof (rule inv_rewrite [OF inv _ rewritten(4) row])
      show "ml_outbox (dp_db r') = update_rows (\<lambda>i. eo_id i = eo_id item) f (ml_outbox (dp_db r))"
        using settle(1) rewritten(5) by simp
      show "distinct (map dc_id (dp_inflight r'))" using settle(1) inv by (simp add: delivery_inv_def)
      show "if dc_id cl = eo_id item then eo_state (f item) \<in> set open_states else cl \<in> set (dp_inflight r)"
        if "cl \<in> set (dp_inflight r')" for cl
      proof (cases "eo_state item \<in> {''pending'', ''retry''}")
        case True
        have "cl \<in> set (dp_inflight r)" using that settle(1) by simp
        then have "dc_id cl \<noteq> eo_id item" using waiting(1) [OF True] by (metis imageI)
        then show ?thesis using \<open>cl \<in> set (dp_inflight r)\<close> by simp
      next
        case False
        then show ?thesis using that settle(1) sending by (auto simp: open_states_def)
      qed
      show "if k' = eo_id item then eo_state (f item) \<in> set final_states \<and> eo_id item \<notin> dc_id ` set (dp_inflight r')
          else (k', o_reply) \<in> set (dp_log r)"
        if "(k', o_reply) \<in> set (dp_log r')" "may_be_accepted o_reply" "readable repr_of o_reply" for k' o_reply
        using that settle(1) waiting(2) sending old by (auto simp: final_states_def)
    qed
  qed simp_all
next
  case (report cl w st e t fresh reply db')
  obtain i where row: "get_item (dp_db r) (dc_id cl) = Some i"
    using report(2) inv by (auto simp: delivery_inv_def row_state_in_def)
  note rest = remove_inflight(2) [OF inv report(2)]
  show ?thesis
  proof (rule inv_rewrite [OF inv _ _ row])
    show "ml_outbox (dp_db r') = update_rows (\<lambda>i. eo_id i = dc_id cl) (reported repr_of t cl reply) (ml_outbox (dp_db r))"
      using report(1) report_delivery_outbox(1) [OF report(3)] by simp
    show "distinct (map dc_id (dp_inflight r'))"
      using report(1) remove_inflight(1) [OF inv report(2)] by simp
    show "if dc_id c = dc_id cl then eo_state (reported repr_of t cl reply i) \<in> set open_states
        else c \<in> set (dp_inflight r)" if "c \<in> set (dp_inflight r')" for c
    proof -
      have "c \<in> set (remove1 cl (dp_inflight r))" using that report(1) by simp
      then show ?thesis using rest [of c] by presburger
    qed
    show "if k' = dc_id cl
        then eo_state (reported repr_of t cl reply i) \<in> set final_states \<and> dc_id cl \<notin> dc_id ` set (dp_inflight r')
        else (k', o_reply) \<in> set (dp_log r)"
      if "(k', o_reply) \<in> set (dp_log r')" "may_be_accepted o_reply" "readable repr_of o_reply" for k' o_reply
    proof -
      have k': "k' = dc_id cl \<and> o_reply = Some reply \<or> (k', o_reply) \<in> set (dp_log r)" using that(1) report(1) by auto
      have old: "k' \<noteq> dc_id cl" if "(k', o_reply) \<in> set (dp_log r)"
      proof -
        have "k' \<notin> dc_id ` set (dp_inflight r)"
          using inv that \<open>may_be_accepted o_reply\<close> \<open>readable repr_of o_reply\<close> by (auto simp: delivery_inv_def)
        then show ?thesis using report(2) by blast
      qed
      have gone: "dc_id cl \<notin> dc_id ` set (dp_inflight r')" using rest report(1) by fastforce
      show ?thesis
      proof (cases "k' = dc_id cl")
        case True
        then have "o_reply = Some reply" using k' old by blast
        then show ?thesis using True gone reported_final that(2,3) by simp
      next
        case False
        then show ?thesis using k' by simp
      qed
    qed
  qed simp
next
  case (crash cl)
  note rest = remove_inflight(2) [OF inv crash(2)]
  obtain i where row: "get_item (dp_db r) (dc_id cl) = Some i" and state: "eo_state i \<in> set open_states"
    using crash(2) inv by (auto simp: delivery_inv_def row_state_in_def)
  show ?thesis
  proof (rule inv_rewrite [OF inv _ _ row])
    show "ml_outbox (dp_db r') = update_rows (\<lambda>i. eo_id i = dc_id cl) (\<lambda>i. i) (ml_outbox (dp_db r))"
      using crash(1) by (simp add: update_rows_def)
    show "distinct (map dc_id (dp_inflight r'))"
      using crash(1) remove_inflight(1) [OF inv crash(2)] by simp
    show "if dc_id c = dc_id cl then eo_state i \<in> set open_states else c \<in> set (dp_inflight r)"
      if "c \<in> set (dp_inflight r')" for c
    proof -
      have "c \<in> set (remove1 cl (dp_inflight r))" using that crash(1) by simp
      then show ?thesis using rest [of c] by presburger
    qed
    show "if k' = dc_id cl then eo_state i \<in> set final_states \<and> dc_id cl \<notin> dc_id ` set (dp_inflight r')
        else (k', o_reply) \<in> set (dp_log r)" if "(k', o_reply) \<in> set (dp_log r')" for k' o_reply
    proof -
      have "dc_id cl \<notin> dc_id ` set (dp_inflight r')" using rest crash(1) by fastforce
      then show ?thesis using that crash(1) state open_final by auto
    qed
  qed simp
next
  case (enqueue i)
  have "get_item (dp_db r') k = Some j" if "get_item (dp_db r) k = Some j" for k j
    using that enqueue(1) by (simp add: get_item_def find_row_append)
  then have "row_state_in (dp_db r') k states" if "row_state_in (dp_db r) k states" for k states
    using that by (auto simp: row_state_in_def)
  moreover have "eo_id i \<notin> eo_id ` set (ml_outbox (dp_db r))"
    using enqueue(2) unfolding get_item_def find_row_None by auto
  ultimately show ?thesis using inv enqueue(1) by (auto simp: delivery_inv_def)
next
  case (cancel k i t)
  note waiting = waiting_not_inflight [OF inv cancel(2,3)]
  show ?thesis
  proof (rule inv_rewrite [OF inv _ _ cancel(2)])
    show "ml_outbox (dp_db r') = update_rows (\<lambda>i. eo_id i = k) (cancel_item t) (ml_outbox (dp_db r))"
      using cancel(1) by simp
  qed (use cancel(1) waiting inv in \<open>auto simp: cancel_item_def delivery_inv_def\<close>)
qed

lemma delivery_inv_deployed: "distinct (map eo_id (ml_outbox db)) \<Longrightarrow> delivery_inv repr_of (deployed db)"
  by (simp add: delivery_inv_def deployed_def)

lemma delivery_inv_reachable:
  assumes "(delivery_step repr_of)\<^sup>*\<^sup>* r r'" and "delivery_inv repr_of r"
  shows "delivery_inv repr_of r'"
  using assms by (induction rule: rtranclp_induct) (auto intro: delivery_inv_step)

section \<open>Properties\<close>

text \<open>
  C4. Whatever workers of both loops, crashes, cancellations and new messages interleave, a message
  whose submission Postal may have accepted, and whose reply was readable or never came, is not
  claimed for another submission; and no message is claimed while a submission of it is under way.
\<close>

theorem delivery_never_repeated:
  assumes "distinct (map eo_id (ml_outbox db))"
    and "(delivery_step repr_of)\<^sup>*\<^sup>* (deployed db) r"
    and "claim_delivery w st repr_of key_for e t locked (dp_db r) = Inr (Claimed cl, db')"
  shows "dc_id cl \<notin> dc_id ` set (dp_inflight r) \<and>
    (\<forall>o_reply. (dc_id cl, o_reply) \<in> set (dp_log r) \<longrightarrow> may_be_accepted o_reply \<longrightarrow> \<not> readable repr_of o_reply)"
proof -
  have inv: "delivery_inv repr_of r"
    using delivery_inv_reachable [OF assms(2)] delivery_inv_deployed [OF assms(1)] by blast
  from assms(3) show ?thesis
  proof (cases rule: claim_delivery_cases)
    case (claimed item payload key)
    have "get_item (dp_db r) (eo_id item) = Some item"
      using get_item_in claimed(2) inv by (simp add: delivery_inv_def)
    then show ?thesis
      using waiting_not_inflight [OF inv] deliverable_state [OF claimed(3)] claimed(1) by (simp add: claim_of_def)
  qed simp_all
qed

text \<open>
  The exception to the previous property: Postal answers 2xx, so it has taken the message, but the
  body is no JSON object with a data object. The reply is then a failure that is not ambiguous,
  the row goes to retry and, unless it was the fifth attempt, is claimed and submitted again; an
  ambiguous status such as 502 closes the row instead.
\<close>

theorem unreadable_acceptance_resent:
  assumes "get_item db (dc_id cl) = Some i" and "eo_attempts i < 5" and "200 \<le> status" and "status < 300"
    and "accepted_id repr_of (dc_message_id cl) (Reply status body) = Inl x"
    and "report_delivery w st repr_of e t fresh cl (Reply status body) db = Inr db'"
  shows "\<exists>j. get_item db' (dc_id cl) = Some j \<and> eo_state j = ''retry'' \<and> eo_payload j = eo_payload i \<and>
    (\<forall>t2 locked. t + 300 * 1000000 \<le> t2 \<longrightarrow> \<not> locked (dc_id cl) \<longrightarrow> deliverable t2 locked j)"
proof -
  have x: "\<not> provider_outcome_is_ambiguous x"
    using assms(3-5) by (auto simp: accepted_id_def split: option.splits)
  have r: "reported repr_of t cl (Reply status body) i = mark_retry t (provider_failure_name x) i"
    using assms(5) x by (simp add: reported_def)
  have "get_item db' (dc_id cl) = Some (mark_retry t (provider_failure_name x) i)"
    using get_item_update [OF report_delivery_outbox(1) [OF assms(6)], of "dc_id cl"] assms(1)
      get_item_Some [OF assms(1)] r by simp
  moreover have "\<not> exhausted i" using assms(2) by (simp add: exhausted_def)
  ultimately show ?thesis
    using get_item_Some [OF assms(1)] assms(2) by (auto simp: mark_retry_def deliverable_def)
qed

text \<open>
  C39. A tenant without a credential blocks the queue. When the next row in order belongs to a tenant
  whose key cannot be read, the pass raises before it has recorded anything: the transaction is rolled
  back, the row stays first, and no sequence of passes changes anything, whatever other rows are due.
\<close>

theorem missing_credential_blocks_queue:
  assumes "\<forall>t \<in> set ts. abandoned_item t locked db = None \<and> next_item t locked db = Some item"
    and "decoded_payload item = Some payload"
    and "payload_allowed e (eo_tenant_id item) payload = Inr True"
    and "\<not> reservation_denied repr_of e db item payload"
    and "key_for (eo_tenant_id item) (sender_domain_of repr_of payload) = Inl x"
  shows "fold (\<lambda>t. delivery_pass TenantLoop safe st repr_of key_for fl e postal t locked meanwhile (t + lag) fresh)
    ts db = db"
  using assms(1)
proof (induction ts)
  case (Cons t ts)
  have "claim_delivery TenantLoop st repr_of key_for e t locked db = Inl x"
    using Cons.prems assms(2-5) by (simp add: claim_delivery_def claim_pass_def)
  then have "delivery_pass TenantLoop safe st repr_of key_for fl e postal t locked meanwhile (t + lag) fresh db = db"
    by (simp add: delivery_pass_def)
  then show ?case using Cons by simp
qed simp

lemma payload_sender_allowed:
  assumes "canary_payload_allowed e payload = Inr True"
  shows "canary_configuration_valid e \<and> payload_recipients payload = [fst (snd (snd (canary_configuration e)))]"
  using assms
  by (auto simp: canary_payload_allowed_def Let_def res_bind_Inr split: if_splits prod.splits)

lemma campaign_payload_allowed:
  assumes "campaign_worker_payload_allowed e payload tid = Inr True"
    and "campaign_execution_mode e \<noteq> ''CAMPAIGN_PRODUCTION_ENABLED''"
  shows "payload_recipients payload = campaign_recipients e \<and> length (campaign_recipients e) = 1 \<and>
    tid = env_get e ''KLYROW_CAMPAIGN_CANARY_TENANT_ID'' []"
  using assms
  by (auto simp: campaign_worker_payload_allowed_def campaign_canary_payload_allowed_def res_bind_Inr split: if_splits)

lemma canary_maximum: "canary_configuration_valid e \<Longrightarrow> snd (snd (snd (canary_configuration e))) = 1"
  by (auto simp: canary_configuration_valid_def split: prod.splits)

text \<open>Gates are never removed, and their claimed deliveries are never given back.\<close>

definition gates_kept :: "mail_db \<Rightarrow> mail_db \<Rightarrow> bool" where
  "gates_kept db db' \<longleftrightarrow> (\<forall>k g. find_gate k (ml_gates db) = Some g \<longrightarrow>
     (\<exists>g'. find_gate k (ml_gates db') = Some g' \<and> ga_claimed_deliveries g \<le> ga_claimed_deliveries g'))"

lemma gates_kept_same: "ml_gates db' = ml_gates db \<Longrightarrow> gates_kept db db'"
  by (simp add: gates_kept_def)

lemma gates_kept_trans: "gates_kept a b \<Longrightarrow> gates_kept b c \<Longrightarrow> gates_kept a c"
  unfolding gates_kept_def by (meson order.trans)

lemma claim_gate_kept: "gates_kept db (claim_gate t item gate db)"
  by (auto simp: gates_kept_def claim_gate_def find_gate_def update_gate_def find_update_rows split: option.splits)

lemma claim_delivery_gates:
  assumes "claim_delivery w st repr_of key_for e t locked db = Inr (step, db')"
  shows "gates_kept db db'"
proof -
  let ?on = "case w of TenantLoop \<Rightarrow> (\<lambda>_ d. Inr d)
    | CoreLoop \<Rightarrow> (\<lambda>item d. announce st e t ''email.rejected'' (eo_provider_message_id item) item d)"
  let ?key = "case w of TenantLoop \<Rightarrow> key_for | CoreLoop \<Rightarrow> (\<lambda>_ _. Inr [])"
  have c: "claim_pass repr_of ?on ?key e t locked db = Inr (step, db')"
    using assms by (cases w) (simp_all add: claim_delivery_def)
  have on: "ml_gates d' = ml_gates d" if "?on item d = Inr d'" for item d d'
    using that announce_frame(2) by (cases w) auto
  have same: "gates_kept db d" if "ml_gates d = ml_gates (claim_gate t item g db)" for d t item g
    using that claim_gate_kept [of db t item g] by (simp add: gates_kept_def)
  show ?thesis using c
    unfolding claim_pass_def quarantine_abandoned_def
    by (auto simp: res_bind_Inr quarantine_item_def intro: gates_kept_same same
        dest!: mark_message_frame(2) on split: option.splits if_splits)
qed

lemma delivery_step_gates: "delivery_step repr_of r r' \<Longrightarrow> gates_kept (dp_db r) (dp_db r')"
  by (erule delivery_step.cases)
     (auto intro: claim_delivery_gates gates_kept_same simp: report_delivery_outbox(2))

lemma delivery_run_gates:
  assumes "(delivery_step repr_of)\<^sup>*\<^sup>* r r'"
  shows "gates_kept (dp_db r) (dp_db r')"
  using assms
  by (induction rule: rtranclp_induct) (auto intro: gates_kept_same gates_kept_trans delivery_step_gates)

text \<open>What a first attempt finds in its gate.\<close>

lemma first_attempt_gate:
  assumes "claim_delivery w st repr_of key_for e t locked db = Inr (Claimed cl, db')"
    and "\<not> campaign_production e (dc_payload cl)"
    and "distinct (map eo_id (ml_outbox db))"
  obtains item g where "get_item db (dc_id cl) = Some item" "eo_tenant_id item = dc_tenant_id cl"
    "payload_allowed e (dc_tenant_id cl) (dc_payload cl) = Inr True"
    "delivery_gate repr_of e db (dc_payload cl) = Some g"
    "eo_attempts item = 0 \<Longrightarrow> ga_claimed_deliveries g < ga_reserved_deliveries g \<and> ga_claimed_deliveries g < 1"
    "ml_gates db' = ml_gates (claim_gate t item (Some g) db)"
proof -
  let ?on = "case w of TenantLoop \<Rightarrow> (\<lambda>_ d. Inr d)
    | CoreLoop \<Rightarrow> (\<lambda>item d. announce st e t ''email.rejected'' (eo_provider_message_id item) item d)"
  let ?key = "case w of TenantLoop \<Rightarrow> key_for | CoreLoop \<Rightarrow> (\<lambda>_ _. Inr [])"
  have c: "claim_pass repr_of ?on ?key e t locked db = Inr (Claimed cl, db')"
    using assms(1) by (cases w) (simp_all add: claim_delivery_def)
  have on: "ml_outbox d' = ml_outbox d" if "?on item d = Inr d'" for item d d'
    using that announce_frame(1) by (cases w) auto
  show thesis
  proof (cases rule: claim_pass_cases [OF c on, case_names on_denied idle abandoned denied claimed])
    case (claimed item payload key)
    have cl: "dc_payload cl = payload" "dc_id cl = eo_id item" "dc_tenant_id cl = eo_tenant_id item"
      using claimed(1) by (simp_all add: claim_of_def)
    have "\<not> is_campaign payload \<Longrightarrow> canary_payload_allowed e payload = Inr True"
      using claimed(6) by (simp add: payload_allowed_def)
    then have maximum: "(if is_campaign payload then 1 else snd (snd (snd (canary_configuration e)))) = 1"
      using canary_maximum payload_sender_allowed by presburger
    obtain g where g: "delivery_gate repr_of e db payload = Some g"
      and room: "eo_attempts item = 0 \<Longrightarrow> ga_claimed_deliveries g < ga_reserved_deliveries g \<and> ga_claimed_deliveries g < 1"
      using claimed(7) assms(2) cl maximum
      by (cases "delivery_gate repr_of e db payload") (auto simp: reservation_denied_def Let_def)
    show thesis
      using that [of item g] get_item_in [OF _ claimed(2)] assms(3) cl claimed(6,9) g room by simp
  qed simp_all
qed

text \<open>
  C38. Outside campaign production nothing is submitted but the canary: a claimed payload goes to
  exactly the one configured recipient (a campaign's only for the one configured tenant), and its
  gate exists. A first attempt moreover finds a reservation that is not used up, and takes the gate's
  only delivery: however workers of both loops, whatever their configuration, crashes, new messages
  and cancellations go on from there, no other first attempt is ever claimed against that gate. (A
  retry is not counted again; the counter starts at zero.)
\<close>

theorem canary_confines_delivery:
  assumes "distinct (map eo_id (ml_outbox db))"
    and "claim_delivery w st repr_of key_for e t locked db = Inr (Claimed cl, db')"
    and "\<not> campaign_production e (dc_payload cl)"
  shows "(if is_campaign (dc_payload cl)
          then payload_recipients (dc_payload cl) = campaign_recipients e \<and> length (campaign_recipients e) = 1 \<and>
               dc_tenant_id cl = env_get e ''KLYROW_CAMPAIGN_CANARY_TENANT_ID'' []
          else payload_recipients (dc_payload cl) = [fst (snd (snd (canary_configuration e)))]) \<and>
    (\<exists>item g. get_item db (dc_id cl) = Some item \<and> eo_tenant_id item = dc_tenant_id cl \<and>
       delivery_gate repr_of e db (dc_payload cl) = Some g \<and>
       (eo_attempts item = 0 \<longrightarrow>
          ga_claimed_deliveries g < 1 \<and> ga_claimed_deliveries g < ga_reserved_deliveries g \<and>
          (\<exists>g'. delivery_gate repr_of e db' (dc_payload cl) = Some g' \<and>
             ga_claimed_deliveries g' = ga_claimed_deliveries g + 1) \<and>
          (0 \<le> ga_claimed_deliveries g \<longrightarrow>
             (\<forall>r w2 st2 key2 e2 t2 locked2 cl2 db2 g2 item2.
                (delivery_step repr_of)\<^sup>*\<^sup>* \<lparr>dp_db = db', dp_inflight = [cl], dp_log = []\<rparr> r \<and>
                claim_delivery w2 st2 repr_of key2 e2 t2 locked2 (dp_db r) = Inr (Claimed cl2, db2) \<and>
                \<not> campaign_production e2 (dc_payload cl2) \<and>
                delivery_gate repr_of e2 (dp_db r) (dc_payload cl2) = Some g2 \<and>
                ga_gate_key g2 = ga_gate_key g \<and> get_item (dp_db r) (dc_id cl2) = Some item2 \<longrightarrow>
                eo_attempts item2 \<noteq> 0))))"
proof -
  obtain item g where c: "get_item db (dc_id cl) = Some item" "eo_tenant_id item = dc_tenant_id cl"
    "payload_allowed e (dc_tenant_id cl) (dc_payload cl) = Inr True"
    "delivery_gate repr_of e db (dc_payload cl) = Some g"
    "eo_attempts item = 0 \<Longrightarrow> ga_claimed_deliveries g < ga_reserved_deliveries g \<and> ga_claimed_deliveries g < 1"
    "ml_gates db' = ml_gates (claim_gate t item (Some g) db)"
    using first_attempt_gate [OF assms(2,3,1)] by blast
  have recipients: "if is_campaign (dc_payload cl)
          then payload_recipients (dc_payload cl) = campaign_recipients e \<and> length (campaign_recipients e) = 1 \<and>
               dc_tenant_id cl = env_get e ''KLYROW_CAMPAIGN_CANARY_TENANT_ID'' []
          else payload_recipients (dc_payload cl) = [fst (snd (snd (canary_configuration e)))]"
    using c(3) campaign_payload_allowed [of e "dc_payload cl" "dc_tenant_id cl"]
      payload_sender_allowed [of e "dc_payload cl"] assms(3)
    by (auto simp: payload_allowed_def campaign_production_def)
  let ?r = "\<lparr>dp_db = db', dp_inflight = [cl], dp_log = []\<rparr>"
  have "delivery_step repr_of (deployed db) ((deployed db)\<lparr>dp_db := db', dp_inflight := cl # dp_inflight (deployed db)\<rparr>)"
    by (rule delivery_step.claim) (use assms(2) in \<open>simp add: deployed_def\<close>)
  then have inv: "delivery_inv repr_of ?r"
    using delivery_inv_step delivery_inv_deployed [OF assms(1)] by (simp add: deployed_def)
  let ?f = "\<lambda>g. g\<lparr>ga_claimed_deliveries := ga_claimed_deliveries g + 1, ga_updated_at := t\<rparr>"
  have key: "find_gate (ga_gate_key g) (ml_gates db) = Some g"
    using c(4) find_row_Some unfolding delivery_gate_def find_gate_def by (fastforce split: if_splits)
  have now: "find_gate (ga_gate_key g) (ml_gates db') = Some (?f g)" if "eo_attempts item = 0"
    using find_update_first [OF key [unfolded find_gate_def], of ?f] c(6) that
    by (simp add: claim_gate_def find_gate_def update_gate_def)
  have gate': "delivery_gate repr_of e db' (dc_payload cl) = Some (?f g)" if "eo_attempts item = 0"
    using now [OF that] c(4) find_row_Some unfolding delivery_gate_def find_gate_def
    by (fastforce split: if_splits)
  have spent: "eo_attempts item2 \<noteq> 0"
    if "eo_attempts item = 0" and "0 \<le> ga_claimed_deliveries g" and run: "(delivery_step repr_of)\<^sup>*\<^sup>* ?r r"
      and claim2: "claim_delivery w2 st2 repr_of key2 e2 t2 locked2 (dp_db r) = Inr (Claimed cl2, db2)"
      and production: "\<not> campaign_production e2 (dc_payload cl2)"
      and g2: "delivery_gate repr_of e2 (dp_db r) (dc_payload cl2) = Some g2" "ga_gate_key g2 = ga_gate_key g"
      and item2: "get_item (dp_db r) (dc_id cl2) = Some item2"
    for r w2 st2 key2 e2 t2 locked2 cl2 db2 g2 item2
  proof
    assume zero: "eo_attempts item2 = 0"
    have d: "distinct (map eo_id (ml_outbox (dp_db r)))"
      using delivery_inv_reachable [OF run inv] by (simp add: delivery_inv_def)
    have "ga_claimed_deliveries g2 < 1"
      using first_attempt_gate [OF claim2 production d] item2 g2(1) zero by (metis option.inject)
    moreover have "find_gate (ga_gate_key g) (ml_gates (dp_db r)) = Some g2"
      using g2 find_row_Some unfolding delivery_gate_def find_gate_def by (fastforce split: if_splits)
    then have "ga_claimed_deliveries (?f g) \<le> ga_claimed_deliveries g2"
      using delivery_run_gates [OF run] now [OF that(1)] by (fastforce simp: gates_kept_def)
    ultimately show False using that(2) by simp
  qed
  have room: "ga_claimed_deliveries g < 1 \<and> ga_claimed_deliveries g < ga_reserved_deliveries g \<and>
      (\<exists>g'. delivery_gate repr_of e db' (dc_payload cl) = Some g' \<and>
        ga_claimed_deliveries g' = ga_claimed_deliveries g + 1)" if "eo_attempts item = 0"
    using c(5) [OF that] gate' [OF that] by simp
  show ?thesis using recipients c(1,2,4) room spent by blast
qed

section \<open>Instances\<close>

definition canary_env :: env where
  "canary_env = env_of [(''KLYROW_CANARY_ALLOWED_DOMAIN'', ''a.org''), (''KLYROW_CANARY_ALLOWED_SENDER'', ''n@a.org''),
     (''KLYROW_CANARY_ALLOWED_RECIPIENT'', ''r@b.org''), (''KLYROW_CANARY_MAX_DELIVERIES'', ''1''),
     (''KLYROW_CANARY_ALLOWED_CAMPAIGN'', ''c1''), (''KLYROW_POSTAL_API_URL'', ''http://postal'')]"

definition canary_payload :: "(string \<times> json) list" where
  "canary_payload = [(''to'', JList [JStr ''r@b.org'']), (''from'', JStr ''n@a.org''),
     (''campaign_id'', JStr ''c1''), (''stream'', JStr ''transactional'')]"

definition outbox_sample :: "string \<Rightarrow> string \<Rightarrow> int \<Rightarrow> email_outbox_row" where
  "outbox_sample k state attempts = \<lparr>eo_id = k, eo_tenant_id = ''t1'', eo_message_id = ''m-'' @ k, eo_operation_id = None,
     eo_correlation_id = None, eo_payload = JText (JObj canary_payload), eo_priority = 20, eo_state = state,
     eo_attempts = attempts, eo_provider_message_id = None, eo_last_error = None, eo_next_attempt_at = None,
     eo_created_at = 0, eo_updated_at = 0\<rparr>"

definition mail_sample :: mail_db where
  "mail_sample = \<lparr>gd_tenants = [], gd_suppressions = [], gd_scoped_suppressions = [], gd_profiles = [],
     gd_preferences = [], gd_consents = [], gd_policies = [], gd_messages = [], gd_provider_messages = [],
     gd_subscriptions = [], ml_outbox = [outbox_sample ''d1'' ''pending'' 0, outbox_sample ''d2'' ''retry'' 1],
     ml_gates = [\<lparr>ga_gate_key = ''klyrow-single-domain'', ga_reserved_deliveries = 1, ga_claimed_deliveries = 0,
                  ga_updated_at = 0\<rparr>],
     ml_events = [], ml_lifecycle = [], ml_business = [], ml_webmail = []\<rparr>"

definition sample_stamps :: stamps where
  "sample_stamps = \<lparr>st_codec = plain_codec JNull, st_uuid5 = (\<lambda>s. s),
     st_draws = \<lparr>dw_now = 0, dw_row_id = ''r'', dw_event_id = ''e'', dw_correlation = ''c'', dw_carrier = []\<rparr>\<rparr>"

definition claim_sample :: "int \<Rightarrow> mail_db \<Rightarrow> (claim_step \<times> mail_db) res" where
  "claim_sample t db =
     claim_delivery TenantLoop sample_stamps (\<lambda>_. []) (\<lambda>_ _. Inr ''key'') canary_env t (\<lambda>_. False) db"

definition first_claim :: delivery_claim where
  "first_claim = claim_of (outbox_sample ''d1'' ''pending'' 0) canary_payload ''key''"

lemma mail_sample_ids: "distinct (map eo_id (ml_outbox mail_sample))"
  by (simp add: mail_sample_def outbox_sample_def)

lemma first_claim_eval:
  "case claim_sample 10 mail_sample of Inr (Claimed cl, db) \<Rightarrow> cl = first_claim | _ \<Rightarrow> False"
  by code_simp

definition after_claim :: "mail_db res" where
  "after_claim = res_bind (claim_sample 10 mail_sample) (\<lambda>r. Inr (snd r))"

definition after_report :: "nat \<Rightarrow> json option \<Rightarrow> mail_db res" where
  "after_report status body = res_bind after_claim (\<lambda>db.
     report_delivery TenantLoop sample_stamps (\<lambda>_. []) canary_env 20 ''f'' first_claim (Reply status body) db)"

lemma after_claim_step:
  obtains db1 where "claim_sample 10 mail_sample = Inr (Claimed first_claim, db1)" "after_claim = Inr db1"
  using first_claim_eval by (auto simp: after_claim_def split: sum.splits claim_step.splits)

lemma after_bad_gateway:
  "case res_bind (after_report 502 None) (claim_sample 30) of
     Inr (Claimed cl, db) \<Rightarrow> dc_id cl = ''d2'' | _ \<Rightarrow> False"
  by code_simp

text \<open>Postal fails with 502 while it may hold the first message; the next claim takes the other one.\<close>

theorem delivery_never_repeated_witness:
  "\<exists>db2 cl db3. after_report 502 None = Inr db2 \<and> claim_sample 30 db2 = Inr (Claimed cl, db3) \<and> dc_id cl \<noteq> ''d1''"
proof -
  obtain db1 where db1: "claim_sample 10 mail_sample = Inr (Claimed first_claim, db1)" "after_claim = Inr db1"
    by (rule after_claim_step)
  obtain db2 cl db3 where db2: "after_report 502 None = Inr db2" and cl: "claim_sample 30 db2 = Inr (Claimed cl, db3)"
    using after_bad_gateway by (cases "after_report 502 None") (auto split: sum.splits claim_step.splits)
  have report: "report_delivery TenantLoop sample_stamps (\<lambda>_. []) canary_env 20 ''f'' first_claim (Reply 502 None) db1 = Inr db2"
    using db2 unfolding after_report_def db1(2) by simp
  let ?r0 = "deployed mail_sample"
  let ?r1 = "?r0\<lparr>dp_db := db1, dp_inflight := [first_claim]\<rparr>"
  let ?r2 = "?r1\<lparr>dp_db := db2, dp_inflight := [], dp_log := [(''d1'', Some (Reply 502 None))]\<rparr>"
  have id: "dc_id first_claim = ''d1''" by (simp add: first_claim_def claim_of_def outbox_sample_def)
  have "delivery_step (\<lambda>_. []) ?r0 ?r1"
    using delivery_step.claim [of TenantLoop sample_stamps "\<lambda>_. []" _ canary_env 10 "\<lambda>_. False" ?r0 first_claim db1]
      db1(1) by (simp add: claim_sample_def deployed_def)
  moreover have "delivery_step (\<lambda>_. []) ?r1 ?r2"
    using delivery_step.report [of first_claim ?r1 TenantLoop sample_stamps "\<lambda>_. []" canary_env 20 "''f''" "Reply 502 None" db2]
      report id by (simp add: deployed_def)
  ultimately have "(delivery_step (\<lambda>_. []))\<^sup>*\<^sup>* ?r0 ?r2" by (meson converse_rtranclp_into_rtranclp r_into_rtranclp)
  from delivery_never_repeated [OF mail_sample_ids this, of TenantLoop sample_stamps "\<lambda>_ _. Inr ''key''"
      canary_env 30 "\<lambda>_. False" cl db3]
  have "dc_id cl \<noteq> ''d1''"
    using cl by (auto simp: claim_sample_def may_be_accepted_def readable_def)
  then show ?thesis using db2 cl by blast
qed

theorem unreadable_acceptance_resent_witness:
  "\<exists>db2 j. after_report 200 None = Inr db2 \<and> get_item db2 ''d1'' = Some j \<and> deliverable 300000020 (\<lambda>_. False) j"
proof -
  obtain db1 where db1: "after_claim = Inr db1" by (rule after_claim_step)
  have "case after_report 200 None of Inr _ \<Rightarrow> True | _ \<Rightarrow> False" by code_simp
  then obtain db2 where db2: "after_report 200 None = Inr db2" by (auto split: sum.splits)
  then have report: "report_delivery TenantLoop sample_stamps (\<lambda>_. []) canary_env 20 ''f'' first_claim (Reply 200 None) db1 = Inr db2"
    unfolding after_report_def db1 by simp
  have "case after_claim of Inr db \<Rightarrow> (case get_item db ''d1'' of Some i \<Rightarrow> eo_attempts i < 5 | None \<Rightarrow> False) | _ \<Rightarrow> False"
    by code_simp
  from this [unfolded db1] obtain i where i: "get_item db1 (dc_id first_claim) = Some i" "eo_attempts i < 5"
    by (auto simp: first_claim_def claim_of_def outbox_sample_def split: option.splits)
  have x: "accepted_id (\<lambda>_. []) (dc_message_id first_claim) (Reply 200 None) = Inl (provider_exn.OtherError ''JSONDecodeError'')"
    by (simp add: accepted_id_def)
  from unreadable_acceptance_resent [OF i _ _ x report]
  obtain j where "get_item db2 (dc_id first_claim) = Some j" "deliverable 300000020 (\<lambda>_. False) j" by auto
  then show ?thesis using db2 by (auto simp: first_claim_def claim_of_def outbox_sample_def)
qed

text \<open>The keys come from provisioning tables in which the tenant is not ready.\<close>

definition blocked_key :: "string \<Rightarrow> string \<Rightarrow> string res" where
  "blocked_key tid domain =
     tenant_postal_api_key plain_vault (Inr ''k'') token_files canary_env provision_sample tid domain"

theorem missing_credential_blocks_queue_witness:
  "fold (\<lambda>t. delivery_pass TenantLoop False sample_stamps (\<lambda>_. []) blocked_key token_files canary_env
       (\<lambda>_ _ _. Reply 200 None) t (\<lambda>_. False) (\<lambda>d. d) (t + 1) ''f'') [10, 20, 30] mail_sample = mail_sample \<and>
   list_all (deliverable 10 (\<lambda>_. False)) (ml_outbox mail_sample)"
proof -
  let ?item = "outbox_sample ''d1'' ''pending'' 0"
  have "list_all (\<lambda>t. abandoned_item t (\<lambda>_. False) mail_sample = None \<and>
      next_item t (\<lambda>_. False) mail_sample = Some ?item) [10, 20, 30]"
    by code_simp
  then have head: "\<forall>t \<in> set [10, 20, 30]. abandoned_item t (\<lambda>_. False) mail_sample = None \<and>
      next_item t (\<lambda>_. False) mail_sample = Some ?item"
    by (simp add: list_all_iff)
  have payload: "decoded_payload ?item = Some canary_payload" by code_simp
  have allowed: "payload_allowed canary_env (eo_tenant_id ?item) canary_payload = Inr True" by code_simp
  have room: "\<not> reservation_denied (\<lambda>_. []) canary_env mail_sample ?item canary_payload" by code_simp
  have key: "blocked_key (eo_tenant_id ?item) (sender_domain_of (\<lambda>_. []) canary_payload) =
      Inl (RuntimeError ''postal sender domain is not provisioned'')"
    by code_simp
  have "list_all (deliverable 10 (\<lambda>_. False)) (ml_outbox mail_sample)" by code_simp
  then show ?thesis
    using missing_credential_blocks_queue [of "[10, 20, 30]" "\<lambda>_. False" mail_sample ?item canary_payload canary_env
        "\<lambda>_. []" blocked_key, OF head payload allowed room key]
    by blast
qed

theorem canary_confines_delivery_witness:
  "payload_recipients (dc_payload first_claim) = [''r@b.org'']"
proof -
  obtain db1 where "claim_sample 10 mail_sample = Inr (Claimed first_claim, db1)" by (rule after_claim_step)
  then have c: "claim_delivery TenantLoop sample_stamps (\<lambda>_. []) (\<lambda>_ _. Inr ''key'') canary_env 10 (\<lambda>_. False)
      mail_sample = Inr (Claimed first_claim, db1)" by (simp add: claim_sample_def)
  have p: "\<not> campaign_production canary_env (dc_payload first_claim)" by code_simp
  have "fst (snd (snd (canary_configuration canary_env))) = ''r@b.org''" by code_simp
  moreover have "\<not> is_campaign (dc_payload first_claim)" by code_simp
  ultimately show ?thesis using canary_confines_delivery [OF mail_sample_ids c p] by simp
qed

end
