(* ===== verification/MessageIntake.thy ===== *)
theory MessageIntake
  imports EmailDelivery DurableResults
begin

text \<open>
  The intake of a message: \<open>_send\<close> of \<open>main.py\<close> and the version that \<open>runtime_authority_fixes.py\<close>
  installs in its place, with the gates they run: \<open>enforce_tenant_send_gate\<close> (\<open>operations.py\<close>),
  \<open>authorize_agent_sender\<close> (\<open>agent_mailboxes.py\<close>), \<open>authorize_send\<close> (theory \<open>Guards\<close>), the canary
  policies (theory \<open>CoreMail\<close>) and \<open>enforce_delivery_controls\<close> (\<open>delivery_controls.py\<close>). The result is
  the response or the exception, with the session's state at that point.
\<close>

section \<open>State\<close>

record domain_row =
  dn_id :: string
  dn_tenant_id :: string
  dn_domain :: string
  dn_token :: string
  dn_verified :: bool

record allowed_sender_row =
  as_tenant_id :: string
  as_address :: string
  as_enabled :: bool

record send_gate_row =
  sg_tenant_id :: string
  sg_enabled :: bool

record campaign_domain_row =
  cd_tenant_id :: string
  cd_campaign_id :: string
  cd_primary_domain :: string
  cd_default_reply_to :: "string option"
  cd_status :: string
  cd_sender_domain_verified :: bool
  cd_sending_enabled :: bool

record sender_authorization_row =
  sa_tenant_id :: string
  sa_campaign_id :: string
  sa_mailbox_id :: string
  sa_sender :: string
  sa_enabled :: bool

record agent_mailbox_row =
  am_mailbox_id :: string
  am_keycloak_user_id :: "string option"
  am_mailbox_status :: string
  am_sending_enabled :: bool

record suspension_row =
  su_tenant_id :: string
  su_resource_type :: string
  su_resource_id :: string
  su_active :: bool

text \<open>\<open>daily_limits_json\<close> is the non-empty list of integers that the warm-up route has stored.\<close>

record warmup_row =
  wu_tenant_id :: string
  wu_domain :: string
  wu_stream :: string
  wu_starts_at :: int
  wu_daily_limits :: "int list"
  wu_active :: bool

record accepted_usage_row =
  uv_id :: string
  uv_tenant_id :: string
  uv_subscription_id :: string
  uv_message_id :: "string option"
  uv_event_key :: string
  uv_unit :: string
  uv_quantity :: int
  uv_price_id :: string

record intake_db =
  ik_mail :: mail_db
  ik_domains :: "domain_row list"
  ik_allowed :: "allowed_sender_row list"
  ik_send_gates :: "send_gate_row list"
  ik_campaign_domains :: "campaign_domain_row list"
  ik_authorizations :: "sender_authorization_row list"
  ik_mailboxes :: "agent_mailbox_row list"
  ik_suspensions :: "suspension_row list"
  ik_warmups :: "warmup_row list"
  ik_idempotency :: "replay_row list"
  ik_usage :: "accepted_usage_row list"

text \<open>The authenticated caller; \<open>cx_service\<close> is the text of the claim.\<close>

record request_ctx =
  cx_tenant :: string
  cx_sub :: "string option"
  cx_client_id :: "string option"
  cx_service :: "string option"
  cx_role :: "string option"
  cx_browser :: bool
  cx_mail_channel :: "string option"

section \<open>Gates\<close>

definition enforce_tenant_send_gate :: "intake_db \<Rightarrow> string \<Rightarrow> unit res" where
  "enforce_tenant_send_gate db tid =
     (case find_row (\<lambda>g. sg_tenant_id g = tid) (ik_send_gates db) of
        Some g \<Rightarrow> if \<not> sg_enabled g then Inl (HTTPException 403 ''tenant_send_gate_disabled'') else Inr ()
      | None \<Rightarrow> Inr ())"

definition authorize_agent_sender ::
  "env \<Rightarrow> intake_db \<Rightarrow> request_ctx \<Rightarrow> string \<Rightarrow> string option \<Rightarrow> string option \<Rightarrow> unit res" where
  "authorize_agent_sender e db ctx sender campaign_id reply_to =
     (let agent = (cx_role ctx = Some ''codestra-email-agent'');
          normalized = lower sender
      in if absent campaign_id
         then (if cx_browser ctx \<and> cx_mail_channel ctx = Some ''webmail'' then Inr ()
               else if agent \<or> lower (env_get e ''KLYROW_CAMPAIGN_REQUIRED'' ''false'') = ''true''
               then Inl (HTTPException 403 ''campaign_required'') else Inr ())
         else
           (case find_row (\<lambda>m. cd_tenant_id m = cx_tenant ctx \<and> Some (cd_campaign_id m) = campaign_id \<and>
                    cd_status m = ''active'' \<and> cd_sender_domain_verified m \<and> cd_sending_enabled m)
                   (ik_campaign_domains db) of
              None \<Rightarrow> Inl (HTTPException 403 ''campaign_sender_domain_denied'')
            | Some mapping \<Rightarrow>
                (if after_last (CHR ''@'') normalized \<noteq> cd_primary_domain mapping
                 then Inl (HTTPException 403 ''campaign_sender_domain_denied'')
                 else if \<not> absent (cd_default_reply_to mapping) \<and>
                         (absent reply_to \<or> map_option lower reply_to \<noteq> map_option lower (cd_default_reply_to mapping))
                 then Inl (HTTPException 403 ''campaign_reply_to_denied'')
                 else (case find_row (\<lambda>a. sa_tenant_id a = cx_tenant ctx \<and> Some (sa_campaign_id a) = campaign_id \<and>
                                sa_sender a = normalized \<and> sa_enabled a) (ik_authorizations db) of
                         None \<Rightarrow> Inl (HTTPException 403 ''campaign_sender_not_authorized'')
                       | Some authorization \<Rightarrow>
                           (if agent \<and>
                               find_row (\<lambda>m. am_mailbox_id m = sa_mailbox_id authorization \<and>
                                   am_keycloak_user_id m = cx_sub ctx \<and> cx_sub ctx \<noteq> None \<and>
                                   am_mailbox_status m = ''ACTIVE'' \<and> am_sending_enabled m) (ik_mailboxes db) = None
                            then Inl (HTTPException 403 ''agent_sender_not_authorized'') else Inr ())))))"

definition suspended_resource :: "intake_db \<Rightarrow> string \<Rightarrow> string \<times> string \<Rightarrow> bool" where
  "suspended_resource db tid resource \<longleftrightarrow>
     find_row (\<lambda>r. su_tenant_id r = tid \<and> su_resource_type r = fst resource \<and> su_resource_id r = snd resource \<and>
       su_active r) (ik_suspensions db) \<noteq> None"

definition sent_today :: "intake_db \<Rightarrow> int \<Rightarrow> string \<Rightarrow> string \<Rightarrow> int" where
  "sent_today db t tid domain =
     int (count_rows (\<lambda>m. cm_tenant_id m = tid \<and> ends_with (CHR ''@'' # domain) (cm_sender m) \<and>
       t - t mod DAY \<le> cm_created_at m) (gd_messages (ik_mail db)))"

definition enforce_delivery_controls ::
  "intake_db \<Rightarrow> int \<Rightarrow> string \<Rightarrow> string \<Rightarrow> string \<Rightarrow> unit res" where
  "enforce_delivery_controls db t tid sender stream =
     (let domain = lower (after_last (CHR ''@'') sender)
      in if list_ex (suspended_resource db tid)
              [(''DOMAIN'', domain), (''SENDER'', lower sender), (''STREAM'', upper stream), (''TENANT'', tid)]
         then Inl (HTTPException 403 ''delivery_resource_suspended'')
         else (case find_row (\<lambda>w. wu_tenant_id w = tid \<and> wu_domain w = domain \<and> wu_stream w = upper stream \<and>
                        wu_active w) (ik_warmups db) of
                 None \<Rightarrow> Inr ()
               | Some schedule \<Rightarrow>
                   (let day = max 0 ((t - wu_starts_at schedule) div DAY);
                        limits = wu_daily_limits schedule
                    in if limits = [] then Inl (IndexError ''list index out of range'')
                       else if limits ! nat (min day (int (length limits) - 1)) \<le> sent_today db t tid domain
                       then Inl (HTTPException 429 ''warmup_daily_limit_reached'') else Inr ())))"

section \<open>Idempotency\<close>

definition scoped_idempotency_key :: "codec \<Rightarrow> request_ctx \<Rightarrow> string \<Rightarrow> string \<Rightarrow> string \<Rightarrow> string" where
  "scoped_idempotency_key c ctx raw_key action resource =
     (let caller = or_text (cx_sub ctx) ''unknown'';
          service = or_text (cx_client_id ctx) (or_text (cx_service ctx) []);
          identity = join_with (CHR 0x00) [cx_tenant ctx, caller, service, action, ''v1'', resource, raw_key]
      in ''scope:v1:'' @ cd_sha256_hex c identity)"

definition text_json :: "string option \<Rightarrow> json" where
  "text_json o_text = (case o_text of None \<Rightarrow> JNull | Some s \<Rightarrow> JStr s)"

text \<open>\<open>x.model_dump(mode="json")\<close>, in the order of the fields.\<close>

definition model_dump :: "core_mail \<Rightarrow> json" where
  "model_dump x = JObj
     [(''customer_id'', text_json (xm_customer_id x)), (''to'', JStr (xm_to x)), (''sender'', JStr (xm_sender x)),
      (''reply_to'', text_json (xm_reply_to x)), (''subject'', JStr (xm_subject x)), (''html'', JStr (xm_html x)),
      (''text'', text_json (xm_text x)), (''template_id'', text_json (xm_template_id x)),
      (''campaign_id'', text_json (xm_campaign_id x)), (''tags'', JList (map JStr (xm_tags x))),
      (''tracking'', JObj (xm_tracking x)), (''callback_metadata'', JObj (xm_callback_metadata x)),
      (''headers'', JObj (map (\<lambda>(k, v). (k, JStr v)) (xm_headers x))), (''stream'', JStr (xm_stream x)),
      (''topic'', JStr (xm_topic x))]"

definition semantic_request_hash :: "codec \<Rightarrow> string \<Rightarrow> string \<Rightarrow> json \<Rightarrow> string" where
  "semantic_request_hash c action resource payload =
     cd_sha256_hex c (cd_dumps c (JObj
       [(''action'', JStr action), (''api_version'', JStr ''v1''), (''resource'', JStr resource), (''payload'', payload)]))"

definition find_replay :: "intake_db \<Rightarrow> string \<Rightarrow> string \<Rightarrow> replay_row option" where
  "find_replay db tid key = find_row (\<lambda>r. rp_key r = key \<and> rp_tenant_id r = tid) (ik_idempotency db)"

section \<open>One request\<close>

text \<open>What a request runs with: clock, switches, secrets, and the identifiers it draws.\<close>

record intake_env =
  iv_stamps :: stamps
  iv_env :: env
  iv_safe :: bool
  iv_repr :: "json \<Rightarrow> string"
  iv_suite :: suite
  iv_ring :: "key_ring res"
  iv_jwt :: "(string \<times> json) list \<Rightarrow> string"
  iv_pydantic :: "json \<Rightarrow> string"

record intake_draws =
  id_now :: int
  id_message :: string
  id_event :: string
  id_usage :: string
  id_outbox :: string
  id_nonce :: string
  id_jti :: string

definition one_click_unsubscribe_headers ::
  "intake_env \<Rightarrow> intake_draws \<Rightarrow> string \<Rightarrow> string \<Rightarrow> (string \<times> string) list" where
  "one_click_unsubscribe_headers iv dr tid email =
     (let token = iv_jwt iv
            [(''aud'', JStr ''klyrow-unsubscribe''), (''tenant'', JStr tid), (''email'', JStr (lower email)),
             (''scope'', JStr ''TENANT_MARKETING''), (''scope_id'', JStr ''*''), (''jti'', JStr (id_jti dr)),
             (''iat'', JInt (id_now dr)), (''exp'', JInt (id_now dr + 90 * DAY))];
          base = rstrip_char (CHR ''/'') (env_get (iv_env iv) ''KLYROW_PUBLIC_BASE_URL'' ''https://klyrow.co'')
      in [(''List-Unsubscribe'', ''<'' @ base @ ''/v1/unsubscribe?token='' @ token @ ''>''),
          (''List-Unsubscribe-Post'', ''List-Unsubscribe=One-Click'')])"

definition delivery_payload :: "intake_env \<Rightarrow> intake_draws \<Rightarrow> string \<Rightarrow> core_mail \<Rightarrow> (string \<times> json) list" where
  "delivery_payload iv dr tid x =
     (let headers = obj_update (map (\<lambda>(k, v). (k, JStr v)) (xm_headers x))
            (if xm_stream x = ''marketing''
             then map (\<lambda>(k, v). (k, JStr v)) (one_click_unsubscribe_headers iv dr tid (xm_to x)) else [])
      in [(''to'', JList [JStr (xm_to x)]), (''from'', JStr (xm_sender x)), (''subject'', JStr (xm_subject x)),
          (''html_body'', JStr (xm_html x)), (''plain_body'', text_json (xm_text x)),
          (''campaign_id'', text_json (xm_campaign_id x)), (''stream'', JStr (xm_stream x))] @
         (if headers = [] then [] else [(''headers'', JObj headers)]))"

definition callback_text :: "intake_env \<Rightarrow> core_mail \<Rightarrow> string \<Rightarrow> string \<Rightarrow> string" where
  "callback_text iv x name mid = json_str (iv_repr iv) (json_or (obj_get (xm_callback_metadata x) name) (JStr mid))"

definition accepted_response :: "intake_env \<Rightarrow> intake_draws \<Rightarrow> core_mail \<Rightarrow> json" where
  "accepted_response iv dr x = JObj
     [(''id'', JStr (id_message dr)), (''provider_message_id'', JStr (id_message dr)),
      (''status'', JStr (if iv_safe iv then ''accepted'' else ''queued'')), (''safe_mode'', JBool (iv_safe iv)),
      (''stream'', JStr (xm_stream x))]"

definition intake_lifecycle :: "intake_env \<Rightarrow> intake_draws \<Rightarrow> string \<Rightarrow> core_mail \<Rightarrow> string \<Rightarrow> lifecycle" where
  "intake_lifecycle iv dr tid x kind =
     \<lparr>lc_kind = kind, lc_tenant_id = tid, lc_message_id = id_message dr,
      lc_operation_id = callback_text iv x ''operation_id'' (id_message dr),
      lc_correlation_id = callback_text iv x ''correlation_id'' (id_message dr),
      lc_provider_message_id = None, lc_recipient = Some (lower (xm_to x)), lc_attempt = 1\<rparr>"

definition queue_lifecycle :: "intake_env \<Rightarrow> intake_draws \<Rightarrow> lifecycle \<Rightarrow> mail_db \<Rightarrow> mail_db res" where
  "queue_lifecycle iv dr l db =
     res_bind (queue_email_lifecycle_event (st_codec (iv_stamps iv)) (st_uuid5 (iv_stamps iv)) (iv_env iv)
       (st_draws (iv_stamps iv)) (id_now dr) l db) (\<lambda>r. Inr (snd r))"

definition new_message :: "intake_env \<Rightarrow> intake_draws \<Rightarrow> authorization \<Rightarrow> string \<Rightarrow> core_mail \<Rightarrow> core_message_row" where
  "new_message iv dr auth tid x =
     \<lparr>cm_id = id_message dr, cm_tenant_id = tid, cm_recipient = au_recipient auth, cm_sender = au_sender auth,
      cm_subject = xm_subject x, cm_status = (if iv_safe iv then ''accepted'' else ''queued''),
      cm_created_at = id_now dr\<rparr>"

definition new_outbox :: "intake_env \<Rightarrow> intake_draws \<Rightarrow> string \<Rightarrow> core_mail \<Rightarrow> email_outbox_row" where
  "new_outbox iv dr tid x =
     \<lparr>eo_id = id_outbox dr, eo_tenant_id = tid, eo_message_id = id_message dr,
      eo_operation_id = Some (callback_text iv x ''operation_id'' (id_message dr)),
      eo_correlation_id = Some (callback_text iv x ''correlation_id'' (id_message dr)),
      eo_payload = JText (sort_doc (JObj (delivery_payload iv dr tid x))), eo_priority = stream_priority (xm_stream x),
      eo_state = ''pending'', eo_attempts = 0, eo_provider_message_id = None, eo_last_error = None,
      eo_next_attempt_at = None, eo_created_at = id_now dr, eo_updated_at = id_now dr\<rparr>"

text \<open>
  The rows of an accepted message, in the order the session gets them; the keys of the tables refuse
  duplicates. The response is sealed after the message and its first lifecycle event have been added.
\<close>

definition duplicate_row :: "intake_env \<Rightarrow> intake_draws \<Rightarrow> string \<Rightarrow> string \<Rightarrow> intake_db \<Rightarrow> bool" where
  "duplicate_row iv dr tid key db \<longleftrightarrow>
     get_message (ik_mail db) (id_message dr) \<noteq> None \<or>
     find_row (\<lambda>u. uv_tenant_id u = tid \<and> uv_event_key u = ''accepted:api:'' @ key) (ik_usage db) \<noteq> None \<or>
     (\<not> iv_safe iv \<and> (get_item (ik_mail db) (id_outbox dr) \<noteq> None \<or>
        find_row (\<lambda>i. eo_message_id i = id_message dr) (ml_outbox (ik_mail db)) \<noteq> None))"

definition with_message ::
  "intake_env \<Rightarrow> intake_draws \<Rightarrow> authorization \<Rightarrow> string \<Rightarrow> core_mail \<Rightarrow> mail_db \<Rightarrow> mail_db" where
  "with_message iv dr auth tid x m =
     m\<lparr>gd_messages := gd_messages m @ [new_message iv dr auth tid x],
       ml_events := ml_events m @ [\<lparr>me_id = id_event dr, me_tenant_id = tid, me_message_id = id_message dr,
         me_kind = ''klyrow.email.accepted'', me_payload = JText (JObj [(''stream'', JStr (xm_stream x))])\<rparr>]\<rparr>"

definition new_replay :: "intake_draws \<Rightarrow> string \<Rightarrow> string \<Rightarrow> string \<Rightarrow> string \<Rightarrow> replay_row" where
  "new_replay dr tid key hash sealed =
     \<lparr>rp_response_json = sealed, rp_tenant_id = tid, rp_key = key, rp_request_hash = hash,
      rp_resource_id = id_message dr\<rparr>"

definition new_usage :: "intake_draws \<Rightarrow> string \<Rightarrow> string \<Rightarrow> string \<times> string \<Rightarrow> accepted_usage_row" where
  "new_usage dr tid key billing =
     \<lparr>uv_id = id_usage dr, uv_tenant_id = tid, uv_subscription_id = fst billing,
      uv_message_id = Some (id_message dr), uv_event_key = ''accepted:api:'' @ key, uv_unit = ''accepted_message'',
      uv_quantity = 1, uv_price_id = snd billing\<rparr>"

definition accept_message ::
  "intake_env \<Rightarrow> intake_draws \<Rightarrow> authorization \<Rightarrow> string \<times> string \<Rightarrow> string \<Rightarrow> string \<Rightarrow> string \<Rightarrow> core_mail
     \<Rightarrow> intake_db \<Rightarrow> json res \<times> intake_db" where
  "accept_message iv dr auth billing tid key hash x db =
     (let response = accepted_response iv dr x; m1 = with_message iv dr auth tid x (ik_mail db)
      in if duplicate_row iv dr tid key db then (Inl (IntegrityError ''messages''), db)
         else (case queue_lifecycle iv dr (intake_lifecycle iv dr tid x ''email.accepted'') m1 of
             Inl err \<Rightarrow> (Inl err, db\<lparr>ik_mail := m1\<rparr>)
           | Inr m2 \<Rightarrow>
         (case seal_control_response (iv_suite iv) (iv_ring iv) (id_nonce dr) response tid key hash (id_message dr) of
             Inl err \<Rightarrow> (Inl err, db\<lparr>ik_mail := m2\<rparr>)
           | Inr sealed \<Rightarrow>
               (let db3 = db\<lparr>ik_mail := m2,
                      ik_idempotency := ik_idempotency db @ [new_replay dr tid key hash sealed],
                      ik_usage := ik_usage db @ [new_usage dr tid key billing]\<rparr>
                in if iv_safe iv then (Inr response, db3)
                   else
                     (let m3 = m2\<lparr>ml_outbox := ml_outbox m2 @ [new_outbox iv dr tid x]\<rparr>
                      in case queue_lifecycle iv dr (intake_lifecycle iv dr tid x ''email.queued'') m3 of
                           Inl err \<Rightarrow> (Inl err, db3\<lparr>ik_mail := m3\<rparr>)
                         | Inr m4 \<Rightarrow> (Inr response, db3\<lparr>ik_mail := m4\<rparr>))))))"

definition guard_tables :: "intake_db \<Rightarrow> guard_db" where
  "guard_tables db = guard_db.truncate (ik_mail db)"

definition sent_today_quota :: "intake_db \<Rightarrow> int \<Rightarrow> string \<Rightarrow> int" where
  "sent_today_quota db t tid =
     int (count_rows (\<lambda>m. cm_tenant_id m = tid \<and> t - DAY \<le> cm_created_at m) (gd_messages (ik_mail db)))"

text \<open>The checks after the canary policies, which change nothing.\<close>

definition final_checks ::
  "intake_env \<Rightarrow> intake_draws \<Rightarrow> request_ctx \<Rightarrow> core_mail \<Rightarrow> intake_db \<Rightarrow> (string \<times> string) res" where
  "final_checks iv dr ctx x db =
     (let tid = cx_tenant ctx; sender = lower (xm_sender x); domain = after_last (CHR ''@'') sender
      in res_bind (enforce_delivery_controls db (id_now dr) tid sender (xm_stream x)) (\<lambda>_.
         if find_row (\<lambda>d. dn_tenant_id d = tid \<and> dn_domain d = domain \<and> dn_verified d) (ik_domains db) = None
         then Inl (HTTPException 422 ''sender_domain_not_verified'')
         else if cx_role ctx \<noteq> Some ''codestra-email-agent'' \<and>
                 find_row (\<lambda>a. as_tenant_id a = tid \<and> as_address a = sender \<and> as_enabled a) (ik_allowed db) = None
         then Inl (HTTPException 403 ''sender_address_not_allowed'')
         else (case find_row (\<lambda>t. tn_id t = tid) (gd_tenants (ik_mail db)) of
                 None \<Rightarrow> Inl (AttributeError ''quota'')
               | Some tenant \<Rightarrow>
                   if tn_quota tenant \<le> sent_today_quota db (id_now dr) tid
                   then Inl (HTTPException 429 ''daily_quota_exceeded'')
                   else billing_identity (guard_tables db) tid (iv_safe iv))))"

definition with_gates :: "intake_db \<Rightarrow> gate_row list \<Rightarrow> intake_db" where
  "with_gates db gates = db\<lparr>ik_mail := (ik_mail db)\<lparr>ml_gates := gates\<rparr>\<rparr>"

definition canary_checks ::
  "intake_env \<Rightarrow> intake_draws \<Rightarrow> string \<Rightarrow> core_mail \<Rightarrow> gate_row list \<Rightarrow> unit res \<times> gate_row list" where
  "canary_checks iv dr tid x gates =
     (case enforce_production_canary (iv_env iv) (iv_safe iv) (id_now dr) x gates of
        (Inl err, gates1) \<Rightarrow> (Inl err, gates1)
      | (Inr _, gates1) \<Rightarrow>
          (if xm_stream x = ''marketing'' \<and> (\<not> absent (xm_campaign_id x) \<or> \<not> iv_safe iv)
           then enforce_campaign_canary (iv_env iv) (id_now dr) tid x gates1 else (Inr (), gates1)))"

text \<open>A request without a stored response, from the tenant's gate to the commit.\<close>

definition send_new ::
  "intake_env \<Rightarrow> intake_draws \<Rightarrow> request_ctx \<Rightarrow> string \<Rightarrow> string \<Rightarrow> core_mail \<Rightarrow> intake_db \<Rightarrow> json res \<times> intake_db" where
  "send_new iv dr ctx key hash x db =
     (let tid = cx_tenant ctx
      in case res_bind (enforce_tenant_send_gate db tid) (\<lambda>_.
              res_bind (authorize_agent_sender (iv_env iv) db ctx (xm_sender x) (xm_campaign_id x) (xm_reply_to x)) (\<lambda>_.
              authorize_send (guard_tables db) (iv_repr iv) (iv_env iv) (id_now dr) tid (xm_sender x) (xm_to x)
                (xm_stream x) (iv_safe iv) (xm_campaign_id x) (xm_topic x))) of
           Inl err \<Rightarrow> (Inl err, db)
         | Inr auth \<Rightarrow>
             (case canary_checks iv dr tid x (ml_gates (ik_mail db)) of
                (Inl err, gates) \<Rightarrow> (Inl err, with_gates db gates)
              | (Inr _, gates) \<Rightarrow>
                  (let db1 = with_gates db gates
                   in case final_checks iv dr ctx x db1 of
                        Inl err \<Rightarrow> (Inl err, db1)
                      | Inr billing \<Rightarrow> accept_message iv dr auth billing tid key hash x db1)))"

definition stored_response :: "intake_env \<Rightarrow> string \<Rightarrow> replay_row \<Rightarrow> json res" where
  "stored_response iv hash row =
     (if rp_request_hash row \<noteq> hash then Inl (HTTPException 409 ''idempotency_key_payload_mismatch'')
      else read_control_response (iv_suite iv) (iv_env iv) (iv_ring iv) row)"

text \<open>\<open>sha(x.model_dump_json())\<close>, the request hash of the rows of older releases.\<close>

definition legacy_hash :: "intake_env \<Rightarrow> core_mail \<Rightarrow> string" where
  "legacy_hash iv x = cd_sha256_hex (st_codec (iv_stamps iv)) (iv_pydantic iv (model_dump x))"

definition send_core ::
  "intake_env \<Rightarrow> intake_draws \<Rightarrow> request_ctx \<Rightarrow> string \<Rightarrow> core_mail \<Rightarrow> intake_db \<Rightarrow> json res \<times> intake_db" where
  "send_core iv dr ctx idempotency_key x db =
     (let c = st_codec (iv_stamps iv);
          key = scoped_idempotency_key c ctx idempotency_key ''message.send'' ''messages'';
          hash = semantic_request_hash c ''message.send'' ''messages'' (model_dump x)
      in if idempotency_key = [] then (Inl (HTTPException 400 ''idempotency_key_required''), db)
         else (case find_replay db (cx_tenant ctx) key of
                 Some prior \<Rightarrow> (stored_response iv hash prior, db)
               | None \<Rightarrow>
                   (case find_replay db (cx_tenant ctx) idempotency_key of
                      Some legacy \<Rightarrow> (stored_response iv (legacy_hash iv x) legacy, db)
                    | None \<Rightarrow> send_new iv dr ctx key hash x db)))"

text \<open>
  The installed version takes the older row only when its response is that of a message which the
  tenant owns; a row of another action does not shadow the scoped key. A response that cannot be
  opened is an \<open>HTTPException\<close>, which is not among the exceptions it turns into no response.
\<close>

definition legacy_message_shape :: "intake_env \<Rightarrow> replay_row \<Rightarrow> (string \<times> json) list option res" where
  "legacy_message_shape iv row =
     (case read_control_response (iv_suite iv) (iv_env iv) (iv_ring iv) row of
        Inl err \<Rightarrow> (if exn_name err \<in> {''AttributeError'', ''TypeError'', ''ValueError''} then Inr None else Inl err)
      | Inr (JObj response) \<Rightarrow>
          Inr (if obj_get response ''id'' = JStr (rp_resource_id row) \<and>
                  {''provider_message_id'', ''status'', ''safe_mode'', ''stream''} \<subseteq> set (map fst response) \<and>
                  obj_get response ''provider_message_id'' = obj_get response ''id''
               then Some response else None)
      | Inr _ \<Rightarrow> Inr None)"

definition legacy_message_send_response ::
  "intake_env \<Rightarrow> intake_db \<Rightarrow> string \<Rightarrow> replay_row option \<Rightarrow> json option res" where
  "legacy_message_send_response iv db tid legacy =
     (case legacy of
        None \<Rightarrow> Inr None
      | Some row \<Rightarrow>
          if rp_tenant_id row \<noteq> tid then Inr None
          else res_bind (legacy_message_shape iv row) (\<lambda>shape.
            Inr (if find_row (\<lambda>m. cm_id m = rp_resource_id row \<and> cm_tenant_id m = tid) (gd_messages (ik_mail db)) = None
                 then None else map_option JObj shape)))"

definition send_with_scoped_legacy_compatibility ::
  "intake_env \<Rightarrow> intake_draws \<Rightarrow> request_ctx \<Rightarrow> string \<Rightarrow> core_mail \<Rightarrow> intake_db \<Rightarrow> json res \<times> intake_db" where
  "send_with_scoped_legacy_compatibility iv dr ctx idempotency_key x db =
     (let c = st_codec (iv_stamps iv); tid = cx_tenant ctx;
          key = scoped_idempotency_key c ctx idempotency_key ''message.send'' ''messages'';
          hash = semantic_request_hash c ''message.send'' ''messages'' (model_dump x);
          legacy = find_replay db tid idempotency_key
      in if idempotency_key = [] then (Inl (HTTPException 400 ''idempotency_key_required''), db)
         else (case find_replay db tid key of
                 Some prior \<Rightarrow> (stored_response iv hash prior, db)
               | None \<Rightarrow>
                   (case legacy_message_send_response iv db tid legacy of
                      Inl err \<Rightarrow> (Inl err, db)
                    | Inr (Some response) \<Rightarrow>
                        (if map_option rp_request_hash legacy \<noteq> Some (legacy_hash iv x)
                         then (Inl (HTTPException 409 ''idempotency_key_payload_mismatch''), db)
                         else (Inr response, db))
                    | Inr None \<Rightarrow> send_new iv dr ctx key hash x db)))"

text \<open>The HTTP route closes the session: an exception rolls back what it had changed.\<close>

definition send_request ::
  "intake_env \<Rightarrow> intake_draws \<Rightarrow> request_ctx \<Rightarrow> string \<Rightarrow> core_mail \<Rightarrow> intake_db \<Rightarrow> json res \<times> intake_db" where
  "send_request iv dr ctx idempotency_key x db =
     (case send_with_scoped_legacy_compatibility iv dr ctx idempotency_key x db of
        (Inl err, _) \<Rightarrow> (Inl err, db) | r \<Rightarrow> r)"
section \<open>What an accepted request does\<close>

lemma queue_lifecycle_intake:
  assumes "kind \<in> {''email.accepted'', ''email.queued''}"
  obtains rows where "queue_lifecycle iv dr (intake_lifecycle iv dr tid x kind) m = Inr (m\<lparr>ml_lifecycle := ml_lifecycle m @ rows\<rparr>)"
proof -
  let ?l = "intake_lifecycle iv dr tid x kind"
  have kind: "''klyrow.'' @ lc_kind ?l \<notin> set KLYROW_EVENTS"
    using assms by (auto simp: intake_lifecycle_def KLYROW_EVENTS_def)
  show thesis
  proof (cases "find_row (\<lambda>r. pv_id r = lifecycle_id (st_uuid5 (iv_stamps iv)) ?l) (ml_lifecycle m) = None")
    case True
    then show ?thesis
      using that kind by (simp add: queue_lifecycle_def queue_email_lifecycle_event_def Let_def res_bind_def)
  next
    case False
    then show ?thesis
      using that [of "[]"] by (simp add: queue_lifecycle_def queue_email_lifecycle_event_def Let_def res_bind_def)
  qed
qed

lemma accept_message_accepted:
  assumes "accept_message iv dr auth billing tid key hash x db = (Inr resp, db')"
  obtains sealed rows where "\<not> duplicate_row iv dr tid key db" and "resp = accepted_response iv dr x"
    and "seal_control_response (iv_suite iv) (iv_ring iv) (id_nonce dr) resp tid key hash (id_message dr) = Inr sealed"
    and "db' = db\<lparr>ik_mail := (with_message iv dr auth tid x (ik_mail db))
            \<lparr>ml_lifecycle := ml_lifecycle (ik_mail db) @ rows,
             ml_outbox := ml_outbox (ik_mail db) @ (if iv_safe iv then [] else [new_outbox iv dr tid x])\<rparr>,
          ik_idempotency := ik_idempotency db @ [new_replay dr tid key hash sealed],
          ik_usage := ik_usage db @ [new_usage dr tid key billing]\<rparr>"
proof -
  let ?m1 = "with_message iv dr auth tid x (ik_mail db)"
  have same: "ml_lifecycle ?m1 = ml_lifecycle (ik_mail db)" "ml_outbox ?m1 = ml_outbox (ik_mail db)"
    by (simp_all add: with_message_def)
  obtain r1 where r1: "queue_lifecycle iv dr (intake_lifecycle iv dr tid x ''email.accepted'') ?m1 =
      Inr (?m1\<lparr>ml_lifecycle := ml_lifecycle ?m1 @ r1\<rparr>)"
    by (rule queue_lifecycle_intake) (rule insertI1)
  let ?m2 = "?m1\<lparr>ml_lifecycle := ml_lifecycle ?m1 @ r1\<rparr>"
  let ?m3 = "?m2\<lparr>ml_outbox := ml_outbox ?m2 @ [new_outbox iv dr tid x]\<rparr>"
  obtain r2 where r2: "queue_lifecycle iv dr (intake_lifecycle iv dr tid x ''email.queued'') ?m3 =
      Inr (?m3\<lparr>ml_lifecycle := ml_lifecycle ?m3 @ r2\<rparr>)"
    by (rule queue_lifecycle_intake) (rule insertI2, rule insertI1)
  show thesis
  proof (cases "iv_safe iv")
    case True
    then show ?thesis
      using assms that [of _ r1] r1 same
      by (auto simp: accept_message_def Let_def split: if_splits sum.splits)
  next
    case False
    then show ?thesis
      using assms that [of _ "r1 @ r2"] r1 r2 same
      by (auto simp: accept_message_def Let_def split: if_splits sum.splits)
  qed
qed

lemma final_checks_passed:
  assumes "final_checks iv dr ctx x db = Inr billing"
  shows "\<exists>d \<in> set (ik_domains db). dn_tenant_id d = cx_tenant ctx \<and> dn_verified d \<and>
      dn_domain d = after_last (CHR ''@'') (lower (xm_sender x))"
    and "cx_role ctx = Some ''codestra-email-agent'' \<or>
      (\<exists>a \<in> set (ik_allowed db). as_tenant_id a = cx_tenant ctx \<and> as_enabled a \<and> as_address a = lower (xm_sender x))"
    and "\<exists>tenant. find_row (\<lambda>t. tn_id t = cx_tenant ctx) (gd_tenants (ik_mail db)) = Some tenant \<and>
      sent_today_quota db (id_now dr) (cx_tenant ctx) < tn_quota tenant"
    and "enforce_delivery_controls db (id_now dr) (cx_tenant ctx) (lower (xm_sender x)) (xm_stream x) = Inr ()"
    and "billing_identity (guard_tables db) (cx_tenant ctx) (iv_safe iv) = Inr billing"
  using assms
  by (auto simp: final_checks_def Let_def res_bind_Inr find_row_None split: if_splits option.splits)

lemma send_new_accepted:
  assumes "send_new iv dr ctx key hash x db = (Inr resp, db')"
  obtains auth gates billing where "enforce_tenant_send_gate db (cx_tenant ctx) = Inr ()"
    and "authorize_agent_sender (iv_env iv) db ctx (xm_sender x) (xm_campaign_id x) (xm_reply_to x) = Inr ()"
    and "authorize_send (guard_tables db) (iv_repr iv) (iv_env iv) (id_now dr) (cx_tenant ctx) (xm_sender x)
      (xm_to x) (xm_stream x) (iv_safe iv) (xm_campaign_id x) (xm_topic x) = Inr auth"
    and "canary_checks iv dr (cx_tenant ctx) x (ml_gates (ik_mail db)) = (Inr (), gates)"
    and "final_checks iv dr ctx x (with_gates db gates) = Inr billing"
    and "accept_message iv dr auth billing (cx_tenant ctx) key hash x (with_gates db gates) = (Inr resp, db')"
  using assms
  by (auto simp: send_new_def Let_def res_bind_Inr res_bind_def split: sum.splits prod.splits unit.splits)
text \<open>An accepted request is answered from a stored row or adds a message.\<close>

lemma send_accepted:
  assumes "send_with_scoped_legacy_compatibility iv dr ctx key x db = (Inr resp, db')"
  shows "db' = db \<or>
    find_replay db (cx_tenant ctx) (scoped_idempotency_key (st_codec (iv_stamps iv)) ctx key ''message.send'' ''messages'') = None \<and>
    send_new iv dr ctx (scoped_idempotency_key (st_codec (iv_stamps iv)) ctx key ''message.send'' ''messages'')
      (semantic_request_hash (st_codec (iv_stamps iv)) ''message.send'' ''messages'' (model_dump x)) x db = (Inr resp, db')"
  using assms
  by (auto simp: send_with_scoped_legacy_compatibility_def Let_def
      split: if_splits option.splits sum.splits prod.splits)

lemma send_request_Inr:
  "send_request iv dr ctx key x db = (Inr resp, db') \<longleftrightarrow>
     send_with_scoped_legacy_compatibility iv dr ctx key x db = (Inr resp, db')"
  by (auto simp: send_request_def split: prod.splits sum.splits)

lemmas send_request_accepted = send_accepted [OF send_request_Inr [THEN iffD1]]

lemma enforce_tenant_send_gate_ok:
  "enforce_tenant_send_gate db tid = Inr () \<longleftrightarrow>
     (\<forall>g. find_row (\<lambda>g. sg_tenant_id g = tid) (ik_send_gates db) = Some g \<longrightarrow> sg_enabled g)"
  by (auto simp: enforce_tenant_send_gate_def split: option.splits)

lemma with_gates_frame [simp]:
  "guard_tables (with_gates db gates) = guard_tables db"
  "ik_domains (with_gates db gates) = ik_domains db"
  "ik_allowed (with_gates db gates) = ik_allowed db"
  "ik_idempotency (with_gates db gates) = ik_idempotency db"
  "ik_usage (with_gates db gates) = ik_usage db"
  "gd_tenants (ik_mail (with_gates db gates)) = gd_tenants (ik_mail db)"
  "gd_messages (ik_mail (with_gates db gates)) = gd_messages (ik_mail db)"
  "ml_outbox (ik_mail (with_gates db gates)) = ml_outbox (ik_mail db)"
  "ml_gates (ik_mail (with_gates db gates)) = gates"
  by (simp_all add: with_gates_def guard_tables_def guard_db.defs)

lemma with_message_frame [simp]:
  "ml_gates (with_message iv dr auth tid x m) = ml_gates m"
  "ml_outbox (with_message iv dr auth tid x m) = ml_outbox m"
  by (simp_all add: with_message_def)

lemma find_replay_new:
  assumes "find_replay db tid key = None"
    and "ik_idempotency db' = ik_idempotency db @ [new_replay dr tid key hash sealed]"
  shows "find_replay db' tid key = Some (new_replay dr tid key hash sealed)"
  using assms by (simp add: find_replay_def find_row_append new_replay_def)

lemma accepted_send_replays:
  assumes "send_with_scoped_legacy_compatibility iv dr ctx key x db = (Inr resp, db')" and "db' \<noteq> db"
    and "find_replay db2 (cx_tenant ctx) (scoped_idempotency_key (st_codec (iv_stamps iv)) ctx key ''message.send'' ''messages'') =
      find_replay db' (cx_tenant ctx) (scoped_idempotency_key (st_codec (iv_stamps iv)) ctx key ''message.send'' ''messages'')"
    and "iv_stamps iv2 = iv_stamps iv" and "iv_suite iv2 = iv_suite iv"
    and "iv_ring iv = Inr keys" and "iv_ring iv2 = Inr keys2"
    and "map_of (kr_keys keys2) (kr_active_key_id keys) = map_of (kr_keys keys) (kr_active_key_id keys)"
    and "cipher_laws (iv_suite iv)" and "length (id_nonce dr) = 12"
    and "\<forall>r \<in> set (ik_idempotency db'). int (length (rp_response_json r)) \<le> MAX_ENVELOPE_BYTES"
    and "decodes (iv_suite iv) (sort_doc resp)" and "\<forall>c k n. decodes (iv_suite iv) (envelope_doc c k n)"
  shows "send_with_scoped_legacy_compatibility iv2 dr2 ctx key x db2 = (Inr (sort_doc resp), db2) \<and>
    (\<forall>y. semantic_request_hash (st_codec (iv_stamps iv)) ''message.send'' ''messages'' (model_dump y) \<noteq>
         semantic_request_hash (st_codec (iv_stamps iv)) ''message.send'' ''messages'' (model_dump x) \<longrightarrow>
       send_with_scoped_legacy_compatibility iv2 dr2 ctx key y db2 = (Inl (HTTPException 409 ''idempotency_key_payload_mismatch''), db2))"
proof -
  let ?key = "scoped_idempotency_key (st_codec (iv_stamps iv)) ctx key ''message.send'' ''messages''"
  let ?hash = "\<lambda>x. semantic_request_hash (st_codec (iv_stamps iv)) ''message.send'' ''messages'' (model_dump x)"
  let ?tid = "cx_tenant ctx"
  have new: "find_replay db ?tid ?key = None" "send_new iv dr ctx ?key (?hash x) x db = (Inr resp, db')"
    using send_accepted [OF assms(1)] assms(2) by blast+
  obtain auth gates billing where
    "accept_message iv dr auth billing ?tid ?key (?hash x) x (with_gates db gates) = (Inr resp, db')"
    by (rule send_new_accepted [OF new(2)])
  then obtain sealed where sealed: "seal_control_response (iv_suite iv) (iv_ring iv) (id_nonce dr) resp ?tid ?key
      (?hash x) (id_message dr) = Inr sealed"
    and idem: "ik_idempotency db' = ik_idempotency db @ [new_replay dr ?tid ?key (?hash x) sealed]"
    by (rule accept_message_accepted) simp
  let ?row = "new_replay dr ?tid ?key (?hash x) sealed"
  have row: "find_replay db2 ?tid ?key = Some ?row"
    using assms(3) find_replay_new [OF new(1) idem] by simp
  obtain b where b: "binding ''control-replay'' [?tid, ?key, ?hash x, id_message dr] = Inr b"
    and raw: "seal (iv_suite iv) (Inr keys) (id_nonce dr) resp b = Inr sealed"
    using sealed assms(6) by (auto simp: seal_control_response_def res_bind_Inr)
  have "?row \<in> set (ik_idempotency db')" using idem by simp
  then have "int (length sealed) \<le> MAX_ENVELOPE_BYTES" using assms(11) by (auto simp: new_replay_def)
  then have "unseal (iv_suite iv) (iv_env iv2) (Inr keys2) sealed b = Inr (sort_doc resp)"
    using unseal_sealed [OF raw assms(8,9,10) _ assms(12), of "iv_env iv2" b] assms(13) by simp
  then have "read_control_response (iv_suite iv2) (iv_env iv2) (iv_ring iv2) ?row = Inr (sort_doc resp)"
    using b assms(5,7) by (simp add: read_control_response_def new_replay_def res_bind_Inr)
  moreover have "key \<noteq> []"
    using assms(1) by (auto simp: send_with_scoped_legacy_compatibility_def Let_def)
  ultimately show ?thesis
    using row assms(4)
    by (auto simp: send_with_scoped_legacy_compatibility_def Let_def stored_response_def new_replay_def)
qed

section \<open>Properties\<close>

text \<open>
  C6. A request that is accepted and changes anything adds exactly one message, one replay row, one
  usage row and, unless the process is in safe mode, one outbox row, all of the caller's tenant; the
  tenant's send gate, where it has one, is open, the guard chain admits the message, its sender's domain is verified for
  the tenant, the sender is an allowed address unless the caller is the agents' service, and the messages
  of the last day are below the tenant's quota.
\<close>

theorem accepted_send_sound:
  assumes "send_request iv dr ctx key x db = (Inr resp, db')" and "db' \<noteq> db"
  shows "\<exists>auth sealed billing.
    authorize_send (guard_tables db) (iv_repr iv) (iv_env iv) (id_now dr) (cx_tenant ctx) (xm_sender x)
      (xm_to x) (xm_stream x) (iv_safe iv) (xm_campaign_id x) (xm_topic x) = Inr auth \<and>
    (\<forall>g. find_row (\<lambda>g. sg_tenant_id g = cx_tenant ctx) (ik_send_gates db) = Some g \<longrightarrow> sg_enabled g) \<and>
    (\<exists>d \<in> set (ik_domains db). dn_tenant_id d = cx_tenant ctx \<and> dn_verified d \<and>
       dn_domain d = after_last (CHR ''@'') (lower (xm_sender x))) \<and>
    (cx_role ctx = Some ''codestra-email-agent'' \<or>
     (\<exists>a \<in> set (ik_allowed db). as_tenant_id a = cx_tenant ctx \<and> as_enabled a \<and> as_address a = lower (xm_sender x))) \<and>
    sent_today_quota db (id_now dr) (cx_tenant ctx) < tn_quota (au_tenant auth) \<and>
    resp = accepted_response iv dr x \<and>
    gd_messages (ik_mail db') = gd_messages (ik_mail db) @ [new_message iv dr auth (cx_tenant ctx) x] \<and>
    ml_outbox (ik_mail db') = ml_outbox (ik_mail db) @ (if iv_safe iv then [] else [new_outbox iv dr (cx_tenant ctx) x]) \<and>
    ik_idempotency db' = ik_idempotency db @ [new_replay dr (cx_tenant ctx)
      (scoped_idempotency_key (st_codec (iv_stamps iv)) ctx key ''message.send'' ''messages'')
      (semantic_request_hash (st_codec (iv_stamps iv)) ''message.send'' ''messages'' (model_dump x)) sealed] \<and>
    ik_usage db' = ik_usage db @ [new_usage dr (cx_tenant ctx)
      (scoped_idempotency_key (st_codec (iv_stamps iv)) ctx key ''message.send'' ''messages'') billing]"
proof -
  have "send_new iv dr ctx (scoped_idempotency_key (st_codec (iv_stamps iv)) ctx key ''message.send'' ''messages'')
      (semantic_request_hash (st_codec (iv_stamps iv)) ''message.send'' ''messages'' (model_dump x)) x db = (Inr resp, db')"
    using send_request_accepted [OF assms(1)] assms(2) by blast
  then obtain auth gates billing where gate: "enforce_tenant_send_gate db (cx_tenant ctx) = Inr ()"
    and auth: "authorize_send (guard_tables db) (iv_repr iv) (iv_env iv) (id_now dr) (cx_tenant ctx) (xm_sender x)
      (xm_to x) (xm_stream x) (iv_safe iv) (xm_campaign_id x) (xm_topic x) = Inr auth"
    and final: "final_checks iv dr ctx x (with_gates db gates) = Inr billing"
    and acc: "accept_message iv dr auth billing (cx_tenant ctx)
      (scoped_idempotency_key (st_codec (iv_stamps iv)) ctx key ''message.send'' ''messages'')
      (semantic_request_hash (st_codec (iv_stamps iv)) ''message.send'' ''messages'' (model_dump x)) x
      (with_gates db gates) = (Inr resp, db')"
    by (rule send_new_accepted)
  obtain sealed rows where rows: "resp = accepted_response iv dr x"
    "db' = (with_gates db gates)\<lparr>ik_mail := (with_message iv dr auth (cx_tenant ctx) x (ik_mail (with_gates db gates)))
            \<lparr>ml_lifecycle := ml_lifecycle (ik_mail (with_gates db gates)) @ rows,
             ml_outbox := ml_outbox (ik_mail (with_gates db gates)) @ (if iv_safe iv then [] else [new_outbox iv dr (cx_tenant ctx) x])\<rparr>,
          ik_idempotency := ik_idempotency (with_gates db gates) @ [new_replay dr (cx_tenant ctx)
            (scoped_idempotency_key (st_codec (iv_stamps iv)) ctx key ''message.send'' ''messages'')
            (semantic_request_hash (st_codec (iv_stamps iv)) ''message.send'' ''messages'' (model_dump x)) sealed],
          ik_usage := ik_usage (with_gates db gates) @ [new_usage dr (cx_tenant ctx)
            (scoped_idempotency_key (st_codec (iv_stamps iv)) ctx key ''message.send'' ''messages'') billing]\<rparr>"
    by (rule accept_message_accepted [OF acc])
  have "find_row (\<lambda>t. tn_id t = cx_tenant ctx) (gd_tenants (ik_mail db)) = Some (au_tenant auth)"
    using auth unfolding authorize_send_Inr by (auto simp: guard_tables_def guard_db.defs)
  then have "sent_today_quota db (id_now dr) (cx_tenant ctx) < tn_quota (au_tenant auth)"
    using final_checks_passed(3) [OF final] by (auto simp: sent_today_quota_def)
  then show ?thesis
    using auth gate [unfolded enforce_tenant_send_gate_ok] final_checks_passed(1,2) [OF final] rows
    by (intro exI [of _ auth] exI [of _ sealed] exI [of _ billing]) (simp add: with_message_def)
qed
text \<open>
  C7. Once a request has been accepted, sending it again with the same key changes nothing and answers
  the same response, its keys sorted, and using the key for another content is refused, at any later
  time, after other requests and after a rotation of the sealing key, as long as the row and the key
  that sealed it are kept. The hypotheses on the libraries are the cipher's round trip and that JSON
  text decodes to the document it was written from.
\<close>

theorem send_replayed:
  assumes "send_request iv dr ctx key x db = (Inr resp, db')" and "db' \<noteq> db"
    and "find_replay db2 (cx_tenant ctx) (scoped_idempotency_key (st_codec (iv_stamps iv)) ctx key ''message.send'' ''messages'') =
      find_replay db' (cx_tenant ctx) (scoped_idempotency_key (st_codec (iv_stamps iv)) ctx key ''message.send'' ''messages'')"
    and "iv_stamps iv2 = iv_stamps iv" and "iv_suite iv2 = iv_suite iv"
    and "iv_ring iv = Inr keys" and "iv_ring iv2 = Inr keys2"
    and "map_of (kr_keys keys2) (kr_active_key_id keys) = map_of (kr_keys keys) (kr_active_key_id keys)"
    and "cipher_laws (iv_suite iv)" and "length (id_nonce dr) = 12"
    and "\<forall>r \<in> set (ik_idempotency db'). int (length (rp_response_json r)) \<le> MAX_ENVELOPE_BYTES"
    and "decodes (iv_suite iv) (sort_doc resp)" and "\<forall>c k n. decodes (iv_suite iv) (envelope_doc c k n)"
  shows "send_request iv2 dr2 ctx key x db2 = (Inr (sort_doc resp), db2) \<and>
    (\<forall>y. semantic_request_hash (st_codec (iv_stamps iv)) ''message.send'' ''messages'' (model_dump y) \<noteq>
         semantic_request_hash (st_codec (iv_stamps iv)) ''message.send'' ''messages'' (model_dump x) \<longrightarrow>
       send_request iv2 dr2 ctx key y db2 = (Inl (HTTPException 409 ''idempotency_key_payload_mismatch''), db2))"
proof -
  have "send_with_scoped_legacy_compatibility iv dr ctx key x db = (Inr resp, db')"
    using assms(1) by (simp add: send_request_Inr)
  from accepted_send_replays [OF this assms(2-13)] show ?thesis
    by (simp add: send_request_def)
qed

section \<open>The intake and the delivery worker agree\<close>

lemma delivery_payload_fields:
  "distinct (map fst (delivery_payload iv dr tid x))"
  "map_of (delivery_payload iv dr tid x) ''to'' = Some (JList [JStr (xm_to x)])"
  "map_of (delivery_payload iv dr tid x) ''from'' = Some (JStr (xm_sender x))"
  "map_of (delivery_payload iv dr tid x) ''stream'' = Some (JStr (xm_stream x))"
  "map_of (delivery_payload iv dr tid x) ''campaign_id'' = Some (text_json (xm_campaign_id x))"
  by (simp_all add: delivery_payload_def Let_def)

lemma new_outbox_payload:
  obtains payload where "decoded_payload (new_outbox iv dr tid x) = Some payload"
    and "map_of payload ''to'' = Some (JList [JStr (xm_to x)])" and "map_of payload ''from'' = Some (JStr (xm_sender x))"
    and "map_of payload ''stream'' = Some (JStr (xm_stream x))"
    and "map_of payload ''campaign_id'' = Some (text_json (xm_campaign_id x))"
proof -
  define kvs where "kvs = map (\<lambda>(k, v). (k, sort_doc v)) (delivery_payload iv dr tid x)"
  have keys: "map fst kvs = map fst (delivery_payload iv dr tid x)"
    by (auto simp: kvs_def)
  have "distinct (map fst kvs)" unfolding keys by (rule delivery_payload_fields(1))
  from map_of_sort_key [OF this]
  have "map_of (sort_key fst kvs) k = map_option sort_doc (map_of (delivery_payload iv dr tid x) k)" for k
    by (simp add: kvs_def map_of_map)
  moreover have "decoded_payload (new_outbox iv dr tid x) = Some (sort_key fst kvs)"
    by (simp add: decoded_payload_def new_outbox_def kvs_def)
  moreover have "sort_doc (text_json c) = text_json c" for c
    by (simp add: text_json_def split: option.split)
  ultimately show thesis
    using that [of "sort_key fst kvs"] delivery_payload_fields by simp
qed

lemma new_outbox_campaign:
  "decoded_payload (new_outbox iv dr tid x) = Some payload \<Longrightarrow> is_campaign payload \<longleftrightarrow> xm_stream x = ''marketing''"
  by (rule new_outbox_payload [of iv dr tid x]) (auto simp: is_campaign_def obj_get_def)

lemma production_canary_admitted:
  assumes "enforce_production_canary e False t x gates = (Inr (), gates')" and "xm_stream x \<noteq> ''marketing''"
  obtains g where "canary_configuration_valid e" and "env_get e ''KLYROW_CANARY_ALLOWED_CAMPAIGN'' [] \<noteq> []"
    and "xm_campaign_id x = Some (env_get e ''KLYROW_CANARY_ALLOWED_CAMPAIGN'' [])"
    and "lower (xm_sender x) = fst (snd (canary_configuration e))"
    and "lower (xm_to x) = fst (snd (snd (canary_configuration e)))"
    and "find_gate (canary_gate_key e) gates = Some g"
    and "ga_reserved_deliveries g < snd (snd (snd (canary_configuration e)))"
    and "gates' = update_gate (canary_gate_key e) (reserve t) gates"
  using assms
  by (auto simp: enforce_production_canary_def Let_def split: if_splits option.splits prod.splits)

lemma campaign_canary_admitted:
  assumes "enforce_campaign_canary e t tid x gates = (Inr (), gates')"
    and "campaign_execution_mode e \<noteq> ''CAMPAIGN_PRODUCTION_ENABLED''"
  shows "campaign_execution_mode e = ''CAMPAIGN_CANARY_ONLY'' \<and> lower (env_get e ''KLYROW_ENV'' []) = ''production'' \<and>
    lower (env_get e ''KLYROW_CAMPAIGN_CANARY_ENABLED'' ''false'') = ''true'' \<and> campaign_maximum e = Some 1 \<and>
    tid = env_get e ''KLYROW_CAMPAIGN_CANARY_TENANT_ID'' [] \<and>
    xm_campaign_id x = Some (env_get e ''KLYROW_CAMPAIGN_CANARY_CAMPAIGN_ID'' []) \<and>
    campaign_recipients e = [lower (xm_to x)] \<and> lower (xm_sender x) = lower (env_get e ''KLYROW_CAMPAIGN_CANARY_SENDER'' [])"
proof -
  have "campaign_execution_mode e = ''CAMPAIGN_CANARY_ONLY'' \<or> campaign_execution_mode e = ''CAMPAIGN_EXECUTION_DISABLED''"
    using assms(2) by (auto simp: campaign_execution_mode_def Let_def split: if_splits)
  then show ?thesis
    using assms
    by (auto simp: enforce_campaign_canary_def Let_def length_Suc_conv split: if_splits option.splits)
qed

text \<open>
  C37. In live mode the delivery worker's policy admits the payload of every message the intake accepts
  under the same configuration: the row is decoded, allowed and due at once, so the two readings of the canary policy, over the
  request and over the stored document, agree.
\<close>

theorem admitted_message_deliverable:
  assumes "send_request iv dr ctx key x db = (Inr resp, db')" and "db' \<noteq> db" and "\<not> iv_safe iv"
  shows "\<exists>item payload. ml_outbox (ik_mail db') = ml_outbox (ik_mail db) @ [item] \<and>
    decoded_payload item = Some payload \<and> payload_recipients payload = [lower (xm_to x)] \<and>
    payload_allowed (iv_env iv) (eo_tenant_id item) payload = Inr True \<and>
    (\<forall>t locked. \<not> locked (eo_id item) \<longrightarrow> deliverable t locked item)"
proof -
  let ?tid = "cx_tenant ctx"
  let ?key = "scoped_idempotency_key (st_codec (iv_stamps iv)) ctx key ''message.send'' ''messages''"
  let ?hash = "semantic_request_hash (st_codec (iv_stamps iv)) ''message.send'' ''messages'' (model_dump x)"
  have new: "send_new iv dr ctx ?key ?hash x db = (Inr resp, db')"
    using send_request_accepted [OF assms(1)] assms(2) by blast
  obtain auth gates billing where canary: "canary_checks iv dr ?tid x (ml_gates (ik_mail db)) = (Inr (), gates)"
    and acc: "accept_message iv dr auth billing ?tid ?key ?hash x (with_gates db gates) = (Inr resp, db')"
    by (rule send_new_accepted [OF new])
  have out: "ml_outbox (ik_mail db') = ml_outbox (ik_mail db) @ [new_outbox iv dr ?tid x]"
    by (rule accept_message_accepted [OF acc]) (simp add: assms(3))
  obtain payload where payload: "decoded_payload (new_outbox iv dr ?tid x) = Some payload"
    "map_of payload ''to'' = Some (JList [JStr (xm_to x)])" "map_of payload ''from'' = Some (JStr (xm_sender x))"
    "map_of payload ''stream'' = Some (JStr (xm_stream x))"
    "map_of payload ''campaign_id'' = Some (text_json (xm_campaign_id x))"
    by (rule new_outbox_payload)
  have to: "payload_recipients payload = [lower (xm_to x)]"
    using payload(2) by (simp add: payload_recipients_def obj_get_def List.map_filter_def)
  have "payload_allowed (iv_env iv) ?tid payload = Inr True"
  proof (cases "xm_stream x = ''marketing''")
    case True
    obtain g1 where "enforce_campaign_canary (iv_env iv) (id_now dr) ?tid x g1 = (Inr (), gates)"
      using canary True assms(3) by (auto simp: canary_checks_def split: prod.splits sum.splits)
    from campaign_canary_admitted [OF this] show ?thesis
      using True payload to
      by (auto simp: payload_allowed_def is_campaign_def obj_get_def campaign_worker_payload_allowed_def
          campaign_canary_payload_allowed_def payload_sender_def text_json_def res_bind_Inr)
  next
    case False
    have p: "enforce_production_canary (iv_env iv) False (id_now dr) x (ml_gates (ik_mail db)) = (Inr (), gates)"
      using canary False assms(3) by (auto simp: canary_checks_def split: prod.splits sum.splits)
    show ?thesis
      by (rule production_canary_admitted [OF p False])
         (use False payload to in \<open>simp add: payload_allowed_def is_campaign_def obj_get_def canary_payload_allowed_def
            payload_sender_def text_json_def res_bind_Inr split: prod.splits\<close>)
  qed
  then show ?thesis
    using out payload(1) to
    by (intro exI [of _ "new_outbox iv dr ?tid x"] exI [of _ payload]) (simp add: new_outbox_def deliverable_def)
qed
section \<open>The reservation bounds what the intake lets through\<close>

definition canary_row :: "email_outbox_row \<Rightarrow> bool" where
  "canary_row i \<longleftrightarrow> (case decoded_payload i of None \<Rightarrow> True | Some payload \<Rightarrow> \<not> is_campaign payload)"

definition canary_rows :: "intake_db \<Rightarrow> int" where
  "canary_rows db = int (length (filter canary_row (ml_outbox (ik_mail db))))"

definition reserved_in :: "env \<Rightarrow> gate_row list \<Rightarrow> int" where
  "reserved_in e gates = (case find_gate (canary_gate_key e) gates of None \<Rightarrow> 0 | Some g \<Rightarrow> ga_reserved_deliveries g)"

definition serve_all :: "intake_env \<Rightarrow> (intake_draws \<times> request_ctx \<times> string \<times> core_mail) list \<Rightarrow> intake_db \<Rightarrow> intake_db" where
  "serve_all iv requests db =
     fold (\<lambda>(dr, ctx, key, x) db. snd (send_request iv dr ctx key x db)) requests db"

lemma new_outbox_canary [simp]: "canary_row (new_outbox iv dr tid x) \<longleftrightarrow> xm_stream x \<noteq> ''marketing''"
  by (rule new_outbox_payload [of iv dr tid x]) (auto simp: canary_row_def is_campaign_def obj_get_def)

lemma find_gate_update:
  "find_gate k (update_gate k' (reserve t) gates) =
     map_option (\<lambda>g. if ga_gate_key g = k' then reserve t g else g) (find_gate k gates)"
  unfolding find_gate_def update_gate_def by (rule find_update_rows) (simp add: reserve_def)

lemma find_gate_key: "find_gate k gates = Some g \<Longrightarrow> ga_gate_key g = k"
  unfolding find_gate_def by (drule find_row_Some) simp

lemma production_canary_reserves:
  assumes "enforce_production_canary e False t x gates = (Inr (), gates')" and "xm_stream x \<noteq> ''marketing''"
  shows "reserved_in e gates' = reserved_in e gates + 1" and "reserved_in e gates' \<le> 1"
proof -
  obtain g where g: "canary_configuration_valid e" "find_gate (canary_gate_key e) gates = Some g"
    "ga_reserved_deliveries g < snd (snd (snd (canary_configuration e)))"
    "gates' = update_gate (canary_gate_key e) (reserve t) gates"
    by (rule production_canary_admitted [OF assms])
  have "snd (snd (snd (canary_configuration e))) = 1"
    using g(1) by (auto simp: canary_configuration_valid_def split: prod.splits)
  then show "reserved_in e gates' = reserved_in e gates + 1" "reserved_in e gates' \<le> 1"
    using g find_gate_key [OF g(2)] by (simp_all add: reserved_in_def find_gate_update reserve_def)
qed

lemma campaign_canary_other_gate:
  assumes "enforce_campaign_canary e t tid x gates = (Inr (), gates')"
    and "\<not> starts_with ''campaign:'' (canary_gate_key e)"
  shows "reserved_in e gates' = reserved_in e gates"
proof -
  obtain c where c: "canary_gate_key e \<noteq> ''campaign:'' @ c"
    "gates' = gates \<or> gates' = update_gate (''campaign:'' @ c) (reserve t) gates \<or>
     gates' = update_gate (''campaign:'' @ c) (reserve t) (gates @ [\<lparr>ga_gate_key = ''campaign:'' @ c,
        ga_reserved_deliveries = 0, ga_claimed_deliveries = 0, ga_updated_at = t\<rparr>])"
  proof -
    have "canary_gate_key e \<noteq> ''campaign:'' @ c" for c using assms(2) by (auto simp: starts_with_def)
    then show thesis
      using assms(1) that [of "case xm_campaign_id x of None \<Rightarrow> [] | Some c \<Rightarrow> c"]
      by (auto simp: enforce_campaign_canary_def Let_def split: if_splits option.splits)
  qed
  have "find_gate (canary_gate_key e) (gates @ [\<lparr>ga_gate_key = ''campaign:'' @ c, ga_reserved_deliveries = 0,
      ga_claimed_deliveries = 0, ga_updated_at = t\<rparr>]) = find_gate (canary_gate_key e) gates"
    using c(1) by (auto simp: find_gate_def find_row_append split: option.splits)
  moreover have "ga_gate_key g \<noteq> ''campaign:'' @ c" if "find_gate (canary_gate_key e) gates = Some g" for g
    using find_gate_key [OF that] c(1) by simp
  ultimately show ?thesis
    using c(2) by (auto simp: reserved_in_def find_gate_update split: option.splits)
qed

lemma canary_checks_reserved:
  assumes "canary_checks iv dr tid x gates = (Inr (), gates')" and "\<not> iv_safe iv"
    and "\<not> starts_with ''campaign:'' (canary_gate_key (iv_env iv))"
  shows "if xm_stream x = ''marketing'' then reserved_in (iv_env iv) gates' = reserved_in (iv_env iv) gates
    else reserved_in (iv_env iv) gates' = reserved_in (iv_env iv) gates + 1 \<and> reserved_in (iv_env iv) gates' \<le> 1"
proof (cases "xm_stream x = ''marketing''")
  case True
  then have "enforce_production_canary (iv_env iv) (iv_safe iv) (id_now dr) x gates = (Inr (), gates)"
    by (simp add: enforce_production_canary_def Let_def split: prod.splits)
  then show ?thesis
    using assms True campaign_canary_other_gate [OF _ assms(3)] by (simp add: canary_checks_def)
next
  case False
  then have "enforce_production_canary (iv_env iv) False (id_now dr) x gates = (Inr (), gates')"
    using assms(1,2) by (auto simp: canary_checks_def split: prod.splits sum.splits)
  from production_canary_reserves [OF this False] show ?thesis using False by simp
qed

lemma served_request_reserves:
  assumes "\<not> iv_safe iv" and "\<not> starts_with ''campaign:'' (canary_gate_key (iv_env iv))"
    and "db' = snd (send_request iv dr ctx key x db)"
  shows "reserved_in (iv_env iv) (ml_gates (ik_mail db')) - reserved_in (iv_env iv) (ml_gates (ik_mail db)) =
      canary_rows db' - canary_rows db \<and>
    (reserved_in (iv_env iv) (ml_gates (ik_mail db')) = reserved_in (iv_env iv) (ml_gates (ik_mail db)) \<or>
     reserved_in (iv_env iv) (ml_gates (ik_mail db')) \<le> 1)"
proof (cases "db' = db")
  case False
  let ?key = "scoped_idempotency_key (st_codec (iv_stamps iv)) ctx key ''message.send'' ''messages''"
  let ?hash = "semantic_request_hash (st_codec (iv_stamps iv)) ''message.send'' ''messages'' (model_dump x)"
  obtain resp where "send_request iv dr ctx key x db = (Inr resp, db')"
    using assms(3) False by (cases "send_request iv dr ctx key x db")
      (auto simp: send_request_def split: prod.splits sum.splits)
  then have new: "send_new iv dr ctx ?key ?hash x db = (Inr resp, db')"
    using send_request_accepted False by blast
  obtain auth gates billing where canary: "canary_checks iv dr (cx_tenant ctx) x (ml_gates (ik_mail db)) = (Inr (), gates)"
    and acc: "accept_message iv dr auth billing (cx_tenant ctx) ?key ?hash x (with_gates db gates) = (Inr resp, db')"
    by (rule send_new_accepted [OF new])
  have "ml_outbox (ik_mail db') = ml_outbox (ik_mail db) @ [new_outbox iv dr (cx_tenant ctx) x] \<and>
      ml_gates (ik_mail db') = gates"
    by (rule accept_message_accepted [OF acc]) (simp add: assms(1))
  then show ?thesis
    using canary_checks_reserved [OF canary assms(1,2)]
    by (cases "xm_stream x = ''marketing''") (simp_all add: canary_rows_def)
qed simp

text \<open>
  In live mode the intake lets at most as many messages outside the marketing stream into the
  outbox as the canary gate has reservations left: over any sequence of requests, replays and refusals
  included, each such row has taken one reservation, and the reservations never pass the configured
  single one.
\<close>

theorem live_intake_reserves:
  assumes "\<not> iv_safe iv" and "\<not> starts_with ''campaign:'' (canary_gate_key (iv_env iv))"
  shows "canary_rows (serve_all iv requests db) - canary_rows db =
      reserved_in (iv_env iv) (ml_gates (ik_mail (serve_all iv requests db))) - reserved_in (iv_env iv) (ml_gates (ik_mail db)) \<and>
    reserved_in (iv_env iv) (ml_gates (ik_mail (serve_all iv requests db))) \<le>
      max 1 (reserved_in (iv_env iv) (ml_gates (ik_mail db)))"
proof (induction requests arbitrary: db)
  case (Cons request requests)
  obtain dr ctx key x where r: "request = (dr, ctx, key, x)" by (cases request) auto
  define db1 where "db1 = snd (send_request iv dr ctx key x db)"
  have "serve_all iv (request # requests) db = serve_all iv requests db1"
    by (simp add: serve_all_def db1_def r)
  then show ?case
    using Cons.IH [of db1] served_request_reserves [OF assms db1_def] by auto
qed (simp add: serve_all_def)
section \<open>A live request\<close>

definition sample_mail :: "string \<Rightarrow> core_mail" where
  "sample_mail subject = \<lparr>xm_customer_id = None, xm_to = ''r@b.org'', xm_sender = ''n@a.org'', xm_reply_to = None,
     xm_subject = subject, xm_html = ''<p>'', xm_text = None, xm_template_id = None, xm_campaign_id = Some ''c1'',
     xm_tags = [], xm_tracking = [], xm_callback_metadata = [], xm_headers = [], xm_stream = ''transactional'',
     xm_topic = ''marketing''\<rparr>"

definition sample_intake :: intake_db where
  "sample_intake = \<lparr>ik_mail = mail_sample\<lparr>ml_outbox := [],
       gd_tenants := [\<lparr>tn_id = ''t1'', tn_name = ''Acme'', tn_enabled = True, tn_quota = 10\<rparr>],
       gd_subscriptions := [\<lparr>sb_id = ''s1'', sb_tenant_id = ''t1'', sb_price_id = ''p1'', sb_status = ''ACTIVE''\<rparr>],
       gd_policies := [\<lparr>mp_tenant_id = ''t1'', mp_sending_disabled = False, mp_sandbox_mode = False,
                      mp_daily_limit = 10, mp_hourly_limit = 5, mp_allowed_test_recipients_json = JText (JList []),
                      mp_reputation_state = ''GOOD'', mp_warmup_daily_limit = 10, mp_warmup_hourly_limit = 4\<rparr>],
       ml_gates := [\<lparr>ga_gate_key = ''klyrow-single-domain'', ga_reserved_deliveries = 0, ga_claimed_deliveries = 0,
                    ga_updated_at = 0\<rparr>]\<rparr>,
     ik_domains = [\<lparr>dn_id = ''dn1'', dn_tenant_id = ''t1'', dn_domain = ''a.org'', dn_token = ''tk'', dn_verified = True\<rparr>],
     ik_allowed = [\<lparr>as_tenant_id = ''t1'', as_address = ''n@a.org'', as_enabled = True\<rparr>],
     ik_send_gates = [],
     ik_campaign_domains = [\<lparr>cd_tenant_id = ''t1'', cd_campaign_id = ''c1'', cd_primary_domain = ''a.org'',
       cd_default_reply_to = None, cd_status = ''active'', cd_sender_domain_verified = True, cd_sending_enabled = True\<rparr>],
     ik_authorizations = [\<lparr>sa_tenant_id = ''t1'', sa_campaign_id = ''c1'', sa_mailbox_id = ''mb'', sa_sender = ''n@a.org'',
       sa_enabled = True\<rparr>],
     ik_mailboxes = [], ik_suspensions = [], ik_warmups = [], ik_idempotency = [], ik_usage = []\<rparr>"

definition sample_ctx :: request_ctx where
  "sample_ctx = \<lparr>cx_tenant = ''t1'', cx_sub = Some ''u1'', cx_client_id = None, cx_service = None, cx_role = None,
     cx_browser = False, cx_mail_channel = None\<rparr>"

definition sample_draws :: intake_draws where
  "sample_draws = \<lparr>id_now = 10, id_message = ''m1'', id_event = ''e1'', id_usage = ''u1'', id_outbox = ''o1'',
     id_nonce = plain_nonce, id_jti = ''j1''\<rparr>"

text \<open>The stand-in for the digest's text keeps the subject of the payload.\<close>

definition subject_dumps :: "json \<Rightarrow> string" where
  "subject_dumps v =
     (case v of
        JObj kvs \<Rightarrow> (case obj_get kvs ''payload'' of
          JObj ps \<Rightarrow> (case obj_get ps ''subject'' of JStr s \<Rightarrow> s | _ \<Rightarrow> []) | _ \<Rightarrow> [])
      | _ \<Rightarrow> [])"

definition sample_response :: json where
  "sample_response = JObj
     [(''id'', JStr ''m1''), (''provider_message_id'', JStr ''m1''), (''safe_mode'', JBool False),
      (''status'', JStr ''queued''), (''stream'', JStr ''transactional'')]"

definition live_env :: intake_env where
  "live_env = \<lparr>iv_stamps = sample_stamps\<lparr>st_codec := (plain_codec JNull)\<lparr>cd_dumps := subject_dumps\<rparr>\<rparr>,
     iv_env = canary_env, iv_safe = False, iv_repr = (\<lambda>_. []), iv_suite = plain_suite sample_response,
     iv_ring = Inr plain_ring, iv_jwt = (\<lambda>_. ''jwt''), iv_pydantic = (\<lambda>_. [])\<rparr>"

definition live_send :: "string \<Rightarrow> string \<Rightarrow> intake_db \<Rightarrow> json res \<times> intake_db" where
  "live_send key subject db = send_request live_env sample_draws sample_ctx key (sample_mail subject) db"

lemma live_send_eval:
  "case live_send ''k1'' ''Hi'' sample_intake of
     (Inr resp, db) \<Rightarrow> sort_doc resp = sample_response \<and> length (ik_idempotency db) = 1 \<and>
       list_all (\<lambda>r. length (rp_response_json r) \<le> 500) (ik_idempotency db) \<and>
       map eo_id (ml_outbox (ik_mail db)) = [''o1'']
   | _ \<Rightarrow> False"
  by code_simp
lemma live_send_accepted:
  obtains resp db' where "send_request live_env sample_draws sample_ctx ''k1'' (sample_mail ''Hi'') sample_intake = (Inr resp, db')"
    and "sort_doc resp = sample_response" and "db' \<noteq> sample_intake"
    and "\<forall>r \<in> set (ik_idempotency db'). int (length (rp_response_json r)) \<le> MAX_ENVELOPE_BYTES"
    and "map eo_id (ml_outbox (ik_mail db')) = [''o1'']"
proof -
  obtain res db' where s: "live_send ''k1'' ''Hi'' sample_intake = (res, db')" by (cases "live_send ''k1'' ''Hi'' sample_intake")
  from live_send_eval [unfolded s] obtain resp where r: "res = Inr resp" "sort_doc resp = sample_response"
    "length (ik_idempotency db') = 1" "list_all (\<lambda>r. length (rp_response_json r) \<le> 500) (ik_idempotency db')"
    "map eo_id (ml_outbox (ik_mail db')) = [''o1'']"
    by (auto split: sum.splits)
  have "ik_idempotency sample_intake = []" by (simp add: sample_intake_def)
  then have "db' \<noteq> sample_intake" using r(3) by auto
  moreover have "\<forall>r \<in> set (ik_idempotency db'). int (length (rp_response_json r)) \<le> MAX_ENVELOPE_BYTES"
    using r(4) by (fastforce simp: list_all_iff MAX_ENVELOPE_BYTES_def)
  ultimately show thesis
    using that [of resp db'] s r(1,2,5) by (simp add: live_send_def)
qed

theorem accepted_send_sound_witness:
  "\<exists>resp db'. live_send ''k1'' ''Hi'' sample_intake = (Inr resp, db') \<and> length (gd_messages (ik_mail db')) = 1 \<and>
     length (ml_outbox (ik_mail db')) = 1 \<and> length (ik_usage db') = 1"
proof -
  obtain resp db' where s: "send_request live_env sample_draws sample_ctx ''k1'' (sample_mail ''Hi'') sample_intake = (Inr resp, db')"
    "db' \<noteq> sample_intake" by (rule live_send_accepted)
  have "gd_messages (ik_mail sample_intake) = []" "ml_outbox (ik_mail sample_intake) = []" "ik_usage sample_intake = []"
    "\<not> iv_safe live_env"
    by (simp_all add: sample_intake_def mail_sample_def live_env_def)
  then show ?thesis using accepted_send_sound [OF s] s(1) by (auto simp: live_send_def)
qed

theorem send_replayed_witness:
  "\<exists>resp db'. live_send ''k1'' ''Hi'' sample_intake = (Inr resp, db') \<and>
     live_send ''k1'' ''Hi'' db' = (Inr sample_response, db') \<and>
     live_send ''k1'' ''Bye'' db' = (Inl (HTTPException 409 ''idempotency_key_payload_mismatch''), db')"
proof -
  obtain resp db' where s: "send_request live_env sample_draws sample_ctx ''k1'' (sample_mail ''Hi'') sample_intake = (Inr resp, db')"
    "sort_doc resp = sample_response" "db' \<noteq> sample_intake"
    "\<forall>r \<in> set (ik_idempotency db'). int (length (rp_response_json r)) \<le> MAX_ENVELOPE_BYTES"
    by (rule live_send_accepted)
  have env: "iv_suite live_env = plain_suite sample_response" "iv_ring live_env = Inr plain_ring"
    by (simp_all add: live_env_def)
  have doc: "decodes (iv_suite live_env) (sort_doc resp)"
    unfolding s(2) env by (simp add: decodes_def plain_suite_def plain_dumps_def sample_response_def)
  have hash: "semantic_request_hash (st_codec (iv_stamps live_env)) ''message.send'' ''messages'' (model_dump (sample_mail ''Bye'')) \<noteq>
      semantic_request_hash (st_codec (iv_stamps live_env)) ''message.send'' ''messages'' (model_dump (sample_mail ''Hi''))"
    by code_simp
  have small: "length (id_nonce sample_draws) = 12" by (simp add: sample_draws_def plain_nonce_def)
  have laws: "cipher_laws (iv_suite live_env)" "\<forall>c k n. decodes (iv_suite live_env) (envelope_doc c k n)"
    unfolding env using plain_laws plain_decodes_envelope by blast+
  from send_replayed [OF s(1,3) refl refl refl env(2) env(2) refl laws(1) small s(4) doc laws(2), of sample_draws] hash s(1,2)
  show ?thesis by (auto simp: live_send_def)
qed

theorem admitted_message_deliverable_witness:
  "\<exists>resp db' item. live_send ''k1'' ''Hi'' sample_intake = (Inr resp, db') \<and>
     ml_outbox (ik_mail db') = [item] \<and> deliverable 20 (\<lambda>_. False) item"
proof -
  obtain resp db' where s: "send_request live_env sample_draws sample_ctx ''k1'' (sample_mail ''Hi'') sample_intake = (Inr resp, db')"
    "db' \<noteq> sample_intake" by (rule live_send_accepted)
  have "ml_outbox (ik_mail sample_intake) = []" by (simp add: sample_intake_def)
  moreover have "\<not> iv_safe live_env" by (simp add: live_env_def)
  ultimately show ?thesis using admitted_message_deliverable [OF s] s(1) by (auto simp: live_send_def)
qed

text \<open>Two requests with their own keys: the second is refused, and one row is in the outbox.\<close>

theorem live_intake_reserves_witness:
  "canary_rows (serve_all live_env [(sample_draws, sample_ctx, ''k1'', sample_mail ''Hi''),
     (sample_draws\<lparr>id_message := ''m2'', id_outbox := ''o2''\<rparr>, sample_ctx, ''k2'', sample_mail ''Bye'')] sample_intake) \<le> 1"
proof -
  have "\<not> iv_safe live_env" by (simp add: live_env_def)
  moreover have "\<not> starts_with ''campaign:'' (canary_gate_key (iv_env live_env))" by code_simp
  moreover have "canary_rows sample_intake = 0" by (simp add: canary_rows_def sample_intake_def)
  moreover have "reserved_in (iv_env live_env) (ml_gates (ik_mail sample_intake)) = 0" by code_simp
  ultimately show ?thesis
    using live_intake_reserves [of live_env "[(sample_draws, sample_ctx, ''k1'', sample_mail ''Hi''),
      (sample_draws\<lparr>id_message := ''m2'', id_outbox := ''o2''\<rparr>, sample_ctx, ''k2'', sample_mail ''Bye'')]" sample_intake]
    by simp
qed
text \<open>
  The installed send is the original one on every request whose raw key names no stored row, and
  on those with a row under the scoped key. It differs where the raw key names a row of another action: the
  original answers that row's response or a conflict, and the installed one processes the request.
\<close>

theorem scoped_send_conservative:
  fixes iv :: intake_env and ctx :: request_ctx and db :: intake_db and key :: string
  defines "skey \<equiv> scoped_idempotency_key (st_codec (iv_stamps iv)) ctx key ''message.send'' ''messages''"
  shows "(find_replay db (cx_tenant ctx) key = None \<or> find_replay db (cx_tenant ctx) skey \<noteq> None \<longrightarrow>
      send_with_scoped_legacy_compatibility iv dr ctx key x db = send_core iv dr ctx key x db) \<and>
    (\<forall>row v. key \<noteq> [] \<longrightarrow> find_replay db (cx_tenant ctx) skey = None \<longrightarrow>
       find_replay db (cx_tenant ctx) key = Some row \<longrightarrow>
       read_control_response (iv_suite iv) (iv_env iv) (iv_ring iv) row = Inr v \<longrightarrow>
       find_row (\<lambda>m. cm_id m = rp_resource_id row \<and> cm_tenant_id m = cx_tenant ctx) (gd_messages (ik_mail db)) = None \<longrightarrow>
       send_core iv dr ctx key x db = (stored_response iv (legacy_hash iv x) row, db) \<and>
       send_with_scoped_legacy_compatibility iv dr ctx key x db =
         send_new iv dr ctx skey (semantic_request_hash (st_codec (iv_stamps iv)) ''message.send'' ''messages'' (model_dump x)) x db)"
proof (intro conjI allI impI)
  assume "find_replay db (cx_tenant ctx) key = None \<or> find_replay db (cx_tenant ctx) skey \<noteq> None"
  then show "send_with_scoped_legacy_compatibility iv dr ctx key x db = send_core iv dr ctx key x db"
    by (auto simp: send_with_scoped_legacy_compatibility_def send_core_def Let_def skey_def
        legacy_message_send_response_def split: option.split)
next
  fix row v
  assume "key \<noteq> []" and none: "find_replay db (cx_tenant ctx) skey = None"
    and row: "find_replay db (cx_tenant ctx) key = Some row"
    and v: "read_control_response (iv_suite iv) (iv_env iv) (iv_ring iv) row = Inr v"
    and gone: "find_row (\<lambda>m. cm_id m = rp_resource_id row \<and> cm_tenant_id m = cx_tenant ctx) (gd_messages (ik_mail db)) = None"
  then show "send_core iv dr ctx key x db = (stored_response iv (legacy_hash iv x) row, db)"
    by (simp add: send_core_def Let_def skey_def)
  obtain shape where "legacy_message_shape iv row = Inr shape"
    using v by (cases v) (auto simp: legacy_message_shape_def)
  then have "legacy_message_send_response iv db (cx_tenant ctx) (Some row) = Inr None"
    using gone by (simp add: legacy_message_send_response_def res_bind_def)
  then show "send_with_scoped_legacy_compatibility iv dr ctx key x db =
      send_new iv dr ctx skey (semantic_request_hash (st_codec (iv_stamps iv)) ''message.send'' ''messages'' (model_dump x)) x db"
    using \<open>key \<noteq> []\<close> none row by (simp add: send_with_scoped_legacy_compatibility_def Let_def skey_def)
qed

lemma plain_row_read: "read_control_response (plain_suite sample_response) canary_env (Inr plain_ring)
    \<lparr>rp_response_json = ''L'', rp_tenant_id = ''t1'', rp_key = ''k1'', rp_request_hash = ''h'', rp_resource_id = ''cmp''\<rparr> =
    Inr legacy_doc"
  by code_simp

text \<open>A campaign's replay row has the same raw key.\<close>

theorem scoped_send_conservative_witness:
  "\<exists>row resp db'. send_core live_env sample_draws sample_ctx ''k1'' (sample_mail ''Hi'') (sample_intake\<lparr>ik_idempotency := [row]\<rparr>) =
      (Inl (HTTPException 409 ''idempotency_key_payload_mismatch''), sample_intake\<lparr>ik_idempotency := [row]\<rparr>) \<and>
    send_with_scoped_legacy_compatibility live_env sample_draws sample_ctx ''k1'' (sample_mail ''Hi'')
      (sample_intake\<lparr>ik_idempotency := [row]\<rparr>) = (Inr resp, db')"
proof -
  let ?row = "\<lparr>rp_response_json = ''L'', rp_tenant_id = ''t1'', rp_key = ''k1'', rp_request_hash = ''h'', rp_resource_id = ''cmp''\<rparr>"
  let ?db = "sample_intake\<lparr>ik_idempotency := [?row]\<rparr>"
  have ring: "iv_suite live_env = plain_suite sample_response" "iv_env live_env = canary_env" "iv_ring live_env = Inr plain_ring"
    by (simp_all add: live_env_def)
  have found: "find_replay ?db (cx_tenant sample_ctx) ''k1'' = Some ?row"
    by (simp add: find_replay_def sample_ctx_def)
  have none: "find_replay ?db (cx_tenant sample_ctx) (scoped_idempotency_key (st_codec (iv_stamps live_env)) sample_ctx ''k1''
      ''message.send'' ''messages'') = None" by code_simp
  have gone: "find_row (\<lambda>m. cm_id m = rp_resource_id ?row \<and> cm_tenant_id m = cx_tenant sample_ctx) (gd_messages (ik_mail ?db)) = None"
    by (simp add: sample_intake_def mail_sample_def)
  have new: "case send_new live_env sample_draws sample_ctx (scoped_idempotency_key (st_codec (iv_stamps live_env)) sample_ctx ''k1''
      ''message.send'' ''messages'') (semantic_request_hash (st_codec (iv_stamps live_env)) ''message.send'' ''messages''
      (model_dump (sample_mail ''Hi''))) (sample_mail ''Hi'') ?db of (Inr resp, db') \<Rightarrow> True | _ \<Rightarrow> False"
    by code_simp
  have hash: "rp_request_hash ?row \<noteq> legacy_hash live_env (sample_mail ''Hi'')" by code_simp
  from scoped_send_conservative [of ?db sample_ctx "''k1''" live_env sample_draws "sample_mail ''Hi''"] found none gone
    plain_row_read [folded ring]
  have "send_core live_env sample_draws sample_ctx ''k1'' (sample_mail ''Hi'') ?db =
      (stored_response live_env (legacy_hash live_env (sample_mail ''Hi'')) ?row, ?db) \<and>
    send_with_scoped_legacy_compatibility live_env sample_draws sample_ctx ''k1'' (sample_mail ''Hi'') ?db =
      send_new live_env sample_draws sample_ctx (scoped_idempotency_key (st_codec (iv_stamps live_env)) sample_ctx ''k1''
        ''message.send'' ''messages'') (semantic_request_hash (st_codec (iv_stamps live_env)) ''message.send'' ''messages''
        (model_dump (sample_mail ''Hi''))) (sample_mail ''Hi'') ?db"
    by blast
  then show ?thesis
    using hash new by (intro exI [of _ ?row]) (auto simp: stored_response_def split: prod.splits sum.splits)
qed

end
