(* ===== verification/MiddlewareCommands.thy ===== *)
theory MiddlewareCommands
  imports MessageIntake
begin

text \<open>
  The durable commands of the middleware (\<open>main.py\<close>): recording under the caller's key, execution of
  the five commands, the three ways a failure is committed, read-back of the outcome, and recovery of
  interrupted commands. \<open>_send\<close> is the installed one (theory \<open>MessageIntake\<close>).
\<close>

section \<open>State\<close>

record command_row =
  mc_command_id :: string
  mc_tenant_id :: string
  mc_command :: string
  mc_idempotency_key :: string
  mc_correlation_id :: string
  mc_state :: string
  mc_request_hash :: string
  mc_request :: jtext
  mc_result :: jtext
  mc_error :: "string option"
  mc_created_at :: int
  mc_updated_at :: int

record command_db =
  cb_intake :: intake_db
  cb_commands :: "command_row list"

definition get_command :: "command_db \<Rightarrow> string \<Rightarrow> command_row option" where
  "get_command db k = find_row (\<lambda>r. mc_command_id r = k) (cb_commands db)"

definition put_command :: "string \<Rightarrow> (command_row \<Rightarrow> command_row) \<Rightarrow> command_db \<Rightarrow> command_db" where
  "put_command k f db = db\<lparr>cb_commands := update_rows (\<lambda>r. mc_command_id r = k) f (cb_commands db)\<rparr>"

text \<open>\<open>MiddlewareCommandIn\<close> after validation.\<close>

record command_in =
  ci_command :: string
  ci_payload :: "(string \<times> json) list"
  ci_target :: "string option"
  ci_tenant_id :: "string option"
  ci_correlation_id :: "string option"

text \<open>
  The environment of an execution: the intake's, the address validator of \<open>EmailStr\<close>, the TXT records
  of a name (\<open>None\<close> when the lookup raises).
\<close>

record command_env =
  ce_intake :: intake_env
  ce_email :: "string \<Rightarrow> string option"
  ce_txt :: "string \<Rightarrow> string list option"

definition MIDDLEWARE_ALLOWED_COMMANDS :: "string list" where
  "MIDDLEWARE_ALLOWED_COMMANDS =
     [''email.message.send.v1'', ''email.message.cancel.v1'', ''email.domain.verify.v1'',
      ''email.suppression.upsert.v1'', ''email.reputation.snapshot.request.v1'']"

section \<open>\<open>MailIn\<close>\<close>

definition optional_str :: "(string \<times> json) list \<Rightarrow> string \<Rightarrow> string option option" where
  "optional_str kvs k =
     (case map_of kvs k of
        None \<Rightarrow> Some None | Some JNull \<Rightarrow> Some None | Some (JStr s) \<Rightarrow> Some (Some s) | Some _ \<Rightarrow> None)"

definition required_str :: "(string \<times> json) list \<Rightarrow> string \<Rightarrow> int option \<Rightarrow> string option" where
  "required_str kvs k maximum =
     Option.bind (Option.bind (map_of kvs k) json_string) (\<lambda>s.
       case maximum of None \<Rightarrow> Some s | Some n \<Rightarrow> if int (length s) \<le> n then Some s else None)"

definition default_str :: "(string \<times> json) list \<Rightarrow> string \<Rightarrow> string \<Rightarrow> string option" where
  "default_str kvs k d = (case map_of kvs k of None \<Rightarrow> Some d | Some v \<Rightarrow> json_string v)"

definition dict_field :: "(string \<times> json) list \<Rightarrow> string \<Rightarrow> (string \<times> json) list option" where
  "dict_field kvs k = (case map_of kvs k of None \<Rightarrow> Some [] | Some v \<Rightarrow> json_obj v)"

definition strings_of :: "json list \<Rightarrow> string list option" where
  "strings_of vs = (if list_all (\<lambda>v. json_string v \<noteq> None) vs then Some (List.map_filter json_string vs) else None)"

definition tags_field :: "(string \<times> json) list \<Rightarrow> string list option" where
  "tags_field kvs =
     (case map_of kvs ''tags'' of
        None \<Rightarrow> Some []
      | Some (JList vs) \<Rightarrow> if int (length vs) \<le> 50 then strings_of vs else None
      | Some _ \<Rightarrow> None)"

definition validate_governed_headers :: "(string \<times> string) list \<Rightarrow> bool" where
  "validate_governed_headers hs \<longleftrightarrow>
     set (map fst hs) \<subseteq> {''Message-ID'', ''In-Reply-To'', ''References''} \<and>
     (\<forall>v \<in> set (map snd hs). v \<noteq> [] \<and> int (length v) \<le> 4096 \<and> CHR 0x0D \<notin> set v \<and> CHR 0x0A \<notin> set v)"

definition headers_field :: "(string \<times> json) list \<Rightarrow> (string \<times> string) list option" where
  "headers_field kvs =
     Option.bind (dict_field kvs ''headers'') (\<lambda>hs.
     Option.bind (strings_of (map snd hs)) (\<lambda>vs.
       let pairs = zip (map fst hs) vs in if validate_governed_headers pairs then Some pairs else None))"

definition accept_from_alias :: "(string \<times> json) list \<Rightarrow> (string \<times> json) list" where
  "accept_from_alias kvs =
     (case map_of kvs ''sender'' of
        Some _ \<Rightarrow> kvs
      | None \<Rightarrow> (case map_of kvs ''from'' of None \<Rightarrow> kvs | Some v \<Rightarrow> kvs @ [(''sender'', v)]))"

definition optional_email :: "(string \<Rightarrow> string option) \<Rightarrow> string option \<Rightarrow> string option option" where
  "optional_email email_of o_text =
     (case o_text of None \<Rightarrow> Some None | Some s \<Rightarrow> map_option Some (email_of s))"

definition MailIn :: "(string \<Rightarrow> string option) \<Rightarrow> (string \<times> json) list \<Rightarrow> core_mail option" where
  "MailIn email_of data =
     (let kvs = accept_from_alias data
      in Option.bind (optional_str kvs ''customer_id'') (\<lambda>customer_id.
         Option.bind (Option.bind (required_str kvs ''to'' None) email_of) (\<lambda>to_address.
         Option.bind (Option.bind (required_str kvs ''sender'' None) email_of) (\<lambda>sender.
         Option.bind (Option.bind (optional_str kvs ''reply_to'') (optional_email email_of)) (\<lambda>reply_to.
         Option.bind (required_str kvs ''subject'' (Some 998)) (\<lambda>subject.
         Option.bind (required_str kvs ''html'' (Some 100000)) (\<lambda>html.
         Option.bind (optional_str kvs ''text'') (\<lambda>plain.
         Option.bind (optional_str kvs ''template_id'') (\<lambda>template_id.
         Option.bind (optional_str kvs ''campaign_id'') (\<lambda>campaign_id.
         Option.bind (tags_field kvs) (\<lambda>tags.
         Option.bind (dict_field kvs ''tracking'') (\<lambda>tracking.
         Option.bind (dict_field kvs ''callback_metadata'') (\<lambda>metadata.
         Option.bind (headers_field kvs) (\<lambda>headers.
         Option.bind (default_str kvs ''stream'' ''transactional'') (\<lambda>stream.
         Option.bind (default_str kvs ''topic'' ''marketing'') (\<lambda>topic.
           if stream \<in> {''marketing'', ''transactional'', ''security'', ''system'', ''bulk''}
           then Some \<lparr>xm_customer_id = customer_id, xm_to = to_address, xm_sender = sender, xm_reply_to = reply_to,
             xm_subject = subject, xm_html = html, xm_text = plain, xm_template_id = template_id,
             xm_campaign_id = campaign_id, xm_tags = tags, xm_tracking = tracking,
             xm_callback_metadata = metadata, xm_headers = headers, xm_stream = stream, xm_topic = topic\<rparr>
           else None))))))))))))))))"

section \<open>Recording and reading\<close>

definition command_payload :: "command_in \<Rightarrow> (string \<times> json) list" where
  "command_payload x = accept_from_alias (ci_payload x)"

definition command_request_hash :: "codec \<Rightarrow> command_in \<Rightarrow> string" where
  "command_request_hash c x =
     cd_sha256_hex c (cd_dumps c (sort_doc (JObj
       [(''command'', JStr (ci_command x)), (''payload'', JObj (ci_payload x)),
        (''target'', text_json (ci_target x)), (''tenant_id'', text_json (ci_tenant_id x))])))"

text \<open>\<open>json.loads(column or "{}")\<close>.\<close>

definition loads_or_empty :: "jtext \<Rightarrow> json res" where
  "loads_or_empty column =
     (case column of
        JText d \<Rightarrow> Inr d
      | BadText s \<Rightarrow> if s = [] then Inr (JObj []) else Inl (ValueError ''JSONDecodeError''))"

definition command_response :: "command_row \<Rightarrow> json res" where
  "command_response item =
     res_bind (loads_or_empty (mc_result item)) (\<lambda>result.
       Inr (JObj [(''command_id'', JStr (mc_command_id item)), (''tenant_id'', JStr (mc_tenant_id item)),
         (''command'', JStr (mc_command item)), (''state'', JStr (mc_state item)),
         (''correlation_id'', JStr (mc_correlation_id item)), (''result'', result),
         (''error'', text_json (mc_error item))]))"

definition MESSAGE_STATES :: "(string \<times> string) list" where
  "MESSAGE_STATES =
     [(''accepted'', ''accepted''), (''queued'', ''queued''), (''submitted'', ''submitted''),
      (''provider_accepted'', ''submitted''), (''delivered'', ''delivered''), (''deferred'', ''deferred''),
      (''bounced'', ''bounced''), (''complained'', ''complained''), (''suppressed'', ''rejected''),
      (''failed'', ''failed''), (''cancelled'', ''cancelled''), (''indeterminate'', ''unknown_outcome'')]"

definition projected_state :: "string \<Rightarrow> string \<Rightarrow> string \<Rightarrow> string" where
  "projected_state message_state outbox_state current =
     (let state = (case map_of MESSAGE_STATES message_state of None \<Rightarrow> current | Some s \<Rightarrow> s)
      in if outbox_state = ''sending'' then ''processing''
         else if outbox_state = ''indeterminate'' then ''unknown_outcome''
         else if outbox_state = ''failed'' \<and> state \<notin> {''delivered'', ''bounced'', ''complained'', ''cancelled''}
         then ''failed''
         else if outbox_state = ''cancelled'' then ''cancelled'' else state)"

text \<open>The message that the stored result names; a result that does not decode names none.\<close>

definition result_message_id :: "(json \<Rightarrow> string) \<Rightarrow> command_row \<Rightarrow> string res" where
  "result_message_id repr_of item =
     (case loads_or_empty (mc_result item) of
        Inl _ \<Rightarrow> Inr []
      | Inr (JObj o_result) \<Rightarrow> Inr (json_str repr_of (json_or (obj_get o_result ''id'') (JStr [])))
      | Inr _ \<Rightarrow> Inl (AttributeError ''get''))"

definition find_message :: "intake_db \<Rightarrow> string \<Rightarrow> string \<Rightarrow> core_message_row option" where
  "find_message db tid mid = find_row (\<lambda>m. cm_id m = mid \<and> cm_tenant_id m = tid) (gd_messages (ik_mail db))"

definition find_outbox :: "intake_db \<Rightarrow> string \<Rightarrow> string \<Rightarrow> email_outbox_row option" where
  "find_outbox db tid mid = find_row (\<lambda>i. eo_message_id i = mid \<and> eo_tenant_id i = tid) (ml_outbox (ik_mail db))"

definition reconcile_email_command_operation ::
  "(json \<Rightarrow> string) \<Rightarrow> int \<Rightarrow> command_row \<Rightarrow> command_db \<Rightarrow> (command_row \<times> command_db) res" where
  "reconcile_email_command_operation repr_of t item db =
     (if mc_command item \<noteq> ''email.message.send.v1'' then Inr (item, db)
      else res_bind (result_message_id repr_of item) (\<lambda>mid.
        if mid = [] then Inr (item, db)
        else
          (let message = find_message (cb_intake db) (mc_tenant_id item) mid;
               outbox = find_outbox (cb_intake db) (mc_tenant_id item) mid;
               state = projected_state (case message of None \<Rightarrow> [] | Some m \<Rightarrow> lower (cm_status m))
                         (case outbox of None \<Rightarrow> [] | Some i \<Rightarrow> lower (eo_state i)) (mc_state item);
               f = (\<lambda>r. r\<lparr>mc_state := state, mc_updated_at := t\<rparr>)
           in if mc_state item = state then Inr (item, db)
              else Inr (f item, put_command (mc_command_id item) f db))))"
section \<open>Execution\<close>

text \<open>
  How the body of a command ends: an \<open>HTTPException\<close>, a validation error, or any other exception. The
  first two leave the session as it is and commit it, the third rolls it back.
\<close>

datatype command_failure = Rejected nat string | Invalid | Interrupted exn

definition failure_of :: "exn \<Rightarrow> command_failure" where
  "failure_of x = (case x of HTTPException status detail \<Rightarrow> Rejected status detail | _ \<Rightarrow> Interrupted x)"

definition middleware_ctx :: "string \<Rightarrow> request_ctx" where
  "middleware_ctx tid =
     \<lparr>cx_tenant = tid, cx_sub = Some ''middleware-service'', cx_client_id = None, cx_service = Some ''True'',
      cx_role = None, cx_browser = False, cx_mail_channel = None\<rparr>"

definition command_mail :: "command_env \<Rightarrow> command_row \<Rightarrow> (string \<times> json) list \<Rightarrow> core_mail option" where
  "command_mail ce item payload =
     map_option (\<lambda>mail. mail\<lparr>xm_callback_metadata := obj_update (xm_callback_metadata mail)
         [(''operation_id'', JStr (mc_command_id item)), (''correlation_id'', JStr (mc_correlation_id item))]\<rparr>)
       (MailIn (ce_email ce) payload)"

type_synonym effect = "(command_failure + (command_row \<Rightarrow> command_row)) \<times> intake_db"

definition concluded :: "string \<Rightarrow> json \<Rightarrow> command_row \<Rightarrow> command_row" where
  "concluded state result item = item\<lparr>mc_state := state, mc_result := JText result\<rparr>"

definition send_command ::
  "command_env \<Rightarrow> intake_draws \<Rightarrow> command_row \<Rightarrow> (string \<times> json) list \<Rightarrow> intake_db \<Rightarrow> effect" where
  "send_command ce dr item payload db =
     (case command_mail ce item payload of
        None \<Rightarrow> (Inl Invalid, db)
      | Some mail \<Rightarrow>
          (case send_with_scoped_legacy_compatibility (ce_intake ce) dr (middleware_ctx (mc_tenant_id item))
                  (mc_idempotency_key item) mail db of
             (Inl x, db1) \<Rightarrow> (Inl (failure_of x), db1)
           | (Inr result, db1) \<Rightarrow> (Inr (concluded ''queued'' (sort_doc result)), db1)))"

definition payload_text :: "(json \<Rightarrow> string) \<Rightarrow> (string \<times> json) list \<Rightarrow> string list \<Rightarrow> string \<Rightarrow> string" where
  "payload_text repr_of payload keys fallback =
     json_str repr_of (foldr (\<lambda>k v. json_or (obj_get payload k) v) keys (JStr fallback))"

definition cancelled_result :: "string \<Rightarrow> email_outbox_row option \<Rightarrow> json" where
  "cancelled_result mid outbox = JObj
     [(''message_id'', JStr mid), (''status'', JStr ''cancelled''),
      (''outbox_state'', text_json (map_option eo_state outbox))]"

definition cancel_row :: "int \<Rightarrow> email_outbox_row \<Rightarrow> email_outbox_row" where
  "cancel_row t i = i\<lparr>eo_state := ''cancelled'', eo_last_error := Some ''cancelled_by_middleware_command'',
     eo_updated_at := t\<rparr>"

definition cancelled_lifecycle :: "command_row \<Rightarrow> core_message_row \<Rightarrow> email_outbox_row option \<Rightarrow> lifecycle" where
  "cancelled_lifecycle item message outbox =
     \<lparr>lc_kind = ''email.cancelled'', lc_tenant_id = mc_tenant_id item, lc_message_id = cm_id message,
      lc_operation_id = mc_command_id item, lc_correlation_id = mc_correlation_id item,
      lc_provider_message_id = Option.bind outbox eo_provider_message_id,
      lc_recipient = Some (cm_recipient message), lc_attempt = 1\<rparr>"

text \<open>The rows of a cancellation: outbox, message, lifecycle event.\<close>

definition cancel_rows ::
  "intake_env \<Rightarrow> intake_draws \<Rightarrow> command_row \<Rightarrow> core_message_row \<Rightarrow> email_outbox_row option \<Rightarrow> intake_db \<Rightarrow> intake_db res" where
  "cancel_rows iv dr item message outbox db =
     (let m1 = (case outbox of None \<Rightarrow> ik_mail db | Some i \<Rightarrow> put_item (eo_id i) (cancel_row (id_now dr)) (ik_mail db))
      in res_bind (mark_message (cm_id message) ''cancelled'' m1) (\<lambda>m2.
         res_bind (queue_lifecycle iv dr (cancelled_lifecycle item message outbox) m2) (\<lambda>m3.
           Inr (db\<lparr>ik_mail := m3\<rparr>))))"

definition cancel_command ::
  "command_env \<Rightarrow> intake_draws \<Rightarrow> command_row \<Rightarrow> (string \<times> json) list \<Rightarrow> intake_db \<Rightarrow> effect" where
  "cancel_command ce dr item payload db =
     (let mid = payload_text (iv_repr (ce_intake ce)) payload [''message_id''] []
      in case find_message db (mc_tenant_id item) mid of
           None \<Rightarrow> (Inl (Rejected 404 ''not_found''), db)
         | Some message \<Rightarrow>
             (let outbox = find_outbox db (mc_tenant_id item) (cm_id message)
              in if cm_status message = ''cancelled'' \<and> (outbox = None \<or> map_option eo_state outbox = Some ''cancelled'')
                 then (Inr (concluded ''cancelled'' (cancelled_result (cm_id message) outbox)), db)
                 else if cm_status message \<in> {''delivered'', ''bounced'', ''complained'', ''failed''}
                 then (Inl (Rejected 409 ''terminal_message_cannot_cancel''), db)
                 else if (case outbox of None \<Rightarrow> False | Some i \<Rightarrow> eo_state i \<notin> {''pending'', ''retry''})
                 then (Inl (Rejected 409 ''provider_submission_requires_reconciliation''), db)
                 else if outbox = None \<and> cm_status message \<noteq> ''accepted''
                 then (Inl (Rejected 409 ''message_not_cancellable''), db)
                 else (case cancel_rows (ce_intake ce) dr item message outbox db of
                         Inl x \<Rightarrow> (Inl (failure_of x), db)
                       | Inr db1 \<Rightarrow>
                           (Inr (concluded ''cancelled'' (cancelled_result (cm_id message)
                              (map_option (cancel_row (id_now dr)) outbox))), db1))))"

text \<open>\<open>domain_verify\<close>: the published TXT record decides, a failed lookup counts as unverified.\<close>

definition domain_status_data :: "intake_draws \<Rightarrow> domain_row \<Rightarrow> bool \<Rightarrow> (string \<times> arg) list" where
  "domain_status_data dr d verified =
     [(''domain_id'', AJson (JStr (dn_id d))), (''domain'', AJson (JStr (dn_domain d))),
      (''status'', AJson (JStr (if verified then ''VERIFIED'' else ''DNS_REQUIRED''))),
      (''verified_at'', if verified then AAware (id_now dr) else AJson JNull)]"

definition strip_quotes :: "string \<Rightarrow> string" where
  "strip_quotes s = rev (dropWhile (\<lambda>c. c = CHR 0x22) (rev (dropWhile (\<lambda>c. c = CHR 0x22) s)))"

definition domain_verify ::
  "command_env \<Rightarrow> intake_draws \<Rightarrow> string \<Rightarrow> string \<Rightarrow> intake_db \<Rightarrow> bool res \<times> intake_db" where
  "domain_verify ce dr did tid db =
     (case find_row (\<lambda>d. dn_id d = did \<and> dn_tenant_id d = tid) (ik_domains db) of
        None \<Rightarrow> (Inl (HTTPException 404 ''not_found''), db)
      | Some d \<Rightarrow>
          (let iv = ce_intake ce;
               verified = (case ce_txt ce (''_klyrow-verification.'' @ dn_domain d) of
                  None \<Rightarrow> False | Some vs \<Rightarrow> ''klyrow='' @ dn_token d \<in> set (map strip_quotes vs));
               db1 = db\<lparr>ik_domains := update_rows (\<lambda>r. dn_id r = did) (\<lambda>r. r\<lparr>dn_verified := verified\<rparr>) (ik_domains db)\<rparr>
           in case enqueue_named_event (st_codec (iv_stamps iv)) (st_draws (iv_stamps iv)) ''klyrow.domain.status'' tid
                     (domain_status_data dr d verified) None (Some did) (Some (dn_id d)) None None
                     (ml_business (ik_mail db1)) of
                Inl x \<Rightarrow> (Inl x, db1)
              | Inr (_, rows) \<Rightarrow> (Inr verified, db1\<lparr>ik_mail := (ik_mail db1)\<lparr>ml_business := rows\<rparr>\<rparr>)))"

definition verify_command ::
  "command_env \<Rightarrow> intake_draws \<Rightarrow> command_row \<Rightarrow> (string \<times> json) list \<Rightarrow> intake_db \<Rightarrow> effect" where
  "verify_command ce dr item payload db =
     (let did = payload_text (iv_repr (ce_intake ce)) payload [''domain_id''] []
      in case domain_verify ce dr did (mc_tenant_id item) db of
           (Inl x, db1) \<Rightarrow> (Inl (failure_of x), db1)
         | (Inr verified, db1) \<Rightarrow>
             (Inr (concluded ''completed'' (JObj [(''domain_id'', JStr did), (''verified'', JBool verified)])), db1))"

definition suppression_command ::
  "command_env \<Rightarrow> intake_draws \<Rightarrow> command_row \<Rightarrow> (string \<times> json) list \<Rightarrow> intake_db \<Rightarrow> effect" where
  "suppression_command ce dr item payload db =
     (let repr_of = iv_repr (ce_intake ce); tid = mc_tenant_id item;
          email = lower (payload_text repr_of payload [''email'', ''recipient''] []);
          reason = take 100 (payload_text repr_of payload [''reason''] ''policy'');
          rows = gd_suppressions (ik_mail db);
          rows' = (case find_row (\<lambda>r. sp_tenant_id r = tid \<and> sp_email r = email) rows of
             None \<Rightarrow> rows @ [\<lparr>sp_id = id_usage dr, sp_tenant_id = tid, sp_email = email, sp_reason = reason\<rparr>]
           | Some row \<Rightarrow> update_rows (\<lambda>r. sp_id r = sp_id row) (\<lambda>r. r\<lparr>sp_reason := reason\<rparr>) rows)
      in if email = [] \<or> CHR ''@'' \<notin> set email then (Inl (Rejected 422 ''email_required''), db)
         else (Inr (concluded ''completed'' (JObj [(''email'', JStr email), (''reason'', JStr reason)])),
               db\<lparr>ik_mail := (ik_mail db)\<lparr>gd_suppressions := rows'\<rparr>\<rparr>))"

definition perform_command ::
  "command_env \<Rightarrow> intake_draws \<Rightarrow> command_row \<Rightarrow> (string \<times> json) list \<Rightarrow> intake_db \<Rightarrow> effect" where
  "perform_command ce dr item payload db =
     (if mc_command item = ''email.message.send.v1'' then send_command ce dr item payload db
      else if mc_command item = ''email.message.cancel.v1'' then cancel_command ce dr item payload db
      else if mc_command item = ''email.domain.verify.v1'' then verify_command ce dr item payload db
      else if mc_command item = ''email.suppression.upsert.v1'' then suppression_command ce dr item payload db
      else if mc_command item = ''email.reputation.snapshot.request.v1''
      then (Inr (concluded ''completed'' (JObj [(''status'', JStr ''accepted''),
              (''safe_mode'', JBool (iv_safe (ce_intake ce)))])), db)
      else (Inl (Rejected 422 ''unsupported_command''), db))"

definition recorded_payload :: "command_row \<Rightarrow> (string \<times> json) list option" where
  "recorded_payload item =
     (case loads_or_empty (mc_request item) of
        Inr (JObj recorded) \<Rightarrow> Option.bind (map_of recorded ''payload'') json_obj
      | _ \<Rightarrow> None)"

definition mark_failed_command :: "int \<Rightarrow> string \<Rightarrow> command_row \<Rightarrow> command_row" where
  "mark_failed_command t error r = r\<lparr>mc_state := ''failed'', mc_error := Some error, mc_updated_at := t\<rparr>"

definition mark_done_command :: "int \<Rightarrow> (command_row \<Rightarrow> command_row) \<Rightarrow> command_row \<Rightarrow> command_row" where
  "mark_done_command t f r = (f r)\<lparr>mc_error := None, mc_updated_at := t\<rparr>"

definition release_command :: "int \<Rightarrow> string \<Rightarrow> command_row \<Rightarrow> command_row" where
  "release_command t error r = r\<lparr>mc_state := ''accepted'', mc_error := Some error, mc_updated_at := t\<rparr>"

definition start_command :: "int \<Rightarrow> command_row \<Rightarrow> command_row" where
  "start_command t r = r\<lparr>mc_state := ''processing'', mc_updated_at := t\<rparr>"

definition row_response :: "string \<Rightarrow> command_db \<Rightarrow> json res" where
  "row_response k db = (case get_command db k of
     None \<Rightarrow> Inr (JObj [(''command_id'', JStr k), (''state'', JStr ''accepted'')])
   | Some item \<Rightarrow> command_response item)"

text \<open>The end of an execution, once the row is \<open>processing\<close>: \<open>started\<close> is the committed state before the body.\<close>

definition settle_command ::
  "int \<Rightarrow> bool \<Rightarrow> string \<Rightarrow> effect \<Rightarrow> command_db \<Rightarrow> json res \<times> command_db" where
  "settle_command t raise_errors k result started =
     (let answer = (\<lambda>x db. (if raise_errors then Inl x else row_response k db, db))
      in case result of
           (Inr f, ik) \<Rightarrow>
             (let db = put_command k (mark_done_command t f) (started\<lparr>cb_intake := ik\<rparr>) in (row_response k db, db))
         | (Inl (Rejected status detail), ik) \<Rightarrow>
             answer (HTTPException status detail) (put_command k (mark_failed_command t detail) (started\<lparr>cb_intake := ik\<rparr>))
         | (Inl Invalid, ik) \<Rightarrow>
             answer (HTTPException 422 ''invalid_command_payload'')
               (put_command k (mark_failed_command t ''invalid_command_payload'') (started\<lparr>cb_intake := ik\<rparr>))
         | (Inl (Interrupted x), _) \<Rightarrow>
             answer x (put_command k (release_command t ''command_execution_interrupted'') started))"

definition execute_middleware_command ::
  "command_env \<Rightarrow> intake_draws \<Rightarrow> bool \<Rightarrow> string \<Rightarrow> command_db \<Rightarrow> json res \<times> command_db" where
  "execute_middleware_command ce dr raise_errors k db =
     (let t = id_now dr
      in case get_command db k of
           None \<Rightarrow> (Inl (RuntimeError ''middleware_command_missing''), db)
         | Some item \<Rightarrow>
             if mc_state item \<noteq> ''accepted''
             then (case reconcile_email_command_operation (iv_repr (ce_intake ce)) t item db of
                     Inl x \<Rightarrow> (Inl x, db)
                   | Inr (item', db') \<Rightarrow> (command_response item', db'))
             else
               (let started = put_command k (start_command t) db
                in case recorded_payload item of
                     None \<Rightarrow> settle_command t raise_errors k (Inl Invalid, cb_intake db) started
                   | Some payload \<Rightarrow>
                       settle_command t raise_errors k (perform_command ce dr item payload (cb_intake db)) started))"

section \<open>Recovery and intake\<close>

definition stale_command :: "int \<Rightarrow> (string \<Rightarrow> bool) \<Rightarrow> command_row \<Rightarrow> bool" where
  "stale_command t locked r \<longleftrightarrow>
     mc_state r = ''processing'' \<and> mc_updated_at r < t - 5 * 60 * 1000000 \<and> \<not> locked (mc_command_id r)"

definition reclaim_commands :: "int \<Rightarrow> (string \<Rightarrow> bool) \<Rightarrow> nat \<Rightarrow> command_db \<Rightarrow> command_db" where
  "reclaim_commands t locked limit db =
     fold (\<lambda>r db. put_command (mc_command_id r) (release_command t ''command_execution_lease_expired'') db)
       (take limit (filter (stale_command t locked) (cb_commands db))) db"

definition pending_commands :: "nat \<Rightarrow> command_db \<Rightarrow> string list" where
  "pending_commands limit db =
     map mc_command_id (select_rows mc_created_at (\<lambda>r. mc_state r = ''accepted'') limit (cb_commands db))"

text \<open>The executions draw their own clock and identifiers; an exception leaves the pass.\<close>

fun execute_commands ::
  "command_env \<Rightarrow> (string \<Rightarrow> intake_draws) \<Rightarrow> string list \<Rightarrow> command_db \<Rightarrow> unit res \<times> command_db" where
  "execute_commands ce draw [] db = (Inr (), db)"
| "execute_commands ce draw (k # ks) db =
     (case execute_middleware_command ce (draw k) False k db of
        (Inl x, db1) \<Rightarrow> (Inl x, db1) | (Inr _, db1) \<Rightarrow> execute_commands ce draw ks db1)"

definition recover_middleware_commands ::
  "command_env \<Rightarrow> (string \<Rightarrow> intake_draws) \<Rightarrow> int \<Rightarrow> (string \<Rightarrow> bool) \<Rightarrow> nat \<Rightarrow> command_db \<Rightarrow> nat res \<times> command_db" where
  "recover_middleware_commands ce draw t locked limit db =
     (let db1 = reclaim_commands t locked limit db; ks = pending_commands limit db1
      in case execute_commands ce draw ks db1 of
           (Inl x, db2) \<Rightarrow> (Inl x, db2) | (Inr _, db2) \<Rightarrow> (Inr (length ks), db2))"

definition ensure_command_tenant :: "request_ctx \<Rightarrow> string \<Rightarrow> unit res" where
  "ensure_command_tenant ctx tid =
     (if tid = [] \<or> tid \<noteq> cx_tenant ctx then Inl (HTTPException 403 ''tenant_mismatch'') else Inr ())"

definition new_command :: "codec \<Rightarrow> int \<Rightarrow> string \<Rightarrow> string \<Rightarrow> string \<Rightarrow> string \<Rightarrow> command_in \<Rightarrow> command_row" where
  "new_command c t k tid key correlation x =
     \<lparr>mc_command_id = k, mc_tenant_id = tid, mc_command = ci_command x, mc_idempotency_key = key,
      mc_correlation_id = correlation, mc_state = ''accepted'', mc_request_hash = command_request_hash c x,
      mc_request = JText (sort_doc (JObj [(''payload'', JObj (command_payload x)), (''target'', text_json (ci_target x))])),
      mc_result = JText (JObj []), mc_error = None, mc_created_at = t, mc_updated_at = t\<rparr>"

definition find_operation :: "command_db \<Rightarrow> string \<Rightarrow> string \<Rightarrow> command_row option" where
  "find_operation db tid key = find_row (\<lambda>r. mc_tenant_id r = tid \<and> mc_idempotency_key r = key) (cb_commands db)"

text \<open>\<open>permitted\<close> is \<open>has_service_permission(ctx, "klyrow.middleware.command.write")\<close>; the headers are the caller's.\<close>

definition middleware_command ::
  "command_env \<Rightarrow> intake_draws \<Rightarrow> string \<Rightarrow> bool \<Rightarrow> request_ctx \<Rightarrow> string \<Rightarrow> string \<Rightarrow> string \<Rightarrow> command_in
     \<Rightarrow> command_db \<Rightarrow> json res \<times> command_db" where
  "middleware_command ce dr k permitted ctx key tid correlation x db =
     (let c = st_codec (iv_stamps (ce_intake ce)); hash = command_request_hash c x
      in case ensure_command_tenant ctx tid of
           Inl err \<Rightarrow> (Inl err, db)
         | Inr _ \<Rightarrow>
             if \<not> permitted then (Inl (HTTPException 403 ''middleware_command_scope_required''), db)
             else if \<not> absent (ci_tenant_id x) \<and> ci_tenant_id x \<noteq> Some tid
             then (Inl (HTTPException 403 ''tenant_mismatch''), db)
             else if \<not> absent (ci_correlation_id x) \<and> ci_correlation_id x \<noteq> Some correlation
             then (Inl (HTTPException 409 ''correlation_id_mismatch''), db)
             else if ci_command x \<notin> set MIDDLEWARE_ALLOWED_COMMANDS
             then (Inl (HTTPException 422 ''unsupported_command''), db)
             else (case find_operation db (cx_tenant ctx) key of
                     Some prior \<Rightarrow>
                       (if mc_request_hash prior \<noteq> hash
                        then Inl (HTTPException 409 ''idempotency_key_payload_mismatch'') else command_response prior, db)
                   | None \<Rightarrow>
                       (let item = new_command c (id_now dr) k (cx_tenant ctx) key correlation x
                        in if get_command db k \<noteq> None then (Inl (IntegrityError ''middleware_command_operations''), db)
                           else execute_middleware_command ce dr True k
                             (db\<lparr>cb_commands := cb_commands db @ [item]\<rparr>))))"
section \<open>Lemmas\<close>

lemma put_command_frame [simp]:
  "cb_intake (put_command k f db) = cb_intake db"
  "put_command k f (db\<lparr>cb_intake := ik\<rparr>) = (put_command k f db)\<lparr>cb_intake := ik\<rparr>"
  "get_command (db\<lparr>cb_intake := ik\<rparr>) k' = get_command db k'"
  by (simp_all add: put_command_def get_command_def)

lemma same_intake: "cb_intake db = ik \<Longrightarrow> db\<lparr>cb_intake := ik\<rparr> = db"
  by (cases db) simp

lemma command_rewrites_id [simp]:
  "mc_command_id (start_command t r) = mc_command_id r"
  "mc_command_id (release_command t error r) = mc_command_id r"
  "mc_command_id (mark_failed_command t error r) = mc_command_id r"
  "mc_command_id (mark_done_command t (concluded state result) r) = mc_command_id r"
  by (simp_all add: start_command_def release_command_def mark_failed_command_def mark_done_command_def concluded_def)

lemma get_command_id: "get_command db k = Some r \<Longrightarrow> mc_command_id r = k"
  unfolding get_command_def by (drule find_row_Some) simp

lemma get_put_command:
  assumes "\<And>r. mc_command_id (f r) = mc_command_id r"
  shows "get_command (put_command k f db) k' = map_option (\<lambda>r. if k' = k then f r else r) (get_command db k')"
proof -
  have "get_command (put_command k f db) k' =
      map_option (\<lambda>r. if mc_command_id r = k then f r else r) (get_command db k')"
    unfolding get_command_def put_command_def using find_update_rows [of _ mc_command_id f] assms by simp
  then show ?thesis using get_command_id [of db k'] by (cases "get_command db k'") auto
qed

lemma reclaim_commands_get:
  "get_command (reclaim_commands t locked limit db) k =
     map_option (\<lambda>r. if k \<in> mc_command_id ` set (take limit (filter (stale_command t locked) (cb_commands db)))
       then release_command t ''command_execution_lease_expired'' r else r) (get_command db k)"
  and reclaim_commands_intake [simp]: "cb_intake (reclaim_commands t locked limit db) = cb_intake db"
proof -
  define step :: "command_row \<Rightarrow> command_db \<Rightarrow> command_db"
    where "step = (\<lambda>r. put_command (mc_command_id r) (release_command t ''command_execution_lease_expired''))"
  have steps: "get_command (fold step rs db) k = map_option (\<lambda>r. if k \<in> mc_command_id ` set rs
      then release_command t ''command_execution_lease_expired'' r else r) (get_command db k) \<and>
      cb_intake (fold step rs db) = cb_intake db" for rs db
  proof (induction rs arbitrary: db)
    case (Cons r rs)
    show ?case
      using Cons.IH [of "step r db"]
      by (cases "get_command db k") (auto simp: step_def get_put_command release_command_def)
  qed (simp add: option.map_ident)
  show "get_command (reclaim_commands t locked limit db) k =
     map_option (\<lambda>r. if k \<in> mc_command_id ` set (take limit (filter (stale_command t locked) (cb_commands db)))
       then release_command t ''command_execution_lease_expired'' r else r) (get_command db k)"
    and "cb_intake (reclaim_commands t locked limit db) = cb_intake db"
    using steps [of "take limit (filter (stale_command t locked) (cb_commands db))" db]
    unfolding reclaim_commands_def step_def by blast+
qed

text \<open>An execution of an accepted send.\<close>

lemma execute_send:
  assumes "get_command db k = Some item" and "mc_state item = ''accepted''"
    and "mc_command item = ''email.message.send.v1''" and "recorded_payload item = Some payload"
    and "command_mail ce item payload = Some mail"
  shows "execute_middleware_command ce dr raise_errors k db =
    settle_command (id_now dr) raise_errors k
      (case send_with_scoped_legacy_compatibility (ce_intake ce) dr (middleware_ctx (mc_tenant_id item))
          (mc_idempotency_key item) mail (cb_intake db) of
         (Inl x, db1) \<Rightarrow> (Inl (failure_of x), db1)
       | (Inr result, db1) \<Rightarrow> (Inr (concluded ''queued'' (sort_doc result)), db1))
      (put_command k (start_command (id_now dr)) db)"
  using assms by (simp add: execute_middleware_command_def perform_command_def send_command_def Let_def)

text \<open>A send without a stored row that an \<open>HTTPException\<close> ends: the session keeps what it had changed.\<close>

lemma execute_rejected_send:
  assumes "get_command db k = Some item" and "mc_state item = ''accepted''"
    and "mc_command item = ''email.message.send.v1''" and "recorded_payload item = Some payload"
    and "command_mail ce item payload = Some mail"
    and "send_with_scoped_legacy_compatibility (ce_intake ce) dr (middleware_ctx (mc_tenant_id item))
      (mc_idempotency_key item) mail (cb_intake db) = (Inl (HTTPException status detail), ik)"
  obtains item' db' where "execute_middleware_command ce dr False k db = (row_response k db', db')"
    and "get_command db' k = Some item'" and "mc_state item' = ''failed''" and "mc_error item' = Some detail"
    and "cb_intake db' = ik"
proof -
  let ?db' = "put_command k (mark_failed_command (id_now dr) detail)
    ((put_command k (start_command (id_now dr)) db)\<lparr>cb_intake := ik\<rparr>)"
  have "execute_middleware_command ce dr False k db = (row_response k ?db', ?db')"
    unfolding execute_send [OF assms(1-5)] assms(6) by (simp add: failure_of_def settle_command_def Let_def)
  moreover have "get_command ?db' k = Some (mark_failed_command (id_now dr) detail (start_command (id_now dr) item))"
    using assms(1) by (simp add: get_put_command)
  ultimately show thesis by (rule that) (simp_all add: mark_failed_command_def)
qed

lemma send_fresh:
  assumes "key \<noteq> []" and "find_replay db (cx_tenant ctx) key = None"
    and "find_replay db (cx_tenant ctx) (scoped_idempotency_key (st_codec (iv_stamps iv)) ctx key ''message.send'' ''messages'') = None"
  shows "send_with_scoped_legacy_compatibility iv dr ctx key x db =
    send_new iv dr ctx (scoped_idempotency_key (st_codec (iv_stamps iv)) ctx key ''message.send'' ''messages'')
      (semantic_request_hash (st_codec (iv_stamps iv)) ''message.send'' ''messages'' (model_dump x)) x db"
  using assms by (simp add: send_with_scoped_legacy_compatibility_def Let_def legacy_message_send_response_def)

definition admitted ::
  "intake_env \<Rightarrow> intake_draws \<Rightarrow> request_ctx \<Rightarrow> core_mail \<Rightarrow> intake_db \<Rightarrow> authorization \<Rightarrow> gate_row list \<Rightarrow> bool" where
  "admitted iv dr ctx x db auth gates \<longleftrightarrow>
     enforce_tenant_send_gate db (cx_tenant ctx) = Inr () \<and>
     authorize_agent_sender (iv_env iv) db ctx (xm_sender x) (xm_campaign_id x) (xm_reply_to x) = Inr () \<and>
     authorize_send (guard_tables db) (iv_repr iv) (iv_env iv) (id_now dr) (cx_tenant ctx) (xm_sender x)
       (xm_to x) (xm_stream x) (iv_safe iv) (xm_campaign_id x) (xm_topic x) = Inr auth \<and>
     canary_checks iv dr (cx_tenant ctx) x (ml_gates (ik_mail db)) = (Inr (), gates)"

lemma send_admitted:
  assumes "admitted iv dr ctx x db auth gates"
  shows "send_new iv dr ctx key hash x db =
    (case final_checks iv dr ctx x (with_gates db gates) of
       Inl err \<Rightarrow> (Inl err, with_gates db gates)
     | Inr billing \<Rightarrow> accept_message iv dr auth billing (cx_tenant ctx) key hash x (with_gates db gates))"
  using assms by (simp add: admitted_def send_new_def Let_def)

section \<open>Properties\<close>

text \<open>
  C35. A process dies after the send of a command has been committed and before its outcome is. Once
  the lease has run out, the recovery and the next execution conclude the command with the response
  of the first, and add no message, no outbox row and no reservation, whatever other transactions
  ran in between and after a rotation of the sealing key.
\<close>

theorem recovered_command_sends_once:
  assumes "get_command db k = Some item" and "mc_state item = ''accepted''"
    and "mc_command item = ''email.message.send.v1''" and "recorded_payload item = Some payload"
    and "command_mail ce item payload = Some mail"
    and "send_with_scoped_legacy_compatibility (ce_intake ce) dr (middleware_ctx (mc_tenant_id item))
      (mc_idempotency_key item) mail (cb_intake db) = (Inr resp, ik)" and "ik \<noteq> cb_intake db"
    and "start_command (id_now dr) item \<in> set (take limit (filter (stale_command t locked) (cb_commands db2)))"
    and "get_command db2 k = Some (start_command (id_now dr) item)"
    and "\<forall>tid skey. find_replay ik tid skey \<noteq> None \<longrightarrow> find_replay (cb_intake db2) tid skey = find_replay ik tid skey"
    and "ce_email ce2 = ce_email ce" and "iv_stamps (ce_intake ce2) = iv_stamps (ce_intake ce)"
    and "iv_suite (ce_intake ce2) = iv_suite (ce_intake ce)"
    and "iv_ring (ce_intake ce) = Inr keys" and "iv_ring (ce_intake ce2) = Inr keys2"
    and "map_of (kr_keys keys2) (kr_active_key_id keys) = map_of (kr_keys keys) (kr_active_key_id keys)"
    and "cipher_laws (iv_suite (ce_intake ce))" and "length (id_nonce dr) = 12"
    and "\<forall>r \<in> set (ik_idempotency ik). int (length (rp_response_json r)) \<le> MAX_ENVELOPE_BYTES"
    and "decodes (iv_suite (ce_intake ce)) (sort_doc resp)"
    and "\<forall>c k n. decodes (iv_suite (ce_intake ce)) (envelope_doc c k n)"
  shows "\<exists>item' db'. execute_middleware_command ce2 dr2 raise_errors k (reclaim_commands t locked limit db2) =
      (command_response item', db') \<and> get_command db' k = Some item' \<and> cb_intake db' = cb_intake db2 \<and>
    mc_state item' = ''queued'' \<and> mc_result item' = JText (sort_doc resp) \<and> mc_error item' = None"
proof -
  let ?ctx = "middleware_ctx (mc_tenant_id item)"
  let ?skey = "scoped_idempotency_key (st_codec (iv_stamps (ce_intake ce))) ?ctx (mc_idempotency_key item) ''message.send'' ''messages''"
  let ?item2 = "release_command t ''command_execution_lease_expired'' (start_command (id_now dr) item)"
  let ?db3 = "reclaim_commands t locked limit db2"
  have row: "get_command ?db3 k = Some ?item2"
    using assms(8,9) get_command_id [OF assms(9)] by (auto simp: reclaim_commands_get image_iff)
  have item2: "mc_state ?item2 = ''accepted''" "mc_command ?item2 = ''email.message.send.v1''"
    "recorded_payload ?item2 = Some payload" "command_mail ce2 ?item2 payload = Some mail"
    "mc_tenant_id ?item2 = mc_tenant_id item" "mc_idempotency_key ?item2 = mc_idempotency_key item"
    using assms(3-5,11) by (simp_all add: release_command_def start_command_def recorded_payload_def command_mail_def)
  have kept: "find_replay ik (cx_tenant ?ctx) ?skey \<noteq> None"
  proof -
    have new: "find_replay (cb_intake db) (cx_tenant ?ctx) ?skey = None \<and>
        send_new (ce_intake ce) dr ?ctx ?skey (semantic_request_hash (st_codec (iv_stamps (ce_intake ce)))
          ''message.send'' ''messages'' (model_dump mail)) mail (cb_intake db) = (Inr resp, ik)"
      using send_accepted [OF assms(6)] assms(7) by blast
    obtain auth gates billing where "accept_message (ce_intake ce) dr auth billing (cx_tenant ?ctx) ?skey
        (semantic_request_hash (st_codec (iv_stamps (ce_intake ce))) ''message.send'' ''messages'' (model_dump mail)) mail
        (with_gates (cb_intake db) gates) = (Inr resp, ik)"
      by (rule send_new_accepted [OF new [THEN conjunct2]])
    then show ?thesis
      by (rule accept_message_accepted)
        (use new in \<open>simp add: find_replay_new [OF new [THEN conjunct1]]\<close>)
  qed
  have same: "find_replay (cb_intake db2) (cx_tenant ?ctx) ?skey = find_replay ik (cx_tenant ?ctx) ?skey"
    using assms(10) kept by blast
  have replay: "send_with_scoped_legacy_compatibility (ce_intake ce2) dr2 ?ctx (mc_idempotency_key item) mail (cb_intake db2) =
      (Inr (sort_doc resp), cb_intake db2)"
    using accepted_send_replays [OF assms(6,7) same assms(12-21), of dr2] by blast
  let ?done = "mark_done_command (id_now dr2) (concluded ''queued'' (sort_doc resp)) (start_command (id_now dr2) ?item2)"
  let ?db4 = "put_command k (mark_done_command (id_now dr2) (concluded ''queued'' (sort_doc resp)))
    (put_command k (start_command (id_now dr2)) ?db3)"
  have "get_command ?db4 k = Some ?done" using row by (simp add: get_put_command)
  moreover have "execute_middleware_command ce2 dr2 raise_errors k ?db3 = (row_response k ?db4, ?db4)"
  proof -
    have upd: "(put_command k f (put_command k g ?db3))\<lparr>cb_intake := cb_intake db2\<rparr> = put_command k f (put_command k g ?db3)" for f g
      by (rule same_intake) simp
    show ?thesis
      unfolding execute_send [OF row item2(1-4)] item2(5,6) reclaim_commands_intake replay
      by (simp add: settle_command_def Let_def upd)
  qed
  moreover have "row_response k ?db4 = command_response ?done"
    using calculation(1) by (simp add: row_response_def)
  ultimately show ?thesis
    by (intro exI [of _ ?done] exI [of _ ?db4]) (simp add: mark_done_command_def concluded_def)
qed
lemma no_more_reservations:
  assumes "canary_configuration_valid e" and "reserved_in e gates = 1" and "xm_stream x \<noteq> ''marketing''"
  shows "fst (enforce_production_canary e False t x gates) \<noteq> Inr ()"
proof
  assume "fst (enforce_production_canary e False t x gates) = Inr ()"
  then obtain gates' where "enforce_production_canary e False t x gates = (Inr (), gates')"
    by (cases "enforce_production_canary e False t x gates") auto
  from production_canary_reserves [OF this assms(3)] show False using assms(2) by simp
qed

text \<open>
  C36. A live command that passes the canary policy and fails a later check burns the single delivery:
  the failure is committed together with the reservation, so no message and no outbox row exists, the
  reservation is spent, and no later message outside the marketing stream passes the policy. The same
  request over HTTP is rolled back and leaves the reservation.
\<close>

theorem rejected_command_burns_reservation:
  assumes "get_command db k = Some item" and "mc_state item = ''accepted''"
    and "mc_command item = ''email.message.send.v1''" and "recorded_payload item = Some payload"
    and "command_mail ce item payload = Some mail" and "mc_idempotency_key item \<noteq> []"
    and "find_replay (cb_intake db) (mc_tenant_id item) (mc_idempotency_key item) = None"
    and "find_replay (cb_intake db) (mc_tenant_id item) (scoped_idempotency_key (st_codec (iv_stamps (ce_intake ce)))
      (middleware_ctx (mc_tenant_id item)) (mc_idempotency_key item) ''message.send'' ''messages'') = None"
    and "admitted (ce_intake ce) dr (middleware_ctx (mc_tenant_id item)) mail (cb_intake db) auth gates"
    and "final_checks (ce_intake ce) dr (middleware_ctx (mc_tenant_id item)) mail (with_gates (cb_intake db) gates) =
      Inl (HTTPException status detail)"
    and "\<not> iv_safe (ce_intake ce)" and "xm_stream mail \<noteq> ''marketing''"
  shows "\<exists>item' db'. execute_middleware_command ce dr False k db = (row_response k db', db') \<and>
      get_command db' k = Some item' \<and> mc_state item' = ''failed'' \<and> mc_error item' = Some detail \<and>
      gd_messages (ik_mail (cb_intake db')) = gd_messages (ik_mail (cb_intake db)) \<and>
      ml_outbox (ik_mail (cb_intake db')) = ml_outbox (ik_mail (cb_intake db)) \<and>
      reserved_in (iv_env (ce_intake ce)) (ml_gates (ik_mail (cb_intake db'))) =
        reserved_in (iv_env (ce_intake ce)) (ml_gates (ik_mail (cb_intake db))) + 1 \<and>
      (0 \<le> reserved_in (iv_env (ce_intake ce)) (ml_gates (ik_mail (cb_intake db))) \<longrightarrow>
       (\<forall>x t. xm_stream x \<noteq> ''marketing'' \<longrightarrow>
         fst (enforce_production_canary (iv_env (ce_intake ce)) False t x (ml_gates (ik_mail (cb_intake db')))) \<noteq> Inr ())) \<and>
      send_request (ce_intake ce) dr (middleware_ctx (mc_tenant_id item)) (mc_idempotency_key item) mail (cb_intake db) =
        (Inl (HTTPException status detail), cb_intake db)"
proof -
  let ?iv = "ce_intake ce" and ?ctx = "middleware_ctx (mc_tenant_id item)"
  have tid: "cx_tenant ?ctx = mc_tenant_id item" by (simp add: middleware_ctx_def)
  have send: "send_with_scoped_legacy_compatibility ?iv dr ?ctx (mc_idempotency_key item) mail (cb_intake db) =
      (Inl (HTTPException status detail), with_gates (cb_intake db) gates)"
    using send_fresh [OF assms(6), of "cb_intake db" ?ctx ?iv dr mail] assms(7,8,10) send_admitted [OF assms(9)] tid by simp
  obtain item' db' where ex: "execute_middleware_command ce dr False k db = (row_response k db', db')"
    "get_command db' k = Some item'" "mc_state item' = ''failed''" "mc_error item' = Some detail"
    "cb_intake db' = with_gates (cb_intake db) gates"
    by (rule execute_rejected_send [OF assms(1-5) send])
  have "enforce_production_canary (iv_env ?iv) False (id_now dr) mail (ml_gates (ik_mail (cb_intake db))) = (Inr (), gates)"
    using assms(9,11,12) by (auto simp: admitted_def canary_checks_def split: prod.splits sum.splits)
  note policy = this production_canary_reserves [OF this assms(12)]
  have "canary_configuration_valid (iv_env ?iv)"
    by (rule production_canary_admitted [OF policy(1) assms(12)])
  moreover have "send_request ?iv dr ?ctx (mc_idempotency_key item) mail (cb_intake db) =
      (Inl (HTTPException status detail), cb_intake db)"
    using send by (simp add: send_request_def)
  moreover have "reserved_in (iv_env ?iv) gates = 1"
    if "0 \<le> reserved_in (iv_env ?iv) (ml_gates (ik_mail (cb_intake db)))" using policy(2,3) that by simp
  ultimately show ?thesis
    using ex policy(2) no_more_reservations by (intro exI [of _ item'] exI [of _ db']) simp
qed

text \<open>
  Without a usable sealing key an accepted command leaves an orphan: the failed seal raises after
  the message was added to the session, and the failure commits it. The message stays \<open>queued\<close> and
  counts against the quota, there is no outbox row that would deliver it and no replay row, and
  the command is failed with the seal's error.
\<close>

theorem unsealed_command_orphans_message:
  assumes "get_command db k = Some item" and "mc_state item = ''accepted''"
    and "mc_command item = ''email.message.send.v1''" and "recorded_payload item = Some payload"
    and "command_mail ce item payload = Some mail" and "mc_idempotency_key item \<noteq> []"
    and "find_replay (cb_intake db) (mc_tenant_id item) (mc_idempotency_key item) = None"
    and "find_replay (cb_intake db) (mc_tenant_id item) (scoped_idempotency_key (st_codec (iv_stamps (ce_intake ce)))
      (middleware_ctx (mc_tenant_id item)) (mc_idempotency_key item) ''message.send'' ''messages'') = None"
    and "admitted (ce_intake ce) dr (middleware_ctx (mc_tenant_id item)) mail (cb_intake db) auth gates"
    and "final_checks (ce_intake ce) dr (middleware_ctx (mc_tenant_id item)) mail (with_gates (cb_intake db) gates) = Inr billing"
    and "\<not> duplicate_row (ce_intake ce) dr (mc_tenant_id item) (scoped_idempotency_key (st_codec (iv_stamps (ce_intake ce)))
      (middleware_ctx (mc_tenant_id item)) (mc_idempotency_key item) ''message.send'' ''messages'') (with_gates (cb_intake db) gates)"
    and "iv_ring (ce_intake ce) = Inl x"
  shows "\<exists>item' db'. execute_middleware_command ce dr False k db = (row_response k db', db') \<and>
      get_command db' k = Some item' \<and> mc_state item' = ''failed'' \<and> mc_error item' = Some ''durable_result_unavailable'' \<and>
      gd_messages (ik_mail (cb_intake db')) =
        gd_messages (ik_mail (cb_intake db)) @ [new_message (ce_intake ce) dr auth (mc_tenant_id item) mail] \<and>
      ml_outbox (ik_mail (cb_intake db')) = ml_outbox (ik_mail (cb_intake db)) \<and>
      ik_idempotency (cb_intake db') = ik_idempotency (cb_intake db)"
proof -
  let ?iv = "ce_intake ce" and ?ctx = "middleware_ctx (mc_tenant_id item)" and ?tid = "mc_tenant_id item"
  let ?key = "scoped_idempotency_key (st_codec (iv_stamps ?iv)) ?ctx (mc_idempotency_key item) ''message.send'' ''messages''"
  let ?hash = "semantic_request_hash (st_codec (iv_stamps ?iv)) ''message.send'' ''messages'' (model_dump mail)"
  let ?db1 = "with_gates (cb_intake db) gates"
  let ?m1 = "with_message ?iv dr auth ?tid mail (ik_mail ?db1)"
  have tid: "cx_tenant ?ctx = ?tid" by (simp add: middleware_ctx_def)
  obtain rows where rows: "queue_lifecycle ?iv dr (intake_lifecycle ?iv dr ?tid mail ''email.accepted'') ?m1 =
      Inr (?m1\<lparr>ml_lifecycle := ml_lifecycle ?m1 @ rows\<rparr>)"
    by (rule queue_lifecycle_intake) (rule insertI1)
  have "seal_control_response (iv_suite ?iv) (iv_ring ?iv) (id_nonce dr) resp ?tid ?key ?hash (id_message dr) =
      Inl (HTTPException 503 ''durable_result_unavailable'')" for resp
    using assms(12) by (simp add: seal_control_response_def binding_def seal_def unavailable_def res_bind_def)
  then have "accept_message ?iv dr auth billing ?tid ?key ?hash mail ?db1 =
      (Inl (HTTPException 503 ''durable_result_unavailable''),
       ?db1\<lparr>ik_mail := ?m1\<lparr>ml_lifecycle := ml_lifecycle ?m1 @ rows\<rparr>\<rparr>)"
    using assms(11) rows by (simp add: accept_message_def Let_def)
  then have "send_with_scoped_legacy_compatibility ?iv dr ?ctx (mc_idempotency_key item) mail (cb_intake db) =
      (Inl (HTTPException 503 ''durable_result_unavailable''),
       ?db1\<lparr>ik_mail := ?m1\<lparr>ml_lifecycle := ml_lifecycle ?m1 @ rows\<rparr>\<rparr>)"
    using send_fresh [OF assms(6), of "cb_intake db" ?ctx ?iv dr mail] assms(7,8,10) send_admitted [OF assms(9)] tid by simp
  then obtain item' db' where "execute_middleware_command ce dr False k db = (row_response k db', db')"
    "get_command db' k = Some item'" "mc_state item' = ''failed''" "mc_error item' = Some ''durable_result_unavailable''"
    "cb_intake db' = ?db1\<lparr>ik_mail := ?m1\<lparr>ml_lifecycle := ml_lifecycle ?m1 @ rows\<rparr>\<rparr>"
    by (rule execute_rejected_send [OF assms(1-5)])
  then show ?thesis
    by (intro exI [of _ item'] exI [of _ db']) (simp add: with_message_def)
qed

lemma cancel_command_cases:
  assumes "cancel_command ce dr item payload db = (result, db')"
  obtains (refused) failure where "result = Inl failure" "db' = db"
  | (already) message where "db' = db" "cm_status message = ''cancelled''"
      "find_message db (mc_tenant_id item) (cm_id message) = Some message"
      "\<And>i. find_outbox db (mc_tenant_id item) (cm_id message) = Some i \<Longrightarrow> eo_state i = ''cancelled''"
      "result = Inr (concluded ''cancelled'' (cancelled_result (cm_id message) (find_outbox db (mc_tenant_id item) (cm_id message))))"
  | (cancelled) message outbox where "find_message db (mc_tenant_id item) (cm_id message) = Some message"
      "outbox = find_outbox db (mc_tenant_id item) (cm_id message)"
      "\<And>i. outbox = Some i \<Longrightarrow> eo_state i \<in> {''pending'', ''retry''}"
      "cancel_rows (ce_intake ce) dr item message outbox db = Inr db'"
      "result = Inr (concluded ''cancelled'' (cancelled_result (cm_id message) (map_option (cancel_row (id_now dr)) outbox)))"
proof -
  let ?mid = "payload_text (iv_repr (ce_intake ce)) payload [''message_id''] []"
  show thesis
  proof (cases "find_message db (mc_tenant_id item) ?mid")
    case None
    then show thesis using assms by (intro refused [of "Rejected 404 ''not_found''"]) (auto simp: cancel_command_def Let_def)
  next
    case (Some message)
    have id: "cm_id message = ?mid"
      using Some unfolding find_message_def by (drule_tac find_row_Some) simp
    have c: "cancel_command ce dr item payload db = (result, db')" by (rule assms)
    show thesis
    proof (cases "cm_status message = ''cancelled'' \<and> (find_outbox db (mc_tenant_id item) (cm_id message) = None \<or>
        map_option eo_state (find_outbox db (mc_tenant_id item) (cm_id message)) = Some ''cancelled'')")
      case True
      then show thesis
        using c Some id by (intro already [of message]) (auto simp: cancel_command_def Let_def)
    next
      case False
      show thesis
      proof (cases result)
        case (Inl failure)
        then show thesis
          using c Some False refused
          by (auto simp: cancel_command_def Let_def split: if_splits sum.splits)
      next
        case (Inr f)
        then show thesis
          using c Some False id
          by (intro cancelled [of message "find_outbox db (mc_tenant_id item) (cm_id message)"])
            (auto simp: cancel_command_def Let_def split: if_splits sum.splits option.splits)
      qed
    qed
  qed
qed
lemma queue_lifecycle_frame:
  assumes "queue_lifecycle iv dr l m = Inr m'"
  shows "gd_messages m' = gd_messages m \<and> ml_outbox m' = ml_outbox m"
  using assms
  by (auto simp: queue_lifecycle_def queue_email_lifecycle_event_def Let_def res_bind_Inr split: if_splits)

lemma cancel_rows_effect:
  assumes "cancel_rows iv dr item message outbox db = Inr db'"
    and "find_message db tid (cm_id message) = Some message"
    and "distinct (map cm_id (gd_messages (ik_mail db)))"
  shows "find_message db' tid (cm_id message) = Some (message\<lparr>cm_status := ''cancelled''\<rparr>)"
    and "ml_outbox (ik_mail db') = (case outbox of None \<Rightarrow> ml_outbox (ik_mail db)
       | Some i \<Rightarrow> update_rows (\<lambda>r. eo_id r = eo_id i) (cancel_row (id_now dr)) (ml_outbox (ik_mail db)))"
proof -
  define m1 where "m1 = (case outbox of None \<Rightarrow> ik_mail db | Some i \<Rightarrow> put_item (eo_id i) (cancel_row (id_now dr)) (ik_mail db))"
  obtain m2 where m2: "mark_message (cm_id message) ''cancelled'' m1 = Inr m2"
    and m3: "gd_messages (ik_mail db') = gd_messages m2" "ml_outbox (ik_mail db') = ml_outbox m2"
    using assms(1) by (auto simp: cancel_rows_def Let_def m1_def [symmetric] res_bind_Inr dest: queue_lifecycle_frame)
  have msgs: "gd_messages m1 = gd_messages (ik_mail db)"
    by (simp add: m1_def put_item_def split: option.split)
  have "message \<in> set (gd_messages (ik_mail db))"
    using find_row_Some [OF assms(2) [unfolded find_message_def]] by blast
  then have m: "get_message m1 (cm_id message) = Some message"
    unfolding get_message_def msgs by (rule find_row_unique [OF assms(3)])
  have m2': "m2 = m1\<lparr>gd_messages := update_rows (\<lambda>r. cm_id r = cm_id message) (\<lambda>_. message\<lparr>cm_status := ''cancelled''\<rparr>) (gd_messages m1)\<rparr>"
    using m2 m by (simp add: mark_message_def set_core_message_status_def CANONICAL_SMTP_STATUSES_def)
  show "ml_outbox (ik_mail db') = (case outbox of None \<Rightarrow> ml_outbox (ik_mail db)
       | Some i \<Rightarrow> update_rows (\<lambda>r. eo_id r = eo_id i) (cancel_row (id_now dr)) (ml_outbox (ik_mail db)))"
    unfolding m3(2) m2' by (simp add: m1_def put_item_def split: option.split)
  have "gd_messages (ik_mail db') = map (\<lambda>r. if cm_id r = cm_id message then message\<lparr>cm_status := ''cancelled''\<rparr> else r)
      (gd_messages (ik_mail db))"
    unfolding m3(1) m2' msgs by (simp add: update_rows_def)
  moreover have "find_row (\<lambda>r. cm_id r = k \<and> cm_tenant_id r = tid)
      (map (\<lambda>r. if cm_id r = cm_id message then message\<lparr>cm_status := ''cancelled''\<rparr> else r) ms) =
      Some (message\<lparr>cm_status := ''cancelled''\<rparr>)"
    if "find_row (\<lambda>r. cm_id r = k \<and> cm_tenant_id r = tid) ms = Some message" "k = cm_id message" "cm_tenant_id message = tid" for k ms
    using that by (induction ms) (auto split: if_splits)
  ultimately show "find_message db' tid (cm_id message) = Some (message\<lparr>cm_status := ''cancelled''\<rparr>)"
    using assms(2) find_row_Some [OF assms(2) [unfolded find_message_def]] unfolding find_message_def by simp
qed

text \<open>
  A command that ends as cancelled leaves its message cancelled and its outbox row, where there is
  one, out of reach of both delivery loops for good; a cancel command that ends in any other state has
  changed no message and no outbox row, and that is the case whenever the row is not waiting any more,
  because a submission may be under way.
\<close>

theorem cancelled_command_stops_delivery:
  assumes "get_command db k = Some item" and "mc_state item = ''accepted''"
    and "mc_command item = ''email.message.cancel.v1''" and "recorded_payload item = Some payload"
    and "execute_middleware_command ce dr raise_errors k db = (res, db')" and "get_command db' k = Some item'"
    and "distinct (map cm_id (gd_messages (ik_mail (cb_intake db))))"
    and "distinct (map eo_id (ml_outbox (ik_mail (cb_intake db))))"
  shows "if mc_state item' = ''cancelled''
    then \<exists>mid message. find_message (cb_intake db') (mc_tenant_id item) mid = Some message \<and> cm_status message = ''cancelled'' \<and>
      (\<forall>i. find_outbox (cb_intake db') (mc_tenant_id item) mid = Some i \<longrightarrow>
         eo_state i = ''cancelled'' \<and> (\<forall>t locked. \<not> deliverable t locked i)) \<and>
      (\<forall>i. find_outbox (cb_intake db) (mc_tenant_id item) mid = Some i \<longrightarrow>
         eo_state i \<in> {''pending'', ''retry'', ''cancelled''})
    else cb_intake db' = cb_intake db"
proof -
  let ?tid = "mc_tenant_id item"
  obtain result ik where c: "cancel_command ce dr item payload (cb_intake db) = (result, ik)"
    by (cases "cancel_command ce dr item payload (cb_intake db)")
  have ex: "settle_command (id_now dr) raise_errors k (result, ik) (put_command k (start_command (id_now dr)) db) = (res, db')"
    using assms(1-5) c by (simp add: execute_middleware_command_def perform_command_def Let_def)
  have dead: "\<not> deliverable t locked i" if "eo_state i = ''cancelled''" for t locked i
    using that by (simp add: deliverable_def)
  show ?thesis
  proof (cases rule: cancel_command_cases [OF c, case_names refused already cancelled])
    case (refused failure)
    then have "cb_intake db' = cb_intake db \<and> mc_state item' \<noteq> ''cancelled''"
      using ex assms(1,6)
      by (cases failure) (auto simp: settle_command_def Let_def get_put_command mark_failed_command_def release_command_def)
    then show ?thesis by simp
  next
    case (already message)
    then have "cb_intake db' = cb_intake db" "mc_state item' = ''cancelled''"
      using ex assms(1,6) by (auto simp: settle_command_def Let_def get_put_command mark_done_command_def concluded_def)
    then show ?thesis
      using already(2-4) dead by (auto intro!: exI [of _ "cm_id message"] exI [of _ message])
  next
    case (cancelled message outbox)
    have fin: "cb_intake db' = ik" "mc_state item' = ''cancelled''"
      using cancelled(5) ex assms(1,6)
      by (auto simp: settle_command_def Let_def get_put_command mark_done_command_def concluded_def)
    note effect = cancel_rows_effect [OF cancelled(4,1) assms(7)]
    have "eo_state i = ''cancelled''" if i: "find_outbox ik ?tid (cm_id message) = Some i" for i
    proof (cases outbox)
      case None
      then show ?thesis using i effect(2) cancelled(2) by (simp add: find_outbox_def)
    next
      case (Some j)
      define g where "g = (\<lambda>r. if eo_id r = eo_id j then cancel_row (id_now dr) r else r)"
      have keep: "eo_message_id (g r) = eo_message_id r" "eo_tenant_id (g r) = eo_tenant_id r" for r
        by (simp_all add: g_def cancel_row_def)
      have find_kept: "find_row (\<lambda>r. eo_message_id r = a \<and> eo_tenant_id r = b) (map g rows) =
          map_option g (find_row (\<lambda>r. eo_message_id r = a \<and> eo_tenant_id r = b) rows)" for a b rows
        by (induction rows) (auto simp: keep)
      have "ml_outbox (ik_mail ik) = map g (ml_outbox (ik_mail (cb_intake db)))"
        using effect(2) Some by (simp add: update_rows_def g_def)
      then have "find_outbox ik ?tid (cm_id message) = map_option g (find_outbox (cb_intake db) ?tid (cm_id message))"
        unfolding find_outbox_def by (simp add: find_kept)
      then have "find_outbox ik ?tid (cm_id message) = Some (g j)" using cancelled(2) [symmetric] Some by simp
      then have "i = g j" using i by simp
      then show ?thesis by (simp add: g_def cancel_row_def)
    qed
    then show ?thesis
      using fin effect(1) dead cancelled(2,3)
      by (auto intro!: exI [of _ "cm_id message"] exI [of _ "message\<lparr>cm_status := ''cancelled''\<rparr>"])
  qed
qed
section \<open>Samples\<close>

definition command_sample :: "string \<Rightarrow> (string \<times> json) list \<Rightarrow> command_row" where
  "command_sample command payload = \<lparr>mc_command_id = ''op1'', mc_tenant_id = ''t1'', mc_command = command,
     mc_idempotency_key = ''key-0001'', mc_correlation_id = ''corr-1'', mc_state = ''accepted'', mc_request_hash = ''h'',
     mc_request = JText (JObj [(''payload'', JObj payload), (''target'', JNull)]), mc_result = JText (JObj []),
     mc_error = None, mc_created_at = 0, mc_updated_at = 0\<rparr>"

definition send_payload :: "(string \<times> json) list" where
  "send_payload = [(''to'', JStr ''r@b.org''), (''from'', JStr ''n@a.org''), (''subject'', JStr ''Hi''),
     (''html'', JStr ''<p>''), (''campaign_id'', JStr ''c1'')]"

definition command_env_sample :: command_env where
  "command_env_sample = \<lparr>ce_intake = live_env, ce_email = Some, ce_txt = (\<lambda>_. None)\<rparr>"

definition send_item :: command_row where
  "send_item = command_sample ''email.message.send.v1'' send_payload"

definition command_db_sample :: command_db where
  "command_db_sample = \<lparr>cb_intake = sample_intake, cb_commands = [send_item]\<rparr>"

definition sample_command_mail :: core_mail where
  "sample_command_mail = (sample_mail ''Hi'')\<lparr>xm_callback_metadata :=
     [(''operation_id'', JStr ''op1''), (''correlation_id'', JStr ''corr-1'')]\<rparr>"

lemma send_item_row:
  "get_command command_db_sample ''op1'' = Some send_item" "mc_state send_item = ''accepted''"
  "mc_command send_item = ''email.message.send.v1''" "recorded_payload send_item = Some send_payload"
  "mc_idempotency_key send_item \<noteq> []" "mc_tenant_id send_item = ''t1''"
  by (simp_all add: get_command_def command_db_sample_def send_item_def command_sample_def recorded_payload_def loads_or_empty_def)

lemma send_item_mail: "command_mail command_env_sample send_item send_payload = Some sample_command_mail"
proof -
  have "(case command_mail command_env_sample send_item send_payload of None \<Rightarrow> False | Some m \<Rightarrow> m = sample_command_mail)"
    by code_simp
  then show ?thesis by (auto split: option.splits)
qed

definition first_send :: "json res \<times> intake_db" where
  "first_send = send_with_scoped_legacy_compatibility live_env sample_draws (middleware_ctx ''t1'') ''key-0001''
     sample_command_mail sample_intake"

lemma first_send_eval:
  "case first_send of
     (Inr resp, db) \<Rightarrow> sort_doc resp = sample_response \<and> length (ik_idempotency db) = 1 \<and>
       list_all (\<lambda>r. length (rp_response_json r) \<le> 600) (ik_idempotency db)
   | _ \<Rightarrow> False"
  by code_simp

lemma first_send_accepted:
  obtains resp ik where "send_with_scoped_legacy_compatibility (ce_intake command_env_sample) sample_draws
      (middleware_ctx (mc_tenant_id send_item)) (mc_idempotency_key send_item) sample_command_mail
      (cb_intake command_db_sample) = (Inr resp, ik)"
    and "sort_doc resp = sample_response" and "ik \<noteq> cb_intake command_db_sample"
    and "\<forall>r \<in> set (ik_idempotency ik). int (length (rp_response_json r)) \<le> MAX_ENVELOPE_BYTES"
proof -
  obtain res ik where s: "first_send = (res, ik)" by (cases first_send)
  from first_send_eval [unfolded s] obtain resp where r: "res = Inr resp" "sort_doc resp = sample_response"
    "length (ik_idempotency ik) = 1" "list_all (\<lambda>r. length (rp_response_json r) \<le> 600) (ik_idempotency ik)"
    by (auto split: sum.splits)
  have "ik_idempotency (cb_intake command_db_sample) = []" by (simp add: command_db_sample_def sample_intake_def)
  then have "ik \<noteq> cb_intake command_db_sample" using r(3) by auto
  moreover have "\<forall>r \<in> set (ik_idempotency ik). int (length (rp_response_json r)) \<le> MAX_ENVELOPE_BYTES"
    using r(4) by (fastforce simp: list_all_iff MAX_ENVELOPE_BYTES_def)
  ultimately show thesis
    using that [of resp ik] s r(1,2)
    by (simp add: first_send_def command_env_sample_def send_item_def command_sample_def command_db_sample_def)
qed

text \<open>The process dies after the send; six minutes later the command is recovered and executed again.\<close>

theorem recovered_command_sends_once_witness:
  "\<exists>resp ik item' db'. first_send = (Inr resp, ik) \<and>
     execute_middleware_command command_env_sample (sample_draws\<lparr>id_now := 400000000\<rparr>) False ''op1''
       (reclaim_commands 400000000 (\<lambda>_. False) 20 \<lparr>cb_intake = ik, cb_commands = [start_command 10 send_item]\<rparr>) =
       (command_response item', db') \<and> cb_intake db' = ik \<and> mc_state item' = ''queued''"
proof -
  obtain resp ik where s: "send_with_scoped_legacy_compatibility (ce_intake command_env_sample) sample_draws
      (middleware_ctx (mc_tenant_id send_item)) (mc_idempotency_key send_item) sample_command_mail
      (cb_intake command_db_sample) = (Inr resp, ik)" "sort_doc resp = sample_response" "ik \<noteq> cb_intake command_db_sample"
    "\<forall>r \<in> set (ik_idempotency ik). int (length (rp_response_json r)) \<le> MAX_ENVELOPE_BYTES"
    by (rule first_send_accepted)
  let ?db2 = "\<lparr>cb_intake = ik, cb_commands = [start_command (id_now sample_draws) send_item]\<rparr>"
  have now: "id_now sample_draws = 10" by (simp add: sample_draws_def)
  have stale: "start_command (id_now sample_draws) send_item \<in>
      set (take 20 (filter (stale_command 400000000 (\<lambda>_. False)) (cb_commands ?db2)))"
    by (simp add: stale_command_def start_command_def now)
  have row: "get_command ?db2 ''op1'' = Some (start_command (id_now sample_draws) send_item)"
    by (simp add: get_command_def start_command_def send_item_def command_sample_def)
  have env: "iv_suite (ce_intake command_env_sample) = plain_suite sample_response"
    "iv_ring (ce_intake command_env_sample) = Inr plain_ring"
    by (simp_all add: command_env_sample_def live_env_def)
  have doc: "decodes (iv_suite (ce_intake command_env_sample)) (sort_doc resp)"
    unfolding s(2) env by (simp add: decodes_def plain_suite_def plain_dumps_def sample_response_def)
  have laws: "cipher_laws (iv_suite (ce_intake command_env_sample))"
    "\<forall>c k n. decodes (iv_suite (ce_intake command_env_sample)) (envelope_doc c k n)"
    unfolding env using plain_laws plain_decodes_envelope by blast+
  have small: "length (id_nonce sample_draws) = 12" by (simp add: sample_draws_def plain_nonce_def)
  have kept: "\<forall>tid skey. find_replay ik tid skey \<noteq> None \<longrightarrow> find_replay (cb_intake ?db2) tid skey = find_replay ik tid skey"
    by simp
  have first: "first_send = (Inr resp, ik)"
    using s(1) by (simp add: first_send_def command_env_sample_def send_item_def command_sample_def command_db_sample_def)
  from recovered_command_sends_once [OF send_item_row(1-4) send_item_mail s(1,3) stale row kept refl refl refl env(2) env(2) refl
      laws(1) small s(4) doc laws(2), of "sample_draws\<lparr>id_now := 400000000\<rparr>" False]
  show ?thesis unfolding now using first by auto
qed

definition unverified_db :: command_db where
  "unverified_db = command_db_sample\<lparr>cb_intake := sample_intake\<lparr>ik_domains := []\<rparr>\<rparr>"

definition unsealed_env :: command_env where
  "unsealed_env = command_env_sample\<lparr>ce_intake := live_env\<lparr>iv_ring := Inl unavailable\<rparr>\<rparr>"

definition admission :: "command_env \<Rightarrow> intake_db \<Rightarrow> (authorization \<times> gate_row list) option" where
  "admission ce db =
     (let iv = ce_intake ce; ctx = middleware_ctx ''t1''; x = sample_command_mail
      in case (enforce_tenant_send_gate db ''t1'', authorize_agent_sender (iv_env iv) db ctx (xm_sender x) (xm_campaign_id x) (xm_reply_to x),
           authorize_send (guard_tables db) (iv_repr iv) (iv_env iv) (id_now sample_draws) ''t1'' (xm_sender x)
             (xm_to x) (xm_stream x) (iv_safe iv) (xm_campaign_id x) (xm_topic x),
           canary_checks iv sample_draws ''t1'' x (ml_gates (ik_mail db))) of
        (Inr _, Inr _, Inr auth, (Inr _, gates)) \<Rightarrow> Some (auth, gates)
      | _ \<Rightarrow> None)"

lemma admission_admitted:
  "admission ce db = Some (auth, gates) \<Longrightarrow>
     admitted (ce_intake ce) sample_draws (middleware_ctx ''t1'') sample_command_mail db auth gates"
  by (auto simp: admission_def admitted_def Let_def middleware_ctx_def split: sum.splits prod.splits)

lemma unverified_eval:
  "case admission command_env_sample (cb_intake unverified_db) of
     Some (auth, gates) \<Rightarrow> final_checks live_env sample_draws (middleware_ctx ''t1'') sample_command_mail
       (with_gates (cb_intake unverified_db) gates) = Inl (HTTPException 422 ''sender_domain_not_verified'')
   | None \<Rightarrow> False"
  by code_simp

text \<open>The sender's domain is no longer verified when the command runs.\<close>

theorem rejected_command_burns_reservation_witness:
  "\<exists>item' db'. execute_middleware_command command_env_sample sample_draws False ''op1'' unverified_db =
      (row_response ''op1'' db', db') \<and> get_command db' ''op1'' = Some item' \<and> mc_state item' = ''failed'' \<and>
    ml_outbox (ik_mail (cb_intake db')) = [] \<and> reserved_in canary_env (ml_gates (ik_mail (cb_intake db'))) = 1"
proof -
  obtain auth gates where "admission command_env_sample (cb_intake unverified_db) = Some (auth, gates)"
    and final: "final_checks (ce_intake command_env_sample) sample_draws (middleware_ctx (mc_tenant_id send_item)) sample_command_mail
       (with_gates (cb_intake unverified_db) gates) = Inl (HTTPException 422 ''sender_domain_not_verified'')"
    using unverified_eval by (auto simp: command_env_sample_def send_item_row(6) split: option.splits)
  then have adm: "admitted (ce_intake command_env_sample) sample_draws (middleware_ctx (mc_tenant_id send_item))
      sample_command_mail (cb_intake unverified_db) auth gates"
    using admission_admitted by (simp add: send_item_row(6))
  have row: "get_command unverified_db ''op1'' = Some send_item"
    using send_item_row(1) by (simp add: unverified_db_def)
  have none: "find_replay (cb_intake unverified_db) tid key = None" for tid key
    by (simp add: unverified_db_def find_replay_def sample_intake_def)
  have live: "\<not> iv_safe (ce_intake command_env_sample)" "xm_stream sample_command_mail \<noteq> ''marketing''"
    "iv_env (ce_intake command_env_sample) = canary_env"
    by (simp_all add: command_env_sample_def live_env_def sample_command_mail_def sample_mail_def)
  have zero: "reserved_in canary_env (ml_gates (ik_mail (cb_intake unverified_db))) = 0" by code_simp
  have empty: "ml_outbox (ik_mail (cb_intake unverified_db)) = []"
    by (simp add: unverified_db_def sample_intake_def)
  from rejected_command_burns_reservation [OF row send_item_row(2-4) send_item_mail send_item_row(5) none none adm final live(1,2)]
  show ?thesis unfolding live(3) zero empty by auto
qed

lemma unsealed_eval:
  "case admission unsealed_env sample_intake of
     Some (auth, gates) \<Rightarrow>
       (case final_checks (ce_intake unsealed_env) sample_draws (middleware_ctx ''t1'') sample_command_mail
         (with_gates sample_intake gates) of Inr _ \<Rightarrow> True | Inl _ \<Rightarrow> False)
   | None \<Rightarrow> False"
  by code_simp

theorem unsealed_command_orphans_message_witness:
  "\<exists>item' db'. execute_middleware_command unsealed_env sample_draws False ''op1'' command_db_sample =
      (row_response ''op1'' db', db') \<and> get_command db' ''op1'' = Some item' \<and> mc_state item' = ''failed'' \<and>
    map cm_status (gd_messages (ik_mail (cb_intake db'))) = [''queued''] \<and> ml_outbox (ik_mail (cb_intake db')) = []"
proof -
  have sample: "cb_intake command_db_sample = sample_intake" by (simp add: command_db_sample_def)
  obtain auth gates where ad: "admission unsealed_env sample_intake = Some (auth, gates)"
    and ok: "case final_checks (ce_intake unsealed_env) sample_draws (middleware_ctx ''t1'') sample_command_mail
       (with_gates sample_intake gates) of Inr _ \<Rightarrow> True | Inl _ \<Rightarrow> False"
    using unsealed_eval by (auto split: option.splits)
  obtain billing where final: "final_checks (ce_intake unsealed_env) sample_draws (middleware_ctx (mc_tenant_id send_item))
      sample_command_mail (with_gates (cb_intake command_db_sample) gates) = Inr billing"
    using ok unfolding sample send_item_row(6) by (cases "final_checks (ce_intake unsealed_env) sample_draws
      (middleware_ctx ''t1'') sample_command_mail (with_gates sample_intake gates)") simp_all
  have adm: "admitted (ce_intake unsealed_env) sample_draws (middleware_ctx (mc_tenant_id send_item))
      sample_command_mail (cb_intake command_db_sample) auth gates"
    using admission_admitted [OF ad] by (simp add: send_item_row(6) sample)
  have none: "find_replay (cb_intake command_db_sample) tid key = None" for tid key
    by (simp add: sample find_replay_def sample_intake_def)
  have mail: "command_mail unsealed_env send_item send_payload = Some sample_command_mail"
    using send_item_mail by (simp add: command_mail_def unsealed_env_def)
  have empty: "ml_outbox (ik_mail sample_intake) = []" "gd_messages (ik_mail sample_intake) = []" "ik_usage sample_intake = []"
    by (simp_all add: sample_intake_def mail_sample_def)
  have fresh: "\<not> duplicate_row (ce_intake unsealed_env) sample_draws (mc_tenant_id send_item) skey
      (with_gates (cb_intake command_db_sample) gates)" for skey
    using empty by (simp add: duplicate_row_def sample get_message_def get_item_def)
  have env: "iv_ring (ce_intake unsealed_env) = Inl unavailable" "iv_safe (ce_intake unsealed_env) = False"
    by (simp_all add: unsealed_env_def live_env_def)
  from unsealed_command_orphans_message [OF send_item_row(1-4) mail send_item_row(5) none none adm final fresh env(1)]
  show ?thesis unfolding sample empty by (auto simp: new_message_def env(2))
qed

text \<open>The message of a first command is cancelled before a worker claims it.\<close>

definition cancel_item_sample :: command_row where
  "cancel_item_sample = command_sample ''email.message.cancel.v1'' [(''message_id'', JStr ''m1'')]"

definition cancel_db :: command_db where
  "cancel_db = \<lparr>cb_intake = snd (live_send ''k1'' ''Hi'' sample_intake), cb_commands = [cancel_item_sample]\<rparr>"

lemma cancel_eval:
  "distinct (map cm_id (gd_messages (ik_mail (cb_intake cancel_db)))) \<and>
   distinct (map eo_id (ml_outbox (ik_mail (cb_intake cancel_db)))) \<and>
   (case get_command (snd (execute_middleware_command command_env_sample sample_draws False ''op1'' cancel_db)) ''op1'' of
      None \<Rightarrow> False | Some r \<Rightarrow> mc_state r = ''cancelled'')"
  by code_simp

theorem cancelled_command_stops_delivery_witness:
  "\<exists>mid message. find_message (cb_intake (snd (execute_middleware_command command_env_sample sample_draws False ''op1'' cancel_db)))
     ''t1'' mid = Some message \<and> cm_status message = ''cancelled''"
proof -
  obtain res db' where ex: "execute_middleware_command command_env_sample sample_draws False ''op1'' cancel_db = (res, db')"
    by (cases "execute_middleware_command command_env_sample sample_draws False ''op1'' cancel_db")
  obtain item' where item': "get_command db' ''op1'' = Some item'" "mc_state item' = ''cancelled''"
    using cancel_eval ex by (auto split: option.splits)
  have row: "get_command cancel_db ''op1'' = Some cancel_item_sample" "mc_state cancel_item_sample = ''accepted''"
    "mc_command cancel_item_sample = ''email.message.cancel.v1''"
    "recorded_payload cancel_item_sample = Some [(''message_id'', JStr ''m1'')]" "mc_tenant_id cancel_item_sample = ''t1''"
    by (simp_all add: get_command_def cancel_db_def cancel_item_sample_def command_sample_def recorded_payload_def loads_or_empty_def)
  have ids: "distinct (map cm_id (gd_messages (ik_mail (cb_intake cancel_db))))"
    "distinct (map eo_id (ml_outbox (ik_mail (cb_intake cancel_db))))"
    using cancel_eval by blast+
  from cancelled_command_stops_delivery [OF row(1-4) ex item'(1) ids] item'(2) ex row(5) show ?thesis by auto
qed

end
