(* ===== verification/MiddlewareEvents.thy ===== *)
theory MiddlewareEvents
  imports CoreMail Platform
begin

text \<open>
  \<open>emit_middleware\<close> of \<open>main.py\<close>: the envelope of an outgoing event, its signature headers, its one
  target and the mTLS call. A request is its URL, headers and body; \<open>em_post\<close> answers it with an HTTP
  status or not at all. HMAC-SHA-256 and the loading of the TLS material are parameters.
\<close>

section \<open>The declared events\<close>

definition SMTP_EVENT_MAP :: "(string \<times> string) list" where
  "SMTP_EVENT_MAP =
     [(''email.accepted'', ''klyrow.email.accepted''), (''email.queued'', ''klyrow.email.queued''),
      (''email.submitted'', ''klyrow.email.submitted''), (''email.sent'', ''klyrow.email.sent''),
      (''email.delivered'', ''klyrow.email.delivered''), (''email.deferred'', ''klyrow.email.deferred''),
      (''email.bounced'', ''klyrow.email.bounced''), (''email.complained'', ''klyrow.email.complained''),
      (''email.rejected'', ''klyrow.email.rejected''), (''email.failed'', ''klyrow.email.failed''),
      (''email.cancelled'', ''klyrow.email.cancelled''),
      (''email.unknown_outcome'', ''klyrow.email.unknown_outcome''),
      (''email.opened'', ''klyrow.email.opened''), (''email.clicked'', ''klyrow.email.clicked''),
      (''email.unsubscribed'', ''klyrow.email.unsubscribed''),
      (''email.inbound_received'', ''klyrow.email.inbound_received''),
      (''message.submitted'', ''klyrow.email.submitted''), (''message.delivered'', ''klyrow.email.delivered''),
      (''message.opened'', ''klyrow.email.opened''), (''message.clicked'', ''klyrow.email.clicked''),
      (''inbound.received'', ''klyrow.email.inbound_received'')]"

section \<open>The call\<close>

type_synonym request = "string \<times> (string \<times> string) list \<times> string"

record emitter =
  em_env :: env
  em_files :: files
  em_is_file :: "string \<Rightarrow> bool"
  em_tls :: "string \<Rightarrow> string \<Rightarrow> string \<Rightarrow> bool"
  em_hmac :: "string \<Rightarrow> string \<Rightarrow> string"
  em_post :: "request \<Rightarrow> nat option"
  em_codec :: codec
  em_repr :: "json \<Rightarrow> string"
  em_uuid :: string
  em_now :: int

definition email_event :: "string \<Rightarrow> bool" where
  "email_event event_type \<longleftrightarrow>
     starts_with ''klyrow.email.'' event_type \<or> starts_with ''klyrow.message.'' event_type"

text \<open>\<open>str(a or b or \<dots>)\<close> on documents.\<close>

definition first_text :: "emitter \<Rightarrow> json list \<Rightarrow> string" where
  "first_text em vs = json_str (em_repr em) (foldr json_or (butlast vs) (last vs))"

definition event_envelope_doc ::
  "emitter \<Rightarrow> string \<Rightarrow> string \<Rightarrow> json \<Rightarrow> (string \<times> json) list \<Rightarrow> ((string \<times> json) list) res" where
  "event_envelope_doc em event_type source_hash event_id p =
     (let g = obj_get p;
          txt = (\<lambda>vs. JStr (first_text em vs));
          sha = cd_sha256_hex (em_codec em);
          iso_now = JStr (cd_iso (em_codec em) (em_now em))
      in if email_event event_type \<and> event_type \<noteq> ''klyrow.email.inbound_received''
         then res_bind (json_int (json_or (g ''attempt'') (JInt 1))) (\<lambda>attempt.
           Inr [(''event_id'', event_id),
                (''schema_version'', txt [g ''schema_version'', g ''event_version'', JStr ''1.0'']),
                (''source_system'', JStr ''klyrow''), (''event_type'', JStr event_type),
                (''event_version'', txt [g ''event_version'', JStr ''1.0'']),
                (''occurred_at'', txt [g ''occurred_at'', iso_now]),
                (''tenant_id'', txt [g ''tenant_id'', g ''customer_id'', JStr []]),
                (''operation_id'', txt [g ''operation_id'', g ''message_id'', event_id]),
                (''payload_hash'', JStr source_hash),
                (''message_id'', txt [g ''message_id'', JStr []]),
                (''provider_message_id'', txt [g ''provider_message_id'', g ''message_id'', JStr []]),
                (''stream'', txt [g ''stream'', JStr ''transactional'']),
                (''recipient_reference'', txt [g ''recipient_reference'',
                   JStr (''sha256:'' @ sha (lower (first_text em [g ''recipient'', JStr []])))]),
                (''status'', txt [g ''canonical_status'', g ''status'', JStr (after_last (CHR ''.'') event_type)]),
                (''provider'', txt [g ''provider'', JStr ''postal'']),
                (''correlation_id'', txt [g ''correlation_id'', event_id]),
                (''causation_id'', txt [g ''causation_id'', g ''correlation_id'', event_id]),
                (''attempt'', JInt (max 1 attempt)),
                (''metadata'', JObj (case json_obj (g ''metadata'') of None \<Rightarrow> [] | Some kvs \<Rightarrow> kvs))])
         else Inr (obj_update [(''event_id'', event_id), (''source_system'', JStr ''klyrow''),
                     (''event_type'', JStr event_type), (''timestamp'', iso_now)] p))"

definition signed_request ::
  "emitter \<Rightarrow> string \<Rightarrow> string \<Rightarrow> string \<Rightarrow> string \<Rightarrow> (string \<times> json) list \<Rightarrow> string \<Rightarrow> request" where
  "signed_request em key secret event_id event_type p target =
     (let body = cd_dumps (em_codec em) (sort_doc (JObj p));
          ts = int_to_string (em_now em div 1000000);
          newline = [CHR 0x0A];
          canonical = ts @ newline @ event_id @ newline @ ''klyrow'' @ newline @ body;
          tenant_id = first_text em [obj_get p ''tenant_id'', obj_get p ''customer_id'', JStr []];
          correlation_id = first_text em [obj_get p ''correlation_id'', JStr event_id]
      in (target,
          [(''Authorization'', ''Bearer '' @ key), (''Content-Type'', ''application/json''),
           (''X-Source-System'', ''klyrow''), (''X-Tenant-ID'', tenant_id),
           (''X-Correlation-ID'', correlation_id), (''Idempotency-Key'', ''klyrow:event:'' @ event_id),
           (''X-Klyrow-Timestamp'', ts), (''X-Klyrow-Event-Id'', event_id),
           (''X-Klyrow-Signature'', ''sha256='' @ em_hmac em secret canonical)],
          body))"

text \<open>The dedicated endpoint of e-mail and usage events, else the generic one of the middleware.\<close>

definition event_targets :: "env \<Rightarrow> string \<Rightarrow> string list" where
  "event_targets e event_type =
     (let base = rstrip_char (CHR ''/'') (env_get e ''KLYROW_MIDDLEWARE_URL'' []);
          email_target = strip (env_get e ''KLYROW_EMAIL_EVENT_URL'' []);
          path = (case map_of [(''klyrow.email.bounced'', ''bounces''),
                               (''klyrow.email.complained'', ''complaints''),
                               (''klyrow.email.unsubscribed'', ''unsubscribes'')] event_type of
                    None \<Rightarrow> ''events'' | Some x \<Rightarrow> x)
      in if (event_type = ''klyrow.usage.recorded'' \<or> email_event event_type) \<and> email_target \<noteq> []
         then [email_target]
         else if base = [] then [] else [base @ ''/api/v1/klyrow/'' @ path])"

definition tls_material_ok :: "emitter \<Rightarrow> bool" where
  "tls_material_ok em \<longleftrightarrow>
     (let e = em_env em;
          ca = strip (env_get e ''KLYROW_SERVER_A_CA_FILE'' []);
          cert = strip (env_get e ''KLYROW_SERVER_A_CLIENT_CERT_FILE'' []);
          key = strip (env_get e ''KLYROW_SERVER_A_CLIENT_KEY_FILE'' [])
      in ca \<noteq> [] \<and> cert \<noteq> [] \<and> key \<noteq> [] \<and> em_is_file em ca \<and> em_is_file em cert \<and> em_is_file em key \<and>
         em_tls em ca cert key)"

text \<open>\<open>response.raise_for_status()\<close> after each call: the requests made, and whether all succeeded.\<close>

fun post_all :: "(request \<Rightarrow> nat option) \<Rightarrow> request list \<Rightarrow> bool \<times> request list" where
  "post_all post [] = (True, [])"
| "post_all post (r # rs) =
     (case post r of
        Some code \<Rightarrow>
          (if 200 \<le> code \<and> code < 300
           then (let (ok, made) = post_all post rs in (ok, r # made)) else (False, [r]))
      | None \<Rightarrow> (False, [r]))"

definition emit_middleware ::
  "emitter \<Rightarrow> string \<Rightarrow> (string \<times> json) list \<Rightarrow> (bool \<times> request list) res" where
  "emit_middleware em event_type p =
     res_bind (runtime_secret (em_files em) (em_env em) ''KLYROW_MIDDLEWARE_API_KEY'') (\<lambda>key.
     res_bind (runtime_secret (em_files em) (em_env em) ''KLYROW_WEBHOOK_SECRET'') (\<lambda>secret.
       if key = [] \<or> secret = [] then Inr (False, [])
       else
         (let source_hash = first_text em [obj_get p ''payload_hash'',
                JStr (cd_sha256_hex (em_codec em) (cd_dumps (em_codec em) (sort_doc (JObj p))))];
              event_id = json_or (obj_get p ''event_id'') (JStr (em_uuid em))
          in res_bind (event_envelope_doc em event_type source_hash event_id p) (\<lambda>doc.
             (case json_string event_id of
                None \<Rightarrow> Inl (AttributeError ''encode'')
              | Some eid \<Rightarrow>
                  (let targets = event_targets (em_env em) event_type
                   in if targets = [] then Inr (False, [])
                      else if list_ex (\<lambda>t. \<not> starts_with ''https://'' (lower t)) targets then Inr (False, [])
                      else if \<not> tls_material_ok em then Inr (False, [])
                      else Inr (post_all (em_post em)
                             (map (signed_request em key secret eid event_type doc) targets))))))))"

section \<open>Lemmas\<close>

lemma post_all_subset: "set (snd (post_all post rs)) \<subseteq> set rs"
  by (induction rs) (auto split: option.splits prod.splits)

lemma post_all_ok:
  "fst (post_all post rs) \<longleftrightarrow> (\<forall>r \<in> set rs. \<exists>code. post r = Some code \<and> 200 \<le> code \<and> code < 300)"
  by (induction rs) (auto split: option.splits prod.splits)

lemma length_event_targets: "length (event_targets e k) \<le> 1"
  by (simp add: event_targets_def Let_def)

lemma emit_middleware_Inr:
  assumes "emit_middleware em k p = Inr (ok, made)" and "made \<noteq> [] \<or> ok"
  shows "\<exists>key secret eid doc target.
    runtime_secret (em_files em) (em_env em) ''KLYROW_MIDDLEWARE_API_KEY'' = Inr key \<and> key \<noteq> [] \<and>
    runtime_secret (em_files em) (em_env em) ''KLYROW_WEBHOOK_SECRET'' = Inr secret \<and> secret \<noteq> [] \<and>
    json_or (obj_get p ''event_id'') (JStr (em_uuid em)) = JStr eid \<and>
    event_targets (em_env em) k = [target] \<and> starts_with ''https://'' (lower target) \<and> tls_material_ok em \<and>
    made = [signed_request em key secret eid k doc target] \<and>
    (ok \<longleftrightarrow> (\<exists>code. em_post em (signed_request em key secret eid k doc target) = Some code \<and>
                200 \<le> code \<and> code < 300))"
proof -
  obtain key secret where secrets:
      "runtime_secret (em_files em) (em_env em) ''KLYROW_MIDDLEWARE_API_KEY'' = Inr key"
      "runtime_secret (em_files em) (em_env em) ''KLYROW_WEBHOOK_SECRET'' = Inr secret"
      "key \<noteq> []" "secret \<noteq> []"
    using assms by (auto simp: emit_middleware_def res_bind_Inr split: if_splits)
  let ?id = "json_or (obj_get p ''event_id'') (JStr (em_uuid em))"
  let ?made = "\<lambda>eid doc. post_all (em_post em)
      (map (signed_request em key secret eid k doc) (event_targets (em_env em) k))"
  obtain doc where "(case json_string ?id of
       None \<Rightarrow> Inl (AttributeError ''encode'')
     | Some eid \<Rightarrow>
         if event_targets (em_env em) k = [] then Inr (False, [])
         else if list_ex (\<lambda>t. \<not> starts_with ''https://'' (lower t)) (event_targets (em_env em) k)
         then Inr (False, [])
         else if \<not> tls_material_ok em then Inr (False, []) else Inr (?made eid doc)) = Inr (ok, made)"
    using assms(1) secrets(3,4) unfolding emit_middleware_def Let_def secrets(1,2) res_bind_simps
    by (simp only: simp_thms if_False res_bind_Inr) blast
  then obtain eid where eid: "json_string ?id = Some eid"
    and rest: "event_targets (em_env em) k \<noteq> []"
      "\<forall>t \<in> set (event_targets (em_env em) k). starts_with ''https://'' (lower t)" "tls_material_ok em"
      "?made eid doc = (ok, made)"
    using assms(2) by (auto simp: list_ex_iff split: if_splits option.splits)
  obtain target where t: "event_targets (em_env em) k = [target]"
    using rest(1) length_event_targets [of "em_env em" k] by (cases "event_targets (em_env em) k") auto
  have i: "?id = JStr eid" using eid by (cases ?id) auto
  show ?thesis
    using secrets rest t i
    by (intro exI [of _ key] exI [of _ secret] exI [of _ eid] exI [of _ doc] exI [of _ target])
       (auto split: option.splits if_splits)
qed

section \<open>Property\<close>

text \<open>
  An event leaves the gateway in at most one request, and that one goes over HTTPS with the
  client certificate loaded, under a key and a signing secret that are set; an e-mail event goes to
  the dedicated endpoint whenever one is configured, whatever the generic address is. The event's
  identifier is the idempotency key of the request, so that a repeated emission is recognisable, and
  the call succeeds exactly when the one endpoint answers with a 2xx status.
\<close>

theorem emission_confined:
  assumes "emit_middleware em event_type p = Inr (ok, made)"
  shows "length made \<le> 1 \<and> (ok \<longrightarrow> made \<noteq> []) \<and>
    (\<forall>(url, headers, body) \<in> set made.
       starts_with ''https://'' (lower url) \<and> tls_material_ok em \<and>
       (email_event event_type \<longrightarrow> strip (env_get (em_env em) ''KLYROW_EMAIL_EVENT_URL'' []) \<noteq> [] \<longrightarrow>
          url = strip (env_get (em_env em) ''KLYROW_EMAIL_EVENT_URL'' [])) \<and>
       map_of headers ''Idempotency-Key'' = Some (''klyrow:event:'' @
          the (json_string (json_or (obj_get p ''event_id'') (JStr (em_uuid em))))) \<and>
       (\<exists>key secret. key \<noteq> [] \<and> secret \<noteq> [] \<and> map_of headers ''Authorization'' = Some (''Bearer '' @ key) \<and>
          runtime_secret (em_files em) (em_env em) ''KLYROW_MIDDLEWARE_API_KEY'' = Inr key \<and>
          runtime_secret (em_files em) (em_env em) ''KLYROW_WEBHOOK_SECRET'' = Inr secret) \<and>
       (ok \<longleftrightarrow> (\<exists>code. em_post em (url, headers, body) = Some code \<and> 200 \<le> code \<and> code < 300)))"
proof (cases "made \<noteq> [] \<or> ok")
  case True
  from emit_middleware_Inr [OF assms this] obtain key secret eid doc target where
      f: "runtime_secret (em_files em) (em_env em) ''KLYROW_MIDDLEWARE_API_KEY'' = Inr key" "key \<noteq> []"
      "runtime_secret (em_files em) (em_env em) ''KLYROW_WEBHOOK_SECRET'' = Inr secret" "secret \<noteq> []"
      "json_or (obj_get p ''event_id'') (JStr (em_uuid em)) = JStr eid"
      "event_targets (em_env em) event_type = [target]" "starts_with ''https://'' (lower target)"
      "tls_material_ok em" "made = [signed_request em key secret eid event_type doc target]"
      "ok \<longleftrightarrow> (\<exists>code. em_post em (signed_request em key secret eid event_type doc target) = Some code \<and>
                200 \<le> code \<and> code < 300)"
    by blast
  have u: "email_event event_type \<longrightarrow> strip (env_get (em_env em) ''KLYROW_EMAIL_EVENT_URL'' []) \<noteq> [] \<longrightarrow>
      target = strip (env_get (em_env em) ''KLYROW_EMAIL_EVENT_URL'' [])"
    using f(6) by (auto simp: event_targets_def Let_def)
  show ?thesis
    using f u by (simp add: signed_request_def Let_def)
qed simp

definition sample_emitter :: emitter where
  "sample_emitter =
     \<lparr>em_env = env_of [(''KLYROW_MIDDLEWARE_URL'', ''http://generic.test/''),
                      (''KLYROW_EMAIL_EVENT_URL'', '' https://events.test ''),
                      (''KLYROW_MIDDLEWARE_API_KEY'', ''key''), (''KLYROW_WEBHOOK_SECRET'', ''secret''),
                      (''KLYROW_SERVER_A_CA_FILE'', ''/ca''), (''KLYROW_SERVER_A_CLIENT_CERT_FILE'', ''/cert''),
                      (''KLYROW_SERVER_A_CLIENT_KEY_FILE'', ''/key'')],
      em_files = \<lparr>fl_text = (\<lambda>_. None), fl_symlink = (\<lambda>_. False)\<rparr>, em_is_file = (\<lambda>_. True),
      em_tls = (\<lambda>_ _ _. True), em_hmac = (\<lambda>k m. k), em_post = (\<lambda>_. Some 202),
      em_codec = plain_codec JNull, em_repr = (\<lambda>_. []), em_uuid = ''u1'', em_now = 10\<rparr>"

lemma sample_emission:
  "case emit_middleware sample_emitter ''klyrow.email.delivered'' [(''event_id'', JStr ''e1'')] of
     Inl _ \<Rightarrow> False
   | Inr (ok, made) \<Rightarrow> ok \<and> map fst made = [''https://events.test'']"
  by code_simp

theorem emission_confined_witness:
  "\<exists>url headers body. emit_middleware sample_emitter ''klyrow.email.delivered'' [(''event_id'', JStr ''e1'')]
       = Inr (True, [(url, headers, body)]) \<and> tls_material_ok sample_emitter \<and>
     map_of headers ''Idempotency-Key'' = Some ''klyrow:event:e1''"
proof -
  obtain url headers body where e: "emit_middleware sample_emitter ''klyrow.email.delivered''
      [(''event_id'', JStr ''e1'')] = Inr (True, [(url, headers, body)])"
    using sample_emission by (auto split: sum.splits)
  from emission_confined [OF e] show ?thesis
    unfolding e by (simp add: obj_get_def json_or_def)
qed

end
