(* ===== verification/PostalCallbacks.thy ===== *)
theory PostalCallbacks
  imports Contracts MessageIntake PostalProvisioning BusinessEventWorker MiddlewareEvents
begin

text \<open>
  The lifecycle callbacks of Postal: \<open>postal_callback_attribution.py\<close>, and from \<open>main.py\<close> the
  signature check, the classification of bounces, \<open>persist_email_event\<close>, the signed bridge hook and
  the retry loop. A handler returns its response and the state its commits leave. Between its
  commits and the answer of the middleware other transactions run: \<open>meanwhile\<close>. \<open>emit\<close> is the call to
  the middleware (theory \<open>MiddlewareEvents\<close>). Bytes of a body are the characters of a string.
\<close>

section \<open>State\<close>

record audit_row =
  ad_id :: string
  ad_tenant_id :: string
  ad_actor :: string
  ad_action :: string

record callback_db =
  cb_mail :: mail_db
  cb_events :: "postal_event_row list"
  cb_mappings :: "mapping_row list"
  cb_audits :: "audit_row list"
  cb_replays :: "string list"

record callback_env =
  cv_env :: env
  cv_now :: int
  cv_codec :: codec
  cv_repr :: "json \<Rightarrow> string"
  cv_public_key :: "string \<Rightarrow> string option"
  cv_b64 :: "string \<Rightarrow> string option"
  cv_rsa :: "string \<Rightarrow> string \<Rightarrow> string \<Rightarrow> bool"
  cv_hmac :: "string \<Rightarrow> string \<Rightarrow> string"
  cv_files :: files
  cv_audit_ids :: "string \<times> string"
  cv_suppression_id :: string

type_synonym emission = "string \<Rightarrow> (string \<times> json) list \<Rightarrow> bool res"

definition get_postal_event :: "callback_db \<Rightarrow> string \<Rightarrow> postal_event_row option" where
  "get_postal_event db eid = find_row (\<lambda>r. pe_id r = eid) (cb_events db)"

definition update_postal_event :: "string \<Rightarrow> (postal_event_row \<Rightarrow> postal_event_row) \<Rightarrow> callback_db \<Rightarrow> callback_db" where
  "update_postal_event eid f db = db\<lparr>cb_events := update_rows (\<lambda>r. pe_id r = eid) f (cb_events db)\<rparr>"

section \<open>Vocabulary\<close>

definition POSTAL_EVENTS :: "(string \<times> string) list" where
  "POSTAL_EVENTS =
     [(''MessageSent'', ''email.delivered''), (''MessageDeliveryFailed'', ''email.bounced''),
      (''MessageBounced'', ''email.bounced''), (''MessageDelayed'', ''email.deferred''),
      (''MessageHeld'', ''email.deferred''), (''MessageLoaded'', ''email.opened''),
      (''MessageLinkClicked'', ''email.clicked'')]"

definition TERMINAL_MESSAGE_STATUSES :: "(string \<times> string) list" where
  "TERMINAL_MESSAGE_STATUSES =
     [(''email.sent'', ''provider_accepted''), (''email.delivered'', ''delivered''),
      (''email.soft_bounce'', ''deferred''), (''email.deferred'', ''deferred''),
      (''email.hard_bounce'', ''bounced''), (''email.bounced'', ''bounced''),
      (''email.complained'', ''complained''), (''email.complaint'', ''complained''),
      (''email.rejected'', ''failed''), (''email.failed'', ''failed'')]"

definition SUPPRESSION_STATUSES :: "string list" where
  "SUPPRESSION_STATUSES = [''bounced'', ''complained'']"

definition status_of_event :: "string \<Rightarrow> string" where
  "status_of_event k =
     (case map_of TERMINAL_MESSAGE_STATUSES k of None \<Rightarrow> after_last (CHR ''.'') k | Some v \<Rightarrow> v)"

section \<open>Bounce classification\<close>

definition word_char :: "char \<Rightarrow> bool" where
  "word_char c \<longleftrightarrow> is_letter c \<or> is_digit c \<or> c = CHR ''_''"

text \<open>\<open>re.search\<close> of an enhanced status code between word boundaries: the first match.\<close>

fun status_code_from :: "bool \<Rightarrow> string \<Rightarrow> string option" where
  "status_code_from after_word [] = None"
| "status_code_from after_word (c # s) =
     (case s of
        d1 # x # d2 # y # rest \<Rightarrow>
          (if \<not> after_word \<and> c \<in> set ''245'' \<and> d1 = CHR ''.'' \<and> is_digit x \<and> d2 = CHR ''.'' \<and> is_digit y \<and>
              (rest = [] \<or> \<not> word_char (hd rest))
           then Some [c, d1, x, d2, y] else status_code_from (word_char c) s)
      | _ \<Rightarrow> None)"

definition status_code :: "string \<Rightarrow> string option" where
  "status_code s = status_code_from False s"

text \<open>The literal code \<open>5.7.1\<close> between word boundaries.\<close>

fun policy_code_from :: "bool \<Rightarrow> string \<Rightarrow> bool" where
  "policy_code_from after_word [] = False"
| "policy_code_from after_word (c # s) =
     (\<not> after_word \<and> starts_with ''5.7.1'' (c # s) \<and> (drop 4 s = [] \<or> \<not> word_char (hd (drop 4 s))) \<or>
      policy_code_from (word_char c) s)"

text \<open>\<open>(raw_status or "").lower()\<close>.\<close>

definition status_text :: "json \<Rightarrow> string res" where
  "status_text raw =
     (if \<not> truthy raw then Inr []
      else case json_string raw of None \<Rightarrow> Inl (AttributeError ''lower'') | Some s \<Rightarrow> Inr (lower s))"

definition classify_bounce :: "json \<Rightarrow> (string \<times> bool) res" where
  "classify_bounce raw_status =
     res_bind (status_text raw_status) (\<lambda>v.
       (let code = (case status_code v of None \<Rightarrow> [] | Some c \<Rightarrow> c)
        in if code = ''5.7.1'' then Inr (''failed'', False)
           else if starts_with ''4.'' code \<or> code \<in> set [''5.2.2'', ''5.3.0'', ''5.4.0'']
           then Inr (''deferred'', False)
           else if starts_with ''5.'' code then Inr (''bounced'', True)
           else Inr (''bounced'', True)))"

definition reputation_signal :: "json \<Rightarrow> bool res" where
  "reputation_signal raw_status = res_bind (status_text raw_status) (\<lambda>v. Inr (policy_code_from False v))"

section \<open>persist_email_event\<close>

record lifecycle_event =
  lv_event_id :: string
  lv_tenant_id :: string
  lv_message_id :: string
  lv_correlation_id :: string
  lv_event_type :: string
  lv_recipient :: json
  lv_raw_status :: json
  lv_payload :: jtext

definition provider_status :: "string \<Rightarrow> string" where
  "provider_status status =
     (case map_of [(''provider_accepted'', ''SENT''), (''delivered'', ''DELIVERED''), (''deferred'', ''DEFERRED''),
                   (''bounced'', ''BOUNCED_HARD''), (''complained'', ''COMPLAINED''), (''failed'', ''FAILED'')]
        status of None \<Rightarrow> upper status | Some v \<Rightarrow> v)"

definition PROVIDER_STATUSES :: "string list" where
  "PROVIDER_STATUSES =
     [''SENT'', ''DELIVERED'', ''BOUNCED_SOFT'', ''BOUNCED_HARD'', ''COMPLAINED'', ''FAILED'', ''DEFERRED'']"

definition provider_message_of :: "mail_db \<Rightarrow> lifecycle_event \<Rightarrow> provider_message_row option" where
  "provider_message_of m lv =
     find_row (\<lambda>r. pm_tenant_id r = lv_tenant_id lv \<and>
       (pm_id r = lv_message_id lv \<or> pm_provider_message_id r = Some (lv_message_id lv) \<or>
        pm_correlation_id r = lv_correlation_id lv)) (gd_provider_messages m)"

definition mark_provider :: "int \<Rightarrow> lifecycle_event \<Rightarrow> string \<Rightarrow> mail_db \<Rightarrow> mail_db" where
  "mark_provider t lv status m =
     (case provider_message_of m lv of
        None \<Rightarrow> m
      | Some p \<Rightarrow>
          (if provider_status status \<in> set PROVIDER_STATUSES
           then m\<lparr>gd_provider_messages := update_rows (\<lambda>r. pm_id r = pm_id p)
                   (\<lambda>r. r\<lparr>pm_status := provider_status status, pm_updated_at := t\<rparr>) (gd_provider_messages m)\<rparr>
           else m))"

definition local_message :: "mail_db \<Rightarrow> lifecycle_event \<Rightarrow> core_message_row option" where
  "local_message m lv =
     (case get_message m (lv_message_id lv) of
        Some x \<Rightarrow> Some x | None \<Rightarrow> get_message m (lv_correlation_id lv))"

definition suppress_recipient :: "string \<Rightarrow> lifecycle_event \<Rightarrow> string \<Rightarrow> mail_db \<Rightarrow> mail_db res" where
  "suppress_recipient sid lv status m =
     (case json_string (lv_recipient lv) of
        None \<Rightarrow> Inl (AttributeError ''lower'')
      | Some recipient \<Rightarrow>
          (let email = lower recipient;
               same = (\<lambda>r. sp_tenant_id r = lv_tenant_id lv \<and> sp_email r = email)
           in case find_row same (gd_suppressions m) of
                None \<Rightarrow> Inr (m\<lparr>gd_suppressions := gd_suppressions m @
                          [\<lparr>sp_id = sid, sp_tenant_id = lv_tenant_id lv, sp_email = email, sp_reason = status\<rparr>]\<rparr>)
              | Some found \<Rightarrow>
                  (if sp_reason found \<noteq> status
                   then Inr (m\<lparr>gd_suppressions := update_rows (\<lambda>r. sp_id r = sp_id found)
                               (\<lambda>r. r\<lparr>sp_reason := status\<rparr>) (gd_suppressions m)\<rparr>)
                   else Inr m)))"

definition event_audits :: "callback_env \<Rightarrow> lifecycle_event \<Rightarrow> string \<Rightarrow> bool \<Rightarrow> audit_row list" where
  "event_audits cv lv status signal =
     (let row = (\<lambda>k action. \<lparr>ad_id = k, ad_tenant_id = lv_tenant_id lv, ad_actor = ''provider:postal'',
                             ad_action = action\<rparr>)
      in row (fst (cv_audit_ids cv)) (''email.status.'' @ status) #
         (if signal then [row (snd (cv_audit_ids cv)) ''email.reputation_signal.policy_rejection''] else []))"

text \<open>The status of the core message, of the provider message and of the webmail copy.\<close>

definition apply_status :: "callback_env \<Rightarrow> lifecycle_event \<Rightarrow> string \<Rightarrow> mail_db \<Rightarrow> mail_db res" where
  "apply_status cv lv status m =
     res_bind (case local_message m lv of None \<Rightarrow> Inr m | Some x \<Rightarrow> mark_message (cm_id x) status m) (\<lambda>m1.
       Inr (update_outbound_status (cv_now cv) (lv_tenant_id lv) (lv_message_id lv) status
              (mark_provider (cv_now cv) lv status m1)))"

definition record_mail_event ::
  "callback_env \<Rightarrow> lifecycle_event \<Rightarrow> string \<Rightarrow> core_message_row option \<Rightarrow> mail_db \<Rightarrow> (mail_db \<times> audit_row list) res" where
  "record_mail_event cv lv status local m =
     (if find_row (\<lambda>r. me_id r = lv_event_id lv) (ml_events m) \<noteq> None then Inr (m, [])
      else res_bind (reputation_signal (lv_raw_status lv)) (\<lambda>signal.
        Inr (m\<lparr>ml_events := ml_events m @
               [\<lparr>me_id = lv_event_id lv, me_tenant_id = lv_tenant_id lv,
                 me_message_id = (case local of None \<Rightarrow> lv_message_id lv | Some x \<Rightarrow> cm_id x),
                 me_kind = ''klyrow.'' @ lv_event_type lv, me_payload = lv_payload lv\<rparr>]\<rparr>,
             event_audits cv lv status signal)))"

definition event_status :: "lifecycle_event \<Rightarrow> (string \<times> bool) res" where
  "event_status lv =
     (let base = status_of_event (lv_event_type lv)
      in if base = ''bounced'' then classify_bounce (lv_raw_status lv)
         else Inr (base, base \<in> set SUPPRESSION_STATUSES))"

definition persist_email_event :: "callback_env \<Rightarrow> lifecycle_event \<Rightarrow> callback_db \<Rightarrow> (string \<times> callback_db) res" where
  "persist_email_event cv lv db =
     res_bind (event_status lv) (\<lambda>(status, suppress).
     res_bind (apply_status cv lv status (cb_mail db)) (\<lambda>m2.
     res_bind (record_mail_event cv lv status (local_message (cb_mail db) lv) m2) (\<lambda>(m3, audits).
     res_bind (if suppress \<and> truthy (lv_recipient lv)
               then suppress_recipient (cv_suppression_id cv) lv status m3 else Inr m3) (\<lambda>m4.
       Inr (status, db\<lparr>cb_mail := m4, cb_audits := cb_audits db @ audits\<rparr>)))))"

section \<open>Attribution\<close>

record attribution =
  ab_tenant_id :: string
  ab_local_message_id :: "string option"
  ab_source :: string

text \<open>\<open>_text\<close>: a string or integer (a bool is one) as stripped text, anything else empty.\<close>

fun hook_text :: "json \<Rightarrow> string" where
  "hook_text (JStr s) = strip s"
| "hook_text (JInt i) = int_to_string i"
| "hook_text (JBool b) = (if b then ''True'' else ''False'')"
| "hook_text _ = []"

definition hook_texts :: "json list \<Rightarrow> string list" where
  "hook_texts vs = filter (\<lambda>v. v \<noteq> []) (map hook_text vs)"

definition source_references :: "(string \<times> json) list \<Rightarrow> string list" where
  "source_references source =
     hook_texts (map (obj_get source) [''server_id'', ''server_uuid'', ''server_permalink'', ''postal_server_id'']) @
     (case obj_get source ''server'' of
        JObj nested \<Rightarrow> hook_texts (map (obj_get nested) [''id'', ''uuid'', ''permalink''])
      | nested \<Rightarrow> hook_texts [nested])"

definition server_references :: "(string \<times> json) list list \<Rightarrow> string list" where
  "server_references sources = concat (map source_references sources)"

text \<open>\<open>KLYROW_TENANT_POSTAL_PROVISIONING_ENABLED\<close> as the callbacks read it.\<close>

definition tenant_callback_attribution_required :: "env \<Rightarrow> bool" where
  "tenant_callback_attribution_required e \<longleftrightarrow>
     lower (strip (env_get e ''KLYROW_TENANT_POSTAL_PROVISIONING_ENABLED'' ''false'')) \<in>
       set [''1'', ''true'', ''yes'', ''on'']"

definition optional_in :: "string option \<Rightarrow> string list \<Rightarrow> bool" where
  "optional_in v refs = (case v of None \<Rightarrow> False | Some x \<Rightarrow> x \<in> set refs)"

definition outbox_candidates :: "string \<Rightarrow> (email_outbox_row \<Rightarrow> bool) \<Rightarrow> mail_db \<Rightarrow> attribution list" where
  "outbox_candidates source P m =
     map (\<lambda>r. \<lparr>ab_tenant_id = eo_tenant_id r, ab_local_message_id = Some (eo_message_id r), ab_source = source\<rparr>)
       (filter P (ml_outbox m))"

definition provider_candidates :: "string \<Rightarrow> (provider_message_row \<Rightarrow> bool) \<Rightarrow> mail_db \<Rightarrow> attribution list" where
  "provider_candidates source P m =
     map (\<lambda>r. \<lparr>ab_tenant_id = pm_tenant_id r, ab_local_message_id = Some (pm_id r), ab_source = source\<rparr>)
       (filter P (gd_provider_messages m))"

definition tag_candidates :: "mail_db \<Rightarrow> string \<Rightarrow> attribution list" where
  "tag_candidates m tag =
     (if tag = [] then []
      else outbox_candidates ''outbox_tag'' (\<lambda>r. eo_message_id r = tag) m @
           (case get_message m tag of
              None \<Rightarrow> []
            | Some x \<Rightarrow> [\<lparr>ab_tenant_id = cm_tenant_id x, ab_local_message_id = Some (cm_id x),
                          ab_source = ''message_tag''\<rparr>]) @
           provider_candidates ''provider_tag'' (\<lambda>r. pm_id r = tag \<or> pm_correlation_id r = tag) m)"

definition reference_candidates :: "mail_db \<Rightarrow> string list \<Rightarrow> string list \<Rightarrow> attribution list" where
  "reference_candidates m provider general =
     outbox_candidates ''outbox_provider_message_id'' (\<lambda>r. optional_in (eo_provider_message_id r) provider) m @
     provider_candidates ''provider_message_id'' (\<lambda>r. optional_in (pm_provider_message_id r) provider) m @
     outbox_candidates ''outbox_reference'' (\<lambda>r. eo_message_id r \<in> set general) m @
     provider_candidates ''provider_reference'' (\<lambda>r. pm_id r \<in> set general \<or> pm_correlation_id r \<in> set general) m"

definition server_candidates :: "mapping_row list \<Rightarrow> string list \<Rightarrow> attribution list" where
  "server_candidates mappings refs =
     map (\<lambda>p. \<lparr>ab_tenant_id = pt_tenant_id p, ab_local_message_id = None, ab_source = ''postal_server_mapping''\<rparr>)
       (filter (\<lambda>p. pt_state p = READY \<and> (optional_in (pt_provider_server_id p) refs \<or>
                      optional_in (pt_provider_server_permalink p) refs)) mappings)"

record callback =
  cl_event_id :: string
  cl_timestamp :: pyfloat
  cl_event_name :: string
  cl_canonical :: string
  cl_raw :: "(string \<times> json) list"
  cl_payload :: "(string \<times> json) list"
  cl_message :: "(string \<times> json) list"

definition callback_tag :: "callback \<Rightarrow> string" where
  "callback_tag cl = hook_text (obj_get (cl_message cl) ''tag'')"

definition provider_references :: "callback \<Rightarrow> string list" where
  "provider_references cl =
     hook_texts [obj_get (cl_message cl) ''message_id'', obj_get (cl_message cl) ''id'',
                     obj_get (cl_payload cl) ''provider_message_id'', obj_get (cl_payload cl) ''message_id'']"

definition general_references :: "callback \<Rightarrow> string list" where
  "general_references cl =
     provider_references cl @ hook_texts [obj_get (cl_message cl) ''tag'',
       obj_get (cl_payload cl) ''correlation_id'', obj_get (cl_raw cl) ''correlation_id'']"

definition candidates :: "callback_db \<Rightarrow> callback \<Rightarrow> attribution list" where
  "candidates db cl =
     tag_candidates (cb_mail db) (callback_tag cl) @
     reference_candidates (cb_mail db) (provider_references cl) (general_references cl) @
     server_candidates (cb_mappings db) (server_references [cl_raw cl, cl_payload cl, cl_message cl])"

definition legacy_attribution :: "env \<Rightarrow> mail_db \<Rightarrow> attribution res" where
  "legacy_attribution e m =
     (if tenant_callback_attribution_required e
      then Inl (HTTPException 503 ''postal_tenant_attribution_unavailable'')
      else
        (let tid = strip (env_get e ''KLYROW_POSTAL_TENANT_ID'' [])
         in if tid = [] \<or> find_row (\<lambda>t. tn_id t = tid) (gd_tenants m) = None
            then Inl (HTTPException 503 ''postal_tenant_not_configured'')
            else Inr \<lparr>ab_tenant_id = tid, ab_local_message_id = None, ab_source = ''legacy_single_tenant''\<rparr>))"

definition resolve_attribution :: "env \<Rightarrow> callback_db \<Rightarrow> callback \<Rightarrow> attribution res" where
  "resolve_attribution e db cl =
     (case get_postal_event db (cl_event_id cl) of
        Some existing \<Rightarrow>
          Inr \<lparr>ab_tenant_id = pe_tenant_id existing,
               ab_local_message_id = (if pe_message_id existing = [] then None else Some (pe_message_id existing)),
               ab_source = ''existing_event''\<rparr>
      | None \<Rightarrow>
          (let found = candidates db cl
           in case remdups (map ab_tenant_id found) of
                [] \<Rightarrow> legacy_attribution e (cb_mail db)
              | [tid] \<Rightarrow>
                  Inr \<lparr>ab_tenant_id = tid,
                       ab_local_message_id =
                         (case find_row (\<lambda>c. ab_tenant_id c = tid \<and> \<not> absent (ab_local_message_id c)) found of
                            None \<Rightarrow> None | Some c \<Rightarrow> ab_local_message_id c),
                       ab_source = (case find_row (\<lambda>c. ab_tenant_id c = tid) found of
                                      None \<Rightarrow> [] | Some c \<Rightarrow> ab_source c)\<rparr>
              | _ \<Rightarrow> Inl (HTTPException 503 ''postal_tenant_attribution_ambiguous'')))"

section \<open>Reading a callback\<close>

definition verify_postal_signature :: "callback_env \<Rightarrow> string \<Rightarrow> string \<Rightarrow> unit res" where
  "verify_postal_signature cv body signature =
     (let key_path = env_get (cv_env cv) ''KLYROW_POSTAL_WEBHOOK_PUBLIC_KEY'' []
      in if key_path = [] \<or> signature = [] then Inl (HTTPException 401 ''postal_signature_required'')
         else (case (cv_public_key cv key_path, cv_b64 cv signature) of
                 (Some pem, Some signed) \<Rightarrow>
                   (if cv_rsa cv pem signed body then Inr ()
                    else Inl (HTTPException 401 ''invalid_postal_signature''))
               | _ \<Rightarrow> Inl (HTTPException 401 ''invalid_postal_signature'')))"

text \<open>
  \<open>float(s)\<close> on text: an optional sign, then a word for infinity or NaN, or digits with an optional
  fraction and exponent. The value is exact; one beyond the range of a double is infinite.
\<close>

definition signed_part :: "string \<Rightarrow> bool \<times> string" where
  "signed_part s = (if starts_with ''-'' s then (True, drop 1 s)
                    else if starts_with ''+'' s then (False, drop 1 s) else (False, s))"

definition mantissa_value :: "string \<Rightarrow> rat option" where
  "mantissa_value s =
     (let whole = before (\<lambda>c. c = CHR ''.'') s;
          fraction = after_first (CHR ''.'') s;
          part = (\<lambda>p. if p = [] then Some 0 else digits_value 0 False p)
      in if whole = [] \<and> fraction = [] then None
         else (case (part whole, part fraction) of
                 (Some w, Some f) \<Rightarrow>
                   Some (of_nat w + of_nat f / 10 ^ length (filter is_digit fraction))
               | _ \<Rightarrow> None))"

definition exponent_value :: "string \<Rightarrow> int option" where
  "exponent_value s =
     (case signed_part s of (neg, u) \<Rightarrow>
        map_option (\<lambda>n. if neg then - int n else int n) (digits_value 0 False u))"

definition decimal_value :: "string \<Rightarrow> rat option" where
  "decimal_value s =
     (let head = before (\<lambda>c. c = CHR ''e'') s
      in case mantissa_value head of
           None \<Rightarrow> None
         | Some m \<Rightarrow>
             (if CHR ''e'' \<notin> set s then Some m
              else map_option (\<lambda>x. if 0 \<le> x then m * 10 ^ nat x else m / 10 ^ nat (- x))
                     (exponent_value (after_first (CHR ''e'') s))))"

definition float_of_string :: "string \<Rightarrow> pyfloat option" where
  "float_of_string s =
     (case signed_part (lower (strip s)) of (neg, u) \<Rightarrow>
        (if u \<in> set [''inf'', ''infinity''] then Some (if neg then NegInf else PosInf)
         else if u = ''nan'' then Some NaN
         else (case decimal_value u of
                 None \<Rightarrow> None
               | Some x \<Rightarrow>
                   (if of_int DOUBLE_LIMIT \<le> x then Some (if neg then NegInf else PosInf)
                    else Some (Finite (if neg then - x else x))))))"

text \<open>\<open>float(value)\<close>: \<open>TypeError\<close> and \<open>ValueError\<close> are answered 401, an overflow is not caught.\<close>

definition callback_timestamp :: "json \<Rightarrow> pyfloat res" where
  "callback_timestamp v =
     (let invalid = HTTPException 401 ''invalid_postal_timestamp''
      in case v of
           JFloat x \<Rightarrow> Inr x
         | JInt i \<Rightarrow>
             (if DOUBLE_LIMIT \<le> abs i then Inl (OverflowError ''int too large to convert to float'')
              else Inr (Finite (of_int i)))
         | JBool b \<Rightarrow> Inr (Finite (if b then 1 else 0))
         | JStr s \<Rightarrow> (case float_of_string s of None \<Rightarrow> Inl invalid | Some x \<Rightarrow> Inr x)
         | _ \<Rightarrow> Inl invalid)"

text \<open>Outside the window from a day ago to five minutes ahead; no comparison with NaN holds.\<close>

fun outside_window :: "int \<Rightarrow> pyfloat \<Rightarrow> bool" where
  "outside_window t (Finite x) = (of_int t / 1000000 + 300 < x \<or> x < of_int t / 1000000 - 86400)"
| "outside_window t PosInf = True"
| "outside_window t NegInf = True"
| "outside_window t NaN = False"

definition read_callback :: "callback_env \<Rightarrow> string \<Rightarrow> string \<Rightarrow> callback res" where
  "read_callback cv body signature =
     res_bind (verify_postal_signature cv body signature) (\<lambda>_.
       (case cd_loads (cv_codec cv) body of
          Some (JObj raw) \<Rightarrow>
            (let event_id = hook_text (obj_get raw ''uuid'')
             in if event_id = [] then Inl (HTTPException 400 ''event_id_required'')
                else res_bind (callback_timestamp (obj_get raw ''timestamp'')) (\<lambda>ts.
                  if outside_window (cv_now cv) ts then Inl (HTTPException 401 ''expired_postal_event'')
                  else (let event_name = hook_text (obj_get raw ''event'')
                        in case map_of POSTAL_EVENTS event_name of
                             None \<Rightarrow> Inl (HTTPException 422 ''unsupported_postal_event'')
                           | Some kind \<Rightarrow>
                               (case json_obj (json_or (obj_get raw ''payload'') (JObj [])) of
                                  None \<Rightarrow> Inl (HTTPException 422 ''invalid_postal_payload'')
                                | Some payload \<Rightarrow>
                                    (case json_obj (json_or (obj_get payload ''message'')
                                             (json_or (obj_get payload ''original_message'') (JObj []))) of
                                       None \<Rightarrow> Inl (HTTPException 422 ''invalid_postal_payload'')
                                     | Some message \<Rightarrow>
                                         Inr \<lparr>cl_event_id = event_id, cl_timestamp = ts, cl_event_name = event_name,
                                              cl_canonical = kind, cl_raw = raw, cl_payload = payload,
                                              cl_message = message\<rparr>)))))
        | _ \<Rightarrow> Inl (HTTPException 400 ''invalid_json'')))"

section \<open>The callback handler\<close>

definition callback_recipient :: "(string \<times> json) list \<Rightarrow> string" where
  "callback_recipient message =
     (case obj_get message ''to'' of
        JList vs \<Rightarrow> (case vs of [] \<Rightarrow> [] | v # _ \<Rightarrow> hook_text v)
      | v \<Rightarrow> hook_text v)"

fun first_nonempty :: "string list \<Rightarrow> string" where
  "first_nonempty [] = []"
| "first_nonempty [s] = s"
| "first_nonempty (s # t # ss) = (if s = [] then first_nonempty (t # ss) else s)"

text \<open>\<open>datetime.fromtimestamp(x, utc).isoformat()\<close>\<close>

definition occurred_at :: "codec \<Rightarrow> pyfloat \<Rightarrow> string res" where
  "occurred_at c x =
     (case x of
        Finite r \<Rightarrow> Inr (cd_iso c (timedelta_seconds r))
      | NaN \<Rightarrow> Inl (ValueError ''cannot convert float NaN to integer'')
      | _ \<Rightarrow> Inl (OverflowError ''cannot convert float infinity to integer''))"

text \<open>What the handler derives from a callback and its attribution.\<close>

record resolved =
  rs_provider_message_id :: string
  rs_local_message_id :: string
  rs_correlation :: string
  rs_operation_id :: string

definition resolve_ids :: "mail_db \<Rightarrow> callback \<Rightarrow> attribution \<Rightarrow> resolved" where
  "resolve_ids m cl ab =
     (let message = cl_message cl;
          provider_id = first_nonempty [hook_text (obj_get message ''message_id''),
                                        hook_text (obj_get message ''id'')];
          correlation0 = first_nonempty [hook_text (obj_get (cl_payload cl) ''correlation_id''),
                                         callback_tag cl, provider_id, cl_event_id cl];
          local_id = first_nonempty [or_text (ab_local_message_id ab) [], hook_text (obj_get message ''id''),
                                     provider_id, correlation0];
          outbox = find_row (\<lambda>r. eo_tenant_id r = ab_tenant_id ab \<and> eo_message_id r = local_id) (ml_outbox m);
          correlation = (case outbox of None \<Rightarrow> correlation0 | Some r \<Rightarrow> or_text (eo_correlation_id r) correlation0);
          operation = (case outbox of None \<Rightarrow> local_id | Some r \<Rightarrow> or_text (eo_operation_id r) local_id)
      in \<lparr>rs_provider_message_id = provider_id, rs_local_message_id = local_id,
          rs_correlation = correlation, rs_operation_id = operation\<rparr>)"

definition normalized_event ::
  "codec \<Rightarrow> string \<Rightarrow> callback \<Rightarrow> attribution \<Rightarrow> resolved \<Rightarrow> ((string \<times> json) list) res" where
  "normalized_event c body cl ab rs =
     (let kind = cl_canonical cl;
          recipient = callback_recipient (cl_message cl);
          last_part = JStr (after_last (CHR ''.'') kind)
      in res_bind (occurred_at c (cl_timestamp cl)) (\<lambda>occurred.
           Inr [(''event'', JStr kind), (''event_id'', JStr (cl_event_id cl)), (''schema_version'', JStr ''1.0''),
                (''event_version'', JStr ''1.0''), (''tenant_id'', JStr (ab_tenant_id ab)),
                (''operation_id'', JStr (rs_operation_id rs)), (''payload_hash'', JStr (cd_sha256_hex c body)),
                (''message_id'', JStr (rs_local_message_id rs)),
                (''provider_message_id'', JStr (first_nonempty [rs_provider_message_id rs, rs_local_message_id rs])),
                (''stream'', JStr ''transactional''), (''correlation_id'', JStr (rs_correlation rs)),
                (''causation_id'', JStr (rs_correlation rs)),
                (''recipient_reference'', JStr (''sha256:'' @ cd_sha256_hex c (lower recipient))),
                (''recipient'', JStr recipient), (''sender'', obj_get (cl_message cl) ''from''),
                (''provider'', JStr ''postal''), (''status'', json_or (obj_get (cl_payload cl) ''status'') last_part),
                (''canonical_status'', JStr (status_of_event kind)), (''occurred_at'', JStr occurred),
                (''attempt'', JInt 1),
                (''metadata'', JObj [(''provider_event'', JStr (cl_event_name cl)),
                                     (''provider_message_token'', obj_get (cl_message cl) ''token''),
                                     (''tenant_attribution'', JStr (ab_source ab))])]))"

text \<open>The stored event, created when it is new, with one attempt more.\<close>

definition record_postal_event ::
  "string \<Rightarrow> string \<Rightarrow> string \<Rightarrow> string \<Rightarrow> string \<Rightarrow> jtext \<Rightarrow> int \<Rightarrow> callback_db \<Rightarrow> callback_db" where
  "record_postal_event eid event_type correlation mid tid payload t db =
     (case get_postal_event db eid of
        Some _ \<Rightarrow> update_postal_event eid (\<lambda>r. r\<lparr>pe_attempts := pe_attempts r + 1, pe_updated_at := t\<rparr>) db
      | None \<Rightarrow>
          db\<lparr>cb_events := cb_events db @
               [\<lparr>pe_id = eid, pe_event_type = event_type, pe_correlation_id = correlation, pe_message_id = mid,
                 pe_tenant_id = tid, pe_payload = payload, pe_state = ''pending'', pe_attempts = 1,
                 pe_last_error = None, pe_created_at = t, pe_updated_at = t\<rparr>]\<rparr>)"

definition MAX_EMISSIONS :: int where "MAX_EMISSIONS = 5"

text \<open>The answer of the middleware, stored; the row is read again after the call.\<close>

definition finish_emission :: "string \<Rightarrow> bool \<Rightarrow> json \<Rightarrow> callback_db \<Rightarrow> json res \<times> callback_db" where
  "finish_emission eid emitted response db =
     (case get_postal_event db eid of
        None \<Rightarrow> (Inl (AttributeError ''state''), db)
      | Some item \<Rightarrow>
          (if emitted
           then (Inr response, update_postal_event eid (\<lambda>r. r\<lparr>pe_state := ''delivered'', pe_last_error := None\<rparr>) db)
           else (Inl (HTTPException 503 ''middleware_delivery_pending''),
                 update_postal_event eid
                   (\<lambda>r. r\<lparr>pe_state := (if MAX_EMISSIONS \<le> pe_attempts item then ''dlq'' else ''retry''),
                          pe_last_error := Some ''middleware_delivery_failed''\<rparr>) db)))"

text \<open>From the first commit on: persist, keep the normalised payload, emit.\<close>

definition deliver_callback ::
  "callback_env \<Rightarrow> emission \<Rightarrow> (callback_db \<Rightarrow> callback_db) \<Rightarrow> lifecycle_event \<Rightarrow> (string \<times> json) list \<Rightarrow>
     callback_db \<Rightarrow> json res \<times> callback_db" where
  "deliver_callback cv emit meanwhile lv normalized db1 =
     (case persist_email_event cv lv db1 of
        Inl err \<Rightarrow> (Inl err, db1)
      | Inr (_, db2) \<Rightarrow>
          (let eid = lv_event_id lv;
               db3 = update_postal_event eid (\<lambda>r. r\<lparr>pe_payload := JText (sort_doc (JObj normalized))\<rparr>) db2
           in case emit (''klyrow.'' @ lv_event_type lv)
                     (obj_set ''customer_id'' (JStr (lv_tenant_id lv)) normalized) of
                Inl err \<Rightarrow> (Inl err, meanwhile db3)
              | Inr emitted \<Rightarrow>
                  finish_emission eid emitted (JObj [(''accepted'', JBool True)]) (meanwhile db3)))"

definition callback_lifecycle ::
  "callback \<Rightarrow> attribution \<Rightarrow> resolved \<Rightarrow> (string \<times> json) list \<Rightarrow> jtext \<Rightarrow> lifecycle_event" where
  "callback_lifecycle cl ab rs normalized payload =
     \<lparr>lv_event_id = cl_event_id cl, lv_tenant_id = ab_tenant_id ab, lv_message_id = rs_local_message_id rs,
      lv_correlation_id = rs_correlation rs, lv_event_type = cl_canonical cl,
      lv_recipient = obj_get normalized ''recipient'', lv_raw_status = obj_get normalized ''status'',
      lv_payload = payload\<rparr>"

definition postal_native_hook ::
  "callback_env \<Rightarrow> emission \<Rightarrow> (callback_db \<Rightarrow> callback_db) \<Rightarrow> string \<Rightarrow> string \<Rightarrow> callback_db \<Rightarrow>
     json res \<times> callback_db" where
  "postal_native_hook cv emit meanwhile body signature db =
     (let c = cv_codec cv
      in case read_callback cv body signature of
           Inl err \<Rightarrow> (Inl err, db)
         | Inr cl \<Rightarrow>
             (case resolve_attribution (cv_env cv) db cl of
                Inl err \<Rightarrow> (Inl err, db)
              | Inr ab \<Rightarrow>
                  (let eid = cl_event_id cl;
                       existing = get_postal_event db eid
                   in if existing \<noteq> None \<and> pe_state (the existing) = ''delivered''
                      then (Inr (JObj [(''accepted'', JBool True), (''duplicate'', JBool True)]), db)
                      else
                        (let rs = resolve_ids (cb_mail db) cl ab
                         in case normalized_event c body cl ab rs of
                              Inl err \<Rightarrow> (Inl err, db)
                            | Inr normalized \<Rightarrow>
                                (let document = JText (sort_doc (JObj normalized));
                                     db1 = record_postal_event eid (cl_canonical cl) (rs_correlation rs)
                                             (rs_local_message_id rs) (ab_tenant_id ab) document (cv_now cv) db;
                                     payload = (case get_postal_event db1 eid of
                                                  None \<Rightarrow> document | Some item \<Rightarrow> pe_payload item);
                                     lv = callback_lifecycle cl ab rs normalized payload
                                 in deliver_callback cv emit meanwhile lv normalized db1)))))"

section \<open>The signed bridge hook\<close>

definition removeprefix :: "string \<Rightarrow> string \<Rightarrow> string" where
  "removeprefix p s = (if starts_with p s then drop (length p) s else s)"

text \<open>
  \<open>hmac.compare_digest\<close> of the expected signature; then the identifier is remembered and the event
  persisted and emitted. A tenant that is no text fails at the database, as does one that is absent.
\<close>

definition verify_bridge :: "callback_env \<Rightarrow> string \<Rightarrow> string \<Rightarrow> string \<Rightarrow> string \<Rightarrow> unit res" where
  "verify_bridge cv body timestamp event_id signature =
     res_bind (runtime_secret (cv_files cv) (cv_env cv) ''KLYROW_WEBHOOK_SECRET'') (\<lambda>secret.
       (case int_of_string timestamp of
          None \<Rightarrow> Inl (HTTPException 401 ''invalid_timestamp'')
        | Some ts \<Rightarrow>
            (if 300 * 1000000 < abs (cv_now cv - ts * 1000000) then Inl (HTTPException 401 ''expired_signature'')
             else if secret = [] \<or>
                     cv_hmac cv secret (timestamp @ ''.'' @ event_id @ ''.'' @ body) \<noteq> signature
             then Inl (HTTPException 401 ''invalid_signature'')
             else Inr ())))"

definition finish_bridge ::
  "callback_env \<Rightarrow> emission \<Rightarrow> (callback_db \<Rightarrow> callback_db) \<Rightarrow> string \<Rightarrow> string \<Rightarrow> string \<Rightarrow> string \<Rightarrow> string \<Rightarrow>
     (string \<times> json) list \<Rightarrow> json \<Rightarrow> callback_db \<Rightarrow> json res \<times> callback_db" where
  "finish_bridge cv emit meanwhile eid event_type local_type correlation mid payload tenant db =
     (let normalized = obj_update payload [(''event_id'', JStr eid), (''customer_id'', tenant),
                         (''canonical_status'', JStr (status_of_event local_type))];
          document = JText (sort_doc (JObj normalized))
      in case (get_postal_event db eid, json_string tenant) of
           (None, None) \<Rightarrow> (Inl (IntegrityError ''postal_events.tenant_id''), db)
         | (_, tid) \<Rightarrow>
             (let db1 = record_postal_event eid local_type correlation mid
                          (case tid of None \<Rightarrow> [] | Some x \<Rightarrow> x) document (cv_now cv) db
              in case emit event_type normalized of
                   Inl err \<Rightarrow> (Inl err, meanwhile db1)
                 | Inr emitted \<Rightarrow>
                     finish_emission eid emitted
                       (JObj [(''accepted'', JBool True), (''duplicate'', JBool False)]) (meanwhile db1)))"

definition postal_hook ::
  "callback_env \<Rightarrow> emission \<Rightarrow> (callback_db \<Rightarrow> callback_db) \<Rightarrow> string \<Rightarrow> string \<Rightarrow> string \<Rightarrow> string \<Rightarrow>
     callback_db \<Rightarrow> json res \<times> callback_db" where
  "postal_hook cv emit meanwhile body timestamp eid signature db =
     (case verify_bridge cv body timestamp eid signature of
        Inl err \<Rightarrow> (Inl err, db)
      | Inr _ \<Rightarrow>
          (if eid \<in> set (cb_replays db)
           then (Inr (JObj [(''accepted'', JBool True), (''duplicate'', JBool True)]), db)
           else
             (case cd_loads (cv_codec cv) body of
                None \<Rightarrow> (Inl (ValueError ''JSONDecodeError''), db)
              | Some doc \<Rightarrow>
                  (case json_obj doc of
                     None \<Rightarrow> (Inl (AttributeError ''get''), db)
                   | Some payload \<Rightarrow>
                       (let g = obj_get payload;
                            txt = (\<lambda>v. json_str (cv_repr cv) (json_or v (JStr [])));
                            mid = txt (g ''message_id'');
                            tenant = g ''tenant_id'';
                            local_event = removeprefix ''klyrow.'' (txt (g ''event''))
                        in case map_of SMTP_EVENT_MAP local_event of
                             None \<Rightarrow> (Inl (HTTPException 422 ''unsupported_postal_event''), db)
                           | Some event_type \<Rightarrow>
                               (let local_type = removeprefix ''klyrow.'' event_type;
                                    correlation = json_str (cv_repr cv)
                                      (json_or (g ''correlation_id'') (json_or (JStr mid) (JStr eid)));
                                    db1 = db\<lparr>cb_replays := cb_replays db @ [eid]\<rparr>;
                                    go = finish_bridge cv emit meanwhile eid event_type local_type correlation mid
                                           payload tenant
                                in if \<not> truthy tenant then go db1
                                   else (case json_string tenant of
                                           None \<Rightarrow> (Inl (TypeError ''tenant_id''), db)
                                         | Some tid \<Rightarrow>
                                             (case persist_email_event cv
                                                     \<lparr>lv_event_id = eid, lv_tenant_id = tid, lv_message_id = mid,
                                                      lv_correlation_id = correlation, lv_event_type = local_type,
                                                      lv_recipient = g ''recipient'', lv_raw_status = g ''status'',
                                                      lv_payload = JText doc\<rparr> db1 of
                                                Inl err \<Rightarrow> (Inl err, db)
                                              | Inr (_, db2) \<Rightarrow> go db2))))))))"

section \<open>The retry loop\<close>

definition retry_selection :: "callback_db \<Rightarrow> postal_event_row list" where
  "retry_selection db =
     select_rows pe_updated_at (\<lambda>r. pe_state r = ''retry'' \<and> pe_attempts r < MAX_EMISSIONS) 20 (cb_events db)"

definition retry_wait :: "postal_event_row \<Rightarrow> int" where
  "retry_wait r = min 60 (2 ^ nat (max (pe_attempts r) 1)) * 1000000"

text \<open>The outcome of one emission: ignored when the row is no longer to be retried.\<close>

definition retry_outcome :: "int \<Rightarrow> bool \<Rightarrow> postal_event_row \<Rightarrow> postal_event_row" where
  "retry_outcome t emitted r =
     (let n = pe_attempts r + 1;
          r1 = r\<lparr>pe_attempts := n, pe_updated_at := t\<rparr>
      in if emitted then r1\<lparr>pe_state := ''delivered'', pe_last_error := None\<rparr>
         else if MAX_EMISSIONS \<le> n
         then r1\<lparr>pe_state := ''dlq'', pe_last_error := Some ''middleware_delivery_failed''\<rparr>
         else r1)"

definition settle_retry :: "int \<Rightarrow> string \<Rightarrow> bool \<Rightarrow> callback_db \<Rightarrow> callback_db" where
  "settle_retry t eid emitted db =
     (case get_postal_event db eid of
        None \<Rightarrow> db
      | Some item \<Rightarrow>
          (if pe_state item \<noteq> ''retry'' then db else update_postal_event eid (retry_outcome t emitted) db))"

text \<open>An exception ends the round; the loop logs it and starts the next one.\<close>

fun retry_round ::
  "int \<Rightarrow> emission \<Rightarrow> (callback_db \<Rightarrow> callback_db) \<Rightarrow> postal_event_row list \<Rightarrow> callback_db \<Rightarrow>
     exn option \<times> callback_db" where
  "retry_round t emit meanwhile [] db = (None, db)"
| "retry_round t emit meanwhile (r # rs) db =
     (if t - pe_updated_at r < retry_wait r then retry_round t emit meanwhile rs db
      else
        (case pe_payload r of
           BadText _ \<Rightarrow> (Some (ValueError ''JSONDecodeError''), db)
         | JText doc \<Rightarrow>
             (case map_of SMTP_EVENT_MAP (pe_event_type r) of
                None \<Rightarrow> (Some (RuntimeError ''undeclared_postal_event''), db)
              | Some event_type \<Rightarrow>
                  (case json_obj doc of
                     None \<Rightarrow> (Some (TypeError ''object is not a mapping''), db)
                   | Some payload \<Rightarrow>
                       (case emit event_type (obj_set ''customer_id'' (JStr (pe_tenant_id r)) payload) of
                          Inl err \<Rightarrow> (Some err, meanwhile db)
                        | Inr emitted \<Rightarrow>
                            retry_round t emit meanwhile rs
                              (settle_retry t (pe_id r) emitted (meanwhile db)))))))"

definition postal_retry_tick :: "int \<Rightarrow> emission \<Rightarrow> (callback_db \<Rightarrow> callback_db) \<Rightarrow> callback_db \<Rightarrow> exn option \<times> callback_db" where
  "postal_retry_tick t emit meanwhile db = retry_round t emit meanwhile (retry_selection db) db"

section \<open>Lemmas\<close>

lemma get_postal_event_mail [simp]:
  "get_postal_event (db\<lparr>cb_mail := m\<rparr>) = get_postal_event db"
  "get_postal_event (db\<lparr>cb_audits := a\<rparr>) = get_postal_event db"
  "get_postal_event (db\<lparr>cb_replays := r\<rparr>) = get_postal_event db"
  by (simp_all add: get_postal_event_def fun_eq_iff)

lemma update_postal_event_simps [simp]:
  "cb_mail (update_postal_event eid f db) = cb_mail db"
  "cb_mappings (update_postal_event eid f db) = cb_mappings db"
  "cb_audits (update_postal_event eid f db) = cb_audits db"
  "cb_replays (update_postal_event eid f db) = cb_replays db"
  "cb_events (update_postal_event eid f db) = update_rows (\<lambda>r. pe_id r = eid) f (cb_events db)"
  by (simp_all add: update_postal_event_def)

lemma record_postal_event_simps [simp]:
  "cb_mail (record_postal_event eid k co mid tid p t db) = cb_mail db"
  "cb_mappings (record_postal_event eid k co mid tid p t db) = cb_mappings db"
  "cb_audits (record_postal_event eid k co mid tid p t db) = cb_audits db"
  "cb_replays (record_postal_event eid k co mid tid p t db) = cb_replays db"
  by (simp_all add: record_postal_event_def split: option.split)

lemma get_record_postal_event:
  "get_postal_event (record_postal_event eid k co mid tid p t db) eid =
     Some (case get_postal_event db eid of
             Some r \<Rightarrow> r\<lparr>pe_attempts := pe_attempts r + 1, pe_updated_at := t\<rparr>
           | None \<Rightarrow> \<lparr>pe_id = eid, pe_event_type = k, pe_correlation_id = co, pe_message_id = mid,
                     pe_tenant_id = tid, pe_payload = p, pe_state = ''pending'', pe_attempts = 1,
                     pe_last_error = None, pe_created_at = t, pe_updated_at = t\<rparr>)"
proof (cases "get_postal_event db eid")
  case None
  then show ?thesis by (simp add: record_postal_event_def get_postal_event_def find_row_append)
next
  case (Some r)
  have "find_row (\<lambda>r. pe_id r = eid) (update_rows (\<lambda>r. pe_id r = eid)
      (\<lambda>r. r\<lparr>pe_attempts := pe_attempts r + 1, pe_updated_at := t\<rparr>) (cb_events db)) =
      Some (r\<lparr>pe_attempts := pe_attempts r + 1, pe_updated_at := t\<rparr>)"
    using Some by (auto simp: get_postal_event_def find_update_rows dest: find_row_Some)
  with Some show ?thesis
    by (simp add: record_postal_event_def) (simp add: get_postal_event_def)
qed

text \<open>What \<open>finish_emission\<close> and the persisting step keep.\<close>

lemma finish_emission_simps [simp]:
  "cb_mail (snd (finish_emission eid d resp db)) = cb_mail db"
  "cb_replays (snd (finish_emission eid d resp db)) = cb_replays db"
  "cb_audits (snd (finish_emission eid d resp db)) = cb_audits db"
  "cb_mappings (snd (finish_emission eid d resp db)) = cb_mappings db"
  by (auto simp: finish_emission_def split: option.split)

lemma persist_email_event_events:
  "persist_email_event cv lv db = Inr (status, db') \<Longrightarrow>
     cb_events db' = cb_events db \<and> cb_replays db' = cb_replays db \<and> cb_mappings db' = cb_mappings db"
  by (auto simp: persist_email_event_def res_bind_Inr split: prod.splits)

text \<open>The two statuses that the callbacks for opens and clicks lead to are not canonical.\<close>

lemma interaction_status:
  assumes "k \<in> set [''email.opened'', ''email.clicked'']"
  shows "status_of_event k \<notin> set CANONICAL_SMTP_STATUSES" "status_of_event k \<noteq> ''bounced''"
proof -
  have "status_of_event ''email.opened'' = ''opened''" "status_of_event ''email.clicked'' = ''clicked''"
    by code_simp+
  then show "status_of_event k \<notin> set CANONICAL_SMTP_STATUSES" "status_of_event k \<noteq> ''bounced''"
    using assms by (auto simp: CANONICAL_SMTP_STATUSES_def)
qed

lemma interaction_raises:
  assumes "lv_event_type lv \<in> set [''email.opened'', ''email.clicked'']" "local_message (cb_mail db) lv \<noteq> None"
  shows "persist_email_event cv lv db = Inl (RuntimeError ''noncanonical_message_status'')"
proof -
  obtain x where x: "local_message (cb_mail db) lv = Some x" using assms(2) by auto
  have g: "get_message (cb_mail db) (cm_id x) \<noteq> None"
    using x by (auto simp: local_message_def get_message_def find_row_None split: option.splits dest: find_row_Some)
  from interaction_status [OF assms(1)] x g show ?thesis
    by (auto simp: persist_email_event_def event_status_def apply_status_def Let_def mark_message_def
        set_core_message_status_def)
qed

lemma read_callback_canonical:
  "read_callback cv body signature = Inr cl \<Longrightarrow> map_of POSTAL_EVENTS (cl_event_name cl) = Some (cl_canonical cl)"
  by (auto simp: read_callback_def Let_def res_bind_Inr split: option.splits json.splits if_splits)

lemma normalized_event_finite:
  assumes "cl_timestamp cl = Finite x"
  shows "\<exists>n. normalized_event c body cl ab rs = Inr n"
  using assms by (auto simp: normalized_event_def occurred_at_def Let_def)

text \<open>The handler once the callback is read, attributed and not yet delivered.\<close>

lemma native_hook_proceeds:
  assumes "read_callback cv body signature = Inr cl" "resolve_attribution (cv_env cv) db cl = Inr ab"
    and "\<And>r. get_postal_event db (cl_event_id cl) = Some r \<Longrightarrow> pe_state r \<noteq> ''delivered''"
    and "normalized_event (cv_codec cv) body cl ab (resolve_ids (cb_mail db) cl ab) = Inr n"
  obtains payload db1 where
    "postal_native_hook cv emit meanwhile body signature db =
       deliver_callback cv emit meanwhile
         (callback_lifecycle cl ab (resolve_ids (cb_mail db) cl ab) n payload) n db1"
    "db1 = record_postal_event (cl_event_id cl) (cl_canonical cl) (rs_correlation (resolve_ids (cb_mail db) cl ab))
        (rs_local_message_id (resolve_ids (cb_mail db) cl ab)) (ab_tenant_id ab) (JText (sort_doc (JObj n)))
        (cv_now cv) db"
  using assms
  by (fastforce simp: postal_native_hook_def Let_def simp del: sort_doc.simps)

section \<open>Properties\<close>

text \<open>
  Defect: the callback of an opened or clicked message that the gateway knows cannot be processed.
  Its status, "opened" or "clicked", is not among the canonical ones, so the handler answers with an
  internal error after it has recorded the attempt. Nothing of the mail state changes, the middleware
  is never told, whatever it would answer, and the stored event stays pending, where the retry loop
  does not look; a redelivery by Postal only counts another attempt.
\<close>

theorem interaction_callback_stranded:
  assumes "read_callback cv body signature = Inr cl"
    and "cl_event_name cl \<in> set [''MessageLoaded'', ''MessageLinkClicked'']"
    and "resolve_attribution (cv_env cv) db cl = Inr ab" and "cl_timestamp cl = Finite x"
    and "get_message (cb_mail db) (rs_local_message_id (resolve_ids (cb_mail db) cl ab)) \<noteq> None"
    and "case get_postal_event db (cl_event_id cl) of None \<Rightarrow> n = 0 | Some r \<Rightarrow> pe_state r = ''pending'' \<and> n = pe_attempts r"
  shows "\<exists>db' item. postal_native_hook cv emit meanwhile body signature db =
      (Inl (RuntimeError ''noncanonical_message_status''), db') \<and> cb_mail db' = cb_mail db \<and>
      get_postal_event db' (cl_event_id cl) = Some item \<and> pe_state item = ''pending'' \<and>
      pe_attempts item = n + 1 \<and> item \<notin> set (retry_selection db')"
proof -
  let ?rs = "resolve_ids (cb_mail db) cl ab"
  obtain doc where doc: "normalized_event (cv_codec cv) body cl ab ?rs = Inr doc"
    using normalized_event_finite [OF assms(4)] by blast
  have nd: "pe_state r \<noteq> ''delivered''" if "get_postal_event db (cl_event_id cl) = Some r" for r
    using assms(6) that by simp
  obtain payload db1 where hook: "postal_native_hook cv emit meanwhile body signature db =
       deliver_callback cv emit meanwhile (callback_lifecycle cl ab ?rs doc payload) doc db1"
    and db1: "db1 = record_postal_event (cl_event_id cl) (cl_canonical cl) (rs_correlation ?rs)
        (rs_local_message_id ?rs) (ab_tenant_id ab) (JText (sort_doc (JObj doc))) (cv_now cv) db"
    by (rule native_hook_proceeds [OF assms(1,3) nd doc])
  have kind: "cl_canonical cl \<in> set [''email.opened'', ''email.clicked'']"
    using read_callback_canonical [OF assms(1)] assms(2) by (auto simp: POSTAL_EVENTS_def)
  have "persist_email_event cv (callback_lifecycle cl ab ?rs doc payload) db1 =
      Inl (RuntimeError ''noncanonical_message_status'')"
    using kind assms(5) by (intro interaction_raises) (auto simp: callback_lifecycle_def local_message_def db1)
  then have "postal_native_hook cv emit meanwhile body signature db =
      (Inl (RuntimeError ''noncanonical_message_status''), db1)"
    using hook by (simp add: deliver_callback_def)
  moreover obtain item where i: "get_postal_event db1 (cl_event_id cl) = Some item"
      "pe_state item = ''pending''" "pe_attempts item = n + 1"
    using assms(6) unfolding db1 get_record_postal_event by (auto split: option.splits)
  moreover have "item \<notin> set (retry_selection db1)"
    using i(2) by (auto simp: retry_selection_def dest: select_rows_in)
  ultimately show ?thesis using db1 by auto
qed

lemma suppress_recipient_record:
  assumes "suppress_recipient sid lv ''bounced'' m = Inr m'" and "lv_recipient lv = JStr r"
  shows "\<exists>x. suppression_record (guard_db.truncate m') (lv_tenant_id lv) r = Some x \<and> sp_reason x = ''bounced''"
proof -
  let ?key = "\<lambda>x. (sp_tenant_id x, sp_email x)"
  let ?P = "\<lambda>x. ?key x = (lv_tenant_id lv, lower r)"
  have eq: "(\<lambda>x. sp_tenant_id x = lv_tenant_id lv \<and> sp_email x = lower r) = ?P" by auto
  show ?thesis
  proof (cases "find_row ?P (gd_suppressions m)")
    case None
    then show ?thesis using assms
      by (auto simp: suppress_recipient_def suppression_record_def eq find_row_append guard_db.defs
            simp del: prod.inject)
  next
    case (Some found)
    have "find_row ?P (gd_suppressions m') = Some (found\<lparr>sp_reason := ''bounced''\<rparr>)"
    proof (cases "sp_reason found = ''bounced''")
      case True
      then have "m' = m" "found\<lparr>sp_reason := ''bounced''\<rparr> = found"
        using assms Some by (auto simp: suppress_recipient_def eq simp del: prod.inject)
      then show ?thesis using Some by simp
    next
      case False
      then have "m' = m\<lparr>gd_suppressions := update_rows (\<lambda>r. sp_id r = sp_id found)
          (\<lambda>r. r\<lparr>sp_reason := ''bounced''\<rparr>) (gd_suppressions m)\<rparr>"
        using assms Some by (auto simp: suppress_recipient_def eq simp del: prod.inject)
      then show ?thesis using Some by (simp add: find_update_rows del: prod.inject)
    qed
    then show ?thesis by (simp add: suppression_record_def eq guard_db.defs del: prod.inject)
  qed
qed

lemma persist_bounce:
  assumes "persist_email_event cv lv db = Inr (status, db')" and "status_of_event (lv_event_type lv) = ''bounced''"
    and "classify_bounce (lv_raw_status lv) = Inr (''bounced'', True)" and "lv_recipient lv = JStr r" "r \<noteq> []"
  shows "\<exists>x. suppression_record (guard_db.truncate (cb_mail db')) (lv_tenant_id lv) r = Some x \<and>
    sp_reason x = ''bounced''"
proof -
  obtain m3 where "suppress_recipient (cv_suppression_id cv) lv ''bounced'' m3 = Inr (cb_mail db')"
    using assms by (auto simp: persist_email_event_def event_status_def res_bind_Inr split: prod.splits)
  from suppress_recipient_record [OF this assms(4)] show ?thesis .
qed

text \<open>A hard suppression record closes the guard chain for its recipient on every stream.\<close>

lemma suppressed_not_authorized:
  assumes "suppression_record db t r = Some x" "sp_reason x \<in> set HARD_SUPPRESSION_REASONS" "lower r' = lower r"
  shows "authorize_send db repr_of e current t sender r' s sb c topic \<noteq> Inr a"
  using assms by (auto simp: authorize_send_Inr enforce_suppression_ok suppression_record_def)

lemma deliver_callback_persists:
  assumes "deliver_callback cv emit (\<lambda>d. d) lv n db1 = (res, db')"
    and "res = Inr (JObj [(''accepted'', JBool True)]) \<or> res = Inl (HTTPException 503 ''middleware_delivery_pending'')"
    and "\<And>e. persist_email_event cv lv db1 = Inl e \<Longrightarrow> e \<noteq> HTTPException 503 ''middleware_delivery_pending''"
  shows "\<exists>status db2. persist_email_event cv lv db1 = Inr (status, db2) \<and> cb_mail db' = cb_mail db2"
proof (cases "persist_email_event cv lv db1")
  case (Inr p)
  then show ?thesis using assms
    by (auto simp: deliver_callback_def Let_def split: sum.splits prod.splits)
       (metis finish_emission_simps(1) snd_conv update_postal_event_simps(1))+
qed (use assms in \<open>auto simp: deliver_callback_def\<close>)

lemma status_text_Inl: "status_text raw = Inl e \<Longrightarrow> e = AttributeError ''lower''"
  by (simp add: status_text_def split: option.splits if_splits)

lemma reputation_signal_Inl: "reputation_signal raw = Inl e \<Longrightarrow> e = AttributeError ''lower''"
  by (auto simp: reputation_signal_def res_bind_Inl dest: status_text_Inl)

lemma classify_bounce_Inl: "classify_bounce raw = Inl e \<Longrightarrow> e = AttributeError ''lower''"
  unfolding classify_bounce_def res_bind_Inl
  by (elim disjE exE conjE) (simp_all add: status_text_Inl Let_def split: if_splits)

lemma mark_message_Inl: "mark_message mid status m = Inl e \<Longrightarrow> e = RuntimeError ''noncanonical_message_status''"
  by (simp add: mark_message_def set_core_message_status_def split: option.splits if_splits)

lemma suppress_recipient_Inl: "suppress_recipient sid lv status m = Inl e \<Longrightarrow> e = AttributeError ''lower''"
  by (simp add: suppress_recipient_def Let_def split: option.splits if_splits)

lemmas callback_raises =
  reputation_signal_Inl classify_bounce_Inl mark_message_Inl suppress_recipient_Inl

lemma persist_email_event_Inl:
  assumes "persist_email_event cv lv db = Inl e"
  shows "e = AttributeError ''lower'' \<or> e = RuntimeError ''noncanonical_message_status''"
  using assms unfolding persist_email_event_def
  by (auto simp: res_bind_Inl event_status_def Let_def apply_status_def record_mail_event_def
      split: if_splits option.splits dest!: callback_raises)

lemma normalized_event_fields:
  assumes "normalized_event c body cl ab rs = Inr n"
  shows "obj_get n ''recipient'' = JStr (callback_recipient (cl_message cl))"
    and "obj_get n ''status'' =
      json_or (obj_get (cl_payload cl) ''status'') (JStr (after_last (CHR ''.'') (cl_canonical cl)))"
    and "obj_get n ''tenant_id'' = JStr (ab_tenant_id ab)"
  using assms by (auto simp: normalized_event_def Let_def res_bind_Inr obj_get_def)

lemma native_hook_undelivered:
  assumes "postal_native_hook cv emit meanwhile body signature db = (res, db')"
    and "read_callback cv body signature = Inr cl" "resolve_attribution (cv_env cv) db cl = Inr ab"
    and "res \<noteq> Inr (JObj [(''accepted'', JBool True), (''duplicate'', JBool True)])"
  shows "\<And>r. get_postal_event db (cl_event_id cl) = Some r \<Longrightarrow> pe_state r \<noteq> ''delivered''"
  using assms by (auto simp: postal_native_hook_def Let_def)

text \<open>
  C20. A hard bounce closes the address: when the callback of a bounce is answered, whether the
  middleware took the event or its delivery is still pending, then the attributed tenant cannot send
  to that recipient any more, in whatever case the address is written, on any stream and under any
  other circumstances; the guard chain of the send path refuses it.
\<close>

theorem bounce_blocks_next_send:
  assumes "postal_native_hook cv emit (\<lambda>d. d) body signature db = (res, db')"
    and "res = Inr (JObj [(''accepted'', JBool True)]) \<or> res = Inl (HTTPException 503 ''middleware_delivery_pending'')"
    and "read_callback cv body signature = Inr cl" "cl_canonical cl = ''email.bounced''"
    and "resolve_attribution (cv_env cv) db cl = Inr ab"
    and "classify_bounce (json_or (obj_get (cl_payload cl) ''status'') (JStr ''bounced'')) = Inr (''bounced'', True)"
    and "callback_recipient (cl_message cl) \<noteq> []" "lower r = lower (callback_recipient (cl_message cl))"
  shows "authorize_send (guard_db.truncate (cb_mail db')) repr_of e current (ab_tenant_id ab) sender r stream
    sandbox campaign topic \<noteq> Inr a"
proof -
  let ?rs = "resolve_ids (cb_mail db) cl ab"
  have nd: "pe_state r \<noteq> ''delivered''" if "get_postal_event db (cl_event_id cl) = Some r" for r
    using native_hook_undelivered [OF assms(1,3,5) _ that] assms(2) by auto
  have l: "after_last (CHR ''.'') ''email.bounced'' = ''bounced''" "status_of_event ''email.bounced'' = ''bounced''"
    by code_simp+
  show ?thesis
  proof (cases "normalized_event (cv_codec cv) body cl ab ?rs")
    case (Inl err)
    then have "err \<noteq> HTTPException 503 ''middleware_delivery_pending''"
      by (auto simp: normalized_event_def Let_def res_bind_Inl occurred_at_def split: pyfloat.splits)
    moreover have "postal_native_hook cv emit (\<lambda>d. d) body signature db = (Inl err, db)"
      using assms(3,5) Inl nd by (auto simp: postal_native_hook_def Let_def)
    ultimately show ?thesis using assms(1,2) by auto
  next
    case (Inr n)
    obtain payload db1 where "postal_native_hook cv emit (\<lambda>d. d) body signature db =
        deliver_callback cv emit (\<lambda>d. d) (callback_lifecycle cl ab ?rs n payload) n db1"
      by (rule native_hook_proceeds [OF assms(3,5) nd Inr])
    then have "deliver_callback cv emit (\<lambda>d. d) (callback_lifecycle cl ab ?rs n payload) n db1 = (res, db')"
      using assms(1) by simp
    from deliver_callback_persists [OF this assms(2)] obtain status db2 where
        p: "persist_email_event cv (callback_lifecycle cl ab ?rs n payload) db1 = Inr (status, db2)"
          "cb_mail db' = cb_mail db2"
      by (auto dest!: persist_email_event_Inl)
    obtain x where "suppression_record (guard_db.truncate (cb_mail db')) (ab_tenant_id ab)
        (callback_recipient (cl_message cl)) = Some x" "sp_reason x = ''bounced''"
      using persist_bounce [OF p(1), of "callback_recipient (cl_message cl)"] assms(4,6,7)
        normalized_event_fields [OF Inr] l p(2) by (auto simp: callback_lifecycle_def)
    then show ?thesis using suppressed_not_authorized assms(8) by (simp add: HARD_SUPPRESSION_REASONS_def)
  qed
qed

section \<open>What a callback may touch\<close>

text \<open>The rows of one tenant that callbacks write, core messages apart.\<close>

definition tenant_slice ::
  "string \<Rightarrow> callback_db \<Rightarrow> provider_message_row list \<times> suppression_row list \<times>
     webmail_row list \<times> mail_event_row list \<times> audit_row list" where
  "tenant_slice u db =
     (filter (\<lambda>r. pm_tenant_id r = u) (gd_provider_messages (cb_mail db)),
      filter (\<lambda>r. sp_tenant_id r = u) (gd_suppressions (cb_mail db)),
      filter (\<lambda>r. wm_tenant_id r = u) (ml_webmail (cb_mail db)),
      filter (\<lambda>r. me_tenant_id r = u) (ml_events (cb_mail db)),
      filter (\<lambda>r. ad_tenant_id r = u) (cb_audits db))"

text \<open>
  The mail tables as the intake builds them: primary keys, every outbox row belongs to a core message
  of its tenant, and no provider message has the identifier of another tenant's core message. A core
  message need not have an outbox row: in safe mode the intake writes none.
\<close>

definition mail_tables_ok :: "mail_db \<Rightarrow> bool" where
  "mail_tables_ok m \<longleftrightarrow>
     distinct (map cm_id (gd_messages m)) \<and> distinct (map pm_id (gd_provider_messages m)) \<and>
     distinct (map sp_id (gd_suppressions m)) \<and> distinct (map wm_id (ml_webmail m)) \<and>
     (\<forall>i \<in> set (ml_outbox m). \<exists>x \<in> set (gd_messages m).
        cm_id x = eo_message_id i \<and> cm_tenant_id x = eo_tenant_id i) \<and>
     (\<forall>p \<in> set (gd_provider_messages m). \<forall>x \<in> set (gd_messages m).
        pm_id p = cm_id x \<longrightarrow> pm_tenant_id p = cm_tenant_id x)"

definition has_outbox :: "mail_db \<Rightarrow> core_message_row \<Rightarrow> bool" where
  "has_outbox m x \<longleftrightarrow> (\<exists>i \<in> set (ml_outbox m). eo_message_id i = cm_id x)"

text \<open>The rows of a table, of which those that \<open>P\<close> names may have got another status.\<close>

definition status_only :: "(core_message_row \<Rightarrow> bool) \<Rightarrow> core_message_row list \<Rightarrow> core_message_row list \<Rightarrow> bool" where
  "status_only P xs ys \<longleftrightarrow> list_all2 (\<lambda>x y. y = x \<or> P x \<and> y = x\<lparr>cm_status := cm_status y\<rparr>) xs ys"

lemma status_only_refl: "status_only P xs xs"
  by (simp add: status_only_def list.rel_refl_strong)

lemma distinct_key:
  "distinct (map key t) \<Longrightarrow> r \<in> set t \<Longrightarrow> s \<in> set t \<Longrightarrow> key r = key s \<Longrightarrow> r = s"
  by (auto simp: distinct_map inj_on_def)

lemma filter_update_other:
  assumes "\<And>r. r \<in> set t \<Longrightarrow> P r \<Longrightarrow> owner r \<noteq> u \<and> owner (f r) \<noteq> u"
  shows "filter (\<lambda>r. owner r = u) (update_rows P f t) = filter (\<lambda>r. owner r = u) t"
  using assms by (induction t) auto

lemma first_nonempty_in:
  "first_nonempty ss \<noteq> [] \<Longrightarrow> first_nonempty ss \<in> set ss"
  by (induction ss rule: first_nonempty.induct) (auto split: if_splits)

lemma first_nonempty_Nil: "first_nonempty ss = [] \<longleftrightarrow> (\<forall>s \<in> set ss. s = [])"
  by (induction ss rule: first_nonempty.induct) auto

lemma get_message_row: "get_message m k = Some x \<Longrightarrow> x \<in> set (gd_messages m) \<and> cm_id x = k"
  by (auto simp: get_message_def dest: find_row_Some)

lemma outbox_owner:
  assumes "mail_tables_ok m" "i \<in> set (ml_outbox m)" "x \<in> set (gd_messages m)" "eo_message_id i = cm_id x"
  shows "eo_tenant_id i = cm_tenant_id x"
proof -
  obtain y where y: "y \<in> set (gd_messages m)" "cm_id y = eo_message_id i" "cm_tenant_id y = eo_tenant_id i"
    using assms(1,2) by (auto simp: mail_tables_ok_def)
  have "y = x" using assms y by (auto simp: mail_tables_ok_def dest: distinct_key)
  then show ?thesis using y(3) by simp
qed

text \<open>A candidate that names a core message belongs to the message's tenant.\<close>

lemma candidate_owner:
  assumes "mail_tables_ok (cb_mail db)" "c \<in> set (candidates db cl)" "ab_local_message_id c = Some (cm_id x)"
    and "x \<in> set (gd_messages (cb_mail db))"
  shows "ab_tenant_id c = cm_tenant_id x"
proof -
  have "(\<exists>i \<in> set (ml_outbox (cb_mail db)). eo_message_id i = cm_id x \<and> ab_tenant_id c = eo_tenant_id i) \<or>
      (\<exists>y \<in> set (gd_messages (cb_mail db)). cm_id y = cm_id x \<and> ab_tenant_id c = cm_tenant_id y) \<or>
      (\<exists>p \<in> set (gd_provider_messages (cb_mail db)). pm_id p = cm_id x \<and> ab_tenant_id c = pm_tenant_id p)"
    using assms(2,3)
    by (cases "get_message (cb_mail db) (callback_tag cl)")
       (auto simp: candidates_def tag_candidates_def reference_candidates_def outbox_candidates_def
        provider_candidates_def server_candidates_def split: if_splits dest: get_message_row
          intro: bexI [OF _ conjunct1 [OF get_message_row]])
  then show ?thesis
  proof (elim disjE bexE conjE)
    fix y assume "y \<in> set (gd_messages (cb_mail db))" "cm_id y = cm_id x" "ab_tenant_id c = cm_tenant_id y"
    moreover have "y = x" using calculation assms(1,4) by (auto simp: mail_tables_ok_def dest: distinct_key)
    ultimately show ?thesis by simp
  qed (use assms(1,4) outbox_owner in \<open>auto simp: mail_tables_ok_def\<close>)
qed

text \<open>A core message that the callback refers to is among the candidates, through its outbox row.\<close>

lemma reference_candidate:
  assumes "mail_tables_ok (cb_mail db)" "x \<in> set (gd_messages (cb_mail db))" "cm_id x \<in> set (general_references cl)"
    and "has_outbox (cb_mail db) x"
  shows "\<exists>c \<in> set (candidates db cl). ab_tenant_id c = cm_tenant_id x"
proof -
  obtain i where i: "i \<in> set (ml_outbox (cb_mail db))" "eo_message_id i = cm_id x"
    using assms(4) by (auto simp: has_outbox_def)
  have "\<lparr>ab_tenant_id = eo_tenant_id i, ab_local_message_id = Some (eo_message_id i),
         ab_source = ''outbox_reference''\<rparr> \<in> set (candidates db cl)"
    using i assms(3) by (auto simp: candidates_def reference_candidates_def outbox_candidates_def)
  then show ?thesis using outbox_owner [OF assms(1) i(1) assms(2) i(2)] by force
qed

lemma remdups_singleton:
  assumes "remdups xs = [t]" and "x \<in> set xs"
  shows "x = t"
  using assms by (metis empty_iff empty_set insert_iff list.simps(15) set_remdups)

lemma resolve_attribution_new:
  assumes "resolve_attribution e db cl = Inr ab" "get_postal_event db (cl_event_id cl) = None"
  shows "\<forall>c \<in> set (candidates db cl). ab_tenant_id c = ab_tenant_id ab"
    and "ab_local_message_id ab = Some k \<Longrightarrow> \<exists>c \<in> set (candidates db cl). ab_local_message_id c = Some k"
proof -
  let ?ts = "remdups (map ab_tenant_id (candidates db cl))"
  consider "?ts = []" "legacy_attribution e (cb_mail db) = Inr ab"
    | tid where "?ts = [tid]" "ab_tenant_id ab = tid"
        "ab_local_message_id ab = (case find_row (\<lambda>c. ab_tenant_id c = tid \<and> \<not> absent (ab_local_message_id c))
           (candidates db cl) of None \<Rightarrow> None | Some c \<Rightarrow> ab_local_message_id c)"
    using assms by (auto simp: resolve_attribution_def Let_def split: list.splits)
  note c = this
  show "\<forall>c \<in> set (candidates db cl). ab_tenant_id c = ab_tenant_id ab"
    using c
    by cases (auto dest!: remdups_singleton [where x = "ab_tenant_id c" for c])
  show "\<exists>c \<in> set (candidates db cl). ab_local_message_id c = Some k" if "ab_local_message_id ab = Some k"
    using c that
    by cases (auto simp: legacy_attribution_def Let_def split: if_splits option.splits dest!: find_row_Some)
qed

lemma read_callback_event_id: "read_callback cv body signature = Inr cl \<Longrightarrow> cl_event_id cl \<noteq> []"
  by (auto simp: read_callback_def Let_def res_bind_Inr split: option.splits json.splits if_splits)

lemma hook_text_reference:
  assumes "hook_text v \<noteq> []"
  shows "v = obj_get (cl_message cl) ''id'' \<or> v = obj_get (cl_message cl) ''message_id'' \<or>
      v = obj_get (cl_message cl) ''tag'' \<or> v = obj_get (cl_payload cl) ''correlation_id'' \<Longrightarrow>
    hook_text v \<in> set (general_references cl)"
  using assms by (auto simp: general_references_def provider_references_def hook_texts_def)

lemma local_message_owned:
  assumes tables: "mail_tables_ok (cb_mail db)" and new: "get_postal_event db (cl_event_id cl) = None"
    and fresh: "get_message (cb_mail db) (cl_event_id cl) = None" and eid: "cl_event_id cl \<noteq> []"
    and ab: "resolve_attribution e db cl = Inr ab"
    and lv: "lv_message_id lv = rs_local_message_id (resolve_ids (cb_mail db) cl ab)"
      "lv_correlation_id lv = rs_correlation (resolve_ids (cb_mail db) cl ab)"
    and x: "local_message (cb_mail db) lv = Some x" and sent: "has_outbox (cb_mail db) x"
  shows "cm_tenant_id x = ab_tenant_id ab"
proof -
  let ?m = "cb_mail db" let ?message = "cl_message cl"
  define provider where "provider = first_nonempty [hook_text (obj_get ?message ''message_id''),
      hook_text (obj_get ?message ''id'')]"
  define correlation where "correlation = first_nonempty [hook_text (obj_get (cl_payload cl) ''correlation_id''),
      callback_tag cl, provider, cl_event_id cl]"
  define local where "local = first_nonempty [or_text (ab_local_message_id ab) [],
      hook_text (obj_get ?message ''id''), provider, correlation]"
  have ids: "lv_message_id lv = local"
    "lv_correlation_id lv = (case find_row (\<lambda>r. eo_tenant_id r = ab_tenant_id ab \<and> eo_message_id r = local)
       (ml_outbox ?m) of None \<Rightarrow> correlation | Some r \<Rightarrow> or_text (eo_correlation_id r) correlation)"
    unfolding lv by (simp_all only: resolve_ids_def Let_def provider_def correlation_def local_def resolved.simps)
  have prov: "provider \<noteq> [] \<Longrightarrow> provider \<in> set (general_references cl)"
    using first_nonempty_in [of "[hook_text (obj_get ?message ''message_id''), hook_text (obj_get ?message ''id'')]"]
      hook_text_reference [of _ cl] by (auto simp: provider_def)
  have corr: "correlation \<in> set (general_references cl) \<or> correlation = cl_event_id cl" "correlation \<noteq> []"
  proof -
    show c: "correlation \<noteq> []" using eid by (simp add: correlation_def first_nonempty_Nil)
    have "correlation \<in> {hook_text (obj_get (cl_payload cl) ''correlation_id''), callback_tag cl, provider, cl_event_id cl}"
      using first_nonempty_in [of "[hook_text (obj_get (cl_payload cl) ''correlation_id''), callback_tag cl,
          provider, cl_event_id cl]"] c by (simp add: correlation_def)
    then show "correlation \<in> set (general_references cl) \<or> correlation = cl_event_id cl"
      using c prov hook_text_reference [of _ cl] by (auto simp: callback_tag_def)
  qed
  have cands: "ab_tenant_id c = ab_tenant_id ab" if "c \<in> set (candidates db cl)" for c
    using resolve_attribution_new(1) [OF ab new] that by blast
  have by_reference: "cm_tenant_id y = ab_tenant_id ab"
    if "get_message ?m k = Some y" "k \<in> set (general_references cl) \<or> k = cl_event_id cl" "has_outbox ?m y" for k y
    using that fresh reference_candidate [OF tables, of y cl] cands get_message_row [OF that(1)] by auto
  have by_local: "cm_tenant_id y = ab_tenant_id ab" if y: "get_message ?m local = Some y" and sent: "has_outbox ?m y" for y
  proof (cases "absent (ab_local_message_id ab)")
    case True
    then have "or_text (ab_local_message_id ab) [] = []" by (auto simp: or_text_def absent_def)
    then have "local \<noteq> [] \<and> local \<in> {hook_text (obj_get ?message ''id''), provider, correlation}"
      using corr(2) first_nonempty_in [of "[[], hook_text (obj_get ?message ''id''), provider, correlation]"]
      by (auto simp: local_def first_nonempty_Nil)
    then have "local \<in> set (general_references cl) \<or> local = cl_event_id cl"
      using prov corr(1) hook_text_reference [of _ cl] by auto
    with by_reference y sent show ?thesis by blast
  next
    case False
    then obtain k where k: "ab_local_message_id ab = Some k" "k \<noteq> []" by (auto simp: absent_def)
    then have "local = k" by (simp add: local_def or_text_def)
    then show ?thesis
      using resolve_attribution_new(2) [OF ab new k(1)] candidate_owner [OF tables] cands get_message_row [OF y] by metis
  qed
  show ?thesis
  proof (cases "get_message ?m local")
    case (Some y)
    then show ?thesis using x ids(1) by_local sent by (simp add: local_message_def)
  next
    case None
    then have x': "get_message ?m (lv_correlation_id lv) = Some x" using x ids(1) by (simp add: local_message_def)
    have "find_row (\<lambda>r. eo_tenant_id r = ab_tenant_id ab \<and> eo_message_id r = local) (ml_outbox ?m) = None"
    proof (rule ccontr)
      assume "\<not> ?thesis"
      then obtain i where "i \<in> set (ml_outbox ?m)" "eo_message_id i = local" by (auto dest: find_row_Some)
      then obtain y where "y \<in> set (gd_messages ?m)" "cm_id y = local" using tables by (auto simp: mail_tables_ok_def)
      with None show False by (auto simp: get_message_def find_row_None)
    qed
    then have "lv_correlation_id lv = correlation" using ids(2) by simp
    then show ?thesis using by_reference x' corr(1) sent by metis
  qed
qed

definition mail_slice where
  "mail_slice u m =
     (filter (\<lambda>r. pm_tenant_id r = u) (gd_provider_messages m),
      filter (\<lambda>r. sp_tenant_id r = u) (gd_suppressions m), filter (\<lambda>r. wm_tenant_id r = u) (ml_webmail m),
      filter (\<lambda>r. me_tenant_id r = u) (ml_events (m :: mail_db)))"

lemma mark_message_slice:
  assumes "mark_message (cm_id x) status m = Inr m1" "distinct (map cm_id (gd_messages m))"
    and "x \<in> set (gd_messages m)" "P x"
  shows "status_only P (gd_messages m) (gd_messages m1)"
    "mail_slice u m1 = mail_slice u m" "gd_provider_messages m1 = gd_provider_messages m"
    "gd_suppressions m1 = gd_suppressions m" "ml_webmail m1 = ml_webmail m"
proof -
  have same: "r = x" if "r \<in> set (gd_messages m)" "cm_id r = cm_id x" for r
    using distinct_key [OF assms(2) that(1) assms(3) that(2)] .
  have "get_message m (cm_id x) = Some x"
    using find_row_exI [OF assms(3), of "\<lambda>r. cm_id r = cm_id x"] same
    by (auto simp: get_message_def dest: find_row_Some)
  then have m1: "m1 = m\<lparr>gd_messages := update_rows (\<lambda>r. cm_id r = cm_id x) (\<lambda>_. x\<lparr>cm_status := status\<rparr>) (gd_messages m)\<rparr>"
    using assms(1) by (auto simp: mark_message_def set_core_message_status_def split: if_splits)
  show "status_only P (gd_messages m) (gd_messages m1)"
    using same assms(4) by (auto simp: m1 status_only_def update_rows_def list_all2_map2 intro!: list.rel_refl_strong)
  show "mail_slice u m1 = mail_slice u m" "gd_provider_messages m1 = gd_provider_messages m"
    "gd_suppressions m1 = gd_suppressions m" "ml_webmail m1 = ml_webmail m"
    by (simp_all add: mail_slice_def m1)
qed

lemma mark_provider_slice:
  assumes "distinct (map pm_id (gd_provider_messages m))" "lv_tenant_id lv \<noteq> u"
  shows "mail_slice u (mark_provider t lv status m) = mail_slice u m"
    "gd_suppressions (mark_provider t lv status m) = gd_suppressions m"
    "ml_webmail (mark_provider t lv status m) = ml_webmail m"
    "gd_messages (mark_provider t lv status m) = gd_messages m"
proof -
  have "filter (\<lambda>r. pm_tenant_id r = u) (update_rows (\<lambda>r. pm_id r = pm_id p)
      (\<lambda>r. r\<lparr>pm_status := s, pm_updated_at := t\<rparr>) (gd_provider_messages m)) =
      filter (\<lambda>r. pm_tenant_id r = u) (gd_provider_messages m)"
    if "provider_message_of m lv = Some p" for p s
  proof (rule filter_update_other)
    fix r assume "r \<in> set (gd_provider_messages m)" "pm_id r = pm_id p"
    moreover have "p \<in> set (gd_provider_messages m)" "pm_tenant_id p = lv_tenant_id lv"
      using that by (auto simp: provider_message_of_def dest: find_row_Some)
    moreover have "r = p" using calculation by (intro distinct_key [OF assms(1)]) auto
    ultimately show "pm_tenant_id r \<noteq> u \<and> pm_tenant_id (r\<lparr>pm_status := s, pm_updated_at := t\<rparr>) \<noteq> u"
      using assms(2) by auto
  qed
  then show "mail_slice u (mark_provider t lv status m) = mail_slice u m"
    "gd_suppressions (mark_provider t lv status m) = gd_suppressions m"
    "ml_webmail (mark_provider t lv status m) = ml_webmail m"
    "gd_messages (mark_provider t lv status m) = gd_messages m"
    by (auto simp: mark_provider_def mail_slice_def split: option.split)
qed

lemma update_outbound_status_slice:
  assumes "distinct (map wm_id (ml_webmail m))" "tid \<noteq> u"
  shows "mail_slice u (update_outbound_status t tid mid status m) = mail_slice u m"
    "gd_suppressions (update_outbound_status t tid mid status m) = gd_suppressions m"
    "gd_messages (update_outbound_status t tid mid status m) = gd_messages m"
proof -
  have "filter (\<lambda>r. wm_tenant_id r = u) (update_rows (\<lambda>r. wm_id r = wm_id w)
      (\<lambda>r. r\<lparr>wm_delivery_status := s, wm_updated_at := t\<rparr>) (ml_webmail m)) =
      filter (\<lambda>r. wm_tenant_id r = u) (ml_webmail m)"
    if "webmail_of m tid mid = Some w" for w s
  proof (rule filter_update_other)
    fix r assume "r \<in> set (ml_webmail m)" "wm_id r = wm_id w"
    moreover have "w \<in> set (ml_webmail m)" "wm_tenant_id w = tid"
      using that by (auto simp: webmail_of_def Let_def split: option.splits dest: find_row_Some)
    moreover have "r = w" using calculation by (intro distinct_key [OF assms(1)]) auto
    ultimately show "wm_tenant_id r \<noteq> u \<and> wm_tenant_id (r\<lparr>wm_delivery_status := s, wm_updated_at := t\<rparr>) \<noteq> u"
      using assms(2) by auto
  qed
  then show "mail_slice u (update_outbound_status t tid mid status m) = mail_slice u m"
    "gd_suppressions (update_outbound_status t tid mid status m) = gd_suppressions m"
    "gd_messages (update_outbound_status t tid mid status m) = gd_messages m"
    by (auto simp: update_outbound_status_def mail_slice_def split: option.split)
qed

lemma suppress_recipient_slice:
  assumes "suppress_recipient sid lv status m = Inr m'" "distinct (map sp_id (gd_suppressions m))"
    and "lv_tenant_id lv \<noteq> u"
  shows "mail_slice u m' = mail_slice u m \<and> gd_messages m' = gd_messages m"
proof -
  obtain r where r: "lv_recipient lv = JStr r"
    using assms(1) by (cases "lv_recipient lv") (auto simp: suppress_recipient_def)
  let ?same = "\<lambda>x. sp_tenant_id x = lv_tenant_id lv \<and> sp_email x = lower r"
  show ?thesis
  proof (cases "find_row ?same (gd_suppressions m)")
    case None
    then show ?thesis using assms(1,3) r by (auto simp: suppress_recipient_def mail_slice_def)
  next
    case (Some found)
    then have found: "found \<in> set (gd_suppressions m)" "sp_tenant_id found = lv_tenant_id lv"
      by (auto dest: find_row_Some)
    have "filter (\<lambda>x. sp_tenant_id x = u) (update_rows (\<lambda>x. sp_id x = sp_id found)
        (\<lambda>x. x\<lparr>sp_reason := status\<rparr>) (gd_suppressions m)) = filter (\<lambda>x. sp_tenant_id x = u) (gd_suppressions m)"
    proof (rule filter_update_other)
      fix x assume "x \<in> set (gd_suppressions m)" "sp_id x = sp_id found"
      then have "x = found" using found by (intro distinct_key [OF assms(2)]) auto
      then show "sp_tenant_id x \<noteq> u \<and> sp_tenant_id (x\<lparr>sp_reason := status\<rparr>) \<noteq> u"
        using found assms(3) by auto
    qed
    then show ?thesis using assms(1) r Some by (auto simp: suppress_recipient_def mail_slice_def split: if_splits)
  qed
qed

lemma apply_status_slice:
  assumes "mail_tables_ok m" "apply_status cv lv status m = Inr m2"
    and own: "\<And>x. local_message m lv = Some x \<Longrightarrow> P x" and u: "lv_tenant_id lv \<noteq> u"
  shows "status_only P (gd_messages m) (gd_messages m2)" "mail_slice u m2 = mail_slice u m"
    "gd_suppressions m2 = gd_suppressions m"
proof -
  obtain m1 where m1: "(case local_message m lv of None \<Rightarrow> Inr m | Some x \<Rightarrow> mark_message (cm_id x) status m) = Inr m1"
    and m2: "m2 = update_outbound_status (cv_now cv) (lv_tenant_id lv) (lv_message_id lv) status
               (mark_provider (cv_now cv) lv status m1)"
    using assms(2) by (auto simp: apply_status_def res_bind_Inr)
  have k: "status_only P (gd_messages m) (gd_messages m1) \<and> mail_slice u m1 = mail_slice u m \<and>
      gd_provider_messages m1 = gd_provider_messages m \<and>
      gd_suppressions m1 = gd_suppressions m \<and> ml_webmail m1 = ml_webmail m"
  proof (cases "local_message m lv")
    case (Some x)
    then have "x \<in> set (gd_messages m)"
      by (auto simp: local_message_def split: option.splits dest: get_message_row)
    moreover have "mark_message (cm_id x) status m = Inr m1" using m1 Some by simp
    moreover have "distinct (map cm_id (gd_messages m))" using assms(1) by (simp add: mail_tables_ok_def)
    ultimately show ?thesis using mark_message_slice [of x status m m1 P] own [OF Some] by blast
  qed (use m1 status_only_refl in simp)
  have keys: "distinct (map pm_id (gd_provider_messages m1))" "distinct (map wm_id (ml_webmail m1))"
    using assms(1) k by (simp_all add: mail_tables_ok_def)
  note mp = mark_provider_slice [OF keys(1) u, of "cv_now cv" status]
  have "distinct (map wm_id (ml_webmail (mark_provider (cv_now cv) lv status m1)))" using keys(2) mp(3) by simp
  note ms = update_outbound_status_slice [OF this u, of "cv_now cv" "lv_message_id lv" status]
  show "status_only P (gd_messages m) (gd_messages m2)" "mail_slice u m2 = mail_slice u m"
    "gd_suppressions m2 = gd_suppressions m"
    using mp ms k by (simp_all add: m2)
qed

lemma record_mail_event_slice:
  assumes "record_mail_event cv lv status local m = Inr (m3, audits)" and u: "lv_tenant_id lv \<noteq> u"
  shows "mail_slice u m3 = mail_slice u m" "gd_suppressions m3 = gd_suppressions m"
    "filter (\<lambda>r. ad_tenant_id r = u) audits = []" "gd_messages m3 = gd_messages m"
  using assms by (auto simp: record_mail_event_def res_bind_Inr mail_slice_def event_audits_def split: if_splits)

definition confined :: "string \<Rightarrow> callback_db \<Rightarrow> callback_db \<Rightarrow> bool" where
  "confined tid db db' \<longleftrightarrow>
     (\<forall>u. u \<noteq> tid \<longrightarrow> tenant_slice u db' = tenant_slice u db) \<and>
     status_only (\<lambda>x. cm_tenant_id x = tid \<or> \<not> has_outbox (cb_mail db) x)
       (gd_messages (cb_mail db)) (gd_messages (cb_mail db'))"

lemma confined_cong:
  "cb_mail a = cb_mail b \<Longrightarrow> cb_audits a = cb_audits b \<Longrightarrow> confined tid db a = confined tid db b"
  "cb_mail a = cb_mail b \<Longrightarrow> cb_audits a = cb_audits b \<Longrightarrow> confined tid a db' = confined tid b db'"
  by (simp_all add: confined_def tenant_slice_def)

lemma confined_refl: "confined tid db db"
  by (simp add: confined_def status_only_refl)

lemma persist_confined:
  assumes tables: "mail_tables_ok (cb_mail db)" and p: "persist_email_event cv lv db = Inr (st, db')"
    and own: "\<And>x. local_message (cb_mail db) lv = Some x \<Longrightarrow> has_outbox (cb_mail db) x \<Longrightarrow>
      cm_tenant_id x = lv_tenant_id lv"
  shows "confined (lv_tenant_id lv) db db'"
proof -
  let ?P = "\<lambda>x. cm_tenant_id x = lv_tenant_id lv \<or> \<not> has_outbox (cb_mail db) x"
  obtain status suppress m2 m3 audits m4 where s: "apply_status cv lv status (cb_mail db) = Inr m2"
      "record_mail_event cv lv status (local_message (cb_mail db) lv) m2 = Inr (m3, audits)"
      "(if suppress \<and> truthy (lv_recipient lv) then suppress_recipient (cv_suppression_id cv) lv status m3
        else Inr m3) = Inr m4"
      "db' = db\<lparr>cb_mail := m4, cb_audits := cb_audits db @ audits\<rparr>"
    using p by (auto simp: persist_email_event_def res_bind_Inr simp del: if_split split: prod.splits)
  have own': "?P x" if "local_message (cb_mail db) lv = Some x" for x using own that by blast
  have all: "status_only ?P (gd_messages (cb_mail db)) (gd_messages m4) \<and> mail_slice u m4 = mail_slice u (cb_mail db) \<and>
      filter (\<lambda>r. ad_tenant_id r = u) audits = []" if u: "lv_tenant_id lv \<noteq> u" for u
  proof -
    note a = apply_status_slice [OF tables s(1) _ u, of ?P, OF own']
    note r = record_mail_event_slice [OF s(2) u]
    have "distinct (map sp_id (gd_suppressions m3))" using tables a(3) r(2) by (simp add: mail_tables_ok_def)
    then have "mail_slice u m4 = mail_slice u m3 \<and> gd_messages m4 = gd_messages m3"
      using s(3) suppress_recipient_slice [of "cv_suppression_id cv" lv status m3 m4 u] u by (auto split: if_splits)
    then show ?thesis using a(1,2) r(1,3,4) by simp
  qed
  obtain u where "lv_tenant_id lv \<noteq> (u :: string)" by (metis list.distinct(1))
  then show ?thesis using all
    by (auto simp: confined_def tenant_slice_def mail_slice_def s(4))
qed

lemma deliver_callback_confined:
  assumes "deliver_callback cv emit (\<lambda>d. d) lv n db1 = (res, db')"
    and "\<And>st db2. persist_email_event cv lv db1 = Inr (st, db2) \<Longrightarrow> confined tid db1 db2"
  shows "confined tid db1 db'"
proof (cases "persist_email_event cv lv db1")
  case (Inr p)
  obtain st db2 where p: "persist_email_event cv lv db1 = Inr (st, db2)" using Inr by (cases p) auto
  have "cb_mail db' = cb_mail db2 \<and> cb_audits db' = cb_audits db2"
    using assms(1) p
    by (auto simp: deliver_callback_def Let_def split: sum.splits)
       (metis finish_emission_simps(1,3) snd_conv update_postal_event_simps(1,3))+
  then show ?thesis using assms(2) [OF p] confined_cong(1) [of db' db2] by simp
qed (use assms(1) confined_refl in \<open>auto simp: deliver_callback_def\<close>)

lemma resolve_attribution_Inl:
  "resolve_attribution e db cl = Inl err \<Longrightarrow> \<exists>detail. err = HTTPException 503 detail"
  by (auto simp: resolve_attribution_def legacy_attribution_def Let_def split: option.splits list.splits if_splits)

text \<open>
  C19. What a signed callback may touch. At its first delivery (no event row yet, and no core message
  with the event's identifier) every record that its identifiers, its tag or its server name - core
  messages of the tag, provider messages, outbox rows, Postal servers - belongs to the one tenant it is
  attributed to, or the callback is refused with 503 and changes nothing. Whatever the callback then
  does, provider messages, suppressions, webmail copies, events and audit rows of every other tenant
  stay as they were; no core message is added or removed; and the only thing that can change of a core
  message is its status, and only when it belongs to that tenant or has no outbox row. (The exception
  is real: the lookup by identifier does not ask for the tenant, see \<open>callback_crosses_tenant\<close>.)
  The tables are assumed to have the keys and the ownership that the intake keeps, and no other
  operation runs during the call to the middleware.
\<close>

theorem callback_confined:
  assumes "mail_tables_ok (cb_mail db)" and "read_callback cv body signature = Inr cl"
    and "get_postal_event db (cl_event_id cl) = None" and "get_message (cb_mail db) (cl_event_id cl) = None"
    and "postal_native_hook cv emit (\<lambda>d. d) body signature db = (res, db')"
  shows "case resolve_attribution (cv_env cv) db cl of
      Inl e \<Rightarrow> (\<exists>detail. e = HTTPException 503 detail) \<and> res = Inl e \<and> db' = db
    | Inr ab \<Rightarrow> (\<forall>c \<in> set (candidates db cl). ab_tenant_id c = ab_tenant_id ab) \<and>
        (\<forall>u. u \<noteq> ab_tenant_id ab \<longrightarrow> tenant_slice u db' = tenant_slice u db) \<and>
        status_only (\<lambda>x. cm_tenant_id x = ab_tenant_id ab \<or> \<not> has_outbox (cb_mail db) x)
          (gd_messages (cb_mail db)) (gd_messages (cb_mail db'))"
proof (cases "resolve_attribution (cv_env cv) db cl")
  case (Inl e)
  then show ?thesis using assms(2,5) resolve_attribution_Inl [OF Inl] by (auto simp: postal_native_hook_def)
next
  case (Inr ab)
  let ?rs = "resolve_ids (cb_mail db) cl ab"
  have "confined (ab_tenant_id ab) db db'"
  proof (cases "normalized_event (cv_codec cv) body cl ab ?rs")
    case (Inl e)
    then show ?thesis using assms(2,3,5) Inr confined_refl by (auto simp: postal_native_hook_def Let_def)
  next
    case n: (Inr n)
    obtain payload db1 where hook: "postal_native_hook cv emit (\<lambda>d. d) body signature db =
        deliver_callback cv emit (\<lambda>d. d) (callback_lifecycle cl ab ?rs n payload) n db1"
      and db1: "db1 = record_postal_event (cl_event_id cl) (cl_canonical cl) (rs_correlation ?rs)
        (rs_local_message_id ?rs) (ab_tenant_id ab) (JText (sort_doc (JObj n))) (cv_now cv) db"
      by (rule native_hook_proceeds [OF assms(2) Inr _ n]) (use assms(3) in auto)
    let ?lv = "callback_lifecycle cl ab ?rs n payload"
    have same: "cb_mail db1 = cb_mail db" "cb_audits db1 = cb_audits db" by (simp_all add: db1)
    have own: "cm_tenant_id x = lv_tenant_id ?lv"
      if "local_message (cb_mail db1) ?lv = Some x" "has_outbox (cb_mail db1) x" for x
      using local_message_owned [OF assms(1,3,4) read_callback_event_id [OF assms(2)] Inr _ _ , of ?lv x] that same(1)
      by (simp add: callback_lifecycle_def)
    have "confined (ab_tenant_id ab) db1 db2" if "persist_email_event cv ?lv db1 = Inr (st, db2)" for st db2
      using persist_confined [OF _ that own] assms(1) same(1) by (auto simp: callback_lifecycle_def)
    then have "confined (ab_tenant_id ab) db1 db'" using deliver_callback_confined assms(5) hook by metis
    then show ?thesis using confined_cong(2) [OF same] by simp
  qed
  then show ?thesis using Inr resolve_attribution_new(1) [OF Inr assms(3)] by (simp add: confined_def)
qed

section \<open>The retry loop ends\<close>

text \<open>A row that the loop can emit: its document is an object and its type is declared.\<close>

definition emittable :: "postal_event_row \<Rightarrow> bool" where
  "emittable r \<longleftrightarrow> (\<exists>kvs. pe_payload r = JText (JObj kvs)) \<and> map_of SMTP_EVENT_MAP (pe_event_type r) \<noteq> None"

text \<open>The events that the loop looks at, and a table in which it can work on all of them.\<close>

definition waiting :: "postal_event_row \<Rightarrow> bool" where
  "waiting r \<longleftrightarrow> pe_state r = ''retry'' \<and> pe_attempts r < MAX_EMISSIONS"

definition retry_ready :: "int \<Rightarrow> callback_db \<Rightarrow> bool" where
  "retry_ready t db \<longleftrightarrow> distinct (map pe_id (cb_events db)) \<and>
     length (filter waiting (cb_events db)) \<le> 20 \<and>
     (\<forall>r \<in> set (cb_events db). waiting r \<longrightarrow> emittable r \<and> pe_updated_at r + 60000000 \<le> t)"

lemma retry_outcome_simps [simp]:
  "pe_id (retry_outcome t b r) = pe_id r" "pe_attempts (retry_outcome t b r) = pe_attempts r + 1"
  "pe_updated_at (retry_outcome t b r) = t" "pe_event_type (retry_outcome t b r) = pe_event_type r"
  "pe_payload (retry_outcome t b r) = pe_payload r" "pe_tenant_id (retry_outcome t b r) = pe_tenant_id r"
  "pe_message_id (retry_outcome t b r) = pe_message_id r"
  "pe_correlation_id (retry_outcome t b r) = pe_correlation_id r"
  by (simp_all add: retry_outcome_def Let_def)

lemma retry_outcome_state:
  "pe_state (retry_outcome t b r) = (if b then ''delivered'' else if MAX_EMISSIONS \<le> pe_attempts r + 1 then ''dlq''
     else pe_state r)"
  by (simp add: retry_outcome_def Let_def)

lemma settle_retry_events:
  assumes "distinct (map pe_id (cb_events db))"
  shows "cb_events (settle_retry t eid b db) =
    map (\<lambda>x. if pe_id x = eid \<and> pe_state x = ''retry'' then retry_outcome t b x else x) (cb_events db)"
proof (cases "get_postal_event db eid")
  case None
  then have "\<forall>x \<in> set (cb_events db). pe_id x \<noteq> eid" by (auto simp: get_postal_event_def find_row_None)
  with None show ?thesis by (auto simp: settle_retry_def intro!: map_idI [symmetric])
next
  case (Some item)
  then have "item \<in> set (cb_events db)" "pe_id item = eid" by (auto simp: get_postal_event_def dest: find_row_Some)
  then have "x = item" if "x \<in> set (cb_events db)" "pe_id x = eid" for x
    using distinct_key [OF assms that(1)] that(2) by simp
  then show ?thesis using Some by (auto simp: settle_retry_def update_rows_def intro!: map_idI [symmetric])
qed

lemma retry_wait_le: "retry_wait r \<le> 60000000"
  by (simp add: retry_wait_def)

lemma retry_round_events:
  assumes "\<And>k p. \<exists>b. emit k p = Inr b"
    and "\<And>r. r \<in> set rs \<Longrightarrow> emittable r \<and> pe_updated_at r + 60000000 \<le> t"
    and "distinct (map pe_id rs)" "distinct (map pe_id (cb_events db))"
  shows "\<exists>d db'. retry_round t emit (\<lambda>x. x) rs db = (None, db') \<and>
    cb_events db' = map (\<lambda>x. if pe_id x \<in> pe_id ` set rs \<and> pe_state x = ''retry''
       then retry_outcome t (d (pe_id x)) x else x) (cb_events db)"
  using assms(2-)
proof (induction rs arbitrary: db)
  case Nil
  then show ?case by (intro exI [of _ "\<lambda>_. False"] exI [of _ db]) (simp add: map_idI)
next
  case (Cons r rs)
  obtain kvs k where r: "pe_payload r = JText (JObj kvs)" "map_of SMTP_EVENT_MAP (pe_event_type r) = Some k"
    using Cons.prems(1) [of r] by (auto simp: emittable_def)
  obtain b where b: "emit k (obj_set ''customer_id'' (JStr (pe_tenant_id r)) kvs) = Inr b" using assms(1) by blast
  let ?db1 = "settle_retry t (pe_id r) b db"
  have events: "cb_events ?db1 =
      map (\<lambda>x. if pe_id x = pe_id r \<and> pe_state x = ''retry'' then retry_outcome t b x else x) (cb_events db)"
    by (rule settle_retry_events [OF Cons.prems(3)])
  have ids: "map pe_id (cb_events ?db1) = map pe_id (cb_events db)" by (simp add: events)
  have prems: "\<And>r. r \<in> set rs \<Longrightarrow> emittable r \<and> pe_updated_at r + 60000000 \<le> t"
      "distinct (map pe_id rs)" "distinct (map pe_id (cb_events ?db1))"
    using Cons.prems ids by auto
  from Cons.IH [OF prems] obtain d db' where d: "retry_round t emit (\<lambda>x. x) rs ?db1 = (None, db')"
    "cb_events db' = map (\<lambda>x. if pe_id x \<in> pe_id ` set rs \<and> pe_state x = ''retry''
       then retry_outcome t (d (pe_id x)) x else x) (cb_events ?db1)" by blast
  have "\<not> t - pe_updated_at r < retry_wait r" using Cons.prems(1) [of r] retry_wait_le [of r] by simp
  then have round: "retry_round t emit (\<lambda>x. x) (r # rs) db = (None, db')" using d(1) r b by simp
  have "pe_id r \<notin> pe_id ` set rs" using Cons.prems(2) by simp
  then have "cb_events db' = map (\<lambda>x. if pe_id x \<in> pe_id ` set (r # rs) \<and> pe_state x = ''retry''
       then retry_outcome t ((d(pe_id r := b)) (pe_id x)) x else x) (cb_events db)"
    unfolding d(2) events by auto
  with round show ?case by blast
qed

lemma retry_selection_all:
  assumes "retry_ready t db"
  shows "set (retry_selection db) = {r \<in> set (cb_events db). waiting r}"
    and "distinct (map pe_id (retry_selection db))"
proof -
  have eq: "(\<lambda>r. pe_state r = ''retry'' \<and> pe_attempts r < MAX_EMISSIONS) = waiting"
    by (simp add: waiting_def fun_eq_iff)
  have "retry_selection db = sort_key pe_updated_at (filter waiting (cb_events db))"
    using assms unfolding retry_selection_def select_rows_def eq by (simp add: retry_ready_def)
  moreover have "distinct (map pe_id (filter waiting (cb_events db)))"
    using assms by (simp add: retry_ready_def distinct_map_filter)
  ultimately show "set (retry_selection db) = {r \<in> set (cb_events db). waiting r}"
    and "distinct (map pe_id (retry_selection db))"
    by (auto simp: distinct_map)
qed

lemma length_filter_map_le:
  "(\<And>x. P (f x) \<Longrightarrow> P x) \<Longrightarrow> length (filter P (map f xs)) \<le> length (filter P xs)"
  by (induction xs) auto

lemma retry_tick_progress:
  assumes "retry_ready t db" and "\<And>k p. \<exists>b. emit k p = Inr b" and "t + 60000000 \<le> t'"
  shows "\<exists>d db'. postal_retry_tick t emit (\<lambda>x. x) db = (None, db') \<and> retry_ready t' db' \<and>
    cb_events db' = map (\<lambda>x. if waiting x then retry_outcome t (d (pe_id x)) x else x) (cb_events db)"
proof -
  note sel = retry_selection_all [OF assms(1)]
  have due: "\<And>r. r \<in> set (retry_selection db) \<Longrightarrow> emittable r \<and> pe_updated_at r + 60000000 \<le> t"
    using assms(1) sel(1) by (auto simp: retry_ready_def)
  have keys: "distinct (map pe_id (cb_events db))" using assms(1) by (simp add: retry_ready_def)
  obtain d db' where d:
      "postal_retry_tick t emit (\<lambda>x. x) db = (None, db')"
      "cb_events db' = map (\<lambda>x. if pe_id x \<in> pe_id ` set (retry_selection db) \<and> pe_state x = ''retry''
         then retry_outcome t (d (pe_id x)) x else x) (cb_events db)"
    using retry_round_events [of emit, OF assms(2) due sel(2) keys] unfolding postal_retry_tick_def by blast
  have e: "cb_events db' = map (\<lambda>x. if waiting x then retry_outcome t (d (pe_id x)) x else x) (cb_events db)"
    unfolding d(2)
  proof (rule map_cong [OF refl])
    fix x assume x: "x \<in> set (cb_events db)"
    have "pe_id x \<in> pe_id ` set (retry_selection db) \<and> pe_state x = ''retry'' \<longleftrightarrow> waiting x"
      using distinct_key [OF keys _ x] x unfolding sel(1) by (auto simp: waiting_def)
    then show "(if pe_id x \<in> pe_id ` set (retry_selection db) \<and> pe_state x = ''retry''
        then retry_outcome t (d (pe_id x)) x else x) = (if waiting x then retry_outcome t (d (pe_id x)) x else x)"
      by simp
  qed
  have ids: "map pe_id (cb_events db') = map pe_id (cb_events db)" by (simp add: e)
  have "length (filter waiting (cb_events db')) \<le> length (filter waiting (cb_events db))" (is "?l' \<le> ?l")
    unfolding e by (rule length_filter_map_le) (simp split: if_splits)
  then have few: "?l' \<le> 20" using assms(1) unfolding retry_ready_def by linarith
  have rows: "emittable r \<and> pe_updated_at r + 60000000 \<le> t'" if r: "r \<in> set (cb_events db')" "waiting r" for r
  proof -
    obtain x where x: "x \<in> set (cb_events db)"
        "r = (if waiting x then retry_outcome t (d (pe_id x)) x else x)"
      using r(1) unfolding e by auto
    have retry: "waiting x" "r = retry_outcome t (d (pe_id x)) x" using x r(2) by (auto split: if_splits)
    have "emittable x" using assms(1) x(1) retry(1) unfolding retry_ready_def by blast
    then show ?thesis using assms(3) by (simp add: retry(2) emittable_def)
  qed
  have "retry_ready t' db'" unfolding retry_ready_def ids using few rows keys by blast
  with d(1) e show ?thesis by blast
qed

definition retry_run :: "(int \<times> emission) list \<Rightarrow> callback_db \<Rightarrow> callback_db" where
  "retry_run ticks db = fold (\<lambda>(t, emit) d. snd (postal_retry_tick t emit (\<lambda>x. x) d)) ticks db"

text \<open>Rounds at least a minute apart, the first not before \<open>t\<close>; an emission answers yes or no.\<close>

fun spaced :: "int \<Rightarrow> (int \<times> emission) list \<Rightarrow> bool" where
  "spaced t [] = True"
| "spaced t ((t1, emit) # ticks) = (t \<le> t1 \<and> spaced (t1 + 60000000) ticks)"

definition answered :: "emission \<Rightarrow> bool" where
  "answered emit \<longleftrightarrow> (\<forall>k p. \<exists>b. emit k p = Inr b)"

definition settled_like :: "postal_event_row \<Rightarrow> postal_event_row \<Rightarrow> bool" where
  "settled_like r r' \<longleftrightarrow> (if waiting r
     then pe_id r' = pe_id r \<and> pe_tenant_id r' = pe_tenant_id r \<and>
          pe_attempts r < pe_attempts r' \<and> pe_attempts r' \<le> MAX_EMISSIONS \<and>
          (pe_state r' = ''delivered'' \<or> pe_state r' = ''dlq'' \<and> pe_attempts r' = MAX_EMISSIONS)
     else r' = r)"

lemma retry_ready_later: "retry_ready t db \<Longrightarrow> t \<le> t1 \<Longrightarrow> retry_ready t1 db"
  unfolding retry_ready_def by fastforce

lemma retry_run_settles:
  assumes "retry_ready t db" "spaced t ticks" "\<forall>(t, emit) \<in> set ticks. answered emit" "n \<le> length ticks"
    and "\<And>r. r \<in> set (cb_events db) \<Longrightarrow> waiting r \<Longrightarrow> MAX_EMISSIONS - int n \<le> pe_attempts r"
  shows "list_all2 settled_like (cb_events db) (cb_events (retry_run ticks db))"
  using assms
proof (induction ticks arbitrary: t db n)
  case Nil
  then have "\<not> waiting r" if "r \<in> set (cb_events db)" for r
    using that by (fastforce simp: waiting_def)
  then show ?case by (simp add: retry_run_def settled_like_def list.rel_refl_strong)
next
  case (Cons tick ticks)
  obtain t1 emit where tick: "tick = (t1, emit)" by (cases tick)
  have ready: "retry_ready t1 db" using Cons.prems(1,2) retry_ready_later by (simp add: tick)
  have total: "\<And>k p. \<exists>b. emit k p = Inr b" using Cons.prems(3) by (simp add: tick answered_def)
  from retry_tick_progress [of t1 db emit, OF ready total order_refl] obtain d db1 where db1:
      "postal_retry_tick t1 emit (\<lambda>x. x) db = (None, db1)" "retry_ready (t1 + 60000000) db1"
      "cb_events db1 = map (\<lambda>x. if waiting x then retry_outcome t1 (d (pe_id x)) x else x) (cb_events db)"
    by blast
  have run: "retry_run (tick # ticks) db = retry_run ticks db1" by (simp add: retry_run_def tick db1(1))
  have less: "MAX_EMISSIONS - int (n - 1) \<le> pe_attempts r" if r: "r \<in> set (cb_events db1)" "waiting r" for r
  proof -
    obtain x where x: "x \<in> set (cb_events db)" "waiting x" "pe_attempts r = pe_attempts x + 1"
      using r unfolding db1(3) by (auto split: if_splits)
    show ?thesis using Cons.prems(5) [OF x(1,2)] x(3) by (cases n) auto
  qed
  have "list_all2 settled_like (cb_events db1) (cb_events (retry_run ticks db1))"
    using Cons.prems(2,3,4) less by (intro Cons.IH [OF db1(2), of "n - 1"]) (auto simp: tick)
  moreover have "settled_like x z"
    if z: "settled_like (if waiting x then retry_outcome t1 (d (pe_id x)) x else x) z" for x z
    using z by (cases "waiting x")
      (auto simp: settled_like_def waiting_def retry_outcome_state split: if_splits)
  ultimately have "list_all2 settled_like (cb_events db) (cb_events (retry_run ticks db1))"
    unfolding db1(3) list_all2_map1 by (rule list_all2_mono)
  then show ?case by (simp add: run)
qed

section \<open>The bridge forgets what it could not finish\<close>

definition waits_for_nobody :: "string \<Rightarrow> callback_db \<Rightarrow> bool" where
  "waits_for_nobody eid db \<longleftrightarrow> (\<forall>r \<in> set (cb_events db). pe_id r = eid \<longrightarrow> pe_state r = ''pending'')"

lemma finish_bridge_lost:
  assumes "finish_bridge cv emit (\<lambda>d. d) eid k lk co mid p tenant db = (Inl err, db1)"
    and "err \<noteq> HTTPException 503 ''middleware_delivery_pending''"
    and "\<forall>r \<in> set (cb_events db). pe_id r \<noteq> eid"
  shows "waits_for_nobody eid db1"
proof -
  let ?rec = "\<lambda>tid doc. record_postal_event eid lk co mid tid doc (cv_now cv) db"
  have none: "get_postal_event db eid = None" using assms(3) by (auto simp: get_postal_event_def find_row_None)
  have some: "get_postal_event (?rec tid doc) eid \<noteq> None" for tid doc by (simp add: get_record_postal_event)
  have rec: "waits_for_nobody eid (?rec tid doc)" for tid doc
    using none assms(3) unfolding waits_for_nobody_def record_postal_event_def by simp
  have "db1 = db \<or> (\<exists>tid doc. db1 = ?rec tid doc)"
    using assms(1,2) none some unfolding finish_bridge_def Let_def finish_emission_def
    by (auto split: option.splits sum.splits if_splits)
  then show ?thesis using rec assms(3) by (auto simp: waits_for_nobody_def)
qed

text \<open>
  Defect: the bridge hook can lose an event for good. It remembers the event's identifier in the
  commit that persists it, before the event for the middleware is stored and emitted. When the rest
  fails otherwise than by a refused delivery - the document names no tenant, or a secret of the
  emission cannot be read - the call is answered with an error, but the row is missing or stays
  pending, where the retry loop does not look, and every later delivery of the same event, correctly
  signed, is answered as an accepted duplicate and changes nothing.
\<close>

theorem bridge_event_lost:
  assumes "postal_hook cv emit (\<lambda>d. d) body timestamp eid signature db = (Inl err, db1)"
    and "eid \<notin> set (cb_replays db)" "eid \<in> set (cb_replays db1)"
    and "\<forall>r \<in> set (cb_events db). pe_id r \<noteq> eid"
    and "err \<noteq> HTTPException 503 ''middleware_delivery_pending''"
  shows "waits_for_nobody eid db1 \<and> (\<forall>r \<in> set (retry_selection db1). pe_id r \<noteq> eid) \<and>
    (\<forall>cv' emit' meanwhile' body' timestamp' signature'.
       verify_bridge cv' body' timestamp' eid signature' = Inr () \<longrightarrow>
       postal_hook cv' emit' meanwhile' body' timestamp' eid signature' db1 =
         (Inr (JObj [(''accepted'', JBool True), (''duplicate'', JBool True)]), db1))"
proof -
  obtain k lk co mid p tenant db0 where go: "finish_bridge cv emit (\<lambda>d. d) eid k lk co mid p tenant db0 = (Inl err, db1)"
      "cb_events db0 = cb_events db"
    using assms(1-3) persist_email_event_events
    by (fastforce simp: postal_hook_def Let_def split: sum.splits option.splits if_splits prod.splits)
  from finish_bridge_lost [OF go(1) assms(5)] assms(4) go(2) have w: "waits_for_nobody eid db1" by simp
  then have "pe_id r \<noteq> eid" if "r \<in> set (retry_selection db1)" for r
    using that select_rows_in unfolding retry_selection_def waits_for_nobody_def by fastforce
  with w assms(3) show ?thesis by (auto simp: postal_hook_def)
qed

section \<open>All interleavings\<close>

text \<open>
  The transactions of the callbacks, with the operations that run while a call to the middleware is
  under way.
\<close>

datatype callback_op =
    NativeHook callback_env emission string string "callback_op list"
  | BridgeHook callback_env emission string string string string "callback_op list"
  | RetryRound int emission "callback_op list"

primrec callback_step :: "callback_op \<Rightarrow> callback_db \<Rightarrow> callback_db" where
  "callback_step (NativeHook cv emit body sig ops) =
     (\<lambda>db. snd (postal_native_hook cv emit (in_turn (map callback_step ops)) body sig db))"
| "callback_step (BridgeHook cv emit body ts eid sig ops) =
     (\<lambda>db. snd (postal_hook cv emit (in_turn (map callback_step ops)) body ts eid sig db))"
| "callback_step (RetryRound t emit ops) =
     (\<lambda>db. snd (postal_retry_tick t emit (in_turn (map callback_step ops)) db))"

definition EVENT_STATES :: "string list" where
  "EVENT_STATES = [''pending'', ''retry'', ''delivered'', ''dlq'']"

definition event_typed :: "postal_event_row \<Rightarrow> bool" where
  "event_typed r \<longleftrightarrow> pe_state r \<in> set EVENT_STATES \<and> 1 \<le> pe_attempts r \<and>
     (pe_state r = ''dlq'' \<longrightarrow> MAX_EMISSIONS \<le> pe_attempts r)"

definition events_typed :: "callback_db \<Rightarrow> bool" where
  "events_typed db \<longleftrightarrow> distinct (map pe_id (cb_events db)) \<and> list_all event_typed (cb_events db)"

text \<open>What a stored event keeps: what it is about, whose it is, and the count of its attempts.\<close>

definition event_kept :: "postal_event_row \<Rightarrow> postal_event_row \<Rightarrow> bool" where
  "event_kept r s \<longleftrightarrow> pe_id s = pe_id r \<and> pe_tenant_id s = pe_tenant_id r \<and> pe_event_type s = pe_event_type r \<and>
     pe_message_id s = pe_message_id r \<and> pe_correlation_id s = pe_correlation_id r \<and>
     pe_created_at s = pe_created_at r \<and> pe_attempts r \<le> pe_attempts s"

interpretation pev: row_order event_kept pe_id
  by unfold_locales (auto simp: event_kept_def)

text \<open>An operation keeps the types and every stored event.\<close>

definition keeps_events :: "callback_db \<Rightarrow> callback_db \<Rightarrow> bool" where
  "keeps_events db db' \<longleftrightarrow> (events_typed db \<longrightarrow> events_typed db' \<and> grows event_kept (cb_events db) (cb_events db'))"

lemma keeps_refl: "keeps_events db db"
  by (simp add: keeps_events_def pev.grows_refl)

lemma keeps_trans: "keeps_events a b \<Longrightarrow> keeps_events b c \<Longrightarrow> keeps_events a c"
  unfolding keeps_events_def using pev.grows_trans by blast

lemma keeps_same: "cb_events a = cb_events b \<Longrightarrow> keeps_events a b"
  by (simp add: keeps_events_def events_typed_def pev.grows_refl)

lemma keeps_update:
  assumes "\<And>r. r \<in> set (cb_events db) \<Longrightarrow> pe_id r = eid \<Longrightarrow> event_typed r \<Longrightarrow> event_typed (f r)"
    and "\<And>r. event_kept r (f r)"
  shows "keeps_events db (update_postal_event eid f db)"
proof -
  have "map pe_id (update_rows (\<lambda>r. pe_id r = eid) f (cb_events db)) = map pe_id (cb_events db)"
    using assms(2) by (auto simp: update_rows_def event_kept_def)
  moreover have "list_all event_typed (update_rows (\<lambda>r. pe_id r = eid) f (cb_events db))"
    if "list_all event_typed (cb_events db)"
    using that assms(1) by (auto simp: list_all_iff update_rows_def)
  ultimately show ?thesis using pev.grows_update assms(2)
    by (simp add: keeps_events_def events_typed_def)
qed

lemma keeps_record: "keeps_events db (record_postal_event eid k co mid tid p t db)"
proof (cases "get_postal_event db eid")
  case None
  then have "eid \<notin> pe_id ` set (cb_events db)" by (auto simp: get_postal_event_def find_row_None)
  with None show ?thesis
    by (auto simp: record_postal_event_def keeps_events_def events_typed_def event_typed_def EVENT_STATES_def
        pev.grows_append)
next
  case (Some r)
  then show ?thesis
    by (auto simp: record_postal_event_def event_typed_def event_kept_def intro!: keeps_update)
qed

lemma keeps_finish: "keeps_events db (snd (finish_emission eid b resp db))"
proof (cases "get_postal_event db eid")
  case (Some item)
  then have item: "item \<in> set (cb_events db)" "pe_id item = eid"
    by (auto simp: get_postal_event_def dest: find_row_Some)
  have "keeps_events db (update_postal_event eid (\<lambda>r. r\<lparr>pe_state := ''delivered'', pe_last_error := None\<rparr>) db)"
    by (rule keeps_update) (auto simp: event_typed_def event_kept_def EVENT_STATES_def)
  moreover have "keeps_events db (update_postal_event eid
      (\<lambda>r. r\<lparr>pe_state := (if MAX_EMISSIONS \<le> pe_attempts item then ''dlq'' else ''retry''),
             pe_last_error := Some ''middleware_delivery_failed''\<rparr>) db)" (is "keeps_events db ?db'")
  proof (cases "distinct (map pe_id (cb_events db))")
    case True
    then have "r = item" if "r \<in> set (cb_events db)" "pe_id r = eid" for r
      using distinct_key [OF True that(1) item(1)] that(2) item(2) by simp
    then show ?thesis by (intro keeps_update) (auto simp: event_typed_def event_kept_def EVENT_STATES_def)
  qed (simp add: keeps_events_def events_typed_def)
  ultimately show ?thesis using Some by (simp add: finish_emission_def)
qed (simp add: finish_emission_def keeps_refl)

lemma keeps_settle: "keeps_events db (settle_retry t eid b db)"
proof (cases "get_postal_event db eid")
  case (Some item)
  then have item: "item \<in> set (cb_events db)" "pe_id item = eid"
    by (auto simp: get_postal_event_def dest: find_row_Some)
  have "event_typed (retry_outcome t b r)" if "event_typed r" "pe_state r = ''retry''" for r
    using that by (auto simp: event_typed_def retry_outcome_state EVENT_STATES_def)
  moreover have "event_kept r (retry_outcome t b r)" for r
    by (simp add: event_kept_def) (simp add: retry_outcome_def Let_def)
  ultimately have "keeps_events db (update_postal_event eid (retry_outcome t b) db)" if "pe_state item = ''retry''"
  proof (cases "distinct (map pe_id (cb_events db))")
    case True
    then have "r = item" if "r \<in> set (cb_events db)" "pe_id r = eid" for r
      using distinct_key [OF True that(1) item(1)] that(2) item(2) by simp
    then show ?thesis using that \<open>\<And>r. event_kept r (retry_outcome t b r)\<close>
        \<open>\<And>r. event_typed r \<Longrightarrow> pe_state r = ''retry'' \<Longrightarrow> event_typed (retry_outcome t b r)\<close>
      by (intro keeps_update) auto
  qed (simp add: keeps_events_def events_typed_def)
  then show ?thesis using Some by (simp add: settle_retry_def keeps_refl)
qed (simp add: settle_retry_def keeps_refl)

lemma keeps_deliver:
  assumes "\<And>d. keeps_events d (mw d)"
  shows "keeps_events db1 (snd (deliver_callback cv emit mw lv n db1))"
proof (cases "persist_email_event cv lv db1")
  case (Inr p)
  obtain st db2 where p: "persist_email_event cv lv db1 = Inr (st, db2)" using Inr by (cases p) auto
  let ?db3 = "update_postal_event (lv_event_id lv) (\<lambda>r. r\<lparr>pe_payload := JText (sort_doc (JObj n))\<rparr>) db2"
  have "keeps_events db1 db2" using persist_email_event_events [OF p] by (intro keeps_same) simp
  moreover have "keeps_events db2 ?db3"
    by (rule keeps_update) (auto simp: event_typed_def event_kept_def)
  ultimately have k: "keeps_events db1 (mw ?db3)" using assms keeps_trans by blast
  then show ?thesis using p keeps_trans [OF k keeps_finish]
    by (auto simp: deliver_callback_def Let_def split: sum.split)
qed (simp add: deliver_callback_def keeps_refl)

lemma keeps_native:
  assumes "\<And>d. keeps_events d (mw d)"
  shows "keeps_events db (snd (postal_native_hook cv emit mw body sig db))"
  using keeps_trans [OF keeps_record keeps_deliver [OF assms]]
  by (auto simp: postal_native_hook_def Let_def keeps_refl split: sum.split)

lemma keeps_finish_bridge:
  assumes "\<And>d. keeps_events d (mw d)"
  shows "keeps_events db (snd (finish_bridge cv emit mw eid k lk co mid p tenant db))"
  using keeps_trans [OF keeps_record assms] keeps_trans [OF keeps_trans [OF keeps_record assms] keeps_finish]
  by (auto simp: finish_bridge_def Let_def keeps_refl split: sum.split option.split)

lemma keeps_bridge:
  assumes "\<And>d. keeps_events d (mw d)"
  shows "keeps_events db (snd (postal_hook cv emit mw body ts eid sig db))"
proof -
  have start: "keeps_events db (snd (finish_bridge cv emit mw eid k lk co mid p tenant db0))"
    if "cb_events db0 = cb_events db" for k lk co mid p tenant db0
    using keeps_trans [OF keeps_same keeps_finish_bridge [OF assms]] that by metis
  have persisted: "cb_events db2 = cb_events db"
    if "persist_email_event cv lv (db\<lparr>cb_replays := r\<rparr>) = Inr (st, db2)" for lv r st db2
    using persist_email_event_events [OF that] by simp
  show ?thesis
    by (auto simp: postal_hook_def Let_def keeps_refl start persisted split: sum.split option.split prod.split)
qed

lemma keeps_retry_round:
  assumes "\<And>d. keeps_events d (mw d)"
  shows "keeps_events db (snd (retry_round t emit mw rs db))"
proof (induction rs arbitrary: db)
  case (Cons r rs)
  have "keeps_events db (snd (retry_round t emit mw rs (settle_retry t (pe_id r) b (mw db))))" for b
    using keeps_trans [OF keeps_trans [OF assms keeps_settle] Cons.IH] .
  then show ?case using Cons.IH assms
    by (auto simp: keeps_refl split: jtext.split option.split sum.split)
qed (simp add: keeps_refl)

lemma keeps_in_turn: "(\<And>f d. f \<in> set fs \<Longrightarrow> keeps_events d (f d)) \<Longrightarrow> keeps_events db (in_turn fs db)"
  by (rule in_turn_closed [where R = keeps_events]) (auto intro: keeps_refl keeps_trans)

lemma keeps_step: "keeps_events db (callback_step op db)"
  by (induction op arbitrary: db)
     (auto simp: postal_retry_tick_def intro!: keeps_native keeps_bridge keeps_retry_round keeps_in_turn)

interpretation cbs: step_system callback_step events_typed
  by unfold_locales (use keeps_step in \<open>auto simp: keeps_events_def\<close>)

text \<open>
  C25. The event table of the callbacks is well typed in every run: under any interleaving of signed
  callbacks, bridge calls and retry rounds, with any other operations running while a call to the
  middleware is under way, every event is in one of the four states, has been attempted at least once,
  and is dead-lettered only after five attempts; there is one row per event. A stored event keeps its
  identifier, tenant, kind, message and correlation for ever, and its attempts never decrease.
\<close>

theorem callback_events_typed:
  assumes "events_typed db"
  shows "events_typed (run_ops callback_step ops db) \<and>
    (\<forall>k r. get_postal_event db k = Some r \<longrightarrow>
       (\<exists>r'. get_postal_event (run_ops callback_step ops db) k = Some r' \<and> event_kept r r'))"
proof -
  have "grows event_kept (cb_events db) (cb_events (run_ops callback_step ops db))"
    using assms
  proof (induction ops arbitrary: db)
    case (Cons op ops)
    then show ?case using keeps_step [of db op] cbs.inv_step [OF Cons.prems] pev.grows_trans
      by (auto simp: keeps_events_def)
  qed (simp add: pev.grows_refl)
  then show ?thesis using cbs.inv_run [OF assms] pev.grows_find by (fastforce simp: get_postal_event_def)
qed

text \<open>
  C24. The retry loop ends. Take a well-typed event table in which at most twenty events wait for a
  retry (one round's worth: state \<open>retry\<close>, fewer than five attempts), each with a stored object of a
  declared event type and last updated at least a minute before the first round. Then four rounds at
  least a minute apart, in which every emission answers yes or no, settle all of them: each is
  delivered, or dead-lettered at exactly its fifth attempt, under its identifier and tenant. Every
  other event is left exactly as it was, and no event is lost or invented. What is still in state
  \<open>retry\<close> afterwards had already five attempts before: no round selects such an event.
\<close>

theorem retries_terminate:
  assumes "events_typed db"
    and "length (filter waiting (cb_events db)) \<le> 20"
    and "\<forall>r \<in> set (cb_events db). waiting r \<longrightarrow> emittable r \<and> pe_updated_at r + 60000000 \<le> t"
    and "spaced t ticks" and "\<forall>(t, emit) \<in> set ticks. answered emit" and "4 \<le> length ticks"
  shows "list_all2 settled_like (cb_events db) (cb_events (retry_run ticks db)) \<and>
    (\<forall>r \<in> set (cb_events (retry_run ticks db)). pe_state r = ''retry'' \<longrightarrow>
       r \<in> set (cb_events db) \<and> 5 \<le> pe_attempts r)"
proof -
  have ready: "retry_ready t db" using assms(1-3) by (simp add: retry_ready_def events_typed_def)
  have "1 \<le> pe_attempts r" if "r \<in> set (cb_events db)" for r
    using assms(1) that by (auto simp: events_typed_def event_typed_def list_all_iff)
  then have s: "list_all2 settled_like (cb_events db) (cb_events (retry_run ticks db))"
    by (intro retry_run_settles [OF ready assms(4-6)]) (simp add: MAX_EMISSIONS_def)
  have "r = r' \<and> 5 \<le> pe_attempts r" if "settled_like r r'" "pe_state r' = ''retry''" for r r'
    using that by (auto simp: settled_like_def waiting_def MAX_EMISSIONS_def split: if_splits)
  moreover have "\<exists>r \<in> set (cb_events db). settled_like r r'" if "r' \<in> set (cb_events (retry_run ticks db))" for r'
    using s that by (fastforce simp: list_all2_conv_all_nth in_set_conv_nth)
  ultimately show ?thesis using s by blast
qed

section \<open>Witnesses\<close>

definition sample_document :: "string \<Rightarrow> json" where
  "sample_document event_name =
     JObj [(''uuid'', JStr ''v1''), (''event'', JStr event_name), (''timestamp'', JInt 0),
           (''payload'', JObj [(''message'', JObj [(''tag'', JStr ''m-d1''), (''to'', JStr ''R@b.org'')])])]"

definition sample_callback :: "string \<Rightarrow> string \<Rightarrow> callback" where
  "sample_callback event_name kind =
     \<lparr>cl_event_id = ''v1'', cl_timestamp = Finite 0, cl_event_name = event_name, cl_canonical = kind,
      cl_raw = [(''uuid'', JStr ''v1''), (''event'', JStr event_name), (''timestamp'', JInt 0),
                (''payload'', JObj [(''message'', JObj [(''tag'', JStr ''m-d1''), (''to'', JStr ''R@b.org'')])])],
      cl_payload = [(''message'', JObj [(''tag'', JStr ''m-d1''), (''to'', JStr ''R@b.org'')])],
      cl_message = [(''tag'', JStr ''m-d1''), (''to'', JStr ''R@b.org'')]\<rparr>"

definition sample_hook_env :: "json \<Rightarrow> callback_env" where
  "sample_hook_env doc =
     \<lparr>cv_env = env_of [(''KLYROW_POSTAL_WEBHOOK_PUBLIC_KEY'', ''/k''), (''KLYROW_WEBHOOK_SECRET'', ''s'')],
      cv_now = 10, cv_codec = plain_codec doc, cv_repr = (\<lambda>_. []), cv_public_key = (\<lambda>_. Some ''pem''),
      cv_b64 = Some, cv_rsa = (\<lambda>_ s b. s = b), cv_hmac = (\<lambda>_ _. ''mac''),
      cv_files = \<lparr>fl_text = (\<lambda>_. None), fl_symlink = (\<lambda>_. False)\<rparr>, cv_audit_ids = (''u1'', ''u2''),
      cv_suppression_id = ''u3''\<rparr>"

definition sample_message :: "string \<Rightarrow> string \<Rightarrow> core_message_row" where
  "sample_message mid tid = \<lparr>cm_id = mid, cm_tenant_id = tid, cm_recipient = ''r@b.org'', cm_sender = ''n@a.org'',
     cm_subject = ''hi'', cm_status = ''submitted'', cm_created_at = 0\<rparr>"

definition callback_sample :: callback_db where
  "callback_sample = \<lparr>cb_mail = mail_sample\<lparr>gd_messages := [sample_message ''m-d1'' ''t1'', sample_message ''m-d2'' ''t1'']\<rparr>,
     cb_events = [], cb_mappings = [], cb_audits = [], cb_replays = []\<rparr>"

lemma sample_read:
  "read_callback (sample_hook_env (sample_document ''MessageLoaded'')) ''b'' ''b'' =
     Inr (sample_callback ''MessageLoaded'' ''email.opened'')"
  "read_callback (sample_hook_env (sample_document ''MessageBounced'')) ''b'' ''b'' =
     Inr (sample_callback ''MessageBounced'' ''email.bounced'')"
  by code_simp+

lemma sample_resolve:
  "resolve_attribution (cv_env (sample_hook_env doc)) callback_sample (sample_callback event_name kind) =
     Inr \<lparr>ab_tenant_id = ''t1'', ab_local_message_id = Some ''m-d1'', ab_source = ''outbox_tag''\<rparr>"
  by code_simp

definition sample_hook where
  "sample_hook event_name = postal_native_hook (sample_hook_env (sample_document event_name)) (\<lambda>_ _. Inr True) (\<lambda>d. d)
     ''b'' ''b'' callback_sample"

theorem interaction_callback_stranded_witness:
  "\<exists>db' item. sample_hook ''MessageLoaded'' = (Inl (RuntimeError ''noncanonical_message_status''), db') \<and>
     get_postal_event db' ''v1'' = Some item \<and> pe_state item = ''pending'' \<and> pe_attempts item = 1"
proof -
  have "get_message (cb_mail callback_sample) (rs_local_message_id (resolve_ids (cb_mail callback_sample)
      (sample_callback ''MessageLoaded'' ''email.opened'')
      \<lparr>ab_tenant_id = ''t1'', ab_local_message_id = Some ''m-d1'', ab_source = ''outbox_tag''\<rparr>)) \<noteq> None"
    by code_simp
  moreover have "case get_postal_event callback_sample (cl_event_id (sample_callback ''MessageLoaded'' ''email.opened'')) of
      None \<Rightarrow> (0::int) = 0 | Some r \<Rightarrow> pe_state r = ''pending'' \<and> 0 = pe_attempts r"
    by (simp add: get_postal_event_def callback_sample_def)
  ultimately show ?thesis
    using interaction_callback_stranded [OF sample_read(1) _ sample_resolve _, of 0 0 "\<lambda>_ _. Inr True" "\<lambda>d. d"]
    by (auto simp: sample_hook_def sample_callback_def)
qed

theorem bounce_blocks_next_send_witness:
  "\<exists>db'. sample_hook ''MessageBounced'' = (Inr (JObj [(''accepted'', JBool True)]), db') \<and>
     (\<forall>a. authorize_send (guard_db.truncate (cb_mail db')) (\<lambda>_. []) (env_of []) 0 ''t1'' ''n@a.org'' ''r@B.org'' ''transactional''
       False None ''topic'' \<noteq> Inr a)"
proof -
  have "fst (sample_hook ''MessageBounced'') = Inr (JObj [(''accepted'', JBool True)])" by code_simp
  then obtain db' where h: "sample_hook ''MessageBounced'' = (Inr (JObj [(''accepted'', JBool True)]), db')"
    by (cases "sample_hook ''MessageBounced''") auto
  have c: "classify_bounce (json_or (obj_get (cl_payload (sample_callback ''MessageBounced'' ''email.bounced'')) ''status'')
      (JStr ''bounced'')) = Inr (''bounced'', True)"
    "callback_recipient (cl_message (sample_callback ''MessageBounced'' ''email.bounced'')) \<noteq> []"
    "lower ''r@B.org'' = lower (callback_recipient (cl_message (sample_callback ''MessageBounced'' ''email.bounced'')))"
    by code_simp+
  from bounce_blocks_next_send [OF h [unfolded sample_hook_def] _ sample_read(2) _ sample_resolve c] h
  show ?thesis by (auto simp: sample_callback_def)
qed

theorem callback_confined_witness:
  "tenant_slice ''t2'' (snd (sample_hook ''MessageBounced'')) = tenant_slice ''t2'' callback_sample \<and>
   status_only (\<lambda>x. cm_tenant_id x = ''t1'' \<or> \<not> has_outbox (cb_mail callback_sample) x)
     (gd_messages (cb_mail callback_sample)) (gd_messages (cb_mail (snd (sample_hook ''MessageBounced''))))"
proof -
  let ?cl = "sample_callback ''MessageBounced'' ''email.bounced''"
  obtain res db' where h: "sample_hook ''MessageBounced'' = (res, db')" by fastforce
  have "mail_tables_ok (cb_mail callback_sample)"
    by (simp add: mail_tables_ok_def callback_sample_def mail_sample_def outbox_sample_def sample_message_def)
  moreover have "get_postal_event callback_sample (cl_event_id ?cl) = None"
    by (simp add: get_postal_event_def callback_sample_def)
  moreover have "get_message (cb_mail callback_sample) (cl_event_id ?cl) = None" by code_simp
  ultimately show ?thesis
    using callback_confined [OF _ sample_read(2) _ _ h [unfolded sample_hook_def]] h by (simp add: sample_resolve)
qed

text \<open>
  The exception at work. The callback names Postal server 9 of tenant \<open>t1\<close> and has no tag, but its
  message identifier (a header that the sender chooses) is that of a message of tenant \<open>t2\<close> which was
  accepted in safe mode, without an outbox row. It is attributed to \<open>t1\<close>, and the message of \<open>t2\<close> is
  marked bounced.
\<close>

definition crossing_document :: json where
  "crossing_document =
     JObj [(''uuid'', JStr ''v1''), (''event'', JStr ''MessageBounced''), (''timestamp'', JInt 0),
           (''payload'', JObj [(''server_id'', JStr ''9''),
              (''message'', JObj [(''id'', JStr ''77''), (''message_id'', JStr ''m-safe''), (''to'', JStr ''x@b.org'')])])]"

definition crossing_sample :: callback_db where
  "crossing_sample = callback_sample\<lparr>
     cb_mail := (cb_mail callback_sample)\<lparr>gd_messages := [(sample_message ''m-safe'' ''t2'')\<lparr>cm_status := ''accepted''\<rparr>],
        ml_outbox := []\<rparr>,
     cb_mappings := [(fresh_mapping 0 ''t1'')\<lparr>pt_state := READY, pt_provider_server_id := Some ''9''\<rparr>]\<rparr>"

theorem callback_crosses_tenant:
  "mail_tables_ok (cb_mail crossing_sample) \<and>
   (\<exists>db'. postal_native_hook (sample_hook_env crossing_document) (\<lambda>_ _. Inr True) (\<lambda>d. d) ''b'' ''b'' crossing_sample =
        (Inr (JObj [(''accepted'', JBool True)]), db') \<and>
      map pe_tenant_id (cb_events db') = [''t1''] \<and>
      gd_messages (cb_mail db') = [(sample_message ''m-safe'' ''t2'')\<lparr>cm_status := ''bounced''\<rparr>])"
proof
  show "mail_tables_ok (cb_mail crossing_sample)" by code_simp
  let ?h = "postal_native_hook (sample_hook_env crossing_document) (\<lambda>_ _. Inr True) (\<lambda>d. d) ''b'' ''b'' crossing_sample"
  have "fst ?h = Inr (JObj [(''accepted'', JBool True)])"
    "map pe_tenant_id (cb_events (snd ?h)) = [''t1'']"
    "gd_messages (cb_mail (snd ?h)) = [(sample_message ''m-safe'' ''t2'')\<lparr>cm_status := ''bounced''\<rparr>]"
    by code_simp+
  then show "\<exists>db'. ?h = (Inr (JObj [(''accepted'', JBool True)]), db') \<and> map pe_tenant_id (cb_events db') = [''t1''] \<and>
      gd_messages (cb_mail db') = [(sample_message ''m-safe'' ''t2'')\<lparr>cm_status := ''bounced''\<rparr>]"
    by (intro exI [of _ "snd ?h"]) (simp add: prod_eq_iff)
qed

definition sample_event :: postal_event_row where
  "sample_event = \<lparr>pe_id = ''v1'', pe_event_type = ''email.delivered'', pe_correlation_id = ''c'', pe_message_id = ''m-d1'',
     pe_tenant_id = ''t1'', pe_payload = JText (JObj []), pe_state = ''retry'', pe_attempts = 1, pe_last_error = None,
     pe_created_at = 0, pe_updated_at = 0\<rparr>"

theorem retries_terminate_witness:
  "list_all2 settled_like [sample_event, sample_event\<lparr>pe_id := ''v2'', pe_attempts := 5\<rparr>]
     (cb_events (retry_run (map (\<lambda>k. (60000000 * k, \<lambda>_ _. Inr False)) [1, 2, 3, 4])
       (callback_sample\<lparr>cb_events := [sample_event, sample_event\<lparr>pe_id := ''v2'', pe_attempts := 5\<rparr>]\<rparr>)))"
proof -
  let ?rows = "[sample_event, sample_event\<lparr>pe_id := ''v2'', pe_attempts := 5\<rparr>]"
  let ?db = "callback_sample\<lparr>cb_events := ?rows\<rparr>"
  let ?ticks = "map (\<lambda>k. (60000000 * k, \<lambda>_ _. Inr False)) [1, 2, 3, 4] :: (int \<times> emission) list"
  have typed: "events_typed ?db"
    by (simp add: events_typed_def event_typed_def EVENT_STATES_def sample_event_def)
  have few: "length (filter waiting (cb_events ?db)) \<le> 20"
    by (rule order_trans [OF length_filter_le]) simp
  have due: "\<forall>r \<in> set (cb_events ?db). waiting r \<longrightarrow> emittable r \<and> pe_updated_at r + 60000000 \<le> 60000000"
    by (simp add: waiting_def sample_event_def emittable_def SMTP_EVENT_MAP_def MAX_EMISSIONS_def)
  have "answered (\<lambda>_ _. Inr False)" unfolding answered_def by blast
  then have ticks: "spaced 60000000 ?ticks" "\<forall>(t, emit) \<in> set ?ticks. answered emit" "4 \<le> length ?ticks"
    by simp_all
  from retries_terminate [OF typed few due ticks] show ?thesis by simp
qed

definition bridge_document :: json where
  "bridge_document = JObj [(''event'', JStr ''email.delivered''), (''message_id'', JStr ''m-d1'')]"

definition sample_bridge where
  "sample_bridge db = postal_hook (sample_hook_env bridge_document) (\<lambda>_ _. Inr True) (\<lambda>d. d) ''b'' ''0'' ''v1'' ''mac'' db"

theorem bridge_event_lost_witness:
  "\<exists>db1. sample_bridge callback_sample = (Inl (IntegrityError ''postal_events.tenant_id''), db1) \<and>
     waits_for_nobody ''v1'' db1 \<and>
     sample_bridge db1 = (Inr (JObj [(''accepted'', JBool True), (''duplicate'', JBool True)]), db1)"
proof -
  have "fst (sample_bridge callback_sample) = Inl (IntegrityError ''postal_events.tenant_id'')"
    "''v1'' \<in> set (cb_replays (snd (sample_bridge callback_sample)))"
    by code_simp+
  then obtain db1 where h: "sample_bridge callback_sample = (Inl (IntegrityError ''postal_events.tenant_id''), db1)"
      "''v1'' \<in> set (cb_replays db1)"
    by (cases "sample_bridge callback_sample") auto
  have v: "verify_bridge (sample_hook_env bridge_document) ''b'' ''0'' ''v1'' ''mac'' = Inr ()" by code_simp
  from bridge_event_lost [OF h(1) [unfolded sample_bridge_def] _ h(2)] v h(1) show ?thesis
    by (simp add: sample_bridge_def callback_sample_def)
qed

theorem callback_events_typed_witness:
  "events_typed (run_ops callback_step
     [NativeHook (sample_hook_env (sample_document ''MessageSent'')) (\<lambda>_ _. Inr False) ''b'' ''b''
        [RetryRound 5 (\<lambda>_ _. Inr True) []]]
     (callback_sample\<lparr>cb_events := [sample_event]\<rparr>))"
proof -
  have "events_typed (callback_sample\<lparr>cb_events := [sample_event]\<rparr>)"
    by (simp add: events_typed_def event_typed_def EVENT_STATES_def sample_event_def)
  then show ?thesis using callback_events_typed by blast
qed

end
