(* ===== verification/ProviderOutbox.thy ===== *)
theory ProviderOutbox
  imports Contracts ReplayPayloads MiddlewareEvents
begin

text \<open>
  \<open>provider_outbox_delivery.py\<close>: the dispatch of provider events and usage events to the middleware
  and the tenant's counts. One function serves two tables whose lease is a different column, so a row
  is an event row or a usage row, and the functions that the code applies to either are defined by
  cases. \<open>emit\<close> is the call to the middleware, \<open>meanwhile\<close> what other transactions do during it.
\<close>

section \<open>Rows\<close>

record usage_delivery_row = usage_event_row +
  ud_stream :: string
  ud_billable_units :: int
  ud_result_category :: string

datatype queued_row = EventRow provider_event_row | UsageRow usage_delivery_row

datatype outbox_model = ProviderEvents | ProviderUsageEvents

record outbox_db =
  ob_events :: "queued_row list"
  ob_usages :: "queued_row list"

fun outbox_table :: "outbox_model \<Rightarrow> outbox_db \<Rightarrow> queued_row list" where
  "outbox_table ProviderEvents db = ob_events db"
| "outbox_table ProviderUsageEvents db = ob_usages db"

fun put_table :: "outbox_model \<Rightarrow> queued_row list \<Rightarrow> outbox_db \<Rightarrow> outbox_db" where
  "put_table ProviderEvents t db = db\<lparr>ob_events := t\<rparr>"
| "put_table ProviderUsageEvents t db = db\<lparr>ob_usages := t\<rparr>"

fun qr_id :: "queued_row \<Rightarrow> string" where
  "qr_id (EventRow r) = pv_id r" | "qr_id (UsageRow r) = ue_id r"

fun qr_tenant :: "queued_row \<Rightarrow> string" where
  "qr_tenant (EventRow r) = pv_tenant_id r" | "qr_tenant (UsageRow r) = ue_tenant_id r"

fun qr_state :: "queued_row \<Rightarrow> string" where
  "qr_state (EventRow r) = pv_state r" | "qr_state (UsageRow r) = ue_state r"

fun qr_attempts :: "queued_row \<Rightarrow> int" where
  "qr_attempts (EventRow r) = pv_attempts r" | "qr_attempts (UsageRow r) = ue_attempts r"

fun qr_available :: "queued_row \<Rightarrow> int" where
  "qr_available (EventRow r) = pv_available_at r" | "qr_available (UsageRow r) = ue_available_at r"

fun qr_created :: "queued_row \<Rightarrow> int" where
  "qr_created (EventRow r) = pv_created_at r" | "qr_created (UsageRow r) = ue_created_at r"

text \<open>The lease column: an event's \<open>updated_at\<close>, a usage row's \<open>available_at\<close>.\<close>

fun qr_lease :: "queued_row \<Rightarrow> int" where
  "qr_lease (EventRow r) = pv_updated_at r" | "qr_lease (UsageRow r) = ue_available_at r"

section \<open>The claim\<close>

definition FIVE_MINUTES :: int where "FIVE_MINUTES = 300 * 1000000"

fun expired_before :: "outbox_model \<Rightarrow> int \<Rightarrow> int" where
  "expired_before ProviderEvents t = t - FIVE_MINUTES"
| "expired_before ProviderUsageEvents t = t"

fun claim_stamp :: "outbox_model \<Rightarrow> int \<Rightarrow> int" where
  "claim_stamp ProviderEvents t = t"
| "claim_stamp ProviderUsageEvents t = t + FIVE_MINUTES"

fun requeued :: "int \<Rightarrow> queued_row \<Rightarrow> queued_row" where
  "requeued t (EventRow r) = EventRow (r\<lparr>pv_state := ''RETRY'', pv_available_at := t,
     pv_last_error := Some ''delivery_lease_expired''\<rparr>)"
| "requeued t (UsageRow r) = UsageRow (r\<lparr>ue_state := ''RETRY'', ue_available_at := t,
     ue_last_error := Some ''delivery_lease_expired''\<rparr>)"

fun claimed :: "int \<Rightarrow> queued_row \<Rightarrow> queued_row" where
  "claimed c (EventRow r) = EventRow (r\<lparr>pv_state := ''PROCESSING'', pv_updated_at := c\<rparr>)"
| "claimed c (UsageRow r) = UsageRow (r\<lparr>ue_state := ''PROCESSING'', ue_available_at := c\<rparr>)"

text \<open>What a claim remembers of a row: its identifier, the kind of event and the document.\<close>

type_synonym snapshot_item = "string \<times> string \<times> jtext"

fun snapshot_of :: "(int \<Rightarrow> string) \<Rightarrow> queued_row \<Rightarrow> snapshot_item" where
  "snapshot_of isoformat (EventRow r) = (pv_id r, pv_kind r, pv_payload_json r)"
| "snapshot_of isoformat (UsageRow r) =
     (ue_id r, ''klyrow.usage.recorded'', JText (JObj
        [(''event_id'', JStr (ue_id r)), (''usage_event_id'', JStr (ue_id r)), (''tenant_id'', JStr (ue_tenant_id r)),
         (''message_id'', JStr (ue_message_id r)), (''stream'', JStr (ud_stream r)),
         (''billable_units'', JInt (ud_billable_units r)), (''timestamp'', JStr (isoformat (ue_created_at r))),
         (''provider_result_category'', JStr (ud_result_category r))]))"

definition stale_row :: "outbox_model \<Rightarrow> int \<Rightarrow> (string \<Rightarrow> bool) \<Rightarrow> queued_row \<Rightarrow> bool" where
  "stale_row m t locked r \<longleftrightarrow> qr_state r = ''PROCESSING'' \<and> qr_lease r < expired_before m t \<and> \<not> locked (qr_id r)"

definition dispatchable :: "int \<Rightarrow> (string \<Rightarrow> bool) \<Rightarrow> queued_row \<Rightarrow> bool" where
  "dispatchable t locked r \<longleftrightarrow> qr_state r \<in> {''PENDING'', ''RETRY''} \<and> qr_available r \<le> t \<and> \<not> locked (qr_id r)"

definition recover_stale :: "outbox_model \<Rightarrow> int \<Rightarrow> nat \<Rightarrow> (string \<Rightarrow> bool) \<Rightarrow> queued_row list \<Rightarrow> queued_row list" where
  "recover_stale m t limit locked rows =
     (let stale = map qr_id (take limit (filter (stale_row m t locked) rows))
      in update_rows (\<lambda>r. qr_id r \<in> set stale) (requeued t) rows)"

definition claim_outbox ::
  "(int \<Rightarrow> string) \<Rightarrow> outbox_model \<Rightarrow> int \<Rightarrow> nat \<Rightarrow> (string \<Rightarrow> bool) \<Rightarrow> queued_row list \<Rightarrow>
     snapshot_item list \<times> queued_row list" where
  "claim_outbox isoformat m t limit locked rows =
     (let rows1 = recover_stale m t limit locked rows;
          items = select_rows (\<lambda>r. (qr_created r, qr_id r)) (dispatchable t locked) limit rows1
      in (map (snapshot_of isoformat) items,
          update_rows (\<lambda>r. qr_id r \<in> qr_id ` set items) (claimed (claim_stamp m t)) rows1))"

section \<open>One delivery\<close>

fun failure_code :: "outbox_model \<Rightarrow> string" where
  "failure_code ProviderEvents = ''server_a_delivery_failed''"
| "failure_code ProviderUsageEvents = ''billing_control_plane_delivery_failed''"

text \<open>The event to emit, or the error that is recorded instead.\<close>

definition prepared_event :: "outbox_model \<Rightarrow> snapshot_item \<Rightarrow> string + (string \<times> (string \<times> json) list)" where
  "prepared_event m item =
     (case item of (item_id, kind, raw) \<Rightarrow>
        (case raw of
           BadText _ \<Rightarrow> Inl ''invalid_provider_event_payload''
         | JText doc \<Rightarrow>
             (case json_obj doc of
                None \<Rightarrow> Inl ''invalid_provider_event_payload''
              | Some p \<Rightarrow>
                  (let payload = (if truthy (obj_get p ''event_id'') then p else obj_set ''event_id'' (JStr item_id) p)
                   in case (case m of ProviderEvents \<Rightarrow> map_of SMTP_EVENT_MAP kind
                            | ProviderUsageEvents \<Rightarrow> Some ''klyrow.usage.recorded'') of
                        None \<Rightarrow> Inl ''unsupported_provider_event_kind''
                      | Some event_type \<Rightarrow> Inr (event_type, payload)))))"

definition attempt_delivery ::
  "(string \<Rightarrow> (string \<times> json) list \<Rightarrow> bool res) \<Rightarrow> outbox_model \<Rightarrow> snapshot_item \<Rightarrow> bool \<times> string" where
  "attempt_delivery emit m item =
     (case prepared_event m item of
        Inl error \<Rightarrow> (False, error)
      | Inr (event_type, payload) \<Rightarrow>
          (case emit event_type payload of
             Inr ok \<Rightarrow> (ok, failure_code m)
           | Inl (TypeError _) \<Rightarrow> (False, ''invalid_provider_event_payload'')
           | Inl (ValueError _) \<Rightarrow> (False, ''invalid_provider_event_payload'')
           | Inl _ \<Rightarrow> (False, ''middleware_delivery_exception'')))"

definition MAX_DELIVERIES :: int where "MAX_DELIVERIES = 8"

definition retry_delay :: "int \<Rightarrow> int" where
  "retry_delay attempts = min 900 (2 ^ nat (min attempts 10)) * 1000000"

fun reported :: "int \<Rightarrow> bool \<Rightarrow> string \<Rightarrow> queued_row \<Rightarrow> queued_row" where
  "reported t ok error (EventRow r) =
     (let n = pv_attempts r + 1;
          r1 = r\<lparr>pv_attempts := n, pv_last_error := (if ok then None else Some error), pv_updated_at := t\<rparr>
      in EventRow (if ok then r1\<lparr>pv_state := ''DELIVERED''\<rparr>
                   else r1\<lparr>pv_state := (if MAX_DELIVERIES \<le> n then ''DEAD_LETTER'' else ''RETRY''),
                          pv_available_at := t + retry_delay n\<rparr>))"
| "reported t ok error (UsageRow r) =
     (let n = ue_attempts r + 1;
          r1 = r\<lparr>ue_attempts := n, ue_last_error := (if ok then None else Some error)\<rparr>
      in UsageRow (if ok then r1\<lparr>ue_state := ''DELIVERED''\<rparr>
                   else r1\<lparr>ue_state := (if MAX_DELIVERIES \<le> n then ''DEAD_LETTER'' else ''RETRY''),
                          ue_available_at := t + retry_delay n\<rparr>))"

text \<open>The claim is still this one: the row is in delivery under the same lease.\<close>

definition holds_claim :: "int \<Rightarrow> string \<Rightarrow> queued_row \<Rightarrow> bool" where
  "holds_claim claim item_id r \<longleftrightarrow> qr_id r = item_id \<and> qr_state r = ''PROCESSING'' \<and> qr_lease r = claim"

definition report_delivery_outcome ::
  "outbox_model \<Rightarrow> int \<Rightarrow> int \<Rightarrow> string \<Rightarrow> bool \<Rightarrow> string \<Rightarrow> outbox_db \<Rightarrow> bool \<times> outbox_db" where
  "report_delivery_outcome m claim t item_id ok error db =
     (case find_row (holds_claim claim item_id) (outbox_table m db) of
        None \<Rightarrow> (False, db)
      | Some _ \<Rightarrow> (True, put_table m (update_rows (\<lambda>r. qr_id r = item_id) (reported t ok error) (outbox_table m db)) db))"

record dispatch_counts =
  dc_delivered :: nat
  dc_failed :: nat

fun deliver_snapshots ::
  "(string \<Rightarrow> (string \<times> json) list \<Rightarrow> bool res) \<Rightarrow> (outbox_db \<Rightarrow> outbox_db) \<Rightarrow> outbox_model \<Rightarrow> int \<Rightarrow> (string \<Rightarrow> int) \<Rightarrow>
     snapshot_item list \<Rightarrow> dispatch_counts \<times> outbox_db \<Rightarrow> dispatch_counts \<times> outbox_db" where
  "deliver_snapshots emit meanwhile m claim later [] acc = acc"
| "deliver_snapshots emit meanwhile m claim later (item # items) (counts, db) =
     (case attempt_delivery emit m item of (ok, error) \<Rightarrow>
        (case report_delivery_outcome m claim (later (fst item)) (fst item) ok error (meanwhile db) of
           (False, db1) \<Rightarrow> deliver_snapshots emit meanwhile m claim later items (counts, db1)
         | (True, db1) \<Rightarrow>
             deliver_snapshots emit meanwhile m claim later items
               (if ok then counts\<lparr>dc_delivered := dc_delivered counts + 1\<rparr>
                else counts\<lparr>dc_failed := dc_failed counts + 1\<rparr>, db1)))"

text \<open>One table: claim at \<open>t\<close>, then deliver and report row by row.\<close>

definition dispatch_table ::
  "(int \<Rightarrow> string) \<Rightarrow> (string \<Rightarrow> (string \<times> json) list \<Rightarrow> bool res) \<Rightarrow> (outbox_db \<Rightarrow> outbox_db) \<Rightarrow> (string \<Rightarrow> bool) \<Rightarrow>
     (string \<Rightarrow> int) \<Rightarrow> nat \<Rightarrow> outbox_model \<Rightarrow> int \<Rightarrow> outbox_db \<Rightarrow> dispatch_counts \<times> outbox_db" where
  "dispatch_table isoformat emit meanwhile locked later limit m t db =
     (case claim_outbox isoformat m t limit locked (outbox_table m db) of (items, rows) \<Rightarrow>
        deliver_snapshots emit meanwhile m (claim_stamp m t) later items
          (\<lparr>dc_delivered = 0, dc_failed = 0\<rparr>, put_table m rows db))"

definition dispatch ::
  "(int \<Rightarrow> string) \<Rightarrow> (string \<Rightarrow> (string \<times> json) list \<Rightarrow> bool res) \<Rightarrow> (outbox_db \<Rightarrow> outbox_db) \<Rightarrow> (string \<Rightarrow> bool) \<Rightarrow>
     (string \<Rightarrow> int) \<Rightarrow> int \<Rightarrow> int \<Rightarrow> int \<Rightarrow> outbox_db \<Rightarrow> (dispatch_counts \<times> dispatch_counts \<times> outbox_db) res" where
  "dispatch isoformat emit meanwhile locked later limit t_events t_usage db =
     (if \<not> (1 \<le> limit \<and> limit \<le> 50) then Inl (ValueError ''provider_outbox_limit_out_of_range'')
      else (case dispatch_table isoformat emit meanwhile locked later (nat limit) ProviderEvents t_events db of
              (events, db1) \<Rightarrow>
                (case dispatch_table isoformat emit meanwhile locked later (nat limit) ProviderUsageEvents t_usage db1 of
                   (usage, db2) \<Rightarrow> Inr (events, usage, db2))))"

section \<open>The counts of a tenant\<close>

definition STATUS_STATES :: "string list" where
  "STATUS_STATES = [''PENDING'', ''PROCESSING'', ''RETRY'', ''DEAD_LETTER'', ''DELIVERED'', ''SKIPPED'']"

definition queue_status :: "string \<Rightarrow> queued_row list \<Rightarrow> (string \<times> nat) list" where
  "queue_status tenant_id rows =
     map (\<lambda>state. (state, count_rows (\<lambda>r. qr_tenant r = tenant_id \<and> qr_state r = state) rows)) STATUS_STATES"

definition reconciliation_required :: "string \<Rightarrow> outbox_db \<Rightarrow> bool" where
  "reconciliation_required tenant_id db \<longleftrightarrow>
     list_ex (\<lambda>rows. 0 < the (map_of (queue_status tenant_id rows) ''DEAD_LETTER'')) [ob_events db, ob_usages db]"

section \<open>Lemmas\<close>

lemma outbox_table_put [simp]:
  "outbox_table m (put_table m' t db) = (if m = m' then t else outbox_table m db)"
  by (cases m; cases m') auto

lemma row_step_simps [simp]:
  "qr_id (requeued t r) = qr_id r" "qr_tenant (requeued t r) = qr_tenant r" "qr_created (requeued t r) = qr_created r"
  "qr_attempts (requeued t r) = qr_attempts r" "qr_state (requeued t r) = ''RETRY''"
  "qr_id (claimed c r) = qr_id r" "qr_tenant (claimed c r) = qr_tenant r" "qr_created (claimed c r) = qr_created r"
  "qr_attempts (claimed c r) = qr_attempts r" "qr_state (claimed c r) = ''PROCESSING''" "qr_lease (claimed c r) = c"
  "snapshot_of isoformat (requeued t r) = snapshot_of isoformat r"
  "snapshot_of isoformat (claimed c r) = snapshot_of isoformat r"
  by (cases r; simp)+

lemma reported_simps [simp]:
  "qr_id (reported t ok e r) = qr_id r" "qr_tenant (reported t ok e r) = qr_tenant r"
  "qr_created (reported t ok e r) = qr_created r" "qr_attempts (reported t ok e r) = qr_attempts r + 1"
  "snapshot_of isoformat (reported t ok e r) = snapshot_of isoformat r"
  "qr_state (reported t ok e r) =
     (if ok then ''DELIVERED'' else if MAX_DELIVERIES \<le> qr_attempts r + 1 then ''DEAD_LETTER'' else ''RETRY'')"
  by (cases r; simp add: Let_def)+

lemma fst_snapshot_of [simp]: "fst (snapshot_of isoformat r) = qr_id r"
  by (cases r) auto

definition outbox_settled :: "queued_row \<Rightarrow> bool" where
  "outbox_settled r \<longleftrightarrow> qr_state r \<in> {''DELIVERED'', ''DEAD_LETTER'', ''SKIPPED''}"

definition queued_typed :: "queued_row \<Rightarrow> bool" where
  "queued_typed r \<longleftrightarrow> qr_state r \<in> set STATUS_STATES \<and> 0 \<le> qr_attempts r \<and> qr_attempts r \<le> MAX_DELIVERIES \<and>
     (qr_state r \<in> {''PENDING'', ''PROCESSING'', ''RETRY''} \<longrightarrow> qr_attempts r < MAX_DELIVERIES)"

text \<open>What a dispatch may do to a row: nothing once it is settled, else never lose its content.\<close>

definition queued_kept :: "queued_row \<Rightarrow> queued_row \<Rightarrow> bool" where
  "queued_kept r s \<longleftrightarrow> qr_id s = qr_id r \<and> qr_tenant s = qr_tenant r \<and>
     (\<forall>isoformat. snapshot_of isoformat s = snapshot_of isoformat r) \<and> qr_attempts r \<le> qr_attempts s \<and>
     (queued_typed r \<longrightarrow> queued_typed s) \<and> (outbox_settled r \<longrightarrow> s = r)"

interpretation pob: row_order queued_kept qr_id
  by unfold_locales (auto simp: queued_kept_def)

definition outbox_ok :: "queued_row list \<Rightarrow> bool" where
  "outbox_ok rows \<longleftrightarrow> distinct (map qr_id rows) \<and> list_all queued_typed rows"

definition keeps_outbox :: "outbox_db \<Rightarrow> outbox_db \<Rightarrow> bool" where
  "keeps_outbox db db' \<longleftrightarrow> (\<forall>m. outbox_ok (outbox_table m db) \<longrightarrow>
     outbox_ok (outbox_table m db') \<and> grows queued_kept (outbox_table m db) (outbox_table m db'))"

lemma keeps_outbox_refl: "keeps_outbox db db"
  by (simp add: keeps_outbox_def pob.grows_refl)

lemma keeps_outbox_trans: "keeps_outbox a b \<Longrightarrow> keeps_outbox b c \<Longrightarrow> keeps_outbox a c"
  unfolding keeps_outbox_def using pob.grows_trans by metis

lemma keeps_outbox_update:
  assumes "\<And>r. r \<in> set (outbox_table m db) \<Longrightarrow> P r \<Longrightarrow> distinct (map qr_id (outbox_table m db)) \<Longrightarrow> queued_kept r (f r)"
  shows "keeps_outbox db (put_table m (update_rows P f (outbox_table m db)) db)"
proof -
  have "outbox_ok (update_rows P f (outbox_table m db)) \<and> grows queued_kept (outbox_table m db) (update_rows P f (outbox_table m db))"
    if ok: "outbox_ok (outbox_table m db)"
  proof -
    have kept: "queued_kept r (f r)" if "r \<in> set (outbox_table m db)" "P r" for r
      using assms that ok by (simp add: outbox_ok_def)
    then have "map qr_id (update_rows P f (outbox_table m db)) = map qr_id (outbox_table m db)"
      by (auto simp: update_rows_def queued_kept_def)
    moreover have "list_all queued_typed (update_rows P f (outbox_table m db))"
      using ok kept by (auto simp: outbox_ok_def list_all_iff update_rows_def queued_kept_def)
    ultimately show ?thesis using ok kept pob.grows_update by (auto simp: outbox_ok_def)
  qed
  then show ?thesis by (simp add: keeps_outbox_def pob.grows_refl)
qed

lemma kept_requeued: "qr_state r = ''PROCESSING'' \<Longrightarrow> queued_kept r (requeued t r)"
  by (auto simp: queued_kept_def queued_typed_def outbox_settled_def STATUS_STATES_def)

lemma kept_claimed: "qr_state r \<in> {''PENDING'', ''RETRY''} \<Longrightarrow> queued_kept r (claimed c r)"
  by (auto simp: queued_kept_def queued_typed_def outbox_settled_def STATUS_STATES_def)

lemma kept_reported: "qr_state r = ''PROCESSING'' \<Longrightarrow> queued_kept r (reported t ok e r)"
  by (auto simp: queued_kept_def queued_typed_def outbox_settled_def STATUS_STATES_def)

lemma put_table_again [simp]: "put_table m b (put_table m a db) = put_table m b db"
  by (cases m) auto

lemma unique_row:
  "distinct (map qr_id rows) \<Longrightarrow> r \<in> set rows \<Longrightarrow> s \<in> set rows \<Longrightarrow> qr_id r = qr_id s \<Longrightarrow> r = s"
  by (auto simp: distinct_map inj_on_def)

lemma keeps_recover_stale: "keeps_outbox db (put_table m (recover_stale m t n locked (outbox_table m db)) db)"
  unfolding recover_stale_def Let_def
proof (rule keeps_outbox_update)
  fix r assume r: "r \<in> set (outbox_table m db)" "distinct (map qr_id (outbox_table m db))"
    "qr_id r \<in> set (map qr_id (take n (filter (stale_row m t locked) (outbox_table m db))))"
  from r(3) obtain x where x: "x \<in> set (take n (filter (stale_row m t locked) (outbox_table m db)))" "qr_id x = qr_id r"
    by auto
  have "x \<in> set (outbox_table m db)" "stale_row m t locked x" using in_set_takeD [OF x(1)] by auto
  with r x(2) have "stale_row m t locked r" using unique_row by metis
  then show "queued_kept r (requeued t r)" by (intro kept_requeued) (simp add: stale_row_def)
qed

lemma keeps_claim:
  assumes "claim_outbox isoformat m t n locked (outbox_table m db) = (items, rows)"
  shows "keeps_outbox db (put_table m rows db)"
proof -
  let ?db1 = "put_table m (recover_stale m t n locked (outbox_table m db)) db"
  let ?items = "select_rows (\<lambda>r. (qr_created r, qr_id r)) (dispatchable t locked) n (outbox_table m ?db1)"
  have "keeps_outbox ?db1 (put_table m (update_rows (\<lambda>r. qr_id r \<in> qr_id ` set ?items)
      (claimed (claim_stamp m t)) (outbox_table m ?db1)) ?db1)"
  proof (rule keeps_outbox_update)
    fix r assume r: "r \<in> set (outbox_table m ?db1)" "distinct (map qr_id (outbox_table m ?db1))"
      "qr_id r \<in> qr_id ` set ?items"
    then obtain x where "x \<in> set (outbox_table m ?db1)" "dispatchable t locked x" "qr_id x = qr_id r"
      by (auto dest: select_rows_in)
    with r have "dispatchable t locked r" using unique_row by metis
    then show "queued_kept r (claimed (claim_stamp m t) r)" by (intro kept_claimed) (auto simp: dispatchable_def)
  qed
  from keeps_outbox_trans [OF keeps_recover_stale this]
  have "keeps_outbox db (put_table m (update_rows (\<lambda>r. qr_id r \<in> qr_id ` set ?items)
      (claimed (claim_stamp m t)) (outbox_table m ?db1)) db)" by simp
  moreover have "rows = update_rows (\<lambda>r. qr_id r \<in> qr_id ` set ?items) (claimed (claim_stamp m t)) (outbox_table m ?db1)"
    using assms unfolding claim_outbox_def Let_def prod.inject by simp
  ultimately show ?thesis by simp
qed

lemma keeps_report: "keeps_outbox db (snd (report_delivery_outcome m c t k ok e db))"
proof (cases "find_row (holds_claim c k) (outbox_table m db)")
  case (Some x)
  then have x: "x \<in> set (outbox_table m db)" "qr_id x = k" "qr_state x = ''PROCESSING''"
    by (auto simp: holds_claim_def dest: find_row_Some)
  have "keeps_outbox db (put_table m (update_rows (\<lambda>r. qr_id r = k) (reported t ok e) (outbox_table m db)) db)"
  proof (rule keeps_outbox_update)
    fix r assume "r \<in> set (outbox_table m db)" "qr_id r = k" "distinct (map qr_id (outbox_table m db))"
    then have "r = x" using x unique_row by metis
    then show "queued_kept r (reported t ok e r)" using x(3) by (simp add: kept_reported)
  qed
  with Some show ?thesis by (simp add: report_delivery_outcome_def)
qed (simp add: report_delivery_outcome_def keeps_outbox_refl)

lemma keeps_deliver_snapshots:
  assumes "\<And>d. keeps_outbox d (mw d)"
  shows "keeps_outbox (snd acc) (snd (deliver_snapshots emit mw m c later items acc))"
proof (induction items arbitrary: acc)
  case (Cons item items)
  obtain counts db where acc: "acc = (counts, db)" by (cases acc)
  obtain ok e where a: "attempt_delivery emit m item = (ok, e)" by (cases "attempt_delivery emit m item")
  obtain b db1 where r: "report_delivery_outcome m c (later (fst item)) (fst item) ok e (mw db) = (b, db1)" by fastforce
  have "keeps_outbox db db1" using keeps_outbox_trans [OF assms keeps_report] r by (metis snd_conv)
  then have "keeps_outbox db (snd (deliver_snapshots emit mw m c later items (counts', db1)))" for counts'
    using keeps_outbox_trans Cons.IH [of "(counts', db1)"] by simp
  then show ?case by (auto simp: acc a r split: bool.split)
qed (simp add: keeps_outbox_refl)

lemma keeps_dispatch_table:
  assumes "\<And>d. keeps_outbox d (mw d)"
  shows "keeps_outbox db (snd (dispatch_table isoformat emit mw locked later n m t db))"
proof -
  obtain items rows where c: "claim_outbox isoformat m t n locked (outbox_table m db) = (items, rows)" by fastforce
  show ?thesis
    using keeps_outbox_trans [OF keeps_claim [OF c]
        keeps_deliver_snapshots [OF assms, of "(\<lparr>dc_delivered = 0, dc_failed = 0\<rparr>, put_table m rows db)", unfolded snd_conv]]
    by (simp add: dispatch_table_def c)
qed

lemma keeps_dispatch:
  assumes "\<And>d. keeps_outbox d (mw d)" "dispatch isoformat emit mw locked later limit t1 t2 db = Inr (a, b, db')"
  shows "keeps_outbox db db'"
proof -
  obtain c1 db1 where d1: "dispatch_table isoformat emit mw locked later (nat limit) ProviderEvents t1 db = (c1, db1)"
    by fastforce
  obtain c2 db2 where d2: "dispatch_table isoformat emit mw locked later (nat limit) ProviderUsageEvents t2 db1 = (c2, db2)"
    by fastforce
  have "db' = db2" using assms(2) d1 d2 by (auto simp: dispatch_def split: if_splits)
  moreover have "keeps_outbox db db1" using keeps_dispatch_table [OF assms(1)] d1 by (metis snd_conv)
  moreover have "keeps_outbox db1 db2" using keeps_dispatch_table [OF assms(1)] d2 by (metis snd_conv)
  ultimately show ?thesis using keeps_outbox_trans by blast
qed

section \<open>All interleavings\<close>

text \<open>
  A dispatch pass, with the operations that run during its calls, and a new row of either table under
  an identifier of its own, as intake and inbound mail add them.
\<close>

datatype outbox_op =
    DispatchPass "int \<Rightarrow> string" "string \<Rightarrow> (string \<times> json) list \<Rightarrow> bool res" "string \<Rightarrow> bool" "string \<Rightarrow> int"
      int int int "outbox_op list"
  | NewRow outbox_model queued_row

definition add_row :: "outbox_model \<Rightarrow> queued_row \<Rightarrow> outbox_db \<Rightarrow> outbox_db" where
  "add_row m r db =
     (if qr_id r \<in> qr_id ` set (outbox_table m db) \<or> qr_state r \<noteq> ''PENDING'' \<or> qr_attempts r \<noteq> 0 then db
      else put_table m (outbox_table m db @ [r]) db)"

primrec outbox_step :: "outbox_op \<Rightarrow> outbox_db \<Rightarrow> outbox_db" where
  "outbox_step (DispatchPass isoformat emit locked later limit t1 t2 ops) =
     (\<lambda>db. case dispatch isoformat emit (in_turn (map outbox_step ops)) locked later limit t1 t2 db of
             Inl _ \<Rightarrow> db | Inr (_, _, db') \<Rightarrow> db')"
| "outbox_step (NewRow m r) = add_row m r"

lemma keeps_add_row: "keeps_outbox db (add_row m r db)"
  by (auto simp: add_row_def keeps_outbox_def outbox_ok_def queued_typed_def STATUS_STATES_def MAX_DELIVERIES_def
      pob.grows_refl pob.grows_append)

lemma keeps_outbox_step: "keeps_outbox db (outbox_step op db)"
proof (induction op arbitrary: db)
  case (DispatchPass isoformat emit locked later limit t1 t2 ops)
  have turn: "keeps_outbox d (in_turn (map outbox_step ops) d)" for d
    using DispatchPass by (intro in_turn_closed [where R = keeps_outbox]) (auto intro: keeps_outbox_refl keeps_outbox_trans)
  show ?case
    using keeps_dispatch [OF turn] by (auto simp: keeps_outbox_refl split: sum.split)
qed (simp add: keeps_add_row)

definition outbox_tables_ok :: "outbox_db \<Rightarrow> bool" where
  "outbox_tables_ok db \<longleftrightarrow> outbox_ok (ob_events db) \<and> outbox_ok (ob_usages db)"

lemma outbox_tables_ok_alt: "outbox_tables_ok db \<longleftrightarrow> (\<forall>m. outbox_ok (outbox_table m db))"
  unfolding outbox_tables_ok_def by (metis outbox_model.exhaust outbox_table.simps)

definition get_queued :: "outbox_db \<Rightarrow> outbox_model \<times> string \<Rightarrow> queued_row option" where
  "get_queued db k = find_row (\<lambda>r. qr_id r = snd k) (outbox_table (fst k) db)"

lemma kept_get_queued:
  assumes "outbox_tables_ok db" "keeps_outbox db db'" "get_queued db k = Some r"
  shows "\<exists>s. get_queued db' k = Some s \<and> queued_kept r s"
  using assms pob.grows_find unfolding outbox_tables_ok_alt keeps_outbox_def get_queued_def by blast

interpretation pobs: settled_rows outbox_step outbox_tables_ok get_queued outbox_settled "\<lambda>r. r"
proof unfold_locales
  show "outbox_tables_ok (outbox_step op s)" if "outbox_tables_ok s" for s op
    using that keeps_outbox_step [of s op] unfolding outbox_tables_ok_alt keeps_outbox_def by blast
  show "\<exists>r'. get_queued (outbox_step op s) k = Some r' \<and> outbox_settled r' \<and> r' = r"
    if "outbox_tables_ok s" "get_queued s k = Some r" "outbox_settled r" for s k r op
    using kept_get_queued [OF that(1) keeps_outbox_step that(2)] that(3) by (auto simp: queued_kept_def)
qed

section \<open>Properties\<close>

text \<open>
  C5. Whatever dispatchers interleave, with leases that run out during a call and with new rows coming
  in, an event or usage row that was delivered, skipped or dead-lettered stays exactly as it is, no row
  is lost or changes its content, and its counter of reported outcomes only grows, never beyond eight: a
  row that can still be claimed has reported fewer. It is the reports that are counted and bounded, not
  the calls: an emission whose lease runs out before it reports is put back without being counted.
\<close>

theorem provider_outbox_final:
  assumes "outbox_tables_ok db"
  shows "outbox_tables_ok (run_ops outbox_step ops db) \<and>
    (\<forall>k r. get_queued db k = Some r \<longrightarrow>
       (\<exists>s. get_queued (run_ops outbox_step ops db) k = Some s \<and>
          (\<forall>isoformat. snapshot_of isoformat s = snapshot_of isoformat r) \<and> qr_attempts r \<le> qr_attempts s \<and>
          qr_attempts s \<le> MAX_DELIVERIES \<and>
          (qr_state s \<in> {''PENDING'', ''PROCESSING'', ''RETRY''} \<longrightarrow> qr_attempts s < MAX_DELIVERIES) \<and>
          (outbox_settled r \<longrightarrow> s = r)))"
proof -
  have kept: "keeps_outbox db (run_ops outbox_step ops db)" for db
    by (induction ops arbitrary: db) (auto intro: keeps_outbox_refl keeps_outbox_trans keeps_outbox_step)
  have ok: "outbox_tables_ok (run_ops outbox_step ops db)" by (rule pobs.inv_run [OF assms])
  have "\<exists>s. get_queued (run_ops outbox_step ops db) k = Some s \<and> queued_kept r s \<and> queued_typed s"
    if found: "get_queued db k = Some r" for k r
  proof -
    obtain s where s: "get_queued (run_ops outbox_step ops db) k = Some s" "queued_kept r s"
      using kept_get_queued [OF assms kept found] by blast
    then have "s \<in> set (outbox_table (fst k) (run_ops outbox_step ops db))"
      by (auto simp: get_queued_def dest: find_row_Some)
    then show ?thesis using s ok by (auto simp: outbox_tables_ok_alt outbox_ok_def list_all_iff)
  qed
  then have "\<exists>s. get_queued (run_ops outbox_step ops db) k = Some s \<and>
      (\<forall>isoformat. snapshot_of isoformat s = snapshot_of isoformat r) \<and> qr_attempts r \<le> qr_attempts s \<and>
      qr_attempts s \<le> MAX_DELIVERIES \<and>
      (qr_state s \<in> {''PENDING'', ''PROCESSING'', ''RETRY''} \<longrightarrow> qr_attempts s < MAX_DELIVERIES) \<and> (outbox_settled r \<longrightarrow> s = r)"
    if "get_queued db k = Some r" for k r
    using that unfolding queued_kept_def queued_typed_def by blast
  then show ?thesis using ok by blast
qed

section \<open>A pass settles what it claims\<close>

definition counted :: "dispatch_counts \<Rightarrow> nat" where
  "counted c = dc_delivered c + dc_failed c"

lemma report_holding:
  assumes "distinct (map qr_id (outbox_table m db))" "r \<in> set (outbox_table m db)" "holds_claim c k r"
  shows "report_delivery_outcome m c t k ok e db =
    (True, put_table m (update_rows (\<lambda>r. qr_id r = k) (reported t ok e) (outbox_table m db)) db)"
  using find_row_exI [OF assms(2), of "holds_claim c k"] assms(3) by (auto simp: report_delivery_outcome_def)

lemma deliver_snapshots_settles:
  assumes "distinct (map qr_id (outbox_table m db))" "distinct (map fst items)"
    and "\<And>item. item \<in> set items \<Longrightarrow> \<exists>r \<in> set (outbox_table m db). holds_claim c (fst item) r"
  shows "\<exists>counts' db' f. deliver_snapshots emit (\<lambda>d. d) m c later items (counts, db) = (counts', db') \<and>
    counted counts' = counted counts + length items \<and> outbox_table m db' = map f (outbox_table m db) \<and>
    (\<forall>m'. m' \<noteq> m \<longrightarrow> outbox_table m' db' = outbox_table m' db) \<and>
    (\<forall>r. qr_id (f r) = qr_id r \<and>
       (if qr_id r \<in> fst ` set items then qr_state (f r) \<noteq> ''PROCESSING'' \<and> qr_attempts (f r) = qr_attempts r + 1
        else f r = r))"
  using assms
proof (induction items arbitrary: counts db)
  case Nil
  then show ?case by (auto intro!: exI [of _ "\<lambda>r. r"])
next
  case (Cons item items)
  obtain ok e where a: "attempt_delivery emit m item = (ok, e)" by (cases "attempt_delivery emit m item")
  obtain r where r: "r \<in> set (outbox_table m db)" "holds_claim c (fst item) r"
    using Cons.prems(3) [of item] by auto
  define g where "g = (\<lambda>x. if qr_id x = fst item then reported (later (fst item)) ok e x else x)"
  define db1 where "db1 = put_table m (map g (outbox_table m db)) db"
  have report: "report_delivery_outcome m c (later (fst item)) (fst item) ok e db = (True, db1)"
    using report_holding [OF Cons.prems(1) r] by (simp add: db1_def g_def update_rows_def)
  define counts1 where "counts1 = (if ok then counts\<lparr>dc_delivered := dc_delivered counts + 1\<rparr>
      else counts\<lparr>dc_failed := dc_failed counts + 1\<rparr>)"
  have gid: "qr_id (g x) = qr_id x" for x by (simp add: g_def)
  have t1: "outbox_table m db1 = map g (outbox_table m db)" by (simp add: db1_def)
  have "distinct (map qr_id (outbox_table m db1))" using Cons.prems(1) by (simp add: t1 gid comp_def)
  moreover have "\<exists>r \<in> set (outbox_table m db1). holds_claim c (fst i) r" if i: "i \<in> set items" for i
  proof -
    obtain x where x: "x \<in> set (outbox_table m db)" "holds_claim c (fst i) x" using Cons.prems(3) [of i] i by auto
    have "fst item \<notin> fst ` set items" using Cons.prems(2) by simp
    then have "fst i \<noteq> fst item" using i by (metis image_eqI)
    then have "g x = x" using x(2) by (simp add: g_def holds_claim_def)
    then show ?thesis using x t1 by force
  qed
  ultimately obtain counts' db' f where f: "deliver_snapshots emit (\<lambda>d. d) m c later items (counts1, db1) = (counts', db')"
      "counted counts' = counted counts1 + length items" "outbox_table m db' = map f (outbox_table m db1)"
      "\<forall>m'. m' \<noteq> m \<longrightarrow> outbox_table m' db' = outbox_table m' db1"
      "\<forall>r. qr_id (f r) = qr_id r \<and>
       (if qr_id r \<in> fst ` set items then qr_state (f r) \<noteq> ''PROCESSING'' \<and> qr_attempts (f r) = qr_attempts r + 1
        else f r = r)"
    using Cons.IH [of db1 counts1] Cons.prems(2) by auto
  have step: "deliver_snapshots emit (\<lambda>d. d) m c later (item # items) (counts, db) = (counts', db')"
    using a report f(1) by (simp add: counts1_def)
  have fg: "qr_id (f (g x)) = qr_id x \<and> (if qr_id x \<in> fst ` set (item # items)
      then qr_state (f (g x)) \<noteq> ''PROCESSING'' \<and> qr_attempts (f (g x)) = qr_attempts x + 1 else f (g x) = x)" for x
  proof (cases "qr_id x = fst item")
    case True
    then have "qr_id x \<notin> fst ` set items" using Cons.prems(2) by simp
    then have "f (g x) = g x" using f(5) gid by metis
    then show ?thesis using True by (simp add: g_def)
  next
    case False
    then show ?thesis using f(5) by (simp add: g_def)
  qed
  have "counted counts' = counted counts + length (item # items)"
    using f(2) by (simp add: counts1_def counted_def)
  moreover have "outbox_table m db' = map (\<lambda>x. f (g x)) (outbox_table m db)" by (simp add: f(3) t1)
  moreover have "\<forall>m'. m' \<noteq> m \<longrightarrow> outbox_table m' db' = outbox_table m' db" using f(4) by (simp add: db1_def)
  ultimately show ?case using step fg
    by (intro exI [of _ counts'] exI [of _ db'] exI [of _ "\<lambda>x. f (g x)"]) blast
qed

lemma claim_outbox_claims:
  assumes "claim_outbox isoformat m t n locked rows = (items, rows')" "distinct (map qr_id rows)"
  shows "map qr_id rows' = map qr_id rows" "distinct (map fst items)"
    and "\<And>item. item \<in> set items \<Longrightarrow> \<exists>r \<in> set rows'. holds_claim (claim_stamp m t) (fst item) r"
    and "\<And>r. r \<in> set rows' \<Longrightarrow> qr_state r = ''PROCESSING'' \<Longrightarrow> qr_id r \<notin> fst ` set items \<Longrightarrow> r \<in> set rows"
proof -
  let ?rows1 = "recover_stale m t n locked rows"
  let ?sel = "select_rows (\<lambda>r. (qr_created r, qr_id r)) (dispatchable t locked) n ?rows1"
  have i: "items = map (snapshot_of isoformat) ?sel"
    and r': "rows' = update_rows (\<lambda>r. qr_id r \<in> qr_id ` set ?sel) (claimed (claim_stamp m t)) ?rows1"
    using assms(1) unfolding claim_outbox_def Let_def prod.inject by simp_all
  have ids: "map qr_id ?rows1 = map qr_id rows" by (auto simp: recover_stale_def Let_def update_rows_def)
  show "map qr_id rows' = map qr_id rows" unfolding r' using ids by (subst map_update_rows) simp_all
  have keys: "map fst items = map qr_id ?sel" by (simp add: i comp_def)
  have "distinct (map qr_id (filter (dispatchable t locked) ?rows1))"
    using assms(2) ids by (simp add: distinct_map_filter)
  then have "distinct (map qr_id (sort_key (\<lambda>r. (qr_created r, qr_id r)) (filter (dispatchable t locked) ?rows1)))"
    by (simp add: distinct_map)
  then show "distinct (map fst items)"
    unfolding keys select_rows_def by (simp add: take_map [symmetric] distinct_take)
  show "\<exists>r \<in> set rows'. holds_claim (claim_stamp m t) (fst item) r" if it: "item \<in> set items" for item
  proof -
    obtain x where x: "x \<in> set ?sel" "fst item = qr_id x" using it by (auto simp: i)
    then have "x \<in> set ?rows1" by (auto dest: select_rows_in)
    then have "claimed (claim_stamp m t) x \<in> set rows'" using x(1) by (force simp: r' update_rows_def)
    then show ?thesis using x(2) by (intro bexI [of _ "claimed (claim_stamp m t) x"]) (simp_all add: holds_claim_def)
  qed
  show "r \<in> set rows" if r: "r \<in> set rows'" "qr_state r = ''PROCESSING''" "qr_id r \<notin> fst ` set items" for r
  proof -
    have "fst ` set items = qr_id ` set ?sel" by (simp add: i image_comp)
    then have "r \<in> set ?rows1" using r(1,3) by (auto simp: r' update_rows_def split: if_splits)
    then show ?thesis using r(2) by (auto simp: recover_stale_def Let_def update_rows_def split: if_splits)
  qed
qed

lemma dispatch_table_settles:
  assumes "distinct (map qr_id (outbox_table m db))"
    and "dispatch_table isoformat emit (\<lambda>d. d) locked later n m t db = (counts, db')"
  shows "map qr_id (outbox_table m db') = map qr_id (outbox_table m db)"
    and "m' \<noteq> m \<Longrightarrow> outbox_table m' db' = outbox_table m' db"
    and "r \<in> set (outbox_table m db') \<Longrightarrow> qr_state r = ''PROCESSING'' \<Longrightarrow> r \<in> set (outbox_table m db)"
    and "counted counts = length (fst (claim_outbox isoformat m t n locked (outbox_table m db)))"
proof -
  obtain items rows where c: "claim_outbox isoformat m t n locked (outbox_table m db) = (items, rows)" by fastforce
  note claims = claim_outbox_claims [OF c assms(1)]
  let ?db1 = "put_table m rows db"
  have d1: "distinct (map qr_id (outbox_table m ?db1))" using claims(1) assms(1) by simp
  have h1: "\<And>item. item \<in> set items \<Longrightarrow> \<exists>r \<in> set (outbox_table m ?db1). holds_claim (claim_stamp m t) (fst item) r"
    using claims(3) by simp
  obtain f where f: "counted counts = length items" "outbox_table m db' = map f rows"
      "\<forall>m'. m' \<noteq> m \<longrightarrow> outbox_table m' db' = outbox_table m' db"
      "\<forall>r. qr_id (f r) = qr_id r \<and> (if qr_id r \<in> fst ` set items
         then qr_state (f r) \<noteq> ''PROCESSING'' \<and> qr_attempts (f r) = qr_attempts r + 1 else f r = r)"
    using deliver_snapshots_settles [OF d1 claims(2) h1, of emit later "\<lparr>dc_delivered = 0, dc_failed = 0\<rparr>"] assms(2)
    by (auto simp: dispatch_table_def c counted_def)
  show "map qr_id (outbox_table m db') = map qr_id (outbox_table m db)"
    using f(2,4) claims(1) by (simp add: comp_def)
  show "outbox_table m' db' = outbox_table m' db" if "m' \<noteq> m" using f(3) that by blast
  show "r \<in> set (outbox_table m db)" if r: "r \<in> set (outbox_table m db')" "qr_state r = ''PROCESSING''"
  proof -
    obtain x where x: "x \<in> set rows" "r = f x" using r(1) unfolding f(2) by auto
    have "qr_id x \<notin> fst ` set items" using f(4) x(2) r(2) by metis
    moreover have "r = x" using f(4) x(2) calculation by metis
    ultimately show ?thesis using claims(4) x(1) r(2) by metis
  qed
  show "counted counts = length (fst (claim_outbox isoformat m t n locked (outbox_table m db)))"
    using f(1) c by simp
qed

text \<open>
  A dispatch pass settles everything it claims, whatever the middleware answers and whatever
  exception a call raises: a malformed document, an undeclared kind or a failing call costs its own
  row an attempt and stops nothing. After the pass no row is in delivery that was not in delivery
  before it, every claimed row is counted as delivered or failed, and the rows keep their order.
\<close>

theorem dispatch_settles_claims:
  assumes "distinct (map qr_id (ob_events db))" "distinct (map qr_id (ob_usages db))"
    and "dispatch isoformat emit (\<lambda>d. d) locked later limit t1 t2 db = Inr (events, usage, db')"
  shows "(\<forall>m. map qr_id (outbox_table m db') = map qr_id (outbox_table m db) \<and>
      (\<forall>r \<in> set (outbox_table m db'). qr_state r = ''PROCESSING'' \<longrightarrow> r \<in> set (outbox_table m db))) \<and>
    counted events = length (fst (claim_outbox isoformat ProviderEvents t1 (nat limit) locked (ob_events db))) \<and>
    counted usage = length (fst (claim_outbox isoformat ProviderUsageEvents t2 (nat limit) locked (ob_usages db)))"
proof -
  obtain db1 where d1: "dispatch_table isoformat emit (\<lambda>d. d) locked later (nat limit) ProviderEvents t1 db = (events, db1)"
    and d2: "dispatch_table isoformat emit (\<lambda>d. d) locked later (nat limit) ProviderUsageEvents t2 db1 = (usage, db')"
    using assms(3) by (auto simp: dispatch_def split: if_splits prod.splits)
  have k1: "distinct (map qr_id (outbox_table ProviderEvents db))" using assms(1) by simp
  note s1 = dispatch_table_settles [OF k1 d1]
  have k2: "distinct (map qr_id (outbox_table ProviderUsageEvents db1))"
    using s1(2) [of ProviderUsageEvents] assms(2) by simp
  note s2 = dispatch_table_settles [OF k2 d2]
  have u: "ob_usages db1 = ob_usages db" using s1(2) [of ProviderUsageEvents] by simp
  have e: "ob_events db' = ob_events db1" using s2(2) [of ProviderEvents] by simp
  have "map qr_id (outbox_table m db') = map qr_id (outbox_table m db) \<and>
      (\<forall>r \<in> set (outbox_table m db'). qr_state r = ''PROCESSING'' \<longrightarrow> r \<in> set (outbox_table m db))" for m
    using s1(1,3) s2(1,3) u e by (cases m) auto
  then show ?thesis using s1(4) s2(4) u by simp
qed

definition stored_event_id :: "snapshot_item \<Rightarrow> string" where
  "stored_event_id item =
     (case item of (item_id, kind, raw) \<Rightarrow>
        (case raw of
           JText (JObj p) \<Rightarrow> (case obj_get p ''event_id'' of JStr s \<Rightarrow> if s = [] then item_id else s | _ \<Rightarrow> item_id)
         | _ \<Rightarrow> item_id))"

text \<open>
  The middleware can recognise a repeated delivery. Whatever the secrets, addresses, clock and
  random identifiers of the two moments are, every request for the same stored row carries the same
  idempotency key: that of the event's own identifier, or of the row when the document has none.
\<close>

theorem emission_key_stable:
  assumes "prepared_event m item = Inr (event_type, payload)"
    and "emit_middleware em event_type payload = Inr (ok, made)" and "(url, headers, body) \<in> set made"
    and "fst item \<noteq> []"
  shows "map_of headers ''Idempotency-Key'' = Some (''klyrow:event:'' @ stored_event_id item)"
proof -
  obtain item_id kind raw where item: "item = (item_id, kind, raw)" by (cases item)
  obtain p where p: "raw = JText (JObj p)"
      "payload = (if truthy (obj_get p ''event_id'') then p else obj_set ''event_id'' (JStr item_id) p)"
    using assms(1)
    by (auto simp: prepared_event_def item Let_def split: jtext.splits option.splits outbox_model.splits json.splits
        elim!: json_obj.elims)
  have "made \<noteq> []" using assms(3) by auto
  from emit_middleware_Inr [OF assms(2)] this obtain key secret eid doc target where
      e: "json_or (obj_get payload ''event_id'') (JStr (em_uuid em)) = JStr eid"
         "made = [signed_request em key secret eid event_type doc target]"
    by blast
  have "map_of headers ''Idempotency-Key'' = Some (''klyrow:event:'' @ eid)"
    using assms(3) by (simp add: e(2) signed_request_def Let_def)
  moreover have "eid = stored_event_id item"
    using e(1) assms(4) by (auto simp: stored_event_id_def item p json_or_def split: json.splits if_splits)
  ultimately show ?thesis by simp
qed

section \<open>Witnesses\<close>

definition sample_provider_event :: "string \<Rightarrow> queued_row" where
  "sample_provider_event k = EventRow \<lparr>pv_id = k, pv_tenant_id = ''t1'', pv_message_id = ''m1'', pv_kind = ''email.delivered'',
     pv_payload_json = JText (JObj [(''message_id'', JStr ''m1'')]), pv_state = ''PENDING'', pv_attempts = 0,
     pv_available_at = 0, pv_last_error = None, pv_updated_at = 0, pv_created_at = 0\<rparr>"

definition outbox_sample_db :: outbox_db where
  "outbox_sample_db = \<lparr>ob_events = [sample_provider_event ''e1'', sample_provider_event ''e2''], ob_usages = []\<rparr>"

definition failing_pass :: "outbox_op list \<Rightarrow> outbox_op" where
  "failing_pass ops = DispatchPass (\<lambda>_. ''now'') (\<lambda>_ _. Inl (RuntimeError ''secret'')) (\<lambda>_. False) (\<lambda>_. 7) 10 5 5 ops"

lemma outbox_sample_ok: "outbox_tables_ok outbox_sample_db"
  by (simp add: outbox_tables_ok_def outbox_ok_def queued_typed_def outbox_sample_db_def sample_provider_event_def
      STATUS_STATES_def MAX_DELIVERIES_def)

theorem provider_outbox_final_witness:
  "\<exists>s. get_queued (run_ops outbox_step [failing_pass [NewRow ProviderEvents (sample_provider_event ''e3'')], failing_pass []]
       outbox_sample_db) (ProviderEvents, ''e1'') = Some s \<and> qr_attempts s \<le> MAX_DELIVERIES"
proof -
  have "get_queued outbox_sample_db (ProviderEvents, ''e1'') = Some (sample_provider_event ''e1'')"
    by (simp add: get_queued_def outbox_sample_db_def sample_provider_event_def)
  then show ?thesis using provider_outbox_final [OF outbox_sample_ok] by blast
qed

theorem dispatch_settles_claims_witness:
  "\<exists>events usage db'. dispatch (\<lambda>_. ''now'') (\<lambda>_ _. Inl (RuntimeError ''secret'')) (\<lambda>d. d) (\<lambda>_. False) (\<lambda>_. 7) 10 5 5
       outbox_sample_db = Inr (events, usage, db') \<and> counted events = 2 \<and>
     map qr_id (ob_events db') = [''e1'', ''e2'']"
proof -
  obtain events usage db' where d: "dispatch (\<lambda>_. ''now'') (\<lambda>_ _. Inl (RuntimeError ''secret'')) (\<lambda>d. d) (\<lambda>_. False)
      (\<lambda>_. 7) 10 5 5 outbox_sample_db = Inr (events, usage, db')"
    by (fastforce simp: dispatch_def split: prod.splits)
  have keys: "distinct (map qr_id (ob_events outbox_sample_db))" "distinct (map qr_id (ob_usages outbox_sample_db))"
    by (simp_all add: outbox_sample_db_def sample_provider_event_def)
  have n: "length (fst (claim_outbox (\<lambda>_. ''now'') ProviderEvents 5 (nat 10) (\<lambda>_. False) (ob_events outbox_sample_db))) = 2"
    by code_simp
  have ids: "map qr_id (ob_events outbox_sample_db) = [''e1'', ''e2'']"
    by (simp add: outbox_sample_db_def sample_provider_event_def)
  have "map qr_id (outbox_table ProviderEvents db') = map qr_id (outbox_table ProviderEvents outbox_sample_db) \<and>
      counted events = 2"
    using dispatch_settles_claims [OF keys d] n by metis
  then show ?thesis using d ids by auto
qed

theorem emission_key_stable_witness:
  "\<exists>url headers body. emit_middleware sample_emitter ''klyrow.email.delivered''
       [(''message_id'', JStr ''m1''), (''event_id'', JStr ''e1'')] = Inr (True, [(url, headers, body)]) \<and>
     map_of headers ''Idempotency-Key'' = Some ''klyrow:event:e1''"
proof -
  let ?item = "snapshot_of (\<lambda>_. ''now'') (sample_provider_event ''e1'')"
  have p: "prepared_event ProviderEvents ?item =
      Inr (''klyrow.email.delivered'', [(''message_id'', JStr ''m1''), (''event_id'', JStr ''e1'')])"
    by code_simp
  have "case emit_middleware sample_emitter ''klyrow.email.delivered''
      [(''message_id'', JStr ''m1''), (''event_id'', JStr ''e1'')] of Inl _ \<Rightarrow> False
      | Inr (ok, made) \<Rightarrow> ok \<and> length made = 1"
    by code_simp
  then obtain url headers body where e: "emit_middleware sample_emitter ''klyrow.email.delivered''
      [(''message_id'', JStr ''m1''), (''event_id'', JStr ''e1'')] = Inr (True, [(url, headers, body)])"
    by (auto split: sum.splits prod.splits simp: length_Suc_conv)
  have "stored_event_id ?item = ''e1''" "fst ?item \<noteq> []" by code_simp+
  then show ?thesis using emission_key_stable [OF p e] e by simp
qed

end
