(* ===== verification/Identity.thy ===== *)
theory Identity
  imports PostalProvisioning SecurityPayload Platform Contracts
begin

text \<open>
  What browser authentication, the platform-owner policy and tenancy share: the identity tables
  (\<open>tenancy.py\<close>, \<open>auth_bff.py\<close>, \<open>tenancy_onboarding.py\<close>, \<open>saas.py\<close>), the identity profile
  (\<open>identity_profile.py\<close>), the configuration helpers of \<open>auth_bff.py\<close>, and the browser request.
  The cryptography (\<open>hashlib\<close>, \<open>hmac\<close>, AES-GCM), the token endpoint and the validation of a
  signature against the issuer's keys are functions of \<open>bff_env\<close>. A request reads the clock once.
\<close>

section \<open>Rows\<close>

record identity_row =
  oi_id :: string
  oi_issuer :: string
  oi_subject :: string
  oi_user_id :: string
  oi_default_tenant_id :: "string option"
  oi_identity_type :: string
  oi_enabled :: bool

record member_row =
  tm_id :: string
  tm_tenant_id :: string
  tm_user_id :: string
  tm_role :: string
  tm_active :: bool
  tm_created_at :: int

record invitation_row =
  ti_id :: string
  ti_tenant_id :: string
  ti_email :: string
  ti_role :: string
  ti_token_hash :: string
  ti_expires_at :: int
  ti_accepted_at :: "int option"
  ti_revoked_at :: "int option"
  ti_created_by :: string
  ti_created_at :: int

record organization_row =
  og_id :: string
  og_tenant_id :: string
  og_name :: string
  og_slug :: string
  og_status :: string
  og_created_at :: int

record onboarding_row =
  on_tenant_id :: string
  on_step :: int
  on_use_case :: "string option"
  on_checklist_json :: jtext
  on_completed :: bool

record identity_profile_row =
  ip_identity_id :: string
  ip_email :: "string option"
  ip_email_verified :: bool
  ip_display_name :: "string option"
  ip_locale :: "string option"
  ip_created_at :: int
  ip_updated_at :: int

record onboarding_event_row =
  oe_id :: string
  oe_identity_id :: string
  oe_tenant_id :: string
  oe_event_type :: string
  oe_payload_json :: json

record login_row =
  lt_id :: string
  lt_state_hash :: string
  lt_verifier_ciphertext :: string
  lt_nonce_ciphertext :: string
  lt_return_url :: string
  lt_mode :: string
  lt_created_at :: int
  lt_expires_at :: int
  lt_used_at :: "int option"

record session_row =
  bs_id :: string
  bs_token_hash :: string
  bs_csrf_hash :: string
  bs_identity_id :: string
  bs_user_id :: string
  bs_tenant_id :: string
  bs_role :: string
  bs_refresh_ciphertext :: "string option"
  bs_id_token_ciphertext :: "string option"
  bs_created_at :: int
  bs_last_seen_at :: int
  bs_expires_at :: int
  bs_rotated_from_id :: "string option"
  bs_revoked_at :: "int option"
  bs_user_agent_hash :: "string option"
  bs_ip_hash :: "string option"

record trail_row =
  tr_tenant_id :: string
  tr_actor :: string
  tr_action :: string

record identity_db =
  id_users :: "user_row list"
  id_members :: "member_row list"
  id_identities :: "identity_row list"
  id_sessions :: "session_row list"
  id_logins :: "login_row list"
  id_invitations :: "invitation_row list"
  id_profiles :: "identity_profile_row list"
  id_organizations :: "organization_row list"
  id_onboardings :: "onboarding_row list"
  id_journal :: "onboarding_event_row list"
  id_trail :: "trail_row list"
  id_postal :: postal_db

text \<open>An insert that a unique constraint of the table may refuse.\<close>

definition insert_row :: "string \<Rightarrow> ('r \<Rightarrow> 'r \<Rightarrow> bool) \<Rightarrow> 'r \<Rightarrow> 'r list \<Rightarrow> 'r list res" where
  "insert_row table clashes r t =
     (if find_row (clashes r) t \<noteq> None then Inl (IntegrityError table) else Inr (t @ [r]))"

lemma insert_row_Inr:
  "insert_row table clashes r t = Inr t' \<longleftrightarrow> t' = t @ [r] \<and> (\<forall>x \<in> set t. \<not> clashes r x)"
  using find_row_None [of "clashes r" t] by (auto simp: insert_row_def)

section \<open>Lookups\<close>

definition get_user :: "identity_db \<Rightarrow> string \<Rightarrow> user_row option" where
  "get_user db uid = find_row (\<lambda>u. us_id u = uid) (id_users db)"

definition get_identity :: "identity_db \<Rightarrow> string \<Rightarrow> identity_row option" where
  "get_identity db k = find_row (\<lambda>i. oi_id i = k) (id_identities db)"

definition get_tenant :: "identity_db \<Rightarrow> string \<Rightarrow> tenant_row option" where
  "get_tenant db tid = find_row (\<lambda>t. tn_id t = tid) (pp_tenants (id_postal db))"

definition get_session :: "identity_db \<Rightarrow> string \<Rightarrow> session_row option" where
  "get_session db k = find_row (\<lambda>r. bs_id r = k) (id_sessions db)"

definition session_by_token :: "identity_db \<Rightarrow> string \<Rightarrow> session_row option" where
  "session_by_token db h = find_row (\<lambda>r. bs_token_hash r = h) (id_sessions db)"

definition set_session :: "string \<Rightarrow> (session_row \<Rightarrow> session_row) \<Rightarrow> identity_db \<Rightarrow> identity_db" where
  "set_session k f db = db\<lparr>id_sessions := update_rows (\<lambda>r. bs_id r = k) f (id_sessions db)\<rparr>"

definition active_member :: "identity_db \<Rightarrow> string \<Rightarrow> string \<Rightarrow> member_row option" where
  "active_member db tid uid =
     find_row (\<lambda>m. tm_tenant_id m = tid \<and> tm_user_id m = uid \<and> tm_active m) (id_members db)"

definition any_member :: "identity_db \<Rightarrow> string \<Rightarrow> string \<Rightarrow> member_row option" where
  "any_member db tid uid = find_row (\<lambda>m. tm_tenant_id m = tid \<and> tm_user_id m = uid) (id_members db)"

definition active_members :: "identity_db \<Rightarrow> string \<Rightarrow> member_row list" where
  "active_members db uid =
     sort_key tm_created_at (filter (\<lambda>m. tm_user_id m = uid \<and> tm_active m) (id_members db))"

definition tenant_enabled :: "identity_db \<Rightarrow> string \<Rightarrow> bool" where
  "tenant_enabled db tid = (case get_tenant db tid of None \<Rightarrow> False | Some t \<Rightarrow> tn_enabled t)"

definition trail :: "string \<Rightarrow> string \<Rightarrow> string \<Rightarrow> identity_db \<Rightarrow> identity_db" where
  "trail tid actor action db =
     db\<lparr>id_trail := id_trail db @ [\<lparr>tr_tenant_id = tid, tr_actor = actor, tr_action = action\<rparr>]\<rparr>"

section \<open>identity_profile.py\<close>

definition identity_profiles :: "string \<Rightarrow> (string \<times> string) option" where
  "identity_profiles = map_of
     [(''production'', (''https://auth.codestra.co/realms/codestra'', ''https://app.klyrow.com'')),
      (''staging'', (''https://auth.codestra.co/realms/codestra'', ''https://staging.klyrow.com''))]"

definition identity_authority :: "env \<Rightarrow> (string \<times> string) res" where
  "identity_authority e =
     (case identity_profiles (env_get e ''KLYROW_IDENTITY_PROFILE'' ''production'') of
        None \<Rightarrow> Inl (HTTPException 503 ''identity_profile_misconfigured'')
      | Some p \<Rightarrow> Inr p)"

definition canonical_issuer :: "env \<Rightarrow> string res" where
  "canonical_issuer e =
     res_bind (identity_authority e) (\<lambda>(expected, _).
       let configured = rstrip_char (CHR ''/'') (env_get e ''KLYROW_OIDC_ISSUER'' expected)
       in if configured \<noteq> expected then Inl (HTTPException 503 ''canonical_oidc_misconfigured'')
          else Inr configured)"

definition CANONICAL_ISSUER :: string where
  "CANONICAL_ISSUER = ''https://auth.codestra.co/realms/codestra''"

text \<open>Whatever the profile and the environment say, there is one issuer.\<close>

lemma canonical_issuer_Inr: "canonical_issuer e = Inr iss \<Longrightarrow> iss = CANONICAL_ISSUER"
  unfolding canonical_issuer_def identity_authority_def identity_profiles_def CANONICAL_ISSUER_def
  by (auto simp: Let_def res_bind_def split: option.splits if_splits)

section \<open>The environment of the browser surface\<close>

record bff_env =
  bf_env :: env
  bf_files :: files
  bf_ip_literal :: "string \<Rightarrow> bool"
  bf_sha :: "string \<Rightarrow> string"
  bf_mac :: "string \<Rightarrow> string"
  bf_mac_url :: "string \<Rightarrow> string"
  bf_challenge :: "string \<Rightarrow> string"
  bf_seal :: "string \<Rightarrow> string \<Rightarrow> string"
  bf_open :: "string \<Rightarrow> string res"
  bf_repr :: "json \<Rightarrow> string"
  bf_token_endpoint :: "(string \<times> string) list \<Rightarrow> json option"
  bf_verified :: "string \<Rightarrow> string \<Rightarrow> string \<Rightarrow> (string \<times> json) list option"
  bf_peek :: "string \<Rightarrow> json option"
  bf_iso :: "int \<Rightarrow> string"

record browser_request =
  br_cookies :: "string \<rightharpoonup> string"
  br_user_agent :: string
  br_client_host :: "string option"
  br_path :: string
  br_hostname :: "string option"
  br_base_url :: string

text \<open>\<open>hmac.compare_digest\<close> on strings, which refuses one outside ASCII.\<close>

definition compare_digest :: "string \<Rightarrow> string \<Rightarrow> bool res" where
  "compare_digest a b =
     (if is_ascii a \<and> is_ascii b then Inr (a = b)
      else Inl (TypeError ''comparing strings with non-ASCII characters is not supported''))"

section \<open>Configuration (\<open>auth_bff.py\<close>)\<close>

definition https_only :: "env \<Rightarrow> string list" where
  "https_only e = (if production e then [''https''] else [''http'', ''https''])"

definition plain_origin_url :: "env \<Rightarrow> url \<Rightarrow> bool" where
  "plain_origin_url e u \<longleftrightarrow>
     ur_scheme u \<in> set (https_only e) \<and> \<not> absent (url_hostname u) \<and> url_username u = None \<and>
     url_password u = None \<and> ur_query u = [] \<and> ur_fragment u = []"

definition public_origin :: "bff_env \<Rightarrow> string res" where
  "public_origin B =
     res_bind (identity_authority (bf_env B)) (\<lambda>(_, origin_of_profile).
       res_bind (urlsplit (bf_ip_literal B)
                  (rstrip_char (CHR ''/'') (strip (env_get (bf_env B) ''KLYROW_PUBLIC_URL'' origin_of_profile)))) (\<lambda>u.
         if \<not> (plain_origin_url (bf_env B) u \<and> ur_path u \<in> {[], ''/''})
         then Inl (HTTPException 503 ''canonical_app_origin_misconfigured'')
         else let origin = ur_scheme u @ ''://'' @ ur_netloc u
              in if production (bf_env B) \<and> origin \<noteq> origin_of_profile
                 then Inl (HTTPException 503 ''canonical_app_origin_misconfigured'') else Inr origin))"

definition canonical_browser_request :: "bff_env \<Rightarrow> browser_request \<Rightarrow> unit res" where
  "canonical_browser_request B rq =
     (if \<not> production (bf_env B) then Inr ()
      else res_bind (public_origin B) (\<lambda>origin.
             res_bind (urlsplit (bf_ip_literal B) origin) (\<lambda>u.
               if br_hostname rq \<noteq> url_hostname u
               then Inl (HTTPException 421 ''canonical_app_host_required'') else Inr ())))"

definition client_id :: "bff_env \<Rightarrow> string" where
  "client_id B = env_get (bf_env B) ''KLYROW_OIDC_CLIENT_ID'' ''klyrow-portal''"

definition client_secret :: "bff_env \<Rightarrow> string option res" where
  "client_secret B =
     (let path = strip (env_get (bf_env B) ''KLYROW_OIDC_CLIENT_SECRET_FILE'' [])
      in if path = [] then Inr None
         else (case fl_text (bf_files B) path of
                 None \<Rightarrow> Inl (HTTPException 503 ''oidc_client_secret_unavailable'')
               | Some content \<Rightarrow> Inr (if strip content = [] then None else Some (strip content))))"

definition redirect_uri :: "bff_env \<Rightarrow> browser_request \<Rightarrow> string res" where
  "redirect_uri B rq =
     (let given = strip (env_get (bf_env B) ''KLYROW_OIDC_REDIRECT_URI'' [])
      in res_bind
           (if given \<noteq> [] then Inr given
            else if production (bf_env B) then map_sum id (\<lambda>origin. origin @ ''/auth/callback'') (public_origin B)
            else Inr (rstrip_char (CHR ''/'') (br_base_url rq) @ ''/auth/callback'')) (\<lambda>configured.
         res_bind (urlsplit (bf_ip_literal B) configured) (\<lambda>u.
           if \<not> (plain_origin_url (bf_env B) u \<and> ur_path u = ''/auth/callback'')
           then Inl (HTTPException 503 ''oidc_redirect_uri_misconfigured'')
           else if \<not> production (bf_env B) then Inr configured
           else res_bind (identity_authority (bf_env B)) (\<lambda>(_, origin).
                  if configured \<noteq> origin @ ''/auth/callback''
                  then Inl (HTTPException 503 ''oidc_redirect_uri_misconfigured'') else Inr configured))))"

definition env_int :: "env \<Rightarrow> string \<Rightarrow> string \<Rightarrow> int res" where
  "env_int e name dflt =
     (case int_of_string (env_get e name dflt) of
        None \<Rightarrow> Inl (ValueError ''invalid literal for int()'') | Some i \<Rightarrow> Inr i)"

definition session_ttl :: "env \<Rightarrow> int res" where
  "session_ttl e =
     map_sum id (\<lambda>i. max 300 (min i 86400)) (env_int e ''KLYROW_BROWSER_SESSION_TTL_SECONDS'' ''28800'')"

definition flow_ttl :: "env \<Rightarrow> int res" where
  "flow_ttl e = map_sum id (\<lambda>i. max 60 (min i 1800)) (env_int e ''KLYROW_OIDC_FLOW_TTL_SECONDS'' ''600'')"

definition metadata_hash :: "bff_env \<Rightarrow> string \<Rightarrow> string option" where
  "metadata_hash B v = (if v = [] then None else Some (take 32 (bf_mac B v)))"

definition safe_return_to :: "string option \<Rightarrow> string \<Rightarrow> string" where
  "safe_return_to v dflt =
     (let candidate = (if absent v then dflt else the v)
      in if \<not> starts_with ''/'' candidate \<or> starts_with ''//'' candidate \<or> CHR 0x5C \<in> set candidate \<or>
            CHR 0x0D \<in> set candidate \<or> CHR 0x0A \<in> set candidate
         then dflt else candidate)"

lemma session_ttl_bounds: "session_ttl e = Inr n \<Longrightarrow> 300 \<le> n \<and> n \<le> 86400"
  by (cases "env_int e ''KLYROW_BROWSER_SESSION_TTL_SECONDS'' ''28800''") (auto simp: session_ttl_def)

lemma flow_ttl_bounds: "flow_ttl e = Inr n \<Longrightarrow> 60 \<le> n \<and> n \<le> 1800"
  by (cases "env_int e ''KLYROW_OIDC_FLOW_TTL_SECONDS'' ''600''") (auto simp: flow_ttl_def)

text \<open>\<open>str(claims.get(name) or "")\<close>.\<close>

definition claim_text :: "(json \<Rightarrow> string) \<Rightarrow> (string \<times> json) list \<Rightarrow> string \<Rightarrow> string" where
  "claim_text repr_of claims name = json_str repr_of (json_or (obj_get claims name) (JStr []))"

definition seconds :: "int \<Rightarrow> int" where "seconds n = n * 1000000"

end
