(* ===== verification/BrowserFlows.thy ===== *)
theory BrowserFlows
  imports Identity
begin

text \<open>
  The authorization transactions that a browser starts (\<open>auth_bff._authorization_url\<close>,
  \<open>browser_auth_actions._identity_action_url\<close>, the start routes of \<open>browser_security_fixes.py\<close>) and
  the cookies that bind them to that browser: the mirror cookie of \<open>browser_security_fixes.py\<close> and
  the cookie per flow of \<open>browser_flow_cookie_authority.py\<close> that takes precedence over it. A text is
  its UTF-8 bytes, so quoting works byte by byte.
\<close>

section \<open>Query strings (\<open>urllib.parse\<close>)\<close>

definition hex_digits :: string where "hex_digits = ''0123456789ABCDEF''"

definition url_safe :: "char \<Rightarrow> bool" where
  "url_safe c \<longleftrightarrow> is_letter c \<or> is_digit c \<or> c \<in> set ''_.-~''"

definition quote_char :: "char \<Rightarrow> string" where
  "quote_char c =
     (if url_safe c then [c] else if c = CHR '' '' then ''+''
      else [CHR ''%'', hex_digits ! (of_char c div 16), hex_digits ! (of_char c mod 16)])"

definition quote_plus :: "string \<Rightarrow> string" where
  "quote_plus s = concat (map quote_char s)"

definition hex_value :: "char \<Rightarrow> nat option" where
  "hex_value c =
     (let n = of_char c :: nat
      in if 48 \<le> n \<and> n \<le> 57 then Some (n - 48)
         else if 65 \<le> n \<and> n \<le> 70 then Some (n - 55)
         else if 97 \<le> n \<and> n \<le> 102 then Some (n - 87) else None)"

fun unquote_plus :: "string \<Rightarrow> string" where
  "unquote_plus [] = []"
| "unquote_plus (c # cs) =
     (if c = CHR ''+'' then CHR '' '' # unquote_plus cs
      else if c = CHR ''%'' \<and> 2 \<le> length cs \<and> hex_value (cs ! 0) \<noteq> None \<and> hex_value (cs ! 1) \<noteq> None
      then char_of (16 * the (hex_value (cs ! 0)) + the (hex_value (cs ! 1))) # unquote_plus (drop 2 cs)
      else c # unquote_plus cs)"

definition urlencode :: "(string \<times> string) list \<Rightarrow> string" where
  "urlencode kvs = join_with (CHR ''&'') (map (\<lambda>(k, v). quote_plus k @ CHR ''='' # quote_plus v) kvs)"

text \<open>\<open>parse_qsl(query, keep_blank_values=True)\<close>.\<close>

definition parse_pair :: "string \<Rightarrow> string \<times> string" where
  "parse_pair piece =
     (unquote_plus (before (\<lambda>c. c = CHR ''='') piece), unquote_plus (after_first (CHR ''='') piece))"

definition parse_qsl :: "string \<Rightarrow> (string \<times> string) list" where
  "parse_qsl query = map parse_pair (filter (\<lambda>piece. piece \<noteq> []) (split_on (CHR ''&'') query))"

definition query_values :: "string \<Rightarrow> string \<Rightarrow> string list" where
  "query_values name query = map snd (filter (\<lambda>kv. fst kv = name) (parse_qsl query))"

section \<open>Authorization transactions\<close>

record flow_draws =
  fd_id :: string
  fd_state :: string
  fd_nonce :: string
  fd_verifier :: string
  fd_iv_verifier :: string
  fd_iv_nonce :: string

definition login_clash :: "login_row \<Rightarrow> login_row \<Rightarrow> bool" where
  "login_clash r x \<longleftrightarrow> lt_id x = lt_id r \<or> lt_state_hash x = lt_state_hash r"

definition login_transaction :: "bff_env \<Rightarrow> int \<Rightarrow> flow_draws \<Rightarrow> string \<Rightarrow> string option \<Rightarrow> login_row res" where
  "login_transaction B t d mode return_to =
     map_sum id (\<lambda>ttl.
       \<lparr>lt_id = fd_id d, lt_state_hash = bf_sha B (fd_state d),
        lt_verifier_ciphertext = bf_seal B (fd_iv_verifier d) (fd_verifier d),
        lt_nonce_ciphertext = bf_seal B (fd_iv_nonce d) (fd_nonce d),
        lt_return_url = safe_return_to return_to (if mode = ''signup'' then ''/onboarding'' else ''/app''),
        lt_mode = mode, lt_created_at = t, lt_expires_at = t + seconds ttl, lt_used_at = None\<rparr>)
       (flow_ttl (bf_env B))"

definition authorization_params :: "bff_env \<Rightarrow> string \<Rightarrow> flow_draws \<Rightarrow> string \<Rightarrow> (string \<times> string) list" where
  "authorization_params B redirect d mode =
     [(''client_id'', client_id B), (''redirect_uri'', redirect), (''response_type'', ''code''),
      (''scope'', ''openid profile email''), (''state'', fd_state d), (''nonce'', fd_nonce d),
      (''code_challenge'', bf_challenge B (fd_verifier d)), (''code_challenge_method'', ''S256'')]
     @ (if mode = ''google'' then [(''kc_idp_hint'', ''google'')] else [])"

definition authorization_endpoint :: "string \<Rightarrow> string \<Rightarrow> string" where
  "authorization_endpoint iss mode =
     iss @ (if mode = ''signup'' then ''/protocol/openid-connect/registrations''
            else ''/protocol/openid-connect/auth'')"

text \<open>The transaction is committed before the issuer is read, so a refused issuer leaves it behind.\<close>

definition authorization_url ::
  "bff_env \<Rightarrow> browser_request \<Rightarrow> int \<Rightarrow> flow_draws \<Rightarrow> string \<Rightarrow> string option \<Rightarrow> identity_db
     \<Rightarrow> string res \<times> identity_db" where
  "authorization_url B rq t d mode return_to db =
     (case res_bind (redirect_uri B rq) (\<lambda>redirect.
             res_bind (login_transaction B t d mode return_to) (\<lambda>row.
               res_bind (insert_row ''oidc_login_transactions'' login_clash row (id_logins db)) (\<lambda>rows.
                 Inr (redirect, rows)))) of
        Inl e \<Rightarrow> (Inl e, db)
      | Inr (redirect, rows) \<Rightarrow>
          (map_sum id (\<lambda>iss. authorization_endpoint iss mode @ ''?'' @ urlencode (authorization_params B redirect d mode))
             (canonical_issuer (bf_env B)),
           db\<lparr>id_logins := rows\<rparr>))"

definition urlunsplit :: "string \<Rightarrow> string \<Rightarrow> string \<Rightarrow> string \<Rightarrow> string" where
  "urlunsplit scheme netloc path query =
     scheme @ ''://'' @ netloc @ path @ (if query = [] then [] else CHR ''?'' # query)"

definition with_query :: "bff_env \<Rightarrow> (url \<Rightarrow> string res) \<Rightarrow> (string \<times> string) list \<Rightarrow> string \<Rightarrow> string res" where
  "with_query B path_of extra text =
     res_bind (urlsplit (bf_ip_literal B) text) (\<lambda>u.
       res_bind (path_of u) (\<lambda>path.
         Inr (urlunsplit (ur_scheme u) (ur_netloc u) path (urlencode (parse_qsl (ur_query u) @ extra)))))"

definition credentials_path :: "bool \<Rightarrow> url \<Rightarrow> string res" where
  "credentials_path forgot u =
     (let suffix = ''/protocol/openid-connect/auth''
      in if \<not> forgot then Inr (ur_path u)
         else if \<not> ends_with suffix (ur_path u) then Inl (HTTPException 503 ''canonical_oidc_misconfigured'')
         else Inr (take (length (ur_path u) - length suffix) (ur_path u)
                   @ ''/protocol/openid-connect/forgot-credentials''))"

definition identity_action_url ::
  "bff_env \<Rightarrow> browser_request \<Rightarrow> int \<Rightarrow> flow_draws \<Rightarrow> string \<Rightarrow> string \<Rightarrow> string option \<Rightarrow> bool \<Rightarrow> identity_db
     \<Rightarrow> string res \<times> identity_db" where
  "identity_action_url B rq t d mode return_to action forgot db =
     (case authorization_url B rq t d mode (Some return_to) db of
        (Inl e, db') \<Rightarrow> (Inl e, db')
      | (Inr text, db') \<Rightarrow>
          (with_query B (credentials_path forgot)
             (if absent action then [] else [(''kc_action'', the action)]) text, db'))"

text \<open>\<open>browser_security_fixes.authorization_state\<close>: the one state of a generated address.\<close>

definition authorization_state :: "bff_env \<Rightarrow> string \<Rightarrow> string res" where
  "authorization_state B text =
     res_bind (urlsplit (bf_ip_literal B) text) (\<lambda>u.
       case query_values ''state'' (ur_query u) of
         [state] \<Rightarrow> if state = [] then Inl (HTTPException 503 ''oidc_state_unavailable'') else Inr state
       | _ \<Rightarrow> Inl (HTTPException 503 ''oidc_state_unavailable''))"

section \<open>The mirror cookie (\<open>browser_security_fixes.py\<close>)\<close>

definition FLOW_COOKIE :: string where "FLOW_COOKIE = ''__Host-klyrow_oidc_flow''"
definition MAX_BINDINGS :: nat where "MAX_BINDINGS = 8"

definition flow_binding :: "bff_env \<Rightarrow> string \<Rightarrow> string" where
  "flow_binding B state = bf_mac B (''klyrow-oidc-flow-v3'' @ CHR 0x00 # state)"

definition valid_binding :: "string \<Rightarrow> bool" where
  "valid_binding v \<longleftrightarrow> length v = 64 \<and> list_all (\<lambda>c. c \<in> set ''0123456789abcdef'') v"

fun collect_bindings :: "string list \<Rightarrow> string list \<Rightarrow> string list" where
  "collect_bindings acc [] = acc"
| "collect_bindings acc (b # bs) =
     collect_bindings (if valid_binding b \<and> b \<notin> set acc then acc @ [b] else acc) bs"

definition newest :: "nat \<Rightarrow> 'a list \<Rightarrow> 'a list" where
  "newest n xs = drop (length xs - n) xs"

definition parse_flow_cookie :: "string \<Rightarrow> string list" where
  "parse_flow_cookie raw =
     (let v = lower (strip raw)
      in if v = [] then []
         else if valid_binding v then [v]
         else if \<not> starts_with ''v1.'' v then []
         else newest MAX_BINDINGS (collect_bindings [] (split_on (CHR ''.'') (drop 3 v))))"

definition encode_flow_cookie :: "string list \<Rightarrow> string" where
  "encode_flow_cookie bindings =
     (let bounded = newest MAX_BINDINGS (collect_bindings [] (map (\<lambda>b. lower (strip b)) bindings))
      in if length bounded = 1 then hd bounded else ''v1.'' @ join_with (CHR ''.'') bounded)"

datatype cookie_op = SetCookie string string int | DeleteCookie string

fun apply_cookie :: "cookie_op \<Rightarrow> (string \<rightharpoonup> string) \<Rightarrow> (string \<rightharpoonup> string)" where
  "apply_cookie (SetCookie name v _) jar = jar(name \<mapsto> v)"
| "apply_cookie (DeleteCookie name) jar = jar(name := None)"

definition apply_cookies :: "cookie_op list \<Rightarrow> (string \<rightharpoonup> string) \<Rightarrow> (string \<rightharpoonup> string)" where
  "apply_cookies ops jar = fold apply_cookie ops jar"

definition cookie_text :: "(string \<rightharpoonup> string) \<Rightarrow> string \<Rightarrow> string" where
  "cookie_text jar name = (case jar name of None \<Rightarrow> [] | Some v \<Rightarrow> v)"

definition write_mirror :: "bff_env \<Rightarrow> string list \<Rightarrow> cookie_op list res" where
  "write_mirror B bindings =
     map_sum id (\<lambda>ttl. [SetCookie FLOW_COOKIE (encode_flow_cookie bindings) ttl]) (flow_ttl (bf_env B))"

text \<open>
  The signatures are hexadecimal, so the comparisons of the mirror never leave ASCII and are plain
  equality.
\<close>

definition others :: "bff_env \<Rightarrow> browser_request \<Rightarrow> string \<Rightarrow> string list" where
  "others B rq state =
     filter (\<lambda>b. b \<noteq> flow_binding B state) (parse_flow_cookie (cookie_text (br_cookies rq) FLOW_COOKIE))"

definition set_mirror :: "bff_env \<Rightarrow> browser_request \<Rightarrow> string \<Rightarrow> cookie_op list res" where
  "set_mirror B rq state = write_mirror B (others B rq state @ [flow_binding B state])"

definition remove_mirror :: "bff_env \<Rightarrow> browser_request \<Rightarrow> string \<Rightarrow> cookie_op list res" where
  "remove_mirror B rq state =
     (if others B rq state \<noteq> [] then write_mirror B (others B rq state) else Inr [DeleteCookie FLOW_COOKIE])"

definition cookie_mismatch :: exn where
  "cookie_mismatch = HTTPException 403 ''oidc_flow_cookie_mismatch''"

definition require_mirror :: "bff_env \<Rightarrow> browser_request \<Rightarrow> string \<Rightarrow> unit res" where
  "require_mirror B rq state =
     (if flow_binding B state \<in> set (parse_flow_cookie (cookie_text (br_cookies rq) FLOW_COOKIE))
      then Inr () else Inl cookie_mismatch)"

section \<open>The cookie of each flow (\<open>browser_flow_cookie_authority.py\<close>)\<close>

definition flow_cookie_name :: "bff_env \<Rightarrow> string \<Rightarrow> string res" where
  "flow_cookie_name B state =
     (if state = [] then Inl (ValueError ''oidc_state_required'')
      else Inr (''__Host-klyrow_oidc_flow-'' @ bf_sha B state))"

definition set_flow_cookie :: "bff_env \<Rightarrow> browser_request \<Rightarrow> string \<Rightarrow> cookie_op list res" where
  "set_flow_cookie B rq state =
     res_bind (set_mirror B rq state) (\<lambda>mirror.
       res_bind (flow_cookie_name B state) (\<lambda>name.
         res_bind (flow_ttl (bf_env B)) (\<lambda>ttl. Inr (mirror @ [SetCookie name (flow_binding B state) ttl]))))"

definition require_flow_cookie :: "bff_env \<Rightarrow> browser_request \<Rightarrow> string \<Rightarrow> unit res" where
  "require_flow_cookie B rq state =
     res_bind (flow_cookie_name B state) (\<lambda>name.
       let supplied = cookie_text (br_cookies rq) name
       in if supplied \<noteq> []
          then res_bind (compare_digest supplied (flow_binding B state)) (\<lambda>same.
                 if same then Inr () else Inl cookie_mismatch)
          else require_mirror B rq state)"

definition remove_flow_cookie :: "bff_env \<Rightarrow> browser_request \<Rightarrow> string \<Rightarrow> cookie_op list res" where
  "remove_flow_cookie B rq state =
     res_bind (flow_cookie_name B state) (\<lambda>name.
       if br_cookies rq name \<noteq> None then Inr [DeleteCookie name] else remove_mirror B rq state)"

section \<open>The routes that start a flow\<close>

record browser_response =
  rp_status :: nat
  rp_location :: string
  rp_body :: "(string \<times> json) list"
  rp_cookies :: "cookie_op list"

definition with_flow ::
  "bff_env \<Rightarrow> browser_request \<Rightarrow> nat \<Rightarrow> (string \<times> json) list \<Rightarrow> string res \<times> identity_db
     \<Rightarrow> browser_response res \<times> identity_db" where
  "with_flow B rq status body started =
     (res_bind (fst started) (\<lambda>address.
        res_bind (authorization_state B address) (\<lambda>state.
          res_bind (set_flow_cookie B rq state) (\<lambda>ops.
            Inr \<lparr>rp_status = status, rp_location = address, rp_body = body, rp_cookies = ops\<rparr>))),
      snd started)"

text \<open>\<open>/auth/login\<close>, \<open>/auth/signup\<close> and \<open>/auth/google\<close>: the mode is the last path segment.\<close>

definition begin_authorization ::
  "bff_env \<Rightarrow> browser_request \<Rightarrow> int \<Rightarrow> flow_draws \<Rightarrow> string \<Rightarrow> string option \<Rightarrow> identity_db
     \<Rightarrow> browser_response res \<times> identity_db" where
  "begin_authorization B rq t d mode return_to db =
     with_flow B rq 302 [] (authorization_url B rq t d mode return_to db)"

definition accepted_body :: "(string \<times> json) list" where
  "accepted_body = [(''status'', JStr ''accepted'')]"

text \<open>The rate limiter that runs first is an argument: whether the address may act again.\<close>

definition rate_limited :: "bool \<Rightarrow> identity_db \<Rightarrow> (browser_response res \<times> identity_db) \<Rightarrow> browser_response res \<times> identity_db" where
  "rate_limited admitted db response =
     (if admitted then response else (Inl (HTTPException 429 ''rate_limit_exceeded''), db))"

definition begin_recovery where
  "begin_recovery admitted B rq t d db =
     rate_limited admitted db (with_flow B rq 202 accepted_body
       (identity_action_url B rq t d ''recover'' ''/reset-success'' None True db))"

definition begin_password_update where
  "begin_password_update admitted B rq t d db =
     rate_limited admitted db (with_flow B rq 202 accepted_body
       (identity_action_url B rq t d ''update-password'' ''/reset-success'' (Some ''UPDATE_PASSWORD'') False db))"

definition begin_email_verification where
  "begin_email_verification admitted B rq t d db =
     rate_limited admitted db (with_flow B rq 202 accepted_body
       (identity_action_url B rq t d ''verify-email'' ''/verification-success'' (Some ''VERIFY_EMAIL'') False db))"

definition step_up_extras :: "env \<Rightarrow> (string \<times> string) list" where
  "step_up_extras e =
     (let acr_values = strip (env_get e ''KLYROW_PLATFORM_OWNER_STEP_UP_ACR_VALUES'' ''2'')
      in [(''prompt'', ''login''), (''max_age'', ''0'')]
         @ (if acr_values \<noteq> [] then [(''acr_values'', acr_values)] else []))"

text \<open>\<open>/auth/step-up\<close> of a browser context with session \<open>sid\<close>.\<close>

definition platform_owner_step_up ::
  "bff_env \<Rightarrow> browser_request \<Rightarrow> int \<Rightarrow> flow_draws \<Rightarrow> string option \<Rightarrow> string \<Rightarrow> identity_db
     \<Rightarrow> browser_response res \<times> identity_db" where
  "platform_owner_step_up B rq t d return_to sid db =
     (if sid = [] then (Inl (HTTPException 401 ''authentication_required''), db)
      else (case authorization_url B rq t d (''step-up:'' @ sid) (Some (safe_return_to return_to ''/admin'')) db of
              (address, db') \<Rightarrow>
                with_flow B rq 302 []
                  (res_bind address (with_query B (\<lambda>u. Inr (ur_path u)) (step_up_extras (bf_env B))), db')))"

definition set_login :: "string \<Rightarrow> (login_row \<Rightarrow> login_row) \<Rightarrow> identity_db \<Rightarrow> identity_db" where
  "set_login k f db = db\<lparr>id_logins := update_rows (\<lambda>l. lt_id l = k) f (id_logins db)\<rparr>"

definition login_by_state :: "bff_env \<Rightarrow> string \<Rightarrow> identity_db \<Rightarrow> login_row option" where
  "login_by_state B state db = find_row (\<lambda>l. lt_state_hash l = bf_sha B state) (id_logins db)"

definition invitation_open :: "int \<Rightarrow> invitation_row \<Rightarrow> bool" where
  "invitation_open t i \<longleftrightarrow> ti_revoked_at i = None \<and> ti_accepted_at i = None \<and> t < ti_expires_at i"

text \<open>\<open>/auth/actions/invitation\<close>: the transaction becomes one that accepts that invitation.\<close>

definition bind_invitation ::
  "bff_env \<Rightarrow> browser_request \<Rightarrow> string \<Rightarrow> string \<Rightarrow> identity_db \<Rightarrow> browser_response res \<times> identity_db" where
  "bind_invitation B rq invitation address db =
     (case authorization_state B address of
        Inl e \<Rightarrow> (Inl e, db)
      | Inr state \<Rightarrow>
          (case login_by_state B state db of
             None \<Rightarrow> (Inl (HTTPException 503 ''oidc_invitation_state_unavailable''), db)
           | Some l \<Rightarrow>
               with_flow B rq 200 [(''valid'', JBool True)]
                 (Inr address, set_login (lt_id l) (\<lambda>l. l\<lparr>lt_mode := ''invite:'' @ invitation\<rparr>) db)))"

definition validate_invitation ::
  "bool \<Rightarrow> bff_env \<Rightarrow> browser_request \<Rightarrow> int \<Rightarrow> flow_draws \<Rightarrow> string \<Rightarrow> identity_db
     \<Rightarrow> browser_response res \<times> identity_db" where
  "validate_invitation admitted B rq t d token db =
     rate_limited admitted db
       (case find_row (\<lambda>i. ti_token_hash i = bf_sha B token) (id_invitations db) of
          Some i \<Rightarrow>
            (if \<not> invitation_open t i
             then (Inr \<lparr>rp_status = 200, rp_location = [],
                        rp_body = [(''valid'', JBool False), (''redirect_to'', JNull)], rp_cookies = []\<rparr>, db)
             else (case authorization_url B rq t d ''signup'' (Some ''/onboarding'') db of
                     (Inl e, db') \<Rightarrow> (Inl e, db')
                   | (Inr address, db') \<Rightarrow> bind_invitation B rq (ti_id i) address db'))
        | None \<Rightarrow> (Inr \<lparr>rp_status = 200, rp_location = [],
                       rp_body = [(''valid'', JBool False), (''redirect_to'', JNull)], rp_cookies = []\<rparr>, db))"

section \<open>Quoting is undone by parsing\<close>

lemma hex_value_digit: "n < 16 \<Longrightarrow> hex_value (hex_digits ! n) = Some n"
proof -
  have "list_all (\<lambda>n. hex_value (hex_digits ! n) = Some n) [0..<16]" by code_simp
  then show "n < 16 \<Longrightarrow> hex_value (hex_digits ! n) = Some n" by (simp add: list_all_iff)
qed

lemma url_safe_plain: "url_safe c \<Longrightarrow> c \<noteq> CHR ''+'' \<and> c \<noteq> CHR ''%''"
  by (auto simp: url_safe_def is_letter_def is_digit_def Let_def)

lemma unquote_quote_char: "unquote_plus (quote_char c @ cs) = c # unquote_plus cs"
proof -
  have n: "(of_char c :: nat) < 256" by (rule of_char_lt_256)
  then have "(of_char c :: nat) div 16 < 16" "(of_char c :: nat) mod 16 < 16"
    by (simp_all add: less_mult_imp_div_less)
  then have hi: "hex_value (hex_digits ! (of_char c div 16)) = Some (of_char c div 16)"
    and lo: "hex_value (hex_digits ! (of_char c mod 16)) = Some (of_char c mod 16)"
    by (simp_all add: hex_value_digit)
  have byte: "char_of (16 * (of_char c div 16) + of_char c mod 16 :: nat) = c" by simp
  show ?thesis
    using url_safe_plain [of c] hi lo byte by (auto simp: quote_char_def)
qed

lemma unquote_quote [simp]: "unquote_plus (quote_plus s) = s"
  by (induction s) (simp_all add: quote_plus_def unquote_quote_char)

definition quoted :: "char \<Rightarrow> bool" where
  "quoted c \<longleftrightarrow> url_safe c \<or> c = CHR ''+'' \<or> c = CHR ''%''"

lemma quoted_hex: "n < 16 \<Longrightarrow> url_safe (hex_digits ! n)"
proof -
  have "list_all (\<lambda>n. url_safe (hex_digits ! n)) [0..<16]" by code_simp
  then show "n < 16 \<Longrightarrow> url_safe (hex_digits ! n)" by (simp add: list_all_iff)
qed

lemma quoted_char: "x \<in> set (quote_char c) \<Longrightarrow> quoted x"
proof -
  have "(of_char c :: nat) < 256" by (rule of_char_lt_256)
  then have "url_safe (hex_digits ! (of_char c div 16))" "url_safe (hex_digits ! (of_char c mod 16))"
    by (auto intro!: quoted_hex simp: less_mult_imp_div_less)
  then show "x \<in> set (quote_char c) \<Longrightarrow> quoted x"
    by (auto simp: quote_char_def quoted_def split: if_splits)
qed

lemma quoted_plus: "x \<in> set (quote_plus s) \<Longrightarrow> quoted x"
  by (auto simp: quote_plus_def dest: quoted_char)

lemma quoted_apart:
  "quoted c \<Longrightarrow> c \<notin> {CHR ''&'', CHR ''='', CHR ''#'', CHR ''?'', CHR 0x09, CHR 0x0A, CHR 0x0D}"
  by (auto simp: quoted_def url_safe_def is_letter_def is_digit_def Let_def)

lemma parse_pair_quoted: "parse_pair (quote_plus k @ CHR ''='' # quote_plus v) = (k, v)"
proof -
  have "CHR ''='' \<notin> set (quote_plus k)" using quoted_plus [of "CHR ''=''" k] quoted_apart by blast
  then have "before (\<lambda>c. c = CHR ''='') (quote_plus k @ CHR ''='' # quote_plus v) = quote_plus k"
    and "after_first (CHR ''='') (quote_plus k @ CHR ''='' # quote_plus v) = quote_plus v"
    by (auto simp: before_def after_first_def takeWhile_append dropWhile_append)
  then show ?thesis by (simp add: parse_pair_def)
qed

lemma parse_urlencode: "parse_qsl (urlencode kvs) = kvs"
proof (cases "kvs = []")
  case True
  then show ?thesis by (simp add: parse_qsl_def urlencode_def)
next
  case False
  let ?pieces = "map (\<lambda>(k, v). quote_plus k @ CHR ''='' # quote_plus v) kvs"
  have "\<forall>p \<in> set ?pieces. CHR ''&'' \<notin> set p"
    using quoted_plus quoted_apart by fastforce
  then have "split_on (CHR ''&'') (urlencode kvs) = ?pieces"
    using False by (simp add: urlencode_def split_on_join_with)
  moreover have "filter (\<lambda>piece. piece \<noteq> []) ?pieces = ?pieces" by (auto simp: filter_id_conv)
  ultimately show ?thesis
    by (auto simp: parse_qsl_def parse_pair_quoted comp_def case_prod_unfold)
qed

definition query_char :: "char \<Rightarrow> bool" where
  "query_char c \<longleftrightarrow> quoted c \<or> c = CHR ''&'' \<or> c = CHR ''=''"

lemma set_join_with: "x \<in> set (join_with c ps) \<Longrightarrow> x = c \<or> (\<exists>p \<in> set ps. x \<in> set p)"
  by (induction c ps rule: join_with.induct) auto

lemma urlencode_chars: "x \<in> set (urlencode kvs) \<Longrightarrow> query_char x"
  by (auto simp: urlencode_def query_char_def dest!: set_join_with quoted_plus)

lemma query_char_apart:
  "query_char c \<Longrightarrow> c \<notin> {CHR ''#'', CHR 0x09, CHR 0x0A, CHR 0x0D}"
  by (auto simp: query_char_def dest: quoted_apart)

section \<open>The address of a flow gives its state back\<close>

definition plain_url_chars :: "char set \<Rightarrow> string \<Rightarrow> bool" where
  "plain_url_chars stops s \<longleftrightarrow> set s \<inter> (stops \<union> {CHR ''#'', CHR 0x09, CHR 0x0A, CHR 0x0D}) = {}"

lemma filter_plain: "plain_url_chars stops s \<Longrightarrow> filter (\<lambda>c. c \<notin> {CHR 0x09, CHR 0x0A, CHR 0x0D}) s = s"
  unfolding plain_url_chars_def filter_id_conv by blast

lemma before_append:
  "\<forall>c \<in> set p. \<not> stop c \<Longrightarrow> before stop (p @ s) = p @ before stop s"
  by (simp add: before_def)

lemma before_all: "\<forall>c \<in> set p. \<not> stop c \<Longrightarrow> before stop p = p"
  by (simp add: before_def takeWhile_eq_all_conv)

lemma after_first_append: "c \<notin> set p \<Longrightarrow> after_first c (p @ c # s) = s"
  by (simp add: after_first_def dropWhile_append)

lemma after_first_none: "c \<notin> set p \<Longrightarrow> after_first c p = []"
  by (induction p) (auto simp: after_first_def)

lemma urlsplit_https:
  assumes host: "plain_url_chars (set ''/?[]'') host" and path: "plain_url_chars (set ''?'') (CHR ''/'' # path)"
    and query: "plain_url_chars {} query"
  shows "urlsplit ip (''https://'' @ host @ (CHR ''/'' # path) @ CHR ''?'' # query) =
    Inr \<lparr>ur_scheme = ''https'', ur_netloc = host, ur_path = CHR ''/'' # path, ur_query = query, ur_fragment = []\<rparr>"
proof -
  let ?rest = "host @ (CHR ''/'' # path) @ CHR ''?'' # query"
  have clean: "filter (\<lambda>c. c \<notin> {CHR 0x09, CHR 0x0A, CHR 0x0D}) ?rest = ?rest"
    using filter_plain [OF host] filter_plain [OF path] filter_plain [OF query] by (simp del: filter.simps add: filter_append) auto
  have s: "sanitized_url (''https://'' @ ?rest) = ''https://'' @ ?rest"
    using clean by (simp add: sanitized_url_def)
  have scheme: "split_scheme (''https://'' @ ?rest) = (''https'', ''//'' @ ?rest)"
    by (simp add: split_scheme_def before_def after_first_def is_letter_def scheme_char_def lower_def lower_char_def)
  have b: "before (\<lambda>c. c \<in> set ''/?#'') ?rest = host"
    using host by (subst before_append) (auto simp: plain_url_chars_def before_def)
  have net: "split_netloc (''//'' @ ?rest) = (host, (CHR ''/'' # path) @ CHR ''?'' # query)"
    using b by (simp add: split_netloc_def starts_with_def)
  have br: "brackets_ok ip host" using host by (auto simp: brackets_ok_def plain_url_chars_def)
  have nofrag: "before (\<lambda>c. c = CHR ''#'') ((CHR ''/'' # path) @ CHR ''?'' # query) = (CHR ''/'' # path) @ CHR ''?'' # query"
    using path query by (intro before_all) (auto simp: plain_url_chars_def)
  have p: "before (\<lambda>c. c = CHR ''?'') ((CHR ''/'' # path) @ CHR ''?'' # query) = CHR ''/'' # path"
    using path by (subst before_append) (auto simp: plain_url_chars_def before_def)
  have q: "after_first (CHR ''?'') ((CHR ''/'' # path) @ CHR ''?'' # query) = query"
    using path by (intro after_first_append) (auto simp: plain_url_chars_def)
  have f: "after_first (CHR ''#'') ((CHR ''/'' # path) @ CHR ''?'' # query) = []"
    using path query by (intro after_first_none) (auto simp: plain_url_chars_def)
  show ?thesis
    unfolding urlsplit_def s scheme net case_prod_conv prod.case Let_def nofrag p q f using br by simp
qed

definition issuer_address :: "string \<Rightarrow> (string \<times> string) list \<Rightarrow> string" where
  "issuer_address path kvs = ''https://auth.codestra.co/realms/codestra/protocol/openid-connect/'' @ path @ ''?'' @ urlencode kvs"

lemma urlencode_plain: "plain_url_chars {} (urlencode kvs)"
  using urlencode_chars query_char_apart unfolding plain_url_chars_def by blast

lemma urlsplit_issuer_address:
  assumes "path \<in> {''auth'', ''registrations'', ''forgot-credentials''}"
  shows "urlsplit ip (issuer_address path kvs) =
    Inr \<lparr>ur_scheme = ''https'', ur_netloc = ''auth.codestra.co'',
         ur_path = ''/realms/codestra/protocol/openid-connect/'' @ path, ur_query = urlencode kvs, ur_fragment = []\<rparr>"
proof -
  have host: "plain_url_chars (set ''/?[]'') ''auth.codestra.co''" by code_simp
  have "plain_url_chars (set ''?'') (CHR ''/'' # ''realms/codestra/protocol/openid-connect/'' @ path)"
    using assms by (auto simp: plain_url_chars_def)
  from urlsplit_https [OF host this urlencode_plain, of ip kvs] show ?thesis by (simp add: issuer_address_def)
qed

lemma query_values_urlencode:
  "query_values name (urlencode kvs) = map snd (filter (\<lambda>kv. fst kv = name) kvs)"
  by (simp add: query_values_def parse_urlencode)

lemma authorization_state_address:
  assumes "path \<in> {''auth'', ''registrations'', ''forgot-credentials''}"
    and "map snd (filter (\<lambda>kv. fst kv = ''state'') kvs) = [state]" and "state \<noteq> []"
  shows "authorization_state B (issuer_address path kvs) = Inr state"
  unfolding authorization_state_def urlsplit_issuer_address [OF assms(1)]
  by (simp add: query_values_urlencode assms(2,3))

definition flow_path :: "string \<Rightarrow> string" where
  "flow_path mode = (if mode = ''signup'' then ''registrations'' else ''auth'')"

lemma flow_path_in: "flow_path mode \<in> {''auth'', ''registrations'', ''forgot-credentials''}"
  by (simp add: flow_path_def)

text \<open>What a started transaction is: its row and the parameters of its address.\<close>

definition started :: "bff_env \<Rightarrow> int \<Rightarrow> flow_draws \<Rightarrow> string \<Rightarrow> identity_db \<Rightarrow> identity_db \<Rightarrow> bool" where
  "started B t d mode db db' \<longleftrightarrow>
     (\<exists>row. db' = db\<lparr>id_logins := id_logins db @ [row]\<rparr> \<and> lt_id row = fd_id d \<and>
        lt_state_hash row = bf_sha B (fd_state d) \<and> lt_mode row = mode \<and> lt_used_at row = None \<and>
        lt_verifier_ciphertext row = bf_seal B (fd_iv_verifier d) (fd_verifier d) \<and>
        lt_nonce_ciphertext row = bf_seal B (fd_iv_nonce d) (fd_nonce d) \<and>
        t + seconds 60 \<le> lt_expires_at row \<and> lt_expires_at row \<le> t + seconds 1800 \<and>
        (\<forall>x \<in> set (id_logins db). lt_id x \<noteq> lt_id row \<and> lt_state_hash x \<noteq> lt_state_hash row))"

lemma authorization_url_cases:
  assumes "authorization_url B rq t d mode rt db = (Inr address, db')"
  obtains redirect row rows iss where "redirect_uri B rq = Inr redirect"
    and "login_transaction B t d mode rt = Inr row"
    and "insert_row ''oidc_login_transactions'' login_clash row (id_logins db) = Inr rows"
    and "canonical_issuer (bf_env B) = Inr iss" and "db' = db\<lparr>id_logins := rows\<rparr>"
    and "address = authorization_endpoint iss mode @ ''?'' @ urlencode (authorization_params B redirect d mode)"
proof -
  show ?thesis
  proof (cases "redirect_uri B rq")
    case (Inr redirect)
    show ?thesis
    proof (cases "login_transaction B t d mode rt")
      case row: (Inr row)
      show ?thesis
        using assms Inr row that
        by (cases "insert_row ''oidc_login_transactions'' login_clash row (id_logins db)";
            cases "canonical_issuer (bf_env B)") (auto simp: authorization_url_def)
    qed (use assms Inr in \<open>simp add: authorization_url_def\<close>)
  qed (use assms in \<open>simp add: authorization_url_def\<close>)
qed

lemma authorization_url_Inr:
  assumes "authorization_url B rq t d mode rt db = (Inr address, db')"
  shows "started B t d mode db db' \<and>
    (\<exists>redirect. address = issuer_address (flow_path mode) (authorization_params B redirect d mode))"
proof -
  obtain redirect row rows iss where r: "redirect_uri B rq = Inr redirect"
    and row: "login_transaction B t d mode rt = Inr row"
    and rows: "insert_row ''oidc_login_transactions'' login_clash row (id_logins db) = Inr rows"
    and iss: "canonical_issuer (bf_env B) = Inr iss" and db': "db' = db\<lparr>id_logins := rows\<rparr>"
    and address: "address = authorization_endpoint iss mode @ ''?'' @ urlencode (authorization_params B redirect d mode)"
    by (rule authorization_url_cases [OF assms])
  obtain ttl where ttl: "flow_ttl (bf_env B) = Inr ttl"
    using row by (cases "flow_ttl (bf_env B)") (auto simp: login_transaction_def)
  have "started B t d mode db db'"
    using row rows flow_ttl_bounds [OF ttl]
    by (auto simp: started_def db' login_transaction_def ttl insert_row_Inr login_clash_def seconds_def)
  moreover have "address = issuer_address (flow_path mode) (authorization_params B redirect d mode)"
    using canonical_issuer_Inr [OF iss]
    by (simp add: address issuer_address_def authorization_endpoint_def CANONICAL_ISSUER_def flow_path_def)
  ultimately show ?thesis by blast
qed

lemma one_state: "map snd (filter (\<lambda>kv. fst kv = ''state'') (authorization_params B redirect d mode)) = [fd_state d]"
  by (simp add: authorization_params_def)

lemma with_query_address:
  assumes "path \<in> {''auth'', ''registrations'', ''forgot-credentials''}"
    and "path_of \<lparr>ur_scheme = ''https'', ur_netloc = ''auth.codestra.co'',
      ur_path = ''/realms/codestra/protocol/openid-connect/'' @ path, ur_query = urlencode kvs, ur_fragment = []\<rparr>
      = Inr (''/realms/codestra/protocol/openid-connect/'' @ path')"
    and "kvs \<noteq> []"
  shows "with_query B path_of extra (issuer_address path kvs) = Inr (issuer_address path' (kvs @ extra))"
proof -
  have "urlencode (kvs @ extra) \<noteq> []"
  proof
    assume "urlencode (kvs @ extra) = []"
    then have "parse_qsl [] = kvs @ extra" using parse_urlencode [of "kvs @ extra"] by simp
    then show False using assms(3) by (simp add: parse_qsl_def)
  qed
  then show ?thesis
    unfolding with_query_def urlsplit_issuer_address [OF assms(1)] res_bind_simps assms(2)
    by (simp add: parse_urlencode urlunsplit_def issuer_address_def)
qed

lemma credentials_path_auth:
  "credentials_path forgot \<lparr>ur_scheme = s, ur_netloc = n,
     ur_path = ''/realms/codestra/protocol/openid-connect/auth'', ur_query = q, ur_fragment = f\<rparr> =
   Inr (''/realms/codestra/protocol/openid-connect/'' @ (if forgot then ''forgot-credentials'' else ''auth''))"
  by (simp add: credentials_path_def ends_with_def Let_def)

text \<open>An address whose state is the one drawn for the transaction.\<close>

definition carries_state :: "bff_env \<Rightarrow> string res \<Rightarrow> string \<Rightarrow> bool" where
  "carries_state B address state \<longleftrightarrow>
     (\<exists>path kvs. path \<in> {''auth'', ''registrations'', ''forgot-credentials''} \<and>
        address = Inr (issuer_address path kvs) \<and> map snd (filter (\<lambda>kv. fst kv = ''state'') kvs) = [state])"

lemma carries_stateI:
  assumes "path \<in> {''auth'', ''registrations'', ''forgot-credentials''}" and "a = issuer_address path kvs"
    and "map snd (filter (\<lambda>kv. fst kv = ''state'') kvs) = [state]"
  shows "carries_state B (Inr a) state"
  unfolding carries_state_def by (intro exI conjI, rule assms(1), simp only: assms(2), rule assms(3))

lemma carries_state_read: "carries_state B (Inr a) state \<Longrightarrow> state \<noteq> [] \<Longrightarrow> authorization_state B a = Inr state"
  by (auto simp: carries_state_def authorization_state_address)

lemma authorization_url_state:
  assumes "authorization_url B rq t d mode rt db = (Inr address, db')"
  shows "carries_state B (Inr address) (fd_state d)"
proof -
  obtain redirect where "address = issuer_address (flow_path mode) (authorization_params B redirect d mode)"
    using authorization_url_Inr [OF assms] by blast
  then show ?thesis by (rule carries_stateI [OF flow_path_in _ one_state])
qed

lemma identity_action_url_state:
  assumes "identity_action_url B rq t d mode rt action forgot db = (Inr address, db')" and "mode \<noteq> ''signup''"
  shows "started B t d mode db db' \<and> carries_state B (Inr address) (fd_state d)"
proof -
  obtain first where u: "authorization_url B rq t d mode (Some rt) db = (Inr first, db')"
    and a: "with_query B (credentials_path forgot) (if absent action then [] else [(''kc_action'', the action)]) first
            = Inr address"
    using assms(1) unfolding identity_action_url_def
    by (cases "authorization_url B rq t d mode (Some rt) db"; cases "fst (authorization_url B rq t d mode (Some rt) db)")
      simp_all
  obtain redirect where f: "first = issuer_address ''auth'' (authorization_params B redirect d mode)"
    using authorization_url_Inr [OF u] assms(2) by (auto simp: flow_path_def)
  let ?path = "if forgot then ''forgot-credentials'' else ''auth''"
  let ?extra = "if absent action then [] else [(''kc_action'', the action)]"
  have "with_query B (credentials_path forgot) ?extra first =
      Inr (issuer_address ?path (authorization_params B redirect d mode @ ?extra))"
    unfolding f by (rule with_query_address) (simp_all add: credentials_path_auth authorization_params_def)
  then have "address = issuer_address ?path (authorization_params B redirect d mode @ ?extra)" using a by simp
  then have "carries_state B (Inr address) (fd_state d)"
    unfolding carries_state_def using one_state [of B redirect d mode] by (intro exI [of _ ?path]) auto
  then show ?thesis using authorization_url_Inr [OF u] by blast
qed

lemma step_up_state:
  assumes "authorization_url B rq t d mode rt db = (Inr first, db')" and "mode \<noteq> ''signup''"
    and "with_query B (\<lambda>u. Inr (ur_path u)) (step_up_extras e) first = Inr address"
  shows "carries_state B (Inr address) (fd_state d)"
proof -
  obtain redirect where f: "first = issuer_address ''auth'' (authorization_params B redirect d mode)"
    using authorization_url_Inr [OF assms(1)] assms(2) by (auto simp: flow_path_def)
  have "with_query B (\<lambda>u. Inr (ur_path u)) (step_up_extras e) first =
      Inr (issuer_address ''auth'' (authorization_params B redirect d mode @ step_up_extras e))"
    unfolding f by (rule with_query_address) (simp_all add: authorization_params_def)
  moreover have "filter (\<lambda>kv. fst kv = ''state'') (step_up_extras e) = []"
    by (simp add: step_up_extras_def Let_def)
  ultimately show ?thesis
    unfolding carries_state_def using one_state [of B redirect d mode] assms(3)
    by (intro exI [of _ "''auth''"] exI [of _ "authorization_params B redirect d mode @ step_up_extras e"]) auto
qed

section \<open>The flow cookies\<close>

text \<open>What \<open>hexdigest()\<close> of HMAC-SHA-256 and of SHA-256 returns.\<close>

definition hex_digests :: "bff_env \<Rightarrow> bool" where
  "hex_digests B \<longleftrightarrow> (\<forall>m. valid_binding (bf_mac B m)) \<and> (\<forall>m. valid_binding (bf_sha B m))"

lemma binding_valid: "hex_digests B \<Longrightarrow> valid_binding (flow_binding B s)"
  by (simp add: hex_digests_def flow_binding_def)

lemma length_newest: "length (newest n xs) = min n (length xs)"
  by (simp add: newest_def)

lemma newest_short: "length xs \<le> n \<Longrightarrow> newest n xs = xs"
  by (simp add: newest_def)

lemma newest_newest [simp]: "newest n (newest n xs) = newest n xs"
  by (simp add: newest_short length_newest)

lemma newest_snoc: "0 < n \<Longrightarrow> newest n (xs @ [x]) = newest (n - 1) xs @ [x]"
  by (cases n) (auto simp: newest_def Suc_diff_le)

lemma set_newest: "set (newest n xs) \<subseteq> set xs"
  by (auto simp: newest_def dest: in_set_dropD)

lemma distinct_newest: "distinct xs \<Longrightarrow> distinct (newest n xs)"
  by (simp add: newest_def)

lemma set_collect: "set (collect_bindings acc bs) = set acc \<union> {b \<in> set bs. valid_binding b}"
  by (induction acc bs rule: collect_bindings.induct) auto

lemma distinct_collect: "distinct acc \<Longrightarrow> distinct (collect_bindings acc bs)"
  by (induction acc bs rule: collect_bindings.induct) auto

lemma collect_id:
  "distinct (acc @ bs) \<Longrightarrow> \<forall>b \<in> set bs. valid_binding b \<Longrightarrow> collect_bindings acc bs = acc @ bs"
  by (induction acc bs rule: collect_bindings.induct) auto

definition binding_list :: "string list \<Rightarrow> bool" where
  "binding_list bs \<longleftrightarrow> distinct bs \<and> (\<forall>b \<in> set bs. valid_binding b)"

lemma binding_list_newest: "binding_list bs \<Longrightarrow> binding_list (newest n bs)"
  using set_newest [of n bs] by (auto simp: binding_list_def distinct_newest)

lemma binding_list_collect: "binding_list (collect_bindings [] bs)"
  by (simp add: binding_list_def distinct_collect set_collect)

lemma binding_list_parse: "binding_list (parse_flow_cookie raw)"
proof -
  have "binding_list (newest n (collect_bindings [] bs))" for n bs
    by (rule binding_list_newest [OF binding_list_collect])
  then show ?thesis by (auto simp: parse_flow_cookie_def Let_def binding_list_def)
qed

definition mirror_char :: "char \<Rightarrow> bool" where
  "mirror_char c \<longleftrightarrow> c \<in> set ''0123456789abcdefv.''"

lemma mirror_char_plain:
  "mirror_char c \<Longrightarrow> lower_char c = c \<and> \<not> is_space c \<and> (of_char c :: nat) < 128"
proof -
  have "list_all (\<lambda>c. lower_char c = c \<and> \<not> is_space c \<and> (of_char c :: nat) < 128) ''0123456789abcdefv.''"
    by code_simp
  then show "mirror_char c \<Longrightarrow> lower_char c = c \<and> \<not> is_space c \<and> (of_char c :: nat) < 128"
    unfolding mirror_char_def list_all_iff by blast
qed

lemma mirror_text: "list_all mirror_char s \<Longrightarrow> lower (strip s) = s \<and> is_ascii s"
proof -
  assume "list_all mirror_char s"
  then have m: "\<forall>c \<in> set s. lower_char c = c \<and> \<not> is_space c \<and> (of_char c :: nat) < 128"
    using mirror_char_plain by (simp add: list_all_iff)
  then have "s = [] \<or> \<not> is_space (hd s) \<and> \<not> is_space (last s)" by auto
  then have "strip s = s" by (rule strip_id)
  moreover have "lower s = s" using m by (simp add: lower_def map_idI)
  ultimately show ?thesis using m by (simp add: is_ascii_def list_all_iff)
qed

lemma valid_binding_chars: "valid_binding b \<Longrightarrow> list_all mirror_char b \<and> CHR ''.'' \<notin> set b \<and> b \<noteq> []"
proof -
  have h: "list_all (\<lambda>c. mirror_char c \<and> c \<noteq> CHR ''.'') ''0123456789abcdef''" by code_simp
  assume "valid_binding b"
  then have "\<forall>c \<in> set b. c \<in> set ''0123456789abcdef''" and "length b = 64"
    by (simp_all add: valid_binding_def list_all_iff del: set_simps)
  then show ?thesis using h unfolding list_all_iff by fastforce
qed

lemma valid_binding_norm: "valid_binding b \<Longrightarrow> lower (strip b) = b"
  using valid_binding_chars mirror_text by blast

lemma list_all_join: "list_all P [c] \<Longrightarrow> \<forall>p \<in> set ps. list_all P p \<Longrightarrow> list_all P (join_with c ps)"
  by (induction c ps rule: join_with.induct) auto

text \<open>What is parsed back is what was encoded, cleaned and cut to the newest eight.\<close>

lemma parse_encode_flow_cookie:
  "parse_flow_cookie (encode_flow_cookie bs) =
     newest MAX_BINDINGS (collect_bindings [] (map (\<lambda>b. lower (strip b)) bs))"
proof -
  define L where "L = newest MAX_BINDINGS (collect_bindings [] (map (\<lambda>b. lower (strip b)) bs))"
  have L: "binding_list L" and short: "newest MAX_BINDINGS L = L"
    by (auto simp: L_def intro: binding_list_newest binding_list_collect)
  have enc: "encode_flow_cookie bs = (if length L = 1 then hd L else ''v1.'' @ join_with (CHR ''.'') L)"
    by (simp add: encode_flow_cookie_def L_def Let_def)
  show ?thesis
  proof (cases "length L = 1")
    case True
    then obtain b where b: "L = [b]" by (cases L) auto
    then have "valid_binding b" using L by (simp add: binding_list_def)
    then show ?thesis
      using b valid_binding_chars [of b]
      by (simp add: enc parse_flow_cookie_def valid_binding_norm flip: L_def)
  next
    case False
    let ?s = "''v1.'' @ join_with (CHR ''.'') L"
    have "list_all mirror_char (join_with (CHR ''.'') L)"
      using L valid_binding_chars by (intro list_all_join) (auto simp: mirror_char_def binding_list_def)
    then have n: "lower (strip ?s) = ?s" using mirror_text [of ?s] by (simp add: mirror_char_def)
    have v: "\<not> valid_binding ?s" by (simp add: valid_binding_def)
    have "collect_bindings [] (split_on (CHR ''.'') (join_with (CHR ''.'') L)) = L"
    proof (cases "L = []")
      case True
      then show ?thesis by (simp add: valid_binding_def)
    next
      case False
      then show ?thesis using L valid_binding_chars
        by (simp add: split_on_join_with binding_list_def collect_id)
    qed
    then show ?thesis
      unfolding enc L_def [symmetric] using False v n short by (simp add: parse_flow_cookie_def starts_with_def Let_def)
  qed
qed

lemma parse_encode_id:
  assumes "binding_list bs"
  shows "parse_flow_cookie (encode_flow_cookie bs) = newest MAX_BINDINGS bs"
proof -
  have "map (\<lambda>b. lower (strip b)) bs = bs"
    using assms valid_binding_norm by (intro map_idI) (auto simp: binding_list_def)
  then show ?thesis using assms collect_id [of "[]" bs] by (simp add: parse_encode_flow_cookie binding_list_def)
qed

lemma others_list: "binding_list (others B rq s) \<and> flow_binding B s \<notin> set (others B rq s)"
  using binding_list_parse by (auto simp: others_def binding_list_def)

lemma others_snoc: "hex_digests B \<Longrightarrow> binding_list (others B rq s @ [flow_binding B s])"
  using others_list [where B = B and rq = rq and s = s] binding_valid [of B s] by (auto simp: binding_list_def)

lemma set_mirror_parsed:
  assumes "hex_digests B" and "set_mirror B rq s = Inr ops"
  shows "parse_flow_cookie (cookie_text (apply_cookies ops jar) FLOW_COOKIE) =
    newest 7 (others B rq s) @ [flow_binding B s]"
proof -
  obtain ttl where "ops = [SetCookie FLOW_COOKIE (encode_flow_cookie (others B rq s @ [flow_binding B s])) ttl]"
    using assms(2) by (cases "flow_ttl (bf_env B)") (auto simp: set_mirror_def write_mirror_def)
  then show ?thesis
    using parse_encode_id [OF others_snoc [OF assms(1), where rq = rq and s = s]]
    by (simp add: apply_cookies_def cookie_text_def MAX_BINDINGS_def newest_snoc)
qed

lemma mirror_ops:
  "set_mirror B rq s = Inr ops \<or> remove_mirror B rq s = Inr ops \<Longrightarrow> name \<noteq> FLOW_COOKIE \<Longrightarrow>
   apply_cookies ops jar name = jar name"
  by (cases "flow_ttl (bf_env B)")
    (auto simp: set_mirror_def remove_mirror_def write_mirror_def apply_cookies_def split: if_splits)

lemma flow_cookie_name_apart: "flow_cookie_name B s = Inr name \<Longrightarrow> name \<noteq> FLOW_COOKIE"
  by (auto simp: flow_cookie_name_def FLOW_COOKIE_def split: if_splits)

lemma apply_cookies_append: "apply_cookies (a @ b) jar = apply_cookies b (apply_cookies a jar)"
  by (simp add: apply_cookies_def)

lemma set_flow_cookie_Inr:
  assumes "set_flow_cookie B rq s = Inr ops"
  obtains mirror name ttl where "set_mirror B rq s = Inr mirror" and "flow_cookie_name B s = Inr name"
    and "ops = mirror @ [SetCookie name (flow_binding B s) ttl]"
  using assms by (auto simp: set_flow_cookie_def res_bind_Inr)

lemma binding_ascii: "hex_digests B \<Longrightarrow> is_ascii (flow_binding B s) \<and> flow_binding B s \<noteq> []"
  using valid_binding_chars [OF binding_valid] mirror_text by blast

lemma exact_cookie_passes:
  assumes "hex_digests B" and "flow_cookie_name B s = Inr name"
    and "br_cookies rq name = Some (flow_binding B s)"
  shows "require_flow_cookie B rq s = Inr ()"
  using assms binding_ascii [OF assms(1), of s]
  by (simp add: require_flow_cookie_def cookie_text_def compare_digest_def)

lemma set_flow_cookie_holds:
  assumes "hex_digests B" and "set_flow_cookie B rq s = Inr ops"
  shows "require_flow_cookie B (rq'\<lparr>br_cookies := apply_cookies ops jar\<rparr>) s = Inr ()"
proof -
  obtain mirror name ttl where "flow_cookie_name B s = Inr name"
    and "ops = mirror @ [SetCookie name (flow_binding B s) ttl]"
    using set_flow_cookie_Inr [OF assms(2)] by metis
  then show ?thesis
    using exact_cookie_passes [OF assms(1), of s name "rq'\<lparr>br_cookies := apply_cookies ops jar\<rparr>"]
    by (simp add: apply_cookies_append apply_cookies_def)
qed

section \<open>Interleaved tabs\<close>

text \<open>
  The responses a browser receives, in any order; each was computed from a request whose cookies may
  be older than the browser's, as happens when tabs race.
\<close>

datatype tab_event = FlowStarted string browser_request | FlowFinished string browser_request

fun tab_state :: "tab_event \<Rightarrow> string" where
  "tab_state (FlowStarted s _) = s"
| "tab_state (FlowFinished s _) = s"

fun tab_response :: "bff_env \<Rightarrow> tab_event \<Rightarrow> cookie_op list res" where
  "tab_response B (FlowStarted s rq) = set_flow_cookie B rq s"
| "tab_response B (FlowFinished s rq) = remove_flow_cookie B rq s"

definition browse :: "bff_env \<Rightarrow> tab_event list \<Rightarrow> (string \<rightharpoonup> string) \<Rightarrow> (string \<rightharpoonup> string)" where
  "browse B events jar =
     fold (\<lambda>ev jar. case tab_response B ev of Inl _ \<Rightarrow> jar | Inr ops \<Rightarrow> apply_cookies ops jar) events jar"

lemma tab_response_confined:
  assumes "tab_response B ev = Inr ops" and "name \<noteq> FLOW_COOKIE" and "flow_cookie_name B (tab_state ev) \<noteq> Inr name"
  shows "apply_cookies ops jar name = jar name"
proof (cases ev)
  case (FlowStarted s rq)
  then obtain mirror n ttl where "set_mirror B rq s = Inr mirror" and "flow_cookie_name B s = Inr n"
    and "ops = mirror @ [SetCookie n (flow_binding B s) ttl]"
    using assms(1) set_flow_cookie_Inr by (metis tab_response.simps(1))
  then show ?thesis
    using FlowStarted assms(2,3) mirror_ops [of B rq s mirror name jar]
    by (auto simp: apply_cookies_append) (simp add: apply_cookies_def)
next
  case (FlowFinished s rq)
  then obtain n where "flow_cookie_name B s = Inr n"
    and "br_cookies rq n \<noteq> None \<and> ops = [DeleteCookie n] \<or> remove_mirror B rq s = Inr ops"
    using assms(1) by (auto simp: remove_flow_cookie_def res_bind_Inr split: if_splits)
  then show ?thesis using FlowFinished assms(2,3) mirror_ops [of B rq s ops] by (auto simp: apply_cookies_def)
qed

lemma browse_confined:
  "name \<noteq> FLOW_COOKIE \<Longrightarrow> \<forall>ev \<in> set events. flow_cookie_name B (tab_state ev) \<noteq> Inr name \<Longrightarrow>
   browse B events jar name = jar name"
proof (induction events arbitrary: jar)
  case (Cons ev events)
  have "(case tab_response B ev of Inl _ \<Rightarrow> jar | Inr ops \<Rightarrow> apply_cookies ops jar) name = jar name"
    using Cons.prems tab_response_confined [of B ev] by (auto split: sum.split)
  then show ?case using Cons by (simp add: browse_def)
qed (simp add: browse_def)

text \<open>
  Racing tabs do not disturb each other. Once a flow was started in a browser, its callback is
  accepted after any further responses to other flows, in any order, each computed from an arbitrarily
  old set of cookies; only the responses to the flow itself touch its cookie.
\<close>

theorem flow_survives_other_tabs:
  assumes "hex_digests B" and "set_flow_cookie B rq state = Inr ops"
    and "\<forall>ev \<in> set events. bf_sha B (tab_state ev) \<noteq> bf_sha B state"
  shows "require_flow_cookie B (rq'\<lparr>br_cookies := browse B events (apply_cookies ops jar)\<rparr>) state = Inr ()"
proof -
  obtain mirror name ttl where name: "flow_cookie_name B state = Inr name"
    and ops: "ops = mirror @ [SetCookie name (flow_binding B state) ttl]"
    using set_flow_cookie_Inr [OF assms(2)] by metis
  have "\<forall>ev \<in> set events. flow_cookie_name B (tab_state ev) \<noteq> Inr name"
    using assms(3) name by (auto simp: flow_cookie_name_def split: if_splits)
  then have "browse B events (apply_cookies ops jar) name = Some (flow_binding B state)"
    using browse_confined [OF flow_cookie_name_apart [OF name]] by (simp add: ops apply_cookies_append apply_cookies_def)
  then show ?thesis by (intro exact_cookie_passes [OF assms(1) name]) simp
qed

text \<open>The mirror alone would lose a flow to a response computed from older cookies.\<close>

lemma mirror_alone_races:
  assumes "hex_digests B" and "set_mirror B rq newer = Inr ops1" and "set_mirror B rq older = Inr ops2"
    and "flow_binding B newer \<noteq> flow_binding B older" and "br_cookies rq FLOW_COOKIE = None"
  shows "require_mirror B (rq\<lparr>br_cookies := apply_cookies ops2 (apply_cookies ops1 jar)\<rparr>) newer = Inl cookie_mismatch"
proof -
  have "others B rq older = []" using assms(5) by (simp add: others_def cookie_text_def parse_flow_cookie_def strip_def lstrip_def)
  then show ?thesis
    using set_mirror_parsed [OF assms(1,3), of "apply_cookies ops1 jar"] assms(4)
    by (simp add: require_mirror_def newest_def)
qed

section \<open>The window of the mirror\<close>

text \<open>Flows started one after the other, each from the cookies the browser then has.\<close>

fun start_in_turn :: "bff_env \<Rightarrow> browser_request \<Rightarrow> string list \<Rightarrow> (string \<rightharpoonup> string) \<Rightarrow> (string \<rightharpoonup> string) res" where
  "start_in_turn B rq [] jar = Inr jar"
| "start_in_turn B rq (s # ss) jar =
     res_bind (set_mirror B (rq\<lparr>br_cookies := jar\<rparr>) s) (\<lambda>ops. start_in_turn B rq ss (apply_cookies ops jar))"

lemma newest_take: "newest n (newest m xs @ ys) = newest n (xs @ ys)" if "n \<le> m + length ys"
proof (cases "length xs \<le> m")
  case True
  then show ?thesis by (simp add: newest_short)
next
  case False
  then have "length (drop (length xs - m) xs) = m" by simp
  then show ?thesis using that False by (simp add: newest_def add.commute)
qed

lemma start_in_turn_window:
  assumes "hex_digests B" and "start_in_turn B rq ss jar = Inr jar'"
    and "distinct (bs @ map (flow_binding B) ss)"
    and "parse_flow_cookie (cookie_text jar FLOW_COOKIE) = newest 8 bs"
  shows "parse_flow_cookie (cookie_text jar' FLOW_COOKIE) = newest 8 (bs @ map (flow_binding B) ss)"
  using assms(2-4)
proof (induction ss arbitrary: jar bs)
  case (Cons s ss)
  obtain ops where ops: "set_mirror B (rq\<lparr>br_cookies := jar\<rparr>) s = Inr ops"
    and rest: "start_in_turn B rq ss (apply_cookies ops jar) = Inr jar'"
    using Cons.prems(1) by (auto simp: res_bind_Inr)
  have "others B (rq\<lparr>br_cookies := jar\<rparr>) s = newest 8 bs"
    using Cons.prems(2,3) set_newest [of 8 bs] by (auto simp: others_def filter_id_conv)
  then have "parse_flow_cookie (cookie_text (apply_cookies ops jar) FLOW_COOKIE) = newest 7 bs @ [flow_binding B s]"
    using set_mirror_parsed [OF assms(1) ops, of jar] newest_take [of 7 8 "[]" bs] by simp
  also have "\<dots> = newest 8 (bs @ [flow_binding B s])" by (simp add: newest_snoc)
  finally show ?case using Cons.IH [OF rest, of "bs @ [flow_binding B s]"] Cons.prems(2) by simp
qed simp

text \<open>
  The mirror holds a window of eight flows: after flows were started one after the other in a
  browser without one, the mirror accepts exactly the last eight, so the ninth start takes the first
  flow's binding and the size of the cookie stays bounded.
\<close>

theorem mirror_window:
  assumes "hex_digests B" and "start_in_turn B rq ss jar = Inr jar'" and "jar FLOW_COOKIE = None"
    and "distinct (map (flow_binding B) ss)"
  shows "require_mirror B (rq\<lparr>br_cookies := jar'\<rparr>) s = Inr () \<longleftrightarrow>
    flow_binding B s \<in> flow_binding B ` set (drop (length ss - 8) ss)"
proof -
  have "parse_flow_cookie (cookie_text jar FLOW_COOKIE) = newest 8 []"
    using assms(3) by (simp add: cookie_text_def parse_flow_cookie_def strip_def lstrip_def newest_def)
  from start_in_turn_window [OF assms(1,2) _ this] assms(4)
  have "parse_flow_cookie (cookie_text jar' FLOW_COOKIE) = map (flow_binding B) (drop (length ss - 8) ss)"
    by (simp add: newest_def drop_map)
  then show ?thesis by (simp add: require_mirror_def cookie_mismatch_def)
qed

text \<open>
  A flow cookie outside ASCII is not answered with the documented 403: the comparison raises a
  \<open>TypeError\<close> that the callback does not handle.
\<close>

theorem non_ascii_flow_cookie_raises:
  assumes "flow_cookie_name B state = Inr name" and "br_cookies rq name = Some v" and "\<not> is_ascii v"
  shows "\<exists>text. require_flow_cookie B rq state = Inl (TypeError text)"
proof -
  have "v \<noteq> []" using assms(3) by (auto simp: is_ascii_def)
  then show ?thesis using assms by (simp add: require_flow_cookie_def cookie_text_def compare_digest_def)
qed

section \<open>What a start route gives the browser\<close>

datatype flow_route =
    Login "string option" | Signup "string option" | Google "string option"
  | Recover | UpdatePassword | VerifyEmail | StepUp "string option" string

fun route_mode :: "flow_route \<Rightarrow> string" where
  "route_mode (Login _) = ''login''"
| "route_mode (Signup _) = ''signup''"
| "route_mode (Google _) = ''google''"
| "route_mode Recover = ''recover''"
| "route_mode UpdatePassword = ''update-password''"
| "route_mode VerifyEmail = ''verify-email''"
| "route_mode (StepUp _ sid) = ''step-up:'' @ sid"

fun start_route ::
  "flow_route \<Rightarrow> bool \<Rightarrow> bff_env \<Rightarrow> browser_request \<Rightarrow> int \<Rightarrow> flow_draws \<Rightarrow> identity_db
     \<Rightarrow> browser_response res \<times> identity_db" where
  "start_route (Login rt) _ B rq t d db = begin_authorization B rq t d ''login'' rt db"
| "start_route (Signup rt) _ B rq t d db = begin_authorization B rq t d ''signup'' rt db"
| "start_route (Google rt) _ B rq t d db = begin_authorization B rq t d ''google'' rt db"
| "start_route Recover admitted B rq t d db = begin_recovery admitted B rq t d db"
| "start_route UpdatePassword admitted B rq t d db = begin_password_update admitted B rq t d db"
| "start_route VerifyEmail admitted B rq t d db = begin_email_verification admitted B rq t d db"
| "start_route (StepUp rt sid) _ B rq t d db = platform_owner_step_up B rq t d rt sid db"

lemma with_flow_Inr:
  assumes "with_flow B rq status body (address, db1) = (Inr rp, db')"
  obtains a state where "address = Inr a" and "db1 = db'" and "authorization_state B a = Inr state"
    and "set_flow_cookie B rq state = Inr (rp_cookies rp)" and "rp_location rp = a" and "rp_body rp = body"
  using assms by (auto simp: with_flow_def res_bind_Inr)

text \<open>Each route is \<open>with_flow\<close> on an address that carries the drawn state.\<close>

lemma start_route_address:
  assumes "start_route route admitted B rq t d db = (Inr rp, db')"
  obtains status body a where "with_flow B rq status body (Inr a, db') = (Inr rp, db')"
    and "started B t d (route_mode route) db db'" and "carries_state B (Inr a) (fd_state d)"
proof -
  note leave = that
  have plain: thesis if r: "begin_authorization B rq t d mode rt db = (Inr rp, db')" and m: "mode = route_mode route" for mode rt
  proof -
    obtain a where a: "authorization_url B rq t d mode rt db = (Inr a, db')"
      using r by (cases "authorization_url B rq t d mode rt db") (auto simp: begin_authorization_def elim: with_flow_Inr)
    then show thesis
      using leave [of 302 "[]" a] r authorization_url_Inr [OF a] authorization_url_state [OF a] m
      by (simp add: begin_authorization_def)
  qed
  have action: thesis
    if r: "rate_limited admitted db (with_flow B rq 202 accepted_body (identity_action_url B rq t d mode rt action forgot db)) = (Inr rp, db')"
      and m: "mode = route_mode route" "mode \<noteq> ''signup''" for mode rt action forgot
  proof -
    have w: "with_flow B rq 202 accepted_body (identity_action_url B rq t d mode rt action forgot db) = (Inr rp, db')"
      using r by (auto simp: rate_limited_def split: if_splits)
    obtain a where a: "identity_action_url B rq t d mode rt action forgot db = (Inr a, db')"
      using w by (cases "identity_action_url B rq t d mode rt action forgot db") (auto elim: with_flow_Inr)
    then show thesis
      using leave [of 202 accepted_body a] w identity_action_url_state [OF a m(2)] m(1) by simp
  qed
  show thesis
  proof (cases route)
    case (StepUp rt sid)
    obtain address db1 where u: "authorization_url B rq t d (''step-up:'' @ sid) (Some (safe_return_to rt ''/admin'')) db = (address, db1)"
      by fastforce
    have w: "with_flow B rq 302 [] (res_bind address (with_query B (\<lambda>u. Inr (ur_path u)) (step_up_extras (bf_env B))), db1) = (Inr rp, db')"
      using assms StepUp u by (auto simp: platform_owner_step_up_def split: if_splits)
    obtain first a where f: "address = Inr first" and a: "with_query B (\<lambda>u. Inr (ur_path u)) (step_up_extras (bf_env B)) first = Inr a"
      and db1: "db1 = db'"
      using w by (auto elim!: with_flow_Inr simp: res_bind_Inr)
    have u': "authorization_url B rq t d (''step-up:'' @ sid) (Some (safe_return_to rt ''/admin'')) db = (Inr first, db')"
      using u f db1 by simp
    show thesis
      using leave [of 302 "[]" a] w f a db1 authorization_url_Inr [OF u'] step_up_state [OF u' _ a] StepUp by simp
  qed (use assms plain action in \<open>simp_all add: begin_recovery_def begin_password_update_def begin_email_verification_def\<close>)
qed

text \<open>
  Every route that starts a flow (login, signup, Google, recovery, the two account actions and the
  owner's step-up) leaves one fresh, unused transaction of its mode that lives between one and thirty
  minutes; the address it answers with decodes to the drawn state; and the cookies of that very answer
  make the browser, and the flow's callback, agree on it.
\<close>

theorem started_flow_bound:
  assumes "start_route route admitted B rq t d db = (Inr rp, db')" and "hex_digests B" and "fd_state d \<noteq> []"
  shows "started B t d (route_mode route) db db' \<and>
    authorization_state B (rp_location rp) = Inr (fd_state d) \<and>
    require_flow_cookie B (rq'\<lparr>br_cookies := apply_cookies (rp_cookies rp) (br_cookies rq)\<rparr>) (fd_state d) = Inr ()"
proof -
  obtain status body a where w: "with_flow B rq status body (Inr a, db') = (Inr rp, db')"
    and s: "started B t d (route_mode route) db db'" and c: "carries_state B (Inr a) (fd_state d)"
    using start_route_address [OF assms(1)] .
  have "authorization_state B a = Inr (fd_state d)" by (rule carries_state_read [OF c assms(3)])
  then show ?thesis
    using w s set_flow_cookie_holds [OF assms(2)] by (auto elim!: with_flow_Inr)
qed

section \<open>Concrete instances\<close>

definition sample_mac :: "string \<Rightarrow> string" where
  "sample_mac m = replicate 64 (if m \<noteq> [] \<and> last m = CHR ''1'' then CHR ''1''
     else if m \<noteq> [] \<and> last m = CHR ''2'' then CHR ''2'' else CHR ''0'')"

definition sample_bff :: bff_env where
  "sample_bff =
     \<lparr>bf_env = env_of [], bf_files = \<lparr>fl_text = \<lambda>_. None, fl_symlink = \<lambda>_. False\<rparr>, bf_ip_literal = \<lambda>_. False,
      bf_sha = sample_mac, bf_mac = sample_mac, bf_mac_url = \<lambda>m. ''csrf-'' @ m, bf_challenge = \<lambda>v. v,
      bf_seal = \<lambda>iv v. v, bf_open = \<lambda>v. Inr v, bf_repr = \<lambda>_. ''repr'', bf_token_endpoint = \<lambda>_. None,
      bf_verified = \<lambda>_ _ _. None, bf_peek = \<lambda>_. None,
      bf_iso = \<lambda>_. []\<rparr>"

definition sample_request :: browser_request where
  "sample_request = \<lparr>br_cookies = \<lambda>_. None, br_user_agent = ''agent'', br_client_host = Some ''10.0.0.1'',
     br_path = ''/app/api/context'', br_hostname = Some ''localhost'', br_base_url = ''http://localhost/''\<rparr>"

definition sample_flow :: flow_draws where
  "sample_flow = \<lparr>fd_id = ''tx1'', fd_state = ''state-1'', fd_nonce = ''nonce'', fd_verifier = ''verifier'',
     fd_iv_verifier = ''a'', fd_iv_nonce = ''b''\<rparr>"

definition empty_identity :: identity_db where
  "empty_identity = \<lparr>id_users = [], id_members = [], id_identities = [], id_sessions = [], id_logins = [],
     id_invitations = [], id_profiles = [], id_organizations = [], id_onboardings = [], id_journal = [], id_trail = [],
     id_postal = \<lparr>pp_tenants = [], pp_mappings = [], pp_credentials = [], pp_jobs = []\<rparr>\<rparr>"

lemma sample_hex: "hex_digests sample_bff"
  by (simp add: hex_digests_def sample_bff_def sample_mac_def valid_binding_def list_all_iff)

lemma sample_flow_cookie: "\<exists>ops. set_flow_cookie sample_bff sample_request ''state-1'' = Inr ops"
proof -
  have "case set_flow_cookie sample_bff sample_request ''state-1'' of Inl _ \<Rightarrow> False | Inr _ \<Rightarrow> True" by code_simp
  then show ?thesis by (auto split: sum.splits)
qed

theorem flow_survives_other_tabs_witness:
  "\<exists>ops. require_flow_cookie sample_bff
     (sample_request\<lparr>br_cookies := browse sample_bff
        [FlowStarted ''state-2'' sample_request, FlowFinished ''state-2'' sample_request]
        (apply_cookies ops (\<lambda>_. None))\<rparr>) ''state-1'' = Inr ()"
proof -
  obtain ops where "set_flow_cookie sample_bff sample_request ''state-1'' = Inr ops" using sample_flow_cookie by blast
  from flow_survives_other_tabs [OF sample_hex this,
      where events = "[FlowStarted ''state-2'' sample_request, FlowFinished ''state-2'' sample_request]"
        and rq' = sample_request and jar = "\<lambda>_. None"]
  show ?thesis by (auto simp: sample_bff_def sample_mac_def)
qed

theorem mirror_window_witness:
  "\<exists>jar'. start_in_turn sample_bff sample_request [''state-1'', ''state-2''] (\<lambda>_. None) = Inr jar' \<and>
     require_mirror sample_bff (sample_request\<lparr>br_cookies := jar'\<rparr>) ''state-1'' = Inr ()"
proof -
  have "case start_in_turn sample_bff sample_request [''state-1'', ''state-2''] (\<lambda>_. None) of Inl _ \<Rightarrow> False | Inr _ \<Rightarrow> True"
    by code_simp
  then obtain jar' where j: "start_in_turn sample_bff sample_request [''state-1'', ''state-2''] (\<lambda>_. None) = Inr jar'"
    by (auto split: sum.splits)
  have "distinct (map (flow_binding sample_bff) [''state-1'', ''state-2''])" by code_simp
  from mirror_window [OF sample_hex j _ this, of "''state-1''"] j show ?thesis by simp
qed

theorem non_ascii_flow_cookie_raises_witness:
  "\<exists>name text. flow_cookie_name sample_bff ''state-1'' = Inr name \<and>
     require_flow_cookie sample_bff (sample_request\<lparr>br_cookies := [name \<mapsto> [CHR 0xE9]]\<rparr>) ''state-1'' = Inl (TypeError text)"
proof -
  obtain name where n: "flow_cookie_name sample_bff ''state-1'' = Inr name" by (simp add: flow_cookie_name_def)
  from non_ascii_flow_cookie_raises [OF n, of "sample_request\<lparr>br_cookies := [name \<mapsto> [CHR 0xE9]]\<rparr>" "[CHR 0xE9]"] n
  show ?thesis by (simp add: is_ascii_def)
qed

theorem started_flow_bound_witness:
  "\<exists>rp db'. start_route (Login None) True sample_bff sample_request 0 sample_flow empty_identity = (Inr rp, db') \<and>
     authorization_state sample_bff (rp_location rp) = Inr ''state-1''"
proof -
  have redirect: "redirect_uri sample_bff sample_request = Inr ''http://localhost/auth/callback''"
    by code_simp
  have ttl: "flow_ttl (bf_env sample_bff) = Inr 600" by code_simp
  have iss: "canonical_issuer (bf_env sample_bff) = Inr CANONICAL_ISSUER" by code_simp
  obtain a db' where u: "authorization_url sample_bff sample_request 0 sample_flow ''login'' None empty_identity = (Inr a, db')"
    by (simp add: authorization_url_def redirect ttl iss login_transaction_def insert_row_def empty_identity_def)
  have st: "fd_state sample_flow = ''state-1''" by (simp add: sample_flow_def)
  obtain ops where "set_flow_cookie sample_bff sample_request ''state-1'' = Inr ops" using sample_flow_cookie by blast
  then obtain rp where r: "start_route (Login None) True sample_bff sample_request 0 sample_flow empty_identity = (Inr rp, db')"
    using carries_state_read [OF authorization_url_state [OF u]]
    by (auto simp: begin_authorization_def with_flow_def u st)
  from started_flow_bound [OF r sample_hex, of sample_request] r show ?thesis by (auto simp: st)
qed

end
