(* ===== verification/BrowserSessions.thy ===== *)
theory BrowserSessions
  imports BrowserFlows
begin

text \<open>
  Browser sessions as the composed application runs them: \<open>_get_browser_session\<close> of
  \<open>auth_bff.py\<close> under the authority check that \<open>browser_auth_actions.py\<close> installs in its place,
  creation and rotation, and the routes that read, refresh, switch and end a session. A route
  returns its answer and the committed database; a request reads the clock once. \<open>Elsewhere\<close> stands
  for what the rest of the system does to the other identity tables between requests.
\<close>

section \<open>Authority\<close>

definition SESSION_COOKIE :: string where "SESSION_COOKIE = ''__Host-klyrow_session''"

definition http :: "nat \<Rightarrow> string \<Rightarrow> exn" where "http code detail = HTTPException code detail"

definition revoke :: "int \<Rightarrow> session_row \<Rightarrow> session_row" where
  "revoke t r = r\<lparr>bs_revoked_at := Some t\<rparr>"

definition revoke_session :: "int \<Rightarrow> string \<Rightarrow> identity_db \<Rightarrow> identity_db" where
  "revoke_session t k db = set_session k (revoke t) db"

text \<open>\<open>auth_bff._get_browser_session\<close> with \<open>touch=False\<close>, as the installed check calls it.\<close>

definition original_get_session ::
  "bff_env \<Rightarrow> browser_request \<Rightarrow> int \<Rightarrow> identity_db \<Rightarrow> session_row res \<times> identity_db" where
  "original_get_session B rq t db =
     (let raw = cookie_text (br_cookies rq) SESSION_COOKIE
      in if raw = [] then (Inl (http 401 ''authentication_required''), db)
         else (case session_by_token db (bf_sha B raw) of
                 None \<Rightarrow> (Inl (http 401 ''session_revoked''), db)
               | Some item \<Rightarrow>
                   if bs_revoked_at item \<noteq> None then (Inl (http 401 ''session_revoked''), db)
                   else if bs_expires_at item \<le> t
                   then (Inl (http 401 ''session_expired''), revoke_session t (bs_id item) db)
                   else (Inr item, db)))"

definition idle_timeout :: "env \<Rightarrow> int res" where
  "idle_timeout e =
     (let configured = (case env_int e ''KLYROW_BROWSER_SESSION_IDLE_SECONDS'' ''1800'' of
                          Inl _ \<Rightarrow> 1800 | Inr i \<Rightarrow> i)
      in map_sum id (\<lambda>ttl. max 300 (min configured ttl)) (session_ttl e))"

definition active_authority ::
  "identity_db \<Rightarrow> string \<Rightarrow> string \<Rightarrow> string \<Rightarrow> (identity_row \<times> user_row \<times> member_row) res" where
  "active_authority db iid uid tid =
     (case (get_identity db iid, get_user db uid) of
        (Some i, Some u) \<Rightarrow>
          (if \<not> oi_enabled i \<or> oi_user_id i \<noteq> uid \<or> \<not> us_enabled u
           then Inl (http 401 ''principal_disabled'')
           else (case active_member db tid uid of
                   None \<Rightarrow> Inl (http 403 ''workspace_access_denied'')
                 | Some m \<Rightarrow> if \<not> tenant_enabled db tid then Inl (http 403 ''workspace_access_denied'')
                              else Inr (i, u, m)))
      | _ \<Rightarrow> Inl (http 401 ''principal_disabled''))"

definition refreshed :: "int \<Rightarrow> bool \<Rightarrow> string \<Rightarrow> session_row \<Rightarrow> session_row" where
  "refreshed t touch role r =
     r\<lparr>bs_role := role, bs_last_seen_at := if touch then t else bs_last_seen_at r\<rparr>"

definition checked_session ::
  "bff_env \<Rightarrow> int \<Rightarrow> bool \<Rightarrow> session_row \<Rightarrow> identity_db \<Rightarrow> session_row res \<times> identity_db" where
  "checked_session B t touch item db =
     (case idle_timeout (bf_env B) of
        Inl e \<Rightarrow> (Inl e, db)
      | Inr idle \<Rightarrow>
          (if seconds idle < t - bs_last_seen_at item
           then (Inl (http 401 ''session_idle_timeout''), revoke_session t (bs_id item) db)
           else (case active_authority db (bs_identity_id item) (bs_user_id item) (bs_tenant_id item) of
                   Inl e \<Rightarrow> (Inl e, revoke_session t (bs_id item) db)
                 | Inr (_, _, m) \<Rightarrow>
                     (Inr (refreshed t touch (tm_role m) item),
                      set_session (bs_id item) (refreshed t touch (tm_role m)) db))))"

definition get_browser_session ::
  "bff_env \<Rightarrow> browser_request \<Rightarrow> int \<Rightarrow> bool \<Rightarrow> identity_db \<Rightarrow> session_row res \<times> identity_db" where
  "get_browser_session B rq t touch db =
     (case original_get_session B rq t db of
        (Inl e, db') \<Rightarrow> (Inl e, db')
      | (Inr item, db') \<Rightarrow> checked_session B t touch item db')"

record browser_ctx =
  bc_sub :: string
  bc_identity_id :: string
  bc_tenant :: string
  bc_role :: string
  bc_sid :: string

definition context_of :: "session_row \<Rightarrow> member_row \<Rightarrow> browser_ctx" where
  "context_of r m = \<lparr>bc_sub = bs_user_id r, bc_identity_id = bs_identity_id r, bc_tenant = bs_tenant_id r,
     bc_role = tm_role m, bc_sid = bs_id r\<rparr>"

definition browser_context ::
  "bff_env \<Rightarrow> browser_request \<Rightarrow> int \<Rightarrow> identity_db \<Rightarrow> browser_ctx res \<times> identity_db" where
  "browser_context B rq t db =
     (case get_browser_session B rq t True db of
        (Inl e, db') \<Rightarrow> (Inl e, db')
      | (Inr r, db') \<Rightarrow>
          (case active_member db' (bs_tenant_id r) (bs_user_id r) of
             Some m \<Rightarrow> (if tenant_enabled db' (bs_tenant_id r) then Inr (context_of r m)
                        else Inl (http 403 ''workspace_access_denied''), db')
           | None \<Rightarrow> (Inl (http 403 ''workspace_access_denied''), db')))"

definition csrf_guard ::
  "bff_env \<Rightarrow> browser_request \<Rightarrow> int \<Rightarrow> string \<Rightarrow> identity_db \<Rightarrow> session_row res \<times> identity_db" where
  "csrf_guard B rq t header db =
     (case get_browser_session B rq t False db of
        (Inl e, db') \<Rightarrow> (Inl e, db')
      | (Inr r, db') \<Rightarrow>
          (if header = [] then (Inl (http 403 ''csrf_validation_failed''), db')
           else (res_bind (compare_digest (bs_csrf_hash r) (bf_sha B header)) (\<lambda>same.
                   if same then Inr r else Inl (http 403 ''csrf_validation_failed'')), db')))"

text \<open>A route behind \<open>csrf_guard\<close>: the guard's commits stay, its refusal ends the request.\<close>

definition guarded ::
  "bff_env \<Rightarrow> browser_request \<Rightarrow> int \<Rightarrow> string \<Rightarrow> (session_row \<Rightarrow> identity_db \<Rightarrow> 'a res \<times> identity_db)
     \<Rightarrow> identity_db \<Rightarrow> 'a res \<times> identity_db" where
  "guarded B rq t header body db =
     (case csrf_guard B rq t header db of
        (Inl e, db') \<Rightarrow> (Inl e, db')
      | (Inr r, db') \<Rightarrow> body r db')"

section \<open>New sessions\<close>

record session_draws =
  sd_id :: string
  sd_raw :: string
  sd_csrf :: string
  sd_iv_refresh :: string
  sd_iv_id_token :: string

definition stable_csrf_token :: "bff_env \<Rightarrow> string \<Rightarrow> string" where
  "stable_csrf_token B sid = bf_mac_url B (''klyrow-browser-csrf-v1:'' @ sid)"

text \<open>\<open>_encrypt(tokens[name]) if tokens.get(name) else None\<close>.\<close>

definition seal_token :: "bff_env \<Rightarrow> string \<Rightarrow> json \<Rightarrow> string option res" where
  "seal_token B iv v =
     (if \<not> truthy v then Inr None
      else (case v of JStr s \<Rightarrow> Inr (Some (bf_seal B iv s)) | _ \<Rightarrow> Inl (AttributeError ''encode'')))"

definition session_row_of ::
  "bff_env \<Rightarrow> browser_request \<Rightarrow> int \<Rightarrow> session_draws \<Rightarrow> identity_row \<Rightarrow> user_row \<Rightarrow> member_row
     \<Rightarrow> (string \<times> json) list \<Rightarrow> string option \<Rightarrow> session_row res" where
  "session_row_of B rq t d i u m tokens rotated =
     res_bind (seal_token B (sd_iv_refresh d) (obj_get tokens ''refresh_token'')) (\<lambda>refresh.
       res_bind (seal_token B (sd_iv_id_token d) (obj_get tokens ''id_token'')) (\<lambda>id_token.
         res_bind (session_ttl (bf_env B)) (\<lambda>ttl. Inr
           \<lparr>bs_id = sd_id d, bs_token_hash = bf_sha B (sd_raw d), bs_csrf_hash = bf_sha B (sd_csrf d),
            bs_identity_id = oi_id i, bs_user_id = us_id u, bs_tenant_id = tm_tenant_id m, bs_role = tm_role m,
            bs_refresh_ciphertext = refresh, bs_id_token_ciphertext = id_token, bs_created_at = t,
            bs_last_seen_at = t, bs_expires_at = t + seconds ttl, bs_rotated_from_id = rotated,
            bs_revoked_at = None, bs_user_agent_hash = metadata_hash B (br_user_agent rq),
            bs_ip_hash = metadata_hash B (case br_client_host rq of None \<Rightarrow> [] | Some h \<Rightarrow> h)\<rparr>)))"

definition session_clash :: "session_row \<Rightarrow> session_row \<Rightarrow> bool" where
  "session_clash r x \<longleftrightarrow> bs_id x = bs_id r \<or> bs_token_hash x = bs_token_hash r"

definition add_session :: "session_row \<Rightarrow> identity_db \<Rightarrow> identity_db res" where
  "add_session r db =
     map_sum id (\<lambda>rows. db\<lparr>id_sessions := rows\<rparr>) (insert_row ''browser_sessions'' session_clash r (id_sessions db))"

text \<open>The deadline of the session that a rotation replaces.\<close>

definition rotation_deadline ::
  "int \<Rightarrow> string option \<Rightarrow> user_row \<Rightarrow> identity_row \<Rightarrow> identity_db \<Rightarrow> int option res" where
  "rotation_deadline t rotated u i db =
     (if absent rotated then Inr None
      else (case get_session db (the rotated) of
              None \<Rightarrow> Inl (http 401 ''session_rotation_invalid'')
            | Some prior \<Rightarrow>
                if bs_user_id prior \<noteq> us_id u \<or> bs_identity_id prior \<noteq> oi_id i
                then Inl (http 401 ''session_rotation_invalid'')
                else if bs_expires_at prior \<le> t then Inl (http 401 ''session_expired'')
                else Inr (Some (bs_expires_at prior))))"

definition capped :: "int option \<Rightarrow> int \<Rightarrow> int" where
  "capped deadline expiry = (case deadline of None \<Rightarrow> expiry | Some l \<Rightarrow> min expiry l)"

definition finish_session :: "bff_env \<Rightarrow> int option \<Rightarrow> session_row \<Rightarrow> session_row" where
  "finish_session B deadline r =
     r\<lparr>bs_expires_at := capped deadline (bs_expires_at r),
       bs_csrf_hash := bf_sha B (stable_csrf_token B (bs_id r))\<rparr>"

definition built_session ::
  "bff_env \<Rightarrow> browser_request \<Rightarrow> int \<Rightarrow> session_draws \<Rightarrow> identity_row \<Rightarrow> user_row \<Rightarrow> member_row
     \<Rightarrow> (string \<times> json) list \<Rightarrow> string option \<Rightarrow> identity_db \<Rightarrow> (session_row \<times> identity_db) res" where
  "built_session B rq t d i u m tokens rotated db =
     res_bind (rotation_deadline t rotated u i db) (\<lambda>deadline.
       res_bind (active_authority db (oi_id i) (us_id u) (tm_tenant_id m)) (\<lambda>(i', u', m').
         res_bind (session_row_of B rq t d i' u' m' tokens rotated) (\<lambda>r.
           res_bind (add_session (finish_session B deadline r) db) (\<lambda>db'.
             Inr (finish_session B deadline r, db')))))"

text \<open>
  \<open>_new_session_with_stable_csrf\<close>: the row, the cookie's value and the CSRF token. Nothing is written
  when it raises.
\<close>

definition new_session ::
  "bff_env \<Rightarrow> browser_request \<Rightarrow> int \<Rightarrow> session_draws \<Rightarrow> identity_row \<Rightarrow> user_row \<Rightarrow> member_row
     \<Rightarrow> (string \<times> json) list \<Rightarrow> string option \<Rightarrow> identity_db
     \<Rightarrow> (session_row \<times> string \<times> string) res \<times> identity_db" where
  "new_session B rq t d i u m tokens rotated db =
     (case built_session B rq t d i u m tokens rotated db of
        Inl e \<Rightarrow> (Inl e, db)
      | Inr (r, db') \<Rightarrow> (Inr (r, sd_raw d, stable_csrf_token B (bs_id r)), db'))"

section \<open>Answers\<close>

definition ROLE_PERMISSIONS :: "string \<Rightarrow> string list option" where
  "ROLE_PERMISSIONS = map_of
     [(''OWNER'', [''*'']),
      (''ADMIN'', [''billing.read'', ''credential.manage'', ''mail.read'', ''mail.send'', ''member.manage'', ''tenant.manage'']),
      (''DEVELOPER'', [''credential.manage'', ''mail.read'', ''mail.send'', ''webhook.manage'']),
      (''BILLING'', [''billing.manage'', ''billing.read'']),
      (''SUPPORT'', [''mail.read'', ''support.manage'']),
      (''MARKETING'', [''campaign.manage'', ''contact.manage'', ''mail.send'']),
      (''ANALYST'', [''analytics.read'', ''mail.read'']),
      (''READ_ONLY'', [''analytics.read'', ''billing.read'', ''mail.read''])]"

definition role_permissions :: "string \<Rightarrow> string list" where
  "role_permissions role = (case ROLE_PERMISSIONS (upper role) of None \<Rightarrow> [] | Some ps \<Rightarrow> ps)"

definition session_body :: "bff_env \<Rightarrow> identity_db \<Rightarrow> session_row \<Rightarrow> string option \<Rightarrow> (string \<times> json) list" where
  "session_body B db r csrf =
     [(''authenticated'', JBool True), (''session_id'', JStr (bs_id r)), (''identity_id'', JStr (bs_identity_id r)),
      (''user_id'', JStr (bs_user_id r)),
      (''email'', case get_user db (bs_user_id r) of None \<Rightarrow> JNull | Some u \<Rightarrow> JStr (us_email u)),
      (''tenant_id'', JStr (bs_tenant_id r)), (''role'', JStr (bs_role r)),
      (''expires_at'', JStr (bf_iso B (bs_expires_at r))),
      (''capabilities'', JList (map JStr (role_permissions (bs_role r)))),
      (''workspaces'', JList (map (\<lambda>m. JObj [(''tenant_id'', JStr (tm_tenant_id m)), (''role'', JStr (tm_role m))])
                                (active_members db (bs_user_id r))))]
     @ (if absent csrf then [] else [(''csrf_token'', JStr (the csrf))])"

definition session_cookie :: "bff_env \<Rightarrow> string \<Rightarrow> cookie_op list res" where
  "session_cookie B raw = map_sum id (\<lambda>ttl. [SetCookie SESSION_COOKIE raw ttl]) (session_ttl (bf_env B))"

definition json_answer :: "(string \<times> json) list \<Rightarrow> cookie_op list \<Rightarrow> browser_response" where
  "json_answer body ops = \<lparr>rp_status = 200, rp_location = [], rp_body = body, rp_cookies = ops\<rparr>"

definition new_session_answer ::
  "bff_env \<Rightarrow> (session_row \<times> string \<times> string) res \<times> identity_db \<Rightarrow> browser_response res \<times> identity_db" where
  "new_session_answer B made =
     (res_bind (fst made) (\<lambda>(r, raw, csrf).
        res_bind (session_cookie B raw) (\<lambda>ops. Inr (json_answer (session_body B (snd made) r (Some csrf)) ops))),
      snd made)"

section \<open>Identity tokens\<close>

definition validate_id_token ::
  "bff_env \<Rightarrow> json \<Rightarrow> string option \<Rightarrow> (string \<times> json) list res" where
  "validate_id_token B raw nonce =
     res_bind (canonical_issuer (bf_env B)) (\<lambda>iss.
       case (case raw of JStr text \<Rightarrow> bf_verified B text (client_id B) iss | _ \<Rightarrow> None) of
         None \<Rightarrow> Inl (http 401 ''invalid_oidc_id_token'')
       | Some claims \<Rightarrow>
           (if truthy (obj_get claims ''azp'') \<and> obj_get claims ''azp'' \<noteq> JStr (client_id B)
            then Inl (http 401 ''invalid_oidc_authorized_party'')
            else (case nonce of
                    None \<Rightarrow> Inr claims
                  | Some expected \<Rightarrow>
                      res_bind (compare_digest
                                  (case map_of claims ''nonce'' of None \<Rightarrow> [] | Some v \<Rightarrow> json_str (bf_repr B) v) expected) (\<lambda>same.
                        if same then Inr claims else Inl (http 401 ''invalid_oidc_nonce'')))))"

definition token_request :: "bff_env \<Rightarrow> (string \<times> string) list \<Rightarrow> string option \<Rightarrow> (string \<times> json) list option" where
  "token_request B data secret =
     (case bf_token_endpoint B (data @ (if absent secret then [] else [(''client_secret'', the secret)])) of
        Some (JObj tokens) \<Rightarrow> Some tokens | _ \<Rightarrow> None)"

section \<open>Routes\<close>

definition session_status ::
  "bff_env \<Rightarrow> browser_request \<Rightarrow> int \<Rightarrow> identity_db \<Rightarrow> browser_response res \<times> identity_db" where
  "session_status B rq t db =
     (case get_browser_session B rq t True db of
        (Inl e, db') \<Rightarrow>
          ((case e of
              HTTPException code detail \<Rightarrow>
                (if code = 401 \<and> detail \<notin> {''principal_disabled'', ''session_idle_timeout''}
                 then Inr (json_answer [(''authenticated'', JBool False)] []) else Inl e)
            | _ \<Rightarrow> Inl e), db')
      | (Inr r, db') \<Rightarrow>
          (let csrf = stable_csrf_token B (bs_id r);
               fixed = r\<lparr>bs_csrf_hash := bf_sha B csrf\<rparr>
           in (Inr (json_answer (session_body B db' fixed (Some csrf)) []),
               set_session (bs_id r) (\<lambda>r. r\<lparr>bs_csrf_hash := bf_sha B csrf\<rparr>) db')))"

text \<open>The tokens of a refresh: a new identity token is checked against the session's identity.\<close>

definition refreshed_tokens ::
  "bff_env \<Rightarrow> session_row \<Rightarrow> string \<Rightarrow> (string \<times> json) list \<Rightarrow> identity_db \<Rightarrow> (string \<times> json) list option res" where
  "refreshed_tokens B r refresh_token tokens db =
     map_sum id (map_option (\<lambda>kvs. if map_of kvs ''refresh_token'' = None
                                   then obj_set ''refresh_token'' (JStr refresh_token) kvs else kvs))
       (if truthy (obj_get tokens ''id_token'')
        then map_sum id (\<lambda>claims.
               case get_identity db (bs_identity_id r) of
                 None \<Rightarrow> None
               | Some i \<Rightarrow> if obj_get claims ''sub'' = JStr (oi_subject i) then Some tokens else None)
               (validate_id_token B (obj_get tokens ''id_token'') None)
        else map_sum id (\<lambda>text. Some (obj_set ''id_token'' (JStr text) tokens))
               (case bs_id_token_ciphertext r of
                  None \<Rightarrow> Inr [] | Some c \<Rightarrow> if c = [] then Inr [] else bf_open B c))"

definition rotate_session ::
  "bff_env \<Rightarrow> browser_request \<Rightarrow> int \<Rightarrow> session_draws \<Rightarrow> session_row \<Rightarrow> (string \<times> json) list \<Rightarrow> identity_db
     \<Rightarrow> browser_response res \<times> identity_db" where
  "rotate_session B rq t d r tokens db =
     (case (get_identity db (bs_identity_id r), get_user db (bs_user_id r),
            active_member db (bs_tenant_id r) (bs_user_id r)) of
        (Some i, Some u, Some m) \<Rightarrow>
          new_session_answer B
            (new_session B rq t d i u m tokens (Some (bs_id r)) (revoke_session t (bs_id r) db))
      | _ \<Rightarrow> (Inl (http 403 ''workspace_access_denied''), db))"

definition exchange_refresh ::
  "bff_env \<Rightarrow> browser_request \<Rightarrow> int \<Rightarrow> session_draws \<Rightarrow> session_row \<Rightarrow> string \<Rightarrow> string option \<Rightarrow> identity_db
     \<Rightarrow> browser_response res \<times> identity_db" where
  "exchange_refresh B rq t d r refresh_token secret db =
     (case token_request B [(''grant_type'', ''refresh_token''), (''client_id'', client_id B),
                            (''refresh_token'', refresh_token)] secret of
        None \<Rightarrow> (Inl (http 401 ''refresh_failed''), revoke_session t (bs_id r) db)
      | Some tokens \<Rightarrow>
          (case refreshed_tokens B r refresh_token tokens db of
             Inl e \<Rightarrow> (Inl e, db)
           | Inr None \<Rightarrow> (Inl (http 401 ''refresh_identity_mismatch''), revoke_session t (bs_id r) db)
           | Inr (Some kvs) \<Rightarrow> rotate_session B rq t d r kvs db))"

definition refresh_session ::
  "bff_env \<Rightarrow> browser_request \<Rightarrow> int \<Rightarrow> session_draws \<Rightarrow> string \<Rightarrow> identity_db
     \<Rightarrow> browser_response res \<times> identity_db" where
  "refresh_session B rq t d header =
     guarded B rq t header (\<lambda>r db.
       case bs_refresh_ciphertext r of
         None \<Rightarrow> (Inl (http 409 ''refresh_not_available''), db)
       | Some c \<Rightarrow>
           (if c = [] then (Inl (http 409 ''refresh_not_available''), db)
            else (case res_bind (bf_open B c) (\<lambda>token. map_sum id (\<lambda>secret. (token, secret)) (client_secret B)) of
                    Inl e \<Rightarrow> (Inl e, db)
                  | Inr (token, secret) \<Rightarrow> exchange_refresh B rq t d r token secret db)))"

text \<open>\<open>/app/api/organizations/{tenant_id}/switch\<close> (\<open>tenancy_onboarding.browser_switch\<close>).\<close>

definition opened_token :: "bff_env \<Rightarrow> string \<Rightarrow> string option \<Rightarrow> (string \<times> json) list res" where
  "opened_token B name ciphertext =
     (if absent ciphertext then Inr [] else map_sum id (\<lambda>v. [(name, JStr v)]) (bf_open B (the ciphertext)))"

definition set_default_tenant :: "string \<Rightarrow> string \<Rightarrow> identity_db \<Rightarrow> identity_db" where
  "set_default_tenant iid tid db =
     db\<lparr>id_identities := update_rows (\<lambda>i. oi_id i = iid) (\<lambda>i. i\<lparr>oi_default_tenant_id := Some tid\<rparr>) (id_identities db)\<rparr>"

definition browser_switch ::
  "bff_env \<Rightarrow> browser_request \<Rightarrow> int \<Rightarrow> session_draws \<Rightarrow> string \<Rightarrow> string \<Rightarrow> identity_db
     \<Rightarrow> browser_response res \<times> identity_db" where
  "browser_switch B rq t d header tid =
     guarded B rq t header (\<lambda>r db.
       case active_member db tid (bs_user_id r) of
         None \<Rightarrow> (Inl (http 404 ''organization_not_found''), db)
       | Some m \<Rightarrow>
           (if \<not> tenant_enabled db tid then (Inl (http 404 ''organization_not_found''), db)
            else (case (get_identity db (bs_identity_id r), get_user db (bs_user_id r)) of
                    (Some i, Some u) \<Rightarrow>
                      (case res_bind (opened_token B ''refresh_token'' (bs_refresh_ciphertext r)) (\<lambda>a.
                              map_sum id (\<lambda>b. a @ b) (opened_token B ''id_token'' (bs_id_token_ciphertext r))) of
                         Inl e \<Rightarrow> (Inl e, db)
                       | Inr tokens \<Rightarrow>
                           new_session_answer B
                             (new_session B rq t d i u m tokens (Some (bs_id r))
                                (set_default_tenant (bs_identity_id r) tid (revoke_session t (bs_id r) db))))
                  | _ \<Rightarrow> (Inl (http 401 ''identity_unavailable''), db))))"

definition list_user_sessions ::
  "bff_env \<Rightarrow> browser_request \<Rightarrow> int \<Rightarrow> identity_db \<Rightarrow> (string \<times> session_row list) res \<times> identity_db" where
  "list_user_sessions B rq t db =
     (case get_browser_session B rq t True db of
        (Inl e, db') \<Rightarrow> (Inl e, db')
      | (Inr r, db') \<Rightarrow>
          (Inr (bs_id r, sort_key (\<lambda>x. - bs_created_at x)
                           (filter (\<lambda>x. bs_user_id x = bs_user_id r) (id_sessions db'))), db'))"

definition revoke_user_session ::
  "bff_env \<Rightarrow> browser_request \<Rightarrow> int \<Rightarrow> string \<Rightarrow> string \<Rightarrow> identity_db \<Rightarrow> unit res \<times> identity_db" where
  "revoke_user_session B rq t header sid =
     guarded B rq t header (\<lambda>r db.
       case get_session db sid of
         Some x \<Rightarrow> (if bs_user_id x = bs_user_id r then (Inr (), revoke_session t sid db)
                    else (Inl (http 404 ''session_not_found''), db))
       | None \<Rightarrow> (Inl (http 404 ''session_not_found''), db))"

definition end_session_url :: "bff_env \<Rightarrow> session_row \<Rightarrow> string res" where
  "end_session_url B r =
     res_bind (canonical_issuer (bf_env B)) (\<lambda>iss.
       res_bind (public_origin B) (\<lambda>origin.
         res_bind (opened_token B ''id_token_hint'' (bs_id_token_ciphertext r)) (\<lambda>hint.
           Inr (iss @ ''/protocol/openid-connect/logout?''
                @ urlencode [(''client_id'', client_id B), (''post_logout_redirect_uri'', origin @ ''/logged-out'')]
                @ concat (map (\<lambda>(k, v). CHR ''&'' # urlencode [(k, json_str (bf_repr B) v)]) hint)))))"

text \<open>The revocation is only committed after the address was built.\<close>

definition logout ::
  "bff_env \<Rightarrow> browser_request \<Rightarrow> int \<Rightarrow> string \<Rightarrow> identity_db \<Rightarrow> browser_response res \<times> identity_db" where
  "logout B rq t header =
     guarded B rq t header (\<lambda>r db.
       case end_session_url B r of
         Inl e \<Rightarrow> (Inl e, db)
       | Inr address \<Rightarrow>
           (Inr (json_answer [(''logged_out'', JBool True), (''end_session_url'', JStr address)] [DeleteCookie SESSION_COOKIE]),
            revoke_session t (bs_id r) db))"

definition open_sessions :: "string \<Rightarrow> session_row \<Rightarrow> bool" where
  "open_sessions uid x \<longleftrightarrow> bs_user_id x = uid \<and> bs_revoked_at x = None"

definition logout_all ::
  "bff_env \<Rightarrow> browser_request \<Rightarrow> int \<Rightarrow> string \<Rightarrow> identity_db \<Rightarrow> browser_response res \<times> identity_db" where
  "logout_all B rq t header =
     guarded B rq t header (\<lambda>r db.
       (Inr (json_answer [(''logged_out'', JBool True),
               (''revoked_sessions'', JInt (int (count_rows (open_sessions (bs_user_id r)) (id_sessions db))))]
               [DeleteCookie SESSION_COOKIE]),
        db\<lparr>id_sessions := update_rows (open_sessions (bs_user_id r)) (revoke t) (id_sessions db)\<rparr>))"

section \<open>Rows that are kept\<close>

text \<open>What every transaction respects about a session row: only its end, its role and its use change.\<close>

definition session_kept :: "session_row \<Rightarrow> session_row \<Rightarrow> bool" where
  "session_kept r s \<longleftrightarrow>
     bs_id s = bs_id r \<and> bs_token_hash s = bs_token_hash r \<and> bs_identity_id s = bs_identity_id r \<and>
     bs_user_id s = bs_user_id r \<and> bs_tenant_id s = bs_tenant_id r \<and> bs_expires_at s = bs_expires_at r \<and>
     bs_rotated_from_id s = bs_rotated_from_id r \<and> (bs_revoked_at r \<noteq> None \<longrightarrow> bs_revoked_at s \<noteq> None)"

interpretation session_rows: row_order session_kept bs_id
  by unfold_locales (auto simp: session_kept_def)

lemma kept_steps [simp]:
  "session_kept r (revoke t r)" "session_kept r (refreshed t touch role r)"
  "session_kept r (r\<lparr>bs_csrf_hash := h\<rparr>)"
  by (simp_all add: session_kept_def revoke_def refreshed_def)

definition replaces :: "session_row \<Rightarrow> session_row \<Rightarrow> bool" where
  "replaces old n \<longleftrightarrow>
     bs_rotated_from_id n = Some (bs_id old) \<and> bs_user_id n = bs_user_id old \<and>
     bs_identity_id n = bs_identity_id old \<and> bs_expires_at n \<le> bs_expires_at old \<and> bs_revoked_at n = None"

text \<open>A request closes sessions, and may put one new session in the place of a live one that it closes.\<close>

definition closes :: "identity_db \<Rightarrow> identity_db \<Rightarrow> bool" where
  "closes db db' \<longleftrightarrow>
     (\<exists>f. id_sessions db' = map f (id_sessions db) \<and> (\<forall>r \<in> set (id_sessions db). session_kept r (f r)))"

definition rotates :: "identity_db \<Rightarrow> identity_db \<Rightarrow> bool" where
  "rotates db db' \<longleftrightarrow>
     (\<exists>f n old. id_sessions db' = map f (id_sessions db) @ [n] \<and>
        (\<forall>r \<in> set (id_sessions db). session_kept r (f r) \<and> \<not> session_clash n r) \<and>
        old \<in> set (id_sessions db) \<and> bs_revoked_at old = None \<and> bs_revoked_at (f old) \<noteq> None \<and> replaces old n \<and> bs_id n \<noteq> [])"

definition sessions_step :: "identity_db \<Rightarrow> identity_db \<Rightarrow> bool" where
  "sessions_step db db' \<longleftrightarrow> closes db db' \<or> rotates db db'"

lemma closes_refl [simp]: "closes db db"
  unfolding closes_def by (intro exI [of _ "\<lambda>r. r"]) (simp add: session_rows.ok_refl)

lemma closes_rows: "id_sessions db' = id_sessions db \<Longrightarrow> closes db db'"
  unfolding closes_def by (intro exI [of _ "\<lambda>r. r"]) (simp add: session_rows.ok_refl)

lemma closes_update:
  assumes "id_sessions db' = update_rows P f (id_sessions db)" and "\<And>r. session_kept r (f r)"
  shows "closes db db'"
  unfolding closes_def
  by (intro exI [of _ "\<lambda>r. if P r then f r else r"]) (simp add: assms update_rows_def session_rows.ok_refl)

lemma closes_set [simp]: "(\<And>r. session_kept r (f r)) \<Longrightarrow> closes db (set_session k f db)"
  by (rule closes_update [of _ "\<lambda>r. bs_id r = k"]) (simp_all add: set_session_def)

lemma closes_revoke [simp]: "closes db (revoke_session t k db)"
  by (simp add: revoke_session_def)

lemma closes_trans:
  assumes "closes a b" and "closes b c"
  shows "closes a c"
proof -
  obtain f where f: "id_sessions b = map f (id_sessions a)" "\<forall>r \<in> set (id_sessions a). session_kept r (f r)"
    using assms(1) unfolding closes_def by blast
  obtain g where g: "id_sessions c = map g (id_sessions b)" "\<forall>r \<in> set (id_sessions b). session_kept r (g r)"
    using assms(2) unfolding closes_def by blast
  show ?thesis
    unfolding closes_def using f g session_rows.ok_trans by (intro exI [of _ "g \<circ> f"]) auto
qed

lemma closes_rotates:
  assumes "closes a b" and "rotates b c"
  shows "rotates a c"
proof -
  obtain f where f: "id_sessions b = map f (id_sessions a)" "\<forall>r \<in> set (id_sessions a). session_kept r (f r)"
    using assms(1) by (auto simp: closes_def)
  obtain g n old where g: "id_sessions c = map g (id_sessions b) @ [n]"
      "\<forall>r \<in> set (id_sessions b). session_kept r (g r) \<and> \<not> session_clash n r"
    and old: "old \<in> set (id_sessions b)" "bs_revoked_at old = None" "bs_revoked_at (g old) \<noteq> None" "replaces old n"
      "bs_id n \<noteq> []"
    using assms(2) unfolding rotates_def by metis
  obtain old' where old': "old' \<in> set (id_sessions a)" "old = f old'" using old(1) f(1) by auto
  have k: "session_kept old' old" using f(2) old' by simp
  have "\<forall>r \<in> set (id_sessions a). session_kept r ((g \<circ> f) r) \<and> \<not> session_clash n r"
    using f g(2) session_rows.ok_trans by (fastforce simp: session_clash_def session_kept_def)
  moreover have "bs_revoked_at old' = None" "bs_revoked_at ((g \<circ> f) old') \<noteq> None" "replaces old' n"
    using k old old'(2) by (auto simp: session_kept_def replaces_def)
  ultimately show ?thesis
    unfolding rotates_def using f g old'(1) old(5)
    by (intro exI [of _ "g \<circ> f"] exI [of _ n] exI [of _ old']) simp
qed

lemma sessions_step_after: "closes a b \<Longrightarrow> sessions_step b c \<Longrightarrow> sessions_step a c"
  using closes_trans closes_rotates by (auto simp: sessions_step_def)

section \<open>What a checked session is\<close>

lemma original_get_session_Inr:
  "original_get_session B rq t db = (Inr r, db') \<longleftrightarrow>
     db' = db \<and> cookie_text (br_cookies rq) SESSION_COOKIE \<noteq> [] \<and>
     session_by_token db (bf_sha B (cookie_text (br_cookies rq) SESSION_COOKIE)) = Some r \<and>
     bs_revoked_at r = None \<and> t < bs_expires_at r"
  by (auto simp: original_get_session_def Let_def split: option.splits if_splits)

lemma original_get_session_closes: "closes db (snd (original_get_session B rq t db))"
  by (auto simp: original_get_session_def Let_def split: option.splits)

lemma active_authority_Inr:
  "active_authority db iid uid tid = Inr (i, u, m) \<longleftrightarrow>
     get_identity db iid = Some i \<and> get_user db uid = Some u \<and> oi_enabled i \<and> oi_user_id i = uid \<and>
     us_enabled u \<and> active_member db tid uid = Some m \<and> tenant_enabled db tid"
  by (auto simp: active_authority_def split: option.splits if_splits)

text \<open>The row that a request may act for, and all that it stands on.\<close>

definition live_session :: "bff_env \<Rightarrow> browser_request \<Rightarrow> int \<Rightarrow> identity_db \<Rightarrow> session_row \<Rightarrow> member_row \<Rightarrow> bool" where
  "live_session B rq t db r m \<longleftrightarrow>
     cookie_text (br_cookies rq) SESSION_COOKIE \<noteq> [] \<and>
     session_by_token db (bf_sha B (cookie_text (br_cookies rq) SESSION_COOKIE)) = Some r \<and>
     bs_revoked_at r = None \<and> t < bs_expires_at r \<and>
     (\<exists>idle. idle_timeout (bf_env B) = Inr idle \<and> t - bs_last_seen_at r \<le> seconds idle) \<and>
     (\<exists>i u. get_identity db (bs_identity_id r) = Some i \<and> oi_enabled i \<and> oi_user_id i = bs_user_id r \<and>
        get_user db (bs_user_id r) = Some u \<and> us_enabled u) \<and>
     active_member db (bs_tenant_id r) (bs_user_id r) = Some m \<and> tenant_enabled db (bs_tenant_id r)"

lemma checked_session_Inr:
  "checked_session B t touch item db = (Inr r, db') \<longleftrightarrow>
     (\<exists>idle i u m. idle_timeout (bf_env B) = Inr idle \<and> t - bs_last_seen_at item \<le> seconds idle \<and>
        active_authority db (bs_identity_id item) (bs_user_id item) (bs_tenant_id item) = Inr (i, u, m) \<and>
        r = refreshed t touch (tm_role m) item \<and>
        db' = set_session (bs_id item) (refreshed t touch (tm_role m)) db)"
  by (auto simp: checked_session_def split: sum.splits if_splits)

lemma checked_session_closes: "closes db (snd (checked_session B t touch item db))"
  by (auto simp: checked_session_def split: sum.splits)

lemma get_browser_session_Inr:
  "get_browser_session B rq t touch db = (Inr r, db') \<longleftrightarrow>
     (\<exists>item m. live_session B rq t db item m \<and> r = refreshed t touch (tm_role m) item \<and>
        db' = set_session (bs_id item) (refreshed t touch (tm_role m)) db)"
proof
  assume g: "get_browser_session B rq t touch db = (Inr r, db')"
  then obtain item db1 where o: "original_get_session B rq t db = (Inr item, db1)"
    and c: "checked_session B t touch item db1 = (Inr r, db')"
    by (auto simp: get_browser_session_def split: prod.splits sum.splits)
  then show "\<exists>item m. live_session B rq t db item m \<and> r = refreshed t touch (tm_role m) item \<and>
        db' = set_session (bs_id item) (refreshed t touch (tm_role m)) db"
    unfolding original_get_session_Inr checked_session_Inr active_authority_Inr live_session_def by blast
next
  assume "\<exists>item m. live_session B rq t db item m \<and> r = refreshed t touch (tm_role m) item \<and>
        db' = set_session (bs_id item) (refreshed t touch (tm_role m)) db"
  then obtain item m where l: "live_session B rq t db item m" and r: "r = refreshed t touch (tm_role m) item"
      "db' = set_session (bs_id item) (refreshed t touch (tm_role m)) db"
    by blast
  have "original_get_session B rq t db = (Inr item, db)"
    using l by (simp add: original_get_session_Inr live_session_def)
  moreover have "checked_session B t touch item db = (Inr r, db')"
    unfolding checked_session_Inr active_authority_Inr using l r unfolding live_session_def by blast
  ultimately show "get_browser_session B rq t touch db = (Inr r, db')" by (simp add: get_browser_session_def)
qed

lemma get_browser_session_closes: "closes db (snd (get_browser_session B rq t touch db))"
proof (cases "original_get_session B rq t db")
  case (Pair res db1)
  have "closes db db1" using original_get_session_closes [of db B rq t] Pair by simp
  then show ?thesis
    using Pair closes_trans [OF _ checked_session_closes] by (cases res) (auto simp: get_browser_session_def)
qed

lemma set_session_tables [simp]:
  "get_identity (set_session k f db) = get_identity db" "get_user (set_session k f db) = get_user db"
  "active_member (set_session k f db) = active_member db" "tenant_enabled (set_session k f db) = tenant_enabled db"
  by (simp_all add: fun_eq_iff set_session_def get_identity_def get_user_def active_member_def tenant_enabled_def get_tenant_def)

text \<open>
  C8. A browser context is given exactly to a request whose cookie names a session that is not
  revoked, has not reached its deadline, was used within the idle limit, and whose identity, user,
  membership and tenant are all active at that moment; its role is the membership's current role, not
  the one the session was opened with.
\<close>

theorem browser_context_iff:
  "fst (browser_context B rq t db) = Inr c \<longleftrightarrow> (\<exists>r m. live_session B rq t db r m \<and> c = context_of r m)"
proof
  assume "fst (browser_context B rq t db) = Inr c"
  then obtain r db' m where g: "get_browser_session B rq t True db = (Inr r, db')"
    and m: "active_member db' (bs_tenant_id r) (bs_user_id r) = Some m" and c: "c = context_of r m"
    by (auto simp: browser_context_def split: prod.splits sum.splits option.splits if_splits)
  then show "\<exists>r m. live_session B rq t db r m \<and> c = context_of r m"
    unfolding get_browser_session_Inr by (auto simp: live_session_def refreshed_def context_of_def)
next
  assume "\<exists>r m. live_session B rq t db r m \<and> c = context_of r m"
  then obtain r m where l: "live_session B rq t db r m" and c: "c = context_of r m" by blast
  have "get_browser_session B rq t True db =
      (Inr (refreshed t True (tm_role m) r), set_session (bs_id r) (refreshed t True (tm_role m)) db)"
    unfolding get_browser_session_Inr using l by blast
  then show "fst (browser_context B rq t db) = Inr c"
    using l c by (simp add: browser_context_def live_session_def refreshed_def context_of_def)
qed

section \<open>Every route steps the session table\<close>

definition sessions_ok :: "identity_db \<Rightarrow> bool" where
  "sessions_ok db \<longleftrightarrow>
     distinct (map bs_id (id_sessions db)) \<and> distinct (map bs_token_hash (id_sessions db)) \<and>
     (\<forall>r \<in> set (id_sessions db). \<forall>p. bs_rotated_from_id r = Some p \<and> p \<noteq> [] \<longrightarrow>
        (\<exists>q \<in> set (id_sessions db). bs_id q = p \<and> bs_revoked_at q \<noteq> None \<and> bs_user_id q = bs_user_id r \<and>
           bs_identity_id q = bs_identity_id r \<and> bs_expires_at r \<le> bs_expires_at q))"

lemma new_session_Inl: "new_session B rq t d i u m tokens rotated db = (Inl e, db') \<Longrightarrow> db' = db"
  by (auto simp: new_session_def split: sum.splits prod.splits)

lemma new_session_Inr:
  assumes "new_session B rq t d i u m tokens rotated db = (Inr (r, raw, csrf), db')"
  obtains deadline i' u' m' r0 where "rotation_deadline t rotated u i db = Inr deadline"
    and "active_authority db (oi_id i) (us_id u) (tm_tenant_id m) = Inr (i', u', m')"
    and "session_row_of B rq t d i' u' m' tokens rotated = Inr r0" and "r = finish_session B deadline r0"
    and "add_session r db = Inr db'" and "raw = sd_raw d" and "csrf = stable_csrf_token B (bs_id r)"
proof -
  have "built_session B rq t d i u m tokens rotated db = Inr (r, db')" and "raw = sd_raw d" "csrf = stable_csrf_token B (bs_id r)"
    using assms by (auto simp: new_session_def split: sum.splits)
  then show thesis using that by (auto simp: built_session_def res_bind_Inr)
qed

lemma add_session_Inr:
  "add_session r db = Inr db' \<longleftrightarrow>
     db' = db\<lparr>id_sessions := id_sessions db @ [r]\<rparr> \<and> (\<forall>x \<in> set (id_sessions db). \<not> session_clash r x)"
  by (cases "insert_row ''browser_sessions'' session_clash r (id_sessions db)")
    (auto simp: add_session_def insert_row_def find_row_None split: if_splits)

lemma session_row_of_Inr:
  assumes "session_row_of B rq t d i u m tokens rotated = Inr r"
  shows "bs_identity_id r = oi_id i \<and> bs_user_id r = us_id u \<and> bs_rotated_from_id r = rotated \<and>
    bs_revoked_at r = None \<and> bs_id r = sd_id d \<and> bs_token_hash r = bf_sha B (sd_raw d) \<and>
    bs_tenant_id r = tm_tenant_id m \<and> bs_role r = tm_role m \<and>
    (\<exists>ttl. session_ttl (bf_env B) = Inr ttl \<and> bs_expires_at r = t + seconds ttl)"
  using assms by (auto simp: session_row_of_def res_bind_Inr)

lemma get_identity_id: "get_identity db k = Some i \<Longrightarrow> oi_id i = k \<and> i \<in> set (id_identities db)"
  by (auto simp: get_identity_def dest: find_row_Some)

lemma get_user_id: "get_user db k = Some u \<Longrightarrow> us_id u = k \<and> u \<in> set (id_users db)"
  by (auto simp: get_user_def dest: find_row_Some)

lemma get_session_id: "get_session db k = Some r \<Longrightarrow> bs_id r = k \<and> r \<in> set (id_sessions db)"
  by (auto simp: get_session_def dest: find_row_Some)

text \<open>A rotation puts one row, never longer lived, in the place of the row it names.\<close>

lemma new_session_rotates:
  assumes n: "new_session B rq t d i u m tokens (Some (bs_id old)) db1 = (Inr made, db')"
    and db1: "id_sessions db1 = id_sessions (revoke_session t (bs_id old) db)"
    and old: "old \<in> set (id_sessions db)" "bs_revoked_at old = None" "bs_id old \<noteq> []"
    and ids: "distinct (map bs_id (id_sessions db))" and drawn: "sd_id d \<noteq> []"
  shows "rotates db db'"
proof -
  obtain r raw csrf where made: "made = (r, raw, csrf)" by (cases made)
  obtain deadline i' u' m' r0 where dl: "rotation_deadline t (Some (bs_id old)) u i db1 = Inr deadline"
    and auth: "active_authority db1 (oi_id i) (us_id u) (tm_tenant_id m) = Inr (i', u', m')"
    and r0: "session_row_of B rq t d i' u' m' tokens (Some (bs_id old)) = Inr r0" and r: "r = finish_session B deadline r0"
    and add: "add_session r db1 = Inr db'"
    by (rule new_session_Inr [OF n [unfolded made]])
  let ?f = "\<lambda>x. if bs_id x = bs_id old then revoke t x else x"
  have rows: "id_sessions db1 = map ?f (id_sessions db)"
    by (simp add: db1 revoke_session_def set_session_def update_rows_def)
  obtain prior where prior: "get_session db1 (bs_id old) = Some prior" "bs_user_id prior = us_id u"
      "bs_identity_id prior = oi_id i" "deadline = Some (bs_expires_at prior)"
    using dl old(3) by (auto simp: rotation_deadline_def absent_def split: option.splits if_splits)
  have "prior = revoke t old"
  proof -
    have "find_row (\<lambda>x. bs_id x = bs_id old) (id_sessions db) = Some old"
      using find_row_unique [OF ids old(1)] .
    then have "find_row (\<lambda>x. bs_id x = bs_id old) (map ?f (id_sessions db)) = Some (?f old)"
      using find_row_map [of "id_sessions db" bs_id ?f "bs_id old"] by (simp add: revoke_def)
    then show ?thesis using prior(1) by (simp add: get_session_def rows)
  qed
  moreover have "oi_id i' = oi_id i" "us_id u' = us_id u"
    using auth get_identity_id get_user_id by (auto simp: active_authority_Inr)
  ultimately have rep: "replaces old r"
    using session_row_of_Inr [OF r0] prior
    by (auto simp: replaces_def r finish_session_def capped_def revoke_def)
  have "id_sessions db' = map ?f (id_sessions db) @ [r]" and "\<forall>x \<in> set (map ?f (id_sessions db)). \<not> session_clash r x"
    using add by (auto simp: add_session_Inr rows)
  note rows' = this
  have clash: "session_clash r (?f x) = session_clash r x" for x by (simp add: session_clash_def revoke_def)
  have kept: "\<forall>x \<in> set (id_sessions db). session_kept x (?f x) \<and> \<not> session_clash r x"
  proof
    fix x assume x: "x \<in> set (id_sessions db)"
    then have "\<not> session_clash r (?f x)" using bspec [OF rows'(2), of "?f x"] unfolding set_map by blast
    then show "session_kept x (?f x) \<and> \<not> session_clash r x" using clash [of x] by (simp add: session_rows.ok_refl)
  qed
  have ended: "bs_revoked_at (?f old) \<noteq> None" by (simp add: revoke_def)
  have named: "bs_id r \<noteq> []" using session_row_of_Inr [OF r0] drawn by (simp add: r finish_session_def)
  show ?thesis
    unfolding rotates_def
    by (rule exI [of _ ?f], rule exI [of _ r], rule exI [of _ old])
      (intro conjI rows'(1) kept old(1,2) ended rep named)
qed

lemma new_session_step:
  assumes "new_session B rq t d i u m tokens (Some (bs_id old)) db1 = (res, db')"
    and "id_sessions db1 = id_sessions (revoke_session t (bs_id old) db)"
    and "old \<in> set (id_sessions db)" "bs_revoked_at old = None" "bs_id old \<noteq> []"
    and "distinct (map bs_id (id_sessions db))" and "sd_id d \<noteq> []"
  shows "sessions_step db db'"
proof (cases res)
  case (Inl e)
  then have "db' = db1" using assms(1) new_session_Inl by blast
  then have "closes db db'" using closes_trans [OF closes_revoke closes_rows] assms(2) by simp
  then show ?thesis by (simp add: sessions_step_def)
next
  case (Inr made)
  then show ?thesis using new_session_rotates [of B rq t d i u m tokens old db1 made db' db] assms by (simp add: sessions_step_def)
qed

text \<open>What \<open>csrf_guard\<close> hands to a route: a live row of the table it has already updated.\<close>

lemma csrf_guard_Inr:
  assumes "csrf_guard B rq t header db = (Inr r, db1)"
  shows "\<exists>item m. live_session B rq t db item m \<and> r = refreshed t False (tm_role m) item \<and>
    db1 = set_session (bs_id item) (refreshed t False (tm_role m)) db \<and> header \<noteq> [] \<and>
    compare_digest (bs_csrf_hash r) (bf_sha B header) = Inr True"
  using assms
  by (auto simp: csrf_guard_def get_browser_session_Inr res_bind_Inr split: prod.splits sum.splits if_splits)

lemma csrf_guard_closes: "closes db (snd (csrf_guard B rq t header db))"
proof (cases "get_browser_session B rq t False db")
  case (Pair res db1)
  then show ?thesis using get_browser_session_closes [of db B rq t False] by (cases res) (auto simp: csrf_guard_def)
qed

definition sessions_named :: "identity_db \<Rightarrow> bool" where
  "sessions_named db \<longleftrightarrow> distinct (map bs_id (id_sessions db)) \<and> (\<forall>r \<in> set (id_sessions db). bs_id r \<noteq> [])"

lemma guarded_step:
  assumes "sessions_named db"
    and "\<And>r db1. r \<in> set (id_sessions db1) \<Longrightarrow> bs_revoked_at r = None \<Longrightarrow> sessions_named db1 \<Longrightarrow>
      sessions_step db1 (snd (body r db1))"
  shows "sessions_step db (snd (guarded B rq t header body db))"
proof (cases "csrf_guard B rq t header db")
  case (Pair res db1)
  have c: "closes db db1" using csrf_guard_closes [of db B rq t header] Pair by simp
  show ?thesis
  proof (cases res)
    case (Inl e)
    then show ?thesis using Pair c by (simp add: guarded_def sessions_step_def)
  next
    case (Inr r)
    then obtain item m where i: "live_session B rq t db item m" "r = refreshed t False (tm_role m) item"
      and db1: "db1 = set_session (bs_id item) (refreshed t False (tm_role m)) db"
      using csrf_guard_Inr Pair by blast
    have "item \<in> set (id_sessions db)" "bs_revoked_at item = None"
      using i(1) by (auto simp: live_session_def session_by_token_def dest: find_row_Some)
    then have "r \<in> set (id_sessions db1)" "bs_revoked_at r = None"
      by (auto simp: i(2) db1 set_session_def set_update_rows refreshed_def)
    moreover have "map bs_id (id_sessions db1) = map bs_id (id_sessions db)"
      by (simp add: db1 set_session_def map_update_rows refreshed_def)
    then have "sessions_named db1"
      using assms(1) unfolding sessions_named_def by (metis (no_types, lifting) imageE image_eqI list.set_map)
    ultimately show ?thesis
      using sessions_step_after [OF c] assms(2) Pair Inr by (simp add: guarded_def)
  qed
qed

lemma step_refl [simp]: "sessions_step db db" "sessions_step db (revoke_session t k db)"
  by (simp_all add: sessions_step_def)

lemma answer_step: "snd (new_session_answer B made) = snd made"
  by (simp add: new_session_answer_def)

lemma rotate_session_step:
  assumes "r \<in> set (id_sessions db)" "bs_revoked_at r = None" "sessions_named db" and "sd_id d \<noteq> []"
  shows "sessions_step db (snd (rotate_session B rq t d r tokens db))"
proof -
  have "sessions_step db (snd (new_session B rq t d i u m tokens (Some (bs_id r)) (revoke_session t (bs_id r) db)))" for i u m
    using new_session_step [of B rq t d i u m tokens r _ _ _ db] assms
    by (metis prod.collapse sessions_named_def)
  then show ?thesis by (auto simp: rotate_session_def answer_step split: option.splits)
qed

lemma refresh_session_step:
  assumes "sessions_named db" and "sd_id d \<noteq> []"
  shows "sessions_step db (snd (refresh_session B rq t d header db))"
  unfolding refresh_session_def
proof (rule guarded_step [OF assms(1)])
  fix r db1 assume "r \<in> set (id_sessions db1)" "bs_revoked_at r = None" "sessions_named db1"
  then have "sessions_step db1 (snd (exchange_refresh B rq t d r token secret db1))" for token secret
    using rotate_session_step [OF _ _ _ assms(2)] by (auto simp: exchange_refresh_def split: option.splits sum.splits)
  then show "sessions_step db1 (snd (case bs_refresh_ciphertext r of
         None \<Rightarrow> (Inl (http 409 ''refresh_not_available''), db1)
       | Some c \<Rightarrow>
           (if c = [] then (Inl (http 409 ''refresh_not_available''), db1)
            else (case res_bind (bf_open B c) (\<lambda>token. map_sum id (\<lambda>secret. (token, secret)) (client_secret B)) of
                    Inl e \<Rightarrow> (Inl e, db1)
                  | Inr (token, secret) \<Rightarrow> exchange_refresh B rq t d r token secret db1))))"
    by (auto split: option.splits sum.splits)
qed

lemma browser_switch_step:
  assumes "sessions_named db" and "sd_id d \<noteq> []"
  shows "sessions_step db (snd (browser_switch B rq t d header tid db))"
  unfolding browser_switch_def
proof (rule guarded_step [OF assms(1)])
  fix r db1 assume r: "r \<in> set (id_sessions db1)" "bs_revoked_at r = None" "sessions_named db1"
  have s: "sessions_step db1 (snd (new_session B rq t d i u m tokens (Some (bs_id r))
             (set_default_tenant (bs_identity_id r) tid (revoke_session t (bs_id r) db1))))" for i u m tokens
    using new_session_step [of B rq t d i u m tokens r _ _ _ db1] r assms(2)
    by (metis (no_types, lifting) prod.collapse sessions_named_def set_default_tenant_def identity_db.ext_inject
        identity_db.surjective identity_db.update_convs(3))
  then show "sessions_step db1 (snd (case active_member db1 tid (bs_user_id r) of
         None \<Rightarrow> (Inl (http 404 ''organization_not_found''), db1)
       | Some m \<Rightarrow>
           (if \<not> tenant_enabled db1 tid then (Inl (http 404 ''organization_not_found''), db1)
            else (case (get_identity db1 (bs_identity_id r), get_user db1 (bs_user_id r)) of
                    (Some i, Some u) \<Rightarrow>
                      (case res_bind (opened_token B ''refresh_token'' (bs_refresh_ciphertext r)) (\<lambda>a.
                              map_sum id (\<lambda>b. a @ b) (opened_token B ''id_token'' (bs_id_token_ciphertext r))) of
                         Inl e \<Rightarrow> (Inl e, db1)
                       | Inr tokens \<Rightarrow>
                           new_session_answer B
                             (new_session B rq t d i u m tokens (Some (bs_id r))
                                (set_default_tenant (bs_identity_id r) tid (revoke_session t (bs_id r) db1))))
                  | _ \<Rightarrow> (Inl (http 401 ''identity_unavailable''), db1)))))"
    by (auto simp: answer_step split: option.splits sum.splits)
qed

section \<open>Requests in any order\<close>

datatype session_op =
    Status bff_env browser_request int
  | BrowserCall bff_env browser_request int
  | Refresh bff_env browser_request int session_draws string
  | SwitchTenant bff_env browser_request int session_draws string string
  | ListSessions bff_env browser_request int
  | RevokeOne bff_env browser_request int string string
  | Logout bff_env browser_request int string
  | LogoutAll bff_env browser_request int string
  | Elsewhere identity_db

fun session_step :: "session_op \<Rightarrow> identity_db \<Rightarrow> identity_db" where
  "session_step (Status B rq t) db = snd (session_status B rq t db)"
| "session_step (BrowserCall B rq t) db = snd (browser_context B rq t db)"
| "session_step (Refresh B rq t d header) db = snd (refresh_session B rq t d header db)"
| "session_step (SwitchTenant B rq t d header tid) db = snd (browser_switch B rq t d header tid db)"
| "session_step (ListSessions B rq t) db = snd (list_user_sessions B rq t db)"
| "session_step (RevokeOne B rq t header sid) db = snd (revoke_user_session B rq t header sid db)"
| "session_step (Logout B rq t header) db = snd (logout B rq t header db)"
| "session_step (LogoutAll B rq t header) db = snd (logout_all B rq t header db)"
| "session_step (Elsewhere other) db = other\<lparr>id_sessions := id_sessions db\<rparr>"

text \<open>An identifier that \<open>uuid4\<close> draws is not empty.\<close>

fun drawn :: "session_op \<Rightarrow> bool" where
  "drawn (Refresh B rq t d header) = (sd_id d \<noteq> [])"
| "drawn (SwitchTenant B rq t d header tid) = (sd_id d \<noteq> [])"
| "drawn _ = True"

lemma browser_context_closes: "closes db (snd (browser_context B rq t db))"
proof (cases "get_browser_session B rq t True db")
  case (Pair res db1)
  then show ?thesis
    using get_browser_session_closes [of db B rq t True]
    by (cases res) (auto simp: browser_context_def split: option.splits)
qed

lemma session_status_closes: "closes db (snd (session_status B rq t db))"
proof (cases "get_browser_session B rq t True db")
  case (Pair res db1)
  then show ?thesis
    using get_browser_session_closes [of db B rq t True] closes_trans
    by (cases res) (auto simp: session_status_def Let_def)
qed

lemma list_user_sessions_closes: "closes db (snd (list_user_sessions B rq t db))"
proof (cases "get_browser_session B rq t True db")
  case (Pair res db1)
  then show ?thesis
    using get_browser_session_closes [of db B rq t True] by (cases res) (auto simp: list_user_sessions_def)
qed

lemma logout_all_closes: "closes db (db\<lparr>id_sessions := update_rows P (revoke t) (id_sessions db)\<rparr>)"
  by (rule closes_update [of _ P "revoke t"]) (simp, rule kept_steps)

lemma session_step_table:
  assumes "sessions_named db" and "drawn op"
  shows "sessions_step db (session_step op db)"
proof (cases op)
  case (RevokeOne B rq t header sid)
  show ?thesis
    unfolding RevokeOne session_step.simps revoke_user_session_def
    by (rule guarded_step [OF assms(1)]) (simp split: option.split)
next
  case (Logout B rq t header)
  show ?thesis
    unfolding Logout session_step.simps logout_def
    by (rule guarded_step [OF assms(1)]) (simp split: sum.split)
next
  case (LogoutAll B rq t header)
  show ?thesis
    unfolding LogoutAll session_step.simps logout_all_def
    by (rule guarded_step [OF assms(1)]) (simp add: sessions_step_def logout_all_closes)
qed (use refresh_session_step [OF assms(1)] browser_switch_step [OF assms(1)] assms(2) session_status_closes
      browser_context_closes list_user_sessions_closes closes_rows in \<open>simp_all add: sessions_step_def\<close>)

section \<open>The store of live sessions\<close>

text \<open>
  The abstract contract: a map from tokens to live sessions. A request may forget sessions, and may
  exchange one of them for a new token of the same person, never for longer.
\<close>

record live =
  lv_user :: string
  lv_identity :: string
  lv_deadline :: int

inductive store_step :: "(string \<rightharpoonup> live) \<Rightarrow> (string \<rightharpoonup> live) \<Rightarrow> bool" where
  Forget: "A' \<subseteq>\<^sub>m A \<Longrightarrow> store_step A A'"
| Exchange: "A k = Some v \<Longrightarrow> A k' = None \<Longrightarrow> lv_user v' = lv_user v \<Longrightarrow> lv_identity v' = lv_identity v \<Longrightarrow>
    lv_deadline v' \<le> lv_deadline v \<Longrightarrow> A' \<subseteq>\<^sub>m (A(k := None))(k' \<mapsto> v') \<Longrightarrow> store_step A A'"

lemma store_step_iff:
  "store_step A A' \<longleftrightarrow> A' \<subseteq>\<^sub>m A \<or>
     (\<exists>k v k' v'. A k = Some v \<and> A k' = None \<and> lv_user v' = lv_user v \<and> lv_identity v' = lv_identity v \<and>
        lv_deadline v' \<le> lv_deadline v \<and> A' \<subseteq>\<^sub>m (A(k := None))(k' \<mapsto> v'))"
  unfolding store_step.simps by blast

definition live_of :: "session_row \<Rightarrow> live option" where
  "live_of r = (if bs_revoked_at r = None
     then Some \<lparr>lv_user = bs_user_id r, lv_identity = bs_identity_id r, lv_deadline = bs_expires_at r\<rparr> else None)"

definition session_store :: "identity_db \<Rightarrow> (string \<rightharpoonup> live)" where
  "session_store db h = Option.bind (session_by_token db h) live_of"

lemma submapI: "(\<And>h v. A' h = Some v \<Longrightarrow> A h = Some v) \<Longrightarrow> A' \<subseteq>\<^sub>m A"
  by (force simp: map_le_def)

lemma live_of_kept: "session_kept r s \<Longrightarrow> live_of s = Some v \<Longrightarrow> live_of r = Some v"
  by (auto simp: live_of_def session_kept_def split: if_splits)

lemma find_token_map:
  assumes "\<forall>r \<in> set rows. session_kept r (f r)"
  shows "find_row (\<lambda>r. bs_token_hash r = h) (map f rows) = map_option f (find_row (\<lambda>r. bs_token_hash r = h) rows)"
  by (rule find_row_map) (use assms in \<open>simp add: session_kept_def\<close>)

lemma closes_store:
  assumes "closes db db'"
  shows "session_store db' \<subseteq>\<^sub>m session_store db"
proof -
  obtain f where f: "id_sessions db' = map f (id_sessions db)" "\<forall>r \<in> set (id_sessions db). session_kept r (f r)"
    using assms unfolding closes_def by blast
  show ?thesis
  proof (rule submapI)
    fix h v assume "session_store db' h = Some v"
    then obtain r where "find_row (\<lambda>r. bs_token_hash r = h) (id_sessions db) = Some r" "live_of (f r) = Some v"
      using f find_token_map [OF f(2)] by (auto simp: session_store_def session_by_token_def bind_eq_Some_conv)
    moreover from this have "session_kept r (f r)" using f(2) find_row_Some by fastforce
    ultimately show "session_store db h = Some v"
      using live_of_kept by (simp add: session_store_def session_by_token_def)
  qed
qed

lemma rotates_store:
  assumes "rotates db db'" and "distinct (map bs_token_hash (id_sessions db))"
  shows "store_step (session_store db) (session_store db')"
proof -
  obtain f n old where f: "id_sessions db' = map f (id_sessions db) @ [n]"
      "\<forall>r \<in> set (id_sessions db). session_kept r (f r) \<and> \<not> session_clash n r"
    and old: "old \<in> set (id_sessions db)" "bs_revoked_at old = None" "bs_revoked_at (f old) \<noteq> None" "replaces old n"
    using assms(1) unfolding rotates_def by blast
  have fold: "session_by_token db (bs_token_hash old) = Some old"
    unfolding session_by_token_def by (rule find_row_unique [OF assms(2) old(1)])
  have fresh: "session_by_token db (bs_token_hash n) = None"
    using f(2) by (auto simp: session_by_token_def find_row_None session_clash_def)
  have look: "session_by_token db' h = (case session_by_token db h of Some r \<Rightarrow> Some (f r)
      | None \<Rightarrow> if bs_token_hash n = h then Some n else None)" for h
    using find_token_map [of "id_sessions db" f h] f
    by (simp add: session_by_token_def find_row_append split: option.split)
  obtain v v' where v: "live_of old = Some v" and v': "live_of n = Some v'"
    and same: "lv_user v' = lv_user v" "lv_identity v' = lv_identity v" "lv_deadline v' \<le> lv_deadline v"
    using old(2,4) by (simp add: live_of_def replaces_def)
  show ?thesis
  proof (rule Exchange [of "session_store db" "bs_token_hash old" v "bs_token_hash n" v'])
    show "session_store db (bs_token_hash old) = Some v" by (simp add: session_store_def fold v)
    show "session_store db (bs_token_hash n) = None" by (simp add: session_store_def fresh)
    show "session_store db' \<subseteq>\<^sub>m (session_store db)(bs_token_hash old := None, bs_token_hash n \<mapsto> v')"
    proof (rule submapI)
      fix h w assume w: "session_store db' h = Some w"
      show "((session_store db)(bs_token_hash old := None, bs_token_hash n \<mapsto> v')) h = Some w"
      proof (cases "session_by_token db h")
        case None
        then show ?thesis using w v' by (auto simp: session_store_def look split: if_splits)
      next
        case (Some r)
        then have r: "live_of (f r) = Some w" using w by (simp add: session_store_def look)
        have "h \<noteq> bs_token_hash n" using Some fresh by auto
        moreover have "h \<noteq> bs_token_hash old" using Some fold r old(3) by (auto simp: live_of_def)
        moreover have "session_kept r (f r)"
          using Some f(2) find_row_Some unfolding session_by_token_def by fastforce
        ultimately show ?thesis using Some r live_of_kept by (simp add: session_store_def)
      qed
    qed
  qed (rule same)+
qed

section \<open>The invariant of the table\<close>

lemma kept_parent:
  assumes "sessions_ok db" and "\<forall>r \<in> set (id_sessions db). session_kept r (f r)" and "r \<in> set (id_sessions db)"
    and "bs_rotated_from_id (f r) = Some p" "p \<noteq> []"
  shows "\<exists>q \<in> f ` set (id_sessions db). bs_id q = p \<and> bs_revoked_at q \<noteq> None \<and> bs_user_id q = bs_user_id (f r) \<and>
    bs_identity_id q = bs_identity_id (f r) \<and> bs_expires_at (f r) \<le> bs_expires_at q"
proof -
  have k: "session_kept r (f r)" using assms(2,3) by blast
  then obtain q where q: "q \<in> set (id_sessions db)" "bs_id q = p" "bs_revoked_at q \<noteq> None"
      "bs_user_id q = bs_user_id r" "bs_identity_id q = bs_identity_id r" "bs_expires_at r \<le> bs_expires_at q"
    using assms unfolding sessions_ok_def session_kept_def by metis
  have "session_kept q (f q)" using assms(2) q(1) by blast
  then show ?thesis using q k by (intro bexI [of _ "f q"]) (auto simp: session_kept_def)
qed

lemma rotates_ok:
  assumes "rotates db db'" and "sessions_ok db"
  shows "sessions_ok db'"
proof -
  obtain f n old where f: "id_sessions db' = map f (id_sessions db) @ [n]"
      "\<forall>r \<in> set (id_sessions db). session_kept r (f r) \<and> \<not> session_clash n r"
    and old: "old \<in> set (id_sessions db)" "bs_revoked_at (f old) \<noteq> None" "replaces old n"
    using assms(1) unfolding rotates_def by blast
  have keys: "map bs_id (map f (id_sessions db)) = map bs_id (id_sessions db)"
    "map bs_token_hash (map f (id_sessions db)) = map bs_token_hash (id_sessions db)"
    using f(2) by (simp_all add: session_kept_def)
  have "distinct (map bs_id (id_sessions db'))" "distinct (map bs_token_hash (id_sessions db'))"
    unfolding f(1) map_append keys using assms(2) f(2) by (auto simp: sessions_ok_def session_clash_def)
  moreover have "\<exists>q \<in> set (id_sessions db'). bs_id q = p \<and> bs_revoked_at q \<noteq> None \<and> bs_user_id q = bs_user_id r \<and>
      bs_identity_id q = bs_identity_id r \<and> bs_expires_at r \<le> bs_expires_at q"
    if r: "r \<in> set (id_sessions db')" and p: "bs_rotated_from_id r = Some p" "p \<noteq> []" for r p
  proof (cases "r = n")
    case True
    have "session_kept old (f old)" using f(2) old(1) by blast
    then show ?thesis
      using True p old f(1) by (intro bexI [of _ "f old"]) (auto simp: replaces_def session_kept_def)
  next
    case False
    then obtain r0 where "r0 \<in> set (id_sessions db)" "r = f r0" using r f(1) by auto
    then show ?thesis using kept_parent [OF assms(2) _ _, of f r0 p] f p by auto
  qed
  ultimately show ?thesis unfolding sessions_ok_def by blast
qed

lemma closes_ok:
  assumes "closes db db'" and "sessions_ok db"
  shows "sessions_ok db'"
proof -
  obtain f where f: "id_sessions db' = map f (id_sessions db)" "\<forall>r \<in> set (id_sessions db). session_kept r (f r)"
    using assms(1) unfolding closes_def by blast
  have keys: "map bs_id (id_sessions db') = map bs_id (id_sessions db)"
    "map bs_token_hash (id_sessions db') = map bs_token_hash (id_sessions db)"
    using f by (simp_all add: session_kept_def)
  have "\<exists>q \<in> set (id_sessions db'). bs_id q = p \<and> bs_revoked_at q \<noteq> None \<and> bs_user_id q = bs_user_id r \<and>
      bs_identity_id q = bs_identity_id r \<and> bs_expires_at r \<le> bs_expires_at q"
    if r: "r \<in> set (id_sessions db')" and p: "bs_rotated_from_id r = Some p" "p \<noteq> []" for r p
  proof -
    obtain r0 where "r0 \<in> set (id_sessions db)" "r = f r0" using r f(1) by auto
    then show ?thesis using kept_parent [OF assms(2) f(2), of r0 p] f p by auto
  qed
  then show ?thesis using assms(2) keys unfolding sessions_ok_def by metis
qed

lemma sessions_step_named:
  assumes "sessions_step db db'" and "sessions_named db" and "sessions_ok db'"
  shows "sessions_named db'"
proof -
  have "bs_id r \<noteq> []" if r: "r \<in> set (id_sessions db')" for r
  proof -
    have "\<exists>x \<in> set (id_sessions db). bs_id r = bs_id x \<or> bs_id r \<noteq> []"
      using assms(1) r unfolding sessions_step_def closes_def rotates_def by (fastforce simp: session_kept_def)
    then show ?thesis using assms(2) unfolding sessions_named_def by metis
  qed
  then show ?thesis using assms(3) by (simp add: sessions_named_def sessions_ok_def)
qed

definition sessions_inv :: "identity_db \<Rightarrow> bool" where
  "sessions_inv db \<longleftrightarrow> sessions_named db \<and> sessions_ok db"

lemma sessions_inv_step:
  assumes "sessions_inv db" and "drawn op"
  shows "sessions_inv (session_step op db)"
proof -
  have step: "sessions_step db (session_step op db)" using session_step_table assms unfolding sessions_inv_def by blast
  then have "sessions_ok (session_step op db)"
    using closes_ok rotates_ok assms(1) unfolding sessions_step_def sessions_inv_def by blast
  then show ?thesis using sessions_step_named [OF step] assms(1) unfolding sessions_inv_def by blast
qed

lemma sessions_inv_run:
  "sessions_inv db \<Longrightarrow> \<forall>op \<in> set ops. drawn op \<Longrightarrow> sessions_inv (run_ops session_step ops db)"
  by (induction ops arbitrary: db) (auto intro: sessions_inv_step)

lemma sessions_step_row:
  assumes "sessions_step db db'" and "session_by_token db h = Some r"
  shows "\<exists>s. session_by_token db' h = Some s \<and> session_kept r s"
proof -
  obtain f new where f: "id_sessions db' = map f (id_sessions db) @ new" "\<forall>r \<in> set (id_sessions db). session_kept r (f r)"
    using assms(1) unfolding sessions_step_def closes_def rotates_def by (metis append_Nil2)
  have "r \<in> set (id_sessions db)" using assms(2) find_row_Some unfolding session_by_token_def by fastforce
  then show ?thesis
    using assms(2) f find_token_map [OF f(2), of h] by (auto simp: session_by_token_def find_row_append)
qed

text \<open>
  No chain of refreshes and tenant switches outlives the sign-in or changes hands: whatever
  session is live after any of these requests, a session of the same user and the same identity was
  live at the start, with a deadline no earlier. (Sign-ins are added in \<open>SessionHistory\<close>.)
\<close>

theorem sessions_never_extended:
  assumes "sessions_inv db" and "\<forall>op \<in> set ops. drawn op"
    and "session_store (run_ops session_step ops db) h = Some v"
  shows "\<exists>h0 v0. session_store db h0 = Some v0 \<and> lv_user v0 = lv_user v \<and> lv_identity v0 = lv_identity v \<and>
    lv_deadline v \<le> lv_deadline v0"
  using assms
proof (induction ops arbitrary: db)
  case (Cons op ops)
  have step: "store_step (session_store db) (session_store (session_step op db))"
    using Cons.prems closes_store rotates_store session_step_table Forget
    unfolding sessions_inv_def sessions_ok_def sessions_step_def by (metis list.set_intros(1))
  obtain h1 v1 where v1: "session_store (session_step op db) h1 = Some v1" "lv_user v1 = lv_user v"
      "lv_identity v1 = lv_identity v" "lv_deadline v \<le> lv_deadline v1"
    using Cons.IH [OF sessions_inv_step [OF Cons.prems(1), of op]] Cons.prems(2,3) by auto
  consider "session_store (session_step op db) \<subseteq>\<^sub>m session_store db"
    | k w k' w' where "session_store db k = Some w" "lv_user w' = lv_user w" "lv_identity w' = lv_identity w"
      "lv_deadline w' \<le> lv_deadline w" "session_store (session_step op db) \<subseteq>\<^sub>m (session_store db)(k := None, k' \<mapsto> w')"
    using step unfolding store_step_iff by metis
  then show ?case
  proof cases
    case 1
    then have "session_store db h1 = Some v1" using v1(1) unfolding map_le_def by (metis domI)
    then show ?thesis using v1 by blast
  next
    case 2
    have "((session_store db)(k := None, k' \<mapsto> w')) h1 = Some v1"
      using 2(5) v1(1) unfolding map_le_def by (metis domI)
    then have "v1 = w' \<or> session_store db h1 = Some v1" by (simp split: if_splits)
    then show ?thesis
    proof
      assume "v1 = w'"
      then show ?thesis using 2(1-4) v1 by (intro exI [of _ k] exI [of _ w]) simp
    qed (use v1 in blast)
  qed
qed auto

section \<open>Signing out\<close>

text \<open>
  C17. Signing out everywhere ends every session of the user and touches nothing else: a caller with a
  live session and its CSRF token is answered with the number of that user's sessions that were still
  open and loses the cookie; every one of those rows is revoked at that moment, and every other row, of
  this user or another, and every other table is exactly as it was (the calling row also takes over the
  membership's current role).
\<close>

theorem logout_all_ends_every_session:
  assumes "distinct (map bs_id (id_sessions db))" and "live_session B rq t db r m"
    and "header \<noteq> []" and "compare_digest (bs_csrf_hash r) (bf_sha B header) = Inr True"
  shows "logout_all B rq t header db =
    (Inr (json_answer [(''logged_out'', JBool True),
            (''revoked_sessions'', JInt (int (count_rows (open_sessions (bs_user_id r)) (id_sessions db))))]
            [DeleteCookie SESSION_COOKIE]),
     db\<lparr>id_sessions := map (\<lambda>x. if open_sessions (bs_user_id r) x
                              then (if x = r then x\<lparr>bs_role := tm_role m\<rparr> else x)\<lparr>bs_revoked_at := Some t\<rparr> else x)
                           (id_sessions db)\<rparr>)"
proof -
  let ?f = "refreshed t False (tm_role m)" and ?rows = "id_sessions db"
  have g: "csrf_guard B rq t header db = (Inr (?f r), set_session (bs_id r) ?f db)"
  proof -
    have "get_browser_session B rq t False db = (Inr (?f r), set_session (bs_id r) ?f db)"
      unfolding get_browser_session_Inr using assms(2) by blast
    then show ?thesis using assms(3,4) by (simp add: csrf_guard_def refreshed_def)
  qed
  have r: "r \<in> set ?rows" "bs_revoked_at r = None"
    using assms(2) by (auto simp: live_session_def session_by_token_def dest: find_row_Some)
  have same: "x \<in> set ?rows \<Longrightarrow> bs_id x = bs_id r \<longleftrightarrow> x = r" for x
    using assms(1) r(1) by (auto simp: distinct_map dest: inj_onD)
  have rows: "update_rows (open_sessions (bs_user_id r)) (revoke t) (update_rows (\<lambda>x. bs_id x = bs_id r) ?f ?rows) =
      map (\<lambda>x. if open_sessions (bs_user_id r) x
        then (if x = r then x\<lparr>bs_role := tm_role m\<rparr> else x)\<lparr>bs_revoked_at := Some t\<rparr> else x) ?rows"
    using r same by (auto simp: update_rows_def open_sessions_def revoke_def refreshed_def)
  have "count_rows (open_sessions (bs_user_id r)) (update_rows P ?f xs) = count_rows (open_sessions (bs_user_id r)) xs" for P xs
    by (induction xs) (auto simp: count_rows_def open_sessions_def refreshed_def)
  then show ?thesis using g rows by (simp add: logout_all_def guarded_def set_session_def) (simp add: refreshed_def)
qed

text \<open>
  Signing out does not end a session whose stored identity token no longer opens: the address for
  the provider is built before the revocation is committed, so the request fails and the same cookie
  stays a live session.
\<close>

theorem unopened_token_blocks_logout:
  assumes "csrf_guard B rq t header db = (Inr r, db1)"
    and "canonical_issuer (bf_env B) = Inr iss" and "public_origin B = Inr origin"
    and "bs_id_token_ciphertext r = Some c" and "c \<noteq> []" and "bf_open B c = Inl e"
  shows "logout B rq t header db = (Inl e, db1) \<and> (\<exists>m. live_session B rq t db1 r m)"
proof -
  have "end_session_url B r = Inl e"
    using assms(2-6) by (simp add: end_session_url_def opened_token_def absent_def)
  then have l: "logout B rq t header db = (Inl e, db1)" using assms(1) by (simp add: logout_def guarded_def)
  obtain item m where i: "live_session B rq t db item m" "r = refreshed t False (tm_role m) item"
    and db1: "db1 = set_session (bs_id item) (refreshed t False (tm_role m)) db"
    using csrf_guard_Inr [OF assms(1)] by blast
  have "session_by_token db1 h = Some r" if "session_by_token db h = Some item" for h
    using that unfolding db1 session_by_token_def set_session_def
    by (simp add: i(2) refreshed_def find_update_rows)
  then have "live_session B rq t db1 r m"
    using i(1) unfolding live_session_def by (simp add: db1) (simp add: i(2) refreshed_def)
  then show ?thesis using l by blast
qed

section \<open>The CSRF token\<close>

text \<open>
  The CSRF token is the session's own and is stable: the token that the session status hands out
  passes the guard of any later request with the same cookie for which the session is still live.
\<close>

theorem status_token_passes_guard:
  assumes "session_status B rq t db = (Inr rp, db1)" and "(''csrf_token'', JStr token) \<in> set (rp_body rp)"
    and "get_browser_session B rq t' False db1 = (Inr r, db2)" and "sessions_inv db"
    and "hex_digests B" and "\<forall>m. bf_mac_url B m \<noteq> []"
  shows "csrf_guard B rq t' token db1 = (Inr r, db2) \<and> token = stable_csrf_token B (bs_id r)"
proof -
  obtain s db0 where g: "get_browser_session B rq t True db = (Inr s, db0)"
    and rp: "token = stable_csrf_token B (bs_id s)"
    and db1: "db1 = set_session (bs_id s) (\<lambda>r. r\<lparr>bs_csrf_hash := bf_sha B token\<rparr>) db0"
    using assms(1,2)
    by (auto simp: session_status_def Let_def json_answer_def session_body_def absent_def
        split: prod.splits sum.splits exn.splits if_splits)
  obtain item m where i: "live_session B rq t db item m" "s = refreshed t True (tm_role m) item"
    and db0: "db0 = set_session (bs_id item) (refreshed t True (tm_role m)) db"
    using g unfolding get_browser_session_Inr by blast
  let ?h = "bf_sha B (cookie_text (br_cookies rq) SESSION_COOKIE)"
  have "session_by_token db ?h = Some item" using i(1) by (simp add: live_session_def)
  then have "session_by_token db0 ?h = Some s"
    unfolding db0 session_by_token_def set_session_def by (simp add: i(2) refreshed_def find_update_rows)
  then have now: "session_by_token db1 ?h = Some (s\<lparr>bs_csrf_hash := bf_sha B token\<rparr>)"
    unfolding db1 session_by_token_def set_session_def by (simp add: find_update_rows)
  obtain item' m' where i': "live_session B rq t' db1 item' m'" "r = refreshed t' False (tm_role m') item'"
    using assms(3) unfolding get_browser_session_Inr by blast
  have "item' = s\<lparr>bs_csrf_hash := bf_sha B token\<rparr>" using i'(1) now by (simp add: live_session_def)
  then have r: "bs_csrf_hash r = bf_sha B token" "bs_id r = bs_id s" by (simp_all add: i'(2) refreshed_def)
  have "token \<noteq> []" using assms(6) by (simp add: rp stable_csrf_token_def)
  moreover have "is_ascii (bf_sha B token)"
    using assms(5) valid_binding_chars mirror_text unfolding hex_digests_def by blast
  ultimately show ?thesis
    using assms(3) r rp by (simp add: csrf_guard_def compare_digest_def)
qed

text \<open>
  The limits are bounded whatever the environment says: when a session's limits can be read at
  all, it may be idle between five minutes and its lifetime, and its lifetime is at most a day; a
  malformed idle limit counts as half an hour.
\<close>

theorem session_limits_bounded:
  assumes "idle_timeout e = Inr idle"
  shows "\<exists>ttl. session_ttl e = Inr ttl \<and> 300 \<le> idle \<and> idle \<le> ttl \<and> ttl \<le> 86400"
proof -
  obtain ttl where ttl: "session_ttl e = Inr ttl" using assms by (cases "session_ttl e") (auto simp: idle_timeout_def)
  then show ?thesis using assms session_ttl_bounds [OF ttl] by (auto simp: idle_timeout_def Let_def)
qed

section \<open>Concrete instances\<close>

definition sample_identity :: identity_row where
  "sample_identity = \<lparr>oi_id = ''i1'', oi_issuer = CANONICAL_ISSUER, oi_subject = ''sub'', oi_user_id = ''u1'',
     oi_default_tenant_id = Some ''t1'', oi_identity_type = ''KLYROW_ONLY'', oi_enabled = True\<rparr>"

definition sample_member :: member_row where
  "sample_member = \<lparr>tm_id = ''m1'', tm_tenant_id = ''t1'', tm_user_id = ''u1'', tm_role = ''OWNER'', tm_active = True,
     tm_created_at = 0\<rparr>"

definition sample_session :: session_row where
  "sample_session = \<lparr>bs_id = ''s1'', bs_token_hash = sample_mac ''raw1'', bs_csrf_hash = sample_mac ''csrf2'',
     bs_identity_id = ''i1'', bs_user_id = ''u1'', bs_tenant_id = ''t1'', bs_role = ''ADMIN'',
     bs_refresh_ciphertext = Some ''refresh'', bs_id_token_ciphertext = Some ''id'', bs_created_at = 0,
     bs_last_seen_at = 0, bs_expires_at = 1000, bs_rotated_from_id = None, bs_revoked_at = None,
     bs_user_agent_hash = None, bs_ip_hash = None\<rparr>"

definition sample_identity_db :: identity_db where
  "sample_identity_db = empty_identity
     \<lparr>id_users := [\<lparr>us_id = ''u1'', us_tenant_id = ''t1'', us_email = ''o@a.org'', us_password_hash = [],
        us_role = ''tenant_admin'', us_enabled = True\<rparr>],
      id_members := [sample_member], id_identities := [sample_identity], id_sessions := [sample_session],
      id_postal := \<lparr>pp_tenants = [\<lparr>tn_id = ''t1'', tn_name = ''A'', tn_enabled = True, tn_quota = 10\<rparr>],
        pp_mappings = [], pp_credentials = [], pp_jobs = []\<rparr>\<rparr>"

definition signed_in :: browser_request where
  "signed_in = sample_request\<lparr>br_cookies := [SESSION_COOKIE \<mapsto> ''raw1'']\<rparr>"

lemma sample_idle: "idle_timeout (bf_env sample_bff) = Inr 1800"
  by (simp add: idle_timeout_def session_ttl_def env_int_def sample_bff_def env_of_def env_get_def int_of_string_def
      strip_def lstrip_def is_space_def starts_with_def is_digit_def digit_value_def)

definition sample_like :: "bff_env \<Rightarrow> bool" where
  "sample_like B \<longleftrightarrow> bf_env B = bf_env sample_bff \<and> bf_sha B = bf_sha sample_bff"

lemma sample_live: "sample_like B \<Longrightarrow> live_session B signed_in 5 sample_identity_db sample_session sample_member"
  unfolding live_session_def sample_like_def using sample_idle
  by (simp add: signed_in_def cookie_text_def sample_identity_db_def session_by_token_def sample_session_def
      sample_bff_def seconds_def get_identity_def sample_identity_def get_user_def active_member_def sample_member_def
      tenant_enabled_def get_tenant_def)

lemma sample_sessions_inv: "sessions_inv sample_identity_db"
  by (simp add: sessions_inv_def sessions_named_def sessions_ok_def sample_identity_db_def sample_session_def)

lemma sample_guard:
  assumes "sample_like B"
  shows "csrf_guard B signed_in 5 ''csrf2'' sample_identity_db =
     (Inr (refreshed 5 False ''OWNER'' sample_session),
      set_session ''s1'' (refreshed 5 False ''OWNER'') sample_identity_db)"
proof -
  have "get_browser_session B signed_in 5 False sample_identity_db =
      (Inr (refreshed 5 False (tm_role sample_member) sample_session),
       set_session (bs_id sample_session) (refreshed 5 False (tm_role sample_member)) sample_identity_db)"
    unfolding get_browser_session_Inr using sample_live [OF assms] by blast
  moreover have "is_ascii (sample_mac ''csrf2'')" by code_simp
  ultimately show ?thesis
    using assms
    by (simp add: csrf_guard_def compare_digest_def refreshed_def sample_session_def sample_member_def sample_like_def sample_bff_def)
qed

lemma sample_itself: "sample_like sample_bff"
  by (simp add: sample_like_def)

theorem sessions_never_extended_witness:
  "\<exists>h0 v0. session_store sample_identity_db h0 = Some v0 \<and> lv_user v0 = ''u1'' \<and> 1000 \<le> lv_deadline v0"
proof -
  have "session_store (run_ops session_step [Elsewhere sample_identity_db] sample_identity_db) (sample_mac ''raw1'') =
      Some \<lparr>lv_user = ''u1'', lv_identity = ''i1'', lv_deadline = 1000\<rparr>"
    by (simp add: session_store_def session_by_token_def sample_identity_db_def sample_session_def live_of_def)
  from sessions_never_extended [OF sample_sessions_inv _ this] show ?thesis by auto
qed

theorem logout_all_ends_every_session_witness:
  "\<exists>rp. logout_all sample_bff signed_in 5 ''csrf2'' sample_identity_db =
     (Inr rp, sample_identity_db\<lparr>id_sessions := [sample_session\<lparr>bs_role := ''OWNER'', bs_revoked_at := Some 5\<rparr>]\<rparr>) \<and>
     (''revoked_sessions'', JInt 1) \<in> set (rp_body rp)"
proof -
  have d: "distinct (map bs_id (id_sessions sample_identity_db))" by (simp add: sample_identity_db_def)
  have h: "compare_digest (bs_csrf_hash sample_session) (bf_sha sample_bff ''csrf2'') = Inr True"
  proof -
    have "is_ascii (sample_mac ''csrf2'')" by code_simp
    then show ?thesis by (simp add: compare_digest_def sample_session_def sample_bff_def)
  qed
  have c: "count_rows (open_sessions (bs_user_id sample_session)) (id_sessions sample_identity_db) = 1"
    and o: "open_sessions (bs_user_id sample_session) sample_session"
    by (simp_all add: count_rows_def open_sessions_def sample_identity_db_def sample_session_def)
  show ?thesis
    using logout_all_ends_every_session [OF d sample_live [OF sample_itself] _ h, unfolded c] o
    by (intro exI conjI, assumption?)
      (auto simp: json_answer_def sample_identity_db_def sample_member_def)
qed

theorem unopened_token_blocks_logout_witness:
  "\<exists>r db1 m. logout (sample_bff\<lparr>bf_open := \<lambda>_. Inl (OSError ''InvalidTag'')\<rparr>) signed_in 5 ''csrf2'' sample_identity_db =
      (Inl (OSError ''InvalidTag''), db1) \<and>
     live_session (sample_bff\<lparr>bf_open := \<lambda>_. Inl (OSError ''InvalidTag'')\<rparr>) signed_in 5 db1 r m"
proof -
  let ?B = "sample_bff\<lparr>bf_open := \<lambda>_. Inl (OSError ''InvalidTag'')\<rparr>"
  have like: "sample_like ?B" by (simp add: sample_like_def)
  have "canonical_issuer (bf_env ?B) = Inr CANONICAL_ISSUER" by code_simp
  moreover have "public_origin ?B = Inr ''https://app.klyrow.com''" by code_simp
  ultimately have "logout ?B signed_in 5 ''csrf2'' sample_identity_db =
        (Inl (OSError ''InvalidTag''), set_session ''s1'' (refreshed 5 False ''OWNER'') sample_identity_db) \<and>
      (\<exists>m. live_session ?B signed_in 5 (set_session ''s1'' (refreshed 5 False ''OWNER'') sample_identity_db)
         (refreshed 5 False ''OWNER'' sample_session) m)"
    using unopened_token_blocks_logout [of ?B signed_in 5 "''csrf2''" sample_identity_db
        "refreshed 5 False ''OWNER'' sample_session" "set_session ''s1'' (refreshed 5 False ''OWNER'') sample_identity_db"
        CANONICAL_ISSUER "''https://app.klyrow.com''" "''id''"] sample_guard [OF like]
    by (simp add: refreshed_def sample_session_def)
  then show ?thesis by blast
qed

theorem status_token_passes_guard_witness:
  "\<exists>token r db1 db2. csrf_guard sample_bff signed_in 6 token db1 = (Inr r, db2) \<and> bs_id r = ''s1'' \<and>
     token = stable_csrf_token sample_bff ''s1''"
proof -
  let ?s = "refreshed 5 True ''OWNER'' sample_session" and ?token = "stable_csrf_token sample_bff ''s1''"
  let ?db0 = "set_session ''s1'' (refreshed 5 True ''OWNER'') sample_identity_db"
  let ?db1 = "set_session ''s1'' (\<lambda>r. r\<lparr>bs_csrf_hash := bf_sha sample_bff ?token\<rparr>) ?db0"
  have "get_browser_session sample_bff signed_in 5 True sample_identity_db = (Inr ?s, ?db0)"
    unfolding get_browser_session_Inr using sample_live [OF sample_itself]
    by (intro exI [of _ sample_session] exI [of _ sample_member]) (simp add: sample_session_def sample_member_def)
  then obtain rp where st: "session_status sample_bff signed_in 5 sample_identity_db = (Inr rp, ?db1)"
      "(''csrf_token'', JStr ?token) \<in> set (rp_body rp)"
    by (simp add: session_status_def Let_def json_answer_def session_body_def absent_def refreshed_def sample_session_def
        stable_csrf_token_def sample_bff_def)
  have "live_session sample_bff signed_in 6 ?db1 (?s\<lparr>bs_csrf_hash := bf_sha sample_bff ?token\<rparr>) sample_member"
    using sample_live [OF sample_itself] sample_idle unfolding live_session_def
    by (simp add: session_by_token_def set_session_def sample_identity_db_def sample_session_def refreshed_def seconds_def
        sample_bff_def signed_in_def cookie_text_def get_identity_def get_user_def active_member_def tenant_enabled_def get_tenant_def)
  then have "get_browser_session sample_bff signed_in 6 False ?db1 =
      (Inr (refreshed 6 False (tm_role sample_member) (?s\<lparr>bs_csrf_hash := bf_sha sample_bff ?token\<rparr>)),
       set_session (bs_id (?s\<lparr>bs_csrf_hash := bf_sha sample_bff ?token\<rparr>)) (refreshed 6 False (tm_role sample_member)) ?db1)"
    unfolding get_browser_session_Inr by blast
  moreover have "bs_id (refreshed 6 False (tm_role sample_member) (?s\<lparr>bs_csrf_hash := bf_sha sample_bff ?token\<rparr>)) = ''s1''"
    by (simp add: refreshed_def sample_session_def)
  ultimately obtain r db2 where g: "get_browser_session sample_bff signed_in 6 False ?db1 = (Inr r, db2)" "bs_id r = ''s1''"
    by blast
  have "\<forall>m. bf_mac_url sample_bff m \<noteq> []" by (simp add: sample_bff_def)
  from status_token_passes_guard [OF st g(1) sample_sessions_inv sample_hex this] g(2) show ?thesis by blast
qed

theorem session_limits_bounded_witness:
  "\<exists>ttl. session_ttl (bf_env sample_bff) = Inr ttl \<and> 1800 \<le> ttl"
  using session_limits_bounded [OF sample_idle] by auto

end
