(* ===== verification/OidcCallback.thy ===== *)
theory OidcCallback
  imports BrowserSessions
begin

text \<open>
  What happens when the identity provider sends the browser back: the onboarding of a person
  (\<open>tenancy_onboarding.py\<close>), the acceptance of invitations and the callback itself
  (\<open>browser_security_fixes.py\<close>), with the step-up resolver and the deadline guard that are installed
  into it (\<open>browser_step_up_identity.py\<close>, \<open>browser_step_up_deadline.py\<close>). The callback does all its
  work in one transaction: it returns its answer and the committed database. Identifiers, secrets and
  the suffixes of a workspace name are drawn; a unique constraint refuses a drawn value that is taken.
\<close>

section \<open>Onboarding (\<open>tenancy_onboarding.py\<close>)\<close>

definition set_user :: "string \<Rightarrow> (user_row \<Rightarrow> user_row) \<Rightarrow> identity_db \<Rightarrow> identity_db" where
  "set_user uid f db = db\<lparr>id_users := update_rows (\<lambda>u. us_id u = uid) f (id_users db)\<rparr>"

definition set_identity :: "string \<Rightarrow> (identity_row \<Rightarrow> identity_row) \<Rightarrow> identity_db \<Rightarrow> identity_db" where
  "set_identity iid f db = db\<lparr>id_identities := update_rows (\<lambda>i. oi_id i = iid) f (id_identities db)\<rparr>"

definition or_none :: "string \<Rightarrow> string option" where
  "or_none s = (if s = [] then None else Some s)"

definition claim_email :: "bff_env \<Rightarrow> (string \<times> json) list \<Rightarrow> string" where
  "claim_email B claims = lower (strip (claim_text (bf_repr B) claims ''email''))"

definition profile_of ::
  "bff_env \<Rightarrow> int \<Rightarrow> string \<Rightarrow> (string \<times> json) list \<Rightarrow> int \<Rightarrow> identity_profile_row" where
  "profile_of B t iid claims created =
     \<lparr>ip_identity_id = iid, ip_email = or_none (claim_email B claims),
      ip_email_verified = truthy (obj_get claims ''email_verified''),
      ip_display_name = or_none (strip (json_str (bf_repr B)
        (json_or (obj_get claims ''name'') (json_or (obj_get claims ''preferred_username'') (JStr []))))),
      ip_locale = or_none (take 16 (strip (claim_text (bf_repr B) claims ''locale''))),
      ip_created_at = created, ip_updated_at = t\<rparr>"

definition record_profile :: "bff_env \<Rightarrow> int \<Rightarrow> string \<Rightarrow> (string \<times> json) list \<Rightarrow> identity_db \<Rightarrow> identity_db" where
  "record_profile B t iid claims db =
     (case find_row (\<lambda>p. ip_identity_id p = iid) (id_profiles db) of
        None \<Rightarrow> db\<lparr>id_profiles := id_profiles db @ [profile_of B t iid claims t]\<rparr>
      | Some p \<Rightarrow> db\<lparr>id_profiles := update_rows (\<lambda>p. ip_identity_id p = iid)
                                   (\<lambda>p. profile_of B t iid claims (ip_created_at p)) (id_profiles db)\<rparr>)"

definition slug_char :: "char \<Rightarrow> bool" where
  "slug_char c \<longleftrightarrow> is_digit c \<or> (let n = of_char c :: nat in 97 \<le> n \<and> n \<le> 122)"

text \<open>\<open>re.sub("[^a-z0-9]+", "-", s)\<close>: one dash for every run of other characters.\<close>

fun dash_runs :: "bool \<Rightarrow> string \<Rightarrow> string" where
  "dash_runs _ [] = []"
| "dash_runs in_run (c # cs) =
     (if slug_char c then c # dash_runs False cs
      else if in_run then dash_runs True cs else CHR ''-'' # dash_runs True cs)"

definition strip_char :: "char \<Rightarrow> string \<Rightarrow> string" where
  "strip_char c s = rstrip_char c (dropWhile (\<lambda>d. d = c) s)"

definition slug_base :: "string \<Rightarrow> string" where
  "slug_base seed =
     (let b = take 42 (strip_char (CHR ''-'') (dash_runs False (lower seed))) in if b = [] then ''workspace'' else b)"

fun free_slug :: "string list \<Rightarrow> string \<Rightarrow> string \<Rightarrow> string list \<Rightarrow> string \<Rightarrow> string" where
  "free_slug taken candidate base [] last_hex = ''workspace-'' @ last_hex"
| "free_slug taken candidate base (h # hs) last_hex =
     (if candidate \<notin> set taken then candidate
      else free_slug taken (take 34 base @ ''-'' @ h) base hs last_hex)"

record onboarding_draws =
  wd_user :: string
  wd_identity :: string
  wd_placeholder :: string
  wd_password_hash :: string
  wd_tenant :: string
  wd_organization :: string
  wd_member :: string
  wd_event :: string
  wd_slugs :: "string list"
  wd_last_slug :: string
  wd_job :: string

definition workspace_slug :: "onboarding_draws \<Rightarrow> string \<Rightarrow> identity_db \<Rightarrow> string" where
  "workspace_slug w seed db =
     free_slug (map og_slug (id_organizations db)) (slug_base seed) (slug_base seed) (take 20 (wd_slugs w)) (wd_last_slug w)"

definition member_clash :: "member_row \<Rightarrow> member_row \<Rightarrow> bool" where
  "member_clash m x \<longleftrightarrow> tm_id x = tm_id m \<or> tm_tenant_id x = tm_tenant_id m \<and> tm_user_id x = tm_user_id m"

definition new_member :: "int \<Rightarrow> onboarding_draws \<Rightarrow> string \<Rightarrow> string \<Rightarrow> string \<Rightarrow> member_row" where
  "new_member t w tid uid role =
     \<lparr>tm_id = wd_member w, tm_tenant_id = tid, tm_user_id = uid, tm_role = role, tm_active = True, tm_created_at = t\<rparr>"

definition add_member :: "member_row \<Rightarrow> identity_db \<Rightarrow> identity_db res" where
  "add_member m db =
     map_sum id (\<lambda>rows. db\<lparr>id_members := rows\<rparr>) (insert_row ''tenant_members'' member_clash m (id_members db))"

definition add_tenant :: "tenant_row \<Rightarrow> identity_db \<Rightarrow> identity_db res" where
  "add_tenant tn db =
     map_sum id (\<lambda>rows. db\<lparr>id_postal := (id_postal db)\<lparr>pp_tenants := rows\<rparr>\<rparr>)
       (insert_row ''tenants'' (\<lambda>a b. tn_id b = tn_id a) tn (pp_tenants (id_postal db)))"

definition organization_clash :: "organization_row \<Rightarrow> organization_row \<Rightarrow> bool" where
  "organization_clash g x \<longleftrightarrow> og_id x = og_id g \<or> og_tenant_id x = og_tenant_id g \<or> og_slug x = og_slug g"

definition add_organization :: "organization_row \<Rightarrow> identity_db \<Rightarrow> identity_db res" where
  "add_organization g db =
     map_sum id (\<lambda>rows. db\<lparr>id_organizations := rows\<rparr>) (insert_row ''organizations'' organization_clash g (id_organizations db))"

definition journal :: "onboarding_draws \<Rightarrow> string \<Rightarrow> string \<Rightarrow> string \<Rightarrow> json \<Rightarrow> identity_db \<Rightarrow> identity_db" where
  "journal w iid tid kind payload db =
     db\<lparr>id_journal := id_journal db @
          [\<lparr>oe_id = wd_event w, oe_identity_id = iid, oe_tenant_id = tid, oe_event_type = kind, oe_payload_json = payload\<rparr>]\<rparr>"

definition onboarding_of :: "string \<Rightarrow> string \<Rightarrow> onboarding_row" where
  "onboarding_of tid key =
     \<lparr>on_tenant_id = tid, on_step = 1, on_use_case = None, on_checklist_json = JText (JObj [(key, JBool True)]),
      on_completed = False\<rparr>"

definition workspace_seed :: "bff_env \<Rightarrow> (string \<times> json) list \<Rightarrow> string" where
  "workspace_seed B claims =
     (let display = strip (claim_text (bf_repr B) claims ''name''); email = claim_email B claims
      in if display \<noteq> [] then display
         else if email \<noteq> [] then before (\<lambda>c. c = CHR ''@'') email else ''Klyrow Workspace'')"

type_synonym resolved_person = "identity_row \<times> user_row \<times> member_row \<times> identity_db"

definition starter_workspace ::
  "bff_env \<Rightarrow> int \<Rightarrow> onboarding_draws \<Rightarrow> identity_row \<Rightarrow> user_row \<Rightarrow> (string \<times> json) list \<Rightarrow> identity_db
     \<Rightarrow> resolved_person res" where
  "starter_workspace B t w i u claims db =
     (let seed = workspace_seed B claims; tid = wd_tenant w; m = new_member t w tid (us_id u) ''OWNER'';
          i' = i\<lparr>oi_default_tenant_id := Some tid\<rparr>; u' = u\<lparr>us_tenant_id := tid, us_role := ''tenant_admin''\<rparr>
      in res_bind (add_tenant \<lparr>tn_id = tid, tn_name = seed @ '' Workspace'', tn_enabled = True, tn_quota = 1000\<rparr> db) (\<lambda>db1.
           res_bind (add_organization \<lparr>og_id = wd_organization w, og_tenant_id = tid, og_name = seed @ '' Workspace'',
                       og_slug = workspace_slug w seed db, og_status = ''ACTIVE'', og_created_at = t\<rparr> db1) (\<lambda>db2.
             res_bind (add_member m db2) (\<lambda>db3. Inr (i', u', m,
               journal w (oi_id i) tid ''workspace.created'' (JObj [(''source'', JStr ''first_login'')])
                 (set_identity (oi_id i) (\<lambda>_. i') (set_user (us_id u) (\<lambda>_. u')
                    (db3\<lparr>id_onboardings := id_onboardings db3 @ [onboarding_of tid ''workspace'']\<rparr>))))))))"

text \<open>What both ways of accepting an invitation record besides the membership.\<close>

definition set_invitation :: "string \<Rightarrow> (invitation_row \<Rightarrow> invitation_row) \<Rightarrow> identity_db \<Rightarrow> identity_db" where
  "set_invitation k f db = db\<lparr>id_invitations := update_rows (\<lambda>i. ti_id i = k) f (id_invitations db)\<rparr>"

definition accepted_invitation ::
  "int \<Rightarrow> onboarding_draws \<Rightarrow> identity_row \<Rightarrow> user_row \<Rightarrow> invitation_row \<Rightarrow> member_row \<Rightarrow> identity_db \<Rightarrow> resolved_person" where
  "accepted_invitation t w i u invite m db =
     (let tid = ti_tenant_id invite; i' = i\<lparr>oi_default_tenant_id := Some tid\<rparr>; u' = u\<lparr>us_tenant_id := tid\<rparr>;
          db1 = set_invitation (ti_id invite) (\<lambda>x. x\<lparr>ti_accepted_at := Some t\<rparr>)
                  (set_identity (oi_id i) (\<lambda>_. i') (set_user (us_id u) (\<lambda>_. u') db));
          db2 = (if find_row (\<lambda>n. on_tenant_id n = tid) (id_onboardings db1) = None
                 then db1\<lparr>id_onboardings := id_onboardings db1 @ [onboarding_of tid ''invitation'']\<rparr> else db1)
      in (i', u', m, journal w (oi_id i) tid ''invitation.accepted'' (JObj [(''invitation_id'', JStr (ti_id invite))]) db2))"

definition invited_workspace ::
  "bff_env \<Rightarrow> int \<Rightarrow> onboarding_draws \<Rightarrow> identity_row \<Rightarrow> user_row \<Rightarrow> (string \<times> json) list \<Rightarrow> identity_db
     \<Rightarrow> resolved_person option res" where
  "invited_workspace B t w i u claims db =
     (if obj_get claims ''email_verified'' \<noteq> JBool True \<or> claim_email B claims = [] then Inr None
      else (case filter (invitation_open t) (sort_key ti_created_at
                   (filter (\<lambda>x. ti_email x = claim_email B claims) (id_invitations db))) of
              [invite] \<Rightarrow>
                (let m = new_member t w (ti_tenant_id invite) (us_id u) (ti_role invite)
                 in map_sum id (\<lambda>db1. Some (accepted_invitation t w i u invite m db1)) (add_member m db))
            | _ \<Rightarrow> Inr None))"

section \<open>Who signs in (\<open>browser_security_fixes.py\<close>)\<close>

definition identity_of_claims :: "string \<Rightarrow> string \<Rightarrow> identity_db \<Rightarrow> identity_row option" where
  "identity_of_claims iss subject db =
     find_row (\<lambda>i. oi_issuer i = iss \<and> oi_subject i = subject \<and> oi_enabled i) (id_identities db)"

definition first_active_member :: "identity_db \<Rightarrow> identity_row \<Rightarrow> user_row \<Rightarrow> member_row option" where
  "first_active_member db i u =
     (case (if absent (oi_default_tenant_id i) then None
            else active_member db (the (oi_default_tenant_id i)) (us_id u)) of
        Some m \<Rightarrow> Some m
      | None \<Rightarrow> (case active_members db (us_id u) of [] \<Rightarrow> None | m # _ \<Rightarrow> Some m))"

definition user_clash :: "user_row \<Rightarrow> user_row \<Rightarrow> bool" where
  "user_clash u x \<longleftrightarrow> us_id x = us_id u \<or> us_email x = us_email u"

definition identity_clash :: "identity_row \<Rightarrow> identity_row \<Rightarrow> bool" where
  "identity_clash i x \<longleftrightarrow> oi_id x = oi_id i \<or> oi_issuer x = oi_issuer i \<and> oi_subject x = oi_subject i"

text \<open>
  The rows of a first login, flushed under a placeholder tenant that is deleted again at the end of
  the same transaction.
\<close>

definition new_person ::
  "onboarding_draws \<Rightarrow> string \<Rightarrow> string \<Rightarrow> string \<Rightarrow> identity_db \<Rightarrow> (identity_row \<times> user_row \<times> identity_db) res" where
  "new_person w iss subject email db =
     (let u = \<lparr>us_id = wd_user w, us_tenant_id = wd_placeholder w, us_email = email, us_password_hash = wd_password_hash w,
               us_role = ''tenant_user'', us_enabled = True\<rparr>;
          i = \<lparr>oi_id = wd_identity w, oi_issuer = iss, oi_subject = subject, oi_user_id = wd_user w,
               oi_default_tenant_id = None, oi_identity_type = ''KLYROW_ONLY'', oi_enabled = True\<rparr>
      in if get_tenant db (wd_placeholder w) \<noteq> None then Inl (IntegrityError ''tenants'')
         else res_bind (insert_row ''users'' user_clash u (id_users db)) (\<lambda>users.
                res_bind (insert_row ''oidc_identities'' identity_clash i (id_identities db)) (\<lambda>identities.
                  Inr (i, u, db\<lparr>id_users := users, id_identities := identities\<rparr>))))"

definition verified_new_email :: "bff_env \<Rightarrow> (string \<times> json) list \<Rightarrow> identity_db \<Rightarrow> string res" where
  "verified_new_email B claims db =
     (let email = claim_email B claims
      in if email = [] \<or> obj_get claims ''email_verified'' \<noteq> JBool True
         then Inl (http 409 ''verified_email_required_for_first_login'')
         else if find_row (\<lambda>u. us_email u = email) (id_users db) \<noteq> None
         then Inl (http 409 ''identity_link_review_required'') else Inr email)"

definition audited :: "string \<Rightarrow> resolved_person \<Rightarrow> resolved_person" where
  "audited action p = (case p of (i, u, m, db) \<Rightarrow> (i, u, m, trail (tm_tenant_id m) (us_id u) action db))"

definition returning_person ::
  "bff_env \<Rightarrow> int \<Rightarrow> onboarding_draws \<Rightarrow> identity_row \<Rightarrow> (string \<times> json) list \<Rightarrow> identity_db \<Rightarrow> resolved_person res" where
  "returning_person B t w i claims db =
     (case get_user db (oi_user_id i) of
        None \<Rightarrow> Inl (http 403 ''account_disabled'')
      | Some u \<Rightarrow>
          (if \<not> us_enabled u then Inl (http 403 ''account_disabled'')
           else (let db1 = record_profile B t (oi_id i) claims db
                 in res_bind (case first_active_member db1 i u of
                                Some m \<Rightarrow> Inr (i, u, m, db1)
                              | None \<Rightarrow> starter_workspace B t w i u claims db1) (\<lambda>(i', u', m, db2).
                      if tenant_enabled db2 (tm_tenant_id m) then Inr (i', u', m, db2)
                      else Inl (http 403 ''tenant_suspended'')))))"

definition first_login ::
  "bff_env \<Rightarrow> int \<Rightarrow> onboarding_draws \<Rightarrow> string \<Rightarrow> string \<Rightarrow> (string \<times> json) list
     \<Rightarrow> (identity_row \<Rightarrow> user_row \<Rightarrow> identity_db \<Rightarrow> resolved_person res) \<Rightarrow> identity_db \<Rightarrow> resolved_person res" where
  "first_login B t w iss subject claims place db =
     res_bind (verified_new_email B claims db) (\<lambda>email.
       res_bind (new_person w iss subject email db) (\<lambda>(i, u, db1).
         map_sum id (audited ''identity.first_login'')
           (place i u (record_profile B t (oi_id i) claims db1))))"

definition starter_or_invited ::
  "bff_env \<Rightarrow> int \<Rightarrow> onboarding_draws \<Rightarrow> (string \<times> json) list \<Rightarrow> identity_row \<Rightarrow> user_row \<Rightarrow> identity_db
     \<Rightarrow> resolved_person res" where
  "starter_or_invited B t w claims i u db =
     res_bind (invited_workspace B t w i u claims db) (\<lambda>found.
       case found of Some p \<Rightarrow> Inr p | None \<Rightarrow> starter_workspace B t w i u claims db)"

definition resolve_identity_context ::
  "bff_env \<Rightarrow> int \<Rightarrow> onboarding_draws \<Rightarrow> (string \<times> json) list \<Rightarrow> identity_db \<Rightarrow> resolved_person res" where
  "resolve_identity_context B t w claims db =
     res_bind (canonical_issuer (bf_env B)) (\<lambda>iss.
       let subject = claim_text (bf_repr B) claims ''sub''
       in if subject = [] then Inl (http 401 ''oidc_subject_missing'')
          else (case identity_of_claims iss subject db of
                  Some i \<Rightarrow> returning_person B t w i claims db
                | None \<Rightarrow> first_login B t w iss subject claims (starter_or_invited B t w claims) db))"

section \<open>Invitations\<close>

definition locked_valid_invitation ::
  "int \<Rightarrow> (invitation_row \<Rightarrow> bool) \<Rightarrow> string option \<Rightarrow> identity_db \<Rightarrow> invitation_row res" where
  "locked_valid_invitation t selector email db =
     (case find_row selector (id_invitations db) of
        None \<Rightarrow> Inl (http 410 ''invitation_invalid_or_expired'')
      | Some invite \<Rightarrow>
          (if \<not> invitation_open t invite \<or> (\<exists>e \<in> set_option email. ti_email invite \<noteq> e)
           then Inl (http 410 ''invitation_invalid_or_expired'')
           else if \<not> tenant_enabled db (ti_tenant_id invite) then Inl (http 410 ''invitation_tenant_unavailable'')
           else Inr invite))"

definition membership_for_invitation ::
  "int \<Rightarrow> onboarding_draws \<Rightarrow> invitation_row \<Rightarrow> user_row \<Rightarrow> identity_db \<Rightarrow> (member_row \<times> identity_db) res" where
  "membership_for_invitation t w invite u db =
     (case any_member db (ti_tenant_id invite) (us_id u) of
        None \<Rightarrow>
          (let m = new_member t w (ti_tenant_id invite) (us_id u) (ti_role invite)
           in map_sum id (\<lambda>db1. (m, db1)) (add_member m db))
      | Some m \<Rightarrow>
          (if tm_active m \<and> tm_role m \<noteq> ti_role invite
           then Inl (http 409 ''invitation_existing_member_role_change_denied'')
           else if tm_active m then Inr (m, db)
           else (let m' = m\<lparr>tm_role := ti_role invite, tm_active := True\<rparr>
                 in Inr (m', db\<lparr>id_members := update_rows (\<lambda>x. tm_id x = tm_id m) (\<lambda>_. m') (id_members db)\<rparr>))))"

definition accept_selected_invitation ::
  "bff_env \<Rightarrow> int \<Rightarrow> onboarding_draws \<Rightarrow> (string \<times> json) list \<Rightarrow> string \<Rightarrow> identity_row \<Rightarrow> user_row \<Rightarrow> identity_db
     \<Rightarrow> resolved_person res" where
  "accept_selected_invitation B t w claims invitation i u db =
     (if obj_get claims ''email_verified'' \<noteq> JBool True \<or> claim_email B claims = []
      then Inl (http 409 ''verified_email_required_for_invitation'')
      else res_bind (locked_valid_invitation t (\<lambda>x. ti_id x = invitation) (Some (claim_email B claims)) db) (\<lambda>invite.
             res_bind (membership_for_invitation t w invite u db) (\<lambda>(m, db1).
               Inr (accepted_invitation t w i u invite m db1))))"

definition resolve_selected_identity ::
  "bff_env \<Rightarrow> int \<Rightarrow> onboarding_draws \<Rightarrow> (string \<times> json) list \<Rightarrow> string \<Rightarrow> identity_db \<Rightarrow> resolved_person res" where
  "resolve_selected_identity B t w claims invitation db =
     res_bind (canonical_issuer (bf_env B)) (\<lambda>iss.
       let subject = claim_text (bf_repr B) claims ''sub''
       in if subject = [] then Inl (http 401 ''oidc_subject_missing'')
          else (case identity_of_claims iss subject db of
                  Some i \<Rightarrow>
                    (case get_user db (oi_user_id i) of
                       None \<Rightarrow> Inl (http 403 ''account_disabled'')
                     | Some u \<Rightarrow>
                         (if \<not> us_enabled u then Inl (http 403 ''account_disabled'')
                          else map_sum id (audited ''identity.invitation_login'')
                                 (accept_selected_invitation B t w claims invitation i u
                                    (record_profile B t (oi_id i) claims db))))
                | None \<Rightarrow> first_login B t w iss subject claims (accept_selected_invitation B t w claims invitation) db))"

text \<open>\<open>/v1/team/invitations/accept\<close>: the bearer of the token's text joins the mailbox's account.\<close>

definition accept_legacy_invitation ::
  "bff_env \<Rightarrow> int \<Rightarrow> onboarding_draws \<Rightarrow> string \<Rightarrow> identity_db \<Rightarrow> (member_row \<times> identity_db) res" where
  "accept_legacy_invitation B t w token db =
     res_bind (locked_valid_invitation t (\<lambda>x. ti_token_hash x = bf_sha B token) None db) (\<lambda>invite.
       case find_row (\<lambda>u. us_email u = ti_email invite) (id_users db) of
         None \<Rightarrow> Inl (http 409 ''keycloak_user_link_required'')
       | Some u \<Rightarrow>
           (if \<not> us_enabled u then Inl (http 409 ''keycloak_user_link_required'')
            else res_bind (membership_for_invitation t w invite u db) (\<lambda>(m, db1).
                   Inr (m, trail (ti_tenant_id invite) (us_id u) ''tenant.invitation.accepted''
                             (set_invitation (ti_id invite) (\<lambda>x. x\<lparr>ti_accepted_at := Some t\<rparr>) db1)))))"

section \<open>Step-up\<close>

definition live_parent :: "int \<Rightarrow> identity_db \<Rightarrow> string \<Rightarrow> session_row res" where
  "live_parent t db sid =
     (case get_session db sid of
        None \<Rightarrow> Inl (http 401 ''step_up_session_invalid'')
      | Some r \<Rightarrow> if bs_revoked_at r \<noteq> None \<or> bs_expires_at r \<le> t
                  then Inl (http 401 ''step_up_session_invalid'') else Inr r)"

definition step_up_person ::
  "bff_env \<Rightarrow> session_row \<Rightarrow> string \<Rightarrow> identity_db \<Rightarrow> (identity_row \<times> user_row \<times> member_row) res" where
  "step_up_person B r subject db =
     res_bind (canonical_issuer (bf_env B)) (\<lambda>iss.
       case identity_of_claims iss subject db of
         None \<Rightarrow> Inl (http 403 ''step_up_identity_mismatch'')
       | Some i \<Rightarrow>
           (if oi_id i \<noteq> bs_identity_id r \<or> oi_user_id i \<noteq> bs_user_id r
            then Inl (http 403 ''step_up_identity_mismatch'')
            else (case get_user db (bs_user_id r) of
                    None \<Rightarrow> Inl (http 403 ''step_up_account_disabled'')
                  | Some u \<Rightarrow>
                      (if \<not> us_enabled u then Inl (http 403 ''step_up_account_disabled'')
                       else (case active_member db (bs_tenant_id r) (bs_user_id r) of
                               None \<Rightarrow> Inl (http 403 ''step_up_workspace_invalid'')
                             | Some m \<Rightarrow> if \<not> tenant_enabled db (bs_tenant_id r)
                                         then Inl (http 403 ''step_up_workspace_invalid'') else Inr (i, u, m))))))"

definition step_up_identity ::
  "bff_env \<Rightarrow> int \<Rightarrow> string \<Rightarrow> (string \<times> json) list \<Rightarrow> identity_db
     \<Rightarrow> (session_row \<times> identity_row \<times> user_row \<times> member_row) res" where
  "step_up_identity B t mode claims db =
     (let sid = drop 8 mode
      in if \<not> starts_with ''step-up:'' mode \<or> sid = [] then Inl (http 401 ''step_up_session_invalid'')
         else res_bind (live_parent t db sid) (\<lambda>r.
                let subject = strip (claim_text (bf_repr B) claims ''sub'')
                in if subject = [] then Inl (http 403 ''step_up_identity_mismatch'')
                   else map_sum id (\<lambda>(i, u, m). (r, i, u, m)) (step_up_person B r subject db)))"

section \<open>The callback\<close>

text \<open>A staged session; one that replaces a parent never lives longer than it.\<close>

definition stage_session ::
  "bff_env \<Rightarrow> browser_request \<Rightarrow> int \<Rightarrow> session_draws \<Rightarrow> identity_row \<Rightarrow> user_row \<Rightarrow> member_row
     \<Rightarrow> (string \<times> json) list \<Rightarrow> string option \<Rightarrow> identity_db \<Rightarrow> (session_row \<times> identity_db) res" where
  "stage_session B rq t d i u m tokens parent db =
     res_bind (session_row_of B rq t d i u m tokens parent) (\<lambda>r.
       res_bind (case parent of None \<Rightarrow> Inr r
                 | Some sid \<Rightarrow> map_sum id (\<lambda>p. r\<lparr>bs_expires_at := min (bs_expires_at r) (bs_expires_at p)\<rparr>)
                                 (live_parent t db sid)) (\<lambda>r'.
         map_sum id (\<lambda>db'. (r', db')) (add_session r' db)))"

definition load_transaction :: "bff_env \<Rightarrow> int \<Rightarrow> string \<Rightarrow> identity_db \<Rightarrow> login_row res" where
  "load_transaction B t state db =
     (case login_by_state B state db of
        None \<Rightarrow> Inl (http 410 ''oidc_state_invalid_or_used'')
      | Some l \<Rightarrow> if lt_used_at l \<noteq> None then Inl (http 410 ''oidc_state_invalid_or_used'')
                  else if lt_expires_at l \<le> t then Inl (http 410 ''oidc_state_expired'') else Inr l)"

definition claimable_login :: "int \<Rightarrow> string \<Rightarrow> login_row \<Rightarrow> bool" where
  "claimable_login t k l \<longleftrightarrow> lt_id l = k \<and> lt_used_at l = None \<and> t < lt_expires_at l"

definition claim_transaction :: "int \<Rightarrow> login_row \<Rightarrow> identity_db \<Rightarrow> identity_db res" where
  "claim_transaction t l db =
     (if count_rows (claimable_login t (lt_id l)) (id_logins db) \<noteq> 1
      then Inl (http 410 ''oidc_state_invalid_or_used'')
      else Inr (db\<lparr>id_logins := update_rows (claimable_login t (lt_id l)) (\<lambda>l. l\<lparr>lt_used_at := Some t\<rparr>) (id_logins db)\<rparr>))"

definition exchange_code :: "bff_env \<Rightarrow> browser_request \<Rightarrow> string \<Rightarrow> string \<Rightarrow> (string \<times> json) list res" where
  "exchange_code B rq code verifier =
     res_bind (redirect_uri B rq) (\<lambda>redirect.
       res_bind (client_secret B) (\<lambda>secret.
         case token_request B [(''grant_type'', ''authorization_code''), (''client_id'', client_id B), (''code'', code),
                               (''redirect_uri'', redirect), (''code_verifier'', verifier)] secret of
           None \<Rightarrow> Inl (http 502 ''oidc_token_exchange_failed'')
         | Some tokens \<Rightarrow> if truthy (obj_get tokens ''id_token'') then Inr tokens
                          else Inl (http 502 ''oidc_id_token_missing'')))"

definition callback_tokens ::
  "bff_env \<Rightarrow> browser_request \<Rightarrow> string \<Rightarrow> login_row \<Rightarrow> ((string \<times> json) list \<times> (string \<times> json) list) res" where
  "callback_tokens B rq code l =
     res_bind (bf_open B (lt_verifier_ciphertext l)) (\<lambda>verifier.
       res_bind (bf_open B (lt_nonce_ciphertext l)) (\<lambda>nonce.
         res_bind (exchange_code B rq code verifier) (\<lambda>tokens.
           map_sum id (\<lambda>claims. (tokens, claims)) (validate_id_token B (obj_get tokens ''id_token'') (Some nonce)))))"

text \<open>Who the transaction is for; a step-up also names the session it replaces.\<close>

definition callback_person ::
  "bff_env \<Rightarrow> int \<Rightarrow> onboarding_draws \<Rightarrow> string \<Rightarrow> (string \<times> json) list \<Rightarrow> identity_db
     \<Rightarrow> (session_row option \<times> resolved_person) res" where
  "callback_person B t w mode claims db =
     (if starts_with ''invite:'' mode
      then map_sum id (\<lambda>p. (None, p)) (resolve_selected_identity B t w claims (drop 7 mode) db)
      else if starts_with ''step-up:'' mode
      then map_sum id (\<lambda>(r, i, u, m). (Some r, (i, u, m, db))) (step_up_identity B t mode claims db)
      else map_sum id (\<lambda>p. (None, p)) (resolve_identity_context B t w claims db))"

definition stage_postal :: "int \<Rightarrow> onboarding_draws \<Rightarrow> string \<Rightarrow> identity_db \<Rightarrow> identity_db res" where
  "stage_postal t w tid db =
     map_sum id (\<lambda>(_, postal). db\<lparr>id_postal := postal\<rparr>)
       (enqueue_postal_provisioning t (wd_job w) tid (id_postal db))"

definition callback_work ::
  "bff_env \<Rightarrow> browser_request \<Rightarrow> int \<Rightarrow> onboarding_draws \<Rightarrow> session_draws \<Rightarrow> login_row \<Rightarrow> (string \<times> json) list
     \<Rightarrow> (string \<times> json) list \<Rightarrow> identity_db \<Rightarrow> (session_row \<times> identity_db) res" where
  "callback_work B rq t w d l tokens claims db =
     res_bind (claim_transaction t l db) (\<lambda>db1.
       res_bind (callback_person B t w (lt_mode l) claims db1) (\<lambda>(old, i, u, m, db2).
         res_bind (stage_postal t w (tm_tenant_id m) db2) (\<lambda>db3.
           res_bind (stage_session B rq t d i u m tokens (map_option bs_id old) db3) (\<lambda>(r, db4).
             Inr (r, case old of None \<Rightarrow> db4 | Some parent \<Rightarrow> revoke_session t (bs_id parent) db4)))))"

definition ACTION_MODES :: "string list" where "ACTION_MODES = [''update-password'', ''verify-email'']"

definition service_error :: "bff_env \<Rightarrow> browser_request \<Rightarrow> string \<Rightarrow> browser_response res" where
  "service_error B rq state =
     map_sum id (\<lambda>ops. \<lparr>rp_status = 303, rp_location = ''/service-error'', rp_body = [], rp_cookies = ops\<rparr>)
       (remove_flow_cookie B rq state)"

definition signed_in_answer :: "bff_env \<Rightarrow> browser_request \<Rightarrow> string \<Rightarrow> login_row \<Rightarrow> string \<Rightarrow> browser_response res" where
  "signed_in_answer B rq state l raw =
     res_bind (session_cookie B raw) (\<lambda>set_ops.
       map_sum id (\<lambda>ops. \<lparr>rp_status = 303, rp_location = safe_return_to (Some (lt_return_url l)) ''/app'', rp_body = [],
                          rp_cookies = set_ops @ ops\<rparr>) (remove_flow_cookie B rq state))"

definition refused_action :: "login_row \<Rightarrow> string option \<Rightarrow> string option \<Rightarrow> string option \<Rightarrow> bool" where
  "refused_action l code action_status error \<longleftrightarrow>
     \<not> absent error \<or> absent code \<or> lt_mode l \<in> set ACTION_MODES \<and> action_status \<noteq> Some ''success''"

definition oidc_callback ::
  "bff_env \<Rightarrow> browser_request \<Rightarrow> int \<Rightarrow> onboarding_draws \<Rightarrow> session_draws \<Rightarrow> string \<Rightarrow> string option
     \<Rightarrow> string option \<Rightarrow> string option \<Rightarrow> identity_db \<Rightarrow> browser_response res \<times> identity_db" where
  "oidc_callback B rq t w d state code action_status error db =
     (case res_bind (load_transaction B t state db) (\<lambda>l. map_sum id (\<lambda>_. l) (require_flow_cookie B rq state)) of
        Inl e \<Rightarrow> (Inl e, db)
      | Inr l \<Rightarrow>
          (if refused_action l code action_status error
           then (case claim_transaction t l db of
                   Inl e \<Rightarrow> (Inl e, db)
                 | Inr db' \<Rightarrow> (service_error B rq state, db'))
           else (case res_bind (callback_tokens B rq (the code) l) (\<lambda>(tokens, claims).
                        callback_work B rq t w d l tokens claims db) of
                   Inl e \<Rightarrow> (Inl e, db)
                 | Inr (r, db') \<Rightarrow> (signed_in_answer B rq state l (sd_raw d), db'))))"

section \<open>Tables a person's resolution leaves alone\<close>

definition same_logins_sessions :: "identity_db \<Rightarrow> identity_db \<Rightarrow> bool" where
  "same_logins_sessions db db' \<longleftrightarrow> id_logins db' = id_logins db \<and> id_sessions db' = id_sessions db"

named_theorems onboarding_defs \<open>definitions of the onboarding steps\<close>

lemmas [onboarding_defs] = set_user_def set_identity_def record_profile_def add_tenant_def add_organization_def
  add_member_def journal_def set_invitation_def trail_def

lemma record_profile_tables [simp]:
  "id_logins (record_profile B t iid claims db) = id_logins db"
  "id_sessions (record_profile B t iid claims db) = id_sessions db"
  "id_users (record_profile B t iid claims db) = id_users db"
  "id_identities (record_profile B t iid claims db) = id_identities db"
  "id_members (record_profile B t iid claims db) = id_members db"
  "id_invitations (record_profile B t iid claims db) = id_invitations db"
  "id_postal (record_profile B t iid claims db) = id_postal db"
  by (simp_all add: record_profile_def split: option.split)

lemma add_member_Inr:
  "add_member m db = Inr db' \<longleftrightarrow>
     db' = db\<lparr>id_members := id_members db @ [m]\<rparr> \<and> (\<forall>x \<in> set (id_members db). \<not> member_clash m x)"
  by (cases "insert_row ''tenant_members'' member_clash m (id_members db)")
    (auto simp: add_member_def insert_row_def find_row_None split: if_splits)

lemma accepted_invitation_tables:
  assumes "accepted_invitation t w i u invite m db = (i', u', m', db')"
  shows "i' = i\<lparr>oi_default_tenant_id := Some (ti_tenant_id invite)\<rparr> \<and> u' = u\<lparr>us_tenant_id := ti_tenant_id invite\<rparr> \<and> m' = m \<and>
    id_users db' = id_users (set_user (us_id u) (\<lambda>_. u') db) \<and>
    id_identities db' = id_identities (set_identity (oi_id i) (\<lambda>_. i') db) \<and> id_members db' = id_members db \<and>
    id_postal db' = id_postal db \<and>
    id_invitations db' = id_invitations (set_invitation (ti_id invite) (\<lambda>x. x\<lparr>ti_accepted_at := Some t\<rparr>) db) \<and>
    same_logins_sessions db db'"
  using assms by (auto simp: accepted_invitation_def Let_def onboarding_defs same_logins_sessions_def)

lemma starter_workspace_tables:
  assumes "starter_workspace B t w i u claims db = Inr (i', u', m, db')"
  shows "i' = i\<lparr>oi_default_tenant_id := Some (wd_tenant w)\<rparr> \<and>
    u' = u\<lparr>us_tenant_id := wd_tenant w, us_role := ''tenant_admin''\<rparr> \<and> m = new_member t w (wd_tenant w) (us_id u) ''OWNER'' \<and>
    id_users db' = id_users (set_user (us_id u) (\<lambda>_. u') db) \<and>
    id_identities db' = id_identities (set_identity (oi_id i) (\<lambda>_. i') db) \<and> id_members db' = id_members db @ [m] \<and>
    id_invitations db' = id_invitations db \<and> same_logins_sessions db db'"
proof -
  obtain db1 db2 db3 where 1: "add_tenant \<lparr>tn_id = wd_tenant w, tn_name = workspace_seed B claims @ '' Workspace'',
        tn_enabled = True, tn_quota = 1000\<rparr> db = Inr db1"
    and 2: "add_organization \<lparr>og_id = wd_organization w, og_tenant_id = wd_tenant w, og_name = workspace_seed B claims @ '' Workspace'',
        og_slug = workspace_slug w (workspace_seed B claims) db, og_status = ''ACTIVE'', og_created_at = t\<rparr> db1 = Inr db2"
    and 3: "add_member (new_member t w (wd_tenant w) (us_id u) ''OWNER'') db2 = Inr db3"
    and r: "i' = i\<lparr>oi_default_tenant_id := Some (wd_tenant w)\<rparr>" "u' = u\<lparr>us_tenant_id := wd_tenant w, us_role := ''tenant_admin''\<rparr>"
      "m = new_member t w (wd_tenant w) (us_id u) ''OWNER''"
      "db' = journal w (oi_id i) (wd_tenant w) ''workspace.created'' (JObj [(''source'', JStr ''first_login'')])
         (set_identity (oi_id i) (\<lambda>_. i') (set_user (us_id u) (\<lambda>_. u')
            (db3\<lparr>id_onboardings := id_onboardings db3 @ [onboarding_of (wd_tenant w) ''workspace'']\<rparr>)))"
    using assms unfolding starter_workspace_def Let_def by (auto simp: res_bind_Inr)
  have "id_users db1 = id_users db" "id_identities db1 = id_identities db" "id_members db1 = id_members db"
      "id_invitations db1 = id_invitations db" "id_logins db1 = id_logins db" "id_sessions db1 = id_sessions db"
    using 1 by (auto simp: add_tenant_def map_sum_def split: sum.splits)
  moreover have "id_users db2 = id_users db1" "id_identities db2 = id_identities db1" "id_members db2 = id_members db1"
      "id_invitations db2 = id_invitations db1" "id_logins db2 = id_logins db1" "id_sessions db2 = id_sessions db1"
    using 2 by (auto simp: add_organization_def map_sum_def split: sum.splits)
  ultimately show ?thesis
    using 3 r by (simp add: add_member_Inr journal_def set_identity_def set_user_def same_logins_sessions_def)
qed

text \<open>What a resolved person is, in the database it was resolved in.\<close>

definition others_kept :: "('r \<Rightarrow> string) \<Rightarrow> string \<Rightarrow> 'r list \<Rightarrow> 'r list \<Rightarrow> bool" where
  "others_kept key k rows rows' \<longleftrightarrow> filter (\<lambda>x. key x \<noteq> k) rows' = filter (\<lambda>x. key x \<noteq> k) rows"

definition person_ok :: "identity_db \<Rightarrow> string \<Rightarrow> identity_row \<Rightarrow> user_row \<Rightarrow> member_row \<Rightarrow> identity_db \<Rightarrow> bool" where
  "person_ok db subject i u m db' \<longleftrightarrow>
     oi_issuer i = CANONICAL_ISSUER \<and> oi_subject i = subject \<and> oi_enabled i \<and> oi_user_id i = us_id u \<and> us_enabled u \<and>
     tm_user_id m = us_id u \<and> tm_active m \<and> i \<in> set (id_identities db') \<and> u \<in> set (id_users db') \<and> m \<in> set (id_members db') \<and>
     others_kept us_id (us_id u) (id_users db) (id_users db') \<and>
     others_kept oi_id (oi_id i) (id_identities db) (id_identities db') \<and>
     same_logins_sessions db db'"

lemma others_kept_update: "(\<And>x. key x = k \<Longrightarrow> key (f x) = k) \<Longrightarrow> others_kept key k rows (update_rows (\<lambda>x. key x = k) f rows)"
  unfolding others_kept_def by (induction rows) auto

lemma others_kept_refl [simp]: "others_kept key k rows rows"
  by (simp add: others_kept_def)

lemma others_kept_append: "others_kept key k rows rows' \<Longrightarrow> key r = k \<Longrightarrow> others_kept key k rows (rows' @ [r])"
  by (simp add: others_kept_def)

lemma others_kept_trans: "others_kept key k a b \<Longrightarrow> others_kept key k b c \<Longrightarrow> others_kept key k a c"
  by (simp add: others_kept_def)

lemma update_const_in: "r \<in> set rows \<Longrightarrow> key r = k \<Longrightarrow> v \<in> set (update_rows (\<lambda>x. key x = k) (\<lambda>_. v) rows)"
  by (auto simp: set_update_rows)

lemma person_moved:
  assumes "id_users db' = id_users (set_user (us_id u) (\<lambda>_. u') db)" and "us_id u' = us_id u"
    and "id_identities db' = id_identities (set_identity (oi_id i) (\<lambda>_. i') db)" and "oi_id i' = oi_id i"
    and "u \<in> set (id_users db)" "i \<in> set (id_identities db)"
  shows "u' \<in> set (id_users db')" "i' \<in> set (id_identities db')"
    "others_kept us_id (us_id u) (id_users db) (id_users db')"
    "others_kept oi_id (oi_id i) (id_identities db) (id_identities db')"
  using assms update_const_in others_kept_update [of us_id "us_id u" "\<lambda>_. u'"] others_kept_update [of oi_id "oi_id i" "\<lambda>_. i'"]
  by (auto simp: set_user_def set_identity_def set_update_rows)

lemma placed_person:
  assumes "person_ok db0 subject i u m0 db \<or>
      (oi_issuer i = CANONICAL_ISSUER \<and> oi_subject i = subject \<and> oi_enabled i \<and> oi_user_id i = us_id u \<and> us_enabled u \<and>
       i \<in> set (id_identities db) \<and> u \<in> set (id_users db) \<and> others_kept us_id (us_id u) (id_users db0) (id_users db) \<and>
       others_kept oi_id (oi_id i) (id_identities db0) (id_identities db) \<and> same_logins_sessions db0 db)"
    and "id_users db' = id_users (set_user (us_id u) (\<lambda>_. u') db)" and "us_id u' = us_id u" "us_enabled u' = us_enabled u"
    and "id_identities db' = id_identities (set_identity (oi_id i) (\<lambda>_. i') db)"
    and "i' = i\<lparr>oi_default_tenant_id := x\<rparr>"
    and "tm_user_id m = us_id u" "tm_active m" "m \<in> set (id_members db')" and "same_logins_sessions db db'"
  shows "person_ok db0 subject i' u' m db'"
proof -
  have i: "oi_issuer i = CANONICAL_ISSUER" "oi_subject i = subject" "oi_enabled i" "oi_user_id i = us_id u" "us_enabled u"
      "i \<in> set (id_identities db)" "u \<in> set (id_users db)" "others_kept us_id (us_id u) (id_users db0) (id_users db)"
      "others_kept oi_id (oi_id i) (id_identities db0) (id_identities db)" "same_logins_sessions db0 db"
    using assms(1) unfolding person_ok_def by blast+
  have id: "oi_id i' = oi_id i" using assms(6) by simp
  note moved = person_moved [OF assms(2,3,5) id i(7,6)]
  show ?thesis
    unfolding person_ok_def
    using i moved assms(3,4,6-10) id others_kept_trans [OF i(8) moved(3)] others_kept_trans [OF i(9) moved(4)]
    by (auto simp: same_logins_sessions_def)
qed

section \<open>Who a resolution returns\<close>

lemma same_tables_trans: "same_logins_sessions a b \<Longrightarrow> same_logins_sessions b c \<Longrightarrow> same_logins_sessions a c"
  by (simp add: same_logins_sessions_def)

lemma same_tables_refl [simp]: "same_logins_sessions db db"
  by (simp add: same_logins_sessions_def)

lemma same_profile [simp]: "same_logins_sessions db (record_profile B t iid claims db)"
  by (simp add: same_logins_sessions_def)

text \<open>A person whose rows are in the database, with every other row as it was.\<close>

definition known_person :: "identity_db \<Rightarrow> string \<Rightarrow> identity_row \<Rightarrow> user_row \<Rightarrow> identity_db \<Rightarrow> bool" where
  "known_person db0 subject i u db \<longleftrightarrow>
     oi_issuer i = CANONICAL_ISSUER \<and> oi_subject i = subject \<and> oi_enabled i \<and> oi_user_id i = us_id u \<and> us_enabled u \<and>
     i \<in> set (id_identities db) \<and> u \<in> set (id_users db) \<and> others_kept us_id (us_id u) (id_users db0) (id_users db) \<and>
     others_kept oi_id (oi_id i) (id_identities db0) (id_identities db) \<and> same_logins_sessions db0 db"

lemma known_person_placed:
  assumes "known_person db0 subject i u db"
    and "id_users db' = id_users (set_user (us_id u) (\<lambda>_. u') db)" and "us_id u' = us_id u" "us_enabled u' = us_enabled u"
    and "id_identities db' = id_identities (set_identity (oi_id i) (\<lambda>_. i') db)"
    and "i' = i\<lparr>oi_default_tenant_id := x\<rparr>"
    and "tm_user_id m = us_id u" "tm_active m" "m \<in> set (id_members db')" and "same_logins_sessions db db'"
  shows "person_ok db0 subject i' u' m db'"
  by (rule placed_person [OF disjI2]) (use assms in \<open>simp_all add: known_person_def\<close>)

lemma known_person_profile: "known_person db0 subject i u db \<Longrightarrow> known_person db0 subject i u (record_profile B t iid claims db)"
  by (simp add: known_person_def same_logins_sessions_def)

lemma known_person_member:
  assumes "known_person db0 subject i u db" and "tm_user_id m = us_id u" "tm_active m" "m \<in> set (id_members db)"
  shows "person_ok db0 subject i u m db"
  using assms by (simp add: known_person_def person_ok_def)

lemma member_placed:
  assumes "membership_for_invitation t w invite u db = Inr (m, db')"
  shows "tm_user_id m = us_id u \<and> tm_tenant_id m = ti_tenant_id invite \<and> tm_role m = ti_role invite \<and> tm_active m \<and>
    m \<in> set (id_members db') \<and> id_users db' = id_users db \<and> id_identities db' = id_identities db \<and>
    id_invitations db' = id_invitations db \<and> id_postal db' = id_postal db \<and> same_logins_sessions db db'"
proof (cases "any_member db (ti_tenant_id invite) (us_id u)")
  case None
  then show ?thesis
    using assms
    by (auto simp: membership_for_invitation_def Let_def add_member_Inr new_member_def same_logins_sessions_def map_sum_def
        split: sum.splits)
next
  case (Some x)
  then have x: "x \<in> set (id_members db)" "tm_tenant_id x = ti_tenant_id invite" "tm_user_id x = us_id u"
    unfolding any_member_def by (auto dest: find_row_Some)
  then have "x\<lparr>tm_role := ti_role invite, tm_active := True\<rparr> \<in>
      set (update_rows (\<lambda>y. tm_id y = tm_id x) (\<lambda>_. x\<lparr>tm_role := ti_role invite, tm_active := True\<rparr>) (id_members db))"
    by (intro update_const_in) auto
  then show ?thesis
    using assms Some x
    by (auto simp: membership_for_invitation_def Let_def same_logins_sessions_def split: if_splits)
qed

lemma accepted_person:
  assumes "accepted_invitation t w i u invite m db = (i', u', m', db')" and "known_person db0 subject i u db"
    and "tm_user_id m = us_id u" "tm_active m" "m \<in> set (id_members db)"
  shows "person_ok db0 subject i' u' m' db'"
  by (rule known_person_placed [OF assms(2)])
    (use accepted_invitation_tables [OF assms(1)] assms(3-5) in simp_all)

lemma known_person_moved:
  assumes "known_person db0 subject i u db" and "id_users db' = id_users db" "id_identities db' = id_identities db"
    and "same_logins_sessions db db'"
  shows "known_person db0 subject i u db'"
  using assms by (simp add: known_person_def same_logins_sessions_def)

lemma starter_person:
  assumes "starter_workspace B t w i u claims db = Inr (i', u', m, db')" and "known_person db0 subject i u db"
  shows "person_ok db0 subject i' u' m db'"
  by (rule known_person_placed [OF assms(2)])
    (use starter_workspace_tables [OF assms(1)] in \<open>simp_all add: new_member_def\<close>)

lemma invited_person:
  assumes "invited_workspace B t w i u claims db = Inr (Some (i', u', m, db'))" and "known_person db0 subject i u db"
  shows "person_ok db0 subject i' u' m db'"
proof -
  obtain invite db1 where add: "add_member (new_member t w (ti_tenant_id invite) (us_id u) (ti_role invite)) db = Inr db1"
    and acc: "accepted_invitation t w i u invite (new_member t w (ti_tenant_id invite) (us_id u) (ti_role invite)) db1 = (i', u', m, db')"
    using assms(1) by (auto simp: invited_workspace_def Let_def map_sum_def split: if_splits list.splits sum.splits)
  have "known_person db0 subject i u db1"
    by (rule known_person_moved [OF assms(2)]) (use add in \<open>auto simp: add_member_Inr same_logins_sessions_def\<close>)
  then show ?thesis
    using accepted_person [OF acc] add by (auto simp: add_member_Inr new_member_def)
qed

lemma selected_person:
  assumes "accept_selected_invitation B t w claims invitation i u db = Inr (i', u', m, db')"
    and "known_person db0 subject i u db"
  shows "person_ok db0 subject i' u' m db'"
proof -
  obtain invite m1 db1 where mem: "membership_for_invitation t w invite u db = Inr (m1, db1)"
    and acc: "accepted_invitation t w i u invite m1 db1 = (i', u', m, db')"
    using assms(1) by (auto simp: accept_selected_invitation_def res_bind_Inr split: if_splits)
  note p = member_placed [OF mem]
  have "known_person db0 subject i u db1" by (rule known_person_moved [OF assms(2)]) (use p in simp_all)
  then show ?thesis using accepted_person [OF acc] p by simp
qed

definition same_person :: "identity_row \<Rightarrow> user_row \<Rightarrow> identity_row \<Rightarrow> user_row \<Rightarrow> bool" where
  "same_person i u i' u' \<longleftrightarrow> oi_id i' = oi_id i \<and> us_id u' = us_id u \<and> us_email u' = us_email u"

lemma same_person_refl [simp]: "same_person i u i u"
  by (simp add: same_person_def)

lemma accepted_same: "accepted_invitation t w i u invite m db = (i', u', m', db') \<Longrightarrow> same_person i u i' u'"
  using accepted_invitation_tables [of t w i u invite m db i' u' m' db'] by (simp add: same_person_def)

lemma starter_same: "starter_workspace B t w i u claims db = Inr (i', u', m, db') \<Longrightarrow> same_person i u i' u'"
  using starter_workspace_tables [of B t w i u claims db i' u' m db'] by (simp add: same_person_def)

lemma placed_new_person:
  assumes "starter_or_invited B t w claims i u db = Inr (i', u', m, db')" and "known_person db0 subject i u db"
  shows "person_ok db0 subject i' u' m db' \<and> same_person i u i' u'"
proof -
  obtain found where f: "invited_workspace B t w i u claims db = Inr found"
    and rest: "(case found of Some p \<Rightarrow> Inr p | None \<Rightarrow> starter_workspace B t w i u claims db) = Inr (i', u', m, db')"
    using assms(1) by (auto simp: starter_or_invited_def res_bind_Inr)
  show ?thesis
  proof (cases found)
    case None
    then show ?thesis using rest starter_person [OF _ assms(2)] starter_same by simp
  next
    case (Some p)
    then have "invited_workspace B t w i u claims db = Inr (Some (i', u', m, db'))" using f rest by simp
    moreover from this have "same_person i u i' u'"
      by (auto simp: invited_workspace_def Let_def map_sum_def intro: accepted_same split: if_splits list.splits sum.splits)
    ultimately show ?thesis using invited_person [OF _ assms(2)] by simp
  qed
qed

lemma selected_same:
  "accept_selected_invitation B t w claims invitation i u db = Inr (i', u', m, db') \<Longrightarrow> same_person i u i' u'"
  by (auto simp: accept_selected_invitation_def res_bind_Inr intro: accepted_same split: if_splits)

lemma new_person_known:
  assumes "new_person w iss subject email db = Inr (i, u, db')" and "iss = CANONICAL_ISSUER"
  shows "known_person db subject i u db' \<and> us_email u = email \<and> (\<forall>x \<in> set (id_users db). us_id x \<noteq> us_id u) \<and>
    (\<forall>x \<in> set (id_identities db). \<not> (oi_issuer x = iss \<and> oi_subject x = subject))"
  using assms
  by (auto simp: new_person_def Let_def res_bind_Inr insert_row_Inr known_person_def user_clash_def identity_clash_def
      same_logins_sessions_def intro!: others_kept_append split: if_splits)

lemma audited_ok: "person_ok db0 subject i u m (trail a b c db) \<longleftrightarrow> person_ok db0 subject i u m db"
  by (simp add: person_ok_def trail_def same_logins_sessions_def)

lemma audited_Inr:
  "map_sum id (audited action) r = Inr (i, u, m, db') \<longleftrightarrow>
     (\<exists>db1. r = Inr (i, u, m, db1) \<and> db' = trail (tm_tenant_id m) (us_id u) action db1)"
  by (cases r) (auto simp: audited_def split: prod.splits)

lemma verified_new_email_Inr:
  "verified_new_email B claims db = Inr email \<longleftrightarrow>
     email = claim_email B claims \<and> email \<noteq> [] \<and> obj_get claims ''email_verified'' = JBool True \<and>
     (\<forall>x \<in> set (id_users db). us_email x \<noteq> email)"
  by (auto simp: verified_new_email_def Let_def find_row_None split: if_splits)

text \<open>What a first login requires of the claims and of the tables.\<close>

definition first_login_allowed :: "bff_env \<Rightarrow> string \<Rightarrow> (string \<times> json) list \<Rightarrow> identity_db \<Rightarrow> user_row \<Rightarrow> bool" where
  "first_login_allowed B subject claims db u \<longleftrightarrow>
     obj_get claims ''email_verified'' = JBool True \<and> claim_email B claims \<noteq> [] \<and> us_email u = claim_email B claims \<and>
     (\<forall>x \<in> set (id_users db). us_id x \<noteq> us_id u \<and> us_email x \<noteq> claim_email B claims) \<and>
     (\<forall>x \<in> set (id_identities db). \<not> (oi_issuer x = CANONICAL_ISSUER \<and> oi_subject x = subject))"

lemma first_login_person:
  assumes "first_login B t w iss subject claims place db = Inr (i, u, m, db')" and "iss = CANONICAL_ISSUER"
    and place: "\<And>i0 u0 db1 i1 u1 m1 db2. place i0 u0 db1 = Inr (i1, u1, m1, db2) \<Longrightarrow> known_person db subject i0 u0 db1 \<Longrightarrow>
      person_ok db subject i1 u1 m1 db2 \<and> same_person i0 u0 i1 u1"
  shows "person_ok db subject i u m db' \<and> first_login_allowed B subject claims db u"
proof -
  obtain email i0 u0 db1 db2 where e: "verified_new_email B claims db = Inr email"
    and n: "new_person w iss subject email db = Inr (i0, u0, db1)"
    and p: "place i0 u0 (record_profile B t (oi_id i0) claims db1) = Inr (i, u, m, db2)"
    and db': "db' = trail (tm_tenant_id m) (us_id u) ''identity.first_login'' db2"
    using assms(1) by (auto simp: first_login_def res_bind_Inr audited_Inr)
  note k = new_person_known [OF n assms(2)]
  have "person_ok db subject i u m db2 \<and> same_person i0 u0 i u"
    by (rule place [OF p]) (use k known_person_profile in blast)
  then show ?thesis
    using k e assms(2) by (auto simp: db' audited_ok first_login_allowed_def verified_new_email_Inr same_person_def)
qed

lemma first_active_member_Some:
  assumes "first_active_member db i u = Some m"
  shows "m \<in> set (id_members db) \<and> tm_user_id m = us_id u \<and> tm_active m"
proof (cases "if absent (oi_default_tenant_id i) then None
            else active_member db (the (oi_default_tenant_id i)) (us_id u)")
  case (Some m')
  then show ?thesis
    using assms by (auto simp: first_active_member_def active_member_def dest!: find_row_Some split: if_splits)
next
  case None
  then obtain ms where "active_members db (us_id u) = m # ms"
    using assms unfolding first_active_member_def by (simp split: list.splits)
  then have "m \<in> set (sort_key tm_created_at (filter (\<lambda>m. tm_user_id m = us_id u \<and> tm_active m) (id_members db)))"
    unfolding active_members_def by simp
  then show ?thesis by simp
qed

lemma identity_of_claims_Some:
  "identity_of_claims iss subject db = Some i \<Longrightarrow>
     i \<in> set (id_identities db) \<and> oi_issuer i = iss \<and> oi_subject i = subject \<and> oi_enabled i"
  unfolding identity_of_claims_def by (drule find_row_Some) simp

lemma returning_known:
  assumes "identity_of_claims CANONICAL_ISSUER subject db = Some i" and "get_user db (oi_user_id i) = Some u" and "us_enabled u"
  shows "known_person db subject i u db"
  using identity_of_claims_Some [OF assms(1)] get_user_id [OF assms(2)] assms(3) by (simp add: known_person_def)

lemma returning_person_ok:
  assumes "returning_person B t w i claims db = Inr (i', u', m, db')"
    and "identity_of_claims CANONICAL_ISSUER subject db = Some i"
  shows "person_ok db subject i' u' m db' \<and> tenant_enabled db' (tm_tenant_id m) \<and> us_id u' = oi_user_id i \<and> oi_id i' = oi_id i"
proof -
  let ?db1 = "record_profile B t (oi_id i) claims db"
  obtain u where u: "get_user db (oi_user_id i) = Some u" "us_enabled u"
    using assms(1) by (auto simp: returning_person_def split: option.splits if_splits)
  then have r: "(case first_active_member ?db1 i u of Some m \<Rightarrow> Inr (i, u, m, ?db1)
         | None \<Rightarrow> starter_workspace B t w i u claims ?db1) = Inr (i', u', m, db')"
    and en: "tenant_enabled db' (tm_tenant_id m)"
    using assms(1) by (auto simp: returning_person_def Let_def res_bind_Inr split: if_splits)
  note k = known_person_profile [OF returning_known [OF assms(2) u], of B t "oi_id i" claims]
  have "person_ok db subject i' u' m db' \<and> same_person i u i' u'"
  proof (cases "first_active_member ?db1 i u")
    case None
    then show ?thesis using r starter_person [OF _ k] starter_same by simp
  next
    case (Some m')
    have "person_ok db subject i u m' ?db1"
      by (rule known_person_member [OF k]) (use first_active_member_Some [OF Some] in simp_all)
    then show ?thesis using r Some by auto
  qed
  then show ?thesis using en get_user_id [OF u(1)] by (simp add: same_person_def)
qed

text \<open>The person of a callback: the subject's own rows, returning or new.\<close>

definition subject_of :: "bff_env \<Rightarrow> (string \<times> json) list \<Rightarrow> string" where
  "subject_of B claims = claim_text (bf_repr B) claims ''sub''"

definition rightful :: "bff_env \<Rightarrow> (string \<times> json) list \<Rightarrow> identity_db \<Rightarrow> identity_row \<Rightarrow> user_row \<Rightarrow> bool" where
  "rightful B claims db i u \<longleftrightarrow>
     (case identity_of_claims CANONICAL_ISSUER (subject_of B claims) db of
        Some j \<Rightarrow> oi_id i = oi_id j \<and> us_id u = oi_user_id j
      | None \<Rightarrow> first_login_allowed B (subject_of B claims) claims db u)"

lemma resolved_person_ok:
  assumes "resolve_identity_context B t w claims db = Inr (i, u, m, db')"
  shows "subject_of B claims \<noteq> [] \<and> person_ok db (subject_of B claims) i u m db' \<and> rightful B claims db i u"
proof -
  obtain iss where iss: "canonical_issuer (bf_env B) = Inr iss" and s: "subject_of B claims \<noteq> []"
    and r: "(case identity_of_claims iss (subject_of B claims) db of
                  Some i \<Rightarrow> returning_person B t w i claims db
                | None \<Rightarrow> first_login B t w iss (subject_of B claims) claims (starter_or_invited B t w claims) db) = Inr (i, u, m, db')"
    using assms unfolding resolve_identity_context_def subject_of_def [symmetric] by (auto simp: res_bind_Inr Let_def split: if_splits)
  have c: "iss = CANONICAL_ISSUER" by (rule canonical_issuer_Inr [OF iss])
  show ?thesis
  proof (cases "identity_of_claims iss (subject_of B claims) db")
    case None
    then have "first_login B t w iss (subject_of B claims) claims (starter_or_invited B t w claims) db = Inr (i, u, m, db')"
      using r by simp
    from first_login_person [OF this c placed_new_person] show ?thesis using s None c by (simp add: rightful_def)
  next
    case (Some j)
    then have "returning_person B t w j claims db = Inr (i, u, m, db')" using r by simp
    from returning_person_ok [OF this, of "subject_of B claims"] show ?thesis using s Some c by (simp add: rightful_def)
  qed
qed

lemma resolved_selected_ok:
  assumes "resolve_selected_identity B t w claims invitation db = Inr (i, u, m, db')"
  shows "subject_of B claims \<noteq> [] \<and> person_ok db (subject_of B claims) i u m db' \<and> rightful B claims db i u"
proof -
  let ?accept = "accept_selected_invitation B t w claims invitation"
  obtain iss where iss: "canonical_issuer (bf_env B) = Inr iss" and s: "subject_of B claims \<noteq> []"
    and r: "(case identity_of_claims iss (subject_of B claims) db of
                  Some i \<Rightarrow>
                    (case get_user db (oi_user_id i) of
                       None \<Rightarrow> Inl (http 403 ''account_disabled'')
                     | Some u \<Rightarrow>
                         (if \<not> us_enabled u then Inl (http 403 ''account_disabled'')
                          else map_sum id (audited ''identity.invitation_login'') (?accept i u (record_profile B t (oi_id i) claims db))))
                | None \<Rightarrow> first_login B t w iss (subject_of B claims) claims ?accept db) = Inr (i, u, m, db')"
    using assms unfolding resolve_selected_identity_def subject_of_def [symmetric] by (auto simp: res_bind_Inr Let_def split: if_splits)
  have c: "iss = CANONICAL_ISSUER" by (rule canonical_issuer_Inr [OF iss])
  show ?thesis
  proof (cases "identity_of_claims iss (subject_of B claims) db")
    case None
    then have "first_login B t w iss (subject_of B claims) claims ?accept db = Inr (i, u, m, db')" using r by simp
    from first_login_person [OF this c] show ?thesis
      using s None c selected_person selected_same by (simp add: rightful_def)
  next
    case (Some j)
    then obtain u0 db1 where u0: "get_user db (oi_user_id j) = Some u0" "us_enabled u0"
      and a: "?accept j u0 (record_profile B t (oi_id j) claims db) = Inr (i, u, m, db1)"
      and db': "db' = trail (tm_tenant_id m) (us_id u) ''identity.invitation_login'' db1"
      using r by (auto simp: audited_Inr split: option.splits if_splits)
    have j: "identity_of_claims CANONICAL_ISSUER (subject_of B claims) db = Some j" using Some c by simp
    note k = known_person_profile [OF returning_known [OF j u0], of B t "oi_id j" claims]
    show ?thesis
      using selected_person [OF a k] selected_same [OF a] s j get_user_id [OF u0(1)]
      by (simp add: db' audited_ok rightful_def same_person_def)
  qed
qed

text \<open>
  C12. Whoever comes out of the identity resolution of a callback is the subject that the token names:
  an enabled identity of the one issuer and that subject, the enabled user it belongs to, an active
  membership of that user. Returning, it is the identity already on file; otherwise the token's email
  is verified and no user has it yet, so a first login never takes over an account. No other user's
  and no other identity's row changes.
\<close>

theorem callback_person_is_subject:
  assumes "callback_person B t w mode claims db = Inr (None, i, u, m, db')"
  shows "person_ok db (subject_of B claims) i u m db' \<and> rightful B claims db i u"
  using assms resolved_person_ok [of B t w claims db i u m db'] resolved_selected_ok [of B t w claims _ db i u m db']
  by (auto simp: callback_person_def map_sum_def split: if_splits sum.splits)

section \<open>The transaction of a callback\<close>

lemma step_up_identity_Inr:
  assumes "step_up_identity B t mode claims db = Inr (r, i, u, m)"
  shows "live_parent t db (drop 8 mode) = Inr r \<and> step_up_person B r (strip (subject_of B claims)) db = Inr (i, u, m)"
  using assms by (auto simp: step_up_identity_def Let_def res_bind_Inr map_sum_def subject_of_def split: if_splits sum.splits)

lemma live_parent_Inr:
  "live_parent t db sid = Inr p \<longleftrightarrow> get_session db sid = Some p \<and> bs_revoked_at p = None \<and> t < bs_expires_at p"
  by (auto simp: live_parent_def split: option.splits)

lemma step_up_person_Inr:
  assumes "step_up_person B r subject db = Inr (i, u, m)"
  shows "identity_of_claims CANONICAL_ISSUER subject db = Some i \<and> oi_id i = bs_identity_id r \<and>
    oi_user_id i = bs_user_id r \<and> u \<in> set (id_users db) \<and> us_id u = bs_user_id r \<and> us_enabled u \<and> active_member db (bs_tenant_id r) (bs_user_id r) = Some m \<and>
    tm_tenant_id m = bs_tenant_id r \<and> tenant_enabled db (bs_tenant_id r)"
proof -
  obtain iss where iss: "canonical_issuer (bf_env B) = Inr iss"
    and r: "(case identity_of_claims iss subject db of
         None \<Rightarrow> Inl (http 403 ''step_up_identity_mismatch'')
       | Some i \<Rightarrow>
           (if oi_id i \<noteq> bs_identity_id r \<or> oi_user_id i \<noteq> bs_user_id r
            then Inl (http 403 ''step_up_identity_mismatch'')
            else (case get_user db (bs_user_id r) of
                    None \<Rightarrow> Inl (http 403 ''step_up_account_disabled'')
                  | Some u \<Rightarrow>
                      (if \<not> us_enabled u then Inl (http 403 ''step_up_account_disabled'')
                       else (case active_member db (bs_tenant_id r) (bs_user_id r) of
                               None \<Rightarrow> Inl (http 403 ''step_up_workspace_invalid'')
                             | Some m \<Rightarrow> if \<not> tenant_enabled db (bs_tenant_id r)
                                         then Inl (http 403 ''step_up_workspace_invalid'') else Inr (i, u, m)))))) = Inr (i, u, m)"
    using assms by (auto simp: step_up_person_def res_bind_Inr)
  have "identity_of_claims iss subject db = Some i \<and> oi_id i = bs_identity_id r \<and> oi_user_id i = bs_user_id r \<and> us_enabled u \<and>
      get_user db (bs_user_id r) = Some u \<and> active_member db (bs_tenant_id r) (bs_user_id r) = Some m \<and>
      tenant_enabled db (bs_tenant_id r)"
    using r by (simp split: option.splits if_splits)
  moreover from this have "tm_tenant_id m = bs_tenant_id r" unfolding active_member_def by (auto dest: find_row_Some)
  ultimately show ?thesis using canonical_issuer_Inr [OF iss] get_user_id by blast
qed

lemma callback_person_same:
  assumes "callback_person B t w mode claims db = Inr (old, i, u, m, db')"
  shows "same_logins_sessions db db'"
proof (cases "\<not> starts_with ''invite:'' mode \<and> starts_with ''step-up:'' mode")
  case True
  then show ?thesis using assms by (auto simp: callback_person_def map_sum_def split: sum.splits)
next
  case False
  then have "(starts_with ''invite:'' mode \<and> resolve_selected_identity B t w claims (drop 7 mode) db = Inr (i, u, m, db')) \<or>
      resolve_identity_context B t w claims db = Inr (i, u, m, db')"
    using assms by (auto simp: callback_person_def map_sum_def split: if_splits sum.splits)
  then show ?thesis using resolved_person_ok resolved_selected_ok unfolding person_ok_def by blast
qed

lemma stage_postal_Inr: "stage_postal t w tid db = Inr db' \<Longrightarrow> \<exists>p. db' = db\<lparr>id_postal := p\<rparr>"
  by (auto simp: stage_postal_def map_sum_def split: sum.splits prod.splits)

lemma map_sum_Inr: "map_sum id f x = Inr y \<longleftrightarrow> (\<exists>z. x = Inr z \<and> y = f z)"
  by (cases x) auto

lemma stage_session_Inr:
  assumes "stage_session B rq t d i u m tokens parent db = Inr (r, db')"
  shows "db' = db\<lparr>id_sessions := id_sessions db @ [r]\<rparr> \<and> (\<forall>x \<in> set (id_sessions db). \<not> session_clash r x) \<and>
    bs_id r = sd_id d \<and> bs_token_hash r = bf_sha B (sd_raw d) \<and> bs_identity_id r = oi_id i \<and> bs_user_id r = us_id u \<and>
    bs_tenant_id r = tm_tenant_id m \<and> bs_role r = tm_role m \<and> bs_rotated_from_id r = parent \<and> bs_revoked_at r = None \<and>
    (\<forall>sid. parent = Some sid \<longrightarrow> (\<exists>p. live_parent t db sid = Inr p \<and> bs_expires_at r \<le> bs_expires_at p))"
proof -
  obtain r0 where r0: "session_row_of B rq t d i u m tokens parent = Inr r0"
    and r: "(case parent of None \<Rightarrow> Inr r0
       | Some sid \<Rightarrow> map_sum id (\<lambda>p. r0\<lparr>bs_expires_at := min (bs_expires_at r0) (bs_expires_at p)\<rparr>) (live_parent t db sid)) = Inr r"
    and add: "add_session r db = Inr db'"
    using assms by (auto simp: stage_session_def res_bind_Inr map_sum_Inr)
  have "r = r0 \<and> parent = None \<or> (\<exists>sid p. parent = Some sid \<and> live_parent t db sid = Inr p \<and>
      r = r0\<lparr>bs_expires_at := min (bs_expires_at r0) (bs_expires_at p)\<rparr>)"
    using r by (auto simp: map_sum_def split: option.splits sum.splits)
  then show ?thesis
    using add session_row_of_Inr [OF r0] by (auto simp: add_session_Inr)
qed

lemma callback_work_Inr:
  assumes "callback_work B rq t w d l tokens claims db = Inr (r, db')"
  obtains db1 old i u m db2 p where "claim_transaction t l db = Inr db1"
    and "callback_person B t w (lt_mode l) claims db1 = Inr (old, i, u, m, db2)"
    and "stage_session B rq t d i u m tokens (map_option bs_id old) (db2\<lparr>id_postal := p\<rparr>) =
           Inr (r, db2\<lparr>id_postal := p, id_sessions := id_sessions db2 @ [r]\<rparr>)"
    and "db' = (case old of None \<Rightarrow> db2\<lparr>id_postal := p, id_sessions := id_sessions db2 @ [r]\<rparr>
       | Some parent \<Rightarrow> revoke_session t (bs_id parent) (db2\<lparr>id_postal := p, id_sessions := id_sessions db2 @ [r]\<rparr>))"
proof -
  obtain db1 old i u m db2 db3 db4 where w: "claim_transaction t l db = Inr db1"
    "callback_person B t w (lt_mode l) claims db1 = Inr (old, i, u, m, db2)"
    "stage_postal t w (tm_tenant_id m) db2 = Inr db3"
    "stage_session B rq t d i u m tokens (map_option bs_id old) db3 = Inr (r, db4)"
    "db' = (case old of None \<Rightarrow> db4 | Some parent \<Rightarrow> revoke_session t (bs_id parent) db4)"
    using assms by (auto simp: callback_work_def res_bind_Inr)
  obtain p where db3: "db3 = db2\<lparr>id_postal := p\<rparr>" using stage_postal_Inr [OF w(3)] by blast
  have db4: "db4 = db2\<lparr>id_postal := p, id_sessions := id_sessions db2 @ [r]\<rparr>"
    using stage_session_Inr [OF w(4)] by (simp add: db3)
  show thesis by (rule that [OF w(1,2) w(4) [unfolded db3 db4] w(5) [unfolded db4]])
qed

lemma claim_transaction_Inr:
  "claim_transaction t l db = Inr db' \<longleftrightarrow> count_rows (claimable_login t (lt_id l)) (id_logins db) = 1 \<and>
     db' = db\<lparr>id_logins := update_rows (claimable_login t (lt_id l)) (\<lambda>l. l\<lparr>lt_used_at := Some t\<rparr>) (id_logins db)\<rparr>"
  by (auto simp: claim_transaction_def)

lemma callback_work_logins:
  assumes "callback_work B rq t w d l tokens claims db = Inr (r, db')"
  shows "\<exists>db1. claim_transaction t l db = Inr db1 \<and> id_logins db' = id_logins db1"
proof (rule callback_work_Inr [OF assms])
  fix db1 old i u m db2 p
  assume c: "claim_transaction t l db = Inr db1" and p: "callback_person B t w (lt_mode l) claims db1 = Inr (old, i, u, m, db2)"
    and db': "db' = (case old of None \<Rightarrow> db2\<lparr>id_postal := p, id_sessions := id_sessions db2 @ [r]\<rparr>
       | Some parent \<Rightarrow> revoke_session t (bs_id parent) (db2\<lparr>id_postal := p, id_sessions := id_sessions db2 @ [r]\<rparr>))"
  then show ?thesis
    using callback_person_same [OF p]
    by (auto simp: same_logins_sessions_def revoke_session_def set_session_def split: option.splits)
qed

lemma load_transaction_Inr:
  "load_transaction B t state db = Inr l \<longleftrightarrow> login_by_state B state db = Some l \<and> lt_used_at l = None \<and> t < lt_expires_at l"
  by (auto simp: load_transaction_def split: option.splits)

lemma claimed_login_used:
  assumes "load_transaction B t state db = Inr l" and "claim_transaction t l db = Inr db1" and "id_logins db' = id_logins db1"
  shows "load_transaction B t' state db' = Inl (http 410 ''oidc_state_invalid_or_used'')"
proof -
  have l: "login_by_state B state db = Some l" "claimable_login t (lt_id l) l"
    using assms(1) by (simp_all add: load_transaction_Inr claimable_login_def)
  have "login_by_state B state db' = Some (l\<lparr>lt_used_at := Some t\<rparr>)"
    using l find_update_rows [of "claimable_login t (lt_id l)" lt_state_hash "\<lambda>l. l\<lparr>lt_used_at := Some t\<rparr>" "bf_sha B state" "id_logins db"]
      assms(2,3) by (simp add: login_by_state_def claim_transaction_Inr)
  then show ?thesis by (simp add: load_transaction_def)
qed

lemma oidc_callback_changed:
  assumes "oidc_callback B rq t w d state code action_status error db = (out, db')" and "db' \<noteq> db \<or> out = Inr rp"
  obtains l db1 where "load_transaction B t state db = Inr l" and "claim_transaction t l db = Inr db1"
    and "id_logins db' = id_logins db1" and "require_flow_cookie B rq state = Inr ()"
proof -
  obtain l where l: "load_transaction B t state db = Inr l" "require_flow_cookie B rq state = Inr ()"
    and rest: "(if refused_action l code action_status error
           then (case claim_transaction t l db of
                   Inl e \<Rightarrow> (Inl e, db)
                 | Inr db' \<Rightarrow> (service_error B rq state, db'))
           else (case res_bind (callback_tokens B rq (the code) l) (\<lambda>(tokens, claims).
                        callback_work B rq t w d l tokens claims db) of
                   Inl e \<Rightarrow> (Inl e, db)
                 | Inr (r, db') \<Rightarrow> (signed_in_answer B rq state l (sd_raw d), db'))) = (out, db')"
  proof (cases "res_bind (load_transaction B t state db) (\<lambda>l. map_sum id (\<lambda>_. l) (require_flow_cookie B rq state))")
    case (Inl e)
    then have "out = Inl e \<and> db' = db" using assms(1) by (simp add: oidc_callback_def)
    then show thesis using assms(2) by simp
  next
    case (Inr l)
    then have "load_transaction B t state db = Inr l" "require_flow_cookie B rq state = Inr ()"
      by (auto simp: res_bind_Inr map_sum_def split: sum.splits)
    then show thesis using that Inr assms(1) by (simp add: oidc_callback_def)
  qed
  show thesis
  proof (cases "refused_action l code action_status error")
    case True
    then obtain db1 where "claim_transaction t l db = Inr db1" "db' = db1"
      using rest assms(2) by (auto split: sum.splits)
    then show thesis using that l by simp
  next
    case False
    then obtain tokens claims r where "callback_work B rq t w d l tokens claims db = Inr (r, db')"
      using rest assms(2) by (auto simp: res_bind_Inr split: sum.splits)
    then show thesis using callback_work_logins that l by blast
  qed
qed

text \<open>
  C13. A login transaction is spent once: after a callback that signed in, reported a refusal or
  changed anything at all, every later callback for the same state is answered with 410 and changes
  nothing, whatever code, cookie or clock it comes with.
\<close>

theorem callback_spends_transaction:
  assumes "oidc_callback B rq t w d state code action_status error db = (out, db')" and "db' \<noteq> db \<or> out = Inr rp"
  shows "oidc_callback B rq' t' w' d' state code' action_status' error' db' = (Inl (http 410 ''oidc_state_invalid_or_used''), db')"
proof (rule oidc_callback_changed [OF assms])
  fix l db1 assume "load_transaction B t state db = Inr l" "claim_transaction t l db = Inr db1" "id_logins db' = id_logins db1"
  from claimed_login_used [OF this] show ?thesis by (simp add: oidc_callback_def)
qed

lemma step_up_work:
  assumes "callback_work B rq t w d l tokens claims db = Inr (r, db')" and "lt_mode l = ''step-up:'' @ sid"
  shows "\<exists>p i. get_session db sid = Some p \<and> bs_revoked_at p = None \<and> t < bs_expires_at p \<and>
    identity_of_claims CANONICAL_ISSUER (strip (subject_of B claims)) db = Some i \<and> oi_enabled i \<and>
    oi_id i = bs_identity_id p \<and> oi_user_id i = bs_user_id p \<and>
    (\<exists>u \<in> set (id_users db). us_id u = bs_user_id p \<and> us_enabled u) \<and>
    (\<exists>m. active_member db (bs_tenant_id p) (bs_user_id p) = Some m \<and> bs_role r = tm_role m) \<and>
    bs_identity_id r = bs_identity_id p \<and> bs_user_id r = bs_user_id p \<and> bs_tenant_id r = bs_tenant_id p \<and>
    bs_expires_at r \<le> bs_expires_at p \<and> bs_revoked_at r = None \<and>
    id_sessions db' = update_rows (\<lambda>x. bs_id x = sid) (revoke t) (id_sessions db) @ [r] \<and>
    id_users db' = id_users db \<and> id_identities db' = id_identities db \<and> id_members db' = id_members db \<and>
    id_invitations db' = id_invitations db \<and>
    bs_id r = sd_id d \<and> bs_rotated_from_id r = Some sid \<and> (\<forall>x \<in> set (id_sessions db). \<not> session_clash r x)"
proof (rule callback_work_Inr [OF assms(1)])
  fix db1 old i u m db2 pp
  assume c: "claim_transaction t l db = Inr db1" and cp: "callback_person B t w (lt_mode l) claims db1 = Inr (old, i, u, m, db2)"
    and st: "stage_session B rq t d i u m tokens (map_option bs_id old) (db2\<lparr>id_postal := pp\<rparr>) =
           Inr (r, db2\<lparr>id_postal := pp, id_sessions := id_sessions db2 @ [r]\<rparr>)"
    and db': "db' = (case old of None \<Rightarrow> db2\<lparr>id_postal := pp, id_sessions := id_sessions db2 @ [r]\<rparr>
       | Some parent \<Rightarrow> revoke_session t (bs_id parent) (db2\<lparr>id_postal := pp, id_sessions := id_sessions db2 @ [r]\<rparr>))"
  have "\<not> starts_with ''invite:'' (lt_mode l)" "starts_with ''step-up:'' (lt_mode l)"
    by (simp_all add: assms(2) starts_with_def)
  then obtain p where p: "old = Some p" "step_up_identity B t (lt_mode l) claims db1 = Inr (p, i, u, m)" "db2 = db1"
    using cp by (auto simp: callback_person_def map_sum_def split: sum.splits)
  have lp: "live_parent t db1 sid = Inr p" and sp: "step_up_person B p (strip (subject_of B claims)) db1 = Inr (i, u, m)"
    using step_up_identity_Inr [OF p(2)] by (simp_all add: assms(2))
  have same: "get_session db1 = get_session db" "identity_of_claims iss s db1 = identity_of_claims iss s db" "id_users db1 = id_users db"
      "id_identities db1 = id_identities db" "id_members db1 = id_members db" "id_invitations db1 = id_invitations db"
      "id_sessions db1 = id_sessions db" "active_member db1 = active_member db" for iss s
    using c by (auto simp: claim_transaction_Inr get_session_def identity_of_claims_def active_member_def fun_eq_iff)
  have enabled: "oi_enabled i" using step_up_person_Inr [OF sp] by (auto simp: identity_of_claims_def dest: find_row_Some)
  have g: "get_session db sid = Some p" "bs_revoked_at p = None" "t < bs_expires_at p" "bs_id p = sid"
    using lp get_session_id by (auto simp: live_parent_Inr same)
  note person = step_up_person_Inr [OF sp] and staged = stage_session_Inr [OF st]
  have fresh: "bs_id r \<noteq> sid"
    using staged get_session_id [OF g(1)] p by (auto simp: same session_clash_def)
  have capped: "bs_expires_at r \<le> bs_expires_at p"
    using staged p g by (auto simp: live_parent_Inr get_session_def same)
  show ?thesis
    using g(1,2,3) person staged capped fresh p(1,3) g(4) enabled
    by (auto simp: db' same revoke_session_def set_session_def update_rows_def)
qed

text \<open>
  C16. A step-up stays within the session it re-authenticates: that session was live, the enabled
  identity of the token's subject is the session's identity and belongs to the session's user, who is
  still enabled and an active member of the session's tenant; the new session is for the same identity,
  user and tenant, in the role of that membership, and ends no later; the old one is revoked, every other
  session is as it was, and no user, identity, membership or invitation changes.
\<close>

theorem step_up_confined:
  assumes "callback_work B rq t w d l tokens claims db = Inr (r, db')" and "lt_mode l = ''step-up:'' @ sid"
  shows "\<exists>p i. get_session db sid = Some p \<and> bs_revoked_at p = None \<and> t < bs_expires_at p \<and>
    identity_of_claims CANONICAL_ISSUER (strip (subject_of B claims)) db = Some i \<and> oi_enabled i \<and>
    oi_id i = bs_identity_id p \<and> oi_user_id i = bs_user_id p \<and>
    (\<exists>u \<in> set (id_users db). us_id u = bs_user_id p \<and> us_enabled u) \<and>
    (\<exists>m. active_member db (bs_tenant_id p) (bs_user_id p) = Some m \<and> bs_role r = tm_role m) \<and>
    bs_identity_id r = bs_identity_id p \<and> bs_user_id r = bs_user_id p \<and> bs_tenant_id r = bs_tenant_id p \<and>
    bs_expires_at r \<le> bs_expires_at p \<and> bs_revoked_at r = None \<and>
    id_sessions db' = update_rows (\<lambda>x. bs_id x = sid) (revoke t) (id_sessions db) @ [r] \<and>
    id_users db' = id_users db \<and> id_identities db' = id_identities db \<and> id_members db' = id_members db \<and>
    id_invitations db' = id_invitations db"
  using step_up_work [OF assms] by blast

section \<open>What an invitation and a disabled identity do\<close>

definition of_person :: "string \<Rightarrow> string \<Rightarrow> member_row \<Rightarrow> bool" where
  "of_person tid uid x \<longleftrightarrow> tm_tenant_id x = tid \<and> tm_user_id x = uid"

text \<open>
  C40. Accepting an invitation leaves the person who accepts with exactly the offered role: the stored
  membership of that person in the inviting tenant is active and in that role, every row of other
  people and other tenants is as it was, and a membership that was active already is left as it is. An
  active member with another role is refused with 409, so an invitation neither promotes nor demotes
  anyone.
\<close>

theorem invitation_grants_exact_role:
  assumes "distinct (map tm_id (id_members db))"
  shows "(\<forall>m db'. membership_for_invitation t w invite u db = Inr (m, db') \<longrightarrow>
      any_member db' (ti_tenant_id invite) (us_id u) = Some m \<and> tm_role m = ti_role invite \<and> tm_active m \<and>
      filter (\<lambda>x. \<not> of_person (ti_tenant_id invite) (us_id u) x) (id_members db') =
        filter (\<lambda>x. \<not> of_person (ti_tenant_id invite) (us_id u) x) (id_members db) \<and>
      (\<forall>x. any_member db (ti_tenant_id invite) (us_id u) = Some x \<and> tm_active x \<longrightarrow> m = x \<and> db' = db)) \<and>
    (\<forall>x. any_member db (ti_tenant_id invite) (us_id u) = Some x \<and> tm_active x \<and> tm_role x \<noteq> ti_role invite \<longrightarrow>
      membership_for_invitation t w invite u db = Inl (http 409 ''invitation_existing_member_role_change_denied''))"
proof (cases "any_member db (ti_tenant_id invite) (us_id u)")
  case None
  then show ?thesis
    by (auto simp: membership_for_invitation_def Let_def add_member_Inr map_sum_Inr any_member_def find_row_append new_member_def
        of_person_def)
next
  case (Some y)
  let ?own = "of_person (ti_tenant_id invite) (us_id u)" and ?m = "y\<lparr>tm_role := ti_role invite, tm_active := True\<rparr>"
  have y: "find_row ?own (id_members db) = Some y" using Some by (simp add: any_member_def of_person_def [abs_def])
  have own: "y \<in> set (id_members db)" "?own y" "?own ?m" using find_row_Some [OF y] by (auto simp: of_person_def)
  have rows: "update_rows (\<lambda>x. tm_id x = tm_id y) (\<lambda>_. ?m) (id_members db) = map (\<lambda>x. if x = y then ?m else x) (id_members db)"
    using assms own(1) by (auto simp: update_rows_def dest: inj_onD simp: distinct_map)
  have "filter (\<lambda>x. \<not> ?own x) (map (\<lambda>x. if x = y then ?m else x) xs) = filter (\<lambda>x. \<not> ?own x) xs" for xs
    using own(2,3) by (induction xs) auto
  moreover have "find_row ?own xs = Some y \<Longrightarrow> find_row ?own (map (\<lambda>x. if x = y then ?m else x) xs) = Some ?m" for xs
    using own(3) by (induction xs) (auto simp: find_row_def split: if_splits)
  ultimately show ?thesis
    using Some y by (auto simp: membership_for_invitation_def Let_def rows any_member_def of_person_def [abs_def] split: if_splits)
qed

text \<open>
  A disabled identity is not answered like a disabled account: the lookup skips it, so the callback
  takes the person for a new one and the unique constraint on issuer and subject refuses the row. The
  request ends in an unhandled integrity error, and nothing is written.
\<close>

theorem disabled_identity_raises:
  assumes "canonical_issuer (bf_env B) = Inr iss" and "subject_of B claims \<noteq> []"
    and "find_row (\<lambda>x. oi_issuer x = iss \<and> oi_subject x = subject_of B claims) (id_identities db) = Some j"
    and "identity_of_claims iss (subject_of B claims) db = None"
    and "obj_get claims ''email_verified'' = JBool True" "claim_email B claims \<noteq> []"
    and "find_row (\<lambda>x. us_email x = claim_email B claims \<or> us_id x = wd_user w) (id_users db) = None"
    and "get_tenant db (wd_placeholder w) = None"
  shows "resolve_identity_context B t w claims db = Inl (IntegrityError ''oidc_identities'')"
proof -
  obtain x where x: "find_row (\<lambda>y. oi_id y = wd_identity w \<or> oi_issuer y = iss \<and> oi_subject y = subject_of B claims)
      (id_identities db) = Some x"
    using find_row_Some [OF assms(3)] find_row_exI [of j "id_identities db"] by fastforce
  have e: "verified_new_email B claims db = Inr (claim_email B claims)"
    using assms(5-7) by (simp add: verified_new_email_Inr find_row_None)
  have "find_row (\<lambda>x. us_id x = wd_user w \<or> us_email x = claim_email B claims) (id_users db) = None"
    using assms(7) by (auto simp: find_row_None)
  then have "new_person w iss (subject_of B claims) (claim_email B claims) db = Inl (IntegrityError ''oidc_identities'')"
    using x assms(8) by (simp add: new_person_def Let_def insert_row_def user_clash_def [abs_def] identity_clash_def [abs_def])
  then show ?thesis
    using assms(1,2,4) e unfolding resolve_identity_context_def subject_of_def [symmetric] first_login_def by simp
qed

section \<open>Concrete instances of a callback\<close>

definition sample_onboarding :: onboarding_draws where
  "sample_onboarding = \<lparr>wd_user = ''u9'', wd_identity = ''i9'', wd_placeholder = ''p9'', wd_password_hash = ''x'', wd_tenant = ''t9'',
     wd_organization = ''o9'', wd_member = ''m9'', wd_event = ''e9'', wd_slugs = [], wd_last_slug = ''ab'', wd_job = ''j9''\<rparr>"

definition sample_new_session :: session_draws where
  "sample_new_session = \<lparr>sd_id = ''s9'', sd_raw = ''raw9'', sd_csrf = ''csrf9'', sd_iv_refresh = ''a'', sd_iv_id_token = ''b''\<rparr>"

definition sample_claims :: "(string \<times> json) list" where
  "sample_claims = [(''sub'', JStr ''sub''), (''email'', JStr ''new@a.org''), (''email_verified'', JBool True)]"

definition sample_login :: login_row where
  "sample_login = \<lparr>lt_id = ''tx1'', lt_state_hash = sample_mac ''state-1'', lt_verifier_ciphertext = ''v'', lt_nonce_ciphertext = ''n'',
     lt_return_url = ''/app'', lt_mode = ''step-up:s1'', lt_created_at = 0, lt_expires_at = 900, lt_used_at = None\<rparr>"

definition waiting_db :: identity_db where
  "waiting_db = sample_identity_db\<lparr>id_logins := [sample_login]\<rparr>"

definition sample_invitation :: invitation_row where
  "sample_invitation = \<lparr>ti_id = ''inv'', ti_tenant_id = ''t1'', ti_email = ''new@a.org'', ti_role = ''DEVELOPER'', ti_token_hash = ''h'',
     ti_expires_at = 900, ti_accepted_at = None, ti_revoked_at = None, ti_created_by = ''u1'', ti_created_at = 0\<rparr>"

theorem callback_spends_transaction_witness:
  "\<exists>rq db'. db' \<noteq> waiting_db \<and>
     snd (oidc_callback sample_bff rq 5 sample_onboarding sample_new_session ''state-1'' None None (Some ''access_denied'') waiting_db) = db' \<and>
     oidc_callback sample_bff rq 6 sample_onboarding sample_new_session ''state-1'' (Some ''code'') None None db' =
       (Inl (HTTPException 410 ''oidc_state_invalid_or_used''), db')"
proof -
  obtain ops where "set_flow_cookie sample_bff sample_request ''state-1'' = Inr ops" using sample_flow_cookie by blast
  note cookie = set_flow_cookie_holds [OF sample_hex this, where rq' = sample_request and jar = "\<lambda>_. None"]
  let ?rq = "sample_request\<lparr>br_cookies := apply_cookies ops (\<lambda>_. None)\<rparr>"
  let ?db = "waiting_db\<lparr>id_logins := [sample_login\<lparr>lt_used_at := Some 5\<rparr>]\<rparr>"
  have l: "load_transaction sample_bff 5 ''state-1'' waiting_db = Inr sample_login"
    by (simp add: load_transaction_Inr login_by_state_def waiting_db_def sample_login_def sample_bff_def)
  have c: "claim_transaction 5 sample_login waiting_db = Inr ?db"
    by (simp add: claim_transaction_def count_rows_def claimable_login_def waiting_db_def sample_login_def)
  have "id_logins ?db \<noteq> id_logins waiting_db" by (simp add: waiting_db_def sample_login_def)
  then have ne: "?db \<noteq> waiting_db" by metis
  have o: "oidc_callback sample_bff ?rq 5 sample_onboarding sample_new_session ''state-1'' None None (Some ''access_denied'') waiting_db =
      (service_error sample_bff ?rq ''state-1'', ?db)"
    using l c cookie by (simp add: oidc_callback_def refused_action_def absent_def)
  show ?thesis
    using callback_spends_transaction [OF o disjI1 [OF ne], of ?rq 6 sample_onboarding sample_new_session "Some ''code''" None None] o ne
    by (intro exI [of _ ?rq] exI [of _ ?db]) (simp add: http_def)
qed

lemma sample_subject: "subject_of sample_bff sample_claims = ''sub''"
  by code_simp

theorem callback_person_is_subject_witness:
  "\<exists>db'. callback_person sample_bff 5 sample_onboarding ''login'' sample_claims sample_identity_db =
       Inr (None, sample_identity, hd (id_users sample_identity_db), sample_member, db') \<and>
     person_ok sample_identity_db ''sub'' sample_identity (hd (id_users sample_identity_db)) sample_member db'"
proof -
  have iss: "canonical_issuer (bf_env sample_bff) = Inr CANONICAL_ISSUER" by code_simp
  obtain db' where r: "callback_person sample_bff 5 sample_onboarding ''login'' sample_claims sample_identity_db =
       Inr (None, sample_identity, hd (id_users sample_identity_db), sample_member, db')"
    using iss sample_subject
    by (simp add: callback_person_def Let_def starts_with_def resolve_identity_context_def subject_of_def identity_of_claims_def
        sample_identity_db_def sample_identity_def returning_person_def get_user_def first_active_member_def absent_def
        active_member_def sample_member_def tenant_enabled_def get_tenant_def record_profile_def empty_identity_def)
  from callback_person_is_subject [OF r] r show ?thesis by (auto simp: sample_subject)
qed

theorem step_up_confined_witness:
  "\<exists>r db'. callback_work sample_bff sample_request 5 sample_onboarding sample_new_session sample_login [] sample_claims waiting_db = Inr (r, db') \<and>
     bs_identity_id r = ''i1'' \<and> bs_expires_at r \<le> 1000 \<and> id_sessions db' = [revoke 5 sample_session, r]"
proof -
  let ?db = "waiting_db\<lparr>id_logins := [sample_login\<lparr>lt_used_at := Some 5\<rparr>]\<rparr>" and ?u = "hd (id_users sample_identity_db)"
  have c: "claim_transaction 5 sample_login waiting_db = Inr ?db"
    by (simp add: claim_transaction_def count_rows_def claimable_login_def waiting_db_def sample_login_def)
  have iss: "canonical_issuer (bf_env sample_bff) = Inr CANONICAL_ISSUER" by code_simp
  have lp: "live_parent 5 ?db ''s1'' = Inr sample_session"
    by (simp add: live_parent_Inr get_session_def waiting_db_def sample_identity_db_def sample_session_def)
  have sp: "step_up_person sample_bff sample_session ''sub'' ?db = Inr (sample_identity, ?u, sample_member)"
    using iss by (simp add: step_up_person_def identity_of_claims_def waiting_db_def sample_identity_db_def sample_identity_def
        get_user_def active_member_def sample_member_def sample_session_def tenant_enabled_def get_tenant_def)
  have "strip ''sub'' = ''sub''" by code_simp
  then have "callback_person sample_bff 5 sample_onboarding (lt_mode sample_login) sample_claims ?db =
      Inr (Some sample_session, sample_identity, ?u, sample_member, ?db)"
    using lp sp sample_subject unfolding subject_of_def
    by (simp add: callback_person_def sample_login_def starts_with_def step_up_identity_def Let_def)
  note person = this
  obtain p where postal: "stage_postal 5 sample_onboarding (tm_tenant_id sample_member) ?db = Inr (?db\<lparr>id_postal := p\<rparr>)"
    by (simp add: stage_postal_def enqueue_postal_provisioning_def waiting_db_def sample_identity_db_def sample_member_def
        get_mapping_def latest_job_def ensure_job_def Let_def get_job_def)
  let ?db3 = "?db\<lparr>id_postal := p\<rparr>"
  obtain ttl where ttl: "session_ttl (bf_env sample_bff) = Inr ttl"
    using sample_idle by (auto simp: idle_timeout_def res_bind_Inr map_sum_Inr)
  have "live_parent 5 ?db3 ''s1'' = Inr sample_session" using lp by (simp add: live_parent_def get_session_def)
  moreover have "bs_id sample_session = ''s1''" by (simp add: sample_session_def)
  ultimately obtain r db' where session: "stage_session sample_bff sample_request 5 sample_new_session sample_identity ?u sample_member []
      (map_option bs_id (Some sample_session)) ?db3 = Inr (r, db')"
    using ttl
    by (simp add: stage_session_def session_row_of_def seal_token_def obj_get_def add_session_def insert_row_def
        session_clash_def waiting_db_def sample_identity_db_def)
      (simp add: sample_session_def sample_new_session_def sample_bff_def sample_mac_def)
  have "callback_work sample_bff sample_request 5 sample_onboarding sample_new_session sample_login [] sample_claims waiting_db =
      Inr (r, revoke_session 5 (bs_id sample_session) db')"
    using c person postal session by (simp add: callback_work_def)
  then obtain db'' where w: "callback_work sample_bff sample_request 5 sample_onboarding sample_new_session sample_login [] sample_claims
      waiting_db = Inr (r, db'')"
    by blast
  have g: "get_session waiting_db ''s1'' = Some sample_session"
    by (simp add: get_session_def waiting_db_def sample_identity_db_def sample_session_def)
  have "lt_mode sample_login = ''step-up:'' @ ''s1''" by (simp add: sample_login_def)
  from step_up_confined [OF w this] obtain p where p: "get_session waiting_db ''s1'' = Some p" "bs_identity_id r = bs_identity_id p"
    "bs_expires_at r \<le> bs_expires_at p" "id_sessions db'' = update_rows (\<lambda>x. bs_id x = ''s1'') (revoke 5) (id_sessions waiting_db) @ [r]"
    by blast
  then have "p = sample_session" using g by simp
  have rows': "update_rows (\<lambda>x. bs_id x = ''s1'') (revoke 5) (id_sessions waiting_db) = [revoke 5 sample_session]"
    by (simp add: waiting_db_def sample_identity_db_def) (simp add: sample_session_def)
  have "bs_identity_id r = ''i1''" "bs_expires_at r \<le> 1000" "id_sessions db'' = [revoke 5 sample_session, r]"
    using p(2-4) \<open>p = sample_session\<close> by (simp_all only: rows') (simp_all add: sample_session_def)
  then show ?thesis using w by (intro exI conjI)
qed

theorem invitation_grants_exact_role_witness:
  "\<exists>m db'. membership_for_invitation 5 sample_onboarding sample_invitation
       (\<lparr>us_id = ''u2'', us_tenant_id = ''t2'', us_email = ''new@a.org'', us_password_hash = [], us_role = ''tenant_user'',
         us_enabled = True\<rparr>) sample_identity_db = Inr (m, db') \<and>
     any_member db' ''t1'' ''u2'' = Some m \<and> tm_role m = ''DEVELOPER'' \<and> tm_active m \<and>
     membership_for_invitation 5 sample_onboarding sample_invitation (hd (id_users sample_identity_db)) sample_identity_db =
       Inl (HTTPException 409 ''invitation_existing_member_role_change_denied'')"
proof -
  let ?u = "\<lparr>us_id = ''u2'', us_tenant_id = ''t2'', us_email = ''new@a.org'', us_password_hash = [], us_role = ''tenant_user'',
    us_enabled = True\<rparr>"
  obtain m db' where r: "membership_for_invitation 5 sample_onboarding sample_invitation ?u sample_identity_db = Inr (m, db')"
    by (simp add: membership_for_invitation_def Let_def any_member_def sample_identity_db_def sample_member_def sample_invitation_def
        add_member_def insert_row_def member_clash_def new_member_def sample_onboarding_def)
  have d: "distinct (map tm_id (id_members sample_identity_db))" by (simp add: sample_identity_db_def)
  have "any_member sample_identity_db (ti_tenant_id sample_invitation) (us_id (hd (id_users sample_identity_db))) = Some sample_member \<and>
      tm_active sample_member \<and> tm_role sample_member \<noteq> ti_role sample_invitation"
    by (simp add: any_member_def sample_identity_db_def sample_member_def sample_invitation_def)
  then have "membership_for_invitation 5 sample_onboarding sample_invitation (hd (id_users sample_identity_db)) sample_identity_db =
      Inl (http 409 ''invitation_existing_member_role_change_denied'')"
    using invitation_grants_exact_role [OF d, of 5 sample_onboarding sample_invitation "hd (id_users sample_identity_db)"] by blast
  moreover have "any_member db' ''t1'' ''u2'' = Some m \<and> tm_role m = ''DEVELOPER'' \<and> tm_active m"
    using invitation_grants_exact_role [OF d, of 5 sample_onboarding sample_invitation ?u, THEN conjunct1, THEN spec, THEN spec, THEN mp, OF r]
    by (simp add: sample_invitation_def)
  ultimately show ?thesis using r by (intro exI [of _ m] exI [of _ db'] conjI) (simp_all add: http_def)
qed

theorem disabled_identity_raises_witness:
  "resolve_identity_context sample_bff 5 sample_onboarding sample_claims
     (sample_identity_db\<lparr>id_identities := [sample_identity\<lparr>oi_enabled := False\<rparr>]\<rparr>) = Inl (IntegrityError ''oidc_identities'')"
proof -
  have iss: "canonical_issuer (bf_env sample_bff) = Inr CANONICAL_ISSUER" by code_simp
  have e: "claim_email sample_bff sample_claims = ''new@a.org''" by code_simp
  show ?thesis
    by (rule disabled_identity_raises [OF iss, where j = "sample_identity\<lparr>oi_enabled := False\<rparr>"])
      (simp_all add: sample_subject e, simp_all add: sample_identity_def identity_of_claims_def sample_claims_def obj_get_def
        sample_identity_db_def sample_onboarding_def get_tenant_def)
qed

end
