(* ===== verification/SessionHistory.thy ===== *)
theory SessionHistory
  imports OidcCallback
begin

text \<open>
  Everything that writes the session table, in any order: the requests of \<open>BrowserSessions\<close> and the
  callback of \<open>OidcCallback\<close>, which opens sessions. The table refines a store of live sessions with
  three kinds of steps, and an ended session stays ended.
\<close>

section \<open>The steps\<close>

datatype browser_op =
    Request session_op
  | Callback bff_env browser_request int onboarding_draws session_draws string "string option" "string option" "string option"

fun browser_step :: "browser_op \<Rightarrow> identity_db \<Rightarrow> identity_db" where
  "browser_step (Request op) db = session_step op db"
| "browser_step (Callback B rq t w d state code action_status error) db =
     snd (oidc_callback B rq t w d state code action_status error db)"

fun browser_drawn :: "browser_op \<Rightarrow> bool" where
  "browser_drawn (Request op) = drawn op"
| "browser_drawn (Callback B rq t w d state code action_status error) = (sd_id d \<noteq> [])"

text \<open>
  The contract. Every step may forget live sessions; a refresh, a workspace switch and the callback of a
  step-up may exchange one for a new token of the same person that ends no later; the callback of any
  other transaction may open one under a token that was not in use.
\<close>

datatype step_kind = Closing | Exchanging | Opening

inductive store_trans :: "step_kind \<Rightarrow> (string \<rightharpoonup> live) \<Rightarrow> (string \<rightharpoonup> live) \<Rightarrow> bool" where
  Forgotten: "A' \<subseteq>\<^sub>m A \<Longrightarrow> store_trans kind A A'"
| Exchanged: "A k = Some v \<Longrightarrow> A k' = None \<Longrightarrow> lv_user v' = lv_user v \<Longrightarrow> lv_identity v' = lv_identity v \<Longrightarrow>
    lv_deadline v' \<le> lv_deadline v \<Longrightarrow> A' \<subseteq>\<^sub>m (A(k := None))(k' \<mapsto> v') \<Longrightarrow> store_trans Exchanging A A'"
| Opened: "A k = None \<Longrightarrow> A' \<subseteq>\<^sub>m A(k \<mapsto> v) \<Longrightarrow> store_trans Opening A A'"

inductive_cases closing_cases: "store_trans Closing A A'"

fun request_kind :: "session_op \<Rightarrow> step_kind" where
  "request_kind (Refresh B rq t d header) = Exchanging"
| "request_kind (SwitchTenant B rq t d header tid) = Exchanging"
| "request_kind _ = Closing"

fun kind_of :: "identity_db \<Rightarrow> browser_op \<Rightarrow> step_kind" where
  "kind_of db (Request op) = request_kind op"
| "kind_of db (Callback B rq t w d state code action_status error) =
     (case login_by_state B state db of
        None \<Rightarrow> Closing
      | Some l \<Rightarrow> if starts_with ''step-up:'' (lt_mode l) then Exchanging else Opening)"

section \<open>What each step does to the table\<close>

lemma guarded_closes:
  assumes "\<And>r db1. closes db1 (snd (body r db1))"
  shows "closes db (snd (guarded B rq t header body db))"
proof (cases "csrf_guard B rq t header db")
  case (Pair res db1)
  then have "closes db db1" using csrf_guard_closes [of db B rq t header] by simp
  then show ?thesis using Pair assms closes_trans by (cases res) (auto simp: guarded_def)
qed

lemma closing_request:
  assumes "request_kind op = Closing"
  shows "closes db (session_step op db)"
proof (cases op)
  case (RevokeOne B rq t header sid)
  show ?thesis
    unfolding RevokeOne session_step.simps revoke_user_session_def
    by (rule guarded_closes) (simp split: option.split)
next
  case (Logout B rq t header)
  show ?thesis
    unfolding Logout session_step.simps logout_def by (rule guarded_closes) (simp split: sum.split)
next
  case (LogoutAll B rq t header)
  show ?thesis
    unfolding LogoutAll session_step.simps logout_all_def by (rule guarded_closes) (simp add: logout_all_closes)
qed (use assms session_status_closes browser_context_closes list_user_sessions_closes closes_rows in simp_all)

definition opens :: "identity_db \<Rightarrow> identity_db \<Rightarrow> bool" where
  "opens db db' \<longleftrightarrow>
     (\<exists>n. id_sessions db' = id_sessions db @ [n] \<and> (\<forall>r \<in> set (id_sessions db). \<not> session_clash n r) \<and>
        bs_rotated_from_id n = None \<and> bs_id n \<noteq> [])"

lemma claimed_sessions: "claim_transaction t l db = Inr db1 \<Longrightarrow> id_sessions db1 = id_sessions db"
  by (auto simp: claim_transaction_Inr)

lemma callback_work_opens:
  assumes "callback_work B rq t w d l tokens claims db = Inr (r, db')" and "\<not> starts_with ''step-up:'' (lt_mode l)"
    and "sd_id d \<noteq> []"
  shows "opens db db'"
proof (rule callback_work_Inr [OF assms(1)])
  fix db1 old i u m db2 pp
  assume c: "claim_transaction t l db = Inr db1" and cp: "callback_person B t w (lt_mode l) claims db1 = Inr (old, i, u, m, db2)"
    and st: "stage_session B rq t d i u m tokens (map_option bs_id old) (db2\<lparr>id_postal := pp\<rparr>) =
           Inr (r, db2\<lparr>id_postal := pp, id_sessions := id_sessions db2 @ [r]\<rparr>)"
    and db': "db' = (case old of None \<Rightarrow> db2\<lparr>id_postal := pp, id_sessions := id_sessions db2 @ [r]\<rparr>
       | Some parent \<Rightarrow> revoke_session t (bs_id parent) (db2\<lparr>id_postal := pp, id_sessions := id_sessions db2 @ [r]\<rparr>))"
  have old: "old = None" using cp assms(2) by (auto simp: callback_person_def map_sum_Inr split: if_splits)
  have rows: "id_sessions db2 = id_sessions db"
    using claimed_sessions [OF c] callback_person_same [OF cp] by (simp add: same_logins_sessions_def)
  show "opens db db'"
    using stage_session_Inr [OF st] assms(3) unfolding opens_def db' old
    by (intro exI [of _ r]) (simp add: rows)
qed

lemma callback_work_rotates:
  assumes "callback_work B rq t w d l tokens claims db = Inr (r, db')" and "lt_mode l = ''step-up:'' @ sid"
    and "sd_id d \<noteq> []"
  shows "rotates db db'"
proof -
  obtain p where p: "get_session db sid = Some p" "bs_revoked_at p = None" "bs_identity_id r = bs_identity_id p"
      "bs_user_id r = bs_user_id p" "bs_expires_at r \<le> bs_expires_at p"
      "id_sessions db' = update_rows (\<lambda>x. bs_id x = sid) (revoke t) (id_sessions db) @ [r]" "bs_revoked_at r = None"
      "bs_id r = sd_id d" "bs_rotated_from_id r = Some sid" "\<forall>x \<in> set (id_sessions db). \<not> session_clash r x"
    using step_up_work [OF assms(1,2)] by blast
  have id: "bs_id p = sid" "p \<in> set (id_sessions db)" using get_session_id [OF p(1)] by simp_all
  show ?thesis
    unfolding rotates_def
  proof (intro exI conjI)
    show "id_sessions db' = map (\<lambda>x. if bs_id x = sid then revoke t x else x) (id_sessions db) @ [r]"
      by (simp add: p(6) update_rows_def)
    show "replaces p r" using p id by (simp add: replaces_def)
  qed (use p id assms(3) in \<open>auto simp: revoke_def session_kept_def\<close>)
qed

lemma callback_table:
  assumes "sd_id d \<noteq> []"
  shows "case kind_of db (Callback B rq t w d state code action_status error) of
      Closing \<Rightarrow> closes db (browser_step (Callback B rq t w d state code action_status error) db)
    | Exchanging \<Rightarrow> closes db (browser_step (Callback B rq t w d state code action_status error) db) \<or>
        rotates db (browser_step (Callback B rq t w d state code action_status error) db)
    | Opening \<Rightarrow> closes db (browser_step (Callback B rq t w d state code action_status error) db) \<or>
        opens db (browser_step (Callback B rq t w d state code action_status error) db)"
proof (cases "res_bind (load_transaction B t state db) (\<lambda>l. map_sum id (\<lambda>_. l) (require_flow_cookie B rq state))")
  case (Inl e)
  then show ?thesis by (simp add: oidc_callback_def split: step_kind.split)
next
  case (Inr l)
  then have l: "login_by_state B state db = Some l"
    by (auto simp: res_bind_Inr map_sum_Inr load_transaction_Inr)
  show ?thesis
  proof (cases "refused_action l code action_status error")
    case True
    have "closes db (case claim_transaction t l db of Inl e \<Rightarrow> db | Inr db' \<Rightarrow> db')"
      using claimed_sessions closes_rows by (auto split: sum.split)
    then show ?thesis
      using Inr True by (auto simp: oidc_callback_def split: step_kind.split sum.splits)
  next
    case False
    show ?thesis
    proof (cases "res_bind (callback_tokens B rq (the code) l) (\<lambda>(tokens, claims). callback_work B rq t w d l tokens claims db)")
      case (Inl e)
      then show ?thesis using Inr False by (simp add: oidc_callback_def split: step_kind.split)
    next
      case (Inr made)
      then obtain r db' tokens claims where made: "made = (r, db')" "callback_work B rq t w d l tokens claims db = Inr (r, db')"
        by (cases made) (auto simp: res_bind_Inr)
      have out: "browser_step (Callback B rq t w d state code action_status error) db = db'"
        using \<open>res_bind (load_transaction B t state db) _ = Inr l\<close> False Inr made(1) by (simp add: oidc_callback_def)
      show ?thesis
      proof (cases "starts_with ''step-up:'' (lt_mode l)")
        case True
        then have "lt_mode l = ''step-up:'' @ drop (length ''step-up:'') (lt_mode l)"
          using append_take_drop_id [of "length ''step-up:''" "lt_mode l"] unfolding starts_with_def by metis
        from callback_work_rotates [OF made(2) this assms] show ?thesis using l True out by simp
      next
        case step: False
        from callback_work_opens [OF made(2) step assms] show ?thesis using l step out by simp
      qed
    qed
  qed
qed

section \<open>The refinement\<close>

lemma closes_trans_store: "closes db db' \<Longrightarrow> store_trans kind (session_store db) (session_store db')"
  by (rule Forgotten) (rule closes_store)

lemma rotates_trans_store:
  assumes "rotates db db'" and "distinct (map bs_token_hash (id_sessions db))"
  shows "store_trans Exchanging (session_store db) (session_store db')"
  using rotates_store [OF assms] unfolding store_step_iff by (blast intro: Forgotten Exchanged)

lemma opens_trans_store:
  assumes "opens db db'"
  shows "store_trans Opening (session_store db) (session_store db')"
proof -
  obtain n where n: "id_sessions db' = id_sessions db @ [n]" "\<forall>r \<in> set (id_sessions db). \<not> session_clash n r"
    using assms unfolding opens_def by blast
  have fresh: "session_by_token db (bs_token_hash n) = None"
    using n(2) by (auto simp: session_by_token_def find_row_None session_clash_def)
  have look: "session_by_token db' h = (case session_by_token db h of Some r \<Rightarrow> Some r
      | None \<Rightarrow> if bs_token_hash n = h then Some n else None)" for h
    by (simp add: session_by_token_def n(1) find_row_append split: option.split)
  show ?thesis
  proof (cases "live_of n")
    case None
    then have "session_store db' \<subseteq>\<^sub>m session_store db"
      by (intro submapI) (auto simp: session_store_def look split: option.splits if_splits)
    then show ?thesis by (rule Forgotten)
  next
    case (Some v)
    have "session_store db' \<subseteq>\<^sub>m (session_store db)(bs_token_hash n \<mapsto> v)"
      using Some fresh by (intro submapI) (auto simp: session_store_def look split: option.splits if_splits)
    moreover have "session_store db (bs_token_hash n) = None" by (simp add: session_store_def fresh)
    ultimately show ?thesis by (intro Opened)
  qed
qed

lemma browser_step_table:
  assumes "sessions_named db" and "browser_drawn op"
  shows "case kind_of db op of Closing \<Rightarrow> closes db (browser_step op db)
    | Exchanging \<Rightarrow> closes db (browser_step op db) \<or> rotates db (browser_step op db)
    | Opening \<Rightarrow> closes db (browser_step op db) \<or> opens db (browser_step op db)"
proof (cases op)
  case (Request x)
  then show ?thesis
    using closing_request [of x db] session_step_table [OF assms(1), of x] assms(2)
    by (cases x) (auto simp: sessions_step_def)
next
  case (Callback B rq t w d state code action_status error)
  show ?thesis unfolding Callback by (rule callback_table) (use Callback assms(2) in simp)
qed

text \<open>
  C11. Everything that writes the session table refines the abstract store of live sessions: whatever a
  request does, on every branch and for every answer of the identity provider, the live sessions only
  shrink, except that a refresh, a workspace switch or the callback of a step-up may exchange one live
  token for one new token of the same user and identity whose deadline is not later, and the callback of
  any other login may open one session under a token that named none. The table is in order at the start
  (one row per token and identifier, no empty identifier, and a session that replaced another names an
  ended one of its user that was not to end earlier; every step keeps this), and drawn identifiers are
  not empty.
\<close>

theorem session_step_refines:
  assumes "sessions_inv db" and "browser_drawn op"
  shows "store_trans (kind_of db op) (session_store db) (session_store (browser_step op db))"
  using browser_step_table [OF _ assms(2), of db] assms(1) rotates_trans_store opens_trans_store closes_trans_store
  unfolding sessions_inv_def sessions_ok_def by (auto split: step_kind.splits)

section \<open>An ended session\<close>

lemma opens_inv:
  assumes "opens db db'" and "sessions_inv db"
  shows "sessions_inv db'"
proof -
  obtain n where n: "id_sessions db' = id_sessions db @ [n]" "\<forall>r \<in> set (id_sessions db). \<not> session_clash n r"
      "bs_rotated_from_id n = None" "bs_id n \<noteq> []"
    using assms(1) unfolding opens_def by blast
  show ?thesis
    using assms(2) n unfolding sessions_inv_def sessions_named_def sessions_ok_def
    by (auto simp: session_clash_def)
qed

definition drawn_step :: "browser_op \<Rightarrow> identity_db \<Rightarrow> identity_db" where
  "drawn_step op db = (if browser_drawn op then browser_step op db else db)"

lemma drawn_run: "\<forall>op \<in> set ops. browser_drawn op \<Longrightarrow> run_ops drawn_step ops db = run_ops browser_step ops db"
  by (induction ops arbitrary: db) (auto simp: drawn_step_def)

lemma drawn_step_row:
  assumes "sessions_inv db"
  shows "sessions_inv (drawn_step op db)"
    and "session_by_token db h = Some r \<Longrightarrow> \<exists>s. session_by_token (drawn_step op db) h = Some s \<and> session_kept r s"
proof -
  consider "drawn_step op db = db" | "sessions_step db (drawn_step op db)" | "opens db (drawn_step op db)"
    using browser_step_table [of db op] assms unfolding sessions_inv_def sessions_step_def drawn_step_def
    by (cases "browser_drawn op") (auto split: step_kind.splits)
  note cases = this
  show "sessions_inv (drawn_step op db)"
    using cases
  proof cases
    case 2
    then show ?thesis
      using sessions_step_named [OF 2] closes_ok rotates_ok assms unfolding sessions_step_def sessions_inv_def by blast
  qed (use assms opens_inv in auto)
  assume r: "session_by_token db h = Some r"
  show "\<exists>s. session_by_token (drawn_step op db) h = Some s \<and> session_kept r s"
    using cases
  proof cases
    case 2
    from sessions_step_row [OF this r] show ?thesis .
  next
    case 3
    then show ?thesis
      using r by (auto simp: opens_def session_by_token_def find_row_append session_rows.ok_refl)
  qed (use r session_rows.ok_refl in auto)
qed

definition session_final :: "session_row \<Rightarrow> bool" where
  "session_final r \<longleftrightarrow> bs_revoked_at r \<noteq> None"

interpretation ended: settled_rows drawn_step sessions_inv session_by_token session_final bs_id
  by unfold_locales (use drawn_step_row in \<open>fastforce simp: session_final_def session_kept_def\<close>)+

text \<open>
  C15. An ended session never comes back: once the row that a cookie names is revoked (by logout,
  rotation, expiry, idleness or a lost authority), the session check fails with 401 for every later
  request with that cookie, so no route behind it runs and the status route reports nobody signed in,
  whatever requests, sign-ins, step-ups, tenants, identities and providers do in between (same order of
  the table, and drawn identifiers, as in the refinement).
\<close>

theorem revoked_session_dead:
  assumes "sessions_inv db" and "\<forall>op \<in> set ops. browser_drawn op"
    and "cookie_text (br_cookies rq) SESSION_COOKIE \<noteq> []"
    and "session_by_token db (bf_sha B (cookie_text (br_cookies rq) SESSION_COOKIE)) = Some r" and "bs_revoked_at r \<noteq> None"
  shows "let db' = run_ops browser_step ops db; refusal = HTTPException 401 ''session_revoked'' in
    get_browser_session B rq t touch db' = (Inl refusal, db') \<and> browser_context B rq t db' = (Inl refusal, db') \<and>
    guarded B rq t header body db' = (Inl refusal, db') \<and>
    session_status B rq t db' = (Inr (json_answer [(''authenticated'', JBool False)] []), db')"
proof -
  let ?db = "run_ops browser_step ops db"
  obtain r' where "session_by_token ?db (bf_sha B (cookie_text (br_cookies rq) SESSION_COOKIE)) = Some r'"
    and "session_final r'"
    using ended.settled_run [OF assms(1,4), of ops] assms(5) unfolding drawn_run [OF assms(2)]
    by (auto simp: session_final_def)
  then have "get_browser_session B rq t' touch' ?db = (Inl (HTTPException 401 ''session_revoked''), ?db)" for t' touch'
    using assms(3) by (simp add: get_browser_session_def original_get_session_def session_final_def Let_def http_def)
  then show ?thesis by (simp add: browser_context_def guarded_def csrf_guard_def session_status_def Let_def)
qed

section \<open>Concrete runs\<close>

definition sample_callback :: browser_op where
  "sample_callback = Callback sample_bff sample_request 6 sample_onboarding sample_new_session ''state-1'' (Some ''code'') None None"

theorem session_step_refines_witness:
  "store_trans Exchanging (session_store waiting_db) (session_store (browser_step sample_callback waiting_db)) \<and>
   store_trans Closing (session_store sample_identity_db)
     (session_store (browser_step (Request (LogoutAll sample_bff signed_in 5 ''csrf2'')) sample_identity_db))"
proof -
  have "sessions_inv waiting_db"
    using sample_sessions_inv by (simp add: sessions_inv_def sessions_named_def sessions_ok_def waiting_db_def)
  moreover have "browser_drawn sample_callback" by (simp add: sample_callback_def sample_new_session_def)
  moreover have "kind_of waiting_db sample_callback = Exchanging"
    by (simp add: sample_callback_def login_by_state_def waiting_db_def sample_login_def sample_bff_def starts_with_def)
  ultimately show ?thesis
    using session_step_refines [of waiting_db sample_callback] sample_sessions_inv
      session_step_refines [of sample_identity_db "Request (LogoutAll sample_bff signed_in 5 ''csrf2'')"]
    by (simp del: browser_step.simps)
qed

theorem revoked_session_dead_witness:
  "\<exists>db'. run_ops browser_step [Request (Status sample_bff signed_in 7), sample_callback]
       (sample_identity_db\<lparr>id_sessions := [revoke 6 sample_session]\<rparr>) = db' \<and>
     get_browser_session sample_bff signed_in 9 True db' = (Inl (HTTPException 401 ''session_revoked''), db') \<and>
     session_status sample_bff signed_in 9 db' = (Inr (json_answer [(''authenticated'', JBool False)] []), db')"
proof -
  let ?db = "sample_identity_db\<lparr>id_sessions := [revoke 6 sample_session]\<rparr>"
    and ?ops = "[Request (Status sample_bff signed_in 7), sample_callback]"
  have inv: "sessions_inv ?db"
    by (simp add: sessions_inv_def sessions_named_def sessions_ok_def sample_session_def revoke_def)
  have drawn: "\<forall>op \<in> set ?ops. browser_drawn op" by (simp add: sample_callback_def sample_new_session_def)
  have cookie: "cookie_text (br_cookies signed_in) SESSION_COOKIE \<noteq> []" by (simp add: signed_in_def cookie_text_def)
  have row: "session_by_token ?db (bf_sha sample_bff (cookie_text (br_cookies signed_in) SESSION_COOKIE)) = Some (revoke 6 sample_session)"
    by (simp add: session_by_token_def sample_session_def sample_bff_def revoke_def signed_in_def cookie_text_def)
  have "bs_revoked_at (revoke 6 sample_session) \<noteq> None" by (simp add: revoke_def)
  from revoked_session_dead [OF inv drawn cookie row this, of 9 True, unfolded Let_def] show ?thesis by blast
qed

end
