(* ===== verification/PlatformOwner.thy ===== *)
theory PlatformOwner
  imports BrowserSessions
begin

text \<open>
  The gate in front of platform-wide authority: the policy on the single configured owner identity
  (\<open>platform_owner_policy.py\<close>), its enforcement for browser sessions, in the outer middleware and in
  the guard of every browser route (\<open>platform_owner.py\<close>), and for bearer callers
  (\<open>platform_owner_api.py\<close>). Mailbox validation, the decoding of a stored token and the algorithm
  named in a token's header are functions of the environment; row locks do not show in one
  transaction's result.
\<close>

section \<open>Policy (\<open>platform_owner_policy.py\<close>)\<close>

definition MFA_POSSESSION :: "string list" where
  "MFA_POSSESSION = [''fido'', ''fido2'', ''hwk'', ''otp'', ''swk'', ''totp'', ''webauthn'']"

definition MFA_KNOWLEDGE :: "string list" where
  "MFA_KNOWLEDGE = [''pin'', ''pwd'']"

record owner_config =
  ow_issuer :: string
  ow_subject :: string
  ow_email :: string
  ow_max_age :: int
  ow_acr_values :: "string list"

definition owner_max_age :: "env \<Rightarrow> int res" where
  "owner_max_age e =
     (case int_of_string (strip (env_get e ''KLYROW_PLATFORM_OWNER_STEP_UP_MAX_AGE_SECONDS'' ''300'')) of
        None \<Rightarrow> Inl (PlatformOwnerError 503 ''platform_owner_step_up_misconfigured'')
      | Some n \<Rightarrow> if \<not> (60 \<le> n \<and> n \<le> 900)
                  then Inl (PlatformOwnerError 503 ''platform_owner_step_up_misconfigured'') else Inr n)"

definition owner_acr_values :: "env \<Rightarrow> string list res" where
  "owner_acr_values e =
     (let values = filter (\<lambda>v. v \<noteq> [])
            (map strip (split_on (CHR '','') (env_get e ''KLYROW_PLATFORM_OWNER_REQUIRED_ACR_VALUES'' [])));
          approved = lower (strip (env_get e ''KLYROW_PLATFORM_OWNER_ACR_MFA_EVIDENCE_APPROVED'' ''false''))
      in if approved \<notin> {''true'', ''false''} then Inl (PlatformOwnerError 503 ''platform_owner_acr_misconfigured'')
         else if approved = ''true''
         then (if values = [] then Inl (PlatformOwnerError 503 ''platform_owner_acr_misconfigured'') else Inr values)
         else Inr [])"

definition owner_config_from :: "(string \<Rightarrow> string option) \<Rightarrow> env \<Rightarrow> string \<Rightarrow> owner_config res" where
  "owner_config_from mailbox e canonical =
     (let iss = strip (env_get e ''KLYROW_PLATFORM_OWNER_ISSUER'' []);
          subject = strip (env_get e ''KLYROW_PLATFORM_OWNER_SUBJECT'' []);
          email = lower (strip (env_get e ''KLYROW_PLATFORM_OWNER_EMAIL'' []))
      in if iss = [] \<or> subject = [] \<or> email = [] then Inl (PlatformOwnerError 503 ''platform_owner_not_configured'')
         else if iss \<noteq> canonical then Inl (PlatformOwnerError 503 ''platform_owner_issuer_misconfigured'')
         else if 255 < length subject \<or> CHR 0x0D \<in> set subject \<or> CHR 0x0A \<in> set subject
         then Inl (PlatformOwnerError 503 ''platform_owner_subject_misconfigured'')
         else if map_option lower (mailbox email) \<noteq> Some email
         then Inl (PlatformOwnerError 503 ''platform_owner_email_misconfigured'')
         else res_bind (owner_max_age e) (\<lambda>max_age.
                res_bind (owner_acr_values e) (\<lambda>acr. Inr
                  \<lparr>ow_issuer = iss, ow_subject = subject, ow_email = email, ow_max_age = max_age,
                   ow_acr_values = acr\<rparr>)))"

definition claims_invalid :: exn where
  "claims_invalid = PlatformOwnerError 403 ''platform_owner_claims_invalid''"

text \<open>Only \<open>TypeError\<close> and \<open>ValueError\<close> are caught.\<close>

definition integer_claim :: "(string \<times> json) list \<Rightarrow> string \<Rightarrow> int res" where
  "integer_claim claims name =
     (case obj_get claims name of
        JBool b \<Rightarrow> Inl claims_invalid
      | v \<Rightarrow> (case json_int v of
                Inl (TypeError _) \<Rightarrow> Inl claims_invalid
              | Inl (ValueError _) \<Rightarrow> Inl claims_invalid
              | r \<Rightarrow> r))"

definition amr_values :: "(json \<Rightarrow> string) \<Rightarrow> (string \<times> json) list \<Rightarrow> string list" where
  "amr_values repr_of claims =
     (case map_of claims ''amr'' of
        Some (JStr s) \<Rightarrow> [lower s]
      | Some (JList vs) \<Rightarrow> map (\<lambda>v. lower (json_str repr_of v)) vs
      | _ \<Rightarrow> [])"

definition mfa_present :: "(json \<Rightarrow> string) \<Rightarrow> (string \<times> json) list \<Rightarrow> string list \<Rightarrow> bool" where
  "mfa_present repr_of claims acr =
     (let amr = amr_values repr_of claims
      in ''mfa'' \<in> set amr \<or>
         (\<exists>k \<in> set MFA_KNOWLEDGE. k \<in> set amr) \<and> (\<exists>p \<in> set MFA_POSSESSION. p \<in> set amr) \<or>
         claim_text repr_of claims ''acr'' \<in> set acr)"

definition claim_times :: "owner_config \<Rightarrow> (string \<times> json) list \<Rightarrow> int \<Rightarrow> unit res" where
  "claim_times c claims now_epoch =
     res_bind (integer_claim claims ''iat'') (\<lambda>issued_at.
       res_bind (integer_claim claims ''exp'') (\<lambda>expires_at.
         res_bind (integer_claim claims ''auth_time'') (\<lambda>auth_time.
           if now_epoch + 30 < issued_at \<or> now_epoch + 30 < auth_time then Inl claims_invalid
           else if expires_at \<le> now_epoch then Inl (PlatformOwnerError 401 ''platform_owner_token_expired'')
           else if ow_max_age c < now_epoch - auth_time
           then Inl (PlatformOwnerError 403 ''platform_owner_step_up_required'')
           else Inr ())))"

definition validate_owner_claims ::
  "(json \<Rightarrow> string) \<Rightarrow> owner_config \<Rightarrow> string \<Rightarrow> string \<Rightarrow> (string \<times> json) list \<Rightarrow> int \<Rightarrow> unit res" where
  "validate_owner_claims repr_of c identity_issuer identity_subject claims now_epoch =
     (if identity_issuer \<noteq> ow_issuer c \<or> identity_subject \<noteq> ow_subject c \<or>
         claim_text repr_of claims ''iss'' \<noteq> ow_issuer c \<or> claim_text repr_of claims ''sub'' \<noteq> ow_subject c
      then Inl (PlatformOwnerError 403 ''platform_owner_identity_mismatch'')
      else if obj_get claims ''email_verified'' \<noteq> JBool True \<or>
              lower (strip (claim_text repr_of claims ''email'')) \<noteq> ow_email c
      then Inl (PlatformOwnerError 403 ''platform_owner_email_unverified'')
      else if \<not> mfa_present repr_of claims (ow_acr_values c)
      then Inl (PlatformOwnerError 403 ''platform_owner_mfa_required'')
      else claim_times c claims now_epoch)"

section \<open>Browser sessions (\<open>platform_owner.py\<close>)\<close>

definition stored_claims :: "bff_env \<Rightarrow> session_row \<Rightarrow> (string \<times> json) list res" where
  "stored_claims B r =
     (if absent (bs_id_token_ciphertext r)
      then Inl (PlatformOwnerError 403 ''platform_owner_reauthentication_required'')
      else (case bf_open B (the (bs_id_token_ciphertext r)) of
              Inl _ \<Rightarrow> Inl (PlatformOwnerError 403 ''platform_owner_reauthentication_required'')
            | Inr raw \<Rightarrow>
                (case bf_peek B raw of
                   None \<Rightarrow> Inl (PlatformOwnerError 403 ''platform_owner_reauthentication_required'')
                 | Some (JObj claims) \<Rightarrow> Inr claims
                 | Some _ \<Rightarrow> Inl claims_invalid)))"

definition is_admin_role :: "string \<Rightarrow> bool" where
  "is_admin_role role \<longleftrightarrow> lower role = ''platform_admin''"

definition platform_role_present :: "session_row \<Rightarrow> user_row option \<Rightarrow> member_row option \<Rightarrow> bool" where
  "platform_role_present r u m \<longleftrightarrow>
     is_admin_role (bs_role r) \<or> (\<exists>u' \<in> set_option u. is_admin_role (us_role u')) \<or>
     (\<exists>m' \<in> set_option m. is_admin_role (tm_role m'))"

definition owner_proof ::
  "(string \<Rightarrow> string option) \<Rightarrow> bff_env \<Rightarrow> int \<Rightarrow> session_row \<Rightarrow> identity_row \<Rightarrow> unit res" where
  "owner_proof mailbox B t r i =
     (case canonical_issuer (bf_env B) of
        Inl _ \<Rightarrow> Inl (PlatformOwnerError 503 ''platform_owner_issuer_misconfigured'')
      | Inr canonical \<Rightarrow>
          res_bind (owner_config_from mailbox (bf_env B) canonical) (\<lambda>c.
            res_bind (stored_claims B r) (\<lambda>claims.
              validate_owner_claims (bf_repr B) c (oi_issuer i) (oi_subject i) claims (t div 1000000))))"

definition validate_owner_objects ::
  "(string \<Rightarrow> string option) \<Rightarrow> bff_env \<Rightarrow> int \<Rightarrow> bool \<Rightarrow> session_row \<Rightarrow> user_row option \<Rightarrow> member_row option
     \<Rightarrow> identity_row option \<Rightarrow> bool res" where
  "validate_owner_objects mailbox B t require_admin r user member identity =
     (case user of
        None \<Rightarrow> Inl (PlatformOwnerError 403 ''platform_owner_account_disabled'')
      | Some u \<Rightarrow>
          (if \<not> us_enabled u \<or> us_id u \<noteq> bs_user_id r
           then Inl (PlatformOwnerError 403 ''platform_owner_account_disabled'')
           else (case member of
                   None \<Rightarrow> Inl (PlatformOwnerError 403 ''platform_owner_membership_mismatch'')
                 | Some m \<Rightarrow>
                     (if \<not> tm_active m \<or> tm_user_id m \<noteq> bs_user_id r \<or> tm_tenant_id m \<noteq> bs_tenant_id r
                      then Inl (PlatformOwnerError 403 ''platform_owner_membership_mismatch'')
                      else (case identity of
                              None \<Rightarrow> Inl (PlatformOwnerError 403 ''platform_owner_identity_mismatch'')
                            | Some i \<Rightarrow>
                                (if \<not> oi_enabled i \<or> oi_id i \<noteq> bs_identity_id r \<or> oi_user_id i \<noteq> bs_user_id r
                                 then Inl (PlatformOwnerError 403 ''platform_owner_identity_mismatch'')
                                 else if require_admin \<and> \<not> is_admin_role (us_role u)
                                 then Inl (PlatformOwnerError 403 ''platform_admin_required'')
                                 else if \<not> require_admin \<and> \<not> platform_role_present r user member then Inr False
                                 else map_sum id (\<lambda>_. True) (owner_proof mailbox B t r i)))))))"

definition session_objects_valid ::
  "(string \<Rightarrow> string option) \<Rightarrow> bff_env \<Rightarrow> int \<Rightarrow> bool \<Rightarrow> identity_db \<Rightarrow> session_row \<Rightarrow> bool res" where
  "session_objects_valid mailbox B t require_admin db r =
     validate_owner_objects mailbox B t require_admin r (get_user db (bs_user_id r))
       (active_member db (bs_tenant_id r) (bs_user_id r)) (get_identity db (bs_identity_id r))"

definition validate_raw_session ::
  "(string \<Rightarrow> string option) \<Rightarrow> bff_env \<Rightarrow> int \<Rightarrow> string \<Rightarrow> identity_db \<Rightarrow> unit res" where
  "validate_raw_session mailbox B t raw db =
     (case session_by_token db (bf_sha B raw) of
        None \<Rightarrow> Inr ()
      | Some r \<Rightarrow> if bs_revoked_at r \<noteq> None then Inr ()
                  else map_sum id (\<lambda>_. ()) (session_objects_valid mailbox B t False db r))"

definition as_http :: "'a res \<Rightarrow> 'a res" where
  "as_http r = (case r of Inl (PlatformOwnerError code detail) \<Rightarrow> Inl (HTTPException code detail) | _ \<Rightarrow> r)"

definition is_browser_api_path :: "string \<Rightarrow> bool" where
  "is_browser_api_path path \<longleftrightarrow> starts_with ''/app/api/'' path"

definition is_browser_admin_path :: "string \<Rightarrow> bool" where
  "is_browser_admin_path path \<longleftrightarrow> path = ''/app/api/admin'' \<or> starts_with ''/app/api/admin/'' path"

text \<open>The outer middleware: whether the request goes on to the routes.\<close>

definition owner_middleware ::
  "(string \<Rightarrow> string option) \<Rightarrow> bff_env \<Rightarrow> int \<Rightarrow> browser_request \<Rightarrow> identity_db \<Rightarrow> unit res" where
  "owner_middleware mailbox B t rq db =
     (let raw = cookie_text (br_cookies rq) SESSION_COOKIE
      in if is_browser_api_path (br_path rq) \<and> raw \<noteq> [] then as_http (validate_raw_session mailbox B t raw db)
         else Inr ())"

definition locked_authority :: "int \<Rightarrow> browser_ctx \<Rightarrow> identity_db \<Rightarrow> session_row res" where
  "locked_authority t c db =
     (if bc_sid c = [] then Inl (PlatformOwnerError 401 ''authentication_required'')
      else (case get_session db (bc_sid c) of
              None \<Rightarrow> Inl (PlatformOwnerError 401 ''session_revoked'')
            | Some r \<Rightarrow>
                if bs_revoked_at r \<noteq> None then Inl (PlatformOwnerError 401 ''session_revoked'')
                else if bs_expires_at r \<le> t then Inl (PlatformOwnerError 401 ''session_expired'')
                else if bs_user_id r \<noteq> bc_sub c \<or> bs_tenant_id r \<noteq> bc_tenant c \<or> bs_identity_id r \<noteq> bc_identity_id c
                then Inl (PlatformOwnerError 403 ''platform_owner_session_mismatch'')
                else Inr r))"

text \<open>
  The guard of every browser route: the context with the role of the locked membership, and whether
  the owner was proved.
\<close>

definition role_stability_guard ::
  "(string \<Rightarrow> string option) \<Rightarrow> bff_env \<Rightarrow> int \<Rightarrow> browser_request \<Rightarrow> browser_ctx \<Rightarrow> identity_db
     \<Rightarrow> (browser_ctx \<times> bool) res" where
  "role_stability_guard mailbox B t rq c db =
     as_http (res_bind (locked_authority t c db) (\<lambda>r.
       res_bind (session_objects_valid mailbox B t (is_browser_admin_path (br_path rq)) db r) (\<lambda>validated.
         case active_member db (bs_tenant_id r) (bs_user_id r) of
           None \<Rightarrow> Inl (AttributeError ''role'')
         | Some m \<Rightarrow> Inr (c\<lparr>bc_role := tm_role m\<rparr>, validated))))"

text \<open>Which requests lock their session exclusively: the matched route decides, else the path.\<close>

definition is_workspace_switch :: "string \<Rightarrow> string \<Rightarrow> bool" where
  "is_workspace_switch route_path path =
     (if route_path \<noteq> [] then route_path = ''/app/api/organizations/{tenant_id}/switch''
      else starts_with ''/app/api/organizations/'' path \<and> ends_with ''/switch'' path \<and>
           (let tid = take (length path - 23 - 7) (drop 23 path) in tid \<noteq> [] \<and> CHR ''/'' \<notin> set tid))"

definition owner_authority_status ::
  "(string \<Rightarrow> string option) \<Rightarrow> env \<Rightarrow> bool \<Rightarrow> int res" where
  "owner_authority_status mailbox e validated =
     (if \<not> validated then Inl (HTTPException 403 ''platform_owner_authority_required'')
      else map_sum id ow_max_age (owner_config_from mailbox e CANONICAL_ISSUER))"

section \<open>Bearer callers (\<open>platform_owner_api.py\<close>)\<close>

record api_ctx =
  ac_sub :: string
  ac_tenant :: string
  ac_role :: "string option"
  ac_oidc_sub :: "string option"
  ac_identity_type :: "string option"
  ac_service :: bool
  ac_api_key :: bool

definition service_type :: "string \<Rightarrow> bool" where
  "service_type kind \<longleftrightarrow> upper kind \<in> {''SERVICE'', ''SERVICE_ACCOUNT''}"

definition api_owner_rows ::
  "api_ctx \<Rightarrow> user_row option \<Rightarrow> member_row option \<Rightarrow> identity_row option \<Rightarrow> identity_row res" where
  "api_owner_rows c user member identity =
     (case user of
        None \<Rightarrow> Inl (PlatformOwnerError 403 ''platform_owner_account_disabled'')
      | Some u \<Rightarrow>
          (if \<not> us_enabled u then Inl (PlatformOwnerError 403 ''platform_owner_account_disabled'')
           else if \<not> is_admin_role (us_role u) then Inl (PlatformOwnerError 403 ''platform_admin_required'')
           else (case identity of
                   None \<Rightarrow> Inl (PlatformOwnerError 403 ''platform_owner_identity_mismatch'')
                 | Some i \<Rightarrow>
                     (if \<not> oi_enabled i \<or> oi_user_id i \<noteq> us_id u \<or> Some (oi_subject i) \<noteq> ac_oidc_sub c
                      then Inl (PlatformOwnerError 403 ''platform_owner_identity_mismatch'')
                      else if service_type (oi_identity_type i)
                      then Inl (PlatformOwnerError 403 ''platform_owner_human_required'')
                      else (case member of
                              None \<Rightarrow> Inl (PlatformOwnerError 403 ''platform_owner_membership_mismatch'')
                            | Some m \<Rightarrow>
                                (if \<not> tm_active m \<or> Some (tm_role m) \<noteq> ac_role c
                                 then Inl (PlatformOwnerError 403 ''platform_owner_membership_mismatch'')
                                 else Inr i))))))"

definition validate_api_owner ::
  "(string \<Rightarrow> string option) \<Rightarrow> bff_env \<Rightarrow> int \<Rightarrow> api_ctx \<Rightarrow> (string \<times> json) list option \<Rightarrow> string option
     \<Rightarrow> identity_db \<Rightarrow> unit res" where
  "validate_api_owner mailbox B t c claims iid db =
     (if claims = None \<or> absent iid then Inl (HTTPException 403 ''platform_owner_oidc_required'')
      else if ac_service c \<or> ac_api_key c then Inl (HTTPException 403 ''platform_owner_human_required'')
      else as_http
        (res_bind (api_owner_rows c (get_user db (ac_sub c)) (any_member db (ac_tenant c) (ac_sub c)) (get_identity db (the iid))) (\<lambda>i.
           res_bind (owner_config_from mailbox (bf_env B) CANONICAL_ISSUER) (\<lambda>cfg.
             validate_owner_claims (bf_repr B) cfg (oi_issuer i) (oi_subject i) (the claims) (t div 1000000)))))"

definition api_identity :: "(string \<times> json) list \<Rightarrow> identity_db \<Rightarrow> identity_row option" where
  "api_identity claims db =
     find_row (\<lambda>i. oi_issuer i = CANONICAL_ISSUER \<and> JStr (oi_subject i) = obj_get claims ''sub'' \<and> oi_enabled i)
       (id_identities db)"

definition bearer_claims :: "(string \<Rightarrow> string option) \<Rightarrow> bff_env \<Rightarrow> string \<Rightarrow> (string \<times> json) list res" where
  "bearer_claims alg_of B raw =
     (if env_get (bf_env B) ''KLYROW_OIDC_ISSUER'' CANONICAL_ISSUER \<noteq> CANONICAL_ISSUER
      then Inl (HTTPException 503 ''platform_owner_issuer_misconfigured'')
      else if alg_of raw \<notin> {Some ''RS256'', Some ''ES256''} then Inl (HTTPException 403 ''platform_owner_oidc_required'')
      else (case bf_verified B raw (env_get (bf_env B) ''KLYROW_OIDC_AUDIENCE'' ''klyrow-api'') CANONICAL_ISSUER of
              None \<Rightarrow> Inl (HTTPException 403 ''platform_owner_oidc_required'')
            | Some claims \<Rightarrow> Inr claims))"

definition resolve_api_owner_proof ::
  "(string \<Rightarrow> string option) \<Rightarrow> bff_env \<Rightarrow> api_ctx \<Rightarrow> string \<Rightarrow> identity_db
     \<Rightarrow> ((string \<times> json) list \<times> string \<times> api_ctx) res" where
  "resolve_api_owner_proof alg_of B c raw db =
     (if service_type (case ac_identity_type c of None \<Rightarrow> [] | Some k \<Rightarrow> k)
      then Inl (HTTPException 403 ''platform_owner_human_required'')
      else res_bind (bearer_claims alg_of B raw) (\<lambda>claims.
        case api_identity claims db of
          None \<Rightarrow> Inl (HTTPException 403 ''platform_owner_identity_mismatch'')
        | Some i \<Rightarrow>
            Inr (claims, oi_id i,
                 c\<lparr>ac_sub := oi_user_id i, ac_oidc_sub := Some (oi_subject i),
                   ac_identity_type := Some (oi_identity_type i), ac_service := service_type (oi_identity_type i)\<rparr>)))"

section \<open>What an accepted configuration is\<close>

lemma owner_max_age_Inr: "owner_max_age e = Inr n \<Longrightarrow> 60 \<le> n \<and> n \<le> 900"
  by (auto simp: owner_max_age_def split: option.splits if_splits)

lemma owner_acr_values_Inr:
  "owner_acr_values e = Inr vs \<Longrightarrow>
     vs = [] \<or> lower (strip (env_get e ''KLYROW_PLATFORM_OWNER_ACR_MFA_EVIDENCE_APPROVED'' ''false'')) = ''true''"
  by (auto simp: owner_acr_values_def Let_def split: if_splits)

lemma owner_config_from_Inr:
  assumes "owner_config_from mailbox e canonical = Inr c"
  shows "ow_issuer c = canonical \<and> ow_subject c = strip (env_get e ''KLYROW_PLATFORM_OWNER_SUBJECT'' []) \<and>
    ow_subject c \<noteq> [] \<and> length (ow_subject c) \<le> 255 \<and> set (ow_subject c) \<inter> {CHR 0x0D, CHR 0x0A} = {} \<and>
    ow_email c \<noteq> [] \<and> map_option lower (mailbox (ow_email c)) = Some (ow_email c) \<and>
    owner_max_age e = Inr (ow_max_age c) \<and> owner_acr_values e = Inr (ow_acr_values c)"
proof -
  let ?subject = "strip (env_get e ''KLYROW_PLATFORM_OWNER_SUBJECT'' [])"
    and ?email = "lower (strip (env_get e ''KLYROW_PLATFORM_OWNER_EMAIL'' []))"
  have "strip (env_get e ''KLYROW_PLATFORM_OWNER_ISSUER'' []) = canonical"
    and "?subject \<noteq> []" "?email \<noteq> []" and "length ?subject \<le> 255"
    and "CHR 0x0D \<notin> set ?subject" "CHR 0x0A \<notin> set ?subject" and "map_option lower (mailbox ?email) = Some ?email"
    and r: "res_bind (owner_max_age e) (\<lambda>max_age. res_bind (owner_acr_values e) (\<lambda>acr. Inr
        \<lparr>ow_issuer = strip (env_get e ''KLYROW_PLATFORM_OWNER_ISSUER'' []), ow_subject = ?subject,
         ow_email = ?email, ow_max_age = max_age, ow_acr_values = acr\<rparr>)) = Inr c"
    using assms unfolding owner_config_from_def Let_def by (simp_all split: if_splits)
  then show ?thesis by (auto simp: res_bind_Inr)
qed

text \<open>
  An accepted owner configuration is bounded: the issuer is the canonical one, the subject is a
  single non-empty line of at most 255 characters, the mailbox is its own normal form, the step-up age
  is between one and fifteen minutes, and no ACR value counts as MFA unless its evidence was approved.
\<close>

theorem owner_config_bounded:
  assumes "owner_config_from mailbox e canonical = Inr c"
  shows "ow_issuer c = canonical \<and> 0 < length (ow_subject c) \<and> length (ow_subject c) \<le> 255 \<and>
    set (ow_subject c) \<inter> {CHR 0x0D, CHR 0x0A} = {} \<and> map_option lower (mailbox (ow_email c)) = Some (ow_email c) \<and>
    60 \<le> ow_max_age c \<and> ow_max_age c \<le> 900 \<and>
    (ow_acr_values c = [] \<or> lower (strip (env_get e ''KLYROW_PLATFORM_OWNER_ACR_MFA_EVIDENCE_APPROVED'' ''false'')) = ''true'')"
  using owner_config_from_Inr [OF assms] owner_max_age_Inr owner_acr_values_Inr by auto

section \<open>What a validated owner is\<close>

text \<open>The claims of a freshly authenticated owner, at a time in seconds, in terms of the configuration.\<close>

definition owner_claims :: "(json \<Rightarrow> string) \<Rightarrow> env \<Rightarrow> (string \<times> json) list \<Rightarrow> int \<Rightarrow> bool" where
  "owner_claims repr_of e claims now_epoch \<longleftrightarrow>
     claim_text repr_of claims ''iss'' = CANONICAL_ISSUER \<and>
     claim_text repr_of claims ''sub'' = strip (env_get e ''KLYROW_PLATFORM_OWNER_SUBJECT'' []) \<and>
     claim_text repr_of claims ''sub'' \<noteq> [] \<and>
     obj_get claims ''email_verified'' = JBool True \<and>
     (''mfa'' \<in> set (amr_values repr_of claims) \<or>
      set MFA_KNOWLEDGE \<inter> set (amr_values repr_of claims) \<noteq> {} \<and>
      set MFA_POSSESSION \<inter> set (amr_values repr_of claims) \<noteq> {} \<or>
      lower (strip (env_get e ''KLYROW_PLATFORM_OWNER_ACR_MFA_EVIDENCE_APPROVED'' ''false'')) = ''true'') \<and>
     (\<exists>expiry auth_time. json_int (obj_get claims ''exp'') = Inr expiry \<and> now_epoch < expiry \<and>
        json_int (obj_get claims ''auth_time'') = Inr auth_time \<and> auth_time \<le> now_epoch + 30 \<and>
        now_epoch - auth_time \<le> 900)"

lemma integer_claim_Inr: "integer_claim claims name = Inr n \<Longrightarrow> json_int (obj_get claims name) = Inr n"
  by (auto simp: integer_claim_def split: json.splits sum.splits exn.splits)

lemma claim_times_Inr:
  assumes "claim_times c claims n = Inr ()"
  shows "\<exists>expiry auth_time. json_int (obj_get claims ''exp'') = Inr expiry \<and> n < expiry \<and>
    json_int (obj_get claims ''auth_time'') = Inr auth_time \<and> auth_time \<le> n + 30 \<and> n - auth_time \<le> ow_max_age c"
  using assms integer_claim_Inr by (fastforce simp: claim_times_def res_bind_Inr split: if_splits)

lemma validate_owner_claims_Inr:
  assumes "validate_owner_claims repr_of c iss sub claims n = Inr ()"
    and c: "owner_config_from mailbox e CANONICAL_ISSUER = Inr c"
  shows "iss = CANONICAL_ISSUER \<and> sub = strip (env_get e ''KLYROW_PLATFORM_OWNER_SUBJECT'' []) \<and>
    owner_claims repr_of e claims n"
proof -
  have v: "iss = ow_issuer c" "sub = ow_subject c" "claim_text repr_of claims ''iss'' = ow_issuer c"
      "claim_text repr_of claims ''sub'' = ow_subject c" "obj_get claims ''email_verified'' = JBool True"
    and m: "mfa_present repr_of claims (ow_acr_values c)" and t: "claim_times c claims n = Inr ()"
    using assms(1) by (auto simp: validate_owner_claims_def split: if_splits)
  note cfg = owner_config_from_Inr [OF c]
  have age: "ow_max_age c \<le> 900" using cfg owner_max_age_Inr by blast
  have acr: "ow_acr_values c = [] \<or> lower (strip (env_get e ''KLYROW_PLATFORM_OWNER_ACR_MFA_EVIDENCE_APPROVED'' ''false'')) = ''true''"
    using cfg owner_acr_values_Inr by blast
  show ?thesis
    unfolding owner_claims_def
  proof (intro conjI)
    show "''mfa'' \<in> set (amr_values repr_of claims) \<or>
      set MFA_KNOWLEDGE \<inter> set (amr_values repr_of claims) \<noteq> {} \<and>
      set MFA_POSSESSION \<inter> set (amr_values repr_of claims) \<noteq> {} \<or>
      lower (strip (env_get e ''KLYROW_PLATFORM_OWNER_ACR_MFA_EVIDENCE_APPROVED'' ''false'')) = ''true''"
      using m acr unfolding mfa_present_def Let_def by auto
    show "\<exists>expiry auth_time. json_int (obj_get claims ''exp'') = Inr expiry \<and> n < expiry \<and>
        json_int (obj_get claims ''auth_time'') = Inr auth_time \<and> auth_time \<le> n + 30 \<and> n - auth_time \<le> 900"
      using claim_times_Inr [OF t] age by (meson order_trans)
  qed (use v cfg in auto)
qed



lemma as_http_Inr [simp]: "as_http r = Inr x \<longleftrightarrow> r = Inr x"
  by (auto simp: as_http_def split: sum.splits exn.splits)



lemma api_owner_rows_Inr:
  assumes "api_owner_rows c user member identity = Inr i"
  shows "\<exists>u m. user = Some u \<and> us_enabled u \<and> is_admin_role (us_role u) \<and> identity = Some i \<and> oi_enabled i \<and>
    oi_user_id i = us_id u \<and> Some (oi_subject i) = ac_oidc_sub c \<and> \<not> service_type (oi_identity_type i) \<and>
    member = Some m \<and> tm_active m \<and> Some (tm_role m) = ac_role c"
proof -
  obtain u m where rows: "user = Some u" "member = Some m" "identity = Some i"
    using assms unfolding api_owner_rows_def by (auto split: option.splits if_splits)
  then show ?thesis using assms unfolding api_owner_rows_def by (auto split: if_splits)
qed

text \<open>
  A bearer caller with owner authority is the owner in person: neither a service nor an API key,
  an enabled platform administrator with an active membership in the caller's role, bound to an enabled
  human identity that is the configured owner's, with claims as fresh as a browser's.
\<close>

lemma api_owner_facts:
  assumes "validate_api_owner mailbox B t c claims iid db = Inr ()"
  shows "\<not> ac_service c \<and> \<not> ac_api_key c \<and> (\<exists>u m i kvs. claims = Some kvs \<and>
    get_user db (ac_sub c) = Some u \<and> us_enabled u \<and> is_admin_role (us_role u) \<and>
    any_member db (ac_tenant c) (ac_sub c) = Some m \<and> tm_active m \<and> ac_role c = Some (tm_role m) \<and>
    get_identity db (the iid) = Some i \<and> oi_enabled i \<and> oi_user_id i = us_id u \<and> \<not> service_type (oi_identity_type i) \<and>
    oi_issuer i = CANONICAL_ISSUER \<and> oi_subject i = strip (env_get (bf_env B) ''KLYROW_PLATFORM_OWNER_SUBJECT'' []) \<and>
    owner_claims (bf_repr B) (bf_env B) kvs (t div 1000000))"
proof -
  obtain kvs where human: "claims = Some kvs" "\<not> ac_service c" "\<not> ac_api_key c"
    using assms by (cases claims) (auto simp: validate_api_owner_def split: if_splits)
  obtain i cfg where i: "api_owner_rows c (get_user db (ac_sub c)) (any_member db (ac_tenant c) (ac_sub c)) (get_identity db (the iid)) = Inr i"
    and cfg: "owner_config_from mailbox (bf_env B) CANONICAL_ISSUER = Inr cfg"
    and v: "validate_owner_claims (bf_repr B) cfg (oi_issuer i) (oi_subject i) kvs (t div 1000000) = Inr ()"
    using assms human by (auto simp: validate_api_owner_def res_bind_Inr split: if_splits)
  show ?thesis using human validate_owner_claims_Inr [OF v cfg] api_owner_rows_Inr [OF i] by metis
qed

section \<open>Where the two surfaces disagree\<close>

text \<open>
  A trailing slash in \<open>KLYROW_OIDC_ISSUER\<close> locks the owner out of the bearer API only: the
  browser surface strips it and works, the bearer resolver compares the raw text and answers 503 to
  every human caller.
\<close>

theorem trailing_slash_blocks_bearer_owner:
  assumes "bf_env B ''KLYROW_OIDC_ISSUER'' = Some (CANONICAL_ISSUER @ ''/'')" and "bf_env B ''KLYROW_IDENTITY_PROFILE'' = None"
    and "ac_identity_type c = None"
  shows "canonical_issuer (bf_env B) = Inr CANONICAL_ISSUER \<and>
    resolve_api_owner_proof alg_of B c raw db = Inl (HTTPException 503 ''platform_owner_issuer_misconfigured'')"
proof -
  have "rstrip_char (CHR ''/'') (CANONICAL_ISSUER @ ''/'') = CANONICAL_ISSUER" by code_simp
  then have "canonical_issuer (bf_env B) = Inr CANONICAL_ISSUER"
    using assms(1,2)
    by (simp add: canonical_issuer_def identity_authority_def identity_profiles_def Let_def) (simp add: CANONICAL_ISSUER_def)
  then show ?thesis using assms by (simp add: resolve_api_owner_proof_def bearer_claims_def service_type_def upper_def)
qed

text \<open>
  An infinite time in the owner's token is not refused with the policy's 403: \<open>int()\<close> raises an
  \<open>OverflowError\<close> that neither the policy nor the guard catches, so an owner whose token carries one
  gets a server error on every administration path.
\<close>

theorem infinite_claim_escapes_guard:
  assumes "locked_authority t c db = Inr r" and "is_browser_admin_path (br_path rq)"
    and "get_user db (bs_user_id r) = Some u" "us_enabled u" "us_id u = bs_user_id r" "is_admin_role (us_role u)"
    and "active_member db (bs_tenant_id r) (bs_user_id r) = Some m"
    and "get_identity db (bs_identity_id r) = Some i" "oi_enabled i" "oi_id i = bs_identity_id r" "oi_user_id i = bs_user_id r"
    and "canonical_issuer (bf_env B) = Inr canonical" and "owner_config_from mailbox (bf_env B) canonical = Inr cfg"
    and "stored_claims B r = Inr claims"
    and "oi_issuer i = ow_issuer cfg" "oi_subject i = ow_subject cfg"
    and "claim_text (bf_repr B) claims ''iss'' = ow_issuer cfg" "claim_text (bf_repr B) claims ''sub'' = ow_subject cfg"
    and "obj_get claims ''email_verified'' = JBool True"
    and "lower (strip (claim_text (bf_repr B) claims ''email'')) = ow_email cfg"
    and "mfa_present (bf_repr B) claims (ow_acr_values cfg)"
    and "obj_get claims ''iat'' = JFloat PosInf"
  shows "\<exists>text. role_stability_guard mailbox B t rq c db = Inl (OverflowError text)"
proof -
  have m: "tm_active m" "tm_user_id m = bs_user_id r" "tm_tenant_id m = bs_tenant_id r"
    using assms(7) unfolding active_member_def by (auto dest: find_row_Some)
  have "claim_times cfg claims (t div 1000000) = Inl (OverflowError ''cannot convert float infinity to integer'')"
    using assms(22) by (simp add: claim_times_def integer_claim_def)
  then have "validate_owner_claims (bf_repr B) cfg (oi_issuer i) (oi_subject i) claims (t div 1000000) =
      Inl (OverflowError ''cannot convert float infinity to integer'')"
    using assms(15-21) by (simp add: validate_owner_claims_def)
  then have "owner_proof mailbox B t r i = Inl (OverflowError ''cannot convert float infinity to integer'')"
    using assms(12-14) by (simp add: owner_proof_def)
  then have "session_objects_valid mailbox B t True db r = Inl (OverflowError ''cannot convert float infinity to integer'')"
    using assms(3-11) m by (simp add: session_objects_valid_def validate_owner_objects_def)
  then show ?thesis using assms(1,2) by (simp add: role_stability_guard_def as_http_def)
qed

section \<open>Concrete instances\<close>

definition owner_env :: env where
  "owner_env = env_of [(''KLYROW_PLATFORM_OWNER_ISSUER'', CANONICAL_ISSUER),
     (''KLYROW_PLATFORM_OWNER_SUBJECT'', ''sub''), (''KLYROW_PLATFORM_OWNER_EMAIL'', ''o@a.org'')]"

definition owner_token :: "json \<Rightarrow> (string \<times> json) list" where
  "owner_token iat = [(''iss'', JStr CANONICAL_ISSUER), (''sub'', JStr ''sub''), (''email'', JStr ''o@a.org''),
     (''email_verified'', JBool True), (''amr'', JList [JStr ''pwd'', JStr ''otp'']), (''iat'', iat),
     (''exp'', JInt 1000), (''auth_time'', JInt 0)]"

definition owner_bff :: "json \<Rightarrow> bff_env" where
  "owner_bff iat = sample_bff\<lparr>bf_env := owner_env, bf_peek := \<lambda>_. Some (JObj (owner_token iat))\<rparr>"

definition owner_cfg :: owner_config where
  "owner_cfg = \<lparr>ow_issuer = CANONICAL_ISSUER, ow_subject = ''sub'', ow_email = ''o@a.org'', ow_max_age = 300,
     ow_acr_values = []\<rparr>"

definition owner_db :: identity_db where
  "owner_db = sample_identity_db\<lparr>id_users := map (\<lambda>u. u\<lparr>us_role := ''platform_admin''\<rparr>) (id_users sample_identity_db)\<rparr>"

definition owner_ctx :: browser_ctx where
  "owner_ctx = \<lparr>bc_sub = ''u1'', bc_identity_id = ''i1'', bc_tenant = ''t1'', bc_role = ''OWNER'', bc_sid = ''s1''\<rparr>"

definition admin_request :: browser_request where
  "admin_request = signed_in\<lparr>br_path := ''/app/api/admin/dashboard''\<rparr>"

lemma owner_cfg_read: "owner_config_from Some owner_env CANONICAL_ISSUER = Inr owner_cfg"
  by code_simp

lemma owner_issuer: "canonical_issuer owner_env = Inr CANONICAL_ISSUER"
  by code_simp

lemma owner_claim_facts:
  "claim_text r (owner_token x) ''iss'' = CANONICAL_ISSUER" "claim_text r (owner_token x) ''sub'' = ''sub''"
  "claim_text r (owner_token x) ''email'' = ''o@a.org''" "obj_get (owner_token x) ''email_verified'' = JBool True"
  "obj_get (owner_token x) ''iat'' = x" "obj_get (owner_token x) ''exp'' = JInt 1000" "obj_get (owner_token x) ''auth_time'' = JInt 0"
  "mfa_present r (owner_token x) []"
  by (simp_all add: owner_token_def claim_text_def obj_get_def json_or_def CANONICAL_ISSUER_def mfa_present_def amr_values_def
      MFA_KNOWLEDGE_def MFA_POSSESSION_def lower_def lower_char_def)

lemma owner_email: "lower (strip ''o@a.org'') = ''o@a.org''"
  by code_simp

lemma owner_rows:
  "get_session owner_db ''s1'' = Some sample_session"
  "get_user owner_db ''u1'' = Some \<lparr>us_id = ''u1'', us_tenant_id = ''t1'', us_email = ''o@a.org'', us_password_hash = [],
     us_role = ''platform_admin'', us_enabled = True\<rparr>"
  "active_member owner_db ''t1'' ''u1'' = Some sample_member" "any_member owner_db ''t1'' ''u1'' = Some sample_member"
  "get_identity owner_db ''i1'' = Some sample_identity"
  by (simp_all add: owner_db_def sample_identity_db_def get_session_def get_user_def active_member_def any_member_def
      get_identity_def sample_session_def sample_member_def sample_identity_def)

lemma owner_locked: "locked_authority 5 owner_ctx owner_db = Inr sample_session"
  by (simp add: locked_authority_def owner_ctx_def owner_rows) (simp add: sample_session_def)

lemma owner_stored: "stored_claims (owner_bff x) sample_session = Inr (owner_token x)"
  by (simp add: stored_claims_def sample_session_def owner_bff_def sample_bff_def absent_def)


lemma admin_role: "is_admin_role ''platform_admin''" "is_browser_admin_path (br_path admin_request)"
  by (simp add: is_admin_role_def lower_def lower_char_def) (simp add: is_browser_admin_path_def admin_request_def starts_with_def)


theorem owner_config_bounded_witness:
  "\<exists>c. owner_config_from Some owner_env CANONICAL_ISSUER = Inr c \<and> ow_max_age c \<le> 900 \<and> ow_acr_values c = []"
  using owner_config_bounded [OF owner_cfg_read] owner_cfg_read by (simp add: owner_cfg_def)


theorem trailing_slash_blocks_bearer_owner_witness:
  "\<exists>c. resolve_api_owner_proof (\<lambda>_. Some ''RS256'')
      (sample_bff\<lparr>bf_env := env_of [(''KLYROW_OIDC_ISSUER'', CANONICAL_ISSUER @ ''/'')]\<rparr>) c ''token'' owner_db
      = Inl (HTTPException 503 ''platform_owner_issuer_misconfigured'')"
  using trailing_slash_blocks_bearer_owner
    [of "sample_bff\<lparr>bf_env := env_of [(''KLYROW_OIDC_ISSUER'', CANONICAL_ISSUER @ ''/'')]\<rparr>"
      "\<lparr>ac_sub = ''u1'', ac_tenant = ''t1'', ac_role = None, ac_oidc_sub = None, ac_identity_type = None,
        ac_service = False, ac_api_key = False\<rparr>"]
  by (auto simp: env_of_def)

theorem infinite_claim_escapes_guard_witness:
  "\<exists>text. role_stability_guard Some (owner_bff (JFloat PosInf)) 5 admin_request owner_ctx owner_db = Inl (OverflowError text)"
proof -
  let ?B = "owner_bff (JFloat PosInf)"
  have rows: "get_user owner_db (bs_user_id sample_session) = Some \<lparr>us_id = ''u1'', us_tenant_id = ''t1'', us_email = ''o@a.org'',
      us_password_hash = [], us_role = ''platform_admin'', us_enabled = True\<rparr>"
    "active_member owner_db (bs_tenant_id sample_session) (bs_user_id sample_session) = Some sample_member"
    "get_identity owner_db (bs_identity_id sample_session) = Some sample_identity"
    by (simp_all add: sample_session_def owner_rows)
  have env: "canonical_issuer (bf_env ?B) = Inr CANONICAL_ISSUER"
    "owner_config_from Some (bf_env ?B) CANONICAL_ISSUER = Inr owner_cfg"
    by (simp_all add: owner_bff_def owner_issuer owner_cfg_read)
  show ?thesis
    by (rule infinite_claim_escapes_guard [OF owner_locked admin_role(2) rows(1) _ _ _ rows(2,3) _ _ _ env owner_stored])
      (simp_all add: admin_role owner_claim_facts owner_email owner_cfg_def, simp_all add: sample_session_def sample_identity_def)
qed

end
