(* ===== verification/BearerAuth.thy ===== *)
theory BearerAuth
  imports PlatformOwner
begin

text \<open>
  Bearer authentication of the API (\<open>auth\<close> of \<open>main.py\<close>), with its rate limits, and the capability checks
  that follow it (\<open>capabilities.py\<close>). The request context is the dictionary of the code. The tenant
  resolver, the JWT library and the tables are parameters or state; the answer of the resolver is a
  status with the decoded body. Instants are microseconds.
\<close>

section \<open>Capabilities (\<open>capabilities.py\<close>)\<close>

definition mutation_prefixes :: "(string \<times> string) list" where
  "mutation_prefixes =
     [(''/v1/internal/email/domains'', ''domain.manage''), (''/v1/internal/email/senders'', ''sender.manage''),
      (''/v1/internal/email/smtp/credentials'', ''credential.manage''), (''/v1/domains'', ''domain.manage''),
      (''/v1/senders'', ''sender.manage''), (''/v1/templates'', ''template.manage''), (''/v1/contacts'', ''contact.manage''),
      (''/v1/profiles'', ''contact.manage''), (''/v1/events'', ''contact.manage''), (''/v1/profile-imports'', ''contact.manage''),
      (''/v1/profile-exports'', ''contact.manage''), (''/v1/customer-data'', ''contact.manage''),
      (''/v1/lists'', ''contact.manage''), (''/v1/suppressions'', ''contact.manage''),
      (''/v1/campaigns'', ''campaign.manage''), (''/v1/campaign-definitions'', ''campaign.manage'')]"

definition mutation_permission :: "string \<Rightarrow> string \<Rightarrow> string option" where
  "mutation_permission method path =
     (if method \<notin> {''POST'', ''PUT'', ''PATCH'', ''DELETE''} then None
      else map_option snd (find_row (\<lambda>(prefix, _). path = prefix \<or> starts_with (prefix @ ''/'') path) mutation_prefixes))"

text \<open>\<open>str.split()\<close>: the runs of characters that are no white space.\<close>

fun words_from :: "string \<Rightarrow> string \<Rightarrow> string list" where
  "words_from acc [] = (if acc = [] then [] else [acc])"
| "words_from acc (c # cs) =
     (if is_space c then (if acc = [] then words_from [] cs else acc # words_from [] cs)
      else words_from (acc @ [c]) cs)"

definition words :: "string \<Rightarrow> string list" where
  "words s = words_from [] s"

text \<open>What \<open>set.update\<close> adds from a collection of a context; a list or an object cannot be an element.\<close>

fun hashable :: "json \<Rightarrow> bool" where
  "hashable (JList _) = False"
| "hashable (JObj _) = False"
| "hashable _ = True"

definition granted_values :: "json \<Rightarrow> json list res" where
  "granted_values v =
     (case v of
        JStr s \<Rightarrow> Inr (map JStr (words s))
      | _ \<Rightarrow>
          (if \<not> truthy v then Inr []
           else (case json_iter v of
                   None \<Rightarrow> Inl (TypeError ''object is not iterable'')
                 | Some xs \<Rightarrow> if list_all hashable xs then Inr xs else Inl (TypeError ''unhashable type''))))"

definition context_role :: "(json \<Rightarrow> string) \<Rightarrow> (string \<times> json) list \<Rightarrow> string" where
  "context_role repr_of ctx = claim_text repr_of ctx ''role''"

definition has_permission :: "(json \<Rightarrow> string) \<Rightarrow> (string \<times> json) list \<Rightarrow> string \<Rightarrow> bool res" where
  "has_permission repr_of ctx permission =
     (let role = upper (context_role repr_of ctx)
      in if role \<in> {''OWNER'', ''ADMIN'', ''PLATFORM_ADMIN'', ''TENANT_ADMIN''} then Inr True
         else res_bind (granted_values (obj_get ctx ''permissions'')) (\<lambda>ps.
                res_bind (granted_values (obj_get ctx ''scopes'')) (\<lambda>ss.
                  let granted = map JStr (role_permissions role) @ ps @ ss
                  in Inr (JStr ''*'' \<in> set granted \<or> JStr permission \<in> set granted))))"

definition require_permission :: "(json \<Rightarrow> string) \<Rightarrow> (string \<times> json) list \<Rightarrow> string \<Rightarrow> unit res" where
  "require_permission repr_of ctx permission =
     res_bind (has_permission repr_of ctx permission) (\<lambda>ok.
       if ok then Inr () else Inl (http 403 ''permission_denied''))"

text \<open>The grants of a service; \<open>None\<close> is a malformed collection, which refuses.\<close>

definition service_grants :: "json \<Rightarrow> string list option" where
  "service_grants v =
     (case v of
        JNull \<Rightarrow> Some []
      | JStr s \<Rightarrow> Some (words s)
      | JList xs \<Rightarrow> if list_all (\<lambda>x. json_string x \<noteq> None) xs then Some (map (\<lambda>x. the (json_string x)) xs) else None
      | _ \<Rightarrow> None)"

definition has_service_permission :: "(string \<times> json) list \<Rightarrow> string \<Rightarrow> bool" where
  "has_service_permission ctx permission =
     (case obj_get ctx ''identity_type'' of
        JStr kind \<Rightarrow>
          obj_get ctx ''service'' = JBool True \<and> service_type kind \<and>
          (case (service_grants (obj_get ctx ''permissions''), service_grants (obj_get ctx ''scopes'')) of
             (Some ps, Some ss) \<Rightarrow> permission \<in> set (ps @ ss)
           | _ \<Rightarrow> False)
      | _ \<Rightarrow> False)"

definition require_middleware_command_scope :: "(string \<times> json) list \<Rightarrow> unit res" where
  "require_middleware_command_scope ctx =
     (if has_service_permission ctx ''klyrow.middleware.command.write'' then Inr ()
      else Inl (http 403 ''middleware_command_scope_required''))"

section \<open>Requests and state\<close>

record api_request =
  aq_authorization :: string
  aq_tenant :: "string option"
  aq_tenant_alias :: "string option"
  aq_method :: string
  aq_path :: string
  aq_header_names :: "string list"

record api_key_row =
  ak_id :: string
  ak_tenant_id :: string
  ak_name :: string
  ak_key_hash :: string
  ak_revoked :: bool

record local_session_row =
  lr_id :: string
  lr_user_id :: string
  lr_tenant_id :: string
  lr_revoked :: bool

record access_db =
  ad_identity :: identity_db
  ad_keys :: "api_key_row list"
  ad_sessions :: "local_session_row list"

datatype resolver_answer = Unreachable | Broken | Answered nat "json option"

record bearer_env =
  be_bff :: bff_env
  be_mailbox :: "string \<Rightarrow> string option"
  be_header :: "string \<Rightarrow> (string \<times> json) list option"
  be_local :: "string \<Rightarrow> (string \<times> json) list option"
  be_resolver :: "(string \<times> string) list \<Rightarrow> resolver_answer"

section \<open>The external tenant resolver\<close>

definition FORGED_HEADERS :: "string list" where
  "FORGED_HEADERS = [''x-codestra-tenant-id'', ''x-codestra-identity-id'', ''x-codestra-tenant'', ''x-codestra-subject'']"

text \<open>\<open>re.fullmatch("/v1/(?:campaigns|campaign-definitions)/[^/]+/schedule", path)\<close>.\<close>

definition schedule_path :: "string \<Rightarrow> bool" where
  "schedule_path path =
     (case split_on (CHR ''/'') path of
        [lead, v, kind, item, verb] \<Rightarrow>
          lead = [] \<and> v = ''v1'' \<and> kind \<in> {''campaigns'', ''campaign-definitions''} \<and> item \<noteq> [] \<and> verb = ''schedule''
      | _ \<Rightarrow> False)"

definition resolver_permission :: "string \<Rightarrow> string \<Rightarrow> string" where
  "resolver_permission method path =
     (let reading = (method \<in> {''GET'', ''HEAD'', ''OPTIONS''})
      in if path = ''/v1/commands'' then ''klyrow.middleware.command.write''
         else if path = ''/v1/integrations/results'' then ''klyrow.integration.result.write''
         else if starts_with ''/v1/operations/'' path
         then (if reading then ''klyrow.middleware.operation.read'' else ''klyrow.middleware.operation.write'')
         else if method = ''POST'' \<and> schedule_path path then ''campaign.manage''
         else (case mutation_permission method path of
                 Some permission \<Rightarrow> permission
               | None \<Rightarrow>
                   (if contains ''webhook'' path then ''klyrow.webhook''
                    else if \<not> reading then ''klyrow.send'' else ''klyrow.read'')))"

definition filled :: "(string \<times> json) list \<Rightarrow> string \<Rightarrow> string option" where
  "filled kvs name =
     (case obj_get kvs name of JStr s \<Rightarrow> if strip s = [] then None else Some s | _ \<Rightarrow> None)"

definition resolver_context ::
  "string \<Rightarrow> string option \<Rightarrow> resolver_answer \<Rightarrow> (string \<times> json) list res" where
  "resolver_context permission requested answer =
     (case answer of
        Unreachable \<Rightarrow> Inl (http 503 ''authorization_unavailable'')
      | Broken \<Rightarrow> Inl (ValueError ''resolver'')
      | Answered status body \<Rightarrow>
          (if status = 401 then Inl (http 401 ''invalid_credentials'')
           else if status = 404 then Inl (http 404 ''not_found'')
           else if 500 \<le> status then Inl (http 503 ''authorization_unavailable'')
           else if status \<noteq> 200 then Inl (http 403 ''not_found'')
           else (case body of
                   Some (JObj resolved) \<Rightarrow>
                     (if obj_get resolved ''authorized'' \<noteq> JBool True \<or> obj_get resolved ''permission'' \<noteq> JStr permission
                      then Inl (http 403 ''not_found'')
                      else (case (filled resolved ''identity_id'', filled resolved ''tenant_id'') of
                              (Some iid, Some tid) \<Rightarrow>
                                (if \<not> absent requested \<and> tid \<noteq> the requested then Inl (http 403 ''not_found'')
                                 else Inr [(''sub'', JStr iid), (''tenant'', JStr tid),
                                   (''role'', case map_of resolved ''role'' of None \<Rightarrow> JStr ''tenant_user'' | Some v \<Rightarrow> v),
                                   (''identity_type'', obj_get resolved ''identity_type''), (''service'', JBool True),
                                   (''permissions'', JList [JStr permission])])
                            | _ \<Rightarrow> Inl (http 503 ''authorization_unavailable'')))
                 | _ \<Rightarrow> Inl (http 503 ''authorization_unavailable''))))"

definition resolved_caller ::
  "bearer_env \<Rightarrow> api_request \<Rightarrow> string \<Rightarrow> string option \<Rightarrow> access_db \<Rightarrow> (string \<times> json) list res" where
  "resolved_caller E rq raw requested db =
     (if \<exists>n \<in> set (aq_header_names rq). lower n \<in> set FORGED_HEADERS then Inl (http 403 ''not_found'')
      else (let permission = resolver_permission (aq_method rq) (aq_path rq)
            in res_bind (resolver_context permission requested
                 (be_resolver E ([(''Authorization'', ''Bearer '' @ raw), (''X-Codestra-Required-Permission'', permission)]
                    @ (if absent requested then [] else [(''X-Klyrow-Tenant-Id'', the requested)])))) (\<lambda>ctx.
                 case obj_get ctx ''tenant'' of
                   JStr tid \<Rightarrow> if tenant_enabled (ad_identity db) tid then Inr ctx else Inl (http 403 ''tenant_suspended'')
                 | _ \<Rightarrow> Inl (KeyError ''tenant''))))"

section \<open>Callers that the gateway authenticates itself\<close>

definition tenant_header :: "api_request \<Rightarrow> string option res" where
  "tenant_header rq =
     (if \<not> absent (aq_tenant rq) \<and> \<not> absent (aq_tenant_alias rq) \<and> aq_tenant rq \<noteq> aq_tenant_alias rq
      then Inl (http 403 ''tenant_header_mismatch'')
      else Inr (if absent (aq_tenant rq) then aq_tenant_alias rq else aq_tenant rq))"

definition middleware_caller :: "string option \<Rightarrow> access_db \<Rightarrow> (string \<times> json) list res" where
  "middleware_caller requested db =
     (if absent requested \<or> \<not> tenant_enabled (ad_identity db) (the requested) then Inl (http 403 ''valid_tenant_required'')
      else Inr [(''sub'', JStr ''middleware-service''), (''tenant'', JStr (the requested)), (''role'', JStr ''tenant_admin''),
                (''service'', JBool True), (''identity_type'', JStr ''SERVICE''),
                (''permissions'', JList [JStr ''klyrow.middleware.command.write'', JStr ''klyrow.integration.result.write''])])"

definition key_caller :: "bff_env \<Rightarrow> string \<Rightarrow> access_db \<Rightarrow> (string \<times> json) list res" where
  "key_caller B raw db =
     (case find_row (\<lambda>k. ak_key_hash k = bf_sha B raw \<and> \<not> ak_revoked k) (ad_keys db) of
        None \<Rightarrow> Inl (ValueError [])
      | Some k \<Rightarrow>
          (if \<not> tenant_enabled (ad_identity db) (ak_tenant_id k) then Inl (http 403 ''account_suspended'')
           else Inr [(''sub'', JStr (ak_id k)), (''tenant'', JStr (ak_tenant_id k)), (''role'', JStr ''tenant_admin''),
                     (''api_key'', JBool True)]))"

definition local_session :: "access_db \<Rightarrow> json \<Rightarrow> local_session_row option" where
  "local_session db v =
     (case v of JStr sid \<Rightarrow> find_row (\<lambda>r. lr_id r = sid) (ad_sessions db) | _ \<Rightarrow> None)"

definition local_caller :: "bearer_env \<Rightarrow> string \<Rightarrow> access_db \<Rightarrow> (string \<times> json) list res" where
  "local_caller E raw db =
     (if production (bf_env (be_bff E)) \<or>
         lower (env_get (bf_env (be_bff E)) ''KLYROW_LOCAL_AUTH_ENABLED'' ''true'') \<noteq> ''true''
      then Inl (http 401 ''canonical_oidc_required'')
      else (case be_local E raw of
              None \<Rightarrow> Inl (ValueError ''token'')
            | Some ctx \<Rightarrow>
                (if truthy (obj_get ctx ''sid'') \<and>
                    (case local_session db (obj_get ctx ''sid'') of None \<Rightarrow> True | Some r \<Rightarrow> lr_revoked r)
                 then Inl (http 401 ''session_revoked'') else Inr ctx)))"

text \<open>A caller with a token of the identity provider; its claims are the proof an owner needs.\<close>

definition oidc_caller ::
  "bearer_env \<Rightarrow> string \<Rightarrow> string option \<Rightarrow> access_db \<Rightarrow> ((string \<times> json) list \<times> (string \<times> json) list \<times> string) res" where
  "oidc_caller E raw requested db =
     (let B = be_bff E
      in res_bind (canonical_issuer (bf_env B)) (\<lambda>iss.
           case bf_verified B raw (env_get (bf_env B) ''KLYROW_OIDC_AUDIENCE'' ''klyrow-api'') iss of
             None \<Rightarrow> Inl (ValueError ''token'')
           | Some claims \<Rightarrow>
               (case find_row (\<lambda>i. oi_issuer i = iss \<and> JStr (oi_subject i) = obj_get claims ''sub'' \<and> oi_enabled i)
                       (id_identities (ad_identity db)) of
                  None \<Rightarrow> Inl (http 403 ''oidc_identity_not_registered'')
                | Some i \<Rightarrow>
                    (let tid = (if absent requested then oi_default_tenant_id i else requested)
                     in case (if absent tid then None else active_member (ad_identity db) (the tid) (oi_user_id i)) of
                          None \<Rightarrow> Inl (http 403 ''tenant_membership_required'')
                        | Some m \<Rightarrow>
                            Inr ([(''sub'', JStr (oi_user_id i)), (''oidc_sub'', JStr (oi_subject i)), (''tenant'', JStr (the tid)),
                                  (''role'', JStr (tm_role m)), (''identity_type'', JStr (oi_identity_type i)),
                                  (''service'', JBool (service_type (oi_identity_type i))),
                                  (''scopes'', JList (map JStr (remdups (words
                                     (case map_of claims ''scope'' of None \<Rightarrow> [] | Some v \<Rightarrow> json_str (bf_repr B) v)))))],
                                 claims, oi_id i)))))"

type_synonym caller = "(string \<times> json) list \<times> ((string \<times> json) list \<times> string) option"

definition tenant_checked :: "access_db \<Rightarrow> caller \<Rightarrow> caller res" where
  "tenant_checked db c =
     (case obj_get (fst c) ''tenant'' of
        JStr tid \<Rightarrow> if tenant_enabled (ad_identity db) tid then Inr c else Inl (http 403 ''account_suspended'')
      | _ \<Rightarrow> Inl (KeyError ''tenant''))"

definition token_caller :: "bearer_env \<Rightarrow> string \<Rightarrow> string option \<Rightarrow> access_db \<Rightarrow> caller res" where
  "token_caller E raw requested db =
     (case be_header E raw of
        None \<Rightarrow> Inl (ValueError ''header'')
      | Some header \<Rightarrow>
          res_bind (if obj_get header ''alg'' = JStr ''HS256'' then map_sum id (\<lambda>ctx. (ctx, None)) (local_caller E raw db)
                    else map_sum id (\<lambda>(ctx, claims, iid). (ctx, Some (claims, iid))) (oidc_caller E raw requested db))
            (tenant_checked db))"

definition own_caller :: "bearer_env \<Rightarrow> string \<Rightarrow> string option \<Rightarrow> access_db \<Rightarrow> caller res" where
  "own_caller E raw requested db =
     res_bind (runtime_secret (bf_files (be_bff E)) (bf_env (be_bff E)) ''KLYROW_MIDDLEWARE_API_KEY'') (\<lambda>key.
       if key \<noteq> [] \<and> raw = key then map_sum id (\<lambda>ctx. (ctx, None)) (middleware_caller requested db)
       else if starts_with ''kly_'' raw then map_sum id (\<lambda>ctx. (ctx, None)) (key_caller (be_bff E) raw db)
       else token_caller E raw requested db)"

section \<open>The owner's proof, and the whole of authentication\<close>

definition str_of :: "json \<Rightarrow> string" where
  "str_of v = (case v of JStr s \<Rightarrow> s | _ \<Rightarrow> [])"

definition api_ctx_of :: "(string \<times> json) list \<Rightarrow> api_ctx" where
  "api_ctx_of ctx =
     \<lparr>ac_sub = str_of (obj_get ctx ''sub''), ac_tenant = str_of (obj_get ctx ''tenant''),
      ac_role = json_string (obj_get ctx ''role''), ac_oidc_sub = json_string (obj_get ctx ''oidc_sub''),
      ac_identity_type = json_string (obj_get ctx ''identity_type''), ac_service = truthy (obj_get ctx ''service''),
      ac_api_key = truthy (obj_get ctx ''api_key'')\<rparr>"

definition owner_context :: "api_ctx \<Rightarrow> (string \<times> json) list \<Rightarrow> (string \<times> json) list" where
  "owner_context c ctx =
     obj_update ctx [(''sub'', JStr (ac_sub c)), (''oidc_sub'', JStr (the (ac_oidc_sub c))),
       (''identity_type'', JStr (the (ac_identity_type c))), (''service'', JBool (ac_service c))]"

definition alg_of :: "bearer_env \<Rightarrow> string \<Rightarrow> string option" where
  "alg_of E raw = (case be_header E raw of None \<Rightarrow> None | Some header \<Rightarrow> json_string (obj_get header ''alg''))"

definition owner_checked ::
  "bearer_env \<Rightarrow> int \<Rightarrow> bool \<Rightarrow> string \<Rightarrow> caller \<Rightarrow> access_db \<Rightarrow> ((string \<times> json) list \<times> bool) res" where
  "owner_checked E t resolver raw c db =
     (if \<not> is_admin_role (context_role (bf_repr (be_bff E)) (fst c)) then Inr (fst c, False)
      else res_bind
        (if resolver \<and> snd c = None
         then map_sum id (\<lambda>(claims, iid, a). (owner_context a (fst c), Some (claims, iid)))
                (resolve_api_owner_proof (alg_of E) (be_bff E) (api_ctx_of (fst c)) raw (ad_identity db))
         else Inr c) (\<lambda>(ctx, proof).
           map_sum id (\<lambda>_. (ctx, True))
             (validate_api_owner (be_mailbox E) (be_bff E) t (api_ctx_of ctx) (map_option fst proof) (map_option snd proof)
                (ad_identity db))))"

text \<open>\<open>except HTTPException: raise\<close>, and every other exception is invalid credentials.\<close>

definition or_invalid :: "'a res \<Rightarrow> 'a res" where
  "or_invalid r =
     (case r of Inl (HTTPException code detail) \<Rightarrow> Inl (HTTPException code detail)
      | Inl _ \<Rightarrow> Inl (http 401 ''invalid_credentials'') | Inr x \<Rightarrow> Inr x)"

definition authenticated :: "bearer_env \<Rightarrow> api_request \<Rightarrow> int \<Rightarrow> access_db \<Rightarrow> ((string \<times> json) list \<times> bool) res" where
  "authenticated E rq t db =
     (if \<not> starts_with ''Bearer '' (aq_authorization rq) then Inl (http 401 ''authentication_required'')
      else (let raw = drop 7 (aq_authorization rq)
            in res_bind (tenant_header rq) (\<lambda>requested.
                 let resolver = (strip (env_get (bf_env (be_bff E)) ''KLYROW_TENANT_RESOLVER_URL'' []) \<noteq> [])
                 in or_invalid
                      (res_bind (if resolver then map_sum id (\<lambda>ctx. (ctx, None)) (resolved_caller E rq raw requested db)
                                 else own_caller E raw requested db) (\<lambda>c.
                         owner_checked E t resolver raw c db)))))"

section \<open>Rate limits\<close>

datatype bucket_key = TenantBucket string | AuthBucket string string

type_synonym buckets = "bucket_key \<Rightarrow> int list"

definition recent :: "int \<Rightarrow> int list \<Rightarrow> int list" where
  "recent t q = dropWhile (\<lambda>x. x < t - seconds 60) q"

definition rate_check :: "env \<Rightarrow> string \<Rightarrow> string \<Rightarrow> int \<Rightarrow> bucket_key \<Rightarrow> buckets \<Rightarrow> unit res \<times> buckets" where
  "rate_check e name dflt t k bk =
     (let q = recent t (bk k); bk' = bk(k := q)
      in case env_int e name dflt of
           Inl x \<Rightarrow> (Inl x, bk')
         | Inr limit \<Rightarrow>
             (if limit \<le> int (length q) then (Inl (http 429 ''rate_limit_exceeded''), bk')
              else (Inr (), bk(k := q @ [t]))))"

definition auth_rate :: "env \<Rightarrow> int \<Rightarrow> string option \<Rightarrow> string \<Rightarrow> buckets \<Rightarrow> unit res \<times> buckets" where
  "auth_rate e t client action bk =
     rate_check e ''KLYROW_AUTH_RATE_PER_MINUTE'' ''10'' t
       (AuthBucket action (case client of None \<Rightarrow> ''unknown'' | Some h \<Rightarrow> h)) bk"

definition auth :: "bearer_env \<Rightarrow> api_request \<Rightarrow> int \<Rightarrow> access_db \<Rightarrow> buckets \<Rightarrow> ((string \<times> json) list \<times> bool) res \<times> buckets" where
  "auth E rq t db bk =
     (case authenticated E rq t db of
        Inl x \<Rightarrow> (Inl x, bk)
      | Inr (ctx, owner) \<Rightarrow>
          (case rate_check (bf_env (be_bff E)) ''KLYROW_RATE_PER_MINUTE'' ''60'' t
                  (TenantBucket (str_of (obj_get ctx ''tenant''))) bk of
             (Inl x, bk') \<Rightarrow> (Inl x, bk')
           | (Inr _, bk') \<Rightarrow> (Inr (ctx, owner), bk')))"

text \<open>\<open>require(*roles)\<close>, and the dedicated identity of Server A.\<close>

definition require_role :: "string list \<Rightarrow> (string \<times> json) list \<Rightarrow> (string \<times> json) list res" where
  "require_role roles ctx =
     (if map_of ctx ''role'' = None then Inl (KeyError ''role'')
      else if obj_get ctx ''role'' \<notin> JStr ` set roles then Inl (http 403 ''insufficient_role'') else Inr ctx)"

definition beyvra_service_auth ::
  "bff_env \<Rightarrow> string \<Rightarrow> string \<Rightarrow> string \<Rightarrow> identity_db \<Rightarrow> (string \<times> json) list res" where
  "beyvra_service_auth B authorization identity scopes db =
     (let e = bf_env B; supplied = (if starts_with ''Bearer '' authorization then drop 7 authorization else [])
      in case fl_text (bf_files B) (env_get e ''BEYVRA_EMAIL_SERVICE_TOKEN_FILE'' []) of
           None \<Rightarrow> Inl (http 503 ''service_identity_unavailable'')
         | Some text \<Rightarrow>
             (if strip text = [] then Inl (http 401 ''invalid_service_identity'')
              else res_bind (compare_digest supplied (strip text)) (\<lambda>same.
                if \<not> same then Inl (http 401 ''invalid_service_identity'')
                else if identity \<noteq> ''codestra-server-a:beyvra-email-production'' then Inl (http 403 ''wrong_service_identity'')
                else if ''email.send'' \<notin> set (words scopes) then Inl (http 403 ''email_send_scope_required'')
                else (let tid = env_get e ''BEYVRA_EMAIL_TENANT_ID'' []
                      in if tid = [] \<or> \<not> tenant_enabled db tid then Inl (http 403 ''beyvra_tenant_unavailable'')
                         else Inr [(''sub'', JStr ''beyvra-email-production''), (''tenant'', JStr tid),
                                   (''role'', JStr ''email_service''), (''service'', JBool True),
                                   (''scopes'', JList (map JStr (remdups (words scopes))))]))))"

section \<open>Who comes through\<close>

lemma or_invalid_Inr [simp]: "or_invalid r = Inr x \<longleftrightarrow> r = Inr x"
  by (auto simp: or_invalid_def split: sum.splits exn.splits)

lemma map_sum_Inr_iff: "map_sum id f x = Inr y \<longleftrightarrow> (\<exists>z. x = Inr z \<and> y = f z)"
  by (cases x) auto

definition resolver_on :: "bearer_env \<Rightarrow> bool" where
  "resolver_on E \<longleftrightarrow> strip (env_get (bf_env (be_bff E)) ''KLYROW_TENANT_RESOLVER_URL'' []) \<noteq> []"

lemma authenticated_Inr:
  assumes "authenticated E rq t db = Inr (ctx, owner)"
  obtains requested c where "starts_with ''Bearer '' (aq_authorization rq)" and "tenant_header rq = Inr requested"
    and "(if resolver_on E then map_sum id (\<lambda>ctx. (ctx, None)) (resolved_caller E rq (drop 7 (aq_authorization rq)) requested db)
          else own_caller E (drop 7 (aq_authorization rq)) requested db) = Inr c"
    and "owner_checked E t (resolver_on E) (drop 7 (aq_authorization rq)) c db = Inr (ctx, owner)"
proof -
  have b: "starts_with ''Bearer '' (aq_authorization rq)"
    using assms by (auto simp: authenticated_def split: if_splits)
  then show thesis
    using assms that unfolding authenticated_def resolver_on_def Let_def by (auto simp: res_bind_Inr)
qed

lemma owner_context_gets:
  "obj_get (owner_context c ctx) ''role'' = obj_get ctx ''role''" "obj_get (owner_context c ctx) ''tenant'' = obj_get ctx ''tenant''"
  "obj_get (owner_context c ctx) ''permissions'' = obj_get ctx ''permissions''"
  "obj_get (owner_context c ctx) ''sub'' = JStr (ac_sub c)"
  by (simp_all add: owner_context_def obj_update_def)

lemma context_role_owner [simp]: "context_role repr_of (owner_context c ctx) = context_role repr_of ctx"
  by (simp add: context_role_def claim_text_def owner_context_gets)

text \<open>The owner's check keeps tenant, role and permissions; a platform role gets through only with a proof.\<close>

lemma owner_checked_Inr:
  assumes "owner_checked E t resolver raw c db = Inr (ctx, owner)"
  shows "obj_get ctx ''tenant'' = obj_get (fst c) ''tenant'' \<and> obj_get ctx ''role'' = obj_get (fst c) ''role'' \<and>
    obj_get ctx ''permissions'' = obj_get (fst c) ''permissions'' \<and>
    owner = is_admin_role (context_role (bf_repr (be_bff E)) ctx) \<and>
    (owner \<longrightarrow> (\<exists>proof. validate_api_owner (be_mailbox E) (be_bff E) t (api_ctx_of ctx) (map_option fst proof) (map_option snd proof)
        (ad_identity db) = Inr ())) \<and> (\<not> owner \<or> \<not> resolver \<longrightarrow> ctx = fst c)"
proof (cases "is_admin_role (context_role (bf_repr (be_bff E)) (fst c))")
  case False
  then show ?thesis using assms by (auto simp: owner_checked_def)
next
  case True
  obtain ctx1 proof1 where p: "(if resolver \<and> snd c = None
         then map_sum id (\<lambda>(claims, iid, a). (owner_context a (fst c), Some (claims, iid)))
                (resolve_api_owner_proof (alg_of E) (be_bff E) (api_ctx_of (fst c)) raw (ad_identity db))
         else Inr c) = Inr (ctx1, proof1)"
    and v: "validate_api_owner (be_mailbox E) (be_bff E) t (api_ctx_of ctx1) (map_option fst proof1) (map_option snd proof1)
       (ad_identity db) = Inr ()" and r: "ctx = ctx1" "owner"
    using assms True by (auto simp: owner_checked_def res_bind_Inr map_sum_Inr_iff)
  have "ctx1 = fst c \<or> resolver \<and> (\<exists>a. ctx1 = owner_context a (fst c))"
    using p by (auto simp: map_sum_Inr_iff split: if_splits prod.splits)
  then show ?thesis using r v True by (auto simp: owner_context_gets)
qed

lemma resolver_context_Inr:
  assumes "resolver_context permission requested answer = Inr ctx"
  shows "\<exists>iid tid. obj_get ctx ''sub'' = JStr iid \<and> obj_get ctx ''tenant'' = JStr tid \<and> obj_get ctx ''permissions'' = JList [JStr permission] \<and>
    (\<not> absent requested \<longrightarrow> requested = Some tid) \<and> (\<exists>body. answer = Answered 200 (Some (JObj body)) \<and>
       obj_get body ''authorized'' = JBool True \<and> obj_get body ''permission'' = JStr permission \<and> filled body ''tenant_id'' = Some tid)"
proof -
  obtain status body where a: "answer = Answered status body" and s: "status = 200"
    using assms by (auto simp: resolver_context_def split: resolver_answer.splits if_splits)
  then obtain resolved where b: "body = Some (JObj resolved)" "obj_get resolved ''authorized'' = JBool True"
      "obj_get resolved ''permission'' = JStr permission"
    using assms by (auto simp: resolver_context_def split: option.splits json.splits if_splits)
  obtain iid tid where f: "filled resolved ''identity_id'' = Some iid" "filled resolved ''tenant_id'' = Some tid"
    using assms a s b by (auto simp: resolver_context_def split: option.splits)
  then show ?thesis
    using assms a s b by (auto simp: resolver_context_def obj_get_def absent_def split: if_splits)
qed

lemma oidc_caller_Inr:
  assumes "oidc_caller E raw requested db = Inr (ctx, claims, iid)"
  shows "\<exists>i m. bf_verified (be_bff E) raw (env_get (bf_env (be_bff E)) ''KLYROW_OIDC_AUDIENCE'' ''klyrow-api'') CANONICAL_ISSUER = Some claims \<and>
    i \<in> set (id_identities (ad_identity db)) \<and> oi_issuer i = CANONICAL_ISSUER \<and> obj_get claims ''sub'' = JStr (oi_subject i) \<and>
    oi_enabled i \<and> m \<in> set (id_members (ad_identity db)) \<and> tm_user_id m = oi_user_id i \<and> tm_active m \<and>
    obj_get ctx ''sub'' = JStr (oi_user_id i) \<and> obj_get ctx ''tenant'' = JStr (tm_tenant_id m) \<and>
    obj_get ctx ''role'' = JStr (tm_role m) \<and> (\<not> absent requested \<longrightarrow> requested = Some (tm_tenant_id m))"
proof -
  let ?B = "be_bff E"
  obtain iss where iss: "canonical_issuer (bf_env ?B) = Inr iss"
    using assms by (auto simp: oidc_caller_def Let_def res_bind_Inr)
  then have c: "iss = CANONICAL_ISSUER" by (rule canonical_issuer_Inr)
  let ?P = "\<lambda>cl i. oi_issuer i = iss \<and> JStr (oi_subject i) = obj_get cl ''sub'' \<and> oi_enabled i"
  obtain cl where v: "bf_verified ?B raw (env_get (bf_env ?B) ''KLYROW_OIDC_AUDIENCE'' ''klyrow-api'') iss = Some cl"
    using assms iss by (auto simp: oidc_caller_def Let_def split: option.splits)
  obtain i where i: "find_row (?P cl) (id_identities (ad_identity db)) = Some i"
    using assms iss v by (auto simp: oidc_caller_def Let_def split: option.splits)
  let ?tid = "if absent requested then oi_default_tenant_id i else requested"
  obtain m where m: "\<not> absent ?tid" "active_member (ad_identity db) (the ?tid) (oi_user_id i) = Some m"
    using assms iss v i by (auto simp: oidc_caller_def Let_def split: option.splits if_splits)
  have mm: "m \<in> set (id_members (ad_identity db))" "tm_tenant_id m = the ?tid" "tm_user_id m = oi_user_id i" "tm_active m"
    using m(2) unfolding active_member_def by (auto dest: find_row_Some)
  have ctx: "claims = cl" "obj_get ctx ''sub'' = JStr (oi_user_id i)" "obj_get ctx ''tenant'' = JStr (the ?tid)"
      "obj_get ctx ''role'' = JStr (tm_role m)"
    using assms iss v i m by (auto simp: oidc_caller_def Let_def obj_get_def)
  have "requested = Some (the ?tid)" if "\<not> absent requested"
    using that by (auto simp: absent_def split: option.splits)
  then show ?thesis using find_row_Some [OF i] mm ctx v c by metis
qed

lemma key_caller_Inr:
  "key_caller B raw db = Inr ctx \<Longrightarrow> \<exists>k \<in> set (ad_keys db). ak_key_hash k = bf_sha B raw \<and> \<not> ak_revoked k \<and>
     obj_get ctx ''sub'' = JStr (ak_id k) \<and> obj_get ctx ''tenant'' = JStr (ak_tenant_id k) \<and>
     tenant_enabled (ad_identity db) (ak_tenant_id k)"
  by (auto simp: key_caller_def obj_get_def dest!: find_row_Some split: option.splits if_splits)

lemma tenant_checked_Inr:
  "tenant_checked db c = Inr c' \<longleftrightarrow> c' = c \<and> (\<exists>tid. obj_get (fst c) ''tenant'' = JStr tid \<and> tenant_enabled (ad_identity db) tid)"
  by (auto simp: tenant_checked_def split: json.splits)

definition oidc_member :: "bearer_env \<Rightarrow> string \<Rightarrow> identity_db \<Rightarrow> identity_row \<Rightarrow> member_row \<Rightarrow> bool" where
  "oidc_member E raw db i m \<longleftrightarrow>
     (\<exists>claims. bf_verified (be_bff E) raw (env_get (bf_env (be_bff E)) ''KLYROW_OIDC_AUDIENCE'' ''klyrow-api'') CANONICAL_ISSUER = Some claims \<and>
        obj_get claims ''sub'' = JStr (oi_subject i)) \<and>
     i \<in> set (id_identities db) \<and> oi_issuer i = CANONICAL_ISSUER \<and> oi_enabled i \<and>
     m \<in> set (id_members db) \<and> tm_user_id m = oi_user_id i \<and> tm_active m"

text \<open>
  C9. In production, without the external resolver, a bearer caller is one of three: the middleware with
  its configured key, in the tenant it names; an unrevoked API key, in the key's own tenant; or a token
  verified against the canonical issuer whose subject is an enabled identity with an active membership,
  in that membership's tenant and role. A locally signed token is never accepted, and the tenant is
  enabled in every case.
\<close>

theorem production_caller_known:
  assumes "authenticated E rq t db = Inr (ctx, owner)" and "production (bf_env (be_bff E))" and "\<not> resolver_on E"
  shows "\<exists>tid. obj_get ctx ''tenant'' = JStr tid \<and> tenant_enabled (ad_identity db) tid \<and>
    (runtime_secret (bf_files (be_bff E)) (bf_env (be_bff E)) ''KLYROW_MIDDLEWARE_API_KEY'' = Inr (drop 7 (aq_authorization rq)) \<and>
       drop 7 (aq_authorization rq) \<noteq> [] \<and> tenant_header rq = Inr (Some tid) \<or>
     (\<exists>k \<in> set (ad_keys db). ak_key_hash k = bf_sha (be_bff E) (drop 7 (aq_authorization rq)) \<and> \<not> ak_revoked k \<and>
        ak_tenant_id k = tid \<and> obj_get ctx ''sub'' = JStr (ak_id k)) \<or>
     (\<exists>i m. oidc_member E (drop 7 (aq_authorization rq)) (ad_identity db) i m \<and> tm_tenant_id m = tid \<and>
        obj_get ctx ''sub'' = JStr (oi_user_id i) \<and> obj_get ctx ''role'' = JStr (tm_role m)))"
proof (rule authenticated_Inr [OF assms(1)])
  let ?raw = "drop 7 (aq_authorization rq)"
  fix requested c
  assume h: "tenant_header rq = Inr requested"
    and "(if resolver_on E then map_sum id (\<lambda>ctx. (ctx, None)) (resolved_caller E rq ?raw requested db)
          else own_caller E ?raw requested db) = Inr c"
    and "owner_checked E t (resolver_on E) ?raw c db = Inr (ctx, owner)"
  then have own: "own_caller E ?raw requested db = Inr c" and ctx: "ctx = fst c"
    using owner_checked_Inr [of E t False ?raw c db ctx owner] assms(3) by simp_all
  obtain key where key: "runtime_secret (bf_files (be_bff E)) (bf_env (be_bff E)) ''KLYROW_MIDDLEWARE_API_KEY'' = Inr key"
    and rest: "(if key \<noteq> [] \<and> ?raw = key then map_sum id (\<lambda>ctx. (ctx, None)) (middleware_caller requested db)
       else if starts_with ''kly_'' ?raw then map_sum id (\<lambda>ctx. (ctx, None)) (key_caller (be_bff E) ?raw db)
       else token_caller E ?raw requested db) = Inr c"
    using own by (auto simp: own_caller_def res_bind_Inr)
  show ?thesis
  proof (cases "key \<noteq> [] \<and> ?raw = key")
    case True
    then have "\<not> absent requested \<and> tenant_enabled (ad_identity db) (the requested) \<and> obj_get ctx ''tenant'' = JStr (the requested)"
      using rest by (auto simp: ctx map_sum_Inr_iff middleware_caller_def obj_get_def split: if_splits)
    then show ?thesis using True key h by (auto simp: absent_def split: option.splits)
  next
    case nokey: False
    show ?thesis
    proof (cases "starts_with ''kly_'' ?raw")
      case True
      then have "key_caller (be_bff E) ?raw db = Inr ctx" using nokey rest by (auto simp: ctx map_sum_Inr_iff)
      from key_caller_Inr [OF this] show ?thesis by blast
    next
      case False
      then have tok: "token_caller E ?raw requested db = Inr c" using nokey rest by auto
      then obtain c0 where c0: "tenant_checked db c0 = Inr c" and
          branch: "map_sum id (\<lambda>ctx. (ctx, None)) (local_caller E ?raw db) = Inr c0 \<or>
            map_sum id (\<lambda>(ctx, claims, iid). (ctx, Some (claims, iid))) (oidc_caller E ?raw requested db) = Inr c0"
        by (auto simp: token_caller_def res_bind_Inr split: option.splits if_splits)
      have "local_caller E ?raw db = Inl (http 401 ''canonical_oidc_required'')"
        using assms(2) by (simp add: local_caller_def)
      then obtain claims iid where o: "oidc_caller E ?raw requested db = Inr (ctx, claims, iid)"
        using branch c0 by (auto simp: ctx map_sum_Inr_iff tenant_checked_Inr)
      from oidc_caller_Inr [OF o] obtain i m where im: "oidc_member E ?raw (ad_identity db) i m"
          "obj_get ctx ''sub'' = JStr (oi_user_id i)" "obj_get ctx ''tenant'' = JStr (tm_tenant_id m)"
          "obj_get ctx ''role'' = JStr (tm_role m)"
        unfolding oidc_member_def by blast
      have "tenant_enabled (ad_identity db) (tm_tenant_id m)"
        using c0 im(3) by (simp add: ctx tenant_checked_Inr)
      with im show ?thesis by (intro exI [of _ "tm_tenant_id m"] conjI disjI2 exI [of _ i] exI [of _ m] refl) simp_all
    qed
  qed
qed







section \<open>The rate of a tenant\<close>

text \<open>The bucket of a key holds the admissions of the last minute; it is never longer than the limit.\<close>

fun admitted :: "int \<Rightarrow> int list \<Rightarrow> int list \<Rightarrow> int list" where
  "admitted limit q [] = []"
| "admitted limit q (t # ts) =
     (let q' = recent t q
      in if limit \<le> int (length q') then admitted limit q' ts else t # admitted limit (q' @ [t]) ts)"

definition in_window :: "int \<Rightarrow> int list \<Rightarrow> nat" where
  "in_window t xs = length (filter (\<lambda>x. t - seconds 60 \<le> x \<and> x \<le> t) xs)"

lemma in_window_simps [simp]:
  "in_window t [] = 0" "in_window t (xs @ ys) = in_window t xs + in_window t ys"
  "in_window t (x # xs) = (if t - seconds 60 \<le> x \<and> x \<le> t then 1 else 0) + in_window t xs"
  by (simp_all add: in_window_def)

lemma in_window_le: "in_window t xs \<le> length xs"
  by (simp add: in_window_def)

lemma in_window_none: "(\<And>x. x \<in> set xs \<Longrightarrow> \<not> (t - seconds 60 \<le> x \<and> x \<le> t)) \<Longrightarrow> in_window t xs = 0"
  by (auto simp: in_window_def filter_empty_conv)

lemma recent_split: "sorted q \<Longrightarrow> \<exists>old. q = old @ recent t q \<and> (\<forall>x \<in> set old. x < t - seconds 60)"
  using takeWhile_dropWhile_id [of "\<lambda>x. x < t - seconds 60" q] set_takeWhileD
  unfolding recent_def by metis

lemma sorted_recent: "sorted q \<Longrightarrow> sorted (recent t q)"
  by (simp add: recent_def sorted_dropWhile)

lemma recent_subset: "set (recent t q) \<subseteq> set q"
  using set_dropWhileD unfolding recent_def by fastforce

lemma length_recent: "length (recent t q) \<le> length q"
  by (simp add: recent_def length_dropWhile_le)

lemma admitted_from: "set (admitted limit q ts) \<subseteq> set ts"
  by (induction limit q ts rule: admitted.induct) (auto simp: Let_def)

text \<open>Times that are dropped lie a minute before everything that is still to come.\<close>

lemma window_drop:
  assumes "\<forall>x \<in> set old. x < b - seconds 60" and "\<forall>x \<in> set later. b \<le> x" and "length (old @ q) \<le> n"
    and "in_window t (q @ later) \<le> n"
  shows "in_window t (old @ q @ later) \<le> n"
proof (cases "t < b")
  case True
  then have "in_window t later = 0" using assms(2) by (intro in_window_none) fastforce
  then show ?thesis using in_window_le [of t "old @ q"] assms(3) by simp
next
  case False
  then have "in_window t old = 0" using assms(1) by (intro in_window_none) fastforce
  then show ?thesis using assms(4) by simp
qed

lemma admitted_window:
  assumes "sorted q" and "sorted ts" and "\<forall>x \<in> set q. \<forall>y \<in> set ts. x \<le> y" and "length q \<le> nat limit"
  shows "in_window t (q @ admitted limit q ts) \<le> nat limit"
  using assms
proof (induction limit q ts rule: admitted.induct)
  case (1 limit q)
  then show ?case using in_window_le [of t q] by simp
next
  case (2 limit q b ts)
  let ?q = "recent b q"
  obtain old where old: "q = old @ ?q" "\<forall>x \<in> set old. x < b - seconds 60" using recent_split [OF "2.prems"(1)] by blast
  have sub: "set ?q \<subseteq> set q" by (rule recent_subset)
  have s: "sorted ?q" by (rule sorted_recent [OF "2.prems"(1)])
  have later: "\<forall>x \<in> set ts. b \<le> x" using "2.prems"(2) by simp
  have len: "length ?q \<le> nat limit" using length_recent [of b q] "2.prems"(4) by simp
  show ?case
  proof (cases "limit \<le> int (length ?q)")
    case True
    have "in_window t (?q @ admitted limit ?q ts) \<le> nat limit"
      by (rule "2.IH"(1) [OF refl True s]) (use "2.prems" sub len in auto)
    moreover have "\<forall>x \<in> set (admitted limit ?q ts). b \<le> x" using admitted_from later by fastforce
    moreover have "length (old @ ?q) \<le> nat limit" using "2.prems"(4) old(1) by simp
    ultimately have "in_window t (old @ ?q @ admitted limit ?q ts) \<le> nat limit"
      by (intro window_drop [OF old(2)])
    then have "in_window t ((old @ ?q) @ admitted limit ?q ts) \<le> nat limit" by simp
    moreover have "admitted limit q (b # ts) = admitted limit ?q ts" using True by (simp add: Let_def)
    ultimately show ?thesis using old(1) by simp
  next
    case False
    have "sorted (?q @ [b])" using s sub "2.prems"(3) by (auto simp: sorted_append)
    then have "in_window t ((?q @ [b]) @ admitted limit (?q @ [b]) ts) \<le> nat limit"
      by (rule "2.IH"(2) [OF refl False]) (use "2.prems" sub False in auto)
    moreover have "\<forall>x \<in> set (b # admitted limit (?q @ [b]) ts). b \<le> x" using admitted_from later by fastforce
    moreover have "length (old @ ?q) \<le> nat limit" using "2.prems"(4) old(1) by simp
    ultimately have "in_window t (old @ ?q @ b # admitted limit (?q @ [b]) ts) \<le> nat limit"
      by (intro window_drop [OF old(2)]) (simp_all del: in_window_simps(2))
    then have "in_window t ((old @ ?q) @ b # admitted limit (?q @ [b]) ts) \<le> nat limit" by simp
    moreover have "admitted limit q (b # ts) = b # admitted limit (?q @ [b]) ts" using False by (simp add: Let_def)
    ultimately show ?thesis using old(1) by simp
  qed
qed

fun auth_run :: "bearer_env \<Rightarrow> (api_request \<times> int \<times> access_db) list \<Rightarrow> buckets
     \<Rightarrow> (int \<times> ((string \<times> json) list \<times> bool) res) list" where
  "auth_run E [] bk = []"
| "auth_run E ((rq, t, db) # calls) bk =
     (case auth E rq t db bk of (answer, bk') \<Rightarrow> (t, answer) # auth_run E calls bk')"

definition for_tenant :: "string \<Rightarrow> ((string \<times> json) list \<times> bool) res \<Rightarrow> bool" where
  "for_tenant tid answer =
     (case answer of Inl _ \<Rightarrow> False | Inr (ctx, _) \<Rightarrow> str_of (obj_get ctx ''tenant'') = tid)"

definition reached :: "bearer_env \<Rightarrow> string \<Rightarrow> (api_request \<times> int \<times> access_db) list \<Rightarrow> int list" where
  "reached E tid calls =
     map (\<lambda>(rq, t, db). t) (filter (\<lambda>(rq, t, db). for_tenant tid (authenticated E rq t db)) calls)"

lemma for_tenant_simps [simp]:
  "\<not> for_tenant tid (Inl x)" "for_tenant tid (Inr (ctx, owner)) \<longleftrightarrow> str_of (obj_get ctx ''tenant'') = tid"
  by (simp_all add: for_tenant_def)

lemma reached_simps [simp]:
  "reached E tid [] = []"
  "reached E tid ((rq, t, db) # calls) =
     (if for_tenant tid (authenticated E rq t db) then [t] else []) @ reached E tid calls"
  by (simp_all add: reached_def)

lemma auth_run_admitted:
  assumes "env_int (bf_env (be_bff E)) ''KLYROW_RATE_PER_MINUTE'' ''60'' = Inr limit"
  shows "map fst (filter (for_tenant tid \<circ> snd) (auth_run E calls bk)) =
    admitted limit (bk (TenantBucket tid)) (reached E tid calls)"
proof (induction calls arbitrary: bk)
  case Nil
  then show ?case by simp
next
  case (Cons call calls)
  obtain rq t db where call: "call = (rq, t, db)" by (cases call)
  show ?case
  proof (cases "authenticated E rq t db")
    case (Inl x)
    then have "auth E rq t db bk = (Inl x, bk)" by (simp add: auth_def)
    then show ?thesis using Cons.IH [of bk] Inl by (simp add: call)
  next
    case (Inr y)
    obtain ctx owner where y: "y = (ctx, owner)" by (cases y)
    define k where "k = TenantBucket (str_of (obj_get ctx ''tenant''))"
    define q where "q = recent t (bk k)"
    define bk' where "bk' = (if limit \<le> int (length q) then bk(k := q) else bk(k := q @ [t]))"
    have a: "auth E rq t db bk =
        (if limit \<le> int (length q) then Inl (http 429 ''rate_limit_exceeded'') else Inr (ctx, owner), bk')"
      using Inr y assms by (simp add: auth_def rate_check_def Let_def k_def q_def bk'_def)
    note ih = Cons.IH [of bk']
    show ?thesis
    proof (cases "str_of (obj_get ctx ''tenant'') = tid")
      case True
      then have "bk' (TenantBucket tid) = (if limit \<le> int (length q) then q else q @ [t])" "q = recent t (bk (TenantBucket tid))"
        by (simp_all add: bk'_def k_def q_def)
      then show ?thesis using True ih Inr by (simp add: call a y Let_def)
    next
      case False
      then have "bk' (TenantBucket tid) = bk (TenantBucket tid)" by (simp add: bk'_def k_def)
      then show ?thesis using False ih Inr by (simp add: call a y)
    qed
  qed
qed

text \<open>
  C21. The rate limit holds over every minute, not only from one reset to the next: of any sequence of
  requests in order of time, whoever sends them and with whatever credentials, at most the configured
  number is admitted for one tenant within any sixty seconds.
\<close>

theorem tenant_rate_bounded:
  assumes "env_int (bf_env (be_bff E)) ''KLYROW_RATE_PER_MINUTE'' ''60'' = Inr limit"
    and "sorted (map (fst \<circ> snd) calls)"
  shows "length (filter (\<lambda>(x, answer). t - seconds 60 \<le> x \<and> x \<le> t \<and> for_tenant tid answer) (auth_run E calls (\<lambda>_. [])))
    \<le> nat limit"
proof -
  let ?run = "auth_run E calls (\<lambda>_. [])"
  have "sorted (reached E tid calls)"
    using assms(2) sorted_filter [of "fst \<circ> snd" calls "\<lambda>(rq, t, db). for_tenant tid (authenticated E rq t db)"]
    by (simp add: reached_def comp_def case_prod_unfold)
  then have "in_window t (admitted limit [] (reached E tid calls)) \<le> nat limit"
    using admitted_window [of "[]" "reached E tid calls" limit t] by simp
  then have "in_window t (map fst (filter (for_tenant tid \<circ> snd) ?run)) \<le> nat limit"
    using auth_run_admitted [OF assms(1), of tid calls "\<lambda>_. []"] by simp
  moreover have "length (filter (\<lambda>(x, answer). t - seconds 60 \<le> x \<and> x \<le> t \<and> for_tenant tid answer) ?run) =
      in_window t (map fst (filter (for_tenant tid \<circ> snd) ?run))"
    by (simp add: in_window_def filter_map comp_def case_prod_unfold conj_ac)
  ultimately show ?thesis by simp
qed

section \<open>Concrete instances\<close>

definition bearer_sample :: bearer_env where
  "bearer_sample = \<lparr>be_bff = sample_bff\<lparr>bf_env := env_of [(''KLYROW_ENV'', ''production''), (''KLYROW_RATE_PER_MINUTE'', ''1'')]\<rparr>,
     be_mailbox = Some, be_header = \<lambda>_. Some [(''alg'', JStr ''RS256'')], be_local = \<lambda>_. None, be_resolver = \<lambda>_. Unreachable\<rparr>"

definition key_request :: api_request where
  "key_request = \<lparr>aq_authorization = ''Bearer kly_1'', aq_tenant = None, aq_tenant_alias = None, aq_method = ''POST'',
     aq_path = ''/v1/messages'', aq_header_names = []\<rparr>"

definition access_sample :: access_db where
  "access_sample = \<lparr>ad_identity = sample_identity_db,
     ad_keys = [\<lparr>ak_id = ''k1'', ak_tenant_id = ''t1'', ak_name = ''key'', ak_key_hash = sample_mac ''kly_1'', ak_revoked = False\<rparr>],
     ad_sessions = []\<rparr>"

lemma key_sample:
  "authenticated bearer_sample key_request t access_sample =
     Inr ([(''sub'', JStr ''k1''), (''tenant'', JStr ''t1''), (''role'', JStr ''tenant_admin''), (''api_key'', JBool True)], False)"
proof -
  have "\<not> resolver_on bearer_sample" by code_simp
  moreover have "runtime_secret (bf_files (be_bff bearer_sample)) (bf_env (be_bff bearer_sample)) ''KLYROW_MIDDLEWARE_API_KEY'' = Inr []"
    by code_simp
  moreover have "key_caller (be_bff bearer_sample) ''kly_1'' access_sample =
      Inr [(''sub'', JStr ''k1''), (''tenant'', JStr ''t1''), (''role'', JStr ''tenant_admin''), (''api_key'', JBool True)]"
    by code_simp
  moreover have "\<not> is_admin_role (context_role (bf_repr (be_bff bearer_sample))
      [(''sub'', JStr ''k1''), (''tenant'', JStr ''t1''), (''role'', JStr ''tenant_admin''), (''api_key'', JBool True)])"
    by code_simp
  ultimately show ?thesis
    by (simp add: authenticated_def key_request_def starts_with_def tenant_header_def absent_def resolver_on_def own_caller_def
        owner_checked_def)
qed

theorem production_caller_known_witness:
  "\<exists>tid ctx. authenticated bearer_sample key_request 5 access_sample = Inr (ctx, False) \<and> obj_get ctx ''tenant'' = JStr tid \<and>
     tenant_enabled (ad_identity access_sample) tid"
proof -
  have "production (bf_env (be_bff bearer_sample))" "\<not> resolver_on bearer_sample" by code_simp+
  from production_caller_known [OF key_sample [of 5] this] key_sample [of 5] show ?thesis by blast
qed

theorem tenant_rate_bounded_witness:
  "length (filter (\<lambda>(x, answer). 10 - seconds 60 \<le> x \<and> x \<le> 10 \<and> for_tenant ''t1'' answer)
     (auth_run bearer_sample [(key_request, 5, access_sample), (key_request, 7, access_sample)] (\<lambda>_. []))) \<le> 1"
proof -
  have "env_int (bf_env (be_bff bearer_sample)) ''KLYROW_RATE_PER_MINUTE'' ''60'' = Inr 1" by code_simp
  from tenant_rate_bounded [OF this, of "[(key_request, 5, access_sample), (key_request, 7, access_sample)]" 10 "''t1''"]
  show ?thesis by simp
qed





end
