(* ===== verification/SecretResponses.thy ===== *)
theory SecretResponses
  imports DurableResults Contracts
begin

text \<open>
  The one-time answers that carry a new credential (\<open>secret_responses.py\<close>): they are sealed under their
  own row, can be read back by their creator until a deadline, and are then erased. The sealing is the
  one of \<open>DurableResults\<close>; the Prometheus counters are not modelled. Instants are microseconds.
\<close>

section \<open>Rows and operations\<close>

record secret_row =
  sr_id :: string
  sr_tenant_id :: string
  sr_resource_type :: string
  sr_resource_id :: string
  sr_action :: string
  sr_encrypted_payload :: "string option"
  sr_created_by :: string
  sr_created_at :: int
  sr_expires_at :: int
  sr_retrieved_at :: "int option"
  sr_redacted_at :: "int option"

definition retention_seconds :: "env \<Rightarrow> int res" where
  "retention_seconds e =
     (case int_of_string (env_get e ''KLYROW_SECRET_RESPONSE_RETENTION_SECONDS'' ''86400'') of
        None \<Rightarrow> Inl (ValueError ''invalid_secret_response_retention'')
      | Some i \<Rightarrow> if 60 \<le> i \<and> i \<le> 86400 then Inr i else Inl (ValueError ''invalid_secret_response_retention''))"

definition secret_binding :: "secret_row \<Rightarrow> string list" where
  "secret_binding r =
     [''secret-response'', sr_tenant_id r, sr_id r, sr_resource_type r, sr_resource_id r, sr_action r]"

text \<open>The subject of a secret: its tenant, the kind and identifier of the resource, and the action.\<close>

record secret_subject =
  ss_tenant :: string
  ss_type :: string
  ss_resource :: string
  ss_action :: string
  ss_actor :: string

record secret_draws =
  sw_hex :: string
  sw_nonce :: string

definition record_secret_response ::
  "suite \<Rightarrow> env \<Rightarrow> key_ring res \<Rightarrow> int \<Rightarrow> secret_draws \<Rightarrow> secret_subject \<Rightarrow> json \<Rightarrow> secret_row list
     \<Rightarrow> (secret_row \<times> secret_row list) res" where
  "record_secret_response su e ring t w x payload rows =
     res_bind (retention_seconds e) (\<lambda>keep.
       let r = \<lparr>sr_id = ''secresp_'' @ sw_hex w, sr_tenant_id = ss_tenant x, sr_resource_type = ss_type x,
                sr_resource_id = ss_resource x, sr_action = ss_action x, sr_encrypted_payload = None, sr_created_by = ss_actor x,
                sr_created_at = t, sr_expires_at = t + keep * 1000000, sr_retrieved_at = None, sr_redacted_at = None\<rparr>
       in res_bind (seal su ring (sw_nonce w) payload (secret_binding r)) (\<lambda>raw.
            let item = r\<lparr>sr_encrypted_payload := Some raw\<rparr>
            in if find_row (\<lambda>s. sr_id s = sr_id item) rows \<noteq> None then Inl (IntegrityError ''secret_responses'')
               else Inr (item, rows @ [item])))"

definition response_metadata :: "secret_row \<Rightarrow> (string \<times> json) list" where
  "response_metadata r = [(''secret_response_id'', JStr (sr_id r)), (''secret_expires_at'', JInt (sr_expires_at r))]"

definition read_secret_response :: "suite \<Rightarrow> env \<Rightarrow> key_ring res \<Rightarrow> int \<Rightarrow> secret_row \<Rightarrow> json res" where
  "read_secret_response su e ring t r =
     (case sr_encrypted_payload r of
        None \<Rightarrow> Inl (HTTPException 410 ''secret_response_expired'')
      | Some raw \<Rightarrow>
          (if sr_redacted_at r \<noteq> None \<or> sr_expires_at r \<le> t then Inl (HTTPException 410 ''secret_response_expired'')
           else unseal su e ring raw (secret_binding r)))"

definition redacted_row :: "int \<Rightarrow> secret_row \<Rightarrow> secret_row" where
  "redacted_row t r = r\<lparr>sr_encrypted_payload := None, sr_redacted_at := Some t\<rparr>"

definition set_secret :: "string \<Rightarrow> (secret_row \<Rightarrow> secret_row) \<Rightarrow> secret_row list \<Rightarrow> secret_row list" where
  "set_secret k f rows = update_rows (\<lambda>r. sr_id r = k) f rows"

definition secret_due :: "int \<Rightarrow> (string \<Rightarrow> bool) \<Rightarrow> secret_row \<Rightarrow> bool" where
  "secret_due t locked r \<longleftrightarrow> sr_encrypted_payload r \<noteq> None \<and> sr_expires_at r \<le> t \<and> \<not> locked (sr_id r)"

definition cleanup_secret_responses ::
  "int \<Rightarrow> (string \<Rightarrow> bool) \<Rightarrow> int \<Rightarrow> secret_row list \<Rightarrow> nat res \<times> secret_row list" where
  "cleanup_secret_responses t locked limit rows =
     (if \<not> (1 \<le> limit \<and> limit \<le> 500) then (Inl (ValueError ''invalid_secret_cleanup_limit''), rows)
      else (let due = select_rows (\<lambda>r. (sr_expires_at r, sr_id r)) (secret_due t locked) (nat limit) rows
            in (Inr (length due), update_rows (\<lambda>r. sr_id r \<in> set (map sr_id due)) (redacted_row t) rows)))"

definition secret_body :: "secret_row \<Rightarrow> json \<Rightarrow> (string \<times> json) list" where
  "secret_body r payload =
     [(''id'', JStr (sr_id r)), (''resource_type'', JStr (sr_resource_type r)), (''resource_id'', JStr (sr_resource_id r)),
      (''action'', JStr (sr_action r)), (''expires_at'', JInt (sr_expires_at r)), (''secret'', payload)]"

definition own_secret :: "string \<Rightarrow> string \<Rightarrow> string \<Rightarrow> secret_row \<Rightarrow> bool" where
  "own_secret k tid sub r \<longleftrightarrow> sr_id r = k \<and> sr_tenant_id r = tid \<and> sr_created_by r = sub"

definition secret_response_get ::
  "suite \<Rightarrow> env \<Rightarrow> key_ring res \<Rightarrow> int \<Rightarrow> string \<Rightarrow> string \<Rightarrow> string \<Rightarrow> secret_row list
     \<Rightarrow> (string \<times> json) list res \<times> secret_row list" where
  "secret_response_get su e ring t k tid sub rows =
     (case find_row (own_secret k tid sub) rows of
        None \<Rightarrow> (Inl (HTTPException 404 ''secret_response_not_found''), rows)
      | Some r \<Rightarrow>
          (case read_secret_response su e ring t r of
             Inr payload \<Rightarrow> (Inr (secret_body r payload), set_secret k (\<lambda>x. x\<lparr>sr_retrieved_at := Some t\<rparr>) rows)
           | Inl x \<Rightarrow>
               (Inl x, (case x of
                          HTTPException code _ \<Rightarrow>
                            (if code = 410 \<and> sr_encrypted_payload r \<noteq> None then set_secret k (redacted_row t) rows else rows)
                        | _ \<Rightarrow> rows))))"

section \<open>Runs\<close>

text \<open>A row keeps its identity and deadline, and an erased secret stays erased.\<close>

definition secret_kept :: "secret_row \<Rightarrow> secret_row \<Rightarrow> bool" where
  "secret_kept r s \<longleftrightarrow>
     sr_id s = sr_id r \<and> sr_tenant_id s = sr_tenant_id r \<and> sr_created_by s = sr_created_by r \<and>
     sr_expires_at s = sr_expires_at r \<and> (sr_encrypted_payload s = sr_encrypted_payload r \<or> sr_encrypted_payload s = None)"

interpretation secrets: row_order secret_kept sr_id
  by unfold_locales (auto simp: secret_kept_def)

definition secrets_ok :: "secret_row list \<Rightarrow> bool" where
  "secrets_ok rows \<longleftrightarrow> distinct (map sr_id rows)"

datatype secret_op =
    RecordSecret suite env "key_ring res" int secret_draws secret_subject json
  | GetSecret suite env "key_ring res" int string string string
  | CleanSecrets int "string \<Rightarrow> bool" int

fun secret_step :: "secret_op \<Rightarrow> secret_row list \<Rightarrow> secret_row list" where
  "secret_step (RecordSecret su e ring t w x payload) rows =
     (case record_secret_response su e ring t w x payload rows of Inl _ \<Rightarrow> rows | Inr (_, rows') \<Rightarrow> rows')"
| "secret_step (GetSecret su e ring t k tid sub) rows = snd (secret_response_get su e ring t k tid sub rows)"
| "secret_step (CleanSecrets t locked limit) rows = snd (cleanup_secret_responses t locked limit rows)"

lemma secret_kept_steps [simp]:
  "secret_kept r (redacted_row t r)" "secret_kept r (r\<lparr>sr_retrieved_at := Some t\<rparr>)"
  by (simp_all add: secret_kept_def redacted_row_def)

lemma record_secret_Inr:
  assumes "record_secret_response su e ring t w x payload rows = Inr (item, rows')"
  shows "rows' = rows @ [item] \<and> (\<forall>s \<in> set rows. sr_id s \<noteq> sr_id item) \<and> sr_id item = ''secresp_'' @ sw_hex w \<and>
    sr_tenant_id item = ss_tenant x \<and> sr_created_by item = ss_actor x \<and> sr_redacted_at item = None \<and>
    t + 60 * 1000000 \<le> sr_expires_at item \<and> sr_expires_at item \<le> t + 86400 * 1000000 \<and>
    (\<exists>raw. sr_encrypted_payload item = Some raw \<and> seal su ring (sw_nonce w) payload (secret_binding item) = Inr raw)"
  using assms
  by (auto simp: record_secret_response_def retention_seconds_def Let_def res_bind_Inr find_row_None secret_binding_def
      split: option.splits if_splits)

lemma secret_get_grows: "grows secret_kept rows (snd (secret_response_get su e ring t k tid sub rows))"
  by (auto simp: secret_response_get_def set_secret_def secrets.grows_refl
      intro: secrets.grows_update split: option.splits sum.splits exn.splits)

lemma secret_step_grows: "grows secret_kept rows (secret_step op rows)"
proof (cases op)
  case (RecordSecret su e ring t w x payload)
  then show ?thesis
    using record_secret_Inr [of su e ring t w x payload rows] secrets.grows_refl secrets.grows_append
    by (auto split: sum.splits)
next
  case (CleanSecrets t locked limit)
  then show ?thesis
    by (auto simp: cleanup_secret_responses_def Let_def secrets.grows_refl intro: secrets.grows_update)
qed (simp add: secret_get_grows)

lemma secret_ids:
  "map sr_id (set_secret k (redacted_row t) rows) = map sr_id rows"
  "map sr_id (set_secret k (\<lambda>x. x\<lparr>sr_retrieved_at := Some t\<rparr>) rows) = map sr_id rows"
  "map sr_id (update_rows P (redacted_row t) rows) = map sr_id rows"
  by (simp_all add: set_secret_def map_update_rows redacted_row_def)

lemma secrets_ok_step: "secrets_ok rows \<Longrightarrow> secrets_ok (secret_step op rows)"
proof (cases op)
  case (RecordSecret su e ring t w x payload)
  have "secrets_ok rows'" if "secrets_ok rows" "record_secret_response su e ring t w x payload rows = Inr (item, rows')" for item rows'
  proof -
    have "rows' = rows @ [item]" "\<forall>s \<in> set rows. sr_id s \<noteq> sr_id item" using record_secret_Inr [OF that(2)] by blast+
    then have "sr_id item \<notin> sr_id ` set rows" by (metis imageE)
    with that(1) \<open>rows' = rows @ [item]\<close> show ?thesis by (simp add: secrets_ok_def)
  qed
  with RecordSecret show "secrets_ok rows \<Longrightarrow> ?thesis" by (simp split: sum.split)
next
  case (GetSecret su e ring t k tid sub)
  then show "secrets_ok rows \<Longrightarrow> ?thesis"
    by (auto simp: secret_response_get_def secrets_ok_def secret_ids simp del: map_map split: option.splits sum.splits exn.splits)
next
  case (CleanSecrets t locked limit)
  then show "secrets_ok rows \<Longrightarrow> ?thesis"
    by (auto simp: cleanup_secret_responses_def Let_def secrets_ok_def secret_ids)
qed

definition get_secret :: "secret_row list \<Rightarrow> string \<Rightarrow> secret_row option" where
  "get_secret rows k = find_row (\<lambda>r. sr_id r = k) rows"

definition secret_erased :: "secret_row \<Rightarrow> bool" where
  "secret_erased r \<longleftrightarrow> sr_encrypted_payload r = None"

interpretation erased: settled_rows secret_step secrets_ok get_secret secret_erased "\<lambda>r. (sr_tenant_id r, sr_created_by r)"
proof unfold_locales
  show "secrets_ok (secret_step op s)" if "secrets_ok s" for s op using that by (rule secrets_ok_step)
  show "\<exists>r'. get_secret (secret_step op s) k = Some r' \<and> secret_erased r' \<and> (sr_tenant_id r', sr_created_by r') = (sr_tenant_id r, sr_created_by r)"
    if "secrets_ok s" "get_secret s k = Some r" "secret_erased r" for s k r op
    using secrets.grows_find [OF secret_step_grows that(2) [unfolded get_secret_def], of op] that(3)
    by (auto simp: get_secret_def secret_kept_def secret_erased_def)
qed

lemma own_secret_found:
  assumes "secrets_ok rows" and "get_secret rows k = Some r" and "sr_tenant_id r = tid" "sr_created_by r = sub"
  shows "find_row (own_secret k tid sub) rows = Some r"
proof -
  have r: "r \<in> set rows" "sr_id r = k" using assms(2) unfolding get_secret_def by (auto dest: find_row_Some)
  then obtain r' where r': "find_row (own_secret k tid sub) rows = Some r'"
    using find_row_exI [OF r(1), of "own_secret k tid sub"] assms(3,4) by (auto simp: own_secret_def)
  then have "r' \<in> set rows" "sr_id r' = k" using find_row_Some [OF r'] by (auto simp: own_secret_def)
  then have "r' = r" using assms(1) r unfolding secrets_ok_def by (metis distinct_map inj_onD)
  with r' show ?thesis by simp
qed

lemma filter_own:
  "find_row (\<lambda>x. key x = k) xs = Some r \<Longrightarrow> distinct (map key xs) \<Longrightarrow> filter (\<lambda>x. key x = k) xs = [r]"
proof (induction xs)
  case (Cons x xs)
  then show ?case by (cases "key x = k") (auto simp: find_row_def filter_empty_conv image_iff)
qed (simp add: find_row_def)

lemma erased_refused:
  assumes "secrets_ok rows" and "get_secret rows k = Some r" and "secret_erased r"
    and "sr_tenant_id r = tid" "sr_created_by r = sub"
  shows "fst (secret_response_get su e ring t k tid sub rows) = Inl (HTTPException 410 ''secret_response_expired'')"
  using own_secret_found [OF assms(1,2,4,5)] assms(3)
  by (simp add: secret_response_get_def read_secret_response_def secret_erased_def)

text \<open>
  C22. A credential answer ends with its deadline. The first read after it is answered 410 and erases
  the ciphertext: from then on, whatever is recorded, read or cleaned up, with whatever keys and at
  whatever time, the table holds the row without a ciphertext, under its tenant and creator, and every
  read is answered 410.
\<close>

theorem expired_secret_gone:
  assumes "secrets_ok rows" and "get_secret rows k = Some r" and "sr_expires_at r \<le> t"
    and "sr_tenant_id r = tid" "sr_created_by r = sub"
  shows "fst (secret_response_get su e ring t k tid sub rows) = Inl (HTTPException 410 ''secret_response_expired'') \<and>
    (let later = run_ops secret_step ops (snd (secret_response_get su e ring t k tid sub rows)) in
      fst (secret_response_get su' e' ring' t' k tid sub later) = Inl (HTTPException 410 ''secret_response_expired'') \<and>
      map (\<lambda>x. (sr_encrypted_payload x, sr_tenant_id x, sr_created_by x)) (filter (\<lambda>x. sr_id x = k) later) = [(None, tid, sub)])"
proof -
  let ?s = "snd (secret_response_get su e ring t k tid sub rows)"
  have found: "find_row (own_secret k tid sub) rows = Some r" by (rule own_secret_found [OF assms(1,2,4,5)])
  have read: "read_secret_response su e ring t r = Inl (HTTPException 410 ''secret_response_expired'')"
    using assms(3) by (simp add: read_secret_response_def split: option.split)
  have s: "?s = (if sr_encrypted_payload r \<noteq> None then set_secret k (redacted_row t) rows else rows)"
    by (simp add: secret_response_get_def found read)
  have "\<exists>r1. get_secret ?s k = Some r1 \<and> secret_erased r1 \<and> sr_tenant_id r1 = tid \<and> sr_created_by r1 = sub"
  proof (cases "sr_encrypted_payload r = None")
    case True
    then show ?thesis using assms(2,4,5) by (simp add: s secret_erased_def)
  next
    case False
    have "get_secret (set_secret k (redacted_row t) rows) k = Some (redacted_row t r)"
      using assms(2) find_update_rows [of "\<lambda>r. sr_id r = k" sr_id "redacted_row t" k rows] find_row_Some
      by (fastforce simp: get_secret_def set_secret_def redacted_row_def)
    then show ?thesis using False assms(4,5) by (simp add: s secret_erased_def redacted_row_def)
  qed
  then obtain r1 where r1: "get_secret ?s k = Some r1" "secret_erased r1" "sr_tenant_id r1 = tid" "sr_created_by r1 = sub"
    by blast
  have ok: "secrets_ok ?s" using secrets_ok_step [OF assms(1), of "GetSecret su e ring t k tid sub"] by simp
  obtain r2 where "get_secret (run_ops secret_step ops ?s) k = Some r2" "secret_erased r2"
      "sr_tenant_id r2 = tid" "sr_created_by r2 = sub"
    using erased.settled_run [OF ok r1(1,2), of ops] r1(3,4) by auto
  note r2 = this and ok2 = erased.inv_run [OF ok, of ops]
  have "filter (\<lambda>x. sr_id x = k) (run_ops secret_step ops ?s) = [r2]"
    using r2(1) ok2 by (auto simp: get_secret_def secrets_ok_def dest: filter_own)
  moreover have "fst (secret_response_get su e ring t k tid sub rows) = Inl (HTTPException 410 ''secret_response_expired'')"
    by (simp add: secret_response_get_def found read)
  moreover note erased_refused [OF ok2 r2]
  ultimately show ?thesis using r2(2-4) by (simp add: Let_def secret_erased_def)
qed

text \<open>
  C23. Until then the creator, and nobody else, reads exactly what was stored: recorded at one time and
  read within the retention by the same tenant and subject, the answer carries the recorded document, up
  to the order of its keys; any other tenant or subject is told that it does not exist, and the row is
  unchanged.
\<close>

theorem secret_read_back:
  assumes "record_secret_response su e (Inr keys) t w x payload rows = Inr (item, rows')"
    and "t' < sr_expires_at item" and "cipher_laws su" and "length (sw_nonce w) = 12" and "decodes su (sort_doc payload)"
    and "sr_encrypted_payload item = Some raw" and "int (length raw) \<le> MAX_ENVELOPE_BYTES"
    and "\<forall>c k n. raw = su_dumps su (envelope_doc c k n) \<longrightarrow> decodes su (envelope_doc c k n)"
  shows "fst (secret_response_get su e (Inr keys) t' (sr_id item) (ss_tenant x) (ss_actor x) rows') =
      Inr (secret_body item (sort_doc payload)) \<and>
    ((tid, sub) \<noteq> (ss_tenant x, ss_actor x) \<longrightarrow>
       secret_response_get su e (Inr keys) t' (sr_id item) tid sub rows' = (Inl (HTTPException 404 ''secret_response_not_found''), rows'))"
proof -
  note item = record_secret_Inr [OF assms(1)]
  have raw: "seal su (Inr keys) (sw_nonce w) payload (secret_binding item) = Inr raw"
    using item assms(6) by auto
  have "unseal su e (Inr keys) raw (secret_binding item) = Inr (sort_doc payload)"
    using unseal_sealed [OF raw refl assms(3,4,7,5,8), of e "secret_binding item"] by simp
  then have read: "read_secret_response su e (Inr keys) t' item = Inr (sort_doc payload)"
    using assms(6) item assms(2) by (simp add: read_secret_response_def)
  have none: "find_row (own_secret (sr_id item) tid' sub') rows = None" for tid' sub'
    using item by (auto simp: find_row_None own_secret_def)
  have found: "find_row (own_secret (sr_id item) tid' sub') rows' =
      (if (tid', sub') = (ss_tenant x, ss_actor x) then Some item else None)" for tid' sub'
    using item none [of tid' sub'] by (auto simp: find_row_append own_secret_def)
  show ?thesis using read found by (simp add: secret_response_get_def)
qed

section \<open>Witnesses\<close>

definition sample_subject :: secret_subject where
  "sample_subject = \<lparr>ss_tenant = ''t1'', ss_type = ''smtp_credential'', ss_resource = ''c1'', ss_action = ''create'', ss_actor = ''u1''\<rparr>"

definition sample_secret_draws :: secret_draws where
  "sample_secret_draws = \<lparr>sw_hex = ''ab'', sw_nonce = plain_nonce\<rparr>"

definition sample_recorded :: "(secret_row \<times> secret_row list) res" where
  "sample_recorded = record_secret_response (plain_suite legacy_doc) Map.empty (Inr plain_ring) 0 sample_secret_draws
     sample_subject legacy_doc []"

lemma default_secret_retention: "retention_seconds Map.empty = Inr 86400"
  by (simp add: retention_seconds_def int_of_string_def strip_def lstrip_def is_space_def
      is_digit_def digit_value_def starts_with_def Let_def)

lemma sample_recorded_ok:
  "\<exists>item rows' raw. sample_recorded = Inr (item, rows') \<and> sr_encrypted_payload item = Some raw \<and> length raw \<le> 1000"
proof -
  have "(case seal (plain_suite legacy_doc) (Inr plain_ring) plain_nonce legacy_doc
        [''secret-response'', ''t1'', ''secresp_ab'', ''smtp_credential'', ''c1'', ''create''] of
        Inl _ \<Rightarrow> False | Inr raw \<Rightarrow> length raw \<le> 1000)" by code_simp
  then obtain raw where "seal (plain_suite legacy_doc) (Inr plain_ring) plain_nonce legacy_doc
        [''secret-response'', ''t1'', ''secresp_ab'', ''smtp_credential'', ''c1'', ''create''] = Inr raw" "length raw \<le> 1000"
    by (auto split: sum.splits)
  then show ?thesis
    by (simp add: sample_recorded_def record_secret_response_def default_secret_retention secret_binding_def
        sample_subject_def sample_secret_draws_def find_row_def Let_def)
qed

definition sample_secret :: secret_row where
  "sample_secret = \<lparr>sr_id = ''secresp_ab'', sr_tenant_id = ''t1'', sr_resource_type = ''smtp_credential'', sr_resource_id = ''c1'',
     sr_action = ''create'', sr_encrypted_payload = Some ''x'', sr_created_by = ''u1'', sr_created_at = 0,
     sr_expires_at = 1000, sr_retrieved_at = None, sr_redacted_at = None\<rparr>"

lemma expired_secret_gone_witness:
  "fst (secret_response_get (plain_suite legacy_doc) Map.empty (Inr plain_ring) 2000 ''secresp_ab'' ''t1'' ''u1'' [sample_secret]) =
     Inl (HTTPException 410 ''secret_response_expired'') \<and>
   map (\<lambda>x. (sr_encrypted_payload x, sr_tenant_id x, sr_created_by x)) (filter (\<lambda>x. sr_id x = ''secresp_ab'')
          (run_ops secret_step
             [CleanSecrets 2500 (\<lambda>_. False) 10, GetSecret (plain_suite legacy_doc) Map.empty (Inr plain_ring) 2600 ''secresp_ab'' ''t1'' ''u1'']
             (snd (secret_response_get (plain_suite legacy_doc) Map.empty (Inr plain_ring) 2000 ''secresp_ab'' ''t1'' ''u1'' [sample_secret])))) =
     [(None, ''t1'', ''u1'')]"
proof -
  have "secrets_ok [sample_secret]" "get_secret [sample_secret] ''secresp_ab'' = Some sample_secret" "sr_expires_at sample_secret \<le> 2000"
    "sr_tenant_id sample_secret = ''t1''" "sr_created_by sample_secret = ''u1''"
    by (simp_all add: secrets_ok_def get_secret_def sample_secret_def)
  from expired_secret_gone [OF this] show ?thesis unfolding Let_def by blast
qed

lemma secret_read_back_witness:
  "\<exists>item rows'. sample_recorded = Inr (item, rows') \<and>
     fst (secret_response_get (plain_suite legacy_doc) Map.empty (Inr plain_ring) 1000000 (sr_id item) ''t1'' ''u1'' rows') =
       Inr (secret_body item legacy_doc) \<and>
     fst (secret_response_get (plain_suite legacy_doc) Map.empty (Inr plain_ring) 1000000 (sr_id item) ''t2'' ''u1'' rows') =
       Inl (HTTPException 404 ''secret_response_not_found'')"
proof -
  let ?su = "plain_suite legacy_doc"
  obtain item rows' raw where run: "sample_recorded = Inr (item, rows')" and raw: "sr_encrypted_payload item = Some raw" "length raw \<le> 1000"
    using sample_recorded_ok by blast
  note rec = run [unfolded sample_recorded_def]
  have doc: "sort_doc legacy_doc = legacy_doc" "decodes ?su (sort_doc legacy_doc)"
    by (simp_all add: legacy_doc_def decodes_def plain_suite_def plain_dumps_def)
  have t: "1000000 < sr_expires_at item" using record_secret_Inr [OF rec] by simp
  have nonce: "length (sw_nonce sample_secret_draws) = 12" by (simp add: sample_secret_draws_def plain_nonce_def)
  have small: "int (length raw) \<le> MAX_ENVELOPE_BYTES" using raw(2) by (simp add: MAX_ENVELOPE_BYTES_def)
  have "\<forall>c k n. raw = su_dumps ?su (envelope_doc c k n) \<longrightarrow> decodes ?su (envelope_doc c k n)"
    using plain_decodes_envelope by blast
  note answers = secret_read_back [OF rec t plain_laws nonce doc(2) raw(1) small this, of "''t2''" "''u1''"]
  have x: "ss_tenant sample_subject = ''t1''" "ss_actor sample_subject = ''u1''" by (simp_all add: sample_subject_def)
  have ne: "(''t2'', ''u1'') \<noteq> (''t1'', ''u1'')" by simp
  show ?thesis by (intro exI [of _ item] exI [of _ "rows'"] conjI) (use run answers [unfolded x doc(1)] ne in simp_all)
qed

end
