(* ===== verification/Spec2Isabelle.thy ===== *)
theory Spec2Isabelle
  imports Prelude Models SmtpPolicy Guards SecurityPayload Contracts SecurityWorker BusinessEvents
    Platform BusinessEventWorker CampaignDispatch DurableResults MauticRequests MauticWorker
    ReplayPayloads Reconciliation PostalProvisioning CoreMail EmailDelivery MessageIntake MiddlewareCommands
    MiddlewareEvents PostalCallbacks ProviderOutbox Identity BrowserFlows BrowserSessions OidcCallback
    SessionHistory PlatformOwner BearerAuth SecretResponses
begin

text \<open>
  Verification of the Klyrow gateway, a multi-tenant e-mail platform: a FastAPI application over
  PostgreSQL with background workers that drive durable queues towards Postal (SMTP), Mautic
  (campaign automation) and the Codestra middleware (events). The code is under
  \<open>src/apps/gateway/app/\<close>; file names below are relative to it.

  \<^bold>\<open>How the parts interact.\<close> A request is authorised by the guards (tenant, suppression, consent,
  sandbox recipient, warm-up quota) and stored as a row of a durable queue. A worker claims a row in
  one transaction (it sets a lease and counts the attempt), calls the provider outside any
  transaction, and reports the outcome in a further transaction, which has to recognise that the
  claim is still its own. Expired leases are recovered, outcomes that leave open whether the provider
  acted are quarantined, and operators retry, cancel or reconcile what is left. The same shape occurs
  six times with different rules: SECURITY mail, core mail, business events, campaigns, Mautic
  operations and Postal provisioning. The property that matters most is common to them: under any interleaving of
  workers, requests and repairs a recorded outcome is final and an effect is not repeated. People reach
  the gateway through browser sessions: a flow that the browser starts is bound to it by a cookie, the
  identity provider sends the browser back to the callback, which resolves or onboards the person and
  opens a session; every later request is checked against the session, identity, membership and tenant
  of that moment, and the administration routes ask for the platform owner's fresh proof on top. Programs
  come with a bearer credential (the middleware's key, an API key, a token, or whatever the external
  resolver vouches for), checked on every request together with the tenant's rate.

  \<^bold>\<open>Theories.\<close>
  \<^item> \<open>Prelude\<close>: exceptions as values, \<open>str\<close> operations, environment, JSON documents, tables and
    their queries. \<open>Models\<close>: the rows of \<open>main.py\<close>, \<open>provider.py\<close>, \<open>saas.py\<close>, \<open>preferences.py\<close>,
    \<open>billing.py\<close> that several components use. \<open>Platform\<close>: \<open>urlsplit\<close> and \<open>runtime_secret\<close>.
  \<^item> \<open>Contracts\<close>: the interfaces as locales. \<open>step_system\<close> (every operation keeps the invariant),
    \<open>settled_rows\<close> (a settled row keeps what it decided, in every run) and \<open>row_order\<close> (tables whose
    rows are only rewritten along an order and appended). Each queue interprets them on its own
    operations, in its own theory.
  \<^item> \<open>SmtpPolicy\<close>: \<open>smtp_policy.py\<close>, \<open>delivery_safety.py\<close>, \<open>provider_outcome.py\<close>, with
    characterisations of when a stream may leave the sandbox and when live delivery is on.
  \<^item> \<open>Guards\<close>: \<open>guards.py\<close>; soundness of \<open>authorize_send\<close>.
  \<^item> \<open>SecurityPayload\<close>, \<open>SecurityWorker\<close>: \<open>security_payload.py\<close>, \<open>security_smtp_worker.py\<close> and the
    lease recovery of \<open>provider.py\<close>; key rotation, the claim, finality of outcomes, purge.
  \<^item> \<open>BusinessEvents\<close>, \<open>BusinessEventWorker\<close>: \<open>business_events.py\<close>, \<open>business_event_worker.py\<close>;
    envelope validation and its round trip, idempotent enqueue, fenced completion, retry schedule.
  \<^item> \<open>CampaignDispatch\<close>: \<open>campaign_dispatcher.py\<close>; frozen audiences, fences, pause, completion.
  \<^item> \<open>DurableResults\<close>: \<open>durable_results.py\<close>, \<open>durable_keys.py\<close>; sealing bound to its row, redaction against an
    independent word list, retention and readback.
  \<^item> \<open>MauticRequests\<close>, \<open>MauticWorker\<close>: \<open>mautic_contract.py\<close>, \<open>mautic_adapter.py\<close>, the operator
    routes of \<open>operations.py\<close>; confinement of the provider request, late completions, the circuit, and
    why an attempt with an unknown effect is the operation's last.
  \<^item> \<open>ReplayPayloads\<close>, \<open>Reconciliation\<close>: \<open>provider_reconciliation_fixes.py\<close>; authentic attachments,
    progress and tenant isolation of the dead-letter reconciliation.
  \<^item> \<open>PostalProvisioning\<close>: \<open>postal_provisioning.py\<close>; live domain credentials, the key of a send,
    bounded attempts.
  \<^item> \<open>CoreMail\<close>, \<open>EmailDelivery\<close>: the canary and campaign policies and lifecycle events of
    \<open>main.py\<close>; the two delivery loops of the core outbox (\<open>tenant_postal_delivery.py\<close>, \<open>main.py\<close>): a
    submission that may have been accepted is not repeated, the canary policy confines what leaves, in
    every later state as well.
  \<^item> \<open>MessageIntake\<close>: \<open>_send\<close> of \<open>main.py\<close> and the version of \<open>runtime_authority_fixes.py\<close>, with the
    gates of \<open>operations.py\<close>, \<open>agent_mailboxes.py\<close>, \<open>delivery_controls.py\<close>: soundness of an accepted
    request, replay under its key, the reservation bound, agreement with the delivery policy.
  \<^item> \<open>MiddlewareCommands\<close>: the inbound command route of \<open>main.py\<close> with its execution, replay, leases,
    cancellation and read-back.
  \<^item> \<open>MiddlewareEvents\<close>, \<open>PostalCallbacks\<close>: \<open>emit_middleware\<close> of \<open>main.py\<close>; the signed callbacks of Postal
    (\<open>postal_callback_attribution.py\<close>), the bridge hook, \<open>persist_email_event\<close> and the retry loop of
    \<open>main.py\<close>: what a callback may touch of other tenants, suppression after a hard bounce, an end to the
    retries.
  \<^item> \<open>ProviderOutbox\<close>: \<open>provider_outbox_delivery.py\<close>; finality of outcomes, a pass that settles all it
    claims, one idempotency key per stored row.
  \<^item> \<open>Identity\<close>: the rows of \<open>tenancy.py\<close>, \<open>auth_bff.py\<close>, \<open>tenancy_onboarding.py\<close>, the identity profiles and
    the configuration of the browser surface. \<open>BrowserFlows\<close>: authorization addresses, the flow cookies
    (\<open>browser_security_fixes.py\<close>, \<open>browser_flow_cookie_authority.py\<close>) and the routes that start a flow; a
    started flow is bound to its browser and survives other tabs.
  \<^item> \<open>BrowserSessions\<close>: the session check, rotation and the session routes (\<open>auth_bff.py\<close>,
    \<open>browser_auth_actions.py\<close>, the workspace switch of \<open>tenancy_onboarding.py\<close>): who passes the check, and
    what each route does to the session table.
  \<^item> \<open>OidcCallback\<close>: the callback of \<open>browser_security_fixes.py\<close> with onboarding, invitations and the
    step-up guards of \<open>browser_step_up_identity.py\<close>, \<open>browser_step_up_deadline.py\<close>: a transaction is spent
    once, the person is the token's subject, a step-up stays within its session.
  \<^item> \<open>SessionHistory\<close>: all writers of the session table together, the routes of \<open>BrowserSessions\<close> and the
    callback, refined to a store of live sessions: a step forgets some, exchanges one for one of the same
    person that ends no later, or opens one; an ended session stays ended.
  \<^item> \<open>PlatformOwner\<close>: \<open>platform_owner_policy.py\<close>, \<open>platform_owner.py\<close>, \<open>platform_owner_api.py\<close>; what a
    request that passes the guards proves about the owner, on both paths.
  \<^item> \<open>BearerAuth\<close>: \<open>auth\<close> of \<open>main.py\<close> with its rate limits, \<open>capabilities.py\<close>; who a bearer caller can be,
    what a platform role needs, the bound on a tenant's requests in every minute.
  \<^item> \<open>SecretResponses\<close>: \<open>secret_responses.py\<close>; an answer with a credential is read by its creator until
    the deadline and by nobody after it.

  \<^bold>\<open>Correspondence.\<close> A SQLAlchemy model is a record with the columns the code uses, a table a list of
  rows, a query \<open>find_row\<close> or \<open>select_rows\<close> (filter, stable sort, limit). A transaction is a function
  on the state; one that raises leaves the state as it was, which is the rollback. The rows that
  another transaction has locked, which \<open>SKIP LOCKED\<close> leaves out, are an argument \<open>locked\<close>. What
  happens between the transactions of one worker is an argument as well (\<open>meanwhile\<close>, or the list of
  operations of a run), so a theorem about a run quantifies over all interleavings of transactions.
  The clock, fresh identifiers, nonces and random draws are arguments. An instant is an \<open>int\<close> of
  microseconds. Python integers are \<open>int\<close>; database columns are not bounded.

  \<^bold>\<open>Parameters.\<close> Fernet, AES-GCM, SHA-256, base64, JSON text, MIME parsing, the HTTP clients and the
  file system are arguments. Where a theorem needs a law of them (decryption inverts encryption under
  the same key and associated data, decoding inverts encoding) it is a named hypothesis:
  \<open>cipher_laws\<close>, \<open>vault_laws\<close> and the like; the witnesses instantiate the parameters with concrete
  functions.

  \<^bold>\<open>Bounds.\<close> No fuel is used. Loops over claimed rows are structural recursion over the rows or over
  the batch limit, as the code's \<open>for\<close> loops are; the endless polling loops around them are not
  modelled, a run is any finite list of operations instead.

  \<^bold>\<open>What the lemmas show.\<close> Each queue theory proves, per operation, a case rule (what the operation
  does on each branch), preservation of the queue's invariant and that rows change only along the
  row order; the interpretations turn these into facts about whole runs, and the properties are
  read off them. The properties numbered C1 to C40 stand at the end of their theories; those of kind
  error or liveness that describe a defect say so: a campaign item orphaned by a pause between two
  transactions, an empty subject that escapes the dispatcher, indeterminate messages that keep
  their ciphertext, an infinite attempt number that stops the reconciliation, an unfenced failure
  report in the provisioning worker, a message resent after an unreadable acceptance, a missing
  credential that blocks the delivery of every tenant, a reservation burnt by a rejected command, the
  callbacks of opened and clicked messages that cannot be processed, bridge events lost between
  two commits, a logout that leaves the session alive when its stored token cannot be opened, a flow
  cookie, a token time and a disabled identity that end in unhandled errors, and an issuer with a
  trailing slash that shuts out the owner's bearer calls, a callback that marks another tenant's message
  without an outbox row, and callback events left in retry with five attempts.

  \<^bold>\<open>Not modelled.\<close> The HTTP layer (request parsing, response shaping, dependency injection, the
  replacement of routes at start-up), the SMTP server's socket protocol, OpenAPI generation, metrics and
  tracing, command-line maintenance, and the other languages of the repository: they are input and
  output around the modelled state. Of the routes that a later module replaces only the installed
  version is modelled. The read-only listings of the production API are queries without a state of
  their own. The intake, domain verification and SMTP credentials of \<open>provider.py\<close>, the customer data of
  \<open>saas.py\<close>, billing and webmail are rows with checks of the same kinds and are left out for their size.
\<close>

end
